(* ===== verification/Prelude.thy ===== *)
theory Prelude
  imports Complex_Main "HOL-Library.Word" "HOL-Library.Product_Lexorder"
begin

text \<open>
  Shared vocabulary of the development: identifiers and their printed form, JSON documents,
  Python's string helpers, instants and durations, rows of a database table, and the
  error-or-value results of the services.  The generic lemmas about tables and results that
  every component uses are collected in \<open>table_simps\<close> and \<open>result_simps\<close>.
\<close>

named_theorems table_simps \<open>rewriting of reads after writes on a table\<close>
named_theorems result_simps \<open>case distinction on error-or-value results\<close>

section \<open>Results\<close>

text \<open>A Python call that may raise: \<open>Inl\<close> the exception, \<open>Inr\<close> the value.\<close>

type_synonym ('e, 'a) res = "'e + 'a"

definition bind_res :: "('e, 'a) res \<Rightarrow> ('a \<Rightarrow> ('e, 'b) res) \<Rightarrow> ('e, 'b) res" where
  "bind_res r f = (case r of Inl e \<Rightarrow> Inl e | Inr a \<Rightarrow> f a)"

lemma bind_res_simps [simp]:
  "bind_res (Inl e) f = Inl e"
  "bind_res (Inr a) f = f a"
  by (simp_all add: bind_res_def)

lemma bind_res_Inr_iff [result_simps]:
  "bind_res r f = Inr b \<longleftrightarrow> (\<exists>a. r = Inr a \<and> f a = Inr b)"
  by (cases r) auto

lemma bind_res_Inl_iff [result_simps]:
  "bind_res r f = Inl e \<longleftrightarrow> r = Inl e \<or> (\<exists>a. r = Inr a \<and> f a = Inl e)"
  by (cases r) auto

text \<open>A guard that raises \<open>e\<close> unless \<open>b\<close> holds.\<close>

definition check_that :: "bool \<Rightarrow> 'e \<Rightarrow> ('e, unit) res" where
  "check_that b e = (if b then Inr () else Inl e)"

lemma check_that_Inr [simp]: "check_that b e = Inr u \<longleftrightarrow> b"
  by (simp add: check_that_def)

lemma check_that_Inl [simp]: "check_that b e = Inl e' \<longleftrightarrow> \<not> b \<and> e = e'"
  by (auto simp: check_that_def)

lemma check_that_True [simp]: "check_that True e = Inr ()"
  by (simp add: check_that_def)

lemma check_that_False [simp]: "check_that False e = Inl e"
  by (simp add: check_that_def)

definition of_option :: "'e \<Rightarrow> 'a option \<Rightarrow> ('e, 'a) res" where
  "of_option e x = (case x of None \<Rightarrow> Inl e | Some a \<Rightarrow> Inr a)"

lemma of_option_simps [simp]:
  "of_option e None = Inl e"
  "of_option e (Some a) = Inr a"
  by (simp_all add: of_option_def)

lemma of_option_Inr [simp]: "of_option e x = Inr a \<longleftrightarrow> x = Some a"
  by (cases x) auto

lemma of_option_Inl [simp]: "of_option e x = Inl e' \<longleftrightarrow> x = None \<and> e = e'"
  by (cases x) auto

section \<open>Tables\<close>

text \<open>
  A table is the list of its rows, in the order the database happens to scan them; every
  theorem quantifies over all such lists, so it holds for any scan order.
  \<open>get_row\<close> is \<open>session.get\<close>, \<open>put_row\<close> is the write-back of a modified
  row at \<open>flush\<close>, and \<open>rows @ [r]\<close> is an insert.
\<close>

definition get_row :: "('r \<Rightarrow> 'k) \<Rightarrow> 'k \<Rightarrow> 'r list \<Rightarrow> 'r option" where
  "get_row key k rows = find (\<lambda>r. key r = k) rows"

definition put_row :: "('r \<Rightarrow> 'k) \<Rightarrow> 'r \<Rightarrow> 'r list \<Rightarrow> 'r list" where
  "put_row key r rows = map (\<lambda>r'. if key r' = key r then r else r') rows"

definition unique_by :: "('r \<Rightarrow> 'k) \<Rightarrow> 'r list \<Rightarrow> bool" where
  "unique_by key rows \<longleftrightarrow> distinct (map key rows)"

lemma get_row_Some_mem: "get_row key k rows = Some r \<Longrightarrow> r \<in> set rows \<and> key r = k"
  by (auto simp: get_row_def find_Some_iff)

lemma get_row_None_iff: "get_row key k rows = None \<longleftrightarrow> (\<forall>r\<in>set rows. key r \<noteq> k)"
  by (auto simp: get_row_def find_None_iff)

lemma get_row_unique:
  assumes "unique_by key rows" "r \<in> set rows" "key r = k"
  shows "get_row key k rows = Some r"
proof -
  obtain r' where r': "get_row key k rows = Some r'"
    using assms(2,3) by (cases "get_row key k rows") (auto simp: get_row_None_iff)
  then have "r' \<in> set rows" "key r' = key r" using get_row_Some_mem assms(3) by fastforce+
  then have "r' = r" using assms(1,2) by (auto simp: unique_by_def distinct_map inj_on_def)
  with r' show ?thesis by simp
qed

lemma get_row_Nil [simp]: "get_row key k [] = None"
  by (simp add: get_row_def)

lemma get_row_Cons:
  "get_row key k (x # xs) = (if key x = k then Some x else get_row key k xs)"
  by (simp add: get_row_def)

lemma get_row_append [table_simps]:
  "get_row key k (xs @ ys) =
     (case get_row key k xs of Some r \<Rightarrow> Some r | None \<Rightarrow> get_row key k ys)"
  by (induction xs) (auto simp: get_row_def)

lemma get_put_same [table_simps]:
  "get_row key (key r) (put_row key r rows) =
     (if get_row key (key r) rows = None then None else Some r)"
  by (induction rows) (auto simp: get_row_def put_row_def)

lemma get_put_other [table_simps]:
  "k \<noteq> key r \<Longrightarrow> get_row key k (put_row key r rows) = get_row key k rows"
  by (induction rows) (auto simp: get_row_def put_row_def)

lemma map_key_put_row [simp]: "map key (put_row key r rows) = map key rows"
  by (auto simp: put_row_def)

lemma length_put_row [simp]: "length (put_row key r rows) = length rows"
  by (simp add: put_row_def)

lemma unique_by_put_row [simp]: "unique_by key (put_row key r rows) = unique_by key rows"
  by (simp add: unique_by_def)

lemma unique_by_snoc:
  "unique_by key (rows @ [r]) \<longleftrightarrow> unique_by key rows \<and> key r \<notin> key ` set rows"
  by (auto simp: unique_by_def)

lemma unique_by_new:
  "unique_by key rows \<Longrightarrow> \<forall>x\<in>set rows. key x \<noteq> key m \<Longrightarrow> unique_by key (rows @ [m])"
  by (auto simp: unique_by_snoc image_iff)

lemma filter_unique_row:
  assumes "unique_by key rows" "get_row key k rows = Some r"
  shows "filter (\<lambda>x. key x = k) rows = [r]"
  using assms
proof (induction rows)
  case (Cons x xs)
  show ?case
  proof (cases "key x = k")
    case True
    then have "filter (\<lambda>x. key x = k) xs = []"
      using Cons.prems(1) by (auto simp: unique_by_def filter_empty_conv image_iff)
    then show ?thesis using True Cons.prems(2) by (simp add: get_row_Cons)
  qed (use Cons in \<open>simp add: get_row_Cons unique_by_def\<close>)
qed simp

lemma set_put_row:
  "x \<in> set (put_row key r rows) \<Longrightarrow> x = r \<or> (x \<in> set rows \<and> key x \<noteq> key r)"
  by (auto simp: put_row_def split: if_splits)

lemma mem_put_row_iff:
  "x \<in> set (put_row key r rows) \<longleftrightarrow>
     (x = r \<and> (\<exists>r'\<in>set rows. key r' = key r)) \<or> (x \<in> set rows \<and> key x \<noteq> key r)"
  by (auto simp: put_row_def image_iff)

lemma put_row_map_cong:
  assumes "\<And>r'. r' \<in> set rows \<Longrightarrow> key r' = key r \<Longrightarrow> g r' = g r"
  shows "map g (put_row key r rows) = map g rows"
  using assms by (auto simp: put_row_def)

lemma put_row_absent: "\<forall>x\<in>set rows. key x \<noteq> key r \<Longrightarrow> put_row key r rows = rows"
  by (induction rows) (auto simp: put_row_def)

lemma put_row_id: "unique_by key rows \<Longrightarrow> r \<in> set rows \<Longrightarrow> put_row key r rows = rows"
  by (auto simp: unique_by_def distinct_map inj_on_def put_row_def intro!: map_idI)

text \<open>Writing back a changed row, when its key is unique.\<close>

lemma put_row_as_map:
  assumes "unique_by key rows" "m \<in> set rows" "key (f m) = key m"
  shows "put_row key (f m) rows = map (\<lambda>x. if key x = key m then f x else x) rows"
  using assms by (auto simp: put_row_def unique_by_def distinct_map inj_on_def)

lemma unique_by_eq: "unique_by key rows \<Longrightarrow> x \<in> set rows \<Longrightarrow> y \<in> set rows \<Longrightarrow> key x = key y \<Longrightarrow> x = y"
  by (auto simp: unique_by_def distinct_map inj_on_def)

lemma put_row_other_key:
  assumes "unique_by pk rows" "unique_by key rows" "c \<in> set rows" "pk c' = pk c" "key c' = key c"
  shows "put_row pk c' rows = put_row key c' rows"
proof -
  have "pk x = pk c' \<longleftrightarrow> key x = key c'" if "x \<in> set rows" for x
    using that assms unique_by_eq[OF assms(1) that assms(3)] unique_by_eq[OF assms(2) that assms(3)] by auto
  then show ?thesis unfolding put_row_def by (intro map_cong) auto
qed

lemma put_row_append [table_simps]:
  "put_row key r (xs @ ys) = put_row key r xs @ put_row key r ys"
  by (simp add: put_row_def)

lemma put_row_Nil [simp]: "put_row key r [] = []"
  by (simp add: put_row_def)

lemma filter_put_row_shrinks:
  assumes "P r0" "r0 \<in> set rows" "key r = key r0" "\<not> P r"
  shows "length (filter P (put_row key r rows)) < length (filter P rows)"
  using assms(2)
proof (induction rows)
  case (Cons x rows)
  have le: "length (filter P (put_row key r ys)) \<le> length (filter P ys)" for ys
    using assms(4) by (induction ys) (auto simp: put_row_def)
  show ?case
  proof (cases "x = r0")
    case True
    then show ?thesis using assms(1,3,4) le[of rows] by (simp add: put_row_def)
  next
    case False
    then have "length (filter P (put_row key r rows)) < length (filter P rows)"
      using Cons by simp
    then show ?thesis using assms(4) by (auto simp: put_row_def)
  qed
qed simp

text \<open>
  The interface a service has to a table of rows it reads and writes back by primary key.
\<close>

locale row_table =
  fixes key :: "'r \<Rightarrow> 'k"
    and get :: "'k \<Rightarrow> 'r list \<Rightarrow> 'r option"
    and put :: "'r \<Rightarrow> 'r list \<Rightarrow> 'r list"
  assumes get_mem: "get k t = Some r \<Longrightarrow> r \<in> set t \<and> key r = k"
    and get_complete: "r \<in> set t \<Longrightarrow> get (key r) t \<noteq> None"
    and get_put_eq: "get (key r) t \<noteq> None \<Longrightarrow> get (key r) (put r t) = Some r"
    and get_put_neq: "k \<noteq> key r \<Longrightarrow> get k (put r t) = get k t"
    and put_mem: "x \<in> set (put r t) \<Longrightarrow> x = r \<or> (x \<in> set t \<and> key x \<noteq> key r)"
    and put_keys: "map key (put r t) = map key t"
begin

lemma put_preserves_all:
  assumes "\<forall>x\<in>set t. P x" "P r"
  shows "\<forall>x\<in>set (put r t). P x"
  using assms put_mem by blast

lemma put_put_get: "get (key r) t \<noteq> None \<Longrightarrow> key r' = key r \<Longrightarrow>
    get (key r) (put r' (put r t)) = Some r'"
  using get_put_eq[of r t] get_put_eq[of r' "put r t"] by simp

lemma put_distinct: "distinct (map key t) \<Longrightarrow> distinct (map key (put r t))"
  by (simp add: put_keys)

lemma get_after_put: "get (key r) t \<noteq> None \<Longrightarrow>
    get k (put r t) = (if k = key r then Some r else get k t)"
  using get_put_eq get_put_neq by simp

end

section \<open>Python strings\<close>

text \<open>
  A \<open>str\<close> is modelled as a \<open>string\<close> whose characters stand for the code points
  \<open>0\<close> to \<open>255\<close>.  \<open>py_isspace\<close> lists the code points of that range
  which \<open>str.strip\<close> removes; \<open>casefold\<close> follows Unicode case folding on it,
  except that the micro sign, which folds to a letter outside the range, is kept.
\<close>

definition py_isspace :: "char \<Rightarrow> bool" where
  "py_isspace c = (let n = (of_char c :: nat) in
     (9 \<le> n \<and> n \<le> 13) \<or> (28 \<le> n \<and> n \<le> 32) \<or> n = 133 \<or> n = 160)"

definition lstrip :: "string \<Rightarrow> string" where
  "lstrip s = dropWhile py_isspace s"

definition strip :: "string \<Rightarrow> string" where
  "strip s = rev (dropWhile py_isspace (rev (lstrip s)))"

definition fold_char :: "char \<Rightarrow> string" where
  "fold_char c = (let n = (of_char c :: nat) in
     if 65 \<le> n \<and> n \<le> 90 then [char_of (n + 32)]
     else if n = 223 then ''ss''
     else if 192 \<le> n \<and> n \<le> 222 \<and> n \<noteq> 215 then [char_of (n + 32)]
     else [c])"

definition casefold :: "string \<Rightarrow> string" where
  "casefold s = concat (map fold_char s)"

fun startswith :: "string \<Rightarrow> string \<Rightarrow> bool" where
  "startswith s [] = True"
| "startswith [] (p # ps) = False"
| "startswith (c # cs) (p # ps) = (c = p \<and> startswith cs ps)"

definition endswith :: "string \<Rightarrow> string \<Rightarrow> bool" where
  "endswith s suffix = startswith (rev s) (rev suffix)"

text \<open>\<open>s.partition(sep)\<close>: the text before the first \<open>sep\<close> and, if it occurs, the rest.\<close>

fun partition_on :: "string \<Rightarrow> string \<Rightarrow> string \<times> string option" where
  "partition_on sep [] = ([], if sep = [] then Some [] else None)"
| "partition_on sep (c # cs) =
     (if startswith (c # cs) sep then ([], Some (drop (length sep) (c # cs)))
      else let (p, r) = partition_on sep cs in (c # p, r))"

definition py_nonblank :: "string \<Rightarrow> bool" where
  "py_nonblank s \<longleftrightarrow> strip s \<noteq> []"

lemma startswith_append [simp]: "startswith (p @ s) p"
  by (induction p) auto

lemma startswith_iff: "startswith s p \<longleftrightarrow> (\<exists>t. s = p @ t)"
  by (induction s p rule: startswith.induct) auto

lemma lstrip_idem [simp]: "lstrip (lstrip s) = lstrip s"
  by (simp add: lstrip_def)

lemma lstrip_cases: "lstrip s = [] \<or> \<not> py_isspace (hd (lstrip s))"
  unfolding lstrip_def using hd_dropWhile by blast

lemma dropWhile_hd_keep: "xs = [] \<or> \<not> P (hd xs) \<Longrightarrow> dropWhile P xs = xs"
  by (cases xs) auto

lemma strip_hd: "strip s = [] \<or> \<not> py_isspace (hd (strip s))"
proof (cases "strip s = []")
  case False
  let ?t = "lstrip s"
  obtain pre where pre: "rev ?t = pre @ dropWhile py_isspace (rev ?t)"
    by (metis takeWhile_dropWhile_id)
  then have "?t = strip s @ rev pre"
    by (metis rev_append rev_rev_ident strip_def)
  then have "hd ?t = hd (strip s)" "?t \<noteq> []" using False by auto
  then show ?thesis using lstrip_cases[of s] by auto
qed simp

lemma strip_idem [simp]: "strip (strip s) = strip s"
proof -
  have "lstrip (strip s) = strip s"
    using strip_hd[of s] by (simp add: lstrip_def dropWhile_hd_keep)
  then show ?thesis by (simp add: strip_def)
qed

lemma length_strip: "length (strip s) \<le> length s"
  by (metis le_trans length_dropWhile_le length_rev lstrip_def strip_def)

section \<open>Identifiers\<close>

text \<open>A \<open>UUID\<close> is a 128-bit number; \<open>str(uuid)\<close> prints it as 8-4-4-4-12 hex digits.\<close>

type_synonym uuid = "128 word"

definition hex_digit :: "nat \<Rightarrow> char" where
  "hex_digit d = (if d < 10 then char_of (48 + d) else char_of (87 + d))"

primrec hex_digits :: "nat \<Rightarrow> nat \<Rightarrow> string" where
  "hex_digits 0 n = []"
| "hex_digits (Suc k) n = hex_digits k (n div 16) @ [hex_digit (n mod 16)]"

definition uuid_str :: "uuid \<Rightarrow> string" where
  "uuid_str u = (let h = hex_digits 32 (unat u) in
     take 8 h @ ''-'' @ take 4 (drop 8 h) @ ''-'' @ take 4 (drop 12 h) @ ''-'' @
     take 4 (drop 16 h) @ ''-'' @ drop 20 h)"

lemma length_hex_digits [simp]: "length (hex_digits k n) = k"
  by (induction k arbitrary: n) auto

lemma hex_digit_inj: "d < 16 \<Longrightarrow> e < 16 \<Longrightarrow> hex_digit d = hex_digit e \<Longrightarrow> d = e"
proof -
  assume d: "d < 16" and e: "e < 16" and eq: "hex_digit d = hex_digit e"
  have "of_char (hex_digit x) = (if x < 10 then 48 + x else 87 + x)" if "x < 16" for x :: nat
    using that by (auto simp: hex_digit_def)
  then have "(if d < 10 then 48 + d else 87 + d) = (if e < 10 then 48 + e else 87 + e)"
    using d e eq by metis
  then show "d = e" using d e by (auto split: if_splits)
qed

lemma hex_digits_inj:
  "m < 16 ^ k \<Longrightarrow> n < 16 ^ k \<Longrightarrow> hex_digits k m = hex_digits k n \<Longrightarrow> m = n"
proof (induction k arbitrary: m n)
  case (Suc k)
  from Suc.prems(3) have h: "hex_digits k (m div 16) = hex_digits k (n div 16)"
    and d: "hex_digit (m mod 16) = hex_digit (n mod 16)" by auto
  have "m div 16 < 16 ^ k" "n div 16 < 16 ^ k"
    using Suc.prems(1,2) by (simp_all add: less_mult_imp_div_less mult.commute)
  with h have "m div 16 = n div 16" using Suc.IH by blast
  moreover have "m mod 16 = n mod 16" using d hex_digit_inj by simp
  ultimately show ?case by (metis div_mult_mod_eq)
qed simp

lemma hex_groups: "h = take 8 h @ take 4 (drop 8 h) @ take 4 (drop 12 h) @ take 4 (drop 16 h) @ drop 20 h"
  for h :: string
proof -
  have d: "drop 12 h = drop 4 (drop 8 h)" "drop 16 h = drop 4 (drop 12 h)"
    "drop 20 h = drop 4 (drop 16 h)" by simp_all
  have "h = take 8 h @ drop 8 h" by (simp only: append_take_drop_id)
  also have "drop 8 h = take 4 (drop 8 h) @ drop 12 h"
    by (simp only: d(1) append_take_drop_id)
  also have "drop 12 h = take 4 (drop 12 h) @ drop 16 h"
    by (simp only: d(2) append_take_drop_id)
  also have "drop 16 h = take 4 (drop 16 h) @ drop 20 h"
    by (simp only: d(3) append_take_drop_id)
  finally show ?thesis .
qed

lemma uuid_str_inj [simp]: "uuid_str u = uuid_str v \<longleftrightarrow> u = v"
proof
  assume eq: "uuid_str u = uuid_str v"
  let ?a = "hex_digits 32 (unat u)" and ?b = "hex_digits 32 (unat v)"
  have parts: "take 8 ?a = take 8 ?b" "take 4 (drop 8 ?a) = take 4 (drop 8 ?b)"
    "take 4 (drop 12 ?a) = take 4 (drop 12 ?b)" "take 4 (drop 16 ?a) = take 4 (drop 16 ?b)"
    "drop 20 ?a = drop 20 ?b"
    using eq by (auto simp: uuid_str_def Let_def append_eq_append_conv)
  have "?a = ?b" using hex_groups[of ?a] hex_groups[of ?b] parts by argo
  moreover have "unat u < 16 ^ 32" "unat v < 16 ^ 32"
    using unsigned_less[of u, where ?'a = nat] unsigned_less[of v, where ?'a = nat] by simp_all
  ultimately have "unat u = unat v" by (metis hex_digits_inj)
  then show "u = v" by (simp only: word_unat_eq_iff)
qed simp

section \<open>Instants and durations\<close>

text \<open>
  An instant is its number of microseconds since the epoch in UTC, the resolution of Python's
  \<open>datetime\<close>.  Durations and limits that the code keeps as \<open>float\<close> seconds are
  rationals; \<open>timedelta(seconds=s)\<close> rounds to whole microseconds, ties to even.
\<close>

type_synonym instant = int

definition round_half_even :: "rat \<Rightarrow> int" where
  "round_half_even x = (let f = \<lfloor>x\<rfloor>; d = x - of_int f in
     if d < 1 / 2 then f else if d > 1 / 2 then f + 1 else if even f then f else f + 1)"

definition seconds :: "rat \<Rightarrow> int" where
  "seconds s = round_half_even (s * 1000000)"

definition total_seconds :: "int \<Rightarrow> rat" where
  "total_seconds d = of_int d / 1000000"

text \<open>A Python \<open>datetime\<close>: naive wall-clock time, or wall-clock time with a UTC offset.\<close>

datatype py_datetime = Naive instant | Aware instant int

lemma round_half_even_mono_nonneg: "0 \<le> x \<Longrightarrow> 0 \<le> round_half_even x"
  by (auto simp: round_half_even_def Let_def)

lemma round_half_even_ge_one: "1 \<le> x \<Longrightarrow> 1 \<le> round_half_even x"
proof -
  assume "1 \<le> x"
  then have "1 \<le> \<lfloor>x\<rfloor>" by (simp add: le_floor_iff)
  then show ?thesis by (auto simp: round_half_even_def Let_def)
qed

lemma seconds_nonneg: "0 \<le> s \<Longrightarrow> 0 \<le> seconds s"
  by (simp add: seconds_def round_half_even_mono_nonneg)

lemma seconds_pos: "1 / 1000000 \<le> s \<Longrightarrow> 0 < seconds s"
proof -
  assume "1 / 1000000 \<le> s"
  then have "1 \<le> s * 1000000" by (simp add: field_simps)
  then have "1 \<le> seconds s" unfolding seconds_def by (rule round_half_even_ge_one)
  then show ?thesis by simp
qed

section \<open>JSON documents\<close>

datatype json =
    JNull
  | JBool bool
  | JInt int
  | JFloat rat
  | JStr string
  | JArr "json list"
  | JObj "(string \<times> json) list"

text \<open>\<open>d.get(k)\<close>: \<open>None\<close> both for a missing key and for a stored \<open>None\<close>.\<close>

fun json_lookup :: "json \<Rightarrow> string \<Rightarrow> json option" where
  "json_lookup (JObj kvs) k = map_of kvs k"
| "json_lookup _ k = None"

definition json_get :: "json \<Rightarrow> string \<Rightarrow> json" where
  "json_get j k = (case json_lookup j k of None \<Rightarrow> JNull | Some v \<Rightarrow> v)"

fun is_obj :: "json \<Rightarrow> bool" where
  "is_obj (JObj _) = True"
| "is_obj _ = False"

fun json_keys :: "json \<Rightarrow> string list" where
  "json_keys (JObj kvs) = map fst kvs"
| "json_keys _ = []"

definition json_opt_str :: "string option \<Rightarrow> json" where
  "json_opt_str x = (case x of None \<Rightarrow> JNull | Some s \<Rightarrow> JStr s)"

definition json_opt_uuid :: "uuid option \<Rightarrow> json" where
  "json_opt_uuid x = (case x of None \<Rightarrow> JNull | Some u \<Rightarrow> JStr (uuid_str u))"

text \<open>The JSON array of strings, if that is what it is.\<close>

fun json_strings :: "json list \<Rightarrow> string list option" where
  "json_strings [] = Some []"
| "json_strings (JStr s # js) = map_option (Cons s) (json_strings js)"
| "json_strings (_ # js) = None"

lemma json_strings_map_JStr [simp]: "json_strings (map JStr xs) = Some xs"
  by (induction xs) auto

lemma map_of_in_keys: "map_of kvs k \<noteq> None \<longleftrightarrow> k \<in> set (map fst kvs)"
  by (auto simp: map_of_eq_None_iff image_iff)

section \<open>Decimal numbers\<close>

fun nat_str :: "nat \<Rightarrow> string" where
  "nat_str n = (if n < 10 then [char_of (48 + n)] else nat_str (n div 10) @ [char_of (48 + n mod 10)])"

declare nat_str.simps [simp del]

definition int_str :: "int \<Rightarrow> string" where
  "int_str i = (if i < 0 then CHR ''-'' # nat_str (nat (- i)) else nat_str (nat i))"

text \<open>\<open>max(xs)\<close> of a non-empty list, \<open>None\<close> for the empty one.\<close>

definition list_max :: "'a::linorder list \<Rightarrow> 'a option" where
  "list_max xs = (case xs of [] \<Rightarrow> None | y # ys \<Rightarrow> Some (fold max ys y))"

lemma list_max_Nil [simp]: "list_max [] = None"
  by (simp add: list_max_def)

lemma list_max_None [simp]: "list_max xs = None \<longleftrightarrow> xs = []"
  by (simp add: list_max_def split: list.splits)

lemma list_max_Max: "xs \<noteq> [] \<Longrightarrow> list_max xs = Some (Max (set xs))"
  by (cases xs) (simp_all add: list_max_def Max.set_eq_fold del: list.set(2))

lemma list_max_Some: "list_max xs = Some m \<longleftrightarrow> m \<in> set xs \<and> (\<forall>x\<in>set xs. x \<le> m)"
proof (cases "xs = []")
  case True
  then show ?thesis by (simp add: list_max_def)
next
  case False
  then show ?thesis by (auto simp: list_max_Max intro!: Max_eqI)
qed

lemma list_max_cong_set: "set xs = set ys \<Longrightarrow> list_max xs = list_max ys"
  by (cases "xs = []"; cases "ys = []") (auto simp: list_max_Max)

lemma nat_str_nonempty [simp]: "nat_str n \<noteq> []"
  by (subst nat_str.simps) simp

end
