(* ===== verification/Db_Model.thy ===== *)
theory Db_Model
  imports Prelude
begin

text \<open>
  The persistent state: the rows and enumerations of \<open>db/models.py\<close>,
  \<open>db/policy_models.py\<close> and \<open>db/plugin_models.py\<close>, one record per mapped class and
  one list per table.  Instants are microseconds in UTC.  The append-only log rows
  (\<open>AuditEvent\<close>, \<open>PolicyDecision\<close>) carry no primary key here, because no code reads it.
  \<open>env\<close> holds the third-party functions the code relies on.
\<close>

section \<open>Enumerations\<close>

datatype callback_mode = Cb_MANUAL | Cb_PLATFORM_MANAGED

datatype connection_status = Conn_ACTIVE | Conn_DISABLED | Conn_ERROR

datatype account_status = Acc_UNBOUND | Acc_QR_PENDING | Acc_SCANNED | Acc_ONLINE
  | Acc_OFFLINE | Acc_RECONNECTING | Acc_NEED_QR | Acc_DISABLED

datatype inbox_status = In_RECEIVED | In_NORMALIZED | In_DISPATCHING | In_DISPATCHED
  | In_FAILED | In_IGNORED_SELF

datatype conversation_type = Conv_PRIVATE | Conv_GROUP | Conv_SYSTEM | Conv_UNKNOWN

datatype outbox_status = Ob_PENDING | Ob_CLAIMED | Ob_SENDING | Ob_SENT
  | Ob_FAILED_RETRYABLE | Ob_FAILED_FINAL | Ob_UNKNOWN | Ob_CANCELLED

datatype principal_type = Pr_ADMIN_USER | Pr_CONTACT | Pr_GROUP_MEMBER | Pr_CONNECTOR
  | Pr_PLUGIN | Pr_TASK_AGENT | Pr_AUTOMATION | Pr_SYSTEM

datatype scope_type = Sc_WORKSPACE | Sc_BOT_ACCOUNT | Sc_CHATROOM | Sc_CONTACT

datatype resource_type = Rs_CATEGORY | Rs_PLUGIN | Rs_COMMAND | Rs_TOOL | Rs_AGENT | Rs_CAPABILITY

datatype acl_effect = ALLOW | ASK | DENY

datatype package_status = Pk_VERIFIED | Pk_AVAILABLE | Pk_RETIRED | Pk_REJECTED

datatype deployment_status = Dp_DRAFT | Dp_STOPPED | Dp_STARTING | Dp_RUNNING | Dp_DRAINING
  | Dp_FAILED | Dp_QUARANTINED

datatype activation_status = Ac_CANDIDATE | Ac_STARTING | Ac_READY | Ac_ACTIVE | Ac_DRAINING
  | Ac_STOPPED | Ac_FAILED

datatype dispatch_status = Ds_PENDING | Ds_SUCCEEDED | Ds_DENIED | Ds_REJECTED
  | Ds_FAILED_RETRYABLE

text \<open>The stored value of an enumeration member, as \<open>StrEnum\<close> gives it.\<close>

fun outbox_status_str :: "outbox_status \<Rightarrow> string" where
  "outbox_status_str Ob_PENDING = ''PENDING''"
| "outbox_status_str Ob_CLAIMED = ''CLAIMED''"
| "outbox_status_str Ob_SENDING = ''SENDING''"
| "outbox_status_str Ob_SENT = ''SENT''"
| "outbox_status_str Ob_FAILED_RETRYABLE = ''FAILED_RETRYABLE''"
| "outbox_status_str Ob_FAILED_FINAL = ''FAILED_FINAL''"
| "outbox_status_str Ob_UNKNOWN = ''UNKNOWN''"
| "outbox_status_str Ob_CANCELLED = ''CANCELLED''"

fun conversation_type_str :: "conversation_type \<Rightarrow> string" where
  "conversation_type_str Conv_PRIVATE = ''PRIVATE''"
| "conversation_type_str Conv_GROUP = ''GROUP''"
| "conversation_type_str Conv_SYSTEM = ''SYSTEM''"
| "conversation_type_str Conv_UNKNOWN = ''UNKNOWN''"

fun principal_type_str :: "principal_type \<Rightarrow> string" where
  "principal_type_str Pr_ADMIN_USER = ''ADMIN_USER''"
| "principal_type_str Pr_CONTACT = ''CONTACT''"
| "principal_type_str Pr_GROUP_MEMBER = ''GROUP_MEMBER''"
| "principal_type_str Pr_CONNECTOR = ''CONNECTOR''"
| "principal_type_str Pr_PLUGIN = ''PLUGIN''"
| "principal_type_str Pr_TASK_AGENT = ''TASK_AGENT''"
| "principal_type_str Pr_AUTOMATION = ''AUTOMATION''"
| "principal_type_str Pr_SYSTEM = ''SYSTEM''"

fun resource_type_str :: "resource_type \<Rightarrow> string" where
  "resource_type_str Rs_CATEGORY = ''CATEGORY''"
| "resource_type_str Rs_PLUGIN = ''PLUGIN''"
| "resource_type_str Rs_COMMAND = ''COMMAND''"
| "resource_type_str Rs_TOOL = ''TOOL''"
| "resource_type_str Rs_AGENT = ''AGENT''"
| "resource_type_str Rs_CAPABILITY = ''CAPABILITY''"

fun effect_str :: "acl_effect \<Rightarrow> string" where
  "effect_str ALLOW = ''ALLOW''"
| "effect_str ASK = ''ASK''"
| "effect_str DENY = ''DENY''"

definition resource_types :: "resource_type list" where
  "resource_types = [Rs_CATEGORY, Rs_PLUGIN, Rs_COMMAND, Rs_TOOL, Rs_AGENT, Rs_CAPABILITY]"

text \<open>\<open>AclResourceType(value)\<close>: the member with this value.\<close>

definition parse_resource_type :: "string \<Rightarrow> resource_type option" where
  "parse_resource_type s = find (\<lambda>t. resource_type_str t = s) resource_types"

lemma parse_resource_type_str [simp]: "parse_resource_type (resource_type_str t) = Some t"
  by (cases t) (simp_all add: parse_resource_type_def resource_types_def)

section \<open>Rows\<close>

record workspace =
  ws_id :: uuid
  ws_name :: string
  ws_slug :: string
  ws_singleton_key :: int

record gewe_connection =
  gc_id :: uuid
  gc_workspace_id :: uuid
  gc_name :: string
  gc_api_base_url :: string
  gc_token_ciphertext :: string
  gc_token_fingerprint :: string
  gc_callback_mode :: callback_mode
  gc_callback_secret_ciphertext :: string
  gc_callback_secret_hash :: string
  gc_callback_expected_url_ciphertext :: "string option"
  gc_callback_verified_at :: "instant option"
  gc_last_callback_at :: "instant option"
  gc_last_callback_error :: "string option"
  gc_status :: connection_status

record bot_account =
  ba_id :: uuid
  ba_gewe_connection_id :: uuid
  ba_app_id :: string
  ba_wxid :: "string option"
  ba_alias :: "string option"
  ba_nickname :: "string option"
  ba_avatar_url :: "string option"
  ba_note :: "string option"
  ba_pending_login_uuid :: "string option"
  ba_qr_expires_at :: "instant option"
  ba_last_status_checked_at :: "instant option"
  ba_last_status_error :: "string option"
  ba_status :: account_status
  ba_logged_in_at :: "instant option"
  ba_last_online_at :: "instant option"

record webhook_inbox =
  wi_id :: uuid
  wi_provider :: string
  wi_gewe_connection_id :: uuid
  wi_app_id :: string
  wi_new_msg_id :: "string option"
  wi_dedup_key :: string
  wi_payload_sha256 :: string
  wi_schema_version :: string
  wi_raw_payload :: json
  wi_trace_id :: uuid
  wi_status :: inbox_status
  wi_error_code :: "string option"
  wi_error_detail :: "string option"
  wi_dispatch_attempt_count :: int
  wi_dispatch_available_at :: instant
  wi_created_at :: instant

record normalized_event =
  ne_id :: uuid
  ne_webhook_inbox_id :: uuid
  ne_bot_account_id :: "uuid option"
  ne_event_type :: string
  ne_conversation_type :: conversation_type
  ne_conversation_id :: "string option"
  ne_actor_wxid :: "string option"
  ne_to_wxid :: "string option"
  ne_provider_message_id :: "string option"
  ne_is_self :: bool
  ne_occurred_at :: "instant option"
  ne_content :: json
  ne_raw_ref :: string
  ne_created_at :: instant

record contact =
  ct_id :: uuid
  ct_bot_account_id :: uuid
  ct_external_id :: string
  ct_contact_type :: string
  ct_nickname :: "string option"
  ct_remark :: "string option"
  ct_avatar_url :: "string option"
  ct_active :: bool
  ct_last_synced_at :: "instant option"

record chatroom =
  cr_id :: uuid
  cr_bot_account_id :: uuid
  cr_chatroom_id :: string
  cr_name :: "string option"
  cr_owner_wxid :: "string option"
  cr_member_count :: "int option"
  cr_discovered_from :: string
  cr_placeholder :: bool
  cr_last_synced_at :: "instant option"

record chatroom_membership =
  cm_id :: uuid
  cm_chatroom_id :: uuid
  cm_member_wxid :: string
  cm_membership_epoch :: int
  cm_nickname :: "string option"
  cm_display_name :: "string option"
  cm_inviter_wxid :: "string option"
  cm_member_flag :: "int option"
  cm_joined_at :: instant
  cm_left_at :: "instant option"

record outbox_message =
  om_id :: uuid
  om_bot_account_id :: uuid
  om_trace_id :: uuid
  om_idempotency_key :: string
  om_action_type :: string
  om_target_wxid :: string
  om_payload :: json
  om_authorization_context :: "json option"
  om_payload_sha256 :: string
  om_status :: outbox_status
  om_priority :: int
  om_available_at :: instant
  om_expires_at :: "instant option"
  om_attempt_count :: int
  om_last_error_code :: "string option"
  om_last_attempt_started_at :: "instant option"
  om_last_attempt_finished_at :: "instant option"
  om_provider_message_id :: "string option"
  om_provider_new_message_id :: "string option"
  om_provider_create_time :: "int option"
  om_provider_message_type :: "int option"
  om_created_at :: instant
  om_updated_at :: instant

record audit_event =
  au_workspace_id :: uuid
  au_trace_id :: "uuid option"
  au_actor_type :: string
  au_actor_id :: string
  au_action :: string
  au_object_type :: string
  au_object_id :: string
  au_result :: string
  au_detail :: json

record principal =
  pr_id :: uuid
  pr_workspace_id :: uuid
  pr_principal_type :: principal_type
  pr_external_id :: string
  pr_display_name :: "string option"
  pr_active :: bool

record acl_policy_state =
  ps_workspace_id :: uuid
  ps_version :: int

record acl_rule =
  ar_id :: uuid
  ar_workspace_id :: uuid
  ar_principal_id :: "uuid option"
  ar_scope_type :: scope_type
  ar_scope_id :: string
  ar_resource_type :: resource_type
  ar_resource_id :: string
  ar_effect :: acl_effect
  ar_locked :: bool
  ar_membership_epoch :: "int option"
  ar_valid_from :: instant
  ar_valid_until :: "instant option"
  ar_reason :: string
  ar_created_by :: string
  ar_revoked_at :: "instant option"
  ar_revoked_by :: "string option"
  ar_created_at :: instant

record policy_decision =
  pd_workspace_id :: uuid
  pd_trace_id :: "uuid option"
  pd_policy_version :: int
  pd_effect :: acl_effect
  pd_reason :: string
  pd_request_snapshot :: json
  pd_matched_rule_ids :: "string list"

record plugin =
  pl_id :: uuid
  pl_workspace_id :: uuid
  pl_plugin_id :: string
  pl_name :: string
  pl_description :: string
  pl_retired_at :: "instant option"

record plugin_package_version =
  pv_id :: uuid
  pv_plugin_id :: uuid
  pv_semantic_version :: string
  pv_package_sha256 :: string
  pv_manifest :: json
  pv_package_path :: string
  pv_status :: package_status

record plugin_deployment =
  dp_id :: uuid
  dp_workspace_id :: uuid
  dp_plugin_id :: uuid
  dp_name :: string
  dp_status :: deployment_status
  dp_active_revision_id :: "uuid option"
  dp_last_error :: "string option"
  dp_created_at :: instant

record plugin_deployment_revision =
  rv_id :: uuid
  rv_deployment_id :: uuid
  rv_package_version_id :: uuid
  rv_revision_number :: int
  rv_config_ciphertext :: string
  rv_config_fingerprint :: string
  rv_scope :: json
  rv_grants :: "string list"
  rv_content_sha256 :: string

record plugin_revision_activation =
  pa_id :: uuid
  pa_deployment_id :: uuid
  pa_revision_id :: uuid
  pa_activation_epoch :: int
  pa_fencing_token :: string
  pa_status :: activation_status
  pa_started_at :: "instant option"
  pa_stopped_at :: "instant option"
  pa_error_detail :: "string option"

record plugin_event_dispatch =
  ed_id :: uuid
  ed_event_id :: uuid
  ed_deployment_id :: uuid
  ed_revision_id :: uuid
  ed_status :: dispatch_status
  ed_attempt_count :: int
  ed_accepted_action_count :: int
  ed_last_error_type :: "string option"
  ed_last_attempt_at :: "instant option"
  ed_completed_at :: "instant option"

section \<open>The database\<close>

text \<open>
  \<open>next_id\<close> counts the calls to the key generator \<open>uuid7\<close>.
\<close>

record db =
  workspaces :: "workspace list"
  connections :: "gewe_connection list"
  accounts :: "bot_account list"
  inboxes :: "webhook_inbox list"
  events :: "normalized_event list"
  contacts :: "contact list"
  chatrooms :: "chatroom list"
  memberships :: "chatroom_membership list"
  outbox :: "outbox_message list"
  audits :: "audit_event list"
  principals :: "principal list"
  policy_states :: "acl_policy_state list"
  rules :: "acl_rule list"
  decisions :: "policy_decision list"
  plugins :: "plugin list"
  packages :: "plugin_package_version list"
  deployments :: "plugin_deployment list"
  revisions :: "plugin_deployment_revision list"
  activations :: "plugin_revision_activation list"
  dispatches :: "plugin_event_dispatch list"
  next_id :: nat

definition empty_db :: db where
  "empty_db = \<lparr>workspaces = [], connections = [], accounts = [], inboxes = [], events = [],
     contacts = [], chatrooms = [], memberships = [], outbox = [], audits = [],
     principals = [], policy_states = [], rules = [], decisions = [], plugins = [],
     packages = [], deployments = [], revisions = [], activations = [],
     dispatches = [], next_id = 0\<rparr>"

text \<open>
  Functions the code calls and the development does not define: the key generator of
  \<open>uuid6\<close>, \<open>pydantic\<close>'s parsers of UUID strings and of numbers, SHA-256 (of the UTF-8
  encoding of a string, and of bytes), Fernet decryption, and the printed forms of UTC instants
  (\<open>datetime.isoformat\<close>) and of floating-point numbers.
\<close>

record env =
  uuid7 :: "nat \<Rightarrow> uuid"
  pyd_uuid :: "string \<Rightarrow> uuid option"
  sha256_hex :: "string \<Rightarrow> string"
  fernet_decrypt :: "string \<Rightarrow> string option"
  isoformat :: "instant \<Rightarrow> string"
  float_repr :: "rat \<Rightarrow> string"
  pyd_float :: "json \<Rightarrow> rat option"
  sha256_bytes :: "8 word list \<Rightarrow> string"

definition alloc :: "env \<Rightarrow> db \<Rightarrow> uuid \<times> db" where
  "alloc E s = (uuid7 E (next_id s), s\<lparr>next_id := Suc (next_id s)\<rparr>)"

text \<open>
  The documented behaviour the development uses: a UUID is read back from its canonical
  printed form.
\<close>

definition parses_uuids :: "env \<Rightarrow> bool" where
  "parses_uuids E \<longleftrightarrow> (\<forall>u. pyd_uuid E (uuid_str u) = Some u)"

text \<open>The row read by a join from an account to the workspace of its connection.\<close>

definition account_workspace :: "db \<Rightarrow> uuid \<Rightarrow> uuid option" where
  "account_workspace s a =
     (case get_row ba_id a (accounts s) of None \<Rightarrow> None
      | Some acc \<Rightarrow> map_option gc_workspace_id
          (get_row gc_id (ba_gewe_connection_id acc) (connections s)))"

end
