(* ===== verification/Policy.thy ===== *)
theory Policy
  imports Db_Model
begin

text \<open>
  The policy engine (\<open>policy/service.py\<close>, \<open>policy/schemas.py\<close>): principals,
  ACL rules with their membership epochs and policy versions, and the evaluation of a request,
  which collects the rules that apply, lets a locked rule decide first, then takes the
  strictest effect among the most specific rules, and denies by default.
\<close>

section \<open>Requests and answers\<close>

datatype policy_error = PolicyObjectNotFound string | InvalidPolicyRule string

record acl_request =
  rq_workspace_id :: uuid
  rq_bot_account_id :: uuid
  rq_actor_principal_id :: "uuid option"
  rq_chatroom_id :: "uuid option"
  rq_contact_id :: "uuid option"
  rq_resource_type :: resource_type
  rq_resource_id :: string
  rq_parent_plugin_id :: "string option"
  rq_trace_id :: "uuid option"

record acl_decision =
  dv_effect :: acl_effect
  dv_allowed :: bool
  dv_reason :: string
  dv_policy_version :: int
  dv_matched_rule_ids :: "uuid list"

record principal_create =
  pc_workspace_id :: uuid
  pc_principal_type :: principal_type
  pc_external_id :: string
  pc_display_name :: "string option"

record acl_rule_create =
  rc_workspace_id :: uuid
  rc_principal_id :: "uuid option"
  rc_scope_type :: scope_type
  rc_scope_id :: string
  rc_resource_type :: resource_type
  rc_resource_id :: string
  rc_effect :: acl_effect
  rc_locked :: bool
  rc_membership_epoch :: "int option"
  rc_valid_from :: "instant option"
  rc_valid_until :: "instant option"
  rc_reason :: string

text \<open>The field constraints and the model validator of \<open>AclRuleCreate\<close>.\<close>

definition validate_rule :: "acl_rule_create \<Rightarrow> bool" where
  "validate_rule p \<longleftrightarrow>
     1 \<le> length (rc_scope_id p) \<and> length (rc_scope_id p) \<le> 255 \<and>
     1 \<le> length (rc_resource_id p) \<and> length (rc_resource_id p) \<le> 255 \<and>
     (case rc_membership_epoch p of None \<Rightarrow> True | Some e \<Rightarrow> 1 \<le> e) \<and>
     1 \<le> length (rc_reason p) \<and> length (rc_reason p) \<le> 500 \<and>
     \<not> (rc_locked p \<and> rc_effect p \<noteq> DENY) \<and>
     \<not> (case (rc_valid_from p, rc_valid_until p) of
          (Some f, Some u) \<Rightarrow> u \<le> f | _ \<Rightarrow> False) \<and>
     \<not> (rc_resource_type p = Rs_CATEGORY \<and> rc_resource_id p \<noteq> ''*'')"

section \<open>Effects in order of strictness\<close>

text \<open>The key function of the \<open>max\<close> over effects, as an order on the type.\<close>

fun effect_rank :: "acl_effect \<Rightarrow> nat" where
  "effect_rank ALLOW = 1"
| "effect_rank ASK = 2"
| "effect_rank DENY = 3"

lemma effect_rank_inj [simp]: "effect_rank a = effect_rank b \<longleftrightarrow> a = b"
  by (cases a; cases b) auto

instantiation acl_effect :: linorder
begin

definition less_eq_acl_effect :: "acl_effect \<Rightarrow> acl_effect \<Rightarrow> bool" where
  "less_eq_acl_effect a b \<longleftrightarrow> effect_rank a \<le> effect_rank b"

definition less_acl_effect :: "acl_effect \<Rightarrow> acl_effect \<Rightarrow> bool" where
  "less_acl_effect a b \<longleftrightarrow> effect_rank a < effect_rank b"

instance
  by standard (auto simp: less_eq_acl_effect_def less_acl_effect_def)

end

lemma effect_le_DENY [simp]: "(e :: acl_effect) \<le> DENY"
  by (cases e) (simp_all add: less_eq_acl_effect_def)

lemma ALLOW_le_effect [simp]: "ALLOW \<le> (e :: acl_effect)"
  by (cases e) (simp_all add: less_eq_acl_effect_def)

lemma effect_le_ALLOW_iff [simp]: "e \<le> ALLOW \<longleftrightarrow> e = ALLOW"
  by (cases e) (simp_all add: less_eq_acl_effect_def)

section \<open>Reading a UUID\<close>

text \<open>
  \<open>UUID(value)\<close> of the standard library: the prefixes \<open>urn:\<close> and \<open>uuid:\<close>,
  surrounding braces and all hyphens are removed, 32 characters must remain, and
  \<open>int(_, 16)\<close> reads them (which allows blanks around the number, a plus sign, a
  \<open>0x\<close> prefix and single underscores between digits).
\<close>

definition hex_val :: "char \<Rightarrow> nat option" where
  "hex_val c = (let n = (of_char c :: nat) in
     if 48 \<le> n \<and> n \<le> 57 then Some (n - 48)
     else if 97 \<le> n \<and> n \<le> 102 then Some (n - 87)
     else if 65 \<le> n \<and> n \<le> 70 then Some (n - 55)
     else None)"

fun hex_run :: "nat \<Rightarrow> string \<Rightarrow> nat option" where
  "hex_run acc [] = None"
| "hex_run acc (c # cs) =
     (case hex_val c of None \<Rightarrow> None
      | Some d \<Rightarrow> (case cs of [] \<Rightarrow> Some (acc * 16 + d)
                  | x # xs \<Rightarrow> if x = CHR ''_'' then hex_run (acc * 16 + d) xs
                              else hex_run (acc * 16 + d) (x # xs)))"

definition drop_hex_prefix :: "string \<Rightarrow> string" where
  "drop_hex_prefix s =
     (if startswith s ''0x'' \<or> startswith s ''0X''
      then (if startswith (drop 2 s) ''_'' then drop 3 s else drop 2 s) else s)"

definition int_base16 :: "string \<Rightarrow> nat option" where
  "int_base16 s = (let t = strip s in
     hex_run 0 (drop_hex_prefix (if startswith t ''+'' then drop 1 t else t)))"

fun remove_all :: "string \<Rightarrow> nat \<Rightarrow> string \<Rightarrow> string" where
  "remove_all pat k [] = []"
| "remove_all pat (Suc k) (c # cs) = remove_all pat k cs"
| "remove_all pat 0 (c # cs) =
     (if pat \<noteq> [] \<and> startswith (c # cs) pat then remove_all pat (length pat - 1) cs
      else c # remove_all pat 0 cs)"

definition strip_braces :: "string \<Rightarrow> string" where
  "strip_braces s = (let P = (\<lambda>c. c = CHR ''{'' \<or> c = CHR ''}'') in
     rev (dropWhile P (rev (dropWhile P s))))"

definition py_uuid :: "string \<Rightarrow> uuid option" where
  "py_uuid s =
     (let h = filter (\<lambda>c. c \<noteq> CHR ''-'')
                (strip_braces (remove_all ''uuid:'' 0 (remove_all ''urn:'' 0 s)))
      in if length h = 32 then map_option of_nat (int_base16 h) else None)"

definition parse_uuid :: "string \<Rightarrow> string \<Rightarrow> (policy_error, uuid) res" where
  "parse_uuid value error_message = of_option (InvalidPolicyRule error_message) (py_uuid value)"

section \<open>Principals\<close>

definition find_principal :: "db \<Rightarrow> uuid \<Rightarrow> principal_type \<Rightarrow> string \<Rightarrow> principal option" where
  "find_principal s ws t ext =
     find (\<lambda>p. pr_workspace_id p = ws \<and> pr_principal_type p = t \<and> pr_external_id p = ext)
       (principals s)"

definition active_group_membership ::
    "db \<Rightarrow> uuid \<Rightarrow> uuid \<Rightarrow> uuid \<Rightarrow> (policy_error, chatroom_membership) res" where
  "active_group_membership s ws chatroom membership =
     of_option (PolicyObjectNotFound ''active group membership not found in workspace'')
       (case get_row cm_id membership (memberships s) of None \<Rightarrow> None
        | Some m \<Rightarrow>
          (case get_row cr_id chatroom (chatrooms s) of None \<Rightarrow> None
           | Some c \<Rightarrow>
             if cm_chatroom_id m = chatroom \<and> cm_left_at m = None
                \<and> account_workspace s (cr_bot_account_id c) = Some ws
             then Some m else None))"

definition find_group_member_principal ::
    "db \<Rightarrow> uuid \<Rightarrow> uuid \<Rightarrow> uuid \<Rightarrow> (policy_error, principal option) res" where
  "find_group_member_principal s ws chatroom membership =
     bind_res (active_group_membership s ws chatroom membership)
       (\<lambda>m. Inr (find_principal s ws Pr_GROUP_MEMBER (cm_member_wxid m)))"

definition create_principal ::
    "env \<Rightarrow> principal_create \<Rightarrow> db \<Rightarrow> (policy_error, principal \<times> db) res" where
  "create_principal E p s =
     (if get_row ws_id (pc_workspace_id p) (workspaces s) = None
      then Inl (PolicyObjectNotFound ''workspace not found'')
      else case find_principal s (pc_workspace_id p) (pc_principal_type p) (pc_external_id p) of
        Some e \<Rightarrow>
          let e1 = (case pc_display_name p of None \<Rightarrow> e | Some d \<Rightarrow> e\<lparr>pr_display_name := Some d\<rparr>);
              e2 = e1\<lparr>pr_active := True\<rparr>
          in Inr (e2, s\<lparr>principals := put_row pr_id e2 (principals s)\<rparr>)
      | None \<Rightarrow>
          let (i, s1) = alloc E s;
              e = \<lparr>pr_id = i, pr_workspace_id = pc_workspace_id p,
                   pr_principal_type = pc_principal_type p, pr_external_id = pc_external_id p,
                   pr_display_name = pc_display_name p, pr_active = True\<rparr>
          in Inr (e, s1\<lparr>principals := principals s1 @ [e]\<rparr>))"

text \<open>\<open>membership.display_name or membership.nickname\<close>: an empty name counts as missing.\<close>

definition or_else :: "string option \<Rightarrow> string option \<Rightarrow> string option" where
  "or_else a b = (if a = None \<or> a = Some [] then b else a)"

definition ensure_group_member_principal ::
    "env \<Rightarrow> uuid \<Rightarrow> uuid \<Rightarrow> uuid \<Rightarrow> db \<Rightarrow> (policy_error, principal \<times> db) res" where
  "ensure_group_member_principal E ws chatroom membership s =
     bind_res (active_group_membership s ws chatroom membership)
       (\<lambda>m. create_principal E
          \<lparr>pc_workspace_id = ws, pc_principal_type = Pr_GROUP_MEMBER,
           pc_external_id = cm_member_wxid m,
           pc_display_name = or_else (cm_display_name m) (cm_nickname m)\<rparr> s)"

section \<open>Rules\<close>

definition validate_principal ::
    "db \<Rightarrow> acl_rule_create \<Rightarrow> (policy_error, principal option) res" where
  "validate_principal s p =
     (case rc_principal_id p of
        None \<Rightarrow> (if rc_membership_epoch p \<noteq> None
                 then Inl (InvalidPolicyRule ''membership_epoch requires a group member principal'')
                 else Inr None)
      | Some i \<Rightarrow>
          (case get_row pr_id i (principals s) of
             None \<Rightarrow> Inl (PolicyObjectNotFound ''principal not found in workspace'')
           | Some pr \<Rightarrow>
               if pr_workspace_id pr \<noteq> rc_workspace_id p
               then Inl (PolicyObjectNotFound ''principal not found in workspace'')
               else if \<not> pr_active pr then Inl (InvalidPolicyRule ''principal is inactive'')
               else Inr (Some pr)))"

text \<open>Whether the row a scope names exists in the workspace, by the joins of the code.\<close>

fun scope_exists :: "db \<Rightarrow> uuid \<Rightarrow> scope_type \<Rightarrow> uuid \<Rightarrow> bool" where
  "scope_exists s ws Sc_BOT_ACCOUNT u = (account_workspace s u = Some ws)"
| "scope_exists s ws Sc_CHATROOM u =
     (case get_row cr_id u (chatrooms s) of None \<Rightarrow> False
      | Some c \<Rightarrow> account_workspace s (cr_bot_account_id c) = Some ws)"
| "scope_exists s ws Sc_CONTACT u =
     (case get_row ct_id u (contacts s) of None \<Rightarrow> False
      | Some c \<Rightarrow> account_workspace s (ct_bot_account_id c) = Some ws)"
| "scope_exists s ws Sc_WORKSPACE u = (u = ws)"

definition validate_scope :: "db \<Rightarrow> acl_rule_create \<Rightarrow> (policy_error, unit) res" where
  "validate_scope s p =
     (if rc_scope_type p = Sc_WORKSPACE
      then check_that (rc_scope_id p = uuid_str (rc_workspace_id p))
             (InvalidPolicyRule ''workspace scope_id does not match workspace'')
      else bind_res (parse_uuid (rc_scope_id p) ''scope_id must be a UUID'')
        (\<lambda>u. check_that (scope_exists s (rc_workspace_id p) (rc_scope_type p) u)
               (PolicyObjectNotFound ''ACL scope not found in workspace'')))"

text \<open>The epochs of the memberships of a member that has not left; the code takes the greatest.\<close>

definition active_epochs :: "db \<Rightarrow> uuid \<Rightarrow> string \<Rightarrow> int list" where
  "active_epochs s chatroom wxid =
     map cm_membership_epoch
       (filter (\<lambda>m. cm_chatroom_id m = chatroom \<and> cm_member_wxid m = wxid \<and> cm_left_at m = None)
          (memberships s))"

definition resolve_membership_epoch ::
    "db \<Rightarrow> acl_rule_create \<Rightarrow> principal option \<Rightarrow> (policy_error, int option) res" where
  "resolve_membership_epoch s p prin =
     (case prin of
        Some pr \<Rightarrow>
          if pr_principal_type pr = Pr_GROUP_MEMBER then
            (if rc_scope_type p \<noteq> Sc_CHATROOM
             then Inl (InvalidPolicyRule ''group member rules require CHATROOM scope'')
             else bind_res (parse_uuid (rc_scope_id p) ''chatroom scope_id must be a UUID'')
               (\<lambda>c. case list_max (active_epochs s c (pr_external_id pr)) of
                      None \<Rightarrow> Inl (InvalidPolicyRule
                                ''principal is not an active member of the chatroom'')
                    | Some e \<Rightarrow>
                        if rc_membership_epoch p \<noteq> None \<and> rc_membership_epoch p \<noteq> Some e
                        then Inl (InvalidPolicyRule ''membership_epoch is stale'')
                        else Inr (Some e)))
          else if rc_membership_epoch p \<noteq> None
          then Inl (InvalidPolicyRule ''membership_epoch is only valid for group members'')
          else Inr None
      | None \<Rightarrow>
          if rc_membership_epoch p \<noteq> None
          then Inl (InvalidPolicyRule ''membership_epoch is only valid for group members'')
          else Inr None)"

definition increment_version :: "uuid \<Rightarrow> db \<Rightarrow> int \<times> db" where
  "increment_version ws s =
     (case get_row ps_workspace_id ws (policy_states s) of
        None \<Rightarrow> (1, s\<lparr>policy_states := policy_states s @ [\<lparr>ps_workspace_id = ws, ps_version = 1\<rparr>]\<rparr>)
      | Some st \<Rightarrow> let st' = st\<lparr>ps_version := ps_version st + 1\<rparr>
                   in (ps_version st',
                       s\<lparr>policy_states := put_row ps_workspace_id st' (policy_states s)\<rparr>))"

definition policy_version :: "db \<Rightarrow> uuid \<Rightarrow> int" where
  "policy_version s ws =
     (case get_row ps_workspace_id ws (policy_states s) of None \<Rightarrow> 0 | Some st \<Rightarrow> ps_version st)"

definition create_rule ::
    "env \<Rightarrow> acl_rule_create \<Rightarrow> string \<Rightarrow> instant \<Rightarrow> db \<Rightarrow> (policy_error, acl_rule \<times> db) res" where
  "create_rule E p created_by now s =
     (if get_row ws_id (rc_workspace_id p) (workspaces s) = None
      then Inl (PolicyObjectNotFound ''workspace not found'')
      else
        bind_res (validate_principal s p) (\<lambda>prin.
        bind_res (validate_scope s p) (\<lambda>_.
        bind_res (resolve_membership_epoch s p prin) (\<lambda>epoch.
          let (i, s1) = alloc E s;
              r = \<lparr>ar_id = i, ar_workspace_id = rc_workspace_id p,
                   ar_principal_id = rc_principal_id p, ar_scope_type = rc_scope_type p,
                   ar_scope_id = rc_scope_id p, ar_resource_type = rc_resource_type p,
                   ar_resource_id = rc_resource_id p, ar_effect = rc_effect p,
                   ar_locked = rc_locked p, ar_membership_epoch = epoch,
                   ar_valid_from = (case rc_valid_from p of None \<Rightarrow> now | Some t \<Rightarrow> t),
                   ar_valid_until = rc_valid_until p, ar_reason = rc_reason p,
                   ar_created_by = created_by, ar_revoked_at = None, ar_revoked_by = None,
                   ar_created_at = now\<rparr>;
              s2 = s1\<lparr>rules := rules s1 @ [r]\<rparr>
          in Inr (r, snd (increment_version (rc_workspace_id p) s2))))))"

definition revoke_rule ::
    "uuid \<Rightarrow> string \<Rightarrow> instant \<Rightarrow> db \<Rightarrow> (policy_error, acl_rule \<times> db) res" where
  "revoke_rule i revoked_by now s =
     (case get_row ar_id i (rules s) of
        None \<Rightarrow> Inl (PolicyObjectNotFound ''ACL rule not found'')
      | Some r \<Rightarrow>
          if ar_revoked_at r = None then
            let r' = r\<lparr>ar_revoked_at := Some now, ar_revoked_by := Some revoked_by\<rparr>;
                s1 = s\<lparr>rules := put_row ar_id r' (rules s)\<rparr>
            in Inr (r', snd (increment_version (ar_workspace_id r) s1))
          else Inr (r, s))"

text \<open>An optional query filter: absent means no restriction.\<close>

definition opt_filter :: "'a option \<Rightarrow> 'a \<Rightarrow> bool" where
  "opt_filter f x \<longleftrightarrow> (case f of None \<Rightarrow> True | Some y \<Rightarrow> x = y)"

definition list_rules ::
    "db \<Rightarrow> uuid option \<Rightarrow> scope_type option \<Rightarrow> string option \<Rightarrow> bool \<Rightarrow> acl_rule list \<times> nat" where
  "list_rules s ws st sid include_revoked =
     (let hits = filter (\<lambda>r. opt_filter ws (ar_workspace_id r) \<and> opt_filter st (ar_scope_type r)
                   \<and> opt_filter sid (ar_scope_id r)
                   \<and> (include_revoked \<or> ar_revoked_at r = None)) (rules s)
      in (rev (sort_key (\<lambda>r. (ar_created_at r, ar_id r)) hits), length hits))"

section \<open>Evaluation\<close>

record candidate =
  cd_rule :: acl_rule
  cd_resource_score :: nat
  cd_subject_scope_score :: nat

definition resource_score :: "acl_rule \<Rightarrow> acl_request \<Rightarrow> nat" where
  "resource_score r q =
     (if ar_resource_type r = rq_resource_type q \<and> ar_resource_id r = rq_resource_id q then 30
      else if ar_resource_type r = Rs_PLUGIN \<and> rq_parent_plugin_id q = Some (ar_resource_id r)
      then 20
      else if ar_resource_type r = Rs_CATEGORY \<and> ar_resource_id r = ''*'' then 10
      else 0)"

fun expected_scope :: "acl_request \<Rightarrow> scope_type \<Rightarrow> string option \<times> nat" where
  "expected_scope q Sc_WORKSPACE = (Some (uuid_str (rq_workspace_id q)), 10)"
| "expected_scope q Sc_BOT_ACCOUNT = (Some (uuid_str (rq_bot_account_id q)), 20)"
| "expected_scope q Sc_CHATROOM = (map_option uuid_str (rq_chatroom_id q), 30)"
| "expected_scope q Sc_CONTACT = (map_option uuid_str (rq_contact_id q), 40)"

definition scope_score :: "acl_rule \<Rightarrow> acl_request \<Rightarrow> nat" where
  "scope_score r q =
     (case expected_scope q (ar_scope_type r) of
        (None, score) \<Rightarrow> 0
      | (Some expected, score) \<Rightarrow> if ar_scope_id r = expected then score else 0)"

text \<open>One iteration of the loop of \<open>_candidates\<close>: the guards that skip a rule, then its scores.\<close>

definition subject_matches :: "acl_rule \<Rightarrow> principal option \<Rightarrow> int option \<Rightarrow> bool" where
  "subject_matches r prin epoch =
     (case ar_principal_id r of
        None \<Rightarrow> True
      | Some i \<Rightarrow>
          (case prin of
             None \<Rightarrow> False
           | Some pr \<Rightarrow>
               i = pr_id pr \<and>
               \<not> (pr_principal_type pr = Pr_GROUP_MEMBER \<and>
                  (epoch = None \<or> ar_membership_epoch r = None \<or> ar_membership_epoch r \<noteq> epoch))))"

definition candidate_of ::
    "acl_request \<Rightarrow> principal option \<Rightarrow> int option \<Rightarrow> acl_rule \<Rightarrow> candidate option" where
  "candidate_of q prin epoch r =
     (if \<not> subject_matches r prin epoch then None
      else if resource_score r q = 0 \<or> scope_score r q = 0 then None
      else Some \<lparr>cd_rule = r, cd_resource_score = resource_score r q,
                 cd_subject_scope_score =
                   (if ar_principal_id r \<noteq> None then 40 else scope_score r q)\<rparr>)"

definition candidates ::
    "acl_rule list \<Rightarrow> acl_request \<Rightarrow> principal option \<Rightarrow> int option \<Rightarrow> candidate list" where
  "candidates rs q prin epoch = List.map_filter (candidate_of q prin epoch) rs"

definition cand_score :: "candidate \<Rightarrow> nat \<times> nat" where
  "cand_score c = (cd_resource_score c, cd_subject_scope_score c)"

definition account_in_workspace :: "db \<Rightarrow> uuid \<Rightarrow> uuid \<Rightarrow> bot_account option" where
  "account_in_workspace s a ws =
     (case get_row ba_id a (accounts s) of None \<Rightarrow> None
      | Some acc \<Rightarrow>
          (case get_row gc_id (ba_gewe_connection_id acc) (connections s) of None \<Rightarrow> None
           | Some c \<Rightarrow> if gc_workspace_id c = ws then Some acc else None))"

definition active_request_principal ::
    "db \<Rightarrow> acl_request \<Rightarrow> (policy_error, principal option) res" where
  "active_request_principal s q =
     (case rq_actor_principal_id q of
        None \<Rightarrow> Inr None
      | Some i \<Rightarrow>
          (case get_row pr_id i (principals s) of
             None \<Rightarrow> Inl (InvalidPolicyRule ''request principal is missing or inactive'')
           | Some pr \<Rightarrow>
               if pr_workspace_id pr \<noteq> rq_workspace_id q \<or> \<not> pr_active pr
               then Inl (InvalidPolicyRule ''request principal is missing or inactive'')
               else Inr (Some pr)))"

definition current_membership_epoch ::
    "db \<Rightarrow> acl_request \<Rightarrow> principal option \<Rightarrow> int option" where
  "current_membership_epoch s q prin =
     (case prin of
        None \<Rightarrow> None
      | Some pr \<Rightarrow>
          if pr_principal_type pr \<noteq> Pr_GROUP_MEMBER then None
          else (case rq_chatroom_id q of None \<Rightarrow> None
                | Some c \<Rightarrow> list_max (active_epochs s c (pr_external_id pr))))"

text \<open>The SQL filter that loads the rules of an evaluation.\<close>

definition rule_loaded :: "instant \<Rightarrow> acl_request \<Rightarrow> acl_rule \<Rightarrow> bool" where
  "rule_loaded now q r \<longleftrightarrow>
     ar_workspace_id r = rq_workspace_id q \<and> ar_revoked_at r = None \<and> ar_valid_from r \<le> now \<and>
     (case ar_valid_until r of None \<Rightarrow> True | Some u \<Rightarrow> now < u) \<and>
     (ar_principal_id r = None \<or> ar_principal_id r = rq_actor_principal_id q)"

definition request_snapshot :: "acl_request \<Rightarrow> json" where
  "request_snapshot q = JObj
     [(''bot_account_id'', JStr (uuid_str (rq_bot_account_id q))),
      (''actor_principal_id'', json_opt_uuid (rq_actor_principal_id q)),
      (''chatroom_id'', json_opt_uuid (rq_chatroom_id q)),
      (''contact_id'', json_opt_uuid (rq_contact_id q)),
      (''resource_type'', JStr (resource_type_str (rq_resource_type q))),
      (''resource_id'', JStr (rq_resource_id q)),
      (''parent_plugin_id'', json_opt_str (rq_parent_plugin_id q))]"

definition record_decision ::
    "acl_request \<Rightarrow> acl_effect \<Rightarrow> string \<Rightarrow> int \<Rightarrow> acl_rule list \<Rightarrow> db \<Rightarrow> acl_decision \<times> db" where
  "record_decision q effect reason version matched s =
     (\<lparr>dv_effect = effect, dv_allowed = (effect = ALLOW), dv_reason = reason,
       dv_policy_version = version, dv_matched_rule_ids = map ar_id matched\<rparr>,
      s\<lparr>decisions := decisions s @
          [\<lparr>pd_workspace_id = rq_workspace_id q, pd_trace_id = rq_trace_id q,
            pd_policy_version = version, pd_effect = effect, pd_reason = reason,
            pd_request_snapshot = request_snapshot q,
            pd_matched_rule_ids = map (uuid_str \<circ> ar_id) matched\<rparr>]\<rparr>)"

text \<open>The outcome over the candidates: effect, reason and the rules reported as matched.\<close>

definition decide :: "candidate list \<Rightarrow> acl_effect \<times> string \<times> acl_rule list" where
  "decide cs =
     (let locked = filter (\<lambda>c. ar_locked (cd_rule c)) cs in
      if locked \<noteq> [] then (DENY, ''matched locked deny'', map cd_rule locked)
      else case list_max (map cand_score cs) of
        None \<Rightarrow> (DENY, ''no matching ACL rule; default deny'', [])
      | Some best_score \<Rightarrow>
          let best = filter (\<lambda>c. cand_score c = best_score) cs in
          (case list_max (map (\<lambda>c. ar_effect (cd_rule c)) best) of
             None \<Rightarrow> (DENY, ''no matching ACL rule; default deny'', [])
           | Some effect \<Rightarrow>
               (effect, ''matched highest-specificity '' @ effect_str effect @ '' rule'',
                map cd_rule best)))"

definition evaluate ::
    "acl_request \<Rightarrow> instant \<Rightarrow> db \<Rightarrow> (policy_error, acl_decision \<times> db) res" where
  "evaluate q now s =
     (let version = policy_version s (rq_workspace_id q) in
      case account_in_workspace s (rq_bot_account_id q) (rq_workspace_id q) of
        None \<Rightarrow> Inl (PolicyObjectNotFound ''bot account not found in workspace'')
      | Some acc \<Rightarrow>
          if ba_status acc = Acc_DISABLED
          then Inr (record_decision q DENY ''bot account is disabled'' version [] s)
          else bind_res (active_request_principal s q) (\<lambda>prin.
            let epoch = current_membership_epoch s q prin;
                loaded = filter (rule_loaded now q) (rules s);
                (effect, reason, matched) = decide (candidates loaded q prin epoch)
            in Inr (record_decision q effect reason version matched s)))"

section \<open>The outcome of a set of candidates\<close>

lemma decide_locked:
  "\<exists>c\<in>set cs. ar_locked (cd_rule c) \<Longrightarrow>
   decide cs = (DENY, ''matched locked deny'', map cd_rule (filter (\<lambda>c. ar_locked (cd_rule c)) cs))"
  by (auto simp: decide_def Let_def filter_empty_conv)

lemma decide_Nil [simp]: "decide [] = (DENY, ''no matching ACL rule; default deny'', [])"
  by (simp add: decide_def)

text \<open>The most specific candidates, and the strictest effect among them.\<close>

definition best_candidates :: "candidate list \<Rightarrow> candidate set" where
  "best_candidates cs = {c \<in> set cs. \<forall>c'\<in>set cs. cand_score c' \<le> cand_score c}"

lemma best_candidates_nonempty: "cs \<noteq> [] \<Longrightarrow> best_candidates cs \<noteq> {}"
proof -
  assume "cs \<noteq> []"
  then obtain m where m: "list_max (map cand_score cs) = Some m"
    by (cases "list_max (map cand_score cs)") auto
  then show ?thesis unfolding list_max_Some best_candidates_def by fastforce
qed

lemma decide_unlocked:
  assumes "cs \<noteq> []" "\<forall>c\<in>set cs. \<not> ar_locked (cd_rule c)"
  obtains e where "fst (decide cs) = e"
    "fst (snd (decide cs)) = ''matched highest-specificity '' @ effect_str e @ '' rule''"
    "set (snd (snd (decide cs))) = cd_rule ` best_candidates cs"
    "\<exists>c\<in>best_candidates cs. ar_effect (cd_rule c) = e"
    "\<forall>c\<in>best_candidates cs. ar_effect (cd_rule c) \<le> e"
proof -
  obtain m where m: "list_max (map cand_score cs) = Some m"
    using assms(1) by (cases "list_max (map cand_score cs)") auto
  let ?best = "filter (\<lambda>c. cand_score c = m) cs"
  have best: "set ?best = best_candidates cs"
    using m unfolding list_max_Some best_candidates_def by (auto intro: antisym)
  then have "?best \<noteq> []" using best_candidates_nonempty[OF assms(1)] by (metis set_empty)
  then obtain e where e: "list_max (map (\<lambda>c. ar_effect (cd_rule c)) ?best) = Some e"
    by (cases "list_max (map (\<lambda>c. ar_effect (cd_rule c)) ?best)") auto
  have "filter (\<lambda>c. ar_locked (cd_rule c)) cs = []" using assms(2) by (simp add: filter_empty_conv)
  then have d: "decide cs =
      (e, ''matched highest-specificity '' @ effect_str e @ '' rule'', map cd_rule ?best)"
    using m e by (simp add: decide_def Let_def)
  have "\<exists>c\<in>best_candidates cs. ar_effect (cd_rule c) = e"
    "\<forall>c\<in>best_candidates cs. ar_effect (cd_rule c) \<le> e"
    using e unfolding list_max_Some best[symmetric] by (auto simp del: set_filter)
  then show ?thesis using that[of e] d best by (auto simp del: set_filter)
qed

lemma decide_allow_iff:
  "fst (decide cs) = ALLOW \<longleftrightarrow>
     cs \<noteq> [] \<and> (\<forall>c\<in>set cs. \<not> ar_locked (cd_rule c)) \<and>
     (\<forall>c\<in>best_candidates cs. ar_effect (cd_rule c) = ALLOW)"
proof (cases "cs = [] \<or> (\<exists>c\<in>set cs. ar_locked (cd_rule c))")
  case True
  then show ?thesis
  proof
    assume l: "\<exists>c\<in>set cs. ar_locked (cd_rule c)"
    then have "fst (decide cs) = DENY" using decide_locked by simp
    then show ?thesis using l by auto
  qed simp
next
  case False
  then have ne: "cs \<noteq> []" and ul: "\<forall>c\<in>set cs. \<not> ar_locked (cd_rule c)" by auto
  obtain e where e: "fst (decide cs) = e" "\<exists>c\<in>best_candidates cs. ar_effect (cd_rule c) = e"
    "\<forall>c\<in>best_candidates cs. ar_effect (cd_rule c) \<le> e"
    by (rule decide_unlocked[OF ne ul])
  then show ?thesis using ne ul by (metis effect_le_ALLOW_iff)
qed

lemma decide_set_cong:
  assumes "set cs = set cs'"
  shows "fst (decide cs) = fst (decide cs') \<and> fst (snd (decide cs)) = fst (snd (decide cs')) \<and>
    set (snd (snd (decide cs))) = set (snd (snd (decide cs')))"
proof (cases "\<exists>c\<in>set cs. ar_locked (cd_rule c)")
  case True
  then show ?thesis using assms decide_locked[of cs] decide_locked[of cs'] by simp
next
  case ul: False
  show ?thesis
  proof (cases "cs = []")
    case True
    then show ?thesis using assms by simp
  next
    case ne: False
    have b: "best_candidates cs = best_candidates cs'"
      using assms by (simp add: best_candidates_def)
    obtain e where e: "fst (decide cs) = e"
      "fst (snd (decide cs)) = ''matched highest-specificity '' @ effect_str e @ '' rule''"
      "set (snd (snd (decide cs))) = cd_rule ` best_candidates cs"
      "\<exists>c\<in>best_candidates cs. ar_effect (cd_rule c) = e"
      "\<forall>c\<in>best_candidates cs. ar_effect (cd_rule c) \<le> e"
      using decide_unlocked[OF ne] ul by metis
    have ne': "cs' \<noteq> []" and ul': "\<forall>c\<in>set cs'. \<not> ar_locked (cd_rule c)"
      using assms ne ul by auto
    obtain e' where e': "fst (decide cs') = e'"
      "fst (snd (decide cs')) = ''matched highest-specificity '' @ effect_str e' @ '' rule''"
      "set (snd (snd (decide cs'))) = cd_rule ` best_candidates cs'"
      "\<exists>c\<in>best_candidates cs'. ar_effect (cd_rule c) = e'"
      "\<forall>c\<in>best_candidates cs'. ar_effect (cd_rule c) \<le> e'"
      using decide_unlocked[OF ne' ul'] by metis
    have "e = e'" using e(4,5) e'(4,5) b by (metis antisym)
    then show ?thesis using e(1-3) e'(1-3) b by simp
  qed
qed

lemma map_filter_set: "set (List.map_filter f xs) = {y. \<exists>x\<in>set xs. f x = Some y}"
  by (induction xs) (auto simp: map_filter_simps split: option.splits)

lemma map_filter_irrelevant:
  assumes "\<And>x. x \<in> set xs \<Longrightarrow> \<not> P x \<Longrightarrow> f x = None"
  shows "List.map_filter f (filter P xs) = List.map_filter f xs"
  using assms by (induction xs) (auto simp: map_filter_simps split: option.splits)

lemma map_filter_filter_cong:
  assumes "\<And>x. x \<in> set xs \<Longrightarrow> P x \<Longrightarrow> \<not> Q x \<Longrightarrow> f x = None"
    and "\<And>x. x \<in> set xs \<Longrightarrow> Q x \<Longrightarrow> P x"
  shows "List.map_filter f (filter P xs) = List.map_filter f (filter Q xs)"
  using assms
proof (induction xs)
  case (Cons x xs)
  then have IH: "List.map_filter f (filter P xs) = List.map_filter f (filter Q xs)" by simp
  show ?case
    using IH Cons.prems(1)[of x] Cons.prems(2)[of x]
    by (cases "P x"; cases "Q x") (auto simp: map_filter_simps split: option.splits)
qed simp

lemma candidate_of_Some:
  "candidate_of q prin epoch r = Some c \<Longrightarrow>
     cd_rule c = r \<and> subject_matches r prin epoch \<and> 0 < resource_score r q \<and> 0 < scope_score r q"
  by (auto simp: candidate_of_def split: if_splits)

lemma candidates_rules:
  "c \<in> set (candidates rs q prin epoch) \<Longrightarrow> cd_rule c \<in> set rs \<and>
     candidate_of q prin epoch (cd_rule c) = Some c"
  using candidate_of_Some by (fastforce simp: candidates_def map_filter_set)

text \<open>What \<open>evaluate\<close> returns, on every branch.\<close>

lemma evaluate_cases:
  assumes "evaluate q now s = Inr (d, s')"
  obtains (disabled) acc where
      "account_in_workspace s (rq_bot_account_id q) (rq_workspace_id q) = Some acc"
      "ba_status acc = Acc_DISABLED"
      "(d, s') = record_decision q DENY ''bot account is disabled''
         (policy_version s (rq_workspace_id q)) [] s"
  | (decided) acc prin where
      "account_in_workspace s (rq_bot_account_id q) (rq_workspace_id q) = Some acc"
      "ba_status acc \<noteq> Acc_DISABLED" "active_request_principal s q = Inr prin"
      "(d, s') = (case decide (candidates (filter (rule_loaded now q) (rules s)) q prin
           (current_membership_epoch s q prin)) of (effect, reason, matched) \<Rightarrow>
         record_decision q effect reason (policy_version s (rq_workspace_id q)) matched s)"
  using assms
  by (auto simp: evaluate_def Let_def bind_res_def split: option.splits if_splits sum.splits prod.splits)

lemma record_decision_simps [simp]:
  "dv_effect (fst (record_decision q e r v m s)) = e"
  "dv_allowed (fst (record_decision q e r v m s)) = (e = ALLOW)"
  "dv_reason (fst (record_decision q e r v m s)) = r"
  "dv_policy_version (fst (record_decision q e r v m s)) = v"
  "dv_matched_rule_ids (fst (record_decision q e r v m s)) = map ar_id m"
  by (simp_all add: record_decision_def)

section \<open>Specification of an evaluation\<close>

text \<open>
  What the engine promises, over the set of rules: the rules in force that name the
  subject, the resource and the scope of the request, ordered by specificity.
\<close>

definition in_force ::
    "db \<Rightarrow> instant \<Rightarrow> acl_request \<Rightarrow> principal option \<Rightarrow> acl_rule \<Rightarrow> bool" where
  "in_force s now q prin r \<longleftrightarrow>
     r \<in> set (rules s) \<and> rule_loaded now q r \<and>
     subject_matches r prin (current_membership_epoch s q prin) \<and>
     0 < resource_score r q \<and> 0 < scope_score r q"

definition specificity :: "acl_request \<Rightarrow> acl_rule \<Rightarrow> nat \<times> nat" where
  "specificity q r =
     (resource_score r q, if ar_principal_id r \<noteq> None then 40 else scope_score r q)"

definition acl_grants :: "db \<Rightarrow> instant \<Rightarrow> acl_request \<Rightarrow> bool" where
  "acl_grants s now q \<longleftrightarrow>
     (\<exists>acc prin.
        account_in_workspace s (rq_bot_account_id q) (rq_workspace_id q) = Some acc \<and>
        ba_status acc \<noteq> Acc_DISABLED \<and> active_request_principal s q = Inr prin \<and>
        (\<exists>r. in_force s now q prin r) \<and>
        (\<forall>r. in_force s now q prin r \<longrightarrow> \<not> ar_locked r) \<and>
        (\<forall>r. in_force s now q prin r \<longrightarrow>
           (\<forall>r'. in_force s now q prin r' \<longrightarrow> specificity q r' \<le> specificity q r) \<longrightarrow>
           ar_effect r = ALLOW))"

lemma candidate_of_in_force:
  "candidate_of q prin epoch r = Some c \<longleftrightarrow>
     subject_matches r prin epoch \<and> 0 < resource_score r q \<and> 0 < scope_score r q \<and>
     cd_rule c = r \<and> cand_score c = specificity q r"
  by (cases c) (auto simp: candidate_of_def cand_score_def specificity_def)

lemma evaluate_candidates:
  fixes s now q prin
  defines "cs \<equiv> candidates (filter (rule_loaded now q) (rules s)) q prin
             (current_membership_epoch s q prin)"
  shows "cd_rule ` set cs = {r. in_force s now q prin r}"
    and "c \<in> set cs \<Longrightarrow> cand_score c = specificity q (cd_rule c)"
proof -
  have mem: "c \<in> set cs \<longleftrightarrow> in_force s now q prin (cd_rule c) \<and> cand_score c = specificity q (cd_rule c)"
    for c
    unfolding cs_def candidates_def map_filter_set in_force_def
    using candidate_of_in_force by auto
  then show "c \<in> set cs \<Longrightarrow> cand_score c = specificity q (cd_rule c)" by blast
  have "\<exists>c. cd_rule c = r \<and> cand_score c = specificity q r" for r
    by (rule exI[of _ "\<lparr>cd_rule = r, cd_resource_score = fst (specificity q r),
          cd_subject_scope_score = snd (specificity q r)\<rparr>"]) (simp add: cand_score_def)
  then show "cd_rule ` set cs = {r. in_force s now q prin r}"
    using mem by (auto simp: image_iff) metis
qed

lemma evaluate_allow_candidates:
  fixes s now q prin
  defines "cs \<equiv> candidates (filter (rule_loaded now q) (rules s)) q prin
             (current_membership_epoch s q prin)"
  shows "fst (decide cs) = ALLOW \<longleftrightarrow>
     (\<exists>r. in_force s now q prin r) \<and> (\<forall>r. in_force s now q prin r \<longrightarrow> \<not> ar_locked r) \<and>
     (\<forall>r. in_force s now q prin r \<longrightarrow>
        (\<forall>r'. in_force s now q prin r' \<longrightarrow> specificity q r' \<le> specificity q r) \<longrightarrow>
        ar_effect r = ALLOW)"
proof -
  note rs = evaluate_candidates(1)[of now q s prin, folded cs_def]
  note sc = evaluate_candidates(2)[of _ now q s prin, folded cs_def]
  have ne: "cs \<noteq> [] \<longleftrightarrow> (\<exists>r. in_force s now q prin r)" using rs by (metis Collect_empty_eq image_is_empty set_empty)
  have all: "(\<forall>c\<in>set cs. P (cd_rule c)) \<longleftrightarrow> (\<forall>r. in_force s now q prin r \<longrightarrow> P r)" for P
    using rs by (metis (mono_tags, lifting) image_iff mem_Collect_eq)
  have best: "c \<in> best_candidates cs \<longleftrightarrow> c \<in> set cs \<and>
      (\<forall>r'. in_force s now q prin r' \<longrightarrow> specificity q r' \<le> specificity q (cd_rule c))" for c
    using all[of "\<lambda>r. specificity q r \<le> specificity q (cd_rule c)"] sc
    by (auto simp: best_candidates_def)
  have "(\<forall>c\<in>best_candidates cs. ar_effect (cd_rule c) = ALLOW) \<longleftrightarrow>
      (\<forall>c\<in>set cs. (\<forall>r'. in_force s now q prin r' \<longrightarrow> specificity q r' \<le> specificity q (cd_rule c))
         \<longrightarrow> ar_effect (cd_rule c) = ALLOW)"
    using best by blast
  then show ?thesis unfolding decide_allow_iff ne
    using all[of "\<lambda>r. \<not> ar_locked r"] all[of "\<lambda>r. (\<forall>r'. in_force s now q prin r' \<longrightarrow>
        specificity q r' \<le> specificity q r) \<longrightarrow> ar_effect r = ALLOW"] by simp
qed

lemma rules_update_unread:
  "account_in_workspace (s\<lparr>rules := rs\<rparr>) = account_in_workspace s"
  "active_request_principal (s\<lparr>rules := rs\<rparr>) = active_request_principal s"
  "current_membership_epoch (s\<lparr>rules := rs\<rparr>) = current_membership_epoch s"
  "policy_version (s\<lparr>rules := rs\<rparr>) = policy_version s"
  by (auto simp: fun_eq_iff account_in_workspace_def active_request_principal_def
      current_membership_epoch_def active_epochs_def policy_version_def split: option.split)

text \<open>The answer depends on the loaded rules only through the set of its candidates.\<close>

lemma evaluate_rules_cong:
  assumes ev: "evaluate q now s = Inr (d, s')"
    and same: "\<And>prin epoch. set (candidates (filter (rule_loaded now q) rs) q prin epoch) =
        set (candidates (filter (rule_loaded now q) (rules s)) q prin epoch)"
  shows "\<exists>d' s''. evaluate q now (s\<lparr>rules := rs\<rparr>) = Inr (d', s'') \<and>
     dv_effect d' = dv_effect d \<and> dv_allowed d' = dv_allowed d \<and> dv_reason d' = dv_reason d \<and>
     set (dv_matched_rule_ids d') = set (dv_matched_rule_ids d)"
proof -
  from ev show ?thesis
  proof (cases rule: evaluate_cases)
    case disabled
    then show ?thesis by (auto simp: evaluate_def rules_update_unread record_decision_def Let_def)
  next
    case (decided acc prin)
    note c = decide_set_cong[OF same[of prin "current_membership_epoch s q prin"]]
    show ?thesis using decided c
      by (auto simp: evaluate_def rules_update_unread Let_def record_decision_def image_image
          split: prod.splits)
  qed
qed

section \<open>The interface of the policy service\<close>

text \<open>
  What the sender and the dispatcher rely on: an answer agrees with a specification of the
  grants, a refusal to answer only happens where nothing is granted, and an evaluation
  changes nothing but the log of decisions.
\<close>

locale policy_evaluator =
  fixes eval :: "acl_request \<Rightarrow> instant \<Rightarrow> db \<Rightarrow> policy_error + acl_decision \<times> db"
    and grants :: "db \<Rightarrow> instant \<Rightarrow> acl_request \<Rightarrow> bool"
  assumes answer: "eval q now s = Inr (d, s') \<Longrightarrow> dv_allowed d \<longleftrightarrow> grants s now q"
    and refusal: "eval q now s = Inl e \<Longrightarrow> \<not> grants s now q"
    and logs: "eval q now s = Inr (d, s') \<Longrightarrow>
      \<exists>p. s' = s\<lparr>decisions := decisions s @ [p]\<rparr> \<and> pd_workspace_id p = rq_workspace_id q \<and>
        pd_policy_version p = dv_policy_version d \<and> pd_effect p = dv_effect d \<and>
        pd_reason p = dv_reason d \<and> dv_policy_version d = policy_version s (rq_workspace_id q) \<and>
        (dv_allowed d \<longleftrightarrow> dv_effect d = ALLOW)"
begin

lemma allowed_iff: "(\<exists>d s'. eval q now s = Inr (d, s') \<and> dv_allowed d) \<longleftrightarrow> grants s now q"
proof (cases "eval q now s")
  case (Inr r)
  then show ?thesis using answer[of q now s "fst r" "snd r"] by (cases r) auto
qed (use refusal in auto)

lemma frame:
  "eval q now s = Inr (d, s') \<Longrightarrow> \<exists>ds. s' = s\<lparr>decisions := ds\<rparr>"
  using logs by blast

end

lemma evaluate_answer:
  assumes "evaluate q now s = Inr (d, s')"
  shows "dv_allowed d \<longleftrightarrow> acl_grants s now q"
  using assms
proof (cases rule: evaluate_cases)
  case disabled
  then show ?thesis by (auto simp: acl_grants_def record_decision_def)
next
  case (decided acc prin)
  then have "dv_allowed d \<longleftrightarrow> fst (decide (candidates (filter (rule_loaded now q) (rules s)) q prin
      (current_membership_epoch s q prin))) = ALLOW"
    by (auto simp: record_decision_def split: prod.splits)
  then show ?thesis using decided unfolding acl_grants_def evaluate_allow_candidates by simp
qed

lemma evaluate_logs:
  assumes "evaluate q now s = Inr (d, s')"
  shows "\<exists>p. s' = s\<lparr>decisions := decisions s @ [p]\<rparr> \<and> pd_workspace_id p = rq_workspace_id q \<and>
     pd_policy_version p = dv_policy_version d \<and> pd_effect p = dv_effect d \<and>
     pd_reason p = dv_reason d \<and> dv_policy_version d = policy_version s (rq_workspace_id q) \<and>
     (dv_allowed d \<longleftrightarrow> dv_effect d = ALLOW)"
  using assms
  by (cases rule: evaluate_cases) (auto simp: record_decision_def split: prod.splits)

lemma evaluate_refusal:
  assumes "evaluate q now s = Inl e"
  shows "\<not> acl_grants s now q"
proof
  assume "acl_grants s now q"
  then obtain acc prin where
    "account_in_workspace s (rq_bot_account_id q) (rq_workspace_id q) = Some acc"
    "ba_status acc \<noteq> Acc_DISABLED" "active_request_principal s q = Inr prin"
    unfolding acl_grants_def by blast
  then show False using assms by (simp add: evaluate_def Let_def split: prod.splits)
qed

interpretation acl: policy_evaluator evaluate acl_grants
  by unfold_locales (fact evaluate_answer evaluate_refusal evaluate_logs)+

section \<open>Properties\<close>

text \<open>
  C3: An evaluation answers ALLOW exactly when the specification grants the request: the
  account exists in the workspace and is not disabled, the actor (if any) is an active
  principal of the workspace, some rule in force applies, none of them is locked, and every
  most specific one allows.
\<close>

theorem evaluate_allowed_iff_granted:
  assumes "evaluate q now s = Inr (d, s')"
  shows "dv_allowed d \<longleftrightarrow> acl_grants s now q"
  by (rule acl.answer[OF assms])

text \<open>
  A rule that is in force and locked decides the request: it is denied whatever the other
  rules say, however specific they are.
\<close>

theorem locked_rule_denies:
  assumes ev: "evaluate q now s = Inr (d, s')"
    and prin: "active_request_principal s q = Inr prin"
    and rule: "in_force s now q prin r" "ar_locked r"
  shows "dv_effect d = DENY \<and> \<not> dv_allowed d"
  using ev
proof (cases rule: evaluate_cases)
  case disabled
  then show ?thesis by (simp add: record_decision_def)
next
  case (decided acc prin')
  let ?cs = "candidates (filter (rule_loaded now q) (rules s)) q prin' (current_membership_epoch s q prin')"
  have "r \<in> cd_rule ` set ?cs"
    using rule(1) prin decided(3) unfolding evaluate_candidates(1) by simp
  then have "\<exists>c\<in>set ?cs. ar_locked (cd_rule c)" using rule(2) by auto
  then show ?thesis using decided(4) by (simp add: decide_locked record_decision_def)
qed

text \<open>
  The order in which the database returns the rules, and rows returned twice, have no
  influence on the effect, the reason or the set of matched rules.
\<close>

theorem evaluate_rule_order_irrelevant:
  assumes "evaluate q now s = Inr (d, s')" and "set rs = set (rules s)"
  shows "\<exists>d' s''. evaluate q now (s\<lparr>rules := rs\<rparr>) = Inr (d', s'') \<and>
     dv_effect d' = dv_effect d \<and> dv_allowed d' = dv_allowed d \<and> dv_reason d' = dv_reason d \<and>
     set (dv_matched_rule_ids d') = set (dv_matched_rule_ids d)"
  using assms(1) by (rule evaluate_rules_cong) (simp add: candidates_def map_filter_set assms(2))

text \<open>
  The membership epoch fences group-member rules: a rule bound to a group member whose
  recorded epoch is not the member's current epoch in the chatroom of the request can be
  deleted without changing the answer, so a grant given before a member left has no effect
  after the member joins again.
\<close>

theorem stale_epoch_rule_powerless:
  assumes ev: "evaluate q now s = Inr (d, s')"
    and pr: "active_request_principal s q = Inr (Some pr)" "pr_principal_type pr = Pr_GROUP_MEMBER"
    and stale: "\<And>r. r \<in> set (rules s) \<Longrightarrow> D r \<Longrightarrow> ar_principal_id r = Some (pr_id pr) \<and>
        ar_membership_epoch r \<noteq> current_membership_epoch s q (Some pr)"
  shows "\<exists>d' s''. evaluate q now (s\<lparr>rules := filter (\<lambda>r. \<not> D r) (rules s)\<rparr>) = Inr (d', s'') \<and>
     dv_effect d' = dv_effect d \<and> dv_allowed d' = dv_allowed d \<and> dv_reason d' = dv_reason d \<and>
     dv_matched_rule_ids d' = dv_matched_rule_ids d"
proof -
  let ?rs = "filter (\<lambda>r. \<not> D r) (rules s)" and ?ep = "current_membership_epoch s q (Some pr)"
  have none: "candidate_of q (Some pr) ?ep r = None" if "r \<in> set (rules s)" "D r" for r
    using stale[OF that] pr(2) by (auto simp: candidate_of_def subject_matches_def)
  have "candidates (filter (rule_loaded now q) ?rs) q (Some pr) ?ep =
      candidates (filter (rule_loaded now q) (rules s)) q (Some pr) ?ep"
    unfolding candidates_def filter_filter
    by (rule map_filter_filter_cong[symmetric]) (use none in auto)
  note same = this
  from ev show ?thesis
  proof (cases rule: evaluate_cases)
    case disabled
    then show ?thesis by (simp add: evaluate_def rules_update_unread record_decision_def Let_def)
  next
    case (decided acc prin)
    then show ?thesis using same pr(1)
      by (auto simp: evaluate_def rules_update_unread record_decision_def Let_def split: prod.splits)
  qed
qed

text \<open>
  A revoked rule has no influence: after \<open>revoke_rule\<close> every later evaluation of
  the workspace answers as if the rule had been deleted, and never lists it as matched.
\<close>

theorem revoked_rule_powerless:
  assumes rv: "revoke_rule i by_whom t s = Inr (r, s1)"
    and uniq: "unique_by ar_id (rules s)"
    and ev: "evaluate q now s1 = Inr (d, s2)"
  shows "i \<notin> set (dv_matched_rule_ids d) \<and>
     (\<exists>d' s''. evaluate q now (s1\<lparr>rules := filter (\<lambda>r. ar_id r \<noteq> i) (rules s1)\<rparr>) = Inr (d', s'') \<and>
        dv_effect d' = dv_effect d \<and> dv_allowed d' = dv_allowed d \<and>
        set (dv_matched_rule_ids d') = set (dv_matched_rule_ids d))"
proof -
  have iv: "rules (snd (increment_version w x)) = rules x" for w x
    by (simp add: increment_version_def split: option.split)
  have dead: "\<forall>x\<in>set (rules s1). ar_id x = i \<longrightarrow> ar_revoked_at x \<noteq> None"
  proof (intro ballI impI)
    fix x assume x: "x \<in> set (rules s1)" "ar_id x = i"
    obtain r0 where r0: "get_row ar_id i (rules s) = Some r0"
      using rv by (auto simp: revoke_rule_def split: option.splits)
    then have "r0 \<in> set (rules s)" "ar_id r0 = i" by (auto dest: get_row_Some_mem)
    show "ar_revoked_at x \<noteq> None"
    proof (cases "ar_revoked_at r0")
      case None
      then have r1: "rules s1 = put_row ar_id r (rules s)" "ar_revoked_at r \<noteq> None" "ar_id r = i"
        using rv r0 \<open>ar_id r0 = i\<close> by (auto simp: revoke_rule_def Let_def iv)
      show ?thesis using x r1(2,3) set_put_row[of x ar_id r "rules s"] unfolding r1(1) by auto
    next
      case (Some t)
      then have "s1 = s" using rv r0 by (auto simp: revoke_rule_def)
      then have "get_row ar_id i (rules s) = Some x" using x get_row_unique[OF uniq] by simp
      then show ?thesis using r0 Some by simp
    qed
  qed
  have "set (candidates (filter (rule_loaded now q) (filter (\<lambda>r. ar_id r \<noteq> i) (rules s1))) q p e) =
      set (candidates (filter (rule_loaded now q) (rules s1)) q p e)" for p e
    using dead by (auto simp: candidates_def map_filter_set rule_loaded_def)
  from evaluate_rules_cong[OF ev this]
  have eq: "\<exists>d' s''. evaluate q now (s1\<lparr>rules := filter (\<lambda>r. ar_id r \<noteq> i) (rules s1)\<rparr>) = Inr (d', s'') \<and>
      dv_effect d' = dv_effect d \<and> dv_allowed d' = dv_allowed d \<and>
      set (dv_matched_rule_ids d') = set (dv_matched_rule_ids d)" by blast
  have "i \<notin> set (dv_matched_rule_ids d)"
    using ev
  proof (cases rule: evaluate_cases)
    case disabled
    then show ?thesis by (simp add: record_decision_def)
  next
    case (decided acc prin)
    let ?cs = "candidates (filter (rule_loaded now q) (rules s1)) q prin
        (current_membership_epoch s1 q prin)"
    have sub: "set (snd (snd (decide ?cs))) \<subseteq> cd_rule ` set ?cs"
      by (auto simp: decide_def Let_def split: option.split)
    have "\<forall>x \<in> cd_rule ` set ?cs. ar_id x \<noteq> i"
      using dead unfolding evaluate_candidates(1) by (auto simp: in_force_def rule_loaded_def)
    then show ?thesis using decided(4) sub by (auto simp: record_decision_def split: prod.splits)
  qed
  with eq show ?thesis by blast
qed

text \<open>
  An evaluation only reads: it appends one decision record (of the workspace, version,
  effect and reason it answers) and changes no other table.
\<close>

theorem evaluate_only_logs:
  assumes "evaluate q now s = Inr (d, s')"
  shows "\<exists>p. s' = s\<lparr>decisions := decisions s @ [p]\<rparr> \<and> pd_workspace_id p = rq_workspace_id q \<and>
     pd_policy_version p = dv_policy_version d \<and> pd_effect p = dv_effect d \<and>
     pd_reason p = dv_reason d \<and> dv_policy_version d = policy_version s (rq_workspace_id q) \<and>
     (dv_allowed d \<longleftrightarrow> dv_effect d = ALLOW)"
  using acl.logs[OF assms] by blast

text \<open>
  Rules of other workspaces have no influence on an evaluation.
\<close>

theorem other_workspace_rules_irrelevant:
  assumes ev: "evaluate q now s = Inr (d, s')"
    and other: "\<forall>r\<in>set extra. ar_workspace_id r \<noteq> rq_workspace_id q"
  shows "\<exists>d' s''. evaluate q now (s\<lparr>rules := rules s @ extra\<rparr>) = Inr (d', s'') \<and>
     dv_effect d' = dv_effect d \<and> dv_allowed d' = dv_allowed d \<and> dv_reason d' = dv_reason d \<and>
     set (dv_matched_rule_ids d') = set (dv_matched_rule_ids d)"
  using ev by (rule evaluate_rules_cong)
    (use other in \<open>auto simp: candidates_def map_filter_set rule_loaded_def\<close>)

subsection \<open>Rules stored in the database\<close>

text \<open>
  What the services keep true of a stored rule: only a DENY is locked (when the payload was
  validated), and a rule for a group member is scoped to a chatroom and carries an epoch.
\<close>

definition rule_wf :: "db \<Rightarrow> acl_rule \<Rightarrow> bool" where
  "rule_wf s r \<longleftrightarrow>
     (ar_locked r \<longrightarrow> ar_effect r = DENY) \<and>
     (\<forall>i. ar_principal_id r = Some i \<longrightarrow>
        (\<exists>pr. get_row pr_id i (principals s) = Some pr \<and> pr_workspace_id pr = ar_workspace_id r \<and>
           (pr_principal_type pr = Pr_GROUP_MEMBER \<longrightarrow>
              ar_scope_type r = Sc_CHATROOM \<and> ar_membership_epoch r \<noteq> None) \<and>
           (pr_principal_type pr \<noteq> Pr_GROUP_MEMBER \<longrightarrow> ar_membership_epoch r = None))) \<and>
     (ar_principal_id r = None \<longrightarrow> ar_membership_epoch r = None)"

lemma increment_version_frame [simp]:
  "rules (snd (increment_version w s)) = rules s"
  "principals (snd (increment_version w s)) = principals s"
  "memberships (snd (increment_version w s)) = memberships s"
  "accounts (snd (increment_version w s)) = accounts s"
  "connections (snd (increment_version w s)) = connections s"
  "decisions (snd (increment_version w s)) = decisions s"
  "outbox (snd (increment_version w s)) = outbox s"
  by (simp_all add: increment_version_def split: option.split)

lemma policy_version_increment:
  "policy_version (snd (increment_version w s)) w' =
     (if w' = w then policy_version s w + 1 else policy_version s w')"
proof (cases "get_row ps_workspace_id w (policy_states s)")
  case None
  then show ?thesis
    by (auto simp: increment_version_def policy_version_def get_row_append get_row_Cons
        split: option.split)
next
  case (Some st)
  then have "ps_workspace_id st = w" by (auto dest: get_row_Some_mem)
  then show ?thesis using Some
    get_put_same[of ps_workspace_id "st\<lparr>ps_version := ps_version st + 1\<rparr>" "policy_states s"]
    get_put_other[of w' ps_workspace_id "st\<lparr>ps_version := ps_version st + 1\<rparr>" "policy_states s"]
    by (auto simp: increment_version_def policy_version_def Let_def)
qed

lemma create_rule_inv:
  assumes "create_rule E p by_whom now s = Inr (r, s')"
  obtains prin epoch where
    "validate_principal s p = Inr prin" "validate_scope s p = Inr ()"
    "resolve_membership_epoch s p prin = Inr epoch"
    "ar_id r = uuid7 E (next_id s)" "ar_workspace_id r = rc_workspace_id p"
    "ar_principal_id r = rc_principal_id p" "ar_scope_type r = rc_scope_type p"
    "ar_scope_id r = rc_scope_id p" "ar_resource_type r = rc_resource_type p"
    "ar_resource_id r = rc_resource_id p" "ar_effect r = rc_effect p" "ar_locked r = rc_locked p"
    "ar_membership_epoch r = epoch" "ar_revoked_at r = None"
    "s' = snd (increment_version (rc_workspace_id p)
       (s\<lparr>next_id := Suc (next_id s), rules := rules s @ [r]\<rparr>))"
  using assms
  by (auto simp: create_rule_def alloc_def Let_def result_simps split: if_splits)

lemma validate_principal_Some:
  "validate_principal s p = Inr (Some pr) \<Longrightarrow>
     \<exists>i. rc_principal_id p = Some i \<and> get_row pr_id i (principals s) = Some pr \<and>
       pr_workspace_id pr = rc_workspace_id p \<and> pr_active pr"
  by (auto simp: validate_principal_def split: option.splits if_splits)

lemma validate_principal_None:
  "validate_principal s p = Inr None \<Longrightarrow> rc_principal_id p = None \<and> rc_membership_epoch p = None"
  by (auto simp: validate_principal_def split: option.splits if_splits)

lemma resolve_membership_epoch_cases:
  assumes "resolve_membership_epoch s p prin = Inr epoch"
  shows "(\<exists>pr. prin = Some pr \<and> pr_principal_type pr = Pr_GROUP_MEMBER \<and>
            rc_scope_type p = Sc_CHATROOM \<and> epoch \<noteq> None) \<or>
         (\<not> (\<exists>pr. prin = Some pr \<and> pr_principal_type pr = Pr_GROUP_MEMBER) \<and> epoch = None)"
proof (cases prin)
  case (Some pr)
  show ?thesis
  proof (cases "pr_principal_type pr = Pr_GROUP_MEMBER")
    case True
    then obtain c where c: "rc_scope_type p = Sc_CHATROOM"
      "(case list_max (active_epochs s c (pr_external_id pr)) of
          None \<Rightarrow> Inl (InvalidPolicyRule ''principal is not an active member of the chatroom'')
        | Some e \<Rightarrow> if rc_membership_epoch p \<noteq> None \<and> rc_membership_epoch p \<noteq> Some e
            then Inl (InvalidPolicyRule ''membership_epoch is stale'') else Inr (Some e)) = Inr epoch"
      using assms Some
      by (auto simp: resolve_membership_epoch_def bind_res_Inr_iff simp del: not_None_eq
          split: if_split_asm)
    have "epoch \<noteq> None"
    proof (cases "list_max (active_epochs s c (pr_external_id pr))")
      case (Some e)
      have "epoch = Some e" using c(2) unfolding Some option.case by (simp split: if_split_asm)
      then show ?thesis by simp
    qed (use c in simp)
    then show ?thesis using True Some c(1) by blast
  next
    case False
    then show ?thesis using assms Some
      by (auto simp: resolve_membership_epoch_def split: if_split_asm)
  qed
qed (use assms in \<open>auto simp: resolve_membership_epoch_def split: if_splits\<close>)

text \<open>
  C29: \<open>create_rule\<close> on a validated payload stores a well-formed rule (a group-member
  rule is bound to a chatroom and to the member's current epoch there), keeps the stored
  rules well-formed and raises the policy version of its workspace by exactly one.
\<close>

theorem create_rule_keeps_rules_wf:
  assumes ok: "create_rule E p by_whom now s = Inr (r, s')"
    and valid: "validate_rule p"
    and wf: "\<forall>x\<in>set (rules s). rule_wf s x"
  shows "(\<forall>x\<in>set (rules s'). rule_wf s' x) \<and> rules s' = rules s @ [r] \<and>
     (\<forall>ws. policy_version s' ws =
        (if ws = rc_workspace_id p then policy_version s ws + 1 else policy_version s ws))"
proof -
  obtain prin epoch where inv: "validate_principal s p = Inr prin"
    "resolve_membership_epoch s p prin = Inr epoch" "ar_workspace_id r = rc_workspace_id p"
    "ar_principal_id r = rc_principal_id p" "ar_scope_type r = rc_scope_type p"
    "ar_effect r = rc_effect p" "ar_locked r = rc_locked p" "ar_membership_epoch r = epoch"
    and s': "s' = snd (increment_version (rc_workspace_id p)
       (s\<lparr>next_id := Suc (next_id s), rules := rules s @ [r]\<rparr>))"
    by (rule create_rule_inv[OF ok])
  have same: "rule_wf s' x = rule_wf s x" for x by (simp add: rule_wf_def s')
  have lk: "ar_locked r \<longrightarrow> ar_effect r = DENY" using valid inv by (auto simp: validate_rule_def)
  note ep = resolve_membership_epoch_cases[OF inv(2)]
  have "rule_wf s r"
  proof (cases prin)
    case None
    then show ?thesis using inv ep lk validate_principal_None[of s p] by (simp add: rule_wf_def)
  next
    case (Some pr)
    from validate_principal_Some inv(1) Some obtain i where "rc_principal_id p = Some i"
      "get_row pr_id i (principals s) = Some pr" "pr_workspace_id pr = rc_workspace_id p" by blast
    then show ?thesis using inv ep lk Some by (auto simp: rule_wf_def)
  qed
  then have "\<forall>x\<in>set (rules s @ [r]). rule_wf s x" using wf by auto
  moreover have "policy_version (s\<lparr>next_id := Suc (next_id s), rules := rules s @ [r]\<rparr>) =
      policy_version s"
    by (simp add: policy_version_def fun_eq_iff)
  ultimately show ?thesis by (simp add: same) (simp add: s' policy_version_increment)
qed

definition principal_key :: "principal \<Rightarrow> uuid \<times> principal_type \<times> string" where
  "principal_key p = (pr_workspace_id p, pr_principal_type p, pr_external_id p)"

lemma find_principal_Some:
  "find_principal s ws t ext = Some p \<Longrightarrow> p \<in> set (principals s) \<and> principal_key p = (ws, t, ext)"
  by (auto simp: find_principal_def find_Some_iff principal_key_def)

lemma find_principal_None:
  "find_principal s ws t ext = None \<Longrightarrow> (ws, t, ext) \<notin> principal_key ` set (principals s)"
  by (auto simp: find_principal_def find_None_iff principal_key_def)

text \<open>
  A principal is unique per workspace, type and external identifier:
  \<open>create_principal\<close> keeps that, and a second call with the same key returns the same
  row, active, without inserting another.
\<close>

theorem create_principal_unique:
  assumes ok: "create_principal E p s = Inr (x, s')"
    and ids: "unique_by pr_id (principals s)" and keys: "unique_by principal_key (principals s)"
  shows "unique_by principal_key (principals s') \<and> pr_active x \<and>
     principal_key x = (pc_workspace_id p, pc_principal_type p, pc_external_id p) \<and>
     get_row principal_key (principal_key x) (principals s') = Some x \<and>
     length (principals s') \<le> Suc (length (principals s)) \<and>
     (\<forall>y\<in>set (principals s). principal_key y = principal_key x \<longrightarrow>
        pr_id x = pr_id y \<and> length (principals s') = length (principals s))"
proof (cases "find_principal s (pc_workspace_id p) (pc_principal_type p) (pc_external_id p)")
  case None
  then have x: "principals s' = principals s @ [x]" "pr_active x"
    "principal_key x = (pc_workspace_id p, pc_principal_type p, pc_external_id p)"
    using ok by (auto simp: create_principal_def alloc_def Let_def principal_key_def split: if_splits)
  have new: "principal_key x \<notin> principal_key ` set (principals s)"
    using find_principal_None[OF None] x(3) by simp
  then have u: "unique_by principal_key (principals s')" using keys x(1) by (simp add: unique_by_snoc)
  moreover have "get_row principal_key (principal_key x) (principals s') = Some x"
    by (rule get_row_unique[OF u]) (simp_all add: x(1))
  moreover have "principal_key y \<noteq> principal_key x" if "y \<in> set (principals s)" for y
    using that new by (metis imageI)
  ultimately show ?thesis using x by simp
next
  case (Some e)
  note e = find_principal_Some[OF Some]
  have "x = (case pc_display_name p of None \<Rightarrow> e
        | Some d \<Rightarrow> e\<lparr>pr_display_name := Some d\<rparr>)\<lparr>pr_active := True\<rparr>"
    and s': "s' = s\<lparr>principals := put_row pr_id x (principals s)\<rparr>"
    using ok Some by (auto simp: create_principal_def Let_def split: if_split_asm)
  then have x: "principals s' = put_row pr_id x (principals s)" "pr_active x"
    "principal_key x = principal_key e" "pr_id x = pr_id e"
    by (simp_all add: principal_key_def split: option.split)
  have inj: "r' \<in> set (principals s) \<Longrightarrow> pr_id r' = pr_id x \<Longrightarrow> r' = e" for r'
    using ids e x(4) by (auto simp: unique_by_def distinct_map inj_on_def)
  have "map principal_key (principals s') = map principal_key (principals s)"
    unfolding x(1) by (rule put_row_map_cong) (use inj x(3) in auto)
  then have u: "unique_by principal_key (principals s')" using keys by (simp add: unique_by_def)
  have "x \<in> set (principals s')" using e x(4) unfolding x(1) mem_put_row_iff by auto
  then have "get_row principal_key (principal_key x) (principals s') = Some x"
    using get_row_unique[OF u] by simp
  moreover have "\<forall>y\<in>set (principals s). principal_key y = principal_key x \<longrightarrow> pr_id x = pr_id y"
  proof (intro ballI impI)
    fix y assume y: "y \<in> set (principals s)" "principal_key y = principal_key x"
    then have "y = e" using keys e x(3) by (simp add: unique_by_def distinct_map inj_on_def)
    then show "pr_id x = pr_id y" using x(4) by simp
  qed
  moreover have "length (principals s') = length (principals s)" using x(1) by simp
  ultimately show ?thesis using u x(2,3) e by simp
qed

subsection \<open>Scope identifiers\<close>

lemma hex_val_hex_digit: "d < 16 \<Longrightarrow> hex_val (hex_digit d) = Some d"
  by (auto simp: hex_val_def hex_digit_def Let_def)

lemma hex_digit_not_special:
  "d < 16 \<Longrightarrow> of_char (hex_digit d) \<in> {48..57::nat} \<union> {97..102}"
  by (auto simp: hex_digit_def)

text \<open>The characters that printing a UUID produces.\<close>

definition hex_char :: "char \<Rightarrow> bool" where
  "hex_char c \<longleftrightarrow> of_char c \<in> {48..57::nat} \<union> {97..102}"

lemma hex_digits_chars: "c \<in> set (hex_digits k n) \<Longrightarrow> hex_char c"
  by (induction k arbitrary: n) (auto simp: hex_char_def hex_digit_def split: if_splits)

lemma hex_char_neq:
  "hex_char c \<Longrightarrow> c \<noteq> CHR ''-'' \<and> c \<noteq> CHR ''u'' \<and> c \<noteq> CHR ''_'' \<and> c \<noteq> CHR ''x'' \<and>
     c \<noteq> CHR ''X'' \<and> c \<noteq> CHR ''+'' \<and> c \<noteq> CHR ''{'' \<and> c \<noteq> CHR ''}'' \<and> \<not> py_isspace c"
  by (auto simp: hex_char_def py_isspace_def Let_def)

lemma remove_all_absent:
  "p \<notin> set s \<Longrightarrow> remove_all (p # ps) 0 s = s"
  by (induction s) auto

lemma hex_run_app:
  "\<forall>c\<in>set s. hex_char c \<Longrightarrow> s \<noteq> [] \<Longrightarrow> hex_run a s = Some (fold (\<lambda>c acc. acc * 16 + the (hex_val c)) s a)"
proof (induction s arbitrary: a)
  case (Cons c cs)
  obtain d where d: "hex_val c = Some d"
    using Cons.prems(1) by (auto simp: hex_char_def hex_val_def Let_def)
  show ?case
  proof (cases cs)
    case (Cons x xs)
    then have "x \<noteq> CHR ''_''" using Cons.prems(1) hex_char_neq by auto
    then show ?thesis using Cons d Cons.prems(1) \<open>cs = x # xs\<close>
      Cons.IH[of "a * 16 + d"] by simp
  qed (simp add: d)
qed simp

lemma fold_hex_digits:
  "n < 16 ^ k \<Longrightarrow> fold (\<lambda>c acc. acc * 16 + the (hex_val c)) (hex_digits k n) a = a * 16 ^ k + n"
proof (induction k arbitrary: n a)
  case (Suc k)
  then have "n div 16 < 16 ^ k" by (simp add: less_mult_imp_div_less mult.commute)
  then show ?case using Suc.IH[of "n div 16" a] hex_val_hex_digit[of "n mod 16"]
    by (simp add: algebra_simps)
qed simp

lemma uuid_str_chars: "c \<in> set (uuid_str u) \<Longrightarrow> c = CHR ''-'' \<or> hex_char c"
  by (auto simp: uuid_str_def Let_def dest!: in_set_takeD in_set_dropD intro: hex_digits_chars)

lemma py_uuid_of_uuid_str_helper: "py_uuid (uuid_str u) = Some u"
proof -
  let ?h = "hex_digits 32 (unat u)"
  have hc: "\<forall>c\<in>set ?h. hex_char c" by (auto intro: hex_digits_chars)
  note chars = uuid_str_chars[of _ u]
  have nou: "CHR ''u'' \<notin> set (uuid_str u)" using chars hex_char_neq by fastforce
  have nob: "c \<in> set (uuid_str u) \<Longrightarrow> c \<noteq> CHR ''{'' \<and> c \<noteq> CHR ''}''" for c
    using chars hex_char_neq by fastforce
  have drop_id: "dropWhile (\<lambda>c. c = CHR ''{'' \<or> c = CHR ''}'') s = s"
    if "set s \<subseteq> set (uuid_str u)" for s
    using that nob by (cases s) auto
  have "strip_braces (uuid_str u) = uuid_str u"
    using drop_id[of "uuid_str u"] drop_id[of "rev (uuid_str u)"]
    by (simp add: strip_braces_def Let_def)
  moreover have "filter (\<lambda>c. c \<noteq> CHR ''-'') (uuid_str u) = ?h"
  proof -
    have keep: "filter (\<lambda>c. c \<noteq> CHR ''-'') s = s" if "set s \<subseteq> set ?h" for s
      using that hc hex_char_neq by (intro filter_True) blast
    have "filter (\<lambda>c. c \<noteq> CHR ''-'') (take n ?h) = take n ?h"
      "filter (\<lambda>c. c \<noteq> CHR ''-'') (take n (drop m ?h)) = take n (drop m ?h)"
      "filter (\<lambda>c. c \<noteq> CHR ''-'') (drop m ?h) = drop m ?h" for m n
      by (rule keep; auto dest: in_set_takeD in_set_dropD)+
    then have "filter (\<lambda>c. c \<noteq> CHR ''-'') (uuid_str u) =
       take 8 ?h @ take 4 (drop 8 ?h) @ take 4 (drop 12 ?h) @ take 4 (drop 16 ?h) @ drop 20 ?h"
      by (simp add: uuid_str_def Let_def)
    also have "\<dots> = ?h" by (rule hex_groups[symmetric])
    finally show ?thesis .
  qed
  moreover have "int_base16 ?h = Some (unat u)"
  proof -
    have hne: "?h \<noteq> []" by (metis length_hex_digits list.size(3) zero_neq_numeral)
    have sp: "\<not> py_isspace c" if "c \<in> set ?h" for c using that hc hex_char_neq by blast
    have "lstrip ?h = ?h" using hne sp
      by (simp add: lstrip_def dropWhile_hd_keep)
    then have st: "strip ?h = ?h" using hne sp
      by (simp add: strip_def dropWhile_hd_keep hd_rev)
    obtain c1 c2 cs where h: "?h = c1 # c2 # cs"
      using length_hex_digits[of 32 "unat u"] by (cases ?h; cases "tl ?h") auto
    have "\<not> startswith ?h ''+''" "drop_hex_prefix ?h = ?h"
      using hc hex_char_neq unfolding h by (auto simp: drop_hex_prefix_def)
    then have "int_base16 ?h = hex_run 0 ?h" by (simp add: int_base16_def st)
    also have "\<dots> = Some (unat u)"
      using hex_run_app[OF hc hne] fold_hex_digits[of "unat u" 32 0]
        unsigned_less[of u, where ?'a = nat] by simp
    finally show ?thesis .
  qed
  ultimately show ?thesis using nou
    by (simp add: py_uuid_def remove_all_absent)
qed

text \<open>
  A UUID printed by the program is read back unchanged by \<open>UUID(value)\<close>, so the
  canonical identifier of a chatroom, account or contact is accepted as a rule's scope.
\<close>

theorem py_uuid_of_uuid_str:
  "py_uuid (uuid_str u) = Some u \<and> parse_uuid (uuid_str u) msg = Inr u"
  by (simp add: py_uuid_of_uuid_str_helper parse_uuid_def)

text \<open>
  A scope identifier is compared as text. A rule whose \<open>scope_id\<close> was accepted by
  the validation but is not the canonical lower-case form (an upper-case UUID, one in braces
  or without hyphens) never takes part in any evaluation, even when it is a locked DENY.
\<close>

theorem noncanonical_scope_rule_is_inert:
  assumes "ar_scope_type r \<noteq> Sc_WORKSPACE" and "py_uuid (ar_scope_id r) = Some u"
    and "ar_scope_id r \<noteq> uuid_str u"
  shows "scope_score r q = 0 \<and> candidate_of q prin epoch r = None"
proof -
  have "scope_score r q = 0"
  proof (rule ccontr)
    assume "scope_score r q \<noteq> 0"
    then obtain v where "ar_scope_id r = uuid_str v"
      using assms(1) by (cases "ar_scope_type r")
        (auto simp: scope_score_def split: option.splits if_splits)
    then show False using assms(2,3) py_uuid_of_uuid_str_helper by simp
  qed
  then show ?thesis by (simp add: candidate_of_def)
qed

section \<open>A sample workspace\<close>

text \<open>
  One workspace with an online account, a chatroom and a group member who left and joined
  again (epoch 2), used to show that the hypotheses of the properties can hold.
\<close>

definition sample_env :: env where
  "sample_env = \<lparr>uuid7 = (\<lambda>n. of_nat (1000 + n)), pyd_uuid = py_uuid, sha256_hex = (\<lambda>x. x),
     fernet_decrypt = Some, isoformat = int_str, float_repr = (\<lambda>x. int_str (round_half_even x)),
     pyd_float = (\<lambda>j. case j of JInt i \<Rightarrow> Some (of_int i) | JFloat x \<Rightarrow> Some x | _ \<Rightarrow> None),
     sha256_bytes = map (\<lambda>b. char_of (unat b))\<rparr>"

definition sample_connection :: gewe_connection where
  "sample_connection = \<lparr>gc_id = 2, gc_workspace_id = 1, gc_name = ''c'', gc_api_base_url = ''u'',
     gc_token_ciphertext = ''t'', gc_token_fingerprint = ''f'', gc_callback_mode = Cb_MANUAL,
     gc_callback_secret_ciphertext = ''x'', gc_callback_secret_hash = ''secret'',
     gc_callback_expected_url_ciphertext = None, gc_callback_verified_at = None,
     gc_last_callback_at = None, gc_last_callback_error = None, gc_status = Conn_ACTIVE\<rparr>"

definition sample_account :: bot_account where
  "sample_account = \<lparr>ba_id = 3, ba_gewe_connection_id = 2, ba_app_id = ''app'', ba_wxid = Some ''wxid_bot'',
     ba_alias = None, ba_nickname = None, ba_avatar_url = None, ba_note = None,
     ba_pending_login_uuid = None, ba_qr_expires_at = None, ba_last_status_checked_at = None,
     ba_last_status_error = None, ba_status = Acc_ONLINE, ba_logged_in_at = None,
     ba_last_online_at = None\<rparr>"

definition sample_chatroom :: chatroom where
  "sample_chatroom = \<lparr>cr_id = 4, cr_bot_account_id = 3, cr_chatroom_id = ''g@chatroom'', cr_name = None,
     cr_owner_wxid = None, cr_member_count = None, cr_discovered_from = ''WEBHOOK'',
     cr_placeholder = True, cr_last_synced_at = None\<rparr>"

definition sample_membership :: "uuid \<Rightarrow> int \<Rightarrow> instant option \<Rightarrow> chatroom_membership" where
  "sample_membership i epoch left = \<lparr>cm_id = i, cm_chatroom_id = 4, cm_member_wxid = ''wxid_m'',
     cm_membership_epoch = epoch, cm_nickname = None, cm_display_name = None, cm_inviter_wxid = None,
     cm_member_flag = None, cm_joined_at = 0, cm_left_at = left\<rparr>"

definition sample_principal :: principal where
  "sample_principal = \<lparr>pr_id = 5, pr_workspace_id = 1, pr_principal_type = Pr_GROUP_MEMBER,
     pr_external_id = ''wxid_m'', pr_display_name = None, pr_active = True\<rparr>"

definition sample_rule :: "uuid \<Rightarrow> acl_effect \<Rightarrow> bool \<Rightarrow> uuid option \<Rightarrow> int option \<Rightarrow> acl_rule" where
  "sample_rule i eff lock prin epoch = \<lparr>ar_id = i, ar_workspace_id = 1, ar_principal_id = prin,
     ar_scope_type = Sc_CHATROOM, ar_scope_id = uuid_str 4, ar_resource_type = Rs_PLUGIN,
     ar_resource_id = ''echo'', ar_effect = eff, ar_locked = lock, ar_membership_epoch = epoch,
     ar_valid_from = 0, ar_valid_until = None, ar_reason = ''r'', ar_created_by = ''api'',
     ar_revoked_at = None, ar_revoked_by = None, ar_created_at = 0\<rparr>"

definition sample_db :: "acl_rule list \<Rightarrow> db" where
  "sample_db rs = empty_db\<lparr>
     workspaces := [\<lparr>ws_id = 1, ws_name = ''w'', ws_slug = ''w'', ws_singleton_key = 1\<rparr>],
     connections := [sample_connection], accounts := [sample_account], chatrooms := [sample_chatroom],
     memberships := [sample_membership 7 1 (Some 5), sample_membership 8 2 None],
     principals := [sample_principal], rules := rs\<rparr>"

definition sample_request :: acl_request where
  "sample_request = \<lparr>rq_workspace_id = 1, rq_bot_account_id = 3, rq_actor_principal_id = Some 5,
     rq_chatroom_id = Some 4, rq_contact_id = None, rq_resource_type = Rs_PLUGIN,
     rq_resource_id = ''echo'', rq_parent_plugin_id = None, rq_trace_id = None\<rparr>"

lemmas sample_defs = sample_db_def sample_request_def sample_rule_def sample_principal_def
  sample_membership_def sample_chatroom_def sample_account_def sample_connection_def
  sample_env_def empty_db_def

text \<open>The parts of an evaluation in the sample workspace, computed once.\<close>

lemma sample_lookups:
  "account_in_workspace (sample_db rs) 3 1 = Some sample_account"
  "active_request_principal (sample_db rs) sample_request = Inr (Some sample_principal)"
  "current_membership_epoch (sample_db rs) sample_request (Some sample_principal) = Some 2"
  by (simp_all add: sample_defs account_in_workspace_def active_request_principal_def
      current_membership_epoch_def active_epochs_def get_row_def list_max_def)

lemma sample_evaluate:
  "evaluate sample_request now (sample_db rs) =
     (case decide (candidates (filter (rule_loaded now sample_request) rs) sample_request
        (Some sample_principal) (Some 2)) of (effect, reason, matched) \<Rightarrow>
      Inr (record_decision sample_request effect reason 0 matched (sample_db rs)))"
  using sample_lookups[of rs]
  by (simp add: evaluate_def Let_def policy_version_def)
    (simp add: sample_request_def sample_account_def sample_db_def empty_db_def)

lemma sample_candidate:
  "candidate_of sample_request (Some sample_principal) (Some 2) (sample_rule i eff lock prin epoch) =
     (if prin = None \<or> prin = Some 5 \<and> epoch = Some 2
      then Some \<lparr>cd_rule = sample_rule i eff lock prin epoch, cd_resource_score = 30,
             cd_subject_scope_score = (if prin = None then 30 else 40)\<rparr> else None)"
  by (auto simp: candidate_of_def subject_matches_def sample_defs resource_score_def scope_score_def
      split: option.split)

lemma sample_loaded:
  "rule_loaded 10 sample_request (sample_rule i eff lock prin epoch) \<longleftrightarrow> prin = None \<or> prin = Some 5"
  by (auto simp: rule_loaded_def sample_defs)

lemmas sample_eval = sample_evaluate sample_loaded sample_candidate candidates_def
  map_filter_simps decide_def list_max_def cand_score_def

lemma sample_rule_sel [simp]:
  "ar_locked (sample_rule i eff lock prin epoch) = lock"
  "ar_effect (sample_rule i eff lock prin epoch) = eff"
  "ar_id (sample_rule i eff lock prin epoch) = i"
  "ar_principal_id (sample_rule i eff lock prin epoch) = prin"
  "ar_membership_epoch (sample_rule i eff lock prin epoch) = epoch"
  by (simp_all add: sample_rule_def)

theorem evaluate_allowed_iff_granted_witness:
  "\<exists>d s'. evaluate sample_request 10 (sample_db [sample_rule 6 ALLOW False None None]) = Inr (d, s') \<and>
     dv_allowed d \<and> acl_grants (sample_db [sample_rule 6 ALLOW False None None]) 10 sample_request"
proof -
  obtain d s' where e: "evaluate sample_request 10 (sample_db [sample_rule 6 ALLOW False None None]) =
      Inr (d, s')" "dv_allowed d"
    by (simp add: sample_eval Let_def record_decision_def)
  then show ?thesis using evaluate_allowed_iff_granted[OF e(1)] by blast
qed

lemma sample_in_force:
  "in_force (sample_db rs) 10 sample_request (Some sample_principal) (sample_rule i eff lock prin epoch)
     \<longleftrightarrow> sample_rule i eff lock prin epoch \<in> set rs \<and> (prin = None \<or> prin = Some 5 \<and> epoch = Some 2)"
proof -
  have "rules (sample_db rs) = rs" by (simp add: sample_db_def)
  then show ?thesis
    by (auto simp: in_force_def sample_loaded sample_lookups)
      (auto simp: subject_matches_def sample_defs resource_score_def scope_score_def)
qed

theorem locked_rule_denies_witness:
  "\<exists>d s'. evaluate sample_request 10
       (sample_db [sample_rule 6 ALLOW False (Some 5) (Some 2), sample_rule 9 DENY True None None]) =
     Inr (d, s') \<and> dv_effect d = DENY \<and> \<not> dv_allowed d"
proof -
  let ?s = "sample_db [sample_rule 6 ALLOW False (Some 5) (Some 2), sample_rule 9 DENY True None None]"
  obtain d s' where e: "evaluate sample_request 10 ?s = Inr (d, s')"
    by (simp add: sample_eval Let_def record_decision_def)
  have "in_force ?s 10 sample_request (Some sample_principal) (sample_rule 9 DENY True None None)"
    by (simp add: sample_in_force)
  then show ?thesis using e locked_rule_denies[OF e sample_lookups(2)] by simp
qed

theorem evaluate_rule_order_irrelevant_witness:
  "\<exists>d s'. evaluate sample_request 10
       (sample_db [sample_rule 6 ALLOW False None None, sample_rule 9 ASK False None None]) = Inr (d, s') \<and>
     (\<exists>d' s''. evaluate sample_request 10
       (sample_db [sample_rule 6 ALLOW False None None, sample_rule 9 ASK False None None]
          \<lparr>rules := [sample_rule 9 ASK False None None, sample_rule 6 ALLOW False None None,
                    sample_rule 9 ASK False None None]\<rparr>) = Inr (d', s'') \<and>
     dv_effect d' = dv_effect d \<and> dv_allowed d' = dv_allowed d \<and> dv_reason d' = dv_reason d \<and>
     set (dv_matched_rule_ids d') = set (dv_matched_rule_ids d))"
proof -
  let ?s = "sample_db [sample_rule 6 ALLOW False None None, sample_rule 9 ASK False None None]"
  obtain d s' where e: "evaluate sample_request 10 ?s = Inr (d, s')"
    by (simp add: sample_eval Let_def record_decision_def)
  have "set [sample_rule 9 ASK False None None, sample_rule 6 ALLOW False None None,
      sample_rule 9 ASK False None None] = set (rules ?s)"
    by (auto simp: sample_db_def)
  then show ?thesis using e evaluate_rule_order_irrelevant[OF e] by blast
qed

theorem stale_epoch_rule_powerless_witness:
  "\<exists>d s'. evaluate sample_request 10 (sample_db [sample_rule 6 ALLOW False (Some 5) (Some 1)]) = Inr (d, s') \<and>
     \<not> dv_allowed d \<and>
     (\<exists>d' s''. evaluate sample_request 10
        (sample_db [sample_rule 6 ALLOW False (Some 5) (Some 1)]
          \<lparr>rules := filter (\<lambda>r. \<not> ar_membership_epoch r = Some 1)
             (rules (sample_db [sample_rule 6 ALLOW False (Some 5) (Some 1)]))\<rparr>) = Inr (d', s'') \<and>
      dv_allowed d' = dv_allowed d)"
proof -
  let ?s = "sample_db [sample_rule 6 ALLOW False (Some 5) (Some 1)]"
  obtain d s' where e: "evaluate sample_request 10 ?s = Inr (d, s')" "\<not> dv_allowed d"
    by (simp add: sample_eval Let_def record_decision_def)
  have gm: "pr_principal_type sample_principal = Pr_GROUP_MEMBER" by (simp add: sample_principal_def)
  have st: "r \<in> set (rules ?s) \<Longrightarrow> ar_membership_epoch r = Some 1 \<Longrightarrow>
      ar_principal_id r = Some (pr_id sample_principal) \<and>
      ar_membership_epoch r \<noteq> current_membership_epoch ?s sample_request (Some sample_principal)" for r
    by (auto simp: sample_lookups) (simp_all add: sample_db_def sample_rule_def sample_principal_def)
  show ?thesis
    using e stale_epoch_rule_powerless[OF e(1) sample_lookups(2) gm,
        of "\<lambda>r. ar_membership_epoch r = Some 1"] st by blast
qed

lemma sample_revoke:
  "revoke_rule 6 ''admin'' 20 (sample_db [sample_rule 6 ALLOW False None None]) =
     Inr ((sample_rule 6 ALLOW False None None)\<lparr>ar_revoked_at := Some 20, ar_revoked_by := Some ''admin''\<rparr>,
       (sample_db [(sample_rule 6 ALLOW False None None)
          \<lparr>ar_revoked_at := Some 20, ar_revoked_by := Some ''admin''\<rparr>])
        \<lparr>policy_states := [\<lparr>ps_workspace_id = 1, ps_version = 1\<rparr>]\<rparr>)"
  by (simp add: revoke_rule_def increment_version_def sample_defs get_row_def put_row_def Let_def)

theorem revoked_rule_powerless_witness:
  "\<exists>r s1 d s2. revoke_rule 6 ''admin'' 20 (sample_db [sample_rule 6 ALLOW False None None]) = Inr (r, s1) \<and>
     evaluate sample_request 30 s1 = Inr (d, s2) \<and> 6 \<notin> set (dv_matched_rule_ids d)"
proof -
  let ?s = "sample_db [sample_rule 6 ALLOW False None None]"
  obtain r s1 where rv: "revoke_rule 6 ''admin'' 20 ?s = Inr (r, s1)" using sample_revoke by blast
  have "rq_bot_account_id sample_request = 3" "rq_workspace_id sample_request = 1"
    "rq_actor_principal_id sample_request = Some 5" "rq_chatroom_id sample_request = Some 4"
    by (simp_all add: sample_request_def)
  then have "\<exists>d s2. evaluate sample_request 30 s1 = Inr (d, s2)"
    using rv unfolding sample_revoke
    by (auto simp: evaluate_def account_in_workspace_def active_request_principal_def Let_def
        record_decision_def sample_db_def empty_db_def sample_account_def sample_connection_def
        sample_principal_def get_row_def split: prod.split)
  then obtain d s2 where ev: "evaluate sample_request 30 s1 = Inr (d, s2)" by blast
  have "unique_by ar_id (rules ?s)" by (simp add: unique_by_def sample_db_def)
  then show ?thesis using rv ev revoked_rule_powerless[OF rv _ ev] by blast
qed

theorem evaluate_only_logs_witness:
  "\<exists>d s' p. evaluate sample_request 10 (sample_db []) = Inr (d, s') \<and>
     s' = sample_db []\<lparr>decisions := decisions (sample_db []) @ [p]\<rparr>"
proof -
  obtain d s' where e: "evaluate sample_request 10 (sample_db []) = Inr (d, s')"
    by (simp add: sample_eval Let_def record_decision_def)
  show ?thesis using e evaluate_only_logs[OF e] by blast
qed

theorem other_workspace_rules_irrelevant_witness:
  "\<exists>d s'. evaluate sample_request 10 (sample_db []) = Inr (d, s') \<and>
     (\<exists>d' s''. evaluate sample_request 10 (sample_db []\<lparr>rules := rules (sample_db []) @
        [(sample_rule 6 ALLOW False None None)\<lparr>ar_workspace_id := 99\<rparr>]\<rparr>) = Inr (d', s'') \<and>
      dv_allowed d' = dv_allowed d)"
proof -
  obtain d s' where e: "evaluate sample_request 10 (sample_db []) = Inr (d, s')"
    by (simp add: sample_eval Let_def record_decision_def)
  have "\<forall>r\<in>set [(sample_rule 6 ALLOW False None None)\<lparr>ar_workspace_id := 99\<rparr>].
      ar_workspace_id r \<noteq> rq_workspace_id sample_request"
    by (simp add: sample_request_def)
  then show ?thesis using e other_workspace_rules_irrelevant[OF e] by blast
qed

definition sample_rule_create :: "string \<Rightarrow> acl_rule_create" where
  "sample_rule_create sid = \<lparr>rc_workspace_id = 1, rc_principal_id = Some 5, rc_scope_type = Sc_CHATROOM,
     rc_scope_id = sid, rc_resource_type = Rs_PLUGIN, rc_resource_id = ''echo'', rc_effect = ALLOW,
     rc_locked = False, rc_membership_epoch = None, rc_valid_from = None, rc_valid_until = None,
     rc_reason = ''r''\<rparr>"

lemma sample_create_rule:
  "\<exists>r s'. create_rule sample_env (sample_rule_create (uuid_str 4)) ''api'' 9 (sample_db []) = Inr (r, s')"
  by (simp add: create_rule_def validate_principal_def validate_scope_def resolve_membership_epoch_def
      parse_uuid_def py_uuid_of_uuid_str_helper sample_rule_create_def account_workspace_def
      active_epochs_def alloc_def sample_defs get_row_def list_max_def Let_def)

theorem create_rule_keeps_rules_wf_witness:
  "\<exists>r s'. create_rule sample_env (sample_rule_create (uuid_str 4)) ''api'' 9 (sample_db []) = Inr (r, s') \<and>
     rule_wf s' r \<and> policy_version s' 1 = 1"
proof -
  obtain r s' where ok: "create_rule sample_env (sample_rule_create (uuid_str 4)) ''api'' 9
      (sample_db []) = Inr (r, s')" using sample_create_rule by blast
  have v: "validate_rule (sample_rule_create (uuid_str 4))"
    by (simp add: validate_rule_def sample_rule_create_def uuid_str_def Let_def)
  have wf: "\<forall>x\<in>set (rules (sample_db [])). rule_wf (sample_db []) x" by (simp add: sample_db_def)
  have "policy_version (sample_db []) 1 = 0" "rc_workspace_id (sample_rule_create (uuid_str 4)) = 1"
    by (simp_all add: policy_version_def sample_db_def empty_db_def sample_rule_create_def)
  then show ?thesis using ok create_rule_keeps_rules_wf[OF ok v wf] by auto
qed

theorem create_principal_unique_witness:
  "\<exists>x s'. create_principal sample_env \<lparr>pc_workspace_id = 1, pc_principal_type = Pr_GROUP_MEMBER,
       pc_external_id = ''wxid_m'', pc_display_name = Some ''M''\<rparr> (sample_db []) = Inr (x, s') \<and>
     length (principals s') = 1 \<and> pr_id x = 5"
proof -
  let ?p = "\<lparr>pc_workspace_id = 1, pc_principal_type = Pr_GROUP_MEMBER,
       pc_external_id = ''wxid_m'', pc_display_name = Some ''M''\<rparr>"
  have "\<exists>x s'. create_principal sample_env ?p (sample_db []) = Inr (x, s')"
    by (simp add: create_principal_def find_principal_def sample_defs get_row_def Let_def)
  then obtain x s' where ok: "create_principal sample_env ?p (sample_db []) = Inr (x, s')" by blast
  have u: "unique_by pr_id (principals (sample_db []))" "unique_by principal_key (principals (sample_db []))"
    by (simp_all add: unique_by_def sample_db_def)
  have m: "sample_principal \<in> set (principals (sample_db []))"
    "principal_key sample_principal = (1, Pr_GROUP_MEMBER, ''wxid_m'')" "pr_id sample_principal = 5"
    "length (principals (sample_db [])) = 1"
    by (simp_all add: sample_db_def principal_key_def sample_principal_def)
  show ?thesis using ok m create_principal_unique[OF ok u] by auto
qed

text \<open>An upper-case spelling of the chatroom's identifier, which \<open>UUID(value)\<close> accepts.\<close>

definition upper_scope_id :: string where
  "upper_scope_id = ''0000000A-0000-0000-0000-00000000000B''"

theorem noncanonical_scope_rule_is_inert_witness:
  "py_uuid upper_scope_id = Some 792281625142643375935439503371 \<and>
   candidate_of sample_request (Some sample_principal) (Some 2)
     ((sample_rule 6 DENY True None None)\<lparr>ar_scope_id := upper_scope_id\<rparr>) = None"
proof -
  let ?r = "(sample_rule 6 DENY True None None)\<lparr>ar_scope_id := upper_scope_id\<rparr>"
  have p: "py_uuid upper_scope_id = Some 792281625142643375935439503371"
    by (simp add: py_uuid_def upper_scope_id_def strip_braces_def int_base16_def strip_def lstrip_def
        py_isspace_def drop_hex_prefix_def hex_val_def Let_def)
  have n: "upper_scope_id \<noteq> uuid_str 792281625142643375935439503371"
  proof
    assume "upper_scope_id = uuid_str 792281625142643375935439503371"
    moreover have "CHR ''A'' \<in> set upper_scope_id" by (simp add: upper_scope_id_def)
    ultimately have "CHR ''A'' \<in> set (uuid_str 792281625142643375935439503371)" by metis
    from uuid_str_chars[OF this] show False by (simp add: hex_char_def)
  qed
  have t: "ar_scope_type ?r \<noteq> Sc_WORKSPACE" by (simp add: sample_rule_def)
  show ?thesis using p n noncanonical_scope_rule_is_inert[OF t, of 792281625142643375935439503371] by simp
qed

end
