(* ===== verification/Lifecycle.thy ===== *)
theory Lifecycle
  imports Prelude
begin

text \<open>
  The interface of a row whose status moves along a fixed table of transitions: the guarded
  operation that the services call to change it, and what a service may rely on.  The outbox
  and the task-agent run are provided as interpretations by their own theories.
\<close>

locale lifecycle =
  fixes status :: "'r \<Rightarrow> 's"
    and allowed :: "'s \<Rightarrow> 's list"
    and move :: "'a \<Rightarrow> 's \<Rightarrow> 'r \<Rightarrow> 'e + 'r"
  assumes move_Inr: "move a t r = Inr r' \<Longrightarrow> t \<in> set (allowed (status r)) \<and> status r' = t"
    and move_refused: "t \<notin> set (allowed (status r)) \<Longrightarrow> \<exists>e. move a t r = Inl e"
begin

inductive moves :: "'r \<Rightarrow> 'r \<Rightarrow> bool" where
  stay: "moves r r"
| go: "moves r r' \<Longrightarrow> move a t r' = Inr r'' \<Longrightarrow> moves r r''"

inductive path :: "'s \<Rightarrow> 's \<Rightarrow> bool" where
  here: "path s s"
| there: "path s t \<Longrightarrow> u \<in> set (allowed t) \<Longrightarrow> path s u"

lemma moves_path: "moves r r' \<Longrightarrow> path (status r) (status r')"
  by (induction rule: moves.induct) (auto intro: path.intros dest: move_Inr)

lemma path_from_terminal: "path s t \<Longrightarrow> allowed s = [] \<Longrightarrow> t = s"
  by (induction rule: path.induct) auto

lemma terminal_frozen: "allowed (status r) = [] \<Longrightarrow> \<exists>e. move a t r = Inl e"
  using move_refused by simp

lemma moves_terminal: "moves r r' \<Longrightarrow> allowed (status r) = [] \<Longrightarrow> status r' = status r"
  using moves_path path_from_terminal by metis

lemma path_invariant:
  assumes "path s t" "s \<in> S" "\<And>u v. u \<in> S \<Longrightarrow> v \<in> set (allowed u) \<Longrightarrow> v \<in> S"
  shows "t \<in> S"
  using assms by (induction rule: path.induct) auto

end

end
