(* ===== verification/Outbox.thy ===== *)
theory Outbox
  imports Policy Lifecycle "HOL-Library.List_Lexorder" "HOL-Library.Char_ord"
begin

text \<open>
  The persistent outbox (\<open>outbox/state.py\<close>, \<open>outbox/schemas.py\<close>,
  \<open>outbox/service.py\<close>): the transition table of a message, the validation of payloads
  and authorization contexts, enqueueing with an idempotency key, and the manual operations
  of an administrator.
\<close>

section \<open>Transitions\<close>

datatype outbox_error =
    OutboxTransitionError outbox_status outbox_status
  | OutboxValueError string
  | OutboxValidationError
  | OutboxIdempotencyConflict
  | OutboxStateConflict string
  | OutboxAccountNotFound
  | OutboxMessageNotFound
  | OutboxIntegrityError

text \<open>Which of them are caught by an \<open>except ValueError\<close> clause.\<close>

fun is_value_error :: "outbox_error \<Rightarrow> bool" where
  "is_value_error (OutboxTransitionError _ _) = True"
| "is_value_error (OutboxValueError _) = True"
| "is_value_error OutboxValidationError = True"
| "is_value_error OutboxIdempotencyConflict = True"
| "is_value_error (OutboxStateConflict _) = True"
| "is_value_error OutboxAccountNotFound = False"
| "is_value_error OutboxMessageNotFound = False"
| "is_value_error OutboxIntegrityError = False"

fun allowed_transitions :: "outbox_status \<Rightarrow> outbox_status list" where
  "allowed_transitions Ob_PENDING = [Ob_CLAIMED, Ob_CANCELLED]"
| "allowed_transitions Ob_CLAIMED =
     [Ob_PENDING, Ob_SENDING, Ob_FAILED_RETRYABLE, Ob_FAILED_FINAL, Ob_CANCELLED]"
| "allowed_transitions Ob_SENDING = [Ob_SENT, Ob_FAILED_RETRYABLE, Ob_FAILED_FINAL, Ob_UNKNOWN]"
| "allowed_transitions Ob_FAILED_RETRYABLE = [Ob_CLAIMED, Ob_CANCELLED]"
| "allowed_transitions Ob_UNKNOWN = [Ob_SENT, Ob_FAILED_FINAL]"
| "allowed_transitions Ob_SENT = []"
| "allowed_transitions Ob_FAILED_FINAL = []"
| "allowed_transitions Ob_CANCELLED = []"

definition transition_outbox ::
    "outbox_message \<Rightarrow> outbox_status \<Rightarrow> instant \<Rightarrow> string option \<Rightarrow> instant option
     \<Rightarrow> (outbox_error, outbox_message) res" where
  "transition_outbox m target now error_code available_at =
     (if target \<notin> set (allowed_transitions (om_status m))
      then Inl (OutboxTransitionError (om_status m) target)
      else if (case error_code of None \<Rightarrow> False | Some c \<Rightarrow> 100 < length c)
      then Inl (OutboxValueError ''outbox error code cannot exceed 100 characters'')
      else
        let m1 = m\<lparr>om_status := target, om_last_error_code := error_code, om_updated_at := now\<rparr>
        in Inr (case available_at of None \<Rightarrow> m1 | Some t \<Rightarrow> m1\<lparr>om_available_at := t\<rparr>))"

section \<open>Payloads and authorization contexts\<close>

record text_payload =
  tp_text :: string
  tp_at_wxids :: "string list"

text \<open>\<open>normalize_at_wxids\<close>: the loop over the values with its \<open>seen\<close> set.\<close>

fun normalize_at_wxids :: "string list \<Rightarrow> string list \<Rightarrow> string list option" where
  "normalize_at_wxids normalized [] = Some normalized"
| "normalize_at_wxids normalized (v # vs) =
     (let stripped = strip v in
      if stripped = [] \<or> CHR '','' \<in> set stripped then None
      else if stripped \<notin> set normalized then normalize_at_wxids (normalized @ [stripped]) vs
      else normalize_at_wxids normalized vs)"

definition text_outbox_payload :: "string \<Rightarrow> string list \<Rightarrow> text_payload option" where
  "text_outbox_payload text ats =
     (if length text < 1 \<or> 10000 < length text \<or> \<not> py_nonblank text
         \<or> 100 < length ats \<or> (\<exists>a\<in>set ats. length a < 1 \<or> 255 < length a)
      then None
      else case normalize_at_wxids [] ats of
        None \<Rightarrow> None
      | Some ats' \<Rightarrow> if ats' \<noteq> [] \<and> CHR ''@'' \<notin> set text then None
                     else Some \<lparr>tp_text = text, tp_at_wxids = ats'\<rparr>)"

definition payload_json :: "text_payload \<Rightarrow> json" where
  "payload_json p = JObj [(''text'', JStr (tp_text p)), (''at_wxids'', JArr (map JStr (tp_at_wxids p)))]"

text \<open>\<open>TextOutboxPayload.model_validate\<close> on a stored document; extra keys are forbidden.\<close>

definition validate_text_payload :: "json \<Rightarrow> text_payload option" where
  "validate_text_payload j =
     (if \<not> is_obj j \<or> \<not> set (json_keys j) \<subseteq> {''text'', ''at_wxids''} then None
      else case json_lookup j ''text'' of
        Some (JStr text) \<Rightarrow>
          (case json_lookup j ''at_wxids'' of
             None \<Rightarrow> text_outbox_payload text []
           | Some (JArr vs) \<Rightarrow>
               (case json_strings vs of None \<Rightarrow> None | Some ats \<Rightarrow> text_outbox_payload text ats)
           | Some _ \<Rightarrow> None)
      | _ \<Rightarrow> None)"

record auth_context =
  ac_workspace_id :: uuid
  ac_deployment_id :: uuid
  ac_deployment_revision_id :: uuid
  ac_actor_principal_id :: "uuid option"
  ac_chatroom_id :: "uuid option"
  ac_contact_id :: "uuid option"
  ac_resource_type :: resource_type
  ac_resource_id :: string
  ac_parent_plugin_id :: "string option"

text \<open>The field bounds and the validator \<open>require_exactly_one_conversation\<close>.\<close>

definition auth_context_ok :: "auth_context \<Rightarrow> bool" where
  "auth_context_ok c \<longleftrightarrow>
     1 \<le> length (ac_resource_id c) \<and> length (ac_resource_id c) \<le> 255 \<and>
     (case ac_parent_plugin_id c of None \<Rightarrow> True | Some p \<Rightarrow> length p \<le> 255) \<and>
     \<not> ((ac_chatroom_id c = None) = (ac_contact_id c = None))"

definition auth_context_json :: "auth_context \<Rightarrow> json" where
  "auth_context_json c = JObj
     [(''schema_version'', JStr ''1.0''),
      (''workspace_id'', JStr (uuid_str (ac_workspace_id c))),
      (''deployment_id'', JStr (uuid_str (ac_deployment_id c))),
      (''deployment_revision_id'', JStr (uuid_str (ac_deployment_revision_id c))),
      (''actor_principal_id'', json_opt_uuid (ac_actor_principal_id c)),
      (''chatroom_id'', json_opt_uuid (ac_chatroom_id c)),
      (''contact_id'', json_opt_uuid (ac_contact_id c)),
      (''resource_type'', JStr (resource_type_str (ac_resource_type c))),
      (''resource_id'', JStr (ac_resource_id c)),
      (''parent_plugin_id'', json_opt_str (ac_parent_plugin_id c))]"

fun uuid_field :: "env \<Rightarrow> json \<Rightarrow> uuid option" where
  "uuid_field E (JStr t) = pyd_uuid E t"
| "uuid_field E _ = None"

text \<open>An optional field: missing or null is \<open>None\<close>, anything else must parse.\<close>

fun opt_field :: "(json \<Rightarrow> 'a option) \<Rightarrow> json \<Rightarrow> 'a option option" where
  "opt_field f JNull = Some None"
| "opt_field f j = map_option Some (f j)"

fun str_field :: "json \<Rightarrow> string option" where
  "str_field (JStr t) = Some t"
| "str_field _ = None"

definition auth_context_keys :: "string list" where
  "auth_context_keys = [''schema_version'', ''workspace_id'', ''deployment_id'',
     ''deployment_revision_id'', ''actor_principal_id'', ''chatroom_id'', ''contact_id'',
     ''resource_type'', ''resource_id'', ''parent_plugin_id'']"

definition validate_auth_context :: "env \<Rightarrow> json \<Rightarrow> auth_context option" where
  "validate_auth_context E j =
     (if \<not> is_obj j \<or> \<not> set (json_keys j) \<subseteq> set auth_context_keys
         \<or> (json_lookup j ''schema_version'' \<noteq> None
            \<and> json_lookup j ''schema_version'' \<noteq> Some (JStr ''1.0''))
      then None
      else case (uuid_field E (json_get j ''workspace_id''),
                 uuid_field E (json_get j ''deployment_id''),
                 uuid_field E (json_get j ''deployment_revision_id'')) of
        (Some ws, Some dep, Some rvn) \<Rightarrow>
          (case (opt_field (uuid_field E) (json_get j ''actor_principal_id''),
                 opt_field (uuid_field E) (json_get j ''chatroom_id''),
                 opt_field (uuid_field E) (json_get j ''contact_id''),
                 opt_field str_field (json_get j ''parent_plugin_id'')) of
             (Some actor, Some chatroom, Some contact, Some parent) \<Rightarrow>
               (case (Option.bind (str_field (json_get j ''resource_type'')) parse_resource_type,
                      str_field (json_get j ''resource_id'')) of
                  (Some rt, Some rid) \<Rightarrow>
                    (let c = \<lparr>ac_workspace_id = ws, ac_deployment_id = dep,
                              ac_deployment_revision_id = rvn, ac_actor_principal_id = actor,
                              ac_chatroom_id = chatroom, ac_contact_id = contact,
                              ac_resource_type = rt, ac_resource_id = rid,
                              ac_parent_plugin_id = parent\<rparr>
                     in if auth_context_ok c then Some c else None)
                | _ \<Rightarrow> None)
           | _ \<Rightarrow> None)
      | _ \<Rightarrow> None)"

section \<open>Canonical JSON and the digest of an action\<close>

definition join :: "string \<Rightarrow> string list \<Rightarrow> string" where
  "join sep xs = (case xs of [] \<Rightarrow> [] | y # ys \<Rightarrow> y @ concat (map (\<lambda>z. sep @ z) ys))"

definition json_escape_char :: "char \<Rightarrow> string" where
  "json_escape_char c =
     (let n = (of_char c :: nat) in
      if c = CHR 0x22 then [CHR 0x5C, CHR 0x22]
      else if c = CHR 0x5C then [CHR 0x5C, CHR 0x5C]
      else if n = 8 then [CHR 0x5C, CHR ''b'']
      else if n = 12 then [CHR 0x5C, CHR ''f'']
      else if n = 10 then [CHR 0x5C, CHR ''n'']
      else if n = 13 then [CHR 0x5C, CHR ''r'']
      else if n = 9 then [CHR 0x5C, CHR ''t'']
      else if n < 32 then [CHR 0x5C, CHR ''u''] @ hex_digits 4 n
      else [c])"

definition json_string :: "string \<Rightarrow> string" where
  "json_string s = [CHR 0x22] @ concat (map json_escape_char s) @ [CHR 0x22]"

text \<open>
  \<open>json.dumps\<close> with \<open>ensure_ascii=False\<close>, separators without blanks and
  \<open>sort_keys=True\<close>.
\<close>

fun json_dumps :: "env \<Rightarrow> json \<Rightarrow> string" where
  "json_dumps E JNull = ''null''"
| "json_dumps E (JBool b) = (if b then ''true'' else ''false'')"
| "json_dumps E (JInt i) = int_str i"
| "json_dumps E (JFloat x) = float_repr E x"
| "json_dumps E (JStr s) = json_string s"
| "json_dumps E (JArr xs) = ''['' @ join '','' (map (json_dumps E) xs) @ '']''"
| "json_dumps E (JObj kvs) =
     ''{'' @ join '','' (map (\<lambda>(k, d). json_string k @ '':'' @ d)
               (sort_key fst (map (\<lambda>(k, v). (k, json_dumps E v)) kvs))) @ ''}''"

definition canonical_action ::
    "env \<Rightarrow> uuid \<Rightarrow> string \<Rightarrow> string \<Rightarrow> json \<Rightarrow> json option \<Rightarrow> int \<Rightarrow> instant option \<Rightarrow> json" where
  "canonical_action E acct action_type target payload ctx priority expires = JObj
     [(''actionType'', JStr action_type),
      (''authorizationContext'', (case ctx of None \<Rightarrow> JNull | Some j \<Rightarrow> j)),
      (''botAccountId'', JStr (uuid_str acct)),
      (''expiresAt'', (case expires of None \<Rightarrow> JNull | Some t \<Rightarrow> JStr (isoformat E t))),
      (''payload'', payload),
      (''priority'', JInt priority),
      (''targetWxid'', JStr target)]"

definition action_hash ::
    "env \<Rightarrow> uuid \<Rightarrow> string \<Rightarrow> string \<Rightarrow> json \<Rightarrow> json option \<Rightarrow> int \<Rightarrow> instant option \<Rightarrow> string" where
  "action_hash E acct action_type target payload ctx priority expires =
     sha256_hex E (json_dumps E
       (canonical_action E acct action_type target payload ctx priority expires))"

section \<open>Enqueueing\<close>

definition text_action_types :: "string list" where
  "text_action_types = [''message.send.text'', ''message.reply.text'']"

record text_enqueue =
  en_bot_account_id :: uuid
  en_trace_id :: uuid
  en_idempotency_key :: string
  en_target_wxid :: string
  en_text :: string
  en_expires_at :: "py_datetime option"
  en_priority :: int
  en_at_wxids :: "string list"
  en_action_type :: string
  en_authorization_context :: "auth_context option"

definition normalize_limited_text ::
    "string \<Rightarrow> string \<Rightarrow> nat \<Rightarrow> (outbox_error, string) res" where
  "normalize_limited_text value field_name max_length =
     (let normalized = strip value in
      if normalized = [] then Inl (OutboxValueError (field_name @ '' cannot be blank''))
      else if max_length < length normalized
      then Inl (OutboxValueError (field_name @ '' cannot exceed '' @ nat_str max_length @ '' characters''))
      else Inr normalized)"

definition normalize_expiry ::
    "py_datetime option \<Rightarrow> instant \<Rightarrow> (outbox_error, instant option) res" where
  "normalize_expiry expires_at now =
     (case expires_at of
        None \<Rightarrow> Inr None
      | Some (Naive _) \<Rightarrow> Inl (OutboxValueError ''expires_at must be timezone-aware'')
      | Some (Aware wall off) \<Rightarrow>
          if wall - off \<le> now then Inl (OutboxValueError ''expires_at must be in the future'')
          else Inr (Some (wall - off)))"

definition normalize_manual_reason :: "string \<Rightarrow> (outbox_error, string) res" where
  "normalize_manual_reason reason =
     (let normalized = strip reason in
      if normalized = []
      then Inl (OutboxValueError ''manual outbox action reason cannot be blank'')
      else if 500 < length normalized
      then Inl (OutboxValueError ''manual outbox action reason cannot exceed 500 characters'')
      else Inr normalized)"

definition find_by_idempotency_key :: "outbox_message list \<Rightarrow> string \<Rightarrow> outbox_message option" where
  "find_by_idempotency_key ms key = find (\<lambda>m. om_idempotency_key m = key) ms"

definition match_existing :: "outbox_message \<Rightarrow> string \<Rightarrow> (outbox_error, outbox_message) res" where
  "match_existing existing payload_sha256 =
     (if om_payload_sha256 existing \<noteq> payload_sha256 then Inl OutboxIdempotencyConflict
      else Inr existing)"

text \<open>The checked and normalised arguments of an enqueue.\<close>

record text_action =
  ta_key :: string
  ta_target :: string
  ta_payload :: json
  ta_context :: "json option"
  ta_expires :: "instant option"
  ta_hash :: string

definition prepare_text :: "env \<Rightarrow> text_enqueue \<Rightarrow> instant \<Rightarrow> (outbox_error, text_action) res" where
  "prepare_text E a now =
     bind_res (normalize_limited_text (en_idempotency_key a) ''idempotency key'' 255) (\<lambda>key.
     bind_res (normalize_limited_text (en_target_wxid a) ''target wxid'' 255) (\<lambda>target.
     bind_res (check_that (0 \<le> en_priority a \<and> en_priority a \<le> 1000)
                 (OutboxValueError ''priority must be between 0 and 1000'')) (\<lambda>_.
     bind_res (check_that (en_action_type a \<in> set text_action_types)
                 (OutboxValueError ''unsupported text action type'')) (\<lambda>_.
     bind_res (normalize_expiry (en_expires_at a) now) (\<lambda>expires.
     bind_res (of_option OutboxValidationError (text_outbox_payload (en_text a) (en_at_wxids a)))
       (\<lambda>payload.
          let pj = payload_json payload;
              cj = map_option auth_context_json (en_authorization_context a)
          in Inr \<lparr>ta_key = key, ta_target = target, ta_payload = pj, ta_context = cj,
                  ta_expires = expires,
                  ta_hash = action_hash E (en_bot_account_id a) (en_action_type a) target pj cj
                              (en_priority a) expires\<rparr>))))))"

definition new_message :: "text_enqueue \<Rightarrow> text_action \<Rightarrow> uuid \<Rightarrow> instant \<Rightarrow> outbox_message" where
  "new_message a t i now =
     \<lparr>om_id = i, om_bot_account_id = en_bot_account_id a, om_trace_id = en_trace_id a,
      om_idempotency_key = ta_key t, om_action_type = en_action_type a,
      om_target_wxid = ta_target t, om_payload = ta_payload t,
      om_authorization_context = ta_context t, om_payload_sha256 = ta_hash t,
      om_status = Ob_PENDING, om_priority = en_priority a, om_available_at = now,
      om_expires_at = ta_expires t, om_attempt_count = 0, om_last_error_code = None,
      om_last_attempt_started_at = None, om_last_attempt_finished_at = None,
      om_provider_message_id = None, om_provider_new_message_id = None,
      om_provider_create_time = None, om_provider_message_type = None,
      om_created_at = now, om_updated_at = now\<rparr>"

text \<open>
  \<open>enqueue_text\<close>.  \<open>raced\<close> are the messages that other transactions commit between
  the lookup of the key and the insert; the insert fails when the unique key (or the primary
  key) is taken by then, and the lookup is repeated.
\<close>

definition enqueue_text ::
    "env \<Rightarrow> text_enqueue \<Rightarrow> instant \<Rightarrow> outbox_message list \<Rightarrow> db
     \<Rightarrow> (outbox_error, outbox_message \<times> db) res" where
  "enqueue_text E a now raced s =
     bind_res (prepare_text E a now) (\<lambda>t.
       case find_by_idempotency_key (outbox s) (ta_key t) of
         Some existing \<Rightarrow> bind_res (match_existing existing (ta_hash t)) (\<lambda>m. Inr (m, s))
       | None \<Rightarrow>
           if get_row ba_id (en_bot_account_id a) (accounts s) = None
           then Inl OutboxAccountNotFound
           else
             let (i, s1) = alloc E s;
                 s2 = s1\<lparr>outbox := outbox s1 @ raced\<rparr>;
                 m = new_message a t i now
             in if (\<exists>x\<in>set (outbox s2). om_idempotency_key x = ta_key t \<or> om_id x = i)
                then (case find_by_idempotency_key (outbox s2) (ta_key t) of
                        None \<Rightarrow> Inl OutboxIntegrityError
                      | Some x \<Rightarrow> bind_res (match_existing x (ta_hash t)) (\<lambda>m'. Inr (m', s2)))
                else Inr (m, s2\<lparr>outbox := outbox s2 @ [m]\<rparr>))"

section \<open>Queries and manual operations\<close>

definition list_messages ::
    "db \<Rightarrow> uuid option \<Rightarrow> outbox_status option \<Rightarrow> nat \<Rightarrow> nat \<Rightarrow> outbox_message list \<times> nat" where
  "list_messages s acct st limit offset =
     (let hits = filter (\<lambda>m. opt_filter acct (om_bot_account_id m) \<and> opt_filter st (om_status m))
                   (outbox s);
          ordered = rev (sort_key (\<lambda>m. (om_created_at m, om_id m)) hits)
      in (take limit (drop offset ordered), length hits))"

definition get_message :: "db \<Rightarrow> uuid \<Rightarrow> (outbox_error, outbox_message) res" where
  "get_message s i = of_option OutboxMessageNotFound (get_row om_id i (outbox s))"

definition put_message :: "outbox_message \<Rightarrow> db \<Rightarrow> db" where
  "put_message m s = s\<lparr>outbox := put_row om_id m (outbox s)\<rparr>"

definition message_for_manual_update ::
    "db \<Rightarrow> uuid \<Rightarrow> (outbox_error, outbox_message \<times> uuid) res" where
  "message_for_manual_update s i =
     (case get_row om_id i (outbox s) of
        None \<Rightarrow> Inl OutboxMessageNotFound
      | Some m \<Rightarrow>
          (case account_workspace s (om_bot_account_id m) of
             None \<Rightarrow> Inl OutboxMessageNotFound
           | Some ws \<Rightarrow> Inr (m, ws)))"

definition record_manual_change ::
    "outbox_message \<Rightarrow> uuid \<Rightarrow> uuid \<Rightarrow> string \<Rightarrow> outbox_status \<Rightarrow> string \<Rightarrow> db \<Rightarrow> db" where
  "record_manual_change m ws actor action previous reason s =
     s\<lparr>audits := audits s @
        [\<lparr>au_workspace_id = ws, au_trace_id = Some (om_trace_id m), au_actor_type = ''ADMIN_USER'',
          au_actor_id = uuid_str actor, au_action = action, au_object_type = ''outbox_message'',
          au_object_id = uuid_str (om_id m), au_result = ''SUCCESS'',
          au_detail = JObj [(''from_status'', JStr (outbox_status_str previous)),
                            (''to_status'', JStr (outbox_status_str (om_status m))),
                            (''reason'', JStr reason)]\<rparr>]\<rparr>"

definition cancel_message ::
    "uuid \<Rightarrow> uuid \<Rightarrow> string \<Rightarrow> instant \<Rightarrow> db \<Rightarrow> (outbox_error, outbox_message \<times> db) res" where
  "cancel_message i actor reason now s =
     bind_res (normalize_manual_reason reason) (\<lambda>normalized.
     bind_res (message_for_manual_update s i) (\<lambda>(m, ws).
       if om_status m \<notin> {Ob_PENDING, Ob_CLAIMED, Ob_FAILED_RETRYABLE}
       then Inl (OutboxStateConflict
              (''outbox message in '' @ outbox_status_str (om_status m) @ '' cannot be cancelled''))
       else bind_res (transition_outbox m Ob_CANCELLED now (Some ''MANUAL_CANCELLED'') None) (\<lambda>m'.
         Inr (m', record_manual_change m' ws actor ''outbox.cancel'' (om_status m) normalized
                    (put_message m' s)))))"

definition reconcile_unknown ::
    "uuid \<Rightarrow> uuid \<Rightarrow> outbox_status \<Rightarrow> string \<Rightarrow> instant \<Rightarrow> db
     \<Rightarrow> (outbox_error, outbox_message \<times> db) res" where
  "reconcile_unknown i actor resolution reason now s =
     bind_res (check_that (resolution \<in> {Ob_SENT, Ob_FAILED_FINAL})
                 (OutboxValueError ''resolution must be SENT or FAILED_FINAL'')) (\<lambda>_.
     bind_res (normalize_manual_reason reason) (\<lambda>normalized.
     bind_res (message_for_manual_update s i) (\<lambda>(m, ws).
       if om_status m \<noteq> Ob_UNKNOWN
       then Inl (OutboxStateConflict
              (''only UNKNOWN outbox messages can be reconciled, got '' @ outbox_status_str (om_status m)))
       else bind_res (transition_outbox m resolution now
                (Some (if resolution = Ob_SENT then ''MANUAL_RECONCILED_SENT''
                       else ''MANUAL_RECONCILED_FAILED'')) None) (\<lambda>m'.
         Inr (m', record_manual_change m' ws actor ''outbox.reconcile'' (om_status m) normalized
                    (put_message m' s))))))"

section \<open>The message as a row with a lifecycle\<close>

text \<open>The optional arguments of \<open>transition_outbox\<close>, bundled for the interface.\<close>

definition outbox_move ::
    "instant \<times> string option \<times> instant option \<Rightarrow> outbox_status \<Rightarrow> outbox_message
     \<Rightarrow> (outbox_error, outbox_message) res" where
  "outbox_move a t m = (case a of (now, code, avail) \<Rightarrow> transition_outbox m t now code avail)"

lemma transition_outbox_Inr:
  "transition_outbox m t now code avail = Inr m' \<longleftrightarrow>
     t \<in> set (allowed_transitions (om_status m)) \<and>
     (\<forall>c. code = Some c \<longrightarrow> length c \<le> 100) \<and>
     m' = m\<lparr>om_status := t, om_last_error_code := code, om_updated_at := now,
            om_available_at := (case avail of None \<Rightarrow> om_available_at m | Some x \<Rightarrow> x)\<rparr>"
  by (cases code; cases avail) (auto simp: transition_outbox_def Let_def)

interpretation outbox_life: lifecycle om_status allowed_transitions outbox_move
  by unfold_locales (auto simp: outbox_move_def transition_outbox_def Let_def
      split: prod.splits if_splits option.splits)

interpretation outbox_rows: row_table om_id "get_row om_id" "put_row om_id"
  by unfold_locales
    (auto simp: get_row_None_iff table_simps dest: get_row_Some_mem set_put_row)

lemma put_message_frame [simp]:
  "accounts (put_message m s) = accounts s" "connections (put_message m s) = connections s"
  "audits (put_message m s) = audits s" "outbox (put_message m s) = put_row om_id m (outbox s)"
  "next_id (put_message m s) = next_id s"
  by (simp_all add: put_message_def)

lemma record_manual_change_frame [simp]:
  "outbox (record_manual_change m ws a act prev r s) = outbox s"
  "accounts (record_manual_change m ws a act prev r s) = accounts s"
  "connections (record_manual_change m ws a act prev r s) = connections s"
  by (simp_all add: record_manual_change_def)

lemma message_for_manual_update_Inr:
  "message_for_manual_update s i = Inr (m, ws) \<longleftrightarrow>
     get_row om_id i (outbox s) = Some m \<and> account_workspace s (om_bot_account_id m) = Some ws"
  by (auto simp: message_for_manual_update_def split: option.splits)

lemma normalize_manual_reason_Inr:
  "normalize_manual_reason r = Inr n \<longleftrightarrow> n = strip r \<and> n \<noteq> [] \<and> length n \<le> 500"
  by (auto simp: normalize_manual_reason_def Let_def)

subsection \<open>Properties of the state machine and of the manual operations\<close>

text \<open>
  A message whose provider outcome is unknown is never sent again: whatever sequence of
  transitions the services apply to it, its status stays UNKNOWN, SENT or FAILED_FINAL.
\<close>

theorem unknown_never_resent:
  assumes "outbox_life.moves m m'" and "om_status m = Ob_UNKNOWN"
  shows "om_status m' \<in> {Ob_UNKNOWN, Ob_SENT, Ob_FAILED_FINAL}"
  by (rule outbox_life.path_invariant[OF outbox_life.moves_path[OF assms(1)]])
    (use assms(2) in auto)

text \<open>
  C33: \<open>cancel_message\<close> succeeds exactly for a known message (with its account and
  connection) that is PENDING, CLAIMED or FAILED_RETRYABLE and a reason that is not blank and
  at most 500 characters long; it then sets CANCELLED, leaves every other message alone and
  writes one audit record. A message being SENDING or UNKNOWN cannot be cancelled.
\<close>

theorem cancel_message_iff:
  "cancel_message i actor reason now s = Inr (m', s') \<longleftrightarrow>
     (\<exists>m ws. get_row om_id i (outbox s) = Some m \<and>
        account_workspace s (om_bot_account_id m) = Some ws \<and>
        strip reason \<noteq> [] \<and> length (strip reason) \<le> 500 \<and>
        om_status m \<in> {Ob_PENDING, Ob_CLAIMED, Ob_FAILED_RETRYABLE} \<and>
        m' = m\<lparr>om_status := Ob_CANCELLED, om_last_error_code := Some ''MANUAL_CANCELLED'',
               om_updated_at := now\<rparr> \<and>
        s' = record_manual_change m' ws actor ''outbox.cancel'' (om_status m) (strip reason)
               (put_message m' s))"
  by (auto simp: cancel_message_def result_simps normalize_manual_reason_Inr
      message_for_manual_update_Inr transition_outbox_Inr split: if_splits)

text \<open>
  C34: \<open>reconcile_unknown\<close> succeeds exactly when the message is UNKNOWN and the
  resolution is SENT or FAILED_FINAL (with a valid reason); it sets that status and one of the
  two manual error codes and writes one audit record.
\<close>

theorem reconcile_unknown_iff:
  "reconcile_unknown i actor resolution reason now s = Inr (m', s') \<longleftrightarrow>
     (\<exists>m ws. get_row om_id i (outbox s) = Some m \<and>
        account_workspace s (om_bot_account_id m) = Some ws \<and>
        strip reason \<noteq> [] \<and> length (strip reason) \<le> 500 \<and>
        om_status m = Ob_UNKNOWN \<and> resolution \<in> {Ob_SENT, Ob_FAILED_FINAL} \<and>
        m' = m\<lparr>om_status := resolution, om_last_error_code :=
                 Some (if resolution = Ob_SENT then ''MANUAL_RECONCILED_SENT''
                       else ''MANUAL_RECONCILED_FAILED''),
               om_updated_at := now\<rparr> \<and>
        s' = record_manual_change m' ws actor ''outbox.reconcile'' Ob_UNKNOWN (strip reason)
               (put_message m' s))"
  by (auto simp: reconcile_unknown_def result_simps normalize_manual_reason_Inr
      message_for_manual_update_Inr transition_outbox_Inr split: if_splits)

section \<open>Idempotent enqueueing\<close>

lemma find_by_key_get_row: "find_by_idempotency_key ms k = get_row om_idempotency_key k ms"
  by (simp add: find_by_idempotency_key_def get_row_def)

lemma prepare_text_Inr:
  "prepare_text E a now = Inr t \<Longrightarrow>
     ta_key t = strip (en_idempotency_key a) \<and> ta_key t \<noteq> [] \<and> length (ta_key t) \<le> 255 \<and>
     ta_target t = strip (en_target_wxid a) \<and> ta_target t \<noteq> [] \<and> length (ta_target t) \<le> 255 \<and>
     0 \<le> en_priority a \<and> en_priority a \<le> 1000 \<and> en_action_type a \<in> set text_action_types \<and>
     (\<exists>p. text_outbox_payload (en_text a) (en_at_wxids a) = Some p \<and> ta_payload t = payload_json p) \<and>
     ta_context t = map_option auth_context_json (en_authorization_context a) \<and>
     (\<forall>e. ta_expires t = Some e \<longrightarrow> now < e) \<and>
     ta_hash t = action_hash E (en_bot_account_id a) (en_action_type a) (ta_target t)
       (ta_payload t) (ta_context t) (en_priority a) (ta_expires t)"
  by (auto simp: prepare_text_def result_simps normalize_limited_text_def normalize_expiry_def Let_def
      split: if_splits option.splits py_datetime.splits)

text \<open>Preparing the same action at another time gives the same action.\<close>

lemma prepare_text_time:
  assumes "prepare_text E a now = Inr t" "prepare_text E a now' = Inr t'"
  shows "t' = t"
proof -
  have ex: "normalize_expiry (en_expires_at a) now = Inr x \<Longrightarrow>
      normalize_expiry (en_expires_at a) now' = Inr y \<Longrightarrow> x = y" for x y
    by (auto simp: normalize_expiry_def split: option.splits py_datetime.splits if_splits)
  then show ?thesis using assms
    by (auto simp: prepare_text_def result_simps Let_def dest: ex)
qed

lemma new_message_sel [simp]:
  "om_id (new_message a t i now) = i"
  "om_idempotency_key (new_message a t i now) = ta_key t"
  "om_payload_sha256 (new_message a t i now) = ta_hash t"
  "om_status (new_message a t i now) = Ob_PENDING"
  "om_attempt_count (new_message a t i now) = 0"
  "om_bot_account_id (new_message a t i now) = en_bot_account_id a"
  "om_payload (new_message a t i now) = ta_payload t"
  "om_authorization_context (new_message a t i now) = ta_context t"
  "om_target_wxid (new_message a t i now) = ta_target t"
  "om_action_type (new_message a t i now) = en_action_type a"
  "om_available_at (new_message a t i now) = now"
  "om_created_at (new_message a t i now) = now"
  "om_updated_at (new_message a t i now) = now"
  "om_expires_at (new_message a t i now) = ta_expires t"
  by (simp_all add: new_message_def)

text \<open>What a successful enqueue did: found the key, lost the race for it, or inserted.\<close>

lemma enqueue_text_cases:
  assumes "enqueue_text E a now raced s = Inr (m, s')"
  obtains (found) t where "prepare_text E a now = Inr t"
      "get_row om_idempotency_key (ta_key t) (outbox s) = Some m"
      "om_payload_sha256 m = ta_hash t" "s' = s"
  | (lost) t where "prepare_text E a now = Inr t"
      "get_row om_idempotency_key (ta_key t) (outbox s) = None"
      "get_row om_idempotency_key (ta_key t) (outbox s @ raced) = Some m"
      "om_payload_sha256 m = ta_hash t" "outbox s' = outbox s @ raced"
      "s' = s\<lparr>next_id := Suc (next_id s), outbox := outbox s @ raced\<rparr>"
  | (inserted) t where "prepare_text E a now = Inr t"
      "get_row ba_id (en_bot_account_id a) (accounts s) \<noteq> None"
      "\<forall>x\<in>set (outbox s @ raced). om_idempotency_key x \<noteq> ta_key t \<and> om_id x \<noteq> uuid7 E (next_id s)"
      "m = new_message a t (uuid7 E (next_id s)) now" "outbox s' = outbox s @ raced @ [m]"
      "s' = s\<lparr>next_id := Suc (next_id s), outbox := outbox s @ raced @ [m]\<rparr>"
proof -
  from assms obtain t where t: "prepare_text E a now = Inr t"
    and r: "(case find_by_idempotency_key (outbox s) (ta_key t) of
         Some existing \<Rightarrow> bind_res (match_existing existing (ta_hash t)) (\<lambda>m. Inr (m, s))
       | None \<Rightarrow>
           if get_row ba_id (en_bot_account_id a) (accounts s) = None
           then Inl OutboxAccountNotFound
           else
             let (i, s1) = alloc E s;
                 s2 = s1\<lparr>outbox := outbox s1 @ raced\<rparr>;
                 m = new_message a t i now
             in if (\<exists>x\<in>set (outbox s2). om_idempotency_key x = ta_key t \<or> om_id x = i)
                then (case find_by_idempotency_key (outbox s2) (ta_key t) of
                        None \<Rightarrow> Inl OutboxIntegrityError
                      | Some x \<Rightarrow> bind_res (match_existing x (ta_hash t)) (\<lambda>m'. Inr (m', s2)))
                else Inr (m, s2\<lparr>outbox := outbox s2 @ [m]\<rparr>)) = Inr (m, s')"
    unfolding enqueue_text_def bind_res_Inr_iff by blast
  show thesis
  proof (cases "find_by_idempotency_key (outbox s) (ta_key t)")
    case (Some e)
    then show thesis using r t found
      by (simp add: find_by_key_get_row match_existing_def split: if_split_asm)
  next
    case None
    let ?i = "uuid7 E (next_id s)"
    let ?taken = "\<exists>x\<in>set (outbox s @ raced). om_idempotency_key x = ta_key t \<or> om_id x = ?i"
    show thesis
    proof (cases ?taken)
      case True
      then show thesis using r t None lost
        by (auto simp: alloc_def Let_def find_by_key_get_row match_existing_def
            split: if_split_asm option.split_asm)
    next
      case False
      then show thesis using r t None inserted
        by (auto simp: alloc_def Let_def find_by_key_get_row split: if_split_asm)
    qed
  qed
qed

text \<open>
  C32: After a successful \<open>enqueue_text\<close>, whatever other transactions committed in
  between, the outbox holds exactly one message with the normalised idempotency key, it is the
  returned one and carries the digest of this action; at most one row was added by the call,
  and a new row is PENDING with no attempt.
\<close>

theorem enqueue_text_one_message_per_key:
  assumes ok: "enqueue_text E a now raced s = Inr (m, s')"
    and keys: "unique_by om_idempotency_key (outbox s @ raced)"
    and ids: "unique_by om_id (outbox s @ raced)"
  shows "unique_by om_idempotency_key (outbox s') \<and> unique_by om_id (outbox s') \<and>
     filter (\<lambda>x. om_idempotency_key x = strip (en_idempotency_key a)) (outbox s') = [m] \<and>
     (\<exists>t. prepare_text E a now = Inr t \<and> om_payload_sha256 m = ta_hash t) \<and>
     (outbox s' = outbox s \<or> outbox s' = outbox s @ raced \<or>
      (outbox s' = outbox s @ raced @ [m] \<and> om_status m = Ob_PENDING \<and> om_attempt_count m = 0))"
proof -
  note one = filter_unique_row[of om_idempotency_key]
  have pre: "unique_by om_idempotency_key (outbox s)" "unique_by om_id (outbox s)"
    using keys ids by (simp_all add: unique_by_def)
  show ?thesis using ok
  proof (cases rule: enqueue_text_cases)
    case (found t)
    then show ?thesis using pre one prepare_text_Inr[OF found(1)] by auto
  next
    case (lost t)
    then show ?thesis using keys ids one[OF keys lost(3)] prepare_text_Inr[OF lost(1)]
      by (metis)
  next
    case (inserted t)
    have sel: "om_idempotency_key m = ta_key t" "om_id m = uuid7 E (next_id s)"
      using inserted(4) by simp_all
    have new: "\<forall>x\<in>set (outbox s @ raced). om_idempotency_key x \<noteq> om_idempotency_key m"
      "\<forall>x\<in>set (outbox s @ raced). om_id x \<noteq> om_id m"
      unfolding sel using inserted(3) by blast+
    have u: "unique_by om_idempotency_key (outbox s')" "unique_by om_id (outbox s')"
      unfolding inserted(5) using keys ids new unique_by_new[of _ "outbox s @ raced" m]
      by simp_all
    have "get_row om_idempotency_key (ta_key t) (outbox s') = Some m"
      by (rule get_row_unique[OF u(1)]) (simp_all add: inserted(4,5))
    then show ?thesis using u one[OF u(1)] inserted prepare_text_Inr[OF inserted(1)] by auto
  qed
qed

text \<open>
  Repeating an enqueue (a retry of the same action, at any later time at which it is still
  valid) returns the message of the first call and changes nothing; binding its key to an
  action with another digest is refused as a conflict.
\<close>

theorem enqueue_text_retry:
  assumes ok: "enqueue_text E a now raced s = Inr (m, s')"
    and keys: "unique_by om_idempotency_key (outbox s @ raced)"
    and later: "prepare_text E a now' = Inr t'"
  shows "enqueue_text E a now' raced' s' = Inr (m, s') \<and>
     (\<forall>b t. prepare_text E b now' = Inr t \<longrightarrow> ta_key t = ta_key t' \<longrightarrow> ta_hash t \<noteq> ta_hash t' \<longrightarrow>
        enqueue_text E b now' raced' s' = Inl OutboxIdempotencyConflict)"
proof -
  have "get_row om_idempotency_key (ta_key t') (outbox s') = Some m \<and> om_payload_sha256 m = ta_hash t'"
    using ok
  proof (cases rule: enqueue_text_cases)
    case (found t)
    then show ?thesis using prepare_text_time[OF found(1) later] by simp
  next
    case (lost t)
    then show ?thesis using prepare_text_time[OF lost(1) later] by simp
  next
    case (inserted t)
    then have "get_row om_idempotency_key (ta_key t) (outbox s @ raced) = None"
      by (simp add: get_row_None_iff)
    then show ?thesis using prepare_text_time[OF inserted(1) later] inserted(4,5)
      by (simp add: get_row_append get_row_Cons split: option.splits)
  qed
  then show ?thesis using later
    by (auto simp: enqueue_text_def find_by_key_get_row match_existing_def)
qed

section \<open>Round trips of stored documents\<close>

text \<open>A mention as the validator leaves it: stripped, not empty, without a comma.\<close>

definition clean_wxid :: "string \<Rightarrow> bool" where
  "clean_wxid a \<longleftrightarrow> strip a = a \<and> a \<noteq> [] \<and> CHR '','' \<notin> set a"

lemma clean_wxidD:
  "clean_wxid a \<Longrightarrow> strip a = a" "clean_wxid a \<Longrightarrow> a \<noteq> []"
  "clean_wxid a \<Longrightarrow> CHR '','' \<notin> set a"
  by (simp_all add: clean_wxid_def)

lemma clean_wxid_strip: "clean_wxid (strip v) \<longleftrightarrow> strip v \<noteq> [] \<and> CHR '','' \<notin> set (strip v)"
  by (simp add: clean_wxid_def)

lemma normalize_at_wxids_Some:
  "normalize_at_wxids acc vs = Some out \<Longrightarrow>
     (\<forall>a\<in>set acc. clean_wxid a) \<Longrightarrow> distinct acc \<Longrightarrow>
     (\<forall>a\<in>set out. clean_wxid a) \<and> distinct out \<and>
     set out = set acc \<union> strip ` set vs \<and> length out \<le> length acc + length vs"
proof (induction acc vs arbitrary: out rule: normalize_at_wxids.induct)
  case (2 acc v vs)
  show ?case
  proof (cases "strip v \<in> set acc")
    case True
    then have n: "normalize_at_wxids acc vs = Some out" "strip v \<noteq> []" "CHR '','' \<notin> set (strip v)"
      using "2.prems"(1) by (auto simp: Let_def split: if_splits)
    have "\<not> (strip v = [] \<or> CHR '','' \<in> set (strip v))" using n by simp
    from "2.IH"(2)[OF refl this _ n(1) "2.prems"(2,3)] True show ?thesis by auto
  next
    case False
    then have n: "normalize_at_wxids (acc @ [strip v]) vs = Some out" "strip v \<noteq> []"
      "CHR '','' \<notin> set (strip v)"
      using "2.prems"(1) by (auto simp: Let_def split: if_splits)
    have ok: "\<not> (strip v = [] \<or> CHR '','' \<in> set (strip v))" using n by simp
    have "clean_wxid (strip v)" using n(2,3) clean_wxid_strip by blast
    then have acc: "\<forall>a\<in>set (acc @ [strip v]). clean_wxid a" "distinct (acc @ [strip v])"
      using "2.prems"(2,3) False by simp_all
    have "(\<forall>a\<in>set out. clean_wxid a) \<and> distinct out \<and>
       set out = set (acc @ [strip v]) \<union> strip ` set vs \<and>
       length out \<le> length (acc @ [strip v]) + length vs"
      by (rule "2.IH"(1)[OF refl ok False n(1) acc])
    then show ?thesis by simp
  qed
qed simp

lemma normalize_at_wxids_fixed:
  "\<forall>a\<in>set vs. clean_wxid a \<Longrightarrow> distinct (acc @ vs) \<Longrightarrow>
     normalize_at_wxids acc vs = Some (acc @ vs)"
proof (induction vs arbitrary: acc)
  case (Cons v vs)
  have v: "strip v = v" "v \<noteq> []" "CHR '','' \<notin> set v" "v \<notin> set acc"
    using Cons.prems clean_wxidD[of v] by simp_all
  have "normalize_at_wxids acc (v # vs) = normalize_at_wxids (acc @ [v]) vs"
    using v by (simp add: Let_def)
  also have "\<dots> = Some ((acc @ [v]) @ vs)"
    by (rule Cons.IH) (use Cons.prems in simp_all)
  finally show ?case by simp
qed simp

lemma text_outbox_payload_Some:
  "text_outbox_payload text ats = Some p \<Longrightarrow>
     tp_text p = text \<and> 1 \<le> length text \<and> length text \<le> 10000 \<and> py_nonblank text \<and>
     distinct (tp_at_wxids p) \<and> set (tp_at_wxids p) = strip ` set ats \<and>
     (\<forall>a\<in>set (tp_at_wxids p). clean_wxid a \<and> length a \<le> 255) \<and>
     length (tp_at_wxids p) \<le> 100 \<and> (tp_at_wxids p \<noteq> [] \<longrightarrow> CHR ''@'' \<in> set text)"
proof -
  assume "text_outbox_payload text ats = Some p"
  then obtain out where out: "normalize_at_wxids [] ats = Some out"
    and p: "p = \<lparr>tp_text = text, tp_at_wxids = out\<rparr>" "out \<noteq> [] \<longrightarrow> CHR ''@'' \<in> set text"
    and b: "text \<noteq> []" "length text \<le> 10000" "py_nonblank text" "length ats \<le> 100"
      "\<forall>a\<in>set ats. length a \<le> 255"
    by (auto simp: text_outbox_payload_def not_less split: if_split_asm option.split_asm)
  have n: "(\<forall>a\<in>set out. clean_wxid a) \<and> distinct out \<and> set out = strip ` set ats \<and>
      length out \<le> length ats"
    using normalize_at_wxids_Some[OF out] by simp
  then have cl: "\<forall>a\<in>set out. clean_wxid a" and d: "distinct out" and st: "set out = strip ` set ats"
    and len: "length out \<le> length ats" by blast+
  have "length a \<le> 255" if "a \<in> set out" for a
  proof -
    from that st obtain v where "v \<in> set ats" "a = strip v" by blast
    then show ?thesis using b(5) length_strip[of v] by force
  qed
  with cl have "\<forall>a\<in>set out. clean_wxid a \<and> length a \<le> 255" by blast
  moreover have "length out \<le> 100" using len b(4) by simp
  ultimately show ?thesis unfolding p(1) using b(1-3) d st p(2) by (simp add: Suc_le_eq)
qed

lemma text_outbox_payload_again:
  assumes "text_outbox_payload text ats = Some p"
  shows "text_outbox_payload (tp_text p) (tp_at_wxids p) = Some p"
proof -
  note p = text_outbox_payload_Some[OF assms]
  have norm: "normalize_at_wxids [] (tp_at_wxids p) = Some (tp_at_wxids p)"
    using normalize_at_wxids_fixed[of "tp_at_wxids p" "[]"] p by simp
  have "length a \<noteq> 0 \<and> \<not> 255 < length a" if "a \<in> set (tp_at_wxids p)" for a
    using p that clean_wxidD(2) by fastforce
  then have "\<not> (\<exists>a\<in>set (tp_at_wxids p). length a < 1 \<or> 255 < length a)"
    using less_one by blast
  then have "\<not> (length (tp_text p) < 1 \<or> 10000 < length (tp_text p) \<or> \<not> py_nonblank (tp_text p)
      \<or> 100 < length (tp_at_wxids p) \<or> (\<exists>a\<in>set (tp_at_wxids p). length a < 1 \<or> 255 < length a))"
    using p not_less by metis
  moreover have "\<not> (tp_at_wxids p \<noteq> [] \<and> CHR ''@'' \<notin> set (tp_text p))" using p by blast
  ultimately show ?thesis
    unfolding text_outbox_payload_def using norm by (simp only: if_False option.case) simp
qed

text \<open>
  The payload and the authorization context that an enqueue stores are read back
  unchanged by the validation the sender applies before a send, so a message accepted by
  \<open>enqueue_text\<close> can never fail there as an invalid payload.
\<close>

theorem stored_documents_read_back:
  assumes "parses_uuids E" and "prepare_text E a now = Inr t"
    and "\<forall>c. en_authorization_context a = Some c \<longrightarrow> auth_context_ok c"
  shows "\<exists>p. text_outbox_payload (en_text a) (en_at_wxids a) = Some p \<and>
      validate_text_payload (ta_payload t) = Some p \<and>
      map_option (validate_auth_context E) (ta_context t) = map_option Some (en_authorization_context a)"
proof -
  obtain p where p: "text_outbox_payload (en_text a) (en_at_wxids a) = Some p"
    "ta_payload t = payload_json p"
    using prepare_text_Inr[OF assms(2)] by blast
  have 1: "validate_text_payload (payload_json p) = Some p"
    using text_outbox_payload_again[OF p(1)]
    by (simp add: validate_text_payload_def payload_json_def)
  have opt: "opt_field (uuid_field E) (json_opt_uuid u) = Some u"
    "opt_field str_field (json_opt_str x) = Some x" for u x
    using assms(1) by (simp_all add: json_opt_uuid_def json_opt_str_def parses_uuids_def split: option.split)
  have "validate_auth_context E (auth_context_json c) = Some c" if "auth_context_ok c" for c
    using that assms(1)
    by (cases c) (simp add: validate_auth_context_def auth_context_json_def auth_context_keys_def
        json_get_def parses_uuids_def opt Let_def)
  then have "map_option (validate_auth_context E) (map_option auth_context_json (en_authorization_context a))
      = map_option Some (en_authorization_context a)"
    using assms(3) by (cases "en_authorization_context a") auto
  then show ?thesis using p 1 prepare_text_Inr[OF assms(2)] by auto
qed

text \<open>
  The sender hands the mentions to the provider as one comma-separated string; \<open>split_commas\<close>
  is how it is read there.
\<close>

fun split_commas :: "string \<Rightarrow> string list" where
  "split_commas [] = [[]]"
| "split_commas (c # cs) =
     (if c = CHR '','' then [] # split_commas cs
      else case split_commas cs of [] \<Rightarrow> [[c]] | w # ws \<Rightarrow> (c # w) # ws)"

lemma split_commas_word:
  "CHR '','' \<notin> set w \<Longrightarrow> split_commas (w @ CHR '','' # rest) = w # split_commas rest"
  by (induction w) auto

lemma split_commas_last: "CHR '','' \<notin> set w \<Longrightarrow> split_commas w = [w]"
  by (induction w) auto

lemma split_commas_join:
  "xs \<noteq> [] \<Longrightarrow> \<forall>x\<in>set xs. CHR '','' \<notin> set x \<Longrightarrow> split_commas (join '','' xs) = xs"
proof (induction xs)
  case (Cons x xs)
  show ?case
  proof (cases xs)
    case Nil
    then show ?thesis using Cons.prems by (simp add: join_def split_commas_last)
  next
    case (Cons y ys)
    then have "join '','' (x # xs) = x @ CHR '','' # join '','' xs" by (simp add: join_def)
    then show ?thesis using Cons Cons.IH Cons.prems split_commas_word by simp
  qed
qed simp

text \<open>
  The mention list of an accepted payload survives the comma-separated form in which it is
  sent: no wxid contains a comma, blanks are removed, duplicates are dropped and the order of
  first occurrence is kept.
\<close>

theorem mentions_survive_joining:
  assumes "text_outbox_payload text ats = Some p" and "ats \<noteq> []"
  shows "split_commas (join '','' (tp_at_wxids p)) = tp_at_wxids p \<and> distinct (tp_at_wxids p) \<and>
     set (tp_at_wxids p) = strip ` set ats \<and> CHR ''@'' \<in> set text"
proof -
  note p = text_outbox_payload_Some[OF assms(1)]
  have st: "set (tp_at_wxids p) = strip ` set ats" and d: "distinct (tp_at_wxids p)"
    and at: "tp_at_wxids p \<noteq> [] \<longrightarrow> CHR ''@'' \<in> set text" using p by blast+
  have ne: "tp_at_wxids p \<noteq> []" using st assms(2) by (metis image_is_empty set_empty)
  have "\<forall>x\<in>set (tp_at_wxids p). CHR '','' \<notin> set x" using p clean_wxidD(3) by blast
  from split_commas_join[OF ne this] show ?thesis using d st at ne by blast
qed

section \<open>Concrete instances\<close>

definition sample_context :: auth_context where
  "sample_context = \<lparr>ac_workspace_id = 1, ac_deployment_id = 20, ac_deployment_revision_id = 21,
     ac_actor_principal_id = Some 5, ac_chatroom_id = Some 4, ac_contact_id = None,
     ac_resource_type = Rs_COMMAND, ac_resource_id = ''p/c'', ac_parent_plugin_id = Some ''p''\<rparr>"

definition sample_enqueue :: "string \<Rightarrow> text_enqueue" where
  "sample_enqueue text = \<lparr>en_bot_account_id = 3, en_trace_id = 30, en_idempotency_key = ''k1 '',
     en_target_wxid = ''g@chatroom'', en_text = text, en_expires_at = Some (Aware 200 100),
     en_priority = 100, en_at_wxids = [''wxid_m'', '' wxid_m''], en_action_type = ''message.reply.text'',
     en_authorization_context = Some sample_context\<rparr>"

definition sample_payload :: text_payload where
  "sample_payload = \<lparr>tp_text = ''@m hi'', tp_at_wxids = [''wxid_m'']\<rparr>"

definition sample_action :: text_action where
  "sample_action = \<lparr>ta_key = ''k1'', ta_target = ''g@chatroom'', ta_payload = payload_json sample_payload,
     ta_context = Some (auth_context_json sample_context), ta_expires = Some 100,
     ta_hash = action_hash sample_env 3 ''message.reply.text'' ''g@chatroom'' (payload_json sample_payload)
       (Some (auth_context_json sample_context)) 100 (Some 100)\<rparr>"

lemma sample_text_payload: "text_outbox_payload ''@m hi'' [''wxid_m'', '' wxid_m''] = Some sample_payload"
  by code_simp

lemma sample_prepare: "now < 100 \<Longrightarrow> prepare_text sample_env (sample_enqueue ''@m hi'') now = Inr sample_action"
  by (simp add: prepare_text_def sample_enqueue_def result_simps normalize_limited_text_def
      normalize_expiry_def sample_text_payload sample_action_def Let_def check_that_def
      text_action_types_def strip_def lstrip_def py_isspace_def)

lemma sample_enqueued:
  "enqueue_text sample_env (sample_enqueue ''@m hi'') 0 [] (sample_db []) =
     Inr (new_message (sample_enqueue ''@m hi'') sample_action 1000 0,
       (sample_db [])\<lparr>next_id := 1, outbox := [new_message (sample_enqueue ''@m hi'') sample_action 1000 0]\<rparr>)"
proof -
  have "outbox (sample_db []) = []" "next_id (sample_db []) = 0" "uuid7 sample_env 0 = 1000"
    "get_row ba_id 3 (accounts (sample_db [])) = Some sample_account"
    "en_bot_account_id (sample_enqueue ''@m hi'') = 3"
    by (simp_all add: sample_defs get_row_Cons sample_enqueue_def)
  then show ?thesis
    by (simp add: enqueue_text_def sample_prepare find_by_key_get_row alloc_def result_simps Let_def)
qed

theorem unknown_never_resent_witness:
  "\<exists>m m'. outbox_life.moves m m' \<and> om_status m' \<in> {Ob_UNKNOWN, Ob_SENT, Ob_FAILED_FINAL}"
proof -
  let ?m = "(new_message (sample_enqueue ''@m hi'') sample_action 1000 0)\<lparr>om_status := Ob_UNKNOWN\<rparr>"
  have "outbox_move (7, None, None) Ob_SENT ?m = Inr (?m\<lparr>om_status := Ob_SENT,
      om_last_error_code := None, om_updated_at := 7, om_available_at := om_available_at ?m\<rparr>)"
    by (simp add: outbox_move_def transition_outbox_Inr)
  from outbox_life.go[OF outbox_life.stay this]
  obtain m' where mv: "outbox_life.moves ?m m'" by blast
  have "om_status m' \<in> {Ob_UNKNOWN, Ob_SENT, Ob_FAILED_FINAL}"
    by (rule unknown_never_resent[OF mv]) simp
  with mv show ?thesis by blast
qed

theorem enqueue_text_one_message_per_key_witness:
  "let m = new_message (sample_enqueue ''@m hi'') sample_action 1000 0
   in filter (\<lambda>x. om_idempotency_key x = ''k1'') [m] = [m]"
proof -
  have "unique_by om_idempotency_key (outbox (sample_db []) @ [])"
    "unique_by om_id (outbox (sample_db []) @ [])"
    by (simp_all add: unique_by_def sample_defs)
  from enqueue_text_one_message_per_key[OF sample_enqueued this] show ?thesis
    by (simp add: sample_enqueue_def strip_def lstrip_def py_isspace_def Let_def)
qed

theorem enqueue_text_retry_witness:
  "\<exists>m s. enqueue_text sample_env (sample_enqueue ''@m hi'') 50 [] s = Inr (m, s) \<and> outbox s = [m]"
proof -
  have "unique_by om_idempotency_key (outbox (sample_db []) @ [])"
    by (simp add: unique_by_def sample_defs)
  from enqueue_text_retry[OF sample_enqueued this sample_prepare[of 50]] show ?thesis
    by (intro exI conjI) (auto simp: sample_defs)
qed

theorem stored_documents_read_back_witness:
  "validate_text_payload (ta_payload sample_action) = Some sample_payload"
proof -
  have "parses_uuids sample_env"
    by (simp add: parses_uuids_def sample_env_def py_uuid_of_uuid_str_helper)
  moreover have "\<forall>c. en_authorization_context (sample_enqueue ''@m hi'') = Some c \<longrightarrow> auth_context_ok c"
    by (simp add: sample_enqueue_def sample_context_def auth_context_ok_def)
  ultimately show ?thesis
    using stored_documents_read_back[OF _ sample_prepare[of 0]] sample_text_payload
    by (auto simp: sample_enqueue_def)
qed

theorem mentions_survive_joining_witness:
  "split_commas (join '','' (tp_at_wxids sample_payload)) = [''wxid_m'']"
  using mentions_survive_joining[OF sample_text_payload] by (simp add: sample_payload_def)

end
