(* ===== verification/Gewe_Client.thy ===== *)
theory Gewe_Client
  imports Db_Model
begin

text \<open>
  The outcome of one call to the provider (\<open>gewe/client.py\<close>): the exceptions of the HTTP
  library, the checks \<open>GeWeClient._post\<close> makes on a response, and the request and result
  records of a text message (\<open>gewe/schemas.py\<close>).  The HTTP exchange itself and the
  validation of the response body (\<open>pydantic\<close>) are parameters.
\<close>

section \<open>Requests and results of a text message\<close>

record post_text_request =
  pt_app_id :: string
  pt_to_wxid :: string
  pt_content :: string
  pt_ats :: "string option"

text \<open>\<open>model_dump(by_alias=True, exclude_none=True)\<close>.\<close>

definition post_text_body :: "post_text_request \<Rightarrow> json" where
  "post_text_body r = JObj
     ([(''appId'', JStr (pt_app_id r)), (''toWxid'', JStr (pt_to_wxid r)),
       (''content'', JStr (pt_content r))]
      @ (case pt_ats r of None \<Rightarrow> [] | Some a \<Rightarrow> [(''ats'', JStr a)]))"

record sent_text =
  st_to_wxid :: string
  st_create_time :: int
  st_msg_id :: string
  st_new_msg_id :: string
  st_message_type :: int

record 'd gewe_response =
  gr_ret :: int
  gr_msg :: string
  gr_data :: "'d option"

section \<open>Errors\<close>

text \<open>
  The request errors of \<open>httpx\<close>: its four timeouts, its four network errors, a protocol
  error of the remote side, and the others.
\<close>

datatype httpx_error =
    ConnectTimeout | ReadTimeout | WriteTimeout | PoolTimeout
  | ConnectError | ReadError | WriteError | CloseError
  | RemoteProtocolError | OtherRequestError

fun is_timeout :: "httpx_error \<Rightarrow> bool" where
  "is_timeout ConnectTimeout = True"
| "is_timeout ReadTimeout = True"
| "is_timeout WriteTimeout = True"
| "is_timeout PoolTimeout = True"
| "is_timeout _ = False"

fun is_network_error :: "httpx_error \<Rightarrow> bool" where
  "is_network_error ConnectError = True"
| "is_network_error ReadError = True"
| "is_network_error WriteError = True"
| "is_network_error CloseError = True"
| "is_network_error _ = False"

text \<open>The exception classes with their \<open>retryable\<close> flag and, for a transport error, its cause.\<close>

datatype gewe_error =
    GeWeTransportError bool httpx_error
  | GeWeHTTPError int bool
  | GeWeAPIError int bool
  | GeWeProtocolError

fun retryable :: "gewe_error \<Rightarrow> bool" where
  "retryable (GeWeTransportError b _) = b"
| "retryable (GeWeHTTPError _ b) = b"
| "retryable (GeWeAPIError _ b) = b"
| "retryable GeWeProtocolError = False"

definition is_retryable_status :: "int \<Rightarrow> bool" where
  "is_retryable_status code \<longleftrightarrow> code \<in> {408, 425, 429} \<or> (500 \<le> code \<and> code \<le> 599)"

section \<open>A call\<close>

text \<open>
  What the transport returned: a request error, or a status code with the decoded body
  (\<open>None\<close> when it is not JSON).
\<close>

type_synonym http_outcome = "httpx_error + int \<times> json option"

definition gewe_post ::
    "(json \<Rightarrow> 'd gewe_response option) \<Rightarrow> http_outcome \<Rightarrow> (gewe_error, 'd gewe_response) res" where
  "gewe_post model_validate outcome =
     (case outcome of
        Inl e \<Rightarrow>
          if is_timeout e then Inl (GeWeTransportError True e)
          else Inl (GeWeTransportError (is_network_error e \<or> e = RemoteProtocolError) e)
      | Inr (status, body) \<Rightarrow>
          if status < 200 \<or> 300 \<le> status
          then Inl (GeWeHTTPError status (is_retryable_status status))
          else (case body of
              None \<Rightarrow> Inl GeWeProtocolError
            | Some payload \<Rightarrow>
                (case model_validate payload of
                   None \<Rightarrow> Inl GeWeProtocolError
                 | Some parsed \<Rightarrow>
                     if gr_ret parsed \<noteq> 200
                     then Inl (GeWeAPIError (gr_ret parsed) (is_retryable_status (gr_ret parsed)))
                     else Inr parsed)))"

definition require_data :: "'d gewe_response \<Rightarrow> (gewe_error, 'd) res" where
  "require_data response = of_option GeWeProtocolError (gr_data response)"

definition post_text ::
    "(json \<Rightarrow> sent_text gewe_response option) \<Rightarrow> http_outcome \<Rightarrow> (gewe_error, sent_text) res" where
  "post_text model_validate outcome = bind_res (gewe_post model_validate outcome) require_data"

lemma gewe_post_Inr:
  "gewe_post v outcome = Inr r \<longleftrightarrow>
     (\<exists>status payload. outcome = Inr (status, Some payload) \<and> 200 \<le> status \<and> status < 300 \<and>
        v payload = Some r \<and> gr_ret r = 200)"
  by (auto simp: gewe_post_def split: sum.splits option.splits if_splits)

lemma post_text_Inr:
  "post_text v outcome = Inr d \<longleftrightarrow>
     (\<exists>status payload r. outcome = Inr (status, Some payload) \<and> 200 \<le> status \<and> status < 300 \<and>
        v payload = Some r \<and> gr_ret r = 200 \<and> gr_data r = Some d)"
  by (auto simp: post_text_def bind_res_Inr_iff gewe_post_Inr require_data_def of_option_def
      split: option.splits)

end
