(* ===== verification/Sender.thy ===== *)
theory Sender
  imports Outbox Gewe_Client "HOL-Library.Multiset"
begin

text \<open>
  The sender worker (\<open>outbox/sender.py\<close>): its options, the recovery of expired leases, the
  claim of the next message of an account, the rate limit, the authorisation check right before
  a send, and the recording of its outcome.  Every database transaction is one operation on the
  database; the readings of the clock, the random numbers and the provider are parameters.
\<close>

section \<open>Options\<close>

record sender_options =
  so_poll_interval_seconds :: rat
  so_max_concurrent_accounts :: int
  so_per_minute_limit :: int
  so_target_interval_seconds :: rat
  so_group_interval_min_seconds :: rat
  so_group_interval_max_seconds :: rat
  so_max_attempts :: int
  so_backoff_base_seconds :: rat
  so_backoff_max_seconds :: rat
  so_retry_jitter_ratio :: rat
  so_lease_seconds :: rat
  so_request_timeout_seconds :: rat
  so_offline_retry_seconds :: rat

definition default_sender_options :: sender_options where
  "default_sender_options = \<lparr>so_poll_interval_seconds = 1/4, so_max_concurrent_accounts = 8,
     so_per_minute_limit = 40, so_target_interval_seconds = 1, so_group_interval_min_seconds = 2,
     so_group_interval_max_seconds = 5, so_max_attempts = 5, so_backoff_base_seconds = 2,
     so_backoff_max_seconds = 60, so_retry_jitter_ratio = 1/5, so_lease_seconds = 90,
     so_request_timeout_seconds = 20, so_offline_retry_seconds = 30\<rparr>"

text \<open>\<open>SenderOptions.__post_init__\<close>: the \<open>ValueError\<close> raised, if any.\<close>

definition sender_options_error :: "sender_options \<Rightarrow> string option" where
  "sender_options_error o' =
     (if so_poll_interval_seconds o' \<le> 0 \<or> so_max_concurrent_accounts o' \<le> 0
         \<or> so_per_minute_limit o' \<le> 0 \<or> so_max_attempts o' \<le> 0
         \<or> so_backoff_base_seconds o' \<le> 0 \<or> so_backoff_max_seconds o' \<le> 0
         \<or> so_lease_seconds o' \<le> 0 \<or> so_request_timeout_seconds o' \<le> 0
         \<or> so_offline_retry_seconds o' \<le> 0
      then Some ''sender limits and durations must be greater than zero''
      else if so_target_interval_seconds o' < 0 \<or> so_group_interval_min_seconds o' < 0
      then Some ''sender intervals cannot be negative''
      else if so_group_interval_max_seconds o' < so_group_interval_min_seconds o'
      then Some ''group maximum interval cannot be below its minimum''
      else if so_backoff_max_seconds o' < so_backoff_base_seconds o'
      then Some ''backoff maximum cannot be below its base''
      else if \<not> (0 \<le> so_retry_jitter_ratio o' \<and> so_retry_jitter_ratio o' < 1)
      then Some ''retry jitter ratio must be in [0, 1)''
      else if so_lease_seconds o' < 60 + so_request_timeout_seconds o'
      then Some ''sender lease must cover rate limiting and request timeout''
      else None)"

definition sender_options_ok :: "sender_options \<Rightarrow> bool" where
  "sender_options_ok o' \<longleftrightarrow> sender_options_error o' = None"

section \<open>Leases\<close>

definition in_flight :: "outbox_status \<Rightarrow> bool" where
  "in_flight st \<longleftrightarrow> st \<in> {Ob_CLAIMED, Ob_SENDING}"

definition waiting :: "outbox_status \<Rightarrow> bool" where
  "waiting st \<longleftrightarrow> st \<in> {Ob_PENDING, Ob_FAILED_RETRYABLE}"

fun recover_messages ::
    "instant \<Rightarrow> outbox_message list \<Rightarrow> db \<Rightarrow> (outbox_error, db) res" where
  "recover_messages now [] s = Inr s"
| "recover_messages now (m # ms) s =
     bind_res
       (if om_status m = Ob_CLAIMED
        then transition_outbox m Ob_PENDING now (Some ''CLAIM_LEASE_RECOVERED'') (Some now)
        else transition_outbox m Ob_UNKNOWN now (Some ''SENDING_LEASE_EXPIRED'') None)
       (\<lambda>m'. recover_messages now ms (put_message m' s))"

text \<open>
  \<open>_recover_expired_leases\<close>.  \<open>locked\<close> are the rows the query skips because another
  transaction holds them.
\<close>

definition expired_leases ::
    "(uuid \<Rightarrow> bool) \<Rightarrow> instant \<Rightarrow> db \<Rightarrow> outbox_message list" where
  "expired_leases locked now s =
     take 200 (filter (\<lambda>m. in_flight (om_status m) \<and> om_available_at m \<le> now \<and> \<not> locked (om_id m))
       (outbox s))"

definition recover_expired_leases ::
    "(uuid \<Rightarrow> bool) \<Rightarrow> instant \<Rightarrow> db \<Rightarrow> (outbox_error, db) res" where
  "recover_expired_leases locked now s = recover_messages now (expired_leases locked now s) s"

section \<open>Claiming\<close>

definition due_message :: "instant \<Rightarrow> outbox_message \<Rightarrow> bool" where
  "due_message now m \<longleftrightarrow> waiting (om_status m) \<and> om_available_at m \<le> now"

definition expired_message :: "instant \<Rightarrow> outbox_message \<Rightarrow> bool" where
  "expired_message now m \<longleftrightarrow> (case om_expires_at m of None \<Rightarrow> False | Some e \<Rightarrow> e \<le> now)"

text \<open>
  \<open>_due_account_ids\<close>: accounts with a due message, by their least priority value and
  earliest creation; accounts that tie keep the order of the table.
\<close>

definition due_account_ids :: "sender_options \<Rightarrow> instant \<Rightarrow> db \<Rightarrow> uuid list" where
  "due_account_ids o' now s =
     (let due = filter (due_message now) (outbox s);
          of_account = (\<lambda>a. filter (\<lambda>m. om_bot_account_id m = a) due);
          rank = (\<lambda>a. (Min (om_priority ` set (of_account a)), Min (om_created_at ` set (of_account a))))
      in take (nat (so_max_concurrent_accounts o')) (sort_key rank (remdups (map om_bot_account_id due))))"

record claimed_message =
  cl_id :: uuid
  cl_bot_account_id :: uuid
  cl_target_wxid :: string

definition claim_key :: "outbox_message \<Rightarrow> int \<times> instant \<times> uuid" where
  "claim_key m = (om_priority m, om_created_at m, om_id m)"

definition claimable ::
    "(uuid \<Rightarrow> bool) \<Rightarrow> instant \<Rightarrow> uuid \<Rightarrow> db \<Rightarrow> outbox_message list" where
  "claimable locked now acct s =
     filter (\<lambda>m. om_bot_account_id m = acct \<and> due_message now m \<and> \<not> locked (om_id m)) (outbox s)"

definition next_due ::
    "(uuid \<Rightarrow> bool) \<Rightarrow> instant \<Rightarrow> uuid \<Rightarrow> db \<Rightarrow> outbox_message option" where
  "next_due locked now acct s =
     (case sort_key claim_key (claimable locked now acct s) of [] \<Rightarrow> None | m # _ \<Rightarrow> Some m)"

lemma next_due_Some:
  assumes "next_due locked now acct s = Some m"
  shows "m \<in> set (claimable locked now acct s)"
    and "x \<in> set (claimable locked now acct s) \<Longrightarrow> claim_key m \<le> claim_key x"
proof -
  obtain ms where ms: "sort_key claim_key (claimable locked now acct s) = m # ms"
    using assms by (auto simp: next_due_def split: list.splits)
  have st: "set (claimable locked now acct s) = set (m # ms)" unfolding ms[symmetric] by simp
  then show "m \<in> set (claimable locked now acct s)" by simp
  have "sorted (map claim_key (m # ms))" unfolding ms[symmetric] by simp
  then show "claim_key m \<le> claim_key x" if "x \<in> set (claimable locked now acct s)"
    using that unfolding st by auto
qed

lemma next_due_None: "next_due locked now acct s = None \<longleftrightarrow> claimable locked now acct s = []"
proof -
  have "sort_key claim_key xs = [] \<longleftrightarrow> xs = []" for xs :: "outbox_message list"
    by (metis length_0_conv length_sort)
  from this[of "claimable locked now acct s"] show ?thesis
    unfolding next_due_def by (cases "sort_key claim_key (claimable locked now acct s)") simp_all
qed

lemma claim_key_le [simp]:
  "claim_key a \<le> claim_key b \<longleftrightarrow> om_priority a < om_priority b \<or>
     (om_priority a = om_priority b \<and> (om_created_at a < om_created_at b \<or>
       (om_created_at a = om_created_at b \<and> om_id a \<le> om_id b)))"
  by (auto simp: claim_key_def less_eq_prod_def)

text \<open>The \<open>while True\<close> loop of \<open>_claim_next\<close>; it cancels expired messages as it goes.\<close>

function claim_loop ::
    "sender_options \<Rightarrow> (uuid \<Rightarrow> bool) \<Rightarrow> instant \<Rightarrow> uuid \<Rightarrow> db
     \<Rightarrow> (outbox_error, claimed_message option \<times> db) res" where
  "claim_loop o' locked now acct s =
     (case next_due locked now acct s of
        None \<Rightarrow> Inr (None, s)
      | Some m \<Rightarrow>
          if expired_message now m
          then (case transition_outbox m Ob_CANCELLED now (Some ''EXPIRED_BEFORE_SEND'') None of
                  Inl e \<Rightarrow> Inl e
                | Inr m' \<Rightarrow> claim_loop o' locked now acct (put_message m' s))
          else (case transition_outbox m Ob_CLAIMED now None
                       (Some (now + seconds (so_lease_seconds o'))) of
                  Inl e \<Rightarrow> Inl e
                | Inr m' \<Rightarrow> Inr (Some \<lparr>cl_id = om_id m', cl_bot_account_id = om_bot_account_id m',
                                      cl_target_wxid = om_target_wxid m'\<rparr>, put_message m' s)))"
  by auto

termination claim_loop
proof (relation "measure (\<lambda>(o', locked, now, acct, s). length (claimable locked now acct s))")
  fix o' :: sender_options and locked now acct s m m'
  assume m: "next_due locked now acct s = Some m"
    and t: "transition_outbox m Ob_CANCELLED now (Some ''EXPIRED_BEFORE_SEND'') None = Inr m'"
  have mem: "m \<in> set (outbox s)"
    and P: "om_bot_account_id m = acct \<and> due_message now m \<and> \<not> locked (om_id m)"
    using next_due_Some(1)[OF m] by (auto simp: claimable_def)
  have m': "om_id m' = om_id m" "om_status m' = Ob_CANCELLED"
    using t by (auto simp: transition_outbox_Inr)
  then have "\<not> due_message now m'" by (simp add: due_message_def waiting_def)
  then show "((o', locked, now, acct, put_message m' s), o', locked, now, acct, s)
      \<in> measure (\<lambda>(o', locked, now, acct, s). length (claimable locked now acct s))"
    using filter_put_row_shrinks[where P = "\<lambda>m. om_bot_account_id m = acct \<and> due_message now m \<and> \<not> locked (om_id m)",
        OF P mem m'(1)] by (simp add: claimable_def)
qed simp

declare claim_loop.simps [simp del]

definition claim_next ::
    "sender_options \<Rightarrow> (uuid \<Rightarrow> bool) \<Rightarrow> instant \<Rightarrow> uuid \<Rightarrow> db
     \<Rightarrow> (outbox_error, claimed_message option \<times> db) res" where
  "claim_next o' locked now acct s =
     (if get_row ba_id acct (accounts s) = None then Inr (None, s)
      else if filter (\<lambda>m. om_bot_account_id m = acct \<and> in_flight (om_status m)) (outbox s) \<noteq> []
      then Inr (None, s)
      else claim_loop o' locked now acct s)"

section \<open>The rate limit\<close>

text \<open>\<open>random.uniform(a, b)\<close> at the random number \<open>r\<close>.\<close>

definition uniform :: "rat \<Rightarrow> rat \<Rightarrow> rat \<Rightarrow> rat" where
  "uniform a b r = a + (b - a) * r"

definition recent_attempts :: "claimed_message \<Rightarrow> instant \<Rightarrow> db \<Rightarrow> (instant \<times> string) list" where
  "recent_attempts c now s =
     map (\<lambda>m. (om_updated_at m, om_target_wxid m))
       (filter (\<lambda>m. om_bot_account_id m = cl_bot_account_id c \<and> 0 < om_attempt_count m
                 \<and> now - seconds 60 \<le> om_updated_at m) (outbox s))"

definition minute_delays :: "sender_options \<Rightarrow> instant \<Rightarrow> (instant \<times> string) list \<Rightarrow> rat list" where
  "minute_delays o' now attempts =
     (if so_per_minute_limit o' \<le> int (length attempts)
      then let recent = rev (sort (map fst attempts));
               threshold = recent ! nat (so_per_minute_limit o' - 1)
           in [60 - total_seconds (now - threshold)]
      else [])"

definition target_delays ::
    "sender_options \<Rightarrow> claimed_message \<Rightarrow> instant \<Rightarrow> (instant \<times> string) list \<Rightarrow> rat list" where
  "target_delays o' c now attempts =
     (case list_max (map fst (filter (\<lambda>(t, w). w = cl_target_wxid c) attempts)) of
        None \<Rightarrow> []
      | Some latest \<Rightarrow> [so_target_interval_seconds o' - total_seconds (now - latest)])"

definition group_delays ::
    "sender_options \<Rightarrow> claimed_message \<Rightarrow> instant \<Rightarrow> rat \<Rightarrow> (instant \<times> string) list \<Rightarrow> rat list" where
  "group_delays o' c now r attempts =
     (if endswith (cl_target_wxid c) ''@chatroom''
      then (case list_max (map fst (filter (\<lambda>(t, w). endswith w ''@chatroom'') attempts)) of
              None \<Rightarrow> []
            | Some latest \<Rightarrow>
                [uniform (so_group_interval_min_seconds o') (so_group_interval_max_seconds o') r
                   - total_seconds (now - latest)])
      else [])"

definition rate_delay :: "sender_options \<Rightarrow> claimed_message \<Rightarrow> instant \<Rightarrow> rat \<Rightarrow> db \<Rightarrow> rat" where
  "rate_delay o' c now r s =
     (let attempts = recent_attempts c now s
      in fold max (minute_delays o' now attempts @ target_delays o' c now attempts
           @ group_delays o' c now r attempts) 0)"

definition extend_claim_lease :: "sender_options \<Rightarrow> uuid \<Rightarrow> rat \<Rightarrow> instant \<Rightarrow> db \<Rightarrow> db" where
  "extend_claim_lease o' i delay now s =
     (let lease_extension = max (so_lease_seconds o') (delay + so_lease_seconds o')
      in case get_row om_id i (outbox s) of
           None \<Rightarrow> s
         | Some m \<Rightarrow>
             if om_status m = Ob_CLAIMED
             then put_message (m\<lparr>om_available_at := now + seconds lease_extension,
                                 om_updated_at := now\<rparr>) s
             else s)"

text \<open>\<open>_respect_rate_limit\<close>: the time slept, and the database after the lease was extended.\<close>

definition respect_rate_limit ::
    "sender_options \<Rightarrow> claimed_message \<Rightarrow> instant \<Rightarrow> rat \<Rightarrow> instant \<Rightarrow> db \<Rightarrow> rat \<times> db" where
  "respect_rate_limit o' c now r now' s =
     (let delay = rate_delay o' c now r s
      in if delay \<le> 0 then (0, s) else (delay, extend_claim_lease o' (cl_id c) delay now' s))"

section \<open>The check right before a send\<close>

definition target_matches_authorization :: "db \<Rightarrow> outbox_message \<Rightarrow> auth_context \<Rightarrow> bool" where
  "target_matches_authorization s m c =
     (case ac_chatroom_id c of
        Some room \<Rightarrow>
          map_option cr_chatroom_id
            (find (\<lambda>r. cr_id r = room \<and> cr_bot_account_id r = om_bot_account_id m) (chatrooms s))
          = Some (om_target_wxid m)
      | None \<Rightarrow>
          (case ac_contact_id c of
             Some ct \<Rightarrow>
               map_option ct_external_id
                 (find (\<lambda>r. ct_id r = ct \<and> ct_bot_account_id r = om_bot_account_id m \<and> ct_active r)
                   (contacts s))
               = Some (om_target_wxid m)
           | None \<Rightarrow> False))"

definition authorization_request :: "outbox_message \<Rightarrow> auth_context \<Rightarrow> acl_request" where
  "authorization_request m c =
     \<lparr>rq_workspace_id = ac_workspace_id c, rq_bot_account_id = om_bot_account_id m,
      rq_actor_principal_id = ac_actor_principal_id c, rq_chatroom_id = ac_chatroom_id c,
      rq_contact_id = ac_contact_id c, rq_resource_type = ac_resource_type c,
      rq_resource_id = ac_resource_id c, rq_parent_plugin_id = ac_parent_plugin_id c,
      rq_trace_id = Some (om_trace_id m)\<rparr>"

definition deployment_grants :: "db \<Rightarrow> outbox_message \<Rightarrow> auth_context \<Rightarrow> bool" where
  "deployment_grants s m c =
     (case get_row dp_id (ac_deployment_id c) (deployments s) of
        None \<Rightarrow> False
      | Some d \<Rightarrow>
          (case Option.bind (dp_active_revision_id d) (\<lambda>i. get_row rv_id i (revisions s)) of
             None \<Rightarrow> False
           | Some rv \<Rightarrow>
               \<not> (dp_workspace_id d \<noteq> ac_workspace_id c \<or> dp_status d \<noteq> Dp_RUNNING
                  \<or> dp_active_revision_id d \<noteq> Some (ac_deployment_revision_id c)
                  \<or> rv_id rv \<noteq> ac_deployment_revision_id c
                  \<or> rv_deployment_id rv \<noteq> dp_id d
                  \<or> om_action_type m \<notin> set (rv_grants rv))))"

text \<open>
  \<open>_authorization_still_valid\<close>; \<open>now\<close> is the clock reading of the policy service,
  which logs its decision in the same transaction.
\<close>

definition authorization_still_valid :: "env \<Rightarrow> outbox_message \<Rightarrow> instant \<Rightarrow> db \<Rightarrow> bool \<times> db" where
  "authorization_still_valid E m now s =
     (case om_authorization_context m of
        None \<Rightarrow> (True, s)
      | Some raw \<Rightarrow>
          (case validate_auth_context E raw of
             None \<Rightarrow> (False, s)
           | Some c \<Rightarrow>
               if \<not> target_matches_authorization s m c then (False, s)
               else if \<not> deployment_grants s m c then (False, s)
               else (case evaluate (authorization_request m c) now s of
                       Inl _ \<Rightarrow> (False, s)
                     | Inr (res, s') \<Rightarrow> (dv_allowed res, s'))))"

record prepared_send =
  pp_message_id :: uuid
  pp_bot_account_id :: uuid
  pp_base_url :: string
  pp_token :: string
  pp_request :: post_text_request

text \<open>A transition whose message is written back and after which nothing is sent.\<close>

definition give_up ::
    "outbox_message \<Rightarrow> outbox_status \<Rightarrow> instant \<Rightarrow> string \<Rightarrow> instant option \<Rightarrow> db
     \<Rightarrow> (outbox_error, prepared_send option \<times> db) res" where
  "give_up m target now code avail s =
     bind_res (transition_outbox m target now (Some code) avail) (\<lambda>m'. Inr (None, put_message m' s))"

definition prepare_send ::
    "env \<Rightarrow> sender_options \<Rightarrow> uuid \<Rightarrow> instant \<Rightarrow> instant \<Rightarrow> db
     \<Rightarrow> (outbox_error, prepared_send option \<times> db) res" where
  "prepare_send E o' i now now' s =
     (case get_row om_id i (outbox s) of
        None \<Rightarrow> Inr (None, s)
      | Some m \<Rightarrow>
     (case get_row ba_id (om_bot_account_id m) (accounts s) of
        None \<Rightarrow> Inr (None, s)
      | Some account \<Rightarrow>
     (case get_row gc_id (ba_gewe_connection_id account) (connections s) of
        None \<Rightarrow> Inr (None, s)
      | Some connection \<Rightarrow>
       if om_status m \<noteq> Ob_CLAIMED then Inr (None, s)
       else if expired_message now m
       then give_up m Ob_CANCELLED now ''EXPIRED_BEFORE_SEND'' None s
       else if ba_status account = Acc_DISABLED \<or> gc_status connection = Conn_DISABLED
       then give_up m Ob_CANCELLED now ''ACCOUNT_OR_CONNECTION_DISABLED'' None s
       else if om_action_type m \<notin> set text_action_types
       then give_up m Ob_FAILED_FINAL now ''UNSUPPORTED_ACTION_TYPE'' None s
       else
         let (valid, s1) = authorization_still_valid E m now' s
         in if \<not> valid then give_up m Ob_CANCELLED now ''POLICY_CHANGED'' None s1
            else if ba_status account \<noteq> Acc_ONLINE \<or> gc_status connection \<noteq> Conn_ACTIVE
            then give_up m Ob_FAILED_RETRYABLE now ''ACCOUNT_NOT_READY''
                   (Some (now + seconds (so_offline_retry_seconds o'))) s1
            else
              (case validate_text_payload (om_payload m) of
                 None \<Rightarrow> give_up m Ob_FAILED_FINAL now ''INVALID_OUTBOX_PAYLOAD'' None s1
               | Some payload \<Rightarrow>
              (case fernet_decrypt E (gc_token_ciphertext connection) of
                 None \<Rightarrow> give_up m Ob_FAILED_FINAL now ''CREDENTIAL_UNAVAILABLE'' None s1
               | Some token \<Rightarrow>
                  bind_res (transition_outbox m Ob_SENDING now None
                              (Some (now + seconds (so_lease_seconds o')))) (\<lambda>m1.
                    let m2 = m1\<lparr>om_attempt_count := om_attempt_count m1 + 1,
                                om_last_attempt_started_at := Some now,
                                om_last_attempt_finished_at := None\<rparr>;
                        ats = join '','' (tp_at_wxids payload);
                        request = \<lparr>pt_app_id = ba_app_id account, pt_to_wxid = om_target_wxid m,
                                   pt_content = tp_text payload,
                                   pt_ats = (if ats = [] then None else Some ats)\<rparr>
                    in Inr (Some \<lparr>pp_message_id = om_id m, pp_bot_account_id = om_bot_account_id m,
                                  pp_base_url = gc_api_base_url connection, pp_token = token,
                                  pp_request = request\<rparr>, put_message m2 s1)))))))"

section \<open>Recording the outcome\<close>

datatype disposition = RETRYABLE | FINAL | DISP_UNKNOWN

definition finish_sent :: "uuid \<Rightarrow> sent_text \<Rightarrow> instant \<Rightarrow> db \<Rightarrow> (outbox_error, db) res" where
  "finish_sent i result now s =
     (case get_row om_id i (outbox s) of
        None \<Rightarrow> Inr s
      | Some m \<Rightarrow>
          if om_status m \<noteq> Ob_SENDING then Inr s
          else bind_res (transition_outbox m Ob_SENT now None None) (\<lambda>m1.
            Inr (put_message (m1\<lparr>om_last_attempt_finished_at := Some now,
              om_provider_message_id := Some (st_msg_id result),
              om_provider_new_message_id := Some (st_new_msg_id result),
              om_provider_create_time := Some (st_create_time result),
              om_provider_message_type := Some (st_message_type result)\<rparr>) s)))"

definition finish_unknown :: "uuid \<Rightarrow> string \<Rightarrow> instant \<Rightarrow> db \<Rightarrow> (outbox_error, db) res" where
  "finish_unknown i code now s =
     (case get_row om_id i (outbox s) of
        None \<Rightarrow> Inr s
      | Some m \<Rightarrow>
          if om_status m \<noteq> Ob_SENDING then Inr s
          else bind_res (transition_outbox (m\<lparr>om_last_attempt_finished_at := Some now\<rparr>)
                  Ob_UNKNOWN now (Some code) None) (\<lambda>m1. Inr (put_message m1 s)))"

definition backoff_delay :: "sender_options \<Rightarrow> int \<Rightarrow> rat \<Rightarrow> rat" where
  "backoff_delay o' attempt_count r =
     (let base_delay = min (so_backoff_max_seconds o')
            (so_backoff_base_seconds o' * 2 ^ nat (max (attempt_count - 1) 0));
          jitter = uniform (- so_retry_jitter_ratio o') (so_retry_jitter_ratio o') r
      in max 0 (base_delay * (1 + jitter)))"

definition finish_failure ::
    "sender_options \<Rightarrow> uuid \<Rightarrow> disposition \<Rightarrow> string \<Rightarrow> instant \<Rightarrow> rat \<Rightarrow> db
     \<Rightarrow> (outbox_error, db) res" where
  "finish_failure o' i disposition code now r s =
     (if disposition = DISP_UNKNOWN then finish_unknown i code now s
      else case get_row om_id i (outbox s) of
        None \<Rightarrow> Inr s
      | Some m \<Rightarrow>
          if om_status m \<noteq> Ob_SENDING then Inr s
          else let m1 = m\<lparr>om_last_attempt_finished_at := Some now\<rparr> in
            if disposition = RETRYABLE \<and> om_attempt_count m1 < so_max_attempts o'
            then bind_res (transition_outbox m1 Ob_FAILED_RETRYABLE now (Some code)
                    (Some (now + seconds (backoff_delay o' (om_attempt_count m1) r))))
                  (\<lambda>m2. Inr (put_message m2 s))
            else bind_res (transition_outbox m1 Ob_FAILED_FINAL now
                    (Some (if disposition = RETRYABLE then ''RETRY_EXHAUSTED'' else code)) None)
                  (\<lambda>m2. Inr (put_message m2 s)))"

fun classify_gewe_error :: "gewe_error \<Rightarrow> disposition \<times> string" where
  "classify_gewe_error GeWeProtocolError = (DISP_UNKNOWN, ''GEWE_RESPONSE_UNKNOWN'')"
| "classify_gewe_error (GeWeTransportError _ cause) =
     (if cause \<in> {ConnectError, ConnectTimeout, PoolTimeout}
      then (RETRYABLE, ''GEWE_CONNECT_FAILED'')
      else (DISP_UNKNOWN, ''GEWE_TRANSPORT_UNKNOWN''))"
| "classify_gewe_error (GeWeHTTPError code rt) =
     (if rt then RETRYABLE else FINAL, ''GEWE_HTTP_'' @ int_str code)"
| "classify_gewe_error (GeWeAPIError code rt) =
     (if rt then RETRYABLE else FINAL, ''GEWE_API_'' @ int_str code)"

section \<open>One message of one account\<close>

text \<open>
  How the call of the provider ends: with a result, with an error of the client, with another
  exception, or because the task is cancelled.
\<close>

datatype send_result =
    SendReturned sent_text
  | SendRaised gewe_error
  | SendCrashed
  | SendCancelled

definition finish_send ::
    "sender_options \<Rightarrow> uuid \<Rightarrow> send_result \<Rightarrow> instant \<Rightarrow> rat \<Rightarrow> db \<Rightarrow> (outbox_error, db) res" where
  "finish_send o' i result now r s =
     (case result of
        SendReturned d \<Rightarrow> finish_sent i d now s
      | SendRaised e \<Rightarrow> (case classify_gewe_error e of (disp, code) \<Rightarrow> finish_failure o' i disp code now r s)
      | SendCrashed \<Rightarrow> finish_unknown i ''UNEXPECTED_SEND_ERROR'' now s
      | SendCancelled \<Rightarrow> finish_unknown i ''WORKER_CANCELLED_DURING_SEND'' now s)"

text \<open>The readings of the clock, the locks, the random numbers and the provider during one pass.\<close>

record sender_world =
  sw_locked :: "uuid \<Rightarrow> bool"
  sw_claim_at :: instant
  sw_rate_at :: instant
  sw_extend_at :: instant
  sw_prepare_at :: instant
  sw_policy_at :: instant
  sw_finish_at :: instant
  sw_group_random :: rat
  sw_backoff_random :: rat
  sw_send :: "prepared_send \<Rightarrow> send_result"

datatype process_result = NothingClaimed | Processed | ProcessCancelled

definition process_account ::
    "env \<Rightarrow> sender_options \<Rightarrow> sender_world \<Rightarrow> uuid \<Rightarrow> db
     \<Rightarrow> (outbox_error, process_result \<times> db) res" where
  "process_account E o' w acct s =
     bind_res (claim_next o' (sw_locked w) (sw_claim_at w) acct s) (\<lambda>(claimed, s1).
       case claimed of
         None \<Rightarrow> Inr (NothingClaimed, s1)
       | Some c \<Rightarrow>
           (let s2 = snd (respect_rate_limit o' c (sw_rate_at w) (sw_group_random w) (sw_extend_at w) s1)
            in bind_res (prepare_send E o' (cl_id c) (sw_prepare_at w) (sw_policy_at w) s2)
                 (\<lambda>(prepared, s3).
                    case prepared of
                      None \<Rightarrow> Inr (Processed, s3)
                    | Some p \<Rightarrow>
                        (let result = sw_send w p
                         in bind_res (finish_send o' (pp_message_id p) result (sw_finish_at w)
                                        (sw_backoff_random w) s3)
                              (\<lambda>s4. Inr (if result = SendCancelled then ProcessCancelled else Processed, s4))))))"

fun process_accounts ::
    "env \<Rightarrow> sender_options \<Rightarrow> (uuid \<Rightarrow> sender_world) \<Rightarrow> uuid list \<Rightarrow> db
     \<Rightarrow> (outbox_error, nat \<times> db) res" where
  "process_accounts E o' W [] s = Inr (0, s)"
| "process_accounts E o' W (a # as) s =
     bind_res (process_account E o' (W a) a s) (\<lambda>(r, s1).
     bind_res (process_accounts E o' W as s1) (\<lambda>(n, s2).
       Inr (if r = Processed then Suc n else n, s2)))"

text \<open>
  \<open>run_once\<close>, with the accounts processed one after the other; the relation of
  transactions below covers their interleaving.
\<close>

definition run_once ::
    "env \<Rightarrow> sender_options \<Rightarrow> (uuid \<Rightarrow> bool) \<Rightarrow> instant \<Rightarrow> instant \<Rightarrow> (uuid \<Rightarrow> sender_world) \<Rightarrow> db
     \<Rightarrow> (outbox_error, nat \<times> db) res" where
  "run_once E o' locked recover_at due_at W s =
     bind_res (recover_expired_leases locked recover_at s) (\<lambda>s1.
       process_accounts E o' W (due_account_ids o' due_at s1) s1)"

section \<open>What a transaction may do to the outbox\<close>

text \<open>
  The specification of the outbox: one transaction changes messages one at a time, or adds new
  ones.  A change keeps the immutable fields, follows the transition table, claims only when
  the account has nothing in flight, counts exactly the sends, and returns a sent message to the
  queue only below the limit of attempts.
\<close>

definition same_action :: "outbox_message \<Rightarrow> outbox_message \<Rightarrow> bool" where
  "same_action m m' \<longleftrightarrow>
     om_id m' = om_id m \<and> om_bot_account_id m' = om_bot_account_id m \<and>
     om_trace_id m' = om_trace_id m \<and> om_idempotency_key m' = om_idempotency_key m \<and>
     om_action_type m' = om_action_type m \<and> om_target_wxid m' = om_target_wxid m \<and>
     om_payload m' = om_payload m \<and> om_authorization_context m' = om_authorization_context m \<and>
     om_payload_sha256 m' = om_payload_sha256 m \<and> om_priority m' = om_priority m \<and>
     om_expires_at m' = om_expires_at m \<and> om_created_at m' = om_created_at m"

definition idle :: "uuid \<Rightarrow> outbox_message list \<Rightarrow> bool" where
  "idle acct t \<longleftrightarrow> (\<forall>x\<in>set t. om_bot_account_id x = acct \<longrightarrow> \<not> in_flight (om_status x))"

definition message_change ::
    "int \<Rightarrow> outbox_message list \<Rightarrow> outbox_message \<Rightarrow> outbox_message \<Rightarrow> bool" where
  "message_change limit t m m' \<longleftrightarrow> same_action m m' \<and>
     ((om_status m = Ob_CLAIMED \<and> om_status m' = Ob_CLAIMED \<and> om_attempt_count m' = om_attempt_count m)
      \<or> (om_status m' \<in> set (allowed_transitions (om_status m)) \<and>
         (om_status m' = Ob_CLAIMED \<longrightarrow> idle (om_bot_account_id m) t) \<and>
         om_attempt_count m' = om_attempt_count m + (if om_status m' = Ob_SENDING then 1 else 0) \<and>
         (om_status m = Ob_SENDING \<longrightarrow> om_status m' = Ob_FAILED_RETRYABLE \<longrightarrow>
            om_attempt_count m < limit)))"

inductive outbox_change :: "int \<Rightarrow> outbox_message list \<Rightarrow> outbox_message list \<Rightarrow> bool"
  for limit :: int where
  none: "outbox_change limit t t"
| change: "outbox_change limit t u \<Longrightarrow> get_row om_id (om_id m) u = Some m \<Longrightarrow>
     message_change limit u m m' \<Longrightarrow> outbox_change limit t (put_row om_id m' u)"
| add: "outbox_change limit t u \<Longrightarrow>
     \<forall>x\<in>set u. om_id x \<noteq> om_id m \<and> om_idempotency_key x \<noteq> om_idempotency_key m \<Longrightarrow>
     om_status m = Ob_PENDING \<Longrightarrow> om_attempt_count m = 0 \<Longrightarrow> outbox_change limit t (u @ [m])"

lemma outbox_change_trans:
  "outbox_change limit u v \<Longrightarrow> outbox_change limit t u \<Longrightarrow> outbox_change limit t v"
  by (induction rule: outbox_change.induct) (auto intro: outbox_change.intros)

lemma outbox_change_one:
  "get_row om_id (om_id m) t = Some m \<Longrightarrow> message_change limit t m m' \<Longrightarrow>
   outbox_change limit t (put_row om_id m' t)"
  using outbox_change.change[OF outbox_change.none] .

text \<open>The invariant of the table.\<close>

definition attempts_ok :: "int \<Rightarrow> outbox_message \<Rightarrow> bool" where
  "attempts_ok limit m \<longleftrightarrow> 0 \<le> om_attempt_count m \<and> om_attempt_count m \<le> limit \<and>
     (waiting (om_status m) \<or> om_status m = Ob_CLAIMED \<longrightarrow> om_attempt_count m < limit) \<and>
     (om_status m = Ob_SENDING \<longrightarrow> 1 \<le> om_attempt_count m)"

definition one_in_flight :: "outbox_message list \<Rightarrow> bool" where
  "one_in_flight t \<longleftrightarrow> (\<forall>x\<in>set t. \<forall>y\<in>set t. in_flight (om_status x) \<longrightarrow> in_flight (om_status y) \<longrightarrow>
     om_bot_account_id x = om_bot_account_id y \<longrightarrow> om_id x = om_id y)"

definition outbox_inv :: "int \<Rightarrow> outbox_message list \<Rightarrow> bool" where
  "outbox_inv limit t \<longleftrightarrow> unique_by om_id t \<and> unique_by om_idempotency_key t \<and>
     one_in_flight t \<and> (\<forall>m\<in>set t. attempts_ok limit m)"

lemma one_in_flight_put:
  assumes one: "one_in_flight t" and m: "get_row om_id (om_id m) t = Some m"
    and ch: "message_change limit t m m'"
  shows "one_in_flight (put_row om_id m' t)"
proof -
  have ids: "om_id m' = om_id m" "om_bot_account_id m' = om_bot_account_id m"
    using ch by (auto simp: message_change_def same_action_def)
  have mem: "m \<in> set t" using m by (auto dest: get_row_Some_mem)
  have key: "om_id x = om_id m"
    if x: "x \<in> set t" "in_flight (om_status x)" "om_bot_account_id x = om_bot_account_id m"
      "in_flight (om_status m')" for x
  proof (cases "in_flight (om_status m)")
    case True
    then show ?thesis using one x mem unfolding one_in_flight_def by blast
  next
    case False
    then have "om_status m' = Ob_CLAIMED"
      using ch x(4) by (cases "om_status m") (auto simp: message_change_def in_flight_def)
    then have "idle (om_bot_account_id m) t" using ch False
      by (auto simp: message_change_def in_flight_def)
    then show ?thesis using x by (auto simp: idle_def)
  qed
  show ?thesis unfolding one_in_flight_def
  proof (intro ballI impI)
    fix x y assume x: "x \<in> set (put_row om_id m' t)" and y: "y \<in> set (put_row om_id m' t)"
      and f: "in_flight (om_status x)" "in_flight (om_status y)"
        "om_bot_account_id x = om_bot_account_id y"
    from set_put_row[OF x] set_put_row[OF y] show "om_id x = om_id y"
      using f key[of x] key[of y] one ids unfolding one_in_flight_def by metis
  qed
qed

lemma one_in_flight_snoc:
  assumes "one_in_flight t" "\<not> in_flight (om_status m)"
  shows "one_in_flight (t @ [m])"
  unfolding one_in_flight_def
proof (intro ballI impI)
  fix x y
  assume "x \<in> set (t @ [m])" "y \<in> set (t @ [m])" and f: "in_flight (om_status x)" "in_flight (om_status y)"
  then have "x \<in> set t" "y \<in> set t" using assms(2) by force+
  then show "om_bot_account_id x = om_bot_account_id y \<Longrightarrow> om_id x = om_id y"
    using assms(1) f unfolding one_in_flight_def by blast
qed

lemma attempts_ok_change:
  "attempts_ok limit m \<Longrightarrow> message_change limit t m m' \<Longrightarrow> attempts_ok limit m'"
  by (cases "om_status m"; cases "om_status m'")
    (simp_all add: attempts_ok_def message_change_def waiting_def)

lemma outbox_change_inv:
  assumes "outbox_change limit t u" "outbox_inv limit t" "0 < limit"
  shows "outbox_inv limit u"
  using assms
proof (induction rule: outbox_change.induct)
  case (change t u m m')
  then have inv: "outbox_inv limit u" by simp
  have mem: "m \<in> set u" using change.hyps(2) by (auto dest: get_row_Some_mem)
  have same: "same_action m m'" using change.hyps(3) by (simp add: message_change_def)
  have "unique_by om_idempotency_key (put_row om_id m' u)"
  proof -
    have "map om_idempotency_key (put_row om_id m' u) = map om_idempotency_key u"
    proof (rule put_row_map_cong)
      fix r assume "r \<in> set u" "om_id r = om_id m'"
      then have "r = m" using inv change.hyps(2) same get_row_unique[of om_id u r]
        by (auto simp: outbox_inv_def same_action_def)
      then show "om_idempotency_key r = om_idempotency_key m'" using same by (simp add: same_action_def)
    qed
    then show ?thesis using inv by (simp add: outbox_inv_def unique_by_def)
  qed
  moreover have "attempts_ok limit m'"
    using attempts_ok_change[OF _ change.hyps(3)] inv mem by (auto simp: outbox_inv_def)
  ultimately show ?case
    using inv one_in_flight_put[OF _ change.hyps(2,3)]
      outbox_rows.put_preserves_all[of u "attempts_ok limit" m']
    by (simp add: outbox_inv_def)
next
  case (add t u m)
  then have inv: "outbox_inv limit u" by simp
  have "one_in_flight (u @ [m])"
    by (rule one_in_flight_snoc) (use inv add.hyps(3) in \<open>simp_all add: outbox_inv_def in_flight_def\<close>)
  moreover have "attempts_ok limit m"
    using add.hyps(3,4) add.prems(2) by (simp add: attempts_ok_def)
  moreover have "unique_by om_id (u @ [m])" "unique_by om_idempotency_key (u @ [m])"
    using inv add.hyps(2) unique_by_new[of om_id u m] unique_by_new[of om_idempotency_key u m]
    by (simp_all add: outbox_inv_def)
  ultimately show ?case using inv by (auto simp: outbox_inv_def)
qed simp

text \<open>Terminal messages, and messages whose outcome is unknown.\<close>

lemma outbox_change_terminal:
  assumes "outbox_change limit t u" "get_row om_id i t = Some m"
    "allowed_transitions (om_status m) = []"
  shows "get_row om_id i u = Some m"
  using assms
proof (induction rule: outbox_change.induct)
  case (change t u m1 m')
  have id: "om_id m' = om_id m1" using change.hyps(3) by (simp add: message_change_def same_action_def)
  have "i \<noteq> om_id m1"
  proof
    assume "i = om_id m1"
    then have "m1 = m" using change by simp
    then show False using change.hyps(3) change.prems(2) by (auto simp: message_change_def)
  qed
  then show ?case using change id by (simp add: get_put_other)
qed (auto simp: get_row_append split: option.split)

lemma outbox_change_unknown:
  assumes "outbox_change limit t u" "get_row om_id i t = Some m"
    "om_status m \<in> {Ob_UNKNOWN, Ob_SENT, Ob_FAILED_FINAL}"
  shows "\<exists>m'. get_row om_id i u = Some m' \<and> om_status m' \<in> {Ob_UNKNOWN, Ob_SENT, Ob_FAILED_FINAL} \<and>
     om_attempt_count m' = om_attempt_count m"
  using assms
proof (induction rule: outbox_change.induct)
  case (change t u m1 m')
  then obtain m2 where m2: "get_row om_id i u = Some m2"
    "om_status m2 \<in> {Ob_UNKNOWN, Ob_SENT, Ob_FAILED_FINAL}" "om_attempt_count m2 = om_attempt_count m"
    by blast
  have id: "om_id m' = om_id m1" using change.hyps(3) by (simp add: message_change_def same_action_def)
  show ?case
  proof (cases "i = om_id m1")
    case True
    then have "m2 = m1" using m2(1) change.hyps(2) by simp
    then have "om_status m' \<in> {Ob_UNKNOWN, Ob_SENT, Ob_FAILED_FINAL}"
      "om_attempt_count m' = om_attempt_count m"
      using change.hyps(3) m2(2,3) by (auto simp: message_change_def)
    moreover have "get_row om_id i (put_row om_id m' u) = Some m'"
      using get_put_same[of om_id m' u] change.hyps(2) id True by simp
    ultimately show ?thesis by blast
  next
    case False
    then show ?thesis using m2 id by (simp add: get_put_other)
  qed
qed (auto simp: get_row_append split: option.split)

section \<open>Every transaction keeps to the specification\<close>

lemma transition_change:
  assumes "transition_outbox m t now code avail = Inr m'" "t \<noteq> Ob_SENDING"
    and "t = Ob_CLAIMED \<Longrightarrow> idle (om_bot_account_id m) u"
    and "om_status m = Ob_SENDING \<Longrightarrow> t = Ob_FAILED_RETRYABLE \<Longrightarrow> om_attempt_count m < limit"
  shows "message_change limit u m m'"
  using assms by (simp add: transition_outbox_Inr message_change_def same_action_def)

lemma same_row: "get_row om_id i t = Some m \<Longrightarrow> get_row om_id (om_id m) t = Some m"
  by (metis get_row_Some_mem)

lemma put_change:
  assumes "get_row om_id i (outbox s) = Some m" "message_change limit (outbox s) m m'"
  shows "outbox_change limit (outbox s) (outbox (put_message m' s))"
  using outbox_change_one[OF same_row[OF assms(1)] assms(2)] by simp

text \<open>The transactions of the outbox service.\<close>

lemma enqueue_text_change:
  assumes "enqueue_text E a now [] s = Inr (m, s')"
  shows "outbox_change limit (outbox s) (outbox s')"
  using assms
proof (cases rule: enqueue_text_cases)
  case (inserted t)
  have "outbox_change limit (outbox s) (outbox s @ [m])"
    by (rule outbox_change.add[OF outbox_change.none]) (use inserted in auto)
  then show ?thesis using inserted(5) by simp
qed (auto intro: outbox_change.none)

lemma cancel_message_change:
  assumes "cancel_message i actor reason now s = Inr (m', s')"
  shows "outbox_change limit (outbox s) (outbox s')"
proof -
  from assms obtain m ws where m: "get_row om_id i (outbox s) = Some m"
    "om_status m \<in> {Ob_PENDING, Ob_CLAIMED, Ob_FAILED_RETRYABLE}"
    "m' = m\<lparr>om_status := Ob_CANCELLED, om_last_error_code := Some ''MANUAL_CANCELLED'', om_updated_at := now\<rparr>"
    "s' = record_manual_change m' ws actor ''outbox.cancel'' (om_status m) (strip reason) (put_message m' s)"
    unfolding cancel_message_iff by blast
  have "message_change limit (outbox s) m m'"
    using m(2) unfolding m(3) by (auto simp: message_change_def same_action_def)
  from put_change[OF m(1) this] show ?thesis unfolding m(4) by simp
qed

lemma reconcile_unknown_change:
  assumes "reconcile_unknown i actor resolution reason now s = Inr (m', s')"
  shows "outbox_change limit (outbox s) (outbox s')"
proof -
  from assms obtain m ws code where m: "get_row om_id i (outbox s) = Some m"
    "om_status m = Ob_UNKNOWN" "resolution \<in> {Ob_SENT, Ob_FAILED_FINAL}"
    "m' = m\<lparr>om_status := resolution, om_last_error_code := code, om_updated_at := now\<rparr>"
    "s' = record_manual_change m' ws actor ''outbox.reconcile'' Ob_UNKNOWN (strip reason) (put_message m' s)"
    unfolding reconcile_unknown_iff by blast
  have "message_change limit (outbox s) m m'"
    using m(2,3) unfolding m(4) by (auto simp: message_change_def same_action_def)
  from put_change[OF m(1) this] show ?thesis unfolding m(5) by simp
qed

text \<open>The transactions of the sender.\<close>

lemma recover_messages_change:
  assumes "recover_messages now ms s = Inr s'" "distinct (map om_id ms)"
    and "\<forall>m\<in>set ms. get_row om_id (om_id m) (outbox s) = Some m \<and> in_flight (om_status m)"
  shows "outbox_change limit (outbox s) (outbox s')"
  using assms
proof (induction ms arbitrary: s)
  case (Cons m ms)
  obtain m' where m': "message_change limit (outbox s) m m'"
    and r: "recover_messages now ms (put_message m' s) = Inr s'"
  proof (cases "om_status m = Ob_CLAIMED")
    case True
    then obtain m' where t: "transition_outbox m Ob_PENDING now (Some ''CLAIM_LEASE_RECOVERED'') (Some now) = Inr m'"
      and r: "recover_messages now ms (put_message m' s) = Inr s'"
      using Cons.prems(1) by (auto simp: bind_res_Inr_iff)
    show ?thesis by (rule that[OF transition_change[OF t] r]) simp_all
  next
    case False
    then obtain m' where t: "transition_outbox m Ob_UNKNOWN now (Some ''SENDING_LEASE_EXPIRED'') None = Inr m'"
      and r: "recover_messages now ms (put_message m' s) = Inr s'"
      using Cons.prems(1) by (auto simp: bind_res_Inr_iff)
    show ?thesis by (rule that[OF transition_change[OF t] r]) simp_all
  qed
  have g: "get_row om_id (om_id m) (outbox s) = Some m" using Cons.prems(3) by simp
  have id: "om_id m' = om_id m" using m' by (simp add: message_change_def same_action_def)
  have "\<forall>x\<in>set ms. get_row om_id (om_id x) (outbox (put_message m' s)) = Some x \<and> in_flight (om_status x)"
  proof
    fix x assume x: "x \<in> set ms"
    then have "om_id x \<noteq> om_id m'" 
      using Cons.prems(2) id imageI[OF x, of om_id] by (metis distinct.simps(2) list.simps(9) list.set_map)
    then show "get_row om_id (om_id x) (outbox (put_message m' s)) = Some x \<and> in_flight (om_status x)"
      using Cons.prems(3) x by (simp add: get_put_other)
  qed
  from Cons.IH[OF r _ this] Cons.prems(2)
  have "outbox_change limit (outbox (put_message m' s)) (outbox s')" by simp
  then show ?case using put_change[OF g m'] outbox_change_trans by blast
qed (auto intro: outbox_change.none)

lemma recover_expired_leases_change:
  assumes "recover_expired_leases locked now s = Inr s'" "unique_by om_id (outbox s)"
  shows "outbox_change limit (outbox s) (outbox s')"
proof (rule recover_messages_change[OF assms(1)[unfolded recover_expired_leases_def]])
  show "distinct (map om_id (expired_leases locked now s))"
    unfolding expired_leases_def take_map[symmetric]
    by (intro distinct_take distinct_map_filter) (rule assms(2)[unfolded unique_by_def])
  show "\<forall>m\<in>set (expired_leases locked now s).
      get_row om_id (om_id m) (outbox s) = Some m \<and> in_flight (om_status m)"
    using assms(2) by (auto simp: expired_leases_def dest!: in_set_takeD intro: get_row_unique)
qed

lemma claim_loop_change:
  assumes "claim_loop o' locked now acct s = Inr (c, s')" "unique_by om_id (outbox s)"
    "idle acct (outbox s)"
  shows "outbox_change limit (outbox s) (outbox s')"
  using assms
proof (induction o' locked now acct s rule: claim_loop.induct)
  case (1 o' locked now acct s)
  show ?case
  proof (cases "next_due locked now acct s")
    case None
    then show ?thesis using "1.prems"(1) by (simp add: claim_loop.simps outbox_change.none)
  next
    case (Some m)
    have mem: "m \<in> set (outbox s)" and acct: "om_bot_account_id m = acct"
      using next_due_Some(1)[OF Some] by (auto simp: claimable_def)
    have g: "get_row om_id (om_id m) (outbox s) = Some m"
      by (rule get_row_unique[OF "1.prems"(2) mem refl])
    show ?thesis
    proof (cases "expired_message now m")
      case True
      then obtain m' where t: "transition_outbox m Ob_CANCELLED now (Some ''EXPIRED_BEFORE_SEND'') None = Inr m'"
        and r: "claim_loop o' locked now acct (put_message m' s) = Inr (c, s')"
        using "1.prems"(1) Some by (auto simp: claim_loop.simps[of o' locked now acct s] split: sum.split_asm)
      have ch: "message_change limit (outbox s) m m'" by (rule transition_change[OF t]) simp_all
      have "idle acct (outbox (put_message m' s))"
      proof -
        have "om_status m' = Ob_CANCELLED" using t by (simp add: transition_outbox_Inr)
        then show ?thesis unfolding idle_def put_message_frame using "1.prems"(3)
          by (intro outbox_rows.put_preserves_all) (simp_all add: idle_def in_flight_def)
      qed
      moreover have "unique_by om_id (outbox (put_message m' s))" using "1.prems"(2) by simp
      ultimately have "outbox_change limit (outbox (put_message m' s)) (outbox s')"
        using "1.IH"[OF Some True t r] by blast
      then show ?thesis using put_change[OF g ch] outbox_change_trans by blast
    next
      case False
      then obtain m' where t: "transition_outbox m Ob_CLAIMED now None
           (Some (now + seconds (so_lease_seconds o'))) = Inr m'" and r: "s' = put_message m' s"
        using "1.prems"(1) Some by (auto simp: claim_loop.simps[of o' locked now acct s] split: sum.split_asm)
      have "message_change limit (outbox s) m m'"
        by (rule transition_change[OF t]) (use "1.prems"(3) acct in simp_all)
      from put_change[OF g this] show ?thesis unfolding r .
    qed
  qed
qed

lemma claim_next_change:
  assumes "claim_next o' locked now acct s = Inr (c, s')" "unique_by om_id (outbox s)"
  shows "outbox_change limit (outbox s) (outbox s')"
proof (cases "claim_loop o' locked now acct s = Inr (c, s') \<and> idle acct (outbox s)")
  case True
  then show ?thesis using claim_loop_change assms(2) by blast
next
  case False
  then have "s' = s" using assms(1)
    by (auto simp: claim_next_def filter_empty_conv idle_def split: if_splits)
  then show ?thesis by (simp add: outbox_change.none)
qed

lemma extend_claim_lease_change:
  "outbox_change limit (outbox s) (outbox (extend_claim_lease o' i delay now s))"
proof (cases "get_row om_id i (outbox s)")
  case (Some m)
  show ?thesis
  proof (cases "om_status m = Ob_CLAIMED")
    case True
    let ?m' = "m\<lparr>om_available_at := now + seconds (max (so_lease_seconds o') (delay + so_lease_seconds o')),
      om_updated_at := now\<rparr>"
    have "message_change limit (outbox s) m ?m'" using True by (simp add: message_change_def same_action_def)
    from put_change[OF Some this] show ?thesis using Some True by (simp add: extend_claim_lease_def)
  qed (use Some in \<open>simp add: extend_claim_lease_def outbox_change.none\<close>)
qed (simp add: extend_claim_lease_def outbox_change.none)

lemma respect_rate_limit_change:
  "outbox_change limit (outbox s) (outbox (snd (respect_rate_limit o' c now r now' s)))"
  by (simp add: respect_rate_limit_def Let_def outbox_change.none extend_claim_lease_change)

subsection \<open>The authorisation check and the preparation of a send\<close>

text \<open>
  The specification of the check: a message without a context was sent by an administrator;
  any other needs a running deployment with the grant, a target that is the conversation of its
  context, and a request that the rules in force grant now.
\<close>

definition send_authorized :: "env \<Rightarrow> db \<Rightarrow> instant \<Rightarrow> outbox_message \<Rightarrow> bool" where
  "send_authorized E s now m \<longleftrightarrow>
     (\<forall>raw. om_authorization_context m = Some raw \<longrightarrow>
        (\<exists>c. validate_auth_context E raw = Some c \<and> target_matches_authorization s m c \<and>
             deployment_grants s m c \<and> acl_grants s now (authorization_request m c)))"

lemma authorization_still_valid_spec:
  "fst (authorization_still_valid E m now s) \<longleftrightarrow> send_authorized E s now m"
proof (cases "om_authorization_context m")
  case (Some raw)
  show ?thesis
  proof (cases "validate_auth_context E raw")
    case (Some c)
    show ?thesis
    proof (cases "evaluate (authorization_request m c) now s")
      case (Inl e)
      then show ?thesis using Some \<open>om_authorization_context m = Some raw\<close> acl.refusal[OF Inl]
        by (simp add: authorization_still_valid_def send_authorized_def)
    next
      case (Inr r)
      obtain d s' where r: "r = (d, s')" by (cases r)
      show ?thesis using Some \<open>om_authorization_context m = Some raw\<close> Inr acl.answer[OF Inr[unfolded r]]
        by (simp add: authorization_still_valid_def send_authorized_def r)
    qed
  qed (use Some in \<open>simp add: authorization_still_valid_def send_authorized_def\<close>)
qed (simp add: authorization_still_valid_def send_authorized_def)

lemma authorization_still_valid_frame:
  "\<exists>ds. snd (authorization_still_valid E m now s) = s\<lparr>decisions := ds\<rparr>"
proof -
  have same: "\<exists>ds. s = s\<lparr>decisions := ds\<rparr>" by (rule exI[of _ "decisions s"]) simp
  show ?thesis
    using acl.frame same
    by (auto simp: authorization_still_valid_def split: option.split sum.split)
qed

lemma transition_ok:
  assumes "t \<in> set (allowed_transitions (om_status m))" "\<And>c. code = Some c \<Longrightarrow> length c \<le> 100"
  obtains m' where "transition_outbox m t now code avail = Inr m'"
  using assms transition_outbox_Inr[of m t now code avail] by blast

definition marked_sending :: "sender_options \<Rightarrow> instant \<Rightarrow> outbox_message \<Rightarrow> outbox_message" where
  "marked_sending o' now m =
     m\<lparr>om_status := Ob_SENDING, om_last_error_code := None, om_updated_at := now,
       om_available_at := now + seconds (so_lease_seconds o'),
       om_attempt_count := om_attempt_count m + 1, om_last_attempt_started_at := Some now,
       om_last_attempt_finished_at := None\<rparr>"

definition text_request :: "bot_account \<Rightarrow> outbox_message \<Rightarrow> text_payload \<Rightarrow> post_text_request" where
  "text_request a m p =
     \<lparr>pt_app_id = ba_app_id a, pt_to_wxid = om_target_wxid m, pt_content = tp_text p,
      pt_ats = (if join '','' (tp_at_wxids p) = [] then None else Some (join '','' (tp_at_wxids p)))\<rparr>"

definition send_ready ::
    "env \<Rightarrow> db \<Rightarrow> instant \<Rightarrow> instant \<Rightarrow> outbox_message \<Rightarrow> prepared_send \<Rightarrow> bool" where
  "send_ready E s now now' m p \<longleftrightarrow> om_status m = Ob_CLAIMED \<and> \<not> expired_message now m \<and>
     om_action_type m \<in> set text_action_types \<and> send_authorized E s now' m \<and>
     (\<exists>a c payload token.
        get_row ba_id (om_bot_account_id m) (accounts s) = Some a \<and> ba_status a = Acc_ONLINE \<and>
        get_row gc_id (ba_gewe_connection_id a) (connections s) = Some c \<and> gc_status c = Conn_ACTIVE \<and>
        validate_text_payload (om_payload m) = Some payload \<and>
        fernet_decrypt E (gc_token_ciphertext c) = Some token \<and>
        p = \<lparr>pp_message_id = om_id m, pp_bot_account_id = om_bot_account_id m,
             pp_base_url = gc_api_base_url c, pp_token = token, pp_request = text_request a m payload\<rparr>)"

text \<open>
  The ways \<open>prepare_send\<close> can end: nothing to do, the message given up for one of the
  listed reasons, or marked as being sent.
\<close>

definition refusal_codes :: "string list" where
  "refusal_codes = [''EXPIRED_BEFORE_SEND'', ''ACCOUNT_OR_CONNECTION_DISABLED'',
     ''UNSUPPORTED_ACTION_TYPE'', ''POLICY_CHANGED'', ''ACCOUNT_NOT_READY'',
     ''INVALID_OUTBOX_PAYLOAD'', ''CREDENTIAL_UNAVAILABLE'']"

definition refused_send ::
    "db \<Rightarrow> outbox_message \<Rightarrow> (outbox_error, prepared_send option \<times> db) res \<Rightarrow> bool" where
  "refused_send s m r \<longleftrightarrow>
     (\<exists>m' ds code. r = Inr (None, put_message m' (s\<lparr>decisions := ds\<rparr>)) \<and>
        (\<forall>limit. message_change limit (outbox s) m m') \<and>
        om_status m' \<in> {Ob_CANCELLED, Ob_FAILED_FINAL, Ob_FAILED_RETRYABLE} \<and>
        om_last_error_code m' = Some code \<and> code \<in> set refusal_codes)"

lemma give_up_refused:
  assumes cl: "om_status m = Ob_CLAIMED"
    and ok: "target \<in> {Ob_CANCELLED, Ob_FAILED_FINAL, Ob_FAILED_RETRYABLE}" "code \<in> set refusal_codes"
  shows "refused_send s m (give_up m target now code avail (s\<lparr>decisions := ds\<rparr>))"
proof -
  have "length code \<le> 100" using ok(2) by (auto simp: refusal_codes_def)
  moreover have "target \<in> set (allowed_transitions (om_status m))" using ok(1) cl by auto
  ultimately obtain m' where t: "transition_outbox m target now (Some code) avail = Inr m'"
    by (auto simp: transition_outbox_Inr)
  have "message_change limit (outbox s) m m'" for limit
    by (rule transition_change[OF t]) (use ok(1) cl in auto)
  moreover have "om_status m' = target" "om_last_error_code m' = Some code"
    using t by (simp_all add: transition_outbox_Inr)
  moreover have "give_up m target now code avail (s\<lparr>decisions := ds\<rparr>) =
      Inr (None, put_message m' (s\<lparr>decisions := ds\<rparr>))"
    by (simp add: give_up_def t bind_res_def)
  ultimately show ?thesis using ok unfolding refused_send_def by blast
qed

lemma give_up_refused_same:
  "om_status m = Ob_CLAIMED \<Longrightarrow> target \<in> {Ob_CANCELLED, Ob_FAILED_FINAL, Ob_FAILED_RETRYABLE} \<Longrightarrow>
   code \<in> set refusal_codes \<Longrightarrow> refused_send s m (give_up m target now code avail s)"
  using give_up_refused[of m target code s now avail "decisions s"] by simp

text \<open>The part after the authorisation check.\<close>

lemma prepare_send_checked:
  assumes rows: "get_row om_id i (outbox s) = Some m"
      "get_row ba_id (om_bot_account_id m) (accounts s) = Some a"
      "get_row gc_id (ba_gewe_connection_id a) (connections s) = Some c"
    and cl: "om_status m = Ob_CLAIMED"
    and pass: "\<not> expired_message now m" "ba_status a \<noteq> Acc_DISABLED" "gc_status c \<noteq> Conn_DISABLED"
      "om_action_type m \<in> set text_action_types"
    and auth: "authorization_still_valid E m now' s = (b, s1)"
  shows "prepare_send E o' i now now' s =
     (if \<not> b then give_up m Ob_CANCELLED now ''POLICY_CHANGED'' None s1
      else if ba_status a \<noteq> Acc_ONLINE \<or> gc_status c \<noteq> Conn_ACTIVE
      then give_up m Ob_FAILED_RETRYABLE now ''ACCOUNT_NOT_READY''
             (Some (now + seconds (so_offline_retry_seconds o'))) s1
      else
        (case validate_text_payload (om_payload m) of
           None \<Rightarrow> give_up m Ob_FAILED_FINAL now ''INVALID_OUTBOX_PAYLOAD'' None s1
         | Some payload \<Rightarrow>
        (case fernet_decrypt E (gc_token_ciphertext c) of
           None \<Rightarrow> give_up m Ob_FAILED_FINAL now ''CREDENTIAL_UNAVAILABLE'' None s1
         | Some token \<Rightarrow>
             Inr (Some \<lparr>pp_message_id = om_id m, pp_bot_account_id = om_bot_account_id m,
                  pp_base_url = gc_api_base_url c, pp_token = token,
                  pp_request = text_request a m payload\<rparr>,
                put_message (marked_sending o' now m) s1))))"
  using assms
  by (simp add: prepare_send_def Let_def transition_outbox_def bind_res_def marked_sending_def
      text_request_def split: option.split)

lemma prepare_send_claimed:
  assumes rows: "get_row om_id i (outbox s) = Some m"
      "get_row ba_id (om_bot_account_id m) (accounts s) = Some a"
      "get_row gc_id (ba_gewe_connection_id a) (connections s) = Some c"
    and cl: "om_status m = Ob_CLAIMED"
  shows "((\<forall>p. \<not> send_ready E s now now' m p) \<and> refused_send s m (prepare_send E o' i now now' s)) \<or>
     (\<exists>p ds. send_ready E s now now' m p \<and> prepare_send E o' i now now' s =
        Inr (Some p, put_message (marked_sending o' now m) (s\<lparr>decisions := ds\<rparr>)))"
proof -
  note no = send_ready_def rows
  consider (expired) "expired_message now m"
    | (disabled) "\<not> expired_message now m" "ba_status a = Acc_DISABLED \<or> gc_status c = Conn_DISABLED"
    | (action) "\<not> expired_message now m" "ba_status a \<noteq> Acc_DISABLED" "gc_status c \<noteq> Conn_DISABLED"
        "om_action_type m \<notin> set text_action_types"
    | (pass) "\<not> expired_message now m" "ba_status a \<noteq> Acc_DISABLED" "gc_status c \<noteq> Conn_DISABLED"
        "om_action_type m \<in> set text_action_types" by blast
  then show ?thesis
  proof cases
    case pass
    obtain b s1 where auth: "authorization_still_valid E m now' s = (b, s1)" by fastforce
    obtain ds where ds: "s1 = s\<lparr>decisions := ds\<rparr>"
      using authorization_still_valid_frame[of E m now' s] auth by auto
    have b: "b \<longleftrightarrow> send_authorized E s now' m"
      using authorization_still_valid_spec[of E m now' s] auth by simp
    note step = prepare_send_checked[OF rows cl pass auth, of o', unfolded ds]
    show ?thesis
    proof (cases "b \<and> ba_status a = Acc_ONLINE \<and> gc_status c = Conn_ACTIVE")
      case False
      then have "\<forall>p. \<not> send_ready E s now now' m p" using b by (auto simp: no)
      moreover have "refused_send s m (prepare_send E o' i now now' s)"
        unfolding step using False by (auto intro!: give_up_refused[OF cl] simp: refusal_codes_def)
      ultimately show ?thesis by blast
    next
      case on: True
      show ?thesis
      proof (cases "validate_text_payload (om_payload m)")
        case None
        then have "refused_send s m (prepare_send E o' i now now' s)"
          unfolding step using on by (simp add: give_up_refused[OF cl] refusal_codes_def)
        then show ?thesis using None by (auto simp: no)
      next
        case payload: (Some payload)
        show ?thesis
        proof (cases "fernet_decrypt E (gc_token_ciphertext c)")
          case None
          then have "refused_send s m (prepare_send E o' i now now' s)"
            unfolding step using on payload by (simp add: give_up_refused[OF cl] refusal_codes_def)
          then show ?thesis using None by (auto simp: no)
        next
          case (Some token)
          then show ?thesis unfolding step using on payload pass cl b by (auto simp: no)
        qed
      qed
    qed
  qed (auto simp: no prepare_send_def cl refusal_codes_def intro!: give_up_refused_same)
qed

lemma prepare_send_cases:
  obtains (untouched) "prepare_send E o' i now now' s = Inr (None, s)"
      "\<forall>m p. get_row om_id i (outbox s) = Some m \<longrightarrow> \<not> send_ready E s now now' m p"
      "\<forall>m. get_row om_id i (outbox s) = Some m \<longrightarrow> om_status m = Ob_CLAIMED \<longrightarrow>
         account_workspace s (om_bot_account_id m) = None"
  | (refused) m where "get_row om_id i (outbox s) = Some m" "om_status m = Ob_CLAIMED"
      "\<forall>p. \<not> send_ready E s now now' m p" "refused_send s m (prepare_send E o' i now now' s)"
  | (ready) m p ds where "get_row om_id i (outbox s) = Some m" "send_ready E s now now' m p"
      "prepare_send E o' i now now' s =
         Inr (Some p, put_message (marked_sending o' now m) (s\<lparr>decisions := ds\<rparr>))"
proof (cases "get_row om_id i (outbox s)")
  case None
  show thesis by (rule untouched) (use None in \<open>simp_all add: prepare_send_def\<close>)
next
  case m: (Some m)
  show thesis
  proof (cases "account_workspace s (om_bot_account_id m) \<noteq> None \<and> om_status m = Ob_CLAIMED")
    case True
    then obtain a c where rows: "get_row ba_id (om_bot_account_id m) (accounts s) = Some a"
      "get_row gc_id (ba_gewe_connection_id a) (connections s) = Some c"
      by (auto simp: account_workspace_def split: option.split_asm)
    from prepare_send_claimed[OF m rows conjunct2[OF True], of E now now' o'] True
    show thesis using refused[OF m] ready[OF m] by blast
  next
    case False
    then have p: "prepare_send E o' i now now' s = Inr (None, s)" "\<forall>p. \<not> send_ready E s now now' m p"
      using m by (auto simp: prepare_send_def send_ready_def account_workspace_def split: option.split)
    have "\<forall>m' p. get_row om_id i (outbox s) = Some m' \<longrightarrow> \<not> send_ready E s now now' m' p"
      "\<forall>m'. get_row om_id i (outbox s) = Some m' \<longrightarrow> om_status m' = Ob_CLAIMED \<longrightarrow>
         account_workspace s (om_bot_account_id m') = None"
      using m p(2) False by auto
    from untouched[OF p(1) this] show thesis .
  qed
qed

lemma prepare_send_change:
  assumes "prepare_send E o' i now now' s = Inr (q, s')"
  shows "outbox_change limit (outbox s) (outbox s')"
proof (cases rule: prepare_send_cases[of E o' i now now' s])
  case untouched
  then show ?thesis using assms by (simp add: outbox_change.none)
next
  case (refused m)
  then obtain m' ds where m': "s' = put_message m' (s\<lparr>decisions := ds\<rparr>)" "message_change limit (outbox s) m m'"
    using assms by (auto simp: refused_send_def)
  show ?thesis using put_change[OF refused(1) m'(2)] unfolding m'(1) by simp
next
  case (ready m p ds)
  have "message_change limit (outbox s) m (marked_sending o' now m)"
    using ready(2) by (auto simp: send_ready_def message_change_def same_action_def marked_sending_def)
  from put_change[OF ready(1) this] show ?thesis using ready(3) assms by simp
qed

subsection \<open>The recording of an outcome\<close>

lemma finish_sent_change:
  assumes "finish_sent i d now s = Inr s'"
  shows "outbox_change limit (outbox s) (outbox s')"
proof (cases "get_row om_id i (outbox s)")
  case (Some m)
  show ?thesis
  proof (cases "om_status m = Ob_SENDING")
    case True
    then obtain m' where "s' = put_message m' s" and m': "message_change limit (outbox s) m m'"
      using assms Some
      by (auto simp: finish_sent_def bind_res_Inr_iff transition_outbox_Inr message_change_def same_action_def)
    then show ?thesis using put_change[OF Some m'] by simp
  qed (use assms Some in \<open>simp add: finish_sent_def outbox_change.none\<close>)
qed (use assms in \<open>simp add: finish_sent_def outbox_change.none\<close>)

lemma finish_unknown_change:
  assumes "finish_unknown i code now s = Inr s'"
  shows "outbox_change limit (outbox s) (outbox s')"
proof (cases "get_row om_id i (outbox s)")
  case (Some m)
  show ?thesis
  proof (cases "om_status m = Ob_SENDING")
    case True
    then obtain m' where "s' = put_message m' s" and m': "message_change limit (outbox s) m m'"
      using assms Some
      by (auto simp: finish_unknown_def bind_res_Inr_iff transition_outbox_Inr message_change_def same_action_def)
    then show ?thesis using put_change[OF Some m'] by simp
  qed (use assms Some in \<open>simp add: finish_unknown_def outbox_change.none\<close>)
qed (use assms in \<open>simp add: finish_unknown_def outbox_change.none\<close>)

lemma finish_failure_change:
  assumes "finish_failure o' i disp code now r s = Inr s'"
  shows "outbox_change (so_max_attempts o') (outbox s) (outbox s')"
proof (cases "disp = DISP_UNKNOWN")
  case True
  then show ?thesis using assms finish_unknown_change by (simp add: finish_failure_def)
next
  case disp: False
  show ?thesis
  proof (cases "get_row om_id i (outbox s)")
    case (Some m)
    show ?thesis
    proof (cases "om_status m = Ob_SENDING")
      case True
      then obtain m' where "s' = put_message m' s"
        and m': "message_change (so_max_attempts o') (outbox s) m m'"
        using assms Some disp
        by (auto simp: finish_failure_def bind_res_Inr_iff transition_outbox_Inr message_change_def
            same_action_def Let_def split: if_split_asm)
      then show ?thesis using put_change[OF Some m'] by simp
    qed (use assms Some disp in \<open>simp add: finish_failure_def outbox_change.none\<close>)
  qed (use assms disp in \<open>simp add: finish_failure_def outbox_change.none\<close>)
qed

lemma finish_send_change:
  "finish_send o' i result now r s = Inr s' \<Longrightarrow> outbox_change (so_max_attempts o') (outbox s) (outbox s')"
  using finish_sent_change finish_unknown_change finish_failure_change
  by (auto simp: finish_send_def split: send_result.split_asm prod.split_asm)

section \<open>Runs of the system\<close>

text \<open>
  Every committed transaction of the services and of any number of sender workers, in any
  order, with any clock readings, random numbers, provider results and locked rows; every other
  transaction leaves the outbox alone.
\<close>

inductive outbox_tx :: "env \<Rightarrow> sender_options \<Rightarrow> db \<Rightarrow> db \<Rightarrow> bool"
  for E :: env and o' :: sender_options where
  tx_enqueue: "enqueue_text E a now [] s = Inr (m, s') \<Longrightarrow> outbox_tx E o' s s'"
| tx_cancel: "cancel_message i actor reason now s = Inr (m, s') \<Longrightarrow> outbox_tx E o' s s'"
| tx_reconcile: "reconcile_unknown i actor resolution reason now s = Inr (m, s') \<Longrightarrow> outbox_tx E o' s s'"
| tx_recover: "recover_expired_leases locked now s = Inr s' \<Longrightarrow> outbox_tx E o' s s'"
| tx_claim: "claim_next o' locked now acct s = Inr (c, s') \<Longrightarrow> outbox_tx E o' s s'"
| tx_extend: "s' = extend_claim_lease o' i delay now s \<Longrightarrow> outbox_tx E o' s s'"
| tx_prepare: "prepare_send E o' i now now' s = Inr (p, s') \<Longrightarrow> outbox_tx E o' s s'"
| tx_finish: "finish_send o' i result now r s = Inr s' \<Longrightarrow> outbox_tx E o' s s'"
| tx_other: "outbox s' = outbox s \<Longrightarrow> outbox_tx E o' s s'"

inductive outbox_run :: "env \<Rightarrow> sender_options \<Rightarrow> db \<Rightarrow> db \<Rightarrow> bool"
  for E :: env and o' :: sender_options where
  run_stop: "outbox_run E o' s s"
| run_step: "outbox_run E o' s s1 \<Longrightarrow> outbox_tx E o' s1 s2 \<Longrightarrow> outbox_run E o' s s2"

lemma outbox_run_trans: "outbox_run E o' s1 s2 \<Longrightarrow> outbox_run E o' s s1 \<Longrightarrow> outbox_run E o' s s2"
  by (induction rule: outbox_run.induct) (auto intro: run_step)

lemma outbox_run_one: "outbox_tx E o' s s' \<Longrightarrow> outbox_run E o' s s'"
  by (rule run_step[OF run_stop])

lemma outbox_tx_change:
  assumes "outbox_tx E o' s s'" "unique_by om_id (outbox s)"
  shows "outbox_change (so_max_attempts o') (outbox s) (outbox s')"
  using assms
proof (cases rule: outbox_tx.cases)
  case tx_other
  then show ?thesis by (simp add: outbox_change.none)
qed (use assms(2) in \<open>blast intro: enqueue_text_change cancel_message_change reconcile_unknown_change
    recover_expired_leases_change claim_next_change extend_claim_lease_change prepare_send_change
    finish_send_change\<close>)+

lemma outbox_run_change:
  assumes "outbox_run E o' s s'" "outbox_inv (so_max_attempts o') (outbox s)" "sender_options_ok o'"
  shows "outbox_change (so_max_attempts o') (outbox s) (outbox s') \<and>
     outbox_inv (so_max_attempts o') (outbox s')"
proof -
  have pos: "0 < so_max_attempts o'"
    using assms(3) by (auto simp: sender_options_ok_def sender_options_error_def split: if_split_asm)
  show ?thesis using assms(1,2)
  proof (induction rule: outbox_run.induct)
    case (run_step s s1 s2)
    then have "outbox_change (so_max_attempts o') (outbox s1) (outbox s2)"
      using outbox_tx_change by (simp add: outbox_inv_def)
    then show ?case using run_step outbox_change_trans outbox_change_inv[OF _ _ pos] by blast
  qed (simp add: outbox_change.none)
qed

text \<open>
  C1: In every run of the services and of any number of concurrent workers, an account never has
  two messages claimed or being sent, no message is attempted more than \<open>max_attempts\<close>
  times (a waiting or claimed one strictly less), and message keys stay unique.
\<close>

theorem outbox_invariant_of_runs:
  assumes "outbox_run E o' s s'" "sender_options_ok o'" "outbox s = []"
  shows "(\<forall>x\<in>set (outbox s'). \<forall>y\<in>set (outbox s'). in_flight (om_status x) \<longrightarrow> in_flight (om_status y) \<longrightarrow>
       om_bot_account_id x = om_bot_account_id y \<longrightarrow> x = y) \<and>
     (\<forall>m\<in>set (outbox s'). 0 \<le> om_attempt_count m \<and> om_attempt_count m \<le> so_max_attempts o' \<and>
       (waiting (om_status m) \<or> om_status m = Ob_CLAIMED \<longrightarrow> om_attempt_count m < so_max_attempts o')) \<and>
     unique_by om_id (outbox s') \<and> unique_by om_idempotency_key (outbox s')"
proof -
  have "outbox_inv (so_max_attempts o') (outbox s)"
    using assms(3) by (simp add: outbox_inv_def unique_by_def one_in_flight_def)
  from outbox_run_change[OF assms(1) this assms(2)]
  have inv: "outbox_inv (so_max_attempts o') (outbox s')" by blast
  have "x = y" if "x \<in> set (outbox s')" "y \<in> set (outbox s')" "om_id x = om_id y" for x y
    using that inv get_row_unique[of om_id "outbox s'"] unfolding outbox_inv_def
    by (metis option.inject)
  then show ?thesis using inv unfolding outbox_inv_def one_in_flight_def attempts_ok_def by blast
qed

text \<open>
  A message that is SENT, FAILED_FINAL or CANCELLED is never changed again by any later
  transaction of the services or workers: no field of the row changes.
\<close>

theorem terminal_messages_are_final:
  assumes "outbox_run E o' s s'" "sender_options_ok o'" "outbox_inv (so_max_attempts o') (outbox s)"
    and "get_row om_id i (outbox s) = Some m" "om_status m \<in> {Ob_SENT, Ob_FAILED_FINAL, Ob_CANCELLED}"
  shows "get_row om_id i (outbox s') = Some m"
proof -
  have "outbox_change (so_max_attempts o') (outbox s) (outbox s')"
    using outbox_run_change assms(1-3) by blast
  moreover have "allowed_transitions (om_status m) = []" using assms(5) by auto
  ultimately show ?thesis using outbox_change_terminal assms(4) by blast
qed

text \<open>
  C6: Once the outcome of a send is UNKNOWN no worker sends the message again, in any run: its
  attempt counter stays as it is for ever, and only an administrator's reconciliation (to SENT or
  FAILED_FINAL) can change its status.
\<close>

theorem unknown_outcome_is_not_resent:
  assumes "outbox_run E o' s s'" "sender_options_ok o'" "outbox_inv (so_max_attempts o') (outbox s)"
    and "get_row om_id i (outbox s) = Some m" "om_status m = Ob_UNKNOWN"
  shows "\<exists>m'. get_row om_id i (outbox s') = Some m' \<and> om_attempt_count m' = om_attempt_count m \<and>
     om_status m' \<in> {Ob_UNKNOWN, Ob_SENT, Ob_FAILED_FINAL} \<and>
     (\<forall>now now'. \<not> (\<exists>p s''. prepare_send E o' i now now' s' = Inr (Some p, s'')))"
proof -
  have "outbox_change (so_max_attempts o') (outbox s) (outbox s')"
    using outbox_run_change assms(1-3) by blast
  from outbox_change_unknown[OF this assms(4)] assms(5)
  obtain m' where m': "get_row om_id i (outbox s') = Some m'" "om_attempt_count m' = om_attempt_count m"
    "om_status m' \<in> {Ob_UNKNOWN, Ob_SENT, Ob_FAILED_FINAL}" by auto
  have "\<not> (\<exists>p s''. prepare_send E o' i now now' s' = Inr (Some p, s''))" for now now'
    by (cases rule: prepare_send_cases[of E o' i now now' s'])
      (use m' in \<open>auto simp: send_ready_def\<close>)
  then show ?thesis using m' by blast
qed

section \<open>Properties of one pass of a worker\<close>

text \<open>
  C2: A text is handed to the provider exactly when its message is claimed and not expired, its
  account is online and its connection active, its stored payload validates, the token decrypts,
  and, for a message queued on behalf of a plugin, the deployment still runs the same
  revision with the grant, the target is the conversation of the authorisation, and the rules in
  force grant the request at that moment.
\<close>

theorem prepare_send_iff_ready:
  "(\<exists>s'. prepare_send E o' i now now' s = Inr (Some p, s')) \<longleftrightarrow>
     (\<exists>m. get_row om_id i (outbox s) = Some m \<and> send_ready E s now now' m p)"
proof (cases rule: prepare_send_cases[of E o' i now now' s])
  case untouched
  then show ?thesis by auto
next
  case (refused m)
  then have "\<forall>s'. prepare_send E o' i now now' s \<noteq> Inr (Some p, s')" by (auto simp: refused_send_def)
  then show ?thesis using refused(1,3) by auto
next
  case (ready m p' ds)
  have "send_ready E s now now' m q \<Longrightarrow> q = p'" for q
    using ready(2) unfolding send_ready_def by force
  then have "(\<exists>m. get_row om_id i (outbox s) = Some m \<and> send_ready E s now now' m p) \<longleftrightarrow> p = p'"
    using ready(1,2) by (metis option.inject)
  moreover have "(\<exists>s'. prepare_send E o' i now now' s = Inr (Some p, s')) \<longleftrightarrow> p = p'"
    unfolding ready(3) by blast
  ultimately show ?thesis by blast
qed

text \<open>
  C17: \<open>prepare_send\<close> always completes. For a claimed message of a known account it
  ends either with the message SENDING, its attempt counted and its lease renewed, or with the
  message CANCELLED, FAILED_FINAL or FAILED_RETRYABLE under one of the seven documented codes;
  the message never stays CLAIMED, and nothing but that message and the decision log changes.
\<close>

theorem prepare_send_completes:
  assumes "get_row om_id i (outbox s) = Some m" "om_status m = Ob_CLAIMED"
    and "account_workspace s (om_bot_account_id m) \<noteq> None"
  shows "\<exists>q m' ds. prepare_send E o' i now now' s = Inr (q, put_message m' (s\<lparr>decisions := ds\<rparr>)) \<and>
     same_action m m' \<and>
     (case q of
        Some p \<Rightarrow> m' = marked_sending o' now m \<and> pp_message_id p = i
      | None \<Rightarrow> om_status m' \<in> {Ob_CANCELLED, Ob_FAILED_FINAL, Ob_FAILED_RETRYABLE} \<and>
          (\<exists>code\<in>set refusal_codes. om_last_error_code m' = Some code) \<and>
          om_attempt_count m' = om_attempt_count m)"
proof (cases rule: prepare_send_cases[of E o' i now now' s])
  case untouched
  then show ?thesis using assms by auto
next
  case (refused m1)
  then have "m1 = m" using assms(1) by simp
  then obtain m' ds code where "prepare_send E o' i now now' s = Inr (None, put_message m' (s\<lparr>decisions := ds\<rparr>))"
    "message_change 0 (outbox s) m m'" "om_status m' \<in> {Ob_CANCELLED, Ob_FAILED_FINAL, Ob_FAILED_RETRYABLE}"
    "om_last_error_code m' = Some code" "code \<in> set refusal_codes"
    using refused(4) by (auto simp: refused_send_def)
  moreover from this have "om_attempt_count m' = om_attempt_count m" "same_action m m'"
    using assms(2) by (auto simp: message_change_def)
  ultimately show ?thesis by (intro exI[of _ None] exI[of _ m'] exI[of _ ds]) simp
next
  case (ready m1 p ds)
  then have "m1 = m" "om_id m = i" using assms(1) by (auto dest: get_row_Some_mem)
  then show ?thesis using ready
    by (intro exI[of _ "Some p"] exI[of _ "marked_sending o' now m"] exI[of _ ds])
      (auto simp: same_action_def marked_sending_def send_ready_def)
qed

definition claimed_row :: "sender_options \<Rightarrow> instant \<Rightarrow> outbox_message \<Rightarrow> outbox_message" where
  "claimed_row o' now m = m\<lparr>om_status := Ob_CLAIMED, om_last_error_code := None, om_updated_at := now,
     om_available_at := now + seconds (so_lease_seconds o')\<rparr>"

text \<open>What a claim picks among the claimable messages, or that all of them have expired.\<close>

definition claim_choice ::
    "sender_options \<Rightarrow> (uuid \<Rightarrow> bool) \<Rightarrow> instant \<Rightarrow> uuid \<Rightarrow> db \<Rightarrow> claimed_message option \<Rightarrow> db \<Rightarrow> bool" where
  "claim_choice o' locked now acct s c s' \<longleftrightarrow>
     (case c of
        None \<Rightarrow> \<forall>x\<in>set (claimable locked now acct s). expired_message now x
      | Some cl \<Rightarrow> \<exists>m\<in>set (claimable locked now acct s). \<not> expired_message now m \<and>
          (\<forall>x\<in>set (claimable locked now acct s). \<not> expired_message now x \<longrightarrow> claim_key m \<le> claim_key x) \<and>
          cl = \<lparr>cl_id = om_id m, cl_bot_account_id = acct, cl_target_wxid = om_target_wxid m\<rparr> \<and>
          get_row om_id (om_id m) (outbox s') = Some (claimed_row o' now m))"

lemma claimable_mem:
  "m \<in> set (claimable locked now acct s) \<Longrightarrow>
     m \<in> set (outbox s) \<and> om_bot_account_id m = acct \<and> waiting (om_status m) \<and>
     Ob_CANCELLED \<in> set (allowed_transitions (om_status m)) \<and>
     Ob_CLAIMED \<in> set (allowed_transitions (om_status m))"
  by (auto simp: claimable_def due_message_def waiting_def)

lemma claimable_put_cancelled:
  assumes "unique_by om_id (outbox s)" "m \<in> set (claimable locked now acct s)"
    "om_id m' = om_id m" "om_status m' = Ob_CANCELLED"
  shows "set (claimable locked now acct s) = insert m (set (claimable locked now acct (put_message m' s)))"
proof -
  have mo: "m \<in> set (outbox s)" using claimable_mem[OF assms(2)] by blast
  have "x = m" if "x \<in> set (outbox s)" "om_id x = om_id m" for x
    using get_row_unique[OF assms(1) that] get_row_unique[OF assms(1) mo refl] by simp
  moreover have no: "\<not> due_message now m'" using assms(4) by (simp add: due_message_def waiting_def)
  ultimately have other: "x \<in> set (claimable locked now acct (put_message m' s)) \<longleftrightarrow>
      x \<in> set (claimable locked now acct s) \<and> x \<noteq> m" for x
    using assms(3) mem_put_row_iff[of x om_id m' "outbox s"] by (auto simp: claimable_def)
  show ?thesis using other assms(2) by blast
qed

lemma claim_loop_choice:
  assumes "unique_by om_id (outbox s)"
  shows "\<exists>c s'. claim_loop o' locked now acct s = Inr (c, s') \<and> claim_choice o' locked now acct s c s'"
  using assms
proof (induction o' locked now acct s rule: claim_loop.induct)
  case (1 o' locked now acct s)
  show ?case
  proof (cases "next_due locked now acct s")
    case None
    then have "claim_loop o' locked now acct s = Inr (None, s)"
      by (simp add: claim_loop.simps[of o' locked now acct s])
    moreover have "claimable locked now acct s = []" using None by (simp add: next_due_None)
    ultimately show ?thesis by (intro exI[of _ None] exI[of _ s]) (simp add: claim_choice_def)
  next
    case (Some m)
    note pick = next_due_Some[OF Some]
    note mem = claimable_mem[OF pick(1)]
    show ?thesis
    proof (cases "expired_message now m")
      case True
      obtain m' where t: "transition_outbox m Ob_CANCELLED now (Some ''EXPIRED_BEFORE_SEND'') None = Inr m'"
        using mem by (auto simp: transition_outbox_Inr)
      have id: "om_id m' = om_id m" "om_status m' = Ob_CANCELLED" using t by (auto simp: transition_outbox_Inr)
      note split = claimable_put_cancelled[OF "1.prems" pick(1) id]
      have "unique_by om_id (outbox (put_message m' s))" using "1.prems" by simp
      from "1.IH"[OF Some True t this] obtain c s' where
        r: "claim_loop o' locked now acct (put_message m' s) = Inr (c, s')"
        and ch: "claim_choice o' locked now acct (put_message m' s) c s'" by blast
      have "claim_loop o' locked now acct s = Inr (c, s')"
        using r Some True t by (simp add: claim_loop.simps[of o' locked now acct s])
      moreover have "claim_choice o' locked now acct s c s'"
        using ch True unfolding claim_choice_def split by (auto split: option.split)
      ultimately show ?thesis by blast
    next
      case False
      have "claim_loop o' locked now acct s = Inr (Some \<lparr>cl_id = om_id m, cl_bot_account_id = acct,
          cl_target_wxid = om_target_wxid m\<rparr>, put_message (claimed_row o' now m) s)"
        using Some False mem
        by (simp add: claim_loop.simps[of o' locked now acct s] transition_outbox_def claimed_row_def)
      moreover have "get_row om_id (om_id m) (outbox (put_message (claimed_row o' now m) s)) =
          Some (claimed_row o' now m)"
        using mem get_put_same[of om_id "claimed_row o' now m" "outbox s"] get_row_unique[OF "1.prems", of m "om_id m"]
        by (simp add: claimed_row_def)
      ultimately show ?thesis using pick False unfolding claim_choice_def
        by (intro exI conjI) (auto simp del: claim_key_le split: option.split)
    qed
  qed
qed

text \<open>
  C16: \<open>_claim_next\<close> always terminates with an answer. It claims nothing for an unknown account
  or one with a message in flight; otherwise it claims, among the account's due messages that no
  other worker holds, the unexpired one that is first by priority, creation time and id, under a
  full lease, and claims none only if all of them have expired.
\<close>

theorem claim_next_picks_first:
  assumes "unique_by om_id (outbox s)"
  shows "\<exists>c s'. claim_next o' locked now acct s = Inr (c, s') \<and>
     (if get_row ba_id acct (accounts s) = None \<or> \<not> idle acct (outbox s) then c = None \<and> s' = s
      else claim_choice o' locked now acct s c s')"
  using claim_loop_choice[OF assms, of o' locked now acct]
  by (auto simp: claim_next_def filter_empty_conv idle_def)

section \<open>Rate limit, backoff and the classification of errors\<close>

lemma length_filter_imp:
  "(\<And>x. x \<in> set xs \<Longrightarrow> P x \<Longrightarrow> Q x) \<Longrightarrow> length (filter P xs) \<le> length (filter Q xs)"
  by (induction xs) auto

lemma fold_max_ge:
  fixes a :: rat
  shows "a \<le> fold max xs a" "x \<in> set xs \<Longrightarrow> x \<le> fold max xs a"
proof -
  have "a \<le> fold max xs a \<and> (\<forall>x\<in>set xs. x \<le> fold max xs a)" for a
  proof (induction xs arbitrary: a)
    case (Cons y ys)
    have "max y a \<le> fold max ys (max y a)" "\<forall>x\<in>set ys. x \<le> fold max ys (max y a)"
      using Cons[of "max y a"] by blast+
    then show ?case by simp
  qed simp
  then show "a \<le> fold max xs a" "x \<in> set xs \<Longrightarrow> x \<le> fold max xs a" by blast+
qed

text \<open>At most \<open>k\<close> values lie above the \<open>k+1\<close>-th greatest one.\<close>

lemma sorted_nth_bound:
  fixes xs :: "int list"
  assumes "k < length xs"
  shows "length (filter (\<lambda>x. rev (sort xs) ! k < x) xs) \<le> k"
proof -
  let ?r = "rev (sort xs)"
  have "mset (filter (\<lambda>x. ?r ! k < x) xs) = mset (filter (\<lambda>x. ?r ! k < x) ?r)" by simp
  then have "length (filter (\<lambda>x. ?r ! k < x) xs) = length (filter (\<lambda>x. ?r ! k < x) ?r)"
    by (metis size_mset)
  also have "\<dots> = length (filter (\<lambda>x. ?r ! k < x) (take k ?r)) + length (filter (\<lambda>x. ?r ! k < x) (drop k ?r))"
    by (metis append_take_drop_id filter_append length_append)
  also have "filter (\<lambda>x. ?r ! k < x) (drop k ?r) = []"
  proof -
    have "x \<le> ?r ! k" if x: "x \<in> set (drop k ?r)" for x
    proof -
      obtain j where j: "j < length (drop k ?r)" "x = drop k ?r ! j" using x by (metis in_set_conv_nth)
      have "sorted_wrt (\<ge>) ?r" by (simp add: sorted_wrt_rev)
      moreover have "drop k ?r ! j = ?r ! (k + j)" using j by (simp add: nth_drop)
      ultimately show ?thesis using j
        by (cases "j = 0") (auto simp: sorted_wrt_iff_nth_less)
    qed
    then show ?thesis by (auto simp: filter_empty_conv not_less)
  qed
  also have "length (filter (\<lambda>x. ?r ! k < x) (take k ?r)) + length ([] :: int list) \<le> k"
    using length_filter_le[of "\<lambda>x. ?r ! k < x" "take k ?r"] assms by simp
  finally show ?thesis .
qed

text \<open>
  C39: After the wait that the rate limit imposes, fewer than \<open>per_minute_limit\<close> attempts of
  the account lie within the last sixty seconds, and the last attempt to the same conversation is
  at least \<open>target_interval_seconds\<close> old, and so is, for a group, the drawn interval for the
  last attempt to any group of the account.
\<close>

theorem rate_limit_respected:
  fixes o' c now r s
  defines "start \<equiv> of_int now / 1000000 + rate_delay o' c now r s"
    and "attempts \<equiv> filter (\<lambda>m. om_bot_account_id m = cl_bot_account_id c \<and> 0 < om_attempt_count m
                 \<and> now - seconds 60 \<le> om_updated_at m) (outbox s)"
  assumes "sender_options_ok o'"
  shows "int (length (filter (\<lambda>m. start - 60 < of_int (om_updated_at m) / 1000000) attempts))
           < so_per_minute_limit o' \<and>
     (\<forall>m\<in>set attempts. om_target_wxid m = cl_target_wxid c \<longrightarrow>
        of_int (om_updated_at m) / 1000000 + so_target_interval_seconds o' \<le> start) \<and>
     (\<forall>m\<in>set attempts. endswith (cl_target_wxid c) ''@chatroom'' \<longrightarrow>
        endswith (om_target_wxid m) ''@chatroom'' \<longrightarrow>
        of_int (om_updated_at m) / 1000000 +
          uniform (so_group_interval_min_seconds o') (so_group_interval_max_seconds o') r \<le> start)"
proof -
  let ?a = "recent_attempts c now s"
  have a: "?a = map (\<lambda>m. (om_updated_at m, om_target_wxid m)) attempts"
    by (simp add: recent_attempts_def attempts_def)
  let ?ds = "minute_delays o' now ?a @ target_delays o' c now ?a @ group_delays o' c now r ?a"
  have d: "x \<in> set ?ds \<Longrightarrow> x \<le> rate_delay o' c now r s" for x
    unfolding rate_delay_def Let_def by (rule fold_max_ge(2))
  have pos: "0 < so_per_minute_limit o'"
    using assms(3) by (auto simp: sender_options_ok_def sender_options_error_def split: if_split_asm)
  have lim: "int (length (filter (\<lambda>m. start - 60 < of_int (om_updated_at m) / 1000000) attempts)) < so_per_minute_limit o'"
  proof (cases "so_per_minute_limit o' \<le> int (length ?a)")
    case False
    have "length (filter (\<lambda>m. start - 60 < of_int (om_updated_at m) / 1000000) attempts) \<le> length ?a"
      unfolding a length_map by (rule length_filter_le)
    then show ?thesis using False by linarith
  next
    case True
    let ?us = "map om_updated_at attempts" and ?k = "nat (so_per_minute_limit o' - 1)"
    let ?th = "rev (sort ?us) ! ?k"
    have us: "map fst ?a = ?us" by (simp add: a comp_def)
    have "60 - total_seconds (now - ?th) \<in> set ?ds" using True by (simp add: minute_delays_def us Let_def)
    from d[OF this] have th: "of_int ?th / 1000000 \<le> start - 60"
      by (simp add: start_def total_seconds_def field_simps)
    have "om_updated_at m > ?th" if "start - 60 < of_int (om_updated_at m) / 1000000" for m
      using that th by (simp add: field_simps) 
    then have "length (filter (\<lambda>m. start - 60 < of_int (om_updated_at m) / 1000000) attempts)
        \<le> length (filter (\<lambda>m. ?th < om_updated_at m) attempts)"
      by (rule length_filter_imp)
    also have "\<dots> = length (filter (\<lambda>x. ?th < x) ?us)" by (simp add: filter_map comp_def)
    also have "\<dots> \<le> ?k" using True pos by (intro sorted_nth_bound) (simp add: a)
    finally show ?thesis using pos by simp
  qed
  have tgt: "of_int (om_updated_at m) / 1000000 + so_target_interval_seconds o' \<le> start"
    if m: "m \<in> set attempts" "om_target_wxid m = cl_target_wxid c" for m
  proof -
    let ?l = "map fst (filter (\<lambda>(t, w). w = cl_target_wxid c) ?a)"
    have in_l: "om_updated_at m \<in> set ?l" using m by (force simp: a)
    then have "?l \<noteq> []" by (metis empty_iff list.set(1))
    then obtain latest where l: "list_max ?l = Some latest" using list_max_Max by blast
    have "so_target_interval_seconds o' - total_seconds (now - latest) \<in> set ?ds"
      using l by (simp add: target_delays_def)
    from d[OF this] have "of_int latest / 1000000 + so_target_interval_seconds o' \<le> start"
      by (simp add: start_def total_seconds_def field_simps)
    moreover have "om_updated_at m \<le> latest" using l in_l list_max_Some by blast
    ultimately show ?thesis by (simp add: field_simps)
  qed
  have grp: "of_int (om_updated_at m) / 1000000 +
      uniform (so_group_interval_min_seconds o') (so_group_interval_max_seconds o') r \<le> start"
    if m: "m \<in> set attempts" "endswith (cl_target_wxid c) ''@chatroom''"
      "endswith (om_target_wxid m) ''@chatroom''" for m
  proof -
    let ?l = "map fst (filter (\<lambda>(t, w). endswith w ''@chatroom'') ?a)"
    have in_l: "om_updated_at m \<in> set ?l" using m by (force simp: a)
    then have "?l \<noteq> []" by (metis empty_iff list.set(1))
    then obtain latest where l: "list_max ?l = Some latest" using list_max_Max by blast
    have "uniform (so_group_interval_min_seconds o') (so_group_interval_max_seconds o') r
        - total_seconds (now - latest) \<in> set ?ds"
      using m(2) l by (simp add: group_delays_def)
    from d[OF this] have "of_int latest / 1000000 +
        uniform (so_group_interval_min_seconds o') (so_group_interval_max_seconds o') r \<le> start"
      by (simp add: start_def total_seconds_def field_simps)
    moreover have "om_updated_at m \<le> latest" using l in_l list_max_Some by blast
    ultimately show ?thesis by (simp add: field_simps)
  qed
  show ?thesis using lim tgt grp by blast
qed

lemma sender_options_okD:
  assumes "sender_options_ok o'"
  shows "0 < so_max_attempts o'" "0 < so_backoff_base_seconds o'"
    "so_backoff_base_seconds o' \<le> so_backoff_max_seconds o'" "0 \<le> so_retry_jitter_ratio o'"
    "so_retry_jitter_ratio o' < 1" "60 + so_request_timeout_seconds o' \<le> so_lease_seconds o'"
  using assms
  by (simp_all add: sender_options_ok_def sender_options_error_def not_less not_le split: if_split_asm)

definition base_delay :: "sender_options \<Rightarrow> int \<Rightarrow> rat" where
  "base_delay o' n = min (so_backoff_max_seconds o') (so_backoff_base_seconds o' * 2 ^ nat (max (n - 1) 0))"

lemma base_delay_bounds:
  assumes "sender_options_ok o'"
  shows "so_backoff_base_seconds o' \<le> base_delay o' n" "base_delay o' n \<le> so_backoff_max_seconds o'"
    "n \<le> n' \<Longrightarrow> base_delay o' n \<le> base_delay o' n'"
proof -
  note ok = sender_options_okD[OF assms]
  have "(1::rat) \<le> 2 ^ nat (max (n - 1) 0)" by simp
  then have "so_backoff_base_seconds o' * 1 \<le> so_backoff_base_seconds o' * 2 ^ nat (max (n - 1) 0)"
    using ok(2) by (intro mult_left_mono) auto
  then show "so_backoff_base_seconds o' \<le> base_delay o' n" using ok(3) by (simp add: base_delay_def)
  show "base_delay o' n \<le> so_backoff_max_seconds o'" by (simp add: base_delay_def)
  assume "n \<le> n'"
  then have "(2::rat) ^ nat (max (n - 1) 0) \<le> 2 ^ nat (max (n' - 1) 0)"
    by (intro power_increasing) auto
  then have "so_backoff_base_seconds o' * 2 ^ nat (max (n - 1) 0)
      \<le> so_backoff_base_seconds o' * 2 ^ nat (max (n' - 1) 0)"
    using ok(2) by (intro mult_left_mono) auto
  then show "base_delay o' n \<le> base_delay o' n'" unfolding base_delay_def by (rule min.mono[OF order_refl])
qed

text \<open>
  The delay before a retry is the doubling base delay, capped at \<open>backoff_max_seconds\<close>,
  times a jitter factor: it is positive, stays within the jitter ratio of the capped delay, so
  below \<open>backoff_max_seconds * (1 + ratio)\<close>, and with the same draw never shrinks from one
  attempt to the next.
\<close>

theorem backoff_delay_bounds:
  assumes "sender_options_ok o'" and "0 \<le> r" "r \<le> 1" and "n \<le> n'"
  shows "0 < backoff_delay o' n r \<and>
     base_delay o' n * (1 - so_retry_jitter_ratio o') \<le> backoff_delay o' n r \<and>
     backoff_delay o' n r \<le> base_delay o' n * (1 + so_retry_jitter_ratio o') \<and>
     backoff_delay o' n r \<le> so_backoff_max_seconds o' * (1 + so_retry_jitter_ratio o') \<and>
     backoff_delay o' n r \<le> backoff_delay o' n' r"
proof -
  note ok = sender_options_okD[OF assms(1)]
  define j where "j = so_retry_jitter_ratio o'"
  define u where "u = uniform (- j) j r"
  have j: "0 \<le> j" "j < 1" using ok by (simp_all add: j_def)
  have u: "- j \<le> u" "u \<le> j"
    using j assms(2,3) mult_left_mono[of r 1 "2 * j"] by (simp_all add: u_def uniform_def)
  have val: "backoff_delay o' m r = base_delay o' m * (1 + u)" for m
  proof -
    have "0 \<le> base_delay o' m * (1 + u)"
      using base_delay_bounds(1)[OF assms(1), of m] ok(2) u j by (intro mult_nonneg_nonneg) auto
    then show ?thesis by (simp add: backoff_delay_def base_delay_def j_def u_def Let_def)
  qed
  have b: "0 < base_delay o' n" "base_delay o' n \<le> so_backoff_max_seconds o'" "base_delay o' n \<le> base_delay o' n'"
    using base_delay_bounds[OF assms(1)] ok(2) assms(4) by (auto intro: less_le_trans)
  have "0 < base_delay o' n * (1 + u)" using b(1) u j by (intro mult_pos_pos) auto
  moreover have "base_delay o' n * (1 - j) \<le> base_delay o' n * (1 + u)"
    using b(1) u by (intro mult_left_mono) auto
  moreover have "base_delay o' n * (1 + u) \<le> base_delay o' n * (1 + j)"
    using b(1) u by (intro mult_left_mono) auto
  moreover have "base_delay o' n * (1 + j) \<le> so_backoff_max_seconds o' * (1 + j)"
    using b(2) j by (intro mult_right_mono) auto
  moreover have "base_delay o' n * (1 + u) \<le> base_delay o' n' * (1 + u)"
    using b(3) u j by (intro mult_right_mono) auto
  ultimately show ?thesis unfolding val j_def[symmetric] by linarith
qed

text \<open>
  The outcome of a send is recorded only while the message is SENDING (a late result changes
  nothing); an unknown outcome gives UNKNOWN, a retryable one returns the message to the
  queue after the backoff while attempts are left and gives FAILED_FINAL with
  RETRY_EXHAUSTED afterwards, a final one gives FAILED_FINAL with its code.
\<close>

theorem finish_failure_outcomes:
  assumes "length code \<le> 100"
  shows "finish_failure o' i disp code now r s =
     (case get_row om_id i (outbox s) of
        None \<Rightarrow> Inr s
      | Some m \<Rightarrow>
          if om_status m \<noteq> Ob_SENDING then Inr s
          else let ended = m\<lparr>om_last_attempt_finished_at := Some now, om_updated_at := now\<rparr> in
            Inr (put_message
              (if disp = DISP_UNKNOWN
               then ended\<lparr>om_status := Ob_UNKNOWN, om_last_error_code := Some code\<rparr>
               else if disp = RETRYABLE \<and> om_attempt_count m < so_max_attempts o'
               then ended\<lparr>om_status := Ob_FAILED_RETRYABLE, om_last_error_code := Some code,
                      om_available_at := now + seconds (backoff_delay o' (om_attempt_count m) r)\<rparr>
               else ended\<lparr>om_status := Ob_FAILED_FINAL, om_last_error_code :=
                      Some (if disp = RETRYABLE then ''RETRY_EXHAUSTED'' else code)\<rparr>) s))"
  using assms
  by (cases "get_row om_id i (outbox s)"; cases disp)
    (auto simp: finish_failure_def finish_unknown_def transition_outbox_def bind_res_def Let_def
      intro!: arg_cong[where f = "\<lambda>m. put_message m s"] outbox_message.equality)


text \<open>
  After a gateway timeout (HTTP 504), when it is not known whether the provider sent the
  text, the message goes back to the queue and is sent again, as long as attempts are left.
\<close>

theorem gateway_timeout_is_sent_again:
  assumes "get_row om_id i (outbox s) = Some m" "om_status m = Ob_SENDING"
    and "om_attempt_count m < so_max_attempts o'"
    and "post_text v (Inr (504, body)) = Inl e"
  shows "\<exists>s' m'. finish_send o' i (SendRaised e) now r s = Inr s' \<and>
     get_row om_id i (outbox s') = Some m' \<and> om_status m' = Ob_FAILED_RETRYABLE \<and>
     Ob_CLAIMED \<in> set (allowed_transitions (om_status m'))"
proof -
  have e: "e = GeWeHTTPError 504 True"
    using assms(4) by (simp add: post_text_def gewe_post_def bind_res_def is_retryable_status_def)
  have "om_id m = i" using assms(1) by (auto dest: get_row_Some_mem)
  then have put: "om_id m' = i \<Longrightarrow> get_row om_id i (put_row om_id m' (outbox s)) = Some m'" for m'
    using get_put_same[of om_id m' "outbox s"] assms(1) by simp
  have len: "length (''GEWE_HTTP_'' @ int_str 504) \<le> 100" by code_simp
  then show ?thesis using assms(1-3) put \<open>om_id m = i\<close>
    by (simp add: e finish_send_def finish_failure_def transition_outbox_def bind_res_def Let_def)
qed

section \<open>A pass is a run\<close>

lemma process_account_run:
  assumes "process_account E o' w acct s = Inr (res, s')"
  shows "outbox_run E o' s s'"
proof -
  from assms obtain c s1 where c: "claim_next o' (sw_locked w) (sw_claim_at w) acct s = Inr (c, s1)"
    and rest: "(case c of None \<Rightarrow> Inr (NothingClaimed, s1)
       | Some c \<Rightarrow>
           (let s2 = snd (respect_rate_limit o' c (sw_rate_at w) (sw_group_random w) (sw_extend_at w) s1)
            in bind_res (prepare_send E o' (cl_id c) (sw_prepare_at w) (sw_policy_at w) s2)
                 (\<lambda>(prepared, s3). case prepared of
                      None \<Rightarrow> Inr (Processed, s3)
                    | Some p \<Rightarrow>
                        (let result = sw_send w p
                         in bind_res (finish_send o' (pp_message_id p) result (sw_finish_at w)
                                        (sw_backoff_random w) s3)
                              (\<lambda>s4. Inr (if result = SendCancelled then ProcessCancelled else Processed, s4))))))
       = Inr (res, s')"
    unfolding process_account_def bind_res_Inr_iff by auto
  have r1: "outbox_run E o' s s1" by (rule outbox_run_one[OF tx_claim[OF c]])
  show ?thesis
  proof (cases c)
    case None
    then show ?thesis using rest r1 by simp
  next
    case (Some cl)
    define s2 where "s2 = snd (respect_rate_limit o' cl (sw_rate_at w) (sw_group_random w) (sw_extend_at w) s1)"
    have r2: "outbox_run E o' s s2"
      unfolding s2_def respect_rate_limit_def using r1
      by (auto simp: Let_def intro: run_step tx_extend)
    obtain q s3 where q: "prepare_send E o' (cl_id cl) (sw_prepare_at w) (sw_policy_at w) s2 = Inr (q, s3)"
      using rest Some by (auto simp: Let_def bind_res_Inr_iff s2_def)
    have r3: "outbox_run E o' s s3" by (rule run_step[OF r2 tx_prepare[OF q]])
    show ?thesis
    proof (cases q)
      case None
      then show ?thesis using rest Some q r3 by (simp add: s2_def[symmetric] bind_res_def)
    next
      case (Some p)
      then have "finish_send o' (pp_message_id p) (sw_send w p) (sw_finish_at w) (sw_backoff_random w) s3 = Inr s'"
        using rest \<open>c = Some cl\<close> q by (auto simp: s2_def[symmetric] bind_res_Inr_iff Let_def)
      from run_step[OF r3 tx_finish[OF this]] show ?thesis .
    qed
  qed
qed

lemma process_accounts_run:
  "process_accounts E o' W as s = Inr (n, s') \<Longrightarrow> outbox_run E o' s s'"
proof (induction as arbitrary: s n)
  case (Cons a as)
  from Cons.prems obtain r s1 k where "process_account E o' (W a) a s = Inr (r, s1)"
    "process_accounts E o' W as s1 = Inr (k, s')" by (auto simp: bind_res_Inr_iff)
  then show ?case using Cons.IH process_account_run outbox_run_trans by blast
qed (simp add: run_stop)

text \<open>
  One iteration of the worker (recovering leases, then one message of each due account) is a
  run of outbox transactions, so everything proved of runs holds of it: from an empty queue
  filled by the services, any number of iterations keeps at most one message of an account in
  flight.
\<close>

theorem run_once_keeps_invariant:
  assumes "run_once E o' locked recover_at due_at W s = Inr (n, s')" "sender_options_ok o'"
    and "outbox_inv (so_max_attempts o') (outbox s)"
  shows "outbox_run E o' s s' \<and> outbox_inv (so_max_attempts o') (outbox s')"
proof -
  from assms(1) obtain s1 where "recover_expired_leases locked recover_at s = Inr s1"
    "process_accounts E o' W (due_account_ids o' due_at s1) s1 = Inr (n, s')"
    by (auto simp: run_once_def bind_res_Inr_iff)
  then have "outbox_run E o' s s'"
    using outbox_run_one[OF tx_recover] process_accounts_run outbox_run_trans by blast
  then show ?thesis using outbox_run_change assms(2,3) by blast
qed

section \<open>Concrete instances\<close>

definition sample_message :: "outbox_status \<Rightarrow> outbox_message" where
  "sample_message st =
     \<lparr>om_id = 1000, om_bot_account_id = 3, om_trace_id = 30, om_idempotency_key = ''k'',
      om_action_type = ''message.send.text'', om_target_wxid = ''w'',
      om_payload = JObj [(''text'', JStr ''hi'')], om_authorization_context = None,
      om_payload_sha256 = ''h'', om_status = st, om_priority = 100, om_available_at = 0,
      om_expires_at = None, om_attempt_count = 1, om_last_error_code = None,
      om_last_attempt_started_at = None, om_last_attempt_finished_at = None,
      om_provider_message_id = None, om_provider_new_message_id = None,
      om_provider_create_time = None, om_provider_message_type = None,
      om_created_at = 0, om_updated_at = 0\<rparr>"

definition sample_outbox :: "outbox_status \<Rightarrow> db" where
  "sample_outbox st = (sample_db [])\<lparr>outbox := [sample_message st]\<rparr>"

definition sample_world :: sender_world where
  "sample_world = \<lparr>sw_locked = (\<lambda>_. False), sw_claim_at = 1, sw_rate_at = 2, sw_extend_at = 3,
     sw_prepare_at = 4, sw_policy_at = 5, sw_finish_at = 6, sw_group_random = 0, sw_backoff_random = 0,
     sw_send = (\<lambda>p. SendReturned \<lparr>st_to_wxid = ''g'', st_create_time = 7, st_msg_id = ''m'',
       st_new_msg_id = ''n'', st_message_type = 1\<rparr>)\<rparr>"

lemma sample_options: "sender_options_ok default_sender_options"
  by code_simp

lemma sample_inv: "outbox_inv 5 (outbox (sample_outbox st))"
  by (cases st) (simp_all add: sample_outbox_def outbox_inv_def unique_by_def one_in_flight_def
      attempts_ok_def sample_message_def waiting_def in_flight_def)

lemma sample_max_attempts: "so_max_attempts default_sender_options = 5"
  by (simp add: default_sender_options_def)

definition run_summary :: "(outbox_error, nat \<times> db) res \<Rightarrow> (nat \<times> outbox_status list \<times> int list) option" where
  "run_summary r = (case r of Inl _ \<Rightarrow> None
     | Inr (n, s) \<Rightarrow> Some (n, map om_status (outbox s), map om_attempt_count (outbox s)))"

lemma sample_run_once:
  "run_summary (run_once sample_env default_sender_options (\<lambda>_. False) 0 1 (\<lambda>_. sample_world)
     (sample_outbox Ob_PENDING)) = Some (1, [Ob_SENT], [2])"
  by code_simp

lemma sample_get: "get_row om_id 1000 (outbox (sample_outbox st)) = Some (sample_message st)"
  by (simp add: sample_outbox_def sample_message_def get_row_Cons)

lemma sample_workspace: "account_workspace (sample_outbox st) 3 = Some 1"
  by (simp add: account_workspace_def sample_outbox_def sample_defs get_row_Cons)

theorem outbox_invariant_of_runs_witness:
  "\<exists>m s. outbox_run sample_env default_sender_options (sample_db []) s \<and> outbox s = [m] \<and>
     om_attempt_count m \<le> 5"
proof -
  have run: "outbox_run sample_env default_sender_options (sample_db [])
     ((sample_db [])\<lparr>next_id := 1, outbox := [new_message (sample_enqueue ''@m hi'') sample_action 1000 0]\<rparr>)"
    by (rule outbox_run_one[OF tx_enqueue[OF sample_enqueued]])
  have "outbox (sample_db []) = []" by (simp add: sample_defs)
  from outbox_invariant_of_runs[OF run sample_options this] run show ?thesis
    by (intro exI conjI) (auto simp: sample_max_attempts)
qed

theorem terminal_messages_are_final_witness:
  "get_row om_id 1000 (outbox (extend_claim_lease default_sender_options 1000 3 9 (sample_outbox Ob_SENT)))
     = Some (sample_message Ob_SENT)"
proof -
  have run: "outbox_run sample_env default_sender_options (sample_outbox Ob_SENT)
     (extend_claim_lease default_sender_options 1000 3 9 (sample_outbox Ob_SENT))"
    by (rule outbox_run_one[OF tx_extend[OF refl]])
  show ?thesis
    by (rule terminal_messages_are_final[OF run sample_options _ sample_get])
      (simp_all add: sample_max_attempts sample_inv, simp add: sample_message_def)
qed

theorem unknown_outcome_is_not_resent_witness:
  "\<exists>m'. get_row om_id 1000 (outbox (extend_claim_lease default_sender_options 1000 3 9 (sample_outbox Ob_UNKNOWN)))
     = Some m' \<and> om_attempt_count m' = 1"
proof -
  have run: "outbox_run sample_env default_sender_options (sample_outbox Ob_UNKNOWN)
     (extend_claim_lease default_sender_options 1000 3 9 (sample_outbox Ob_UNKNOWN))"
    by (rule outbox_run_one[OF tx_extend[OF refl]])
  have "outbox_inv (so_max_attempts default_sender_options) (outbox (sample_outbox Ob_UNKNOWN))"
    by (simp add: sample_max_attempts sample_inv)
  from unknown_outcome_is_not_resent[OF run sample_options this sample_get] show ?thesis
    by (auto simp: sample_message_def)
qed

theorem prepare_send_completes_witness:
  "\<exists>q s'. prepare_send sample_env default_sender_options 1000 4 5 (sample_outbox Ob_CLAIMED) = Inr (q, s')"
proof -
  have "om_status (sample_message Ob_CLAIMED) = Ob_CLAIMED"
    "account_workspace (sample_outbox Ob_CLAIMED) (om_bot_account_id (sample_message Ob_CLAIMED)) \<noteq> None"
    by (simp_all add: sample_message_def sample_workspace)
  from prepare_send_completes[OF sample_get this] show ?thesis by blast
qed

theorem claim_next_picks_first_witness:
  "\<exists>c s'. claim_next default_sender_options (\<lambda>_. False) 1 3 (sample_outbox Ob_PENDING) = Inr (Some c, s') \<and>
     cl_id c = 1000"
proof -
  let ?s = "sample_outbox Ob_PENDING"
  have u: "unique_by om_id (outbox ?s)" by (simp add: unique_by_def sample_outbox_def)
  have "get_row ba_id 3 (accounts ?s) \<noteq> None" "idle 3 (outbox ?s)"
    "claimable (\<lambda>_. False) 1 3 ?s = [sample_message Ob_PENDING]"
    "\<not> expired_message 1 (sample_message Ob_PENDING)" "om_id (sample_message Ob_PENDING) = 1000"
    by (simp_all add: sample_outbox_def sample_defs get_row_Cons idle_def in_flight_def sample_message_def
        claimable_def due_message_def waiting_def expired_message_def)
  with claim_next_picks_first[OF u, of default_sender_options "\<lambda>_. False" 1 3] show ?thesis
    by (auto simp: claim_choice_def split: option.split_asm)
qed

definition sample_claimed :: claimed_message where
  "sample_claimed = \<lparr>cl_id = 1000, cl_bot_account_id = 3, cl_target_wxid = ''w''\<rparr>"

theorem rate_limit_respected_witness:
  "1 \<le> of_int 1 / 1000000 + rate_delay default_sender_options sample_claimed 1 0 (sample_outbox Ob_SENT)"
proof -
  have "sample_message Ob_SENT \<in> set (filter (\<lambda>m. om_bot_account_id m = cl_bot_account_id sample_claimed \<and>
      0 < om_attempt_count m \<and> 1 - seconds 60 \<le> om_updated_at m) (outbox (sample_outbox Ob_SENT)))"
    by (simp add: sample_claimed_def sample_outbox_def sample_message_def seconds_def round_half_even_def)
  with rate_limit_respected[OF sample_options, of 1 sample_claimed 0 "sample_outbox Ob_SENT"] show ?thesis
    by (auto simp: sample_claimed_def sample_message_def default_sender_options_def)
qed

theorem backoff_delay_bounds_witness:
  "0 < backoff_delay default_sender_options 1 (1/2) \<and>
   backoff_delay default_sender_options 1 (1/2) \<le> backoff_delay default_sender_options 3 (1/2)"
  using backoff_delay_bounds[OF sample_options, of "1/2" 1 3] by simp

theorem finish_failure_outcomes_witness:
  "finish_failure default_sender_options 1000 FINAL ''GEWE_HTTP_400'' 9 0 (sample_outbox Ob_SENT)
     = Inr (sample_outbox Ob_SENT)"
  using finish_failure_outcomes[of "''GEWE_HTTP_400''" default_sender_options 1000 FINAL 9 0 "sample_outbox Ob_SENT"]
  by (simp add: sample_get) (simp add: sample_message_def)


theorem gateway_timeout_is_sent_again_witness:
  "\<exists>s' m'. finish_send default_sender_options 1000 (SendRaised (GeWeHTTPError 504 True)) 9 0
       (sample_outbox Ob_SENDING) = Inr s' \<and> get_row om_id 1000 (outbox s') = Some m' \<and>
     om_status m' = Ob_FAILED_RETRYABLE"
proof -
  have "post_text (\<lambda>_. None) (Inr (504, None)) = Inl (GeWeHTTPError 504 True)"
    by (simp add: post_text_def gewe_post_def bind_res_def is_retryable_status_def)
  moreover have "om_status (sample_message Ob_SENDING) = Ob_SENDING"
    "om_attempt_count (sample_message Ob_SENDING) < so_max_attempts default_sender_options"
    by (simp_all add: sample_message_def sample_max_attempts)
  ultimately show ?thesis using gateway_timeout_is_sent_again[OF sample_get] by blast
qed

theorem run_once_keeps_invariant_witness:
  "\<exists>s'. run_once sample_env default_sender_options (\<lambda>_. False) 0 1 (\<lambda>_. sample_world)
       (sample_outbox Ob_PENDING) = Inr (1, s') \<and> map om_status (outbox s') = [Ob_SENT] \<and>
     outbox_run sample_env default_sender_options (sample_outbox Ob_PENDING) s'"
proof -
  obtain s' where r: "run_once sample_env default_sender_options (\<lambda>_. False) 0 1 (\<lambda>_. sample_world)
       (sample_outbox Ob_PENDING) = Inr (1, s')" "map om_status (outbox s') = [Ob_SENT]"
    using sample_run_once by (auto simp: run_summary_def split: sum.split_asm)
  have "outbox_inv (so_max_attempts default_sender_options) (outbox (sample_outbox Ob_PENDING))"
    by (simp add: sample_max_attempts sample_inv)
  note run = run_once_keeps_invariant[OF r(1) sample_options this]
  show ?thesis by (rule exI[of _ s']) (simp only: r conjunct1[OF run] simp_thms)
qed

end
