(* ===== verification/Webhook.thy ===== *)
theory Webhook
  imports Db_Model
begin

text \<open>
  Reception of provider callbacks: the normalisation of the two payload formats
  (\<open>webhooks/normalizer.py\<close>) and the ingestion of a callback into the inbox, once per
  message (\<open>services/webhooks.py\<close>).
\<close>

section \<open>Normalisation\<close>

definition message_type_names :: "(string \<times> string) list" where
  "message_type_names = [(''1'', ''text''), (''3'', ''image''), (''34'', ''voice''),
     (''37'', ''friend_request''), (''42'', ''contact_card''), (''43'', ''video''),
     (''47'', ''emoji''), (''48'', ''location''), (''49'', ''app''), (''10000'', ''system'')]"

record gewe_envelope =
  ge_schema_version :: string
  ge_app_id :: string
  ge_wxid :: "string option"
  ge_new_msg_id :: "string option"
  ge_event_type :: string
  ge_conversation_type :: conversation_type
  ge_conversation_id :: "string option"
  ge_actor_wxid :: "string option"
  ge_to_wxid :: "string option"
  ge_is_self :: bool
  ge_occurred_at :: "instant option"
  ge_content :: json

definition has_key :: "json \<Rightarrow> string \<Rightarrow> bool" where
  "has_key j k \<longleftrightarrow> json_lookup j k \<noteq> None"

text \<open>Truth of a value in \<open>a or b\<close>.\<close>

fun truthy :: "json \<Rightarrow> bool" where
  "truthy JNull = False"
| "truthy (JBool b) = b"
| "truthy (JInt i) = (i \<noteq> 0)"
| "truthy (JFloat x) = (x \<noteq> 0)"
| "truthy (JStr s) = (s \<noteq> [])"
| "truthy (JArr xs) = (xs \<noteq> [])"
| "truthy (JObj kvs) = (kvs \<noteq> [])"

definition looks_like_v1 :: "json \<Rightarrow> bool" where
  "looks_like_v1 payload \<longleftrightarrow>
     has_key payload ''Data'' \<or> has_key payload ''Appid'' \<or> has_key payload ''TypeName''"

definition looks_like_v2 :: "json \<Rightarrow> bool" where
  "looks_like_v2 payload \<longleftrightarrow>
     (\<exists>key\<in>set [''appid'', ''newMsgId'', ''msgType'', ''isSelf'']. has_key payload key)"

fun as_string :: "json \<Rightarrow> string option" where
  "as_string (JStr s) = Some s"
| "as_string (JInt i) = Some (int_str i)"
| "as_string _ = None"

fun nested_string :: "json \<Rightarrow> string option" where
  "nested_string (JObj kvs) = as_string (json_get (JObj kvs) ''string'')"
| "nested_string v = as_string v"

text \<open>\<open>x or d\<close> on an optional string: an empty string counts as missing.\<close>

definition or_str :: "string option \<Rightarrow> string \<Rightarrow> string" where
  "or_str x d = (case x of None \<Rightarrow> d | Some s \<Rightarrow> if s = [] then d else s)"

definition message_type_name :: "string option \<Rightarrow> string" where
  "message_type_name msg_type =
     (case msg_type of
        None \<Rightarrow> ''unknown''
      | Some t \<Rightarrow>
          let normalized = casefold (strip t) in
          (case map_of message_type_names normalized of
             Some name \<Rightarrow> name
           | None \<Rightarrow> if normalized = [] then ''unknown'' else normalized))"

definition v1_event_type :: "string \<Rightarrow> string option \<Rightarrow> string" where
  "v1_event_type type_name msg_type =
     (let normalized_type = casefold type_name in
      if normalized_type = ''addmsg'' then ''gewe.message.'' @ message_type_name msg_type
      else ''gewe.'' @ normalized_type @ ''.'' @ message_type_name msg_type)"

definition group_actor :: "string \<Rightarrow> string option" where
  "group_actor content =
     (case partition_on '':\<newline>'' content of
        (prefix, Some _) \<Rightarrow> if startswith prefix ''wxid_'' then Some prefix else None
      | (prefix, None) \<Rightarrow> None)"

definition is_group_id :: "string option \<Rightarrow> bool" where
  "is_group_id v = (case v of None \<Rightarrow> False | Some s \<Rightarrow> s \<noteq> [] \<and> endswith s ''@chatroom'')"

definition conversation_fields ::
    "string option \<Rightarrow> string option \<Rightarrow> string \<Rightarrow> bool
     \<Rightarrow> conversation_type \<times> string option \<times> string option" where
  "conversation_fields from_user to_user raw_content is_self =
     (case find is_group_id [from_user, to_user] of
        Some group_id \<Rightarrow>
          (Conv_GROUP, group_id,
           (case group_actor raw_content of
              Some a \<Rightarrow> if a \<noteq> [] then Some a else if from_user = group_id then None else from_user
            | None \<Rightarrow> if from_user = group_id then None else from_user))
      | None \<Rightarrow> (Conv_PRIVATE, if is_self then to_user else from_user, from_user))"

subsection \<open>Timestamps\<close>

text \<open>
  \<open>float(s)\<close> on a string: surrounding blanks, a sign, digits that single underscores may
  separate, a fraction and an exponent.  The spellings of infinity and of NaN, which the caller
  cannot turn into a time, are not values here.
\<close>

definition is_digit :: "char \<Rightarrow> bool" where
  "is_digit c = (let n = (of_char c :: nat) in 48 \<le> n \<and> n \<le> 57)"

definition digit_val :: "char \<Rightarrow> nat" where
  "digit_val c = (of_char c :: nat) - 48"

text \<open>A run of digits with separating underscores: its digits and the rest.\<close>

fun digit_run :: "string \<Rightarrow> string \<times> string" where
  "digit_run [] = ([], [])"
| "digit_run (c # cs) =
     (if is_digit c
      then (case cs of
              u # d # ds \<Rightarrow>
                if u = CHR ''_'' \<and> is_digit d then (let (r, t) = digit_run (d # ds) in (c # r, t))
                else (let (r, t) = digit_run cs in (c # r, t))
            | _ \<Rightarrow> (let (r, t) = digit_run cs in (c # r, t)))
      else ([], c # cs))"

definition digits_value :: "string \<Rightarrow> rat" where
  "digits_value ds = of_nat (foldl (\<lambda>a c. 10 * a + digit_val c) 0 ds)"

definition take_sign :: "string \<Rightarrow> rat \<times> string" where
  "take_sign s = (case s of
     c # cs \<Rightarrow> if c = CHR ''-'' then (- 1, cs) else if c = CHR ''+'' then (1, cs) else (1, s)
   | [] \<Rightarrow> (1, []))"

definition power10 :: "rat \<Rightarrow> nat \<Rightarrow> rat" where
  "power10 sign e = (if sign < 0 then 1 / 10 ^ e else 10 ^ e)"

text \<open>
  Beyond these exponents the value is zero or infinite as a double, whatever its digits, as long
  as a number has fewer than a thousand digits.
\<close>

definition max_exponent :: nat where
  "max_exponent = 2000"

definition py_float :: "string \<Rightarrow> rat option" where
  "py_float text =
     (let (sign, body) = take_sign (strip text);
          (whole, rest) = digit_run body;
          (fraction, rest') = (case rest of
              c # cs \<Rightarrow> if c = CHR ''.'' then digit_run cs else ([], rest) | [] \<Rightarrow> ([], []));
          mantissa = digits_value (whole @ fraction) / 10 ^ length fraction
      in if whole = [] \<and> fraction = [] then None
         else (case rest' of
            [] \<Rightarrow> Some (sign * mantissa)
          | c # cs \<Rightarrow>
              if c = CHR ''e'' \<or> c = CHR ''E''
              then (let (esign, ebody) = take_sign cs; (expo, tail) = digit_run ebody
                    in if expo = [] \<or> tail \<noteq> [] then None
                       else (let e = foldl (\<lambda>a c. 10 * a + digit_val c) 0 expo
                             in if max_exponent < e then (if esign < 0 then Some 0 else None)
                                else Some (sign * mantissa * power10 esign e)))
              else None))"

text \<open>\<open>datetime.fromtimestamp(t, tz=UTC)\<close>, which knows the years 1 to 9999.\<close>

definition from_timestamp :: "rat \<Rightarrow> instant option" where
  "from_timestamp t =
     (let us = round_half_even (t * 1000000)
      in if - 62135596800000000 \<le> us \<and> us < 253402300800000000 then Some us else None)"

definition timestamp_of :: "rat \<Rightarrow> instant option" where
  "timestamp_of t = from_timestamp (if 10000000000 < t then t / 1000 else t)"

fun timestamp :: "json \<Rightarrow> instant option" where
  "timestamp (JInt i) = timestamp_of (of_int i)"
| "timestamp (JFloat x) = timestamp_of x"
| "timestamp (JStr s) = Option.bind (py_float s) timestamp_of"
| "timestamp _ = None"

subsection \<open>The two formats\<close>

definition normalize_v1 :: "json \<Rightarrow> gewe_envelope" where
  "normalize_v1 payload =
     (let raw_data = json_get payload ''Data'';
          data = (if is_obj raw_data then raw_data else JObj []);
          wxid = as_string (json_get payload ''Wxid'');
          from_user = nested_string (json_get data ''FromUserName'');
          to_user = nested_string (json_get data ''ToUserName'');
          raw_content = or_str (nested_string (json_get data ''Content'')) [];
          msg_type = as_string (json_get data ''MsgType'');
          type_name = or_str (as_string (json_get payload ''TypeName'')) ''UNKNOWN'';
          is_self = (from_user \<noteq> None \<and> wxid \<noteq> None \<and> from_user = wxid);
          (ctype, cid, actor) = conversation_fields from_user to_user raw_content is_self
      in \<lparr>ge_schema_version = ''v1'',
          ge_app_id = or_str (as_string (json_get payload ''Appid'')) [],
          ge_wxid = wxid,
          ge_new_msg_id = as_string (json_get data ''NewMsgId''),
          ge_event_type = v1_event_type type_name msg_type,
          ge_conversation_type = ctype, ge_conversation_id = cid, ge_actor_wxid = actor,
          ge_to_wxid = to_user, ge_is_self = is_self,
          ge_occurred_at = timestamp (json_get data ''CreateTime''),
          ge_content = JObj [(''msg_type'', json_opt_str msg_type), (''type_name'', JStr type_name),
                             (''raw_content'', JStr raw_content)]\<rparr>)"

definition normalize_v2 :: "json \<Rightarrow> gewe_envelope" where
  "normalize_v2 payload =
     (let from_user = as_string (json_get payload ''fromUser'');
          to_user = as_string (json_get payload ''toUser'');
          raw_content = or_str (as_string (json_get payload ''content'')) [];
          msg_type = or_str (as_string (json_get payload ''msgType'')) ''UNKNOWN'';
          is_self = (json_get payload ''isSelf'' = JBool True);
          (ctype, cid, actor) = conversation_fields from_user to_user raw_content is_self
      in \<lparr>ge_schema_version = ''v2'',
          ge_app_id = or_str (as_string (json_get payload ''appid'')) [],
          ge_wxid = as_string (json_get payload ''wxid''),
          ge_new_msg_id = as_string (json_get payload ''newMsgId''),
          ge_event_type = ''gewe.message.'' @ message_type_name (Some msg_type),
          ge_conversation_type = ctype, ge_conversation_id = cid, ge_actor_wxid = actor,
          ge_to_wxid = to_user, ge_is_self = is_self,
          ge_occurred_at = timestamp (json_get payload ''createTime''),
          ge_content = JObj [(''msg_type'', JStr msg_type), (''raw_content'', JStr raw_content)]\<rparr>)"

definition normalize_gewe_payload :: "json \<Rightarrow> gewe_envelope" where
  "normalize_gewe_payload payload =
     (if looks_like_v1 payload then normalize_v1 payload
      else if looks_like_v2 payload then normalize_v2 payload
      else \<lparr>ge_schema_version = ''unknown'',
            ge_app_id = or_str (as_string (if truthy (json_get payload ''appid'')
                                   then json_get payload ''appid'' else json_get payload ''Appid'')) [],
            ge_wxid = None, ge_new_msg_id = None, ge_event_type = ''gewe.callback_verification'',
            ge_conversation_type = Conv_SYSTEM, ge_conversation_id = None, ge_actor_wxid = None,
            ge_to_wxid = None, ge_is_self = False, ge_occurred_at = None,
            ge_content = JObj [(''payload_type'', JStr ''verification_or_unknown'')]\<rparr>)"

section \<open>Ingestion\<close>

datatype webhook_error = UnknownWebhookSecret | WebhookDedupConflict

record webhook_ingest_result =
  wr_duplicate :: bool
  wr_ignored_self :: bool

definition inbox_key :: "webhook_inbox \<Rightarrow> string \<times> uuid \<times> string \<times> string" where
  "inbox_key b = (wi_provider b, wi_gewe_connection_id b, wi_app_id b, wi_dedup_key b)"

definition dedup_key_of :: "gewe_envelope \<Rightarrow> string \<Rightarrow> string" where
  "dedup_key_of envelope payload_sha256 =
     (case ge_new_msg_id envelope of
        Some i \<Rightarrow> ''message:'' @ i
      | None \<Rightarrow> ''payload:'' @ payload_sha256)"

definition touch_connection :: "gewe_connection \<Rightarrow> instant \<Rightarrow> gewe_connection" where
  "touch_connection c now = c\<lparr>gc_last_callback_at := Some now,
     gc_callback_verified_at := (case gc_callback_verified_at c of None \<Rightarrow> Some now | Some t \<Rightarrow> Some t),
     gc_last_callback_error := None\<rparr>"

definition new_inbox ::
    "gewe_connection \<Rightarrow> gewe_envelope \<Rightarrow> string \<Rightarrow> json \<Rightarrow> uuid \<Rightarrow> uuid \<Rightarrow> instant \<Rightarrow> webhook_inbox" where
  "new_inbox connection envelope payload_sha256 payload trace_id inbox_id clock =
     \<lparr>wi_id = inbox_id, wi_provider = ''gewe'',
      wi_gewe_connection_id = gc_id connection, wi_app_id = ge_app_id envelope,
      wi_new_msg_id = ge_new_msg_id envelope, wi_dedup_key = dedup_key_of envelope payload_sha256,
      wi_payload_sha256 = payload_sha256,
      wi_schema_version = ge_schema_version envelope, wi_raw_payload = payload,
      wi_trace_id = trace_id,
      wi_status = (if ge_is_self envelope then In_IGNORED_SELF else In_NORMALIZED),
      wi_error_code = None, wi_error_detail = None, wi_dispatch_attempt_count = 0,
      wi_dispatch_available_at = clock, wi_created_at = clock\<rparr>"

definition new_event ::
    "gewe_envelope \<Rightarrow> uuid option \<Rightarrow> uuid \<Rightarrow> uuid \<Rightarrow> instant \<Rightarrow> normalized_event" where
  "new_event envelope account_id event_id inbox_id clock =
     \<lparr>ne_id = event_id, ne_webhook_inbox_id = inbox_id,
      ne_bot_account_id = account_id, ne_event_type = ge_event_type envelope,
      ne_conversation_type = ge_conversation_type envelope,
      ne_conversation_id = ge_conversation_id envelope,
      ne_actor_wxid = ge_actor_wxid envelope, ne_to_wxid = ge_to_wxid envelope,
      ne_provider_message_id = ge_new_msg_id envelope,
      ne_is_self = ge_is_self envelope,
      ne_occurred_at = ge_occurred_at envelope, ne_content = ge_content envelope,
      ne_raw_ref = ''db:webhook_inbox/'' @ uuid_str inbox_id,
      ne_created_at = clock\<rparr>"

text \<open>
  \<open>ingest_gewe_webhook\<close>.  \<open>raced\<close> are the inbox rows that other transactions commit between
  the lookup of the key and the insert, \<open>clock\<close> the reading for the defaults of a new row.
\<close>

definition ingest_gewe_webhook ::
    "env \<Rightarrow> string \<Rightarrow> 8 word list \<Rightarrow> json \<Rightarrow> instant \<Rightarrow> instant \<Rightarrow> webhook_inbox list \<Rightarrow> db
     \<Rightarrow> (webhook_error, webhook_ingest_result \<times> db) res" where
  "ingest_gewe_webhook E callback_secret raw_body payload now clock raced s =
     (case get_row gc_callback_secret_hash (sha256_hex E callback_secret) (connections s) of
        None \<Rightarrow> Inl UnknownWebhookSecret
      | Some connection \<Rightarrow>
        let envelope = normalize_gewe_payload payload;
            payload_sha256 = sha256_bytes E raw_body;
            dedup_key = dedup_key_of envelope payload_sha256;
            key = (''gewe'', gc_id connection, ge_app_id envelope, dedup_key);
            s1 = s\<lparr>connections := put_row gc_id (touch_connection connection now) (connections s)\<rparr>;
            ignored = ge_is_self envelope
        in case get_row inbox_key key (inboxes s1) of
             Some existing \<Rightarrow>
               if wi_payload_sha256 existing \<noteq> payload_sha256 then Inl WebhookDedupConflict
               else Inr (\<lparr>wr_duplicate = True, wr_ignored_self = ignored\<rparr>, s1)
           | None \<Rightarrow>
             let (trace_id, s2) = alloc E s1;
                 (inbox_id, s3) = alloc E s2;
                 s4 = s3\<lparr>inboxes := inboxes s3 @ raced\<rparr>;
                 inbox = new_inbox connection envelope payload_sha256 payload trace_id inbox_id clock
             in if (\<exists>b\<in>set (inboxes s4). inbox_key b = key \<or> wi_id b = inbox_id)
                then (case get_row inbox_key key (inboxes s4) of
                        None \<Rightarrow> Inl WebhookDedupConflict
                      | Some b \<Rightarrow>
                          if wi_payload_sha256 b \<noteq> payload_sha256 then Inl WebhookDedupConflict
                          else Inr (\<lparr>wr_duplicate = True, wr_ignored_self = ignored\<rparr>, s4))
                else
                  let account_id = map_option ba_id (find (\<lambda>a. ba_gewe_connection_id a = gc_id connection
                              \<and> ba_app_id a = ge_app_id envelope) (accounts s4));
                      (event_id, s5) = alloc E s4;
                      event = new_event envelope account_id event_id inbox_id clock
                  in Inr (\<lparr>wr_duplicate = False, wr_ignored_self = ignored\<rparr>,
                          s5\<lparr>inboxes := inboxes s5 @ [inbox], events := events s5 @ [event]\<rparr>))"

section \<open>Lemmas\<close>

lemma get_row_touched:
  assumes "unique_by gc_id (connections s)" "get_row gc_callback_secret_hash h (connections s) = Some c"
  shows "get_row gc_callback_secret_hash h (put_row gc_id (touch_connection c now) (connections s))
    = Some (touch_connection c now)"
  using assms
proof (induction "connections s" arbitrary: s)
  case (Cons x xs)
  have tc: "gc_callback_secret_hash (touch_connection c now) = gc_callback_secret_hash c"
    "gc_id (touch_connection c now) = gc_id c" by (simp_all add: touch_connection_def)
  have ch: "gc_callback_secret_hash c = h" using Cons.prems(2) by (auto dest: get_row_Some_mem)
  show ?case
  proof (cases "gc_callback_secret_hash x = h")
    case True
    then have "x = c" using Cons.prems(2) Cons.hyps(2)[symmetric] by (simp add: get_row_Cons)
    then show ?thesis unfolding Cons.hyps(2)[symmetric] using tc ch by (simp add: put_row_def get_row_Cons)
  next
    case False
    have g: "get_row gc_callback_secret_hash h xs = Some c"
      using Cons.prems(2) False unfolding Cons.hyps(2)[symmetric] by (simp add: get_row_Cons)
    then have "gc_id x \<noteq> gc_id c"
      using Cons.prems(1) get_row_Some_mem[OF g] unfolding Cons.hyps(2)[symmetric] by (auto simp: unique_by_def)
    moreover have "get_row gc_callback_secret_hash h (put_row gc_id (touch_connection c now) xs)
        = Some (touch_connection c now)"
      using Cons.hyps(1)[of "s\<lparr>connections := xs\<rparr>"] Cons.prems(1) g
      unfolding Cons.hyps(2)[symmetric] by (simp add: unique_by_def)
    ultimately show ?thesis unfolding Cons.hyps(2)[symmetric] using tc False
      by (simp add: put_row_def get_row_Cons)
  qed
qed simp

definition ingest_key :: "gewe_connection \<Rightarrow> json \<Rightarrow> string \<Rightarrow> string \<times> uuid \<times> string \<times> string" where
  "ingest_key c payload digest =
     (''gewe'', gc_id c, ge_app_id (normalize_gewe_payload payload),
      dedup_key_of (normalize_gewe_payload payload) digest)"

lemma ingest_known:
  assumes "get_row gc_callback_secret_hash (sha256_hex E secret) (connections s) = Some c"
    and "get_row inbox_key (ingest_key c payload (sha256_bytes E raw)) (inboxes s) = Some b"
  shows "ingest_gewe_webhook E secret raw payload now clock raced s =
     (if wi_payload_sha256 b \<noteq> sha256_bytes E raw then Inl WebhookDedupConflict
      else Inr (\<lparr>wr_duplicate = True, wr_ignored_self = ge_is_self (normalize_gewe_payload payload)\<rparr>,
        s\<lparr>connections := put_row gc_id (touch_connection c now) (connections s)\<rparr>))"
  using assms by (simp add: ingest_gewe_webhook_def ingest_key_def Let_def)

text \<open>How a successful ingestion went: the key was known, the race for it was lost, or it is new.\<close>

lemma ingest_cases:
  assumes "ingest_gewe_webhook E secret raw payload now clock raced s = Inr (res, s')"
  obtains (known) c b where
      "get_row gc_callback_secret_hash (sha256_hex E secret) (connections s) = Some c"
      "get_row inbox_key (ingest_key c payload (sha256_bytes E raw)) (inboxes s) = Some b"
      "wi_payload_sha256 b = sha256_bytes E raw"
      "res = \<lparr>wr_duplicate = True, wr_ignored_self = ge_is_self (normalize_gewe_payload payload)\<rparr>"
      "s' = s\<lparr>connections := put_row gc_id (touch_connection c now) (connections s)\<rparr>"
  | (lost) c b where
      "get_row gc_callback_secret_hash (sha256_hex E secret) (connections s) = Some c"
      "get_row inbox_key (ingest_key c payload (sha256_bytes E raw)) (inboxes s) = None"
      "get_row inbox_key (ingest_key c payload (sha256_bytes E raw)) (inboxes s @ raced) = Some b"
      "wi_payload_sha256 b = sha256_bytes E raw"
      "res = \<lparr>wr_duplicate = True, wr_ignored_self = ge_is_self (normalize_gewe_payload payload)\<rparr>"
      "inboxes s' = inboxes s @ raced" "events s' = events s"
      "connections s' = put_row gc_id (touch_connection c now) (connections s)"
  | (new) c b e where
      "get_row gc_callback_secret_hash (sha256_hex E secret) (connections s) = Some c"
      "\<forall>x\<in>set (inboxes s @ raced). inbox_key x \<noteq> inbox_key b \<and> wi_id x \<noteq> wi_id b"
      "inbox_key b = ingest_key c payload (sha256_bytes E raw)"
      "wi_payload_sha256 b = sha256_bytes E raw" "wi_raw_payload b = payload"
      "wi_dispatch_attempt_count b = 0"
      "wi_status b = (if ge_is_self (normalize_gewe_payload payload) then In_IGNORED_SELF else In_NORMALIZED)"
      "ne_webhook_inbox_id e = wi_id b" "ne_is_self e = ge_is_self (normalize_gewe_payload payload)"
      "ne_conversation_id e = ge_conversation_id (normalize_gewe_payload payload)"
      "res = \<lparr>wr_duplicate = False, wr_ignored_self = ge_is_self (normalize_gewe_payload payload)\<rparr>"
      "inboxes s' = inboxes s @ raced @ [b]" "events s' = events s @ [e]"
      "connections s' = put_row gc_id (touch_connection c now) (connections s)"
proof -
  let ?d = "sha256_bytes E raw" and ?v = "normalize_gewe_payload payload"
  obtain c where c: "get_row gc_callback_secret_hash (sha256_hex E secret) (connections s) = Some c"
    using assms by (auto simp: ingest_gewe_webhook_def split: option.split_asm)
  let ?k = "ingest_key c payload ?d"
  note simps = ingest_gewe_webhook_def c Let_def alloc_def ingest_key_def[symmetric]
  show thesis
  proof (cases "get_row inbox_key ?k (inboxes s)")
    case (Some b)
    then show thesis using assms c
      by (intro known[OF c Some]) (auto simp: simps split: if_split_asm)
  next
    case None
    let ?i = "uuid7 E (Suc (next_id s))"
    show thesis
    proof (cases "\<exists>b\<in>set (inboxes s @ raced). inbox_key b = ?k \<or> wi_id b = ?i")
      case True
      show thesis
      proof (cases "get_row inbox_key ?k (inboxes s @ raced)")
        case None
        then show thesis using assms True \<open>get_row inbox_key ?k (inboxes s) = None\<close>
          by (simp add: simps)
      next
        case (Some b)
        then show thesis using assms True None
          by (intro lost[OF c None Some]) (auto simp: simps split: if_split_asm)
      qed
    next
      case False
      let ?b = "new_inbox c ?v ?d payload (uuid7 E (next_id s)) ?i clock"
      let ?e = "new_event ?v (map_option ba_id (find (\<lambda>a. ba_gewe_connection_id a = gc_id c \<and>
          ba_app_id a = ge_app_id ?v) (accounts s))) (uuid7 E (Suc (Suc (next_id s)))) ?i clock"
      have st: "res = \<lparr>wr_duplicate = False, wr_ignored_self = ge_is_self ?v\<rparr>"
        "inboxes s' = inboxes s @ raced @ [?b]" "events s' = events s @ [?e]"
        "connections s' = put_row gc_id (touch_connection c now) (connections s)"
        using assms None False by (auto simp: simps)
      have "inbox_key ?b = ?k" "wi_id ?b = ?i" "wi_payload_sha256 ?b = ?d" "wi_raw_payload ?b = payload"
        "wi_dispatch_attempt_count ?b = 0"
        "wi_status ?b = (if ge_is_self ?v then In_IGNORED_SELF else In_NORMALIZED)"
        by (simp_all add: new_inbox_def inbox_key_def ingest_key_def)
      then show thesis using False
        by (intro new[OF c _ _ _ _ _ _ _ _ _ st]) (auto simp: new_event_def)
    qed
  qed
qed

lemma is_group_id_None: "\<not> is_group_id None"
  by (simp add: is_group_id_def)

section \<open>Properties\<close>

text \<open>
  C22: A callback is taken in exactly once: after a successful ingestion, whatever other
  transactions committed in between, exactly one inbox row has the deduplication key and it
  carries the digest of the body; the answer is "duplicate" exactly when no inbox row and no
  event was added, and otherwise one inbox row and one event referring to it were, the row being
  IGNORED_SELF for the bot's own message and NORMALIZED otherwise.
\<close>

theorem webhook_ingested_exactly_once:
  assumes ok: "ingest_gewe_webhook E secret raw payload now clock raced s = Inr (res, s')"
    and keys: "unique_by inbox_key (inboxes s @ raced)" and ids: "unique_by wi_id (inboxes s @ raced)"
  shows "\<exists>c b. get_row gc_callback_secret_hash (sha256_hex E secret) (connections s) = Some c \<and>
     unique_by inbox_key (inboxes s') \<and> unique_by wi_id (inboxes s') \<and>
     filter (\<lambda>x. inbox_key x = ingest_key c payload (sha256_bytes E raw)) (inboxes s') = [b] \<and>
     wi_payload_sha256 b = sha256_bytes E raw \<and>
     (if wr_duplicate res
      then events s' = events s \<and> (inboxes s' = inboxes s \<or> inboxes s' = inboxes s @ raced)
      else inboxes s' = inboxes s @ raced @ [b] \<and>
        wi_status b = (if wr_ignored_self res then In_IGNORED_SELF else In_NORMALIZED) \<and>
        (\<exists>e. events s' = events s @ [e] \<and> ne_webhook_inbox_id e = wi_id b \<and>
           ne_is_self e = wr_ignored_self res))"
  using ok
proof (cases rule: ingest_cases)
  case (known c b)
  have "unique_by inbox_key (inboxes s)" "unique_by wi_id (inboxes s)"
    using keys ids by (simp_all add: unique_by_def)
  then show ?thesis using known filter_unique_row[OF _ known(2)] by auto
next
  case (lost c b)
  then show ?thesis using keys ids filter_unique_row[OF keys lost(3)] by auto
next
  case (new c b e)
  have u: "unique_by inbox_key (inboxes s')" "unique_by wi_id (inboxes s')"
    using unique_by_new[OF keys, of b] unique_by_new[OF ids, of b] new(2,12) by simp_all
  have "get_row inbox_key (ingest_key c payload (sha256_bytes E raw)) (inboxes s') = Some b"
    by (rule get_row_unique[OF u(1)]) (simp_all add: new)
  then show ?thesis using filter_unique_row[OF u(1)] u new by auto
qed

text \<open>
  When the provider delivers the same callback again, at any later time, it is answered as a
  duplicate and adds neither an inbox row nor an event; a different body under the same message
  id is refused and changes nothing.
\<close>

theorem webhook_redelivery:
  assumes ok: "ingest_gewe_webhook E secret raw payload now clock raced s = Inr (res, s')"
    and keys: "unique_by inbox_key (inboxes s @ raced)" and cons: "unique_by gc_id (connections s)"
  shows "(\<exists>s''. ingest_gewe_webhook E secret raw payload now' clock' raced' s' =
       Inr (\<lparr>wr_duplicate = True, wr_ignored_self = wr_ignored_self res\<rparr>, s'') \<and>
       inboxes s'' = inboxes s' \<and> events s'' = events s') \<and>
     (ge_new_msg_id (normalize_gewe_payload payload) \<noteq> None \<longrightarrow> sha256_bytes E raw' \<noteq> sha256_bytes E raw \<longrightarrow>
       ge_new_msg_id (normalize_gewe_payload payload') = ge_new_msg_id (normalize_gewe_payload payload) \<longrightarrow>
       ge_app_id (normalize_gewe_payload payload') = ge_app_id (normalize_gewe_payload payload) \<longrightarrow>
       ingest_gewe_webhook E secret raw' payload' now' clock' raced' s' = Inl WebhookDedupConflict)"
proof -
  have "\<exists>c b. get_row gc_callback_secret_hash (sha256_hex E secret) (connections s') = Some (touch_connection c now) \<and>
      get_row inbox_key (ingest_key c payload (sha256_bytes E raw)) (inboxes s') = Some b \<and>
      wi_payload_sha256 b = sha256_bytes E raw \<and>
      wr_ignored_self res = ge_is_self (normalize_gewe_payload payload)"
    using ok
  proof (cases rule: ingest_cases)
    case (known c b)
    then show ?thesis using get_row_touched[OF cons known(1)] by auto
  next
    case (lost c b)
    then show ?thesis using get_row_touched[OF cons lost(1)] by auto
  next
    case (new c b e)
    have u: "unique_by inbox_key (inboxes s')"
      using unique_by_new[OF keys, of b] new(2,12) by simp
    have "get_row inbox_key (ingest_key c payload (sha256_bytes E raw)) (inboxes s') = Some b"
      by (rule get_row_unique[OF u]) (simp_all add: new)
    then show ?thesis using get_row_touched[OF cons new(1)] new by auto
  qed
  then obtain c b where c: "get_row gc_callback_secret_hash (sha256_hex E secret) (connections s') = Some (touch_connection c now)"
    and b: "get_row inbox_key (ingest_key (touch_connection c now) payload (sha256_bytes E raw)) (inboxes s') = Some b"
    and d: "wi_payload_sha256 b = sha256_bytes E raw"
    and self: "wr_ignored_self res = ge_is_self (normalize_gewe_payload payload)"
    by (auto simp: ingest_key_def touch_connection_def)
  have other: "ingest_key (touch_connection c now) payload' (sha256_bytes E raw') =
      ingest_key (touch_connection c now) payload (sha256_bytes E raw)"
    if "ge_new_msg_id (normalize_gewe_payload payload) \<noteq> None"
      "ge_new_msg_id (normalize_gewe_payload payload') = ge_new_msg_id (normalize_gewe_payload payload)"
      "ge_app_id (normalize_gewe_payload payload') = ge_app_id (normalize_gewe_payload payload)"
    using that by (auto simp: ingest_key_def dedup_key_of_def)
  show ?thesis
  proof (intro conjI impI)
    show "\<exists>s''. ingest_gewe_webhook E secret raw payload now' clock' raced' s' =
       Inr (\<lparr>wr_duplicate = True, wr_ignored_self = wr_ignored_self res\<rparr>, s'') \<and>
       inboxes s'' = inboxes s' \<and> events s'' = events s'"
      using ingest_known[OF c b] d self by simp
    assume ids: "ge_new_msg_id (normalize_gewe_payload payload) \<noteq> None"
      "ge_new_msg_id (normalize_gewe_payload payload') = ge_new_msg_id (normalize_gewe_payload payload)"
      "ge_app_id (normalize_gewe_payload payload') = ge_app_id (normalize_gewe_payload payload)"
      and "sha256_bytes E raw' \<noteq> sha256_bytes E raw"
    then show "ingest_gewe_webhook E secret raw' payload' now' clock' raced' s' = Inl WebhookDedupConflict"
      using ingest_known[OF c b[folded other[OF ids]]] d by simp
  qed
qed

text \<open>The two formats of one and the same message.\<close>

definition v1_message ::
    "string \<Rightarrow> string \<Rightarrow> string \<Rightarrow> string \<Rightarrow> string \<Rightarrow> json \<Rightarrow> json \<Rightarrow> json \<Rightarrow> json" where
  "v1_message app wxid from_user to_user content msg_id msg_type created = JObj
     [(''TypeName'', JStr ''AddMsg''), (''Appid'', JStr app), (''Wxid'', JStr wxid),
      (''Data'', JObj [(''NewMsgId'', msg_id),
        (''FromUserName'', JObj [(''string'', JStr from_user)]),
        (''ToUserName'', JObj [(''string'', JStr to_user)]),
        (''MsgType'', msg_type), (''Content'', JObj [(''string'', JStr content)]),
        (''CreateTime'', created)])]"

definition v2_message ::
    "string \<Rightarrow> string \<Rightarrow> string \<Rightarrow> string \<Rightarrow> string \<Rightarrow> json \<Rightarrow> json \<Rightarrow> json \<Rightarrow> json" where
  "v2_message app wxid from_user to_user content msg_id msg_type created = JObj
     [(''appid'', JStr app), (''wxid'', JStr wxid), (''fromUser'', JStr from_user),
      (''toUser'', JStr to_user), (''content'', JStr content), (''newMsgId'', msg_id),
      (''msgType'', msg_type), (''isSelf'', JBool (from_user = wxid)), (''createTime'', created)]"


text \<open>
  A message is a group message exactly when one of its ends is a group id, and then its
  conversation is that group and its actor never is; otherwise its conversation is the other
  side: the sender, or the recipient of the bot's own message.
\<close>

theorem conversation_of_message:
  "conversation_fields from_user to_user content is_self = (ctype, cid, actor) \<Longrightarrow>
     (ctype = Conv_GROUP \<longleftrightarrow> is_group_id from_user \<or> is_group_id to_user) \<and>
     (ctype = Conv_GROUP \<longrightarrow> is_group_id cid \<and> (cid = from_user \<or> cid = to_user) \<and>
        (actor = cid \<longrightarrow> group_actor content = cid)) \<and>
     (ctype \<noteq> Conv_GROUP \<longrightarrow> ctype = Conv_PRIVATE \<and> actor = from_user \<and>
        cid = (if is_self then to_user else from_user))"
  by (auto simp: conversation_fields_def is_group_id_None split: if_split_asm option.split_asm)

section \<open>Concrete instances\<close>

definition webhook_env :: env where
  "webhook_env = \<lparr>uuid7 = (\<lambda>n. of_nat (1000 + n)), pyd_uuid = (\<lambda>_. None), sha256_hex = (\<lambda>x. x),
     fernet_decrypt = Some, isoformat = int_str, float_repr = (\<lambda>_. []), pyd_float = (\<lambda>_. None),
     sha256_bytes = map (\<lambda>b. char_of (unat b))\<rparr>"

definition webhook_connection :: gewe_connection where
  "webhook_connection = \<lparr>gc_id = 2, gc_workspace_id = 1, gc_name = ''c'', gc_api_base_url = ''u'',
     gc_token_ciphertext = ''t'', gc_token_fingerprint = ''f'', gc_callback_mode = Cb_MANUAL,
     gc_callback_secret_ciphertext = ''x'', gc_callback_secret_hash = ''secret'',
     gc_callback_expected_url_ciphertext = None, gc_callback_verified_at = None,
     gc_last_callback_at = None, gc_last_callback_error = None, gc_status = Conn_ACTIVE\<rparr>"

definition webhook_db :: db where
  "webhook_db = empty_db\<lparr>connections := [webhook_connection]\<rparr>"

definition webhook_payload :: json where
  "webhook_payload = v2_message ''app'' ''wxid_bot'' ''wxid_a'' ''wxid_bot'' ''hi'' (JInt 7) (JInt 1) (JInt 5)"

lemma webhook_sample:
  obtains res s' where "ingest_gewe_webhook webhook_env ''secret'' [1, 2] webhook_payload 5 6 [] webhook_db = Inr (res, s')"
    "wr_duplicate res = False"
  by (simp add: ingest_gewe_webhook_def webhook_env_def webhook_db_def webhook_connection_def empty_db_def
      get_row_Cons Let_def alloc_def)

lemma webhook_sample_unique:
  "unique_by inbox_key (inboxes webhook_db @ [])" "unique_by wi_id (inboxes webhook_db @ [])"
  "unique_by gc_id (connections webhook_db)"
  by (simp_all add: unique_by_def webhook_db_def empty_db_def)

theorem webhook_ingested_exactly_once_witness:
  "\<exists>res s'. ingest_gewe_webhook webhook_env ''secret'' [1, 2] webhook_payload 5 6 [] webhook_db = Inr (res, s') \<and>
     length (inboxes s') = 1 \<and> length (events s') = 1"
proof -
  obtain res s' where ok: "ingest_gewe_webhook webhook_env ''secret'' [1, 2] webhook_payload 5 6 [] webhook_db = Inr (res, s')"
    "wr_duplicate res = False" by (rule webhook_sample)
  from webhook_ingested_exactly_once[OF ok(1) webhook_sample_unique(1,2)] ok show ?thesis
    by (auto simp: webhook_db_def empty_db_def)
qed

theorem webhook_redelivery_witness:
  "\<exists>res s' s''. ingest_gewe_webhook webhook_env ''secret'' [1, 2] webhook_payload 5 6 [] webhook_db = Inr (res, s') \<and>
     ingest_gewe_webhook webhook_env ''secret'' [1, 2] webhook_payload 8 9 [] s' =
       Inr (\<lparr>wr_duplicate = True, wr_ignored_self = wr_ignored_self res\<rparr>, s'')"
proof -
  obtain res s' where ok: "ingest_gewe_webhook webhook_env ''secret'' [1, 2] webhook_payload 5 6 [] webhook_db = Inr (res, s')"
    by (rule webhook_sample)
  from webhook_redelivery[OF ok webhook_sample_unique(1,3)] ok show ?thesis by blast
qed

theorem conversation_of_message_witness:
  "conversation_fields (Some ''g@chatroom'') (Some ''wxid_bot'') ''wxid_a:\<newline>hi'' False =
     (Conv_GROUP, Some ''g@chatroom'', Some ''wxid_a'') \<and> is_group_id (Some ''g@chatroom'')"
proof -
  have c: "conversation_fields (Some ''g@chatroom'') (Some ''wxid_bot'') ''wxid_a:\<newline>hi'' False =
     (Conv_GROUP, Some ''g@chatroom'', Some ''wxid_a'')" by code_simp
  from conversation_of_message[OF c] c show ?thesis by simp
qed

end
