(* ===== verification/Manifest.thy ===== *)
theory Manifest
  imports Policy
begin

text \<open>
  Plugin manifests (\<open>plugins/manifest.py\<close>): the patterns of identifiers, versions and
  entry points, the validation of a manifest document, and its stored form.
\<close>

section \<open>Regular expressions\<close>

text \<open>
  \<open>re.fullmatch\<close> for patterns without back references: membership in the language of the
  pattern, decided with derivatives.
\<close>

datatype regex =
    RNone
  | REmpty
  | RSet "char list"
  | RAlt regex regex
  | RSeq regex regex
  | RStar regex

fun nullable :: "regex \<Rightarrow> bool" where
  "nullable RNone = False"
| "nullable REmpty = True"
| "nullable (RSet cs) = False"
| "nullable (RAlt a b) = (nullable a \<or> nullable b)"
| "nullable (RSeq a b) = (nullable a \<and> nullable b)"
| "nullable (RStar a) = True"

fun deriv :: "char \<Rightarrow> regex \<Rightarrow> regex" where
  "deriv c RNone = RNone"
| "deriv c REmpty = RNone"
| "deriv c (RSet cs) = (if c \<in> set cs then REmpty else RNone)"
| "deriv c (RAlt a b) = RAlt (deriv c a) (deriv c b)"
| "deriv c (RSeq a b) =
     (if nullable a then RAlt (RSeq (deriv c a) b) (deriv c b) else RSeq (deriv c a) b)"
| "deriv c (RStar a) = RSeq (deriv c a) (RStar a)"

definition fullmatch :: "regex \<Rightarrow> string \<Rightarrow> bool" where
  "fullmatch r s = nullable (foldl (\<lambda>r c. deriv c r) r s)"

inductive in_lang :: "regex \<Rightarrow> string \<Rightarrow> bool" where
  lang_empty: "in_lang REmpty []"
| lang_set: "c \<in> set cs \<Longrightarrow> in_lang (RSet cs) [c]"
| lang_alt1: "in_lang a s \<Longrightarrow> in_lang (RAlt a b) s"
| lang_alt2: "in_lang b s \<Longrightarrow> in_lang (RAlt a b) s"
| lang_seq: "in_lang a s \<Longrightarrow> in_lang b t \<Longrightarrow> in_lang (RSeq a b) (s @ t)"
| lang_star0: "in_lang (RStar a) []"
| lang_star: "in_lang a s \<Longrightarrow> in_lang (RStar a) t \<Longrightarrow> in_lang (RStar a) (s @ t)"

inductive_cases in_lang_none: "in_lang RNone s"
inductive_cases in_lang_eps: "in_lang REmpty s"
inductive_cases in_lang_set: "in_lang (RSet cs) s"
inductive_cases in_lang_alt: "in_lang (RAlt a b) s"
inductive_cases in_lang_seq: "in_lang (RSeq a b) s"

lemma nullable_lang: "nullable r \<longleftrightarrow> in_lang r []"
proof (induction r)
  case (RSeq a b)
  then show ?case using lang_seq[of a "[]" b "[]"] by (auto elim: in_lang_seq)
qed (auto intro: in_lang.intros elim: in_lang_none in_lang_set in_lang_alt)

lemma star_cons:
  "in_lang (RStar a) (c # s) \<Longrightarrow> \<exists>u v. s = u @ v \<and> in_lang a (c # u) \<and> in_lang (RStar a) v"
proof (induction "RStar a" "c # s" arbitrary: s rule: in_lang.induct)
  case (lang_star u v)
  show ?case
  proof (cases u)
    case Nil
    then show ?thesis using lang_star by simp
  next
    case (Cons d u')
    then show ?thesis using lang_star by auto
  qed
qed

lemma deriv_lang: "in_lang (deriv c r) s \<longleftrightarrow> in_lang r (c # s)"
proof (induction r arbitrary: s)
  case (RSeq a b)
  show ?case
  proof
    assume "in_lang (deriv c (RSeq a b)) s"
    then show "in_lang (RSeq a b) (c # s)"
      using RSeq lang_seq[of a "[]" b "c # s"] nullable_lang[of a] lang_seq[of a "c # _" b]
      by (auto split: if_split_asm elim!: in_lang_alt in_lang_seq)
  next
    assume "in_lang (RSeq a b) (c # s)"
    then obtain u v where uv: "c # s = u @ v" "in_lang a u" "in_lang b v" by (auto elim: in_lang_seq)
    show "in_lang (deriv c (RSeq a b)) s"
    proof (cases u)
      case Nil
      then show ?thesis using uv RSeq.IH(2) nullable_lang[of a] by (auto intro: lang_alt2)
    next
      case (Cons d u')
      then have "in_lang (RSeq (deriv c a) b) s" using uv RSeq.IH(1) lang_seq by auto
      then show ?thesis by (auto intro: lang_alt1)
    qed
  qed
next
  case (RStar a)
  show ?case
  proof
    assume "in_lang (deriv c (RStar a)) s"
    then show "in_lang (RStar a) (c # s)" using RStar lang_star[of a "c # _"]
      by (auto elim!: in_lang_seq)
  next
    assume "in_lang (RStar a) (c # s)"
    then show "in_lang (deriv c (RStar a)) s" using star_cons RStar lang_seq by fastforce
  qed
qed (auto intro: in_lang.intros elim: in_lang_none in_lang_eps in_lang_set in_lang_alt)

lemma fullmatch_lang: "fullmatch r s \<longleftrightarrow> in_lang r s"
proof (induction s arbitrary: r)
  case Nil
  then show ?case by (simp add: fullmatch_def nullable_lang)
next
  case (Cons c s)
  have "fullmatch r (c # s) = fullmatch (deriv c r) s" by (simp add: fullmatch_def)
  then show ?case using Cons deriv_lang by simp
qed

definition lower_letters :: string where "lower_letters = ''abcdefghijklmnopqrstuvwxyz''"
definition upper_letters :: string where "upper_letters = ''ABCDEFGHIJKLMNOPQRSTUVWXYZ''"
definition digit_chars :: string where "digit_chars = ''0123456789''"

definition RPlus :: "regex \<Rightarrow> regex" where "RPlus r = RSeq r (RStar r)"
definition ROpt :: "regex \<Rightarrow> regex" where "ROpt r = RAlt REmpty r"
definition RChar :: "char \<Rightarrow> regex" where "RChar c = RSet [c]"

definition plugin_id_pattern :: regex where
  "plugin_id_pattern =
     (let word = RSet (lower_letters @ digit_chars) in
      RSeq (RSet lower_letters) (RSeq (RStar word)
        (RPlus (RSeq (RSet ''._-'') (RPlus word)))))"

definition entrypoint_pattern :: regex where
  "entrypoint_pattern =
     (let start = RSet (upper_letters @ lower_letters @ ''_'');
          word = upper_letters @ lower_letters @ digit_chars @ ''_'' in
      RSeq start (RSeq (RStar (RSet (word @ ''.''))) (RSeq (RChar CHR '':'')
        (RSeq start (RStar (RSet word))))))"

definition semver_pattern :: regex where
  "semver_pattern =
     (let number = RAlt (RChar CHR ''0'') (RSeq (RSet ''123456789'') (RStar (RSet digit_chars)));
          tag = RPlus (RSet (digit_chars @ upper_letters @ lower_letters @ ''.-'')) in
      RSeq number (RSeq (RChar CHR ''.'') (RSeq number (RSeq (RChar CHR ''.'') (RSeq number
        (RSeq (ROpt (RSeq (RChar CHR ''-'') tag)) (ROpt (RSeq (RChar CHR ''+'') tag))))))))"

section \<open>Documents\<close>

record plugin_command =
  mc_name :: string
  mc_aliases :: "string list"
  mc_description :: string

record plugin_tool =
  mt_name :: string
  mt_schema_version :: string
  mt_description :: string
  mt_effect_class :: string
  mt_input_schema :: json
  mt_output_schema :: json
  mt_required_capabilities :: "string list"

record plugin_manifest =
  mf_plugin_id :: string
  mf_name :: string
  mf_version :: string
  mf_core_api :: string
  mf_entrypoint :: string
  mf_description :: string
  mf_events :: "string list"
  mf_commands :: "plugin_command list"
  mf_tools :: "plugin_tool list"
  mf_capabilities :: "string list"
  mf_timeout_seconds :: rat
  mf_config_schema :: json

text \<open>\<open>list(dict.fromkeys(xs))\<close>: first occurrences, in order.\<close>

fun dedup_first :: "'a list \<Rightarrow> 'a list" where
  "dedup_first [] = []"
| "dedup_first (x # xs) = x # filter (\<lambda>y. y \<noteq> x) (dedup_first xs)"

definition str_between :: "nat \<Rightarrow> nat \<Rightarrow> json \<Rightarrow> string option" where
  "str_between lo hi j = (case j of JStr s \<Rightarrow> if lo \<le> length s \<and> length s \<le> hi then Some s else None
     | _ \<Rightarrow> None)"

definition any_str :: "json \<Rightarrow> string option" where
  "any_str j = (case j of JStr s \<Rightarrow> Some s | _ \<Rightarrow> None)"

definition str_list :: "json \<Rightarrow> string list option" where
  "str_list j = (case j of JArr js \<Rightarrow> json_strings js | _ \<Rightarrow> None)"

definition any_obj :: "json \<Rightarrow> json option" where
  "any_obj j = (if is_obj j then Some j else None)"

text \<open>A field with a default: validated when present.\<close>

definition with_default :: "json \<Rightarrow> string \<Rightarrow> (json \<Rightarrow> 'a option) \<Rightarrow> 'a \<Rightarrow> 'a option" where
  "with_default j k f d = (case json_lookup j k of None \<Rightarrow> Some d | Some v \<Rightarrow> f v)"

definition required :: "json \<Rightarrow> string \<Rightarrow> (json \<Rightarrow> 'a option) \<Rightarrow> 'a option" where
  "required j k f = (case json_lookup j k of None \<Rightarrow> None | Some v \<Rightarrow> f v)"

definition only_keys :: "json \<Rightarrow> string list \<Rightarrow> bool" where
  "only_keys j ks \<longleftrightarrow> is_obj j \<and> set (json_keys j) \<subseteq> set ks"

definition keep_if :: "('a \<Rightarrow> bool) \<Rightarrow> 'a \<Rightarrow> 'a option" where
  "keep_if P x = (if P x then Some x else None)"

text \<open>Strip every value; a blank one is an error.\<close>

definition strip_all :: "string list \<Rightarrow> string list option" where
  "strip_all xs = (let ys = map strip xs in if [] \<in> set ys then None else Some ys)"

definition validate_command :: "json \<Rightarrow> plugin_command option" where
  "validate_command j =
     (if \<not> only_keys j [''name'', ''aliases'', ''description''] then None
      else Option.bind (Option.bind (required j ''name'' (str_between 1 80)) (keep_if (\<lambda>n. strip n \<noteq> []))) (\<lambda>name.
           Option.bind (Option.bind (with_default j ''aliases'' str_list []) strip_all) (\<lambda>aliases.
           Option.bind (with_default j ''description'' (str_between 0 300) []) (\<lambda>description.
             Some \<lparr>mc_name = strip name, mc_aliases = aliases, mc_description = description\<rparr>))))"

definition effect_classes :: "string list" where
  "effect_classes = [''READ_ONLY'', ''WRITE'', ''SEND'', ''GROUP_ADMIN'', ''UNKNOWN'']"

definition validate_tool :: "json \<Rightarrow> plugin_tool option" where
  "validate_tool j =
     (if \<not> only_keys j [''name'', ''schema_version'', ''description'', ''effect_class'',
           ''input_schema'', ''output_schema'', ''required_capabilities''] then None
      else Option.bind (required j ''name'' (str_between 1 120)) (\<lambda>name.
           Option.bind (Option.bind (with_default j ''schema_version'' (str_between 1 40) ''1.0'')
              (keep_if (\<lambda>v. strip v \<noteq> []))) (\<lambda>schema_version.
           Option.bind (with_default j ''description'' (str_between 0 500) []) (\<lambda>description.
           Option.bind (Option.bind (required j ''effect_class'' any_str)
              (keep_if (\<lambda>e. e \<in> set effect_classes))) (\<lambda>effect_class.
           Option.bind (with_default j ''input_schema'' any_obj (JObj [])) (\<lambda>input_schema.
           Option.bind (with_default j ''output_schema'' any_obj (JObj [])) (\<lambda>output_schema.
           Option.bind (Option.bind (with_default j ''required_capabilities'' str_list []) strip_all) (\<lambda>caps.
             Some \<lparr>mt_name = name, mt_schema_version = strip schema_version,
                   mt_description = description, mt_effect_class = effect_class,
                   mt_input_schema = input_schema, mt_output_schema = output_schema,
                   mt_required_capabilities = dedup_first caps\<rparr>))))))))"

fun validate_all :: "(json \<Rightarrow> 'a option) \<Rightarrow> json list \<Rightarrow> 'a list option" where
  "validate_all f [] = Some []"
| "validate_all f (j # js) =
     (case f j of None \<Rightarrow> None | Some x \<Rightarrow> map_option (Cons x) (validate_all f js))"

definition list_of :: "(json \<Rightarrow> 'a option) \<Rightarrow> json \<Rightarrow> 'a list option" where
  "list_of f j = (case j of JArr js \<Rightarrow> validate_all f js | _ \<Rightarrow> None)"

definition command_spellings :: "plugin_command \<Rightarrow> string list" where
  "command_spellings c = mc_name c # mc_aliases c"

text \<open>\<open>reject_duplicate_command_names\<close>: the loop with its \<open>seen\<close> set.\<close>

fun names_unique :: "string list \<Rightarrow> string list \<Rightarrow> bool" where
  "names_unique seen [] = True"
| "names_unique seen (n # ns) =
     (casefold n \<notin> set seen \<and> names_unique (casefold n # seen) ns)"

definition no_blank :: "string list \<Rightarrow> bool" where
  "no_blank xs \<longleftrightarrow> (\<forall>x\<in>set xs. strip x \<noteq> [])"

definition manifest_keys :: "string list" where
  "manifest_keys = [''id'', ''name'', ''version'', ''core_api'', ''entrypoint'', ''description'',
     ''events'', ''commands'', ''tools'', ''capabilities'', ''timeout_seconds'', ''config_schema'']"

definition timeout_field :: "env \<Rightarrow> json \<Rightarrow> rat option" where
  "timeout_field E j = Option.bind (pyd_float E j) (keep_if (\<lambda>x. 0 < x \<and> x \<le> 120))"

definition validate_manifest :: "env \<Rightarrow> json \<Rightarrow> plugin_manifest option" where
  "validate_manifest E j =
     (if \<not> only_keys j manifest_keys then None
      else Option.bind (Option.bind (required j ''id'' any_str) (keep_if (fullmatch plugin_id_pattern))) (\<lambda>plugin_id.
           Option.bind (required j ''name'' (str_between 1 120)) (\<lambda>name.
           Option.bind (Option.bind (required j ''version'' any_str) (keep_if (fullmatch semver_pattern))) (\<lambda>version.
           Option.bind (Option.bind (required j ''core_api'' any_str) (keep_if (\<lambda>v. v = ''1''))) (\<lambda>core_api.
           Option.bind (Option.bind (required j ''entrypoint'' any_str) (keep_if (fullmatch entrypoint_pattern))) (\<lambda>entrypoint.
           Option.bind (with_default j ''description'' (str_between 0 500) []) (\<lambda>description.
           Option.bind (Option.bind (with_default j ''events'' str_list []) (keep_if no_blank)) (\<lambda>events.
           Option.bind (with_default j ''commands'' (list_of validate_command) []) (\<lambda>commands.
           Option.bind (with_default j ''tools'' (list_of validate_tool) []) (\<lambda>tools.
           Option.bind (Option.bind (with_default j ''capabilities'' str_list []) (keep_if no_blank)) (\<lambda>capabilities.
           Option.bind (with_default j ''timeout_seconds'' (timeout_field E) 10) (\<lambda>timeout.
           Option.bind (with_default j ''config_schema'' any_obj (JObj [])) (\<lambda>config_schema.
             if names_unique [] (concat (map command_spellings commands))
             then Some \<lparr>mf_plugin_id = plugin_id, mf_name = name, mf_version = version,
                        mf_core_api = core_api, mf_entrypoint = entrypoint,
                        mf_description = description, mf_events = dedup_first events,
                        mf_commands = commands, mf_tools = tools,
                        mf_capabilities = dedup_first capabilities,
                        mf_timeout_seconds = timeout, mf_config_schema = config_schema\<rparr>
             else None)))))))))))))"

section \<open>The stored form\<close>

text \<open>\<open>model_dump(by_alias=True, mode="json")\<close>.\<close>

definition command_json :: "plugin_command \<Rightarrow> json" where
  "command_json c = JObj [(''name'', JStr (mc_name c)), (''aliases'', JArr (map JStr (mc_aliases c))),
     (''description'', JStr (mc_description c))]"

definition tool_json :: "plugin_tool \<Rightarrow> json" where
  "tool_json t = JObj [(''name'', JStr (mt_name t)), (''schema_version'', JStr (mt_schema_version t)),
     (''description'', JStr (mt_description t)), (''effect_class'', JStr (mt_effect_class t)),
     (''input_schema'', mt_input_schema t), (''output_schema'', mt_output_schema t),
     (''required_capabilities'', JArr (map JStr (mt_required_capabilities t)))]"

definition manifest_json :: "plugin_manifest \<Rightarrow> json" where
  "manifest_json m = JObj [(''id'', JStr (mf_plugin_id m)), (''name'', JStr (mf_name m)),
     (''version'', JStr (mf_version m)), (''core_api'', JStr (mf_core_api m)),
     (''entrypoint'', JStr (mf_entrypoint m)), (''description'', JStr (mf_description m)),
     (''events'', JArr (map JStr (mf_events m))),
     (''commands'', JArr (map command_json (mf_commands m))),
     (''tools'', JArr (map tool_json (mf_tools m))),
     (''capabilities'', JArr (map JStr (mf_capabilities m))),
     (''timeout_seconds'', JFloat (mf_timeout_seconds m)),
     (''config_schema'', mf_config_schema m)]"

definition command_names :: "plugin_manifest \<Rightarrow> string list" where
  "command_names m = map casefold (concat (map command_spellings (mf_commands m)))"

section \<open>Validated manifests\<close>

lemma dedup_first_set [simp]: "set (dedup_first xs) = set xs"
  by (induction xs) auto

lemma dedup_first_distinct [simp]: "distinct (dedup_first xs)"
  by (induction xs) auto

lemma dedup_first_id: "distinct xs \<Longrightarrow> dedup_first xs = xs"
  by (induction xs) (auto simp: filter_id_conv)

lemma strip_all_Some:
  "strip_all xs = Some ys \<longleftrightarrow> ys = map strip xs \<and> [] \<notin> set ys"
  by (auto simp: strip_all_def Let_def)

lemma strip_all_again:
  assumes "\<forall>y\<in>set ys. strip y = y \<and> y \<noteq> []"
  shows "strip_all ys = Some ys"
proof -
  have "map strip ys = ys" using assms by (intro map_idI) simp
  then show ?thesis using assms unfolding strip_all_Some by auto
qed

lemma names_unique_distinct:
  "names_unique seen ns \<longleftrightarrow> distinct (map casefold ns) \<and> set (map casefold ns) \<inter> set seen = {}"
  by (induction ns arbitrary: seen) auto

definition command_ok :: "plugin_command \<Rightarrow> bool" where
  "command_ok c \<longleftrightarrow> strip (mc_name c) = mc_name c \<and> mc_name c \<noteq> [] \<and> length (mc_name c) \<le> 80 \<and>
     (\<forall>a\<in>set (mc_aliases c). strip a = a \<and> a \<noteq> []) \<and> length (mc_description c) \<le> 300"

definition tool_ok :: "plugin_tool \<Rightarrow> bool" where
  "tool_ok t \<longleftrightarrow> mt_name t \<noteq> [] \<and> length (mt_name t) \<le> 120 \<and>
     strip (mt_schema_version t) = mt_schema_version t \<and> mt_schema_version t \<noteq> [] \<and>
     length (mt_schema_version t) \<le> 40 \<and> length (mt_description t) \<le> 500 \<and>
     mt_effect_class t \<in> set effect_classes \<and> is_obj (mt_input_schema t) \<and> is_obj (mt_output_schema t) \<and>
     distinct (mt_required_capabilities t) \<and>
     (\<forall>a\<in>set (mt_required_capabilities t). strip a = a \<and> a \<noteq> [])"

definition manifest_ok :: "plugin_manifest \<Rightarrow> bool" where
  "manifest_ok m \<longleftrightarrow> fullmatch plugin_id_pattern (mf_plugin_id m) \<and>
     mf_name m \<noteq> [] \<and> length (mf_name m) \<le> 120 \<and> fullmatch semver_pattern (mf_version m) \<and>
     mf_core_api m = ''1'' \<and> fullmatch entrypoint_pattern (mf_entrypoint m) \<and>
     length (mf_description m) \<le> 500 \<and> distinct (mf_events m) \<and> no_blank (mf_events m) \<and>
     (\<forall>c\<in>set (mf_commands m). command_ok c) \<and> (\<forall>t\<in>set (mf_tools m). tool_ok t) \<and>
     distinct (mf_capabilities m) \<and> no_blank (mf_capabilities m) \<and>
     0 < mf_timeout_seconds m \<and> mf_timeout_seconds m \<le> 120 \<and> is_obj (mf_config_schema m) \<and>
     distinct (command_names m)"

lemmas field_defs = str_between_def any_str_def str_list_def any_obj_def with_default_def required_def
  keep_if_def list_of_def timeout_field_def

lemma str_between_Some: "str_between lo hi j = Some s \<longleftrightarrow> j = JStr s \<and> lo \<le> length s \<and> length s \<le> hi"
  by (cases j) (auto simp: str_between_def)

lemma keep_if_Some: "keep_if P x = Some y \<longleftrightarrow> y = x \<and> P x"
  by (auto simp: keep_if_def)

lemma any_obj_Some: "any_obj j = Some x \<longleftrightarrow> x = j \<and> is_obj j"
  by (auto simp: any_obj_def)

lemma required_Some: "required j k f = Some x \<Longrightarrow> \<exists>v. f v = Some x"
  by (auto simp: required_def split: option.splits)

lemma with_default_Some: "with_default j k f d = Some x \<Longrightarrow> x = d \<or> (\<exists>v. f v = Some x)"
  by (auto simp: with_default_def split: option.splits)

lemma validate_all_ok:
  "validate_all f js = Some xs \<Longrightarrow> (\<And>j x. f j = Some x \<Longrightarrow> P x) \<Longrightarrow> \<forall>x\<in>set xs. P x"
  by (induction js arbitrary: xs) (auto split: option.splits)

lemma list_of_ok:
  "list_of f j = Some xs \<Longrightarrow> (\<And>j x. f j = Some x \<Longrightarrow> P x) \<Longrightarrow> \<forall>x\<in>set xs. P x"
  by (cases j) (auto simp: list_of_def dest: validate_all_ok)

lemma strip_all_ok: "strip_all xs = Some ys \<Longrightarrow> \<forall>y\<in>set ys. strip y = y \<and> y \<noteq> []"
  by (force simp: strip_all_Some)

lemma validate_command_ok:
  assumes "validate_command j = Some c"
  shows "command_ok c"
proof -
  obtain name aliases aliases' description where
    n: "required j ''name'' (str_between 1 80) = Some name" "strip name \<noteq> []"
    and a: "strip_all aliases' = Some aliases"
    and d: "with_default j ''description'' (str_between 0 300) [] = Some description"
    and c: "c = \<lparr>mc_name = strip name, mc_aliases = aliases, mc_description = description\<rparr>"
    using assms by (auto simp: validate_command_def bind_eq_Some_conv keep_if_Some split: if_split_asm)
  have "length (strip name) \<le> 80"
    using required_Some[OF n(1)] length_strip[of name] by (auto simp: str_between_Some)
  moreover have "length description \<le> 300" using with_default_Some[OF d] by (auto simp: str_between_Some)
  ultimately show ?thesis using n(2) strip_all_ok[OF a] unfolding c command_ok_def by simp
qed

lemma validate_tool_ok:
  assumes "validate_tool j = Some t"
  shows "tool_ok t"
proof -
  obtain name sv d eff i out caps caps' where
    n: "required j ''name'' (str_between 1 120) = Some name"
    and sv: "with_default j ''schema_version'' (str_between 1 40) ''1.0'' = Some sv" "strip sv \<noteq> []"
    and d: "with_default j ''description'' (str_between 0 500) [] = Some d"
    and eff: "eff \<in> set effect_classes"
    and i: "with_default j ''input_schema'' any_obj (JObj []) = Some i"
    and out: "with_default j ''output_schema'' any_obj (JObj []) = Some out"
    and caps: "strip_all caps' = Some caps"
    and t: "t = \<lparr>mt_name = name, mt_schema_version = strip sv, mt_description = d, mt_effect_class = eff,
        mt_input_schema = i, mt_output_schema = out, mt_required_capabilities = dedup_first caps\<rparr>"
    using assms by (auto simp: validate_tool_def bind_eq_Some_conv keep_if_Some split: if_split_asm)
  have "length sv \<le> 40" using with_default_Some[OF sv(1)] by (auto simp: str_between_Some)
  then have "length (strip sv) \<le> 40" using length_strip[of sv] by simp
  moreover have "length d \<le> 500" using with_default_Some[OF d] by (auto simp: str_between_Some)
  moreover have "is_obj i" "is_obj out"
    using with_default_Some[OF i] with_default_Some[OF out] by (auto simp: any_obj_Some)
  moreover have "name \<noteq> []" "length name \<le> 120" using required_Some[OF n] by (auto simp: str_between_Some)
  ultimately show ?thesis using sv(2) eff strip_all_ok[OF caps] unfolding t tool_ok_def by simp
qed

lemma validate_manifest_ok:
  assumes "validate_manifest E j = Some m"
  shows "manifest_ok m"
proof -
  obtain name d ev cmds tools caps tm cs where
    n: "required j ''name'' (str_between 1 120) = Some name"
    and d: "with_default j ''description'' (str_between 0 500) [] = Some d"
    and ev: "no_blank ev" and cmds: "with_default j ''commands'' (list_of validate_command) [] = Some cmds"
    and tools: "with_default j ''tools'' (list_of validate_tool) [] = Some tools"
    and caps: "no_blank caps"
    and tm: "with_default j ''timeout_seconds'' (timeout_field E) 10 = Some tm"
    and cs: "with_default j ''config_schema'' any_obj (JObj []) = Some cs"
    and uniq: "names_unique [] (concat (map command_spellings cmds))"
    and m: "mf_name m = name" "mf_description m = d" "mf_events m = dedup_first ev" "mf_commands m = cmds"
      "mf_tools m = tools" "mf_capabilities m = dedup_first caps" "mf_timeout_seconds m = tm"
      "mf_config_schema m = cs" "mf_core_api m = ''1''"
      "fullmatch plugin_id_pattern (mf_plugin_id m)" "fullmatch semver_pattern (mf_version m)"
      "fullmatch entrypoint_pattern (mf_entrypoint m)"
    using assms by (auto simp: validate_manifest_def bind_eq_Some_conv keep_if_Some split: if_split_asm)
  have "name \<noteq> [] \<and> length name \<le> 120" using required_Some[OF n] by (auto simp: str_between_Some)
  moreover have "length d \<le> 500" using with_default_Some[OF d] by (auto simp: str_between_Some)
  moreover have "\<forall>c\<in>set cmds. command_ok c"
    using with_default_Some[OF cmds] list_of_ok[of validate_command _ cmds command_ok] validate_command_ok
    by fastforce
  moreover have "\<forall>t\<in>set tools. tool_ok t"
    using with_default_Some[OF tools] list_of_ok[of validate_tool _ tools tool_ok] validate_tool_ok
    by fastforce
  moreover have "0 < tm \<and> tm \<le> 120"
    using with_default_Some[OF tm] by (auto simp: timeout_field_def bind_eq_Some_conv keep_if_Some)
  moreover have "is_obj cs" using with_default_Some[OF cs] by (auto simp: any_obj_Some)
  moreover have "distinct (command_names m)"
    using uniq m(4) by (simp add: command_names_def names_unique_distinct)
  ultimately show ?thesis using m ev caps unfolding manifest_ok_def no_blank_def by simp
qed

lemma validate_command_dump: "command_ok c \<Longrightarrow> validate_command (command_json c) = Some c"
proof -
  assume ok: "command_ok c"
  then have "strip_all (mc_aliases c) = Some (mc_aliases c)"
    by (intro strip_all_again) (simp add: command_ok_def)
  then show ?thesis using ok
    by (cases c) (auto simp: command_ok_def validate_command_def command_json_def only_keys_def required_def
        with_default_def str_between_def str_list_def keep_if_def Suc_le_eq)
qed

lemma validate_tool_dump: "tool_ok t \<Longrightarrow> validate_tool (tool_json t) = Some t"
proof -
  assume ok: "tool_ok t"
  then have "strip_all (mt_required_capabilities t) = Some (mt_required_capabilities t)"
    by (intro strip_all_again) (simp add: tool_ok_def)
  then show ?thesis using ok
    by (cases t) (auto simp: tool_ok_def validate_tool_def tool_json_def only_keys_def required_def
        with_default_def str_between_def str_list_def keep_if_def any_str_def any_obj_def dedup_first_id Suc_le_eq)
qed

lemma validate_all_map: "(\<And>x. x \<in> set xs \<Longrightarrow> f (g x) = Some x) \<Longrightarrow> validate_all f (map g xs) = Some xs"
  by (induction xs) auto

text \<open>
  The manifest stored for a verified package is read back unchanged whenever the platform
  validates it again (at activation, at routing, at configuration), for any document it was
  first read from; its command names and aliases are unique after case folding.
\<close>

theorem stored_manifest_reads_back:
  assumes float: "\<forall>x. pyd_float E (JFloat x) = Some x" and "validate_manifest E j = Some m"
  shows "validate_manifest E (manifest_json m) = Some m \<and> distinct (command_names m)"
proof -
  note ok = validate_manifest_ok[OF assms(2)]
  have lk: "validate_all validate_command (map command_json (mf_commands m)) = Some (mf_commands m)"
    "validate_all validate_tool (map tool_json (mf_tools m)) = Some (mf_tools m)"
    using ok by (auto simp: manifest_ok_def intro!: validate_all_map validate_command_dump validate_tool_dump)
  have u: "names_unique [] (concat (map command_spellings (mf_commands m)))"
    using ok by (simp add: manifest_ok_def command_names_def names_unique_distinct)
  have "validate_manifest E (manifest_json m) = Some m"
    using ok lk u float
    by (cases m) (simp add: manifest_ok_def validate_manifest_def manifest_json_def only_keys_def
        manifest_keys_def field_defs dedup_first_id Suc_le_eq)
  then show ?thesis using ok by (simp add: manifest_ok_def)
qed

section \<open>Concrete instances\<close>

definition sample_manifest_json :: json where
  "sample_manifest_json = JObj [(''id'', JStr ''demo.weather''), (''name'', JStr ''Weather''),
     (''version'', JStr ''1.0.0''), (''core_api'', JStr ''1''), (''entrypoint'', JStr ''plugin:create''),
     (''commands'', JArr [JObj [(''name'', JStr '' weather ''), (''aliases'', JArr [JStr ''w''])]]),
     (''timeout_seconds'', JInt 5)]"

theorem stored_manifest_reads_back_witness:
  "\<exists>m. validate_manifest sample_env sample_manifest_json = Some m \<and>
     validate_manifest sample_env (manifest_json m) = Some m \<and> command_names m = [''weather'', ''w'']"
proof -
  have v: "map_option command_names (validate_manifest sample_env sample_manifest_json) = Some [''weather'', ''w'']"
    by code_simp
  then obtain m where m: "validate_manifest sample_env sample_manifest_json = Some m"
    "command_names m = [''weather'', ''w'']" by auto
  have "\<forall>x. pyd_float sample_env (JFloat x) = Some x" by (simp add: sample_env_def)
  from stored_manifest_reads_back[OF this m(1)] m show ?thesis by blast
qed

end
