(* ===== verification/Plugin_Scope.thy ===== *)
theory Plugin_Scope
  imports Manifest "HOL-Library.List_Lexorder" "HOL-Library.Char_ord"
begin

text \<open>
  The scope of a deployment: its validation when a revision is created and the check for
  conflicting commands at activation (\<open>plugins/catalog.py\<close>), and how an event is matched
  against it (\<open>_scope_matches\<close> of \<open>events/dispatcher.py\<close>).
\<close>

section \<open>Printed values\<close>

text \<open>\<open>str(value)\<close> and \<open>repr(value)\<close> of a JSON value as Python holds it.\<close>

definition repr_char :: "char \<Rightarrow> char \<Rightarrow> string" where
  "repr_char quote c =
     (let n = (of_char c :: nat) in
      if c = quote \<or> n = 92 then [CHR 0x5C, c]
      else if n = 9 then [CHR 0x5C, CHR ''t'']
      else if n = 10 then [CHR 0x5C, CHR ''n'']
      else if n = 13 then [CHR 0x5C, CHR ''r'']
      else if n < 32 \<or> (127 \<le> n \<and> n \<le> 160) \<or> n = 173 then [CHR 0x5C, CHR ''x''] @ hex_digits 2 n
      else [c])"

definition repr_str :: "string \<Rightarrow> string" where
  "repr_str s =
     (let quote = (if CHR 0x27 \<in> set s \<and> CHR 0x22 \<notin> set s then CHR 0x22 else CHR 0x27)
      in [quote] @ concat (map (repr_char quote) s) @ [quote])"

definition comma_join :: "string list \<Rightarrow> string" where
  "comma_join xs = (case xs of [] \<Rightarrow> [] | y # ys \<Rightarrow> y @ concat (map (\<lambda>z. '', '' @ z) ys))"

fun py_repr :: "env \<Rightarrow> json \<Rightarrow> string" where
  "py_repr E JNull = ''None''"
| "py_repr E (JBool b) = (if b then ''True'' else ''False'')"
| "py_repr E (JInt i) = int_str i"
| "py_repr E (JFloat x) = float_repr E x"
| "py_repr E (JStr s) = repr_str s"
| "py_repr E (JArr xs) = ''['' @ comma_join (map (py_repr E) xs) @ '']''"
| "py_repr E (JObj kvs) = ''{'' @ comma_join (map (\<lambda>(k, v). repr_str k @ '': '' @ py_repr E v) kvs) @ ''}''"

fun py_str :: "env \<Rightarrow> json \<Rightarrow> string" where
  "py_str E (JStr s) = s"
| "py_str E j = py_repr E j"

section \<open>Validation\<close>

datatype catalog_error =
    PluginCatalogError string
  | PluginObjectNotFoundError string
  | PluginActivationError string
  | ManifestInvalid
  | OtherRaised string

definition scope_filter_keys :: "string list" where
  "scope_filter_keys = [''bot_account_ids'', ''chatroom_ids'', ''contact_ids'', ''conversation_ids'']"

fun normalize_scope_items :: "string \<Rightarrow> json list \<Rightarrow> (catalog_error, string list) res" where
  "normalize_scope_items key [] = Inr []"
| "normalize_scope_items key (item # items) =
     (case item of
        JStr t \<Rightarrow>
          if strip t = []
          then Inl (PluginCatalogError (''plugin scope '' @ key @ '' must contain non-empty strings''))
          else bind_res (normalize_scope_items key items) (\<lambda>rest. Inr (strip t # rest))
      | _ \<Rightarrow> Inl (PluginCatalogError (''plugin scope '' @ key @ '' must contain non-empty strings'')))"

fun validate_filters :: "json \<Rightarrow> string list \<Rightarrow> (catalog_error, (string \<times> json) list) res" where
  "validate_filters scope [] = Inr []"
| "validate_filters scope (key # keys) =
     (case json_lookup scope key of
        None \<Rightarrow> validate_filters scope keys
      | Some (JArr items) \<Rightarrow>
          bind_res (normalize_scope_items key items) (\<lambda>normalized.
          bind_res (validate_filters scope keys) (\<lambda>rest.
            Inr ((key, JArr (map JStr (sort (remdups normalized)))) # rest)))
      | Some _ \<Rightarrow> Inl (PluginCatalogError (''plugin scope '' @ key @ '' must be a list of strings'')))"

definition validate_scope_workspace ::
    "json \<Rightarrow> uuid \<Rightarrow> (catalog_error, (string \<times> json) list) res" where
  "validate_scope_workspace scope ws =
     (case json_lookup scope ''workspace_id'' of
        None \<Rightarrow> Inr []
      | Some (JStr raw) \<Rightarrow>
          (case py_uuid raw of
             None \<Rightarrow> Inl (PluginCatalogError ''plugin scope workspace_id must be a UUID string'')
           | Some u \<Rightarrow>
               if u \<noteq> ws
               then Inl (PluginCatalogError ''plugin scope workspace_id does not match deployment'')
               else Inr [(''workspace_id'', JStr (uuid_str u))])
      | Some _ \<Rightarrow> Inl (PluginCatalogError ''plugin scope workspace_id must be a UUID string''))"

definition validate_plugin_scope :: "json \<Rightarrow> uuid \<Rightarrow> (catalog_error, json) res" where
  "validate_plugin_scope scope ws =
     (let unknown = filter (\<lambda>k. k \<notin> set (''workspace_id'' # scope_filter_keys)) (json_keys scope)
      in if unknown \<noteq> []
         then Inl (PluginCatalogError (''plugin scope contains unknown key: '' @ hd (sort unknown)))
         else bind_res (validate_scope_workspace scope ws) (\<lambda>w.
              bind_res (validate_filters scope scope_filter_keys) (\<lambda>fs. Inr (JObj (w @ fs)))))"

section \<open>Matching an event\<close>

text \<open>The resolved context of an event.\<close>

record resolved_context =
  rx_workspace_id :: uuid
  rx_account :: bot_account
  rx_chatroom :: "chatroom option"
  rx_contact :: "contact option"
  rx_principal :: "principal option"
  rx_message_text :: string
  rx_actor_nickname :: "string option"
  rx_actor_cardname :: "string option"

definition scope_filters :: "resolved_context \<Rightarrow> (string \<times> string option) list" where
  "scope_filters x =
     [(''bot_account_ids'', Some (uuid_str (ba_id (rx_account x)))),
      (''chatroom_ids'', map_option (\<lambda>c. uuid_str (cr_id c)) (rx_chatroom x)),
      (''contact_ids'', map_option (\<lambda>c. uuid_str (ct_id c)) (rx_contact x)),
      (''conversation_ids'', (case rx_chatroom x of Some c \<Rightarrow> Some (cr_chatroom_id c)
         | None \<Rightarrow> map_option ct_external_id (rx_contact x)))]"

definition filter_matches :: "env \<Rightarrow> json \<Rightarrow> string \<times> string option \<Rightarrow> bool" where
  "filter_matches E scope kv =
     (case json_get scope (fst kv) of
        JNull \<Rightarrow> True
      | JArr items \<Rightarrow> (case snd kv of None \<Rightarrow> False | Some a \<Rightarrow> a \<in> set (map (py_str E) items))
      | _ \<Rightarrow> False)"

definition scope_matches :: "env \<Rightarrow> json \<Rightarrow> resolved_context \<Rightarrow> bool" where
  "scope_matches E scope x \<longleftrightarrow>
     (json_get scope ''workspace_id'' = JNull
      \<or> py_str E (json_get scope ''workspace_id'') = uuid_str (rx_workspace_id x))
     \<and> (\<forall>kv\<in>set (scope_filters x). filter_matches E scope kv)"

section \<open>Overlap of two scopes\<close>

definition explicit_scope_filter :: "json \<Rightarrow> string \<Rightarrow> string list option" where
  "explicit_scope_filter scope key =
     (case json_get scope key of
        JArr items \<Rightarrow> (case json_strings items of
            None \<Rightarrow> None | Some ts \<Rightarrow> if [] \<in> set ts then None else Some ts)
      | _ \<Rightarrow> None)"

definition scopes_overlap :: "json \<Rightarrow> json \<Rightarrow> bool" where
  "scopes_overlap l r \<longleftrightarrow>
     (\<forall>key\<in>set scope_filter_keys.
        case (explicit_scope_filter l key, explicit_scope_filter r key) of
          (Some a, Some b) \<Rightarrow> set a \<inter> set b \<noteq> {}
        | _ \<Rightarrow> True)"

section \<open>Running deployments and the activation check\<close>

definition deployment_row ::
    "db \<Rightarrow> plugin_deployment \<Rightarrow> (plugin_deployment_revision \<times> plugin_package_version) option" where
  "deployment_row s d =
     Option.bind (Option.bind (dp_active_revision_id d) (\<lambda>i. get_row rv_id i (revisions s))) (\<lambda>rv.
       map_option (Pair rv) (get_row pv_id (rv_package_version_id rv) (packages s)))"

definition running_deployments :: "db \<Rightarrow> uuid \<Rightarrow> plugin_deployment list" where
  "running_deployments s ws =
     sort_key (\<lambda>d. (dp_created_at d, dp_id d))
       (filter (\<lambda>d. dp_workspace_id d = ws \<and> dp_status d = Dp_RUNNING) (deployments s))"

fun check_conflicts ::
    "env \<Rightarrow> string list \<Rightarrow> json
     \<Rightarrow> (plugin_deployment \<times> plugin_deployment_revision \<times> plugin_package_version) list
     \<Rightarrow> (catalog_error, unit) res" where
  "check_conflicts E names scope [] = Inr ()"
| "check_conflicts E names scope ((d, rv, pv) # rows) =
     (if \<not> scopes_overlap scope (rv_scope rv) then check_conflicts E names scope rows
      else case validate_manifest E (pv_manifest pv) of
        None \<Rightarrow> Inl ManifestInvalid
      | Some m \<Rightarrow>
          let conflicts = filter (\<lambda>n. n \<in> set (command_names m)) names
          in if conflicts \<noteq> []
             then Inl (PluginActivationError (''plugin command '' @ [CHR 0x27] @ hd (sort conflicts) @ [CHR 0x27]
                    @ '' conflicts with running deployment '' @ [CHR 0x27] @ dp_name d @ [CHR 0x27]
                    @ '' in an overlapping scope''))
             else check_conflicts E names scope rows)"

definition running_rows ::
    "db \<Rightarrow> uuid \<Rightarrow> uuid \<Rightarrow> (plugin_deployment \<times> plugin_deployment_revision \<times> plugin_package_version) list" where
  "running_rows s ws except =
     List.map_filter (\<lambda>d. if dp_id d = except then None else map_option (Pair d) (deployment_row s d))
       (running_deployments s ws)"

definition reject_running_command_conflicts ::
    "env \<Rightarrow> db \<Rightarrow> plugin_deployment \<Rightarrow> plugin_deployment_revision \<Rightarrow> plugin_package_version
     \<Rightarrow> (catalog_error, unit) res" where
  "reject_running_command_conflicts E s deployment revision package =
     (case validate_manifest E (pv_manifest package) of
        None \<Rightarrow> Inl ManifestInvalid
      | Some m \<Rightarrow>
          if command_names m = [] then Inr ()
          else check_conflicts E (command_names m) (rv_scope revision)
                 (running_rows s (dp_workspace_id deployment) (dp_id deployment)))"

section \<open>Properties\<close>

lemma explicit_scope_filter_Some:
  "explicit_scope_filter scope key = Some ts \<Longrightarrow> json_get scope key = JArr (map JStr ts)"
proof -
  have js: "json_strings items = Some ts \<Longrightarrow> items = map JStr ts" for items
    by (induction items arbitrary: ts rule: json_strings.induct) auto
  assume ex: "explicit_scope_filter scope key = Some ts"
  then obtain items where items: "json_get scope key = JArr items"
    by (cases "json_get scope key") (simp_all add: explicit_scope_filter_def)
  then have "json_strings items = Some ts"
    using ex by (auto simp: explicit_scope_filter_def split: option.split_asm if_split_asm)
  then show "json_get scope key = JArr (map JStr ts)" using js items by simp
qed

lemma scope_matches_filter:
  assumes "scope_matches E scope x" "key \<in> set scope_filter_keys" "explicit_scope_filter scope key = Some ts"
  shows "\<exists>a. map_of (scope_filters x) key = Some (Some a) \<and> a \<in> set ts"
proof -
  have "map fst (scope_filters x) = scope_filter_keys"
    by (simp add: scope_filters_def scope_filter_keys_def)
  then have "map_of (scope_filters x) key \<noteq> None"
    using assms(2) unfolding map_of_in_keys by simp
  then obtain v where m: "map_of (scope_filters x) key = Some v" by blast
  note v = map_of_SomeD[OF m] m
  then have "filter_matches E scope (key, v)" using assms(1) by (simp add: scope_matches_def)
  then show ?thesis using v(2) explicit_scope_filter_Some[OF assms(3)]
    by (auto simp: filter_matches_def split: option.split_asm)
qed

lemma overlap_if_both_match:
  assumes "scope_matches E l x" "scope_matches E r x"
  shows "scopes_overlap l r"
  unfolding scopes_overlap_def
proof
  fix key assume key: "key \<in> set scope_filter_keys"
  show "case (explicit_scope_filter l key, explicit_scope_filter r key) of
      (Some a, Some b) \<Rightarrow> set a \<inter> set b \<noteq> {} | _ \<Rightarrow> True"
  proof (cases "explicit_scope_filter l key")
    case l: (Some a)
    show ?thesis
    proof (cases "explicit_scope_filter r key")
      case (Some b)
      from scope_matches_filter[OF assms(1) key l] scope_matches_filter[OF assms(2) key Some]
      obtain v where "v \<in> set a" "v \<in> set b" by auto
      then show ?thesis using l Some by auto
    qed (simp add: l)
  qed simp
qed

text \<open>
  The overlap test of two scopes misses nothing: if some event matches both scopes, they
  overlap, so deployments whose scopes do not overlap never see the same event.
\<close>

theorem scopes_overlap_complete:
  assumes "scope_matches E l x" "scope_matches E r x"
  shows "scopes_overlap l r"
  by (rule overlap_if_both_match[OF assms])

lemma check_conflicts_Inr:
  "check_conflicts E names scope rows = Inr () \<Longrightarrow> (d, rv, pv) \<in> set rows \<Longrightarrow>
     scopes_overlap scope (rv_scope rv) \<Longrightarrow>
     \<exists>m. validate_manifest E (pv_manifest pv) = Some m \<and> set names \<inter> set (command_names m) = {}"
proof (induction rows)
  case (Cons row rows)
  obtain d' rv' pv' where row: "row = (d', rv', pv')" by (cases row)
  show ?case
  proof (cases "scopes_overlap scope (rv_scope rv')")
    case False
    then show ?thesis using Cons row by auto
  next
    case True
    then obtain m where "validate_manifest E (pv_manifest pv') = Some m"
      "filter (\<lambda>n. n \<in> set (command_names m)) names = []" "check_conflicts E names scope rows = Inr ()"
      using Cons.prems(1) row by (auto simp: Let_def split: option.split_asm if_split_asm)
    then show ?thesis using Cons row by (auto simp: filter_empty_conv)
  qed
qed simp

lemma running_rows_mem:
  "(d, rv, pv) \<in> set (running_rows s ws i) \<longleftrightarrow>
     d \<in> set (deployments s) \<and> dp_workspace_id d = ws \<and> dp_status d = Dp_RUNNING \<and> dp_id d \<noteq> i \<and>
     deployment_row s d = Some (rv, pv)"
  unfolding running_rows_def map_filter_set
  by (auto simp: running_deployments_def split: if_split_asm)

text \<open>
  The activation check lets a deployment pass only if none of its command names or aliases,
  compared after case folding, is claimed by another running deployment of the workspace whose
  scope some common event matches.
\<close>

theorem activation_check_prevents_conflicts:
  assumes "reject_running_command_conflicts E s d rv pv = Inr ()"
    and "d' \<in> set (deployments s)" "dp_workspace_id d' = dp_workspace_id d" "dp_status d' = Dp_RUNNING"
    and "dp_id d' \<noteq> dp_id d" "deployment_row s d' = Some (rv', pv')"
    and "validate_manifest E (pv_manifest pv) = Some m" "validate_manifest E (pv_manifest pv') = Some m'"
    and "scope_matches E (rv_scope rv) x" "scope_matches E (rv_scope rv') x"
  shows "set (command_names m) \<inter> set (command_names m') = {}"
proof (cases "command_names m = []")
  case False
  have "scopes_overlap (rv_scope rv) (rv_scope rv')"
    by (rule overlap_if_both_match[OF assms(9,10)])
  moreover have "(d', rv', pv') \<in> set (running_rows s (dp_workspace_id d) (dp_id d))"
    using assms by (simp add: running_rows_mem)
  moreover have "check_conflicts E (command_names m) (rv_scope rv)
      (running_rows s (dp_workspace_id d) (dp_id d)) = Inr ()"
    using assms(1,7) False by (simp add: reject_running_command_conflicts_def)
  ultimately show ?thesis using check_conflicts_Inr assms(8) by fastforce
qed simp

section \<open>Concrete instances\<close>

text \<open>Two plugins deployed in the sample workspace, each with one command and one event type.\<close>

definition sample_plugin_manifest :: "string \<Rightarrow> json" where
  "sample_plugin_manifest name = JObj [(''id'', JStr (''demo.'' @ name)), (''name'', JStr name),
     (''version'', JStr ''1.0.0''), (''core_api'', JStr ''1''), (''entrypoint'', JStr ''plugin:create''),
     (''events'', JArr [JStr ''message'']), (''commands'', JArr [JObj [(''name'', JStr name)]])]"

definition sample_scope :: "string list \<Rightarrow> json" where
  "sample_scope conversations = JObj [(''conversation_ids'', JArr (map JStr conversations))]"

definition sample_package :: "uuid \<Rightarrow> string \<Rightarrow> plugin_package_version" where
  "sample_package i name = \<lparr>pv_id = i, pv_plugin_id = 30, pv_semantic_version = ''1.0.0'', pv_package_sha256 = ''h'',
     pv_manifest = sample_plugin_manifest name, pv_package_path = ''p'', pv_status = Pk_AVAILABLE\<rparr>"

definition sample_revision :: "uuid \<Rightarrow> uuid \<Rightarrow> string list \<Rightarrow> plugin_deployment_revision" where
  "sample_revision i package conversations = \<lparr>rv_id = i, rv_deployment_id = i, rv_package_version_id = package,
     rv_revision_number = 1, rv_config_ciphertext = [], rv_config_fingerprint = [],
     rv_scope = sample_scope conversations, rv_grants = [''message.reply.text''], rv_content_sha256 = ''c''\<rparr>"

definition sample_deployment :: "uuid \<Rightarrow> uuid \<Rightarrow> deployment_status \<Rightarrow> plugin_deployment" where
  "sample_deployment i revision st = \<lparr>dp_id = i, dp_workspace_id = 1, dp_plugin_id = 30, dp_name = ''d'',
     dp_status = st, dp_active_revision_id = Some revision, dp_last_error = None, dp_created_at = 0\<rparr>"

definition sample_event_context :: resolved_context where
  "sample_event_context = \<lparr>rx_workspace_id = 1, rx_account = sample_account, rx_chatroom = Some sample_chatroom,
     rx_contact = None, rx_principal = Some sample_principal, rx_message_text = ''/weather paris'',
     rx_actor_nickname = None, rx_actor_cardname = None\<rparr>"

definition sample_plugin_db :: db where
  "sample_plugin_db = (sample_db [])\<lparr>
     plugins := [\<lparr>pl_id = 30, pl_workspace_id = 1, pl_plugin_id = ''demo'', pl_name = ''demo'',
       pl_description = [], pl_retired_at = None\<rparr>],
     packages := [sample_package 41 ''weather'', sample_package 42 ''joke''],
     revisions := [sample_revision 51 41 [''g@chatroom'', ''h@chatroom''], sample_revision 52 42 [''g@chatroom'']],
     deployments := [sample_deployment 61 51 Dp_RUNNING, sample_deployment 62 52 Dp_STARTING]\<rparr>"

lemmas sample_plugin_defs = sample_plugin_db_def sample_deployment_def sample_revision_def
  sample_package_def sample_event_context_def

lemma sample_scope_matches: "''g@chatroom'' \<in> set cs \<Longrightarrow> scope_matches sample_env (sample_scope cs) sample_event_context"
  by (simp add: scope_matches_def sample_scope_def json_get_def scope_filters_def filter_matches_def
      sample_event_context_def sample_chatroom_def image_iff)

theorem scopes_overlap_complete_witness:
  "scopes_overlap (sample_scope [''g@chatroom'', ''h@chatroom'']) (sample_scope [''g@chatroom''])"
  by (rule scopes_overlap_complete[OF sample_scope_matches sample_scope_matches]) simp_all

lemma sample_manifest_names:
  "\<exists>m. validate_manifest sample_env (sample_plugin_manifest ''weather'') = Some m \<and> command_names m = [''weather'']"
  "\<exists>m. validate_manifest sample_env (sample_plugin_manifest ''joke'') = Some m \<and> command_names m = [''joke'']"
proof -
  have "map_option command_names (validate_manifest sample_env (sample_plugin_manifest ''weather'')) = Some [''weather'']"
    by code_simp
  then show "\<exists>m. validate_manifest sample_env (sample_plugin_manifest ''weather'') = Some m \<and> command_names m = [''weather'']"
    by auto
  have "map_option command_names (validate_manifest sample_env (sample_plugin_manifest ''joke'')) = Some [''joke'']"
    by code_simp
  then show "\<exists>m. validate_manifest sample_env (sample_plugin_manifest ''joke'') = Some m \<and> command_names m = [''joke'']"
    by auto
qed

lemma sample_rows:
  "deployment_row sample_plugin_db (sample_deployment 61 51 Dp_RUNNING) =
     Some (sample_revision 51 41 [''g@chatroom'', ''h@chatroom''], sample_package 41 ''weather'')"
  "running_rows sample_plugin_db 1 62 = [(sample_deployment 61 51 Dp_RUNNING,
     sample_revision 51 41 [''g@chatroom'', ''h@chatroom''], sample_package 41 ''weather'')]"
  "deployments sample_plugin_db = [sample_deployment 61 51 Dp_RUNNING, sample_deployment 62 52 Dp_STARTING]"
  by (simp_all add: deployment_row_def sample_plugin_defs get_row_def running_rows_def map_filter_simps
      running_deployments_def)

theorem activation_check_prevents_conflicts_witness:
  "\<exists>m m'. validate_manifest sample_env (sample_plugin_manifest ''joke'') = Some m \<and>
     validate_manifest sample_env (sample_plugin_manifest ''weather'') = Some m' \<and>
     set (command_names m) \<inter> set (command_names m') = {}"
proof -
  let ?d = "sample_deployment 62 52 Dp_STARTING" and ?d' = "sample_deployment 61 51 Dp_RUNNING"
    and ?rv = "sample_revision 52 42 [''g@chatroom'']" and ?pv = "sample_package 42 ''joke''"
  obtain m m' where m: "validate_manifest sample_env (pv_manifest ?pv) = Some m" "command_names m = [''joke'']"
    "validate_manifest sample_env (pv_manifest (sample_package 41 ''weather'')) = Some m'"
    "command_names m' = [''weather'']"
    using sample_manifest_names by (auto simp: sample_package_def)
  have d: "dp_id ?d = 62" "dp_id ?d' = 61" "dp_workspace_id ?d = 1" "dp_workspace_id ?d' = 1"
    "dp_status ?d' = Dp_RUNNING" by (simp_all add: sample_deployment_def)
  have chk: "reject_running_command_conflicts sample_env sample_plugin_db ?d ?rv ?pv = Inr ()"
    using m by (simp add: reject_running_command_conflicts_def d sample_rows)
  have "set (command_names m) \<inter> set (command_names m') = {}"
    by (rule activation_check_prevents_conflicts[OF chk _ _ _ _ sample_rows(1) m(1,3), of sample_event_context])
      (simp_all add: d sample_rows sample_revision_def sample_scope_matches)
  then show ?thesis using m(1,3) by (auto simp: sample_package_def)
qed

end
