(* ===== verification/Dispatcher.thy ===== *)
theory Dispatcher
  imports Plugin_Scope Outbox
begin

text \<open>
  The event dispatcher (\<open>events/dispatcher.py\<close>) and the sink that turns a plugin's replies
  into outbox messages (\<open>events/outbox_sink.py\<close>): resolving the context of an event, routing
  it to the running deployments, asking the policy, calling a plugin and accepting its actions.
  A plugin is a parameter: a function from a deployment and an event to an exception or a result.
\<close>

section \<open>Submissions and the sink\<close>

record text_submission =
  ts_bot_account_id :: uuid
  ts_trace_id :: uuid
  ts_idempotency_key :: string
  ts_target_wxid :: string
  ts_text :: string
  ts_authorization_context :: auth_context
  ts_expires_at :: "py_datetime option"
  ts_priority :: int

text \<open>\<open>InvalidPluginActionError\<close> with its message, or the type of any other exception.\<close>

datatype action_error = InvalidPluginAction string | Raised string

definition submission_enqueue :: "text_submission \<Rightarrow> text_enqueue" where
  "submission_enqueue b = \<lparr>en_bot_account_id = ts_bot_account_id b, en_trace_id = ts_trace_id b,
     en_idempotency_key = ts_idempotency_key b, en_target_wxid = ts_target_wxid b,
     en_text = ts_text b, en_expires_at = ts_expires_at b, en_priority = ts_priority b,
     en_at_wxids = [], en_action_type = ''message.reply.text'',
     en_authorization_context = Some (ts_authorization_context b)\<rparr>"

definition submit_text :: "env \<Rightarrow> text_submission \<Rightarrow> instant \<Rightarrow> db \<Rightarrow> (action_error, db) res" where
  "submit_text E b now s =
     (case enqueue_text E (submission_enqueue b) now [] s of
        Inr (m, s') \<Rightarrow> Inr s'
      | Inl OutboxIdempotencyConflict \<Rightarrow>
          Inl (InvalidPluginAction ''plugin action idempotency conflict'')
      | Inl OutboxAccountNotFound \<Rightarrow> Inl (Raised ''OutboxAccountNotFoundError'')
      | Inl OutboxMessageNotFound \<Rightarrow> Inl (Raised ''OutboxMessageNotFoundError'')
      | Inl OutboxIntegrityError \<Rightarrow> Inl (Raised ''IntegrityError'')
      | Inl _ \<Rightarrow> Inl (InvalidPluginAction ''plugin reply action is invalid''))"

section \<open>Resolving the context of an event\<close>

definition message_text :: "normalized_event \<Rightarrow> string" where
  "message_text e =
     (let raw = (case json_lookup (ne_content e) ''raw_content'' of None \<Rightarrow> JStr [] | Some v \<Rightarrow> v);
          t = (case raw of JStr x \<Rightarrow> x | _ \<Rightarrow> [])
      in case (ne_conversation_type e, ne_actor_wxid e) of
           (Conv_GROUP, Some actor) \<Rightarrow>
             if actor \<noteq> [] \<and> startswith t (actor @ '':\<newline>'') then drop (length actor + 2) t else t
         | _ \<Rightarrow> t)"

definition ensure_chatroom :: "env \<Rightarrow> uuid \<Rightarrow> string \<Rightarrow> db \<Rightarrow> chatroom \<times> db" where
  "ensure_chatroom E account external s =
     (case find (\<lambda>c. cr_bot_account_id c = account \<and> cr_chatroom_id c = external) (chatrooms s) of
        Some c \<Rightarrow> (c, s)
      | None \<Rightarrow>
          let (i, s1) = alloc E s;
              c = \<lparr>cr_id = i, cr_bot_account_id = account, cr_chatroom_id = external, cr_name = None,
                   cr_owner_wxid = None, cr_member_count = None, cr_discovered_from = ''WEBHOOK'',
                   cr_placeholder = True, cr_last_synced_at = None\<rparr>
          in (c, s1\<lparr>chatrooms := chatrooms s1 @ [c]\<rparr>))"

definition ensure_contact :: "env \<Rightarrow> uuid \<Rightarrow> string \<Rightarrow> db \<Rightarrow> contact \<times> db" where
  "ensure_contact E account external s =
     (case find (\<lambda>c. ct_bot_account_id c = account \<and> ct_external_id c = external) (contacts s) of
        Some c \<Rightarrow> (c, s)
      | None \<Rightarrow>
          let (i, s1) = alloc E s;
              c = \<lparr>ct_id = i, ct_bot_account_id = account, ct_external_id = external,
                   ct_contact_type = ''DISCOVERED'', ct_nickname = None, ct_remark = None,
                   ct_avatar_url = None, ct_active = True, ct_last_synced_at = None\<rparr>
          in (c, s1\<lparr>contacts := contacts s1 @ [c]\<rparr>))"

definition member_epochs :: "db \<Rightarrow> uuid \<Rightarrow> string \<Rightarrow> int list" where
  "member_epochs s room wxid =
     map cm_membership_epoch (filter (\<lambda>m. cm_chatroom_id m = room \<and> cm_member_wxid m = wxid) (memberships s))"

definition ensure_membership ::
    "env \<Rightarrow> uuid \<Rightarrow> string \<Rightarrow> instant \<Rightarrow> db \<Rightarrow> (string, chatroom_membership \<times> db) res" where
  "ensure_membership E room wxid now s =
     (if get_row cr_id room (chatrooms s) = None then Inl ''EventDispatchError''
      else case find (\<lambda>m. cm_chatroom_id m = room \<and> cm_member_wxid m = wxid \<and> cm_left_at m = None)
             (memberships s) of
        Some m \<Rightarrow> Inr (m, s)
      | None \<Rightarrow>
          let latest = (case list_max (member_epochs s room wxid) of None \<Rightarrow> 0 | Some e \<Rightarrow> e);
              (i, s1) = alloc E s;
              m = \<lparr>cm_id = i, cm_chatroom_id = room, cm_member_wxid = wxid,
                   cm_membership_epoch = latest + 1, cm_nickname = None, cm_display_name = None,
                   cm_inviter_wxid = None, cm_member_flag = None, cm_joined_at = now, cm_left_at = None\<rparr>
          in Inr (m, s1\<lparr>memberships := memberships s1 @ [m]\<rparr>))"

fun policy_error_name :: "policy_error \<Rightarrow> string" where
  "policy_error_name (PolicyObjectNotFound _) = ''PolicyObjectNotFoundError''"
| "policy_error_name (InvalidPolicyRule _) = ''InvalidPolicyRuleError''"

text \<open>\<open>PrincipalCreate(...)\<close> with its field bounds, then \<open>create_principal\<close>.\<close>

definition actor_principal ::
    "env \<Rightarrow> uuid \<Rightarrow> principal_type \<Rightarrow> string \<Rightarrow> db \<Rightarrow> (string, principal \<times> db) res" where
  "actor_principal E ws t external s =
     (if external = [] \<or> 255 < length external then Inl ''ValidationError''
      else case create_principal E \<lparr>pc_workspace_id = ws, pc_principal_type = t,
              pc_external_id = external, pc_display_name = None\<rparr> s of
        Inl e \<Rightarrow> Inl (policy_error_name e)
      | Inr r \<Rightarrow> Inr r)"

definition resolve_group ::
    "env \<Rightarrow> bot_account \<Rightarrow> uuid \<Rightarrow> string \<Rightarrow> normalized_event \<Rightarrow> instant \<Rightarrow> db
     \<Rightarrow> (string, resolved_context \<times> db) res" where
  "resolve_group E account ws external e now s =
     (let (room, s1) = ensure_chatroom E (ba_id account) external s;
          ctx = \<lparr>rx_workspace_id = ws, rx_account = account, rx_chatroom = Some room,
                 rx_contact = None, rx_principal = None, rx_message_text = message_text e,
                 rx_actor_nickname = None, rx_actor_cardname = None\<rparr>
      in case ne_actor_wxid e of
           None \<Rightarrow> Inr (ctx, s1)
         | Some actor \<Rightarrow>
             if actor = [] then Inr (ctx, s1)
             else bind_res (ensure_membership E (cr_id room) actor now s1) (\<lambda>(m, s2).
                  bind_res (actor_principal E ws Pr_GROUP_MEMBER actor s2) (\<lambda>(p, s3).
                    Inr (ctx\<lparr>rx_principal := Some p, rx_actor_nickname := cm_nickname m,
                             rx_actor_cardname := cm_display_name m\<rparr>, s3))))"

definition resolve_private ::
    "env \<Rightarrow> bot_account \<Rightarrow> uuid \<Rightarrow> string \<Rightarrow> normalized_event \<Rightarrow> db
     \<Rightarrow> (string, resolved_context \<times> db) res" where
  "resolve_private E account ws peer e s =
     (let external = (case ne_actor_wxid e of Some a \<Rightarrow> if a = [] then peer else a | None \<Rightarrow> peer);
          (c, s1) = ensure_contact E (ba_id account) external s
      in bind_res (actor_principal E ws Pr_CONTACT external s1) (\<lambda>(p, s2).
           Inr (\<lparr>rx_workspace_id = ws, rx_account = account, rx_chatroom = None,
                 rx_contact = Some c, rx_principal = Some p, rx_message_text = message_text e,
                 rx_actor_nickname = ct_nickname c, rx_actor_cardname = ct_remark c\<rparr>, s2)))"

definition resolve_context ::
    "env \<Rightarrow> normalized_event \<Rightarrow> instant \<Rightarrow> db \<Rightarrow> (string, resolved_context option \<times> db) res" where
  "resolve_context E e now s =
     (case Option.bind (ne_bot_account_id e) (\<lambda>i. get_row ba_id i (accounts s)) of
        None \<Rightarrow> Inr (None, s)
      | Some account \<Rightarrow>
          (case get_row gc_id (ba_gewe_connection_id account) (connections s) of
             None \<Rightarrow> Inr (None, s)
           | Some connection \<Rightarrow>
               let ws = gc_workspace_id connection;
                   conversation = (case ne_conversation_id e of None \<Rightarrow> [] | Some c \<Rightarrow> c);
                   wrap = (\<lambda>(ctx, s'). Inr (Some ctx, s'))
               in if ne_conversation_type e = Conv_GROUP \<and> conversation \<noteq> []
                  then bind_res (resolve_group E account ws conversation e now s) wrap
                  else if ne_conversation_type e = Conv_PRIVATE \<and> conversation \<noteq> []
                  then bind_res (resolve_private E account ws conversation e s) wrap
                  else Inr (Some \<lparr>rx_workspace_id = ws, rx_account = account, rx_chatroom = None,
                         rx_contact = None, rx_principal = None, rx_message_text = message_text e,
                         rx_actor_nickname = None, rx_actor_cardname = None\<rparr>, s)))"

section \<open>Routing\<close>

record plugin_route =
  rt_deployment :: plugin_deployment
  rt_revision :: plugin_deployment_revision
  rt_manifest :: plugin_manifest

text \<open>\<open>_plugin_routes\<close>: \<open>None\<close> when the manifest of a running deployment does not validate.\<close>

fun collect_routes ::
    "env \<Rightarrow> resolved_context \<Rightarrow>
     (plugin_deployment \<times> plugin_deployment_revision \<times> plugin_package_version) list
     \<Rightarrow> plugin_route list option" where
  "collect_routes E x [] = Some []"
| "collect_routes E x ((d, rv, pv) # rows) =
     (case validate_manifest E (pv_manifest pv) of
        None \<Rightarrow> None
      | Some m \<Rightarrow>
          map_option (\<lambda>rest. if scope_matches E (rv_scope rv) x
              then \<lparr>rt_deployment = d, rt_revision = rv, rt_manifest = m\<rparr> # rest else rest)
            (collect_routes E x rows))"

definition routable_rows ::
    "db \<Rightarrow> uuid \<Rightarrow> (plugin_deployment \<times> plugin_deployment_revision \<times> plugin_package_version) list" where
  "routable_rows s ws =
     List.map_filter (\<lambda>d. if get_row pl_id (dp_plugin_id d) (plugins s) = None then None
        else map_option (Pair d) (deployment_row s d)) (running_deployments s ws)"

definition plugin_routes :: "env \<Rightarrow> db \<Rightarrow> resolved_context \<Rightarrow> plugin_route list option" where
  "plugin_routes E s x = collect_routes E x (routable_rows s (rx_workspace_id x))"

definition parse_command :: "string \<Rightarrow> (string \<times> string) option" where
  "parse_command t =
     (let stripped = strip t
      in if \<not> (startswith stripped ''/'' \<or> startswith stripped ''!'') then None
         else let line = lstrip (drop 1 stripped)
              in if line = [] then None
                 else (case partition_on '' '' line of
                         (name, Some arguments) \<Rightarrow> Some (name, lstrip arguments)
                       | (name, None) \<Rightarrow> Some (name, [])))"

definition looks_like_command :: "string \<Rightarrow> bool" where
  "looks_like_command t \<longleftrightarrow> parse_command t \<noteq> None"

definition claims_command :: "string \<Rightarrow> plugin_command \<Rightarrow> bool" where
  "claims_command name c \<longleftrightarrow> (\<exists>n\<in>set (command_spellings c). casefold name = casefold n)"

text \<open>The first matching command of each route; the code breaks out of the inner loop there.\<close>

definition command_routes ::
    "plugin_route list \<Rightarrow> string \<Rightarrow> (plugin_route \<times> plugin_command \<times> string) list" where
  "command_routes routes t =
     (case parse_command t of
        None \<Rightarrow> []
      | Some (name, arguments) \<Rightarrow>
          List.map_filter (\<lambda>r. map_option (\<lambda>c. (r, c, arguments))
            (find (claims_command name) (mf_commands (rt_manifest r)))) routes)"

type_synonym selection = "plugin_route \<times> plugin_command option \<times> string"

definition select_routes ::
    "normalized_event \<Rightarrow> resolved_context \<Rightarrow> plugin_route list \<Rightarrow> selection list" where
  "select_routes e x routes =
     (case command_routes routes (rx_message_text x) of
        (r, c, arguments) # _ \<Rightarrow> [(r, Some c, arguments)]
      | [] \<Rightarrow>
          if looks_like_command (rx_message_text x) then []
          else map (\<lambda>r. (r, None, rx_message_text x))
                 (filter (\<lambda>r. ne_event_type e \<in> set (mf_events (rt_manifest r))) routes))"

definition command_resource_id :: "string \<Rightarrow> string \<Rightarrow> string" where
  "command_resource_id plugin_id command_name = ''command.'' @ plugin_id @ ''.'' @ command_name"

definition route_resource ::
    "plugin_route \<Rightarrow> plugin_command option \<Rightarrow> resource_type \<times> string \<times> string option" where
  "route_resource r command =
     (case command of
        Some c \<Rightarrow> (Rs_COMMAND, command_resource_id (mf_plugin_id (rt_manifest r)) (mc_name c),
                   Some (mf_plugin_id (rt_manifest r)))
      | None \<Rightarrow> (Rs_PLUGIN, mf_plugin_id (rt_manifest r), None))"

definition route_request ::
    "resolved_context \<Rightarrow> uuid \<Rightarrow> plugin_route \<Rightarrow> plugin_command option \<Rightarrow> acl_request" where
  "route_request x trace r command =
     (case route_resource r command of (rt, rid, parent) \<Rightarrow>
       \<lparr>rq_workspace_id = rx_workspace_id x, rq_bot_account_id = ba_id (rx_account x),
        rq_actor_principal_id = map_option pr_id (rx_principal x),
        rq_chatroom_id = map_option cr_id (rx_chatroom x),
        rq_contact_id = map_option ct_id (rx_contact x),
        rq_resource_type = rt, rq_resource_id = rid, rq_parent_plugin_id = parent,
        rq_trace_id = Some trace\<rparr>)"

text \<open>The field bounds of \<open>AclEvaluationRequest\<close>.\<close>

definition request_ok :: "acl_request \<Rightarrow> bool" where
  "request_ok q \<longleftrightarrow> rq_resource_id q \<noteq> [] \<and> length (rq_resource_id q) \<le> 255 \<and>
     (case rq_parent_plugin_id q of None \<Rightarrow> True | Some p \<Rightarrow> length p \<le> 255)"

definition event_envelope ::
    "env \<Rightarrow> normalized_event \<Rightarrow> webhook_inbox \<Rightarrow> resolved_context \<Rightarrow> string \<Rightarrow> plugin_command option
     \<Rightarrow> json" where
  "event_envelope E e inbox x content command = JObj
     [(''schema_version'', JStr ''1.0''), (''event_id'', JStr (uuid_str (ne_id e))),
      (''trace_id'', JStr (uuid_str (wi_trace_id inbox))), (''event_type'', JStr (ne_event_type e)),
      (''occurred_at'', (case ne_occurred_at e of None \<Rightarrow> JNull | Some t \<Rightarrow> JStr (isoformat E t))),
      (''received_at'', JStr (isoformat E (ne_created_at e))),
      (''workspace_id'', JStr (uuid_str (rx_workspace_id x))),
      (''bot'', JObj [(''account_id'', JStr (uuid_str (ba_id (rx_account x)))),
         (''app_id'', JStr (ba_app_id (rx_account x))), (''wxid'', json_opt_str (ba_wxid (rx_account x)))]),
      (''conversation'', JObj [(''type'', JStr (conversation_type_str (ne_conversation_type e))),
         (''external_id'', json_opt_str (ne_conversation_id e))]),
      (''actor'', JObj [(''wxid'', json_opt_str (ne_actor_wxid e))]),
      (''message'', JObj [(''provider_message_id'', json_opt_str (ne_provider_message_id e)),
         (''is_self'', JBool (ne_is_self e)), (''text'', JStr content)]),
      (''command'', (case command of None \<Rightarrow> JNull
         | Some c \<Rightarrow> JObj [(''name'', JStr (mc_name c)), (''arguments'', JStr content)])),
      (''content'', JStr content),
      (''source'', JObj [(''inbox_id'', JStr (uuid_str (wi_id inbox))), (''raw_ref'', JStr (ne_raw_ref e))])]"

section \<open>Reading the actions of a plugin\<close>

definition plugin_actions :: "json \<Rightarrow> (action_error, json list) res" where
  "plugin_actions result =
     (if \<not> is_obj result then Inl (InvalidPluginAction ''plugin result must be an object'')
      else case json_lookup result ''actions'' of
        None \<Rightarrow> Inr []
      | Some (JArr actions) \<Rightarrow>
          if 20 < length actions then Inl (InvalidPluginAction ''plugin returned too many actions'')
          else if \<exists>a\<in>set actions. \<not> is_obj a
          then Inl (InvalidPluginAction ''plugin action must be an object'')
          else Inr actions
      | Some _ \<Rightarrow> Inl (InvalidPluginAction ''plugin actions must be an array''))"

text \<open>Truth of a JSON value in \<open>a or b\<close>.\<close>

fun json_truthy :: "json \<Rightarrow> bool" where
  "json_truthy JNull = False"
| "json_truthy (JBool b) = b"
| "json_truthy (JInt i) = (i \<noteq> 0)"
| "json_truthy (JFloat x) = (x \<noteq> 0)"
| "json_truthy (JStr s) = (s \<noteq> [])"
| "json_truthy (JArr xs) = (xs \<noteq> [])"
| "json_truthy (JObj kvs) = (kvs \<noteq> [])"

definition route_context ::
    "resolved_context \<Rightarrow> plugin_route \<Rightarrow> plugin_command option \<Rightarrow> auth_context" where
  "route_context x r command =
     (case route_resource r command of (rt, rid, parent) \<Rightarrow>
       \<lparr>ac_workspace_id = rx_workspace_id x, ac_deployment_id = dp_id (rt_deployment r),
        ac_deployment_revision_id = rv_id (rt_revision r),
        ac_actor_principal_id = map_option pr_id (rx_principal x),
        ac_chatroom_id = map_option cr_id (rx_chatroom x),
        ac_contact_id = map_option ct_id (rx_contact x), ac_resource_type = rt,
        ac_resource_id = rid, ac_parent_plugin_id = parent\<rparr>)"

text \<open>The action type; a list or an object cannot be looked up in a set of strings.\<close>

definition check_action_type :: "json \<Rightarrow> (action_error, unit) res" where
  "check_action_type action =
     (let t = (if json_truthy (json_get action ''action_type'') then json_get action ''action_type''
               else json_get action ''type'')
      in case t of
           JArr _ \<Rightarrow> Inl (Raised ''TypeError'')
         | JObj _ \<Rightarrow> Inl (Raised ''TypeError'')
         | _ \<Rightarrow> check_that (t \<in> {JStr ''message.reply.text'', JStr ''reply.text''})
                  (InvalidPluginAction ''unsupported plugin action type''))"

definition action_content :: "json \<Rightarrow> (action_error, string) res" where
  "action_content action =
     (let c = json_get action ''content'';
          c' = (if c = JNull \<and> is_obj (json_get action ''payload'')
                then json_get (json_get action ''payload'') ''text'' else c)
      in case c' of
           JStr t \<Rightarrow>
             if strip t = [] then Inl (InvalidPluginAction ''reply text must be a non-empty string'')
             else if 10000 < length t
             then Inl (InvalidPluginAction ''reply text exceeds the maximum length'')
             else Inr t
         | _ \<Rightarrow> Inl (InvalidPluginAction ''reply text must be a non-empty string''))"

definition action_key :: "json \<Rightarrow> nat \<Rightarrow> (action_error, string) res" where
  "action_key action index =
     (case (case json_lookup action ''action_key'' of None \<Rightarrow> JStr (nat_str index) | Some v \<Rightarrow> v) of
        JStr k \<Rightarrow> if k = [] \<or> 120 < length k then Inl (InvalidPluginAction ''action_key is invalid'')
                  else Inr k
      | _ \<Rightarrow> Inl (InvalidPluginAction ''action_key is invalid''))"

definition submission_key :: "uuid \<Rightarrow> uuid \<Rightarrow> string \<Rightarrow> string" where
  "submission_key deployment event key =
     ''plugin:'' @ uuid_str deployment @ '':event:'' @ uuid_str event @ '':action:'' @ key"

definition make_submission ::
    "json \<Rightarrow> nat \<Rightarrow> normalized_event \<Rightarrow> webhook_inbox \<Rightarrow> resolved_context \<Rightarrow> plugin_route
     \<Rightarrow> plugin_command option \<Rightarrow> (action_error, text_submission) res" where
  "make_submission action index e inbox x r command =
     bind_res (check_action_type action) (\<lambda>_.
     bind_res (action_content action) (\<lambda>content.
     bind_res (action_key action index) (\<lambda>key.
       case ne_conversation_id e of
         None \<Rightarrow> Inl (InvalidPluginAction ''reply event has no conversation target'')
       | Some target \<Rightarrow>
           if \<not> auth_context_ok (route_context x r command) then Inl (Raised ''ValidationError'')
           else Inr \<lparr>ts_bot_account_id = ba_id (rx_account x), ts_trace_id = wi_trace_id inbox,
             ts_idempotency_key = submission_key (dp_id (rt_deployment r)) (ne_id e) key,
             ts_target_wxid = target, ts_text = content,
             ts_authorization_context = route_context x r command,
             ts_expires_at = None, ts_priority = 100\<rparr>)))"

fun make_submissions ::
    "nat \<Rightarrow> json list \<Rightarrow> normalized_event \<Rightarrow> webhook_inbox \<Rightarrow> resolved_context \<Rightarrow> plugin_route
     \<Rightarrow> plugin_command option \<Rightarrow> (action_error, text_submission list) res" where
  "make_submissions i [] e inbox x r command = Inr []"
| "make_submissions i (a # as) e inbox x r command =
     bind_res (make_submission a i e inbox x r command) (\<lambda>b.
     bind_res (make_submissions (Suc i) as e inbox x r command) (\<lambda>bs. Inr (b # bs)))"

section \<open>Delivering an event to the selected plugins\<close>

text \<open>The plugins called during a dispatch, and the clock readings taken for each of them.\<close>

datatype clock_reading = Evaluated | Attempted | Submitted nat | Completed

record dispatch_world =
  dw_invoke :: "string \<Rightarrow> json \<Rightarrow> string + json"
  dw_resolved_at :: instant
  dw_clock :: "uuid \<Rightarrow> clock_reading \<Rightarrow> instant"

record tally =
  tl_invoked :: nat
  tl_denied :: nat
  tl_rejected :: nat
  tl_accepted :: nat
  tl_retryable :: "string list"

definition terminal_dispatch_statuses :: "dispatch_status set" where
  "terminal_dispatch_statuses = {Ds_SUCCEEDED, Ds_DENIED, Ds_REJECTED}"

definition find_dispatch :: "db \<Rightarrow> uuid \<Rightarrow> uuid \<Rightarrow> plugin_event_dispatch option" where
  "find_dispatch s event deployment =
     find (\<lambda>d. ed_event_id d = event \<and> ed_deployment_id d = deployment) (dispatches s)"

text \<open>The insert fails when the primary key is taken.\<close>

definition dispatch_record ::
    "env \<Rightarrow> normalized_event \<Rightarrow> plugin_route \<Rightarrow> db \<Rightarrow> (string, plugin_event_dispatch \<times> db) res" where
  "dispatch_record E e r s =
     (case find_dispatch s (ne_id e) (dp_id (rt_deployment r)) of
        Some d \<Rightarrow> Inr (d, s)
      | None \<Rightarrow>
          let (i, s1) = alloc E s;
              d = \<lparr>ed_id = i, ed_event_id = ne_id e, ed_deployment_id = dp_id (rt_deployment r),
                   ed_revision_id = rv_id (rt_revision r), ed_status = Ds_PENDING,
                   ed_attempt_count = 0, ed_accepted_action_count = 0, ed_last_error_type = None,
                   ed_last_attempt_at = None, ed_completed_at = None\<rparr>
          in if \<exists>x\<in>set (dispatches s1). ed_id x = i then Inl ''IntegrityError''
             else Inr (d, s1\<lparr>dispatches := dispatches s1 @ [d]\<rparr>))"

definition put_dispatch :: "plugin_event_dispatch \<Rightarrow> db \<Rightarrow> db" where
  "put_dispatch d s = s\<lparr>dispatches := put_row ed_id d (dispatches s)\<rparr>"

definition dispatch_audit ::
    "resolved_context \<Rightarrow> normalized_event \<Rightarrow> string \<Rightarrow> string \<Rightarrow> string \<Rightarrow> (string \<times> json) list \<Rightarrow> db \<Rightarrow> db" where
  "dispatch_audit x e action object_id outcome detail s =
     s\<lparr>audits := audits s @
        [\<lparr>au_workspace_id = rx_workspace_id x,
          au_trace_id = map_option wi_trace_id (get_row wi_id (ne_webhook_inbox_id e) (inboxes s)),
          au_actor_type = (case rx_principal x of Some p \<Rightarrow> principal_type_str (pr_principal_type p)
            | None \<Rightarrow> ''UNKNOWN''),
          au_actor_id = (case rx_principal x of Some p \<Rightarrow> pr_external_id p | None \<Rightarrow> ''unknown''),
          au_action = action, au_object_type = ''plugin_deployment'', au_object_id = object_id,
          au_result = outcome, au_detail = JObj detail\<rparr>]\<rparr>"

text \<open>
  The loop over the submissions of one plugin.  It stops at the first exception; what was
  submitted before stays in the session.
\<close>

fun submit_all ::
    "(text_submission \<Rightarrow> instant \<Rightarrow> db \<Rightarrow> (action_error, db) res) \<Rightarrow> (nat \<Rightarrow> instant) \<Rightarrow> nat
     \<Rightarrow> text_submission list \<Rightarrow> db \<Rightarrow> action_error option \<times> nat \<times> db" where
  "submit_all submit clock i [] s = (None, 0, s)"
| "submit_all submit clock i (b # bs) s =
     (case submit b (clock i) s of
        Inl err \<Rightarrow> (Some err, 0, s)
      | Inr s1 \<Rightarrow> (case submit_all submit clock (Suc i) bs s1 of (err, n, s2) \<Rightarrow> (err, Suc n, s2)))"

text \<open>The actions of a result and their submissions, with the check of the revision's grants.\<close>

definition read_actions ::
    "json \<Rightarrow> normalized_event \<Rightarrow> webhook_inbox \<Rightarrow> resolved_context \<Rightarrow> plugin_route
     \<Rightarrow> plugin_command option \<Rightarrow> (action_error, json list \<times> text_submission list) res" where
  "read_actions result e inbox x r command =
     bind_res (plugin_actions result) (\<lambda>actions.
     bind_res (make_submissions 0 actions e inbox x r command) (\<lambda>submissions.
       if submissions \<noteq> [] \<and> ''message.reply.text'' \<notin> set (rv_grants (rt_revision r))
       then Inl (InvalidPluginAction ''deployment revision lacks message.reply.text grant'')
       else Inr (actions, submissions)))"

definition reject_route ::
    "dispatch_world \<Rightarrow> normalized_event \<Rightarrow> resolved_context \<Rightarrow> plugin_route \<Rightarrow> plugin_event_dispatch
     \<Rightarrow> string \<Rightarrow> db \<Rightarrow> db" where
  "reject_route W e x r d reason s =
     (let dep = dp_id (rt_deployment r)
      in dispatch_audit x e ''plugin.action.submit'' (uuid_str dep) ''REJECTED''
           [(''plugin_id'', JStr (mf_plugin_id (rt_manifest r))), (''reason'', JStr reason)]
           (put_dispatch (d\<lparr>ed_status := Ds_REJECTED, ed_completed_at := Some (dw_clock W dep Completed),
              ed_last_error_type := Some ''InvalidPluginActionError''\<rparr>) s))"

definition succeed_route ::
    "dispatch_world \<Rightarrow> normalized_event \<Rightarrow> resolved_context \<Rightarrow> plugin_route \<Rightarrow> plugin_event_dispatch
     \<Rightarrow> nat \<Rightarrow> db \<Rightarrow> db" where
  "succeed_route W e x r d n s =
     (let dep = dp_id (rt_deployment r)
      in dispatch_audit x e ''plugin.event.dispatch'' (uuid_str dep) ''SUCCEEDED''
           [(''plugin_id'', JStr (mf_plugin_id (rt_manifest r))), (''accepted_actions'', JInt (int n))]
           (put_dispatch (d\<lparr>ed_status := Ds_SUCCEEDED, ed_accepted_action_count := int n,
              ed_completed_at := Some (dw_clock W dep Completed)\<rparr>) s))"

text \<open>What is done with the result of a plugin.\<close>

definition accept_result ::
    "env \<Rightarrow> dispatch_world \<Rightarrow> normalized_event \<Rightarrow> webhook_inbox \<Rightarrow> resolved_context \<Rightarrow> plugin_route
     \<Rightarrow> plugin_command option \<Rightarrow> plugin_event_dispatch \<Rightarrow> json \<Rightarrow> tally \<times> db
     \<Rightarrow> (string, tally \<times> db) res" where
  "accept_result E W e inbox x r command d result ts =
     (case ts of (t, s) \<Rightarrow>
       let t1 = t\<lparr>tl_invoked := Suc (tl_invoked t)\<rparr>
       in case read_actions result e inbox x r command of
            Inl (Raised err) \<Rightarrow> Inl err
          | Inl (InvalidPluginAction reason) \<Rightarrow>
              Inr (t1\<lparr>tl_rejected := Suc (tl_rejected t1)\<rparr>, reject_route W e x r d reason s)
          | Inr (actions, submissions) \<Rightarrow>
              (case submit_all (submit_text E) (\<lambda>i. dw_clock W (dp_id (rt_deployment r)) (Submitted i))
                      0 submissions s of
                 (Some (Raised err), n, s1) \<Rightarrow> Inl err
               | (Some (InvalidPluginAction reason), n, s1) \<Rightarrow>
                   Inr (t1\<lparr>tl_rejected := Suc (tl_rejected t1), tl_accepted := tl_accepted t1 + n\<rparr>,
                        reject_route W e x r d reason s1)
               | (None, n, s1) \<Rightarrow>
                   Inr (t1\<lparr>tl_accepted := tl_accepted t1 + n\<rparr>,
                        succeed_route W e x r d (length actions) s1)))"

definition deny_route ::
    "dispatch_world \<Rightarrow> normalized_event \<Rightarrow> resolved_context \<Rightarrow> plugin_route \<Rightarrow> plugin_command option
     \<Rightarrow> plugin_event_dispatch \<Rightarrow> string \<Rightarrow> db \<Rightarrow> db" where
  "deny_route W e x r command d reason s =
     (case route_resource r command of (rt, rid, parent) \<Rightarrow>
       let dep = dp_id (rt_deployment r)
       in dispatch_audit x e ''plugin.event.dispatch'' (uuid_str dep) ''DENIED''
            [(''plugin_id'', JStr (mf_plugin_id (rt_manifest r))),
             (''resource_type'', JStr (resource_type_str rt)), (''resource_id'', JStr rid),
             (''policy_reason'', JStr reason)]
            (put_dispatch (d\<lparr>ed_status := Ds_DENIED, ed_completed_at := Some (dw_clock W dep Completed),
               ed_last_error_type := None\<rparr>) s))"

definition fail_route ::
    "normalized_event \<Rightarrow> resolved_context \<Rightarrow> plugin_route \<Rightarrow> plugin_event_dispatch \<Rightarrow> string \<Rightarrow> db \<Rightarrow> db" where
  "fail_route e x r d err s =
     dispatch_audit x e ''plugin.event.dispatch'' (uuid_str (dp_id (rt_deployment r))) ''FAILED_RETRYABLE''
       [(''plugin_id'', JStr (mf_plugin_id (rt_manifest r))), (''error_type'', JStr err)]
       (put_dispatch (d\<lparr>ed_status := Ds_FAILED_RETRYABLE, ed_last_error_type := Some err\<rparr>) s)"

definition assign_revision :: "plugin_route \<Rightarrow> plugin_event_dispatch \<Rightarrow> plugin_event_dispatch" where
  "assign_revision r d = d\<lparr>ed_revision_id := rv_id (rt_revision r)\<rparr>"

definition begin_attempt ::
    "dispatch_world \<Rightarrow> plugin_route \<Rightarrow> plugin_event_dispatch \<Rightarrow> plugin_event_dispatch" where
  "begin_attempt W r d =
     d\<lparr>ed_attempt_count := ed_attempt_count d + 1,
       ed_last_attempt_at := Some (dw_clock W (dp_id (rt_deployment r)) Attempted),
       ed_completed_at := None, ed_last_error_type := None\<rparr>"

text \<open>The call of the plugin of a route that the policy allows.\<close>

definition invoke_route ::
    "env \<Rightarrow> dispatch_world \<Rightarrow> normalized_event \<Rightarrow> webhook_inbox \<Rightarrow> resolved_context \<Rightarrow> selection
     \<Rightarrow> plugin_event_dispatch \<Rightarrow> tally \<times> db \<Rightarrow> (string, tally \<times> db) res" where
  "invoke_route E W e inbox x sel d ts =
     (case sel of (r, command, content) \<Rightarrow>
      case ts of (t, s) \<Rightarrow>
       let dep = dp_id (rt_deployment r); d1 = begin_attempt W r d
       in case dw_invoke W (uuid_str dep) (event_envelope E e inbox x content command) of
            Inl err \<Rightarrow> Inr (t\<lparr>tl_retryable := tl_retryable t @ [uuid_str dep]\<rparr>, fail_route e x r d1 err s)
          | Inr result \<Rightarrow> accept_result E W e inbox x r command d1 result (t, s))"

definition process_route ::
    "env \<Rightarrow> dispatch_world \<Rightarrow> normalized_event \<Rightarrow> webhook_inbox \<Rightarrow> resolved_context \<Rightarrow> selection
     \<Rightarrow> tally \<times> db \<Rightarrow> (string, tally \<times> db) res" where
  "process_route E W e inbox x sel ts =
     (case sel of (r, command, content) \<Rightarrow>
      case ts of (t, s) \<Rightarrow>
      bind_res (dispatch_record E e r s) (\<lambda>(d, s1).
        if ed_status d \<in> terminal_dispatch_statuses then Inr (t, s1)
        else
          let d1 = assign_revision r d;
              q = route_request x (wi_trace_id inbox) r command
          in if \<not> request_ok q then Inl ''ValidationError''
             else case evaluate q (dw_clock W (dp_id (rt_deployment r)) Evaluated) (put_dispatch d1 s1) of
               Inl err \<Rightarrow> Inl (policy_error_name err)
             | Inr (decision, s2) \<Rightarrow>
                 if \<not> dv_allowed decision
                 then Inr (t\<lparr>tl_denied := Suc (tl_denied t)\<rparr>,
                           deny_route W e x r command d1 (dv_reason decision) s2)
                 else invoke_route E W e inbox x sel d1 (t, s2)))"

fun process_routes ::
    "env \<Rightarrow> dispatch_world \<Rightarrow> normalized_event \<Rightarrow> webhook_inbox \<Rightarrow> resolved_context \<Rightarrow> selection list
     \<Rightarrow> tally \<times> db \<Rightarrow> (string, tally \<times> db) res" where
  "process_routes E W e inbox x [] ts = Inr ts"
| "process_routes E W e inbox x (sel # sels) ts =
     bind_res (process_route E W e inbox x sel ts) (process_routes E W e inbox x sels)"

section \<open>Dispatching an event\<close>

record dispatch_result =
  dr_event_id :: uuid
  dr_considered_plugins :: nat
  dr_invoked_plugins :: nat
  dr_denied_plugins :: nat
  dr_rejected_actions :: nat
  dr_accepted_actions :: nat
  dr_ignored :: bool

text \<open>
  How a dispatch ends: with a result, with \<open>PluginInvocationRetryableError\<close> after the state
  has been flushed, or with another exception, given by its type.
\<close>

datatype dispatch_outcome =
    DispatchDone dispatch_result db
  | DispatchRetryable string db
  | DispatchRaised string

definition ignored_result :: "uuid \<Rightarrow> dispatch_result" where
  "ignored_result i = \<lparr>dr_event_id = i, dr_considered_plugins = 0, dr_invoked_plugins = 0,
     dr_denied_plugins = 0, dr_rejected_actions = 0, dr_accepted_actions = 0, dr_ignored = True\<rparr>"

definition set_inbox :: "uuid \<Rightarrow> inbox_status \<Rightarrow> string option \<Rightarrow> string option \<Rightarrow> db \<Rightarrow> db" where
  "set_inbox i st code detail s =
     (case get_row wi_id i (inboxes s) of
        None \<Rightarrow> s
      | Some w \<Rightarrow> s\<lparr>inboxes := put_row wi_id
          (w\<lparr>wi_status := st, wi_error_code := code, wi_error_detail := detail\<rparr>) (inboxes s)\<rparr>)"

definition empty_tally :: tally where
  "empty_tally = \<lparr>tl_invoked = 0, tl_denied = 0, tl_rejected = 0, tl_accepted = 0, tl_retryable = []\<rparr>"

definition reject_conflict ::
    "normalized_event \<Rightarrow> resolved_context \<Rightarrow> plugin_route list \<Rightarrow> (plugin_route \<times> plugin_command \<times> string) list
     \<Rightarrow> db \<Rightarrow> dispatch_outcome" where
  "reject_conflict e x routes cmds s =
     DispatchDone ((ignored_result (ne_id e))\<lparr>dr_considered_plugins := length routes, dr_ignored := False\<rparr>)
       (dispatch_audit x e ''plugin.command.route'' (mc_name (fst (snd (hd cmds)))) ''REJECTED''
          [(''matching_deployments'', JInt (int (length cmds)))]
          (set_inbox (ne_webhook_inbox_id e) In_FAILED (Some ''PLUGIN_COMMAND_CONFLICT'')
             (Some ''multiple active deployments claim the same command'') s))"

definition finish_dispatch ::
    "normalized_event \<Rightarrow> plugin_route list \<Rightarrow> tally \<Rightarrow> db \<Rightarrow> dispatch_outcome" where
  "finish_dispatch e routes t s =
     (if tl_retryable t \<noteq> [] then
        let detail = nat_str (length (tl_retryable t)) @ '' plugin deployment(s) require retry''
        in DispatchRetryable detail
             (set_inbox (ne_webhook_inbox_id e) In_NORMALIZED (Some ''PLUGIN_DISPATCH_RETRYABLE'')
                (Some detail) s)
      else DispatchDone
        \<lparr>dr_event_id = ne_id e, dr_considered_plugins = length routes,
         dr_invoked_plugins = tl_invoked t, dr_denied_plugins = tl_denied t,
         dr_rejected_actions = tl_rejected t, dr_accepted_actions = tl_accepted t,
         dr_ignored = False\<rparr>
        (set_inbox (ne_webhook_inbox_id e) In_DISPATCHED None None s))"

definition route_event ::
    "env \<Rightarrow> dispatch_world \<Rightarrow> normalized_event \<Rightarrow> webhook_inbox \<Rightarrow> resolved_context \<Rightarrow> db \<Rightarrow> dispatch_outcome" where
  "route_event E W e inbox x s =
     (case plugin_routes E s x of
        None \<Rightarrow> DispatchRaised ''ValidationError''
      | Some routes \<Rightarrow>
          let cmds = command_routes routes (rx_message_text x)
          in if 1 < length cmds then reject_conflict e x routes cmds s
             else case process_routes E W e inbox x (select_routes e x routes) (empty_tally, s) of
                    Inl err \<Rightarrow> DispatchRaised err
                  | Inr (t, s') \<Rightarrow> finish_dispatch e routes t s')"

definition dispatch :: "env \<Rightarrow> dispatch_world \<Rightarrow> uuid \<Rightarrow> db \<Rightarrow> dispatch_outcome" where
  "dispatch E W event_id s =
     (case get_row ne_id event_id (events s) of
        None \<Rightarrow> DispatchRaised ''EventNotFoundError''
      | Some e \<Rightarrow>
          (case get_row wi_id (ne_webhook_inbox_id e) (inboxes s) of
             None \<Rightarrow> DispatchRaised ''EventNotFoundError''
           | Some inbox \<Rightarrow>
               if ne_is_self e \<or> wi_status inbox = In_IGNORED_SELF
               then DispatchDone (ignored_result event_id) s
               else if wi_status inbox = In_DISPATCHED then DispatchDone (ignored_result event_id) s
               else if ne_conversation_type e = Conv_SYSTEM
                    \<or> ne_event_type e = ''gewe.callback_verification''
               then DispatchDone (ignored_result event_id) (set_inbox (wi_id inbox) In_DISPATCHED None None s)
               else case resolve_context E e (dw_resolved_at W) s of
                 Inl err \<Rightarrow> DispatchRaised err
               | Inr (ctx, s1) \<Rightarrow>
                   if ctx = None \<or> ne_conversation_id e = None
                   then DispatchDone (ignored_result event_id)
                     (set_inbox (wi_id inbox) In_FAILED (Some ''EVENT_CONTEXT_UNRESOLVED'')
                        (Some ''event has no active bot account or conversation'') s1)
                   else route_event E W e inbox (the ctx) s1))"

end
