(* ===== verification/Delivery.thy ===== *)
theory Delivery
  imports Dispatcher
begin

text \<open>
  What a dispatch guarantees: the interface of the sink and its interpretation on the outbox, the
  outcomes of one step of the delivery loop, and the properties of whole dispatches.
\<close>

section \<open>The interface of the sink\<close>

text \<open>An outbox message that a submission asks for.\<close>

definition reply_for :: "text_submission \<Rightarrow> outbox_message \<Rightarrow> bool" where
  "reply_for b m \<longleftrightarrow>
     om_bot_account_id m = ts_bot_account_id b \<and> om_trace_id m = ts_trace_id b \<and>
     om_idempotency_key m = strip (ts_idempotency_key b) \<and>
     om_target_wxid m = strip (ts_target_wxid b) \<and> om_action_type m = ''message.reply.text'' \<and>
     om_payload m = payload_json \<lparr>tp_text = ts_text b, tp_at_wxids = []\<rparr> \<and>
     om_authorization_context m = Some (auth_context_json (ts_authorization_context b)) \<and>
     om_status m = Ob_PENDING"

lemma outbox_unchanged: "\<exists>ob n. s = s\<lparr>outbox := ob, next_id := n\<rparr>" for s :: db
  by (rule exI[of _ "outbox s"], rule exI[of _ "next_id s"]) simp

text \<open>
  What the dispatcher relies on: a sink only appends to the outbox, each new message is the one
  the submission asks for, and an accepted submission has a message under its key.
\<close>

locale text_action_sink =
  fixes submit :: "text_submission \<Rightarrow> instant \<Rightarrow> db \<Rightarrow> (action_error, db) res"
  assumes frame: "submit b now s = Inr s' \<Longrightarrow> \<exists>ob n. s' = s\<lparr>outbox := ob, next_id := n\<rparr>"
    and appends: "submit b now s = Inr s' \<Longrightarrow> \<exists>ms. outbox s' = outbox s @ ms \<and> (\<forall>m\<in>set ms. reply_for b m)"
    and accepted: "submit b now s = Inr s' \<Longrightarrow>
      \<exists>m\<in>set (outbox s'). om_idempotency_key m = strip (ts_idempotency_key b)"
begin

lemma submit_all_frame:
  "submit_all submit clock i bs s = (err, n, s') \<Longrightarrow> \<exists>ob k. s' = s\<lparr>outbox := ob, next_id := k\<rparr>"
proof (induction bs arbitrary: i s n)
  case (Cons b bs)
  show ?case
  proof (cases "submit b (clock i) s")
    case (Inr s1)
    then obtain k where k: "submit_all submit clock (Suc i) bs s1 = (err, k, s')"
      using Cons.prems by (auto split: prod.split_asm)
    obtain ob m where s1: "s1 = s\<lparr>outbox := ob, next_id := m\<rparr>" using frame[OF Inr] by blast
    obtain ob' m' where "s' = s1\<lparr>outbox := ob', next_id := m'\<rparr>" using Cons.IH[OF k] by blast
    then have "s' = s\<lparr>outbox := ob', next_id := m'\<rparr>" by (simp add: s1)
    then show ?thesis by blast
  qed (use Cons.prems outbox_unchanged in auto)
qed (use outbox_unchanged in auto)

lemma submit_all_appends:
  "submit_all submit clock i bs s = (err, n, s') \<Longrightarrow>
     n \<le> length bs \<and> (err = None \<longrightarrow> n = length bs) \<and>
     (\<exists>ms. outbox s' = outbox s @ ms \<and> (\<forall>m\<in>set ms. \<exists>b\<in>set (take n bs). reply_for b m)) \<and>
     (\<forall>b\<in>set (take n bs). \<exists>m\<in>set (outbox s'). om_idempotency_key m = strip (ts_idempotency_key b))"
proof (induction bs arbitrary: i s n)
  case (Cons b bs)
  show ?case
  proof (cases "submit b (clock i) s")
    case (Inr s1)
    then obtain k where k: "submit_all submit clock (Suc i) bs s1 = (err, k, s')" "n = Suc k"
      using Cons.prems by (auto split: prod.split_asm)
    obtain ms1 where ms1: "outbox s1 = outbox s @ ms1" "\<forall>m\<in>set ms1. reply_for b m"
      using appends[OF Inr] by blast
    obtain ms2 where ms2: "outbox s' = outbox s1 @ ms2"
      "\<forall>m\<in>set ms2. \<exists>b\<in>set (take k bs). reply_for b m" using Cons.IH[OF k(1)] by blast
    show ?thesis using Cons.IH[OF k(1)] k(2) ms1 ms2 accepted[OF Inr] by auto
  qed (use Cons.prems in auto)
qed auto

end

lemma submit_text_Inr:
  assumes "submit_text E b now s = Inr s'"
  obtains m where "enqueue_text E (submission_enqueue b) now [] s = Inr (m, s')"
  using assms by (auto simp: submit_text_def split: sum.split_asm prod.split_asm outbox_error.split_asm)

lemma submission_prepared:
  assumes "prepare_text E (submission_enqueue b) now = Inr t"
  shows "reply_for b (new_message (submission_enqueue b) t i now)"
proof -
  note p = prepare_text_Inr[OF assms]
  have sel: "en_text (submission_enqueue b) = ts_text b" "en_at_wxids (submission_enqueue b) = []"
    "en_idempotency_key (submission_enqueue b) = ts_idempotency_key b"
    "en_target_wxid (submission_enqueue b) = ts_target_wxid b"
    "en_authorization_context (submission_enqueue b) = Some (ts_authorization_context b)"
    by (simp_all add: submission_enqueue_def)
  obtain q where "text_outbox_payload (ts_text b) [] = Some q" "ta_payload t = payload_json q"
    using p unfolding sel by blast
  then have "ta_payload t = payload_json \<lparr>tp_text = ts_text b, tp_at_wxids = []\<rparr>"
    by (auto simp: text_outbox_payload_def split: if_split_asm)
  then show ?thesis using p unfolding sel
    by (simp add: reply_for_def) (simp add: new_message_def submission_enqueue_def)
qed

interpretation sink: text_action_sink "submit_text E" for E
proof unfold_locales
  fix b now s s' assume "submit_text E b now s = Inr s'"
  then obtain m where e: "enqueue_text E (submission_enqueue b) now [] s = Inr (m, s')"
    by (rule submit_text_Inr)
  then show "\<exists>ob n. s' = s\<lparr>outbox := ob, next_id := n\<rparr>"
  proof (cases rule: enqueue_text_cases)
    case (found t)
    then show ?thesis using outbox_unchanged by blast
  next
    case (lost t)
    then have "s' = s\<lparr>outbox := outbox s, next_id := Suc (next_id s)\<rparr>" by simp
    then show ?thesis by blast
  next
    case (inserted t)
    then have "s' = s\<lparr>outbox := outbox s @ [m], next_id := Suc (next_id s)\<rparr>" by simp
    then show ?thesis by blast
  qed
  show "\<exists>ms. outbox s' = outbox s @ ms \<and> (\<forall>m\<in>set ms. reply_for b m)"
    using e
  proof (cases rule: enqueue_text_cases)
    case (inserted t)
    then show ?thesis using submission_prepared by auto
  qed simp_all
  have k: "ta_key t = strip (ts_idempotency_key b)"
    if "prepare_text E (submission_enqueue b) now = Inr t" for t
    using prepare_text_Inr[OF that] by (simp add: submission_enqueue_def)
  show "\<exists>m\<in>set (outbox s'). om_idempotency_key m = strip (ts_idempotency_key b)"
    using e
  proof (cases rule: enqueue_text_cases)
    case (found t)
    then show ?thesis using k[OF found(1)] get_row_Some_mem[OF found(2)] by auto
  next
    case (lost t)
    then show ?thesis using k[OF lost(1)] get_row_Some_mem[OF lost(3)] by auto
  next
    case (inserted t)
    then show ?thesis using k[OF inserted(1)] by simp
  qed
qed

section \<open>One step of the delivery loop\<close>

text \<open>The policy's answer to the request of a route, with the record of the delivery in place.\<close>

definition policy_step ::
    "env \<Rightarrow> dispatch_world \<Rightarrow> normalized_event \<Rightarrow> webhook_inbox \<Rightarrow> resolved_context \<Rightarrow> plugin_route
     \<Rightarrow> plugin_command option \<Rightarrow> plugin_event_dispatch \<Rightarrow> acl_decision \<Rightarrow> db \<Rightarrow> db \<Rightarrow> bool" where
  "policy_step E W e inbox x r command d decision s s2 \<longleftrightarrow>
     (\<exists>d0 s1. dispatch_record E e r s = Inr (d0, s1) \<and> ed_status d0 \<notin> terminal_dispatch_statuses \<and>
        d = assign_revision r d0 \<and> request_ok (route_request x (wi_trace_id inbox) r command) \<and>
        evaluate (route_request x (wi_trace_id inbox) r command)
          (dw_clock W (dp_id (rt_deployment r)) Evaluated) (put_dispatch d s1) = Inr (decision, s2))"

text \<open>How a result is accepted, or rejected with a reason, and the state before the record is closed.\<close>

definition accept_step ::
    "env \<Rightarrow> dispatch_world \<Rightarrow> normalized_event \<Rightarrow> webhook_inbox \<Rightarrow> resolved_context \<Rightarrow> plugin_route
     \<Rightarrow> plugin_command option \<Rightarrow> json \<Rightarrow> string option \<Rightarrow> nat \<Rightarrow> nat \<Rightarrow> db \<Rightarrow> db \<Rightarrow> bool" where
  "accept_step E W e inbox x r command result reason k n s2 s3 \<longleftrightarrow>
     (\<exists>why. read_actions result e inbox x r command = Inl (InvalidPluginAction why) \<and>
        reason = Some why \<and> n = 0 \<and> s3 = s2) \<or>
     (\<exists>actions bs err. read_actions result e inbox x r command = Inr (actions, bs) \<and>
        submit_all (submit_text E) (\<lambda>i. dw_clock W (dp_id (rt_deployment r)) (Submitted i)) 0 bs s2 = (err, n, s3) \<and>
        err = map_option InvalidPluginAction reason \<and> k = length actions)"

lemma accept_result_cases:
  assumes "accept_result E W e inbox x r command d result (t, s2) = Inr (t', s')"
  obtains (rejected) reason k n s3 where "accept_step E W e inbox x r command result (Some reason) k n s2 s3"
      "t' = t\<lparr>tl_invoked := Suc (tl_invoked t), tl_rejected := Suc (tl_rejected t), tl_accepted := tl_accepted t + n\<rparr>"
      "s' = reject_route W e x r d reason s3"
  | (succeeded) k n s3 where "accept_step E W e inbox x r command result None k n s2 s3"
      "t' = t\<lparr>tl_invoked := Suc (tl_invoked t), tl_accepted := tl_accepted t + n\<rparr>"
      "s' = succeed_route W e x r d k s3"
proof (cases "read_actions result e inbox x r command")
  case (Inl err)
  then obtain why where why: "err = InvalidPluginAction why"
    using assms by (cases err) (simp_all add: accept_result_def)
  then have "accept_step E W e inbox x r command result (Some why) 0 0 s2 s2"
    using Inl by (simp add: accept_step_def)
  from this show thesis
    by (rule rejected) (use assms Inl why in \<open>auto simp: accept_result_def Let_def\<close>)
next
  case (Inr ab)
  obtain as bs where ab: "ab = (as, bs)" by fastforce
  let ?run = "submit_all (submit_text E) (\<lambda>i. dw_clock W (dp_id (rt_deployment r)) (Submitted i)) 0 bs s2"
  obtain err n s3 where run: "?run = (err, n, s3)" using prod_cases3 by blast
  have step: "accept_step E W e inbox x r command result reason (length as) n s2 s3"
    if "err = map_option InvalidPluginAction reason" for reason
    using Inr run that unfolding accept_step_def ab by blast
  show thesis
  proof (cases err)
    case None
    then show thesis using succeeded[OF step[of None]] assms Inr ab run
      by (simp add: accept_result_def Let_def)
  next
    case (Some a)
    then obtain why where "a = InvalidPluginAction why"
      using assms Inr ab run by (cases a) (simp_all add: accept_result_def)
    then show thesis using rejected[OF step[of "Some why"]] assms Inr ab run Some
      by (simp add: accept_result_def Let_def)
  qed
qed

lemma process_route_cases:
  assumes "process_route E W e inbox x (r, command, content) (t, s) = Inr (t', s')"
  obtains (terminal) d where "find_dispatch s (ne_id e) (dp_id (rt_deployment r)) = Some d"
      "ed_status d \<in> terminal_dispatch_statuses" "t' = t" "s' = s"
  | (denied) d decision s2 where "policy_step E W e inbox x r command d decision s s2"
      "\<not> dv_allowed decision" "t' = t\<lparr>tl_denied := Suc (tl_denied t)\<rparr>"
      "s' = deny_route W e x r command d (dv_reason decision) s2"
  | (failed) d decision s2 err where "policy_step E W e inbox x r command d decision s s2"
      "dv_allowed decision"
      "dw_invoke W (uuid_str (dp_id (rt_deployment r))) (event_envelope E e inbox x content command) = Inl err"
      "t' = t\<lparr>tl_retryable := tl_retryable t @ [uuid_str (dp_id (rt_deployment r))]\<rparr>"
      "s' = fail_route e x r (begin_attempt W r d) err s2"
  | (rejected) d decision s2 result reason k n s3 where "policy_step E W e inbox x r command d decision s s2"
      "dv_allowed decision"
      "dw_invoke W (uuid_str (dp_id (rt_deployment r))) (event_envelope E e inbox x content command) = Inr result"
      "accept_step E W e inbox x r command result (Some reason) k n s2 s3"
      "t' = t\<lparr>tl_invoked := Suc (tl_invoked t), tl_rejected := Suc (tl_rejected t), tl_accepted := tl_accepted t + n\<rparr>"
      "s' = reject_route W e x r (begin_attempt W r d) reason s3"
  | (succeeded) d decision s2 result k n s3 where "policy_step E W e inbox x r command d decision s s2"
      "dv_allowed decision"
      "dw_invoke W (uuid_str (dp_id (rt_deployment r))) (event_envelope E e inbox x content command) = Inr result"
      "accept_step E W e inbox x r command result None k n s2 s3"
      "t' = t\<lparr>tl_invoked := Suc (tl_invoked t), tl_accepted := tl_accepted t + n\<rparr>"
      "s' = succeed_route W e x r (begin_attempt W r d) k s3"
proof -
  obtain d0 s1 where rec: "dispatch_record E e r s = Inr (d0, s1)"
    using assms by (auto simp: process_route_def result_simps)
  show thesis
  proof (cases "ed_status d0 \<in> terminal_dispatch_statuses")
    case True
    then have "find_dispatch s (ne_id e) (dp_id (rt_deployment r)) = Some d0" "s1 = s"
      using rec by (auto simp: dispatch_record_def Let_def terminal_dispatch_statuses_def
          split: option.split_asm prod.split_asm if_split_asm)
    moreover have "t' = t" "s' = s1" using assms rec True by (simp_all add: process_route_def)
    ultimately show thesis using terminal True by blast
  next
    case opened: False
    let ?q = "route_request x (wi_trace_id inbox) r command"
    let ?now = "dw_clock W (dp_id (rt_deployment r)) Evaluated"
    let ?d = "assign_revision r d0"
    have ok: "request_ok ?q"
      using assms rec opened by (auto simp: process_route_def Let_def split: if_split_asm)
    obtain decision s2 where ev: "evaluate ?q ?now (put_dispatch ?d s1) = Inr (decision, s2)"
      using assms rec opened ok
      by (auto simp: process_route_def Let_def split: sum.split_asm)
    have step: "policy_step E W e inbox x r command ?d decision s s2"
      unfolding policy_step_def using rec opened ok ev by blast
    have res: "(if \<not> dv_allowed decision
        then Inr (t\<lparr>tl_denied := Suc (tl_denied t)\<rparr>, deny_route W e x r command ?d (dv_reason decision) s2)
        else invoke_route E W e inbox x (r, command, content) ?d (t, s2)) = Inr (t', s')"
      using assms rec opened ok ev
      by (cases "dv_allowed decision") (simp_all add: process_route_def Let_def)
    show thesis
    proof (cases "dv_allowed decision")
      case False
      then show thesis using denied[OF step] res by simp
    next
      case allowed: True
      let ?call = "dw_invoke W (uuid_str (dp_id (rt_deployment r))) (event_envelope E e inbox x content command)"
      show thesis
      proof (cases ?call)
        case (Inl err)
        then show thesis using failed[OF step allowed Inl] res allowed
          by (simp add: invoke_route_def Let_def)
      next
        case (Inr result)
        then have "accept_result E W e inbox x r command (begin_attempt W r ?d) result (t, s2) = Inr (t', s')"
          using res allowed by (simp add: invoke_route_def Let_def)
        then show thesis
        proof (cases rule: accept_result_cases)
          case (rejected reason k n s3)
          then show thesis using that(4)[OF step allowed Inr] by blast
        next
          case (succeeded k n s3)
          then show thesis using that(5)[OF step allowed Inr] by blast
        qed
      qed
    qed
  qed
qed

section \<open>What the loop leaves alone\<close>

definition loop_frame :: "db \<Rightarrow> db \<Rightarrow> bool" where
  "loop_frame s s' \<longleftrightarrow> (\<exists>ob au ds di n. s' = s\<lparr>outbox := ob, audits := au, decisions := ds,
     dispatches := di, next_id := n\<rparr>)"

lemma loop_frame_intros [intro]:
  "loop_frame s s"
  "loop_frame s (s\<lparr>dispatches := di\<rparr>)"
  "loop_frame s (s\<lparr>audits := au\<rparr>)"
  "loop_frame s (s\<lparr>decisions := ds\<rparr>)"
  "loop_frame s (s\<lparr>next_id := n, dispatches := di\<rparr>)"
  "loop_frame s (s\<lparr>outbox := ob, next_id := n\<rparr>)"
  unfolding loop_frame_def
  by (rule exI[of _ "outbox s"] exI[of _ ob], rule exI[of _ "audits s"] exI[of _ au],
      rule exI[of _ "decisions s"] exI[of _ ds], rule exI[of _ "dispatches s"] exI[of _ di],
      rule exI[of _ "next_id s"] exI[of _ n], simp; fail)+

lemma loop_frame_trans [trans]: "loop_frame s s1 \<Longrightarrow> loop_frame s1 s2 \<Longrightarrow> loop_frame s s2"
proof -
  assume "loop_frame s s1" "loop_frame s1 s2"
  then obtain ob au ds di n ob' au' ds' di' n' where
    "s1 = s\<lparr>outbox := ob, audits := au, decisions := ds, dispatches := di, next_id := n\<rparr>"
    "s2 = s1\<lparr>outbox := ob', audits := au', decisions := ds', dispatches := di', next_id := n'\<rparr>"
    unfolding loop_frame_def by blast
  then have "s2 = s\<lparr>outbox := ob', audits := au', decisions := ds', dispatches := di', next_id := n'\<rparr>"
    by simp
  then show ?thesis unfolding loop_frame_def by blast
qed

lemma loop_frameD:
  assumes "loop_frame s s'"
  shows "accounts s' = accounts s" "connections s' = connections s" "rules s' = rules s"
    "principals s' = principals s" "memberships s' = memberships s" "inboxes s' = inboxes s"
    "events s' = events s" "deployments s' = deployments s" "chatrooms s' = chatrooms s"
    "contacts s' = contacts s" "policy_states s' = policy_states s"
  using assms by (auto simp: loop_frame_def)

lemma acl_grants_frame:
  assumes "loop_frame s s'"
  shows "acl_grants s' now q \<longleftrightarrow> acl_grants s now q"
proof -
  note f = loop_frameD[OF assms]
  have "account_in_workspace s' = account_in_workspace s"
    "active_request_principal s' = active_request_principal s"
    "current_membership_epoch s' = current_membership_epoch s"
    by (auto simp: fun_eq_iff account_in_workspace_def active_request_principal_def
        current_membership_epoch_def active_epochs_def f split: option.split)
  then show ?thesis by (simp add: acl_grants_def in_force_def f)
qed
section \<open>The effect of one step\<close>

definition delivery_key :: "plugin_event_dispatch \<Rightarrow> uuid \<times> uuid" where
  "delivery_key d = (ed_event_id d, ed_deployment_id d)"

lemma find_dispatch_get_row: "find_dispatch s ev dep = get_row delivery_key (ev, dep) (dispatches s)"
  by (simp add: find_dispatch_def get_row_def delivery_key_def)

text \<open>
  The record of a delivery is written once more: in place of an open one, or as a new row.
\<close>

definition delivery_written ::
    "uuid \<Rightarrow> uuid \<Rightarrow> plugin_event_dispatch \<Rightarrow> plugin_event_dispatch list \<Rightarrow> plugin_event_dispatch list \<Rightarrow> bool" where
  "delivery_written ev dep d ds ds' \<longleftrightarrow> delivery_key d = (ev, dep) \<and>
     ((\<exists>d0. get_row delivery_key (ev, dep) ds = Some d0 \<and> ed_status d0 \<notin> terminal_dispatch_statuses \<and>
         ed_id d = ed_id d0 \<and> ed_attempt_count d0 \<le> ed_attempt_count d \<and> ds' = put_row ed_id d ds) \<or>
      (get_row delivery_key (ev, dep) ds = None \<and> (\<forall>x\<in>set ds. ed_id x \<noteq> ed_id d) \<and>
         0 \<le> ed_attempt_count d \<and> ds' = ds @ [d]))"

lemma put_row_put_row: "key r = key r' \<Longrightarrow> put_row key r (put_row key r' rows) = put_row key r rows"
  by (auto simp: put_row_def)

lemma delivery_rewritten:
  assumes "delivery_written ev dep d ds ds'" "delivery_key d' = delivery_key d" "ed_id d' = ed_id d"
    "ed_attempt_count d \<le> ed_attempt_count d'"
  shows "delivery_written ev dep d' ds (put_row ed_id d' ds')"
proof -
  have "put_row ed_id d' [d] = [d']" using assms(3) by (simp add: put_row_def)
  then show ?thesis using assms
    by (auto simp: delivery_written_def put_row_put_row put_row_append put_row_absent)
qed

lemma dispatch_record_written:
  assumes "dispatch_record E e r s = Inr (d, s1)" "ed_status d \<notin> terminal_dispatch_statuses"
  shows "delivery_written (ne_id e) (dp_id (rt_deployment r)) (assign_revision r d) (dispatches s)
      (dispatches (put_dispatch (assign_revision r d) s1))"
    "loop_frame s (put_dispatch (assign_revision r d) s1)" "outbox s1 = outbox s"
proof -
  have k: "delivery_key (assign_revision r d) = delivery_key d" "ed_id (assign_revision r d) = ed_id d"
    "ed_attempt_count (assign_revision r d) = ed_attempt_count d"
    by (simp_all add: assign_revision_def delivery_key_def)
  show "delivery_written (ne_id e) (dp_id (rt_deployment r)) (assign_revision r d) (dispatches s)
      (dispatches (put_dispatch (assign_revision r d) s1))"
  proof (cases "find_dispatch s (ne_id e) (dp_id (rt_deployment r))")
    case (Some d0)
    then have "d = d0" "s1 = s" using assms(1) by (simp_all add: dispatch_record_def)
    moreover have "delivery_key d0 = (ne_id e, dp_id (rt_deployment r))"
      using Some get_row_Some_mem unfolding find_dispatch_get_row by metis
    ultimately show ?thesis using Some assms(2) k
      unfolding find_dispatch_get_row by (simp add: delivery_written_def put_dispatch_def)
  next
    case None
    then have "d \<in> set [d]" "dispatches s1 = dispatches s @ [d]" "\<forall>x\<in>set (dispatches s). ed_id x \<noteq> ed_id d"
      "delivery_key d = (ne_id e, dp_id (rt_deployment r))" "ed_attempt_count d = 0"
      using assms(1) by (auto simp: dispatch_record_def alloc_def Let_def delivery_key_def split: if_split_asm)
    then have "delivery_written (ne_id e) (dp_id (rt_deployment r)) d (dispatches s) (dispatches s1)"
      using None unfolding find_dispatch_get_row by (simp add: delivery_written_def)
    from delivery_rewritten[OF this k(1,2)] show ?thesis using k(3) by (simp add: put_dispatch_def)
  qed
  have "loop_frame s s1" "outbox s1 = outbox s"
    using assms(1) by (auto simp: dispatch_record_def alloc_def Let_def split: option.split_asm if_split_asm)
  then show "outbox s1 = outbox s" "loop_frame s (put_dispatch (assign_revision r d) s1)"
    using loop_frame_trans[OF _ loop_frame_intros(2)] by (auto simp: put_dispatch_def)
qed

lemma policy_step_effect:
  assumes "policy_step E W e inbox x r command d decision s s2"
  shows "delivery_written (ne_id e) (dp_id (rt_deployment r)) d (dispatches s) (dispatches s2)"
    and "loop_frame s s2" and "outbox s2 = outbox s"
    and "dv_allowed decision \<longleftrightarrow> acl_grants s (dw_clock W (dp_id (rt_deployment r)) Evaluated)
           (route_request x (wi_trace_id inbox) r command)"
proof -
  from assms obtain d0 s1 where rec: "dispatch_record E e r s = Inr (d0, s1)"
      "ed_status d0 \<notin> terminal_dispatch_statuses" and d: "d = assign_revision r d0"
    and ev: "evaluate (route_request x (wi_trace_id inbox) r command)
          (dw_clock W (dp_id (rt_deployment r)) Evaluated) (put_dispatch d s1) = Inr (decision, s2)"
    unfolding policy_step_def by blast
  note w = dispatch_record_written[OF rec, folded d]
  obtain ds where s2: "s2 = (put_dispatch d s1)\<lparr>decisions := ds\<rparr>" using acl.frame[OF ev] by blast
  then show "delivery_written (ne_id e) (dp_id (rt_deployment r)) d (dispatches s) (dispatches s2)"
    "loop_frame s s2" "outbox s2 = outbox s"
    using w loop_frame_trans[OF w(2) loop_frame_intros(4)] by (simp_all add: put_dispatch_def)
  show "dv_allowed decision \<longleftrightarrow> acl_grants s (dw_clock W (dp_id (rt_deployment r)) Evaluated)
           (route_request x (wi_trace_id inbox) r command)"
    using acl.answer[OF ev] acl_grants_frame[OF w(2)] by simp
qed

text \<open>A message that a route may put into the outbox.\<close>

definition reply_of_route ::
    "normalized_event \<Rightarrow> webhook_inbox \<Rightarrow> resolved_context \<Rightarrow> plugin_route \<Rightarrow> plugin_command option
     \<Rightarrow> outbox_message \<Rightarrow> bool" where
  "reply_of_route e inbox x r command m \<longleftrightarrow>
     om_bot_account_id m = ba_id (rx_account x) \<and> om_trace_id m = wi_trace_id inbox \<and>
     map_option strip (ne_conversation_id e) = Some (om_target_wxid m) \<and>
     om_action_type m = ''message.reply.text'' \<and> om_status m = Ob_PENDING \<and>
     om_authorization_context m = Some (auth_context_json (route_context x r command)) \<and>
     (\<exists>key. om_idempotency_key m = strip (submission_key (dp_id (rt_deployment r)) (ne_id e) key)) \<and>
     ''message.reply.text'' \<in> set (rv_grants (rt_revision r))"

lemma make_submission_Inr:
  assumes "make_submission a i e inbox x r command = Inr b"
  shows "ts_bot_account_id b = ba_id (rx_account x) \<and> ts_trace_id b = wi_trace_id inbox \<and>
    Some (ts_target_wxid b) = ne_conversation_id e \<and> ts_authorization_context b = route_context x r command \<and>
    auth_context_ok (route_context x r command) \<and>
    (\<exists>key. action_key a i = Inr key \<and>
       ts_idempotency_key b = submission_key (dp_id (rt_deployment r)) (ne_id e) key)"
  using assms
  by (auto simp: make_submission_def result_simps split: option.split_asm if_split_asm)

lemma make_submissions_Inr:
  "make_submissions i as e inbox x r command = Inr bs \<Longrightarrow> length bs = length as \<and>
     (\<forall>b\<in>set bs. \<exists>a\<in>set as. \<exists>j. make_submission a j e inbox x r command = Inr b)"
  by (induction as arbitrary: i bs) (fastforce simp: result_simps)+

lemma accept_step_effect:
  assumes "accept_step E W e inbox x r command result reason k n s2 s3"
  shows "loop_frame s2 s3" and "dispatches s3 = dispatches s2"
    and "\<exists>ms. outbox s3 = outbox s2 @ ms \<and> (\<forall>m\<in>set ms. reply_of_route e inbox x r command m)"
proof -
  let ?submit = "submit_all (submit_text E) (\<lambda>i. dw_clock W (dp_id (rt_deployment r)) (Submitted i)) 0"
  from assms consider (none) "s3 = s2"
    | (some) as bs err where "read_actions result e inbox x r command = Inr (as, bs)"
        "?submit bs s2 = (err, n, s3)"
    unfolding accept_step_def by blast
  then have "loop_frame s2 s3 \<and> dispatches s3 = dispatches s2 \<and>
      (\<exists>ms. outbox s3 = outbox s2 @ ms \<and> (\<forall>m\<in>set ms. reply_of_route e inbox x r command m))"
  proof cases
    case some
    obtain ob k where s3: "s3 = s2\<lparr>outbox := ob, next_id := k\<rparr>"
      using sink.submit_all_frame[OF some(2)] by blast
    obtain ms where ms: "outbox s3 = outbox s2 @ ms" "\<forall>m\<in>set ms. \<exists>b\<in>set (take n bs). reply_for b m"
      using sink.submit_all_appends[OF some(2)] by blast
    have "reply_of_route e inbox x r command m" if mem: "m \<in> set ms" for m
    proof -
      obtain b where b: "b \<in> set bs" "reply_for b m" using ms(2) mem in_set_takeD by metis
      then have grant: "''message.reply.text'' \<in> set (rv_grants (rt_revision r))"
        using some(1) by (auto simp: read_actions_def result_simps split: if_split_asm)
      have "\<exists>a j. make_submission a j e inbox x r command = Inr b"
        using some(1) b(1) make_submissions_Inr
        by (auto simp: read_actions_def result_simps split: if_split_asm) metis
      then obtain a j where "make_submission a j e inbox x r command = Inr b" by blast
      from make_submission_Inr[OF this] show ?thesis using b(2) grant
        by (cases "ne_conversation_id e") (auto simp: reply_of_route_def reply_for_def)
    qed
    then show ?thesis using s3 ms(1) by auto
  qed auto
  then show "loop_frame s2 s3" "dispatches s3 = dispatches s2"
    "\<exists>ms. outbox s3 = outbox s2 @ ms \<and> (\<forall>m\<in>set ms. reply_of_route e inbox x r command m)" by blast+
qed

lemma dispatch_audit_frame [simp]:
  "outbox (dispatch_audit x e a i o' d s) = outbox s" "dispatches (dispatch_audit x e a i o' d s) = dispatches s"
  by (simp_all add: dispatch_audit_def)

lemma put_dispatch_sel [simp]:
  "outbox (put_dispatch d s) = outbox s" "dispatches (put_dispatch d s) = put_row ed_id d (dispatches s)"
  by (simp_all add: put_dispatch_def)

lemma loop_frame_close: "loop_frame s s1 \<Longrightarrow> loop_frame s (dispatch_audit x e a i o' d (put_dispatch d' s1))"
  unfolding dispatch_audit_def put_dispatch_def
  by (rule loop_frame_trans[OF _ loop_frame_intros(3)], rule loop_frame_trans[OF _ loop_frame_intros(2)])

lemma begin_attempt_keeps [simp]:
  "delivery_key (begin_attempt W r d) = delivery_key d" "ed_id (begin_attempt W r d) = ed_id d"
  "ed_attempt_count (begin_attempt W r d) = ed_attempt_count d + 1"
  by (simp_all add: begin_attempt_def delivery_key_def)

text \<open>
  One step: nothing happens if the delivery is settled; otherwise its record is written once
  more, and only a granted route adds replies.
\<close>

lemma process_route_effect:
  assumes "process_route E W e inbox x (r, command, content) (t, s) = Inr (t', s')"
  shows "loop_frame s s' \<and>
    (\<exists>ms. outbox s' = outbox s @ ms \<and> (\<forall>m\<in>set ms. reply_of_route e inbox x r command m \<and>
       acl_grants s (dw_clock W (dp_id (rt_deployment r)) Evaluated) (route_request x (wi_trace_id inbox) r command))) \<and>
    ((\<exists>d. find_dispatch s (ne_id e) (dp_id (rt_deployment r)) = Some d \<and>
        ed_status d \<in> terminal_dispatch_statuses \<and> t' = t \<and> s' = s) \<or>
     (\<exists>d. delivery_written (ne_id e) (dp_id (rt_deployment r)) d (dispatches s) (dispatches s') \<and>
        (ed_status d = Ds_FAILED_RETRYABLE \<and> tl_retryable t' = tl_retryable t @ [uuid_str (dp_id (rt_deployment r))] \<or>
         ed_status d \<in> terminal_dispatch_statuses \<and> tl_retryable t' = tl_retryable t)))"
  using assms
proof (cases rule: process_route_cases)
  case (terminal d)
  then show ?thesis by auto
next
  case (denied d decision s2)
  note p = policy_step_effect[OF denied(1)]
  show ?thesis using denied(3,4) p(3)
    delivery_rewritten[OF p(1), of "d\<lparr>ed_status := Ds_DENIED,
       ed_completed_at := Some (dw_clock W (dp_id (rt_deployment r)) Completed), ed_last_error_type := None\<rparr>"]
    loop_frame_close[OF p(2)]
    by (auto simp: deny_route_def delivery_key_def terminal_dispatch_statuses_def Let_def split: prod.split)
next
  case (failed d decision s2 err)
  note p = policy_step_effect[OF failed(1)]
  show ?thesis using failed(4,5) p(3)
    delivery_rewritten[OF p(1), of "(begin_attempt W r d)\<lparr>ed_status := Ds_FAILED_RETRYABLE,
       ed_last_error_type := Some err\<rparr>"]
    loop_frame_close[OF p(2)]
    by (auto simp: fail_route_def delivery_key_def begin_attempt_def terminal_dispatch_statuses_def)
next
  case (rejected d decision s2 result reason k n s3)
  note p = policy_step_effect[OF rejected(1)] and a = accept_step_effect[OF rejected(4)]
  show ?thesis using rejected(2,5,6) p(3,4) a(2,3)
    delivery_rewritten[OF p(1), of "(begin_attempt W r d)\<lparr>ed_status := Ds_REJECTED,
       ed_completed_at := Some (dw_clock W (dp_id (rt_deployment r)) Completed),
       ed_last_error_type := Some ''InvalidPluginActionError''\<rparr>"]
    loop_frame_close[OF loop_frame_trans[OF p(2) a(1)]]
    by (auto simp: reject_route_def delivery_key_def begin_attempt_def terminal_dispatch_statuses_def Let_def)
next
  case (succeeded d decision s2 result k n s3)
  note p = policy_step_effect[OF succeeded(1)] and a = accept_step_effect[OF succeeded(4)]
  show ?thesis using succeeded(2,5,6) p(3,4) a(2,3)
    delivery_rewritten[OF p(1), of "(begin_attempt W r d)\<lparr>ed_status := Ds_SUCCEEDED,
       ed_accepted_action_count := int k,
       ed_completed_at := Some (dw_clock W (dp_id (rt_deployment r)) Completed)\<rparr>"]
    loop_frame_close[OF loop_frame_trans[OF p(2) a(1)]]
    by (auto simp: succeed_route_def delivery_key_def begin_attempt_def terminal_dispatch_statuses_def Let_def)
qed

section \<open>Whole deliveries\<close>

definition dispatches_ok :: "plugin_event_dispatch list \<Rightarrow> bool" where
  "dispatches_ok ds \<longleftrightarrow> unique_by ed_id ds \<and> unique_by delivery_key ds"

lemma delivery_written_ok:
  assumes ok: "dispatches_ok ds" and w: "delivery_written ev dep d ds ds'"
  shows "dispatches_ok ds'" "get_row delivery_key (ev, dep) ds' = Some d"
    "k \<noteq> (ev, dep) \<Longrightarrow> get_row delivery_key k ds' = get_row delivery_key k ds"
proof -
  have key: "delivery_key d = (ev, dep)" using w by (simp add: delivery_written_def)
  have all: "dispatches_ok ds' \<and> get_row delivery_key (ev, dep) ds' = Some d \<and>
      (\<forall>k. k \<noteq> (ev, dep) \<longrightarrow> get_row delivery_key k ds' = get_row delivery_key k ds)"
  proof (cases "get_row delivery_key (ev, dep) ds")
    case None
    then have ds': "ds' = ds @ [d]" "\<forall>x\<in>set ds. ed_id x \<noteq> ed_id d"
      using w by (simp_all add: delivery_written_def)
    have "\<forall>x\<in>set ds. delivery_key x \<noteq> delivery_key d"
      using None unfolding key by (simp add: get_row_None_iff)
    then have "dispatches_ok ds'"
      using ok ds' unfolding dispatches_ok_def by (simp add: unique_by_new)
    then show ?thesis using None key
      by (simp add: ds'(1) get_row_append get_row_Cons split: option.split)
  next
    case (Some d0)
    then have ds': "ds' = put_row ed_id d ds" "ed_id d = ed_id d0"
      using w by (auto simp: delivery_written_def)
    have d0: "d0 \<in> set ds" "delivery_key d0 = delivery_key d"
      using get_row_Some_mem[OF Some] key by simp_all
    have same: "r' \<in> set ds \<Longrightarrow> ed_id r' = ed_id d \<Longrightarrow> delivery_key r' = delivery_key d" for r'
      using ok d0 ds'(2) unfolding dispatches_ok_def unique_by_def distinct_map inj_on_def by metis
    have "map delivery_key ds' = map delivery_key ds"
      unfolding ds' by (rule put_row_map_cong) (rule same)
    then have ok': "dispatches_ok ds'"
      using ok ds' by (simp add: dispatches_ok_def unique_by_def)
    then have "get_row delivery_key (ev, dep) ds' = Some d"
      using d0 ds' key by (intro get_row_unique) (auto simp: dispatches_ok_def mem_put_row_iff)
    moreover have "get_row delivery_key k ds' = get_row delivery_key k ds" if "k \<noteq> (ev, dep)" for k
      unfolding ds'(1) using same that key
      by (induction ds) (auto simp: put_row_def get_row_Cons)
    ultimately show ?thesis using ok' by blast
  qed
  then show "dispatches_ok ds'" "get_row delivery_key (ev, dep) ds' = Some d"
    "k \<noteq> (ev, dep) \<Longrightarrow> get_row delivery_key k ds' = get_row delivery_key k ds" by blast+
qed

definition settled :: "db \<Rightarrow> uuid \<Rightarrow> uuid \<Rightarrow> bool" where
  "settled s ev dep \<longleftrightarrow>
     (\<exists>d. find_dispatch s ev dep = Some d \<and> ed_status d \<in> terminal_dispatch_statuses)"

lemma process_route_settled:
  assumes step: "process_route E W e inbox x (r, command, content) (t, s) = Inr (t', s')"
    and ok: "dispatches_ok (dispatches s)"
  shows "dispatches_ok (dispatches s')"
    and "find_dispatch s ev dep = Some d \<Longrightarrow> ed_status d \<in> terminal_dispatch_statuses \<Longrightarrow>
           find_dispatch s' ev dep = Some d"
    and "settled s' (ne_id e) (dp_id (rt_deployment r)) \<and> tl_retryable t' = tl_retryable t \<or>
         tl_retryable t' = tl_retryable t @ [uuid_str (dp_id (rt_deployment r))]"
proof -
  note eff = process_route_effect[OF step]
  consider (kept) d where "find_dispatch s (ne_id e) (dp_id (rt_deployment r)) = Some d"
      "ed_status d \<in> terminal_dispatch_statuses" "t' = t" "s' = s"
    | (written) d where "delivery_written (ne_id e) (dp_id (rt_deployment r)) d (dispatches s) (dispatches s')"
      "ed_status d = Ds_FAILED_RETRYABLE \<and> tl_retryable t' = tl_retryable t @ [uuid_str (dp_id (rt_deployment r))] \<or>
       ed_status d \<in> terminal_dispatch_statuses \<and> tl_retryable t' = tl_retryable t"
    using eff by blast
  then have "dispatches_ok (dispatches s') \<and>
    (\<forall>ev dep d. find_dispatch s ev dep = Some d \<longrightarrow> ed_status d \<in> terminal_dispatch_statuses \<longrightarrow>
       find_dispatch s' ev dep = Some d) \<and>
    (settled s' (ne_id e) (dp_id (rt_deployment r)) \<and> tl_retryable t' = tl_retryable t \<or>
     tl_retryable t' = tl_retryable t @ [uuid_str (dp_id (rt_deployment r))])"
  proof cases
    case kept
    then show ?thesis using ok by (auto simp: settled_def)
  next
    case (written d)
    note w = delivery_written_ok[OF ok written(1)]
    have "find_dispatch s' ev dep = Some d'"
      if "find_dispatch s ev dep = Some d'" "ed_status d' \<in> terminal_dispatch_statuses" for ev dep d'
    proof (cases "(ev, dep) = (ne_id e, dp_id (rt_deployment r))")
      case True
      then show ?thesis using that written(1) unfolding find_dispatch_get_row
        by (auto simp: delivery_written_def)
    next
      case False
      then show ?thesis using that w(3)[OF False] by (simp add: find_dispatch_get_row)
    qed
    then show ?thesis using w(1,2) written(2) by (auto simp: settled_def find_dispatch_get_row)
  qed
  then show "dispatches_ok (dispatches s')"
    "find_dispatch s ev dep = Some d \<Longrightarrow> ed_status d \<in> terminal_dispatch_statuses \<Longrightarrow>
       find_dispatch s' ev dep = Some d"
    "settled s' (ne_id e) (dp_id (rt_deployment r)) \<and> tl_retryable t' = tl_retryable t \<or>
     tl_retryable t' = tl_retryable t @ [uuid_str (dp_id (rt_deployment r))]" by blast+
qed

text \<open>The route of a selection, and whether the policy grants its request.\<close>

definition route_granted ::
    "dispatch_world \<Rightarrow> db \<Rightarrow> webhook_inbox \<Rightarrow> resolved_context \<Rightarrow> plugin_route \<Rightarrow> plugin_command option \<Rightarrow> bool" where
  "route_granted W s inbox x r command \<longleftrightarrow>
     acl_grants s (dw_clock W (dp_id (rt_deployment r)) Evaluated) (route_request x (wi_trace_id inbox) r command)"

lemma process_routes_effect:
  "process_routes E W e inbox x sels (t, s) = Inr (t', s') \<Longrightarrow> loop_frame s s' \<and>
     (\<exists>ms. outbox s' = outbox s @ ms \<and> (\<forall>m\<in>set ms. \<exists>r command content. (r, command, content) \<in> set sels \<and>
        reply_of_route e inbox x r command m \<and> route_granted W s inbox x r command))"
proof (induction sels arbitrary: t s)
  case (Cons sel sels)
  obtain r command content where sel: "sel = (r, command, content)" by (cases sel) 
  from Cons.prems obtain t1 s1 where step: "process_route E W e inbox x sel (t, s) = Inr (t1, s1)"
    and rest: "process_routes E W e inbox x sels (t1, s1) = Inr (t', s')"
    by (auto simp: result_simps)
  obtain ms where fr: "loop_frame s s1" and ms: "outbox s1 = outbox s @ ms"
    "\<forall>m\<in>set ms. reply_of_route e inbox x r command m \<and> route_granted W s inbox x r command"
    using process_route_effect[OF step[unfolded sel]] unfolding route_granted_def by blast
  obtain ms' where fr': "loop_frame s1 s'" and ms': "outbox s' = outbox s1 @ ms'"
    "\<forall>m\<in>set ms'. \<exists>r command content. (r, command, content) \<in> set sels \<and>
       reply_of_route e inbox x r command m \<and> route_granted W s1 inbox x r command"
    using Cons.IH[OF rest] by blast
  have same: "route_granted W s1 inbox x r command = route_granted W s inbox x r command" for r command
    by (simp add: route_granted_def acl_grants_frame[OF fr])
  have "\<exists>r command content. (r, command, content) \<in> set (sel # sels) \<and>
       reply_of_route e inbox x r command m \<and> route_granted W s inbox x r command" if "m \<in> set ms" for m
    using ms(2) that sel by (meson list.set_intros(1))
  moreover have "\<exists>r command content. (r, command, content) \<in> set (sel # sels) \<and>
       reply_of_route e inbox x r command m \<and> route_granted W s inbox x r command" if "m \<in> set ms'" for m
    using ms'(2) that unfolding same by (meson list.set_intros(2))
  ultimately have "\<forall>m\<in>set (ms @ ms'). \<exists>r command content. (r, command, content) \<in> set (sel # sels) \<and>
       reply_of_route e inbox x r command m \<and> route_granted W s inbox x r command" by (simp add: Ball_def)
  moreover have "outbox s' = outbox s @ (ms @ ms')" using ms(1) ms'(1) by simp
  ultimately show ?case using loop_frame_trans[OF fr fr'] by blast
qed auto

lemma process_routes_settled:
  "process_routes E W e inbox x sels (t, s) = Inr (t', s') \<Longrightarrow> dispatches_ok (dispatches s) \<Longrightarrow>
     dispatches_ok (dispatches s') \<and>
     (\<forall>ev dep d. find_dispatch s ev dep = Some d \<longrightarrow> ed_status d \<in> terminal_dispatch_statuses \<longrightarrow>
        find_dispatch s' ev dep = Some d) \<and>
     (\<exists>fs. tl_retryable t' = tl_retryable t @ fs \<and>
        (fs = [] \<longrightarrow> (\<forall>sel\<in>set sels. settled s' (ne_id e) (dp_id (rt_deployment (fst sel))))))"
proof (induction sels arbitrary: t s)
  case (Cons sel sels)
  obtain r command content where sel: "sel = (r, command, content)" by (cases sel)
  from Cons.prems obtain t1 s1 where step: "process_route E W e inbox x (r, command, content) (t, s) = Inr (t1, s1)"
    and rest: "process_routes E W e inbox x sels (t1, s1) = Inr (t', s')"
    by (auto simp: result_simps sel)
  note st = process_route_settled[OF step Cons.prems(2)]
  note ih = Cons.IH[OF rest st(1)]
  have keep: "find_dispatch s' ev dep = Some d"
    if "find_dispatch s ev dep = Some d" "ed_status d \<in> terminal_dispatch_statuses" for ev dep d
    using st(2)[OF that] that ih by blast
  obtain fs where fs: "tl_retryable t' = tl_retryable t1 @ fs"
    "fs = [] \<longrightarrow> (\<forall>sel\<in>set sels. settled s' (ne_id e) (dp_id (rt_deployment (fst sel))))"
    using ih by blast
  have "\<exists>gs. tl_retryable t' = tl_retryable t @ gs \<and>
      (gs = [] \<longrightarrow> (\<forall>sel\<in>set (sel # sels). settled s' (ne_id e) (dp_id (rt_deployment (fst sel)))))"
  proof (cases "tl_retryable t1 = tl_retryable t")
    case True
    then have "settled s1 (ne_id e) (dp_id (rt_deployment r))" using st(3) by auto
    then have "settled s' (ne_id e) (dp_id (rt_deployment r))" using ih unfolding settled_def by blast
    then show ?thesis using fs True by (intro exI[of _ fs]) (simp add: sel)
  next
    case False
    then show ?thesis using st(3) fs(1) by auto
  qed
  then show ?case using ih keep by blast
qed auto

section \<open>Ways through a dispatch\<close>

lemma create_principal_keeps:
  assumes "create_principal E p s = Inr (x, s')"
  shows "outbox s' = outbox s \<and> dispatches s' = dispatches s \<and> inboxes s' = inboxes s \<and> events s' = events s
     \<and> chatrooms s' = chatrooms s \<and> memberships s' = memberships s \<and> rules s' = rules s \<and> deployments s' = deployments s"
  using assms by (auto simp: create_principal_def alloc_def Let_def split: if_split_asm option.split_asm)

lemma ensure_keeps:
  "ensure_chatroom E a g s = (c, s') \<Longrightarrow> outbox s' = outbox s \<and> dispatches s' = dispatches s \<and>
     inboxes s' = inboxes s \<and> events s' = events s"
  "ensure_contact E a g s = (d, s') \<Longrightarrow> outbox s' = outbox s \<and> dispatches s' = dispatches s \<and>
     inboxes s' = inboxes s \<and> events s' = events s"
  "ensure_membership E room w now s = Inr (m, s') \<Longrightarrow> outbox s' = outbox s \<and> dispatches s' = dispatches s \<and>
     inboxes s' = inboxes s \<and> events s' = events s"
  "actor_principal E ws t g s = Inr (p, s') \<Longrightarrow> outbox s' = outbox s \<and> dispatches s' = dispatches s \<and>
     inboxes s' = inboxes s \<and> events s' = events s"
  by (auto simp: ensure_chatroom_def ensure_contact_def ensure_membership_def actor_principal_def alloc_def Let_def
      dest!: create_principal_keeps split: option.split_asm if_split_asm sum.split_asm)

lemma resolve_context_keeps:
  assumes "resolve_context E e now s = Inr (c, s')"
  shows "outbox s' = outbox s \<and> dispatches s' = dispatches s \<and> inboxes s' = inboxes s \<and> events s' = events s"
proof -
  have g: "resolve_group E a ws ext e now s = Inr (x, s') \<Longrightarrow> outbox s' = outbox s \<and>
      dispatches s' = dispatches s \<and> inboxes s' = inboxes s \<and> events s' = events s" for a ws ext x
    by (auto simp: resolve_group_def Let_def result_simps dest!: ensure_keeps
        split: prod.split_asm option.split_asm if_split_asm)
  have p: "resolve_private E a ws ext e s = Inr (x, s') \<Longrightarrow> outbox s' = outbox s \<and>
      dispatches s' = dispatches s \<and> inboxes s' = inboxes s \<and> events s' = events s" for a ws ext x
    by (auto simp: resolve_private_def Let_def result_simps dest!: ensure_keeps
        split: prod.split_asm)
  show ?thesis using assms
    by (auto simp: resolve_context_def Let_def result_simps dest!: g p split: option.split_asm if_split_asm)
qed

fun outcome_state :: "dispatch_outcome \<Rightarrow> db option" where
  "outcome_state (DispatchDone r s) = Some s"
| "outcome_state (DispatchRetryable d s) = Some s"
| "outcome_state (DispatchRaised err) = None"

text \<open>The dispatch of the event reaches the delivery loop, with this context and these routes.\<close>

definition reaches_loop ::
    "env \<Rightarrow> dispatch_world \<Rightarrow> uuid \<Rightarrow> db \<Rightarrow> normalized_event \<Rightarrow> webhook_inbox \<Rightarrow> resolved_context
     \<Rightarrow> plugin_route list \<Rightarrow> db \<Rightarrow> bool" where
  "reaches_loop E W i s e inbox x routes s1 \<longleftrightarrow>
     get_row ne_id i (events s) = Some e \<and> get_row wi_id (ne_webhook_inbox_id e) (inboxes s) = Some inbox \<and>
     \<not> ne_is_self e \<and> wi_status inbox \<notin> {In_IGNORED_SELF, In_DISPATCHED} \<and>
     ne_conversation_type e \<noteq> Conv_SYSTEM \<and> ne_event_type e \<noteq> ''gewe.callback_verification'' \<and>
     resolve_context E e (dw_resolved_at W) s = Inr (Some x, s1) \<and> ne_conversation_id e \<noteq> None \<and>
     plugin_routes E s1 x = Some routes \<and> length (command_routes routes (rx_message_text x)) \<le> 1"

lemma set_inbox_keeps [simp]:
  "outbox (set_inbox i st c d s) = outbox s" "dispatches (set_inbox i st c d s) = dispatches s"
  "events (set_inbox i st c d s) = events s"
  by (simp_all add: set_inbox_def split: option.split)

lemma dispatch_cases:
  obtains (quiet) "\<forall>s'. outcome_state (dispatch E W i s) = Some s' \<longrightarrow>
      outbox s' = outbox s \<and> dispatches s' = dispatches s"
  | (delivered) e inbox x routes s1 t s2 where "reaches_loop E W i s e inbox x routes s1"
      "process_routes E W e inbox x (select_routes e x routes) (empty_tally, s1) = Inr (t, s2)"
      "dispatch E W i s = finish_dispatch e routes t s2"
proof (cases "\<exists>e inbox x routes s1. reaches_loop E W i s e inbox x routes s1")
  case True
  then obtain e inbox x routes s1 where r: "reaches_loop E W i s e inbox x routes s1" by blast
  then have d: "dispatch E W i s =
      (case process_routes E W e inbox x (select_routes e x routes) (empty_tally, s1) of
         Inl err \<Rightarrow> DispatchRaised err | Inr (t, s') \<Rightarrow> finish_dispatch e routes t s')"
    by (auto simp: reaches_loop_def dispatch_def route_event_def Let_def)
  show thesis
  proof (cases "process_routes E W e inbox x (select_routes e x routes) (empty_tally, s1)")
    case (Inl err)
    then show thesis using quiet d by simp
  next
    case (Inr ts)
    then show thesis using delivered[OF r] d by (cases ts) simp
  qed
next
  case False
  have q: "outcome_state (route_event E W e inbox x s1) = Some s' \<Longrightarrow>
      reaches_loop E W i s e inbox x routes s1 \<or> outbox s' = outbox s1 \<and> dispatches s' = dispatches s1"
    if "get_row ne_id i (events s) = Some e" "get_row wi_id (ne_webhook_inbox_id e) (inboxes s) = Some inbox"
      "\<not> (ne_is_self e \<or> wi_status inbox = In_IGNORED_SELF)" "wi_status inbox \<noteq> In_DISPATCHED"
      "\<not> (ne_conversation_type e = Conv_SYSTEM \<or> ne_event_type e = ''gewe.callback_verification'')"
      "resolve_context E e (dw_resolved_at W) s = Inr (Some x, s1)" "ne_conversation_id e \<noteq> None"
      "plugin_routes E s1 x = Some routes" for e inbox x routes s1 s'
    using that by (auto simp: reaches_loop_def route_event_def reject_conflict_def Let_def
        split: if_split_asm)
  have "outbox s' = outbox s \<and> dispatches s' = dispatches s" if st: "outcome_state (dispatch E W i s) = Some s'" for s'
  proof (cases "get_row ne_id i (events s)")
    case None
    then show ?thesis using st by (simp add: dispatch_def)
  next
    case e: (Some e)
    show ?thesis
    proof (cases "get_row wi_id (ne_webhook_inbox_id e) (inboxes s)")
      case None
      then show ?thesis using st e by (simp add: dispatch_def)
    next
      case inbox: (Some inbox)
      let ?self = "ne_is_self e \<or> wi_status inbox = In_IGNORED_SELF"
      let ?sys = "ne_conversation_type e = Conv_SYSTEM \<or> ne_event_type e = ''gewe.callback_verification''"
      show ?thesis
      proof (cases "?self \<or> wi_status inbox = In_DISPATCHED \<or> ?sys")
        case True
        then show ?thesis using st e inbox by (auto simp: dispatch_def split: if_split_asm)
      next
        case go: False
        then obtain ctx s1 where ctx: "resolve_context E e (dw_resolved_at W) s = Inr (ctx, s1)"
          using st e inbox by (auto simp: dispatch_def split: sum.split_asm)
        note k = resolve_context_keeps[OF ctx]
        show ?thesis
        proof (cases "ctx = None \<or> ne_conversation_id e = None")
          case True
          then show ?thesis using st e inbox go ctx k by (auto simp: dispatch_def)
        next
          case some: False
          then obtain x where x: "ctx = Some x" by (cases ctx) auto
          then have out: "outcome_state (route_event E W e inbox x s1) = Some s'"
            using st e inbox go ctx some by (auto simp: dispatch_def split: if_split_asm)
          then obtain routes where "plugin_routes E s1 x = Some routes"
            by (auto simp: route_event_def split: option.split_asm)
          then have "reaches_loop E W i s e inbox x routes s1 \<or> outbox s' = outbox s1 \<and> dispatches s' = dispatches s1"
            using q[OF e inbox _ _ _ ctx[unfolded x] _ _ out] go some by simp
          then show ?thesis using False k by auto
        qed
      qed
    qed
  qed
  then show thesis using quiet by blast
qed

lemma finish_dispatch_state:
  "outcome_state (finish_dispatch e routes t s) = Some s' \<Longrightarrow> outbox s' = outbox s \<and> dispatches s' = dispatches s"
  by (auto simp: finish_dispatch_def Let_def split: if_split_asm)

section \<open>Properties of a dispatch\<close>

text \<open>
  C4: Every message a dispatch adds to the outbox is a reply of a plugin that was selected for the
  event and whose request the policy granted: it goes to the conversation of the event, by the
  account and under the trace of the event, carries the authorization context that was evaluated,
  and its deployment holds the grant \<open>message.reply.text\<close>.
\<close>

theorem dispatch_replies_authorized:
  assumes "outcome_state (dispatch E W i s) = Some s'" "m \<in> set (outbox s')" "m \<notin> set (outbox s)"
  shows "\<exists>e inbox x routes s1 r command content. reaches_loop E W i s e inbox x routes s1 \<and>
     (r, command, content) \<in> set (select_routes e x routes) \<and> route_granted W s1 inbox x r command \<and>
     reply_of_route e inbox x r command m"
proof (cases rule: dispatch_cases[of E W i s])
  case quiet
  then show ?thesis using assms by simp
next
  case (delivered e inbox x routes s1 t s2)
  obtain ms where ms: "outbox s2 = outbox s1 @ ms" "\<forall>m\<in>set ms. \<exists>r command content.
      (r, command, content) \<in> set (select_routes e x routes) \<and> reply_of_route e inbox x r command m \<and>
      route_granted W s1 inbox x r command"
    using process_routes_effect[OF delivered(2)] by blast
  have "outbox s' = outbox s2" using finish_dispatch_state assms(1) delivered(3) by metis
  moreover have "outbox s1 = outbox s"
    using delivered(1) resolve_context_keeps unfolding reaches_loop_def by blast
  ultimately have "m \<in> set ms" using ms(1) assms(2,3) by auto
  then show ?thesis using ms(2) delivered(1) by blast
qed

lemma world_clock_routes [simp]:
  "begin_attempt (W\<lparr>dw_invoke := f\<rparr>) = begin_attempt W"
  "deny_route (W\<lparr>dw_invoke := f\<rparr>) = deny_route W"
  "reject_route (W\<lparr>dw_invoke := f\<rparr>) = reject_route W"
  "succeed_route (W\<lparr>dw_invoke := f\<rparr>) = succeed_route W"
  "route_granted (W\<lparr>dw_invoke := f\<rparr>) = route_granted W"
  by (simp_all add: fun_eq_iff begin_attempt_def deny_route_def reject_route_def succeed_route_def
      route_granted_def)

lemma world_clock_accept [simp]: "accept_result E (W\<lparr>dw_invoke := f\<rparr>) = accept_result E W"
proof -
  have "dw_clock (W\<lparr>dw_invoke := f\<rparr>) = dw_clock W" by simp
  then show ?thesis unfolding accept_result_def fun_eq_iff by (simp only: world_clock_routes simp_thms)
qed

lemma process_route_world:
  assumes "settled s (ne_id e) (dp_id (rt_deployment r)) \<or> \<not> route_granted W s inbox x r command \<or>
    f (uuid_str (dp_id (rt_deployment r))) (event_envelope E e inbox x content command) =
      dw_invoke W (uuid_str (dp_id (rt_deployment r))) (event_envelope E e inbox x content command)"
  shows "process_route E (W\<lparr>dw_invoke := f\<rparr>) e inbox x (r, command, content) (t, s) =
     process_route E W e inbox x (r, command, content) (t, s)"
proof (cases "dispatch_record E e r s")
  case (Inl err)
  then show ?thesis by (simp add: process_route_def)
next
  case (Inr ds)
  obtain d s1 where rec: "dispatch_record E e r s = Inr (d, s1)" using Inr by (cases ds) simp
  show ?thesis
  proof (cases "ed_status d \<in> terminal_dispatch_statuses")
    case True
    then show ?thesis using rec by (simp add: process_route_def)
  next
    case opened: False
    let ?q = "route_request x (wi_trace_id inbox) r command"
      and ?now = "dw_clock W (dp_id (rt_deployment r)) Evaluated"
      and ?s1 = "put_dispatch (assign_revision r d) s1"
    note w = dispatch_record_written[OF rec opened]
    have "\<not> settled s (ne_id e) (dp_id (rt_deployment r))"
      using w(1) by (auto simp: delivery_written_def settled_def find_dispatch_get_row)
    then have ask: "\<not> route_granted W s inbox x r command \<or>
      f (uuid_str (dp_id (rt_deployment r))) (event_envelope E e inbox x content command) =
      dw_invoke W (uuid_str (dp_id (rt_deployment r))) (event_envelope E e inbox x content command)"
      using assms by blast
    show ?thesis
    proof (cases "evaluate ?q ?now ?s1")
      case (Inl err)
      then show ?thesis using rec opened by (simp add: process_route_def Let_def)
    next
      case (Inr ds2)
      obtain dec s2 where ev: "evaluate ?q ?now ?s1 = Inr (dec, s2)" using Inr by (cases ds2) simp
      have allowed: "dv_allowed dec \<longleftrightarrow> route_granted W s inbox x r command"
        using acl.answer[OF ev] acl_grants_frame[OF w(2)] by (simp add: route_granted_def)
      show ?thesis
      proof (cases "dv_allowed dec")
        case False
        then show ?thesis using rec opened ev by (simp add: process_route_def Let_def)
      next
        case True
        then have "f (uuid_str (dp_id (rt_deployment r))) (event_envelope E e inbox x content command) =
          dw_invoke W (uuid_str (dp_id (rt_deployment r))) (event_envelope E e inbox x content command)"
          using ask allowed by blast
        then have "invoke_route E (W\<lparr>dw_invoke := f\<rparr>) e inbox x (r, command, content) (assign_revision r d) (t, s2) =
          invoke_route E W e inbox x (r, command, content) (assign_revision r d) (t, s2)"
          by (simp add: invoke_route_def Let_def cong: sum.case_cong)
        then show ?thesis using rec opened ev True by (simp add: process_route_def Let_def)
      qed
    qed
  qed
qed

lemma process_routes_world:
  assumes "dispatches_ok (dispatches s)"
    and "\<And>r command content. (r, command, content) \<in> set sels \<Longrightarrow>
      settled s (ne_id e) (dp_id (rt_deployment r)) \<or> \<not> route_granted W s inbox x r command \<or>
      f (uuid_str (dp_id (rt_deployment r))) (event_envelope E e inbox x content command) =
        dw_invoke W (uuid_str (dp_id (rt_deployment r))) (event_envelope E e inbox x content command)"
  shows "process_routes E (W\<lparr>dw_invoke := f\<rparr>) e inbox x sels (t, s) =
     process_routes E W e inbox x sels (t, s)"
  using assms
proof (induction sels arbitrary: t s)
  case (Cons sel sels)
  obtain r command content where sel: "sel = (r, command, content)" by (cases sel)
  have eq: "process_route E (W\<lparr>dw_invoke := f\<rparr>) e inbox x sel (t, s) = process_route E W e inbox x sel (t, s)"
    unfolding sel by (rule process_route_world, rule Cons.prems(2)) (simp add: sel)
  show ?case
  proof (cases "process_route E W e inbox x sel (t, s)")
    case (Inl err)
    then show ?thesis using eq by simp
  next
    case (Inr ts)
    then obtain t1 s1 where step: "process_route E W e inbox x (r, command, content) (t, s) = Inr (t1, s1)"
      unfolding sel by (cases ts) simp
    note st = process_route_settled[OF step Cons.prems(1)]
    have fr: "loop_frame s s1" using process_route_effect[OF step] by blast
    have keep: "settled s ev dep \<Longrightarrow> settled s1 ev dep" for ev dep
      using st(2) unfolding settled_def by blast
    have "process_routes E (W\<lparr>dw_invoke := f\<rparr>) e inbox x sels (t1, s1) =
        process_routes E W e inbox x sels (t1, s1)"
    proof (rule Cons.IH[OF st(1)])
      fix r command content assume "(r, command, content) \<in> set sels"
      then show "settled s1 (ne_id e) (dp_id (rt_deployment r)) \<or> \<not> route_granted W s1 inbox x r command \<or>
        f (uuid_str (dp_id (rt_deployment r))) (event_envelope E e inbox x content command) =
          dw_invoke W (uuid_str (dp_id (rt_deployment r))) (event_envelope E e inbox x content command)"
        using Cons.prems(2)[of r command content] keep
        unfolding route_granted_def acl_grants_frame[OF fr] by auto
    qed
    then show ?thesis using eq step sel by simp
  qed
qed simp

text \<open>
  C5: A plugin is called for an event only if its delivery is still open and the policy grants the
  request: the outcome of a dispatch is the same for all worlds that differ only in what the
  other plugins would answer.
\<close>

theorem plugin_called_only_if_open_and_granted:
  assumes ok: "dispatches_ok (dispatches s)"
    and agree: "\<And>e inbox x routes s1 r command content. reaches_loop E W i s e inbox x routes s1 \<Longrightarrow>
      (r, command, content) \<in> set (select_routes e x routes) \<Longrightarrow>
      \<not> settled s (ne_id e) (dp_id (rt_deployment r)) \<Longrightarrow> route_granted W s1 inbox x r command \<Longrightarrow>
      f (uuid_str (dp_id (rt_deployment r))) (event_envelope E e inbox x content command) =
        dw_invoke W (uuid_str (dp_id (rt_deployment r))) (event_envelope E e inbox x content command)"
  shows "dispatch E (W\<lparr>dw_invoke := f\<rparr>) i s = dispatch E W i s"
proof (cases "\<exists>e inbox x routes s1. reaches_loop E W i s e inbox x routes s1")
  case True
  then obtain e inbox x routes s1 where r: "reaches_loop E W i s e inbox x routes s1" by blast
  then have same: "dispatches s1 = dispatches s"
    using resolve_context_keeps unfolding reaches_loop_def by blast
  have "process_routes E (W\<lparr>dw_invoke := f\<rparr>) e inbox x (select_routes e x routes) (empty_tally, s1) =
      process_routes E W e inbox x (select_routes e x routes) (empty_tally, s1)"
  proof (rule process_routes_world)
    have "settled s1 = settled s" by (simp add: fun_eq_iff settled_def find_dispatch_def same)
    then show "settled s1 (ne_id e) (dp_id (rt_deployment r')) \<or> \<not> route_granted W s1 inbox x r' command \<or>
      f (uuid_str (dp_id (rt_deployment r'))) (event_envelope E e inbox x content command) =
        dw_invoke W (uuid_str (dp_id (rt_deployment r'))) (event_envelope E e inbox x content command)"
      if "(r', command, content) \<in> set (select_routes e x routes)" for r' command content
      using agree[OF r that] by auto
  qed (use ok same in simp)
  then show ?thesis using r by (auto simp: reaches_loop_def dispatch_def route_event_def Let_def)
next
  case False
  have "\<not> length (command_routes routes (rx_message_text x)) \<le> 1"
    if "get_row ne_id i (events s) = Some e" "get_row wi_id (ne_webhook_inbox_id e) (inboxes s) = Some inbox"
      "\<not> (ne_is_self e \<or> wi_status inbox = In_IGNORED_SELF)" "wi_status inbox \<noteq> In_DISPATCHED"
      "\<not> (ne_conversation_type e = Conv_SYSTEM \<or> ne_event_type e = ''gewe.callback_verification'')"
      "resolve_context E e (dw_resolved_at W) s = Inr (Some x, s1)" "ne_conversation_id e \<noteq> None"
      "plugin_routes E s1 x = Some routes" for e inbox x routes s1
    using False that unfolding reaches_loop_def by blast
  then show ?thesis
    by (auto simp: dispatch_def route_event_def Let_def not_le split: option.split sum.split)
qed

text \<open>
  C13: Whatever a dispatch does, for this event or another, it keeps at most one delivery record per
  event and deployment, and a delivery that succeeded, was denied or was rejected keeps its
  record unchanged.
\<close>

theorem settled_deliveries_are_final:
  assumes "outcome_state (dispatch E W i s) = Some s'" "dispatches_ok (dispatches s)"
  shows "dispatches_ok (dispatches s') \<and>
    (\<forall>ev dep d. find_dispatch s ev dep = Some d \<longrightarrow> ed_status d \<in> terminal_dispatch_statuses \<longrightarrow>
       find_dispatch s' ev dep = Some d)"
proof (cases rule: dispatch_cases[of E W i s])
  case quiet
  then show ?thesis using assms by (simp add: find_dispatch_def)
next
  case (delivered e inbox x routes s1 t s2)
  have "dispatches s1 = dispatches s"
    using delivered(1) resolve_context_keeps unfolding reaches_loop_def by blast
  moreover have "dispatches s' = dispatches s2" using finish_dispatch_state assms(1) delivered(3) by metis
  ultimately show ?thesis
    using process_routes_settled[OF delivered(2)] assms(2) by (simp add: find_dispatch_def)
qed

lemma set_inbox_get:
  "get_row wi_id i (inboxes s) = Some w \<Longrightarrow>
     get_row wi_id i (inboxes (set_inbox i st c d s)) =
       Some (w\<lparr>wi_status := st, wi_error_code := c, wi_error_detail := d\<rparr>)"
  using get_put_same[of wi_id "w\<lparr>wi_status := st, wi_error_code := c, wi_error_detail := d\<rparr>" "inboxes s"]
    get_row_Some_mem[of wi_id i "inboxes s" w]
  by (simp add: set_inbox_def)

lemma reaches_loop_done:
  assumes r: "reaches_loop E W i s e inbox x routes s1"
    and d: "dispatch E W i s = DispatchDone res s'"
  obtains t s2 where
    "process_routes E W e inbox x (select_routes e x routes) (empty_tally, s1) = Inr (t, s2)"
    "tl_retryable t = []" "s' = set_inbox (ne_webhook_inbox_id e) In_DISPATCHED None None s2"
    "dispatches s1 = dispatches s" "inboxes s2 = inboxes s" "events s2 = events s"
proof -
  have "dispatch E W i s =
      (case process_routes E W e inbox x (select_routes e x routes) (empty_tally, s1) of
         Inl err \<Rightarrow> DispatchRaised err | Inr (t, s') \<Rightarrow> finish_dispatch e routes t s')"
    using r by (auto simp: reaches_loop_def dispatch_def route_event_def Let_def)
  then obtain t s2 where p: "process_routes E W e inbox x (select_routes e x routes) (empty_tally, s1) = Inr (t, s2)"
    and f: "finish_dispatch e routes t s2 = DispatchDone res s'"
    using d by (auto split: sum.split_asm prod.split_asm)
  have k: "dispatches s1 = dispatches s" "inboxes s1 = inboxes s" "events s1 = events s"
    using r resolve_context_keeps unfolding reaches_loop_def by blast+
  have "loop_frame s1 s2" using process_routes_effect[OF p] by blast
  then have "inboxes s2 = inboxes s" "events s2 = events s" using loop_frameD k by metis+
  then show thesis using that[OF p] f k(1) by (auto simp: finish_dispatch_def Let_def split: if_split_asm)
qed

text \<open>
  C14: A dispatch that reaches the plugins and returns has settled the delivery to every selected
  deployment and marked the inbox row DISPATCHED without an error, and dispatching the event
  again, whatever the plugins would then answer, changes nothing.
\<close>

theorem dispatch_completes:
  assumes ok: "dispatches_ok (dispatches s)"
    and r: "reaches_loop E W i s e inbox x routes s1"
    and d: "dispatch E W i s = DispatchDone res s'"
  shows "(\<forall>sel\<in>set (select_routes e x routes). settled s' (ne_id e) (dp_id (rt_deployment (fst sel)))) \<and>
    (\<exists>w. get_row wi_id (ne_webhook_inbox_id e) (inboxes s') = Some w \<and> wi_status w = In_DISPATCHED \<and>
       wi_error_code w = None) \<and>
    dispatch E W' i s' = DispatchDone (ignored_result i) s'"
proof -
  obtain t s2 where p: "process_routes E W e inbox x (select_routes e x routes) (empty_tally, s1) = Inr (t, s2)"
      "tl_retryable t = []" and s': "s' = set_inbox (ne_webhook_inbox_id e) In_DISPATCHED None None s2"
    and k: "dispatches s1 = dispatches s" "inboxes s2 = inboxes s" "events s2 = events s"
    using reaches_loop_done[OF r d] by metis
  have row: "get_row wi_id (ne_webhook_inbox_id e) (inboxes s) = Some inbox"
    "get_row ne_id i (events s) = Some e" "\<not> ne_is_self e"
    using r by (simp_all add: reaches_loop_def)
  have w: "get_row wi_id (ne_webhook_inbox_id e) (inboxes s') =
      Some (inbox\<lparr>wi_status := In_DISPATCHED, wi_error_code := None, wi_error_detail := None\<rparr>)"
    using set_inbox_get[of "ne_webhook_inbox_id e" s2 inbox] row(1) by (simp add: s' k)
  have "\<forall>sel\<in>set (select_routes e x routes). settled s2 (ne_id e) (dp_id (rt_deployment (fst sel)))"
    using process_routes_settled[OF p(1)] ok k(1) p(2) by (simp add: empty_tally_def)
  moreover have "settled s' = settled s2" by (simp add: fun_eq_iff settled_def find_dispatch_def s')
  moreover have "dispatch E W' i s' = DispatchDone (ignored_result i) s'"
    using w row(2,3) by (simp add: dispatch_def s' k)
  ultimately show ?thesis using w by simp
qed

section \<open>Commands are routed to one deployment\<close>

text \<open>
  The routable deployments of a workspace are free of conflicts if any two of them whose scopes
  overlap have no command name in common.
\<close>

definition conflict_free :: "env \<Rightarrow> db \<Rightarrow> uuid \<Rightarrow> bool" where
  "conflict_free E s ws \<longleftrightarrow>
     (\<forall>d rv pv d' rv' pv' m m'. (d, rv, pv) \<in> set (routable_rows s ws) \<longrightarrow>
        (d', rv', pv') \<in> set (routable_rows s ws) \<longrightarrow> dp_id d \<noteq> dp_id d' \<longrightarrow>
        scopes_overlap (rv_scope rv) (rv_scope rv') \<longrightarrow>
        validate_manifest E (pv_manifest pv) = Some m \<longrightarrow> validate_manifest E (pv_manifest pv') = Some m' \<longrightarrow>
        set (command_names m) \<inter> set (command_names m') = {})"

lemma scopes_overlap_sym: "scopes_overlap l r \<Longrightarrow> scopes_overlap r l"
  unfolding scopes_overlap_def by (auto split: option.splits)

lemma collect_routes_mem:
  "collect_routes E x rows = Some rts \<Longrightarrow> r \<in> set rts \<Longrightarrow>
     \<exists>pv. (rt_deployment r, rt_revision r, pv) \<in> set rows \<and>
       validate_manifest E (pv_manifest pv) = Some (rt_manifest r) \<and> scope_matches E (rv_scope (rt_revision r)) x"
proof (induction rows arbitrary: rts)
  case (Cons row rows)
  obtain d rv pv where row: "row = (d, rv, pv)" by (cases row)
  then obtain m rest where m: "validate_manifest E (pv_manifest pv) = Some m" "collect_routes E x rows = Some rest"
    "rts = (if scope_matches E (rv_scope rv) x
       then \<lparr>rt_deployment = d, rt_revision = rv, rt_manifest = m\<rparr> # rest else rest)"
    using Cons.prems(1) by (auto split: option.split_asm)
  show ?case
  proof (cases "r \<in> set rest")
    case True
    then show ?thesis using Cons.IH[OF m(2)] by auto
  next
    case False
    then have "r = \<lparr>rt_deployment = d, rt_revision = rv, rt_manifest = m\<rparr>" "scope_matches E (rv_scope rv) x"
      using m(3) Cons.prems(2) by (auto split: if_split_asm)
    then show ?thesis using m(1) row by auto
  qed
qed simp

lemma collect_routes_ids:
  "collect_routes E x rows = Some rts \<Longrightarrow>
     distinct (map (\<lambda>(d, rv, pv). dp_id d) rows) \<Longrightarrow> distinct (map (\<lambda>r. dp_id (rt_deployment r)) rts)"
proof (induction rows arbitrary: rts)
  case (Cons row rows)
  obtain d rv pv where row: "row = (d, rv, pv)" by (cases row)
  then obtain m rest where m: "collect_routes E x rows = Some rest"
    "rts = (if scope_matches E (rv_scope rv) x
       then \<lparr>rt_deployment = d, rt_revision = rv, rt_manifest = m\<rparr> # rest else rest)"
    using Cons.prems(1) by (auto split: option.split_asm)
  have "dp_id d \<notin> dp_id ` rt_deployment ` set rest"
    using collect_routes_mem[OF m(1)] Cons.prems(2) row by (force simp: image_iff)
  then show ?case using Cons m row by (auto simp: image_image)
qed simp

lemma sort_key_ids: "distinct (map f xs) \<Longrightarrow> distinct (map f (sort_key k xs))"
  by (simp add: distinct_map)

lemma routable_rows_ids:
  assumes "unique_by dp_id (deployments s)"
  shows "distinct (map (\<lambda>(d, rv, pv). dp_id d) (routable_rows s ws))"
proof -
  have "distinct (map dp_id (running_deployments s ws))"
    using assms unfolding running_deployments_def unique_by_def
    by (intro sort_key_ids) (simp add: distinct_map_filter)
  moreover have "distinct (map (\<lambda>(d, rv, pv). dp_id d) (List.map_filter (\<lambda>d. if get_row pl_id (dp_plugin_id d) (plugins s) = None then None
        else map_option (Pair d) (deployment_row s d)) ds))" if "distinct (map dp_id ds)" for ds
    using that
  proof (induction ds)
    case (Cons d ds)
    then show ?case by (force simp: map_filter_simps map_filter_set image_iff split: option.split if_split_asm)
  qed (simp add: map_filter_simps)
  ultimately show ?thesis by (simp add: routable_rows_def)
qed

lemma map_filter_at_most_one:
  assumes d: "distinct (map k xs)"
    and one: "\<And>x y. x \<in> set xs \<Longrightarrow> y \<in> set xs \<Longrightarrow> f x \<noteq> None \<Longrightarrow> f y \<noteq> None \<Longrightarrow> k x = k y"
  shows "length (List.map_filter f xs) \<le> 1"
proof -
  let ?ys = "filter (\<lambda>x. f x \<noteq> None) xs"
  have "\<exists>c. \<forall>x\<in>set ?ys. k x = c"
  proof (cases "?ys")
    case (Cons y ys)
    then have "y \<in> set ?ys" by (metis list.set_intros(1))
    then have "\<forall>x\<in>set ?ys. k x = k y" using one by (simp add: Ball_def)
    then show ?thesis by blast
  qed simp
  then obtain c where c: "\<forall>x\<in>set ?ys. k x = c" by blast
  then have "set (map k ?ys) \<subseteq> {c}" unfolding set_map by blast
  then have "card (set (map k ?ys)) \<le> card {c}" by (intro card_mono) auto
  moreover have "distinct (map k ?ys)" using d by (rule distinct_map_filter)
  ultimately have "length (map k ?ys) \<le> 1" using distinct_card by fastforce
  then show ?thesis by (simp add: List.map_filter_def comp_def)
qed

lemma claims_command_name:
  "claims_command name c \<Longrightarrow> c \<in> set (mf_commands m) \<Longrightarrow> casefold name \<in> set (command_names m)"
  by (auto simp: claims_command_def command_names_def)

text \<open>
  C25: If the running deployments of a workspace are free of conflicts, a message never matches the
  commands of two of them, so \<open>PLUGIN_COMMAND_CONFLICT\<close> cannot arise.
\<close>

theorem conflict_free_routes_one_command:
  assumes free: "conflict_free E s (rx_workspace_id x)" and ids: "unique_by dp_id (deployments s)"
    and routes: "plugin_routes E s x = Some routes"
  shows "length (command_routes routes t) \<le> 1"
proof (cases "parse_command t")
  case None
  then show ?thesis by (simp add: command_routes_def)
next
  case (Some na)
  obtain name args where na: "na = (name, args)" by (cases na)
  let ?hit = "\<lambda>r. map_option (\<lambda>c. (r, c, args)) (find (claims_command name) (mf_commands (rt_manifest r)))"
  have cr: "collect_routes E x (routable_rows s (rx_workspace_id x)) = Some routes"
    using routes by (simp add: plugin_routes_def)
  have hit: "casefold name \<in> set (command_names (rt_manifest r))" if h: "?hit r \<noteq> None" for r
  proof -
    obtain c where c: "find (claims_command name) (mf_commands (rt_manifest r)) = Some c" using h by auto
    then have "claims_command name c" "c \<in> set (mf_commands (rt_manifest r))"
      by (auto simp: find_Some_iff)
    then show ?thesis by (rule claims_command_name)
  qed
  have one: "dp_id (rt_deployment r) = dp_id (rt_deployment r')"
    if mem: "r \<in> set routes" "r' \<in> set routes" and hits: "?hit r \<noteq> None" "?hit r' \<noteq> None" for r r'
  proof (rule ccontr)
    assume ne: "dp_id (rt_deployment r) \<noteq> dp_id (rt_deployment r')"
    obtain pv pv' where m: "(rt_deployment r, rt_revision r, pv) \<in> set (routable_rows s (rx_workspace_id x))"
      "validate_manifest E (pv_manifest pv) = Some (rt_manifest r)" "scope_matches E (rv_scope (rt_revision r)) x"
      "(rt_deployment r', rt_revision r', pv') \<in> set (routable_rows s (rx_workspace_id x))"
      "validate_manifest E (pv_manifest pv') = Some (rt_manifest r')" "scope_matches E (rv_scope (rt_revision r')) x"
      using collect_routes_mem[OF cr mem(1)] collect_routes_mem[OF cr mem(2)] by blast
    have "scopes_overlap (rv_scope (rt_revision r)) (rv_scope (rt_revision r'))"
      by (rule overlap_if_both_match[OF m(3,6)])
    then have "set (command_names (rt_manifest r)) \<inter> set (command_names (rt_manifest r')) = {}"
      using free m ne unfolding conflict_free_def by blast
    then show False using hit[OF hits(1)] hit[OF hits(2)] by blast
  qed
  have "distinct (map (\<lambda>r. dp_id (rt_deployment r)) routes)"
    by (rule collect_routes_ids[OF cr routable_rows_ids[OF ids]])
  then have "length (List.map_filter ?hit routes) \<le> 1" using one by (rule map_filter_at_most_one)
  then show ?thesis using Some na by (simp add: command_routes_def)
qed

section \<open>Results that cannot be accepted as a whole\<close>

lemma submit_text_conflict:
  assumes ok: "submit_text E b now s = Inr s1" and keys: "unique_by om_idempotency_key (outbox s)"
    and first: "prepare_text E (submission_enqueue b) now = Inr t"
    and second: "prepare_text E (submission_enqueue b') now' = Inr t'"
    and clash: "ta_key t' = ta_key t" "ta_hash t' \<noteq> ta_hash t"
  shows "submit_text E b' now' s1 = Inl (InvalidPluginAction ''plugin action idempotency conflict'')"
proof -
  obtain m where e: "enqueue_text E (submission_enqueue b) now [] s = Inr (m, s1)"
    using ok by (rule submit_text_Inr)
  have "get_row om_idempotency_key (ta_key t) (outbox s1) = Some m \<and> om_payload_sha256 m = ta_hash t"
    using e
  proof (cases rule: enqueue_text_cases)
    case (inserted t0)
    then have "get_row om_idempotency_key (ta_key t0) (outbox s) = None" by (simp add: get_row_None_iff)
    then show ?thesis using inserted first by (simp add: get_row_append get_row_Cons)
  qed (use first in simp_all)
  then show ?thesis using second clash
    by (simp add: submit_text_def enqueue_text_def find_by_key_get_row match_existing_def)
qed

text \<open>
  A plugin result is not accepted as a whole: if its second action reuses the action key of the
  first for another text, the first reply stays in the outbox although the delivery is recorded
  as REJECTED.
\<close>

theorem rejected_result_keeps_first_reply:
  assumes read: "read_actions result e inbox x r command = Inr ([a, a'], [b, b'])"
    and first: "submit_text E b (dw_clock W (dp_id (rt_deployment r)) (Submitted 0)) s = Inr s1"
    and keys: "unique_by om_idempotency_key (outbox s)"
    and prep: "prepare_text E (submission_enqueue b) (dw_clock W (dp_id (rt_deployment r)) (Submitted 0)) = Inr t"
      "prepare_text E (submission_enqueue b') (dw_clock W (dp_id (rt_deployment r)) (Submitted 1)) = Inr t'"
    and clash: "ta_key t' = ta_key t" "ta_hash t' \<noteq> ta_hash t"
  shows "\<exists>t1 s2. accept_result E W e inbox x r command d result (t0, s) = Inr (t1, s2) \<and>
     tl_rejected t1 = Suc (tl_rejected t0) \<and> tl_accepted t1 = Suc (tl_accepted t0) \<and>
     outbox s2 = outbox s1 \<and> (\<exists>m\<in>set (outbox s2). om_idempotency_key m = ta_key t) \<and>
     dispatches s2 = put_row ed_id (d\<lparr>ed_status := Ds_REJECTED,
       ed_completed_at := Some (dw_clock W (dp_id (rt_deployment r)) Completed),
       ed_last_error_type := Some ''InvalidPluginActionError''\<rparr>) (dispatches s)"
proof -
  have second: "submit_text E b' (dw_clock W (dp_id (rt_deployment r)) (Submitted 1)) s1 =
      Inl (InvalidPluginAction ''plugin action idempotency conflict'')"
    by (rule submit_text_conflict[OF first keys prep clash])
  obtain ob n where s1: "s1 = s\<lparr>outbox := ob, next_id := n\<rparr>" using sink.frame[OF first] by blast
  have "ta_key t = strip (ts_idempotency_key b)"
    using prepare_text_Inr[OF prep(1)] by (simp add: submission_enqueue_def)
  then have "\<exists>m\<in>set (outbox s1). om_idempotency_key m = ta_key t" using sink.accepted[OF first] by simp
  then show ?thesis using read first second s1
    by (simp add: accept_result_def Let_def reject_route_def)
qed

text \<open>
  An action whose type is an array or an object makes the dispatch of the whole event raise:
  the lookup in the set of supported types fails with a \<open>TypeError\<close>, which is not the
  error for an invalid action, and with it everything the other plugins replied is rolled back.
\<close>

theorem unhashable_action_type_aborts:
  assumes "json_lookup result ''actions'' = Some (JArr (a # as))" "length as < 20" "\<forall>b\<in>set (a # as). is_obj b"
    and "json_get a ''action_type'' = JArr (u # us) \<or> json_get a ''action_type'' = JObj (v # vs)"
    and "dw_invoke W (uuid_str (dp_id (rt_deployment r))) (event_envelope E e inbox x content command) = Inr result"
  shows "invoke_route E W e inbox x (r, command, content) d (t, s) = Inl ''TypeError''"
proof -
  have "is_obj result" using assms(1) by (cases result) simp_all
  then have "plugin_actions result = Inr (a # as)" using assms(1-3) by (auto simp: plugin_actions_def)
  moreover have "check_action_type a = Inl (Raised ''TypeError'')"
    using assms(4) by (auto simp: check_action_type_def)
  ultimately have "read_actions result e inbox x r command = Inl (Raised ''TypeError'')"
    by (simp add: read_actions_def make_submission_def)
  then show ?thesis using assms(5) by (simp add: invoke_route_def accept_result_def Let_def)
qed

section \<open>Concrete instances\<close>

definition sample_inbox :: webhook_inbox where
  "sample_inbox = \<lparr>wi_id = 70, wi_provider = ''GEWE'', wi_gewe_connection_id = 2, wi_app_id = ''app'',
     wi_new_msg_id = Some ''n'', wi_dedup_key = ''k'', wi_payload_sha256 = ''h'', wi_schema_version = ''1'',
     wi_raw_payload = JNull, wi_trace_id = 77, wi_status = In_DISPATCHING, wi_error_code = None,
     wi_error_detail = None, wi_dispatch_attempt_count = 1, wi_dispatch_available_at = 0, wi_created_at = 0\<rparr>"

definition sample_event :: normalized_event where
  "sample_event = \<lparr>ne_id = 71, ne_webhook_inbox_id = 70, ne_bot_account_id = Some 3, ne_event_type = ''message'',
     ne_conversation_type = Conv_GROUP, ne_conversation_id = Some ''g@chatroom'', ne_actor_wxid = Some ''wxid_m'',
     ne_to_wxid = None, ne_provider_message_id = Some ''n'', ne_is_self = False, ne_occurred_at = None,
     ne_content = JObj [(''raw_content'', JStr ''wxid_m:\<newline>/weather paris'')], ne_raw_ref = ''r'', ne_created_at = 0\<rparr>"

definition sample_dispatch_db :: db where
  "sample_dispatch_db = sample_plugin_db\<lparr>inboxes := [sample_inbox], events := [sample_event],
     rules := [(sample_rule 6 ALLOW False None None)\<lparr>ar_resource_id := ''demo.weather''\<rparr>]\<rparr>"

definition sample_reply :: "string \<Rightarrow> json" where
  "sample_reply content = JObj [(''type'', JStr ''reply.text''), (''content'', JStr content)]"

definition sample_world :: "json \<Rightarrow> dispatch_world" where
  "sample_world result = \<lparr>dw_invoke = (\<lambda>d j. Inr result), dw_resolved_at = 10, dw_clock = (\<lambda>d c. 10)\<rparr>"

lemmas sample_dispatch_defs = sample_dispatch_db_def sample_event_def sample_inbox_def sample_plugin_defs sample_defs

lemma sample_resolved:
  "resolve_context sample_env sample_event 10 sample_dispatch_db = Inr (Some sample_event_context, sample_dispatch_db)"
  by (simp add: resolve_context_def resolve_group_def ensure_chatroom_def ensure_membership_def
      actor_principal_def create_principal_def find_principal_def message_text_def Let_def get_row_def
      put_row_def sample_dispatch_defs)

lemma sample_weather:
  "map_option (\<lambda>m. (mf_plugin_id m, map command_spellings (mf_commands m)))
     (validate_manifest sample_env (sample_plugin_manifest ''weather'')) = Some (''demo.weather'', [[''weather'']])"
  by code_simp

definition sample_route :: "plugin_manifest \<Rightarrow> plugin_route" where
  "sample_route m = \<lparr>rt_deployment = sample_deployment 61 51 Dp_RUNNING,
     rt_revision = sample_revision 51 41 [''g@chatroom'', ''h@chatroom''], rt_manifest = m\<rparr>"

lemma sample_routable: "routable_rows sample_dispatch_db 1 = [(sample_deployment 61 51 Dp_RUNNING,
     sample_revision 51 41 [''g@chatroom'', ''h@chatroom''], sample_package 41 ''weather'')]"
  by (simp add: routable_rows_def running_deployments_def map_filter_simps deployment_row_def get_row_def
      sample_dispatch_defs)

lemma sample_routes:
  "\<exists>m c. plugin_routes sample_env sample_dispatch_db sample_event_context = Some [sample_route m] \<and>
     mf_plugin_id m = ''demo.weather'' \<and> mf_commands m = [c] \<and> command_spellings c = [''weather'']"
proof -
  obtain m c where m: "validate_manifest sample_env (sample_plugin_manifest ''weather'') = Some m"
    "mf_plugin_id m = ''demo.weather''" "mf_commands m = [c]" "command_spellings c = [''weather'']"
    using sample_weather by auto
  have "rx_workspace_id sample_event_context = 1" by (simp add: sample_event_context_def)
  then have "plugin_routes sample_env sample_dispatch_db sample_event_context = Some [sample_route m]"
    using m(1) sample_scope_matches
    by (simp add: plugin_routes_def sample_routable sample_package_def sample_revision_def sample_route_def)
  then show ?thesis using m by blast
qed

text \<open>The route, command and arguments selected for the sample message.\<close>

lemma sample_selected:
  obtains m c where "plugin_routes sample_env sample_dispatch_db sample_event_context = Some [sample_route m]"
    "mf_plugin_id m = ''demo.weather''" "mc_name c = ''weather''"
    "command_routes [sample_route m] (rx_message_text sample_event_context) = [(sample_route m, c, ''paris'')]"
    "select_routes sample_event sample_event_context [sample_route m] = [(sample_route m, Some c, ''paris'')]"
proof -
  obtain m c where m: "plugin_routes sample_env sample_dispatch_db sample_event_context = Some [sample_route m]"
     "mf_plugin_id m = ''demo.weather''" "mf_commands m = [c]" "command_spellings c = [''weather'']"
    using sample_routes by blast
  have p: "parse_command (rx_message_text sample_event_context) = Some (''weather'', ''paris'')"
    by (simp add: parse_command_def sample_event_context_def strip_def lstrip_def py_isspace_def)
  have "command_routes [sample_route m] (rx_message_text sample_event_context) = [(sample_route m, c, ''paris'')]"
    using p m by (simp add: command_routes_def map_filter_simps sample_route_def claims_command_def)
  moreover from this have "select_routes sample_event sample_event_context [sample_route m] = [(sample_route m, Some c, ''paris'')]"
    by (simp add: select_routes_def)
  moreover have "mc_name c = ''weather''" using m(4) by (simp add: command_spellings_def)
  ultimately show thesis using that m by blast
qed

lemma sample_reaches:
  "dw_resolved_at W = 10 \<Longrightarrow> plugin_routes sample_env sample_dispatch_db sample_event_context = Some routes \<Longrightarrow>
     length (command_routes routes (rx_message_text sample_event_context)) \<le> 1 \<Longrightarrow>
     reaches_loop sample_env W 71 sample_dispatch_db sample_event sample_inbox sample_event_context routes sample_dispatch_db"
proof -
  have "events sample_dispatch_db = [sample_event]" "inboxes sample_dispatch_db = [sample_inbox]"
    by (simp_all add: sample_dispatch_db_def)
  moreover have "ne_id sample_event = 71" "ne_webhook_inbox_id sample_event = 70" "wi_id sample_inbox = 70"
    "wi_status sample_inbox = In_DISPATCHING" "\<not> ne_is_self sample_event" "ne_conversation_type sample_event = Conv_GROUP"
    "ne_event_type sample_event = ''message''" "ne_conversation_id sample_event = Some ''g@chatroom''"
    by (simp_all add: sample_event_def sample_inbox_def)
  ultimately show "dw_resolved_at W = 10 \<Longrightarrow> plugin_routes sample_env sample_dispatch_db sample_event_context = Some routes \<Longrightarrow>
     length (command_routes routes (rx_message_text sample_event_context)) \<le> 1 \<Longrightarrow>
     reaches_loop sample_env W 71 sample_dispatch_db sample_event sample_inbox sample_event_context routes sample_dispatch_db"
    using sample_resolved by (simp add: reaches_loop_def get_row_def)
qed

lemma sample_route_sel [simp]:
  "rt_deployment (sample_route m) = sample_deployment 61 51 Dp_RUNNING"
  "rt_revision (sample_route m) = sample_revision 51 41 [''g@chatroom'', ''h@chatroom'']"
  "rt_manifest (sample_route m) = m"
  "dp_id (sample_deployment i v st) = i" "rv_id (sample_revision i p cs) = i"
  "rv_grants (sample_revision i p cs) = [''message.reply.text'']"
  by (simp_all add: sample_route_def sample_deployment_def sample_revision_def)

definition sample_route_request :: acl_request where
  "sample_route_request = \<lparr>rq_workspace_id = 1, rq_bot_account_id = 3, rq_actor_principal_id = Some 5,
     rq_chatroom_id = Some 4, rq_contact_id = None, rq_resource_type = Rs_COMMAND,
     rq_resource_id = ''command.demo.weather.weather'', rq_parent_plugin_id = Some ''demo.weather'', rq_trace_id = Some 77\<rparr>"

lemma sample_route_request:
  "mf_plugin_id m = ''demo.weather'' \<Longrightarrow> mc_name c = ''weather'' \<Longrightarrow>
     route_request sample_event_context (wi_trace_id sample_inbox) (sample_route m) (Some c) = sample_route_request"
  by (simp add: route_request_def route_resource_def command_resource_id_def sample_route_request_def
      sample_event_context_def sample_inbox_def sample_account_def sample_principal_def sample_chatroom_def)

lemma sample_grants: "acl_grants sample_dispatch_db 10 sample_route_request"
proof -
  let ?r = "(sample_rule 6 ALLOW False None None)\<lparr>ar_resource_id := ''demo.weather''\<rparr>"
  have rules: "rules sample_dispatch_db = [?r]" by (simp add: sample_dispatch_db_def)
  have acc: "account_in_workspace sample_dispatch_db 3 1 = Some sample_account"
    by (simp add: account_in_workspace_def get_row_def sample_dispatch_defs)
  have prin: "active_request_principal sample_dispatch_db sample_route_request = Inr (Some sample_principal)"
    by (simp add: active_request_principal_def get_row_def sample_route_request_def sample_dispatch_defs)
  have force: "in_force sample_dispatch_db 10 sample_route_request (Some sample_principal) r \<longleftrightarrow> r = ?r" for r
  proof -
    have "rule_loaded 10 sample_route_request ?r" "subject_matches ?r p ep"
      "0 < resource_score ?r sample_route_request" "0 < scope_score ?r sample_route_request" for p ep
      by (simp_all add: rule_loaded_def subject_matches_def resource_score_def scope_score_def
          sample_rule_def sample_route_request_def)
    then show ?thesis unfolding in_force_def rules by (metis list.set_intros(1) set_ConsD empty_iff list.set(1))
  qed
  have sel: "ba_status sample_account \<noteq> Acc_DISABLED" "\<not> ar_locked ?r" "ar_effect ?r = ALLOW"
    "rq_bot_account_id sample_route_request = 3" "rq_workspace_id sample_route_request = 1"
    by (simp_all add: sample_account_def sample_rule_def sample_route_request_def)
  let ?in = "in_force sample_dispatch_db 10 sample_route_request (Some sample_principal)"
  have "\<exists>r. ?in r" "\<forall>r. ?in r \<longrightarrow> \<not> ar_locked r" "\<forall>r. ?in r \<longrightarrow> ar_effect r = ALLOW"
    using force sel(2,3) by metis+
  then show ?thesis using acc prin sel unfolding acl_grants_def by metis
qed

definition sample_submission :: "plugin_manifest \<Rightarrow> plugin_command \<Rightarrow> text_submission" where
  "sample_submission m c = \<lparr>ts_bot_account_id = 3, ts_trace_id = 77, ts_idempotency_key = submission_key 61 71 ''0'',
     ts_target_wxid = ''g@chatroom'', ts_text = ''sunny'',
     ts_authorization_context = route_context sample_event_context (sample_route m) (Some c),
     ts_expires_at = None, ts_priority = 100\<rparr>"

definition sample_result :: json where
  "sample_result = JObj [(''actions'', JArr [sample_reply ''sunny''])]"

lemma sample_read_actions:
  assumes "mf_plugin_id m = ''demo.weather''" "mc_name c = ''weather''"
  shows "read_actions sample_result sample_event sample_inbox sample_event_context (sample_route m) (Some c) =
     Inr ([sample_reply ''sunny''], [sample_submission m c])"
proof -
  have ctx: "auth_context_ok (route_context sample_event_context (sample_route m) (Some c))"
    using assms by (simp add: auth_context_ok_def route_context_def route_resource_def command_resource_id_def
        sample_event_context_def)
  have "nat_str 0 = ''0''" by code_simp
  then show ?thesis using ctx
    by (simp add: read_actions_def plugin_actions_def sample_result_def make_submission_def check_action_type_def
        action_content_def action_key_def sample_reply_def json_get_def Let_def strip_def lstrip_def py_isspace_def
        sample_submission_def)
      (simp add: sample_event_def sample_event_context_def sample_account_def sample_inbox_def)
qed

lemma sample_submitted:
  assumes "loop_frame sample_dispatch_db s" "outbox s = []"
  shows "\<exists>x n. submit_text sample_env (sample_submission m c) 10 s = Inr (s\<lparr>next_id := n, outbox := [x]\<rparr>) \<and>
     reply_for (sample_submission m c) x"
proof -
  obtain t where t: "prepare_text sample_env (submission_enqueue (sample_submission m c)) 10 = Inr t"
    by (simp add: prepare_text_def submission_enqueue_def sample_submission_def normalize_limited_text_def
        submission_key_def uuid_str_def Let_def normalize_expiry_def text_action_types_def
        text_outbox_payload_def py_nonblank_def strip_def lstrip_def py_isspace_def)
  have acc: "get_row ba_id 3 (accounts s) = Some sample_account"
    unfolding loop_frameD(1)[OF assms(1)] by (simp add: get_row_def sample_dispatch_defs)
  have "submit_text sample_env (sample_submission m c) 10 s =
      Inr (s\<lparr>next_id := Suc (next_id s), outbox := [new_message (submission_enqueue (sample_submission m c)) t
        (uuid7 sample_env (next_id s)) 10]\<rparr>)"
  proof -
    have "en_bot_account_id (submission_enqueue (sample_submission m c)) = 3"
      by (simp add: submission_enqueue_def sample_submission_def)
    then have "enqueue_text sample_env (submission_enqueue (sample_submission m c)) 10 [] s =
      Inr (new_message (submission_enqueue (sample_submission m c)) t (uuid7 sample_env (next_id s)) 10,
        s\<lparr>next_id := Suc (next_id s), outbox := [new_message (submission_enqueue (sample_submission m c)) t
          (uuid7 sample_env (next_id s)) 10]\<rparr>)"
      using t acc assms(2) by (simp add: enqueue_text_def find_by_idempotency_key_def alloc_def Let_def)
    then show ?thesis by (simp add: submit_text_def)
  qed
  then show ?thesis using submission_prepared[OF t] by blast
qed

lemma sample_world_sel:
  "dw_invoke (sample_world result) d j = Inr result" "dw_clock (sample_world result) dep k = 10"
  "dw_resolved_at (sample_world result) = 10"
  by (simp_all add: sample_world_def)

lemma empty_tally_sel:
  "tl_invoked empty_tally = 0" "tl_denied empty_tally = 0" "tl_rejected empty_tally = 0"
  "tl_accepted empty_tally = 0" "tl_retryable empty_tally = []"
  by (simp_all add: empty_tally_def)

lemma sample_delivered:
  assumes m: "mf_plugin_id m = ''demo.weather''" "mc_name c = ''weather''"
  shows "\<exists>t s2 x. process_routes sample_env (sample_world sample_result) sample_event sample_inbox sample_event_context
     [(sample_route m, Some c, ''paris'')] (empty_tally, sample_dispatch_db) = Inr (t, s2) \<and>
     tl_retryable t = [] \<and> outbox s2 = [x]"
proof -
  have rows: "dispatches sample_dispatch_db = []" "outbox sample_dispatch_db = []"
    by (simp_all add: sample_dispatch_db_def sample_plugin_db_def sample_db_def empty_db_def)
  obtain d s1 where rec: "dispatch_record sample_env sample_event (sample_route m) sample_dispatch_db = Inr (d, s1)"
      "ed_status d = Ds_PENDING"
    by (simp add: dispatch_record_def find_dispatch_def rows alloc_def Let_def)
  then have opened: "ed_status d \<notin> terminal_dispatch_statuses" by (simp add: terminal_dispatch_statuses_def)
  note w = dispatch_record_written[OF rec(1) opened]
  let ?s1 = "put_dispatch (assign_revision (sample_route m) d) s1"
  have "acl_grants ?s1 10 sample_route_request" using sample_grants acl_grants_frame[OF w(2)] by simp
  then obtain dec s2 where ev: "evaluate sample_route_request 10 ?s1 = Inr (dec, s2)" "dv_allowed dec"
    using acl.allowed_iff by blast
  obtain ds where s2: "s2 = ?s1\<lparr>decisions := ds\<rparr>" using acl.frame[OF ev(1)] by blast
  then have "loop_frame sample_dispatch_db s2" "outbox s2 = []"
    using loop_frame_trans[OF w(2) loop_frame_intros(4)] w(3) rows by simp_all
  from sample_submitted[OF this] obtain x n where
    sub: "submit_text sample_env (sample_submission m c) 10 s2 = Inr (s2\<lparr>next_id := n, outbox := [x]\<rparr>)" by blast
  have ok: "request_ok sample_route_request" by (simp add: request_ok_def sample_route_request_def)
  have step: "process_route sample_env (sample_world sample_result) sample_event sample_inbox sample_event_context
      (sample_route m, Some c, ''paris'') (empty_tally, sample_dispatch_db) =
    Inr (empty_tally\<lparr>tl_invoked := 1, tl_accepted := 1\<rparr>,
      succeed_route (sample_world sample_result) sample_event sample_event_context (sample_route m)
        (begin_attempt (sample_world sample_result) (sample_route m) (assign_revision (sample_route m) d)) 1
        (s2\<lparr>next_id := n, outbox := [x]\<rparr>))"
    using rec(1) opened ev ok sub sample_read_actions[OF m]
    by (simp add: process_route_def sample_route_request[OF m] Let_def invoke_route_def accept_result_def
        sample_world_sel empty_tally_sel)
  show ?thesis using step by (simp add: succeed_route_def Let_def) (simp add: empty_tally_def)
qed

text \<open>The sample message is answered: one reply is in the outbox and the event is dispatched.\<close>

lemma sample_dispatch:
  obtains m c res s' x where "mf_plugin_id m = ''demo.weather''"
    "reaches_loop sample_env (sample_world sample_result) 71 sample_dispatch_db sample_event sample_inbox
       sample_event_context [sample_route m] sample_dispatch_db"
    "dispatch sample_env (sample_world sample_result) 71 sample_dispatch_db = DispatchDone res s'"
    "outbox s' = [x]" "outbox sample_dispatch_db = []" "dispatches_ok (dispatches sample_dispatch_db)"
    "select_routes sample_event sample_event_context [sample_route m] = [(sample_route m, Some c, ''paris'')]"
proof -
  obtain m c where m: "plugin_routes sample_env sample_dispatch_db sample_event_context = Some [sample_route m]"
    "mf_plugin_id m = ''demo.weather''" "mc_name c = ''weather''"
    "command_routes [sample_route m] (rx_message_text sample_event_context) = [(sample_route m, c, ''paris'')]"
    "select_routes sample_event sample_event_context [sample_route m] = [(sample_route m, Some c, ''paris'')]"
    by (rule sample_selected)
  have r: "reaches_loop sample_env (sample_world sample_result) 71 sample_dispatch_db sample_event sample_inbox
       sample_event_context [sample_route m] sample_dispatch_db"
    by (rule sample_reaches) (simp_all add: sample_world_sel m)
  obtain t s2 x where d: "process_routes sample_env (sample_world sample_result) sample_event sample_inbox sample_event_context
     [(sample_route m, Some c, ''paris'')] (empty_tally, sample_dispatch_db) = Inr (t, s2)"
     "tl_retryable t = []" "outbox s2 = [x]"
    using sample_delivered[OF m(2,3)] by blast
  have "dispatch sample_env (sample_world sample_result) 71 sample_dispatch_db =
      finish_dispatch sample_event [sample_route m] t s2"
    using r d(1) m(4,5) by (auto simp: reaches_loop_def dispatch_def route_event_def Let_def)
  then obtain res s' where "dispatch sample_env (sample_world sample_result) 71 sample_dispatch_db = DispatchDone res s'"
    "outbox s' = [x]"
    using d(2,3) by (simp add: finish_dispatch_def)
  then show thesis using that[OF m(2) r _ _ _ _ m(5)]
    by (simp add: sample_dispatch_db_def sample_plugin_db_def sample_db_def empty_db_def dispatches_ok_def unique_by_def)
qed

theorem dispatch_replies_authorized_witness:
  "\<exists>res s' m e inbox x routes s1 r command content.
     dispatch sample_env (sample_world sample_result) 71 sample_dispatch_db = DispatchDone res s' \<and> m \<in> set (outbox s') \<and>
     reaches_loop sample_env (sample_world sample_result) 71 sample_dispatch_db e inbox x routes s1 \<and>
     (r, command, content) \<in> set (select_routes e x routes) \<and> reply_of_route e inbox x r command m"
proof (rule sample_dispatch)
  fix m c res s' x
  assume d: "dispatch sample_env (sample_world sample_result) 71 sample_dispatch_db = DispatchDone res s'"
    "outbox s' = [x]" "outbox sample_dispatch_db = []"
  have "outcome_state (dispatch sample_env (sample_world sample_result) 71 sample_dispatch_db) = Some s'"
    "x \<in> set (outbox s')" "x \<notin> set (outbox sample_dispatch_db)" using d by simp_all
  from dispatch_replies_authorized[OF this] show ?thesis using d(1) \<open>x \<in> set (outbox s')\<close> by blast
qed

theorem plugin_called_only_if_open_and_granted_witness:
  "\<exists>m c. dispatch sample_env ((sample_world sample_result)
       \<lparr>dw_invoke := \<lambda>d j. if d = uuid_str 61 then Inr sample_result else Inl ''RuntimeError''\<rparr>) 71 sample_dispatch_db =
     dispatch sample_env (sample_world sample_result) 71 sample_dispatch_db \<and>
     select_routes sample_event sample_event_context [sample_route m] = [(sample_route m, Some c, ''paris'')]"
proof (rule sample_dispatch)
  fix m c
  assume r: "reaches_loop sample_env (sample_world sample_result) 71 sample_dispatch_db sample_event sample_inbox
       sample_event_context [sample_route m] sample_dispatch_db"
    and ok: "dispatches_ok (dispatches sample_dispatch_db)"
    and sel: "select_routes sample_event sample_event_context [sample_route m] = [(sample_route m, Some c, ''paris'')]"
  have "dispatch sample_env ((sample_world sample_result)
       \<lparr>dw_invoke := \<lambda>d j. if d = uuid_str 61 then Inr sample_result else Inl ''RuntimeError''\<rparr>) 71 sample_dispatch_db =
     dispatch sample_env (sample_world sample_result) 71 sample_dispatch_db"
  proof (rule plugin_called_only_if_open_and_granted[OF ok])
    fix e inbox x routes s1 r' command content
    assume "reaches_loop sample_env (sample_world sample_result) 71 sample_dispatch_db e inbox x routes s1"
      and mem: "(r', command, content) \<in> set (select_routes e x routes)"
    then have "e = sample_event" "x = sample_event_context" "routes = [sample_route m]"
      using r by (auto simp: reaches_loop_def)
    then have "r' = sample_route m" using mem sel by simp
    then show "(if uuid_str (dp_id (rt_deployment r')) = uuid_str 61 then Inr sample_result else Inl ''RuntimeError'') =
        dw_invoke (sample_world sample_result) (uuid_str (dp_id (rt_deployment r')))
          (event_envelope sample_env e inbox x content command)"
      by (simp add: sample_world_sel)
  qed
  then show ?thesis using sel by blast
qed

theorem settled_deliveries_are_final_witness:
  "\<exists>res s'. dispatch sample_env (sample_world sample_result) 71 sample_dispatch_db = DispatchDone res s' \<and>
     dispatches_ok (dispatches s')"
proof (rule sample_dispatch)
  fix res s'
  assume d: "dispatch sample_env (sample_world sample_result) 71 sample_dispatch_db = DispatchDone res s'"
    and ok: "dispatches_ok (dispatches sample_dispatch_db)"
  have "outcome_state (dispatch sample_env (sample_world sample_result) 71 sample_dispatch_db) = Some s'" using d by simp
  from settled_deliveries_are_final[OF this ok] d show ?thesis by blast
qed

theorem dispatch_completes_witness:
  "\<exists>res s'. dispatch sample_env (sample_world sample_result) 71 sample_dispatch_db = DispatchDone res s' \<and>
     settled s' 71 61 \<and>
     dispatch sample_env (sample_world JNull) 71 s' = DispatchDone (ignored_result 71) s'"
proof (rule sample_dispatch)
  fix m c res s'
  assume r: "reaches_loop sample_env (sample_world sample_result) 71 sample_dispatch_db sample_event sample_inbox
       sample_event_context [sample_route m] sample_dispatch_db"
    and d: "dispatch sample_env (sample_world sample_result) 71 sample_dispatch_db = DispatchDone res s'"
    and ok: "dispatches_ok (dispatches sample_dispatch_db)"
    and sel: "select_routes sample_event sample_event_context [sample_route m] = [(sample_route m, Some c, ''paris'')]"
  have "ne_id sample_event = 71" by (simp add: sample_event_def)
  then show ?thesis using dispatch_completes[OF ok r d, of "sample_world JNull"] sel d by auto
qed

theorem conflict_free_routes_one_command_witness:
  "\<exists>m. plugin_routes sample_env sample_dispatch_db sample_event_context = Some [sample_route m] \<and>
     length (command_routes [sample_route m] ''/weather'') \<le> 1"
proof -
  obtain m where m: "plugin_routes sample_env sample_dispatch_db sample_event_context = Some [sample_route m]"
    using sample_routes by blast
  have ws: "rx_workspace_id sample_event_context = 1" by (simp add: sample_event_context_def)
  have "conflict_free sample_env sample_dispatch_db (rx_workspace_id sample_event_context)"
    unfolding ws conflict_free_def sample_routable by auto
  moreover have "unique_by dp_id (deployments sample_dispatch_db)"
    by (simp add: sample_dispatch_db_def sample_plugin_db_def unique_by_def)
  ultimately show ?thesis using conflict_free_routes_one_command[OF _ _ m] m by blast
qed

lemma sample_manifest_command: "\<exists>(m :: plugin_manifest) (c :: plugin_command). mf_plugin_id m = ''demo.weather'' \<and> mc_name c = ''weather''"
proof -
  obtain m :: plugin_manifest and c :: plugin_command
    where "mf_plugin_id m = ''demo.weather''" "command_spellings c = [''weather'']"
    using sample_routes by blast
  then show ?thesis by (auto simp: command_spellings_def)
qed

text \<open>Two actions with the same key and different texts.\<close>

definition keyed_reply :: "string \<Rightarrow> json" where
  "keyed_reply content = JObj [(''type'', JStr ''reply.text''), (''content'', JStr content),
     (''action_key'', JStr ''k'')]"

definition keyed_submission :: "plugin_manifest \<Rightarrow> plugin_command \<Rightarrow> string \<Rightarrow> text_submission" where
  "keyed_submission m c content =
     (sample_submission m c)\<lparr>ts_text := content, ts_idempotency_key := submission_key 61 71 ''k''\<rparr>"

lemma keyed_prepared:
  assumes "content = ''sunny'' \<or> content = ''rainy''"
  shows "\<exists>t. prepare_text sample_env (submission_enqueue (keyed_submission m c content)) 10 = Inr t \<and>
     ta_payload t = JObj [(''text'', JStr content), (''at_wxids'', JArr [])] \<and>
     ta_target t = ''g@chatroom'' \<and> ta_expires t = None \<and>
     ta_context t = Some (auth_context_json (route_context sample_event_context (sample_route m) (Some c)))"
  using assms
  by (auto simp: prepare_text_def submission_enqueue_def keyed_submission_def sample_submission_def
      normalize_limited_text_def submission_key_def uuid_str_def Let_def normalize_expiry_def text_action_types_def
      text_outbox_payload_def payload_json_def py_nonblank_def strip_def lstrip_def py_isspace_def)

lemma keyed_hashes_differ:
  "action_hash sample_env a ty tg (JObj [(''text'', JStr ''sunny''), (''at_wxids'', JArr [])]) cx p ex \<noteq>
   action_hash sample_env a ty tg (JObj [(''text'', JStr ''rainy''), (''at_wxids'', JArr [])]) cx p ex"
  by (simp add: action_hash_def canonical_action_def sample_env_def join_def json_string_def json_escape_char_def)

lemma keyed_read_actions:
  assumes "mf_plugin_id m = ''demo.weather''" "mc_name c = ''weather''"
  shows "read_actions (JObj [(''actions'', JArr [keyed_reply ''sunny'', keyed_reply ''rainy''])]) sample_event sample_inbox
      sample_event_context (sample_route m) (Some c) =
     Inr ([keyed_reply ''sunny'', keyed_reply ''rainy''],
          [keyed_submission m c ''sunny'', keyed_submission m c ''rainy''])"
proof -
  have ctx: "auth_context_ok (route_context sample_event_context (sample_route m) (Some c))"
    using assms by (simp add: auth_context_ok_def route_context_def route_resource_def command_resource_id_def
        sample_event_context_def)
  then show ?thesis
    by (simp add: read_actions_def plugin_actions_def make_submission_def check_action_type_def
        action_content_def action_key_def keyed_reply_def json_get_def Let_def strip_def lstrip_def py_isspace_def
        keyed_submission_def sample_submission_def)
      (simp add: sample_event_def sample_event_context_def sample_account_def sample_inbox_def)
qed

definition sample_delivery :: plugin_event_dispatch where
  "sample_delivery = \<lparr>ed_id = 90, ed_event_id = 71, ed_deployment_id = 61, ed_revision_id = 51, ed_status = Ds_PENDING,
     ed_attempt_count = 1, ed_accepted_action_count = 0, ed_last_error_type = None, ed_last_attempt_at = None,
     ed_completed_at = None\<rparr>"

theorem rejected_result_keeps_first_reply_witness:
  "\<exists>m c t1 s2. accept_result sample_env (sample_world JNull) sample_event sample_inbox sample_event_context (sample_route m)
       (Some c) sample_delivery (JObj [(''actions'', JArr [keyed_reply ''sunny'', keyed_reply ''rainy''])])
       (empty_tally, sample_dispatch_db) = Inr (t1, s2) \<and> tl_rejected t1 = 1 \<and> outbox s2 \<noteq> []"
proof -
  obtain m :: plugin_manifest and c :: plugin_command
    where m: "mf_plugin_id m = ''demo.weather''" "mc_name c = ''weather''"
    using sample_manifest_command by blast
  let ?b = "keyed_submission m c ''sunny''" and ?b' = "keyed_submission m c ''rainy''"
  obtain t where t: "prepare_text sample_env (submission_enqueue ?b) 10 = Inr t"
    "ta_payload t = JObj [(''text'', JStr ''sunny''), (''at_wxids'', JArr [])]"
    "ta_target t = ''g@chatroom''" "ta_expires t = None"
    "ta_context t = Some (auth_context_json (route_context sample_event_context (sample_route m) (Some c)))"
    using keyed_prepared[of "''sunny''" m c] by blast
  obtain t' where t': "prepare_text sample_env (submission_enqueue ?b') 10 = Inr t'"
    "ta_payload t' = JObj [(''text'', JStr ''rainy''), (''at_wxids'', JArr [])]"
    "ta_target t' = ''g@chatroom''" "ta_expires t' = None"
    "ta_context t' = Some (auth_context_json (route_context sample_event_context (sample_route m) (Some c)))"
    using keyed_prepared[of "''rainy''" m c] by blast
  have same: "en_bot_account_id (submission_enqueue ?b') = en_bot_account_id (submission_enqueue ?b)"
    "en_action_type (submission_enqueue ?b') = en_action_type (submission_enqueue ?b)"
    "en_priority (submission_enqueue ?b') = en_priority (submission_enqueue ?b)"
    "en_idempotency_key (submission_enqueue ?b') = en_idempotency_key (submission_enqueue ?b)"
    by (simp_all add: submission_enqueue_def keyed_submission_def sample_submission_def)
  have clash: "ta_key t' = ta_key t" "ta_hash t' \<noteq> ta_hash t"
    using prepare_text_Inr[OF t(1)] prepare_text_Inr[OF t'(1)] keyed_hashes_differ
    unfolding same t(2-) t'(2-) by metis+
  have acc: "en_bot_account_id (submission_enqueue ?b) = 3"
    by (simp add: submission_enqueue_def keyed_submission_def sample_submission_def)
  have db: "outbox sample_dispatch_db = []" "get_row ba_id 3 (accounts sample_dispatch_db) = Some sample_account"
    by (simp_all add: get_row_def sample_dispatch_defs)
  obtain s1 where first: "submit_text sample_env ?b 10 sample_dispatch_db = Inr s1"
    using t(1) acc db by (simp add: submit_text_def enqueue_text_def find_by_idempotency_key_def alloc_def Let_def)
  have keys: "unique_by om_idempotency_key (outbox sample_dispatch_db)" by (simp add: db unique_by_def)
  note r = rejected_result_keeps_first_reply[OF keyed_read_actions[OF m], of sample_env "sample_world JNull"
      sample_dispatch_db s1 t t' sample_delivery empty_tally, unfolded sample_world_sel, OF first keys t(1) t'(1) clash]
  then show ?thesis by (fastforce simp: empty_tally_sel)
qed

theorem unhashable_action_type_aborts_witness:
  "\<exists>m :: plugin_manifest. mf_plugin_id m = ''demo.weather'' \<and> invoke_route sample_env (sample_world (JObj [(''actions'', JArr [JObj [(''action_type'', JArr [JNull])]])]))
     sample_event sample_inbox sample_event_context (sample_route m, None, []) sample_delivery (empty_tally, sample_dispatch_db) =
   Inl ''TypeError''"
proof -
  let ?a = "JObj [(''action_type'', JArr [JNull])]"
  have "json_lookup (JObj [(''actions'', JArr [?a])]) ''actions'' = Some (JArr [?a])" "\<forall>b\<in>set [?a]. is_obj b"
    "json_get ?a ''action_type'' = JArr [JNull] \<or> json_get ?a ''action_type'' = JObj [([], JNull)]"
    by (simp_all add: json_get_def)
  note r = unhashable_action_type_aborts[OF this(1) _ this(2,3), of "sample_world (JObj [(''actions'', JArr [?a])])"]
  obtain m :: plugin_manifest where "mf_plugin_id m = ''demo.weather''" using sample_manifest_command by blast
  then show ?thesis using r[unfolded sample_world_sel, OF _ refl] by force
qed

end
