(* ===== verification/Event_Worker.thy ===== *)
theory Event_Worker
  imports Delivery
begin

text \<open>
  The worker that drives the dispatcher (\<open>events/worker.py\<close>): recovering expired leases,
  claiming a batch of due events, dispatching them one by one and scheduling retries.  Row locks
  held by other workers and the clock readings of an iteration are parameters.
\<close>

section \<open>Options\<close>

record worker_options =
  wo_poll_interval_seconds :: rat
  wo_batch_size :: int
  wo_max_attempts :: int
  wo_lease_seconds :: rat
  wo_max_retry_delay_seconds :: rat

definition default_worker_options :: worker_options where
  "default_worker_options = \<lparr>wo_poll_interval_seconds = 1 / 2, wo_batch_size = 50, wo_max_attempts = 5,
     wo_lease_seconds = 120, wo_max_retry_delay_seconds = 30\<rparr>"

text \<open>The \<open>ValueError\<close>s of the constructor.\<close>

definition worker_options_error :: "worker_options \<Rightarrow> string option" where
  "worker_options_error w =
     (if wo_poll_interval_seconds w \<le> 0 then Some ''poll interval must be positive''
      else if wo_batch_size w \<le> 0 then Some ''batch size must be positive''
      else if wo_max_attempts w \<le> 0 \<or> wo_lease_seconds w \<le> 0
      then Some ''attempt and lease limits must be positive''
      else None)"

definition retry_delay :: "worker_options \<Rightarrow> int \<Rightarrow> rat" where
  "retry_delay w attempt =
     min (wo_poll_interval_seconds w * 2 ^ nat (min (max (attempt - 1) 0) 10))
         (wo_max_retry_delay_seconds w)"

section \<open>Leases\<close>

definition put_inbox :: "webhook_inbox \<Rightarrow> db \<Rightarrow> db" where
  "put_inbox b s = s\<lparr>inboxes := put_row wi_id b (inboxes s)\<rparr>"

definition lease_expired :: "instant \<Rightarrow> webhook_inbox \<Rightarrow> bool" where
  "lease_expired now b \<longleftrightarrow> wi_status b = In_DISPATCHING \<and> wi_dispatch_available_at b \<le> now"

definition recovered :: "webhook_inbox \<Rightarrow> webhook_inbox" where
  "recovered b = b\<lparr>wi_status := In_NORMALIZED, wi_error_code := Some ''DISPATCH_LEASE_RECOVERED'',
     wi_error_detail := Some ''expired dispatcher lease was recovered''\<rparr>"

definition recover_event_leases :: "worker_options \<Rightarrow> (uuid \<Rightarrow> bool) \<Rightarrow> instant \<Rightarrow> db \<Rightarrow> db" where
  "recover_event_leases w locked now s =
     fold (\<lambda>b. put_inbox (recovered b))
       (take (nat (wo_batch_size w)) (filter (\<lambda>b. lease_expired now b \<and> \<not> locked (wi_id b)) (inboxes s))) s"

definition event_due :: "instant \<Rightarrow> webhook_inbox \<Rightarrow> bool" where
  "event_due now b \<longleftrightarrow> wi_status b = In_NORMALIZED \<and> wi_dispatch_available_at b \<le> now"

text \<open>The rows of the join, in the order of the query: an inbox row with each of its events.\<close>

definition due_rows :: "(uuid \<Rightarrow> bool) \<Rightarrow> instant \<Rightarrow> db \<Rightarrow> (webhook_inbox \<times> uuid) list" where
  "due_rows locked now s =
     concat (map (\<lambda>b. map (\<lambda>e. (b, ne_id e)) (filter (\<lambda>e. ne_webhook_inbox_id e = wi_id b) (events s)))
       (sort_key (\<lambda>b. (wi_created_at b, wi_id b))
          (filter (\<lambda>b. event_due now b \<and> \<not> locked (wi_id b)) (inboxes s))))"

definition claimed :: "worker_options \<Rightarrow> instant \<Rightarrow> webhook_inbox \<Rightarrow> webhook_inbox" where
  "claimed w now b = b\<lparr>wi_status := In_DISPATCHING, wi_dispatch_attempt_count := wi_dispatch_attempt_count b + 1,
     wi_dispatch_available_at := now + seconds (wo_lease_seconds w)\<rparr>"

text \<open>The loop over the claimed rows; an inbox row is the object of the session, read again.\<close>

definition claim_row :: "worker_options \<Rightarrow> instant \<Rightarrow> webhook_inbox \<times> uuid \<Rightarrow> db \<Rightarrow> db" where
  "claim_row w now be s =
     (case get_row wi_id (wi_id (fst be)) (inboxes s) of
        None \<Rightarrow> s
      | Some b \<Rightarrow> put_inbox (claimed w now b) s)"

definition claim_due_events ::
    "worker_options \<Rightarrow> (uuid \<Rightarrow> bool) \<Rightarrow> instant \<Rightarrow> db \<Rightarrow> uuid list \<times> db" where
  "claim_due_events w locked now s =
     (let rows = take (nat (wo_batch_size w)) (due_rows locked now s)
      in (map snd rows, fold (claim_row w now) rows s))"

section \<open>Dispatching one event\<close>

definition inbox_for_event :: "db \<Rightarrow> uuid \<Rightarrow> webhook_inbox option" where
  "inbox_for_event s i =
     Option.bind (get_row ne_id i (events s)) (\<lambda>e. get_row wi_id (ne_webhook_inbox_id e) (inboxes s))"

definition mark_failed :: "uuid \<Rightarrow> string \<Rightarrow> db \<Rightarrow> db" where
  "mark_failed i error_type s =
     (case inbox_for_event s i of
        None \<Rightarrow> s
      | Some b \<Rightarrow> put_inbox (b\<lparr>wi_status := In_FAILED, wi_error_code := Some ''EVENT_DISPATCH_FAILED'',
          wi_error_detail := Some (''dispatcher failed with '' @ error_type)\<rparr>) s)"

definition schedule_retry :: "worker_options \<Rightarrow> instant \<Rightarrow> webhook_inbox \<Rightarrow> webhook_inbox" where
  "schedule_retry w now b =
     (if wo_max_attempts w \<le> wi_dispatch_attempt_count b
      then b\<lparr>wi_status := In_FAILED, wi_error_code := Some ''PLUGIN_DISPATCH_RETRIES_EXHAUSTED'',
             wi_error_detail := Some ''plugin dispatch retry limit reached''\<rparr>
      else b\<lparr>wi_status := In_NORMALIZED,
             wi_dispatch_available_at := now + seconds (retry_delay w (wi_dispatch_attempt_count b))\<rparr>)"

text \<open>
  A dispatch that returns is committed, one that asks for a retry is committed with the
  schedule of the retry, and any other exception rolls back and marks the event as failed.
\<close>

definition dispatch_one :: "env \<Rightarrow> worker_options \<Rightarrow> dispatch_world \<Rightarrow> instant \<Rightarrow> uuid \<Rightarrow> db \<Rightarrow> db" where
  "dispatch_one E w W now i s =
     (case dispatch E W i s of
        DispatchDone res s1 \<Rightarrow> s1
      | DispatchRetryable detail s1 \<Rightarrow>
          (case inbox_for_event s1 i of
             None \<Rightarrow> s1
           | Some b \<Rightarrow> put_inbox (schedule_retry w now b) s1)
      | DispatchRaised err \<Rightarrow> mark_failed i err s)"

text \<open>The clock readings, locks and plugin answers of one iteration.\<close>

record worker_world =
  ww_locked :: "uuid \<Rightarrow> bool"
  ww_recovered_at :: instant
  ww_claimed_at :: instant
  ww_dispatch :: "uuid \<Rightarrow> dispatch_world"
  ww_retry_at :: "uuid \<Rightarrow> instant"

definition dispatch_claimed :: "env \<Rightarrow> worker_options \<Rightarrow> worker_world \<Rightarrow> uuid list \<Rightarrow> db \<Rightarrow> db" where
  "dispatch_claimed E w V is s =
     fold (\<lambda>i. dispatch_one E w (ww_dispatch V i) (ww_retry_at V i) i) is s"

definition worker_run_once :: "env \<Rightarrow> worker_options \<Rightarrow> worker_world \<Rightarrow> db \<Rightarrow> nat \<times> db" where
  "worker_run_once E w V s =
     (let s1 = recover_event_leases w (ww_locked V) (ww_recovered_at V) s;
          (ids, s2) = claim_due_events w (ww_locked V) (ww_claimed_at V) s1
      in (length ids, dispatch_claimed E w V ids s2))"

section \<open>Rows and tables\<close>

text \<open>Primary keys, and the unique key of an event on its inbox row.\<close>

definition inbox_tables_ok :: "db \<Rightarrow> bool" where
  "inbox_tables_ok s \<longleftrightarrow> unique_by wi_id (inboxes s) \<and> unique_by ne_id (events s) \<and>
     unique_by ne_webhook_inbox_id (events s)"

lemma put_inbox_sel [simp]:
  "inboxes (put_inbox b s) = put_row wi_id b (inboxes s)" "events (put_inbox b s) = events s"
  "dispatches (put_inbox b s) = dispatches s" "outbox (put_inbox b s) = outbox s"
  by (simp_all add: put_inbox_def)

lemma put_inbox_ok [simp]: "inbox_tables_ok (put_inbox b s) = inbox_tables_ok s"
  by (simp add: inbox_tables_ok_def)

lemma fold_put_inbox:
  assumes keep: "\<And>b. wi_id (g b) = wi_id b" and d: "distinct (map wi_id xs)"
  shows "get_row wi_id k (inboxes (fold (\<lambda>b. put_inbox (g b)) xs s)) =
     (case get_row wi_id k (inboxes s) of None \<Rightarrow> None
      | Some b \<Rightarrow> Some (case get_row wi_id k xs of None \<Rightarrow> b | Some x \<Rightarrow> g x))"
  using d
proof (induction xs arbitrary: s)
  case (Cons x xs)
  have none: "get_row wi_id (wi_id x) xs = None" using Cons.prems unfolding get_row_None_iff list.map distinct.simps set_map by (metis image_eqI)
  have step: "get_row wi_id k (inboxes (fold (\<lambda>b. put_inbox (g b)) xs (put_inbox (g x) s))) =
     (case get_row wi_id k (inboxes (put_inbox (g x) s)) of None \<Rightarrow> None
      | Some b \<Rightarrow> Some (case get_row wi_id k xs of None \<Rightarrow> b | Some x \<Rightarrow> g x))"
    using Cons.IH Cons.prems by simp
  show ?case
  proof (cases "k = wi_id x")
    case True
    then show ?thesis using step none get_put_same[of wi_id "g x" "inboxes s"] keep
      by (simp add: get_row_Cons split: option.splits)
  next
    case False
    then show ?thesis using step get_put_other[of k wi_id "g x" "inboxes s"] keep
      by (simp add: get_row_Cons[of wi_id k x xs] split: option.split)
  qed
qed (simp split: option.split)

lemma fold_put_inbox_frame [simp]:
  "events (fold (\<lambda>b. put_inbox (g b)) xs s) = events s"
  "dispatches (fold (\<lambda>b. put_inbox (g b)) xs s) = dispatches s"
  "inbox_tables_ok (fold (\<lambda>b. put_inbox (g b)) xs s) = inbox_tables_ok s"
  by (induction xs arbitrary: s) simp_all

lemma recovered_id [simp]: "wi_id (recovered b) = wi_id b"
  by (simp add: recovered_def)

lemma distinct_take_filter: "unique_by f xs \<Longrightarrow> distinct (map f (take n (filter P xs)))"
  unfolding unique_by_def take_map[symmetric] by (intro distinct_take) (rule distinct_map_filter)

text \<open>Recovery only touches rows whose lease has expired.\<close>

lemma recover_row:
  assumes ok: "inbox_tables_ok s" and b: "get_row wi_id k (inboxes s) = Some b"
  shows "get_row wi_id k (inboxes (recover_event_leases w locked now s)) = Some b \<or>
     lease_expired now b \<and> get_row wi_id k (inboxes (recover_event_leases w locked now s)) = Some (recovered b)"
proof -
  define xs where "xs = take (nat (wo_batch_size w))
    (filter (\<lambda>b. lease_expired now b \<and> \<not> locked (wi_id b)) (inboxes s))"
  have "distinct (map wi_id xs)"
    using ok unfolding xs_def inbox_tables_ok_def by (intro distinct_take_filter) simp
  then have row: "get_row wi_id k (inboxes (recover_event_leases w locked now s)) =
      Some (case get_row wi_id k xs of None \<Rightarrow> b | Some x \<Rightarrow> recovered x)"
    unfolding recover_event_leases_def xs_def[symmetric]
    using fold_put_inbox[of recovered xs k s] b by simp
  show ?thesis
  proof (cases "get_row wi_id k xs")
    case None
    then show ?thesis using row by simp
  next
    case (Some x)
    have "x \<in> set xs" "wi_id x = k" using get_row_Some_mem[OF Some] by simp_all
    then have x: "x \<in> set (inboxes s)" "lease_expired now x" unfolding xs_def by (auto dest: in_set_takeD)
    have "x = b" using get_row_unique[of wi_id "inboxes s" x k] ok b x(1) \<open>wi_id x = k\<close>
      by (simp add: inbox_tables_ok_def)
    then show ?thesis using row Some x(2) by simp
  qed
qed

lemma recover_frame [simp]:
  "events (recover_event_leases w locked now s) = events s"
  "dispatches (recover_event_leases w locked now s) = dispatches s"
  "inbox_tables_ok (recover_event_leases w locked now s) = inbox_tables_ok s"
  by (simp_all add: recover_event_leases_def)

section \<open>Claims\<close>

lemma claimed_sel [simp]: "wi_id (claimed w now b) = wi_id b"
  by (simp add: claimed_def)

lemma due_rows_mem:
  "(b, i) \<in> set (due_rows locked now s) \<longleftrightarrow> b \<in> set (inboxes s) \<and> event_due now b \<and> \<not> locked (wi_id b) \<and>
     (\<exists>e\<in>set (events s). ne_id e = i \<and> ne_webhook_inbox_id e = wi_id b)"
  by (auto simp: due_rows_def)

lemma due_rows_distinct:
  assumes ok: "inbox_tables_ok s"
  shows "distinct (map (\<lambda>be. wi_id (fst be)) (due_rows locked now s))"
proof -
  have one: "length (filter (\<lambda>e. ne_webhook_inbox_id e = k) es) \<le> 1" if "unique_by ne_webhook_inbox_id es" for k es
    using that
  proof (induction es)
    case (Cons e es)
    then have "filter (\<lambda>e. ne_webhook_inbox_id e = k) es = []" if "ne_webhook_inbox_id e = k"
      using that by (auto simp: unique_by_def filter_empty_conv image_iff)
    then show ?case using Cons by (auto simp: unique_by_def)
  qed simp
  have "distinct (map (\<lambda>be. wi_id (fst be)) (concat (map (\<lambda>b. map (\<lambda>e. (b, ne_id e))
      (filter (\<lambda>e. ne_webhook_inbox_id e = wi_id b) (events s))) bs)))" if "distinct (map wi_id bs)" for bs
    using that
  proof (induction bs)
    case (Cons b bs)
    have "length (filter (\<lambda>e. ne_webhook_inbox_id e = wi_id b) (events s)) \<le> 1"
      using one[of "events s" "wi_id b"] ok by (simp add: inbox_tables_ok_def)
    then have "distinct (map (\<lambda>be. wi_id (fst be)) (map (\<lambda>e. (b, ne_id e))
        (filter (\<lambda>e. ne_webhook_inbox_id e = wi_id b) (events s))))"
      by (cases "filter (\<lambda>e. ne_webhook_inbox_id e = wi_id b) (events s)") auto
    then show ?case using Cons by (auto simp: comp_def)
  qed simp
  moreover have "distinct (map wi_id (sort_key k (filter P (inboxes s))))" for P and k :: "webhook_inbox \<Rightarrow> int \<times> 128 word"
    using ok by (intro sort_key_ids) (simp add: inbox_tables_ok_def unique_by_def distinct_map_filter)
  ultimately show ?thesis unfolding due_rows_def by blast
qed

lemma fold_claim_row:
  assumes "distinct (map (\<lambda>be. wi_id (fst be)) rows)"
  shows "get_row wi_id k (inboxes (fold (claim_row w now) rows s)) =
     (case get_row wi_id k (inboxes s) of None \<Rightarrow> None
      | Some b \<Rightarrow> Some (if k \<in> (\<lambda>be. wi_id (fst be)) ` set rows then claimed w now b else b))"
  using assms
proof (induction rows arbitrary: s)
  case (Cons be rows)
  let ?j = "wi_id (fst be)"
  have step: "get_row wi_id k (inboxes (claim_row w now be s)) =
      (case get_row wi_id k (inboxes s) of None \<Rightarrow> None
       | Some b \<Rightarrow> Some (if k = ?j then claimed w now b else b))"
  proof (cases "get_row wi_id ?j (inboxes s)")
    case None
    then show ?thesis by (auto simp: claim_row_def split: option.split)
  next
    case (Some b)
    then have "wi_id b = ?j" using get_row_Some_mem by metis
    then show ?thesis using Some get_put_same[of wi_id "claimed w now b" "inboxes s"]
        get_put_other[of k wi_id "claimed w now b" "inboxes s"]
      by (cases "k = ?j") (simp_all add: claim_row_def split: option.split)
  qed
  show ?case using Cons step by (auto simp: image_iff split: option.split)
qed (simp split: option.split)

lemma claim_rows_frame [simp]:
  "events (fold (claim_row w now) rows s) = events s"
  "dispatches (fold (claim_row w now) rows s) = dispatches s"
  "inbox_tables_ok (fold (claim_row w now) rows s) = inbox_tables_ok s"
  by (induction rows arbitrary: s) (simp_all add: claim_row_def split: option.split)

lemma inbox_for_event_iff:
  assumes "inbox_tables_ok s"
  shows "inbox_for_event s i = Some b \<longleftrightarrow>
     b \<in> set (inboxes s) \<and> (\<exists>e\<in>set (events s). ne_id e = i \<and> ne_webhook_inbox_id e = wi_id b)"
proof
  assume "inbox_for_event s i = Some b"
  then obtain e where "get_row ne_id i (events s) = Some e" "get_row wi_id (ne_webhook_inbox_id e) (inboxes s) = Some b"
    by (auto simp: inbox_for_event_def bind_eq_Some_conv)
  then show "b \<in> set (inboxes s) \<and> (\<exists>e\<in>set (events s). ne_id e = i \<and> ne_webhook_inbox_id e = wi_id b)"
    using get_row_Some_mem by metis
next
  assume b: "b \<in> set (inboxes s) \<and> (\<exists>e\<in>set (events s). ne_id e = i \<and> ne_webhook_inbox_id e = wi_id b)"
  then obtain e where e: "e \<in> set (events s)" "ne_id e = i" "ne_webhook_inbox_id e = wi_id b" by blast
  have "get_row ne_id i (events s) = Some e" "get_row wi_id (wi_id b) (inboxes s) = Some b"
    using assms e b by (auto simp: inbox_tables_ok_def intro!: get_row_unique)
  then show "inbox_for_event s i = Some b" using e(3) by (simp add: inbox_for_event_def)
qed

lemma inbox_for_event_unique:
  assumes "inbox_tables_ok s" "inbox_for_event s i = Some b" "inbox_for_event s i' = Some b'" "wi_id b = wi_id b'"
  shows "i = i'"
proof -
  obtain e e' where "e \<in> set (events s)" "ne_id e = i" "ne_webhook_inbox_id e = wi_id b"
    "e' \<in> set (events s)" "ne_id e' = i'" "ne_webhook_inbox_id e' = wi_id b'"
    using assms(2,3) unfolding inbox_for_event_iff[OF assms(1)] by blast
  then show ?thesis using assms(1,4) by (auto simp: inbox_tables_ok_def unique_by_def distinct_map inj_on_def)
qed

lemma claim_due_row:
  assumes ok: "inbox_tables_ok s" and c: "claim_due_events w locked now s = (ids, s1)"
    and b: "get_row wi_id k (inboxes s) = Some b"
  shows "if \<exists>i\<in>set ids. inbox_for_event s i = Some b
     then event_due now b \<and> \<not> locked k \<and> get_row wi_id k (inboxes s1) = Some (claimed w now b)
     else get_row wi_id k (inboxes s1) = Some b"
proof -
  define rows where "rows = take (nat (wo_batch_size w)) (due_rows locked now s)"
  have ids: "ids = map snd rows" and s1: "s1 = fold (claim_row w now) rows s"
    using c by (simp_all add: claim_due_events_def rows_def Let_def)
  have d: "distinct (map (\<lambda>be. wi_id (fst be)) rows)"
    unfolding rows_def take_map[symmetric] using due_rows_distinct[OF ok] by (rule distinct_take)
  have row: "get_row wi_id k (inboxes s1) =
      Some (if k \<in> (\<lambda>be. wi_id (fst be)) ` set rows then claimed w now b else b)"
    using fold_claim_row[OF d, of k w now s] b by (simp add: s1)
  have kb: "b \<in> set (inboxes s)" "wi_id b = k" using get_row_Some_mem[OF b] by simp_all
  have mem: "event_due now a \<and> \<not> locked (wi_id a) \<and> inbox_for_event s i = Some a \<and> i \<in> set ids"
    if "(a, i) \<in> set rows" for a i
  proof -
    have "(a, i) \<in> set (due_rows locked now s)" using that unfolding rows_def by (rule in_set_takeD)
    then show ?thesis using that unfolding due_rows_mem inbox_for_event_iff[OF ok] ids by force
  qed
  have same: "a = b" if "inbox_for_event s i = Some a" "wi_id a = k" for a i
  proof -
    have "a \<in> set (inboxes s)" using that(1) by (simp add: inbox_for_event_iff[OF ok])
    then have "get_row wi_id k (inboxes s) = Some a"
      using get_row_unique[of wi_id "inboxes s" a k] ok that(2) by (simp add: inbox_tables_ok_def)
    then show ?thesis using b by simp
  qed
  show ?thesis
  proof (cases "\<exists>i\<in>set ids. inbox_for_event s i = Some b")
    case True
    then obtain i a where "i \<in> set ids" "inbox_for_event s i = Some b" "(a, i) \<in> set rows"
      unfolding ids by force
    moreover from this have "a = b" using mem[of a i] by simp
    ultimately have "(b, i) \<in> set rows" by simp
    then have "k \<in> (\<lambda>be. wi_id (fst be)) ` set rows" "event_due now b" "\<not> locked k"
      using mem kb by (force, auto)
    then show ?thesis using True row by simp
  next
    case False
    then have "k \<notin> (\<lambda>be. wi_id (fst be)) ` set rows" using mem same by fastforce
    then show ?thesis using False row by simp
  qed
qed

lemma claim_due_frame:
  assumes "claim_due_events w locked now s = (ids, s1)"
  shows "events s1 = events s" "dispatches s1 = dispatches s" "inbox_tables_ok s1 = inbox_tables_ok s"
    "length ids \<le> nat (wo_batch_size w)"
    "i \<in> set ids \<Longrightarrow> inbox_tables_ok s \<Longrightarrow> \<exists>b. inbox_for_event s i = Some b"
proof -
  show "events s1 = events s" "dispatches s1 = dispatches s" "inbox_tables_ok s1 = inbox_tables_ok s"
    "length ids \<le> nat (wo_batch_size w)"
    using assms by (auto simp: claim_due_events_def Let_def)
  show "\<exists>b. inbox_for_event s i = Some b" if mem: "i \<in> set ids" and ok: "inbox_tables_ok s"
  proof -
    obtain b where "(b, i) \<in> set (due_rows locked now s)"
      using assms mem by (auto simp: claim_due_events_def Let_def dest!: in_set_takeD)
    then show ?thesis using inbox_for_event_iff[OF ok] unfolding due_rows_mem by blast
  qed
qed

lemma claim_ids_distinct:
  assumes ok: "inbox_tables_ok s" and c: "claim_due_events w locked now s = (ids, s1)"
  shows "distinct ids"
proof -
  let ?rows = "take (nat (wo_batch_size w)) (due_rows locked now s)"
  have ids: "ids = map snd ?rows" using c by (simp add: claim_due_events_def Let_def)
  have d: "distinct (map (\<lambda>be. wi_id (fst be)) ?rows)"
    unfolding take_map[symmetric] using due_rows_distinct[OF ok] by (rule distinct_take)
  have "inj_on snd (set ?rows)"
  proof (rule inj_onI)
    fix x y assume xy: "x \<in> set ?rows" "y \<in> set ?rows" "snd x = snd y"
    have "inbox_for_event s (snd z) = Some (fst z)" if "z \<in> set ?rows" for z
      using in_set_takeD[OF that] due_rows_mem[of "fst z" "snd z" locked now s]
      unfolding inbox_for_event_iff[OF ok] by auto
    then have "fst x = fst y" using xy by (metis option.inject)
    then show "x = y" using xy(3) by (simp add: prod_eq_iff)
  qed
  moreover have "distinct ?rows" using d by (simp only: distinct_map)
  ultimately show ?thesis by (simp add: ids distinct_map)
qed

text \<open>
  C21: A claim is exclusive while its lease lasts: whatever leases another iteration recovers and
  whatever it claims before the lease runs out, no event is in both batches, and no batch holds
  an event twice or exceeds the batch size.
\<close>

theorem claims_are_exclusive:
  assumes ok: "inbox_tables_ok s" and first: "claim_due_events w locked now s = (ids, s1)"
    and second: "claim_due_events w locked' now' (recover_event_leases w locked'' now'' s1) = (ids', s2)"
    and lease: "now'' < now + seconds (wo_lease_seconds w)"
  shows "set ids \<inter> set ids' = {} \<and> distinct ids \<and> length ids \<le> nat (wo_batch_size w)"
proof -
  note fr = claim_due_frame[OF first]
  let ?s1 = "recover_event_leases w locked'' now'' s1"
  have ok1: "inbox_tables_ok ?s1" using ok fr(3) by simp
  have "i \<notin> set ids'" if mem: "i \<in> set ids" for i
  proof
    assume i': "i \<in> set ids'"
    obtain b where b: "inbox_for_event s i = Some b" using fr(5)[OF mem ok] by blast
    have kb: "get_row wi_id (wi_id b) (inboxes s) = Some b"
      using b ok unfolding inbox_for_event_iff[OF ok] by (auto simp: inbox_tables_ok_def intro: get_row_unique)
    have cl: "get_row wi_id (wi_id b) (inboxes s1) = Some (claimed w now b)"
      using claim_due_row[OF ok first kb] b mem by (auto split: if_split_asm)
    have "\<not> lease_expired now'' (claimed w now b)" using lease by (simp add: lease_expired_def claimed_def)
    then have row: "get_row wi_id (wi_id b) (inboxes ?s1) = Some (claimed w now b)"
      using recover_row[of s1 "wi_id b" "claimed w now b" w locked'' now''] ok fr(3) cl by simp
    have "inbox_for_event ?s1 i = Some (claimed w now b)"
      using b row fr(1) by (auto simp: inbox_for_event_def bind_eq_Some_conv dest: get_row_Some_mem)
    then have "event_due now' (claimed w now b)"
      using claim_due_row[OF ok1 second row] i' by (auto split: if_split_asm)
    then show False by (simp add: event_due_def claimed_def)
  qed
  moreover have "distinct ids" by (rule claim_ids_distinct[OF ok first])
  ultimately show ?thesis using fr(4) by blast
qed

section \<open>The inbox row of a dispatched event\<close>

text \<open>A dispatch writes no inbox row but that of its event.\<close>

lemma set_inbox_other [simp]:
  "k \<noteq> i \<Longrightarrow> get_row wi_id k (inboxes (set_inbox i st c d s)) = get_row wi_id k (inboxes s)"
  using get_row_Some_mem[of wi_id i "inboxes s"]
  by (auto simp: set_inbox_def get_put_other split: option.split)

lemma dispatch_audit_inboxes [simp]:
  "inboxes (dispatch_audit x e a i o' d s) = inboxes s" "events (dispatch_audit x e a i o' d s) = events s"
  by (simp_all add: dispatch_audit_def)

lemma unique_set_inbox [simp]: "unique_by wi_id (inboxes (set_inbox i st c d s)) = unique_by wi_id (inboxes s)"
  by (simp add: set_inbox_def split: option.split)

lemma set_inbox_ok [simp]: "inbox_tables_ok (set_inbox i st c d s) = inbox_tables_ok s"
  by (simp add: inbox_tables_ok_def)

text \<open>The states a dispatch can end in, as far as the inbox is concerned.\<close>

lemma dispatch_inbox_cases:
  assumes e: "get_row ne_id i (events s) = Some e"
  obtains (raised) err where "dispatch E W i s = DispatchRaised err"
  | (ignored) b where "get_row wi_id (ne_webhook_inbox_id e) (inboxes s) = Some b"
      "ne_is_self e \<or> wi_status b \<in> {In_IGNORED_SELF, In_DISPATCHED}" "dispatch E W i s = DispatchDone (ignored_result i) s"
  | (finished) b s1 res st c d where "get_row wi_id (ne_webhook_inbox_id e) (inboxes s) = Some b"
      "inboxes s1 = inboxes s" "events s1 = events s" "st \<in> {In_DISPATCHED, In_FAILED}"
      "dispatch E W i s = DispatchDone res (set_inbox (ne_webhook_inbox_id e) st c d s1) \<or>
       (\<exists>x a oid dt. dispatch E W i s = DispatchDone res
          (dispatch_audit x e a oid ''REJECTED'' dt (set_inbox (ne_webhook_inbox_id e) st c d s1)))"
  | (retry) b s1 detail c d where "get_row wi_id (ne_webhook_inbox_id e) (inboxes s) = Some b"
      "inboxes s1 = inboxes s" "events s1 = events s"
      "dispatch E W i s = DispatchRetryable detail (set_inbox (ne_webhook_inbox_id e) In_NORMALIZED c d s1)"
proof (cases "get_row wi_id (ne_webhook_inbox_id e) (inboxes s)")
  case None
  then show thesis using raised e by (simp add: dispatch_def)
next
  case b: (Some b)
  have wi: "wi_id b = ne_webhook_inbox_id e" using get_row_Some_mem[OF b] by simp
  let ?quiet = "ne_is_self e \<or> wi_status b \<in> {In_IGNORED_SELF, In_DISPATCHED}"
  let ?sys = "ne_conversation_type e = Conv_SYSTEM \<or> ne_event_type e = ''gewe.callback_verification''"
  show thesis
  proof (cases ?quiet)
    case True
    then have "dispatch E W i s = DispatchDone (ignored_result i) s" using e b by (auto simp: dispatch_def)
    then show thesis using ignored[OF b True] by blast
  next
    case go: False
    show thesis
    proof (cases ?sys)
      case True
      then have "dispatch E W i s = DispatchDone (ignored_result i) (set_inbox (ne_webhook_inbox_id e) In_DISPATCHED None None s)"
        using e b go wi by (simp add: dispatch_def)
      then show thesis using finished[OF b refl refl] by blast
    next
      case plain: False
      show thesis
      proof (cases "resolve_context E e (dw_resolved_at W) s")
        case (Inl err)
        then show thesis using raised e b go plain by (simp add: dispatch_def)
      next
        case (Inr cs)
        then obtain ctx s1 where r: "resolve_context E e (dw_resolved_at W) s = Inr (ctx, s1)" by (cases cs) simp
        note k = resolve_context_keeps[OF r]
        show thesis
        proof (cases "ctx = None \<or> ne_conversation_id e = None")
          case True
          then have "dispatch E W i s = DispatchDone (ignored_result i) (set_inbox (ne_webhook_inbox_id e) In_FAILED
              (Some ''EVENT_CONTEXT_UNRESOLVED'') (Some ''event has no active bot account or conversation'') s1)"
            using e b go plain wi r by (auto simp: dispatch_def)
          then show thesis using finished[OF b] k by blast
        next
          case some: False
          obtain x where x: "ctx = Some x" using some by (cases ctx) auto
          have disp: "dispatch E W i s = route_event E W e b x s1"
            using e b go plain r some x by (auto simp: dispatch_def)
          show thesis
          proof (cases "plugin_routes E s1 x")
            case None
            then show thesis using raised disp by (simp add: route_event_def)
          next
            case routes: (Some routes)
            show thesis
            proof (cases "1 < length (command_routes routes (rx_message_text x))")
              case True
              then have "dispatch E W i s = reject_conflict e x routes (command_routes routes (rx_message_text x)) s1"
                using disp routes by (simp add: route_event_def Let_def)
              then show thesis using finished[OF b, of s1 In_FAILED] k unfolding reject_conflict_def by blast
            next
              case False
              show thesis
              proof (cases "process_routes E W e b x (select_routes e x routes) (empty_tally, s1)")
                case (Inl err)
                then show thesis using raised disp routes False by (simp add: route_event_def Let_def)
              next
                case (Inr ts)
                then obtain t s2 where p: "process_routes E W e b x (select_routes e x routes) (empty_tally, s1) = Inr (t, s2)"
                  by (cases ts) simp
                then have "loop_frame s1 s2" using process_routes_effect by blast
                then have k2: "inboxes s2 = inboxes s" "events s2 = events s" using loop_frameD k by metis+
                have "dispatch E W i s = finish_dispatch e routes t s2"
                  using disp routes False p by (simp add: route_event_def Let_def)
                then show thesis using finished[OF b k2, of In_DISPATCHED] retry[OF b k2]
                  by (auto simp: finish_dispatch_def Let_def split: if_split_asm)
              qed
            qed
          qed
        qed
      qed
    qed
  qed
qed

text \<open>What one dispatch does to the inbox row of its event and to the others.\<close>

lemma dispatch_one_effect:
  assumes ok: "inbox_tables_ok s" and b: "inbox_for_event s i = Some b"
  shows "inbox_tables_ok (dispatch_one E w W now i s)"
    and "events (dispatch_one E w W now i s) = events s"
    and "k \<noteq> wi_id b \<Longrightarrow> get_row wi_id k (inboxes (dispatch_one E w W now i s)) = get_row wi_id k (inboxes s)"
    and "\<exists>b'. inbox_for_event (dispatch_one E w W now i s) i = Some b' \<and> wi_id b' = wi_id b \<and>
       wi_dispatch_attempt_count b' = wi_dispatch_attempt_count b \<and>
       ((\<exists>e. get_row ne_id i (events s) = Some e \<and> ne_is_self e) \<or> wi_status b \<in> {In_IGNORED_SELF, In_DISPATCHED} \<or>
        wi_status b' \<in> {In_DISPATCHED, In_FAILED} \<or>
        (wi_status b' = In_NORMALIZED \<and> wi_dispatch_attempt_count b < wo_max_attempts w \<and>
         wi_dispatch_available_at b' = now + seconds (retry_delay w (wi_dispatch_attempt_count b))))"
proof -
  obtain e where e: "get_row ne_id i (events s) = Some e" "get_row wi_id (ne_webhook_inbox_id e) (inboxes s) = Some b"
    using b by (auto simp: inbox_for_event_def bind_eq_Some_conv)
  have wi: "wi_id b = ne_webhook_inbox_id e" using get_row_Some_mem[OF e(2)] by simp
  let ?s' = "dispatch_one E w W now i s"
  let ?final = "\<lambda>b'. wi_id b' = wi_id b \<and> wi_dispatch_attempt_count b' = wi_dispatch_attempt_count b \<and>
     (ne_is_self e \<or> wi_status b \<in> {In_IGNORED_SELF, In_DISPATCHED} \<or> wi_status b' \<in> {In_DISPATCHED, In_FAILED} \<or>
      (wi_status b' = In_NORMALIZED \<and> wi_dispatch_attempt_count b < wo_max_attempts w \<and>
       wi_dispatch_available_at b' = now + seconds (retry_delay w (wi_dispatch_attempt_count b))))"
  have all: "inbox_tables_ok ?s' \<and> events ?s' = events s \<and>
      (\<forall>k. k \<noteq> wi_id b \<longrightarrow> get_row wi_id k (inboxes ?s') = get_row wi_id k (inboxes s)) \<and>
      (\<exists>b'. get_row wi_id (ne_webhook_inbox_id e) (inboxes ?s') = Some b' \<and> ?final b')"
    using e(1)
  proof (cases rule: dispatch_inbox_cases[where E = E and W = W])
    case (raised err)
    have f: "inbox_for_event s i = Some b" by (rule b)
    show ?thesis using raised f ok wi e(2)
      get_put_same[of wi_id "b\<lparr>wi_status := In_FAILED, wi_error_code := Some ''EVENT_DISPATCH_FAILED'',
          wi_error_detail := Some (''dispatcher failed with '' @ err)\<rparr>" "inboxes s"]
      by (simp add: dispatch_one_def mark_failed_def get_put_other)
  next
    case (ignored b0)
    then show ?thesis using ok e(2) by (auto simp: dispatch_one_def)
  next
    case (finished b0 s1 res st c d)
    let ?s2 = "set_inbox (ne_webhook_inbox_id e) st c d s1"
    have out: "events ?s' = events ?s2" "inboxes ?s' = inboxes ?s2"
      using finished(5) by (auto simp: dispatch_one_def)
    have "inbox_tables_ok ?s'" using ok finished(2,3) out by (simp add: inbox_tables_ok_def)
    moreover have "get_row wi_id (ne_webhook_inbox_id e) (inboxes ?s2) =
        Some (b\<lparr>wi_status := st, wi_error_code := c, wi_error_detail := d\<rparr>)"
      using set_inbox_get[of "ne_webhook_inbox_id e" s1 b] e(2) finished(2) by simp
    ultimately show ?thesis using out finished(2,3,4) wi by auto
  next
    case (retry b0 s1 detail c d)
    let ?s2 = "set_inbox (ne_webhook_inbox_id e) In_NORMALIZED c d s1"
    let ?b = "b\<lparr>wi_status := In_NORMALIZED, wi_error_code := c, wi_error_detail := d\<rparr>"
    have row: "get_row wi_id (ne_webhook_inbox_id e) (inboxes ?s2) = Some ?b"
      using set_inbox_get[of "ne_webhook_inbox_id e" s1 b] e(2) retry(2) by simp
    then have "inbox_for_event ?s2 i = Some ?b" using e(1) retry(3) by (simp add: inbox_for_event_def)
    then have out: "?s' = put_inbox (schedule_retry w now ?b) ?s2" using retry(4) by (simp add: dispatch_one_def)
    have id: "wi_id (schedule_retry w now ?b) = wi_id b" by (simp add: schedule_retry_def)
    have "get_row wi_id (wi_id b) (inboxes ?s') = Some (schedule_retry w now ?b)"
      using get_put_same[of wi_id "schedule_retry w now ?b" "inboxes ?s2"] row id wi by (simp add: out)
    moreover have "inbox_tables_ok ?s'" using ok retry(2,3) by (simp add: out inbox_tables_ok_def)
    moreover have "get_row wi_id k (inboxes ?s') = get_row wi_id k (inboxes s)" if "k \<noteq> wi_id b" for k
      using that id wi retry(2) get_put_other[of k wi_id "schedule_retry w now ?b" "inboxes ?s2"] by (simp add: out)
    moreover have "events ?s' = events s" using retry(3) by (simp add: out)
    moreover have "?final (schedule_retry w now ?b)" by (simp add: schedule_retry_def)
    ultimately show ?thesis using wi by (metis (no_types, lifting))
  qed
  then show "inbox_tables_ok ?s'" "events ?s' = events s"
    "k \<noteq> wi_id b \<Longrightarrow> get_row wi_id k (inboxes ?s') = get_row wi_id k (inboxes s)" by blast+
  obtain b' where "get_row wi_id (ne_webhook_inbox_id e) (inboxes ?s') = Some b'" "?final b'" using all by blast
  moreover have "inbox_for_event ?s' i = get_row wi_id (ne_webhook_inbox_id e) (inboxes ?s')"
    using all e(1) by (simp add: inbox_for_event_def)
  ultimately show "\<exists>b'. inbox_for_event ?s' i = Some b' \<and> wi_id b' = wi_id b \<and>
       wi_dispatch_attempt_count b' = wi_dispatch_attempt_count b \<and>
       ((\<exists>e. get_row ne_id i (events s) = Some e \<and> ne_is_self e) \<or> wi_status b \<in> {In_IGNORED_SELF, In_DISPATCHED} \<or>
        wi_status b' \<in> {In_DISPATCHED, In_FAILED} \<or>
        (wi_status b' = In_NORMALIZED \<and> wi_dispatch_attempt_count b < wo_max_attempts w \<and>
         wi_dispatch_available_at b' = now + seconds (retry_delay w (wi_dispatch_attempt_count b))))"
    using e(1) by auto
qed

section \<open>One iteration\<close>

lemma inbox_for_event_get:
  assumes "inbox_for_event s i = Some b" "events s' = events s"
  shows "inbox_for_event s' i = get_row wi_id (wi_id b) (inboxes s')"
proof -
  obtain e where e: "get_row ne_id i (events s) = Some e" "get_row wi_id (ne_webhook_inbox_id e) (inboxes s) = Some b"
    using assms(1) by (auto simp: inbox_for_event_def bind_eq_Some_conv)
  then have "wi_id b = ne_webhook_inbox_id e" using get_row_Some_mem by metis
  then show ?thesis using e assms(2) by (simp add: inbox_for_event_def)
qed

text \<open>The event \<open>i\<close> has the inbox row with the id \<open>k\<close>.\<close>

definition delivered_by :: "db \<Rightarrow> uuid \<Rightarrow> uuid \<Rightarrow> bool" where
  "delivered_by s k i \<longleftrightarrow> (\<exists>b. inbox_for_event s i = Some b \<and> wi_id b = k)"

lemma dispatch_one_delivered_by:
  assumes ok: "inbox_tables_ok s" and b: "inbox_for_event s i = Some b" and j: "delivered_by s k j"
  shows "delivered_by (dispatch_one E w W now i s) k j"
proof -
  note eff = dispatch_one_effect[OF ok b, where E = E and w = w and W = W and now = now]
  obtain c where c: "inbox_for_event s j = Some c" "wi_id c = k" using j by (auto simp: delivered_by_def)
  show ?thesis
  proof (cases "wi_id c = wi_id b")
    case True
    then have "j = i" using inbox_for_event_unique[OF ok c(1) b] by blast
    then show ?thesis using eff(4) True c(2) by (auto simp: delivered_by_def)
  next
    case False
    then have "inbox_for_event (dispatch_one E w W now i s) j = Some c"
      using eff(3) inbox_for_event_get[OF c(1) eff(2)] inbox_for_event_get[OF c(1) refl] c(1) by simp
    then show ?thesis using c(2) by (simp add: delivered_by_def)
  qed
qed

lemma dispatch_claimed_Cons [simp]:
  "dispatch_claimed E w V (i # ids) s =
     dispatch_claimed E w V ids (dispatch_one E w (ww_dispatch V i) (ww_retry_at V i) i s)"
  "dispatch_claimed E w V [] s = s"
  by (simp_all add: dispatch_claimed_def)

lemma dispatch_claimed_append:
  "dispatch_claimed E w V (xs @ ys) s = dispatch_claimed E w V ys (dispatch_claimed E w V xs s)"
  by (simp add: dispatch_claimed_def)

lemma dispatch_claimed_frame:
  "inbox_tables_ok s \<Longrightarrow> \<forall>i\<in>set ids. \<exists>k. delivered_by s k i \<Longrightarrow>
     inbox_tables_ok (dispatch_claimed E w V ids s) \<and> events (dispatch_claimed E w V ids s) = events s \<and>
     (\<forall>j k. delivered_by s k j \<longrightarrow> delivered_by (dispatch_claimed E w V ids s) k j) \<and>
     (\<forall>k. (\<forall>i\<in>set ids. \<not> delivered_by s k i) \<longrightarrow>
        get_row wi_id k (inboxes (dispatch_claimed E w V ids s)) = get_row wi_id k (inboxes s))"
proof (induction ids arbitrary: s)
  case (Cons i ids)
  let ?s1 = "dispatch_one E w (ww_dispatch V i) (ww_retry_at V i) i s"
  obtain b where b: "inbox_for_event s i = Some b" using Cons.prems(2) by (auto simp: delivered_by_def)
  note eff = dispatch_one_effect[OF Cons.prems(1) b, where E = E and w = w and W = "ww_dispatch V i"
      and now = "ww_retry_at V i"]
  have keep: "delivered_by ?s1 k j" if "delivered_by s k j" for k j
    using that by (rule dispatch_one_delivered_by[OF Cons.prems(1) b])
  have still: "\<forall>j\<in>set ids. \<exists>k. delivered_by ?s1 k j" using Cons.prems(2) keep by (metis list.set_intros(2))
  have none: "\<not> delivered_by ?s1 k j" if no: "\<not> delivered_by s k j" and ex: "\<exists>k. delivered_by s k j" for k j
  proof -
    obtain k' where k': "delivered_by s k' j" using ex by blast
    then have "delivered_by ?s1 k' j" "k' \<noteq> k" using keep no by blast+
    then show ?thesis by (auto simp: delivered_by_def)
  qed
  have row: "get_row wi_id k (inboxes ?s1) = get_row wi_id k (inboxes s)" if "\<not> delivered_by s k i" for k
    using that b eff(3) by (auto simp: delivered_by_def)
  note IH = Cons.IH[OF eff(1) still]
  have "get_row wi_id k (inboxes (dispatch_claimed E w V ids ?s1)) = get_row wi_id k (inboxes s)"
    if k: "\<forall>i\<in>set (i # ids). \<not> delivered_by s k i" for k
    using IH row[of k] none[of k] k Cons.prems(2) by (metis list.set_intros)
  then show ?case using IH eff(2) keep by simp
qed simp

lemma dispatch_claimed_own:
  assumes ok: "inbox_tables_ok s" and d: "distinct ids" and i: "i \<in> set ids"
    and all: "\<forall>j\<in>set ids. \<exists>k. delivered_by s k j" and b: "inbox_for_event s i = Some b"
  shows "\<exists>s1. inbox_tables_ok s1 \<and> events s1 = events s \<and> inbox_for_event s1 i = Some b \<and>
     inbox_for_event (dispatch_claimed E w V ids s) i =
       inbox_for_event (dispatch_one E w (ww_dispatch V i) (ww_retry_at V i) i s1) i"
proof -
  obtain xs ys where ids: "ids = xs @ i # ys" using i by (auto simp: in_set_conv_decomp)
  let ?s1 = "dispatch_claimed E w V xs s"
  let ?s2 = "dispatch_one E w (ww_dispatch V i) (ww_retry_at V i) i ?s1"
  have other: "\<not> delivered_by s (wi_id b) j" if j: "j \<in> set xs \<union> set ys" for j
  proof -
    have "j \<noteq> i" using j d ids by auto
    then show ?thesis using inbox_for_event_unique[OF ok _ b] unfolding delivered_by_def by blast
  qed
  have p: "inbox_tables_ok ?s1" "events ?s1 = events s"
    "\<And>j k. delivered_by s k j \<Longrightarrow> delivered_by ?s1 k j"
    "get_row wi_id (wi_id b) (inboxes ?s1) = get_row wi_id (wi_id b) (inboxes s)"
  proof -
    have "\<forall>j\<in>set xs. \<exists>k. delivered_by s k j" using all by (simp add: ids)
    note f = dispatch_claimed_frame[OF ok this, of E w V]
    show "inbox_tables_ok ?s1" "events ?s1 = events s" "\<And>j k. delivered_by s k j \<Longrightarrow> delivered_by ?s1 k j"
      using f by blast+
    show "get_row wi_id (wi_id b) (inboxes ?s1) = get_row wi_id (wi_id b) (inboxes s)" using f other by blast
  qed
  have b1: "inbox_for_event ?s1 i = Some b"
    using inbox_for_event_get[OF b p(2)] inbox_for_event_get[OF b refl] b p(4) by simp
  note eff = dispatch_one_effect[OF p(1) b1, where E = E and w = w and W = "ww_dispatch V i" and now = "ww_retry_at V i"]
  have ex: "\<exists>k. delivered_by ?s2 k j \<and> k \<noteq> wi_id b" if j: "j \<in> set ys" for j
  proof -
    obtain k where k: "delivered_by s k j" using all j ids by auto
    then have "k \<noteq> wi_id b" using other j by blast
    moreover have "delivered_by ?s2 k j" using dispatch_one_delivered_by[OF p(1) b1] p(3) k by blast
    ultimately show ?thesis by blast
  qed
  have none: "\<not> delivered_by ?s2 (wi_id b) j" if j: "j \<in> set ys" for j
    using ex[OF j] unfolding delivered_by_def by (metis option.inject)
  have q: "get_row wi_id (wi_id b) (inboxes (dispatch_claimed E w V ys ?s2)) = get_row wi_id (wi_id b) (inboxes ?s2)"
    "events (dispatch_claimed E w V ys ?s2) = events ?s1"
  proof -
    have "\<forall>j\<in>set ys. \<exists>k. delivered_by ?s2 k j" using ex by blast
    note f = dispatch_claimed_frame[OF eff(1) this, of E w V]
    show "get_row wi_id (wi_id b) (inboxes (dispatch_claimed E w V ys ?s2)) = get_row wi_id (wi_id b) (inboxes ?s2)"
      using f none by blast
    show "events (dispatch_claimed E w V ys ?s2) = events ?s1" using f eff(2) by metis
  qed
  have "inbox_for_event (dispatch_claimed E w V ids s) i = inbox_for_event ?s2 i"
    using inbox_for_event_get[OF b1 q(2)] inbox_for_event_get[OF b1 eff(2)] q(1)
    by (simp add: ids dispatch_claimed_append)
  then show ?thesis using p(1,2) b1 by blast
qed

text \<open>The batch of an iteration and the state it is dispatched in.\<close>

definition claimed_batch :: "worker_options \<Rightarrow> worker_world \<Rightarrow> db \<Rightarrow> uuid list \<times> db" where
  "claimed_batch w V s =
     claim_due_events w (ww_locked V) (ww_claimed_at V) (recover_event_leases w (ww_locked V) (ww_recovered_at V) s)"

lemma worker_run_once_batch:
  "claimed_batch w V s = (ids, s1) \<Longrightarrow> worker_run_once E w V s = (length ids, dispatch_claimed E w V ids s1)"
  by (simp add: worker_run_once_def claimed_batch_def)

lemma claimed_batch_frame:
  assumes ok: "inbox_tables_ok s" and c: "claimed_batch w V s = (ids, s1)"
  shows "inbox_tables_ok s1" "events s1 = events s" "distinct ids" "\<forall>j\<in>set ids. \<exists>k. delivered_by s1 k j"
proof -
  let ?s0 = "recover_event_leases w (ww_locked V) (ww_recovered_at V) s"
  have ok0: "inbox_tables_ok ?s0" using ok by simp
  have first: "claim_due_events w (ww_locked V) (ww_claimed_at V) ?s0 = (ids, s1)"
    using c by (simp add: claimed_batch_def)
  note f = claim_due_frame[OF first]
  show "inbox_tables_ok s1" "events s1 = events s" using f ok by simp_all
  show "distinct ids" using claim_ids_distinct[OF ok0 first] .
  have "\<exists>k. delivered_by s1 k j" if j: "j \<in> set ids" for j
  proof -
    obtain b where b: "inbox_for_event ?s0 j = Some b" using f(5)[OF j ok0] by blast
    have "get_row wi_id (wi_id b) (inboxes ?s0) = Some b" using inbox_for_event_get[OF b refl] b by simp
    then have "\<exists>b'. get_row wi_id (wi_id b) (inboxes s1) = Some b'"
      using claim_due_row[OF ok0 first] by (metis (full_types))
    then show ?thesis using inbox_for_event_get[OF b f(1)] by (auto simp: delivered_by_def)
  qed
  then show "\<forall>j\<in>set ids. \<exists>k. delivered_by s1 k j" by blast
qed

text \<open>What an iteration does to the inbox row of an event, claimed or not.\<close>

lemma run_once_unclaimed:
  assumes ok: "inbox_tables_ok s" and c: "claimed_batch w V s = (ids, s1)"
    and b: "inbox_for_event s i = Some b" and i: "i \<notin> set ids"
  shows "inbox_for_event (snd (worker_run_once E w V s)) i = Some b \<or>
     lease_expired (ww_recovered_at V) b \<and> inbox_for_event (snd (worker_run_once E w V s)) i = Some (recovered b)"
proof -
  let ?s0 = "recover_event_leases w (ww_locked V) (ww_recovered_at V) s"
  let ?s2 = "dispatch_claimed E w V ids s1"
  note f = claimed_batch_frame[OF ok c]
  have ok0: "inbox_tables_ok ?s0" using ok by simp
  have first: "claim_due_events w (ww_locked V) (ww_claimed_at V) ?s0 = (ids, s1)"
    using c by (simp add: claimed_batch_def)
  have row: "get_row wi_id (wi_id b) (inboxes s) = Some b" using inbox_for_event_get[OF b refl] b by simp
  obtain b0 where b0: "get_row wi_id (wi_id b) (inboxes ?s0) = Some b0"
    "b0 = b \<or> lease_expired (ww_recovered_at V) b \<and> b0 = recovered b"
    using recover_row[OF ok row] by metis
  have idb: "wi_id b0 = wi_id b" using get_row_Some_mem[OF b0(1)] by simp
  have at0: "inbox_for_event ?s0 i = Some b0" using inbox_for_event_get[OF b, of ?s0] b0(1) by simp
  have "\<not> (\<exists>j\<in>set ids. inbox_for_event ?s0 j = Some b0)"
    using inbox_for_event_unique[OF ok0 at0] i by blast
  then have row1: "get_row wi_id (wi_id b) (inboxes s1) = Some b0"
    using claim_due_row[OF ok0 first b0(1)] by simp
  have at1: "inbox_for_event s1 i = Some b0" using inbox_for_event_get[OF b, of s1] f(2) row1 by simp
  have "\<not> delivered_by s1 (wi_id b) j" if j: "j \<in> set ids" for j
    using inbox_for_event_unique[OF f(1) at1] idb i j unfolding delivered_by_def by metis
  then have "get_row wi_id (wi_id b) (inboxes ?s2) = Some b0" "events ?s2 = events s"
    using dispatch_claimed_frame[OF f(1,4), of E w V] row1 f(2) by auto
  then have "inbox_for_event ?s2 i = Some b0" using inbox_for_event_get[OF b, of ?s2] by simp
  then show ?thesis using b0(2) by (auto simp: worker_run_once_batch[OF c])
qed

lemma run_once_claimed:
  assumes ok: "inbox_tables_ok s" and c: "claimed_batch w V s = (ids, s1)"
    and b: "inbox_for_event s i = Some b" and i: "i \<in> set ids"
  shows "wi_status b \<in> {In_NORMALIZED, In_DISPATCHING} \<and>
    (\<exists>s2 b2. inbox_tables_ok s2 \<and> events s2 = events s \<and> inbox_for_event s2 i = Some b2 \<and>
       wi_status b2 = In_DISPATCHING \<and> wi_dispatch_attempt_count b2 = wi_dispatch_attempt_count b + 1 \<and>
       inbox_for_event (snd (worker_run_once E w V s)) i =
         inbox_for_event (dispatch_one E w (ww_dispatch V i) (ww_retry_at V i) i s2) i)"
proof -
  let ?s0 = "recover_event_leases w (ww_locked V) (ww_recovered_at V) s"
  note f = claimed_batch_frame[OF ok c]
  have ok0: "inbox_tables_ok ?s0" using ok by simp
  have first: "claim_due_events w (ww_locked V) (ww_claimed_at V) ?s0 = (ids, s1)"
    using c by (simp add: claimed_batch_def)
  have row: "get_row wi_id (wi_id b) (inboxes s) = Some b" using inbox_for_event_get[OF b refl] b by simp
  obtain b0 where b0: "get_row wi_id (wi_id b) (inboxes ?s0) = Some b0"
    "b0 = b \<or> lease_expired (ww_recovered_at V) b \<and> b0 = recovered b"
    using recover_row[OF ok row] by metis
  have at0: "inbox_for_event ?s0 i = Some b0" using inbox_for_event_get[OF b, of ?s0] b0(1) by simp
  then have cl: "event_due (ww_claimed_at V) b0"
    "get_row wi_id (wi_id b) (inboxes s1) = Some (claimed w (ww_claimed_at V) b0)"
    using claim_due_row[OF ok0 first b0(1)] i by (auto split: if_split_asm)
  have at1: "inbox_for_event s1 i = Some (claimed w (ww_claimed_at V) b0)"
    using inbox_for_event_get[OF b, of s1] f(2) cl(2) by simp
  obtain s2 where "inbox_tables_ok s2" "events s2 = events s" "inbox_for_event s2 i = Some (claimed w (ww_claimed_at V) b0)"
    "inbox_for_event (dispatch_claimed E w V ids s1) i =
       inbox_for_event (dispatch_one E w (ww_dispatch V i) (ww_retry_at V i) i s2) i"
    using dispatch_claimed_own[OF f(1,3) i f(4) at1, of E w V] f(2) by auto
  moreover have "wi_dispatch_attempt_count b0 = wi_dispatch_attempt_count b" using b0(2) by (auto simp: recovered_def)
  moreover have "wi_status b \<in> {In_NORMALIZED, In_DISPATCHING}"
    using b0(2) cl(1) by (auto simp: event_due_def lease_expired_def)
  ultimately show ?thesis
    by (auto simp: worker_run_once_batch[OF c] claimed_def)
qed

lemma run_once_frame:
  assumes ok: "inbox_tables_ok s"
  shows "inbox_tables_ok (snd (worker_run_once E w V s)) \<and> events (snd (worker_run_once E w V s)) = events s"
proof -
  obtain ids s1 where c: "claimed_batch w V s = (ids, s1)" by fastforce
  note f = claimed_batch_frame[OF ok c]
  show ?thesis using dispatch_claimed_frame[OF f(1,4), of E w V] f(2) by (simp add: worker_run_once_batch[OF c])
qed

lemma finished_row_kept:
  assumes ok: "inbox_tables_ok s" and b: "inbox_for_event s i = Some b"
    and fin: "wi_status b \<notin> {In_NORMALIZED, In_DISPATCHING}"
  shows "inbox_for_event (snd (worker_run_once E w V s)) i = Some b"
proof -
  obtain ids s1 where c: "claimed_batch w V s = (ids, s1)" by fastforce
  have "i \<notin> set ids" using run_once_claimed[OF ok c b] fin by blast
  moreover have "\<not> lease_expired (ww_recovered_at V) b" using fin by (auto simp: lease_expired_def)
  ultimately show ?thesis using run_once_unclaimed[OF ok c b] by blast
qed

section \<open>Every event that is claimed is finished\<close>

fun worker_iterations :: "env \<Rightarrow> worker_options \<Rightarrow> worker_world list \<Rightarrow> db \<Rightarrow> db" where
  "worker_iterations E w [] s = s"
| "worker_iterations E w (V # Vs) s = worker_iterations E w Vs (snd (worker_run_once E w V s))"

text \<open>An event is served by a run if each iteration that finds it waiting claims it.\<close>

fun served :: "env \<Rightarrow> worker_options \<Rightarrow> uuid \<Rightarrow> worker_world list \<Rightarrow> db \<Rightarrow> bool" where
  "served E w i [] s = True"
| "served E w i (V # Vs) s =
     ((case inbox_for_event s i of
         Some b \<Rightarrow> wi_status b = In_NORMALIZED \<longrightarrow> i \<in> set (fst (claimed_batch w V s))
       | None \<Rightarrow> True) \<and> served E w i Vs (snd (worker_run_once E w V s)))"

lemma claimed_event_step:
  assumes ok: "inbox_tables_ok s" and b: "inbox_for_event s i = Some b"
    and e: "get_row ne_id i (events s) = Some e" "\<not> ne_is_self e" and i: "i \<in> set (fst (claimed_batch w V s))"
  shows "\<exists>b'. inbox_for_event (snd (worker_run_once E w V s)) i = Some b' \<and>
     (wi_status b' \<in> {In_DISPATCHED, In_FAILED} \<or>
      wi_status b' = In_NORMALIZED \<and> wi_dispatch_attempt_count b' = wi_dispatch_attempt_count b + 1 \<and>
      wi_dispatch_attempt_count b + 1 < wo_max_attempts w)"
proof -
  obtain ids s1 where c: "claimed_batch w V s = (ids, s1)" by fastforce
  obtain s2 b2 where s2: "inbox_tables_ok s2" "events s2 = events s" "inbox_for_event s2 i = Some b2"
    "wi_status b2 = In_DISPATCHING" "wi_dispatch_attempt_count b2 = wi_dispatch_attempt_count b + 1"
    "inbox_for_event (snd (worker_run_once E w V s)) i =
       inbox_for_event (dispatch_one E w (ww_dispatch V i) (ww_retry_at V i) i s2) i"
    using run_once_claimed[OF ok c b, of E] i c by auto
  show ?thesis
    using dispatch_one_effect(4)[OF s2(1,3), where E = E and w = w and W = "ww_dispatch V i" and now = "ww_retry_at V i"]
      s2 e by fastforce
qed

lemma finished_iterations:
  assumes "inbox_tables_ok s" "inbox_for_event s i = Some b" "wi_status b \<notin> {In_NORMALIZED, In_DISPATCHING}"
  shows "inbox_for_event (worker_iterations E w Vs s) i = Some b"
  using assms
proof (induction Vs arbitrary: s)
  case (Cons V Vs)
  have "inbox_for_event (snd (worker_run_once E w V s)) i = Some b"
    using finished_row_kept[OF Cons.prems(1,2)] Cons.prems(3) by blast
  then show ?case using Cons.IH run_once_frame[OF Cons.prems(1)] Cons.prems(3) by simp
qed simp

text \<open>
  An event whose inbox row is finished (dispatched, failed, or ignored as the account's own)
  or not yet normalized is out of the worker's reach: no sequence of iterations, whatever their
  clocks, locks and plugins, changes the row.
\<close>

theorem finished_events_stay:
  assumes ok: "inbox_tables_ok s" and b: "inbox_for_event s i = Some b"
    and fin: "wi_status b \<notin> {In_NORMALIZED, In_DISPATCHING}"
  shows "inbox_for_event (worker_iterations E w Vs s) i = Some b"
  using ok b fin by (rule finished_iterations)

text \<open>
  C20: No event is retried for ever: an event of another sender that waits, and is claimed by
  every iteration that finds it waiting, is dispatched or failed for good after as many
  iterations as it has attempts left, at least one, however often its plugins ask for a
  retry, and it stays so in every later iteration.
\<close>

theorem served_event_finishes:
  assumes ok: "inbox_tables_ok s" and b: "inbox_for_event s i = Some b" and wait: "wi_status b = In_NORMALIZED"
    and e: "get_row ne_id i (events s) = Some e" "\<not> ne_is_self e" and served: "served E w i Vs s"
    and n: "0 < length Vs" "wo_max_attempts w - wi_dispatch_attempt_count b \<le> int (length Vs)"
  shows "\<exists>b'. inbox_for_event (worker_iterations E w (Vs @ Vs') s) i = Some b' \<and>
     wi_status b' \<in> {In_DISPATCHED, In_FAILED}"
  using ok b wait e served n
proof (induction Vs arbitrary: s b)
  case (Cons V Vs)
  let ?s = "snd (worker_run_once E w V s)"
  have fr: "inbox_tables_ok ?s" "get_row ne_id i (events ?s) = Some e"
    using run_once_frame[OF Cons.prems(1)] Cons.prems(4) by simp_all
  have i: "i \<in> set (fst (claimed_batch w V s))" and served: "served E w i Vs ?s"
    using Cons.prems(2,3,6) by simp_all
  obtain b' where b': "inbox_for_event ?s i = Some b'"
    "wi_status b' \<in> {In_DISPATCHED, In_FAILED} \<or>
     wi_status b' = In_NORMALIZED \<and> wi_dispatch_attempt_count b' = wi_dispatch_attempt_count b + 1 \<and>
     wi_dispatch_attempt_count b + 1 < wo_max_attempts w"
    using claimed_event_step[OF Cons.prems(1,2,4,5) i, of E] by blast
  show ?case
  proof (cases "wi_status b' \<in> {In_DISPATCHED, In_FAILED}")
    case True
    then show ?thesis using finished_iterations[OF fr(1) b'(1), of E w] by auto
  next
    case False
    then have "0 < length Vs" "wo_max_attempts w - wi_dispatch_attempt_count b' \<le> int (length Vs)"
      using b'(2) Cons.prems(8) by auto
    then show ?thesis using Cons.IH[OF fr(1) b'(1) _ fr(2) Cons.prems(5) served] False b'(2) by auto
  qed
qed simp

text \<open>An event at its fifth attempt, claimed with the options of the deployment's defaults.\<close>

definition waiting_inbox :: webhook_inbox where
  "waiting_inbox = sample_inbox\<lparr>wi_status := In_NORMALIZED, wi_dispatch_attempt_count := 4, wi_dispatch_available_at := 0\<rparr>"

definition waiting_db :: db where
  "waiting_db = sample_dispatch_db\<lparr>inboxes := [waiting_inbox]\<rparr>"

definition idle_world :: worker_world where
  "idle_world = \<lparr>ww_locked = (\<lambda>k. False), ww_recovered_at = 10, ww_claimed_at = 10,
     ww_dispatch = (\<lambda>i. sample_world JNull), ww_retry_at = (\<lambda>i. 20)\<rparr>"

lemma waiting_tables: "inbox_tables_ok waiting_db" "events waiting_db = [sample_event]" "inboxes waiting_db = [waiting_inbox]"
  by (simp_all add: waiting_db_def sample_dispatch_db_def inbox_tables_ok_def unique_by_def)

lemma waiting_ids: "wi_id waiting_inbox = wi_id sample_inbox" "ne_webhook_inbox_id sample_event = wi_id sample_inbox"
  "ne_id sample_event = 71" "\<not> ne_is_self sample_event"
  by (simp_all add: waiting_inbox_def sample_event_def sample_inbox_def)

lemma waiting_row: "inbox_for_event waiting_db 71 = Some waiting_inbox" "get_row ne_id 71 (events waiting_db) = Some sample_event"
  by (simp_all add: inbox_for_event_def waiting_tables get_row_Cons waiting_ids)

lemma waiting_claims:
  "claim_due_events default_worker_options (\<lambda>k. False) 10 waiting_db =
     ([71], put_inbox (claimed default_worker_options 10 waiting_inbox) waiting_db)"
  by (simp add: claim_due_events_def due_rows_def waiting_tables event_due_def waiting_ids Let_def
      default_worker_options_def claim_row_def get_row_Cons)
    (simp add: waiting_inbox_def)

lemma waiting_batch: "fst (claimed_batch default_worker_options idle_world waiting_db) = [71]"
proof -
  have "recover_event_leases default_worker_options (\<lambda>k. False) 10 waiting_db = waiting_db"
    by (simp add: recover_event_leases_def waiting_tables lease_expired_def) (simp add: waiting_inbox_def)
  then show ?thesis by (simp add: claimed_batch_def idle_world_def waiting_claims)
qed

theorem claims_are_exclusive_witness:
  "inbox_tables_ok waiting_db \<and> set [71 :: uuid] \<inter> set (fst (claim_due_events default_worker_options (\<lambda>k. False) 20
     (recover_event_leases default_worker_options (\<lambda>k. False) 20 (put_inbox (claimed default_worker_options 10 waiting_inbox) waiting_db)))) = {}"
proof -
  obtain ids s where "claim_due_events default_worker_options (\<lambda>k. False) 20 (recover_event_leases default_worker_options
      (\<lambda>k. False) 20 (put_inbox (claimed default_worker_options 10 waiting_inbox) waiting_db)) = (ids, s)" by fastforce
  moreover have "(20 :: instant) < 10 + seconds (wo_lease_seconds default_worker_options)"
    by (simp add: default_worker_options_def seconds_def round_half_even_def)
  ultimately show ?thesis using claims_are_exclusive[OF waiting_tables(1) waiting_claims] waiting_tables(1) by simp
qed

theorem finished_events_stay_witness:
  "inbox_for_event (worker_iterations sample_env default_worker_options [idle_world, idle_world]
     (put_inbox (waiting_inbox\<lparr>wi_status := In_FAILED\<rparr>) waiting_db)) 71 = Some (waiting_inbox\<lparr>wi_status := In_FAILED\<rparr>)"
proof -
  let ?s = "put_inbox (waiting_inbox\<lparr>wi_status := In_FAILED\<rparr>) waiting_db"
  have "inboxes ?s = [waiting_inbox\<lparr>wi_status := In_FAILED\<rparr>]" by (simp add: waiting_tables put_row_def)
  then have "inbox_for_event ?s 71 = Some (waiting_inbox\<lparr>wi_status := In_FAILED\<rparr>)"
    using waiting_row(2) by (simp add: inbox_for_event_def get_row_Cons waiting_ids)
  then show ?thesis by (intro finished_events_stay) (simp_all add: waiting_tables)
qed

theorem served_event_finishes_witness:
  "\<exists>b. inbox_for_event (worker_iterations sample_env default_worker_options ([idle_world] @ [idle_world]) waiting_db) 71 = Some b \<and>
     wi_status b \<in> {In_DISPATCHED, In_FAILED}"
proof -
  have "served sample_env default_worker_options 71 [idle_world] waiting_db" by (simp add: waiting_row waiting_batch)
  moreover have "wi_status waiting_inbox = In_NORMALIZED" "wi_dispatch_attempt_count waiting_inbox = 4"
    by (simp_all add: waiting_inbox_def)
  ultimately show ?thesis
    using served_event_finishes[OF waiting_tables(1) waiting_row(1) _ waiting_row(2) waiting_ids(4),
        of sample_env default_worker_options "[idle_world]" "[idle_world]"]
    by (simp add: default_worker_options_def)
qed

end
