(* ===== verification/Plugin_Config.thy ===== *)
theory Plugin_Config
  imports Plugin_Scope "HOL-Library.AList"
begin

text \<open>
  The configuration of a revision as it is shown and edited (\<open>plugins/catalog.py\<close>): the
  redaction of secrets in a draft, the merge of edited fields into the source revision, and the
  return of the secrets behind the placeholders.  Regular expressions of a schema are searched
  by a parameter \<open>rx\<close>, \<open>re.search\<close>, with \<open>None\<close> for \<open>re.error\<close>.
\<close>

section \<open>Schemas\<close>

fun json_items :: "json \<Rightarrow> json list" where
  "json_items (JArr xs) = xs"
| "json_items _ = []"

fun json_fields :: "json \<Rightarrow> (string \<times> json) list" where
  "json_fields (JObj kvs) = kvs"
| "json_fields _ = []"

lemma size_field: "(k, v) \<in> set kvs \<Longrightarrow> size v < size (JObj kvs)"
  using size_list_estimation'[of "(k, v)" kvs "size v" "size_prod (\<lambda>x. 0) size"] by simp

lemma size_item: "v \<in> set xs \<Longrightarrow> size v < size (JArr xs)"
  using size_list_estimation'[of v xs "size v" size] by simp

lemma size_json_get: "is_obj (json_get j k) \<or> json_items (json_get j k) \<noteq> [] \<Longrightarrow> size (json_get j k) < size j"
  using size_field by (cases j) (auto simp: json_get_def dest!: map_of_SomeD split: option.splits)

definition schema_combiners :: "string list" where
  "schema_combiners = [''allOf'', ''anyOf'', ''oneOf'']"

text \<open>The subschemas a schema is combined of, and the schema with all of them in turn.\<close>

definition schema_branches :: "json \<Rightarrow> json list" where
  "schema_branches schema =
     concat (map (\<lambda>keyword. filter is_obj (json_items (json_get schema keyword))) schema_combiners)
     @ filter is_obj (map (json_get schema) [''if'', ''then'', ''else''])"

lemma schema_branch_size: "b \<in> set (schema_branches schema) \<Longrightarrow> size b < size schema"
proof -
  have item: "size b < size schema" if "b \<in> set (json_items (json_get schema k))" for k
  proof -
    have "json_items (json_get schema k) \<noteq> []" using that by auto
    then have "size (json_get schema k) < size schema" using size_json_get by blast
    moreover have "size b < size (json_get schema k)" using that size_item by (cases "json_get schema k") auto
    ultimately show ?thesis by simp
  qed
  assume "b \<in> set (schema_branches schema)"
  then consider k where "b \<in> set (json_items (json_get schema k))" | k where "b = json_get schema k" "is_obj b"
    unfolding schema_branches_def set_append set_concat set_map set_filter by auto
  then show ?thesis using item size_json_get by cases blast+
qed

function schema_variants :: "json \<Rightarrow> json list" where
  "schema_variants schema = schema # concat (map schema_variants (schema_branches schema))"
  by auto
termination by (relation "measure size") (auto simp: schema_branch_size)

declare schema_variants.simps [simp del]

definition variant_children :: "(string \<Rightarrow> string \<Rightarrow> bool option) \<Rightarrow> string \<Rightarrow> json \<Rightarrow> json list" where
  "variant_children rx key variant =
     filter is_obj [json_get (json_get variant ''properties'') key]
     @ map snd (filter (\<lambda>(pattern, child). is_obj child \<and> rx pattern key = Some True)
         (json_fields (json_get variant ''patternProperties'')))
     @ filter is_obj [json_get variant ''additionalProperties'']"

definition child_schemas :: "(string \<Rightarrow> string \<Rightarrow> bool option) \<Rightarrow> json list \<Rightarrow> string \<Rightarrow> json list" where
  "child_schemas rx schemas key =
     concat (map (variant_children rx key) (concat (map schema_variants schemas)))"

definition variant_items :: "json \<Rightarrow> json list" where
  "variant_items variant =
     filter is_obj [json_get variant ''items''] @ filter is_obj (json_items (json_get variant ''prefixItems''))"

definition item_schemas :: "json list \<Rightarrow> json list" where
  "item_schemas schemas = concat (map variant_items (concat (map schema_variants schemas)))"

section \<open>Redaction\<close>

definition redaction_marker :: string where
  "redaction_marker = ''__WECHAT_BOT_SECRET_RETAINED__''"

definition secret_field_names :: "string list" where
  "secret_field_names = [''apikey'', ''apisecret'', ''accesstoken'', ''authtoken'', ''bearertoken'',
     ''clientsecret'', ''credential'', ''password'', ''privatekey'', ''refreshtoken'', ''secret'',
     ''secretkey'', ''signingkey'', ''token'']"

definition secret_name :: "string \<Rightarrow> bool" where
  "secret_name name \<longleftrightarrow>
     filter (\<lambda>c. (CHR ''a'' \<le> c \<and> c \<le> CHR ''z'') \<or> (CHR ''0'' \<le> c \<and> c \<le> CHR ''9'')) (casefold name)
       \<in> set secret_field_names"

definition sensitive_variant :: "json \<Rightarrow> bool" where
  "sensitive_variant variant \<longleftrightarrow>
     json_get variant ''writeOnly'' = JBool True \<or> json_get variant ''x-sensitive'' = JBool True \<or>
     (case json_get variant ''format'' of JStr f \<Rightarrow> casefold f = ''password'' | _ \<Rightarrow> False)"

definition is_sensitive_field :: "string option \<Rightarrow> json list \<Rightarrow> bool" where
  "is_sensitive_field field schemas \<longleftrightarrow>
     (case field of Some name \<Rightarrow> secret_name name | None \<Rightarrow> False)
     \<or> (\<exists>schema\<in>set schemas. \<exists>variant\<in>set (schema_variants schema). sensitive_variant variant)"

fun redact :: "(string \<Rightarrow> string \<Rightarrow> bool option) \<Rightarrow> json list \<Rightarrow> string option \<Rightarrow> json \<Rightarrow> json" where
  "redact rx schemas field (JObj kvs) =
     (if is_sensitive_field field schemas then JStr redaction_marker
      else JObj (map (\<lambda>(k, v). (k, redact rx (child_schemas rx schemas k) (Some k) v)) kvs))"
| "redact rx schemas field (JArr xs) =
     (if is_sensitive_field field schemas then JStr redaction_marker
      else JArr (map (redact rx (item_schemas schemas) field) xs))"
| "redact rx schemas field v = (if is_sensitive_field field schemas then JStr redaction_marker else v)"

definition redact_config :: "(string \<Rightarrow> string \<Rightarrow> bool option) \<Rightarrow> json \<Rightarrow> json \<Rightarrow> (catalog_error, json) res" where
  "redact_config rx schema config =
     (let redacted = redact rx [schema] None config
      in if is_obj redacted then Inr redacted
         else Inl (PluginCatalogError ''plugin configuration is not an object''))"

section \<open>Editing\<close>

fun contains_placeholder :: "json \<Rightarrow> bool" where
  "contains_placeholder (JStr t) = (t = redaction_marker)"
| "contains_placeholder (JObj kvs) = (\<exists>(k, v)\<in>set kvs. contains_placeholder v)"
| "contains_placeholder (JArr xs) = (\<exists>v\<in>set xs. contains_placeholder v)"
| "contains_placeholder _ = False"

text \<open>\<open>None\<close> is the sentinel for a value missing in the source.\<close>

fun source_fields :: "json option \<Rightarrow> (string \<times> json) list" where
  "source_fields (Some (JObj kvs)) = kvs"
| "source_fields _ = []"

fun source_items :: "json option \<Rightarrow> json list" where
  "source_items (Some (JArr xs)) = xs"
| "source_items _ = []"

fun item_at :: "nat \<Rightarrow> 'a list \<Rightarrow> 'a option" where
  "item_at n [] = None"
| "item_at 0 (x # xs) = Some x"
| "item_at (Suc n) (x # xs) = item_at n xs"

function restore_secrets :: "json \<Rightarrow> json option \<Rightarrow> (catalog_error, json) res"
  and restore_fields :: "(string \<times> json) list \<Rightarrow> (string \<times> json) list \<Rightarrow> (catalog_error, (string \<times> json) list) res"
  and restore_items :: "json list \<Rightarrow> nat \<Rightarrow> json list \<Rightarrow> (catalog_error, json list) res" where
  "restore_secrets (JStr t) source =
     (if t = redaction_marker
      then of_option (PluginCatalogError ''secret placeholder has no value in the source revision'') source
      else Inr (JStr t))"
| "restore_secrets (JObj kvs) source = bind_res (restore_fields kvs (source_fields source)) (\<lambda>r. Inr (JObj r))"
| "restore_secrets (JArr xs) source = bind_res (restore_items xs 0 (source_items source)) (\<lambda>r. Inr (JArr r))"
| "restore_secrets JNull source = Inr JNull"
| "restore_secrets (JBool b) source = Inr (JBool b)"
| "restore_secrets (JInt i) source = Inr (JInt i)"
| "restore_secrets (JFloat x) source = Inr (JFloat x)"
| "restore_fields [] source = Inr []"
| "restore_fields ((k, v) # kvs) source =
     bind_res (restore_secrets v (map_of source k)) (\<lambda>v'.
     bind_res (restore_fields kvs source) (\<lambda>r. Inr ((k, v') # r)))"
| "restore_items [] i source = Inr []"
| "restore_items (v # vs) i source =
     bind_res (restore_secrets v (item_at i source)) (\<lambda>v'.
     bind_res (restore_items vs (Suc i) source) (\<lambda>r. Inr (v' # r)))"
  by pat_completeness auto
termination
  by (relation "measure (case_sum (\<lambda>(v, _). size v) (case_sum
      (\<lambda>(kvs, _). size_list (size_prod (\<lambda>x. 0) size) kvs) (\<lambda>(vs, _, _). size_list size vs)))") auto

text \<open>\<open>merged[key] = \<dots>\<close> keeps the position of a key that is there.\<close>

function merge_config :: "json option \<Rightarrow> json \<Rightarrow> json"
  and merge_fields :: "(string \<times> json) list \<Rightarrow> (string \<times> json) list \<Rightarrow> (string \<times> json) list \<Rightarrow> (string \<times> json) list" where
  "merge_config source changes =
     (case (source, changes) of
        (Some (JObj kvs), JObj new) \<Rightarrow> JObj (merge_fields kvs new kvs)
      | _ \<Rightarrow> changes)"
| "merge_fields source [] merged = merged"
| "merge_fields source ((k, v) # changes) merged =
     merge_fields source changes (AList.update k (merge_config (map_of source k) v) merged)"
  by pat_completeness auto
termination
  by (relation "measure (case_sum (\<lambda>(_, v). size v)
      (\<lambda>(_, kvs, _). size_list (size_prod (\<lambda>x. 0) size) kvs))") auto

declare merge_config.simps [simp del]

lemma merge_config_cases [simp]:
  "merge_config (Some (JObj kvs)) (JObj new) = JObj (merge_fields kvs new kvs)"
  "merge_config None changes = changes"
  "\<not> is_obj old \<Longrightarrow> merge_config (Some old) changes = changes"
  "\<not> is_obj changes \<Longrightarrow> merge_config source changes = changes"
  by (auto simp: merge_config.simps split: option.split json.split)

section \<open>The draft of a revision\<close>

text \<open>The keys of a Python dictionary are distinct.\<close>

fun distinct_keys :: "json \<Rightarrow> bool" where
  "distinct_keys (JObj kvs) \<longleftrightarrow> distinct (map fst kvs) \<and> (\<forall>(k, v)\<in>set kvs. distinct_keys v)"
| "distinct_keys (JArr xs) \<longleftrightarrow> (\<forall>v\<in>set xs. distinct_keys v)"
| "distinct_keys v = True"

lemma item_at_append [simp]: "item_at (length ys) (ys @ x # xs) = Some x"
  by (induction ys) auto

lemma restore_fields_map:
  assumes "\<And>k v. (k, v) \<in> set kvs \<Longrightarrow> map_of source k = Some (g k v) \<and> restore_secrets (f k v) (Some (g k v)) = Inr (h k v)"
  shows "restore_fields (map (\<lambda>(k, v). (k, f k v)) kvs) source = Inr (map (\<lambda>(k, v). (k, h k v)) kvs)"
  using assms
proof (induction kvs)
  case (Cons kv kvs)
  obtain k v where kv: "kv = (k, v)" by (cases kv)
  have "restore_fields (map (\<lambda>(k, v). (k, f k v)) kvs) source = Inr (map (\<lambda>(k, v). (k, h k v)) kvs)"
    using Cons by simp
  moreover have "map_of source k = Some (g k v)" "restore_secrets (f k v) (Some (g k v)) = Inr (h k v)"
    using Cons.prems[of k v] kv by simp_all
  ultimately show ?case by (simp add: kv)
qed simp

lemma restore_items_map:
  assumes "\<And>v. v \<in> set xs \<Longrightarrow> restore_secrets (f v) (Some v) = Inr v"
  shows "restore_items (map f xs) (length ys) (ys @ xs) = Inr xs"
  using assms
proof (induction xs arbitrary: ys)
  case (Cons x xs)
  have "restore_items (map f xs) (length (ys @ [x])) ((ys @ [x]) @ xs) = Inr xs"
    using Cons.prems by (intro Cons.IH) simp
  then show ?case using Cons.prems[of x] by simp
qed simp

lemma restore_redacted: "distinct_keys v \<Longrightarrow> restore_secrets (redact rx schemas field v) (Some v) = Inr v"
proof (induction rx schemas field v rule: redact.induct)
  case (1 rx schemas field kvs)
  show ?case
  proof (cases "is_sensitive_field field schemas")
    case False
    have "restore_fields (map (\<lambda>(k, v). (k, redact rx (child_schemas rx schemas k) (Some k) v)) kvs) kvs =
        Inr (map (\<lambda>(k, v). (k, v)) kvs)"
    proof (rule restore_fields_map[where g = "\<lambda>k v. v"])
      fix k v assume kv: "(k, v) \<in> set kvs"
      then have "map_of kvs k = Some v" "distinct_keys v" using "1.prems" by auto
      then show "map_of kvs k = Some v \<and> restore_secrets (redact rx (child_schemas rx schemas k) (Some k) v) (Some v) = Inr v"
        using "1.IH"[OF False kv refl] by simp
    qed
    then show ?thesis using False by simp
  qed simp
next
  case (2 rx schemas field xs)
  show ?case
  proof (cases "is_sensitive_field field schemas")
    case False
    have "restore_secrets (redact rx (item_schemas schemas) field v) (Some v) = Inr v" if "v \<in> set xs" for v
      using "2.IH"[OF False that] "2.prems" that by simp
    then show ?thesis using restore_items_map[of xs "redact rx (item_schemas schemas) field" "[]"] False by simp
  qed simp
qed simp_all

lemma merge_fields_map:
  assumes "distinct (map fst (pre @ kvs))"
    and "\<And>k v. (k, v) \<in> set kvs \<Longrightarrow> merge_config (map_of source k) (f k v) = g k v"
  shows "merge_fields source (map (\<lambda>(k, v). (k, f k v)) kvs) (pre @ kvs) = pre @ map (\<lambda>(k, v). (k, g k v)) kvs"
  using assms
proof (induction kvs arbitrary: pre)
  case (Cons kv kvs)
  obtain k v where kv: "kv = (k, v)" by (cases kv)
  have up: "AList.update k w (pre @ (k, v) # kvs) = (pre @ [(k, w)]) @ kvs" for w
    using Cons.prems(1) by (induction pre) (auto simp: kv)
  have "merge_fields source (map (\<lambda>(k, v). (k, f k v)) kvs) ((pre @ [(k, g k v)]) @ kvs) =
      (pre @ [(k, g k v)]) @ map (\<lambda>(k, v). (k, g k v)) kvs"
    using Cons.prems by (intro Cons.IH) (auto simp: kv)
  then show ?case using Cons.prems(2)[of k v] by (simp add: kv up)
qed simp

lemma merge_redacted: "distinct_keys v \<Longrightarrow> merge_config (Some v) (redact rx schemas field v) = redact rx schemas field v"
proof (induction rx schemas field v rule: redact.induct)
  case (1 rx schemas field kvs)
  show ?case
  proof (cases "is_sensitive_field field schemas")
    case False
    have "merge_fields kvs (map (\<lambda>(k, v). (k, redact rx (child_schemas rx schemas k) (Some k) v)) kvs) ([] @ kvs) =
        [] @ map (\<lambda>(k, v). (k, redact rx (child_schemas rx schemas k) (Some k) v)) kvs"
    proof (rule merge_fields_map)
      fix k v assume kv: "(k, v) \<in> set kvs"
      then have "map_of kvs k = Some v" "distinct_keys v" using "1.prems" by auto
      then show "merge_config (map_of kvs k) (redact rx (child_schemas rx schemas k) (Some k) v) =
          redact rx (child_schemas rx schemas k) (Some k) v" using "1.IH"[OF False kv refl] by simp
    qed (use "1.prems" in simp)
    then show ?thesis using False by simp
  qed simp
qed simp_all

text \<open>The configuration of a new revision from the edited draft of its source.\<close>

definition edited_config :: "json \<Rightarrow> json \<Rightarrow> (catalog_error, json) res" where
  "edited_config source changes = restore_secrets (merge_config (Some source) changes) (Some source)"

text \<open>A place in a document, and the document with another value there.\<close>

datatype json_step = Key string | Index nat

fun replace_at :: "json_step list \<Rightarrow> json \<Rightarrow> json \<Rightarrow> json" where
  "replace_at [] w v = w"
| "replace_at (Key k # p) w (JObj kvs) = JObj (map (\<lambda>(k', v). (k', if k' = k then replace_at p w v else v)) kvs)"
| "replace_at (Index i # p) w (JArr xs) = JArr (if i < length xs then xs[i := replace_at p w (xs ! i)] else xs)"
| "replace_at _ w v = v"

text \<open>A place is open if the draft shows the structure down to it, and secret if the draft hides it.\<close>

fun open_path ::
    "(string \<Rightarrow> string \<Rightarrow> bool option) \<Rightarrow> json list \<Rightarrow> string option \<Rightarrow> json_step list \<Rightarrow> json \<Rightarrow> bool" where
  "open_path rx schemas field [] v = True"
| "open_path rx schemas field (Key k # p) (JObj kvs) =
     (\<not> is_sensitive_field field schemas \<and>
      (case map_of kvs k of None \<Rightarrow> False | Some v \<Rightarrow> open_path rx (child_schemas rx schemas k) (Some k) p v))"
| "open_path rx schemas field (Index i # p) (JArr xs) =
     (\<not> is_sensitive_field field schemas \<and> i < length xs \<and> open_path rx (item_schemas schemas) field p (xs ! i))"
| "open_path rx schemas field _ v = False"

fun secret_path ::
    "(string \<Rightarrow> string \<Rightarrow> bool option) \<Rightarrow> json list \<Rightarrow> string option \<Rightarrow> json_step list \<Rightarrow> json \<Rightarrow> bool" where
  "secret_path rx schemas field (Key k # p) (JObj kvs) =
     (is_sensitive_field field schemas \<or>
      (case map_of kvs k of None \<Rightarrow> False | Some v \<Rightarrow> secret_path rx (child_schemas rx schemas k) (Some k) p v))"
| "secret_path rx schemas field (Index i # p) (JArr xs) =
     (is_sensitive_field field schemas \<or>
      (i < length xs \<and> secret_path rx (item_schemas schemas) field p (xs ! i)))"
| "secret_path rx schemas field p v = is_sensitive_field field schemas"

lemma redact_sensitive: "is_sensitive_field field schemas \<Longrightarrow> redact rx schemas field v = JStr redaction_marker"
  by (cases v) simp_all

lemma redact_hides:
  "distinct_keys v \<Longrightarrow> secret_path rx schemas field p v \<Longrightarrow>
     redact rx schemas field (replace_at p w v) = redact rx schemas field v"
proof (induction rx schemas field p v rule: secret_path.induct)
  case (1 rx schemas field k p kvs)
  show ?case
  proof (cases "is_sensitive_field field schemas")
    case False
    then obtain v where v: "map_of kvs k = Some v" "secret_path rx (child_schemas rx schemas k) (Some k) p v"
      using "1.prems"(2) by (auto split: option.splits)
    have "distinct_keys v" using "1.prems"(1) map_of_SomeD[OF v(1)] by auto
    then have IH: "redact rx (child_schemas rx schemas k) (Some k) (replace_at p w v) = redact rx (child_schemas rx schemas k) (Some k) v"
      using "1.IH"[OF v(1)] v(2) by blast
    have "v' = v" if "(k, v') \<in> set kvs" for v'
      using that v(1) "1.prems"(1) by simp
    then show ?thesis using False IH by auto
  qed (simp add: redact_sensitive)
next
  case (2 rx schemas field i p xs)
  show ?case
  proof (cases "is_sensitive_field field schemas")
    case False
    then show ?thesis using 2 by (auto simp: map_update list_update_same_conv)
  qed (simp add: redact_sensitive)
qed (auto simp: redact_sensitive)

lemma restore_clean:
  "\<not> contains_placeholder v \<Longrightarrow> restore_secrets v source = Inr v"
  "\<forall>kv\<in>set kvs. \<not> contains_placeholder (snd kv) \<Longrightarrow> restore_fields kvs src = Inr kvs"
  "\<forall>v\<in>set vs. \<not> contains_placeholder v \<Longrightarrow> restore_items vs i items = Inr vs"
  by (induction v source and kvs src and vs i items rule: restore_secrets_restore_fields_restore_items.induct)
    (auto simp: case_prod_beta)

lemma restore_items_map2:
  assumes "\<And>j. j < length xs \<Longrightarrow> restore_secrets (f j) (Some (xs ! j)) = Inr (h j)"
  shows "restore_items (map f [0..<length xs]) 0 xs = Inr (map h [0..<length xs])"
proof -
  have "n \<le> length xs \<Longrightarrow> restore_items (map f [n..<length xs]) n xs = Inr (map h [n..<length xs])" for n
  proof (induction "length xs - n" arbitrary: n)
    case (Suc d)
    have at: "item_at j ys = Some (ys ! j)" if "j < length ys" for j and ys :: "json list"
      using that by (induction j ys rule: item_at.induct) auto
    have "[n..<length xs] = n # [Suc n..<length xs]" using Suc by (simp add: upt_rec)
    moreover have "restore_items (map f [Suc n..<length xs]) (Suc n) xs = Inr (map h [Suc n..<length xs])"
      using Suc by simp
    ultimately show ?case using assms[of n] at[of n xs] Suc by simp
  qed simp
  then show ?thesis by simp
qed

lemma restore_edited:
  assumes "\<not> contains_placeholder w"
  shows "distinct_keys v \<Longrightarrow> open_path rx schemas field p v \<Longrightarrow>
     restore_secrets (replace_at p w (redact rx schemas field v)) (Some v) = Inr (replace_at p w v)"
proof (induction rx schemas field p v rule: open_path.induct)
  case (1 rx schemas field v)
  then show ?case using restore_clean(1)[OF assms] by simp
next
  case (2 rx schemas field k p kvs)
  then obtain v where v: "map_of kvs k = Some v" "open_path rx (child_schemas rx schemas k) (Some k) p v"
    and sens: "\<not> is_sensitive_field field schemas" by (auto split: option.splits)
  have "distinct_keys v" using "2.prems"(1) map_of_SomeD[OF v(1)] by auto
  then have IH: "restore_secrets (replace_at p w (redact rx (child_schemas rx schemas k) (Some k) v)) (Some v) = Inr (replace_at p w v)"
    using "2.IH"[OF v(1)] v(2) by blast
  have "restore_fields (map (\<lambda>(k', v). (k', if k' = k then replace_at p w (redact rx (child_schemas rx schemas k') (Some k') v)
      else redact rx (child_schemas rx schemas k') (Some k') v)) kvs) kvs =
      Inr (map (\<lambda>(k', v). (k', if k' = k then replace_at p w v else v)) kvs)"
  proof (rule restore_fields_map[where g = "\<lambda>k v. v"])
    fix k' v' assume kv: "(k', v') \<in> set kvs"
    then have v': "map_of kvs k' = Some v'" "distinct_keys v'" using "2.prems" by auto
    show "map_of kvs k' = Some v' \<and> restore_secrets (if k' = k then replace_at p w (redact rx (child_schemas rx schemas k') (Some k') v')
        else redact rx (child_schemas rx schemas k') (Some k') v') (Some v') = Inr (if k' = k then replace_at p w v' else v')"
      using v' v(1) IH restore_redacted[OF v'(2)] by (cases "k' = k") auto
  qed
  moreover have "replace_at (Key k # p) w (redact rx schemas field (JObj kvs)) = JObj (map (\<lambda>(k', v).
      (k', if k' = k then replace_at p w (redact rx (child_schemas rx schemas k') (Some k') v)
           else redact rx (child_schemas rx schemas k') (Some k') v)) kvs)"
    using sens by auto
  ultimately show ?case by simp
next
  case (3 rx schemas field i p xs)
  let ?r = "redact rx (item_schemas schemas) field"
  let ?f = "\<lambda>j. if j = i then replace_at p w (?r (xs ! j)) else ?r (xs ! j)"
  let ?h = "\<lambda>j. if j = i then replace_at p w (xs ! j) else xs ! j"
  have i: "i < length xs" "\<not> is_sensitive_field field schemas" "open_path rx (item_schemas schemas) field p (xs ! i)"
    using "3.prems"(2) by simp_all
  have "restore_secrets (?f j) (Some (xs ! j)) = Inr (?h j)" if "j < length xs" for j
    using 3 i that restore_redacted[of "xs ! j" rx "item_schemas schemas" field] by simp
  then have "restore_items (map ?f [0..<length xs]) 0 xs = Inr (map ?h [0..<length xs])"
    by (rule restore_items_map2)
  moreover have "map ?f [0..<length xs] = (map ?r xs)[i := replace_at p w (?r (xs ! i))]"
    "map ?h [0..<length xs] = xs[i := replace_at p w (xs ! i)]"
    using i(1) by (auto intro!: nth_equalityI simp: nth_list_update)
  ultimately show ?case using i by simp
qed simp_all

lemma merge_not_obj: "\<not> is_obj w \<Longrightarrow> merge_config source w = w"
  by simp

lemma merge_edited:
  assumes "\<not> is_obj w"
  shows "distinct_keys v \<Longrightarrow> open_path rx schemas field p v \<Longrightarrow>
     merge_config (Some v) (replace_at p w (redact rx schemas field v)) = replace_at p w (redact rx schemas field v)"
proof (induction rx schemas field p v rule: open_path.induct)
  case (2 rx schemas field k p kvs)
  then obtain v where v: "map_of kvs k = Some v" "open_path rx (child_schemas rx schemas k) (Some k) p v"
    and sens: "\<not> is_sensitive_field field schemas" by (auto split: option.splits)
  let ?f = "\<lambda>k' v. if k' = k then replace_at p w (redact rx (child_schemas rx schemas k') (Some k') v)
      else redact rx (child_schemas rx schemas k') (Some k') v"
  have "distinct_keys v" using "2.prems"(1) map_of_SomeD[OF v(1)] by auto
  then have IH: "merge_config (Some v) (replace_at p w (redact rx (child_schemas rx schemas k) (Some k) v)) =
      replace_at p w (redact rx (child_schemas rx schemas k) (Some k) v)"
    using "2.IH"[OF v(1)] v(2) by blast
  have "merge_fields kvs (map (\<lambda>(k', v). (k', ?f k' v)) kvs) ([] @ kvs) = [] @ map (\<lambda>(k', v). (k', ?f k' v)) kvs"
  proof (rule merge_fields_map)
    fix k' v' assume kv: "(k', v') \<in> set kvs"
    then have v': "map_of kvs k' = Some v'" "distinct_keys v'" using "2.prems" by auto
    show "merge_config (map_of kvs k') (?f k' v') = ?f k' v'"
      using v' v(1) IH merge_redacted[OF v'(2)] by (cases "k' = k") auto
  qed (use "2.prems" in simp)
  moreover have "replace_at (Key k # p) w (redact rx schemas field (JObj kvs)) = JObj (map (\<lambda>(k', v). (k', ?f k' v)) kvs)"
    using sens by auto
  ultimately show ?case by simp
qed (simp_all add: merge_not_obj[OF assms] merge_not_obj)

section \<open>Properties\<close>

text \<open>A draft posted back as it was shown gives the configuration of its source again.\<close>

lemma edited_unchanged:
  assumes "distinct_keys config" "redact_config rx schema config = Inr draft"
  shows "edited_config config draft = Inr config"
proof -
  have "draft = redact rx [schema] None config"
    using assms(2) by (simp add: redact_config_def Let_def split: if_split_asm)
  then show ?thesis using merge_redacted restore_redacted assms(1) by (simp add: edited_config_def)
qed

text \<open>
  An edit of a draft changes what was edited and nothing else: putting a scalar or a list
  without placeholders at any place the draft shows, or over a placeholder, gives the
  configuration of the source with that value at that place and all its secrets.
\<close>

theorem draft_edit_changes_one_place:
  assumes "distinct_keys config" "redact_config rx schema config = Inr draft"
    and "open_path rx [schema] None p config" "\<not> is_obj w" "\<not> contains_placeholder w"
  shows "edited_config config (replace_at p w draft) = Inr (replace_at p w config)"
proof -
  have "draft = redact rx [schema] None config"
    using assms(2) by (simp add: redact_config_def Let_def split: if_split_asm)
  then show ?thesis
    using merge_edited[OF assms(4,1,3)] restore_edited[OF assms(5,1,3)] by (simp add: edited_config_def)
qed


text \<open>
  The secrets of a list are returned by position.  When the first of two entries is deleted
  from the draft, the remaining entry silently gets the secret of the deleted one.
\<close>

theorem deleted_item_shifts_secrets:
  assumes "name \<noteq> ''password''" "user2 \<noteq> redaction_marker"
    and source: "source = JObj [(key, JArr [JObj [(name, JStr user1), (''password'', JStr secret1)],
        JObj [(name, JStr user2), (''password'', JStr secret2)]])]"
  shows "edited_config source (JObj [(key, JArr [JObj [(name, JStr user2), (''password'', JStr redaction_marker)]])]) =
     Inr (JObj [(key, JArr [JObj [(name, JStr user2), (''password'', JStr secret1)]])])"
  using assms by (simp add: edited_config_def)

text \<open>
  A schema that marks a field as write-only through a reference does not protect it: the
  draft shows the value in the clear, whatever the referenced definition says.
\<close>

theorem referenced_secret_is_shown:
  assumes "\<not> secret_name key"
    and schema: "schema = JObj [(''properties'', JObj [(key, JObj [(''$ref'', JStr ''#/$defs/secret'')])]),
        (''$defs'', JObj [(''secret'', JObj [(''writeOnly'', JBool True)])])]"
  shows "redact_config rx schema (JObj [(key, JStr secret)]) = Inr (JObj [(key, JStr secret)])"
proof -
  have plain: "schema_variants s = [s]" if "schema_branches s = []" for s
    using that by (subst schema_variants.simps) simp
  have "schema_variants schema = [schema]"
    by (rule plain) (simp add: schema schema_branches_def schema_combiners_def json_get_def)
  moreover have "schema_variants (JObj [(''$ref'', JStr ''#/$defs/secret'')]) = [JObj [(''$ref'', JStr ''#/$defs/secret'')]]"
    by (rule plain) (simp add: schema_branches_def schema_combiners_def json_get_def)
  ultimately show ?thesis using assms(1)
    by (simp add: redact_config_def is_sensitive_field_def child_schemas_def variant_children_def
        sensitive_variant_def Let_def schema json_get_def)
qed

section \<open>Concrete instances\<close>

definition sample_schema :: json where
  "sample_schema = JObj [(''properties'', JObj [(''endpoint'', JObj []),
     (''key'', JObj [(''allOf'', JArr [JObj [(''writeOnly'', JBool True)]])])])]"

definition sample_config :: json where
  "sample_config = JObj [(''endpoint'', JStr ''e''), (''key'', JStr ''k''), (''API-Key'', JStr ''a'')]"

definition sample_draft :: json where
  "sample_draft = JObj [(''endpoint'', JStr ''e''), (''key'', JStr redaction_marker), (''API-Key'', JStr redaction_marker)]"

lemma sample_config_distinct: "distinct_keys sample_config"
  by (simp add: sample_config_def)

lemma sample_not_sensitive: "\<not> is_sensitive_field None [sample_schema]"
  by code_simp

lemma sample_redacted: "redact_config (\<lambda>p k. None) sample_schema sample_config = Inr sample_draft"
  by code_simp

theorem draft_edit_changes_one_place_witness:
  "edited_config sample_config (replace_at [Key ''endpoint''] (JStr ''f'') sample_draft) =
     Inr (JObj [(''endpoint'', JStr ''f''), (''key'', JStr ''k''), (''API-Key'', JStr ''a'')])"
proof -
  have "open_path (\<lambda>p k. None) [sample_schema] None [Key ''endpoint''] sample_config"
    using sample_not_sensitive by (simp add: sample_config_def)
  then have "edited_config sample_config (replace_at [Key ''endpoint''] (JStr ''f'') sample_draft) =
      Inr (replace_at [Key ''endpoint''] (JStr ''f'') sample_config)"
    by (rule draft_edit_changes_one_place[OF sample_config_distinct sample_redacted])
      (simp_all add: redaction_marker_def)
  then show ?thesis by (simp add: sample_config_def)
qed


theorem deleted_item_shifts_secrets_witness:
  "edited_config (JObj [(''a'', JArr [JObj [(''user'', JStr ''u1''), (''password'', JStr ''p1'')],
        JObj [(''user'', JStr ''u2''), (''password'', JStr ''p2'')]])])
     (JObj [(''a'', JArr [JObj [(''user'', JStr ''u2''), (''password'', JStr redaction_marker)]])]) =
   Inr (JObj [(''a'', JArr [JObj [(''user'', JStr ''u2''), (''password'', JStr ''p1'')]])])"
  by (rule deleted_item_shifts_secrets[OF _ _ refl]) (simp_all add: redaction_marker_def)

theorem referenced_secret_is_shown_witness:
  "\<exists>schema. redact_config (\<lambda>p k. None) schema (JObj [(''pin'', JStr ''1234'')]) = Inr (JObj [(''pin'', JStr ''1234'')]) \<and>
     json_get (json_get (json_get schema ''$defs'') ''secret'') ''writeOnly'' = JBool True"
proof -
  have "\<not> secret_name ''pin''" by code_simp
  from referenced_secret_is_shown[OF this refl] show ?thesis
    by (intro exI[where x = "JObj [(''properties'', JObj [(''pin'', JObj [(''$ref'', JStr ''#/$defs/secret'')])]),
        (''$defs'', JObj [(''secret'', JObj [(''writeOnly'', JBool True)])])]"]) (simp add: json_get_def)
qed

end
