(* ===== verification/Plugin_Package.thy ===== *)
theory Plugin_Package
  imports Manifest Outbox
begin

text \<open>
  Loading a plugin package (\<open>load_plugin_manifest\<close> of \<open>plugins/manifest.py\<close>): its
  limits, its manifest, its entry point, and the hash that identifies its content.  The
  directory tree is a value, with the files \<open>rglob\<close> finds below it; the TOML parser is a
  parameter, \<open>None\<close> where reading or parsing fails.
\<close>

section \<open>Bytes\<close>

primrec be_bytes :: "nat \<Rightarrow> nat \<Rightarrow> 8 word list" where
  "be_bytes 0 n = []"
| "be_bytes (Suc k) n = be_bytes k (n div 256) @ [word_of_nat (n mod 256)]"

definition utf8_char :: "char \<Rightarrow> 8 word list" where
  "utf8_char c = (let n = (of_char c :: nat) in
     if n < 128 then [word_of_nat n] else [word_of_nat (192 + n div 64), word_of_nat (128 + n mod 64)])"

definition utf8 :: "string \<Rightarrow> 8 word list" where
  "utf8 s = concat (map utf8_char s)"

section \<open>The files of a package\<close>

text \<open>A path below the root is the list of its components.\<close>

type_synonym rel_path = "string list"

datatype package_root = NoSuchPath | NotADirectory | Tree "string list" "(rel_path \<times> 8 word list) list"

definition max_package_files :: nat where
  "max_package_files = 1000"

definition max_package_bytes :: nat where
  "max_package_bytes = 20 * 1024 * 1024"

definition posix :: "rel_path \<Rightarrow> string" where
  "posix p = join ''/'' p"

text \<open>\<open>path.suffix\<close>: from the last dot, unless the name starts or ends with it.\<close>

definition suffix :: "string \<Rightarrow> string" where
  "suffix name =
     (let tail = takeWhile (\<lambda>c. c \<noteq> CHR ''.'') (rev name); pre = drop (Suc (length tail)) (rev name)
      in if tail = [] \<or> pre = [] then [] else CHR ''.'' # rev tail)"

definition counted_files :: "string list \<Rightarrow> (rel_path \<times> 8 word list) list \<Rightarrow> (rel_path \<times> 8 word list) list" where
  "counted_files base fs =
     filter (\<lambda>(p, c). ''__pycache__'' \<notin> set (base @ p) \<and> suffix (last p) \<noteq> ''.pyc'') fs"

fun split_char :: "char \<Rightarrow> string \<Rightarrow> string list" where
  "split_char d [] = [[]]"
| "split_char d (c # cs) =
     (if c = d then [] # split_char d cs
      else case split_char d cs of [] \<Rightarrow> [[c]] | w # ws \<Rightarrow> (c # w) # ws)"

definition module_files :: "string \<Rightarrow> rel_path list" where
  "module_files entrypoint =
     (let parts = split_char (CHR ''.'') (fst (partition_on '':'' entrypoint))
      in [butlast parts @ [last parts @ ''.py''], parts @ [''__init__.py'']])"

section \<open>The hash of a package\<close>

definition file_frame :: "string \<times> 8 word list \<Rightarrow> 8 word list" where
  "file_frame = (\<lambda>(name, content).
     be_bytes 4 (length (utf8 name)) @ utf8 name @ be_bytes 8 (length content) @ content)"

definition named_files :: "(rel_path \<times> 8 word list) list \<Rightarrow> (string \<times> 8 word list) list" where
  "named_files fs = sort_key fst (map (\<lambda>(p, c). (posix p, c)) fs)"

definition package_digest :: "env \<Rightarrow> (rel_path \<times> 8 word list) list \<Rightarrow> string" where
  "package_digest E fs = sha256_bytes E (concat (map file_frame (named_files fs)))"

section \<open>Loading\<close>

definition load_plugin_manifest ::
    "env \<Rightarrow> (8 word list \<Rightarrow> json option) \<Rightarrow> package_root \<Rightarrow> (string, plugin_manifest \<times> string) res" where
  "load_plugin_manifest E toml package =
     (case package of
        NoSuchPath \<Rightarrow> Inl ''FileNotFoundError''
      | NotADirectory \<Rightarrow> Inl ''plugin package path must be a directory''
      | Tree base fs \<Rightarrow>
          (case map_of fs [''manifest.toml''] of
             None \<Rightarrow> Inl ''plugin package is missing manifest.toml''
           | Some text \<Rightarrow>
               let files = counted_files base fs in
               if max_package_files < length files then Inl ''plugin package contains too many files''
               else if max_package_bytes < sum_list (map (\<lambda>(p, c). length c) files)
               then Inl ''plugin package is too large''
               else case Option.bind (toml text) (validate_manifest E) of
                 None \<Rightarrow> Inl ''plugin manifest is invalid''
               | Some m \<Rightarrow>
                   if \<forall>p\<in>set (module_files (mf_entrypoint m)). map_of fs p = None
                   then Inl ''plugin entrypoint module does not exist in the package''
                   else if \<exists>(p, c)\<in>set files. 2 ^ 32 \<le> length (utf8 (posix p)) then Inl ''OverflowError''
                   else Inr (m, package_digest E files)))"

section \<open>The hash identifies the content\<close>

lemma length_be_bytes [simp]: "length (be_bytes k n) = k"
  by (induction k arbitrary: n) auto

lemma word8_inj: "m < 256 \<Longrightarrow> n < 256 \<Longrightarrow> (word_of_nat m :: 8 word) = word_of_nat n \<Longrightarrow> m = n"
  by (simp add: word_of_nat_eq_iff take_bit_eq_mod)

lemma be_bytes_inj: "m < 256 ^ k \<Longrightarrow> n < 256 ^ k \<Longrightarrow> be_bytes k m = be_bytes k n \<Longrightarrow> m = n"
proof (induction k arbitrary: m n)
  case (Suc k)
  have "be_bytes k (m div 256) = be_bytes k (n div 256)" "m mod 256 = n mod 256"
    using Suc.prems(3) word8_inj[of "m mod 256" "n mod 256"] by auto
  moreover have "m div 256 < 256 ^ k" "n div 256 < 256 ^ k"
    using Suc.prems(1,2) by (simp_all add: less_mult_imp_div_less mult.commute)
  ultimately have "m div 256 = n div 256" "m mod 256 = n mod 256" using Suc.IH by blast+
  then show ?case by (metis div_mult_mod_eq)
qed simp

lemma utf8_char_inj: "utf8_char c @ xs = utf8_char d @ ys \<Longrightarrow> c = d \<and> xs = ys"
proof -
  let ?m = "of_char c :: nat" and ?n = "of_char d :: nat"
  assume eq: "utf8_char c @ xs = utf8_char d @ ys"
  have lt: "?m < 256" "?n < 256" by simp_all
  have first: "(192 + k div 64 :: nat) < 256" "(128 + k mod 64 :: nat) < 256" if "k < 256" for k :: nat
    using that by auto
  have "?m = ?n \<and> xs = ys"
  proof (cases "?m < 128"; cases "?n < 128")
    assume "?m < 128" "?n < 128"
    then show ?thesis using eq lt word8_inj[of ?m ?n] by (simp add: utf8_char_def)
  next
    assume c: "?m < 128" "\<not> ?n < 128"
    then have "(word_of_nat ?m :: 8 word) = word_of_nat (192 + ?n div 64)" using eq by (simp add: utf8_char_def Let_def)
    then show ?thesis using word8_inj[of ?m "192 + ?n div 64"] lt first[of ?n] c by simp
  next
    assume c: "\<not> ?m < 128" "?n < 128"
    then have "(word_of_nat ?n :: 8 word) = word_of_nat (192 + ?m div 64)" using eq by (simp add: utf8_char_def Let_def)
    then show ?thesis using word8_inj[of ?n "192 + ?m div 64"] lt first[of ?m] c by simp
  next
    assume "\<not> ?m < 128" "\<not> ?n < 128"
    then have "(word_of_nat (192 + ?m div 64) :: 8 word) = word_of_nat (192 + ?n div 64)"
      "(word_of_nat (128 + ?m mod 64) :: 8 word) = word_of_nat (128 + ?n mod 64)" "xs = ys"
      using eq by (simp_all add: utf8_char_def Let_def)
    then have "?m div 64 = ?n div 64" "?m mod 64 = ?n mod 64" "xs = ys"
      using word8_inj[of "192 + ?m div 64" "192 + ?n div 64"] word8_inj[of "128 + ?m mod 64" "128 + ?n mod 64"]
        first lt by auto
    then show ?thesis by (metis div_mult_mod_eq)
  qed
  then show ?thesis by simp
qed

lemma utf8_inj: "utf8 s = utf8 t \<Longrightarrow> s = t"
proof (induction s arbitrary: t)
  case Nil
  then show ?case by (cases t) (auto simp: utf8_def utf8_char_def Let_def split: if_splits)
next
  case (Cons c s)
  then obtain d t' where t: "t = d # t'"
    by (cases t) (auto simp: utf8_def utf8_char_def Let_def split: if_splits)
  have "utf8_char c @ utf8 s = utf8_char d @ utf8 t'" using Cons.prems by (simp add: utf8_def t)
  then show ?case using utf8_char_inj Cons.IH t by metis
qed

definition frame_fits :: "string \<times> 8 word list \<Rightarrow> bool" where
  "frame_fits f \<longleftrightarrow> length (utf8 (fst f)) < 2 ^ 32 \<and> length (snd f) < 2 ^ 64"

lemma file_frame_inj:
  assumes "frame_fits a" "frame_fits b" "file_frame a @ xs = file_frame b @ ys"
  shows "a = b \<and> xs = ys"
proof -
  obtain m c where a: "a = (m, c)" by (cases a)
  obtain n d where b: "b = (n, d)" by (cases b)
  have eq: "be_bytes 4 (length (utf8 m)) @ utf8 m @ be_bytes 8 (length c) @ c @ xs =
      be_bytes 4 (length (utf8 n)) @ utf8 n @ be_bytes 8 (length d) @ d @ ys"
    using assms(3) by (simp add: file_frame_def a b)
  then have "be_bytes 4 (length (utf8 m)) = be_bytes 4 (length (utf8 n))"
    and r1: "utf8 m @ be_bytes 8 (length c) @ c @ xs = utf8 n @ be_bytes 8 (length d) @ d @ ys"
    by (simp_all add: append_eq_append_conv)
  then have "length (utf8 m) = length (utf8 n)"
    using be_bytes_inj[of "length (utf8 m)" 4 "length (utf8 n)"] assms(1,2) by (simp add: frame_fits_def a b)
  then have "utf8 m = utf8 n" and r2: "be_bytes 8 (length c) @ c @ xs = be_bytes 8 (length d) @ d @ ys"
    using r1 by (simp_all add: append_eq_append_conv)
  then have "be_bytes 8 (length c) = be_bytes 8 (length d)" and r3: "c @ xs = d @ ys"
    by (simp_all add: append_eq_append_conv)
  then have "length c = length d"
    using be_bytes_inj[of "length c" 8 "length d"] assms(1,2) by (simp add: frame_fits_def a b)
  then show ?thesis using r3 utf8_inj[OF \<open>utf8 m = utf8 n\<close>] by (simp add: a b)
qed

lemma frames_inj:
  "\<forall>f\<in>set fs. frame_fits f \<Longrightarrow> \<forall>g\<in>set gs. frame_fits g \<Longrightarrow>
     concat (map file_frame fs) = concat (map file_frame gs) \<Longrightarrow> fs = gs"
proof (induction fs arbitrary: gs)
  case Nil
  have "length (file_frame g) \<ge> 12" for g by (cases g) (simp add: file_frame_def)
  then have "file_frame g \<noteq> []" for g by (metis list.size(3) not_numeral_le_zero)
  then show ?case using Nil by (cases gs) auto
next
  case (Cons f fs)
  have "length (file_frame g) \<ge> 12" for g by (cases g) (simp add: file_frame_def)
  then have ne: "file_frame g \<noteq> []" for g by (metis list.size(3) not_numeral_le_zero)
  obtain g gs' where gs: "gs = g # gs'" using Cons.prems(3) ne by (cases gs) auto
  have "f = g \<and> concat (map file_frame fs) = concat (map file_frame gs')"
    using Cons.prems by (intro file_frame_inj) (simp_all add: gs)
  then show ?case using Cons.IH[of gs'] Cons.prems gs by simp
qed

lemma load_package_Inr:
  assumes "load_plugin_manifest E toml (Tree base fs) = Inr (m, h)"
  shows "h = package_digest E (counted_files base fs)" "\<forall>f\<in>set (named_files (counted_files base fs)). frame_fits f"
proof -
  let ?files = "counted_files base fs"
  have all: "h = package_digest E ?files" "sum_list (map (\<lambda>(p, c). length c) ?files) \<le> max_package_bytes"
    "\<forall>(p, c)\<in>set ?files. length (utf8 (posix p)) < 2 ^ 32"
    using assms by (auto simp: load_plugin_manifest_def Let_def not_less split: option.split_asm if_split_asm)
  have "length c \<le> max_package_bytes" if "(p, c) \<in> set ?files" for p c
  proof -
    have "length c \<in> set (map (\<lambda>(p, c). length c) ?files)" using that by force
    then have "length c \<le> sum_list (map (\<lambda>(p, c). length c) ?files)" by (rule member_le_sum_list) simp
    then show ?thesis using all(2) by simp
  qed
  then have "frame_fits f" if "f \<in> set (named_files ?files)" for f
    using that all(3) by (fastforce simp: named_files_def frame_fits_def max_package_bytes_def)
  then show "\<forall>f\<in>set (named_files ?files). frame_fits f" by blast
  show "h = package_digest E ?files" by (rule all(1))
qed

text \<open>
  The package hash identifies what a plugin runs: if two directories load with the same hash
  and SHA-256 does not collide on their digests, they hold the same files with the same
  contents, by relative path, caches left aside.
\<close>

theorem package_hash_identifies_content:
  assumes "load_plugin_manifest E toml (Tree base fs) = Inr (m, h)"
    and "load_plugin_manifest E toml' (Tree base' gs) = Inr (m', h)"
    and no_collision: "inj_on (sha256_bytes E) {concat (map file_frame (named_files (counted_files base fs))),
        concat (map file_frame (named_files (counted_files base' gs)))}"
  shows "named_files (counted_files base fs) = named_files (counted_files base' gs)"
proof -
  note f = load_package_Inr[OF assms(1)] and g = load_package_Inr[OF assms(2)]
  have "sha256_bytes E (concat (map file_frame (named_files (counted_files base fs)))) =
      sha256_bytes E (concat (map file_frame (named_files (counted_files base' gs))))"
    using f(1) g(1) unfolding package_digest_def by (rule subst)
  from inj_onD[OF no_collision this]
  have "concat (map file_frame (named_files (counted_files base fs))) =
      concat (map file_frame (named_files (counted_files base' gs)))" by blast
  then show ?thesis using frames_inj f(2) g(2) by blast
qed

section \<open>Concrete instances\<close>

definition sample_tree :: "(rel_path \<times> 8 word list) list" where
  "sample_tree = [([''plugin.py''], [2]), ([''manifest.toml''], [1]), ([''__pycache__'', ''plugin.pyc''], [3])]"

definition sample_tree_copy :: "(rel_path \<times> 8 word list) list" where
  "sample_tree_copy = [([''manifest.toml''], [1]), ([''plugin.py''], [2])]"

lemma sample_trees_load:
  "\<exists>m. load_plugin_manifest sample_env (\<lambda>t. Some sample_manifest_json) (Tree [''opt''] sample_tree) =
       Inr (m, package_digest sample_env (counted_files [''opt''] sample_tree)) \<and>
     load_plugin_manifest sample_env (\<lambda>t. Some sample_manifest_json) (Tree [''srv''] sample_tree_copy) =
       Inr (m, package_digest sample_env (counted_files [''srv''] sample_tree_copy))"
proof -
  have "map_option mf_entrypoint (validate_manifest sample_env sample_manifest_json) = Some ''plugin:create''"
    by code_simp
  then obtain m where m: "validate_manifest sample_env sample_manifest_json = Some m" "mf_entrypoint m = ''plugin:create''"
    by auto
  have f: "module_files ''plugin:create'' = [[''plugin.py''], [''plugin'', ''__init__.py'']]" by code_simp
  have c: "counted_files [''opt''] sample_tree = [([''plugin.py''], [2]), ([''manifest.toml''], [1])]"
    "counted_files [''srv''] sample_tree_copy = sample_tree_copy" by code_simp+
  note c' = c[unfolded sample_tree_def sample_tree_copy_def]
  have u: "length (utf8 (posix [''plugin.py''])) = 9" "length (utf8 (posix [''manifest.toml''])) = 13" by code_simp+
  show ?thesis
    by (intro exI[where x = m] conjI)
      (simp_all add: load_plugin_manifest_def m f c' u Let_def max_package_files_def max_package_bytes_def
        sample_tree_def sample_tree_copy_def)
qed

theorem package_hash_identifies_content_witness:
  "named_files (counted_files [''opt''] sample_tree) = named_files (counted_files [''srv''] sample_tree_copy)"
proof -
  have "named_files (counted_files [''opt''] sample_tree) = [(''manifest.toml'', [1]), (''plugin.py'', [2])]"
    "named_files (counted_files [''srv''] sample_tree_copy) = [(''manifest.toml'', [1]), (''plugin.py'', [2])]"
    by code_simp+
  then have same: "package_digest sample_env (counted_files [''opt''] sample_tree) =
      package_digest sample_env (counted_files [''srv''] sample_tree_copy)" by (simp add: package_digest_def)
  have "inj_on (sha256_bytes sample_env) A" for A
  proof (rule inj_onI)
    fix x y assume "sha256_bytes sample_env x = sha256_bytes sample_env y"
    then have "map (\<lambda>b :: 8 word. char_of (unat b) :: char) x = map (\<lambda>b. char_of (unat b)) y" by (simp add: sample_env_def)
    moreover have "inj (\<lambda>b :: 8 word. char_of (unat b) :: char)"
    proof (rule injI)
      fix a b :: "8 word" assume "(char_of (unat a) :: char) = char_of (unat b)"
      then have "unat a mod 256 = unat b mod 256" by (simp add: char_of_eq_iff take_bit_eq_mod)
      moreover have "unat a < 256" "unat b < 256" using unsigned_less[of a, where ?'a = nat] unsigned_less[of b, where ?'a = nat] by simp_all
      ultimately show "a = b" by (simp add: word_unat_eq_iff)
    qed
    ultimately show "x = y" by (rule map_injective)
  qed
  then show ?thesis
    using sample_trees_load same package_hash_identifies_content[of sample_env "\<lambda>t. Some sample_manifest_json" "[''opt'']" sample_tree _ _
        "\<lambda>t. Some sample_manifest_json" "[''srv'']" sample_tree_copy] by metis
qed

end
