(* ===== verification/Catalog.thy ===== *)
theory Catalog
  imports Plugin_Config Plugin_Package Delivery
begin

text \<open>
  The plugin catalog (\<open>PluginCatalogService\<close> of \<open>plugins/catalog.py\<close>): installation of
  the packages shipped with the program, deployments and their revisions, activation,
  deactivation, and the restoration of running plugins at start-up.
\<close>

section \<open>The outside world\<close>

text \<open>
  The answer of the JSON-schema validator: a broken schema, or the errors of the document in the
  order of their paths, each with its absolute path and the keyword it violates.
\<close>

datatype schema_check = SchemaBroken | SchemaErrors "(string list \<times> string) list"

text \<open>
  The answer of \<open>supervisor.prepare_activation\<close>: a candidate with the requested epoch, a
  \<open>PluginRuntimeError\<close> with its text, or another exception.
\<close>

datatype prepare_answer = Prepared | RuntimeFailed string | RuntimeRaised string

text \<open>
  What an operation reads from outside the database: regular expressions, the validator,
  Fernet encryption, the JSON and TOML parsers, the file system, random tokens, the process
  supervisor, and the clock.
\<close>

record catalog_world =
  cw_regex :: "string \<Rightarrow> string \<Rightarrow> bool option"
  cw_check_config :: "json \<Rightarrow> json \<Rightarrow> schema_check"
  cw_encrypt :: "string \<Rightarrow> string"
  cw_json_loads :: "string \<Rightarrow> json option"
  cw_toml :: "8 word list \<Rightarrow> json option"
  cw_tree :: "string \<Rightarrow> package_root"
  cw_token :: "uuid \<Rightarrow> string"
  cw_prepare :: "uuid \<Rightarrow> int \<Rightarrow> prepare_answer"
  cw_deactivation_pending :: "uuid \<Rightarrow> bool"
  cw_now :: instant

text \<open>An operation on the catalog returns or raises, with the rows as it leaves them.\<close>

type_synonym 'a catalog_result = "(catalog_error, 'a) res \<times> db"

section \<open>Workspace and packages\<close>

definition workspace_context :: "db \<Rightarrow> (catalog_error, workspace) res" where
  "workspace_context s =
     (case sort_key ws_id (workspaces s) of
        [] \<Rightarrow> Inl (PluginObjectNotFoundError ''workspace not found'')
      | [w] \<Rightarrow> Inr w
      | _ \<Rightarrow> Inl (PluginCatalogError ''this release supports exactly one workspace''))"

definition builtin_packages :: "(string \<times> string) list" where
  "builtin_packages = [(''builtin.echo'', ''echo''), (''builtin.weather'', ''weather'')]"

definition find_plugin :: "db \<Rightarrow> uuid \<Rightarrow> string \<Rightarrow> plugin option" where
  "find_plugin s ws plugin_id = find (\<lambda>p. pl_workspace_id p = ws \<and> pl_plugin_id p = plugin_id) (plugins s)"

definition find_package :: "db \<Rightarrow> uuid \<Rightarrow> string \<Rightarrow> plugin_package_version option" where
  "find_package s plugin version =
     find (\<lambda>v. pv_plugin_id v = plugin \<and> pv_semantic_version v = version) (packages s)"

text \<open>The package row of a plugin, found or added.\<close>

definition install_package ::
    "env \<Rightarrow> plugin \<Rightarrow> plugin_manifest \<Rightarrow> string \<Rightarrow> string \<Rightarrow> db \<Rightarrow> (plugin \<times> plugin_package_version) catalog_result" where
  "install_package E p m hash path s =
     (case find_package s (pl_id p) (mf_version m) of
        Some v \<Rightarrow>
          if pv_package_sha256 v \<noteq> hash
          then (Inl (PluginCatalogError ''the same plugin version already exists with different content''), s)
          else (Inr (p, v), s)
      | None \<Rightarrow>
          if \<exists>v\<in>set (packages s). pv_package_sha256 v = hash then (Inl (OtherRaised ''IntegrityError''), s)
          else let (i, s1) = alloc E s;
                   v = \<lparr>pv_id = i, pv_plugin_id = pl_id p, pv_semantic_version = mf_version m,
                     pv_package_sha256 = hash, pv_manifest = manifest_json m, pv_package_path = path,
                     pv_status = Pk_AVAILABLE\<rparr>
               in (Inr (p, v), s1\<lparr>packages := packages s1 @ [v]\<rparr>))"

definition install_builtin ::
    "env \<Rightarrow> catalog_world \<Rightarrow> string \<Rightarrow> uuid \<Rightarrow> string \<Rightarrow> db \<Rightarrow> (plugin \<times> plugin_package_version) catalog_result" where
  "install_builtin E C builtin_dir ws plugin_id s =
     (if get_row ws_id ws (workspaces s) = None
      then (Inl (PluginObjectNotFoundError ''workspace not found''), s)
      else case map_of builtin_packages plugin_id of
        None \<Rightarrow> (Inl (PluginObjectNotFoundError ''builtin plugin not found''), s)
      | Some name \<Rightarrow>
          let path = builtin_dir @ ''/'' @ name in
          (case load_plugin_manifest E (cw_toml C) (cw_tree C path) of
             Inl err \<Rightarrow> (Inl (OtherRaised err), s)
           | Inr (m, hash) \<Rightarrow>
               (case find_plugin s ws (mf_plugin_id m) of
                  Some p \<Rightarrow>
                    if pl_retired_at p \<noteq> None
                    then (Inl (PluginCatalogError ''retired plugin cannot receive new packages''), s)
                    else install_package E p m hash path s
                | None \<Rightarrow>
                    let (i, s1) = alloc E s;
                        p = \<lparr>pl_id = i, pl_workspace_id = ws, pl_plugin_id = mf_plugin_id m, pl_name = mf_name m,
                          pl_description = mf_description m, pl_retired_at = None\<rparr>
                    in install_package E p m hash path (s1\<lparr>plugins := plugins s1 @ [p]\<rparr>))))"

section \<open>Revisions\<close>

definition validate_config :: "catalog_world \<Rightarrow> plugin_manifest \<Rightarrow> json \<Rightarrow> (catalog_error, unit) res" where
  "validate_config C m config =
     (case cw_check_config C (mf_config_schema m) config of
        SchemaBroken \<Rightarrow> Inl (PluginCatalogError ''plugin config schema is invalid'')
      | SchemaErrors [] \<Rightarrow> Inr ()
      | SchemaErrors ((path, validator) # _) \<Rightarrow>
          let p = join ''.'' path;
              location = (if p \<noteq> [] then '' at $.'' @ p else [])
          in Inl (PluginCatalogError (''plugin configuration is invalid'' @ location @ '' ('' @ validator @ '')'')))"

text \<open>Stored bytes are held as a string with one character per byte.\<close>

definition stored_bytes :: "string \<Rightarrow> 8 word list" where
  "stored_bytes t = map (\<lambda>c. word_of_nat (of_char c)) t"

definition revision_digest :: "env \<Rightarrow> plugin_package_version \<Rightarrow> string \<Rightarrow> json \<Rightarrow> string list \<Rightarrow> string" where
  "revision_digest E package fingerprint scope grants =
     sha256_bytes E (utf8 (pv_package_sha256 package) @ [0] @ utf8 fingerprint @ [0]
       @ utf8 (json_dumps E scope) @ [0] @ utf8 (json_dumps E (JArr (map JStr (sort (remdups grants))))))"

definition revision_numbers :: "db \<Rightarrow> uuid \<Rightarrow> int list" where
  "revision_numbers s d = map rv_revision_number (filter (\<lambda>r. rv_deployment_id r = d) (revisions s))"

definition new_revision ::
    "env \<Rightarrow> catalog_world \<Rightarrow> plugin_deployment \<Rightarrow> plugin_package_version \<Rightarrow> json \<Rightarrow> json \<Rightarrow> string list \<Rightarrow> db
     \<Rightarrow> plugin_deployment_revision catalog_result" where
  "new_revision E C d package config scope grants s =
     (case validate_manifest E (pv_manifest package) of
        None \<Rightarrow> (Inl ManifestInvalid, s)
      | Some m \<Rightarrow>
          (case validate_config C m config of
             Inl err \<Rightarrow> (Inl err, s)
           | Inr _ \<Rightarrow>
               if \<not> set grants \<subseteq> set (mf_capabilities m)
               then (Inl (PluginCatalogError ''deployment grants exceed manifest capabilities''), s)
               else (case validate_plugin_scope scope (dp_workspace_id d) of
                  Inl err \<Rightarrow> (Inl err, s)
                | Inr scope' \<Rightarrow>
                    let ciphertext = cw_encrypt C (json_dumps E config);
                        fingerprint = sha256_bytes E (stored_bytes ciphertext);
                        (i, s1) = alloc E s;
                        r = \<lparr>rv_id = i, rv_deployment_id = dp_id d, rv_package_version_id = pv_id package,
                          rv_revision_number =
                            (case list_max (revision_numbers s (dp_id d)) of None \<Rightarrow> 0 | Some n \<Rightarrow> n) + 1,
                          rv_config_ciphertext = ciphertext, rv_config_fingerprint = fingerprint,
                          rv_scope = scope', rv_grants = dedup_first grants,
                          rv_content_sha256 = revision_digest E package fingerprint scope' grants\<rparr>
                    in (Inr r, s1\<lparr>revisions := revisions s1 @ [r]\<rparr>))))"

definition decrypt_revision_config ::
    "env \<Rightarrow> catalog_world \<Rightarrow> plugin_deployment_revision \<Rightarrow> (catalog_error, json) res" where
  "decrypt_revision_config E C r =
     (case Option.bind (fernet_decrypt E (rv_config_ciphertext r)) (cw_json_loads C) of
        None \<Rightarrow> Inl (PluginCatalogError ''stored plugin configuration is invalid'')
      | Some config \<Rightarrow>
          if is_obj config then Inr config
          else Inl (PluginCatalogError ''stored plugin configuration is not an object''))"

section \<open>Deployments\<close>

record deployment_create =
  dc_workspace_id :: uuid
  dc_plugin_id :: uuid
  dc_package_version_id :: uuid
  dc_name :: string
  dc_config :: json
  dc_scope :: json
  dc_grants :: "string list"

record revision_create =
  rc_source_revision_id :: "uuid option"
  rc_package_version_id :: "uuid option"
  rc_config :: "json option"
  rc_scope :: "json option"
  rc_grants :: "string list option"

definition plugin_and_package ::
    "db \<Rightarrow> uuid \<Rightarrow> uuid \<Rightarrow> uuid \<Rightarrow> (catalog_error, plugin \<times> plugin_package_version) res" where
  "plugin_and_package s ws plugin_id package_version_id =
     (case get_row pl_id plugin_id (plugins s) of
        None \<Rightarrow> Inl (PluginObjectNotFoundError ''plugin not found in workspace'')
      | Some p \<Rightarrow>
          if pl_workspace_id p \<noteq> ws then Inl (PluginObjectNotFoundError ''plugin not found in workspace'')
          else case get_row pv_id package_version_id (packages s) of
            None \<Rightarrow> Inl (PluginObjectNotFoundError ''available plugin package not found'')
          | Some v \<Rightarrow>
              if pv_plugin_id v \<noteq> pl_id p \<or> pv_status v \<noteq> Pk_AVAILABLE
              then Inl (PluginObjectNotFoundError ''available plugin package not found'')
              else Inr (p, v))"

definition name_taken :: "db \<Rightarrow> uuid \<Rightarrow> string \<Rightarrow> bool" where
  "name_taken s ws name \<longleftrightarrow> (\<exists>d\<in>set (deployments s). dp_workspace_id d = ws \<and> dp_name d = name)"

text \<open>
  The name is looked up as it is given and stored stripped; the database enforces that the
  stored names of a workspace are unique.
\<close>

definition create_deployment ::
    "env \<Rightarrow> catalog_world \<Rightarrow> deployment_create \<Rightarrow> db
     \<Rightarrow> (plugin_deployment \<times> plugin_deployment_revision) catalog_result" where
  "create_deployment E C payload s =
     (case plugin_and_package s (dc_workspace_id payload) (dc_plugin_id payload) (dc_package_version_id payload) of
        Inl err \<Rightarrow> (Inl err, s)
      | Inr (p, v) \<Rightarrow>
          if name_taken s (dc_workspace_id payload) (dc_name payload)
          then (Inl (PluginCatalogError ''deployment name already exists''), s)
          else if name_taken s (dc_workspace_id payload) (strip (dc_name payload))
          then (Inl (OtherRaised ''IntegrityError''), s)
          else let (i, s1) = alloc E s;
                   d = \<lparr>dp_id = i, dp_workspace_id = dc_workspace_id payload, dp_plugin_id = pl_id p,
                     dp_name = strip (dc_name payload), dp_status = Dp_STOPPED, dp_active_revision_id = None,
                     dp_last_error = None, dp_created_at = cw_now C\<rparr>
               in apfst (map_sum id (Pair d))
                    (new_revision E C d v (dc_config payload) (dc_scope payload) (dc_grants payload)
                      (s1\<lparr>deployments := deployments s1 @ [d]\<rparr>)))"

text \<open>The source revision a new revision of a deployment starts from, with its configuration.\<close>

definition source_of ::
    "env \<Rightarrow> catalog_world \<Rightarrow> db \<Rightarrow> uuid \<Rightarrow> uuid option
     \<Rightarrow> (catalog_error, (plugin_deployment_revision \<times> json) option) res" where
  "source_of E C s deployment_id source_id =
     (case source_id of
        None \<Rightarrow> Inr None
      | Some i \<Rightarrow>
          (case get_row rv_id i (revisions s) of
             None \<Rightarrow> Inl (PluginObjectNotFoundError ''source plugin deployment revision not found'')
           | Some r \<Rightarrow>
               if rv_deployment_id r \<noteq> deployment_id
               then Inl (PluginObjectNotFoundError ''source plugin deployment revision not found'')
               else bind_res (decrypt_revision_config E C r) (\<lambda>config. Inr (Some (r, config)))))"

text \<open>The configuration, scope and grants of a new revision.\<close>

definition revision_content ::
    "(plugin_deployment_revision \<times> json) option \<Rightarrow> revision_create
     \<Rightarrow> (catalog_error, json \<times> json \<times> string list) res" where
  "revision_content source payload =
     (case source of
        None \<Rightarrow>
          let config = (case rc_config payload of None \<Rightarrow> JObj [] | Some j \<Rightarrow> j) in
          if contains_placeholder config
          then Inl (PluginCatalogError ''secret placeholder requires a source revision'')
          else Inr (config, (case rc_scope payload of None \<Rightarrow> JObj [] | Some j \<Rightarrow> j),
                    (case rc_grants payload of None \<Rightarrow> [] | Some g \<Rightarrow> g))
      | Some (r, source_config) \<Rightarrow>
          bind_res (case rc_config payload of None \<Rightarrow> Inr source_config | Some j \<Rightarrow> edited_config source_config j)
            (\<lambda>config. Inr (config, (case rc_scope payload of None \<Rightarrow> rv_scope r | Some j \<Rightarrow> j),
                           (case rc_grants payload of None \<Rightarrow> rv_grants r | Some g \<Rightarrow> g))))"

definition create_revision ::
    "env \<Rightarrow> catalog_world \<Rightarrow> uuid \<Rightarrow> revision_create \<Rightarrow> db \<Rightarrow> plugin_deployment_revision catalog_result" where
  "create_revision E C deployment_id payload s =
     (case get_row dp_id deployment_id (deployments s) of
        None \<Rightarrow> (Inl (PluginObjectNotFoundError ''plugin deployment not found''), s)
      | Some d \<Rightarrow>
          (case source_of E C s deployment_id (rc_source_revision_id payload) of
             Inl err \<Rightarrow> (Inl err, s)
           | Inr source \<Rightarrow>
               (case (case rc_package_version_id payload of
                        None \<Rightarrow> map_option (\<lambda>rc. rv_package_version_id (fst rc)) source | Some i \<Rightarrow> Some i) of
                  None \<Rightarrow> (Inl (PluginCatalogError ''package_version_id is required when source_revision_id is not provided''), s)
                | Some package_id \<Rightarrow>
                    (case get_row pv_id package_id (packages s) of
                       None \<Rightarrow> (Inl (PluginObjectNotFoundError ''available plugin package not found''), s)
                     | Some v \<Rightarrow>
                         if pv_status v \<noteq> Pk_AVAILABLE
                         then (Inl (PluginObjectNotFoundError ''available plugin package not found''), s)
                         else if pv_plugin_id v \<noteq> dp_plugin_id d
                         then (Inl (PluginCatalogError ''package belongs to a different plugin''), s)
                         else (case revision_content source payload of
                                 Inl err \<Rightarrow> (Inl err, s)
                               | Inr (config, scope, grants) \<Rightarrow> new_revision E C d v config scope grants s)))))"

definition revision_draft ::
    "env \<Rightarrow> catalog_world \<Rightarrow> uuid \<Rightarrow> uuid \<Rightarrow> db \<Rightarrow> (catalog_error, plugin_deployment_revision \<times> json) res" where
  "revision_draft E C deployment_id revision_id s =
     (case (get_row dp_id deployment_id (deployments s), get_row rv_id revision_id (revisions s)) of
        (Some d, Some r) \<Rightarrow>
          if rv_deployment_id r \<noteq> deployment_id
          then Inl (PluginObjectNotFoundError ''plugin deployment revision not found'')
          else (case get_row pv_id (rv_package_version_id r) (packages s) of
             None \<Rightarrow> Inl (PluginObjectNotFoundError ''plugin package not found'')
           | Some v \<Rightarrow>
               if pv_plugin_id v \<noteq> dp_plugin_id d then Inl (PluginObjectNotFoundError ''plugin package not found'')
               else (case validate_manifest E (pv_manifest v) of
                  None \<Rightarrow> Inl ManifestInvalid
                | Some m \<Rightarrow>
                    bind_res (decrypt_revision_config E C r) (\<lambda>config.
                    bind_res (redact_config (cw_regex C) (mf_config_schema m) config) (\<lambda>draft. Inr (r, draft)))))
      | _ \<Rightarrow> Inl (PluginObjectNotFoundError ''plugin deployment revision not found''))"

section \<open>Activation\<close>

text \<open>
  \<open>_launch_spec\<close>: the package on disk must be the one that was verified.  An
  exception that is no \<open>ValueError\<close> is not taken for a failed candidate.
\<close>

definition uncaught_load_errors :: "string set" where
  "uncaught_load_errors = {''FileNotFoundError'', ''OverflowError''}"

definition launch_spec ::
    "env \<Rightarrow> catalog_world \<Rightarrow> plugin_package_version \<Rightarrow> plugin_deployment_revision
     \<Rightarrow> (catalog_error, plugin_manifest \<times> json) res" where
  "launch_spec E C package r =
     (case load_plugin_manifest E (cw_toml C) (cw_tree C (pv_package_path package)) of
        Inl err \<Rightarrow> Inl (if err \<in> uncaught_load_errors then OtherRaised err else PluginCatalogError err)
      | Inr (m, hash) \<Rightarrow>
          if hash \<noteq> pv_package_sha256 package
          then Inl (PluginCatalogError ''plugin package changed after verification'')
          else bind_res (decrypt_revision_config E C r) (\<lambda>config. Inr (m, config)))"

text \<open>Starting the candidate: \<open>Inr None\<close> if it runs, \<open>Inr (Some detail)\<close> if it failed.\<close>

definition start_candidate ::
    "env \<Rightarrow> catalog_world \<Rightarrow> plugin_package_version \<Rightarrow> plugin_deployment_revision \<Rightarrow> uuid \<Rightarrow> int
     \<Rightarrow> (catalog_error, string option) res" where
  "start_candidate E C package r deployment_id epoch =
     (case launch_spec E C package r of
        Inl (PluginCatalogError detail) \<Rightarrow> Inr (Some detail)
      | Inl err \<Rightarrow> Inl err
      | Inr spec \<Rightarrow>
          (case cw_prepare C deployment_id epoch of
             Prepared \<Rightarrow> Inr None
           | RuntimeFailed detail \<Rightarrow> Inr (Some detail)
           | RuntimeRaised err \<Rightarrow> Inl (OtherRaised err)))"

definition next_activation_epoch :: "db \<Rightarrow> uuid \<Rightarrow> int" where
  "next_activation_epoch s d =
     (case list_max (map pa_activation_epoch (filter (\<lambda>a. pa_deployment_id a = d) (activations s))) of
        None \<Rightarrow> 0 | Some n \<Rightarrow> n) + 1"

definition put_deployment :: "plugin_deployment \<Rightarrow> db \<Rightarrow> db" where
  "put_deployment d s = s\<lparr>deployments := put_row dp_id d (deployments s)\<rparr>"

text \<open>The active activations of a deployment are stopped.\<close>

definition stop_activations :: "instant \<Rightarrow> uuid \<Rightarrow> plugin_revision_activation list \<Rightarrow> plugin_revision_activation list" where
  "stop_activations now d =
     map (\<lambda>a. if pa_deployment_id a = d \<and> pa_status a = Ac_ACTIVE
              then a\<lparr>pa_status := Ac_STOPPED, pa_stopped_at := Some now\<rparr> else a)"

definition starting_activation :: "catalog_world \<Rightarrow> uuid \<Rightarrow> uuid \<Rightarrow> uuid \<Rightarrow> int \<Rightarrow> plugin_revision_activation" where
  "starting_activation C i d r epoch =
     \<lparr>pa_id = i, pa_deployment_id = d, pa_revision_id = r, pa_activation_epoch = epoch,
      pa_fencing_token = cw_token C i, pa_status = Ac_STARTING, pa_started_at = None,
      pa_stopped_at = None, pa_error_detail = None\<rparr>"

definition fail_activation ::
    "plugin_deployment \<Rightarrow> plugin_revision_activation \<Rightarrow> string \<Rightarrow> db \<Rightarrow> db" where
  "fail_activation d a detail s =
     put_deployment (d\<lparr>dp_status := (if dp_active_revision_id d = None then Dp_FAILED else Dp_RUNNING),
         dp_last_error := Some ''candidate activation failed''\<rparr>)
       (s\<lparr>activations := activations s @ [a\<lparr>pa_status := Ac_FAILED, pa_error_detail := Some (take 500 detail)\<rparr>]\<rparr>)"

definition record_activation ::
    "instant \<Rightarrow> plugin_deployment \<Rightarrow> plugin_revision_activation \<Rightarrow> db \<Rightarrow> db" where
  "record_activation now d a s =
     put_deployment (d\<lparr>dp_status := Dp_RUNNING, dp_active_revision_id := Some (pa_revision_id a), dp_last_error := None\<rparr>)
       (s\<lparr>activations := stop_activations now (dp_id d) (activations s)
          @ [a\<lparr>pa_status := Ac_ACTIVE, pa_started_at := Some now\<rparr>]\<rparr>)"

definition activate_revision ::
    "env \<Rightarrow> catalog_world \<Rightarrow> uuid \<Rightarrow> uuid \<Rightarrow> db \<Rightarrow> (uuid \<times> int) catalog_result" where
  "activate_revision E C deployment_id revision_id s =
     (case (get_row dp_id deployment_id (deployments s), get_row rv_id revision_id (revisions s)) of
        (Some d, Some r) \<Rightarrow>
          if rv_deployment_id r \<noteq> deployment_id
          then (Inl (PluginObjectNotFoundError ''plugin deployment revision not found''), s)
          else (case get_row pv_id (rv_package_version_id r) (packages s) of
             None \<Rightarrow> (Inl (PluginObjectNotFoundError ''available plugin package not found''), s)
           | Some v \<Rightarrow>
               if pv_status v \<noteq> Pk_AVAILABLE
               then (Inl (PluginObjectNotFoundError ''available plugin package not found''), s)
               else (case reject_running_command_conflicts E s d r v of
                  Inl err \<Rightarrow> (Inl err, s)
                | Inr _ \<Rightarrow>
                    let epoch = next_activation_epoch s deployment_id;
                        (i, s1) = alloc E s;
                        a = starting_activation C i deployment_id revision_id epoch
                    in if \<exists>b\<in>set (activations s). pa_fencing_token b = pa_fencing_token a
                       then (Inl (OtherRaised ''IntegrityError''), s)
                       else (case start_candidate E C v r deployment_id epoch of
                          Inl err \<Rightarrow> (Inl err, put_deployment (d\<lparr>dp_status := Dp_STARTING\<rparr>)
                              (s1\<lparr>activations := activations s1 @ [a]\<rparr>))
                        | Inr (Some detail) \<Rightarrow>
                            (Inl (PluginActivationError ''candidate plugin activation failed''), fail_activation d a detail s1)
                        | Inr None \<Rightarrow> (Inr (i, epoch), record_activation (cw_now C) d a s1))))
      | _ \<Rightarrow> (Inl (PluginObjectNotFoundError ''plugin deployment revision not found''), s))"

definition deactivate :: "catalog_world \<Rightarrow> uuid \<Rightarrow> db \<Rightarrow> unit catalog_result" where
  "deactivate C deployment_id s =
     (case get_row dp_id deployment_id (deployments s) of
        None \<Rightarrow> (Inl (PluginObjectNotFoundError ''plugin deployment not found''), s)
      | Some d \<Rightarrow>
          if cw_deactivation_pending C deployment_id
          then (Inl (PluginActivationError ''plugin deactivation is already in progress''), s)
          else (Inr (), put_deployment (d\<lparr>dp_status := Dp_STOPPED, dp_active_revision_id := None\<rparr>)
                  (s\<lparr>activations := stop_activations (cw_now C) deployment_id (activations s)\<rparr>)))"

section \<open>Restoration at start-up\<close>

record restore_result =
  rr_restored :: "uuid list"
  rr_failed :: "uuid list"

definition restorable :: "db \<Rightarrow> plugin_deployment list" where
  "restorable s = sort_key (\<lambda>d. (dp_created_at d, dp_id d))
     (filter (\<lambda>d. dp_status d = Dp_RUNNING \<and> dp_active_revision_id d \<noteq> None) (deployments s))"

definition mark_restore_failed :: "uuid \<Rightarrow> db \<Rightarrow> db" where
  "mark_restore_failed i s =
     (case get_row dp_id i (deployments s) of
        None \<Rightarrow> s
      | Some d \<Rightarrow> put_deployment (d\<lparr>dp_status := Dp_FAILED, dp_last_error := Some ''startup activation restore failed''\<rparr>) s)"

text \<open>Only an activation error is handled; any other exception ends the restoration.\<close>

fun restore_loop ::
    "env \<Rightarrow> (uuid \<Rightarrow> catalog_world) \<Rightarrow> uuid list \<Rightarrow> restore_result \<Rightarrow> db \<Rightarrow> restore_result catalog_result" where
  "restore_loop E Cs [] acc s = (Inr acc, s)"
| "restore_loop E Cs (i # ids) acc s =
     (case Option.bind (get_row dp_id i (deployments s)) dp_active_revision_id of
        None \<Rightarrow> restore_loop E Cs ids acc s
      | Some revision_id \<Rightarrow>
          (case activate_revision E (Cs i) i revision_id s of
             (Inr _, s1) \<Rightarrow> restore_loop E Cs ids (acc\<lparr>rr_restored := rr_restored acc @ [i]\<rparr>) s1
           | (Inl (PluginActivationError _), s1) \<Rightarrow>
               restore_loop E Cs ids (acc\<lparr>rr_failed := rr_failed acc @ [i]\<rparr>) (mark_restore_failed i s1)
           | (Inl err, s1) \<Rightarrow> (Inl err, s1)))"

definition restore_active_deployments ::
    "env \<Rightarrow> (uuid \<Rightarrow> catalog_world) \<Rightarrow> db \<Rightarrow> restore_result catalog_result" where
  "restore_active_deployments E Cs s =
     restore_loop E Cs (map dp_id (restorable s)) \<lparr>rr_restored = [], rr_failed = []\<rparr> s"

section \<open>How an activation ends\<close>

lemma alloc_sel [simp]:
  "deployments (snd (alloc E s)) = deployments s" "activations (snd (alloc E s)) = activations s"
  "revisions (snd (alloc E s)) = revisions s" "packages (snd (alloc E s)) = packages s"
  "plugins (snd (alloc E s)) = plugins s"
  by (simp_all add: alloc_def)

lemma put_deployment_sel [simp]:
  "deployments (put_deployment d s) = put_row dp_id d (deployments s)" "activations (put_deployment d s) = activations s"
  "revisions (put_deployment d s) = revisions s" "packages (put_deployment d s) = packages s"
  "plugins (put_deployment d s) = plugins s"
  by (simp_all add: put_deployment_def)

lemma starting_activation_sel [simp]:
  "pa_id (starting_activation C i d r n) = i" "pa_deployment_id (starting_activation C i d r n) = d"
  "pa_revision_id (starting_activation C i d r n) = r" "pa_activation_epoch (starting_activation C i d r n) = n"
  "pa_status (starting_activation C i d r n) = Ac_STARTING"
  by (simp_all add: starting_activation_def)

text \<open>
  An activation raises with the rows unchanged, or leaves the deployment starting when an
  unexpected exception ends it, or records a failed candidate, or commits.
\<close>

lemma activate_cases:
  obtains (unchanged) err where "activate_revision E C i j s = (Inl err, s)"
  | (aborted) d r v err where "get_row dp_id i (deployments s) = Some d" "get_row rv_id j (revisions s) = Some r"
      "start_candidate E C v r i (next_activation_epoch s i) = Inl err"
      "activate_revision E C i j s = (Inl err, put_deployment (d\<lparr>dp_status := Dp_STARTING\<rparr>)
         ((snd (alloc E s))\<lparr>activations := activations s
            @ [starting_activation C (fst (alloc E s)) i j (next_activation_epoch s i)]\<rparr>))"
  | (failed) d r v detail where "get_row dp_id i (deployments s) = Some d" "get_row rv_id j (revisions s) = Some r"
      "start_candidate E C v r i (next_activation_epoch s i) = Inr (Some detail)"
      "activate_revision E C i j s = (Inl (PluginActivationError ''candidate plugin activation failed''),
         fail_activation d (starting_activation C (fst (alloc E s)) i j (next_activation_epoch s i)) detail (snd (alloc E s)))"
  | (committed) d r v where "get_row dp_id i (deployments s) = Some d" "get_row rv_id j (revisions s) = Some r"
      "rv_deployment_id r = i" "get_row pv_id (rv_package_version_id r) (packages s) = Some v" "pv_status v = Pk_AVAILABLE"
      "reject_running_command_conflicts E s d r v = Inr ()"
      "start_candidate E C v r i (next_activation_epoch s i) = Inr None"
      "activate_revision E C i j s = (Inr (fst (alloc E s), next_activation_epoch s i),
         record_activation (cw_now C) d (starting_activation C (fst (alloc E s)) i j (next_activation_epoch s i)) (snd (alloc E s)))"
proof (cases "get_row dp_id i (deployments s)")
  case None
  then show thesis using unchanged by (simp add: activate_revision_def)
next
  case d: (Some d)
  show thesis
  proof (cases "get_row rv_id j (revisions s)")
    case None
    then show thesis using unchanged d by (simp add: activate_revision_def)
  next
    case r: (Some r)
    show thesis
    proof (cases "rv_deployment_id r = i")
      case False
      then show thesis using unchanged d r by (simp add: activate_revision_def)
    next
      case own: True
      show thesis
      proof (cases "get_row pv_id (rv_package_version_id r) (packages s)")
        case None
        then show thesis using unchanged d r own by (simp add: activate_revision_def)
      next
        case v: (Some v)
        show thesis
        proof (cases "pv_status v = Pk_AVAILABLE")
          case False
          then show thesis using unchanged d r own v by (simp add: activate_revision_def)
        next
          case av: True
          show thesis
          proof (cases "reject_running_command_conflicts E s d r v")
            case (Inl err)
            then show thesis using unchanged d r own v av by (simp add: activate_revision_def)
          next
            case (Inr u)
            then have free: "reject_running_command_conflicts E s d r v = Inr ()" by simp
            let ?a = "starting_activation C (fst (alloc E s)) i j (next_activation_epoch s i)"
            show thesis
            proof (cases "\<exists>b\<in>set (activations s). pa_fencing_token b = pa_fencing_token ?a")
              case True
              then have "activate_revision E C i j s = (Inl (OtherRaised ''IntegrityError''), s)"
                using d r own v av free by (simp add: activate_revision_def Let_def case_prod_beta)
              then show thesis by (rule unchanged)
            next
              case fresh: False
              note run = d r own v av free fresh
              show thesis
              proof (cases "start_candidate E C v r i (next_activation_epoch s i)")
                case (Inl err)
                then show thesis using aborted[OF d r Inl] run by (simp add: activate_revision_def Let_def case_prod_beta)
              next
                case st: (Inr res)
                show thesis
                proof (cases res)
                  case None
                  then show thesis using committed[OF d r own v av free] st run
                    by (simp add: activate_revision_def Let_def case_prod_beta)
                next
                  case (Some detail)
                  then show thesis using failed[OF d r] st run
                    by (simp add: activate_revision_def Let_def case_prod_beta)
                qed
              qed
            qed
          qed
        qed
      qed
    qed
  qed
qed

lemma activate_committed:
  assumes act: "activate_revision E C i j s = (Inr res, s')"
  obtains d r v where "get_row dp_id i (deployments s) = Some d" "get_row rv_id j (revisions s) = Some r"
    "rv_deployment_id r = i" "get_row pv_id (rv_package_version_id r) (packages s) = Some v" "pv_status v = Pk_AVAILABLE"
    "reject_running_command_conflicts E s d r v = Inr ()"
    "start_candidate E C v r i (next_activation_epoch s i) = Inr None"
    "res = (fst (alloc E s), next_activation_epoch s i)"
    "s' = record_activation (cw_now C) d (starting_activation C (fst (alloc E s)) i j (next_activation_epoch s i)) (snd (alloc E s))"
proof (cases rule: activate_cases[of E C i j s])
  case (committed d r v)
  show thesis by (rule that[OF committed(1-7)]) (use act committed(8) in simp_all)
qed (use act in simp_all)

section \<open>The rows of the catalog\<close>

text \<open>
  Deployments and activation epochs are unique, and the revision a deployment names as active is
  that of its one active activation.
\<close>

definition active_revisions :: "db \<Rightarrow> uuid \<Rightarrow> uuid list" where
  "active_revisions s d =
     map pa_revision_id (filter (\<lambda>a. pa_deployment_id a = d \<and> pa_status a = Ac_ACTIVE) (activations s))"

definition catalog_ok :: "db \<Rightarrow> bool" where
  "catalog_ok s \<longleftrightarrow> unique_by dp_id (deployments s) \<and>
     unique_by (\<lambda>a. (pa_deployment_id a, pa_activation_epoch a)) (activations s) \<and>
     (\<forall>d\<in>set (deployments s). active_revisions s (dp_id d) =
        (case dp_active_revision_id d of None \<Rightarrow> [] | Some r \<Rightarrow> [r])) \<and>
     (\<forall>a\<in>set (activations s). \<exists>d\<in>set (deployments s). dp_id d = pa_deployment_id a)"

lemma next_epoch_fresh:
  "a \<in> set (activations s) \<Longrightarrow> pa_deployment_id a = d \<Longrightarrow> pa_activation_epoch a < next_activation_epoch s d"
proof -
  let ?xs = "map pa_activation_epoch (filter (\<lambda>a. pa_deployment_id a = d) (activations s))"
  assume "a \<in> set (activations s)" "pa_deployment_id a = d"
  then have mem: "pa_activation_epoch a \<in> set ?xs" by force
  then have "?xs \<noteq> []" by (metis empty_iff empty_set)
  then obtain m where m: "list_max ?xs = Some m" using list_max_None by (cases "list_max ?xs") auto
  then have "pa_activation_epoch a \<le> m" using mem unfolding list_max_Some by blast
  then show ?thesis using m by (simp add: next_activation_epoch_def)
qed

lemma stop_activations_keys [simp]:
  "map (\<lambda>a. (pa_deployment_id a, pa_activation_epoch a)) (stop_activations now d as) =
     map (\<lambda>a. (pa_deployment_id a, pa_activation_epoch a)) as"
  by (simp add: stop_activations_def)

lemma stop_activations_active:
  "map pa_revision_id (filter (\<lambda>a. pa_deployment_id a = d' \<and> pa_status a = Ac_ACTIVE) (stop_activations now d as)) =
     (if d' = d then [] else map pa_revision_id (filter (\<lambda>a. pa_deployment_id a = d' \<and> pa_status a = Ac_ACTIVE) as))"
  by (induction as) (auto simp: stop_activations_def)

text \<open>An update of one deployment and its activations that keeps the two in step.\<close>

lemma catalog_ok_update:
  assumes ok: "catalog_ok s" and row: "get_row dp_id (dp_id d') (deployments s) = Some d"
    and dep: "deployments s' = put_row dp_id d' (deployments s)"
    and keys: "unique_by (\<lambda>a. (pa_deployment_id a, pa_activation_epoch a)) (activations s')"
    and own: "active_revisions s' (dp_id d') = (case dp_active_revision_id d' of None \<Rightarrow> [] | Some r \<Rightarrow> [r])"
    and others: "\<And>k. k \<noteq> dp_id d' \<Longrightarrow> active_revisions s' k = active_revisions s k"
    and deps: "pa_deployment_id ` set (activations s') \<subseteq> insert (dp_id d') (pa_deployment_id ` set (activations s))"
  shows "catalog_ok s'"
proof -
  have u: "unique_by dp_id (deployments s')" using ok by (simp add: dep catalog_ok_def)
  have "active_revisions s' (dp_id x) = (case dp_active_revision_id x of None \<Rightarrow> [] | Some r \<Rightarrow> [r])"
    if x: "x \<in> set (deployments s')" for x
  proof -
    consider "x = d'" | "x \<in> set (deployments s)" "dp_id x \<noteq> dp_id d'"
      using x set_put_row[of x dp_id d' "deployments s"] by (auto simp: dep)
    then show ?thesis
    proof cases
      case 2
      then show ?thesis using ok others by (simp add: catalog_ok_def)
    qed (simp add: own)
  qed
  moreover have "\<exists>x\<in>set (deployments s'). dp_id x = pa_deployment_id a" if a: "a \<in> set (activations s')" for a
  proof -
    have "dp_id ` set (deployments s') = dp_id ` set (deployments s)"
      using map_key_put_row[of dp_id d' "deployments s"] unfolding dep by (metis set_map)
    moreover have "dp_id d' \<in> dp_id ` set (deployments s)" using get_row_Some_mem[OF row] by (metis imageI)
    moreover have "pa_deployment_id ` set (activations s) \<subseteq> dp_id ` set (deployments s)"
      using ok unfolding catalog_ok_def by (metis (no_types, lifting) image_iff image_subsetI)
    ultimately show ?thesis using deps a by (metis (no_types, opaque_lifting) image_iff insert_iff subsetD)
  qed
  ultimately show ?thesis using u keys by (simp add: catalog_ok_def)
qed

lemma unique_epoch_snoc:
  assumes "catalog_ok s" "pa_deployment_id a = d" "pa_activation_epoch a = next_activation_epoch s d"
    and "map (\<lambda>a. (pa_deployment_id a, pa_activation_epoch a)) as = map (\<lambda>a. (pa_deployment_id a, pa_activation_epoch a)) (activations s)"
  shows "unique_by (\<lambda>a. (pa_deployment_id a, pa_activation_epoch a)) (as @ [a])"
proof -
  let ?k = "\<lambda>a. (pa_deployment_id a, pa_activation_epoch a)"
  have "distinct (map ?k as)" using assms(1,4) by (simp add: catalog_ok_def unique_by_def)
  moreover have "?k a \<notin> set (map ?k as)"
    unfolding assms(4) using next_epoch_fresh[of _ s d] assms(2,3) by force
  ultimately show ?thesis by (simp add: unique_by_def)
qed

lemma activate_catalog_ok:
  assumes ok: "catalog_ok s"
  shows "catalog_ok (snd (activate_revision E C i j s))"
proof -
  let ?a = "starting_activation C (fst (alloc E s)) i j (next_activation_epoch s i)"
  have active: "active_revisions s i = (case dp_active_revision_id d of None \<Rightarrow> [] | Some r \<Rightarrow> [r])"
    if "get_row dp_id i (deployments s) = Some d" for d
    using ok get_row_Some_mem[OF that] by (auto simp: catalog_ok_def)
  show ?thesis
  proof (cases rule: activate_cases[of E C i j s])
    case (unchanged err)
    then show ?thesis using ok by simp
  next
    case (aborted d r v err)
    have id: "dp_id d = i" using get_row_Some_mem[OF aborted(1)] by simp
    show ?thesis unfolding aborted(4) snd_conv
      by (rule catalog_ok_update[OF ok, of "d\<lparr>dp_status := Dp_STARTING\<rparr>" d])
        (use aborted(1) id active[OF aborted(1)] unique_epoch_snoc[OF ok, of ?a i] in
          \<open>auto simp: active_revisions_def\<close>)
  next
    case (failed d r v detail)
    have id: "dp_id d = i" using get_row_Some_mem[OF failed(1)] by simp
    let ?d' = "d\<lparr>dp_status := (if dp_active_revision_id d = None then Dp_FAILED else Dp_RUNNING),
         dp_last_error := Some ''candidate activation failed''\<rparr>"
    show ?thesis unfolding failed(4) snd_conv
      by (rule catalog_ok_update[OF ok, of ?d' d])
        (use failed(1) id active[OF failed(1)] unique_epoch_snoc[OF ok, of "?a\<lparr>pa_status := Ac_FAILED, pa_error_detail := Some (take 500 detail)\<rparr>" i] in
          \<open>auto simp: active_revisions_def fail_activation_def\<close>)
  next
    case (committed d r v)
    have id: "dp_id d = i" using get_row_Some_mem[OF committed(1)] by simp
    let ?d' = "d\<lparr>dp_status := Dp_RUNNING, dp_active_revision_id := Some (pa_revision_id ?a), dp_last_error := None\<rparr>"
    let ?as = "stop_activations (cw_now C) i (activations s)"
    have dom: "pa_deployment_id ` set ?as \<subseteq> pa_deployment_id ` set (activations s)"
      by (auto simp: stop_activations_def)
    show ?thesis unfolding committed(8) snd_conv
      by (rule catalog_ok_update[OF ok, of ?d' d])
        (use committed(1) id dom unique_epoch_snoc[OF ok, of "?a\<lparr>pa_status := Ac_ACTIVE, pa_started_at := Some (cw_now C)\<rparr>" i ?as] in
          \<open>auto simp: active_revisions_def record_activation_def stop_activations_active\<close>)
  qed
qed

section \<open>Runs of the catalog\<close>

inductive catalog_step :: "env \<Rightarrow> db \<Rightarrow> db \<Rightarrow> bool" for E where
  install: "catalog_step E s (snd (install_builtin E C builtin_dir ws plugin_id s))"
| deploy: "\<forall>d\<in>set (deployments s). dp_id d \<noteq> fst (alloc E s) \<Longrightarrow> catalog_step E s (snd (create_deployment E C payload s))"
| revise: "catalog_step E s (snd (create_revision E C deployment_id changes s))"
| activate: "catalog_step E s (snd (activate_revision E C deployment_id revision_id s))"
| deactivate: "catalog_step E s (snd (deactivate C deployment_id s))"
| restore: "catalog_step E s (snd (restore_active_deployments E Cs s))"

definition catalog_run :: "env \<Rightarrow> db \<Rightarrow> db \<Rightarrow> bool" where
  "catalog_run E = (catalog_step E)\<^sup>*\<^sup>*"

lemma install_package_frame:
  "deployments (snd (install_package E p m h path s)) = deployments s \<and>
   activations (snd (install_package E p m h path s)) = activations s \<and>
   revisions (snd (install_package E p m h path s)) = revisions s"
  by (simp add: install_package_def Let_def case_prod_beta split: option.split)

lemma install_builtin_frame:
  "deployments (snd (install_builtin E C dir ws pid s)) = deployments s \<and>
   activations (snd (install_builtin E C dir ws pid s)) = activations s \<and>
   revisions (snd (install_builtin E C dir ws pid s)) = revisions s"
  by (simp add: install_builtin_def Let_def case_prod_beta install_package_frame split: option.split sum.split)

text \<open>A new revision is added behind the others, and nothing else but the key generator changes.\<close>

lemma new_revision_cases:
  obtains err where "new_revision E C d v config scope grants s = (Inl err, s)"
  | m sc r where "validate_manifest E (pv_manifest v) = Some m" "validate_config C m config = Inr ()"
      "set grants \<subseteq> set (mf_capabilities m)" "validate_plugin_scope scope (dp_workspace_id d) = Inr sc"
      "rv_deployment_id r = dp_id d" "rv_package_version_id r = pv_id v"
      "rv_config_ciphertext r = cw_encrypt C (json_dumps E config)" "rv_scope r = sc" "rv_grants r = dedup_first grants"
      "rv_revision_number r = (case list_max (revision_numbers s (dp_id d)) of None \<Rightarrow> 0 | Some n \<Rightarrow> n) + 1"
      "new_revision E C d v config scope grants s = (Inr r, (snd (alloc E s))\<lparr>revisions := revisions s @ [r]\<rparr>)"
proof (cases "validate_manifest E (pv_manifest v)")
  case None
  then show thesis using that(1) by (simp add: new_revision_def)
next
  case m: (Some m)
  show thesis
  proof (cases "validate_config C m config")
    case (Inl err)
    then show thesis using that(1) m by (simp add: new_revision_def)
  next
    case (Inr u)
    then have c: "validate_config C m config = Inr ()" by simp
    show thesis
    proof (cases "set grants \<subseteq> set (mf_capabilities m)")
      case False
      then show thesis using that(1) m c by (simp add: new_revision_def)
    next
      case g: True
      show thesis
      proof (cases "validate_plugin_scope scope (dp_workspace_id d)")
        case (Inl err)
        then show thesis using that(1) m c g by (simp add: new_revision_def)
      next
        case (Inr sc)
        show thesis
          by (rule that(2)[OF m c g Inr]; (simp add: new_revision_def m c g Inr Let_def case_prod_beta)?; rule refl)
      qed
    qed
  qed
qed

lemma new_revision_frame:
  "deployments (snd (new_revision E C d v config scope grants s)) = deployments s"
  "activations (snd (new_revision E C d v config scope grants s)) = activations s"
  "\<exists>rs. revisions (snd (new_revision E C d v config scope grants s)) = revisions s @ rs"
  by (cases rule: new_revision_cases[of E C d v config scope grants s]; simp)+

lemma create_revision_frame:
  "deployments (snd (create_revision E C i p s)) = deployments s \<and>
   activations (snd (create_revision E C i p s)) = activations s \<and>
   (\<exists>rs. revisions (snd (create_revision E C i p s)) = revisions s @ rs)"
  by (simp add: create_revision_def new_revision_frame split: option.split sum.split prod.split)

lemma catalog_ok_frame:
  assumes "catalog_ok s" "deployments s' = deployments s" "activations s' = activations s"
  shows "catalog_ok s'"
  using assms by (simp add: catalog_ok_def active_revisions_def)

lemma create_deployment_cases:
  obtains (raised) err s' where "create_deployment E C p s = (Inl err, s')" "s' = s"
  | (added) pl v d where "plugin_and_package s (dc_workspace_id p) (dc_plugin_id p) (dc_package_version_id p) = Inr (pl, v)"
      "\<not> name_taken s (dc_workspace_id p) (dc_name p)" "\<not> name_taken s (dc_workspace_id p) (strip (dc_name p))"
      "d = \<lparr>dp_id = fst (alloc E s), dp_workspace_id = dc_workspace_id p, dp_plugin_id = pl_id pl,
         dp_name = strip (dc_name p), dp_status = Dp_STOPPED, dp_active_revision_id = None,
         dp_last_error = None, dp_created_at = cw_now C\<rparr>"
      "create_deployment E C p s =
         apfst (map_sum id (Pair d)) (new_revision E C d v (dc_config p) (dc_scope p) (dc_grants p)
            ((snd (alloc E s))\<lparr>deployments := deployments s @ [d]\<rparr>))"
proof (cases "plugin_and_package s (dc_workspace_id p) (dc_plugin_id p) (dc_package_version_id p)")
  case (Inl err)
  then show thesis using raised by (simp add: create_deployment_def)
next
  case (Inr pv)
  obtain pl v where pv: "pv = (pl, v)" by (cases pv)
  show thesis
  proof (cases "name_taken s (dc_workspace_id p) (dc_name p) \<or> name_taken s (dc_workspace_id p) (strip (dc_name p))")
    case True
    then have "\<exists>err. create_deployment E C p s = (Inl err, s)" using Inr pv by (auto simp: create_deployment_def)
    then show thesis using raised by blast
  next
    case False
    obtain i s1 where a: "alloc E s = (i, s1)" by (cases "alloc E s")
    have s1: "deployments s1 = deployments s" using alloc_sel(1)[of E s] by (simp add: a)
    show thesis
      by (rule added[OF Inr[unfolded pv] _ _ refl])
        (use False s1 in \<open>simp_all add: create_deployment_def Inr pv Let_def a\<close>)
  qed
qed

lemma create_deployment_ok:
  assumes ok: "catalog_ok s" and fresh: "\<forall>d\<in>set (deployments s). dp_id d \<noteq> fst (alloc E s)"
  shows "catalog_ok (snd (create_deployment E C p s))"
proof (cases rule: create_deployment_cases[of E C p s])
  case (raised err s')
  then show ?thesis using ok by simp
next
  case (added pl v d)
  let ?s1 = "(snd (alloc E s))\<lparr>deployments := deployments s @ [d]\<rparr>"
  have id: "dp_id d = fst (alloc E s)" "dp_active_revision_id d = None" by (simp_all add: added(4))
  have "\<forall>a\<in>set (activations s). pa_deployment_id a \<noteq> dp_id d"
    using ok fresh unfolding catalog_ok_def id by metis
  then have "active_revisions s (dp_id d) = []" by (auto simp: active_revisions_def filter_empty_conv)
  moreover have "unique_by dp_id (deployments s @ [d])"
    using ok fresh id by (auto simp: catalog_ok_def unique_by_snoc)
  ultimately have "catalog_ok ?s1"
    using ok id by (auto simp: catalog_ok_def active_revisions_def)
  then have "catalog_ok (snd (new_revision E C d v (dc_config p) (dc_scope p) (dc_grants p) ?s1))"
    by (rule catalog_ok_frame) (simp_all add: new_revision_frame)
  then show ?thesis unfolding added(5) by simp
qed

lemma create_deployment_revisions: "\<exists>rs. revisions (snd (create_deployment E C p s)) = revisions s @ rs"
proof (cases rule: create_deployment_cases[of E C p s])
  case (added pl v d)
  show ?thesis unfolding added(5)
    using new_revision_frame(3)[of E C d v "dc_config p" "dc_scope p" "dc_grants p" "(snd (alloc E s))\<lparr>deployments := deployments s @ [d]\<rparr>"]
    by simp
qed simp

lemma deactivate_ok:
  assumes ok: "catalog_ok s"
  shows "catalog_ok (snd (deactivate C i s))"
proof (cases "get_row dp_id i (deployments s)")
  case None
  then show ?thesis using ok by (simp add: deactivate_def)
next
  case (Some d)
  show ?thesis
  proof (cases "cw_deactivation_pending C i")
    case True
    then show ?thesis using ok Some by (simp add: deactivate_def)
  next
    case False
    have id: "dp_id d = i" using get_row_Some_mem[OF Some] by simp
    let ?d' = "d\<lparr>dp_status := Dp_STOPPED, dp_active_revision_id := None\<rparr>"
    have dom: "pa_deployment_id ` set (stop_activations (cw_now C) i (activations s)) \<subseteq> pa_deployment_id ` set (activations s)"
      by (auto simp: stop_activations_def)
    have res: "snd (deactivate C i s) = put_deployment ?d'
        (s\<lparr>activations := stop_activations (cw_now C) i (activations s)\<rparr>)"
      using Some False by (simp add: deactivate_def)
    show ?thesis unfolding res
      by (rule catalog_ok_update[OF ok, of ?d' d])
        (use Some id dom ok in \<open>auto simp: active_revisions_def stop_activations_active catalog_ok_def unique_by_def\<close>)
  qed
qed

lemma mark_restore_failed_ok:
  assumes ok: "catalog_ok s"
  shows "catalog_ok (mark_restore_failed i s)"
proof (cases "get_row dp_id i (deployments s)")
  case None
  then show ?thesis using ok by (simp add: mark_restore_failed_def)
next
  case (Some d)
  have id: "dp_id d = i" and mem: "d \<in> set (deployments s)" using get_row_Some_mem[OF Some] by simp_all
  let ?d' = "d\<lparr>dp_status := Dp_FAILED, dp_last_error := Some ''startup activation restore failed''\<rparr>"
  have res: "mark_restore_failed i s = put_deployment ?d' s" using Some by (simp add: mark_restore_failed_def)
  have act: "active_revisions s (dp_id d) = (case dp_active_revision_id d of None \<Rightarrow> [] | Some r \<Rightarrow> [r])"
    using ok mem by (simp add: catalog_ok_def)
  show ?thesis unfolding res
    by (rule catalog_ok_update[OF ok, of ?d' d])
      (use Some id act ok in \<open>auto simp: active_revisions_def catalog_ok_def\<close>)
qed

lemma activate_revisions: "revisions (snd (activate_revision E C i j s)) = revisions s"
  by (cases rule: activate_cases[of E C i j s]) (simp_all add: fail_activation_def record_activation_def)

lemma mark_restore_failed_revisions [simp]: "revisions (mark_restore_failed i s) = revisions s"
  by (simp add: mark_restore_failed_def split: option.split)

text \<open>What every activation and every marking keeps, a restoration keeps.\<close>

lemma restore_loop_keeps:
  assumes act: "\<And>C i j s. P s \<Longrightarrow> P (snd (activate_revision E C i j s))"
    and mark: "\<And>i s. P s \<Longrightarrow> P (mark_restore_failed i s)"
  shows "P s \<Longrightarrow> P (snd (restore_loop E Cs ids acc s))"
proof (induction ids arbitrary: acc s)
  case (Cons i ids)
  show ?case
  proof (cases "Option.bind (get_row dp_id i (deployments s)) dp_active_revision_id")
    case None
    then show ?thesis using Cons by simp
  next
    case (Some j)
    obtain res s1 where a: "activate_revision E (Cs i) i j s = (res, s1)" by (cases "activate_revision E (Cs i) i j s")
    then have "P s1" using act[OF Cons.prems, of "Cs i" i j] by simp
    then show ?thesis using Cons.IH Some a mark by (simp split: sum.split catalog_error.split)
  qed
qed simp

text \<open>
  In every run of the catalog the deployments and the activation epochs stay unique, a
  deployment has at most one active activation, and it is of the revision the deployment names.
  A revision, once created, is never changed or removed.
\<close>

theorem catalog_runs_keep_activations:
  assumes "catalog_run E s s'" "catalog_ok s"
  shows "catalog_ok s' \<and> (\<exists>rs. revisions s' = revisions s @ rs)"
  using assms unfolding catalog_run_def
proof (induction rule: rtranclp_induct)
  case (step t u)
  then have ok: "catalog_ok t" by blast
  have "catalog_ok u \<and> (\<exists>rs. revisions u = revisions t @ rs)"
    using step.hyps(2)
  proof cases
    case (install C dir ws pid)
    then show ?thesis using install_builtin_frame[of E C dir ws pid t] catalog_ok_frame[OF ok] by simp
  next
    case (deploy C p)
    then show ?thesis using create_deployment_ok[OF ok] create_deployment_revisions by blast
  next
    case (revise C i p)
    then show ?thesis using create_revision_frame[of E C i p t] catalog_ok_frame[OF ok] by blast
  next
    case (activate C i j)
    then show ?thesis using activate_catalog_ok[OF ok] activate_revisions by simp
  next
    case (deactivate C i)
    have "revisions (snd (Catalog.deactivate C i t)) = revisions t" by (simp add: deactivate_def split: option.split)
    then show ?thesis using deactivate_ok[OF ok, of C i] deactivate by simp
  next
    case (restore Cs)
    have "catalog_ok u" unfolding restore restore_active_deployments_def
      by (rule restore_loop_keeps[of catalog_ok]) (simp_all add: activate_catalog_ok mark_restore_failed_ok ok)
    moreover have "revisions u = revisions t" unfolding restore restore_active_deployments_def
      by (rule restore_loop_keeps[of "\<lambda>x. revisions x = revisions t"]) (simp_all add: activate_revisions)
    ultimately show ?thesis by simp
  qed
  then show ?case using step.IH step.prems by fastforce
qed simp

section \<open>Activation and conflicts\<close>

lemma routable_rows_mem:
  "(d, rv, pv) \<in> set (routable_rows s ws) \<longleftrightarrow>
     d \<in> set (deployments s) \<and> dp_workspace_id d = ws \<and> dp_status d = Dp_RUNNING \<and>
     get_row pl_id (dp_plugin_id d) (plugins s) \<noteq> None \<and> deployment_row s d = Some (rv, pv)"
  unfolding routable_rows_def map_filter_set
  by (auto simp: running_deployments_def split: if_split_asm)

lemma record_activation_sel:
  "deployments (record_activation now d a s) =
     put_row dp_id (d\<lparr>dp_status := Dp_RUNNING, dp_active_revision_id := Some (pa_revision_id a), dp_last_error := None\<rparr>) (deployments s)"
  "revisions (record_activation now d a s) = revisions s" "packages (record_activation now d a s) = packages s"
  "plugins (record_activation now d a s) = plugins s"
  by (simp_all add: record_activation_def)

lemma fail_activation_sel:
  "deployments (fail_activation d a detail s) =
     put_row dp_id (d\<lparr>dp_status := (if dp_active_revision_id d = None then Dp_FAILED else Dp_RUNNING),
       dp_last_error := Some ''candidate activation failed''\<rparr>) (deployments s)"
  "revisions (fail_activation d a detail s) = revisions s" "packages (fail_activation d a detail s) = packages s"
  "plugins (fail_activation d a detail s) = plugins s"
  by (simp_all add: fail_activation_def)

text \<open>The check of a candidate, against the other rows that can be routed to.\<close>

lemma checked_against_routable:
  assumes free: "reject_running_command_conflicts E s d r v = Inr ()"
    and row: "(d', rv', pv') \<in> set (routable_rows s (dp_workspace_id d))" and ne: "dp_id d' \<noteq> dp_id d"
    and overlap: "scopes_overlap (rv_scope r) (rv_scope rv')"
    and m: "validate_manifest E (pv_manifest v) = Some m" and m': "validate_manifest E (pv_manifest pv') = Some m'"
  shows "set (command_names m) \<inter> set (command_names m') = {}"
proof (cases "command_names m = []")
  case False
  then have c: "check_conflicts E (command_names m) (rv_scope r) (running_rows s (dp_workspace_id d) (dp_id d)) = Inr ()"
    using free m by (simp add: reject_running_command_conflicts_def)
  have "(d', rv', pv') \<in> set (running_rows s (dp_workspace_id d) (dp_id d))"
    using row ne by (simp add: running_rows_mem routable_rows_mem)
  from check_conflicts_Inr[OF c this overlap] show ?thesis using m' by auto
qed simp

text \<open>
  A successful activation keeps the workspace free of conflicts: if no two running
  deployments with overlapping scopes share a command name before it, none do after it, so a
  message still reaches at most one plugin's command.
\<close>

theorem activation_keeps_conflict_free:
  assumes act: "activate_revision E C i j s = (Inr res, s')" and free: "conflict_free E s ws"
  shows "conflict_free E s' ws"
proof -
  obtain d r v where d: "get_row dp_id i (deployments s) = Some d" and r: "get_row rv_id j (revisions s) = Some r"
    and v: "get_row pv_id (rv_package_version_id r) (packages s) = Some v"
    and check: "reject_running_command_conflicts E s d r v = Inr ()"
    and s': "s' = record_activation (cw_now C) d (starting_activation C (fst (alloc E s)) i j (next_activation_epoch s i)) (snd (alloc E s))"
    using activate_committed[OF act] by metis
  let ?d' = "d\<lparr>dp_status := Dp_RUNNING, dp_active_revision_id := Some j, dp_last_error := None\<rparr>"
  have id: "dp_id d = i" using get_row_Some_mem[OF d] by simp
  have deps: "deployments s' = put_row dp_id ?d' (deployments s)" "plugins s' = plugins s"
    and same: "deployment_row s' x = deployment_row s x" for x
    by (simp_all add: s' record_activation_sel deployment_row_def)
  have rows: "(x, rv, pv) = (?d', r, v) \<or> ((x, rv, pv) \<in> set (routable_rows s ws) \<and> dp_id x \<noteq> i)"
    if x: "(x, rv, pv) \<in> set (routable_rows s' ws)" for x rv pv
  proof -
    have x': "x \<in> set (put_row dp_id ?d' (deployments s))" "dp_workspace_id x = ws" "dp_status x = Dp_RUNNING"
      "get_row pl_id (dp_plugin_id x) (plugins s) \<noteq> None" "deployment_row s x = Some (rv, pv)"
      using x unfolding routable_rows_mem deps same by auto
    from set_put_row[OF x'(1)] show ?thesis
    proof
      assume "x = ?d'"
      then show ?thesis using x'(5) r v by (auto simp: deployment_row_def)
    next
      assume "x \<in> set (deployments s) \<and> dp_id x \<noteq> dp_id ?d'"
      then show ?thesis using x' id by (auto simp: routable_rows_mem)
    qed
  qed
  have new: "set (command_names m) \<inter> set (command_names m') = {}"
    if "(x, rv, pv) \<in> set (routable_rows s ws)" "dp_id x \<noteq> i" "dp_workspace_id d = ws"
      "scopes_overlap (rv_scope r) (rv_scope rv)" "validate_manifest E (pv_manifest v) = Some m"
      "validate_manifest E (pv_manifest pv) = Some m'" for x rv pv m m'
    using checked_against_routable[OF check] that id by blast
  show ?thesis unfolding conflict_free_def
  proof (intro allI impI)
    fix x rv pv y rv' pv' m m'
    assume x: "(x, rv, pv) \<in> set (routable_rows s' ws)" and y: "(y, rv', pv') \<in> set (routable_rows s' ws)"
      and ne: "dp_id x \<noteq> dp_id y" and ov: "scopes_overlap (rv_scope rv) (rv_scope rv')"
      and m: "validate_manifest E (pv_manifest pv) = Some m" and m': "validate_manifest E (pv_manifest pv') = Some m'"
    have ws: "dp_workspace_id x = ws" "dp_workspace_id y = ws" using x y by (simp_all add: routable_rows_mem)
    consider "(x, rv, pv) = (?d', r, v)" "(y, rv', pv') \<in> set (routable_rows s ws)" "dp_id y \<noteq> i"
      | "(y, rv', pv') = (?d', r, v)" "(x, rv, pv) \<in> set (routable_rows s ws)" "dp_id x \<noteq> i"
      | "(x, rv, pv) \<in> set (routable_rows s ws)" "(y, rv', pv') \<in> set (routable_rows s ws)"
      using rows[OF x] rows[OF y] ne id by auto
    then show "set (command_names m) \<inter> set (command_names m') = {}"
    proof cases
      case 1
      then show ?thesis using new[OF 1(2,3)] ov m m' ws by auto
    next
      case 2
      then have "set (command_names m') \<inter> set (command_names m) = {}"
        using new[OF 2(2,3)] scopes_overlap_sym[OF ov] m m' ws by auto
      then show ?thesis by blast
    next
      case 3
      then show ?thesis using free ne ov m m' unfolding conflict_free_def by blast
    qed
  qed
qed

text \<open>
  A failed activation can undo this: a deployment that had failed and still names an active
  revision is put back to RUNNING although nothing was checked for that revision and no process
  runs it, next to a running deployment that has taken its command in the meantime.
\<close>

theorem failed_activation_revives_conflict:
  assumes d: "get_row dp_id i (deployments s) = Some d" "dp_active_revision_id d = Some old"
    and cand: "get_row rv_id j (revisions s) = Some r" "rv_deployment_id r = i"
      "get_row pv_id (rv_package_version_id r) (packages s) = Some v" "pv_status v = Pk_AVAILABLE"
      "reject_running_command_conflicts E s d r v = Inr ()"
      "\<forall>b\<in>set (activations s). pa_fencing_token b \<noteq> cw_token C (fst (alloc E s))"
    and fails: "start_candidate E C v r i (next_activation_epoch s i) = Inr (Some detail)"
    and pl: "get_row pl_id (dp_plugin_id d) (plugins s) \<noteq> None"
    and mine: "get_row rv_id old (revisions s) = Some rv" "get_row pv_id (rv_package_version_id rv) (packages s) = Some pv"
    and other: "(d', rv', pv') \<in> set (routable_rows s (dp_workspace_id d))" "dp_id d' \<noteq> i"
    and clash: "scopes_overlap (rv_scope rv) (rv_scope rv')" "validate_manifest E (pv_manifest pv) = Some m"
      "validate_manifest E (pv_manifest pv') = Some m'" "set (command_names m) \<inter> set (command_names m') \<noteq> {}"
  shows "fst (activate_revision E C i j s) = Inl (PluginActivationError ''candidate plugin activation failed'') \<and>
     \<not> conflict_free E (snd (activate_revision E C i j s)) (dp_workspace_id d)"
proof -
  let ?a = "starting_activation C (fst (alloc E s)) i j (next_activation_epoch s i)"
  let ?s' = "fail_activation d ?a detail (snd (alloc E s))"
  let ?d' = "d\<lparr>dp_status := Dp_RUNNING, dp_last_error := Some ''candidate activation failed''\<rparr>"
  have act: "activate_revision E C i j s = (Inl (PluginActivationError ''candidate plugin activation failed''), ?s')"
    using d(1) cand fails
    by (simp add: activate_revision_def Let_def case_prod_beta starting_activation_def)
  have id: "dp_id d = i" "d \<in> set (deployments s)" using get_row_Some_mem[OF d(1)] by simp_all
  have deps: "deployments ?s' = put_row dp_id ?d' (deployments s)" "plugins ?s' = plugins s"
    and same: "deployment_row ?s' x = deployment_row s x" for x
    using d(2) by (simp_all add: fail_activation_sel deployment_row_def)
  have "?d' \<in> set (put_row dp_id ?d' (deployments s))" using id(2) by (auto simp: mem_put_row_iff)
  then have "(?d', rv, pv) \<in> set (routable_rows ?s' (dp_workspace_id d))"
    using pl mine d(2) unfolding routable_rows_mem deps same by (simp add: deployment_row_def)
  moreover have "d' \<in> set (put_row dp_id ?d' (deployments s))"
    using other id(1) by (auto simp: mem_put_row_iff routable_rows_mem)
  then have "(d', rv', pv') \<in> set (routable_rows ?s' (dp_workspace_id d))"
    using other(1) unfolding routable_rows_mem deps same by blast
  moreover have "dp_id ?d' \<noteq> dp_id d'" using other(2) id(1) by simp
  ultimately have "\<not> conflict_free E ?s' (dp_workspace_id d)"
    using clash unfolding conflict_free_def by blast
  then show ?thesis by (simp add: act)
qed

section \<open>What is activated\<close>

lemma launch_spec_Inr:
  "launch_spec E C v r = Inr spec \<Longrightarrow>
     \<exists>m. load_plugin_manifest E (cw_toml C) (cw_tree C (pv_package_path v)) = Inr (m, pv_package_sha256 v) \<and>
       decrypt_revision_config E C r = Inr (snd spec) \<and> m = fst spec"
  by (auto simp: launch_spec_def bind_res_Inr_iff split: sum.split_asm prod.split_asm if_split_asm)

lemma start_candidate_None:
  "start_candidate E C v r i n = Inr None \<longleftrightarrow> (\<exists>spec. launch_spec E C v r = Inr spec) \<and> cw_prepare C i n = Prepared"
  by (auto simp: start_candidate_def split: sum.split catalog_error.split prepare_answer.split)

text \<open>
  C26: A deployment runs only what was verified: a successful activation has found, on disk, the
  package whose hash was recorded when it was installed, has decrypted the configuration of the
  revision, and has started it under an epoch above all earlier ones of the deployment; then
  that activation is the only active one.
\<close>

theorem activation_runs_verified_package:
  assumes act: "activate_revision E C i j s = (Inr (a, epoch), s')"
  shows "(\<exists>r v m config. get_row rv_id j (revisions s) = Some r \<and> rv_deployment_id r = i \<and>
      get_row pv_id (rv_package_version_id r) (packages s) = Some v \<and> pv_status v = Pk_AVAILABLE \<and>
      load_plugin_manifest E (cw_toml C) (cw_tree C (pv_package_path v)) = Inr (m, pv_package_sha256 v) \<and>
      decrypt_revision_config E C r = Inr config \<and> cw_prepare C i epoch = Prepared) \<and>
    (\<forall>b\<in>set (activations s). pa_deployment_id b = i \<longrightarrow> pa_activation_epoch b < epoch) \<and>
    map pa_activation_epoch (filter (\<lambda>b. pa_deployment_id b = i \<and> pa_status b = Ac_ACTIVE) (activations s')) = [epoch] \<and>
    (\<exists>d. get_row dp_id i (deployments s') = Some d \<and> dp_status d = Dp_RUNNING \<and> dp_active_revision_id d = Some j)"
proof (intro conjI)
  obtain d r v where d: "get_row dp_id i (deployments s) = Some d" and r: "get_row rv_id j (revisions s) = Some r"
    and own: "rv_deployment_id r = i" and v: "get_row pv_id (rv_package_version_id r) (packages s) = Some v" "pv_status v = Pk_AVAILABLE"
    and start: "start_candidate E C v r i (next_activation_epoch s i) = Inr None"
    and ep: "(a, epoch) = (fst (alloc E s), next_activation_epoch s i)"
    and s0: "s' = record_activation (cw_now C) d (starting_activation C (fst (alloc E s)) i j (next_activation_epoch s i)) (snd (alloc E s))"
    using activate_committed[OF act] by metis
  have ep: "epoch = next_activation_epoch s i" using ep by simp
  have s': "s' = record_activation (cw_now C) d (starting_activation C (fst (alloc E s)) i j epoch) (snd (alloc E s))"
    using s0 unfolding ep .
  have id: "dp_id d = i" using get_row_Some_mem[OF d] by simp
  obtain spec where "launch_spec E C v r = Inr spec" "cw_prepare C i epoch = Prepared"
    using start unfolding start_candidate_None ep by blast
  then show "\<exists>r v m config. get_row rv_id j (revisions s) = Some r \<and> rv_deployment_id r = i \<and>
      get_row pv_id (rv_package_version_id r) (packages s) = Some v \<and> pv_status v = Pk_AVAILABLE \<and>
      load_plugin_manifest E (cw_toml C) (cw_tree C (pv_package_path v)) = Inr (m, pv_package_sha256 v) \<and>
      decrypt_revision_config E C r = Inr config \<and> cw_prepare C i epoch = Prepared"
    using launch_spec_Inr r own v by blast
  show "\<forall>b\<in>set (activations s). pa_deployment_id b = i \<longrightarrow> pa_activation_epoch b < epoch"
    unfolding ep using next_epoch_fresh by blast
  have "filter (\<lambda>b. pa_deployment_id b = i \<and> pa_status b = Ac_ACTIVE) (stop_activations now i as) = []" for now as
    using stop_activations_active[of i now i as] by simp
  then show "map pa_activation_epoch (filter (\<lambda>b. pa_deployment_id b = i \<and> pa_status b = Ac_ACTIVE) (activations s')) = [epoch]"
    by (simp add: s' record_activation_def id)
  show "\<exists>d. get_row dp_id i (deployments s') = Some d \<and> dp_status d = Dp_RUNNING \<and> dp_active_revision_id d = Some j"
    using d id get_put_same[of dp_id "d\<lparr>dp_status := Dp_RUNNING, dp_active_revision_id := Some j, dp_last_error := None\<rparr>" "deployments s"]
    by (simp add: s' record_activation_sel)
qed

section \<open>Drafts of revisions\<close>

text \<open>
  C31: Editing through a draft loses nothing: when the draft of a revision is sent back unchanged
  as the configuration of a new revision, the new revision stores the decrypted configuration of
  its source, secrets included, for the same package, with the grants of the source and a number
  above all earlier ones of the deployment.
\<close>

theorem draft_round_trip:
  assumes draft: "revision_draft E C i j s = Inr (r, draft)" and config: "decrypt_revision_config E C r = Inr config"
    and keys: "distinct_keys config"
    and new: "create_revision E C' i \<lparr>rc_source_revision_id = Some j, rc_package_version_id = None,
        rc_config = Some draft, rc_scope = None, rc_grants = None\<rparr> s = (Inr r', s')"
    and codec: "cw_json_loads C' = cw_json_loads C"
  shows "rv_config_ciphertext r' = cw_encrypt C' (json_dumps E config) \<and>
    rv_package_version_id r' = rv_package_version_id r \<and> rv_grants r' = dedup_first (rv_grants r) \<and>
    (\<forall>q\<in>set (revisions s). rv_deployment_id q = i \<longrightarrow> rv_revision_number q < rv_revision_number r')"
proof (intro conjI)
  have r: "get_row rv_id j (revisions s) = Some r" "rv_deployment_id r = i"
    using draft by (auto simp: revision_draft_def bind_res_Inr_iff split: option.split_asm if_split_asm)
  obtain schema where red: "redact_config (cw_regex C) schema config = Inr draft"
    using draft config by (auto simp: revision_draft_def bind_res_Inr_iff split: option.split_asm if_split_asm)
  have config': "decrypt_revision_config E C' r = Inr config" using config by (simp add: decrypt_revision_config_def codec)
  obtain d v where d: "get_row dp_id i (deployments s) = Some d"
    and v: "get_row pv_id (rv_package_version_id r) (packages s) = Some v"
    and nr: "new_revision E C' d v config (rv_scope r) (rv_grants r) s = (Inr r', s')"
    using new r config' edited_unchanged[OF keys red]
    by (auto simp: create_revision_def source_of_def revision_content_def split: option.split_asm if_split_asm)
  have ids: "pv_id v = rv_package_version_id r" "dp_id d = i" using get_row_Some_mem[OF v] get_row_Some_mem[OF d] by simp_all
  obtain r'' where r'': "r' = r''" "rv_package_version_id r'' = pv_id v"
    "rv_config_ciphertext r'' = cw_encrypt C' (json_dumps E config)" "rv_grants r'' = dedup_first (rv_grants r)"
    "rv_revision_number r'' = (case list_max (revision_numbers s (dp_id d)) of None \<Rightarrow> 0 | Some n \<Rightarrow> n) + 1"
    using nr by (cases rule: new_revision_cases[of E C' d v config "rv_scope r" "rv_grants r" s]) auto
  then show "rv_config_ciphertext r' = cw_encrypt C' (json_dumps E config)"
    "rv_package_version_id r' = rv_package_version_id r" "rv_grants r' = dedup_first (rv_grants r)"
    using ids by simp_all
  show "\<forall>q\<in>set (revisions s). rv_deployment_id q = i \<longrightarrow> rv_revision_number q < rv_revision_number r'"
  proof (intro ballI impI)
    fix q assume q: "q \<in> set (revisions s)" "rv_deployment_id q = i"
    then have mem: "rv_revision_number q \<in> set (revision_numbers s i)" by (auto simp: revision_numbers_def)
    then have "revision_numbers s i \<noteq> []" by (metis empty_iff empty_set)
    then obtain n where n: "list_max (revision_numbers s i) = Some n"
      using list_max_None by (cases "list_max (revision_numbers s i)") auto
    then have "rv_revision_number q \<le> n" using mem unfolding list_max_Some by blast
    then show "rv_revision_number q < rv_revision_number r'" using r''(1,5) n ids by simp
  qed
qed

section \<open>Restoration\<close>

lemma activate_other_rows:
  "k \<noteq> i \<Longrightarrow> get_row dp_id k (deployments (snd (activate_revision E C i j s))) = get_row dp_id k (deployments s)"
  by (cases rule: activate_cases[of E C i j s])
    (auto simp: fail_activation_sel record_activation_sel get_put_other dest!: get_row_Some_mem)

lemma activate_own_row:
  assumes d: "get_row dp_id i (deployments s) = Some d"
  shows "get_row dp_id i (deployments (snd (activate_revision E C i j s))) \<noteq> None"
proof -
  have put: "get_row dp_id i (put_row dp_id d' (deployments s)) \<noteq> None" if "dp_id d' = i" for d'
    using get_put_same[of dp_id d' "deployments s"] that d by simp
  show ?thesis
    by (cases rule: activate_cases[of E C i j s])
      (use d put get_row_Some_mem in \<open>fastforce simp: fail_activation_sel record_activation_sel\<close>)+
qed

lemma mark_restore_failed_rows:
  "k \<noteq> i \<Longrightarrow> get_row dp_id k (deployments (mark_restore_failed i s)) = get_row dp_id k (deployments s)"
  "get_row dp_id i (deployments s) \<noteq> None \<Longrightarrow>
     map_option dp_status (get_row dp_id i (deployments (mark_restore_failed i s))) = Some Dp_FAILED"
proof -
  show "get_row dp_id k (deployments (mark_restore_failed i s)) = get_row dp_id k (deployments s)" if "k \<noteq> i"
    using that by (auto simp: mark_restore_failed_def get_put_other dest!: get_row_Some_mem split: option.split)
  show "map_option dp_status (get_row dp_id i (deployments (mark_restore_failed i s))) = Some Dp_FAILED"
    if ne: "get_row dp_id i (deployments s) \<noteq> None"
  proof -
    obtain d where d: "get_row dp_id i (deployments s) = Some d" using ne by blast
    then have "dp_id d = i" using get_row_Some_mem[OF d] by simp
    then show ?thesis
      using d get_put_same[of dp_id "d\<lparr>dp_status := Dp_FAILED, dp_last_error := Some ''startup activation restore failed''\<rparr>" "deployments s"]
      by (simp add: mark_restore_failed_def)
  qed
qed

lemma activate_committed_row:
  assumes "activate_revision E C i j s = (Inr res, s')"
  shows "map_option dp_status (get_row dp_id i (deployments s')) = Some Dp_RUNNING"
proof -
  obtain d a where d: "get_row dp_id i (deployments s) = Some d"
    and s': "s' = record_activation (cw_now C) d a (snd (alloc E s))"
    using activate_committed[OF assms] by metis
  have "dp_id d = i" using get_row_Some_mem[OF d] by simp
  then show ?thesis
    using d get_put_same[of dp_id "d\<lparr>dp_status := Dp_RUNNING, dp_active_revision_id := Some (pa_revision_id a), dp_last_error := None\<rparr>" "deployments s"]
    by (simp add: s' record_activation_sel)
qed

definition active_of :: "db \<Rightarrow> uuid \<Rightarrow> uuid option" where
  "active_of s i = Option.bind (get_row dp_id i (deployments s)) dp_active_revision_id"

definition status_of :: "db \<Rightarrow> uuid \<Rightarrow> deployment_status option" where
  "status_of s i = map_option dp_status (get_row dp_id i (deployments s))"

definition restored_between :: "restore_result \<Rightarrow> restore_result \<Rightarrow> uuid set \<Rightarrow> db \<Rightarrow> bool" where
  "restored_between acc rr ids s' \<longleftrightarrow>
     set (rr_restored rr) \<union> set (rr_failed rr) = set (rr_restored acc) \<union> set (rr_failed acc) \<union> ids \<and>
     (\<forall>i\<in>ids. i \<in> set (rr_restored rr) \<and> status_of s' i = Some Dp_RUNNING \<or>
              i \<in> set (rr_failed rr) \<and> status_of s' i = Some Dp_FAILED) \<and>
     set (rr_restored acc) \<subseteq> set (rr_restored rr) \<and> set (rr_failed acc) \<subseteq> set (rr_failed rr) \<and>
     set (rr_restored rr) \<subseteq> set (rr_restored acc) \<union> {i \<in> ids. status_of s' i = Some Dp_RUNNING} \<and>
     set (rr_failed rr) \<subseteq> set (rr_failed acc) \<union> {i \<in> ids. status_of s' i = Some Dp_FAILED}"

lemma restore_loop_Inr:
  "restore_loop E Cs ids acc s = (Inr rr, s') \<Longrightarrow> distinct ids \<Longrightarrow>
     restored_between acc rr {i \<in> set ids. active_of s i \<noteq> None} s' \<and>
     (\<forall>k. k \<notin> set ids \<longrightarrow> get_row dp_id k (deployments s') = get_row dp_id k (deployments s))"
proof (induction ids arbitrary: acc s)
  case Nil
  then show ?case by (simp add: restored_between_def)
next
  case (Cons i ids)
  show ?case
  proof (cases "active_of s i")
    case None
    then have "restore_loop E Cs ids acc s = (Inr rr, s')" using Cons.prems(1) by (simp add: active_of_def)
    then have IH: "restored_between acc rr {k \<in> set ids. active_of s k \<noteq> None} s'"
      "\<forall>k. k \<notin> set ids \<longrightarrow> get_row dp_id k (deployments s') = get_row dp_id k (deployments s)"
      using Cons.IH Cons.prems(2) by auto
    have "{k \<in> set (i # ids). active_of s k \<noteq> None} = {k \<in> set ids. active_of s k \<noteq> None}" using None by auto
    then show ?thesis using IH by simp
  next
    case (Some j)
    obtain res s1 where a: "activate_revision E (Cs i) i j s = (res, s1)" by (cases "activate_revision E (Cs i) i j s")
    have other: "get_row dp_id k (deployments s1) = get_row dp_id k (deployments s)" if "k \<noteq> i" for k
      using activate_other_rows[OF that, of E "Cs i" j s] by (simp add: a)
    obtain d where "get_row dp_id i (deployments s) = Some d" using Some by (auto simp: active_of_def bind_eq_Some_conv)
    then have own: "get_row dp_id i (deployments s1) \<noteq> None"
      using activate_own_row[of i s d E "Cs i" j] by (simp add: a)
    have i: "i \<notin> set ids" "distinct ids" using Cons.prems(2) by simp_all
    define good where "good = (\<exists>x. res = Inr x)"
    define s2 where "s2 = (if good then s1 else mark_restore_failed i s1)"
    define acc2 where "acc2 = (if good then acc\<lparr>rr_restored := rr_restored acc @ [i]\<rparr> else acc\<lparr>rr_failed := rr_failed acc @ [i]\<rparr>)"
    have next_run: "restore_loop E Cs ids acc2 s2 = (Inr rr, s')"
      using Cons.prems(1) Some a
      by (auto simp: active_of_def s2_def acc2_def good_def split: sum.split_asm catalog_error.split_asm)
    have rows2: "get_row dp_id k (deployments s2) = get_row dp_id k (deployments s)" if "k \<noteq> i" for k
      using other[OF that] mark_restore_failed_rows(1)[OF that] by (simp add: s2_def)
    have st2: "status_of s2 i = Some (if good then Dp_RUNNING else Dp_FAILED)"
    proof (cases good)
      case True
      then obtain x where "res = Inr x" by (auto simp: good_def)
      then show ?thesis using activate_committed_row[of E "Cs i" i j s x s1] a True by (simp add: s2_def status_of_def)
    next
      case False
      then show ?thesis using mark_restore_failed_rows(2)[OF own] by (simp add: s2_def status_of_def)
    qed
    note IH = Cons.IH[OF next_run i(2)]
    have act: "{k \<in> set ids. active_of s2 k \<noteq> None} = {k \<in> set ids. active_of s k \<noteq> None}"
    proof -
      have "active_of s2 k = active_of s k" if "k \<in> set ids" for k
        using rows2[of k] i(1) that by (metis active_of_def)
      then show ?thesis by auto
    qed
    have ids: "{k \<in> set (i # ids). active_of s k \<noteq> None} = insert i {k \<in> set ids. active_of s k \<noteq> None}"
      using Some by auto
    have keep: "get_row dp_id k (deployments s') = get_row dp_id k (deployments s)" if "k \<notin> set (i # ids)" for k
      using IH rows2[of k] that by simp
    have sti: "status_of s' i = Some (if good then Dp_RUNNING else Dp_FAILED)"
      using IH i(1) st2 by (simp add: status_of_def)
    have rb: "restored_between acc2 rr {k \<in> set ids. active_of s k \<noteq> None} s'" using IH act by simp
    have "restored_between acc rr (insert i {k \<in> set ids. active_of s k \<noteq> None}) s'"
    proof (cases good)
      case True
      then show ?thesis using rb sti unfolding restored_between_def acc2_def by auto
    next
      case False
      then show ?thesis using rb sti unfolding restored_between_def acc2_def by auto
    qed
    then show ?thesis using keep ids by simp
  qed
qed

text \<open>
  A restoration that returns accounts for every deployment that was running: each is either
  restored and running or recorded as failed, never both, and no other deployment is touched.
\<close>

theorem restoration_accounts_for_all:
  assumes ids: "unique_by dp_id (deployments s)" and res: "restore_active_deployments E Cs s = (Inr rr, s')"
  shows "set (rr_restored rr) \<union> set (rr_failed rr) = dp_id ` set (restorable s) \<and>
    (\<forall>i\<in>set (rr_restored rr). status_of s' i = Some Dp_RUNNING) \<and>
    (\<forall>i\<in>set (rr_failed rr). status_of s' i = Some Dp_FAILED) \<and>
    (\<forall>k. k \<notin> dp_id ` set (restorable s) \<longrightarrow> get_row dp_id k (deployments s') = get_row dp_id k (deployments s))"
proof -
  have "distinct (map dp_id (restorable s))"
    unfolding restorable_def by (intro sort_key_ids) (use ids in \<open>simp add: unique_by_def distinct_map_filter\<close>)
  from restore_loop_Inr[OF res[unfolded restore_active_deployments_def] this]
  have r: "restored_between \<lparr>rr_restored = [], rr_failed = []\<rparr> rr {i \<in> dp_id ` set (restorable s). active_of s i \<noteq> None} s'"
    "\<forall>k. k \<notin> dp_id ` set (restorable s) \<longrightarrow> get_row dp_id k (deployments s') = get_row dp_id k (deployments s)"
    by simp_all
  have "active_of s (dp_id d) \<noteq> None" if "d \<in> set (restorable s)" for d
    using that ids get_row_unique[of dp_id "deployments s" d] by (auto simp: active_of_def restorable_def)
  then have "{i \<in> dp_id ` set (restorable s). active_of s i \<noteq> None} = dp_id ` set (restorable s)" by blast
  then have "restored_between \<lparr>rr_restored = [], rr_failed = []\<rparr> rr (dp_id ` set (restorable s)) s'" using r(1) by simp
  then show ?thesis using r(2) unfolding restored_between_def by auto
qed

text \<open>
  One missing package directory keeps the whole program from starting: the restoration
  handles activation errors only, so the \<open>FileNotFoundError\<close> of the first running
  deployment whose directory is gone ends it, and the plugins behind it are not restored either.
\<close>

theorem missing_package_stops_restoration:
  assumes first: "restorable s = d # ds" and ids: "unique_by dp_id (deployments s)"
    and rows: "dp_active_revision_id d = Some j" "get_row rv_id j (revisions s) = Some r" "rv_deployment_id r = dp_id d"
      "get_row pv_id (rv_package_version_id r) (packages s) = Some v" "pv_status v = Pk_AVAILABLE"
    and check: "reject_running_command_conflicts E s d r v = Inr ()"
    and token: "\<forall>b\<in>set (activations s). pa_fencing_token b \<noteq> cw_token (Cs (dp_id d)) (fst (alloc E s))"
    and gone: "cw_tree (Cs (dp_id d)) (pv_package_path v) = NoSuchPath"
  shows "fst (restore_active_deployments E Cs s) = Inl (OtherRaised ''FileNotFoundError'')"
proof -
  have "d \<in> set (restorable s)" by (simp add: first)
  then have "d \<in> set (deployments s)" by (simp add: restorable_def)
  then have d: "get_row dp_id (dp_id d) (deployments s) = Some d" using ids by (simp add: get_row_unique)
  have "start_candidate E (Cs (dp_id d)) v r (dp_id d) (next_activation_epoch s (dp_id d)) = Inl (OtherRaised ''FileNotFoundError'')"
    by (simp add: start_candidate_def launch_spec_def load_plugin_manifest_def gone uncaught_load_errors_def)
  then have "fst (activate_revision E (Cs (dp_id d)) (dp_id d) j s) = Inl (OtherRaised ''FileNotFoundError'')"
    using d rows check token by (simp add: activate_revision_def Let_def case_prod_beta starting_activation_def)
  then obtain s1 where "activate_revision E (Cs (dp_id d)) (dp_id d) j s = (Inl (OtherRaised ''FileNotFoundError''), s1)"
    by (cases "activate_revision E (Cs (dp_id d)) (dp_id d) j s") auto
  then show ?thesis using d rows(1) by (simp add: restore_active_deployments_def first)
qed

section \<open>Concrete instances\<close>

definition sample_files :: "(rel_path \<times> 8 word list) list" where
  "sample_files = [([''manifest.toml''], [1]), ([''plugin.py''], [2])]"

definition sample_plugin_config :: json where
  "sample_plugin_config = JObj [(''endpoint'', JStr ''e''), (''api_key'', JStr ''k'')]"

text \<open>A world in which every package directory holds the sample files with the given manifest.\<close>

definition sample_catalog_world :: "package_root \<Rightarrow> catalog_world" where
  "sample_catalog_world tree = \<lparr>cw_regex = (\<lambda>p k. None), cw_check_config = (\<lambda>s c. SchemaErrors []),
     cw_encrypt = (\<lambda>t. t), cw_json_loads = (\<lambda>t. Some sample_plugin_config),
     cw_toml = (\<lambda>b. Some (sample_plugin_manifest ''joke'')), cw_tree = (\<lambda>p. tree), cw_token = uuid_str,
     cw_prepare = (\<lambda>d n. Prepared), cw_deactivation_pending = (\<lambda>d. False), cw_now = 10\<rparr>"

definition sample_catalog_revision :: "uuid \<Rightarrow> uuid \<Rightarrow> uuid \<Rightarrow> plugin_deployment_revision" where
  "sample_catalog_revision i d package = (sample_revision i package [''g@chatroom''])\<lparr>rv_deployment_id := d, rv_grants := []\<rparr>"

definition sample_activation :: "uuid \<Rightarrow> uuid \<Rightarrow> uuid \<Rightarrow> plugin_revision_activation" where
  "sample_activation i d r = \<lparr>pa_id = i, pa_deployment_id = d, pa_revision_id = r, pa_activation_epoch = 1,
     pa_fencing_token = ''t'' @ uuid_str i, pa_status = Ac_ACTIVE, pa_started_at = Some 0, pa_stopped_at = None, pa_error_detail = None\<rparr>"

definition sample_joke_package :: plugin_package_version where
  "sample_joke_package = (sample_package 42 ''joke'')\<lparr>pv_package_sha256 := package_digest sample_env sample_files\<rparr>"

text \<open>
  A running deployment of the weather plugin, and a failed one whose active revision has the same
  command; the latter also has a revision for another plugin package.
\<close>

definition sample_catalog_db :: db where
  "sample_catalog_db = sample_plugin_db\<lparr>
     packages := [sample_package 41 ''weather'', sample_joke_package],
     revisions := [sample_catalog_revision 51 61 41, sample_catalog_revision 53 63 41, sample_catalog_revision 54 63 42],
     deployments := [sample_deployment 61 51 Dp_RUNNING, sample_deployment 63 53 Dp_FAILED],
     activations := [sample_activation 81 61 51, sample_activation 83 63 53]\<rparr>"

lemma sample_catalog_sel [simp]:
  "packages sample_catalog_db = [sample_package 41 ''weather'', sample_joke_package]"
  "revisions sample_catalog_db = [sample_catalog_revision 51 61 41, sample_catalog_revision 53 63 41, sample_catalog_revision 54 63 42]"
  "deployments sample_catalog_db = [sample_deployment 61 51 Dp_RUNNING, sample_deployment 63 53 Dp_FAILED]"
  "activations sample_catalog_db = [sample_activation 81 61 51, sample_activation 83 63 53]"
  "plugins sample_catalog_db = plugins sample_plugin_db"
  by (simp_all add: sample_catalog_db_def)

lemma sample_catalog_rows [simp]:
  "rv_id (sample_catalog_revision i d p) = i" "rv_deployment_id (sample_catalog_revision i d p) = d"
  "rv_package_version_id (sample_catalog_revision i d p) = p" "rv_scope (sample_catalog_revision i d p) = sample_scope [''g@chatroom'']"
  "rv_grants (sample_catalog_revision i d p) = []" "rv_revision_number (sample_catalog_revision i d p) = 1"
  "dp_id (sample_deployment j r st) = j" "dp_active_revision_id (sample_deployment j r st) = Some r"
  "dp_status (sample_deployment j r st) = st" "dp_workspace_id (sample_deployment j r st) = 1"
  "dp_plugin_id (sample_deployment j r st) = 30" "dp_created_at (sample_deployment j r st) = 0"
  "pv_id (sample_package k name) = k" "pv_manifest (sample_package k name) = sample_plugin_manifest name"
  "pv_plugin_id (sample_package k name) = 30" "pv_status (sample_package k name) = Pk_AVAILABLE"
  "pv_id sample_joke_package = 42" "pv_manifest sample_joke_package = sample_plugin_manifest ''joke''"
  "pv_plugin_id sample_joke_package = 30" "pv_status sample_joke_package = Pk_AVAILABLE"
  "pv_package_sha256 sample_joke_package = package_digest sample_env sample_files"
  by (simp_all add: sample_catalog_revision_def sample_revision_def sample_deployment_def sample_package_def sample_joke_package_def)

lemma sample_catalog_ok: "catalog_ok sample_catalog_db"
  by (simp add: catalog_ok_def unique_by_def active_revisions_def sample_activation_def)

lemma sample_running: "running_deployments sample_catalog_db 1 = [sample_deployment 61 51 Dp_RUNNING]"
  by (simp add: running_deployments_def)

lemma sample_deployment_row: "deployment_row sample_catalog_db (sample_deployment 61 51 st) =
    Some (sample_catalog_revision 51 61 41, sample_package 41 ''weather'')"
  "deployment_row sample_catalog_db (sample_deployment 63 53 st) =
    Some (sample_catalog_revision 53 63 41, sample_package 41 ''weather'')"
  by (simp_all add: deployment_row_def get_row_Cons)

lemma sample_plugin_row: "get_row pl_id 30 (plugins sample_plugin_db) \<noteq> None"
  by (simp add: sample_plugin_db_def get_row_Cons)

lemma sample_catalog_routable: "routable_rows sample_catalog_db 1 =
    [(sample_deployment 61 51 Dp_RUNNING, sample_catalog_revision 51 61 41, sample_package 41 ''weather'')]"
  using sample_plugin_row by (simp add: routable_rows_def sample_running List.map_filter_simps sample_deployment_row)

lemma sample_catalog_free: "conflict_free sample_env sample_catalog_db 1"
  unfolding conflict_free_def sample_catalog_routable by auto

lemma sample_joke_check: "reject_running_command_conflicts sample_env sample_catalog_db (sample_deployment 63 53 st)
    (sample_catalog_revision 54 63 42) sample_joke_package = Inr ()"
proof -
  obtain m where m: "validate_manifest sample_env (sample_plugin_manifest ''weather'') = Some m" "command_names m = [''weather'']"
    using sample_manifest_names by blast
  obtain m' where m': "validate_manifest sample_env (sample_plugin_manifest ''joke'') = Some m'" "command_names m' = [''joke'']"
    using sample_manifest_names by blast
  have "running_rows sample_catalog_db 1 63 =
      [(sample_deployment 61 51 Dp_RUNNING, sample_catalog_revision 51 61 41, sample_package 41 ''weather'')]"
    by (simp add: running_rows_def sample_running List.map_filter_simps sample_deployment_row)
  then show ?thesis by (simp add: reject_running_command_conflicts_def m m' Let_def)
qed

lemma sample_catalog_get:
  "get_row dp_id 63 (deployments sample_catalog_db) = Some (sample_deployment 63 53 Dp_FAILED)"
  "get_row rv_id 54 (revisions sample_catalog_db) = Some (sample_catalog_revision 54 63 42)"
  "get_row rv_id 53 (revisions sample_catalog_db) = Some (sample_catalog_revision 53 63 41)"
  "get_row pv_id 42 (packages sample_catalog_db) = Some sample_joke_package"
  "get_row pv_id 41 (packages sample_catalog_db) = Some (sample_package 41 ''weather'')"
  by (simp_all add: get_row_Cons)

lemma sample_tokens: "\<forall>b\<in>set (activations sample_catalog_db). pa_fencing_token b \<noteq> uuid_str (fst (alloc sample_env sample_catalog_db))"
proof -
  have n: "next_id sample_catalog_db = 0"
    by (simp add: sample_catalog_db_def sample_plugin_db_def sample_db_def empty_db_def)
  have "length (''t'' @ uuid_str i) \<noteq> length (uuid_str j)" for i j
    by (simp add: uuid_str_def Let_def)
  then have "''t'' @ uuid_str i \<noteq> uuid_str j" for i j by metis
  then show ?thesis by (simp add: sample_activation_def)
qed

lemma sample_joke_load:
  "\<exists>m. load_plugin_manifest sample_env (cw_toml (sample_catalog_world t)) (Tree [] sample_files) =
     Inr (m, package_digest sample_env sample_files)"
proof -
  have "map_option mf_entrypoint (validate_manifest sample_env (sample_plugin_manifest ''joke'')) = Some ''plugin:create''"
    by code_simp
  then obtain m where m: "validate_manifest sample_env (sample_plugin_manifest ''joke'') = Some m" "mf_entrypoint m = ''plugin:create''"
    by auto
  have f: "module_files ''plugin:create'' = [[''plugin.py''], [''plugin'', ''__init__.py'']]" by code_simp
  have c: "counted_files [] sample_files = sample_files" by code_simp
  note c' = c[unfolded sample_files_def]
  have u: "length (utf8 (posix [''plugin.py''])) = 9" "length (utf8 (posix [''manifest.toml''])) = 13" by code_simp+
  show ?thesis
    by (intro exI[where x = m])
      (simp add: load_plugin_manifest_def m f c' u Let_def max_package_files_def max_package_bytes_def
        sample_files_def sample_catalog_world_def)
qed

lemma sample_activated:
  "\<exists>n s'. activate_revision sample_env (sample_catalog_world (Tree [] sample_files)) 63 54 sample_catalog_db = (Inr n, s')"
proof -
  let ?C = "sample_catalog_world (Tree [] sample_files)"
  let ?e = "next_activation_epoch sample_catalog_db 63"
  obtain m where m: "load_plugin_manifest sample_env (cw_toml ?C) (Tree [] sample_files) =
      Inr (m, package_digest sample_env sample_files)" using sample_joke_load by blast
  have "decrypt_revision_config sample_env ?C (sample_catalog_revision 54 63 42) = Inr sample_plugin_config"
    by (simp add: decrypt_revision_config_def sample_env_def sample_catalog_world_def sample_plugin_config_def)
  then have "launch_spec sample_env ?C sample_joke_package (sample_catalog_revision 54 63 42) = Inr (m, sample_plugin_config)"
    using m by (simp add: launch_spec_def) (simp add: sample_catalog_world_def)
  then have "start_candidate sample_env ?C sample_joke_package (sample_catalog_revision 54 63 42) 63 ?e = Inr None"
    by (simp add: start_candidate_None) (simp add: sample_catalog_world_def)
  moreover have "pa_fencing_token (starting_activation ?C i 63 54 ?e) = uuid_str i" for i
    by (simp add: starting_activation_def sample_catalog_world_def)
  ultimately show ?thesis
    using sample_catalog_get sample_joke_check sample_tokens
    by (simp add: activate_revision_def Let_def case_prod_beta)
qed

theorem catalog_runs_keep_activations_witness:
  "catalog_run sample_env sample_catalog_db (snd (deactivate (sample_catalog_world NotADirectory) 61 sample_catalog_db)) \<and>
   catalog_ok (snd (deactivate (sample_catalog_world NotADirectory) 61 sample_catalog_db))"
proof -
  have "catalog_run sample_env sample_catalog_db (snd (deactivate (sample_catalog_world NotADirectory) 61 sample_catalog_db))"
    unfolding catalog_run_def by (intro r_into_rtranclp catalog_step.deactivate)
  then show ?thesis using catalog_runs_keep_activations[OF _ sample_catalog_ok] by blast
qed

theorem activation_keeps_conflict_free_witness:
  "\<exists>n s'. activate_revision sample_env (sample_catalog_world (Tree [] sample_files)) 63 54 sample_catalog_db = (Inr n, s') \<and>
     conflict_free sample_env s' 1"
  using sample_activated activation_keeps_conflict_free[OF _ sample_catalog_free] by blast

theorem activation_runs_verified_package_witness:
  "\<exists>a n s' (v :: plugin_package_version) m. activate_revision sample_env (sample_catalog_world (Tree [] sample_files)) 63 54 sample_catalog_db = (Inr (a, n), s') \<and>
     load_plugin_manifest sample_env (cw_toml (sample_catalog_world (Tree [] sample_files))) (Tree [] sample_files) =
       Inr (m, pv_package_sha256 v) \<and> pv_status v = Pk_AVAILABLE"
proof -
  obtain a n s' where act: "activate_revision sample_env (sample_catalog_world (Tree [] sample_files)) 63 54 sample_catalog_db = (Inr (a, n), s')"
    using sample_activated by fastforce
  have "cw_tree (sample_catalog_world (Tree [] sample_files)) p = Tree [] sample_files" for p
    by (simp add: sample_catalog_world_def)
  moreover obtain v :: plugin_package_version and m where "pv_status v = Pk_AVAILABLE"
    "load_plugin_manifest sample_env (cw_toml (sample_catalog_world (Tree [] sample_files)))
       (cw_tree (sample_catalog_world (Tree [] sample_files)) (pv_package_path v)) = Inr (m, pv_package_sha256 v)"
    using activation_runs_verified_package[OF act, THEN conjunct1] by metis
  ultimately have "pv_status v = Pk_AVAILABLE \<and>
      load_plugin_manifest sample_env (cw_toml (sample_catalog_world (Tree [] sample_files))) (Tree [] sample_files) = Inr (m, pv_package_sha256 v)"
    by simp
  then show ?thesis using act by blast
qed

lemma sample_clash: "\<exists>m. validate_manifest sample_env (sample_plugin_manifest ''weather'') = Some m \<and> set (command_names m) \<inter> set (command_names m) \<noteq> {}"
  using sample_manifest_names(1) by auto

lemma sample_scopes_overlap: "scopes_overlap (sample_scope [''g@chatroom'']) (sample_scope [''g@chatroom''])"
  by (rule overlap_if_both_match[OF sample_scope_matches sample_scope_matches]) simp_all

theorem failed_activation_revives_conflict_witness:
  "conflict_free sample_env sample_catalog_db 1 \<and>
   \<not> conflict_free sample_env (snd (activate_revision sample_env (sample_catalog_world NotADirectory) 63 54 sample_catalog_db)) 1"
proof -
  let ?C = "sample_catalog_world NotADirectory"
  obtain m where m: "validate_manifest sample_env (pv_manifest (sample_package 41 ''weather'')) = Some m" "set (command_names m) \<inter> set (command_names m) \<noteq> {}"
    using sample_clash by auto
  have fails: "start_candidate sample_env ?C sample_joke_package (sample_catalog_revision 54 63 42) 63
      (next_activation_epoch sample_catalog_db 63) = Inr (Some ''plugin package path must be a directory'')"
    by (simp add: start_candidate_def launch_spec_def load_plugin_manifest_def sample_catalog_world_def uncaught_load_errors_def)
  have token: "cw_token ?C = uuid_str" by (simp add: sample_catalog_world_def)
  have other: "(sample_deployment 61 51 Dp_RUNNING, sample_catalog_revision 51 61 41, sample_package 41 ''weather'') \<in>
      set (routable_rows sample_catalog_db (dp_workspace_id (sample_deployment 63 53 Dp_FAILED)))"
    by (simp add: sample_catalog_routable)
  have "\<not> conflict_free sample_env (snd (activate_revision sample_env ?C 63 54 sample_catalog_db))
      (dp_workspace_id (sample_deployment 63 53 Dp_FAILED))"
    using failed_activation_revives_conflict[OF sample_catalog_get(1) _ sample_catalog_get(2) _ _ _ sample_joke_check _ fails _ sample_catalog_get(3)
        _ other _ _ m(1) m(1) m(2)] sample_catalog_get(4,5) sample_tokens sample_plugin_row sample_scopes_overlap
    by (simp add: token)
  then show ?thesis using sample_catalog_free by simp
qed

theorem draft_round_trip_witness:
  "\<exists>r draft r' s'. revision_draft sample_env (sample_catalog_world NotADirectory) 63 54 sample_catalog_db = Inr (r, draft) \<and>
     create_revision sample_env (sample_catalog_world NotADirectory) 63 \<lparr>rc_source_revision_id = Some 54,
       rc_package_version_id = None, rc_config = Some draft, rc_scope = None, rc_grants = None\<rparr> sample_catalog_db = (Inr r', s') \<and>
     draft \<noteq> sample_plugin_config \<and> rv_config_ciphertext r' = json_dumps sample_env sample_plugin_config"
proof -
  let ?C = "sample_catalog_world NotADirectory" and ?r = "sample_catalog_revision 54 63 42"
  let ?draft = "JObj [(''endpoint'', JStr ''e''), (''api_key'', JStr redaction_marker)]"
  have "map_option mf_config_schema (validate_manifest sample_env (sample_plugin_manifest ''joke'')) = Some (JObj [])" by code_simp
  then obtain m where m: "validate_manifest sample_env (sample_plugin_manifest ''joke'') = Some m" "mf_config_schema m = JObj []" by auto
  have dec: "decrypt_revision_config sample_env ?C ?r = Inr sample_plugin_config"
    by (simp add: decrypt_revision_config_def sample_env_def sample_catalog_world_def sample_plugin_config_def)
  have red: "redact_config (\<lambda>p k. None) (JObj []) sample_plugin_config = Inr ?draft" by code_simp
  have draft: "revision_draft sample_env ?C 63 54 sample_catalog_db = Inr (?r, ?draft)"
    using sample_catalog_get(1,2,4) m dec red by (simp add: revision_draft_def) (simp add: sample_catalog_world_def)
  have keys: "distinct_keys sample_plugin_config" by (simp add: sample_plugin_config_def)
  have sc: "\<exists>sc. validate_plugin_scope (sample_scope [''g@chatroom'']) 1 = Inr sc"
  proof -
    have "validate_plugin_scope (sample_scope [''g@chatroom'']) 1 = Inr (sample_scope [''g@chatroom''])" by code_simp
    then show ?thesis by blast
  qed
  have "cw_check_config ?C = (\<lambda>s c. SchemaErrors [])" by (simp add: sample_catalog_world_def)
  then have "\<exists>r' s'. create_revision sample_env ?C 63 \<lparr>rc_source_revision_id = Some 54, rc_package_version_id = None,
      rc_config = Some ?draft, rc_scope = None, rc_grants = None\<rparr> sample_catalog_db = (Inr r', s')"
    using sample_catalog_get(1,2,4) m dec sc edited_unchanged[OF keys red]
    by (auto simp: create_revision_def source_of_def revision_content_def new_revision_def validate_config_def
        Let_def case_prod_beta)
  then obtain r' s' where new: "create_revision sample_env ?C 63 \<lparr>rc_source_revision_id = Some 54, rc_package_version_id = None,
      rc_config = Some ?draft, rc_scope = None, rc_grants = None\<rparr> sample_catalog_db = (Inr r', s')" by blast
  have enc: "cw_encrypt ?C = (\<lambda>t. t)" by (simp add: sample_catalog_world_def)
  have ne: "?draft \<noteq> sample_plugin_config" by (simp add: sample_plugin_config_def redaction_marker_def)
  show ?thesis using draft_round_trip[OF draft dec keys new refl] draft new ne by (metis enc)
qed

theorem restoration_accounts_for_all_witness:
  "\<exists>s'. restore_active_deployments sample_env (\<lambda>d. sample_catalog_world NotADirectory) sample_catalog_db =
     (Inr \<lparr>rr_restored = [], rr_failed = [61]\<rparr>, s') \<and> status_of s' 61 = Some Dp_FAILED"
proof -
  have r: "restorable sample_catalog_db = [sample_deployment 61 51 Dp_RUNNING]" by (simp add: restorable_def)
  have get: "get_row dp_id 61 (deployments sample_catalog_db) = Some (sample_deployment 61 51 Dp_RUNNING)"
    "get_row rv_id 51 (revisions sample_catalog_db) = Some (sample_catalog_revision 51 61 41)"
    by (simp_all add: get_row_Cons)
  obtain m where m: "validate_manifest sample_env (sample_plugin_manifest ''weather'') = Some m" "command_names m = [''weather'']"
    using sample_manifest_names by blast
  have "running_rows sample_catalog_db 1 61 = []"
    by (simp add: running_rows_def sample_running List.map_filter_simps)
  then have check: "reject_running_command_conflicts sample_env sample_catalog_db (sample_deployment 61 51 Dp_RUNNING)
      (sample_catalog_revision 51 61 41) (sample_package 41 ''weather'') = Inr ()"
    by (simp add: reject_running_command_conflicts_def m)
  have fails: "start_candidate sample_env (sample_catalog_world NotADirectory) (sample_package 41 ''weather'') (sample_catalog_revision 51 61 41) 61 n =
      Inr (Some ''plugin package path must be a directory'')" for n
    by (simp add: start_candidate_def launch_spec_def load_plugin_manifest_def sample_catalog_world_def uncaught_load_errors_def)
  have token: "cw_token (sample_catalog_world NotADirectory) = uuid_str" by (simp add: sample_catalog_world_def)
  have "\<exists>s1. activate_revision sample_env (sample_catalog_world NotADirectory) 61 51 sample_catalog_db =
      (Inl (PluginActivationError ''candidate plugin activation failed''), s1)"
    using get sample_catalog_get(5) check fails sample_tokens
    by (simp add: activate_revision_def Let_def case_prod_beta starting_activation_def token)
  then obtain s' where res: "restore_active_deployments sample_env (\<lambda>d. sample_catalog_world NotADirectory) sample_catalog_db =
      (Inr \<lparr>rr_restored = [], rr_failed = [61]\<rparr>, s')"
    using get by (auto simp: restore_active_deployments_def r)
  have "unique_by dp_id (deployments sample_catalog_db)" by (simp add: unique_by_def)
  from restoration_accounts_for_all[OF this res] show ?thesis using res by simp
qed

theorem missing_package_stops_restoration_witness:
  "fst (restore_active_deployments sample_env (\<lambda>d. sample_catalog_world NoSuchPath) sample_catalog_db) =
     Inl (OtherRaised ''FileNotFoundError'')"
proof (rule missing_package_stops_restoration)
  show "restorable sample_catalog_db = [sample_deployment 61 51 Dp_RUNNING]" by (simp add: restorable_def)
  show "unique_by dp_id (deployments sample_catalog_db)" by (simp add: unique_by_def)
  show "dp_active_revision_id (sample_deployment 61 51 Dp_RUNNING) = Some 51" by simp
  show "get_row rv_id 51 (revisions sample_catalog_db) = Some (sample_catalog_revision 51 61 41)" by (simp add: get_row_Cons)
  show "rv_deployment_id (sample_catalog_revision 51 61 41) = dp_id (sample_deployment 61 51 Dp_RUNNING)" by simp
  show "get_row pv_id (rv_package_version_id (sample_catalog_revision 51 61 41)) (packages sample_catalog_db) =
      Some (sample_package 41 ''weather'')" by (simp add: get_row_Cons)
  show "pv_status (sample_package 41 ''weather'') = Pk_AVAILABLE" by simp
  obtain m where m: "validate_manifest sample_env (sample_plugin_manifest ''weather'') = Some m" "command_names m = [''weather'']"
    using sample_manifest_names by blast
  have "running_rows sample_catalog_db 1 61 = []"
    by (simp add: running_rows_def sample_running List.map_filter_simps)
  then show "reject_running_command_conflicts sample_env sample_catalog_db (sample_deployment 61 51 Dp_RUNNING)
      (sample_catalog_revision 51 61 41) (sample_package 41 ''weather'') = Inr ()"
    by (simp add: reject_running_command_conflicts_def m)
  have token: "cw_token (sample_catalog_world NoSuchPath) = uuid_str" by (simp add: sample_catalog_world_def)
  show "\<forall>b\<in>set (activations sample_catalog_db). pa_fencing_token b \<noteq>
      cw_token (sample_catalog_world NoSuchPath) (fst (alloc sample_env sample_catalog_db))"
    using sample_tokens by (simp add: token)
  show "cw_tree (sample_catalog_world NoSuchPath) (pv_package_path (sample_package 41 ''weather'')) = NoSuchPath"
    by (simp add: sample_catalog_world_def)
qed

end
