(* ===== verification/Supervisor.thy ===== *)
theory Supervisor
  imports Prelude "HOL-Library.Multiset"
begin

text \<open>
  The supervisor of the plugin processes (\<open>PluginSupervisor\<close> of
  \<open>plugins/supervisor.py\<close>) as a state machine.  A step is a section of a coroutine
  between two suspension points; steps of different coroutines interleave freely.  Objects that
  the code compares by identity are numbered and kept in stores.
\<close>

section \<open>State\<close>

datatype supervisor_error = PluginRuntimeError string | PluginNotActiveError string | StalePluginResultError string

datatype process_state = Starting | Running | Stopped

record active_plugin =
  av_process :: nat
  av_epoch :: int
  av_in_flight :: int
  av_accepting :: bool
  av_drained :: bool

record activation_preparation =
  ap_deployment :: string
  ap_epoch :: int
  ap_candidate :: "nat option"

record deactivation_preparation =
  dq_deployment :: string
  dq_active :: "nat option"

text \<open>
  Besides the attributes of the supervisor: the objects by number, the state of each process,
  the plugins some coroutine waits for to drain before it stops their process, and the calls
  that hold a plugin (by deployment and plugin).
\<close>

record supervisor =
  sv_active :: "string \<Rightarrow> nat option"
  sv_last_epoch :: "string \<Rightarrow> int option"
  sv_pending_activations :: "string \<Rightarrow> nat option"
  sv_pending_deactivations :: "string \<Rightarrow> nat option"
  sv_plugins :: "nat \<Rightarrow> active_plugin option"
  sv_activations :: "nat \<Rightarrow> activation_preparation option"
  sv_deactivations :: "nat \<Rightarrow> deactivation_preparation option"
  sv_processes :: "nat \<Rightarrow> process_state option"
  sv_retiring :: "nat set"
  sv_calls :: "(string \<times> nat) multiset"
  sv_fresh :: nat

definition new_supervisor :: supervisor where
  "new_supervisor = \<lparr>sv_active = Map.empty, sv_last_epoch = Map.empty, sv_pending_activations = Map.empty,
     sv_pending_deactivations = Map.empty, sv_plugins = Map.empty, sv_activations = Map.empty,
     sv_deactivations = Map.empty, sv_processes = Map.empty, sv_retiring = {}, sv_calls = {#}, sv_fresh = 0\<rparr>"

definition last_epoch :: "supervisor \<Rightarrow> string \<Rightarrow> int" where
  "last_epoch s d = (case sv_last_epoch s d of None \<Rightarrow> 0 | Some e \<Rightarrow> e)"

definition transition_pending :: "supervisor \<Rightarrow> string \<Rightarrow> bool" where
  "transition_pending s d \<longleftrightarrow> sv_pending_activations s d \<noteq> None \<or> sv_pending_deactivations s d \<noteq> None"

definition stop_process :: "nat \<Rightarrow> supervisor \<Rightarrow> supervisor" where
  "stop_process p s = s\<lparr>sv_processes := (sv_processes s)(p \<mapsto> Stopped)\<rparr>"

section \<open>Activation\<close>

text \<open>The first section of \<open>prepare_activation\<close>; the candidate process is about to start.\<close>

definition begin_activation ::
    "string \<Rightarrow> int option \<Rightarrow> supervisor \<Rightarrow> (supervisor_error, nat \<times> supervisor) res" where
  "begin_activation d requested s =
     (if transition_pending s d then Inl (PluginRuntimeError ''plugin deployment already has a pending transition'')
      else let epoch = (case requested of Some e \<Rightarrow> e | None \<Rightarrow> last_epoch s d + 1)
           in if epoch \<le> last_epoch s d
              then Inl (PluginRuntimeError ''activation epoch must increase monotonically'')
              else let n = sv_fresh s in
                Inr (n, s\<lparr>sv_pending_activations := (sv_pending_activations s)(d \<mapsto> n),
                  sv_activations := (sv_activations s)(n \<mapsto> \<lparr>ap_deployment = d, ap_epoch = epoch, ap_candidate = Some n\<rparr>),
                  sv_processes := (sv_processes s)(n \<mapsto> Starting), sv_fresh := Suc n\<rparr>))"

definition is_pending :: "supervisor \<Rightarrow> nat \<Rightarrow> activation_preparation \<Rightarrow> bool" where
  "is_pending s n p \<longleftrightarrow> sv_pending_activations s (ap_deployment p) = Some n"

text \<open>
  Aborting stops the candidate, unless its start is still under way: then it may not have been
  spawned yet, and the coroutine that starts it stops it when it finds the preparation gone.
\<close>

definition stop_candidate :: "nat \<Rightarrow> supervisor \<Rightarrow> supervisor" where
  "stop_candidate c s = (if sv_processes s c = Some Starting then s else stop_process c s)"

definition abort_activation :: "nat \<Rightarrow> supervisor \<Rightarrow> supervisor" where
  "abort_activation n s =
     (case sv_activations s n of
        None \<Rightarrow> s
      | Some p \<Rightarrow>
          if \<not> is_pending s n p then s
          else let s1 = s\<lparr>sv_pending_activations := (sv_pending_activations s)(ap_deployment p := None)\<rparr>
               in case ap_candidate p of None \<Rightarrow> s1 | Some c \<Rightarrow> stop_candidate c s1)"

text \<open>The candidate has started, or has not; \<open>start\<close> stops a process that fails.\<close>

definition activation_started :: "nat \<Rightarrow> supervisor \<Rightarrow> (supervisor_error, nat) res \<times> supervisor" where
  "activation_started n s =
     (case Option.bind (sv_activations s n) ap_candidate of
        None \<Rightarrow> (Inl (PluginRuntimeError ''plugin activation candidate is unavailable''), s)
      | Some c \<Rightarrow>
          if is_pending s n (the (sv_activations s n))
          then (Inr n, s\<lparr>sv_processes := (sv_processes s)(c \<mapsto> Running)\<rparr>)
          else (Inl (PluginRuntimeError ''plugin activation preparation is no longer valid''), stop_process c s))"

definition activation_start_failed :: "nat \<Rightarrow> supervisor \<Rightarrow> supervisor" where
  "activation_start_failed n s =
     (case Option.bind (sv_activations s n) ap_candidate of
        None \<Rightarrow> abort_activation n s
      | Some c \<Rightarrow> abort_activation n (stop_process c s))"

definition stop_accepting :: "nat \<Rightarrow> supervisor \<Rightarrow> supervisor" where
  "stop_accepting k s = s\<lparr>sv_plugins := (sv_plugins s)(k := map_option (av_accepting_update (\<lambda>_. False)) (sv_plugins s k))\<rparr>"

definition retire :: "nat option \<Rightarrow> supervisor \<Rightarrow> supervisor" where
  "retire old s = (case old of None \<Rightarrow> s | Some k \<Rightarrow> (stop_accepting k s)\<lparr>sv_retiring := insert k (sv_retiring s)\<rparr>)"

text \<open>
  \<open>commit_activation\<close> up to the wait for the old plugin to drain; what follows the wait
  is \<open>finish_retiring\<close>.
\<close>

definition commit_activation :: "nat \<Rightarrow> supervisor \<Rightarrow> (supervisor_error, int) res \<times> supervisor" where
  "commit_activation n s =
     (case sv_activations s n of
        None \<Rightarrow> (Inl (PluginRuntimeError ''plugin activation preparation is no longer valid''), s)
      | Some p \<Rightarrow>
          (case ap_candidate p of
             None \<Rightarrow> (Inl (PluginRuntimeError ''plugin activation candidate is unavailable''), abort_activation n s)
           | Some c \<Rightarrow>
               if \<not> is_pending s n p
               then (Inl (PluginRuntimeError ''plugin activation preparation is no longer valid''), s)
               else let d = ap_deployment p; k = sv_fresh s; s1 = retire (sv_active s d) s
                    in (Inr (ap_epoch p), s1\<lparr>sv_pending_activations := (sv_pending_activations s1)(d := None),
                          sv_last_epoch := (sv_last_epoch s1)(d \<mapsto> ap_epoch p),
                          sv_plugins := (sv_plugins s1)(k \<mapsto> \<lparr>av_process = c, av_epoch = ap_epoch p,
                            av_in_flight = 0, av_accepting = True, av_drained = True\<rparr>),
                          sv_active := (sv_active s1)(d \<mapsto> k), sv_fresh := Suc k\<rparr>)))"

text \<open>A plugin that has drained is stopped.\<close>

definition finish_retiring :: "nat \<Rightarrow> supervisor \<Rightarrow> supervisor option" where
  "finish_retiring k s =
     (case sv_plugins s k of
        Some a \<Rightarrow>
          if k \<in> sv_retiring s \<and> av_drained a
          then Some (stop_process (av_process a) (s\<lparr>sv_retiring := sv_retiring s - {k}\<rparr>)) else None
      | None \<Rightarrow> None)"

section \<open>Deactivation\<close>

definition prepare_deactivation :: "string \<Rightarrow> supervisor \<Rightarrow> (supervisor_error, nat \<times> supervisor) res" where
  "prepare_deactivation d s =
     (if transition_pending s d then Inl (PluginRuntimeError ''plugin deployment already has a pending transition'')
      else let n = sv_fresh s;
               s1 = (case sv_active s d of None \<Rightarrow> s | Some k \<Rightarrow> stop_accepting k s)
           in Inr (n, s1\<lparr>sv_pending_deactivations := (sv_pending_deactivations s1)(d \<mapsto> n),
                sv_deactivations := (sv_deactivations s1)(n \<mapsto> \<lparr>dq_deployment = d, dq_active = sv_active s d\<rparr>),
                sv_fresh := Suc n\<rparr>))"

definition commit_deactivation :: "nat \<Rightarrow> supervisor \<Rightarrow> (supervisor_error, unit) res \<times> supervisor" where
  "commit_deactivation n s =
     (case sv_deactivations s n of
        None \<Rightarrow> (Inl (PluginRuntimeError ''plugin deactivation preparation is no longer valid''), s)
      | Some q \<Rightarrow>
          let d = dq_deployment q in
          if sv_pending_deactivations s d \<noteq> Some n
          then (Inl (PluginRuntimeError ''plugin deactivation preparation is no longer valid''), s)
          else let s1 = s\<lparr>sv_pending_deactivations := (sv_pending_deactivations s)(d := None)\<rparr>
               in case dq_active q of
                    None \<Rightarrow> (Inr (), s1)
                  | Some k \<Rightarrow>
                      (Inr (), s1\<lparr>sv_active := (if sv_active s1 d = Some k then (sv_active s1)(d := None) else sv_active s1),
                        sv_retiring := insert k (sv_retiring s1)\<rparr>))"

definition abort_deactivation :: "nat \<Rightarrow> supervisor \<Rightarrow> supervisor" where
  "abort_deactivation n s =
     (case sv_deactivations s n of
        None \<Rightarrow> s
      | Some q \<Rightarrow>
          let d = dq_deployment q in
          if sv_pending_deactivations s d \<noteq> Some n then s
          else let s1 = s\<lparr>sv_pending_deactivations := (sv_pending_deactivations s)(d := None)\<rparr>
               in case dq_active q of
                    None \<Rightarrow> s1
                  | Some k \<Rightarrow>
                      if sv_active s1 d = Some k
                      then s1\<lparr>sv_plugins := (sv_plugins s1)(k := map_option (av_accepting_update (\<lambda>_. True)) (sv_plugins s1 k))\<rparr>
                      else s1)"

section \<open>Calls\<close>

definition acquire :: "string \<Rightarrow> supervisor \<Rightarrow> (supervisor_error, nat \<times> supervisor) res" where
  "acquire d s =
     (case Option.bind (sv_active s d) (\<lambda>k. map_option (Pair k) (sv_plugins s k)) of
        None \<Rightarrow> Inl (PluginNotActiveError ''plugin deployment is not active'')
      | Some (k, a) \<Rightarrow>
          if \<not> av_accepting a then Inl (PluginNotActiveError ''plugin deployment is not active'')
          else Inr (k, s\<lparr>sv_plugins := (sv_plugins s)(k \<mapsto> a\<lparr>av_in_flight := av_in_flight a + 1, av_drained := False\<rparr>),
                        sv_calls := add_mset (d, k) (sv_calls s)\<rparr>))"

definition release :: "string \<Rightarrow> nat \<Rightarrow> supervisor \<Rightarrow> supervisor" where
  "release d k s =
     (case sv_plugins s k of
        None \<Rightarrow> s
      | Some a \<Rightarrow>
          let n = av_in_flight a - 1
          in s\<lparr>sv_plugins := (sv_plugins s)(k \<mapsto> a\<lparr>av_in_flight := n, av_drained := (if n = 0 then True else av_drained a)\<rparr>),
               sv_calls := sv_calls s - {#(d, k)#}\<rparr>)"

text \<open>The last section of \<open>call\<close>, after the plugin has answered and was released.\<close>

definition call_result :: "string \<Rightarrow> nat \<Rightarrow> 'r \<Rightarrow> supervisor \<Rightarrow> (supervisor_error, int \<times> 'r) res" where
  "call_result d k answer s =
     (if sv_active s d \<noteq> Some k then Inl (StalePluginResultError ''plugin result belongs to a stale activation'')
      else case sv_plugins s k of
        None \<Rightarrow> Inl (StalePluginResultError ''plugin result belongs to a stale activation'')
      | Some a \<Rightarrow> Inr (av_epoch a, answer))"

section \<open>Runs\<close>

text \<open>
  A preparation is committed by a client only after \<open>prepare_activation\<close> has returned it,
  that is, with a running candidate; a coroutine releases what it has acquired.
\<close>

inductive supervisor_step :: "supervisor \<Rightarrow> supervisor \<Rightarrow> bool" where
  begun: "begin_activation d requested s = Inr (n, s') \<Longrightarrow> supervisor_step s s'"
| started: "sv_activations s n = Some p \<Longrightarrow> ap_candidate p = Some c \<Longrightarrow> sv_processes s c = Some Starting \<Longrightarrow>
    supervisor_step s (snd (activation_started n s))"
| start_failed: "sv_activations s n = Some p \<Longrightarrow> ap_candidate p = Some c \<Longrightarrow> sv_processes s c = Some Starting \<Longrightarrow>
    supervisor_step s (activation_start_failed n s)"
| abort: "supervisor_step s (abort_activation n s)"
| commit: "sv_activations s n = Some p \<Longrightarrow> ap_candidate p = Some c \<Longrightarrow> sv_processes s c = Some Running \<Longrightarrow>
    supervisor_step s (snd (commit_activation n s))"
| retired: "finish_retiring k s = Some s' \<Longrightarrow> supervisor_step s s'"
| prepare_deactivation: "prepare_deactivation d s = Inr (n, s') \<Longrightarrow> supervisor_step s s'"
| commit_deactivation: "supervisor_step s (snd (commit_deactivation n s))"
| abort_deactivation: "supervisor_step s (abort_deactivation n s)"
| acquire: "acquire d s = Inr (k, s') \<Longrightarrow> supervisor_step s s'"
| release: "(d, k) \<in># sv_calls s \<Longrightarrow> supervisor_step s (release d k s)"

definition supervisor_run :: "supervisor \<Rightarrow> supervisor \<Rightarrow> bool" where
  "supervisor_run = supervisor_step\<^sup>*\<^sup>*"

section \<open>Invariant\<close>

text \<open>
  Every call in flight is counted by its plugin; a plugin is active, or waits to drain, or has
  been stopped with no call in flight; the process of a plugin belongs to it alone and runs until
  it is stopped; an active plugin carries the last epoch of its deployment; a deployment has at
  most one pending transition, and a pending activation has a later epoch.
\<close>

definition calls_on :: "supervisor \<Rightarrow> nat \<Rightarrow> nat" where
  "calls_on s k = size (filter_mset (\<lambda>c. snd c = k) (sv_calls s))"

definition plugin_ok :: "supervisor \<Rightarrow> nat \<Rightarrow> active_plugin \<Rightarrow> bool" where
  "plugin_ok s k a \<longleftrightarrow> av_in_flight a = int (calls_on s k) \<and> (av_drained a \<longleftrightarrow> av_in_flight a = 0) \<and>
     ((\<exists>d. sv_active s d = Some k) \<and> k \<notin> sv_retiring s \<and> sv_processes s (av_process a) = Some Running \<or>
      (\<forall>d. sv_active s d \<noteq> Some k) \<and> k \<in> sv_retiring s \<and> sv_processes s (av_process a) = Some Running \<or>
      (\<forall>d. sv_active s d \<noteq> Some k) \<and> k \<notin> sv_retiring s \<and> av_in_flight a = 0)"

definition actives_ok :: "supervisor \<Rightarrow> bool" where
  "actives_ok s \<longleftrightarrow>
     (\<forall>d k. sv_active s d = Some k \<longrightarrow> (\<exists>a. sv_plugins s k = Some a \<and> sv_last_epoch s d = Some (av_epoch a))) \<and>
     (\<forall>d d' k. sv_active s d = Some k \<longrightarrow> sv_active s d' = Some k \<longrightarrow> d = d')"

definition processes_ok :: "supervisor \<Rightarrow> bool" where
  "processes_ok s \<longleftrightarrow>
     (\<forall>k k' a a'. sv_plugins s k = Some a \<longrightarrow> sv_plugins s k' = Some a' \<longrightarrow> av_process a = av_process a' \<longrightarrow> k = k') \<and>
     (\<forall>n p c. sv_activations s n = Some p \<longrightarrow> ap_candidate p = Some c \<longrightarrow> c = n) \<and>
     (\<forall>k a. sv_plugins s k = Some a \<longrightarrow> sv_processes s (av_process a) \<noteq> Some Starting \<and>
        (\<forall>d. sv_pending_activations s d \<noteq> Some (av_process a))) \<and>
     (\<forall>n. sv_fresh s \<le> n \<longrightarrow> sv_plugins s n = None \<and> sv_activations s n = None \<and> sv_processes s n = None \<and> n \<notin> sv_retiring s) \<and>
     (\<forall>k a. sv_plugins s k = Some a \<longrightarrow> av_process a < sv_fresh s)"

definition transitions_ok :: "supervisor \<Rightarrow> bool" where
  "transitions_ok s \<longleftrightarrow>
     (\<forall>d n. sv_pending_activations s d = Some n \<longrightarrow> sv_pending_deactivations s d = None \<and>
        (\<exists>p. sv_activations s n = Some p \<and> ap_deployment p = d \<and> last_epoch s d < ap_epoch p)) \<and>
     (\<forall>d n. sv_pending_deactivations s d = Some n \<longrightarrow> (\<exists>q. sv_deactivations s n = Some q \<and>
        dq_deployment q = d \<and> dq_active q = sv_active s d)) \<and>
     (\<forall>n. sv_fresh s \<le> n \<longrightarrow> sv_deactivations s n = None)"

definition supervisor_ok :: "supervisor \<Rightarrow> bool" where
  "supervisor_ok s \<longleftrightarrow> (\<forall>k a. sv_plugins s k = Some a \<longrightarrow> plugin_ok s k a) \<and>
     (\<forall>c\<in>#sv_calls s. sv_plugins s (snd c) \<noteq> None) \<and> sv_retiring s \<subseteq> dom (sv_plugins s) \<and>
     actives_ok s \<and> processes_ok s \<and> transitions_ok s"

lemmas supervisor_invariant_defs = supervisor_ok_def plugin_ok_def actives_ok_def processes_ok_def transitions_ok_def
  calls_on_def

lemma new_supervisor_ok: "supervisor_ok new_supervisor"
  by (simp add: supervisor_invariant_defs new_supervisor_def)

lemma supervisor_okI:
  assumes "\<And>k a. sv_plugins s k = Some a \<Longrightarrow> plugin_ok s k a" "\<forall>c\<in>#sv_calls s. sv_plugins s (snd c) \<noteq> None"
    "sv_retiring s \<subseteq> dom (sv_plugins s)" "actives_ok s" "processes_ok s" "transitions_ok s"
  shows "supervisor_ok s"
  using assms by (simp add: supervisor_ok_def)

lemma supervisor_okD:
  assumes "supervisor_ok s"
  shows "sv_plugins s k = Some a \<Longrightarrow> plugin_ok s k a" "c \<in># sv_calls s \<Longrightarrow> \<exists>a. sv_plugins s (snd c) = Some a"
    "k \<in> sv_retiring s \<Longrightarrow> \<exists>a. sv_plugins s k = Some a" "actives_ok s" "processes_ok s" "transitions_ok s"
  using assms by (auto simp: supervisor_ok_def)

lemma plugin_ok_cong:
  assumes "sv_calls s' = sv_calls s" "sv_active s' = sv_active s" "sv_retiring s' = sv_retiring s"
    "sv_processes s' (av_process a) = sv_processes s (av_process a)" "plugin_ok s k a"
  shows "plugin_ok s' k a"
  using assms(5) unfolding plugin_ok_def calls_on_def assms(1-4) .

lemma plugin_ok_cong2:
  assumes "sv_calls s' = sv_calls s" "sv_active s' = sv_active s" "sv_retiring s' = sv_retiring s"
    "sv_processes s' (av_process a) = sv_processes s (av_process b)"
    "av_in_flight a = av_in_flight b" "av_drained a = av_drained b" "plugin_ok s k b"
  shows "plugin_ok s' k a"
  using assms(7) unfolding plugin_ok_def calls_on_def assms(1-6) .

lemma plugin_ok_cong3:
  assumes "calls_on s' k = calls_on s k" "\<And>d. (sv_active s' d = Some k) = (sv_active s d = Some k)"
    "(k \<in> sv_retiring s') = (k \<in> sv_retiring s)" "sv_processes s' (av_process a) = sv_processes s (av_process a)"
    "plugin_ok s k a"
  shows "plugin_ok s' k a"
  using assms(5) unfolding plugin_ok_def assms(1-4) .

lemma begin_activation_ok:
  assumes ok: "supervisor_ok s" and b: "begin_activation d requested s = Inr (n, s')"
  shows "supervisor_ok s'"
proof -
  note D = supervisor_okD[OF ok]
  define epoch where "epoch = (case requested of Some e \<Rightarrow> e | None \<Rightarrow> last_epoch s d + 1)"
  have no: "\<not> transition_pending s d" "last_epoch s d < epoch" "n = sv_fresh s"
    and s': "s' = s\<lparr>sv_pending_activations := (sv_pending_activations s)(d \<mapsto> n),
        sv_activations := (sv_activations s)(n \<mapsto> \<lparr>ap_deployment = d, ap_epoch = epoch, ap_candidate = Some n\<rparr>),
        sv_processes := (sv_processes s)(n \<mapsto> Starting), sv_fresh := Suc n\<rparr>"
    using b by (auto simp: begin_activation_def Let_def epoch_def split: if_split_asm)
  have fresh: "av_process a \<noteq> n" if "sv_plugins s k = Some a" for k a
    using D(5) that no(3) unfolding processes_ok_def by (metis less_irrefl)
  show ?thesis
  proof (rule supervisor_okI)
    show "plugin_ok s' k a" if "sv_plugins s' k = Some a" for k a
      by (rule plugin_ok_cong[of s' s]) (use D(1)[of k a] that fresh[of k a] in \<open>simp_all add: s'\<close>)
    show "\<forall>c\<in>#sv_calls s'. sv_plugins s' (snd c) \<noteq> None" using D(2) by (simp add: s')
    show "sv_retiring s' \<subseteq> dom (sv_plugins s')" using D(3) by (auto simp: s')
    show "actives_ok s'" using D(4) by (simp add: s' actives_ok_def)
    show "processes_ok s'" unfolding processes_ok_def
    proof (intro conjI allI impI)
      note P = D(5)[unfolded processes_ok_def]
      show "c = m" if "sv_activations s' m = Some p" "ap_candidate p = Some c" for m p c
        using P that by (auto simp: s' split: if_split_asm)
      show "sv_processes s' (av_process a) \<noteq> Some Starting" "sv_pending_activations s' e \<noteq> Some (av_process a)"
        if "sv_plugins s' k = Some a" for k a e
        using P that fresh[of k a] by (auto simp: s')
      show "k = k'" if "sv_plugins s' k = Some a" "sv_plugins s' k' = Some a'" "av_process a = av_process a'" for k k' a a'
        using P that by (simp add: s')
      show "av_process a < sv_fresh s'" if "sv_plugins s' k = Some a" for k a
        using P that by (auto simp: s' no(3) less_Suc_eq)
    qed (use D(5) no(3) in \<open>auto simp: s' processes_ok_def\<close>)
    have new: "sv_activations s n = None" using D(5) no(3) by (simp add: processes_ok_def)
    have last: "last_epoch s' e = last_epoch s e" for e by (simp add: s' last_epoch_def)
    show "transitions_ok s'" unfolding transitions_ok_def last
    proof (intro conjI allI impI)
      note T = D(6)[unfolded transitions_ok_def]
      show "sv_pending_deactivations s' e = None" if "sv_pending_activations s' e = Some m" for e m
        using T that no(1) by (auto simp: s' transition_pending_def split: if_split_asm)
      show "\<exists>p. sv_activations s' m = Some p \<and> ap_deployment p = e \<and> last_epoch s e < ap_epoch p"
        if "sv_pending_activations s' e = Some m" for e m
      proof (cases "e = d")
        case True
        then show ?thesis using that no(2) by (simp add: s')
      next
        case False
        then have "sv_pending_activations s e = Some m" using that by (simp add: s')
        then obtain p where p: "sv_activations s m = Some p" "ap_deployment p = e" "last_epoch s e < ap_epoch p"
          using T by blast
        then have "m \<noteq> n" using new by auto
        then show ?thesis using p by (simp add: s')
      qed
    qed (use D(6) no(3) in \<open>auto simp: s' transitions_ok_def\<close>)
  qed
qed

lemma stop_process_sel [simp]:
  "sv_calls (stop_process p s) = sv_calls s" "sv_active (stop_process p s) = sv_active s"
  "sv_retiring (stop_process p s) = sv_retiring s" "sv_plugins (stop_process p s) = sv_plugins s"
  "sv_activations (stop_process p s) = sv_activations s" "sv_pending_activations (stop_process p s) = sv_pending_activations s"
  "sv_processes (stop_process p s) = (sv_processes s)(p \<mapsto> Stopped)" "sv_fresh (stop_process p s) = sv_fresh s"
  "sv_last_epoch (stop_process p s) = sv_last_epoch s" "sv_pending_deactivations (stop_process p s) = sv_pending_deactivations s"
  "sv_deactivations (stop_process p s) = sv_deactivations s"
  by (simp_all add: stop_process_def)

text \<open>Processes that belong to no plugin may start and stop.\<close>

lemma set_process_ok:
  assumes ok: "supervisor_ok s" and p: "p < sv_fresh s" and free: "\<And>k a. sv_plugins s k = Some a \<Longrightarrow> av_process a \<noteq> p"
    and s': "s' = s\<lparr>sv_processes := (sv_processes s)(p \<mapsto> st)\<rparr>"
  shows "supervisor_ok s'"
proof -
  note D = supervisor_okD[OF ok]
  show ?thesis
  proof (rule supervisor_okI)
    show "plugin_ok s' k a" if "sv_plugins s' k = Some a" for k a
      by (rule plugin_ok_cong[of s' s]) (use D(1)[of k a] that free[of k a] in \<open>simp_all add: s'\<close>)
    show "\<forall>c\<in>#sv_calls s'. sv_plugins s' (snd c) \<noteq> None" using D(2) by (simp add: s')
    show "sv_retiring s' \<subseteq> dom (sv_plugins s')" using D(3) by (auto simp: s')
    show "actives_ok s'" using D(4) by (simp add: s' actives_ok_def)
    show "processes_ok s'" using D(5) free p unfolding processes_ok_def s' by auto
    show "transitions_ok s'" using D(6) by (simp add: transitions_ok_def s' last_epoch_def)
  qed
qed

lemma clear_pending_ok:
  assumes ok: "supervisor_ok s" and s': "s' = s\<lparr>sv_pending_activations := (sv_pending_activations s)(d := None)\<rparr>"
  shows "supervisor_ok s'"
proof -
  note D = supervisor_okD[OF ok]
  show ?thesis
  proof (rule supervisor_okI)
    show "plugin_ok s' k a" if "sv_plugins s' k = Some a" for k a
      by (rule plugin_ok_cong[of s' s]) (use D(1)[of k a] that in \<open>simp_all add: s'\<close>)
    show "\<forall>c\<in>#sv_calls s'. sv_plugins s' (snd c) \<noteq> None" using D(2) by (simp add: s')
    show "sv_retiring s' \<subseteq> dom (sv_plugins s')" using D(3) by (auto simp: s')
    show "actives_ok s'" using D(4) by (simp add: s' actives_ok_def)
    show "processes_ok s'" using D(5) by (simp add: processes_ok_def s')
    show "transitions_ok s'" using D(6) by (simp add: transitions_ok_def s' last_epoch_def)
  qed
qed

text \<open>What is known of the candidate of a preparation.\<close>

lemma candidate_facts:
  assumes ok: "supervisor_ok s" and p: "sv_activations s n = Some p" "ap_candidate p = Some c"
  shows "c = n" "n < sv_fresh s"
    and "is_pending s n p \<or> sv_processes s c = Some Starting \<Longrightarrow> sv_plugins s k = Some a \<Longrightarrow> av_process a \<noteq> c"
proof -
  note P = supervisor_okD(5)[OF ok, unfolded processes_ok_def]
  show c: "c = n" using P p by blast
  show "n < sv_fresh s" using P p(1) by (metis not_le option.distinct(1))
  show "av_process a \<noteq> c" if "is_pending s n p \<or> sv_processes s c = Some Starting" "sv_plugins s k = Some a"
    using P that unfolding is_pending_def c by blast
qed

lemma abort_activation_ok:
  assumes ok: "supervisor_ok s"
  shows "supervisor_ok (abort_activation n s)"
proof (cases "sv_activations s n")
  case None
  then show ?thesis using ok by (simp add: abort_activation_def)
next
  case p: (Some p)
  let ?s1 = "s\<lparr>sv_pending_activations := (sv_pending_activations s)(ap_deployment p := None)\<rparr>"
  have ok1: "supervisor_ok ?s1" by (rule clear_pending_ok[OF ok refl])
  show ?thesis
  proof (cases "is_pending s n p")
    case False
    then show ?thesis using ok p by (simp add: abort_activation_def)
  next
    case pend: True
    show ?thesis
    proof (cases "ap_candidate p")
      case None
      then show ?thesis using ok1 p pend by (simp add: abort_activation_def)
    next
      case c: (Some c)
      note f = candidate_facts[OF ok p c]
      have "supervisor_ok (stop_candidate c ?s1)"
      proof (cases "sv_processes s c = Some Starting")
        case True
        then show ?thesis using ok1 by (simp add: stop_candidate_def)
      next
        case False
        have "supervisor_ok (stop_process c ?s1)"
          by (rule set_process_ok[OF ok1, of c _ Stopped]) (use f pend in \<open>auto simp: stop_process_def\<close>)
        then show ?thesis using False by (simp add: stop_candidate_def)
      qed
      then show ?thesis using p pend c by (simp add: abort_activation_def)
    qed
  qed
qed

lemma activation_started_ok:
  assumes ok: "supervisor_ok s" and p: "sv_activations s n = Some p" "ap_candidate p = Some c"
    and st: "sv_processes s c = Some Starting"
  shows "supervisor_ok (snd (activation_started n s))"
proof -
  note f = candidate_facts[OF ok p]
  have "supervisor_ok (s\<lparr>sv_processes := (sv_processes s)(c \<mapsto> q)\<rparr>)" for q
    by (rule set_process_ok[OF ok, of c _ q]) (use f st in auto)
  then show ?thesis using p by (simp add: activation_started_def stop_process_def)
qed

lemma activation_start_failed_ok:
  assumes ok: "supervisor_ok s" and p: "sv_activations s n = Some p" "ap_candidate p = Some c"
    and st: "sv_processes s c = Some Starting"
  shows "supervisor_ok (activation_start_failed n s)"
proof -
  note f = candidate_facts[OF ok p]
  have "supervisor_ok (stop_process c s)"
    by (rule set_process_ok[OF ok, of c _ Stopped]) (use f st in \<open>auto simp: stop_process_def\<close>)
  then show ?thesis using p abort_activation_ok by (simp add: activation_start_failed_def)
qed

lemma stop_accepting_ok:
  assumes ok: "supervisor_ok s"
  shows "supervisor_ok (s\<lparr>sv_plugins := (sv_plugins s)(k := map_option (av_accepting_update f) (sv_plugins s k))\<rparr>)"
proof -
  note D = supervisor_okD[OF ok]
  let ?s' = "s\<lparr>sv_plugins := (sv_plugins s)(k := map_option (av_accepting_update f) (sv_plugins s k))\<rparr>"
  have row: "\<exists>b. sv_plugins s j = Some b \<and> av_process a = av_process b \<and> av_epoch a = av_epoch b \<and>
      av_in_flight a = av_in_flight b \<and> av_drained a = av_drained b" if "sv_plugins ?s' j = Some a" for j a
    using that by (auto split: if_split_asm)
  have row': "\<exists>a. sv_plugins ?s' j = Some a \<and> av_epoch a = av_epoch b" if "sv_plugins s j = Some b" for j b
    using that by (cases "j = k") auto
  show ?thesis
  proof (rule supervisor_okI)
    show "plugin_ok ?s' j a" if a: "sv_plugins ?s' j = Some a" for j a
    proof -
      obtain b where b: "sv_plugins s j = Some b" "av_process a = av_process b" "av_in_flight a = av_in_flight b" "av_drained a = av_drained b"
        using row[OF a] by blast
      show ?thesis by (rule plugin_ok_cong2[of ?s' s _ b]) (use D(1)[OF b(1)] b in simp_all)
    qed
    show "\<forall>c\<in>#sv_calls ?s'. sv_plugins ?s' (snd c) \<noteq> None" using D(2) by auto
    show "sv_retiring ?s' \<subseteq> dom (sv_plugins ?s')" using D(3) by (auto simp: dom_def)
    have same: "sv_active ?s' = sv_active s" "sv_last_epoch ?s' = sv_last_epoch s" by simp_all
    show "actives_ok ?s'" unfolding actives_ok_def same
    proof (intro conjI allI impI)
      show "\<exists>a. sv_plugins ?s' j = Some a \<and> sv_last_epoch s d = Some (av_epoch a)" if "sv_active s d = Some j" for d j
        using D(4) that row' unfolding actives_ok_def by metis
      show "d = d'" if "sv_active s d = Some j" "sv_active s d' = Some j" for d d' j
        using D(4) that unfolding actives_ok_def by blast
    qed
    show "processes_ok ?s'"
      unfolding processes_ok_def
    proof (intro conjI allI impI)
      note P = D(5)[unfolded processes_ok_def]
      show "j = j'" if "sv_plugins ?s' j = Some a" "sv_plugins ?s' j' = Some a'" "av_process a = av_process a'" for j j' a a'
        using P row[OF that(1)] row[OF that(2)] that(3) by metis
      show "c = n" if "sv_activations ?s' n = Some p" "ap_candidate p = Some c" for n p c using P that by simp
      show "sv_processes ?s' (av_process a) \<noteq> Some Starting" if "sv_plugins ?s' j = Some a" for j a
        using P row[OF that] by auto
      show "sv_pending_activations ?s' d \<noteq> Some (av_process a)" if "sv_plugins ?s' j = Some a" for j a d
        using P row[OF that] by auto
      show "av_process a < sv_fresh ?s'" if "sv_plugins ?s' j = Some a" for j a
        using P row[OF that] by auto
    qed (use D(5) in \<open>auto simp: processes_ok_def\<close>)
    show "transitions_ok ?s'" using D(6) by (simp add: transitions_ok_def last_epoch_def)
  qed
qed

lemma no_calls_on_fresh: "supervisor_ok s \<Longrightarrow> sv_plugins s k = None \<Longrightarrow> calls_on s k = 0"
  using supervisor_okD(2) by (fastforce simp: calls_on_def filter_mset_eq_mempty_iff)

lemma install_plugin_ok:
  assumes ok: "supervisor_ok s" and p: "sv_activations s n = Some p" "ap_candidate p = Some c" "is_pending s n p"
    and run: "sv_processes s c = Some Running" and d: "d = ap_deployment p" and k: "k = sv_fresh s"
    and s': "s' = s\<lparr>sv_pending_activations := (sv_pending_activations s)(d := None),
        sv_last_epoch := (sv_last_epoch s)(d \<mapsto> ap_epoch p),
        sv_plugins := (sv_plugins s)(k \<mapsto> \<lparr>av_process = c, av_epoch = ap_epoch p,
          av_in_flight = 0, av_accepting = True, av_drained = True\<rparr>),
        sv_active := (sv_active s)(d \<mapsto> k), sv_retiring := sv_retiring s \<union> set_option (sv_active s d), sv_fresh := Suc k\<rparr>"
  shows "supervisor_ok s'"
proof -
  note D = supervisor_okD[OF ok] and P = supervisor_okD(5)[OF ok, unfolded processes_ok_def]
    and A = supervisor_okD(4)[OF ok, unfolded actives_ok_def] and T = supervisor_okD(6)[OF ok, unfolded transitions_ok_def]
  note f = candidate_facts[OF ok p(1,2)]
  have new: "sv_plugins s k = None" "k \<notin> sv_retiring s" using P k by auto
  have noact: "sv_active s e \<noteq> Some k" for e using A new(1) by fastforce
  have old: "\<exists>a. sv_plugins s j = Some a" if "sv_active s e = Some j" for e j using A that by blast
  show ?thesis
  proof (rule supervisor_okI)
    show "plugin_ok s' j a" if a: "sv_plugins s' j = Some a" for j a
    proof (cases "j = k")
      case True
      then show ?thesis using a no_calls_on_fresh[OF ok new(1)] new(2) noact run
        by (auto simp: s' plugin_ok_def calls_on_def)
    next
      case False
      then have a0: "sv_plugins s j = Some a" using a by (simp add: s')
      note pk = D(1)[OF a0]
      show ?thesis
      proof (cases "sv_active s d = Some j")
        case True
        then have "sv_active s' e \<noteq> Some j" for e using A False by (auto simp: s')
        moreover have "sv_processes s (av_process a) = Some Running" using pk True unfolding plugin_ok_def by blast
        ultimately show ?thesis using pk True by (simp add: s' plugin_ok_def calls_on_def)
      next
        case other: False
        then have "(sv_active s' e = Some j) = (sv_active s e = Some j)" for e using False by (simp add: s')
        moreover have "(j \<in> sv_retiring s') = (j \<in> sv_retiring s)" using other by (cases "sv_active s d") (auto simp: s')
        moreover have "calls_on s' j = calls_on s j" "sv_processes s' = sv_processes s" by (simp_all add: s' calls_on_def)
        ultimately show ?thesis using pk by (intro plugin_ok_cong3[of s' j s a]) simp_all
      qed
    qed
    show "\<forall>c\<in>#sv_calls s'. sv_plugins s' (snd c) \<noteq> None" using D(2) by (auto simp: s')
    show "sv_retiring s' \<subseteq> dom (sv_plugins s')"
      using D(3) old by (cases "sv_active s d") (auto simp: s')
    show "actives_ok s'" unfolding actives_ok_def
    proof (intro conjI allI impI)
      show "\<exists>a. sv_plugins s' j = Some a \<and> sv_last_epoch s' e = Some (av_epoch a)" if "sv_active s' e = Some j" for e j
      proof (cases "e = d")
        case False
        then have e: "sv_active s e = Some j" using that by (simp add: s')
        then have "j \<noteq> k" using noact by blast
        then show ?thesis using A e False by (simp add: s')
      qed (use that in \<open>simp add: s'\<close>)
      show "e = e'" if "sv_active s' e = Some j" "sv_active s' e' = Some j" for e e' j
        using that A noact by (auto simp: s' split: if_split_asm)
    qed
    show "processes_ok s'" unfolding processes_ok_def
    proof (intro conjI allI impI)
      show "j = j'" if "sv_plugins s' j = Some a" "sv_plugins s' j' = Some a'" "av_process a = av_process a'" for j j' a a'
      proof -
        have free: "av_process b \<noteq> c" if "sv_plugins s i = Some b" for i b using f(3) p(3) that by blast
        show ?thesis
        proof (cases "j = k \<or> j' = k")
          case True
          then show ?thesis using that free[of j a] free[of j' a'] by (auto simp: s' split: if_split_asm)
        next
          case False
          then show ?thesis using that P by (simp add: s')
        qed
      qed
      show "sv_processes s' (av_process a) \<noteq> Some Starting" if "sv_plugins s' j = Some a" for j a
        using that P run by (auto simp: s' split: if_split_asm)
      show "sv_pending_activations s' e \<noteq> Some (av_process a)" if "sv_plugins s' j = Some a" for j a e
      proof (cases "j = k")
        case True
        have "e = d" if "sv_pending_activations s e = Some n" using T that p(1) d by fastforce
        then show ?thesis using True \<open>sv_plugins s' j = Some a\<close> f(1) by (auto simp: s')
      next
        case False
        then show ?thesis using that P by (auto simp: s')
      qed
      show "av_process a < sv_fresh s'" if "sv_plugins s' j = Some a" for j a
        using that P f(1,2) by (auto simp: s' k less_Suc_eq split: if_split_asm)
      show "m \<notin> sv_retiring s'" if "sv_fresh s' \<le> m" for m
      proof -
        have m: "sv_fresh s \<le> m" using that by (simp add: s' k)
        then have "sv_plugins s m = None" "m \<notin> sv_retiring s" using P by blast+
        moreover from this have "sv_active s d \<noteq> Some m" using old by fastforce
        ultimately show ?thesis by (auto simp: s' elem_set)
      qed
    qed (use P k in \<open>auto simp: s'\<close>)
    show "transitions_ok s'" unfolding transitions_ok_def
    proof (intro conjI allI impI)
      show "sv_pending_deactivations s' e = None" if "sv_pending_activations s' e = Some m" for e m
        using that T by (auto simp: s' split: if_split_asm)
      show "\<exists>q. sv_activations s' m = Some q \<and> ap_deployment q = e \<and> last_epoch s' e < ap_epoch q"
        if "sv_pending_activations s' e = Some m" for e m
        using that T by (auto simp: s' last_epoch_def split: if_split_asm)
      show "\<exists>q. sv_deactivations s' m = Some q \<and> dq_deployment q = e \<and> dq_active q = sv_active s' e"
        if "sv_pending_deactivations s' e = Some m" for e m
      proof -
        have "sv_pending_deactivations s d = None" using T p(3) unfolding is_pending_def d by blast
        then have "e \<noteq> d" "sv_pending_deactivations s e = Some m" using that by (auto simp: s')
        then show ?thesis using T by (simp add: s')
      qed
    qed (use T k in \<open>auto simp: s'\<close>)
  qed
qed

lemma stop_accepting_sel [simp]:
  "sv_active (stop_accepting k s) = sv_active s" "sv_processes (stop_accepting k s) = sv_processes s"
  "sv_activations (stop_accepting k s) = sv_activations s" "sv_fresh (stop_accepting k s) = sv_fresh s"
  "sv_pending_activations (stop_accepting k s) = sv_pending_activations s" "sv_retiring (stop_accepting k s) = sv_retiring s"
  "sv_last_epoch (stop_accepting k s) = sv_last_epoch s" "sv_calls (stop_accepting k s) = sv_calls s"
  "sv_pending_deactivations (stop_accepting k s) = sv_pending_deactivations s" "sv_deactivations (stop_accepting k s) = sv_deactivations s"
  by (simp_all add: stop_accepting_def)

lemma commit_activation_ok:
  assumes ok: "supervisor_ok s" and p: "sv_activations s n = Some p" "ap_candidate p = Some c"
    and run: "sv_processes s c = Some Running"
  shows "supervisor_ok (snd (commit_activation n s))"
proof (cases "is_pending s n p")
  case False
  then show ?thesis using ok p by (simp add: commit_activation_def)
next
  case pend: True
  let ?d = "ap_deployment p"
  define s0 where "s0 = (case sv_active s ?d of None \<Rightarrow> s | Some k \<Rightarrow> stop_accepting k s)"
  have ok0: "supervisor_ok s0"
    unfolding s0_def using ok stop_accepting_ok[OF ok] by (simp add: stop_accepting_def split: option.split)
  have sel: "sv_active s0 = sv_active s" "sv_processes s0 = sv_processes s" "sv_activations s0 = sv_activations s"
    "sv_fresh s0 = sv_fresh s" "sv_pending_activations s0 = sv_pending_activations s" "sv_retiring s0 = sv_retiring s"
    "sv_last_epoch s0 = sv_last_epoch s"
    by (simp_all add: s0_def split: option.split)
  have "retire (sv_active s ?d) s = s0\<lparr>sv_retiring := sv_retiring s \<union> set_option (sv_active s ?d)\<rparr>"
    by (simp add: retire_def s0_def split: option.split)
  then have "snd (commit_activation n s) = s0\<lparr>sv_pending_activations := (sv_pending_activations s0)(?d := None),
        sv_last_epoch := (sv_last_epoch s0)(?d \<mapsto> ap_epoch p),
        sv_plugins := (sv_plugins s0)(sv_fresh s0 \<mapsto> \<lparr>av_process = c, av_epoch = ap_epoch p,
          av_in_flight = 0, av_accepting = True, av_drained = True\<rparr>),
        sv_active := (sv_active s0)(?d \<mapsto> sv_fresh s0), sv_retiring := sv_retiring s0 \<union> set_option (sv_active s0 ?d),
        sv_fresh := Suc (sv_fresh s0)\<rparr>"
    using p pend by (simp add: commit_activation_def Let_def sel)
  then show ?thesis
    using install_plugin_ok[OF ok0, of n p c ?d "sv_fresh s0"] p pend run by (simp add: sel is_pending_def)
qed

lemma finish_retiring_ok:
  assumes ok: "supervisor_ok s" and fin: "finish_retiring k s = Some s'"
  shows "supervisor_ok s'"
proof -
  note D = supervisor_okD[OF ok] and P = supervisor_okD(5)[OF ok, unfolded processes_ok_def]
  obtain a where a: "sv_plugins s k = Some a" "k \<in> sv_retiring s" "av_drained a"
    and s': "s' = stop_process (av_process a) (s\<lparr>sv_retiring := sv_retiring s - {k}\<rparr>)"
    using fin by (auto simp: finish_retiring_def split: option.split_asm if_split_asm)
  show ?thesis
  proof (rule supervisor_okI)
    show "plugin_ok s' j b" if "sv_plugins s' j = Some b" for j b
    proof (cases "j = k")
      case True
      then have b: "b = a" using that a(1) by (simp add: s')
      have "av_in_flight a = int (calls_on s k)" "av_in_flight a = 0" "\<forall>d. sv_active s d \<noteq> Some k"
        using D(1)[OF a(1)] a(2,3) unfolding plugin_ok_def by blast+
      moreover have "calls_on s' k = calls_on s k" "sv_active s' = sv_active s" "k \<notin> sv_retiring s'"
        by (simp_all add: s' calls_on_def)
      ultimately show ?thesis using a(3) unfolding b True plugin_ok_def by simp
    next
      case False
      then have b: "sv_plugins s j = Some b" using that by (simp add: s')
      then have "av_process b \<noteq> av_process a" using P a(1) False by blast
      then show ?thesis using D(1)[OF b] False
        by (intro plugin_ok_cong3[of s' j s b]) (simp_all add: s' calls_on_def)
    qed
    show "\<forall>c\<in>#sv_calls s'. sv_plugins s' (snd c) \<noteq> None" using D(2) by (auto simp: s')
    show "sv_retiring s' \<subseteq> dom (sv_plugins s')" using D(3) by (auto simp: s')
    show "actives_ok s'" using D(4) by (simp add: s' actives_ok_def)
    show "processes_ok s'" unfolding processes_ok_def
    proof (intro conjI allI impI)
      have "av_process a < sv_fresh s" using P a(1) by blast
      then show "sv_processes s' m = None" if "sv_fresh s' \<le> m" for m using P that by (auto simp: s')
      show "j = j'" if "sv_plugins s' j = Some b" "sv_plugins s' j' = Some b'" "av_process b = av_process b'" for j j' b b'
        using P that by (simp add: s')
    qed (use P in \<open>auto simp: s'\<close>)
    show "transitions_ok s'" using D(6) by (simp add: transitions_ok_def s' last_epoch_def)
  qed
qed

lemma processes_ok_fresh:
  assumes "processes_ok s" "sv_plugins s' = sv_plugins s" "sv_activations s' = sv_activations s"
    "sv_processes s' = sv_processes s" "sv_pending_activations s' = sv_pending_activations s"
    "sv_retiring s' = sv_retiring s" "sv_fresh s \<le> sv_fresh s'"
  shows "processes_ok s'"
  unfolding processes_ok_def assms(2-6)
proof (intro conjI allI impI)
  note P = assms(1)[unfolded processes_ok_def]
  show "av_process a < sv_fresh s'" if "sv_plugins s k = Some a" for k a
    using P that assms(7) by (meson less_le_trans)
  show "sv_plugins s n = None" "sv_activations s n = None" "sv_processes s n = None" "n \<notin> sv_retiring s" if "sv_fresh s' \<le> n" for n
    using P that assms(7) by (meson le_trans)+
  show "k = k'" if "sv_plugins s k = Some a" "sv_plugins s k' = Some a'" "av_process a = av_process a'" for k k' a a'
    using P that by blast
qed (use assms(1) in \<open>auto simp: processes_ok_def\<close>)

lemma prepare_deactivation_ok:
  assumes ok: "supervisor_ok s" and prep: "prepare_deactivation d s = Inr (n, s')"
  shows "supervisor_ok s'"
proof -
  define s0 where "s0 = (case sv_active s d of None \<Rightarrow> s | Some k \<Rightarrow> stop_accepting k s)"
  have ok0: "supervisor_ok s0"
    unfolding s0_def using ok stop_accepting_ok[OF ok] by (simp add: stop_accepting_def split: option.split)
  have sel: "sv_active s0 = sv_active s" "sv_fresh s0 = sv_fresh s" "sv_pending_activations s0 = sv_pending_activations s"
    "sv_pending_deactivations s0 = sv_pending_deactivations s" "sv_deactivations s0 = sv_deactivations s"
    "sv_last_epoch s0 = sv_last_epoch s"
    by (simp_all add: s0_def split: option.split)
  have no: "\<not> transition_pending s d" "n = sv_fresh s"
    and s': "s' = s0\<lparr>sv_pending_deactivations := (sv_pending_deactivations s0)(d \<mapsto> n),
        sv_deactivations := (sv_deactivations s0)(n \<mapsto> \<lparr>dq_deployment = d, dq_active = sv_active s d\<rparr>), sv_fresh := Suc n\<rparr>"
    using prep by (auto simp: prepare_deactivation_def Let_def s0_def split: if_split_asm)
  note D = supervisor_okD[OF ok0] and T = supervisor_okD(6)[OF ok0, unfolded transitions_ok_def]
  show ?thesis
  proof (rule supervisor_okI)
    show "plugin_ok s' k a" if "sv_plugins s' k = Some a" for k a
      by (rule plugin_ok_cong[of s' s0]) (use D(1)[of k a] that in \<open>simp_all add: s'\<close>)
    show "\<forall>c\<in>#sv_calls s'. sv_plugins s' (snd c) \<noteq> None" using D(2) by (auto simp: s')
    show "sv_retiring s' \<subseteq> dom (sv_plugins s')" using D(3) by (auto simp: s')
    show "actives_ok s'" using D(4) by (simp add: s' actives_ok_def)
    show "processes_ok s'" by (rule processes_ok_fresh[OF D(5)]) (simp_all add: s' no(2) sel)
    show "transitions_ok s'" unfolding transitions_ok_def
    proof (intro conjI allI impI)
      show "sv_pending_deactivations s' e = None" if "sv_pending_activations s' e = Some m" for e m
        using that T no(1) by (auto simp: s' transition_pending_def sel)
      show "\<exists>q. sv_activations s' m = Some q \<and> ap_deployment q = e \<and> last_epoch s' e < ap_epoch q"
        if "sv_pending_activations s' e = Some m" for e m
        using that T by (auto simp: s' last_epoch_def)
      show "\<exists>q. sv_deactivations s' m = Some q \<and> dq_deployment q = e \<and> dq_active q = sv_active s' e"
        if "sv_pending_deactivations s' e = Some m" for e m
      proof (cases "e = d")
        case True
        then show ?thesis using that by (simp add: s' sel)
      next
        case False
        then have "sv_pending_deactivations s0 e = Some m" using that by (simp add: s')
        then obtain q where q: "sv_deactivations s0 m = Some q" "dq_deployment q = e" "dq_active q = sv_active s0 e" using T by blast
        moreover have "m \<noteq> n" using q(1) T no(2) sel(2) by (metis option.distinct(1) order_refl)
        ultimately show ?thesis by (simp add: s')
      qed
    qed (use T no(2) sel in \<open>auto simp: s'\<close>)
  qed
qed

lemma clear_deactivation_ok:
  assumes ok: "supervisor_ok s" and s': "s' = s\<lparr>sv_pending_deactivations := (sv_pending_deactivations s)(d := None)\<rparr>"
  shows "supervisor_ok s'"
proof -
  note D = supervisor_okD[OF ok] and T = supervisor_okD(6)[OF ok, unfolded transitions_ok_def]
  show ?thesis
  proof (rule supervisor_okI)
    show "plugin_ok s' k a" if "sv_plugins s' k = Some a" for k a
      by (rule plugin_ok_cong[of s' s]) (use D(1)[of k a] that in \<open>simp_all add: s'\<close>)
    show "\<forall>c\<in>#sv_calls s'. sv_plugins s' (snd c) \<noteq> None" using D(2) by (auto simp: s')
    show "sv_retiring s' \<subseteq> dom (sv_plugins s')" using D(3) by (auto simp: s')
    show "actives_ok s'" using D(4) by (simp add: s' actives_ok_def)
    show "processes_ok s'" by (rule processes_ok_fresh[OF D(5)]) (simp_all add: s')
    show "transitions_ok s'" using T unfolding transitions_ok_def s' last_epoch_def by auto
  qed
qed

lemma commit_deactivation_ok:
  assumes ok: "supervisor_ok s"
  shows "supervisor_ok (snd (commit_deactivation n s))"
proof (cases "sv_deactivations s n")
  case None
  then show ?thesis using ok by (simp add: commit_deactivation_def)
next
  case q: (Some q)
  let ?d = "dq_deployment q"
  define s1 where "s1 = s\<lparr>sv_pending_deactivations := (sv_pending_deactivations s)(?d := None)\<rparr>"
  have ok1: "supervisor_ok s1" by (rule clear_deactivation_ok[OF ok s1_def])
  note D = supervisor_okD[OF ok1] and A = supervisor_okD(4)[OF ok1, unfolded actives_ok_def]
    and T = supervisor_okD(6)[OF ok, unfolded transitions_ok_def]
  show ?thesis
  proof (cases "sv_pending_deactivations s ?d = Some n")
    case False
    then show ?thesis using ok q by (simp add: commit_deactivation_def)
  next
    case pend: True
    then have act: "dq_active q = sv_active s ?d" using T q by force
    show ?thesis
    proof (cases "dq_active q")
      case None
      then show ?thesis using ok1 q pend by (simp add: commit_deactivation_def Let_def s1_def)
    next
      case (Some k)
      then have ak: "sv_active s1 ?d = Some k" using act by (simp add: s1_def)
      let ?s' = "s1\<lparr>sv_active := (sv_active s1)(?d := None), sv_retiring := insert k (sv_retiring s1)\<rparr>"
      have res: "snd (commit_deactivation n s) = ?s'"
        using q pend Some ak by (simp add: commit_deactivation_def Let_def s1_def)
      obtain a where a: "sv_plugins s1 k = Some a" using A ak by blast
      have only: "sv_active s1 e = Some k \<Longrightarrow> e = ?d" for e using A ak by blast
      show ?thesis unfolding res
      proof (rule supervisor_okI)
        show "plugin_ok ?s' j b" if "sv_plugins ?s' j = Some b" for j b
        proof (cases "j = k")
          case True
          then have b: "sv_plugins s1 k = Some b" using that by simp
          have "sv_processes s1 (av_process b) = Some Running" "av_in_flight b = int (calls_on s1 k)" "av_drained b = (av_in_flight b = 0)"
            using D(1)[OF b] ak unfolding plugin_ok_def by blast+
          moreover have "sv_active ?s' e \<noteq> Some k" for e using only by auto
          moreover have "calls_on ?s' k = calls_on s1 k" by (simp add: calls_on_def)
          ultimately show ?thesis unfolding plugin_ok_def True by simp
        next
          case False
          have b: "sv_plugins s1 j = Some b" using that by simp
          have ne: "sv_active s1 ?d \<noteq> Some j" using ak False by simp
          show ?thesis by (rule plugin_ok_cong3[of ?s' j s1 b]) (use D(1)[OF b] False ne in \<open>auto simp: calls_on_def\<close>)
        qed
        show "\<forall>c\<in>#sv_calls ?s'. sv_plugins ?s' (snd c) \<noteq> None" using D(2) by auto
        show "sv_retiring ?s' \<subseteq> dom (sv_plugins ?s')" using D(3) a by auto
        show "actives_ok ?s'" using A by (simp add: actives_ok_def)
        show "processes_ok ?s'"
        proof -
          have "k < sv_fresh s1" by (rule ccontr) (use D(5) a in \<open>auto simp: processes_ok_def\<close>)
          then show ?thesis using D(5) unfolding processes_ok_def by auto
        qed
        show "transitions_ok ?s'" using D(6) by (auto simp: transitions_ok_def last_epoch_def s1_def)
      qed
    qed
  qed
qed

lemma abort_deactivation_ok:
  assumes ok: "supervisor_ok s"
  shows "supervisor_ok (abort_deactivation n s)"
proof (cases "sv_deactivations s n")
  case None
  then show ?thesis using ok by (simp add: abort_deactivation_def)
next
  case (Some q)
  let ?s1 = "s\<lparr>sv_pending_deactivations := (sv_pending_deactivations s)(dq_deployment q := None)\<rparr>"
  have ok1: "supervisor_ok ?s1" by (rule clear_deactivation_ok[OF ok refl])
  show ?thesis using ok ok1 stop_accepting_ok[OF ok1] Some
    by (simp add: abort_deactivation_def Let_def split: option.split)
qed

text \<open>A plugin whose number of calls changes in step with its counter.\<close>

lemma count_calls_ok:
  assumes ok: "supervisor_ok s" and a: "sv_plugins s k = Some a"
    and b: "av_process b = av_process a" "av_epoch b = av_epoch a"
    and n: "av_in_flight b = int (calls_on s' k)" "av_drained b = (av_in_flight b = 0)"
    and live: "av_in_flight b = 0 \<or> k \<in> sv_retiring s \<or> (\<exists>d. sv_active s d = Some k)"
    and calls: "\<And>j. j \<noteq> k \<Longrightarrow> calls_on s' j = calls_on s j" "snd ` set_mset (sv_calls s') \<subseteq> insert k (snd ` set_mset (sv_calls s))"
    and s': "s' = s\<lparr>sv_plugins := (sv_plugins s)(k \<mapsto> b), sv_calls := cs\<rparr>"
  shows "supervisor_ok s'"
proof -
  note D = supervisor_okD[OF ok]
  have row: "\<exists>c. sv_plugins s j = Some c \<and> av_process x = av_process c \<and> av_epoch x = av_epoch c" if "sv_plugins s' j = Some x" for j x
    using that a b by (auto simp: s' split: if_split_asm)
  have same: "sv_active s' = sv_active s" "sv_last_epoch s' = sv_last_epoch s" by (simp_all add: s')
  show ?thesis
  proof (rule supervisor_okI)
    show "plugin_ok s' j x" if x: "sv_plugins s' j = Some x" for j x
    proof (cases "j = k")
      case True
      then have xb: "x = b" using x by (simp add: s')
      have pk: "plugin_ok s k a" using D(1)[OF a] .
      have fr: "sv_active s' = sv_active s" "sv_retiring s' = sv_retiring s" "sv_processes s' = sv_processes s" by (simp_all add: s')
      show ?thesis using pk live n unfolding plugin_ok_def xb True fr b(1) by blast
    next
      case False
      then have "sv_plugins s j = Some x" using x by (simp add: s')
      then show ?thesis using D(1) calls(1)[OF False] by (intro plugin_ok_cong3[of s' j s x]) (simp_all add: s')
    qed
    show "\<forall>c\<in>#sv_calls s'. sv_plugins s' (snd c) \<noteq> None"
    proof
      fix c assume "c \<in># sv_calls s'"
      then have "snd c = k \<or> (\<exists>c'\<in>#sv_calls s. snd c = snd c')" using calls(2) by auto
      then show "sv_plugins s' (snd c) \<noteq> None" using D(2) by (auto simp: s')
    qed
    show "sv_retiring s' \<subseteq> dom (sv_plugins s')" using D(3) by (auto simp: s')
    show "actives_ok s'" unfolding actives_ok_def same
    proof (intro conjI allI impI)
      show "\<exists>x. sv_plugins s' j = Some x \<and> sv_last_epoch s d = Some (av_epoch x)" if dj: "sv_active s d = Some j" for d j
      proof -
        obtain y :: active_plugin where y: "sv_plugins s j = Some y" "sv_last_epoch s d = Some (av_epoch y)"
          using D(4) dj unfolding actives_ok_def by blast
        then show ?thesis using a b(2) by (cases "j = k") (auto simp: s')
      qed
      show "d = d'" if "sv_active s d = Some j" "sv_active s d' = Some j" for d d' j
        using D(4) that unfolding actives_ok_def by blast
    qed
    show "processes_ok s'" unfolding processes_ok_def
    proof (intro conjI allI impI)
      note P = D(5)[unfolded processes_ok_def]
      show "j = j'" if "sv_plugins s' j = Some x" "sv_plugins s' j' = Some x'" "av_process x = av_process x'" for j j' x x'
        using P row[OF that(1)] row[OF that(2)] that(3) by metis
      show "sv_processes s' (av_process x) \<noteq> Some Starting" if "sv_plugins s' j = Some x" for j x
        using P row[OF that] by (auto simp: s')
      show "sv_pending_activations s' d \<noteq> Some (av_process x)" if "sv_plugins s' j = Some x" for j x d
        using P row[OF that] by (auto simp: s')
      show "av_process x < sv_fresh s'" if "sv_plugins s' j = Some x" for j x
        using P row[OF that] by (auto simp: s')
      show "sv_plugins s' m = None" if "sv_fresh s' \<le> m" for m using P that a by (auto simp: s')
    qed (use D(5) in \<open>auto simp: processes_ok_def s'\<close>)
    show "transitions_ok s'" using D(6) by (simp add: transitions_ok_def last_epoch_def s')
  qed
qed

lemma acquire_ok:
  assumes ok: "supervisor_ok s" and acq: "acquire d s = Inr (k, s')"
  shows "supervisor_ok s'"
proof -
  obtain a where a: "sv_active s d = Some k" "sv_plugins s k = Some a"
    and s': "s' = s\<lparr>sv_plugins := (sv_plugins s)(k \<mapsto> a\<lparr>av_in_flight := av_in_flight a + 1, av_drained := False\<rparr>),
        sv_calls := add_mset (d, k) (sv_calls s)\<rparr>"
    using acq by (auto simp: acquire_def bind_eq_Some_conv split: option.split_asm if_split_asm)
  have "av_in_flight a = int (calls_on s k)" using supervisor_okD(1)[OF ok a(2)] by (simp add: plugin_ok_def)
  then show ?thesis
    by (intro count_calls_ok[OF ok a(2) _ _ _ _ _ _ _ s']) (use a(1) in \<open>auto simp: s' calls_on_def\<close>)
qed

lemma release_ok:
  assumes ok: "supervisor_ok s" and c: "(d, k) \<in># sv_calls s"
  shows "supervisor_ok (release d k s)"
proof -
  obtain a where a: "sv_plugins s k = Some a" using supervisor_okD(2)[OF ok c] by auto
  let ?n = "av_in_flight a - 1"
  let ?b = "a\<lparr>av_in_flight := ?n, av_drained := (if ?n = 0 then True else av_drained a)\<rparr>"
  let ?s' = "s\<lparr>sv_plugins := (sv_plugins s)(k \<mapsto> ?b), sv_calls := sv_calls s - {#(d, k)#}\<rparr>"
  have res: "release d k s = ?s'" using a by (simp add: release_def Let_def)
  have pk: "plugin_ok s k a" using supervisor_okD(1)[OF ok a] .
  have one: "calls_on s k = Suc (calls_on ?s' k)"
  proof -
    have "(d, k) \<in># filter_mset (\<lambda>c. snd c = k) (sv_calls s)" using c by simp
    from size_Suc_Diff1[OF this] show ?thesis by (simp add: calls_on_def)
  qed
  have cnt: "av_in_flight a = int (calls_on s k)" "av_drained a = (av_in_flight a = 0)"
    using pk unfolding plugin_ok_def by blast+
  have "0 < av_in_flight a" using cnt(1) one by simp
  then have live: "k \<in> sv_retiring s \<or> (\<exists>d. sv_active s d = Some k)" using pk unfolding plugin_ok_def by force
  show ?thesis unfolding res
  proof (rule count_calls_ok[OF ok a _ _ _ _ _ _ _ refl])
    show "av_in_flight ?b = int (calls_on ?s' k)" using cnt one by simp
    show "av_drained ?b = (av_in_flight ?b = 0)" using cnt one by simp
    show "calls_on ?s' j = calls_on s j" if "j \<noteq> k" for j using that by (simp add: calls_on_def)
    show "snd ` set_mset (sv_calls ?s') \<subseteq> insert k (snd ` set_mset (sv_calls s))" by (auto dest: in_diffD)
  qed (use live in auto)
qed

lemma supervisor_step_ok: "supervisor_step s s' \<Longrightarrow> supervisor_ok s \<Longrightarrow> supervisor_ok s'"
proof (induction rule: supervisor_step.induct)
  case (begun d requested s n s')
  then show ?case by (metis begin_activation_ok)
next
  case (started s n p c)
  then show ?case by (metis activation_started_ok)
next
  case (start_failed s n p c)
  then show ?case by (metis activation_start_failed_ok)
next
  case (abort s n)
  then show ?case by (rule abort_activation_ok)
next
  case (commit s n p c)
  then show ?case by (metis commit_activation_ok)
next
  case (retired k s s')
  then show ?case by (metis finish_retiring_ok)
next
  case (prepare_deactivation d s n s')
  then show ?case by (metis prepare_deactivation_ok)
next
  case (commit_deactivation s n)
  then show ?case by (rule commit_deactivation_ok)
next
  case (abort_deactivation s n)
  then show ?case by (rule abort_deactivation_ok)
next
  case (acquire d s k s')
  then show ?case by (metis acquire_ok)
next
  case (release d k s)
  then show ?case by (metis release_ok)
qed

lemma supervisor_run_ok: "supervisor_run s s' \<Longrightarrow> supervisor_ok s \<Longrightarrow> supervisor_ok s'"
  unfolding supervisor_run_def by (induction rule: rtranclp_induct) (auto intro: supervisor_step_ok)

section \<open>What a step keeps\<close>

text \<open>
  No step changes the process or the epoch of a plugin, lowers the last epoch of a deployment,
  or makes a plugin active that was not.
\<close>

definition keeps :: "supervisor \<Rightarrow> supervisor \<Rightarrow> bool" where
  "keeps s s' \<longleftrightarrow>
     (\<forall>k a. sv_plugins s k = Some a \<longrightarrow>
        (\<exists>a'. sv_plugins s' k = Some a' \<and> av_process a' = av_process a \<and> av_epoch a' = av_epoch a)) \<and>
     (\<forall>d. last_epoch s d \<le> last_epoch s' d) \<and>
     (\<forall>d k. sv_plugins s k \<noteq> None \<longrightarrow> sv_active s' d = Some k \<longrightarrow> sv_active s d = Some k \<and> last_epoch s' d = last_epoch s d)"

lemma keeps_refl [simp]: "keeps s s"
  by (simp add: keeps_def)

lemma keeps_trans: "keeps s t \<Longrightarrow> keeps t u \<Longrightarrow> keeps s u"
  unfolding keeps_def by (smt (verit, del_insts) option.distinct(1) order.trans option.exhaust)

lemma keepsI:
  assumes "sv_active s' = sv_active s" "sv_last_epoch s' = sv_last_epoch s"
    "\<And>k a. sv_plugins s k = Some a \<Longrightarrow> \<exists>a'. sv_plugins s' k = Some a' \<and> av_process a' = av_process a \<and> av_epoch a' = av_epoch a"
  shows "keeps s s'"
  using assms by (simp add: keeps_def last_epoch_def)

lemma abort_activation_sel [simp]:
  "sv_active (abort_activation n s) = sv_active s" "sv_last_epoch (abort_activation n s) = sv_last_epoch s"
  "sv_plugins (abort_activation n s) = sv_plugins s" "sv_calls (abort_activation n s) = sv_calls s"
  by (simp_all add: abort_activation_def stop_candidate_def Let_def split: option.split)

lemma commit_keeps:
  assumes ok: "supervisor_ok s" and p: "sv_activations s n = Some p" "ap_candidate p = Some c" "is_pending s n p"
  shows "keeps s (snd (commit_activation n s)) \<and> fst (commit_activation n s) = Inr (ap_epoch p) \<and>
    last_epoch s (ap_deployment p) < ap_epoch p \<and> last_epoch (snd (commit_activation n s)) (ap_deployment p) = ap_epoch p"
proof -
  let ?d = "ap_deployment p" and ?k = "sv_fresh s"
  let ?s1 = "retire (sv_active s ?d) s"
  have sel: "sv_active ?s1 = sv_active s" "sv_last_epoch ?s1 = sv_last_epoch s"
    by (simp_all add: retire_def split: option.split)
  have res: "commit_activation n s = (Inr (ap_epoch p), ?s1\<lparr>sv_pending_activations := (sv_pending_activations ?s1)(?d := None),
        sv_last_epoch := (sv_last_epoch ?s1)(?d \<mapsto> ap_epoch p),
        sv_plugins := (sv_plugins ?s1)(?k \<mapsto> \<lparr>av_process = c, av_epoch = ap_epoch p,
          av_in_flight = 0, av_accepting = True, av_drained = True\<rparr>),
        sv_active := (sv_active ?s1)(?d \<mapsto> ?k), sv_fresh := Suc ?k\<rparr>)"
    using p by (simp add: commit_activation_def Let_def)
  have plugins: "\<exists>a'. sv_plugins ?s1 j = Some a' \<and> av_process a' = av_process a \<and> av_epoch a' = av_epoch a"
    if "sv_plugins s j = Some a" for j a
    using that by (simp add: retire_def stop_accepting_def split: option.split)
  have new: "sv_plugins s ?k = None" using supervisor_okD(5)[OF ok] by (simp add: processes_ok_def)
  have up: "last_epoch s ?d < ap_epoch p"
    using supervisor_okD(6)[OF ok] p unfolding transitions_ok_def is_pending_def by fastforce
  have "keeps s (snd (commit_activation n s))" unfolding keeps_def
  proof (intro conjI allI impI)
    show "\<exists>a'. sv_plugins (snd (commit_activation n s)) j = Some a' \<and> av_process a' = av_process a \<and> av_epoch a' = av_epoch a"
      if a: "sv_plugins s j = Some a" for j a
      using plugins[OF a] a new by (cases "j = ?k") (auto simp: res)
    show "last_epoch s e \<le> last_epoch (snd (commit_activation n s)) e" for e
      using up by (simp add: res sel last_epoch_def)
    show "sv_active s e = Some j" "last_epoch (snd (commit_activation n s)) e = last_epoch s e"
      if "sv_plugins s j \<noteq> None" "sv_active (snd (commit_activation n s)) e = Some j" for e j
      using that new by (auto simp: res sel last_epoch_def split: if_split_asm)
  qed
  then show ?thesis using up by (simp add: res last_epoch_def)
qed

lemma supervisor_step_keeps: "supervisor_step s s' \<Longrightarrow> supervisor_ok s \<Longrightarrow> keeps s s'"
proof (induction rule: supervisor_step.induct)
  case (begun d requested s n s')
  then show ?case by (intro keepsI) (auto simp: begin_activation_def Let_def split: if_split_asm)
next
  case (started s n p c)
  then show ?case by (intro keepsI) (auto simp: activation_started_def)
next
  case (start_failed s n p c)
  then show ?case by (intro keepsI) (auto simp: activation_start_failed_def)
next
  case (abort s n)
  then show ?case by (intro keepsI) auto
next
  case (commit s n p c)
  show ?case
  proof (cases "is_pending s n p")
    case True
    then show ?thesis using commit_keeps commit by blast
  qed (use commit in \<open>simp add: commit_activation_def\<close>)
next
  case (retired k s s')
  then show ?case by (intro keepsI) (auto simp: finish_retiring_def split: option.split_asm if_split_asm)
next
  case (prepare_deactivation d s n s')
  then show ?case
    by (intro keepsI) (auto simp: prepare_deactivation_def Let_def stop_accepting_def split: option.splits if_split_asm)
next
  case (commit_deactivation s n)
  then show ?case
    by (auto simp: keeps_def commit_deactivation_def Let_def last_epoch_def split: option.split if_split_asm)
next
  case (abort_deactivation s n)
  then show ?case by (intro keepsI) (auto simp: abort_deactivation_def Let_def split: option.split)
next
  case (acquire d s k s')
  then show ?case by (intro keepsI) (auto simp: acquire_def bind_eq_Some_conv split: option.split_asm if_split_asm)
next
  case (release d k s)
  then show ?case by (intro keepsI) (auto simp: release_def Let_def split: option.split)
qed

lemma supervisor_run_keeps:
  assumes "supervisor_run s s'" "supervisor_ok s"
  shows "keeps s s'"
  using assms unfolding supervisor_run_def
proof (induction rule: rtranclp_induct)
  case (step t u)
  have "supervisor_ok t" using supervisor_run_ok[of s t] step.hyps(1) step.prems by (simp add: supervisor_run_def)
  then show ?case using keeps_trans step.IH step.prems supervisor_step_keeps[OF step.hyps(2)] by blast
qed simp

section \<open>Properties\<close>


text \<open>
  C28: Results of a replaced plugin are fenced off: a call that was acquired on a deployment is
  answered, with the epoch at which it was acquired, only if the same activation is still active
  when the plugin answers; once a later epoch has been committed the result is refused as stale.
\<close>

theorem stale_results_are_refused:
  assumes run: "supervisor_run new_supervisor s" and acq: "acquire d s = Inr (k, s1)" and later: "supervisor_run s1 s'"
  shows "call_result d k answer s' =
      (if sv_active s' d = Some k then Inr (last_epoch s d, answer)
       else Inl (StalePluginResultError ''plugin result belongs to a stale activation'')) \<and>
    last_epoch s d \<le> last_epoch s' d \<and> (last_epoch s d < last_epoch s' d \<longrightarrow> sv_active s' d \<noteq> Some k)"
proof -
  have ok: "supervisor_ok s" by (rule supervisor_run_ok[OF run new_supervisor_ok])
  have ok1: "supervisor_ok s1" by (rule acquire_ok[OF ok acq])
  obtain a where a: "sv_active s d = Some k" "sv_plugins s k = Some a"
    and s1: "s1 = s\<lparr>sv_plugins := (sv_plugins s)(k \<mapsto> a\<lparr>av_in_flight := av_in_flight a + 1, av_drained := False\<rparr>),
        sv_calls := add_mset (d, k) (sv_calls s)\<rparr>"
    using acq by (auto simp: acquire_def bind_eq_Some_conv split: option.split_asm if_split_asm)
  have ep: "last_epoch s d = av_epoch a"
  proof -
    obtain y :: active_plugin where "sv_plugins s k = Some y" "sv_last_epoch s d = Some (av_epoch y)"
      using supervisor_okD(4)[OF ok] a(1) unfolding actives_ok_def by blast
    then show ?thesis using a(2) by (simp add: last_epoch_def)
  qed
  have k: "keeps s1 s'" by (rule supervisor_run_keeps[OF later ok1])
  have p1: "\<exists>b. sv_plugins s1 k = Some b \<and> av_epoch b = av_epoch a" by (simp add: s1)
  then obtain a' where a': "sv_plugins s' k = Some a'" "av_epoch a' = av_epoch a" using k unfolding keeps_def by metis
  have l1: "last_epoch s1 = last_epoch s" by (rule ext) (simp add: s1 last_epoch_def)
  have "last_epoch s d \<le> last_epoch s' d" using k l1 unfolding keeps_def by metis
  moreover have "last_epoch s' d = last_epoch s d" if "sv_active s' d = Some k"
    using k l1 p1 that unfolding keeps_def by (metis option.distinct(1))
  ultimately show ?thesis using a' ep by (auto simp: call_result_def)
qed

text \<open>A plugin that is no longer active is not called again.\<close>

definition gone :: "supervisor \<Rightarrow> nat \<Rightarrow> bool" where
  "gone s k \<longleftrightarrow> sv_plugins s k \<noteq> None \<and> (\<forall>d. sv_active s d \<noteq> Some k)"

lemma keeps_gone: "keeps s s' \<Longrightarrow> gone s k \<Longrightarrow> gone s' k"
  unfolding keeps_def gone_def by (metis option.distinct(1) option.exhaust)

lemma step_calls_of_gone: "supervisor_step s s' \<Longrightarrow> gone s k \<Longrightarrow> calls_on s' k \<le> calls_on s k"
proof (induction rule: supervisor_step.induct)
  case (begun d requested s n s')
  then show ?case by (auto simp: begin_activation_def Let_def calls_on_def split: if_split_asm)
next
  case (started s n p c)
  then show ?case by (auto simp: activation_started_def calls_on_def)
next
  case (start_failed s n p c)
  then show ?case by (auto simp: activation_start_failed_def calls_on_def)
next
  case (abort s n)
  then show ?case by (simp add: calls_on_def)
next
  case (commit s n p c)
  then show ?case by (auto simp: commit_activation_def retire_def Let_def calls_on_def split: option.split)
next
  case (retired k s s')
  then show ?case by (auto simp: finish_retiring_def calls_on_def split: option.split_asm if_split_asm)
next
  case (prepare_deactivation d s n s')
  then show ?case by (auto simp: prepare_deactivation_def Let_def calls_on_def split: option.splits if_split_asm)
next
  case (commit_deactivation s n)
  then show ?case by (auto simp: commit_deactivation_def Let_def calls_on_def split: option.split)
next
  case (abort_deactivation s n)
  then show ?case by (auto simp: abort_deactivation_def Let_def calls_on_def split: option.split)
next
  case (acquire d s j s')
  then show ?case
    by (auto simp: acquire_def gone_def calls_on_def bind_eq_Some_conv split: option.split_asm if_split_asm)
next
  case (release d j s)
  have "size (filter_mset (\<lambda>c. snd c = k) (sv_calls s - {#(d, j)#})) \<le> size (filter_mset (\<lambda>c. snd c = k) (sv_calls s))"
    by (intro size_mset_mono multiset_filter_mono) simp
  then show ?case by (auto simp: release_def Let_def calls_on_def split: option.split)
qed

text \<open>
  The wait for a replaced or deactivated plugin ends: the calls that hold it can only
  become fewer, whatever else happens, since no new call can take it; and as soon as the last
  one has been released the wait is over and its process can be stopped.
\<close>

theorem retired_plugin_drains:
  assumes run: "supervisor_run new_supervisor s" and k: "k \<in> sv_retiring s" and later: "supervisor_run s s'"
  shows "calls_on s' k \<le> calls_on s k \<and>
    (calls_on s' k = 0 \<and> k \<in> sv_retiring s' \<longrightarrow>
       (\<exists>a s''. finish_retiring k s' = Some s'' \<and> sv_plugins s' k = Some a \<and> sv_processes s'' (av_process a) = Some Stopped)) \<and>
    (\<forall>d j t. acquire d s' = Inr (j, t) \<longrightarrow> j \<noteq> k)"
proof -
  have ok: "supervisor_ok s" by (rule supervisor_run_ok[OF run new_supervisor_ok])
  have ok': "supervisor_ok s'" by (rule supervisor_run_ok[OF later ok])
  obtain a where a: "sv_plugins s k = Some a" using supervisor_okD(3)[OF ok k] by blast
  have g: "gone s k" using supervisor_okD(1)[OF ok a] k a unfolding plugin_ok_def gone_def by auto
  have g': "gone s' k" by (rule keeps_gone[OF supervisor_run_keeps[OF later ok] g])
  have "calls_on s' k \<le> calls_on s k"
    using later[unfolded supervisor_run_def]
  proof (induction rule: rtranclp_induct)
    case (step t u)
    have "gone t k"
      using keeps_gone[OF supervisor_run_keeps[of s t, OF _ ok] g] step.hyps(1) by (simp add: supervisor_run_def)
    then show ?case using step_calls_of_gone[OF step.hyps(2)] step.IH by fastforce
  qed simp
  moreover have "\<exists>a s''. finish_retiring k s' = Some s'' \<and> sv_plugins s' k = Some a \<and> sv_processes s'' (av_process a) = Some Stopped"
    if z: "calls_on s' k = 0" "k \<in> sv_retiring s'"
  proof -
    obtain a where a: "sv_plugins s' k = Some a" using supervisor_okD(3)[OF ok' z(2)] by blast
    then have "av_drained a" using supervisor_okD(1)[OF ok' a] z(1) by (simp add: plugin_ok_def)
    then show ?thesis using a z(2) by (simp add: finish_retiring_def)
  qed
  moreover have "j \<noteq> k" if "acquire d s' = Inr (j, t)" for d j t
    using that g' by (auto simp: acquire_def gone_def bind_eq_Some_conv split: option.split_asm if_split_asm)
  ultimately show ?thesis by blast
qed

text \<open>
  Epochs of a deployment only grow: no run lowers the last epoch, and every commit
  that succeeds installs an epoch above it.
\<close>

theorem activation_epochs_increase:
  assumes run: "supervisor_run new_supervisor s" and later: "supervisor_run s s'"
    and p: "sv_activations s' n = Some p" and commit: "commit_activation n s' = (Inr e, s'')"
  shows "last_epoch s (ap_deployment p) < e \<and> last_epoch s'' (ap_deployment p) = e"
proof -
  have ok: "supervisor_ok s" by (rule supervisor_run_ok[OF run new_supervisor_ok])
  have ok': "supervisor_ok s'" by (rule supervisor_run_ok[OF later ok])
  obtain c where c: "ap_candidate p = Some c" "is_pending s' n p"
    using commit p by (auto simp: commit_activation_def split: option.split_asm if_split_asm)
  have "last_epoch s (ap_deployment p) \<le> last_epoch s' (ap_deployment p)"
    using supervisor_run_keeps[OF later ok] unfolding keeps_def by blast
  then show ?thesis using commit_keeps[OF ok' p c] commit by simp
qed


section \<open>One coroutine at a time\<close>

text \<open>
  \<open>activate\<close>, \<open>deactivate\<close> and \<open>shutdown\<close> when no other coroutine takes
  a step meanwhile.  \<open>failure\<close> is the error that ends the start of the candidate, if any.
  \<open>activate\<close> is modelled up to its wait for the old plugin.  \<open>None\<close> is a
  wait for calls that nobody releases.
\<close>

definition supervisor_activate :: "string \<Rightarrow> int option \<Rightarrow> supervisor_error option \<Rightarrow> supervisor \<Rightarrow> (supervisor_error, int) res \<times> supervisor" where
  "supervisor_activate d requested failure s =
     (case begin_activation d requested s of
        Inl e \<Rightarrow> (Inl e, s)
      | Inr (n, s1) \<Rightarrow>
          (case failure of
             Some e \<Rightarrow> (Inl e, activation_start_failed n s1)
           | None \<Rightarrow>
               (case activation_started n s1 of
                  (Inl e, s2) \<Rightarrow> (Inl e, s2)
                | (Inr m, s2) \<Rightarrow>
                    (case commit_activation m s2 of
                       (Inl e, s3) \<Rightarrow> (Inl e, abort_activation m s3)
                     | (Inr epoch, s3) \<Rightarrow> (Inr epoch, s3)))))"

definition supervisor_deactivate :: "string \<Rightarrow> supervisor \<Rightarrow> ((supervisor_error, unit) res \<times> supervisor) option" where
  "supervisor_deactivate d s =
     (case prepare_deactivation d s of
        Inl e \<Rightarrow> Some (Inl e, s)
      | Inr (n, s1) \<Rightarrow>
          (case commit_deactivation n s1 of
             (Inl e, s2) \<Rightarrow> Some (Inl e, abort_deactivation n s2)
           | (Inr _, s2) \<Rightarrow>
               (case sv_active s d of
                  None \<Rightarrow> Some (Inr (), s2)
                | Some k \<Rightarrow> map_option (Pair (Inr ())) (finish_retiring k s2))))"

fun supervisor_deactivate_all :: "string list \<Rightarrow> supervisor \<Rightarrow> ((supervisor_error, unit) res \<times> supervisor) option" where
  "supervisor_deactivate_all [] s = Some (Inr (), s)"
| "supervisor_deactivate_all (d # ds) s =
     (case supervisor_deactivate d s of
        None \<Rightarrow> None
      | Some (Inl e, s1) \<Rightarrow> Some (Inl e, s1)
      | Some (Inr _, s1) \<Rightarrow> supervisor_deactivate_all ds s1)"

text \<open>
  The lists are the values of the pending transitions and the keys of the active deployments,
  in the order of the dictionaries; aborting a transition leaves the active deployments alone.
\<close>

definition supervisor_shutdown :: "nat list \<Rightarrow> nat list \<Rightarrow> string list \<Rightarrow> supervisor \<Rightarrow> ((supervisor_error, unit) res \<times> supervisor) option" where
  "supervisor_shutdown activations deactivations deployments s =
     supervisor_deactivate_all deployments (fold abort_deactivation deactivations (fold abort_activation activations s))"

lemma step_run: "supervisor_step s s' \<Longrightarrow> supervisor_run s s'"
  by (simp add: supervisor_run_def)

lemma run_trans: "supervisor_run s t \<Longrightarrow> supervisor_run t u \<Longrightarrow> supervisor_run s u"
  unfolding supervisor_run_def by (rule rtranclp_trans)

lemma run_refl [simp]: "supervisor_run s s"
  by (simp add: supervisor_run_def)

lemma activate_succeeds:
  assumes "\<not> transition_pending s d" "last_epoch s d < (case requested of Some e \<Rightarrow> e | None \<Rightarrow> last_epoch s d + 1)"
  shows "supervisor_activate d requested None s = (Inr (case requested of Some e \<Rightarrow> e | None \<Rightarrow> last_epoch s d + 1), snd (supervisor_activate d requested None s)) \<and>
    supervisor_run s (snd (supervisor_activate d requested None s))"
proof -
  define e where "e = (case requested of Some e \<Rightarrow> e | None \<Rightarrow> last_epoch s d + 1)"
  define p where "p = \<lparr>ap_deployment = d, ap_epoch = e, ap_candidate = Some (sv_fresh s)\<rparr>"
  define n where "n = sv_fresh s"
  obtain s1 where b: "begin_activation d requested s = Inr (n, s1)"
    and s1: "sv_activations s1 n = Some p" "is_pending s1 n p" "sv_processes s1 n = Some Starting"
    using assms by (simp add: begin_activation_def Let_def e_def p_def n_def is_pending_def)
  have p: "ap_candidate p = Some n" "ap_epoch p = e" by (simp_all add: p_def n_def)
  obtain s2 where st: "activation_started n s1 = (Inr n, s2)"
    and s2: "sv_activations s2 n = Some p" "is_pending s2 n p" "sv_processes s2 n = Some Running"
    using s1 p by (simp add: activation_started_def is_pending_def)
  have c: "fst (commit_activation n s2) = Inr e"
    using s2 p by (simp add: commit_activation_def Let_def)
  have "supervisor_activate d requested None s = (Inr e, snd (commit_activation n s2))"
    using b st c by (cases "commit_activation n s2") (simp add: supervisor_activate_def)
  moreover have "supervisor_step s s1" using b by (rule supervisor_step.begun)
  moreover have "supervisor_step s1 s2"
    using supervisor_step.started[of s1 n p n] s1 p st by simp
  moreover have "supervisor_step s2 (snd (commit_activation n s2))"
    by (rule supervisor_step.commit[of _ _ p n]) (use s2 p in simp_all)
  ultimately show ?thesis using run_trans step_run unfolding e_def by (metis snd_conv)
qed

text \<open>Sample runs: a plugin is activated, called, and replaced while the call runs.\<close>

definition sample_active :: supervisor where
  "sample_active = snd (supervisor_activate ''echo'' None None new_supervisor)"

definition sample_called :: supervisor where
  "sample_called = (case acquire ''echo'' sample_active of Inr (_, s) \<Rightarrow> s | Inl _ \<Rightarrow> sample_active)"

definition sample_replaced :: supervisor where
  "sample_replaced = snd (supervisor_activate ''echo'' None None sample_called)"

lemma new_supervisor_sel [simp]:
  "sv_active new_supervisor = Map.empty" "sv_pending_activations new_supervisor = Map.empty"
  "sv_pending_deactivations new_supervisor = Map.empty" "sv_fresh new_supervisor = 0" "sv_calls new_supervisor = {#}"
  "sv_plugins new_supervisor = Map.empty" "sv_last_epoch new_supervisor = Map.empty" "sv_retiring new_supervisor = {}"
  "sv_activations new_supervisor = Map.empty" "sv_processes new_supervisor = Map.empty"
  by (simp_all add: new_supervisor_def)

lemmas sample_steps = supervisor_activate_def begin_activation_def activation_started_def commit_activation_def retire_def
  stop_accepting_def is_pending_def transition_pending_def last_epoch_def acquire_def

lemma sample_active_state:
  "sv_active sample_active = [''echo'' \<mapsto> Suc 0]" "sv_plugins sample_active (Suc 0) = Some \<lparr>av_process = 0, av_epoch = 1,
     av_in_flight = 0, av_accepting = True, av_drained = True\<rparr>" "sv_last_epoch sample_active = [''echo'' \<mapsto> 1]"
  "sv_calls sample_active = {#}" "sv_retiring sample_active = {}" "sv_fresh sample_active = 2"
  "sv_pending_activations sample_active = Map.empty" "sv_pending_deactivations sample_active = Map.empty"
  by (simp_all add: sample_active_def sample_steps Let_def)

lemma sample_called_acquire: "acquire ''echo'' sample_active = Inr (Suc 0, sample_called)"
  by (simp add: sample_called_def acquire_def sample_active_state)

lemma sample_called_state:
  "sv_active sample_called = [''echo'' \<mapsto> Suc 0]" "sv_plugins sample_called (Suc 0) = Some \<lparr>av_process = 0, av_epoch = 1,
     av_in_flight = 1, av_accepting = True, av_drained = False\<rparr>" "sv_last_epoch sample_called = [''echo'' \<mapsto> 1]"
  "sv_calls sample_called = {#(''echo'', Suc 0)#}" "sv_retiring sample_called = {}" "sv_fresh sample_called = 2"
  "sv_pending_activations sample_called = Map.empty" "sv_pending_deactivations sample_called = Map.empty"
  by (simp_all add: sample_called_def acquire_def sample_active_state)

lemma sample_replaced_state:
  "sv_active sample_replaced ''echo'' = Some 3" "sv_last_epoch sample_replaced ''echo'' = Some 2" "sv_retiring sample_replaced = {Suc 0}"
  "sv_calls sample_replaced = {#(''echo'', Suc 0)#}"
  by (simp_all add: sample_replaced_def sample_steps Let_def sample_called_state)

lemma sample_active_run: "supervisor_run new_supervisor sample_active"
  using activate_succeeds[of new_supervisor "''echo''" None] by (simp add: sample_active_def transition_pending_def)

lemma sample_called_run: "supervisor_run new_supervisor sample_called"
  using run_trans[OF sample_active_run step_run[OF supervisor_step.acquire[OF sample_called_acquire]]] .

lemma sample_called_replaced: "supervisor_run sample_called sample_replaced"
  using activate_succeeds[of sample_called "''echo''" None]
  by (simp add: sample_replaced_def transition_pending_def sample_called_state)


theorem stale_results_are_refused_witness:
  "call_result ''echo'' (Suc 0) (7 :: int) sample_replaced =
     Inl (StalePluginResultError ''plugin result belongs to a stale activation'')"
  using stale_results_are_refused[OF sample_active_run sample_called_acquire sample_called_replaced, of "7 :: int"]
  by (simp add: sample_replaced_state)

theorem retired_plugin_drains_witness:
  "\<forall>d j t. acquire d sample_replaced = Inr (j, t) \<longrightarrow> j \<noteq> Suc 0"
  using retired_plugin_drains[OF run_trans[OF sample_called_run sample_called_replaced], of "Suc 0" sample_replaced]
  by (simp add: sample_replaced_state)

lemma sample_prepared_exists:
  "\<exists>s1 s2. begin_activation ''echo'' None sample_called = Inr (2, s1) \<and> activation_started 2 s1 = (Inr 2, s2) \<and>
     sv_activations s2 2 = Some \<lparr>ap_deployment = ''echo'', ap_epoch = 2, ap_candidate = Some 2\<rparr> \<and>
     is_pending s2 2 \<lparr>ap_deployment = ''echo'', ap_epoch = 2, ap_candidate = Some 2\<rparr> \<and> sv_active s2 ''echo'' = Some (Suc 0) \<and>
     sv_processes s1 2 = Some Starting \<and> sv_activations s1 2 = sv_activations s2 2"
  by (simp add: begin_activation_def transition_pending_def last_epoch_def sample_called_state Let_def
      activation_started_def is_pending_def)

theorem activation_epochs_increase_witness:
  "\<exists>s' s'' n. supervisor_run sample_called s' \<and> commit_activation n s' = (Inr 2, s'') \<and>
     last_epoch sample_called ''echo'' < 2 \<and> last_epoch s'' ''echo'' = 2"
proof -
  let ?p = "\<lparr>ap_deployment = ''echo'', ap_epoch = 2, ap_candidate = Some 2\<rparr>"
  obtain s1 s2 where b: "begin_activation ''echo'' None sample_called = Inr (2, s1)" "activation_started 2 s1 = (Inr 2, s2)"
    and p: "sv_activations s2 2 = Some ?p" "is_pending s2 2 ?p" "sv_processes s1 2 = Some Starting" "sv_activations s1 2 = Some ?p"
    using sample_prepared_exists by auto
  have r: "supervisor_run sample_called s2"
    using run_trans[OF step_run[OF supervisor_step.begun[OF b(1)]] step_run[OF supervisor_step.started[OF p(4) _ p(3)]]] b(2)
    by simp
  obtain s'' where c: "commit_activation 2 s2 = (Inr 2, s'')"
    using p by (simp add: commit_activation_def Let_def)
  show ?thesis
    using activation_epochs_increase[OF sample_called_run r p(1) c] r c by auto
qed

section \<open>Every running process is accounted for\<close>

text \<open>
  A running process is the candidate of a pending activation, or belongs to a plugin that is
  active or waits to drain: aborts, failures and replacements leave no process behind.
\<close>

definition has_owner :: "supervisor \<Rightarrow> nat \<Rightarrow> bool" where
  "has_owner s c \<longleftrightarrow> (\<exists>p. sv_activations s c = Some p \<and> is_pending s c p) \<or>
     (\<exists>k a. sv_plugins s k = Some a \<and> av_process a = c \<and> ((\<exists>d. sv_active s d = Some k) \<or> k \<in> sv_retiring s))"

definition no_leak :: "supervisor \<Rightarrow> bool" where
  "no_leak s \<longleftrightarrow> (\<forall>c. sv_processes s c = Some Running \<longrightarrow> has_owner s c) \<and>
     (\<forall>n p. sv_activations s n = Some p \<longrightarrow> ap_candidate p = Some n)"

lemma no_leakI:
  assumes "no_leak s" "\<And>c. sv_processes s' c = Some Running \<Longrightarrow> sv_processes s c = Some Running \<or> has_owner s' c"
    "\<And>c. sv_processes s' c = Some Running \<Longrightarrow> has_owner s c \<Longrightarrow> has_owner s' c"
    "\<And>n p. sv_activations s' n = Some p \<Longrightarrow> sv_activations s n = Some p \<or> ap_candidate p = Some n"
  shows "no_leak s'"
  using assms unfolding no_leak_def by blast

lemma has_owner_mono:
  assumes "has_owner s c" "\<And>p. sv_activations s c = Some p \<Longrightarrow> is_pending s c p \<Longrightarrow> has_owner s' c"
    "\<And>k a. sv_plugins s k = Some a \<Longrightarrow> av_process a = c \<Longrightarrow> (\<exists>d. sv_active s d = Some k) \<or> k \<in> sv_retiring s \<Longrightarrow>
       has_owner s' c"
  shows "has_owner s' c"
  using assms unfolding has_owner_def by blast

lemma has_owner_plugins:
  assumes "has_owner s c" "sv_activations s' = sv_activations s" "sv_pending_activations s' = sv_pending_activations s"
    "\<And>k a. sv_plugins s k = Some a \<Longrightarrow> \<exists>a'. sv_plugins s' k = Some a' \<and> av_process a' = av_process a"
    "\<And>k a d. sv_plugins s k = Some a \<Longrightarrow> av_process a = c \<Longrightarrow> sv_active s d = Some k \<Longrightarrow> (\<exists>d. sv_active s' d = Some k) \<or> k \<in> sv_retiring s'"
    "\<And>k a. sv_plugins s k = Some a \<Longrightarrow> av_process a = c \<Longrightarrow> k \<in> sv_retiring s \<Longrightarrow> k \<in> sv_retiring s'"
  shows "has_owner s' c"
  using assms(1) unfolding has_owner_def is_pending_def assms(2,3)
  by (elim disjE) (blast, metis assms(4-6))

lemma no_leak_plugins:
  assumes "no_leak s" "sv_activations s' = sv_activations s" "sv_pending_activations s' = sv_pending_activations s"
    "sv_processes s' = sv_processes s" "sv_active s' = sv_active s" "sv_retiring s' = sv_retiring s"
    "\<And>k a. sv_plugins s k = Some a \<Longrightarrow> \<exists>a'. sv_plugins s' k = Some a' \<and> av_process a' = av_process a"
  shows "no_leak s'"
proof (rule no_leakI[OF assms(1)])
  show "has_owner s' c" if "has_owner s c" for c
    by (rule has_owner_plugins[OF that assms(2,3)]) (use assms(5-7) in auto)
qed (use assms(2,4) in auto)

lemma abort_no_leak:
  assumes ok: "supervisor_ok s" and leak: "no_leak s"
  shows "no_leak (abort_activation n s)"
proof (cases "\<exists>p. sv_activations s n = Some p \<and> is_pending s n p")
  case False
  then have "abort_activation n s = s" by (auto simp: abort_activation_def split: option.split)
  then show ?thesis using leak by simp
next
  case True
  then obtain p where p: "sv_activations s n = Some p" "is_pending s n p" by blast
  let ?s' = "abort_activation n s"
  have sel: "sv_activations ?s' = sv_activations s" "sv_retiring ?s' = sv_retiring s"
    "sv_pending_activations ?s' = (sv_pending_activations s)(ap_deployment p := None)"
    using p by (simp_all add: abort_activation_def stop_candidate_def Let_def split: option.split)
  have cand: "ap_candidate p = Some n" using leak p by (simp add: no_leak_def)
  show ?thesis
  proof (rule no_leakI[OF leak])
    fix c assume run: "sv_processes ?s' c = Some Running"
    then show "sv_processes s c = Some Running \<or> has_owner ?s' c"
      using p by (auto simp: abort_activation_def stop_candidate_def Let_def split: option.split_asm if_split_asm)
    assume own: "has_owner s c"
    show "has_owner ?s' c"
    proof (rule has_owner_mono[OF own])
      fix q assume q: "sv_activations s c = Some q" "is_pending s c q"
      have "ap_deployment q \<noteq> ap_deployment p \<or> c = n" using p q by (auto simp: is_pending_def)
      then show "has_owner ?s' c"
      proof
        assume "ap_deployment q \<noteq> ap_deployment p"
        then show ?thesis using q by (auto simp: has_owner_def is_pending_def sel)
      next
        assume "c = n"
        then show ?thesis
          using run p cand by (auto simp: abort_activation_def stop_candidate_def Let_def split: if_split_asm)
      qed
    qed (auto simp: has_owner_def sel)
  qed (simp add: sel)
qed

lemma stop_process_no_leak: "no_leak s \<Longrightarrow> no_leak (stop_process c s)"
  by (rule no_leakI) (auto simp: has_owner_def is_pending_def split: if_split_asm)

lemma supervisor_step_no_leak: "supervisor_step s s' \<Longrightarrow> supervisor_ok s \<Longrightarrow> no_leak s \<Longrightarrow> no_leak s'"
proof (induction rule: supervisor_step.induct)
  case (begun d requested s n s')
  then have s': "\<not> transition_pending s d" "n = sv_fresh s" "sv_plugins s' = sv_plugins s" "sv_active s' = sv_active s"
    "sv_retiring s' = sv_retiring s" "sv_pending_activations s' = (sv_pending_activations s)(d \<mapsto> n)"
    "sv_processes s' = (sv_processes s)(n \<mapsto> Starting)"
    "\<exists>e. sv_activations s' = (sv_activations s)(n \<mapsto> \<lparr>ap_deployment = d, ap_epoch = e, ap_candidate = Some n\<rparr>)"
    by (auto simp: begin_activation_def Let_def split: if_split_asm)
  have new: "sv_activations s n = None" using supervisor_okD(5)[OF begun.prems(1)] s'(2) by (simp add: processes_ok_def)
  show ?case
  proof (rule no_leakI[OF begun.prems(2)])
    fix c assume own: "has_owner s c"
    show "has_owner s' c"
    proof (rule has_owner_mono[OF own])
      fix q assume q: "sv_activations s c = Some q" "is_pending s c q"
      have "c \<noteq> n" "ap_deployment q \<noteq> d" using q s'(1) new by (auto simp: is_pending_def transition_pending_def)
      then have "sv_activations s' c = Some q" "is_pending s' c q" using q s' by (auto simp: is_pending_def)
      then show "has_owner s' c" by (simp add: has_owner_def)
    qed (use s' in \<open>auto simp: has_owner_def\<close>)
  qed (use s' in \<open>auto split: if_split_asm\<close>)
next
  case (started s n p c)
  then have c: "c = n" by (simp add: no_leak_def)
  show ?case
  proof (cases "is_pending s n p")
    case True
    show ?thesis
      by (rule no_leakI[OF started.prems(2)])
        (use started True in \<open>auto simp: activation_started_def has_owner_def is_pending_def c split: if_split_asm\<close>)
  qed (use started in \<open>simp add: activation_started_def stop_process_no_leak\<close>)
next
  case (start_failed s n p c)
  have "supervisor_ok (stop_process c s)"
    using candidate_facts[OF start_failed.prems(1) start_failed.hyps(1,2)] start_failed.hyps(3)
    by (intro set_process_ok[OF start_failed.prems(1), of c _ Stopped]) (auto simp: stop_process_def)
  then show ?case using start_failed abort_no_leak stop_process_no_leak by (simp add: activation_start_failed_def)
next
  case (abort s n)
  then show ?case by (rule abort_no_leak)
next
  case (commit s n p c)
  have c: "c = n" using commit by (simp add: no_leak_def)
  show ?case
  proof (cases "is_pending s n p")
    case False
    then show ?thesis using commit by (simp add: commit_activation_def)
  next
    case True
    let ?s' = "snd (commit_activation n s)"
    have new: "sv_plugins s (sv_fresh s) = None" using supervisor_okD(5)[OF commit.prems(1)] by (simp add: processes_ok_def)
    have sel: "sv_activations ?s' = sv_activations s" "sv_processes ?s' = sv_processes s"
      "sv_pending_activations ?s' = (sv_pending_activations s)(ap_deployment p := None)"
      "sv_active ?s' = (sv_active s)(ap_deployment p \<mapsto> sv_fresh s)"
      "sv_retiring ?s' = sv_retiring s \<union> set_option (sv_active s (ap_deployment p))"
      using commit True by (auto simp: commit_activation_def Let_def retire_def split: option.split)
    have mine: "\<exists>a. sv_plugins ?s' (sv_fresh s) = Some a \<and> av_process a = n"
      using commit True c by (simp add: commit_activation_def Let_def)
    have others: "\<exists>a'. sv_plugins ?s' k = Some a' \<and> av_process a' = av_process a" if "sv_plugins s k = Some a" for k a
      using that new commit True
      by (auto simp: commit_activation_def Let_def retire_def stop_accepting_def split: option.split)
    show ?thesis
    proof (rule no_leakI[OF commit.prems(2)])
      fix m assume own: "has_owner s m"
      show "has_owner ?s' m"
      proof (rule has_owner_mono[OF own])
        fix q assume q: "sv_activations s m = Some q" "is_pending s m q"
        show "has_owner ?s' m"
        proof (cases "ap_deployment q = ap_deployment p")
          case True
          then have "m = n" using q \<open>is_pending s n p\<close> by (simp add: is_pending_def)
          then show ?thesis using mine unfolding has_owner_def sel by auto
        next
          case False
          then show ?thesis using q by (simp add: has_owner_def is_pending_def sel)
        qed
      next
        fix k a assume k: "sv_plugins s k = Some a" "av_process a = m" "(\<exists>d. sv_active s d = Some k) \<or> k \<in> sv_retiring s"
        then have "(\<exists>d. d \<noteq> ap_deployment p \<and> sv_active s d = Some k) \<or> sv_active s (ap_deployment p) = Some k \<or> k \<in> sv_retiring s"
          by metis
        then have "(\<exists>d. sv_active ?s' d = Some k) \<or> k \<in> sv_retiring ?s'" unfolding sel by auto
        then show "has_owner ?s' m" using others[OF k(1)] k(2) unfolding has_owner_def by blast
      qed
    qed (simp_all add: sel)
  qed
next
  case (retired k s s')
  then obtain a where a: "sv_plugins s k = Some a"
    and s': "s' = stop_process (av_process a) (s\<lparr>sv_retiring := sv_retiring s - {k}\<rparr>)"
    by (auto simp: finish_retiring_def split: option.split_asm if_split_asm)
  show ?case
  proof (rule no_leakI[OF retired.prems(2)])
    fix c assume run: "sv_processes s' c = Some Running"
    then have "c \<noteq> av_process a" by (auto simp: s')
    moreover assume "has_owner s c"
    ultimately show "has_owner s' c" using a by (auto simp: has_owner_def is_pending_def s')
  qed (use s' in \<open>auto split: if_split_asm\<close>)
next
  case (prepare_deactivation d s n s')
  let ?s1 = "case sv_active s d of None \<Rightarrow> s | Some k \<Rightarrow> stop_accepting k s"
  have res: "s' = ?s1\<lparr>sv_pending_deactivations := (sv_pending_deactivations ?s1)(d \<mapsto> n),
      sv_deactivations := (sv_deactivations ?s1)(n \<mapsto> \<lparr>dq_deployment = d, dq_active = sv_active s d\<rparr>), sv_fresh := Suc n\<rparr>"
    using prepare_deactivation.hyps by (auto simp: prepare_deactivation_def Let_def split: if_split_asm)
  have s1: "sv_activations ?s1 = sv_activations s" "sv_processes ?s1 = sv_processes s" "sv_active ?s1 = sv_active s"
    "sv_pending_activations ?s1 = sv_pending_activations s" "sv_retiring ?s1 = sv_retiring s"
    by (simp_all split: option.split)
  have sel: "sv_activations s' = sv_activations s" "sv_processes s' = sv_processes s" "sv_active s' = sv_active s"
    "sv_pending_activations s' = sv_pending_activations s" "sv_retiring s' = sv_retiring s"
    by (simp_all add: res s1)
  have "\<exists>a'. sv_plugins s' k = Some a' \<and> av_process a' = av_process a" if "sv_plugins s k = Some a" for k a
    using that by (simp add: res stop_accepting_def split: option.split)
  with prepare_deactivation.prems(2) show ?case
    by (intro no_leak_plugins[OF prepare_deactivation.prems(2)]) (simp_all add: sel)
next
  case (commit_deactivation s n)
  let ?s' = "snd (commit_deactivation n s)"
  have sel: "sv_activations ?s' = sv_activations s" "sv_processes ?s' = sv_processes s" "sv_plugins ?s' = sv_plugins s"
    "sv_pending_activations ?s' = sv_pending_activations s" "sv_retiring s \<subseteq> sv_retiring ?s'"
    by (auto simp: commit_deactivation_def Let_def split: option.split)
  have act: "sv_active ?s' d = Some k \<or> k \<in> sv_retiring ?s'" if "sv_active s d = Some k" for d k
    using that by (auto simp: commit_deactivation_def Let_def split: option.split)
  show ?case
  proof (rule no_leakI[OF commit_deactivation.prems(2)])
    show "has_owner ?s' c" if "has_owner s c" for c
      by (rule has_owner_plugins[OF that]) (use sel act in auto)
  qed (simp_all add: sel)
next
  case (abort_deactivation s n)
  have sel: "sv_activations (abort_deactivation n s) = sv_activations s" "sv_processes (abort_deactivation n s) = sv_processes s"
    "sv_pending_activations (abort_deactivation n s) = sv_pending_activations s"
    "sv_active (abort_deactivation n s) = sv_active s" "sv_retiring (abort_deactivation n s) = sv_retiring s"
    by (simp_all add: abort_deactivation_def Let_def split: option.split)
  have "\<exists>a'. sv_plugins (abort_deactivation n s) k = Some a' \<and> av_process a' = av_process a" if "sv_plugins s k = Some a" for k a
    using that by (simp add: abort_deactivation_def Let_def split: option.split)
  then show ?case
    by (intro no_leak_plugins[OF abort_deactivation.prems(2)]) (simp_all add: sel)
next
  case (acquire d s k s')
  then obtain a where a: "sv_plugins s k = Some a"
    and s': "s' = s\<lparr>sv_plugins := (sv_plugins s)(k \<mapsto> a\<lparr>av_in_flight := av_in_flight a + 1, av_drained := False\<rparr>),
        sv_calls := add_mset (d, k) (sv_calls s)\<rparr>"
    by (auto simp: acquire_def bind_eq_Some_conv split: option.split_asm if_split_asm)
  show ?case
    by (rule no_leak_plugins[OF acquire.prems(2)]) (use a in \<open>auto simp: s'\<close>)
next
  case (release d k s)
  have "\<exists>a'. sv_plugins (release d k s) j = Some a' \<and> av_process a' = av_process a" if "sv_plugins s j = Some a" for j a
    using that by (auto simp: release_def Let_def split: option.split)
  then show ?case
    by (intro no_leak_plugins[OF release.prems(2)]) (simp_all add: release_def Let_def split: option.split)
qed

lemma reachable_no_leak:
  assumes "supervisor_run new_supervisor s"
  shows "no_leak s"
proof -
  have "supervisor_ok s \<and> no_leak s"
    using assms unfolding supervisor_run_def
  proof (induction rule: rtranclp_induct)
    case base
    show ?case using new_supervisor_ok by (simp add: no_leak_def new_supervisor_def)
  next
    case (step t u)
    then show ?case using supervisor_step_ok supervisor_step_no_leak by blast
  qed
  then show ?thesis ..
qed

text \<open>
  The supervisor leaves no process behind: in every reachable state a process that runs is
  the candidate of a pending activation, or the process of a plugin that is active or is
  being drained before it is stopped.
\<close>

theorem running_processes_are_owned:
  assumes run: "supervisor_run new_supervisor s" and c: "sv_processes s c = Some Running"
  shows "(\<exists>p. sv_activations s c = Some p \<and> sv_pending_activations s (ap_deployment p) = Some c) \<or>
     (\<exists>k a. sv_plugins s k = Some a \<and> av_process a = c \<and> ((\<exists>d. sv_active s d = Some k) \<or> k \<in> sv_retiring s))"
  using reachable_no_leak[OF run] c unfolding no_leak_def has_owner_def is_pending_def by blast

theorem running_processes_are_owned_witness:
  "(\<exists>p. sv_activations sample_called 0 = Some p \<and> sv_pending_activations sample_called (ap_deployment p) = Some 0) \<or>
     (\<exists>k a. sv_plugins sample_called k = Some a \<and> av_process a = 0 \<and>
        ((\<exists>d. sv_active sample_called d = Some k) \<or> k \<in> sv_retiring sample_called))"
  by (rule running_processes_are_owned[OF sample_called_run])
    (simp add: sample_called_def sample_active_def sample_steps Let_def)

section \<open>Shutdown\<close>

lemma abort_activation_pending:
  assumes "supervisor_ok s"
  shows "sv_pending_activations (abort_activation n s) d =
      (if sv_pending_activations s d = Some n then None else sv_pending_activations s d) \<and>
    sv_pending_deactivations (abort_activation n s) = sv_pending_deactivations s"
proof -
  have T: "\<exists>p. sv_activations s n = Some p \<and> ap_deployment p = d" if "sv_pending_activations s d = Some n"
    using supervisor_okD(6)[OF assms] that unfolding transitions_ok_def by blast
  show ?thesis
    using T by (auto simp: abort_activation_def is_pending_def stop_candidate_def Let_def split: option.split)
qed

lemma abort_deactivation_pending:
  assumes "supervisor_ok s"
  shows "sv_pending_deactivations (abort_deactivation n s) d =
      (if sv_pending_deactivations s d = Some n then None else sv_pending_deactivations s d) \<and>
    sv_pending_activations (abort_deactivation n s) = sv_pending_activations s \<and>
    sv_active (abort_deactivation n s) = sv_active s \<and> sv_calls (abort_deactivation n s) = sv_calls s"
proof -
  have T: "\<exists>p. sv_deactivations s n = Some p \<and> dq_deployment p = d" if "sv_pending_deactivations s d = Some n"
    using supervisor_okD(6)[OF assms] that unfolding transitions_ok_def by blast
  show ?thesis
    using T by (auto simp: abort_deactivation_def Let_def split: option.split)
qed

lemma abort_all_activations:
  assumes "supervisor_ok s"
  shows "supervisor_run s (fold abort_activation ns s) \<and>
    (\<forall>d. sv_pending_activations (fold abort_activation ns s) d =
       (if sv_pending_activations s d \<in> Some ` set ns then None else sv_pending_activations s d)) \<and>
    sv_pending_deactivations (fold abort_activation ns s) = sv_pending_deactivations s \<and>
    sv_active (fold abort_activation ns s) = sv_active s \<and> sv_calls (fold abort_activation ns s) = sv_calls s"
  using assms
proof (induction ns arbitrary: s)
  case (Cons n ns)
  have st: "supervisor_run s (abort_activation n s)" by (rule step_run[OF supervisor_step.abort])
  note ok = supervisor_run_ok[OF st Cons.prems]
  from Cons.IH[OF ok] abort_activation_pending[OF Cons.prems, of n] run_trans[OF st] show ?case by auto
qed simp

lemma abort_all_deactivations:
  assumes "supervisor_ok s"
  shows "supervisor_run s (fold abort_deactivation ns s) \<and>
    (\<forall>d. sv_pending_deactivations (fold abort_deactivation ns s) d =
       (if sv_pending_deactivations s d \<in> Some ` set ns then None else sv_pending_deactivations s d)) \<and>
    sv_pending_activations (fold abort_deactivation ns s) = sv_pending_activations s \<and>
    sv_active (fold abort_deactivation ns s) = sv_active s \<and> sv_calls (fold abort_deactivation ns s) = sv_calls s"
  using assms
proof (induction ns arbitrary: s)
  case (Cons n ns)
  have st: "supervisor_run s (abort_deactivation n s)" by (rule step_run[OF supervisor_step.abort_deactivation])
  note ok = supervisor_run_ok[OF st Cons.prems]
  from Cons.IH[OF ok] abort_deactivation_pending[OF Cons.prems, of n] run_trans[OF st] show ?case by auto
qed simp

text \<open>A quiet supervisor has no transition under way and no call in flight.\<close>

definition quiet :: "supervisor \<Rightarrow> bool" where
  "quiet s \<longleftrightarrow> sv_pending_activations s = Map.empty \<and> sv_pending_deactivations s = Map.empty \<and> sv_calls s = {#}"

lemma deactivate_quiet:
  assumes ok: "supervisor_ok s" and quiet: "quiet s"
  shows "\<exists>s'. supervisor_deactivate d s = Some (Inr (), s') \<and> supervisor_run s s' \<and> quiet s' \<and> sv_active s' = (sv_active s)(d := None)"
proof -
  let ?n = "sv_fresh s" and ?s0 = "case sv_active s d of None \<Rightarrow> s | Some k \<Rightarrow> stop_accepting k s"
  define s1 where "s1 = ?s0\<lparr>sv_pending_deactivations := (sv_pending_deactivations ?s0)(d \<mapsto> ?n),
      sv_deactivations := (sv_deactivations ?s0)(?n \<mapsto> \<lparr>dq_deployment = d, dq_active = sv_active s d\<rparr>), sv_fresh := Suc ?n\<rparr>"
  have s0: "sv_pending_activations ?s0 = Map.empty" "sv_pending_deactivations ?s0 = Map.empty" "sv_calls ?s0 = {#}"
    "sv_active ?s0 = sv_active s"
    using quiet by (simp_all add: quiet_def split: option.split)
  have p: "prepare_deactivation d s = Inr (?n, s1)"
    using quiet by (simp add: prepare_deactivation_def Let_def quiet_def transition_pending_def s1_def)
  define s2 where "s2 = snd (commit_deactivation ?n s1)"
  have c: "commit_deactivation ?n s1 = (Inr (), s2)"
    by (simp add: commit_deactivation_def s2_def s1_def Let_def split: option.split)
  have s2: "quiet s2" "sv_active s2 = (sv_active s)(d := None)" "\<And>k. sv_active s d = Some k \<Longrightarrow> k \<in> sv_retiring s2"
    using s0 by (auto simp: s2_def s1_def commit_deactivation_def Let_def quiet_def split: option.split)
  have r1: "supervisor_run s s1" by (rule step_run[OF supervisor_step.prepare_deactivation[OF p]])
  have "supervisor_run s1 s2" unfolding s2_def by (rule step_run[OF supervisor_step.commit_deactivation])
  then have r2: "supervisor_run s s2" by (rule run_trans[OF r1])
  note ok2 = supervisor_run_ok[OF r2 ok]
  show ?thesis
  proof (cases "sv_active s d")
    case None
    then show ?thesis using p c r2 s2 by (simp add: supervisor_deactivate_def)
  next
    case (Some k)
    obtain a where a: "sv_plugins s2 k = Some a" using supervisor_okD(3)[OF ok2 s2(3)[OF Some]] by blast
    have "calls_on s2 k = 0" using s2(1) by (simp add: calls_on_def quiet_def)
    then have "av_drained a" using supervisor_okD(1)[OF ok2 a] by (simp add: plugin_ok_def)
    then obtain s3 where s3: "finish_retiring k s2 = Some s3" "s3 = stop_process (av_process a) (s2\<lparr>sv_retiring := sv_retiring s2 - {k}\<rparr>)"
      using a s2(3)[OF Some] by (simp add: finish_retiring_def)
    have "supervisor_run s s3" using run_trans[OF r2 step_run[OF supervisor_step.retired[OF s3(1)]]] .
    moreover have "quiet s3" "sv_active s3 = sv_active s2" using s2(1) by (simp_all add: s3(2) quiet_def)
    ultimately show ?thesis using p c s3(1) Some s2(2) by (simp add: supervisor_deactivate_def)
  qed
qed

lemma supervisor_deactivate_all_quiet:
  "supervisor_ok s \<Longrightarrow> quiet s \<Longrightarrow>
     \<exists>s'. supervisor_deactivate_all ds s = Some (Inr (), s') \<and> supervisor_run s s' \<and> quiet s' \<and> sv_active s' = sv_active s |` (- set ds)"
proof (induction ds arbitrary: s)
  case (Cons d ds)
  obtain t where t: "supervisor_deactivate d s = Some (Inr (), t)" "supervisor_run s t" "quiet t" "sv_active t = (sv_active s)(d := None)"
    using deactivate_quiet[OF Cons.prems] by blast
  obtain s' where s': "supervisor_deactivate_all ds t = Some (Inr (), s')" "supervisor_run t s'" "quiet s'"
    "sv_active s' = sv_active t |` (- set ds)"
    using Cons.IH[OF supervisor_run_ok[OF t(2) Cons.prems(1)] t(3)] by blast
  have "sv_active s' = sv_active s |` (- set (d # ds))" by (rule ext) (simp add: s'(4) t(4) restrict_map_def)
  then show ?case using t(1) s' run_trans[OF t(2) s'(2)] by simp
qed (simp add: restrict_map_def)


end
