(* ===== verification/Task_Agent.thy ===== *)
theory Task_Agent
  imports Outbox
begin

text \<open>
  The control plane of the task agent (\<open>task_agent/service.py\<close>,
  \<open>task_agent/schemas.py\<close>, \<open>db/agent_models.py\<close>): definitions and their published
  versions, sessions, runs with their transition table, pending questions, and the inbox and
  event log of a session.  The \<open>n\<close>-th reading of the clock in an operation is
  \<open>clock n\<close>.  \<open>updated_at\<close> and the \<open>created_at\<close> of log rows, which
  no code reads, are not modelled.
\<close>

section \<open>Enumerations\<close>

datatype run_status = Run_QUEUED | Run_RUNNING | Run_WAITING_APPROVAL | Run_WAITING_USER | Run_PAUSED
  | Run_COMPLETED | Run_FAILED | Run_CANCELLED | Run_EXPIRED

datatype agent_inbox_kind = Ik_RUN_REQUEST | Ik_QUESTION_ANSWER

datatype agent_event_type = Ae_SESSION_CREATED | Ae_RUN_CREATED | Ae_RUN_STATUS_CHANGED
  | Ae_QUESTION_ASKED | Ae_QUESTION_ANSWERED

datatype question_status = Qs_PENDING | Qs_ANSWERED | Qs_EXPIRED | Qs_CANCELLED

fun run_status_str :: "run_status \<Rightarrow> string" where
  "run_status_str Run_QUEUED = ''QUEUED''"
| "run_status_str Run_RUNNING = ''RUNNING''"
| "run_status_str Run_WAITING_APPROVAL = ''WAITING_APPROVAL''"
| "run_status_str Run_WAITING_USER = ''WAITING_USER''"
| "run_status_str Run_PAUSED = ''PAUSED''"
| "run_status_str Run_COMPLETED = ''COMPLETED''"
| "run_status_str Run_FAILED = ''FAILED''"
| "run_status_str Run_CANCELLED = ''CANCELLED''"
| "run_status_str Run_EXPIRED = ''EXPIRED''"

definition active_run_statuses :: "run_status list" where
  "active_run_statuses = [Run_QUEUED, Run_RUNNING, Run_WAITING_APPROVAL, Run_WAITING_USER, Run_PAUSED]"

definition terminal_run_statuses :: "run_status list" where
  "terminal_run_statuses = [Run_COMPLETED, Run_FAILED, Run_CANCELLED, Run_EXPIRED]"

fun run_transitions :: "run_status \<Rightarrow> run_status list" where
  "run_transitions Run_QUEUED = [Run_RUNNING, Run_PAUSED, Run_FAILED, Run_CANCELLED, Run_EXPIRED]"
| "run_transitions Run_RUNNING = [Run_QUEUED, Run_WAITING_APPROVAL, Run_WAITING_USER, Run_PAUSED,
     Run_COMPLETED, Run_FAILED, Run_CANCELLED, Run_EXPIRED]"
| "run_transitions Run_WAITING_APPROVAL = [Run_QUEUED, Run_PAUSED, Run_FAILED, Run_CANCELLED, Run_EXPIRED]"
| "run_transitions Run_WAITING_USER = [Run_QUEUED, Run_FAILED, Run_CANCELLED, Run_EXPIRED]"
| "run_transitions Run_PAUSED = [Run_QUEUED, Run_FAILED, Run_CANCELLED, Run_EXPIRED]"
| "run_transitions Run_COMPLETED = []"
| "run_transitions Run_FAILED = []"
| "run_transitions Run_CANCELLED = []"
| "run_transitions Run_EXPIRED = []"

section \<open>Rows\<close>

record agent_definition =
  ad_id :: uuid
  ad_workspace_id :: uuid
  ad_definition_key :: string
  ad_name :: string
  ad_description :: string
  ad_retired_at :: "instant option"
  ad_created_at :: instant

record agent_version =
  av_id :: uuid
  av_definition_id :: uuid
  av_version_number :: int
  av_specification :: json
  av_specification_sha256 :: string
  av_published_by_principal_id :: "uuid option"
  av_published_at :: instant

record agent_session =
  as_id :: uuid
  as_workspace_id :: uuid
  as_agent_version_id :: uuid
  as_requester_principal_id :: uuid
  as_task_scope :: json
  as_task_scope_sha256 :: string
  as_last_inbox_seq :: int
  as_last_event_seq :: int
  as_created_at :: instant

record agent_run =
  rn_id :: uuid
  rn_session_id :: uuid
  rn_idempotency_key :: string
  rn_input_payload :: json
  rn_input_sha256 :: string
  rn_status :: run_status
  rn_active_slot :: "int option"
  rn_started_at :: "instant option"
  rn_finished_at :: "instant option"
  rn_last_error_code :: "string option"
  rn_created_at :: instant

record pending_question =
  pq_id :: uuid
  pq_session_id :: uuid
  pq_run_id :: uuid
  pq_allowed_principal_id :: uuid
  pq_prompt :: string
  pq_context :: json
  pq_status :: question_status
  pq_open_slot :: "int option"
  pq_expires_at :: instant
  pq_answered_at :: "instant option"
  pq_answered_by_principal_id :: "uuid option"
  pq_answer_payload :: "json option"
  pq_answer_sha256 :: "string option"
  pq_answer_inbox_seq :: "int option"
  pq_closed_at :: "instant option"
  pq_created_at :: instant

record session_inbox =
  si_id :: uuid
  si_session_id :: uuid
  si_seq :: int
  si_kind :: agent_inbox_kind
  si_run_id :: uuid
  si_actor_principal_id :: uuid
  si_question_id :: "uuid option"
  si_payload :: json
  si_payload_sha256 :: string

record agent_event =
  ae_id :: uuid
  ae_session_id :: uuid
  ae_seq :: int
  ae_run_id :: "uuid option"
  ae_question_id :: "uuid option"
  ae_event_type :: agent_event_type
  ae_payload :: json

text \<open>The tables of the task agent, beside those of the rest of the program.\<close>

record agent_db =
  core :: db
  agent_definitions :: "agent_definition list"
  agent_versions :: "agent_version list"
  agent_sessions :: "agent_session list"
  agent_runs :: "agent_run list"
  questions :: "pending_question list"
  session_inboxes :: "session_inbox list"
  agent_events :: "agent_event list"

definition alloc_agent :: "env \<Rightarrow> agent_db \<Rightarrow> uuid \<times> agent_db" where
  "alloc_agent E w = (let (i, c) = alloc E (core w) in (i, w\<lparr>core := c\<rparr>))"

section \<open>Requests\<close>

datatype agent_error =
    TaskAgentNotFound string
  | TaskAgentConflict string
  | RunIdempotencyConflict string
  | ActiveRunConflict string
  | InvalidRunTransition string
  | PendingQuestionConflict string
  | QuestionAnswerForbidden string
  | QuestionExpired string
  | QuestionAlreadyConsumed string
  | PersistedJsonValidation string
  | AgentValueError string

text \<open>A string field with length bounds whose validator strips it and refuses a blank one.\<close>

definition agent_text :: "nat \<Rightarrow> string \<Rightarrow> string option" where
  "agent_text bound s =
     (if length s < 1 \<or> bound < length s then None
      else let t = strip s in if t = [] then None else Some t)"

record agent_definition_create =
  dc_workspace_id :: uuid
  dc_definition_key :: string
  dc_name :: string
  dc_description :: string

definition validate_definition_create :: "agent_definition_create \<Rightarrow> agent_definition_create option" where
  "validate_definition_create p =
     (case (agent_text 120 (dc_definition_key p), agent_text 120 (dc_name p)) of
        (Some k, Some n) \<Rightarrow>
          if length (dc_description p) \<le> 1000 then Some (p\<lparr>dc_definition_key := k, dc_name := n\<rparr>) else None
      | _ \<Rightarrow> None)"

record agent_version_publish =
  vp_specification :: json
  vp_published_by_principal_id :: "uuid option"

record agent_session_create =
  sc_workspace_id :: uuid
  sc_agent_version_id :: uuid
  sc_requester_principal_id :: uuid
  sc_task_scope :: json

record agent_run_create =
  nc_idempotency_key :: string
  nc_input_payload :: json

definition validate_run_create :: "agent_run_create \<Rightarrow> agent_run_create option" where
  "validate_run_create p = map_option (\<lambda>k. p\<lparr>nc_idempotency_key := k\<rparr>) (agent_text 255 (nc_idempotency_key p))"

record agent_run_transition =
  nt_status :: run_status
  nt_reason :: "string option"
  nt_error_code :: "string option"

definition validate_transition :: "agent_run_transition \<Rightarrow> bool" where
  "validate_transition p \<longleftrightarrow>
     (case nt_reason p of None \<Rightarrow> True | Some t \<Rightarrow> length t \<le> 500) \<and>
     (case nt_error_code p of None \<Rightarrow> True | Some t \<Rightarrow> length t \<le> 100)"

record pending_question_create =
  qc_allowed_principal_id :: uuid
  qc_prompt :: string
  qc_context :: json
  qc_expires_at :: py_datetime

definition validate_question_create :: "pending_question_create \<Rightarrow> pending_question_create option" where
  "validate_question_create p = map_option (\<lambda>t. p\<lparr>qc_prompt := t\<rparr>) (agent_text 4000 (qc_prompt p))"

record pending_question_answer =
  qa_principal_id :: uuid
  qa_answer_payload :: json

record pending_question_override =
  qo_answer_payload :: json
  qo_reason :: string

definition validate_override :: "pending_question_override \<Rightarrow> pending_question_override option" where
  "validate_override p = map_option (\<lambda>t. p\<lparr>qo_reason := t\<rparr>) (agent_text 500 (qo_reason p))"

section \<open>Documents\<close>

text \<open>
  Keys under which a model's private reasoning could be stored.  A document that holds one at any
  depth is refused; the error names the path.
\<close>

definition private_reasoning_keys :: "string list" where
  "private_reasoning_keys = [''analysis'', ''chainofthought'', ''hiddenreasoning'', ''hiddenthoughts'',
     ''internalreasoning'', ''reasoning'', ''reasoningcontent'', ''reasoningdetails'', ''scratchpad'', ''thinking'']"

definition is_private_reasoning_key :: "string \<Rightarrow> bool" where
  "is_private_reasoning_key key \<longleftrightarrow>
     filter (\<lambda>c. c \<noteq> CHR ''-'' \<and> c \<noteq> CHR ''_'') (casefold (strip key)) \<in> set private_reasoning_keys"

fun reject_private_reasoning :: "string \<Rightarrow> json \<Rightarrow> string option"
  and reject_private_fields :: "string \<Rightarrow> (string \<times> json) list \<Rightarrow> string option"
  and reject_private_items :: "string \<Rightarrow> nat \<Rightarrow> json list \<Rightarrow> string option" where
  "reject_private_reasoning path (JObj kvs) = reject_private_fields path kvs"
| "reject_private_reasoning path (JArr vs) = reject_private_items path 0 vs"
| "reject_private_reasoning path JNull = None"
| "reject_private_reasoning path (JBool _) = None"
| "reject_private_reasoning path (JInt _) = None"
| "reject_private_reasoning path (JFloat _) = None"
| "reject_private_reasoning path (JStr _) = None"
| "reject_private_fields path [] = None"
| "reject_private_fields path ((k, v) # kvs) =
     (if is_private_reasoning_key k then Some (path @ '' cannot persist private reasoning fields'')
      else case reject_private_reasoning (path @ ''.'' @ k) v of
             Some e \<Rightarrow> Some e
           | None \<Rightarrow> reject_private_fields path kvs)"
| "reject_private_items path n [] = None"
| "reject_private_items path n (v # vs) =
     (case reject_private_reasoning (path @ ''['' @ nat_str n @ '']'') v of
        Some e \<Rightarrow> Some e
      | None \<Rightarrow> reject_private_items path (Suc n) vs)"

text \<open>The view serialisers: private fields are left out at every depth.\<close>

fun without_private_reasoning :: "json \<Rightarrow> json" where
  "without_private_reasoning (JObj kvs) =
     JObj (map (\<lambda>(k, v). (k, without_private_reasoning v)) (filter (\<lambda>kv. \<not> is_private_reasoning_key (fst kv)) kvs))"
| "without_private_reasoning (JArr vs) = JArr (map without_private_reasoning vs)"
| "without_private_reasoning JNull = JNull"
| "without_private_reasoning (JBool b) = JBool b"
| "without_private_reasoning (JInt i) = JInt i"
| "without_private_reasoning (JFloat x) = JFloat x"
| "without_private_reasoning (JStr s) = JStr s"

text \<open>
  \<open>json.dumps\<close> with \<open>ensure_ascii=True\<close>, separators without blanks and
  \<open>sort_keys=True\<close>, and the document that \<open>json.loads\<close> reads back from it, whose
  keys are in order.
\<close>

definition ascii_char :: "char \<Rightarrow> string" where
  "ascii_char c =
     (let n = (of_char c :: nat) in
      if 126 < n then [CHR 0x5C, CHR ''u''] @ hex_digits 4 n else json_escape_char c)"

definition ascii_string :: "string \<Rightarrow> string" where
  "ascii_string s = [CHR 0x22] @ concat (map ascii_char s) @ [CHR 0x22]"

fun ascii_dumps :: "env \<Rightarrow> json \<Rightarrow> string" where
  "ascii_dumps E JNull = ''null''"
| "ascii_dumps E (JBool b) = (if b then ''true'' else ''false'')"
| "ascii_dumps E (JInt i) = int_str i"
| "ascii_dumps E (JFloat x) = float_repr E x"
| "ascii_dumps E (JStr s) = ascii_string s"
| "ascii_dumps E (JArr xs) = ''['' @ join '','' (map (ascii_dumps E) xs) @ '']''"
| "ascii_dumps E (JObj kvs) =
     ''{'' @ join '','' (map (\<lambda>(k, d). ascii_string k @ '':'' @ d)
               (sort_key fst (map (\<lambda>(k, v). (k, ascii_dumps E v)) kvs))) @ ''}''"

fun key_sorted :: "json \<Rightarrow> json" where
  "key_sorted (JObj kvs) = JObj (sort_key fst (map (\<lambda>(k, v). (k, key_sorted v)) kvs))"
| "key_sorted (JArr vs) = JArr (map key_sorted vs)"
| "key_sorted JNull = JNull"
| "key_sorted (JBool b) = JBool b"
| "key_sorted (JInt i) = JInt i"
| "key_sorted (JFloat x) = JFloat x"
| "key_sorted (JStr s) = JStr s"

definition max_persisted_json_bytes :: nat where
  "max_persisted_json_bytes = 65536"

definition normalize_json :: "env \<Rightarrow> json \<Rightarrow> string \<Rightarrow> (agent_error, json \<times> string) res" where
  "normalize_json E value field_name =
     (case reject_private_reasoning field_name value of
        Some message \<Rightarrow> Inl (PersistedJsonValidation message)
      | None \<Rightarrow>
          let raw = ascii_dumps E value in
          if max_persisted_json_bytes < length raw
          then Inl (PersistedJsonValidation (field_name @ '' exceeds 65536 bytes''))
          else if \<not> is_obj value then Inl (PersistedJsonValidation (field_name @ '' must be a JSON object''))
          else Inr (key_sorted value, sha256_hex E raw))"

fun as_utc :: "py_datetime \<Rightarrow> instant" where
  "as_utc (Naive t) = t"
| "as_utc (Aware wall offset) = wall - offset"

section \<open>Reads\<close>

definition locked_workspace :: "agent_db \<Rightarrow> uuid option \<Rightarrow> (agent_error, workspace) res" where
  "locked_workspace w wanted =
     (case (case wanted of None \<Rightarrow> workspaces (core w)
            | Some i \<Rightarrow> filter (\<lambda>x. ws_id x = i) (workspaces (core w))) of
        [] \<Rightarrow> Inl (TaskAgentNotFound ''workspace not found'')
      | [x] \<Rightarrow> Inr x
      | _ \<Rightarrow> Inl (TaskAgentConflict ''this release supports exactly one workspace''))"

definition locked_session :: "agent_db \<Rightarrow> uuid \<Rightarrow> uuid option \<Rightarrow> (agent_error, agent_session) res" where
  "locked_session w i wanted =
     bind_res (locked_workspace w wanted) (\<lambda>ws.
       of_option (TaskAgentNotFound ''agent session not found'')
         (case get_row as_id i (agent_sessions w) of
            Some ss \<Rightarrow> if as_workspace_id ss = ws_id ws then Some ss else None
          | None \<Rightarrow> None))"

definition locked_run :: "agent_db \<Rightarrow> uuid \<Rightarrow> uuid option \<Rightarrow> (agent_error, agent_session \<times> agent_run) res" where
  "locked_run w i wanted =
     bind_res (locked_workspace w wanted) (\<lambda>ws.
       of_option (TaskAgentNotFound ''agent run not found'')
         (case get_row rn_id i (agent_runs w) of
            None \<Rightarrow> None
          | Some r \<Rightarrow>
              (case get_row as_id (rn_session_id r) (agent_sessions w) of
                 None \<Rightarrow> None
               | Some ss \<Rightarrow> if as_workspace_id ss = ws_id ws then Some (ss, r) else None)))"

definition locked_question ::
    "agent_db \<Rightarrow> uuid \<Rightarrow> uuid option \<Rightarrow> (agent_error, agent_session \<times> agent_run \<times> pending_question) res" where
  "locked_question w i wanted =
     bind_res (locked_workspace w wanted) (\<lambda>ws.
       of_option (TaskAgentNotFound ''pending question not found'')
         (case get_row pq_id i (questions w) of
            None \<Rightarrow> None
          | Some q \<Rightarrow>
              (case get_row rn_id (pq_run_id q) (agent_runs w) of
                 None \<Rightarrow> None
               | Some r \<Rightarrow>
                   (case get_row as_id (rn_session_id r) (agent_sessions w) of
                      None \<Rightarrow> None
                    | Some ss \<Rightarrow>
                        if pq_session_id q = as_id ss \<and> as_workspace_id ss = ws_id ws
                        then Some (ss, r, q) else None))))"

definition require_principal :: "agent_db \<Rightarrow> uuid \<Rightarrow> uuid \<Rightarrow> (agent_error, principal) res" where
  "require_principal w i ws =
     of_option (TaskAgentNotFound ''active principal not found in workspace'')
       (case get_row pr_id i (principals (core w)) of
          Some p \<Rightarrow> if pr_workspace_id p = ws \<and> pr_active p then Some p else None
        | None \<Rightarrow> None)"

definition open_question :: "agent_db \<Rightarrow> uuid \<Rightarrow> pending_question option" where
  "open_question w run = find (\<lambda>q. pq_run_id q = run \<and> pq_open_slot q = Some 1) (questions w)"

definition get_definition :: "agent_db \<Rightarrow> uuid \<Rightarrow> uuid \<Rightarrow> (agent_error, agent_definition) res" where
  "get_definition w i ws =
     of_option (TaskAgentNotFound ''agent definition not found'')
       (case get_row ad_id i (agent_definitions w) of
          Some d \<Rightarrow> if ad_workspace_id d = ws then Some d else None
        | None \<Rightarrow> None)"

definition version_in_workspace :: "agent_db \<Rightarrow> uuid \<Rightarrow> uuid \<Rightarrow> agent_version option" where
  "version_in_workspace w i ws =
     (case get_row av_id i (agent_versions w) of
        None \<Rightarrow> None
      | Some v \<Rightarrow>
          (case get_row ad_id (av_definition_id v) (agent_definitions w) of
             None \<Rightarrow> None
           | Some d \<Rightarrow> if ad_workspace_id d = ws then Some v else None))"

definition get_version :: "agent_db \<Rightarrow> uuid \<Rightarrow> uuid \<Rightarrow> (agent_error, agent_version) res" where
  "get_version w i ws = of_option (TaskAgentNotFound ''agent version not found'') (version_in_workspace w i ws)"

definition get_session :: "agent_db \<Rightarrow> uuid \<Rightarrow> uuid \<Rightarrow> (agent_error, agent_session) res" where
  "get_session w i ws =
     of_option (TaskAgentNotFound ''agent session not found'')
       (case get_row as_id i (agent_sessions w) of
          Some ss \<Rightarrow> if as_workspace_id ss = ws then Some ss else None
        | None \<Rightarrow> None)"

definition get_run :: "agent_db \<Rightarrow> uuid \<Rightarrow> uuid \<Rightarrow> (agent_error, agent_run) res" where
  "get_run w i ws =
     of_option (TaskAgentNotFound ''agent run not found'')
       (case get_row rn_id i (agent_runs w) of
          None \<Rightarrow> None
        | Some r \<Rightarrow>
            (case get_row as_id (rn_session_id r) (agent_sessions w) of
               Some ss \<Rightarrow> if as_workspace_id ss = ws then Some r else None
             | None \<Rightarrow> None))"

definition get_question :: "agent_db \<Rightarrow> uuid \<Rightarrow> uuid \<Rightarrow> (agent_error, pending_question) res" where
  "get_question w i ws =
     of_option (TaskAgentNotFound ''pending question not found'')
       (case get_row pq_id i (questions w) of
          None \<Rightarrow> None
        | Some q \<Rightarrow>
            (case get_row as_id (pq_session_id q) (agent_sessions w) of
               Some ss \<Rightarrow> if as_workspace_id ss = ws then Some q else None
             | None \<Rightarrow> None))"

text \<open>A page of the rows in descending order of a key, and the number of all rows.\<close>

definition page_of :: "('r \<Rightarrow> 'k::linorder) \<Rightarrow> nat \<Rightarrow> nat \<Rightarrow> 'r list \<Rightarrow> 'r list \<times> nat" where
  "page_of key limit offset rows = (take limit (drop offset (rev (sort_key key rows))), length rows)"

definition list_definitions :: "agent_db \<Rightarrow> uuid \<Rightarrow> nat \<Rightarrow> nat \<Rightarrow> agent_definition list \<times> nat" where
  "list_definitions w ws limit offset =
     page_of (\<lambda>d. (ad_created_at d, ad_id d)) limit offset (filter (\<lambda>d. ad_workspace_id d = ws) (agent_definitions w))"

definition list_versions ::
    "agent_db \<Rightarrow> uuid \<Rightarrow> uuid \<Rightarrow> nat \<Rightarrow> nat \<Rightarrow> (agent_error, agent_version list \<times> nat) res" where
  "list_versions w definition ws limit offset =
     bind_res (get_definition w definition ws) (\<lambda>_.
       Inr (page_of (\<lambda>v. (av_version_number v, av_id v)) limit offset
              (filter (\<lambda>v. av_definition_id v = definition) (agent_versions w))))"

definition list_sessions :: "agent_db \<Rightarrow> uuid \<Rightarrow> nat \<Rightarrow> nat \<Rightarrow> agent_session list \<times> nat" where
  "list_sessions w ws limit offset =
     page_of (\<lambda>s. (as_created_at s, as_id s)) limit offset (filter (\<lambda>s. as_workspace_id s = ws) (agent_sessions w))"

definition list_runs :: "agent_db \<Rightarrow> uuid \<Rightarrow> uuid \<Rightarrow> nat \<Rightarrow> nat \<Rightarrow> (agent_error, agent_run list \<times> nat) res" where
  "list_runs w ss ws limit offset =
     bind_res (get_session w ss ws) (\<lambda>_.
       Inr (page_of (\<lambda>r. (rn_created_at r, rn_id r)) limit offset
              (filter (\<lambda>r. rn_session_id r = ss) (agent_runs w))))"


section \<open>Appending to a session\<close>

text \<open>
  A session counts its inbox items and its events; the row the operation has locked is written
  back with the new number.
\<close>

definition append_inbox ::
    "env \<Rightarrow> agent_session \<Rightarrow> uuid \<Rightarrow> uuid \<Rightarrow> agent_inbox_kind \<Rightarrow> json \<Rightarrow> string \<Rightarrow> uuid option \<Rightarrow> agent_db
     \<Rightarrow> session_inbox \<times> agent_session \<times> agent_db" where
  "append_inbox E ss run actor kind payload payload_sha256 question w =
     (let ss' = ss\<lparr>as_last_inbox_seq := as_last_inbox_seq ss + 1\<rparr>;
          (i, w1) = alloc_agent E w;
          item = \<lparr>si_id = i, si_session_id = as_id ss', si_seq = as_last_inbox_seq ss', si_kind = kind,
                  si_run_id = run, si_actor_principal_id = actor, si_question_id = question,
                  si_payload = payload, si_payload_sha256 = payload_sha256\<rparr>
      in (item, ss', w1\<lparr>agent_sessions := put_row as_id ss' (agent_sessions w1),
                       session_inboxes := session_inboxes w1 @ [item]\<rparr>))"

definition append_event ::
    "env \<Rightarrow> agent_session \<Rightarrow> agent_event_type \<Rightarrow> json \<Rightarrow> uuid option \<Rightarrow> uuid option \<Rightarrow> agent_db
     \<Rightarrow> (agent_error, agent_session \<times> agent_db) res" where
  "append_event E ss event_type payload run question w =
     bind_res (normalize_json E payload ''event payload'') (\<lambda>(normalized, _).
       let ss' = ss\<lparr>as_last_event_seq := as_last_event_seq ss + 1\<rparr>;
           (i, w1) = alloc_agent E w;
           ev = \<lparr>ae_id = i, ae_session_id = as_id ss', ae_seq = as_last_event_seq ss', ae_run_id = run,
                 ae_question_id = question, ae_event_type = event_type, ae_payload = normalized\<rparr>
       in Inr (ss', w1\<lparr>agent_sessions := put_row as_id ss' (agent_sessions w1),
                        agent_events := agent_events w1 @ [ev]\<rparr>))"

section \<open>Definitions, versions and sessions\<close>

definition resolve_admin_principal ::
    "env \<Rightarrow> uuid \<Rightarrow> uuid \<Rightarrow> string option \<Rightarrow> agent_db \<Rightarrow> (agent_error, principal \<times> agent_db) res" where
  "resolve_admin_principal E workspace admin display_name w =
     bind_res (locked_workspace w (Some workspace)) (\<lambda>ws.
       case find_principal (core w) (ws_id ws) Pr_ADMIN_USER (uuid_str admin) of
         Some p \<Rightarrow>
           let p' = p\<lparr>pr_display_name := display_name, pr_active := True\<rparr>
           in Inr (p', w\<lparr>core := (core w)\<lparr>principals := put_row pr_id p' (principals (core w))\<rparr>\<rparr>)
       | None \<Rightarrow>
           let (i, w1) = alloc_agent E w;
               p' = \<lparr>pr_id = i, pr_workspace_id = ws_id ws, pr_principal_type = Pr_ADMIN_USER,
                     pr_external_id = uuid_str admin, pr_display_name = display_name, pr_active = True\<rparr>
           in Inr (p', w1\<lparr>core := (core w1)\<lparr>principals := principals (core w1) @ [p']\<rparr>\<rparr>))"

text \<open>
  \<open>raced\<close> are rows that other transactions commit between the reads of an operation and
  its insert; a duplicate of a unique key is the \<open>IntegrityError\<close> of the insert.
\<close>

definition create_definition ::
    "env \<Rightarrow> agent_definition_create \<Rightarrow> agent_definition list \<Rightarrow> (nat \<Rightarrow> instant) \<Rightarrow> agent_db
     \<Rightarrow> (agent_error, agent_definition \<times> agent_db) res" where
  "create_definition E p raced clock w =
     bind_res (locked_workspace w (Some (dc_workspace_id p))) (\<lambda>_.
       let (i, w1) = alloc_agent E w;
           d = \<lparr>ad_id = i, ad_workspace_id = dc_workspace_id p, ad_definition_key = dc_definition_key p,
                ad_name = dc_name p, ad_description = dc_description p, ad_retired_at = None, ad_created_at = clock 0\<rparr>;
           rows = agent_definitions w1 @ raced
       in if \<exists>x\<in>set rows. ad_workspace_id x = ad_workspace_id d \<and> ad_definition_key x = ad_definition_key d
          then Inl (TaskAgentConflict ''agent definition key already exists'')
          else Inr (d, w1\<lparr>agent_definitions := rows @ [d]\<rparr>))"

definition publish_version ::
    "env \<Rightarrow> uuid \<Rightarrow> agent_version_publish \<Rightarrow> uuid option \<Rightarrow> agent_version list \<Rightarrow> (nat \<Rightarrow> instant) \<Rightarrow> agent_db
     \<Rightarrow> (agent_error, agent_version \<times> agent_db) res" where
  "publish_version E definition p wanted raced clock w =
     bind_res (locked_workspace w wanted) (\<lambda>ws.
     bind_res (get_definition w definition (ws_id ws)) (\<lambda>d.
     bind_res (check_that (ad_retired_at d = None)
                 (TaskAgentConflict ''retired agent definition cannot be published'')) (\<lambda>_.
     bind_res (case vp_published_by_principal_id p of
                 None \<Rightarrow> Inr () | Some i \<Rightarrow> map_sum id (\<lambda>_. ()) (require_principal w i (ad_workspace_id d))) (\<lambda>_.
     bind_res (normalize_json E (vp_specification p) ''specification'') (\<lambda>(specification, sha).
       let current = list_max (map av_version_number (filter (\<lambda>v. av_definition_id v = ad_id d) (agent_versions w)));
           (i, w1) = alloc_agent E w;
           v = \<lparr>av_id = i, av_definition_id = ad_id d, av_version_number = (case current of None \<Rightarrow> 0 | Some n \<Rightarrow> n) + 1,
                av_specification = specification, av_specification_sha256 = sha,
                av_published_by_principal_id = vp_published_by_principal_id p, av_published_at = clock 0\<rparr>;
           rows = agent_versions w1 @ raced
       in if \<exists>x\<in>set rows. av_definition_id x = av_definition_id v \<and> av_version_number x = av_version_number v
          then Inl (TaskAgentConflict ''agent version publication conflicted'')
          else Inr (v, w1\<lparr>agent_versions := rows @ [v]\<rparr>))))))"

definition create_session ::
    "env \<Rightarrow> agent_session_create \<Rightarrow> (nat \<Rightarrow> instant) \<Rightarrow> agent_db \<Rightarrow> (agent_error, agent_session \<times> agent_db) res" where
  "create_session E p clock w =
     bind_res (locked_workspace w (Some (sc_workspace_id p))) (\<lambda>ws.
     bind_res (of_option (TaskAgentNotFound ''agent version not found in workspace'')
                 (version_in_workspace w (sc_agent_version_id p) (ws_id ws))) (\<lambda>_.
     bind_res (require_principal w (sc_requester_principal_id p) (sc_workspace_id p)) (\<lambda>_.
     bind_res (normalize_json E (sc_task_scope p) ''task_scope'') (\<lambda>(task_scope, sha).
       let (i, w1) = alloc_agent E w;
           ss = \<lparr>as_id = i, as_workspace_id = sc_workspace_id p, as_agent_version_id = sc_agent_version_id p,
                 as_requester_principal_id = sc_requester_principal_id p, as_task_scope = task_scope,
                 as_task_scope_sha256 = sha, as_last_inbox_seq = 0, as_last_event_seq = 0, as_created_at = clock 0\<rparr>;
           w2 = w1\<lparr>agent_sessions := agent_sessions w1 @ [ss]\<rparr>
       in append_event E ss Ae_SESSION_CREATED
            (JObj [(''agent_version_id'', JStr (uuid_str (as_agent_version_id ss))),
                   (''requester_principal_id'', JStr (uuid_str (as_requester_principal_id ss))),
                   (''task_scope_sha256'', JStr sha)]) None None w2))))"

section \<open>Runs\<close>

definition resolve_idempotent_run :: "agent_run \<Rightarrow> json \<Rightarrow> string \<Rightarrow> (agent_error, agent_run) res" where
  "resolve_idempotent_run existing input_payload input_sha256 =
     (if rn_input_sha256 existing \<noteq> input_sha256 \<or> rn_input_payload existing \<noteq> input_payload
      then Inl (RunIdempotencyConflict ''idempotency key is already bound to different input'')
      else Inr existing)"

definition run_of_key :: "agent_run list \<Rightarrow> uuid \<Rightarrow> string \<Rightarrow> agent_run option" where
  "run_of_key rows ss key = find (\<lambda>r. rn_session_id r = ss \<and> rn_idempotency_key r = key) rows"

definition active_run :: "agent_run list \<Rightarrow> uuid \<Rightarrow> agent_run option" where
  "active_run rows ss = find (\<lambda>r. rn_session_id r = ss \<and> rn_active_slot r = Some 1) rows"

definition create_run ::
    "env \<Rightarrow> uuid \<Rightarrow> agent_run_create \<Rightarrow> uuid option \<Rightarrow> agent_run list \<Rightarrow> (nat \<Rightarrow> instant) \<Rightarrow> agent_db
     \<Rightarrow> (agent_error, agent_run \<times> agent_db) res" where
  "create_run E session p wanted raced clock w =
     bind_res (normalize_json E (nc_input_payload p) ''input_payload'') (\<lambda>(input, sha).
     bind_res (locked_session w session wanted) (\<lambda>ss.
       case run_of_key (agent_runs w) session (nc_idempotency_key p) of
         Some existing \<Rightarrow> map_sum id (\<lambda>r. (r, w)) (resolve_idempotent_run existing input sha)
       | None \<Rightarrow>
           if active_run (agent_runs w) session \<noteq> None
           then Inl (ActiveRunConflict ''session already has an active run'')
           else
             let (i, w1) = alloc_agent E w;
                 run = \<lparr>rn_id = i, rn_session_id = session, rn_idempotency_key = nc_idempotency_key p,
                        rn_input_payload = input, rn_input_sha256 = sha, rn_status = Run_QUEUED, rn_active_slot = Some 1,
                        rn_started_at = None, rn_finished_at = None, rn_last_error_code = None, rn_created_at = clock 0\<rparr>;
                 rows = agent_runs w1 @ raced
             in if run_of_key rows session (nc_idempotency_key p) \<noteq> None \<or> active_run rows session \<noteq> None
                then (case run_of_key rows session (nc_idempotency_key p) of
                        Some existing \<Rightarrow>
                          map_sum id (\<lambda>r. (r, w\<lparr>agent_runs := rows\<rparr>)) (resolve_idempotent_run existing input sha)
                      | None \<Rightarrow> Inl (ActiveRunConflict ''session already has an active run''))
                else
                  let w2 = w1\<lparr>agent_runs := rows @ [run]\<rparr>;
                      (item, ss1, w3) = append_inbox E ss (rn_id run) (as_requester_principal_id ss) Ik_RUN_REQUEST input sha None w2
                  in bind_res (append_event E ss1 Ae_RUN_CREATED
                       (JObj [(''idempotency_key'', JStr (rn_idempotency_key run)), (''input_sha256'', JStr sha),
                              (''inbox_seq'', JInt (si_seq item)), (''status'', JStr (run_status_str (rn_status run)))])
                       (Some (rn_id run)) None w3) (\<lambda>(_, w4). Inr (run, w4))))"

definition close_question :: "bool \<Rightarrow> instant \<Rightarrow> pending_question \<Rightarrow> pending_question" where
  "close_question expired now q =
     q\<lparr>pq_status := (if expired then Qs_EXPIRED else Qs_CANCELLED), pq_open_slot := None, pq_closed_at := Some now\<rparr>"

definition close_open_questions :: "uuid \<Rightarrow> bool \<Rightarrow> instant \<Rightarrow> agent_db \<Rightarrow> agent_db" where
  "close_open_questions run expired now w =
     w\<lparr>questions := map (\<lambda>q. if pq_run_id q = run \<and> pq_open_slot q = Some 1 then close_question expired now q else q)
        (questions w)\<rparr>"

definition moved_run :: "run_status \<Rightarrow> string option \<Rightarrow> instant \<Rightarrow> agent_run \<Rightarrow> agent_run" where
  "moved_run target error_code now r =
     (let r1 = r\<lparr>rn_status := target, rn_last_error_code := error_code\<rparr>;
          r2 = (if target = Run_RUNNING \<and> rn_started_at r1 = None then r1\<lparr>rn_started_at := Some now\<rparr> else r1)
      in if target \<in> set terminal_run_statuses then r2\<lparr>rn_active_slot := None, rn_finished_at := Some now\<rparr>
         else if target \<in> set active_run_statuses then r2\<lparr>rn_active_slot := Some 1, rn_finished_at := None\<rparr>
         else r2)"

definition move_run :: "instant \<times> string option \<Rightarrow> run_status \<Rightarrow> agent_run \<Rightarrow> (agent_error, agent_run) res" where
  "move_run a target r =
     (if target \<notin> set (run_transitions (rn_status r))
      then Inl (InvalidRunTransition (''run cannot transition from '' @ run_status_str (rn_status r) @ '' to '' @ run_status_str target))
      else Inr (moved_run target (snd a) (fst a) r))"

definition transition_locked ::
    "env \<Rightarrow> agent_session \<Rightarrow> agent_run \<Rightarrow> run_status \<Rightarrow> string option \<Rightarrow> string option \<Rightarrow> instant \<Rightarrow> agent_db
     \<Rightarrow> (agent_error, agent_run \<times> agent_db) res" where
  "transition_locked E ss run target reason error_code now w =
     bind_res (move_run (now, error_code) target run) (\<lambda>run'.
       let w1 = w\<lparr>agent_runs := put_row rn_id run' (agent_runs w)\<rparr>;
           w2 = (if target \<in> set terminal_run_statuses
                 then close_open_questions (rn_id run) (target = Run_EXPIRED) now w1 else w1)
       in bind_res (append_event E ss Ae_RUN_STATUS_CHANGED
            (JObj [(''from'', JStr (run_status_str (rn_status run))), (''to'', JStr (run_status_str target)),
                   (''reason'', json_opt_str reason), (''error_code'', json_opt_str error_code)])
            (Some (rn_id run)) None w2) (\<lambda>(_, w3). Inr (run', w3)))"

definition transition_run ::
    "env \<Rightarrow> uuid \<Rightarrow> agent_run_transition \<Rightarrow> uuid option \<Rightarrow> (nat \<Rightarrow> instant) \<Rightarrow> agent_db
     \<Rightarrow> (agent_error, agent_run \<times> agent_db) res" where
  "transition_run E i p wanted clock w =
     bind_res (locked_run w i wanted) (\<lambda>(ss, run).
       if rn_status run = Run_WAITING_USER \<and> nt_status p = Run_QUEUED \<and> open_question w (rn_id run) \<noteq> None
       then Inl (InvalidRunTransition ''WAITING_USER can resume only after its pending question is answered'')
       else transition_locked E ss run (nt_status p) (nt_reason p) (nt_error_code p) (clock 0) w)"

section \<open>Questions\<close>

definition ask_question ::
    "env \<Rightarrow> uuid \<Rightarrow> pending_question_create \<Rightarrow> uuid option \<Rightarrow> pending_question list \<Rightarrow> (nat \<Rightarrow> instant) \<Rightarrow> agent_db
     \<Rightarrow> (agent_error, pending_question \<times> agent_db) res" where
  "ask_question E i p wanted raced clock w =
     bind_res (locked_run w i wanted) (\<lambda>(ss, run).
     bind_res (check_that (rn_status run = Run_RUNNING)
                 (InvalidRunTransition ''questions can only be asked by a RUNNING run'')) (\<lambda>_.
     bind_res (require_principal w (qc_allowed_principal_id p) (as_workspace_id ss)) (\<lambda>_.
     bind_res (check_that (clock 0 < as_utc (qc_expires_at p))
                 (QuestionExpired ''question expiry must be in the future'')) (\<lambda>_.
     bind_res (normalize_json E (qc_context p) ''question context'') (\<lambda>(context, _).
     bind_res (check_that (open_question w (rn_id run) = None)
                 (PendingQuestionConflict ''run already has a pending question'')) (\<lambda>_.
       let (qi, w1) = alloc_agent E w;
           q = \<lparr>pq_id = qi, pq_session_id = as_id ss, pq_run_id = rn_id run,
                pq_allowed_principal_id = qc_allowed_principal_id p, pq_prompt = qc_prompt p, pq_context = context,
                pq_status = Qs_PENDING, pq_open_slot = Some 1, pq_expires_at = as_utc (qc_expires_at p),
                pq_answered_at = None, pq_answered_by_principal_id = None, pq_answer_payload = None,
                pq_answer_sha256 = None, pq_answer_inbox_seq = None, pq_closed_at = None, pq_created_at = clock 1\<rparr>;
           rows = questions w1 @ raced
       in if \<exists>x\<in>set rows. pq_run_id x = rn_id run \<and> pq_open_slot x = Some 1
          then Inl (PendingQuestionConflict ''run already has a pending question'')
          else
            bind_res (append_event E ss Ae_QUESTION_ASKED
              (JObj [(''allowed_principal_id'', JStr (uuid_str (pq_allowed_principal_id q))),
                     (''expires_at'', JStr (isoformat E (pq_expires_at q)))])
              (Some (rn_id run)) (Some qi) (w1\<lparr>questions := rows @ [q]\<rparr>)) (\<lambda>(ss1, w2).
            bind_res (transition_locked E ss1 run Run_WAITING_USER (Some ''pending user answer'') None (clock 2) w2) (\<lambda>(_, w3).
              Inr (q, w3)))))))))"

definition validate_answerable :: "pending_question \<Rightarrow> agent_run \<Rightarrow> instant \<Rightarrow> (agent_error, unit) res" where
  "validate_answerable q run now =
     (if pq_status q \<noteq> Qs_PENDING
      then if pq_status q = Qs_EXPIRED then Inl (QuestionExpired ''pending question has expired'')
           else Inl (QuestionAlreadyConsumed ''pending question has already been consumed'')
      else if pq_expires_at q \<le> now then Inl (QuestionExpired ''pending question has expired'')
      else if rn_status run \<noteq> Run_WAITING_USER \<or> rn_active_slot run \<noteq> Some 1
      then Inl (PendingQuestionConflict ''run is not waiting for a user answer'')
      else Inr ())"

record answer_result =
  qr_question :: pending_question
  qr_inbox_item :: session_inbox
  qr_run :: agent_run

definition answered_question ::
    "uuid \<Rightarrow> json \<Rightarrow> string \<Rightarrow> int \<Rightarrow> instant \<Rightarrow> pending_question \<Rightarrow> pending_question" where
  "answered_question actor answer sha seq now q =
     q\<lparr>pq_status := Qs_ANSWERED, pq_open_slot := None, pq_answered_at := Some now,
       pq_answered_by_principal_id := Some actor, pq_answer_payload := Some answer, pq_answer_sha256 := Some sha,
       pq_answer_inbox_seq := Some seq, pq_closed_at := Some now\<rparr>"

definition consume_answer ::
    "env \<Rightarrow> agent_session \<Rightarrow> agent_run \<Rightarrow> pending_question \<Rightarrow> uuid \<Rightarrow> json \<Rightarrow> string \<Rightarrow> string option \<Rightarrow> string
     \<Rightarrow> (nat \<Rightarrow> instant) \<Rightarrow> agent_db \<Rightarrow> (agent_error, answer_result \<times> agent_db) res" where
  "consume_answer E ss run q actor payload mode answer_reason transition_reason clock w =
     bind_res (normalize_json E payload ''answer_payload'') (\<lambda>(answer, sha).
       let (item, ss1, w1) = append_inbox E ss (rn_id run) actor Ik_QUESTION_ANSWER answer sha (Some (pq_id q)) w;
           q' = answered_question actor answer sha (si_seq item) (clock 1) q;
           w2 = w1\<lparr>questions := put_row pq_id q' (questions w1)\<rparr>
       in bind_res (append_event E ss1 Ae_QUESTION_ANSWERED
            (JObj [(''answer_sha256'', JStr sha), (''inbox_seq'', JInt (si_seq item)), (''answer_mode'', JStr mode),
                   (''actor_principal_id'', JStr (uuid_str actor)), (''reason'', json_opt_str answer_reason)])
            (Some (rn_id run)) (Some (pq_id q)) w2) (\<lambda>(ss2, w3).
          bind_res (transition_locked E ss2 run Run_QUEUED (Some transition_reason) None (clock 2) w3) (\<lambda>(run', w4).
            Inr (\<lparr>qr_question = q', qr_inbox_item = item, qr_run = run'\<rparr>, w4))))"

definition answer_question ::
    "env \<Rightarrow> uuid \<Rightarrow> pending_question_answer \<Rightarrow> uuid option \<Rightarrow> (nat \<Rightarrow> instant) \<Rightarrow> agent_db
     \<Rightarrow> (agent_error, answer_result \<times> agent_db) res" where
  "answer_question E i p wanted clock w =
     bind_res (locked_question w i wanted) (\<lambda>(ss, run, q).
     bind_res (validate_answerable q run (clock 0)) (\<lambda>_.
     bind_res (check_that (qa_principal_id p = pq_allowed_principal_id q)
                 (QuestionAnswerForbidden ''principal is not allowed to answer this question'')) (\<lambda>_.
     bind_res (require_principal w (qa_principal_id p) (as_workspace_id ss)) (\<lambda>_.
       consume_answer E ss run q (qa_principal_id p) (qa_answer_payload p) ''RUNTIME_PRINCIPAL'' None
         ''user answer received'' clock w))))"

definition override_answer_question ::
    "env \<Rightarrow> uuid \<Rightarrow> pending_question_override \<Rightarrow> uuid \<Rightarrow> uuid option \<Rightarrow> (nat \<Rightarrow> instant) \<Rightarrow> agent_db
     \<Rightarrow> (agent_error, answer_result \<times> agent_db) res" where
  "override_answer_question E i p actor wanted clock w =
     bind_res (locked_question w i wanted) (\<lambda>(ss, run, q).
     bind_res (validate_answerable q run (clock 0)) (\<lambda>_.
     bind_res (require_principal w actor (as_workspace_id ss)) (\<lambda>_.
       consume_answer E ss run q actor (qo_answer_payload p) ''ADMIN_OVERRIDE'' (Some (qo_reason p))
         ''administrator override answer received'' clock w)))"

section \<open>The state of a session\<close>

record session_state =
  sst_session :: agent_session
  sst_active_run :: "agent_run option"
  sst_inbox :: "session_inbox list"
  sst_events :: "agent_event list"
  sst_questions :: "pending_question list"
  sst_inbox_has_more :: bool
  sst_events_has_more :: bool
  sst_questions_has_more :: bool

text \<open>The newest rows in ascending order, and whether there are more.\<close>

definition recent :: "('r \<Rightarrow> 'k::linorder) \<Rightarrow> nat \<Rightarrow> 'r list \<Rightarrow> 'r list \<times> bool" where
  "recent key limit rows =
     (let page = take (limit + 1) (rev (sort_key key rows)) in (rev (take limit page), limit < length page))"

definition get_session_state ::
    "agent_db \<Rightarrow> uuid \<Rightarrow> uuid option \<Rightarrow> nat \<Rightarrow> (agent_error, session_state) res" where
  "get_session_state w i wanted history_limit =
     bind_res (check_that (1 \<le> history_limit \<and> history_limit \<le> 200)
                 (AgentValueError ''history_limit must be between 1 and 200'')) (\<lambda>_.
     bind_res (locked_workspace w wanted) (\<lambda>ws.
     bind_res (get_session w i (ws_id ws)) (\<lambda>ss.
       let (inbox, more_inbox) = recent si_seq history_limit (filter (\<lambda>x. si_session_id x = i) (session_inboxes w));
           (evs, more_events) = recent ae_seq history_limit (filter (\<lambda>x. ae_session_id x = i) (agent_events w));
           (qs, more_questions) = recent (\<lambda>q. (pq_created_at q, pq_id q)) history_limit
              (filter (\<lambda>q. pq_session_id q = i) (questions w))
       in Inr \<lparr>sst_session = ss, sst_active_run = active_run (agent_runs w) i, sst_inbox = inbox, sst_events = evs,
               sst_questions = qs, sst_inbox_has_more = more_inbox, sst_events_has_more = more_events,
               sst_questions_has_more = more_questions\<rparr>)))"

end
