(* ===== verification/Agent_Invariants.thy ===== *)
theory Agent_Invariants
  imports Task_Agent
begin

text \<open>
  What every reachable state of the task agent satisfies.  Each operation is reduced to the
  effect it has on the tables (\<open>agent_effect\<close>), and each part of the invariant is kept
  by each effect: the numbering of the logs, the active slot of a session, open questions,
  answers, the agreement of the log with the status of a run, and the absence of private fields.
\<close>

section \<open>Documents without private fields\<close>

fun no_private :: "json \<Rightarrow> bool" where
  "no_private (JObj kvs) \<longleftrightarrow> list_all (\<lambda>(k, v). \<not> is_private_reasoning_key k \<and> no_private v) kvs"
| "no_private (JArr vs) \<longleftrightarrow> list_all no_private vs"
| "no_private JNull \<longleftrightarrow> True"
| "no_private (JBool _) \<longleftrightarrow> True"
| "no_private (JInt _) \<longleftrightarrow> True"
| "no_private (JFloat _) \<longleftrightarrow> True"
| "no_private (JStr _) \<longleftrightarrow> True"

lemma reject_private_None:
  "reject_private_reasoning path j = None \<longleftrightarrow> no_private j"
  "reject_private_fields path kvs = None \<longleftrightarrow> list_all (\<lambda>(k, v). \<not> is_private_reasoning_key k \<and> no_private v) kvs"
  "reject_private_items path n vs = None \<longleftrightarrow> list_all no_private vs"
  by (induction path j and path kvs and path n vs rule: reject_private_reasoning_reject_private_fields_reject_private_items.induct)
    (auto split: option.splits)

lemma no_private_key_sorted [simp]: "no_private (key_sorted j) \<longleftrightarrow> no_private j"
  by (induction j rule: key_sorted.induct) (fastforce simp: list_all_iff)+

lemma without_private_id: "no_private j \<Longrightarrow> without_private_reasoning j = j"
proof (induction j rule: without_private_reasoning.induct)
  case (1 kvs)
  then have "filter (\<lambda>kv. \<not> is_private_reasoning_key (fst kv)) kvs = kvs" by (intro filter_True) (auto simp: list_all_iff)
  with 1 show ?case by (auto simp: list_all_iff intro!: map_idI)
qed (auto simp: list_all_iff intro!: map_idI)

lemma without_private_no_private: "no_private (without_private_reasoning j)"
  by (induction j rule: without_private_reasoning.induct) (auto simp: list_all_iff)

lemma key_sorted_idem: "key_sorted (key_sorted j) = key_sorted j"
proof (induction j rule: key_sorted.induct)
  case (1 kvs)
  let ?f = "\<lambda>(k, v). (k, key_sorted v)"
  have f: "?f x = x" if "x \<in> set (sort_key fst (map ?f kvs))" for x
    using that 1 by auto
  then have "map ?f (sort_key fst (map ?f kvs)) = sort_key fst (map ?f kvs)" by (rule map_idI)
  then show ?case by (simp add: sort_key_id_if_sorted)
qed auto

lemma map_of_sort_key:
  assumes "distinct (map fst kvs)"
  shows "map_of (sort_key fst kvs) = map_of kvs"
proof -
  have "distinct (map fst (sort_key fst kvs))"
    using assms by (metis distinct_map distinct_sort inj_on_cong set_sort)
  then show ?thesis using assms by (intro map_of_inject_set[THEN iffD2]) simp_all
qed

lemma key_sorted_get:
  assumes "distinct (map fst kvs)"
  shows "json_get (key_sorted (JObj kvs)) k = key_sorted (json_get (JObj kvs) k)"
proof -
  have "map fst (map (\<lambda>(k, v). (k, key_sorted v)) kvs) = map fst kvs" by (induction kvs) auto
  then have "map_of (sort_key fst (map (\<lambda>(k, v). (k, key_sorted v)) kvs)) = map_of (map (\<lambda>(k, v). (k, key_sorted v)) kvs)"
    using assms by (intro map_of_sort_key) metis
  then show ?thesis
    by (simp add: json_get_def map_of_map split: option.split)
qed

lemma normalize_json_Inr:
  "normalize_json E j f = Inr (d, sha) \<longleftrightarrow>
     no_private j \<and> length (ascii_dumps E j) \<le> max_persisted_json_bytes \<and> is_obj j \<and> d = key_sorted j \<and>
     sha = sha256_hex E (ascii_dumps E j)"
  using reject_private_None(1)[of f j] by (cases "reject_private_reasoning f j") (auto simp: normalize_json_def Let_def)

section \<open>What an operation writes\<close>

lemma append_event_effect:
  assumes "append_event E ss t payload run qn w = Inr (ss', w')"
  shows "ss' = ss\<lparr>as_last_event_seq := as_last_event_seq ss + 1\<rparr> \<and> no_private payload \<and>
    w' = w\<lparr>core := (core w)\<lparr>next_id := Suc (next_id (core w))\<rparr>, agent_sessions := put_row as_id ss' (agent_sessions w),
      agent_events := agent_events w @ [\<lparr>ae_id = uuid7 E (next_id (core w)), ae_session_id = as_id ss,
        ae_seq = as_last_event_seq ss + 1, ae_run_id = run, ae_question_id = qn, ae_event_type = t,
        ae_payload = key_sorted payload\<rparr>]\<rparr>"
  using assms by (auto simp: append_event_def alloc_agent_def alloc_def Let_def result_simps normalize_json_Inr)

lemma append_inbox_effect:
  assumes "append_inbox E ss run actor kind payload sha qn w = (item, ss', w')"
  shows "ss' = ss\<lparr>as_last_inbox_seq := as_last_inbox_seq ss + 1\<rparr> \<and>
    item = \<lparr>si_id = uuid7 E (next_id (core w)), si_session_id = as_id ss, si_seq = as_last_inbox_seq ss + 1,
      si_kind = kind, si_run_id = run, si_actor_principal_id = actor, si_question_id = qn, si_payload = payload,
      si_payload_sha256 = sha\<rparr> \<and>
    w' = w\<lparr>core := (core w)\<lparr>next_id := Suc (next_id (core w))\<rparr>, agent_sessions := put_row as_id ss' (agent_sessions w),
      session_inboxes := session_inboxes w @ [item]\<rparr>"
  using assms by (auto simp: append_inbox_def alloc_agent_def alloc_def Let_def)

lemma transition_effect:
  assumes "transition_locked E ss run target reason code now w = Inr (run', w')"
  shows "target \<in> set (run_transitions (rn_status run)) \<and> run' = moved_run target code now run \<and>
    w' = w\<lparr>core := (core w)\<lparr>next_id := Suc (next_id (core w))\<rparr>,
      agent_sessions := put_row as_id (ss\<lparr>as_last_event_seq := as_last_event_seq ss + 1\<rparr>) (agent_sessions w),
      agent_runs := put_row rn_id run' (agent_runs w),
      questions := (if target \<in> set terminal_run_statuses
        then map (\<lambda>q. if pq_run_id q = rn_id run \<and> pq_open_slot q = Some 1 then close_question (target = Run_EXPIRED) now q else q)
          (questions w) else questions w),
      agent_events := agent_events w @ [\<lparr>ae_id = uuid7 E (next_id (core w)), ae_session_id = as_id ss,
        ae_seq = as_last_event_seq ss + 1, ae_run_id = Some (rn_id run), ae_question_id = None,
        ae_event_type = Ae_RUN_STATUS_CHANGED,
        ae_payload = key_sorted (JObj [(''from'', JStr (run_status_str (rn_status run))), (''to'', JStr (run_status_str target)),
          (''reason'', json_opt_str reason), (''error_code'', json_opt_str code)])\<rparr>]\<rparr>"
proof -
  let ?payload = "JObj [(''from'', JStr (run_status_str (rn_status run))), (''to'', JStr (run_status_str target)),
      (''reason'', json_opt_str reason), (''error_code'', json_opt_str code)]"
  let ?w1 = "w\<lparr>agent_runs := put_row rn_id run' (agent_runs w)\<rparr>"
  let ?w2 = "if target \<in> set terminal_run_statuses then close_open_questions (rn_id run) (target = Run_EXPIRED) now ?w1 else ?w1"
  obtain ss' where m: "target \<in> set (run_transitions (rn_status run))" "run' = moved_run target code now run"
    and e: "append_event E ss Ae_RUN_STATUS_CHANGED ?payload (Some (rn_id run)) None ?w2 = Inr (ss', w')"
    using assms by (auto simp: transition_locked_def move_run_def result_simps Let_def split: if_split_asm)
  show ?thesis using append_event_effect[OF e] m by (simp add: close_open_questions_def)
qed

lemma moved_run_sel [simp]:
  "rn_id (moved_run t c now r) = rn_id r" "rn_session_id (moved_run t c now r) = rn_session_id r"
  "rn_idempotency_key (moved_run t c now r) = rn_idempotency_key r" "rn_status (moved_run t c now r) = t"
  "rn_input_payload (moved_run t c now r) = rn_input_payload r" "rn_input_sha256 (moved_run t c now r) = rn_input_sha256 r"
  by (simp_all add: moved_run_def Let_def)

lemma moved_run_slot: "rn_active_slot (moved_run t c now r) = (if t \<in> set terminal_run_statuses then None else Some 1)"
  by (cases t) (simp_all add: moved_run_def Let_def terminal_run_statuses_def active_run_statuses_def)

interpretation run_lifecycle: lifecycle rn_status run_transitions move_run
  by unfold_locales (auto simp: move_run_def split: if_split_asm)

section \<open>Runs of the service\<close>

text \<open>
  Every operation first locks the row of its workspace, so operations take place one after the
  other and no other transaction inserts a row in between; \<open>step_elsewhere\<close> is any change
  that the rest of the program makes to its own tables.
\<close>

inductive agent_step :: "env \<Rightarrow> agent_db \<Rightarrow> agent_db \<Rightarrow> bool" for E where
  step_principal: "resolve_admin_principal E ws a n w = Inr (p, w') \<Longrightarrow> agent_step E w w'"
| step_definition: "create_definition E dc [] clock w = Inr (d, w') \<Longrightarrow> agent_step E w w'"
| step_version: "publish_version E i vp wanted [] clock w = Inr (v, w') \<Longrightarrow> agent_step E w w'"
| step_session: "create_session E sc clock w = Inr (ss, w') \<Longrightarrow> agent_step E w w'"
| step_run: "create_run E i nc wanted [] clock w = Inr (r, w') \<Longrightarrow> agent_step E w w'"
| step_transition: "transition_run E i nt wanted clock w = Inr (r, w') \<Longrightarrow> agent_step E w w'"
| step_ask: "ask_question E i qc wanted [] clock w = Inr (q, w') \<Longrightarrow> agent_step E w w'"
| step_answer: "answer_question E i qa wanted clock w = Inr (res, w') \<Longrightarrow> agent_step E w w'"
| step_override: "override_answer_question E i qo actor wanted clock w = Inr (res, w') \<Longrightarrow> agent_step E w w'"
| step_elsewhere: "next_id (core w) \<le> next_id c \<Longrightarrow> agent_step E w (w\<lparr>core := c\<rparr>)"

definition agent_runs_to :: "env \<Rightarrow> agent_db \<Rightarrow> agent_db \<Rightarrow> bool" where
  "agent_runs_to E = (agent_step E)\<^sup>*\<^sup>*"

definition new_agent_db :: "db \<Rightarrow> agent_db" where
  "new_agent_db c = \<lparr>core = c, agent_definitions = [], agent_versions = [], agent_sessions = [], agent_runs = [],
     questions = [], session_inboxes = [], agent_events = []\<rparr>"

text \<open>
  An operation on tables is broken down into few kinds of writes: the two appends to a session,
  and replacements of whole tables.  An invariant that only concerns some tables is kept by
  writes to the others.
\<close>

section \<open>The logs of a session\<close>

text \<open>
  Inbox items and events of a session are numbered from one without gaps, the session row
  carries the last number, no row belongs to a missing session, and the task scope of a session
  holds no private field.
\<close>

definition numbered :: "agent_db \<Rightarrow> agent_session \<Rightarrow> bool" where
  "numbered w ss \<longleftrightarrow> 0 \<le> as_last_inbox_seq ss \<and> 0 \<le> as_last_event_seq ss \<and>
     map si_seq (filter (\<lambda>x. si_session_id x = as_id ss) (session_inboxes w)) = [1..as_last_inbox_seq ss] \<and>
     map ae_seq (filter (\<lambda>x. ae_session_id x = as_id ss) (agent_events w)) = [1..as_last_event_seq ss]"

definition logs_ok :: "env \<Rightarrow> agent_db \<Rightarrow> bool" where
  "logs_ok E w \<longleftrightarrow> unique_by as_id (agent_sessions w) \<and> (\<forall>ss\<in>set (agent_sessions w). numbered w ss) \<and>
     (\<forall>ss\<in>set (agent_sessions w). as_id ss \<in> uuid7 E ` {..<next_id (core w)}) \<and>
     (\<forall>ss\<in>set (agent_sessions w). no_private (as_task_scope ss)) \<and>
     (\<forall>x\<in>set (session_inboxes w). si_session_id x \<in> as_id ` set (agent_sessions w)) \<and>
     (\<forall>x\<in>set (agent_events w). ae_session_id x \<in> as_id ` set (agent_sessions w))"

lemma logs_ok_cong:
  assumes "agent_sessions w' = agent_sessions w" "session_inboxes w' = session_inboxes w" "agent_events w' = agent_events w"
    "next_id (core w) \<le> next_id (core w')" "logs_ok E w"
  shows "logs_ok E w'"
  using assms(4,5) unfolding logs_ok_def numbered_def assms(1-3) by fastforce

text \<open>A row put back under its key, when keys are unique.\<close>

lemma put_row_keys: "key ` set (put_row key r rows) = key ` set rows"
  by (metis list.set_map map_key_put_row)

lemma mem_put_row_self: "r0 \<in> set rows \<Longrightarrow> key r = key r0 \<Longrightarrow> r \<in> set (put_row key r rows)"
  by (auto simp: mem_put_row_iff)

lemma logs_ok_append:
  assumes ok: "logs_ok E w" and ss: "ss \<in> set (agent_sessions w)" "as_id ss' = as_id ss" "numbered w' ss'" "as_task_scope ss' = as_task_scope ss"
    and w': "agent_sessions w' = put_row as_id ss' (agent_sessions w)"
      "\<exists>xs. session_inboxes w' = session_inboxes w @ xs \<and> (\<forall>x\<in>set xs. si_session_id x = as_id ss)"
      "\<exists>ys. agent_events w' = agent_events w @ ys \<and> (\<forall>y\<in>set ys. ae_session_id y = as_id ss)"
      "next_id (core w) \<le> next_id (core w')"
  shows "logs_ok E w'"
proof -
  have keys: "as_id ` set (agent_sessions w') = as_id ` set (agent_sessions w)" using w'(1) by (simp add: put_row_keys)
  obtain xs ys where xs: "session_inboxes w' = session_inboxes w @ xs" "\<forall>x\<in>set xs. si_session_id x = as_id ss"
    and ys: "agent_events w' = agent_events w @ ys" "\<forall>y\<in>set ys. ae_session_id y = as_id ss"
    using w'(2,3) by blast
  have other: "numbered w' t" if t: "t \<in> set (agent_sessions w)" "as_id t \<noteq> as_id ss" for t
  proof -
    have "filter (\<lambda>x. si_session_id x = as_id t) xs = []" "filter (\<lambda>y. ae_session_id y = as_id t) ys = []"
      using xs(2) ys(2) t(2) by (auto simp: filter_empty_conv)
    then show ?thesis using ok t(1) by (simp add: logs_ok_def numbered_def xs(1) ys(1))
  qed
  show ?thesis unfolding logs_ok_def keys
  proof (intro conjI)
    show "unique_by as_id (agent_sessions w')" using ok by (simp add: logs_ok_def w'(1))
    show "\<forall>t\<in>set (agent_sessions w'). numbered w' t" using other ss w'(1) by (auto simp: mem_put_row_iff)
    show "\<forall>t\<in>set (agent_sessions w'). as_id t \<in> uuid7 E ` {..<next_id (core w')}"
    proof -
      have "as_id ` set (agent_sessions w) \<subseteq> uuid7 E ` {..<next_id (core w)}" using ok by (auto simp: logs_ok_def)
      also have "\<dots> \<subseteq> uuid7 E ` {..<next_id (core w')}" using w'(4) by (intro image_mono) auto
      finally show ?thesis using keys by blast
    qed
    show "\<forall>t\<in>set (agent_sessions w'). no_private (as_task_scope t)"
      using ok ss w'(1) by (auto simp: mem_put_row_iff logs_ok_def)
    show "\<forall>x\<in>set (session_inboxes w'). si_session_id x \<in> as_id ` set (agent_sessions w)"
      using ok ss(1) xs by (auto simp: logs_ok_def)
    show "\<forall>x\<in>set (agent_events w'). ae_session_id x \<in> as_id ` set (agent_sessions w)"
      using ok ss(1) ys by (auto simp: logs_ok_def)
  qed
qed

lemma upto_snoc: "0 \<le> n \<Longrightarrow> [1..n + 1] = [1..n] @ [n + 1]" for n :: int
  using upto_rec2[of 1 "n + 1"] by simp

lemma append_event_logs:
  assumes "append_event E ss t payload run qn w = Inr (ss', w')" "logs_ok E w" "ss \<in> set (agent_sessions w)"
  shows "logs_ok E w' \<and> ss' \<in> set (agent_sessions w') \<and> as_id ss' = as_id ss"
proof -
  note e = append_event_effect[OF assms(1)]
  have n: "numbered w ss" using assms(2,3) by (simp add: logs_ok_def)
  then have "numbered w' ss'" using e by (simp add: numbered_def upto_snoc)
  then have "logs_ok E w'" using e by (intro logs_ok_append[OF assms(2,3), of ss']) simp_all
  moreover have "ss' \<in> set (agent_sessions w')" using e mem_put_row_self[OF assms(3), of as_id ss'] by simp
  ultimately show ?thesis using e by simp
qed

lemma append_inbox_logs:
  assumes "append_inbox E ss run actor kind payload sha qn w = (item, ss', w')" "logs_ok E w" "ss \<in> set (agent_sessions w)"
  shows "logs_ok E w' \<and> ss' \<in> set (agent_sessions w') \<and> as_id ss' = as_id ss"
proof -
  note e = append_inbox_effect[OF assms(1)]
  have n: "numbered w ss" using assms(2,3) by (simp add: logs_ok_def)
  then have "numbered w' ss'" using e by (simp add: numbered_def upto_snoc)
  then have "logs_ok E w'" using e by (intro logs_ok_append[OF assms(2,3), of ss']) simp_all
  moreover have "ss' \<in> set (agent_sessions w')" using e mem_put_row_self[OF assms(3), of as_id ss'] by simp
  ultimately show ?thesis using e by simp
qed

lemma transition_logs:
  assumes t: "transition_locked E ss run target reason code now w = Inr (run', w')" and ok: "logs_ok E w"
    and ss: "ss \<in> set (agent_sessions w)"
  shows "logs_ok E w'"
proof -
  note e = transition_effect[OF t]
  let ?ss' = "ss\<lparr>as_last_event_seq := as_last_event_seq ss + 1\<rparr>"
  have "numbered w ss" using ok ss by (simp add: logs_ok_def)
  then have "numbered w' ?ss'" using e by (simp add: numbered_def upto_snoc)
  then show ?thesis using e by (intro logs_ok_append[OF ok ss, of ?ss']) simp_all
qed

lemma locked_session_Inr:
  "locked_session w i wanted = Inr ss \<Longrightarrow> ss \<in> set (agent_sessions w) \<and> as_id ss = i"
  by (auto simp: locked_session_def result_simps dest!: get_row_Some_mem split: option.split_asm if_split_asm)

lemma locked_run_Inr:
  assumes "locked_run w i wanted = Inr (ss, r)"
  shows "ss \<in> set (agent_sessions w) \<and> as_id ss = rn_session_id r \<and> r \<in> set (agent_runs w) \<and> rn_id r = i"
proof -
  have "get_row rn_id i (agent_runs w) = Some r" "get_row as_id (rn_session_id r) (agent_sessions w) = Some ss"
    using assms by (auto simp: locked_run_def bind_res_Inr_iff of_option_def split: option.split_asm if_split_asm)
  then show ?thesis by (auto dest: get_row_Some_mem)
qed

lemma locked_question_Inr:
  assumes "locked_question w i wanted = Inr (ss, r, q)"
  shows "ss \<in> set (agent_sessions w) \<and> as_id ss = rn_session_id r \<and> r \<in> set (agent_runs w) \<and> rn_id r = pq_run_id q \<and>
     q \<in> set (questions w) \<and> pq_id q = i \<and> pq_session_id q = as_id ss"
proof -
  have "get_row pq_id i (questions w) = Some q" "get_row rn_id (pq_run_id q) (agent_runs w) = Some r"
    "get_row as_id (rn_session_id r) (agent_sessions w) = Some ss" "pq_session_id q = as_id ss"
    using assms by (auto simp: locked_question_def bind_res_Inr_iff of_option_def split: option.split_asm if_split_asm)
  then show ?thesis by (auto dest: get_row_Some_mem)
qed

section \<open>The effect of each operation\<close>

text \<open>What the log says about the status of a run.\<close>

definition creates_run :: "uuid \<Rightarrow> agent_event \<Rightarrow> bool" where
  "creates_run i e \<longleftrightarrow> ae_run_id e = Some i \<and> ae_event_type e = Ae_RUN_CREATED \<and>
     json_get (ae_payload e) ''status'' = JStr (run_status_str Run_QUEUED)"

definition changes_status :: "uuid \<Rightarrow> run_status \<Rightarrow> run_status \<Rightarrow> agent_event \<Rightarrow> bool" where
  "changes_status i old new e \<longleftrightarrow> ae_run_id e = Some i \<and> ae_event_type e = Ae_RUN_STATUS_CHANGED \<and>
     json_get (ae_payload e) ''from'' = JStr (run_status_str old) \<and> json_get (ae_payload e) ''to'' = JStr (run_status_str new)"

definition no_status :: "agent_event \<Rightarrow> bool" where
  "no_status e \<longleftrightarrow> ae_event_type e \<in> {Ae_SESSION_CREATED, Ae_QUESTION_ASKED, Ae_QUESTION_ANSWERED}"

lemma json_get_JObj: "json_get (JObj kvs) k = (case map_of kvs k of None \<Rightarrow> JNull | Some v \<Rightarrow> v)"
  by (simp add: json_get_def)

definition closed_by :: "run_status \<Rightarrow> instant \<Rightarrow> uuid \<Rightarrow> pending_question \<Rightarrow> pending_question" where
  "closed_by target now i q =
     (if target \<in> set terminal_run_statuses \<and> pq_run_id q = i \<and> pq_open_slot q = Some 1
      then close_question (target = Run_EXPIRED) now q else q)"

lemma transition_tables:
  assumes "transition_locked E ss run target reason code now w = Inr (run', w')"
  shows "target \<in> set (run_transitions (rn_status run)) \<and> run' = moved_run target code now run \<and>
    agent_runs w' = put_row rn_id run' (agent_runs w) \<and> questions w' = map (closed_by target now (rn_id run)) (questions w) \<and>
    session_inboxes w' = session_inboxes w \<and> agent_versions w' = agent_versions w \<and>
    agent_definitions w' = agent_definitions w \<and>
    (\<exists>e. agent_events w' = agent_events w @ [e] \<and> changes_status (rn_id run) (rn_status run) target e \<and>
       no_private (ae_payload e)) \<and>
    next_id (core w') = Suc (next_id (core w)) \<and> as_id ` set (agent_sessions w') = as_id ` set (agent_sessions w)"
proof -
  let ?kvs = "[(''from'', JStr (run_status_str (rn_status run))), (''to'', JStr (run_status_str target)),
          (''reason'', json_opt_str reason), (''error_code'', json_opt_str code)]"
  have d: "distinct (map fst ?kvs)" by simp
  have g: "json_get (key_sorted (JObj ?kvs)) ''from'' = JStr (run_status_str (rn_status run))"
    "json_get (key_sorted (JObj ?kvs)) ''to'' = JStr (run_status_str target)"
    by (simp_all only: key_sorted_get[OF d]) (simp_all add: json_get_JObj)
  have "\<exists>ss'. append_event E ss Ae_RUN_STATUS_CHANGED (JObj ?kvs) (Some (rn_id run)) None
      (let w1 = w\<lparr>agent_runs := put_row rn_id run' (agent_runs w)\<rparr>
       in if target \<in> set terminal_run_statuses then close_open_questions (rn_id run) (target = Run_EXPIRED) now w1 else w1)
       = Inr (ss', w')"
    using assms by (auto simp: transition_locked_def result_simps Let_def)
  then have p: "no_private (JObj ?kvs)" using append_event_effect by blast
  have cl: "map (closed_by target now (rn_id run)) (questions w) = questions w" if "target \<notin> set terminal_run_statuses"
    using that by (auto simp: closed_by_def intro!: map_idI)
  have cl2: "map (closed_by target now (rn_id run)) (questions w) =
      map (\<lambda>q. if pq_run_id q = rn_id run \<and> pq_open_slot q = Some 1 then close_question (target = Run_EXPIRED) now q else q) (questions w)"
    if "target \<in> set terminal_run_statuses"
    using that by (simp add: closed_by_def)
  note e = transition_effect[OF assms]
  show ?thesis using e g p cl cl2 by (auto simp: changes_status_def put_row_keys)
qed

lemma append_event_tables:
  assumes "append_event E ss t payload run qn w = Inr (ss', w')"
  shows "agent_runs w' = agent_runs w \<and> questions w' = questions w \<and> session_inboxes w' = session_inboxes w \<and>
    agent_versions w' = agent_versions w \<and> agent_definitions w' = agent_definitions w \<and>
    (\<exists>e. agent_events w' = agent_events w @ [e] \<and> ae_event_type e = t \<and> ae_run_id e = run \<and>
       ae_payload e = key_sorted payload \<and> no_private (ae_payload e)) \<and>
    next_id (core w') = Suc (next_id (core w)) \<and> as_id ` set (agent_sessions w') = as_id ` set (agent_sessions w)"
  using append_event_effect[OF assms] by (simp add: put_row_keys)

lemma append_inbox_tables:
  assumes "append_inbox E ss run actor kind payload sha qn w = (item, ss', w')"
  shows "agent_runs w' = agent_runs w \<and> questions w' = questions w \<and> session_inboxes w' = session_inboxes w @ [item] \<and>
    agent_versions w' = agent_versions w \<and> agent_definitions w' = agent_definitions w \<and> agent_events w' = agent_events w \<and>
    next_id (core w') = Suc (next_id (core w)) \<and> as_id ` set (agent_sessions w') = as_id ` set (agent_sessions w) \<and>
    si_session_id item = as_id ss \<and> si_question_id item = qn \<and> si_payload item = payload \<and> si_kind item = kind \<and>
    si_run_id item = run \<and> si_actor_principal_id item = actor \<and> si_seq item = as_last_inbox_seq ss + 1"
  using append_inbox_effect[OF assms] by (simp add: put_row_keys)

lemma create_run_cases:
  assumes "create_run E i p wanted [] clock w = Inr (r, w')"
  shows "(w' = w \<and> run_of_key (agent_runs w) i (nc_idempotency_key p) = Some r \<and>
           no_private (nc_input_payload p) \<and> rn_input_payload r = key_sorted (nc_input_payload p) \<and>
           rn_input_sha256 r = sha256_hex E (ascii_dumps E (nc_input_payload p))) \<or>
    (\<exists>ss item ss1 w3 ss2. run_of_key (agent_runs w) i (nc_idempotency_key p) = None \<and> active_run (agent_runs w) i = None \<and>
       locked_session w i wanted = Inr ss \<and> no_private (nc_input_payload p) \<and>
       r = \<lparr>rn_id = uuid7 E (next_id (core w)), rn_session_id = i, rn_idempotency_key = nc_idempotency_key p,
            rn_input_payload = key_sorted (nc_input_payload p), rn_input_sha256 = sha256_hex E (ascii_dumps E (nc_input_payload p)),
            rn_status = Run_QUEUED, rn_active_slot = Some 1, rn_started_at = None, rn_finished_at = None,
            rn_last_error_code = None, rn_created_at = clock 0\<rparr> \<and>
       append_inbox E ss (rn_id r) (as_requester_principal_id ss) Ik_RUN_REQUEST (rn_input_payload r) (rn_input_sha256 r) None
         (w\<lparr>core := (core w)\<lparr>next_id := Suc (next_id (core w))\<rparr>, agent_runs := agent_runs w @ [r]\<rparr>) = (item, ss1, w3) \<and>
       append_event E ss1 Ae_RUN_CREATED
         (JObj [(''idempotency_key'', JStr (rn_idempotency_key r)), (''input_sha256'', JStr (rn_input_sha256 r)),
                (''inbox_seq'', JInt (si_seq item)), (''status'', JStr (run_status_str Run_QUEUED))])
         (Some (rn_id r)) None w3 = Inr (ss2, w'))"
  using assms
  by (auto simp: create_run_def bind_res_Inr_iff normalize_json_Inr resolve_idempotent_run_def alloc_agent_def alloc_def Let_def
      split: option.split_asm if_split_asm prod.split_asm)

text \<open>The tables after an operation that succeeded.\<close>

definition same_tables :: "agent_db \<Rightarrow> agent_db \<Rightarrow> bool" where
  "same_tables w w' \<longleftrightarrow> agent_sessions w' = agent_sessions w \<and> agent_runs w' = agent_runs w \<and> questions w' = questions w \<and>
     session_inboxes w' = session_inboxes w \<and> agent_events w' = agent_events w \<and> next_id (core w) \<le> next_id (core w')"

lemma created_run_tables:
  assumes ok: "logs_ok E w" and c: "create_run E i p wanted [] clock w = Inr (r, w')"
    and new: "run_of_key (agent_runs w) i (nc_idempotency_key p) = None"
  shows "active_run (agent_runs w) i = None \<and> i \<in> as_id ` set (agent_sessions w) \<and>
    rn_id r = uuid7 E (next_id (core w)) \<and> rn_session_id r = i \<and> rn_idempotency_key r = nc_idempotency_key p \<and>
    rn_status r = Run_QUEUED \<and> rn_active_slot r = Some 1 \<and> no_private (rn_input_payload r) \<and>
    agent_runs w' = agent_runs w @ [r] \<and> questions w' = questions w \<and> agent_versions w' = agent_versions w \<and>
    agent_definitions w' = agent_definitions w \<and>
    (\<exists>item. session_inboxes w' = session_inboxes w @ [item] \<and> si_question_id item = None \<and> si_session_id item = i \<and>
       si_run_id item = rn_id r \<and> si_kind item = Ik_RUN_REQUEST \<and> si_payload item = rn_input_payload r) \<and>
    (\<exists>e. agent_events w' = agent_events w @ [e] \<and> creates_run (rn_id r) e \<and> no_private (ae_payload e)) \<and>
    next_id (core w) < next_id (core w') \<and> as_id ` set (agent_sessions w') = as_id ` set (agent_sessions w) \<and> logs_ok E w'"
proof -
  let ?w1 = "w\<lparr>core := (core w)\<lparr>next_id := Suc (next_id (core w))\<rparr>, agent_runs := agent_runs w @ [r]\<rparr>"
  obtain ss item ss1 w3 ss2 where a: "active_run (agent_runs w) i = None" and ss: "locked_session w i wanted = Inr ss"
    and p: "no_private (nc_input_payload p)"
    and r: "r = \<lparr>rn_id = uuid7 E (next_id (core w)), rn_session_id = i, rn_idempotency_key = nc_idempotency_key p,
            rn_input_payload = key_sorted (nc_input_payload p), rn_input_sha256 = sha256_hex E (ascii_dumps E (nc_input_payload p)),
            rn_status = Run_QUEUED, rn_active_slot = Some 1, rn_started_at = None, rn_finished_at = None,
            rn_last_error_code = None, rn_created_at = clock 0\<rparr>"
    and i: "append_inbox E ss (rn_id r) (as_requester_principal_id ss) Ik_RUN_REQUEST (rn_input_payload r) (rn_input_sha256 r) None
         ?w1 = (item, ss1, w3)"
    and e: "append_event E ss1 Ae_RUN_CREATED
         (JObj [(''idempotency_key'', JStr (rn_idempotency_key r)), (''input_sha256'', JStr (rn_input_sha256 r)),
                (''inbox_seq'', JInt (si_seq item)), (''status'', JStr (run_status_str Run_QUEUED))])
         (Some (rn_id r)) None w3 = Inr (ss2, w')"
    using create_run_cases[OF c] new by auto
  have s: "ss \<in> set (agent_sessions w)" "as_id ss = i" using locked_session_Inr[OF ss] by auto
  have ok1: "logs_ok E ?w1" by (rule logs_ok_cong[OF _ _ _ _ ok]) simp_all
  have ok3: "logs_ok E w3" "ss1 \<in> set (agent_sessions w3)" using append_inbox_logs[OF i ok1] s(1) by auto
  have ok': "logs_ok E w'" using append_event_logs[OF e ok3] by blast
  let ?kvs = "[(''idempotency_key'', JStr (rn_idempotency_key r)), (''input_sha256'', JStr (rn_input_sha256 r)),
                (''inbox_seq'', JInt (si_seq item)), (''status'', JStr (run_status_str Run_QUEUED))]"
  have d: "distinct (map fst ?kvs)" by simp
  have g: "json_get (key_sorted (JObj ?kvs)) ''status'' = JStr (run_status_str Run_QUEUED)"
    by (simp only: key_sorted_get[OF d]) (simp add: json_get_JObj)
  obtain ev where ev: "agent_events w' = agent_events w3 @ [ev]" "ae_event_type ev = Ae_RUN_CREATED" "ae_run_id ev = Some (rn_id r)"
    "ae_payload ev = key_sorted (JObj ?kvs)" "no_private (ae_payload ev)"
    using append_event_tables[OF e] by blast
  have cr: "creates_run (rn_id r) ev" using ev g by (simp add: creates_run_def)
  have r': "rn_id r = uuid7 E (next_id (core w))" "rn_session_id r = i" "rn_idempotency_key r = nc_idempotency_key p"
    "rn_status r = Run_QUEUED" "rn_active_slot r = Some 1" "no_private (rn_input_payload r)"
    using p by (simp_all add: r)
  note t1 = append_inbox_tables[OF i] and t2 = append_event_tables[OF e]
  show ?thesis
    using a s r' ok' t1 t2 ev(1,5) cr by (auto simp: image_iff)
qed

lemma created_session_tables:
  assumes ok: "logs_ok E w" and inj: "inj_on (uuid7 E) {..<next_id (core w')}" and c: "create_session E p clock w = Inr (ss, w')"
  shows "agent_runs w' = agent_runs w \<and> questions w' = questions w \<and> session_inboxes w' = session_inboxes w \<and>
    agent_versions w' = agent_versions w \<and> agent_definitions w' = agent_definitions w \<and>
    (\<exists>e. agent_events w' = agent_events w @ [e] \<and> no_status e \<and> no_private (ae_payload e)) \<and>
    next_id (core w) < next_id (core w') \<and> as_id ` set (agent_sessions w) \<subseteq> as_id ` set (agent_sessions w') \<and>
    no_private (as_task_scope ss) \<and> (\<exists>t. as_task_scope t = as_task_scope ss \<and> agent_sessions w' = agent_sessions w @ [t]) \<and> logs_ok E w'"
proof -
  define sha where "sha = sha256_hex E (ascii_dumps E (sc_task_scope p))"
  define new where "new = \<lparr>as_id = uuid7 E (next_id (core w)), as_workspace_id = sc_workspace_id p,
    as_agent_version_id = sc_agent_version_id p, as_requester_principal_id = sc_requester_principal_id p,
    as_task_scope = key_sorted (sc_task_scope p), as_task_scope_sha256 = sha, as_last_inbox_seq = 0, as_last_event_seq = 0,
    as_created_at = clock 0\<rparr>"
  have n: "no_private (sc_task_scope p)"
    and e: "append_event E new Ae_SESSION_CREATED
            (JObj [(''agent_version_id'', JStr (uuid_str (as_agent_version_id new))),
                   (''requester_principal_id'', JStr (uuid_str (as_requester_principal_id new))),
                   (''task_scope_sha256'', JStr sha)]) None None
            (w\<lparr>core := (core w)\<lparr>next_id := Suc (next_id (core w))\<rparr>, agent_sessions := agent_sessions w @ [new]\<rparr>) = Inr (ss, w')"
    using c
    by (auto simp: create_session_def bind_res_Inr_iff normalize_json_Inr alloc_agent_def alloc_def Let_def sha_def new_def
        split: prod.split_asm)
  let ?w1 = "w\<lparr>core := (core w)\<lparr>next_id := Suc (next_id (core w))\<rparr>, agent_sessions := agent_sessions w @ [new]\<rparr>"
  have fresh: "as_id new \<notin> as_id ` set (agent_sessions w)"
  proof
    assume "as_id new \<in> as_id ` set (agent_sessions w)"
    then obtain k where "k < next_id (core w)" "uuid7 E (next_id (core w)) = uuid7 E k"
      using ok unfolding logs_ok_def new_def by fastforce
    moreover have "next_id (core w) < next_id (core w')" using append_event_effect[OF e] by simp
    ultimately show False using inj_onD[OF inj] by fastforce
  qed
  have empty: "filter (\<lambda>x. si_session_id x = as_id new) (session_inboxes w) = []"
    "filter (\<lambda>x. ae_session_id x = as_id new) (agent_events w) = []"
    using ok fresh unfolding logs_ok_def filter_empty_conv by metis+
  have ok1: "logs_ok E ?w1"
    using ok fresh empty n by (auto simp: logs_ok_def unique_by_snoc numbered_def new_def less_Suc_eq)
  have l: "logs_ok E w'" using append_event_logs[OF e ok1] by simp
  note eff = append_event_effect[OF e] and t = append_event_tables[OF e]
  have "put_row as_id ss (agent_sessions w @ [new]) = agent_sessions w @ [ss]"
  proof -
    have id: "as_id ss = as_id new" using eff by simp
    have "put_row as_id ss (agent_sessions w) = agent_sessions w"
      using fresh id by (intro put_row_absent) (metis image_eqI)
    then show ?thesis using id by (simp add: put_row_append) (simp add: put_row_def)
  qed
  then have s: "agent_sessions w' = agent_sessions w @ [ss]" "as_task_scope ss = key_sorted (sc_task_scope p)"
    using eff by (simp_all add: new_def)
  show ?thesis using t l n s by (auto simp: no_status_def)
qed

lemma asked_tables:
  assumes ok: "logs_ok E w" and c: "ask_question E i p wanted [] clock w = Inr (q, w')"
  shows "\<exists>ss run. ss \<in> set (agent_sessions w) \<and> run \<in> set (agent_runs w) \<and> rn_id run = i \<and> rn_status run = Run_RUNNING \<and>
    as_id ss = rn_session_id run \<and> open_question w i = None \<and> pq_id q = uuid7 E (next_id (core w)) \<and> pq_run_id q = i \<and> pq_session_id q = rn_session_id run \<and>
    pq_status q = Qs_PENDING \<and> pq_open_slot q = Some 1 \<and> pq_answer_payload q = None \<and> no_private (pq_context q) \<and>
    clock 0 < pq_expires_at q \<and> pq_allowed_principal_id q = qc_allowed_principal_id p \<and> pq_expires_at q = as_utc (qc_expires_at p) \<and>
    agent_runs w' = put_row rn_id (moved_run Run_WAITING_USER None (clock 2) run) (agent_runs w) \<and>
    questions w' = questions w @ [q] \<and> session_inboxes w' = session_inboxes w \<and> agent_versions w' = agent_versions w \<and>
    agent_definitions w' = agent_definitions w \<and>
    (\<exists>e1 e2. agent_events w' = agent_events w @ [e1, e2] \<and> no_status e1 \<and> changes_status i Run_RUNNING Run_WAITING_USER e2 \<and>
       no_private (ae_payload e1) \<and> no_private (ae_payload e2)) \<and>
    next_id (core w) < next_id (core w') \<and> as_id ` set (agent_sessions w') = as_id ` set (agent_sessions w) \<and> logs_ok E w'"
proof -
  obtain ss run where l: "locked_run w i wanted = Inr (ss, run)"
    using c by (auto simp: ask_question_def bind_res_Inr_iff)
  have st: "rn_status run = Run_RUNNING" and now: "clock 0 < as_utc (qc_expires_at p)" and ctx: "no_private (qc_context p)"
    and oq: "open_question w (rn_id run) = None"
    using c l by (auto simp: ask_question_def bind_res_Inr_iff normalize_json_Inr)
  have q: "q = \<lparr>pq_id = uuid7 E (next_id (core w)), pq_session_id = as_id ss, pq_run_id = rn_id run,
                pq_allowed_principal_id = qc_allowed_principal_id p, pq_prompt = qc_prompt p, pq_context = key_sorted (qc_context p),
                pq_status = Qs_PENDING, pq_open_slot = Some 1, pq_expires_at = as_utc (qc_expires_at p),
                pq_answered_at = None, pq_answered_by_principal_id = None, pq_answer_payload = None,
                pq_answer_sha256 = None, pq_answer_inbox_seq = None, pq_closed_at = None, pq_created_at = clock 1\<rparr>"
    using c l
    by (auto simp: ask_question_def bind_res_Inr_iff normalize_json_Inr alloc_agent_def alloc_def Let_def
        split: prod.split_asm if_split_asm)
  obtain ss1 w2 run' where e: "append_event E ss Ae_QUESTION_ASKED
              (JObj [(''allowed_principal_id'', JStr (uuid_str (pq_allowed_principal_id q))),
                     (''expires_at'', JStr (isoformat E (pq_expires_at q)))])
              (Some (rn_id run)) (Some (pq_id q))
              (w\<lparr>core := (core w)\<lparr>next_id := Suc (next_id (core w))\<rparr>, questions := questions w @ [q]\<rparr>) = Inr (ss1, w2)"
    and t: "transition_locked E ss1 run Run_WAITING_USER (Some ''pending user answer'') None (clock 2) w2 = Inr (run', w')"
    using c l unfolding q
    by (auto simp: ask_question_def bind_res_Inr_iff normalize_json_Inr alloc_agent_def alloc_def Let_def
        split: prod.split_asm if_split_asm)
  let ?w1 = "w\<lparr>core := (core w)\<lparr>next_id := Suc (next_id (core w))\<rparr>, questions := questions w @ [q]\<rparr>"
  have s: "ss \<in> set (agent_sessions w)" "run \<in> set (agent_runs w)" "rn_id run = i" "as_id ss = rn_session_id run"
    using locked_run_Inr[OF l] by auto
  have ok1: "logs_ok E ?w1" by (rule logs_ok_cong[OF _ _ _ _ ok]) simp_all
  have ok2: "logs_ok E w2" "ss1 \<in> set (agent_sessions w2)" using append_event_logs[OF e ok1] s(1) by auto
  have ok': "logs_ok E w'" by (rule transition_logs[OF t ok2])
  have open_none: "closed_by Run_WAITING_USER (clock 2) (rn_id run) = id"
    by (rule ext) (simp add: closed_by_def terminal_run_statuses_def)
  note t1 = append_event_tables[OF e] and t2 = transition_tables[OF t]
  obtain e1 where e1: "agent_events w2 = agent_events w @ [e1]" "ae_event_type e1 = Ae_QUESTION_ASKED" "no_private (ae_payload e1)"
    using t1 by auto
  obtain e2 where e2: "agent_events w' = agent_events w2 @ [e2]" "changes_status i Run_RUNNING Run_WAITING_USER e2" "no_private (ae_payload e2)"
    using t2 st s(3) by auto
  have tabs: "agent_runs w' = put_row rn_id (moved_run Run_WAITING_USER None (clock 2) run) (agent_runs w)"
    "questions w' = questions w @ [q]" "session_inboxes w' = session_inboxes w" "agent_versions w' = agent_versions w"
    "agent_definitions w' = agent_definitions w" "next_id (core w) < next_id (core w')"
    "as_id ` set (agent_sessions w') = as_id ` set (agent_sessions w)"
    using t1 t2 open_none by simp_all
  have ns: "no_status e1" using e1(2) by (simp add: no_status_def)
  have ev: "agent_events w' = agent_events w @ [e1, e2]" using e1(1) e2(1) by simp
  have qf: "pq_id q = uuid7 E (next_id (core w))" "pq_run_id q = i" "pq_session_id q = rn_session_id run" "pq_status q = Qs_PENDING"
    "pq_open_slot q = Some 1" "pq_answer_payload q = None" "no_private (pq_context q)" "clock 0 < pq_expires_at q"
    "pq_allowed_principal_id q = qc_allowed_principal_id p" "pq_expires_at q = as_utc (qc_expires_at p)"
    using s ctx now by (simp_all add: q)
  show ?thesis
    by (rule exI[of _ ss], rule exI[of _ run], intro conjI exI[of _ e1] exI[of _ e2])
      (fact s st qf tabs ok' ns ev e1(3) e2(2,3) oq[unfolded s(3)])+
qed

lemma consumed_tables:
  assumes ok: "logs_ok E w" and ss: "ss \<in> set (agent_sessions w)"
    and c: "consume_answer E ss run q actor payload mode answer_reason transition_reason clock w = Inr (res, w')"
  shows "\<exists>item sha e1 e2. Run_QUEUED \<in> set (run_transitions (rn_status run)) \<and> no_private payload \<and>
    sha = sha256_hex E (ascii_dumps E payload) \<and> si_seq item = as_last_inbox_seq ss + 1 \<and>
    res = \<lparr>qr_question = answered_question actor (key_sorted payload) sha (si_seq item) (clock 1) q, qr_inbox_item = item,
           qr_run = moved_run Run_QUEUED None (clock 2) run\<rparr> \<and>
    agent_runs w' = put_row rn_id (moved_run Run_QUEUED None (clock 2) run) (agent_runs w) \<and>
    questions w' = put_row pq_id (answered_question actor (key_sorted payload) sha (si_seq item) (clock 1) q) (questions w) \<and>
    session_inboxes w' = session_inboxes w @ [item] \<and> si_question_id item = Some (pq_id q) \<and> si_payload item = key_sorted payload \<and>
    si_actor_principal_id item = actor \<and> si_session_id item = as_id ss \<and> si_kind item = Ik_QUESTION_ANSWER \<and>
    si_run_id item = rn_id run \<and> agent_versions w' = agent_versions w \<and> agent_definitions w' = agent_definitions w \<and>
    agent_events w' = agent_events w @ [e1, e2] \<and> no_status e1 \<and> changes_status (rn_id run) (rn_status run) Run_QUEUED e2 \<and>
    no_private (ae_payload e1) \<and> no_private (ae_payload e2) \<and>
    next_id (core w) < next_id (core w') \<and> as_id ` set (agent_sessions w') = as_id ` set (agent_sessions w) \<and> logs_ok E w'"
proof -
  define sha where "sha = sha256_hex E (ascii_dumps E payload)"
  obtain item ss1 w1 where i: "append_inbox E ss (rn_id run) actor Ik_QUESTION_ANSWER (key_sorted payload) sha (Some (pq_id q)) w
      = (item, ss1, w1)" by (metis prod_cases3)
  define q' where "q' = answered_question actor (key_sorted payload) sha (si_seq item) (clock 1) q"
  let ?w2 = "w1\<lparr>questions := put_row pq_id q' (questions w1)\<rparr>"
  have p: "no_private payload" using c by (auto simp: consume_answer_def bind_res_Inr_iff normalize_json_Inr)
  obtain ss2 w3 run' where e: "append_event E ss1 Ae_QUESTION_ANSWERED
            (JObj [(''answer_sha256'', JStr sha), (''inbox_seq'', JInt (si_seq item)), (''answer_mode'', JStr mode),
                   (''actor_principal_id'', JStr (uuid_str actor)), (''reason'', json_opt_str answer_reason)])
            (Some (rn_id run)) (Some (pq_id q)) ?w2 = Inr (ss2, w3)"
    and t: "transition_locked E ss2 run Run_QUEUED (Some transition_reason) None (clock 2) w3 = Inr (run', w')"
    and res: "res = \<lparr>qr_question = q', qr_inbox_item = item, qr_run = run'\<rparr>"
    using c i by (auto simp: consume_answer_def bind_res_Inr_iff normalize_json_Inr sha_def[symmetric] q'_def[symmetric] Let_def
        simp del: One_nat_def)
  have ok1: "logs_ok E w1" "ss1 \<in> set (agent_sessions w1)" using append_inbox_logs[OF i ok ss] by auto
  have ok2: "logs_ok E ?w2" by (rule logs_ok_cong[OF _ _ _ _ ok1(1)]) simp_all
  have ok3: "logs_ok E w3" "ss2 \<in> set (agent_sessions w3)" using append_event_logs[OF e ok2] ok1(2) by auto
  have ok': "logs_ok E w'" by (rule transition_logs[OF t ok3])
  have open_none: "closed_by Run_QUEUED (clock 2) (rn_id run) = id"
    by (rule ext) (simp add: closed_by_def terminal_run_statuses_def)
  note t0 = append_inbox_tables[OF i] and t1 = append_event_tables[OF e] and t2 = transition_tables[OF t]
  obtain e1 where e1: "agent_events w3 = agent_events w @ [e1]" "ae_event_type e1 = Ae_QUESTION_ANSWERED" "no_private (ae_payload e1)"
    using t0 t1 by auto
  obtain e2 where e2: "agent_events w' = agent_events w3 @ [e2]" "changes_status (rn_id run) (rn_status run) Run_QUEUED e2" "no_private (ae_payload e2)"
    using t2 by auto
  have tr: "Run_QUEUED \<in> set (run_transitions (rn_status run))" "run' = moved_run Run_QUEUED None (clock 2) run" using t2 by auto
  have tabs: "agent_runs w' = put_row rn_id (moved_run Run_QUEUED None (clock 2) run) (agent_runs w)"
    "questions w' = put_row pq_id q' (questions w)" "session_inboxes w' = session_inboxes w @ [item]" "agent_versions w' = agent_versions w"
    "agent_definitions w' = agent_definitions w" "next_id (core w) < next_id (core w')"
    "as_id ` set (agent_sessions w') = as_id ` set (agent_sessions w)"
    using t0 t1 t2 open_none by simp_all
  have it: "si_seq item = as_last_inbox_seq ss + 1" "si_question_id item = Some (pq_id q)" "si_payload item = key_sorted payload"
    "si_actor_principal_id item = actor" "si_session_id item = as_id ss" "si_kind item = Ik_QUESTION_ANSWER" "si_run_id item = rn_id run"
    using t0 by simp_all
  have ns: "no_status e1" using e1(2) by (simp add: no_status_def)
  have ev: "agent_events w' = agent_events w @ [e1, e2]" using e1(1) e2(1) by simp
  show ?thesis
    by (rule exI[of _ item], rule exI[of _ sha], rule exI[of _ e1], rule exI[of _ e2], intro conjI)
      (fact tr p sha_def it tabs[unfolded q'_def] ns ev e1(3) e2(2,3) ok' res[unfolded tr(2) q'_def])+
qed

lemma answered_cases:
  assumes "answer_question E i p wanted clock w = Inr (res, w')"
  shows "\<exists>ss run q. locked_question w i wanted = Inr (ss, run, q) \<and> validate_answerable q run (clock 0) = Inr () \<and>
    consume_answer E ss run q (qa_principal_id p) (qa_answer_payload p) ''RUNTIME_PRINCIPAL'' None
         ''user answer received'' clock w = Inr (res, w') \<and> qa_principal_id p = pq_allowed_principal_id q \<and>
    (\<exists>pr. require_principal w (qa_principal_id p) (as_workspace_id ss) = Inr pr)"
  using assms by (auto simp: answer_question_def bind_res_Inr_iff)

lemma overridden_cases:
  assumes "override_answer_question E i p actor wanted clock w = Inr (res, w')"
  shows "\<exists>ss run q. locked_question w i wanted = Inr (ss, run, q) \<and> validate_answerable q run (clock 0) = Inr () \<and>
    consume_answer E ss run q actor (qo_answer_payload p) ''ADMIN_OVERRIDE'' (Some (qo_reason p))
         ''administrator override answer received'' clock w = Inr (res, w') \<and>
    (\<exists>pr. require_principal w actor (as_workspace_id ss) = Inr pr)"
  using assms by (auto simp: override_answer_question_def bind_res_Inr_iff)

lemma validate_answerable_Inr:
  "validate_answerable q run now = Inr u \<longleftrightarrow>
     pq_status q = Qs_PENDING \<and> now < pq_expires_at q \<and> rn_status run = Run_WAITING_USER \<and> rn_active_slot run = Some 1"
  by (auto simp: validate_answerable_def)

lemma transitioned_tables:
  assumes ok: "logs_ok E w" and c: "transition_run E i p wanted clock w = Inr (r, w')"
  shows "\<exists>run e. run \<in> set (agent_runs w) \<and> rn_id run = i \<and> nt_status p \<in> set (run_transitions (rn_status run)) \<and>
    (rn_status run = Run_WAITING_USER \<and> nt_status p = Run_QUEUED \<longrightarrow> open_question w i = None) \<and>
    r = moved_run (nt_status p) (nt_error_code p) (clock 0) run \<and>
    agent_runs w' = put_row rn_id r (agent_runs w) \<and>
    questions w' = map (closed_by (nt_status p) (clock 0) i) (questions w) \<and>
    session_inboxes w' = session_inboxes w \<and> agent_versions w' = agent_versions w \<and> agent_definitions w' = agent_definitions w \<and>
    agent_events w' = agent_events w @ [e] \<and> changes_status i (rn_status run) (nt_status p) e \<and> no_private (ae_payload e) \<and>
    next_id (core w) < next_id (core w') \<and> as_id ` set (agent_sessions w') = as_id ` set (agent_sessions w) \<and> logs_ok E w'"
proof -
  obtain ss run where l: "locked_run w i wanted = Inr (ss, run)"
    and g: "rn_status run = Run_WAITING_USER \<and> nt_status p = Run_QUEUED \<longrightarrow> open_question w (rn_id run) = None"
    and t: "transition_locked E ss run (nt_status p) (nt_reason p) (nt_error_code p) (clock 0) w = Inr (r, w')"
    using c by (auto simp: transition_run_def bind_res_Inr_iff split: if_split_asm)
  have s: "ss \<in> set (agent_sessions w)" "run \<in> set (agent_runs w)" "rn_id run = i" using locked_run_Inr[OF l] by auto
  have ok': "logs_ok E w'" by (rule transition_logs[OF t ok s(1)])
  obtain e where "agent_events w' = agent_events w @ [e]" "changes_status i (rn_status run) (nt_status p) e" "no_private (ae_payload e)"
    using transition_tables[OF t] s(3) by auto
  then show ?thesis using transition_tables[OF t] s g ok' by auto
qed

section \<open>The effect of a step\<close>

text \<open>
  What a successful operation does to the sessions' runs, questions and logs: nothing, or one of
  five things.
\<close>

inductive agent_effect :: "env \<Rightarrow> agent_db \<Rightarrow> agent_db \<Rightarrow> bool" for E where
  eff_none: "same_tables w w' \<Longrightarrow> agent_effect E w w'"
| eff_session: "agent_runs w' = agent_runs w \<Longrightarrow> questions w' = questions w \<Longrightarrow> session_inboxes w' = session_inboxes w \<Longrightarrow>
    agent_events w' = agent_events w @ [e] \<Longrightarrow> no_status e \<Longrightarrow> no_private (ae_payload e) \<Longrightarrow> agent_effect E w w'"
| eff_run: "rn_id r = uuid7 E (next_id (core w)) \<Longrightarrow> next_id (core w) < next_id (core w') \<Longrightarrow>
    rn_session_id r \<in> as_id ` set (agent_sessions w) \<Longrightarrow> active_run (agent_runs w) (rn_session_id r) = None \<Longrightarrow>
    run_of_key (agent_runs w) (rn_session_id r) (rn_idempotency_key r) = None \<Longrightarrow> rn_status r = Run_QUEUED \<Longrightarrow>
    rn_active_slot r = Some 1 \<Longrightarrow> no_private (rn_input_payload r) \<Longrightarrow> agent_runs w' = agent_runs w @ [r] \<Longrightarrow>
    questions w' = questions w \<Longrightarrow> session_inboxes w' = session_inboxes w @ [item] \<Longrightarrow> si_question_id item = None \<Longrightarrow>
    no_private (si_payload item) \<Longrightarrow> agent_events w' = agent_events w @ [e] \<Longrightarrow> creates_run (rn_id r) e \<Longrightarrow>
    no_private (ae_payload e) \<Longrightarrow> agent_effect E w w'"
| eff_move: "run \<in> set (agent_runs w) \<Longrightarrow> target \<in> set (run_transitions (rn_status run)) \<Longrightarrow>
    (rn_status run = Run_WAITING_USER \<and> target = Run_QUEUED \<longrightarrow> open_question w (rn_id run) = None) \<Longrightarrow>
    agent_runs w' = put_row rn_id (moved_run target code now run) (agent_runs w) \<Longrightarrow>
    questions w' = map (closed_by target now (rn_id run)) (questions w) \<Longrightarrow> session_inboxes w' = session_inboxes w \<Longrightarrow>
    agent_events w' = agent_events w @ [e] \<Longrightarrow> changes_status (rn_id run) (rn_status run) target e \<Longrightarrow>
    no_private (ae_payload e) \<Longrightarrow> agent_effect E w w'"
| eff_ask: "run \<in> set (agent_runs w) \<Longrightarrow> rn_status run = Run_RUNNING \<Longrightarrow> open_question w (rn_id run) = None \<Longrightarrow>
    pq_id q = uuid7 E (next_id (core w)) \<Longrightarrow> next_id (core w) < next_id (core w') \<Longrightarrow> pq_run_id q = rn_id run \<Longrightarrow>
    pq_session_id q = rn_session_id run \<Longrightarrow> pq_status q = Qs_PENDING \<Longrightarrow> pq_open_slot q = Some 1 \<Longrightarrow>
    pq_answer_payload q = None \<Longrightarrow> no_private (pq_context q) \<Longrightarrow>
    agent_runs w' = put_row rn_id (moved_run Run_WAITING_USER code now run) (agent_runs w) \<Longrightarrow>
    questions w' = questions w @ [q] \<Longrightarrow> session_inboxes w' = session_inboxes w \<Longrightarrow>
    agent_events w' = agent_events w @ [e1, e2] \<Longrightarrow> no_status e1 \<Longrightarrow> changes_status (rn_id run) Run_RUNNING Run_WAITING_USER e2 \<Longrightarrow>
    no_private (ae_payload e1) \<Longrightarrow> no_private (ae_payload e2) \<Longrightarrow> agent_effect E w w'"
| eff_consume: "run \<in> set (agent_runs w) \<Longrightarrow> q \<in> set (questions w) \<Longrightarrow> pq_run_id q = rn_id run \<Longrightarrow>
    rn_status run = Run_WAITING_USER \<Longrightarrow> pq_status q = Qs_PENDING \<Longrightarrow> t < pq_expires_at q \<Longrightarrow>
    agent_runs w' = put_row rn_id (moved_run Run_QUEUED code now run) (agent_runs w) \<Longrightarrow>
    questions w' = put_row pq_id (answered_question actor payload sha (si_seq item) t' q) (questions w) \<Longrightarrow>
    session_inboxes w' = session_inboxes w @ [item] \<Longrightarrow> si_question_id item = Some (pq_id q) \<Longrightarrow> si_payload item = payload \<Longrightarrow>
    si_actor_principal_id item = actor \<Longrightarrow> si_session_id item = pq_session_id q \<Longrightarrow> no_private payload \<Longrightarrow>
    agent_events w' = agent_events w @ [e1, e2] \<Longrightarrow> no_status e1 \<Longrightarrow> changes_status (rn_id run) Run_WAITING_USER Run_QUEUED e2 \<Longrightarrow>
    no_private (ae_payload e1) \<Longrightarrow> no_private (ae_payload e2) \<Longrightarrow> agent_effect E w w'"

lemma consumed_effect:
  assumes ok: "logs_ok E w" and l: "locked_question w i wanted = Inr (ss, run, q)"
    and v: "validate_answerable q run (clock 0) = Inr ()"
    and c: "consume_answer E ss run q actor payload mode answer_reason transition_reason clock w = Inr (res, w')"
  shows "agent_effect E w w' \<and> logs_ok E w' \<and> next_id (core w) \<le> next_id (core w') \<and>
    as_id ` set (agent_sessions w) \<subseteq> as_id ` set (agent_sessions w')"
proof -
  have s: "ss \<in> set (agent_sessions w)" "run \<in> set (agent_runs w)" "rn_id run = pq_run_id q" "q \<in> set (questions w)"
    "pq_session_id q = as_id ss"
    using locked_question_Inr[OF l] by auto
  have v': "pq_status q = Qs_PENDING" "clock 0 < pq_expires_at q" "rn_status run = Run_WAITING_USER"
    using v by (auto simp: validate_answerable_Inr)
  obtain item sha e1 e2 where t: "no_private payload"
    "agent_runs w' = put_row rn_id (moved_run Run_QUEUED None (clock 2) run) (agent_runs w)"
    "questions w' = put_row pq_id (answered_question actor (key_sorted payload) sha (si_seq item) (clock 1) q) (questions w)"
    "session_inboxes w' = session_inboxes w @ [item]" "si_question_id item = Some (pq_id q)" "si_payload item = key_sorted payload"
    "si_actor_principal_id item = actor" "si_session_id item = as_id ss"
    "agent_events w' = agent_events w @ [e1, e2]" "no_status e1" "changes_status (rn_id run) (rn_status run) Run_QUEUED e2"
    "no_private (ae_payload e1)" "no_private (ae_payload e2)"
    and more: "next_id (core w) < next_id (core w')" "as_id ` set (agent_sessions w') = as_id ` set (agent_sessions w)" "logs_ok E w'"
    using consumed_tables[OF ok s(1) c] by blast
  have "agent_effect E w w'"
    by (rule eff_consume[of run w q "clock 0" w' None "clock 2" actor "key_sorted payload" sha item "clock 1" e1 e2])
      (use s v' t in simp_all)
  then show ?thesis using more by simp
qed

lemma step_effect:
  assumes "agent_step E w w'" "logs_ok E w" "inj_on (uuid7 E) {..<next_id (core w')}"
  shows "agent_effect E w w' \<and> logs_ok E w' \<and> next_id (core w) \<le> next_id (core w') \<and>
    as_id ` set (agent_sessions w) \<subseteq> as_id ` set (agent_sessions w')"
  using assms
proof (induction rule: agent_step.induct)
  case (step_principal ws a n w p w')
  then have "same_tables w w'"
    by (auto simp: resolve_admin_principal_def bind_res_Inr_iff same_tables_def alloc_agent_def alloc_def Let_def
        split: option.split_asm prod.split_asm)
  then show ?case using step_principal.prems
    by (auto simp: same_tables_def intro: eff_none logs_ok_cong)
next
  case (step_definition dc clock w d w')
  then have "same_tables w w'"
    by (auto simp: create_definition_def bind_res_Inr_iff same_tables_def alloc_agent_def alloc_def Let_def split: if_split_asm)
  then show ?case using step_definition.prems
    by (auto simp: same_tables_def intro: eff_none logs_ok_cong)
next
  case (step_version i vp wanted clock w v w')
  then have "same_tables w w'"
    by (auto simp: publish_version_def bind_res_Inr_iff same_tables_def alloc_agent_def alloc_def Let_def
        split: if_split_asm prod.split_asm)
  then show ?case using step_version.prems
    by (auto simp: same_tables_def intro: eff_none logs_ok_cong)
next
  case (step_session sc clock w ss w')
  note t = created_session_tables[OF step_session.prems step_session.hyps]
  then obtain e where "agent_events w' = agent_events w @ [e]" "no_status e" "no_private (ae_payload e)" by blast
  then show ?case using t by (auto intro: eff_session)
next
  case (step_run i nc wanted clock w r w')
  show ?case
  proof (cases "run_of_key (agent_runs w) i (nc_idempotency_key nc)")
    case (Some x)
    then have "w' = w" using create_run_cases[OF step_run.hyps] by auto
    then show ?thesis using step_run.prems by (auto simp: same_tables_def intro: eff_none)
  next
    case None
    note t = created_run_tables[OF step_run.prems(1) step_run.hyps None]
    then obtain item e where "session_inboxes w' = session_inboxes w @ [item]" "si_question_id item = None"
      "si_payload item = rn_input_payload r" "agent_events w' = agent_events w @ [e]" "creates_run (rn_id r) e" "no_private (ae_payload e)"
      by blast
    then have "agent_effect E w w'" using t None by (intro eff_run[of r E w w' item e]) auto
    then show ?thesis using t by auto
  qed
next
  case (step_transition i nt wanted clock w r w')
  obtain run e where t: "run \<in> set (agent_runs w)" "rn_id run = i" "nt_status nt \<in> set (run_transitions (rn_status run))"
    "rn_status run = Run_WAITING_USER \<and> nt_status nt = Run_QUEUED \<longrightarrow> open_question w i = None"
    "r = moved_run (nt_status nt) (nt_error_code nt) (clock 0) run" "agent_runs w' = put_row rn_id r (agent_runs w)"
    "questions w' = map (closed_by (nt_status nt) (clock 0) i) (questions w)" "session_inboxes w' = session_inboxes w"
    "agent_events w' = agent_events w @ [e]" "changes_status i (rn_status run) (nt_status nt) e" "no_private (ae_payload e)"
    and more: "next_id (core w) < next_id (core w')" "as_id ` set (agent_sessions w') = as_id ` set (agent_sessions w)" "logs_ok E w'"
    using transitioned_tables[OF step_transition.prems(1) step_transition.hyps] by blast
  have "agent_effect E w w'"
    by (rule eff_move[of run w "nt_status nt" w' "nt_error_code nt" "clock 0" e]) (use t in simp_all)
  then show ?case using more by simp
next
  case (step_ask i qc wanted clock w q w')
  obtain run e1 e2 where t: "run \<in> set (agent_runs w)" "rn_id run = i" "rn_status run = Run_RUNNING" "open_question w i = None"
    "pq_id q = uuid7 E (next_id (core w))" "pq_run_id q = i" "pq_session_id q = rn_session_id run"
    "pq_status q = Qs_PENDING" "pq_open_slot q = Some 1" "pq_answer_payload q = None" "no_private (pq_context q)"
    "agent_runs w' = put_row rn_id (moved_run Run_WAITING_USER None (clock 2) run) (agent_runs w)"
    "questions w' = questions w @ [q]" "session_inboxes w' = session_inboxes w"
    "agent_events w' = agent_events w @ [e1, e2]" "no_status e1" "changes_status i Run_RUNNING Run_WAITING_USER e2"
    "no_private (ae_payload e1)" "no_private (ae_payload e2)"
    and more: "next_id (core w) < next_id (core w')" "as_id ` set (agent_sessions w') = as_id ` set (agent_sessions w)" "logs_ok E w'"
    using asked_tables[OF step_ask.prems(1) step_ask.hyps] by blast
  have "agent_effect E w w'"
    by (rule eff_ask[of run w q E w' None "clock 2" e1 e2]) (use t more in simp_all)
  then show ?case using more by simp
next
  case (step_answer i qa wanted clock w res w')
  obtain ss run q where l: "locked_question w i wanted = Inr (ss, run, q)" and v: "validate_answerable q run (clock 0) = Inr ()"
    and c: "consume_answer E ss run q (qa_principal_id qa) (qa_answer_payload qa) ''RUNTIME_PRINCIPAL'' None
         ''user answer received'' clock w = Inr (res, w')"
    using answered_cases[OF step_answer.hyps] by blast
  then show ?case using consumed_effect[OF step_answer.prems(1) l v c] by simp
next
  case (step_override i qo actor wanted clock w res w')
  obtain ss run q where l: "locked_question w i wanted = Inr (ss, run, q)" and v: "validate_answerable q run (clock 0) = Inr ()"
    and c: "consume_answer E ss run q actor (qo_answer_payload qo) ''ADMIN_OVERRIDE'' (Some (qo_reason qo))
         ''administrator override answer received'' clock w = Inr (res, w')"
    using overridden_cases[OF step_override.hyps] by blast
  then show ?case using consumed_effect[OF step_override.prems(1) l v c] by simp
next
  case (step_elsewhere w c)
  then have "same_tables w (w\<lparr>core := c\<rparr>)" by (simp add: same_tables_def)
  then show ?case using step_elsewhere
    by (auto simp: same_tables_def intro: eff_none logs_ok_cong)
qed

section \<open>Runs and questions\<close>

text \<open>
  A run holds the active slot of its session until it ends; no two runs of a session share an
  idempotency key or the active slot.  A question is open as long as it is pending; its run waits
  for the user, and has no other open question.
\<close>

definition runs_ok :: "env \<Rightarrow> agent_db \<Rightarrow> bool" where
  "runs_ok E w \<longleftrightarrow> unique_by rn_id (agent_runs w) \<and> rn_id ` set (agent_runs w) \<subseteq> uuid7 E ` {..<next_id (core w)} \<and>
     rn_session_id ` set (agent_runs w) \<subseteq> as_id ` set (agent_sessions w) \<and>
     (\<forall>r\<in>set (agent_runs w). rn_active_slot r = (if rn_status r \<in> set terminal_run_statuses then None else Some 1)) \<and>
     (\<forall>r\<in>set (agent_runs w). \<forall>r'\<in>set (agent_runs w). rn_session_id r = rn_session_id r' \<longrightarrow>
        rn_idempotency_key r = rn_idempotency_key r' \<or> rn_active_slot r = Some 1 \<and> rn_active_slot r' = Some 1 \<longrightarrow>
        rn_id r = rn_id r')"

definition questions_ok :: "env \<Rightarrow> agent_db \<Rightarrow> bool" where
  "questions_ok E w \<longleftrightarrow> unique_by pq_id (questions w) \<and> pq_id ` set (questions w) \<subseteq> uuid7 E ` {..<next_id (core w)} \<and>
     (\<forall>q\<in>set (questions w). pq_open_slot q = (if pq_status q = Qs_PENDING then Some 1 else None)) \<and>
     (\<forall>q\<in>set (questions w). \<exists>r\<in>set (agent_runs w). rn_id r = pq_run_id q \<and> rn_session_id r = pq_session_id q \<and>
        (pq_status q = Qs_PENDING \<longrightarrow> rn_status r = Run_WAITING_USER)) \<and>
     (\<forall>q\<in>set (questions w). \<forall>q'\<in>set (questions w). pq_status q = Qs_PENDING \<and> pq_status q' = Qs_PENDING \<and>
        pq_run_id q = pq_run_id q' \<longrightarrow> pq_id q = pq_id q')"

lemma fresh_id:
  assumes "inj_on (uuid7 E) {..<m}" "n < m" "ids \<subseteq> uuid7 E ` {..<n}"
  shows "uuid7 E n \<notin> ids"
proof
  assume "uuid7 E n \<in> ids"
  then obtain k where "k < n" "uuid7 E n = uuid7 E k" using assms(3) by auto
  then show False using inj_onD[OF assms(1), of n k] assms(2) by simp
qed

lemma older_ids: "m \<le> n \<Longrightarrow> ids \<subseteq> uuid7 E ` {..<m} \<Longrightarrow> ids \<subseteq> uuid7 E ` {..<n}"
  by (meson image_mono lessThan_subset_iff order_trans)

lemma unique_row: "unique_by key rows \<Longrightarrow> r \<in> set rows \<Longrightarrow> r' \<in> set rows \<Longrightarrow> key r = key r' \<Longrightarrow> r = r'"
  by (auto simp: unique_by_def distinct_map inj_on_def)

lemma transitions_nonterminal: "t \<in> set (run_transitions s) \<Longrightarrow> s \<notin> set terminal_run_statuses"
  by (cases s) (simp_all add: terminal_run_statuses_def)

lemma runs_okD:
  assumes "runs_ok E w"
  shows "unique_by rn_id (agent_runs w)" "rn_id ` set (agent_runs w) \<subseteq> uuid7 E ` {..<next_id (core w)}"
    "rn_session_id ` set (agent_runs w) \<subseteq> as_id ` set (agent_sessions w)"
    "r \<in> set (agent_runs w) \<Longrightarrow> rn_active_slot r = (if rn_status r \<in> set terminal_run_statuses then None else Some 1)"
    "r \<in> set (agent_runs w) \<Longrightarrow> r' \<in> set (agent_runs w) \<Longrightarrow> rn_session_id r = rn_session_id r' \<Longrightarrow>
       rn_idempotency_key r = rn_idempotency_key r' \<or> rn_active_slot r = Some 1 \<and> rn_active_slot r' = Some 1 \<Longrightarrow>
       rn_id r = rn_id r'"
  using assms unfolding runs_ok_def by blast+

lemma runs_okI:
  assumes "unique_by rn_id (agent_runs w)" "rn_id ` set (agent_runs w) \<subseteq> uuid7 E ` {..<next_id (core w)}"
    "rn_session_id ` set (agent_runs w) \<subseteq> as_id ` set (agent_sessions w)"
    "\<And>r. r \<in> set (agent_runs w) \<Longrightarrow> rn_active_slot r = (if rn_status r \<in> set terminal_run_statuses then None else Some 1)"
    "\<And>r r'. r \<in> set (agent_runs w) \<Longrightarrow> r' \<in> set (agent_runs w) \<Longrightarrow> rn_session_id r = rn_session_id r' \<Longrightarrow>
       rn_idempotency_key r = rn_idempotency_key r' \<or> rn_active_slot r = Some 1 \<and> rn_active_slot r' = Some 1 \<Longrightarrow>
       rn_id r = rn_id r'"
  shows "runs_ok E w"
  unfolding runs_ok_def using assms by (intro conjI ballI impI) blast+

lemma runs_ok_cong:
  assumes "agent_runs w' = agent_runs w" "next_id (core w) \<le> next_id (core w')"
    "as_id ` set (agent_sessions w) \<subseteq> as_id ` set (agent_sessions w')" "runs_ok E w"
  shows "runs_ok E w'"
  using older_ids[OF assms(2) runs_okD(2)[OF assms(4)]] subset_trans[OF runs_okD(3)[OF assms(4)] assms(3)] runs_okD[OF assms(4)]
  by (intro runs_okI) (simp_all only: assms(1))

lemma runs_ok_add:
  assumes "agent_runs w' = agent_runs w @ [r]" "next_id (core w) < next_id (core w')"
    "as_id ` set (agent_sessions w) \<subseteq> as_id ` set (agent_sessions w')" "runs_ok E w" "inj_on (uuid7 E) {..<next_id (core w')}"
    "rn_id r = uuid7 E (next_id (core w))" "rn_session_id r \<in> as_id ` set (agent_sessions w)"
    "active_run (agent_runs w) (rn_session_id r) = None" "run_of_key (agent_runs w) (rn_session_id r) (rn_idempotency_key r) = None"
    "rn_status r = Run_QUEUED" "rn_active_slot r = Some 1"
  shows "runs_ok E w'"
proof -
  note ok = runs_okD[OF assms(4)]
  have fresh: "rn_id r \<notin> rn_id ` set (agent_runs w)" using fresh_id[OF assms(5) assms(2) ok(2)] assms(6) by simp
  have free: "\<not> (rn_session_id x = rn_session_id r \<and> (rn_idempotency_key x = rn_idempotency_key r \<or> rn_active_slot x = Some 1))"
    if "x \<in> set (agent_runs w)" for x
    using assms(8,9) that by (auto simp: active_run_def run_of_key_def find_None_iff)
  have mem: "x \<in> set (agent_runs w') \<longleftrightarrow> x = r \<or> x \<in> set (agent_runs w)" for x by (auto simp: assms(1))
  show ?thesis
  proof (rule runs_okI)
    show "unique_by rn_id (agent_runs w')" using ok(1) fresh by (simp add: assms(1) unique_by_snoc)
    show "rn_id ` set (agent_runs w') \<subseteq> uuid7 E ` {..<next_id (core w')}"
      using older_ids[OF less_imp_le[OF assms(2)] ok(2)] assms(1,2,6) by simp
    show "rn_session_id ` set (agent_runs w') \<subseteq> as_id ` set (agent_sessions w')"
      using subset_trans[OF ok(3) assms(3)] subsetD[OF assms(3,7)] by (simp add: assms(1))
    show "rn_active_slot x = (if rn_status x \<in> set terminal_run_statuses then None else Some 1)"
      if "x \<in> set (agent_runs w')" for x
      using that ok(4)[of x] assms(10,11) by (auto simp: mem terminal_run_statuses_def)
    show "rn_id x = rn_id y" if "x \<in> set (agent_runs w')" "y \<in> set (agent_runs w')" "rn_session_id x = rn_session_id y"
      "rn_idempotency_key x = rn_idempotency_key y \<or> rn_active_slot x = Some 1 \<and> rn_active_slot y = Some 1" for x y
      using that free[of x] free[of y] ok(5)[of x y] unfolding mem by metis
  qed
qed

lemma runs_ok_move:
  assumes "agent_runs w' = put_row rn_id (moved_run target code now run) (agent_runs w)" "next_id (core w) \<le> next_id (core w')"
    "as_id ` set (agent_sessions w) \<subseteq> as_id ` set (agent_sessions w')" "runs_ok E w" "run \<in> set (agent_runs w)"
    "target \<in> set (run_transitions (rn_status run))"
  shows "runs_ok E w'"
proof -
  note ok = runs_okD[OF assms(4)]
  have slot: "rn_active_slot run = Some 1" using ok(4)[OF assms(5)] transitions_nonterminal[OF assms(6)] by simp
  have mem: "\<exists>y\<in>set (agent_runs w). rn_id y = rn_id x \<and> rn_session_id y = rn_session_id x \<and>
      rn_idempotency_key y = rn_idempotency_key x \<and> (rn_active_slot x = Some 1 \<longrightarrow> rn_active_slot y = Some 1)"
    if "x \<in> set (agent_runs w')" for x
    using that assms(5) slot unfolding assms(1) mem_put_row_iff by auto
  show ?thesis
  proof (rule runs_okI)
    show "unique_by rn_id (agent_runs w')" using ok(1) by (simp add: assms(1))
    show "rn_id ` set (agent_runs w') \<subseteq> uuid7 E ` {..<next_id (core w')}"
      using older_ids[OF assms(2) ok(2)] by (simp add: assms(1) put_row_keys)
    show "rn_session_id ` set (agent_runs w') \<subseteq> as_id ` set (agent_sessions w')"
    proof
      fix i assume "i \<in> rn_session_id ` set (agent_runs w')"
      then obtain x where "x \<in> set (agent_runs w')" "i = rn_session_id x" by blast
      then obtain y where "y \<in> set (agent_runs w)" "i = rn_session_id y" using mem by metis
      then show "i \<in> as_id ` set (agent_sessions w')" using ok(3) assms(3) by blast
    qed
    show "rn_active_slot x = (if rn_status x \<in> set terminal_run_statuses then None else Some 1)"
      if "x \<in> set (agent_runs w')" for x
      using that ok(4)[of x] by (auto simp: assms(1) mem_put_row_iff moved_run_slot)
    show "rn_id x = rn_id y" if x: "x \<in> set (agent_runs w')" and y: "y \<in> set (agent_runs w')" and "rn_session_id x = rn_session_id y"
      "rn_idempotency_key x = rn_idempotency_key y \<or> rn_active_slot x = Some 1 \<and> rn_active_slot y = Some 1" for x y
      using mem[OF x] mem[OF y] that(3,4) ok(5) by metis
  qed
qed

lemma step_runs_ok:
  assumes "agent_step E w w'" "logs_ok E w" "inj_on (uuid7 E) {..<next_id (core w')}" "runs_ok E w"
  shows "runs_ok E w'"
proof -
  note e = step_effect[OF assms(1-3)]
  then have n: "next_id (core w) \<le> next_id (core w')" and ids: "as_id ` set (agent_sessions w) \<subseteq> as_id ` set (agent_sessions w')" by auto
  from e have "agent_effect E w w'" by blast
  then show ?thesis
  proof (cases rule: agent_effect.cases)
    case eff_none
    then show ?thesis by (intro runs_ok_cong[OF _ n ids assms(4)]) (simp add: same_tables_def)
  next
    case (eff_session e)
    then show ?thesis by (intro runs_ok_cong[OF _ n ids assms(4)])
  next
    case (eff_run r item e)
    then show ?thesis by (intro runs_ok_add[OF _ _ ids assms(4) assms(3)])
  next
    case (eff_move run target code now e)
    then show ?thesis by (intro runs_ok_move[OF _ n ids assms(4)])
  next
    case (eff_ask run q code now e1 e2)
    then show ?thesis by (intro runs_ok_move[OF _ n ids assms(4), where run = run and code = code and now = now]) (simp_all only:, simp_all)
  next
    case (eff_consume run q t code now actor payload sha item t' e1 e2)
    then show ?thesis by (intro runs_ok_move[OF _ n ids assms(4), where run = run and code = code and now = now]) (simp_all only:, simp_all)
  qed
qed

lemma open_question_None:
  assumes "questions_ok E w" "open_question w i = None" "q \<in> set (questions w)" "pq_run_id q = i"
  shows "pq_status q \<noteq> Qs_PENDING"
  using assms by (auto simp: questions_ok_def open_question_def find_None_iff)

text \<open>The runs of the questions after a run has moved.\<close>

lemma run_after_move:
  assumes "unique_by rn_id (agent_runs w)" "run \<in> set (agent_runs w)" "r \<in> set (agent_runs w)"
  shows "\<exists>x\<in>set (put_row rn_id (moved_run target code now run) (agent_runs w)). rn_id x = rn_id r \<and>
    rn_session_id x = rn_session_id r \<and> rn_status x = (if rn_id r = rn_id run then target else rn_status r)"
proof (cases "rn_id r = rn_id run")
  case True
  then have "r = run" using unique_row[OF assms(1,3,2)] by simp
  moreover have "moved_run target code now run \<in> set (put_row rn_id (moved_run target code now run) (agent_runs w))"
    using assms(2) by (intro mem_put_row_self) simp_all
  ultimately show ?thesis by (metis moved_run_sel(1,2,4))
next
  case False
  then have "r \<in> set (put_row rn_id (moved_run target code now run) (agent_runs w))" using assms(3) by (auto simp: mem_put_row_iff)
  then show ?thesis using False by auto
qed

lemma closed_by_sel [simp]:
  "pq_id (closed_by t now i q) = pq_id q" "pq_run_id (closed_by t now i q) = pq_run_id q"
  "pq_session_id (closed_by t now i q) = pq_session_id q" "pq_context (closed_by t now i q) = pq_context q"
  "pq_answer_payload (closed_by t now i q) = pq_answer_payload q" "pq_answer_inbox_seq (closed_by t now i q) = pq_answer_inbox_seq q"
  "pq_expires_at (closed_by t now i q) = pq_expires_at q" "pq_answered_by_principal_id (closed_by t now i q) = pq_answered_by_principal_id q"
  by (simp_all add: closed_by_def close_question_def)

lemma questions_okD:
  assumes "questions_ok E w"
  shows "unique_by pq_id (questions w)" "pq_id ` set (questions w) \<subseteq> uuid7 E ` {..<next_id (core w)}"
    "q \<in> set (questions w) \<Longrightarrow> pq_open_slot q = (if pq_status q = Qs_PENDING then Some 1 else None)"
    "q \<in> set (questions w) \<Longrightarrow> \<exists>r\<in>set (agent_runs w). rn_id r = pq_run_id q \<and> rn_session_id r = pq_session_id q \<and>
        (pq_status q = Qs_PENDING \<longrightarrow> rn_status r = Run_WAITING_USER)"
    "q \<in> set (questions w) \<Longrightarrow> q' \<in> set (questions w) \<Longrightarrow> pq_status q = Qs_PENDING \<Longrightarrow> pq_status q' = Qs_PENDING \<Longrightarrow>
        pq_run_id q = pq_run_id q' \<Longrightarrow> pq_id q = pq_id q'"
  using assms unfolding questions_ok_def by blast+

lemma questions_okI:
  assumes "unique_by pq_id (questions w)" "pq_id ` set (questions w) \<subseteq> uuid7 E ` {..<next_id (core w)}"
    "\<And>q. q \<in> set (questions w) \<Longrightarrow> pq_open_slot q = (if pq_status q = Qs_PENDING then Some 1 else None)"
    "\<And>q. q \<in> set (questions w) \<Longrightarrow> \<exists>r\<in>set (agent_runs w). rn_id r = pq_run_id q \<and> rn_session_id r = pq_session_id q \<and>
        (pq_status q = Qs_PENDING \<longrightarrow> rn_status r = Run_WAITING_USER)"
    "\<And>q q'. q \<in> set (questions w) \<Longrightarrow> q' \<in> set (questions w) \<Longrightarrow> pq_status q = Qs_PENDING \<Longrightarrow> pq_status q' = Qs_PENDING \<Longrightarrow>
        pq_run_id q = pq_run_id q' \<Longrightarrow> pq_id q = pq_id q'"
  shows "questions_ok E w"
  unfolding questions_ok_def using assms by (intro conjI ballI impI) blast+

lemma questions_ok_map:
  assumes ok: "questions_ok E w" and qs: "questions w' = map f (questions w)"
    and f: "\<And>q. pq_id (f q) = pq_id q" "\<And>q. pq_run_id (f q) = pq_run_id q" "\<And>q. pq_session_id (f q) = pq_session_id q"
      "\<And>q. pq_open_slot q = (if pq_status q = Qs_PENDING then Some 1 else None) \<Longrightarrow>
         pq_open_slot (f q) = (if pq_status (f q) = Qs_PENDING then Some 1 else None)"
      "\<And>q. pq_status (f q) = Qs_PENDING \<Longrightarrow> pq_status q = Qs_PENDING"
    and n: "next_id (core w) \<le> next_id (core w')"
    and runs: "\<And>r. r \<in> set (agent_runs w) \<Longrightarrow> \<exists>x\<in>set (agent_runs w'). rn_id x = rn_id r \<and> rn_session_id x = rn_session_id r \<and>
      (\<forall>q\<in>set (questions w). pq_run_id q = rn_id r \<longrightarrow> pq_status (f q) = Qs_PENDING \<longrightarrow> rn_status r = Run_WAITING_USER \<longrightarrow>
         rn_status x = Run_WAITING_USER)"
  shows "questions_ok E w'"
proof (rule questions_okI)
  note D = questions_okD[OF ok]
  have ids: "map pq_id (questions w') = map pq_id (questions w)" using f(1) by (simp add: qs)
  then show "unique_by pq_id (questions w')" using D(1) by (simp add: unique_by_def)
  have "pq_id ` set (questions w') = pq_id ` set (questions w)" using ids by (metis list.set_map)
  then show "pq_id ` set (questions w') \<subseteq> uuid7 E ` {..<next_id (core w')}" using older_ids[OF n D(2)] by simp
  fix q' assume "q' \<in> set (questions w')"
  then obtain q where q: "q \<in> set (questions w)" "q' = f q" by (auto simp: qs)
  show "pq_open_slot q' = (if pq_status q' = Qs_PENDING then Some 1 else None)" using f(4)[OF D(3)[OF q(1)]] by (simp add: q(2))
  obtain r where r: "r \<in> set (agent_runs w)" "rn_id r = pq_run_id q" "rn_session_id r = pq_session_id q"
    "pq_status q = Qs_PENDING \<longrightarrow> rn_status r = Run_WAITING_USER" using D(4)[OF q(1)] by blast
  obtain x where x: "x \<in> set (agent_runs w')" "rn_id x = rn_id r" "rn_session_id x = rn_session_id r"
    "pq_status (f q) = Qs_PENDING \<longrightarrow> rn_status r = Run_WAITING_USER \<longrightarrow> rn_status x = Run_WAITING_USER"
    using runs[OF r(1)] q(1) r(2) by metis
  show "\<exists>x\<in>set (agent_runs w'). rn_id x = pq_run_id q' \<and> rn_session_id x = pq_session_id q' \<and>
      (pq_status q' = Qs_PENDING \<longrightarrow> rn_status x = Run_WAITING_USER)"
    using x r(2-4) f(2,3,5)[of q] q(2) by auto
  fix p' assume "p' \<in> set (questions w')" "pq_status q' = Qs_PENDING" "pq_status p' = Qs_PENDING" "pq_run_id q' = pq_run_id p'"
  moreover then obtain p where "p \<in> set (questions w)" "p' = f p" by (auto simp: qs)
  ultimately show "pq_id q' = pq_id p'" using D(5)[OF q(1), of p] f(1,2,5) q(2) by metis
qed

lemma questions_ok_add:
  assumes ok: "questions_ok E w" and qs: "questions w' = questions w @ [q]" "agent_runs w' = agent_runs w"
    and n: "next_id (core w') = next_id (core w)" "pq_id q \<in> uuid7 E ` {..<next_id (core w)}" "pq_id q \<notin> pq_id ` set (questions w)"
    and r: "\<exists>r\<in>set (agent_runs w). rn_id r = pq_run_id q \<and> rn_session_id r = pq_session_id q \<and> rn_status r = Run_WAITING_USER"
    and q: "pq_status q = Qs_PENDING" "pq_open_slot q = Some 1"
    and free: "\<And>p. p \<in> set (questions w) \<Longrightarrow> pq_run_id p = pq_run_id q \<Longrightarrow> pq_status p \<noteq> Qs_PENDING"
  shows "questions_ok E w'"
proof (rule questions_okI)
  note D = questions_okD[OF ok]
  have mem: "p \<in> set (questions w') \<longleftrightarrow> p = q \<or> p \<in> set (questions w)" for p by (auto simp: qs(1))
  show "unique_by pq_id (questions w')" using D(1) n(3) by (simp add: qs(1) unique_by_snoc)
  show "pq_id ` set (questions w') \<subseteq> uuid7 E ` {..<next_id (core w')}" using D(2) n by (simp add: qs(1))
  fix p assume p: "p \<in> set (questions w')"
  show "pq_open_slot p = (if pq_status p = Qs_PENDING then Some 1 else None)" using p D(3) q by (auto simp: mem)
  show "\<exists>r\<in>set (agent_runs w'). rn_id r = pq_run_id p \<and> rn_session_id r = pq_session_id p \<and>
      (pq_status p = Qs_PENDING \<longrightarrow> rn_status r = Run_WAITING_USER)"
    using p D(4)[of p] r unfolding mem qs(2) by blast
  fix p' assume "p' \<in> set (questions w')" "pq_status p = Qs_PENDING" "pq_status p' = Qs_PENDING" "pq_run_id p = pq_run_id p'"
  then show "pq_id p = pq_id p'" using p D(5)[of p p'] free[of p] free[of p'] unfolding mem by metis
qed

lemma waiting_targets:
  "t \<in> set (run_transitions Run_WAITING_USER) \<Longrightarrow> t = Run_QUEUED \<or> t \<in> set terminal_run_statuses"
  by (auto simp: terminal_run_statuses_def)

lemma step_questions_ok:
  assumes step: "agent_step E w w'" and logs: "logs_ok E w" and inj: "inj_on (uuid7 E) {..<next_id (core w')}" and runs: "runs_ok E w" and ok: "questions_ok E w"
  shows "questions_ok E w'"
proof -
  note D = questions_okD[OF ok] and R = runs_okD[OF runs]
  have n: "next_id (core w) \<le> next_id (core w')" and "agent_effect E w w'" using step_effect[OF step logs inj] by auto
  from this(2) show ?thesis
  proof (cases rule: agent_effect.cases)
    case eff_none
    then show ?thesis by (intro questions_ok_map[OF ok, where f = id] n) (auto simp: same_tables_def)
  next
    case (eff_session e)
    then show ?thesis by (intro questions_ok_map[OF ok, where f = id] n) auto
  next
    case (eff_run r item e)
    then show ?thesis by (intro questions_ok_map[OF ok, where f = id] n) auto
  next
    case (eff_move run target code now e)
    let ?f = "closed_by target now (rn_id run)"
    show ?thesis
    proof (rule questions_ok_map[OF ok eff_move(5) _ _ _ _ _ n])
      show "pq_open_slot (?f q) = (if pq_status (?f q) = Qs_PENDING then Some 1 else None)"
        if "pq_open_slot q = (if pq_status q = Qs_PENDING then Some 1 else None)" for q
        using that by (auto simp: closed_by_def close_question_def)
      show "pq_status q = Qs_PENDING" if "pq_status (?f q) = Qs_PENDING" for q
        using that by (auto simp: closed_by_def close_question_def split: if_split_asm)
      fix r assume r: "r \<in> set (agent_runs w)"
      obtain x where x: "x \<in> set (agent_runs w')" "rn_id x = rn_id r" "rn_session_id x = rn_session_id r"
        "rn_status x = (if rn_id r = rn_id run then target else rn_status r)"
        using run_after_move[OF R(1) eff_move(1) r, of target code now] unfolding eff_move(4) by blast
      have "rn_status x = Run_WAITING_USER"
        if q: "q \<in> set (questions w)" "pq_run_id q = rn_id r" "pq_status (?f q) = Qs_PENDING" and st: "rn_status r = Run_WAITING_USER" for q
      proof (cases "rn_id r = rn_id run")
        case True
        then have "r = run" using unique_row[OF R(1) r eff_move(1)] by simp
        then have t: "target = Run_QUEUED \<or> target \<in> set terminal_run_statuses" using waiting_targets eff_move(2) st by metis
        have pend: "pq_status q = Qs_PENDING" using q(3) by (auto simp: closed_by_def close_question_def split: if_split_asm)
        have "target \<noteq> Run_QUEUED"
          using open_question_None[OF ok _ q(1), of "rn_id run"] eff_move(3) pend st q(2) \<open>r = run\<close> by auto
        then have "pq_status (?f q) \<noteq> Qs_PENDING"
          using t pend q(2) D(3)[OF q(1)] True by (auto simp: closed_by_def close_question_def)
        then show ?thesis using q(3) by simp
      next
        case False
        then show ?thesis using x(4) st by simp
      qed
      then show "\<exists>x\<in>set (agent_runs w'). rn_id x = rn_id r \<and> rn_session_id x = rn_session_id r \<and>
          (\<forall>q\<in>set (questions w). pq_run_id q = rn_id r \<longrightarrow> pq_status (?f q) = Qs_PENDING \<longrightarrow> rn_status r = Run_WAITING_USER \<longrightarrow>
             rn_status x = Run_WAITING_USER)"
        using x by blast
    qed simp_all
  next
    case (eff_ask run q code now e1 e2)
    have none: "pq_status p \<noteq> Qs_PENDING" if "p \<in> set (questions w)" "pq_run_id p = rn_id run" for p
      using open_question_None[OF ok eff_ask(3) that] .
    let ?w1 = "w'\<lparr>questions := questions w\<rparr>"
    have ok1: "questions_ok E ?w1"
    proof (rule questions_ok_map[OF ok, where f = id])
      fix r assume r: "r \<in> set (agent_runs w)"
      obtain x where x: "x \<in> set (agent_runs w')" "rn_id x = rn_id r" "rn_session_id x = rn_session_id r"
        "rn_status x = (if rn_id r = rn_id run then Run_WAITING_USER else rn_status r)"
        using run_after_move[OF R(1) eff_ask(1) r, of Run_WAITING_USER code now] unfolding eff_ask(12) by blast
      then show "\<exists>x\<in>set (agent_runs ?w1). rn_id x = rn_id r \<and> rn_session_id x = rn_session_id r \<and>
          (\<forall>q\<in>set (questions w). pq_run_id q = rn_id r \<longrightarrow> pq_status (id q) = Qs_PENDING \<longrightarrow> rn_status r = Run_WAITING_USER \<longrightarrow>
             rn_status x = Run_WAITING_USER)"
        by (intro bexI[of _ x]) auto
    qed (use n in simp_all)
    have fresh: "pq_id q \<notin> pq_id ` set (questions w)" using fresh_id[OF inj eff_ask(5) D(2)] eff_ask(4) by simp
    obtain x where "x \<in> set (agent_runs w')" "rn_id x = rn_id run" "rn_session_id x = rn_session_id run" "rn_status x = Run_WAITING_USER"
      using run_after_move[OF R(1) eff_ask(1) eff_ask(1), of Run_WAITING_USER code now] unfolding eff_ask(12) by auto
    then show ?thesis
      by (intro questions_ok_add[OF ok1, of _ q]) (use eff_ask none fresh in auto)
  next
    case (eff_consume run q t code now actor payload sha item t' e1 e2)
    let ?q' = "answered_question actor payload sha (si_seq item) t' q"
    let ?f = "\<lambda>x. if pq_id x = pq_id ?q' then ?q' else x"
    have q': "pq_id ?q' = pq_id q" "pq_run_id ?q' = pq_run_id q" "pq_session_id ?q' = pq_session_id q" "pq_open_slot ?q' = None"
      "pq_status ?q' = Qs_ANSWERED" by (simp_all add: answered_question_def)
    let ?g = "\<lambda>x. if x = q then ?q' else x"
    have g: "questions w' = map ?g (questions w)"
      unfolding eff_consume(8) put_row_def using unique_row[OF D(1) _ eff_consume(2)] q'(1) by auto
    show ?thesis
    proof (rule questions_ok_map[OF ok g _ _ _ _ _ n])
      fix r assume r: "r \<in> set (agent_runs w)"
      obtain x where x: "x \<in> set (agent_runs w')" "rn_id x = rn_id r" "rn_session_id x = rn_session_id r"
        "rn_status x = (if rn_id r = rn_id run then Run_QUEUED else rn_status r)"
        using run_after_move[OF R(1) eff_consume(1) r, of Run_QUEUED code now] unfolding eff_consume(7) by blast
      have "rn_id r \<noteq> rn_id run" if "p \<in> set (questions w)" "pq_run_id p = rn_id r" "pq_status (?g p) = Qs_PENDING" for p
      proof
        assume "rn_id r = rn_id run"
        moreover have "pq_status p = Qs_PENDING" "p \<noteq> q" using that(3) q'(5) by (auto split: if_split_asm)
        ultimately have "pq_id p = pq_id q" using D(5)[OF that(1) eff_consume(2)] that(2) eff_consume(3,5) by simp
        then show False using unique_row[OF D(1) that(1) eff_consume(2)] \<open>p \<noteq> q\<close> by simp
      qed
      then show "\<exists>x\<in>set (agent_runs w'). rn_id x = rn_id r \<and> rn_session_id x = rn_session_id r \<and>
          (\<forall>p\<in>set (questions w). pq_run_id p = rn_id r \<longrightarrow> pq_status (?g p) = Qs_PENDING \<longrightarrow> rn_status r = Run_WAITING_USER \<longrightarrow>
             rn_status x = Run_WAITING_USER)"
        using x by metis
    qed (use q' in \<open>auto split: if_split_asm\<close>)
  qed
qed

section \<open>Answers\<close>

text \<open>
  A question is answered exactly if an inbox item answers it; then there is one such item, and
  the question records its number, its payload and who answered.
\<close>

definition answers_ok :: "agent_db \<Rightarrow> bool" where
  "answers_ok w \<longleftrightarrow>
     (\<forall>x\<in>set (session_inboxes w). \<forall>i. si_question_id x = Some i \<longrightarrow>
        (\<exists>q\<in>set (questions w). pq_id q = i \<and> pq_status q = Qs_ANSWERED \<and> pq_answer_inbox_seq q = Some (si_seq x) \<and>
           pq_answer_payload q = Some (si_payload x) \<and> pq_answered_by_principal_id q = Some (si_actor_principal_id x) \<and>
           pq_session_id q = si_session_id x)) \<and>
     (\<forall>q\<in>set (questions w). pq_status q = Qs_ANSWERED \<longrightarrow> (\<exists>x\<in>set (session_inboxes w). si_question_id x = Some (pq_id q))) \<and>
     (\<forall>i. length (filter (\<lambda>x. si_question_id x = Some i) (session_inboxes w)) \<le> 1)"

text \<open>A question that is not pending any more is left as it is.\<close>

lemma step_keeps_questions:
  assumes step: "agent_step E w w'" and logs: "logs_ok E w" and inj: "inj_on (uuid7 E) {..<next_id (core w')}" and ok: "questions_ok E w"
    and q: "q \<in> set (questions w)"
  shows "\<exists>q'\<in>set (questions w'). pq_id q' = pq_id q \<and> pq_run_id q' = pq_run_id q \<and> pq_expires_at q' = pq_expires_at q \<and>
    (pq_status q \<noteq> Qs_PENDING \<longrightarrow> q' = q)"
proof -
  have "agent_effect E w w'" using step_effect[OF step logs inj] by auto
  then show ?thesis
  proof (cases rule: agent_effect.cases)
    case (eff_move run target code now e)
    have "closed_by target now (rn_id run) q \<in> set (questions w')" using q by (simp add: eff_move(5))
    moreover have "pq_status q \<noteq> Qs_PENDING \<longrightarrow> closed_by target now (rn_id run) q = q"
      using questions_okD(3)[OF ok q] by (simp add: closed_by_def)
    ultimately show ?thesis by (metis closed_by_sel(1,2,7))
  next
    case (eff_consume run q0 t code now actor payload sha item t' e1 e2)
    let ?q' = "answered_question actor payload sha (si_seq item) t' q0"
    have q': "pq_id ?q' = pq_id q0" "pq_run_id ?q' = pq_run_id q0" "pq_expires_at ?q' = pq_expires_at q0"
      by (simp_all add: answered_question_def)
    show ?thesis
    proof (cases "pq_id q = pq_id q0")
      case True
      then have "q = q0" using unique_row[OF questions_okD(1)[OF ok] q eff_consume(2)] by simp
      moreover have "?q' \<in> set (questions w')" unfolding eff_consume(8) by (rule mem_put_row_self[OF eff_consume(2) q'(1)])
      ultimately show ?thesis using q' eff_consume(5) by blast
    next
      case False
      then have "q \<in> set (questions w')" unfolding eff_consume(8) using q q'(1) by (auto simp: mem_put_row_iff)
      then show ?thesis by blast
    qed
  qed (use q in \<open>auto simp: same_tables_def\<close>)
qed

lemma answers_ok_cong:
  assumes ok: "answers_ok w" and i: "\<exists>xs. session_inboxes w' = session_inboxes w @ xs \<and> (\<forall>x\<in>set xs. si_question_id x = None)"
    and keep: "\<And>q. q \<in> set (questions w) \<Longrightarrow> pq_status q = Qs_ANSWERED \<Longrightarrow> q \<in> set (questions w')"
    and old: "\<And>q. q \<in> set (questions w') \<Longrightarrow> pq_status q = Qs_ANSWERED \<Longrightarrow> q \<in> set (questions w)"
  shows "answers_ok w'"
proof -
  obtain xs where xs: "session_inboxes w' = session_inboxes w @ xs" "\<forall>x\<in>set xs. si_question_id x = None" using i by blast
  have none: "filter (\<lambda>x. si_question_id x = Some j) xs = []" for j using xs(2) by (auto simp: filter_empty_conv)
  show ?thesis unfolding answers_ok_def
  proof (intro conjI ballI allI impI)
    fix x j assume "x \<in> set (session_inboxes w')" and j: "si_question_id x = Some j"
    then have "x \<in> set (session_inboxes w)" using xs by auto
    then obtain q where q: "q \<in> set (questions w)" "pq_id q = j" "pq_status q = Qs_ANSWERED" "pq_answer_inbox_seq q = Some (si_seq x)"
      "pq_answer_payload q = Some (si_payload x)" "pq_answered_by_principal_id q = Some (si_actor_principal_id x)"
      "pq_session_id q = si_session_id x"
      using ok j unfolding answers_ok_def by blast
    show "\<exists>q\<in>set (questions w'). pq_id q = j \<and> pq_status q = Qs_ANSWERED \<and> pq_answer_inbox_seq q = Some (si_seq x) \<and>
        pq_answer_payload q = Some (si_payload x) \<and> pq_answered_by_principal_id q = Some (si_actor_principal_id x) \<and>
        pq_session_id q = si_session_id x"
      by (rule bexI[OF _ keep[OF q(1,3)]]) (use q in simp)
  next
    fix q assume "q \<in> set (questions w')" "pq_status q = Qs_ANSWERED"
    then have "q \<in> set (questions w)" "pq_status q = Qs_ANSWERED" using old by blast+
    then show "\<exists>x\<in>set (session_inboxes w'). si_question_id x = Some (pq_id q)"
      using ok xs(1) unfolding answers_ok_def by fastforce
  next
    show "length (filter (\<lambda>x. si_question_id x = Some j) (session_inboxes w')) \<le> 1" for j
      using ok none[of j] by (simp add: answers_ok_def xs(1))
  qed
qed

lemma step_answers_ok:
  assumes step: "agent_step E w w'" and logs: "logs_ok E w" and inj: "inj_on (uuid7 E) {..<next_id (core w')}" and qok: "questions_ok E w" and ok: "answers_ok w"
  shows "answers_ok w'"
proof -
  note D = questions_okD[OF qok]
  have "agent_effect E w w'" using step_effect[OF step logs inj] by auto
  then show ?thesis
  proof (cases rule: agent_effect.cases)
    case eff_none
    then show ?thesis by (intro answers_ok_cong[OF ok]) (auto simp: same_tables_def)
  next
    case (eff_session e)
    then show ?thesis by (intro answers_ok_cong[OF ok]) auto
  next
    case (eff_run r item e)
    then show ?thesis by (intro answers_ok_cong[OF ok]) auto
  next
    case (eff_move run target code now e)
    show ?thesis
    proof (rule answers_ok_cong[OF ok])
      show "q \<in> set (questions w')" if q: "q \<in> set (questions w)" and "pq_status q = Qs_ANSWERED" for q
      proof -
        have "closed_by target now (rn_id run) q = q" using D(3)[OF q] that(2) by (simp add: closed_by_def)
        then show ?thesis using q by (force simp: eff_move(5))
      qed
      show "q \<in> set (questions w)" if q: "q \<in> set (questions w')" and "pq_status q = Qs_ANSWERED" for q
        using that by (auto simp: eff_move(5) closed_by_def close_question_def split: if_split_asm)
    qed (simp add: eff_move(6))
  next
    case (eff_ask run q code now e1 e2)
    then show ?thesis by (intro answers_ok_cong[OF ok]) auto
  next
    case (eff_consume run q t code now actor payload sha item t' e1 e2)
    let ?q' = "answered_question actor payload sha (si_seq item) t' q"
    have q': "pq_id ?q' = pq_id q" "pq_status ?q' = Qs_ANSWERED" "pq_answer_inbox_seq ?q' = Some (si_seq item)"
      "pq_answer_payload ?q' = Some payload" "pq_answered_by_principal_id ?q' = Some actor" "pq_session_id ?q' = pq_session_id q"
      by (simp_all add: answered_question_def)
    have new: "?q' \<in> set (questions w')" unfolding eff_consume(8) by (rule mem_put_row_self[OF eff_consume(2) q'(1)])
    have mem: "p \<in> set (questions w') \<longleftrightarrow> p = ?q' \<or> p \<in> set (questions w) \<and> p \<noteq> q" for p
      using eff_consume(2) unique_row[OF D(1) _ eff_consume(2), of p] q'(1) unfolding eff_consume(8) mem_put_row_iff by metis
    have unanswered: "si_question_id x \<noteq> Some (pq_id q)" if "x \<in> set (session_inboxes w)" for x
    proof
      assume "si_question_id x = Some (pq_id q)"
      then obtain p where "p \<in> set (questions w)" "pq_id p = pq_id q" "pq_status p = Qs_ANSWERED"
        using ok \<open>x \<in> set (session_inboxes w)\<close> unfolding answers_ok_def by blast
      then show False using unique_row[OF D(1) _ eff_consume(2)] eff_consume(5) by fastforce
    qed
    show ?thesis unfolding answers_ok_def
    proof (intro conjI ballI allI impI)
      fix x j assume x: "x \<in> set (session_inboxes w')" and j: "si_question_id x = Some j"
      show "\<exists>q\<in>set (questions w'). pq_id q = j \<and> pq_status q = Qs_ANSWERED \<and> pq_answer_inbox_seq q = Some (si_seq x) \<and>
          pq_answer_payload q = Some (si_payload x) \<and> pq_answered_by_principal_id q = Some (si_actor_principal_id x) \<and>
          pq_session_id q = si_session_id x"
      proof (cases "x \<in> set (session_inboxes w)")
        case True
        then obtain p where p: "p \<in> set (questions w)" "pq_id p = j" "pq_status p = Qs_ANSWERED" "pq_answer_inbox_seq p = Some (si_seq x)"
          "pq_answer_payload p = Some (si_payload x)" "pq_answered_by_principal_id p = Some (si_actor_principal_id x)"
          "pq_session_id p = si_session_id x"
          using ok j unfolding answers_ok_def by blast
        then have "p \<in> set (questions w')" using eff_consume(5) by (auto simp: mem)
        then show ?thesis using p by blast
      next
        case False
        then have "x = item" using x by (simp add: eff_consume(9))
        then show ?thesis using new q' j eff_consume(10-13) by (intro bexI[of _ ?q']) simp_all
      qed
    next
      fix p assume "p \<in> set (questions w')" "pq_status p = Qs_ANSWERED"
      then show "\<exists>x\<in>set (session_inboxes w'). si_question_id x = Some (pq_id p)"
        using ok q'(1) eff_consume(10) unfolding mem answers_ok_def eff_consume(9) by fastforce
    next
      fix j
      show "length (filter (\<lambda>x. si_question_id x = Some j) (session_inboxes w')) \<le> 1"
      proof (cases "j = pq_id q")
        case True
        then have "filter (\<lambda>x. si_question_id x = Some j) (session_inboxes w) = []" using unanswered by (auto simp: filter_empty_conv)
        then show ?thesis by (simp add: eff_consume(9))
      next
        case False
        then show ?thesis using ok eff_consume(10) by (simp add: answers_ok_def eff_consume(9))
      qed
    qed
  qed
qed

section \<open>The log tells the status\<close>

text \<open>
  Replaying the events of a run: it is created as \<open>QUEUED\<close> once, and every change of
  status starts from the status reached before and is allowed by the transition table.
\<close>

datatype replayed = Absent | At run_status | Broken

definition logged_status :: "json \<Rightarrow> run_status option" where
  "logged_status j =
     find (\<lambda>st. JStr (run_status_str st) = j) (active_run_statuses @ terminal_run_statuses)"

definition replay_event :: "uuid \<Rightarrow> replayed \<Rightarrow> agent_event \<Rightarrow> replayed" where
  "replay_event i st e =
     (if ae_run_id e \<noteq> Some i \<or> no_status e then st
      else if ae_event_type e = Ae_RUN_CREATED
      then (if st = Absent \<and> logged_status (json_get (ae_payload e) ''status'') = Some Run_QUEUED then At Run_QUEUED else Broken)
      else case (st, logged_status (json_get (ae_payload e) ''from''), logged_status (json_get (ae_payload e) ''to'')) of
             (At s, Some f, Some t) \<Rightarrow> if f = s \<and> t \<in> set (run_transitions s) then At t else Broken
           | _ \<Rightarrow> Broken)"

definition replay :: "uuid \<Rightarrow> agent_event list \<Rightarrow> replayed" where
  "replay i es = foldl (replay_event i) Absent es"

definition replay_ok :: "agent_db \<Rightarrow> bool" where
  "replay_ok w \<longleftrightarrow> (\<forall>i. replay i (agent_events w) =
     (case get_row rn_id i (agent_runs w) of None \<Rightarrow> Absent | Some r \<Rightarrow> At (rn_status r)))"

lemma logged_status_str [simp]: "logged_status (JStr (run_status_str st)) = Some st"
  by (cases st) (simp_all add: logged_status_def active_run_statuses_def terminal_run_statuses_def)

lemma replay_snoc: "replay i (es @ [e]) = replay_event i (replay i es) e"
  by (simp add: replay_def)

lemma replay_no_status: "no_status e \<Longrightarrow> replay i (es @ [e]) = replay i es"
  by (simp add: replay_snoc replay_event_def)

lemma replay_created: "creates_run j e \<Longrightarrow> replay i (es @ [e]) =
    (if i = j then if replay i es = Absent then At Run_QUEUED else Broken else replay i es)"
  by (auto simp: replay_snoc replay_event_def creates_run_def no_status_def simp del: run_status_str.simps)

lemma replay_changed:
  assumes "changes_status j old new e" "new \<in> set (run_transitions old)" "replay j es = At old"
  shows "replay i (es @ [e]) = (if i = j then At new else replay i es)"
  using assms by (auto simp: replay_snoc replay_event_def changes_status_def no_status_def)

lemma get_row_moved:
  assumes "unique_by rn_id (agent_runs w)" "run \<in> set (agent_runs w)"
  shows "get_row rn_id i (put_row rn_id (moved_run t code now run) (agent_runs w)) =
    (if i = rn_id run then Some (moved_run t code now run) else get_row rn_id i (agent_runs w))"
proof (cases "i = rn_id run")
  case True
  have "get_row rn_id (rn_id run) (agent_runs w) = Some run" by (rule get_row_unique[OF assms]) simp
  then show ?thesis using True get_put_same[of rn_id "moved_run t code now run" "agent_runs w"] by simp
next
  case False
  then show ?thesis by (simp add: get_put_other)
qed

lemma replay_move:
  assumes ok: "replay_ok w" and u: "unique_by rn_id (agent_runs w)" and run: "run \<in> set (agent_runs w)"
    and t: "target \<in> set (run_transitions (rn_status run))"
    and w': "agent_runs w' = put_row rn_id (moved_run target code now run) (agent_runs w)"
      "agent_events w' = agent_events w @ es @ [e]" "\<forall>x\<in>set es. no_status x" "changes_status (rn_id run) (rn_status run) target e"
  shows "replay_ok w'"
proof -
  have es: "replay i (agent_events w @ es) = replay i (agent_events w)" for i
    using w'(3)
  proof (induction es rule: rev_induct)
    case (snoc x xs)
    then show ?case using replay_no_status[of x i "agent_events w @ xs"] by simp
  qed simp
  have "get_row rn_id (rn_id run) (agent_runs w) = Some run" by (rule get_row_unique[OF u run]) simp
  then have at: "replay (rn_id run) (agent_events w @ es) = At (rn_status run)" using ok by (simp add: es replay_ok_def)
  have "replay i (agent_events w') = (if i = rn_id run then At target else replay i (agent_events w))" for i
    using replay_changed[OF w'(4) t at, of i] by (simp add: w'(2) es)
  then show ?thesis using ok by (simp add: replay_ok_def w'(1) get_row_moved[OF u run])
qed

lemma step_replay_ok:
  assumes step: "agent_step E w w'" and logs: "logs_ok E w" and inj: "inj_on (uuid7 E) {..<next_id (core w')}" and runs: "runs_ok E w" and ok: "replay_ok w"
  shows "replay_ok w'"
proof -
  note R = runs_okD[OF runs]
  have "agent_effect E w w'" using step_effect[OF step logs inj] by auto
  then show ?thesis
  proof (cases rule: agent_effect.cases)
    case eff_none
    then show ?thesis using ok by (simp add: replay_ok_def same_tables_def)
  next
    case (eff_session e)
    then show ?thesis using ok by (simp add: replay_ok_def replay_no_status)
  next
    case (eff_run r item e)
    have "get_row rn_id (rn_id r) (agent_runs w) = None"
      using fresh_id[OF inj eff_run(2) R(2)] eff_run(1) by (auto simp: get_row_None_iff image_iff)
    then show ?thesis
      using ok replay_created[OF eff_run(15), of _ "agent_events w"]
      by (auto simp: replay_ok_def eff_run(6,9,14) get_row_append get_row_Cons split: option.split)
  next
    case (eff_move run target code now e)
    then show ?thesis by (intro replay_move[OF ok R(1), of run target w' code now "[]" e]) simp_all
  next
    case (eff_ask run q code now e1 e2)
    then show ?thesis by (intro replay_move[OF ok R(1), of run Run_WAITING_USER w' code now "[e1]" e2]) simp_all
  next
    case (eff_consume run q t code now actor payload sha item t' e1 e2)
    then show ?thesis by (intro replay_move[OF ok R(1), of run Run_QUEUED w' code now "[e1]" e2]) simp_all
  qed
qed

section \<open>Stored documents\<close>

text \<open>No document in the tables holds a private field.\<close>

definition docs_ok :: "agent_db \<Rightarrow> bool" where
  "docs_ok w \<longleftrightarrow> (\<forall>v\<in>set (agent_versions w). no_private (av_specification v)) \<and>
     (\<forall>s\<in>set (agent_sessions w). no_private (as_task_scope s)) \<and> (\<forall>r\<in>set (agent_runs w). no_private (rn_input_payload r)) \<and>
     (\<forall>q\<in>set (questions w). no_private (pq_context q) \<and> (\<forall>a. pq_answer_payload q = Some a \<longrightarrow> no_private a)) \<and>
     (\<forall>x\<in>set (session_inboxes w). no_private (si_payload x)) \<and> (\<forall>e\<in>set (agent_events w). no_private (ae_payload e))"

lemma step_versions:
  assumes "agent_step E w w'" "logs_ok E w" "inj_on (uuid7 E) {..<next_id (core w')}" "\<forall>v\<in>set (agent_versions w). no_private (av_specification v)"
  shows "\<forall>v\<in>set (agent_versions w'). no_private (av_specification v)"
  using assms
proof (induction rule: agent_step.induct)
  case (step_principal ws a n w p w')
  then show ?case
    by (auto simp: resolve_admin_principal_def bind_res_Inr_iff alloc_agent_def alloc_def Let_def split: option.split_asm prod.split_asm)
next
  case (step_definition dc clock w d w')
  then show ?case by (auto simp: create_definition_def bind_res_Inr_iff alloc_agent_def alloc_def Let_def split: if_split_asm)
next
  case (step_version i vp wanted clock w v w')
  then obtain v where "agent_versions w' = agent_versions w @ [v]" "no_private (av_specification v)"
    by (auto simp: publish_version_def bind_res_Inr_iff normalize_json_Inr alloc_agent_def alloc_def Let_def
        split: if_split_asm prod.split_asm)
  then show ?case using step_version.prems by simp
next
  case (step_session sc clock w ss w')
  have "agent_versions w' = agent_versions w"
    using created_session_tables[OF step_session.prems(1,2) step_session.hyps] by blast
  then show ?case using step_session.prems by simp
next
  case (step_run i nc wanted clock w r w')
  then show ?case using created_run_tables[OF step_run.prems(1) step_run.hyps] create_run_cases[OF step_run.hyps] by auto
next
  case (step_transition i nt wanted clock w r w')
  obtain run e where "agent_versions w' = agent_versions w"
    using transitioned_tables[OF step_transition.prems(1) step_transition.hyps] by blast
  then show ?case using step_transition.prems by simp
next
  case (step_ask i qc wanted clock w q w')
  have "agent_versions w' = agent_versions w" using asked_tables[OF step_ask.prems(1) step_ask.hyps] by blast
  then show ?case using step_ask.prems by simp
next
  case (step_answer i qa wanted clock w res w')
  obtain ss run q actor payload mode ar tr where l: "locked_question w i wanted = Inr (ss, run, q)"
    and c: "consume_answer E ss run q actor payload mode ar tr clock w = Inr (res, w')"
    using answered_cases[OF step_answer.hyps] by blast
  have "ss \<in> set (agent_sessions w)" using locked_question_Inr[OF l] by blast
  then have "agent_versions w' = agent_versions w" using consumed_tables[OF step_answer.prems(1) _ c] by blast
  then show ?case using step_answer.prems by simp
next
  case (step_override i qo actor wanted clock w res w')
  obtain ss run q actor payload mode ar tr where l: "locked_question w i wanted = Inr (ss, run, q)"
    and c: "consume_answer E ss run q actor payload mode ar tr clock w = Inr (res, w')"
    using overridden_cases[OF step_override.hyps] by blast
  have "ss \<in> set (agent_sessions w)" using locked_question_Inr[OF l] by blast
  then have "agent_versions w' = agent_versions w" using consumed_tables[OF step_override.prems(1) _ c] by blast
  then show ?case using step_override.prems by simp
qed simp_all

lemma step_docs_ok:
  assumes step: "agent_step E w w'" and logs: "logs_ok E w" and inj: "inj_on (uuid7 E) {..<next_id (core w')}" and ok: "docs_ok w"
  shows "docs_ok w'"
proof -
  have v: "\<forall>v\<in>set (agent_versions w'). no_private (av_specification v)"
    by (rule step_versions[OF step logs inj]) (use ok in \<open>simp add: docs_ok_def\<close>)
  have s: "\<forall>s\<in>set (agent_sessions w'). no_private (as_task_scope s)"
    using step_effect[OF step logs inj] by (simp add: logs_ok_def)
  have "agent_effect E w w'" using step_effect[OF step logs inj] by auto
  then show ?thesis
  proof (cases rule: agent_effect.cases)
    case eff_none
    then show ?thesis using ok v s by (simp add: docs_ok_def same_tables_def)
  next
    case (eff_session e)
    then show ?thesis using ok v s by (simp add: docs_ok_def)
  next
    case (eff_run r item e)
    then show ?thesis using ok v s by (simp add: docs_ok_def)
  next
    case (eff_move run target code now e)
    then show ?thesis using ok v s by (auto simp: docs_ok_def mem_put_row_iff)
  next
    case (eff_ask run q code now e1 e2)
    then show ?thesis using ok v s by (auto simp: docs_ok_def mem_put_row_iff)
  next
    case (eff_consume run q t code now actor payload sha item t' e1 e2)
    have "pq_context (answered_question actor payload sha (si_seq item) t' q) = pq_context q"
      "pq_answer_payload (answered_question actor payload sha (si_seq item) t' q) = Some payload"
      by (simp_all add: answered_question_def)
    then show ?thesis using eff_consume ok v s by (auto simp: docs_ok_def mem_put_row_iff)
  qed
qed

section \<open>Every reachable state\<close>

definition agent_ok :: "env \<Rightarrow> agent_db \<Rightarrow> bool" where
  "agent_ok E w \<longleftrightarrow> logs_ok E w \<and> runs_ok E w \<and> questions_ok E w \<and> answers_ok w \<and> replay_ok w \<and> docs_ok w"

lemma new_agent_db_ok: "agent_ok E (new_agent_db c)"
  by (simp add: agent_ok_def new_agent_db_def logs_ok_def runs_ok_def questions_ok_def answers_ok_def replay_ok_def replay_def
      docs_ok_def unique_by_def)

lemma agent_step_ok:
  assumes step: "agent_step E w w'" and inj: "inj_on (uuid7 E) {..<next_id (core w')}" and ok: "agent_ok E w"
  shows "agent_ok E w'"
proof -
  have l: "logs_ok E w" and r: "runs_ok E w" and q: "questions_ok E w" and a: "answers_ok w" and p: "replay_ok w" and d: "docs_ok w"
    using ok by (simp_all add: agent_ok_def)
  have "logs_ok E w'" using step_effect[OF step l inj] by simp
  then show ?thesis
    using step_runs_ok[OF step l inj r] step_questions_ok[OF step l inj r q] step_answers_ok[OF step l inj q a]
      step_replay_ok[OF step l inj r p] step_docs_ok[OF step l inj d]
    by (simp add: agent_ok_def)
qed

lemma consumed_next_id:
  assumes "consume_answer E ss run q actor payload mode answer_reason transition_reason clock w = Inr (res, w')"
  shows "next_id (core w) \<le> next_id (core w')"
proof -
  define sha where "sha = sha256_hex E (ascii_dumps E payload)"
  obtain item ss1 w1 where i: "append_inbox E ss (rn_id run) actor Ik_QUESTION_ANSWER (key_sorted payload) sha (Some (pq_id q)) w
      = (item, ss1, w1)" by (metis prod_cases3)
  show ?thesis
    using assms i append_inbox_tables[OF i]
    by (auto simp: consume_answer_def bind_res_Inr_iff normalize_json_Inr sha_def[symmetric] Let_def
        dest!: append_event_tables transition_tables)
qed

lemma agent_step_next_id: "agent_step E w w' \<Longrightarrow> next_id (core w) \<le> next_id (core w')"
proof (induction rule: agent_step.induct)
  case (step_principal ws a n w p w')
  then show ?case
    by (auto simp: resolve_admin_principal_def bind_res_Inr_iff alloc_agent_def alloc_def Let_def split: option.split_asm prod.split_asm)
next
  case (step_definition dc clock w d w')
  then show ?case by (auto simp: create_definition_def bind_res_Inr_iff alloc_agent_def alloc_def Let_def split: if_split_asm)
next
  case (step_version i vp wanted clock w v w')
  then show ?case
    by (auto simp: publish_version_def bind_res_Inr_iff alloc_agent_def alloc_def Let_def split: if_split_asm prod.split_asm)
next
  case (step_session sc clock w ss w')
  then show ?case
    by (auto simp: create_session_def bind_res_Inr_iff alloc_agent_def alloc_def Let_def split: prod.split_asm dest!: append_event_tables)
next
  case (step_run i nc wanted clock w r w')
  from create_run_cases[OF step_run] show ?case by (auto dest!: append_inbox_tables append_event_tables)
next
  case (step_transition i nt wanted clock w r w')
  then show ?case by (auto simp: transition_run_def bind_res_Inr_iff split: if_split_asm dest!: transition_tables)
next
  case (step_ask i qc wanted clock w q w')
  then show ?case
    by (auto simp: ask_question_def bind_res_Inr_iff alloc_agent_def alloc_def Let_def split: prod.split_asm if_split_asm
        dest!: append_event_tables transition_tables)
next
  case (step_answer i qa wanted clock w res w')
  then show ?case using answered_cases consumed_next_id by metis
next
  case (step_override i qo actor wanted clock w res w')
  then show ?case using overridden_cases consumed_next_id by metis
qed simp

lemma agent_runs_next_id: "agent_runs_to E w w' \<Longrightarrow> next_id (core w) \<le> next_id (core w')"
  unfolding agent_runs_to_def by (induction rule: rtranclp_induct) (auto dest: agent_step_next_id)

text \<open>
  The keys that the generator has handed out differ; that suffices, and \<open>uuid7\<close> promises it.
\<close>

lemma inj_on_earlier: "inj_on f {..<n} \<Longrightarrow> m \<le> n \<Longrightarrow> inj_on f {..<m :: nat}"
  by (meson inj_on_subset lessThan_subset_iff)

lemma agent_runs_ok:
  assumes "agent_runs_to E w w'" "inj_on (uuid7 E) {..<next_id (core w')}" "agent_ok E w"
  shows "agent_ok E w'"
  using assms(1,2) unfolding agent_runs_to_def
proof (induction rule: rtranclp_induct)
  case base
  show ?case by (rule assms(3))
next
  case (step t u)
  have "inj_on (uuid7 E) {..<next_id (core t)}"
    by (rule inj_on_earlier[OF step.prems agent_step_next_id[OF step.hyps(2)]])
  then show ?case using agent_step_ok[OF step.hyps(2) step.prems] step.IH by blast
qed
end
