(* ===== verification/Agent_Properties.thy ===== *)
theory Agent_Properties
  imports Agent_Invariants
begin

text \<open>
  The properties of the task agent, proved for every state its operations can reach, with a
  sample history that witnesses them.
\<close>


section \<open>Size of a document\<close>

text \<open>
  An escaped character takes at most six; so the events the service writes itself never exceed
  the limit on stored documents.
\<close>

lemma length_ascii_string: "length (ascii_string s) \<le> 2 + 6 * length s"
proof -
  have c: "length (ascii_char c) \<le> 6" for c
    by (simp add: ascii_char_def json_escape_char_def Let_def)
  have "length (concat (map ascii_char s)) \<le> 6 * length s"
  proof (induction s)
    case (Cons x s)
    then show ?case using c[of x] by simp
  qed simp
  then show ?thesis by (simp add: ascii_string_def)
qed

lemma length_join: "length (join sep xs) \<le> (\<Sum>x\<leftarrow>xs. length x + length sep)"
proof (cases xs)
  case (Cons y ys)
  have "length (concat (map (\<lambda>z. sep @ z) ys)) = (\<Sum>x\<leftarrow>ys. length x + length sep)"
    by (induction ys) simp_all
  then show ?thesis by (simp add: join_def Cons)
qed (simp add: join_def)

lemma sum_list_sort_key: "(\<Sum>x\<leftarrow>sort_key k xs. f x) = (\<Sum>x\<leftarrow>xs. f x :: nat)"
proof (induction xs)
  case (Cons a xs)
  have "(\<Sum>x\<leftarrow>insort_key k a ys. f x) = f a + (\<Sum>x\<leftarrow>ys. f x)" for ys by (induction ys) auto
  then show ?case using Cons by (simp add: sort_key_def)
qed simp

lemma length_dumps_obj:
  "length (ascii_dumps E (JObj kvs)) \<le> 2 + (\<Sum>kv\<leftarrow>kvs. 6 * length (fst kv) + 4 + length (ascii_dumps E (snd kv)))"
proof -
  let ?item = "\<lambda>(k, d). ascii_string k @ '':'' @ d"
  let ?kds = "map (\<lambda>(k, v). (k, ascii_dumps E v)) kvs"
  have "length (join '','' (map ?item (sort_key fst ?kds))) \<le> (\<Sum>x\<leftarrow>map ?item (sort_key fst ?kds). length x + length '','')"
    by (rule length_join)
  also have "\<dots> = (\<Sum>x\<leftarrow>sort_key fst ?kds. length (?item x) + 1)" by (simp add: o_def)
  also have "\<dots> = (\<Sum>x\<leftarrow>?kds. length (?item x) + 1)" by (rule sum_list_sort_key)
  also have "\<dots> \<le> (\<Sum>x\<leftarrow>?kds. 6 * length (fst x) + 4 + length (snd x))"
  proof (rule sum_list_mono)
    fix x assume "x \<in> set ?kds"
    show "length (?item x) + 1 \<le> 6 * length (fst x) + 4 + length (snd x)"
      using length_ascii_string[of "fst x"] by (cases x) simp
  qed
  also have "\<dots> = (\<Sum>kv\<leftarrow>kvs. 6 * length (fst kv) + 4 + length (ascii_dumps E (snd kv)))"
    by (simp add: o_def case_prod_beta)
  finally show ?thesis by simp
qed

lemma length_uuid_str: "length (uuid_str u) = 36"
  by (simp add: uuid_str_def Let_def)

lemma event_keys_public:
  "\<not> is_private_reasoning_key ''agent_version_id''" "\<not> is_private_reasoning_key ''requester_principal_id''"
  "\<not> is_private_reasoning_key ''task_scope_sha256''" "\<not> is_private_reasoning_key ''idempotency_key''"
  "\<not> is_private_reasoning_key ''input_sha256''" "\<not> is_private_reasoning_key ''inbox_seq''" "\<not> is_private_reasoning_key ''status''"
  "\<not> is_private_reasoning_key ''from''" "\<not> is_private_reasoning_key ''to''" "\<not> is_private_reasoning_key ''reason''"
  "\<not> is_private_reasoning_key ''error_code''" "\<not> is_private_reasoning_key ''allowed_principal_id''"
  "\<not> is_private_reasoning_key ''expires_at''" "\<not> is_private_reasoning_key ''answer_sha256''"
  "\<not> is_private_reasoning_key ''answer_mode''" "\<not> is_private_reasoning_key ''actor_principal_id''"
  by code_simp+

lemma append_event_succeeds:
  assumes "no_private (JObj kvs)" "(\<Sum>kv\<leftarrow>kvs. 6 * length (fst kv) + 4 + length (ascii_dumps E (snd kv))) \<le> 65534"
  shows "append_event E ss t (JObj kvs) run qn w =
    Inr (ss\<lparr>as_last_event_seq := as_last_event_seq ss + 1\<rparr>,
      w\<lparr>core := (core w)\<lparr>next_id := Suc (next_id (core w))\<rparr>,
        agent_sessions := put_row as_id (ss\<lparr>as_last_event_seq := as_last_event_seq ss + 1\<rparr>) (agent_sessions w),
        agent_events := agent_events w @ [\<lparr>ae_id = uuid7 E (next_id (core w)), ae_session_id = as_id ss,
          ae_seq = as_last_event_seq ss + 1, ae_run_id = run, ae_question_id = qn, ae_event_type = t,
          ae_payload = key_sorted (JObj kvs)\<rparr>]\<rparr>)"
proof -
  have "length (ascii_dumps E (JObj kvs)) \<le> max_persisted_json_bytes"
    using length_dumps_obj[of E kvs] assms(2) by (simp only: max_persisted_json_bytes_def)
  then have "normalize_json E (JObj kvs) ''event payload'' = Inr (key_sorted (JObj kvs), sha256_hex E (ascii_dumps E (JObj kvs)))"
    using assms(1) by (subst normalize_json_Inr) simp
  then show ?thesis by (simp add: append_event_def alloc_agent_def alloc_def Let_def)
qed

text \<open>A change of status fails only if the transition is not allowed or its reason is too long.\<close>

lemma length_opt_str: "length (ascii_dumps E (json_opt_str x)) \<le> 4 + 6 * (case x of None \<Rightarrow> 0 | Some s \<Rightarrow> length s)"
  using length_ascii_string[of "the x"] by (cases x) (auto simp: json_opt_str_def)

lemma length_run_status_str: "length (run_status_str s) \<le> 16"
  by (cases s) simp_all

lemma transition_succeeds:
  assumes "target \<in> set (run_transitions (rn_status run))"
    "(case reason of None \<Rightarrow> 0 | Some s \<Rightarrow> length s) \<le> 500" "(case code of None \<Rightarrow> 0 | Some s \<Rightarrow> length s) \<le> 100"
  shows "\<exists>w'. transition_locked E ss run target reason code now w = Inr (moved_run target code now run, w')"
proof -
  have "length (ascii_string (run_status_str s)) \<le> 98" for s
    using length_ascii_string[of "run_status_str s"] length_run_status_str[of s] by simp
  note b = this[of "rn_status run"] this[of target] length_opt_str[of E reason] length_opt_str[of E code]
  let ?kvs = "[(''from'', JStr (run_status_str (rn_status run))), (''to'', JStr (run_status_str target)),
        (''reason'', json_opt_str reason), (''error_code'', json_opt_str code)]"
  have p: "no_private (JObj ?kvs)" by (simp add: event_keys_public json_opt_str_def split: option.split)
  have l: "(\<Sum>kv\<leftarrow>?kvs. 6 * length (fst kv) + 4 + length (ascii_dumps E (snd kv))) \<le> 65534"
    using b assms(2,3) by simp
  show ?thesis
    using assms(1) append_event_succeeds[OF p l] by (simp add: transition_locked_def move_run_def Let_def)
qed

section \<open>A sample history\<close>

definition sample_workspace :: workspace where
  "sample_workspace = \<lparr>ws_id = 1, ws_name = ''w'', ws_slug = ''w'', ws_singleton_key = 1\<rparr>"

definition sample_user :: principal where
  "sample_user = \<lparr>pr_id = 7, pr_workspace_id = 1, pr_principal_type = Pr_CONTACT, pr_external_id = ''wxid'',
     pr_display_name = None, pr_active = True\<rparr>"

definition sample_agent_core :: "nat \<Rightarrow> db" where
  "sample_agent_core n = empty_db\<lparr>workspaces := [sample_workspace], principals := [sample_user], next_id := n\<rparr>"

definition sample_agent_definition :: agent_definition where
  "sample_agent_definition = \<lparr>ad_id = 1000, ad_workspace_id = 1, ad_definition_key = ''k'', ad_name = ''n'',
     ad_description = '''', ad_retired_at = None, ad_created_at = 0\<rparr>"

definition sample_version :: agent_version where
  "sample_version = \<lparr>av_id = 1001, av_definition_id = 1000, av_version_number = 1, av_specification = JObj [],
     av_specification_sha256 = ''{}'', av_published_by_principal_id = None, av_published_at = 0\<rparr>"

definition sample_session :: "int \<Rightarrow> int \<Rightarrow> agent_session" where
  "sample_session inbox event = \<lparr>as_id = 1002, as_workspace_id = 1, as_agent_version_id = 1001, as_requester_principal_id = 7,
     as_task_scope = JObj [], as_task_scope_sha256 = ''{}'', as_last_inbox_seq = inbox, as_last_event_seq = event, as_created_at = 0\<rparr>"

definition sample_run :: agent_run where
  "sample_run = \<lparr>rn_id = 1004, rn_session_id = 1002, rn_idempotency_key = ''r'', rn_input_payload = JObj [],
     rn_input_sha256 = ''{}'', rn_status = Run_QUEUED, rn_active_slot = Some 1, rn_started_at = None, rn_finished_at = None,
     rn_last_error_code = None, rn_created_at = 0\<rparr>"

text \<open>A definition, its version and a session; then a run; the run asks, and is answered.\<close>

definition sample_events :: "nat \<Rightarrow> agent_event list" where
  "sample_events n = take n
     [\<lparr>ae_id = 1003, ae_session_id = 1002, ae_seq = 1, ae_run_id = None, ae_question_id = None,
       ae_event_type = Ae_SESSION_CREATED, ae_payload = key_sorted (JObj [(''agent_version_id'', JStr (uuid_str 1001)),
         (''requester_principal_id'', JStr (uuid_str 7)), (''task_scope_sha256'', JStr ''{}'')])\<rparr>,
      \<lparr>ae_id = 1006, ae_session_id = 1002, ae_seq = 2, ae_run_id = Some 1004, ae_question_id = None,
       ae_event_type = Ae_RUN_CREATED, ae_payload = key_sorted (JObj [(''idempotency_key'', JStr ''r''),
         (''input_sha256'', JStr ''{}''), (''inbox_seq'', JInt 1), (''status'', JStr ''QUEUED'')])\<rparr>]"

definition sample_request_item :: session_inbox where
  "sample_request_item = \<lparr>si_id = 1005, si_session_id = 1002, si_seq = 1, si_kind = Ik_RUN_REQUEST, si_run_id = 1004,
     si_actor_principal_id = 7, si_question_id = None, si_payload = JObj [], si_payload_sha256 = ''{}''\<rparr>"

definition sample_idle :: agent_db where
  "sample_idle = \<lparr>core = sample_agent_core 4, agent_definitions = [sample_agent_definition], agent_versions = [sample_version],
     agent_sessions = [sample_session 0 1], agent_runs = [], questions = [], session_inboxes = [], agent_events = sample_events 1\<rparr>"

definition sample_queued :: agent_db where
  "sample_queued = sample_idle\<lparr>core := sample_agent_core 7, agent_sessions := [sample_session 1 2], agent_runs := [sample_run],
     session_inboxes := [sample_request_item], agent_events := sample_events 2\<rparr>"

definition sample_run_create :: agent_run_create where
  "sample_run_create = \<lparr>nc_idempotency_key = ''r'', nc_input_payload = JObj []\<rparr>"

lemma sample_env_sel: "uuid7 sample_env n = of_nat (1000 + n)" "sha256_hex sample_env = (\<lambda>x. x)"
  by (simp_all add: sample_env_def)

lemma normalize_empty: "normalize_json E (JObj []) f = Inr (JObj [], sha256_hex E ''{}'')"
  by (simp add: normalize_json_Inr max_persisted_json_bytes_def join_def)

lemma sample_core_sel [simp]: "workspaces (sample_agent_core n) = [sample_workspace]" "principals (sample_agent_core n) = [sample_user]"
  "next_id (sample_agent_core n) = n" "(sample_agent_core n)\<lparr>next_id := m\<rparr> = sample_agent_core m"
  by (simp_all add: sample_agent_core_def)

lemma alloc_sample: "alloc_agent sample_env w = (of_nat (1000 + next_id (core w)), w\<lparr>core := (core w)\<lparr>next_id := Suc (next_id (core w))\<rparr>\<rparr>)"
  by (simp add: alloc_agent_def alloc_def sample_env_sel Let_def)

lemmas sample_agent_defs = sample_workspace_def sample_user_def sample_agent_definition_def sample_version_def sample_session_def

lemma sample_idle_reached: "agent_runs_to sample_env (new_agent_db (sample_agent_core 0)) sample_idle"
proof -
  let ?w0 = "new_agent_db (sample_agent_core 0)"
  let ?w1 = "?w0\<lparr>core := sample_agent_core 1, agent_definitions := [sample_agent_definition]\<rparr>"
  let ?w2 = "?w1\<lparr>core := sample_agent_core (Suc 1), agent_versions := [sample_version]\<rparr>"
  have "create_definition sample_env \<lparr>dc_workspace_id = 1, dc_definition_key = ''k'', dc_name = ''n'', dc_description = ''''\<rparr>
      [] (\<lambda>_. 0) ?w0 = Inr (sample_agent_definition, ?w1)"
    by (simp add: create_definition_def locked_workspace_def new_agent_db_def alloc_sample sample_agent_defs Let_def)
  then have 1: "agent_step sample_env ?w0 ?w1" by (rule step_definition)
  have "publish_version sample_env 1000 \<lparr>vp_specification = JObj [], vp_published_by_principal_id = None\<rparr> None [] (\<lambda>_. 0) ?w1
      = Inr (sample_version, ?w2)"
    by (simp add: publish_version_def get_definition_def get_row_Cons locked_workspace_def new_agent_db_def alloc_sample
        sample_agent_defs normalize_empty sample_env_sel Let_def)
  then have 2: "agent_step sample_env ?w1 ?w2" by (rule step_version)
  have "create_session sample_env \<lparr>sc_workspace_id = 1, sc_agent_version_id = 1001, sc_requester_principal_id = 7,
      sc_task_scope = JObj []\<rparr> (\<lambda>_. 0) ?w2 = Inr (sample_session 0 1, sample_idle)"
  proof -
    let ?kvs = "[(''agent_version_id'', JStr (uuid_str 1001)), (''requester_principal_id'', JStr (uuid_str 7)),
      (''task_scope_sha256'', JStr ''{}'')]"
    have p: "no_private (JObj ?kvs)" by (simp add: event_keys_public)
    have l: "(\<Sum>kv\<leftarrow>?kvs. 6 * length (fst kv) + 4 + length (ascii_dumps sample_env (snd kv))) \<le> 65534"
      using length_ascii_string[of "uuid_str 1001"] length_ascii_string[of "uuid_str 7"] length_ascii_string[of "''{}''"]
      by (simp add: length_uuid_str)
    show ?thesis
      by (simp add: create_session_def get_row_Cons locked_workspace_def new_agent_db_def alloc_sample
        version_in_workspace_def require_principal_def append_event_succeeds[OF p l] sample_idle_def sample_events_def put_row_def
        sample_agent_defs normalize_empty sample_env_sel Let_def eval_nat_numeral del: key_sorted.simps)
  qed
  then have 3: "agent_step sample_env ?w2 sample_idle" by (rule step_session)
  show ?thesis using 1 2 3 unfolding agent_runs_to_def by (meson converse_rtranclp_into_rtranclp rtranclp.rtrancl_refl)
qed

lemma sample_create_run: "create_run sample_env 1002 sample_run_create None [] (\<lambda>_. 0) sample_idle = Inr (sample_run, sample_queued)"
proof -
  let ?kvs = "[(''idempotency_key'', JStr ''r''), (''input_sha256'', JStr ''{}''), (''inbox_seq'', JInt 1), (''status'', JStr ''QUEUED'')]"
  have p: "no_private (JObj ?kvs)" by (simp add: event_keys_public)
  have "length (int_str 1) = 1" by (simp add: int_str_def nat_str.simps)
  then have l: "(\<Sum>kv\<leftarrow>?kvs. 6 * length (fst kv) + 4 + length (ascii_dumps sample_env (snd kv))) \<le> 65534"
    using length_ascii_string[of "''r''"] length_ascii_string[of "''{}''"] length_ascii_string[of "''QUEUED''"] by simp
  show ?thesis
    by (simp add: create_run_def sample_run_create_def get_row_Cons locked_workspace_def locked_session_def alloc_sample
      append_inbox_def append_event_succeeds[OF p l] sample_idle_def sample_queued_def sample_events_def put_row_def run_of_key_def active_run_def
      sample_request_item_def sample_run_def
      sample_agent_defs normalize_empty sample_env_sel Let_def eval_nat_numeral del: key_sorted.simps)
qed

lemma sample_queued_reached: "agent_runs_to sample_env (new_agent_db (sample_agent_core 0)) sample_queued"
  using sample_idle_reached step_run[OF sample_create_run] unfolding agent_runs_to_def by (rule rtranclp.rtrancl_into_rtrancl)

lemma sample_ids_differ: "n \<le> 1000 \<Longrightarrow> inj_on (uuid7 sample_env) {..<n}"
proof (rule inj_onI)
  fix i j assume n: "n \<le> 1000" and ij: "i \<in> {..<n}" "j \<in> {..<n}" "uuid7 sample_env i = uuid7 sample_env j"
  have u: "unat (of_nat m :: uuid) = m" if "m < 2000" for m
    using that by (simp add: unat_of_nat take_bit_nat_def)
  have "(of_nat (1000 + i) :: uuid) = of_nat (1000 + j)" using ij(3) by (simp only: sample_env_sel(1))
  moreover have "1000 + i < 2000" "1000 + j < 2000" using n ij(1,2) by simp_all
  ultimately have "1000 + i = 1000 + j" using u by metis
  then show "i = j" by simp
qed

definition sample_status_event :: "nat \<Rightarrow> int \<Rightarrow> run_status \<Rightarrow> run_status \<Rightarrow> string option \<Rightarrow> agent_event" where
  "sample_status_event i n old new reason = \<lparr>ae_id = of_nat i, ae_session_id = 1002, ae_seq = n, ae_run_id = Some 1004,
     ae_question_id = None, ae_event_type = Ae_RUN_STATUS_CHANGED,
     ae_payload = key_sorted (JObj [(''from'', JStr (run_status_str old)), (''to'', JStr (run_status_str new)),
       (''reason'', json_opt_str reason), (''error_code'', json_opt_str None)])\<rparr>"

definition sample_running :: agent_db where
  "sample_running = sample_queued\<lparr>core := sample_agent_core 8, agent_sessions := [sample_session 1 3],
     agent_runs := [sample_run\<lparr>rn_status := Run_RUNNING, rn_started_at := Some 0\<rparr>],
     agent_events := sample_events 2 @ [sample_status_event 1007 3 Run_QUEUED Run_RUNNING None]\<rparr>"

definition sample_question :: pending_question where
  "sample_question = \<lparr>pq_id = 1008, pq_session_id = 1002, pq_run_id = 1004, pq_allowed_principal_id = 7, pq_prompt = ''p'',
     pq_context = JObj [], pq_status = Qs_PENDING, pq_open_slot = Some 1, pq_expires_at = 100, pq_answered_at = None,
     pq_answered_by_principal_id = None, pq_answer_payload = None, pq_answer_sha256 = None, pq_answer_inbox_seq = None,
     pq_closed_at = None, pq_created_at = 0\<rparr>"

definition sample_asked :: agent_db where
  "sample_asked = sample_running\<lparr>core := sample_agent_core 11, agent_sessions := [sample_session 1 5],
     agent_runs := [sample_run\<lparr>rn_status := Run_WAITING_USER, rn_started_at := Some 0\<rparr>], questions := [sample_question],
     agent_events := agent_events sample_running @ [
       \<lparr>ae_id = 1009, ae_session_id = 1002, ae_seq = 4, ae_run_id = Some 1004, ae_question_id = Some 1008,
        ae_event_type = Ae_QUESTION_ASKED, ae_payload = key_sorted (JObj [(''allowed_principal_id'', JStr (uuid_str 7)),
          (''expires_at'', JStr (isoformat sample_env 100))])\<rparr>,
       sample_status_event 1010 5 Run_RUNNING Run_WAITING_USER (Some ''pending user answer'')]\<rparr>"

lemma append_status_event:
  assumes "length (run_status_str old) \<le> 16" "length (run_status_str new) \<le> 16" "(case reason of None \<Rightarrow> 0 | Some s \<Rightarrow> length s) \<le> 500"
  shows "append_event E ss t (JObj [(''from'', JStr (run_status_str old)), (''to'', JStr (run_status_str new)),
       (''reason'', json_opt_str reason), (''error_code'', json_opt_str None)]) run qn w =
    Inr (ss\<lparr>as_last_event_seq := as_last_event_seq ss + 1\<rparr>,
      w\<lparr>core := (core w)\<lparr>next_id := Suc (next_id (core w))\<rparr>,
        agent_sessions := put_row as_id (ss\<lparr>as_last_event_seq := as_last_event_seq ss + 1\<rparr>) (agent_sessions w),
        agent_events := agent_events w @ [\<lparr>ae_id = uuid7 E (next_id (core w)), ae_session_id = as_id ss,
          ae_seq = as_last_event_seq ss + 1, ae_run_id = run, ae_question_id = qn, ae_event_type = t,
          ae_payload = key_sorted (JObj [(''from'', JStr (run_status_str old)), (''to'', JStr (run_status_str new)),
             (''reason'', json_opt_str reason), (''error_code'', json_opt_str None)])\<rparr>]\<rparr>)"
proof (rule append_event_succeeds)
  show "no_private (JObj [(''from'', JStr (run_status_str old)), (''to'', JStr (run_status_str new)),
       (''reason'', json_opt_str reason), (''error_code'', json_opt_str None)])"
    by (simp add: event_keys_public json_opt_str_def split: option.split)
  show "(\<Sum>kv\<leftarrow>[(''from'', JStr (run_status_str old)), (''to'', JStr (run_status_str new)),
       (''reason'', json_opt_str reason), (''error_code'', json_opt_str None)].
       6 * length (fst kv) + 4 + length (ascii_dumps E (snd kv))) \<le> 65534"
    using length_ascii_string[of "run_status_str old"] length_ascii_string[of "run_status_str new"]
      length_opt_str[of E reason] length_opt_str[of E None] assms by simp
qed

lemma sample_transition:
  "transition_run sample_env 1004 \<lparr>nt_status = Run_RUNNING, nt_reason = None, nt_error_code = None\<rparr> None (\<lambda>_. 0) sample_queued =
     Inr (sample_run\<lparr>rn_status := Run_RUNNING, rn_started_at := Some 0\<rparr>, sample_running)"
  using append_status_event[of Run_QUEUED Run_RUNNING None sample_env "sample_session 1 2" Ae_RUN_STATUS_CHANGED "Some 1004" None
      "sample_queued\<lparr>agent_runs := [sample_run\<lparr>rn_status := Run_RUNNING, rn_started_at := Some 0\<rparr>]\<rparr>"]
  by (simp add: transition_run_def locked_run_def locked_workspace_def get_row_Cons sample_queued_def sample_idle_def sample_running_def
      sample_run_def sample_session_def sample_workspace_def transition_locked_def move_run_def moved_run_def put_row_def Let_def
      sample_status_event_def sample_env_sel terminal_run_statuses_def active_run_statuses_def eval_nat_numeral
      del: key_sorted.simps)

lemma sample_running_reached: "agent_runs_to sample_env (new_agent_db (sample_agent_core 0)) sample_running"
  using sample_queued_reached step_transition[OF sample_transition] unfolding agent_runs_to_def by (rule rtranclp.rtrancl_into_rtrancl)

definition sample_question_create :: pending_question_create where
  "sample_question_create = \<lparr>qc_allowed_principal_id = 7, qc_prompt = ''p'', qc_context = JObj [], qc_expires_at = Aware 100 0\<rparr>"

lemma sample_ask: "ask_question sample_env 1004 sample_question_create None [] (\<lambda>_. 0) sample_running = Inr (sample_question, sample_asked)"
proof -
  let ?kvs = "[(''allowed_principal_id'', JStr (uuid_str 7)), (''expires_at'', JStr (isoformat sample_env 100))]"
  have p: "no_private (JObj ?kvs)" by (simp add: event_keys_public)
  have "length (isoformat sample_env 100) = 3" by (simp add: sample_env_def int_str_def nat_str.simps)
  then have l: "(\<Sum>kv\<leftarrow>?kvs. 6 * length (fst kv) + 4 + length (ascii_dumps sample_env (snd kv))) \<le> 65534"
    using length_ascii_string[of "uuid_str 7"] length_ascii_string[of "isoformat sample_env 100"] by (simp add: length_uuid_str)
  show ?thesis
    using append_status_event[of Run_RUNNING Run_WAITING_USER "Some ''pending user answer''" sample_env "sample_session 1 4"
      Ae_RUN_STATUS_CHANGED "Some 1004" None
      "sample_running\<lparr>core := sample_agent_core 10, agent_sessions := [sample_session 1 4],
        agent_runs := [sample_run\<lparr>rn_status := Run_WAITING_USER, rn_started_at := Some 0\<rparr>], questions := [sample_question],
        agent_events := agent_events sample_running @ [
       \<lparr>ae_id = 1009, ae_session_id = 1002, ae_seq = 4, ae_run_id = Some 1004, ae_question_id = Some 1008,
        ae_event_type = Ae_QUESTION_ASKED, ae_payload = key_sorted (JObj ?kvs)\<rparr>]\<rparr>"]
    by (simp add: ask_question_def sample_question_create_def locked_run_def locked_workspace_def get_row_Cons require_principal_def
      open_question_def sample_queued_def sample_idle_def sample_running_def alloc_sample normalize_empty append_event_succeeds[OF p l]
      sample_user_def sample_asked_def sample_question_def
      sample_run_def sample_session_def sample_workspace_def transition_locked_def move_run_def moved_run_def put_row_def Let_def
      sample_status_event_def sample_env_sel terminal_run_statuses_def active_run_statuses_def eval_nat_numeral
      del: key_sorted.simps)
qed

lemma sample_asked_reached: "agent_runs_to sample_env (new_agent_db (sample_agent_core 0)) sample_asked"
  using sample_running_reached step_ask[OF sample_ask] unfolding agent_runs_to_def by (rule rtranclp.rtrancl_into_rtrancl)

section \<open>What later steps keep\<close>

lemma step_keeps_runs:
  assumes step: "agent_step E w w'" and logs: "logs_ok E w" and inj: "inj_on (uuid7 E) {..<next_id (core w')}" and ok: "runs_ok E w"
    and r: "r \<in> set (agent_runs w)"
  shows "\<exists>r'\<in>set (agent_runs w'). rn_id r' = rn_id r \<and> rn_session_id r' = rn_session_id r \<and>
    rn_idempotency_key r' = rn_idempotency_key r \<and> rn_input_payload r' = rn_input_payload r \<and>
    rn_input_sha256 r' = rn_input_sha256 r \<and> (rn_status r \<in> set terminal_run_statuses \<longrightarrow> r' = r)"
proof -
  have moved: ?thesis if run: "run \<in> set (agent_runs w)" "target \<in> set (run_transitions (rn_status run))"
    and w': "agent_runs w' = put_row rn_id (moved_run target code now run) (agent_runs w)" for run target code now
  proof (cases "rn_id r = rn_id run")
    case True
    then have "r = run" using unique_row[OF runs_okD(1)[OF ok] r run(1)] by simp
    moreover have "moved_run target code now run \<in> set (agent_runs w')"
      unfolding w' by (rule mem_put_row_self[OF run(1)]) simp
    ultimately show ?thesis using transitions_nonterminal[OF run(2)] by (intro bexI[of _ "moved_run target code now run"]) simp_all
  next
    case False
    then have "r \<in> set (agent_runs w')" using r by (auto simp: w' mem_put_row_iff)
    then show ?thesis by blast
  qed
  have "agent_effect E w w'" using step_effect[OF step logs inj] by auto
  then show ?thesis
  proof (cases rule: agent_effect.cases)
    case (eff_move run target code now e)
    then show ?thesis by (intro moved)
  next
    case (eff_ask run q code now e1 e2)
    then show ?thesis by (intro moved[of run Run_WAITING_USER code now]) simp_all
  next
    case (eff_consume run q t code now actor payload sha item t' e1 e2)
    then show ?thesis by (intro moved[of run Run_QUEUED code now]) simp_all
  qed (use r in \<open>auto simp: same_tables_def\<close>)
qed

lemma step_appends:
  assumes "agent_step E w w'" "logs_ok E w" "inj_on (uuid7 E) {..<next_id (core w')}"
  shows "\<exists>xs ys. session_inboxes w' = session_inboxes w @ xs \<and> agent_events w' = agent_events w @ ys"
proof -
  have "agent_effect E w w'" using step_effect[OF assms] by auto
  then show ?thesis by (cases rule: agent_effect.cases) (auto simp: same_tables_def)
qed

text \<open>Along a whole run, with the invariant at hand at each step.\<close>

lemma agent_runs_keep:
  assumes run: "agent_runs_to E w w'" and inj: "inj_on (uuid7 E) {..<next_id (core w')}" and ok: "agent_ok E w"
    and refl: "\<And>v. P v v" and trans: "\<And>u v x. P u v \<Longrightarrow> P v x \<Longrightarrow> P u x"
    and step: "\<And>u v. agent_step E u v \<Longrightarrow> inj_on (uuid7 E) {..<next_id (core v)} \<Longrightarrow> agent_ok E u \<Longrightarrow> P u v"
  shows "P w w'"
  using run inj unfolding agent_runs_to_def
proof (induction rule: rtranclp_induct)
  case base
  show ?case by (rule refl)
next
  case (step u v)
  have i: "inj_on (uuid7 E) {..<next_id (core u)}"
    by (rule inj_on_earlier[OF step.prems agent_step_next_id[OF step.hyps(2)]])
  have "agent_ok E u" by (rule agent_runs_ok[OF _ i ok]) (use step.hyps(1) in \<open>simp add: agent_runs_to_def\<close>)
  then have "P u v" by (rule assms(6)[OF step.hyps(2) step.prems])
  then show ?case using trans step.IH[OF i] by blast
qed

definition keeps_runs :: "agent_db \<Rightarrow> agent_db \<Rightarrow> bool" where
  "keeps_runs w w' \<longleftrightarrow> (\<forall>r\<in>set (agent_runs w). \<exists>r'\<in>set (agent_runs w'). rn_id r' = rn_id r \<and> rn_session_id r' = rn_session_id r \<and>
    rn_idempotency_key r' = rn_idempotency_key r \<and> rn_input_payload r' = rn_input_payload r \<and>
    rn_input_sha256 r' = rn_input_sha256 r \<and> (rn_status r \<in> set terminal_run_statuses \<longrightarrow> r' = r))"

lemma agent_runs_keep_runs:
  assumes "agent_runs_to E w w'" "inj_on (uuid7 E) {..<next_id (core w')}" "agent_ok E w"
  shows "keeps_runs w w'"
proof (rule agent_runs_keep[OF assms])
  show "keeps_runs u v" if "agent_step E u v" "inj_on (uuid7 E) {..<next_id (core v)}" "agent_ok E u" for u v
    using step_keeps_runs[OF that(1) _ that(2)] that(3) unfolding keeps_runs_def agent_ok_def by blast
  show "keeps_runs u x" if uv: "keeps_runs u v" and vx: "keeps_runs v x" for u v x
    unfolding keeps_runs_def
  proof
    fix r assume "r \<in> set (agent_runs u)"
    then obtain r1 where r1: "r1 \<in> set (agent_runs v)" "rn_id r1 = rn_id r" "rn_session_id r1 = rn_session_id r"
      "rn_idempotency_key r1 = rn_idempotency_key r" "rn_input_payload r1 = rn_input_payload r"
      "rn_input_sha256 r1 = rn_input_sha256 r" "rn_status r \<in> set terminal_run_statuses \<longrightarrow> r1 = r"
      using uv unfolding keeps_runs_def by blast
    obtain r2 where r2: "r2 \<in> set (agent_runs x)" "rn_id r2 = rn_id r1" "rn_session_id r2 = rn_session_id r1"
      "rn_idempotency_key r2 = rn_idempotency_key r1" "rn_input_payload r2 = rn_input_payload r1"
      "rn_input_sha256 r2 = rn_input_sha256 r1" "rn_status r1 \<in> set terminal_run_statuses \<longrightarrow> r2 = r1"
      using vx r1(1) unfolding keeps_runs_def by blast
    show "\<exists>r'\<in>set (agent_runs x). rn_id r' = rn_id r \<and> rn_session_id r' = rn_session_id r \<and>
      rn_idempotency_key r' = rn_idempotency_key r \<and> rn_input_payload r' = rn_input_payload r \<and>
      rn_input_sha256 r' = rn_input_sha256 r \<and> (rn_status r \<in> set terminal_run_statuses \<longrightarrow> r' = r)"
      by (rule bexI[OF _ r2(1)]) (use r1 r2 in auto)
  qed
qed (auto simp: keeps_runs_def)

definition keeps_answers :: "agent_db \<Rightarrow> agent_db \<Rightarrow> bool" where
  "keeps_answers w w' \<longleftrightarrow> (\<forall>q\<in>set (questions w). pq_status q \<noteq> Qs_PENDING \<longrightarrow> q \<in> set (questions w'))"

lemma agent_runs_keep_answers:
  assumes "agent_runs_to E w w'" "inj_on (uuid7 E) {..<next_id (core w')}" "agent_ok E w"
  shows "keeps_answers w w'"
proof (rule agent_runs_keep[OF assms])
  show "keeps_answers u v" if "agent_step E u v" "inj_on (uuid7 E) {..<next_id (core v)}" "agent_ok E u" for u v
    using step_keeps_questions[OF that(1) _ that(2)] that(3) unfolding keeps_answers_def agent_ok_def by blast
qed (auto simp: keeps_answers_def)

definition appends :: "agent_db \<Rightarrow> agent_db \<Rightarrow> bool" where
  "appends w w' \<longleftrightarrow> (\<exists>xs ys. session_inboxes w' = session_inboxes w @ xs \<and> agent_events w' = agent_events w @ ys)"

lemma agent_runs_append:
  assumes "agent_runs_to E w w'" "inj_on (uuid7 E) {..<next_id (core w')}" "agent_ok E w"
  shows "appends w w'"
proof (rule agent_runs_keep[OF assms])
  show "appends u v" if "agent_step E u v" "inj_on (uuid7 E) {..<next_id (core v)}" "agent_ok E u" for u v
    using step_appends[OF that(1) _ that(2)] that(3) unfolding appends_def agent_ok_def by blast
qed (auto simp: appends_def)

lemma reachable_ok:
  "agent_runs_to E (new_agent_db c) w \<Longrightarrow> inj_on (uuid7 E) {..<next_id (core w)} \<Longrightarrow> agent_ok E w"
  by (rule agent_runs_ok[OF _ _ new_agent_db_ok])

section \<open>Properties\<close>

text \<open>
  C34: In every state the operations reach, a session has at most one run that has not ended and
  at most one run per idempotency key; a question is open only while its run waits for the user,
  and it is the only open question of the run.
\<close>

theorem one_active_run_one_open_question:
  assumes run: "agent_runs_to E (new_agent_db c) w" and keys: "inj_on (uuid7 E) {..<next_id (core w)}"
  shows "(\<forall>r\<in>set (agent_runs w). \<forall>r'\<in>set (agent_runs w). rn_session_id r = rn_session_id r' \<longrightarrow>
      rn_idempotency_key r = rn_idempotency_key r' \<or>
      rn_status r \<notin> set terminal_run_statuses \<and> rn_status r' \<notin> set terminal_run_statuses \<longrightarrow> r = r') \<and>
    (\<forall>q\<in>set (questions w). pq_status q = Qs_PENDING \<longrightarrow>
      (\<exists>r\<in>set (agent_runs w). rn_id r = pq_run_id q \<and> rn_session_id r = pq_session_id q \<and> rn_status r = Run_WAITING_USER) \<and>
      (\<forall>q'\<in>set (questions w). pq_run_id q' = pq_run_id q \<and> pq_status q' = Qs_PENDING \<longrightarrow> q' = q))"
proof -
  have r: "runs_ok E w" and q: "questions_ok E w" using reachable_ok[OF run keys] by (simp_all add: agent_ok_def)
  note R = runs_okD[OF r] and Q = questions_okD[OF q]
  show ?thesis
  proof (intro conjI ballI impI)
    show "x = y" if x: "x \<in> set (agent_runs w)" and y: "y \<in> set (agent_runs w)" and s: "rn_session_id x = rn_session_id y"
      and d: "rn_idempotency_key x = rn_idempotency_key y \<or>
        rn_status x \<notin> set terminal_run_statuses \<and> rn_status y \<notin> set terminal_run_statuses" for x y
      using R(5)[OF x y s] R(4)[OF x] R(4)[OF y] d unique_row[OF R(1) x y] by auto
    show "\<exists>r\<in>set (agent_runs w). rn_id r = pq_run_id p \<and> rn_session_id r = pq_session_id p \<and> rn_status r = Run_WAITING_USER"
      if "p \<in> set (questions w)" "pq_status p = Qs_PENDING" for p
      using Q(4)[OF that(1)] that(2) by blast
    show "p' = p" if p: "p \<in> set (questions w)" "pq_status p = Qs_PENDING" and p': "p' \<in> set (questions w)"
      "pq_run_id p' = pq_run_id p \<and> pq_status p' = Qs_PENDING" for p p'
      using unique_row[OF Q(1) p'(1) p(1)] Q(5)[OF p'(1) p(1)] p'(2) p(2) by blast
  qed
qed

theorem one_active_run_one_open_question_witness:
  "{q' \<in> set (questions sample_asked). pq_run_id q' = 1004 \<and> pq_status q' = Qs_PENDING} = {sample_question} \<and>
   (\<exists>r\<in>set (agent_runs sample_asked). rn_id r = 1004 \<and> rn_status r = Run_WAITING_USER)"
proof -
  have k: "inj_on (uuid7 sample_env) {..<next_id (core sample_asked)}" by (rule sample_ids_differ) (simp add: sample_asked_def)
  have q: "sample_question \<in> set (questions sample_asked)" by (simp add: sample_asked_def)
  have s: "pq_status sample_question = Qs_PENDING" "pq_run_id sample_question = 1004" by (simp_all add: sample_question_def)
  show ?thesis
    using one_active_run_one_open_question[OF sample_asked_reached k, THEN conjunct2, rule_format, OF q s(1)] q s by auto
qed

text \<open>
  The inbox and the event log of a session are append-only and have no gaps: their items are
  numbered from one in the order they were written, the session row carries the last numbers,
  and whatever is written later comes after what is there.
\<close>

theorem session_logs_are_gapless:
  assumes run: "agent_runs_to E (new_agent_db c) w" and later: "agent_runs_to E w w'"
    and keys: "inj_on (uuid7 E) {..<next_id (core w')}"
  shows "(\<forall>ss\<in>set (agent_sessions w').
      map si_seq (filter (\<lambda>x. si_session_id x = as_id ss) (session_inboxes w')) = [1..as_last_inbox_seq ss] \<and>
      map ae_seq (filter (\<lambda>x. ae_session_id x = as_id ss) (agent_events w')) = [1..as_last_event_seq ss]) \<and>
    (\<exists>xs ys. session_inboxes w' = session_inboxes w @ xs \<and> agent_events w' = agent_events w @ ys)"
proof -
  have ok: "agent_ok E w" by (rule reachable_ok[OF run inj_on_earlier[OF keys agent_runs_next_id[OF later]]])
  have ok': "agent_ok E w'" by (rule agent_runs_ok[OF later keys ok])
  then show ?thesis
    using agent_runs_append[OF later keys ok] unfolding agent_ok_def logs_ok_def numbered_def appends_def by blast
qed

theorem session_logs_are_gapless_witness:
  "map ae_seq (filter (\<lambda>x. ae_session_id x = 1002) (agent_events sample_asked)) = [1..5]"
proof -
  have k: "inj_on (uuid7 sample_env) {..<next_id (core sample_asked)}" by (rule sample_ids_differ) (simp add: sample_asked_def)
  have later: "agent_runs_to sample_env sample_asked sample_asked" by (simp add: agent_runs_to_def)
  have s: "sample_session 1 5 \<in> set (agent_sessions sample_asked)" "as_id (sample_session 1 5) = 1002"
    "as_last_event_seq (sample_session 1 5) = 5"
    by (simp_all add: sample_asked_def sample_session_def)
  show ?thesis
    using session_logs_are_gapless[OF sample_asked_reached later k, THEN conjunct1, rule_format, OF s(1)] s(2,3) by simp
qed

text \<open>
  C36: The event log alone tells the status of every run: replaying the events of a run, each
  change of status starting from the status reached so far and allowed by the transition table,
  ends in the status its row has; and the log mentions no run that does not exist.
\<close>

theorem log_tells_status:
  assumes run: "agent_runs_to E (new_agent_db c) w" and keys: "inj_on (uuid7 E) {..<next_id (core w)}"
  shows "replay i (agent_events w) = (case get_row rn_id i (agent_runs w) of None \<Rightarrow> Absent | Some r \<Rightarrow> At (rn_status r))"
  using reachable_ok[OF run keys] by (simp add: agent_ok_def replay_ok_def)

theorem log_tells_status_witness: "replay 1004 (agent_events sample_asked) = At Run_WAITING_USER"
proof -
  have k: "inj_on (uuid7 sample_env) {..<next_id (core sample_asked)}" by (rule sample_ids_differ) (simp add: sample_asked_def)
  show ?thesis
    using log_tells_status[OF sample_asked_reached k, of 1004] by (simp add: sample_asked_def sample_run_def get_row_Cons)
qed

lemma answer_refused:
  assumes "\<And>ss r q. locked_question w i wanted = Inr (ss, r, q) \<Longrightarrow> \<exists>e. validate_answerable q r (clock 0) = Inl e"
  shows "(\<exists>e. answer_question E i p wanted clock w = Inl e) \<and> (\<exists>e. override_answer_question E i p' actor wanted clock w = Inl e)"
proof (cases "locked_question w i wanted")
  case (Inr x)
  obtain ss r q where x: "x = (ss, r, q)" by (metis prod_cases3)
  then obtain e where "validate_answerable q r (clock 0) = Inl e" using assms Inr by blast
  then show ?thesis using Inr x by (simp add: answer_question_def override_answer_question_def)
qed (simp add: answer_question_def override_answer_question_def)


definition sample_answer :: pending_question_answer where
  "sample_answer = \<lparr>qa_principal_id = 7, qa_answer_payload = JObj []\<rparr>"

lemma sample_answer_accepted: "\<exists>res w. answer_question sample_env 1008 sample_answer None (\<lambda>_. 0) sample_asked = Inr (res, w) \<and>
   next_id (core w) \<le> 1000"
proof -
  let ?ss = "sample_session 1 5" and ?r = "sample_run\<lparr>rn_status := Run_WAITING_USER, rn_started_at := Some 0\<rparr>"
  have l: "locked_question sample_asked 1008 None = Inr (?ss, ?r, sample_question)"
    by (simp add: locked_question_def locked_workspace_def get_row_Cons sample_asked_def sample_running_def sample_queued_def sample_idle_def
        sample_run_def sample_session_def sample_question_def sample_workspace_def)
  have v: "validate_answerable sample_question ?r 0 = Inr ()"
    by (simp add: validate_answerable_def sample_question_def sample_run_def)
  have rp: "require_principal sample_asked 7 1 = Inr sample_user"
    by (simp add: require_principal_def get_row_Cons sample_asked_def sample_user_def)
  have sel: "rn_id sample_run = 1004" "as_workspace_id (sample_session 1 5) = 1" "as_last_inbox_seq (sample_session 1 5) = 1"
    "pq_id sample_question = 1008" "pq_allowed_principal_id sample_question = 7" "next_id (core sample_asked) = 11"
    by (simp_all add: sample_run_def sample_session_def sample_question_def sample_asked_def)
  let ?kvs = "[(''answer_sha256'', JStr ''{}''), (''inbox_seq'', JInt 2), (''answer_mode'', JStr ''RUNTIME_PRINCIPAL''),
                   (''actor_principal_id'', JStr (uuid_str 7)), (''reason'', json_opt_str None)]"
  have p: "no_private (JObj ?kvs)" by (simp add: event_keys_public json_opt_str_def)
  have "length (int_str 2) = 1" by (simp add: int_str_def nat_str.simps)
  then have b: "(\<Sum>kv\<leftarrow>?kvs. 6 * length (fst kv) + 4 + length (ascii_dumps sample_env (snd kv))) \<le> 65534"
    using length_ascii_string[of "uuid_str 7"] length_ascii_string[of "''RUNTIME_PRINCIPAL''"] length_ascii_string[of "''{}''"]
    by (simp add: length_uuid_str json_opt_str_def)
  have t: "Run_QUEUED \<in> set (run_transitions (rn_status ?r))" by simp
  have "\<exists>w'. transition_locked sample_env s ?r Run_QUEUED (Some ''user answer received'') None 0 u
      = Inr (moved_run Run_QUEUED None 0 ?r, w') \<and> next_id (core w') = Suc (next_id (core u))" for s u
  proof -
    obtain w' where w': "transition_locked sample_env s ?r Run_QUEUED (Some ''user answer received'') None 0 u
      = Inr (moved_run Run_QUEUED None 0 ?r, w')"
      using transition_succeeds[OF t, of "Some ''user answer received''" None sample_env s 0 u] by auto
    then show ?thesis using transition_tables[OF w'] by blast
  qed
  then obtain f where tr: "\<And>s u. transition_locked sample_env s ?r Run_QUEUED (Some ''user answer received'') None 0 u
      = Inr (moved_run Run_QUEUED None 0 ?r, f s u) \<and> next_id (core (f s u)) = Suc (next_id (core u))" by metis
  show ?thesis
    using l v rp sel
    by (simp add: answer_question_def consume_answer_def sample_answer_def normalize_empty append_inbox_def alloc_sample
        append_event_succeeds[OF p b] Let_def sample_env_sel tr)
qed


text \<open>
  A question that nobody answers in time blocks its run for good: from its expiry on, neither
  the allowed principal nor an administrator can answer it, and the only transitions the run can
  still make end it.
\<close>

theorem expired_question_blocks_run:
  assumes run: "agent_runs_to E (new_agent_db c) w" and keys: "inj_on (uuid7 E) {..<next_id (core w)}"
    and q: "q \<in> set (questions w)" "pq_status q = Qs_PENDING" and late: "\<forall>n. pq_expires_at q \<le> clock n"
  shows "(\<forall>p wanted. \<exists>e. answer_question E (pq_id q) p wanted clock w = Inl e) \<and>
    (\<forall>p actor wanted. \<exists>e. override_answer_question E (pq_id q) p actor wanted clock w = Inl e) \<and>
    (\<forall>p wanted r w'. transition_run E (pq_run_id q) p wanted clock w = Inr (r, w') \<longrightarrow>
       nt_status p \<in> {Run_FAILED, Run_CANCELLED, Run_EXPIRED})"
proof -
  have ok: "agent_ok E w" by (rule reachable_ok[OF run keys])
  then have qok: "questions_ok E w" and rok: "runs_ok E w" and lok: "logs_ok E w" by (simp_all add: agent_ok_def)
  have refused: "\<exists>e. validate_answerable q2 r2 (clock 0) = Inl e" if "locked_question w (pq_id q) wanted2 = Inr (ss2, r2, q2)" for ss2 r2 q2 wanted2
  proof -
    have "q2 \<in> set (questions w)" "pq_id q2 = pq_id q" using locked_question_Inr[OF that] by auto
    then have "q2 = q" using unique_row[OF questions_okD(1)[OF qok] _ q(1)] by simp
    then show ?thesis using q(2) late[rule_format, of 0] by (simp add: validate_answerable_def)
  qed
  have "\<exists>e. answer_question E (pq_id q) p wanted clock w = Inl e" for p wanted
    by (rule answer_refused[THEN conjunct1]) (rule refused)
  moreover have "\<exists>e. override_answer_question E (pq_id q) p actor wanted clock w = Inl e" for p actor wanted
    by (rule answer_refused[THEN conjunct2]) (rule refused)
  moreover have "nt_status p \<in> {Run_FAILED, Run_CANCELLED, Run_EXPIRED}"
    if t: "transition_run E (pq_run_id q) p wanted clock w = Inr (r, w')" for p wanted r w'
  proof -
    obtain x where x: "x \<in> set (agent_runs w)" "rn_id x = pq_run_id q" "nt_status p \<in> set (run_transitions (rn_status x))"
      "rn_status x = Run_WAITING_USER \<and> nt_status p = Run_QUEUED \<longrightarrow> open_question w (pq_run_id q) = None"
      using transitioned_tables[OF lok t] by blast
    obtain y where y: "y \<in> set (agent_runs w)" "rn_id y = pq_run_id q" "rn_status y = Run_WAITING_USER"
      using questions_okD(4)[OF qok q(1)] q(2) by blast
    have "x = y" using unique_row[OF runs_okD(1)[OF rok] x(1) y(1)] x(2) y(2) by simp
    moreover have "nt_status p \<noteq> Run_QUEUED"
      using open_question_None[OF qok _ q(1) refl] q(2) x(4) y(3) \<open>x = y\<close> by auto
    ultimately show ?thesis using x(3) y(3) by auto
  qed
  ultimately show ?thesis by blast
qed

theorem expired_question_blocks_run_witness:
  "\<exists>e. override_answer_question sample_env 1008 \<lparr>qo_answer_payload = JObj [], qo_reason = ''r''\<rparr> 7 None (\<lambda>_. 100) sample_asked = Inl e"
proof -
  have k: "inj_on (uuid7 sample_env) {..<next_id (core sample_asked)}" by (rule sample_ids_differ) (simp add: sample_asked_def)
  have q: "sample_question \<in> set (questions sample_asked)" "pq_status sample_question = Qs_PENDING"
    by (simp_all add: sample_asked_def sample_question_def)
  have late: "\<forall>n. pq_expires_at sample_question \<le> (\<lambda>_. 100) (n :: nat)" by (simp add: sample_question_def)
  have "pq_id sample_question = 1008" by (simp add: sample_question_def)
  then show ?thesis using expired_question_blocks_run[OF sample_asked_reached k q late] by metis
qed

lemma run_of_key_Some: "run_of_key rows i key = Some r \<Longrightarrow> r \<in> set rows \<and> rn_session_id r = i \<and> rn_idempotency_key r = key"
  by (auto simp: run_of_key_def find_Some_iff)

text \<open>
  Starting a run is idempotent: a later request with the same key and an input that is the
  same up to the order of keys returns the run that was created, however far it has got, and
  changes nothing; the same key with another input is refused.
\<close>

theorem create_run_retry:
  assumes run: "agent_runs_to E (new_agent_db c) w" and first: "create_run E i p wanted [] clock w = Inr (r, w1)"
    and later: "agent_runs_to E w1 w'" and keys: "inj_on (uuid7 E) {..<next_id (core w')}"
    and known: "locked_session w' i wanted' = Inr ss" and again: "nc_idempotency_key p' = nc_idempotency_key p"
    and input: "normalize_json E (nc_input_payload p') ''input_payload'' = Inr (d, sha)"
  shows "(if d = key_sorted (nc_input_payload p) \<and> sha = sha256_hex E (ascii_dumps E (nc_input_payload p))
     then \<exists>r'. create_run E i p' wanted' raced clock' w' = Inr (r', w') \<and> rn_id r' = rn_id r \<and> r' \<in> set (agent_runs w')
     else create_run E i p' wanted' raced clock' w' =
       Inl (RunIdempotencyConflict ''idempotency key is already bound to different input''))"
proof -
  have st: "agent_step E w w1" using first by (rule step_run)
  note k1 = inj_on_earlier[OF keys agent_runs_next_id[OF later]]
  have ok: "agent_ok E w" by (rule reachable_ok[OF run inj_on_earlier[OF k1 agent_step_next_id[OF st]]])
  have ok1: "agent_ok E w1" by (rule agent_step_ok[OF st k1 ok])
  have ok': "agent_ok E w'" by (rule agent_runs_ok[OF later keys ok1])
  have lok: "logs_ok E w" using ok by (simp add: agent_ok_def)
  have r: "r \<in> set (agent_runs w1)" "rn_session_id r = i" "rn_idempotency_key r = nc_idempotency_key p"
    "rn_input_payload r = key_sorted (nc_input_payload p)" "rn_input_sha256 r = sha256_hex E (ascii_dumps E (nc_input_payload p))"
  proof -
    have "r \<in> set (agent_runs w1) \<and> rn_session_id r = i \<and> rn_idempotency_key r = nc_idempotency_key p"
    proof (cases "run_of_key (agent_runs w) i (nc_idempotency_key p)")
      case None
      show ?thesis using created_run_tables[OF lok first None] by auto
    next
      case (Some x)
      then have "w1 = w" "x = r" using create_run_cases[OF first] by auto
      then show ?thesis using run_of_key_Some[OF Some] by simp
    qed
    moreover have "rn_input_payload r = key_sorted (nc_input_payload p) \<and>
        rn_input_sha256 r = sha256_hex E (ascii_dumps E (nc_input_payload p))"
      using create_run_cases[OF first] by auto
    ultimately show "r \<in> set (agent_runs w1)" "rn_session_id r = i" "rn_idempotency_key r = nc_idempotency_key p"
      "rn_input_payload r = key_sorted (nc_input_payload p)" "rn_input_sha256 r = sha256_hex E (ascii_dumps E (nc_input_payload p))"
      by blast+
  qed
  obtain x where x: "x \<in> set (agent_runs w')" "rn_id x = rn_id r" "rn_session_id x = i" "rn_idempotency_key x = nc_idempotency_key p'"
    "rn_input_payload x = key_sorted (nc_input_payload p)" "rn_input_sha256 x = sha256_hex E (ascii_dumps E (nc_input_payload p))"
    using agent_runs_keep_runs[OF later keys ok1] r again unfolding keeps_runs_def by (metis (no_types, lifting))
  obtain y where y: "run_of_key (agent_runs w') i (nc_idempotency_key p') = Some y"
    using x(1,3,4) by (cases "run_of_key (agent_runs w') i (nc_idempotency_key p')") (auto simp: run_of_key_def find_None_iff)
  then have "y \<in> set (agent_runs w')" "rn_session_id y = i" "rn_idempotency_key y = nc_idempotency_key p'"
    using run_of_key_Some by blast+
  moreover have u: "runs_ok E w'" using ok' by (simp add: agent_ok_def)
  ultimately have "y = x"
    using runs_okD(5)[OF u, of y x] unique_row[OF runs_okD(1)[OF u], of y x] x(1,3,4) by simp
  then show ?thesis
    using y x(1,2,5,6) input known by (auto simp: create_run_def resolve_idempotent_run_def)
qed

theorem create_run_retry_witness:
  "\<exists>r. create_run sample_env 1002 sample_run_create None [] (\<lambda>_. 5) sample_asked = Inr (r, sample_asked) \<and> rn_id r = 1004"
proof -
  have later: "agent_runs_to sample_env sample_queued sample_asked"
    using step_transition[OF sample_transition] step_ask[OF sample_ask] unfolding agent_runs_to_def
    by (meson converse_rtranclp_into_rtranclp rtranclp.rtrancl_refl)
  have k: "inj_on (uuid7 sample_env) {..<next_id (core sample_asked)}" by (rule sample_ids_differ) (simp add: sample_asked_def)
  have s: "locked_session sample_asked 1002 None = Inr (sample_session 1 5)"
    by (simp add: locked_session_def locked_workspace_def get_row_Cons sample_asked_def sample_session_def sample_workspace_def)
  have n: "normalize_json sample_env (nc_input_payload sample_run_create) ''input_payload'' = Inr (JObj [], ''{}'')"
    by (simp add: sample_run_create_def normalize_empty sample_env_sel)
  have e: "key_sorted (nc_input_payload sample_run_create) = JObj []" "ascii_dumps sample_env (nc_input_payload sample_run_create) = ''{}''"
    by (simp_all add: sample_run_create_def join_def)
  have "rn_id sample_run = 1004" by (simp add: sample_run_def)
  then show ?thesis
    using create_run_retry[OF sample_idle_reached sample_create_run later k s refl n, of "[]" "\<lambda>_. 5"] e sample_env_sel(2) by auto
qed

text \<open>
  A run that has ended stays as it is: no later operation changes its row, and no transition
  of it is accepted.
\<close>

theorem finished_runs_stay:
  assumes run: "agent_runs_to E (new_agent_db c) w" and later: "agent_runs_to E w w'"
    and keys: "inj_on (uuid7 E) {..<next_id (core w')}"
    and r: "r \<in> set (agent_runs w)" "rn_status r \<in> set terminal_run_statuses"
  shows "r \<in> set (agent_runs w') \<and> (\<exists>e. transition_run E (rn_id r) p wanted clock w' = Inl e)"
proof -
  have ok: "agent_ok E w" by (rule reachable_ok[OF run inj_on_earlier[OF keys agent_runs_next_id[OF later]]])
  have ok': "agent_ok E w'" by (rule agent_runs_ok[OF later keys ok])
  then have u: "unique_by rn_id (agent_runs w')" and lok: "logs_ok E w'" by (simp_all add: agent_ok_def runs_ok_def)
  have in': "r \<in> set (agent_runs w')" using agent_runs_keep_runs[OF later keys ok] r unfolding keeps_runs_def by auto
  have "\<exists>e. transition_run E (rn_id r) p wanted clock w' = Inl e"
  proof (cases "transition_run E (rn_id r) p wanted clock w'")
    case (Inr x)
    obtain r' v where x: "x = (r', v)" by (cases x)
    obtain y where "y \<in> set (agent_runs w')" "rn_id y = rn_id r" "nt_status p \<in> set (run_transitions (rn_status y))"
      using transitioned_tables[OF lok Inr[unfolded x]] by blast
    then show ?thesis using unique_row[OF u _ in'] transitions_nonterminal r(2) by metis
  qed simp
  then show ?thesis using in' by blast
qed

text \<open>
  A session is never stuck: a run that has not ended can be cancelled in every reachable
  state, whatever it waits for; then its questions are closed and the session takes a new run.
\<close>

theorem active_run_can_be_cancelled:
  assumes run: "agent_runs_to E (new_agent_db c) w" and keys: "inj_on (uuid7 E) {..<Suc (next_id (core w))}"
    and r: "locked_run w i wanted = Inr (ss, r)" "rn_status r \<notin> set terminal_run_statuses"
    and reason: "(case reason of None \<Rightarrow> 0 | Some s \<Rightarrow> length s) \<le> 500"
  shows "\<exists>r' w'. transition_run E i \<lparr>nt_status = Run_CANCELLED, nt_reason = reason, nt_error_code = None\<rparr> wanted clock w = Inr (r', w') \<and>
    rn_status r' = Run_CANCELLED \<and> active_run (agent_runs w') (rn_session_id r) = None \<and>
    (\<forall>q\<in>set (questions w'). pq_run_id q = i \<longrightarrow> pq_status q \<noteq> Qs_PENDING)"
proof -
  have ok: "agent_ok E w" by (rule reachable_ok[OF run inj_on_earlier[OF keys]]) simp
  have lok: "logs_ok E w" and rok: "runs_ok E w" and qok: "questions_ok E w" using ok by (simp_all add: agent_ok_def)
  note R = runs_okD[OF rok]
  have l: "ss \<in> set (agent_sessions w)" "r \<in> set (agent_runs w)" "rn_id r = i" using locked_run_Inr[OF r(1)] by auto
  have t: "Run_CANCELLED \<in> set (run_transitions (rn_status r))"
    using r(2) by (cases "rn_status r") (simp_all add: terminal_run_statuses_def)
  obtain w' where w': "transition_locked E ss r Run_CANCELLED reason None (clock 0) w = Inr (moved_run Run_CANCELLED None (clock 0) r, w')"
    using transition_succeeds[OF t reason, of None E ss "clock 0" w] by auto
  let ?p = "\<lparr>nt_status = Run_CANCELLED, nt_reason = reason, nt_error_code = None\<rparr>"
  have tr: "transition_run E i ?p wanted clock w = Inr (moved_run Run_CANCELLED None (clock 0) r, w')"
    using r(1) w' by (simp add: transition_run_def)
  note tab = transition_tables[OF w']
  have "rn_active_slot x \<noteq> Some 1" if x: "x \<in> set (agent_runs w')" "rn_session_id x = rn_session_id r" for x
  proof (cases "rn_id x = rn_id r")
    case True
    then have "x = moved_run Run_CANCELLED None (clock 0) r" using x(1) tab by (auto simp: mem_put_row_iff)
    then show ?thesis by (simp add: moved_run_slot terminal_run_statuses_def)
  next
    case False
    then have "x \<in> set (agent_runs w)" using x(1) tab by (auto simp: mem_put_row_iff)
    then show ?thesis using R(5)[OF _ l(2) x(2)] R(4)[OF l(2)] r(2) False by auto
  qed
  then have "active_run (agent_runs w') (rn_session_id r) = None" by (auto simp: active_run_def find_None_iff)
  moreover have "pq_status q \<noteq> Qs_PENDING" if q: "q \<in> set (questions w')" "pq_run_id q = i" for q
  proof -
    obtain p where p: "p \<in> set (questions w)" "q = closed_by Run_CANCELLED (clock 0) i p" using q(1) tab l(3) by auto
    then show ?thesis
      using q(2) questions_okD(3)[OF qok p(1)] by (auto simp: closed_by_def close_question_def terminal_run_statuses_def split: if_split_asm)
  qed
  ultimately show ?thesis using tr by auto
qed

theorem active_run_can_be_cancelled_witness:
  "\<exists>r' w'. transition_run sample_env 1004 \<lparr>nt_status = Run_CANCELLED, nt_reason = None, nt_error_code = None\<rparr> None (\<lambda>_. 200) sample_asked
     = Inr (r', w') \<and> active_run (agent_runs w') 1002 = None"
proof -
  let ?r = "sample_run\<lparr>rn_status := Run_WAITING_USER, rn_started_at := Some 0\<rparr>"
  have l: "locked_run sample_asked 1004 None = Inr (sample_session 1 5, ?r)"
    by (simp add: locked_run_def locked_workspace_def get_row_Cons sample_asked_def sample_run_def sample_session_def sample_workspace_def)
  have k: "inj_on (uuid7 sample_env) {..<Suc (next_id (core sample_asked))}" by (rule sample_ids_differ) (simp add: sample_asked_def)
  have s: "rn_status ?r \<notin> set terminal_run_statuses" "rn_session_id ?r = 1002" by (simp_all add: terminal_run_statuses_def sample_run_def)
  have n: "(case None of None \<Rightarrow> 0 | Some s \<Rightarrow> length s) \<le> 500" by simp
  show ?thesis
    using active_run_can_be_cancelled[OF sample_asked_reached k l s(1) n, of "\<lambda>_. 200"] unfolding s(2) by blast
qed

text \<open>
  Private reasoning is never stored: no document of any table has a private field at any
  depth, so what the views show is the document itself.
\<close>

theorem stored_documents_shown_in_full:
  assumes run: "agent_runs_to E (new_agent_db c) w" and keys: "inj_on (uuid7 E) {..<next_id (core w)}"
  shows "(\<forall>v\<in>set (agent_versions w). without_private_reasoning (av_specification v) = av_specification v) \<and>
    (\<forall>s\<in>set (agent_sessions w). without_private_reasoning (as_task_scope s) = as_task_scope s) \<and>
    (\<forall>r\<in>set (agent_runs w). without_private_reasoning (rn_input_payload r) = rn_input_payload r) \<and>
    (\<forall>q\<in>set (questions w). without_private_reasoning (pq_context q) = pq_context q \<and>
       (\<forall>a. pq_answer_payload q = Some a \<longrightarrow> without_private_reasoning a = a)) \<and>
    (\<forall>x\<in>set (session_inboxes w). without_private_reasoning (si_payload x) = si_payload x) \<and>
    (\<forall>e\<in>set (agent_events w). without_private_reasoning (ae_payload e) = ae_payload e)"
  using reachable_ok[OF run keys] unfolding agent_ok_def docs_ok_def by (blast intro: without_private_id)

theorem stored_documents_shown_in_full_witness:
  "without_private_reasoning (rn_input_payload sample_run) = rn_input_payload sample_run"
proof -
  have k: "inj_on (uuid7 sample_env) {..<next_id (core sample_queued)}" by (rule sample_ids_differ) (simp add: sample_queued_def)
  have "sample_run \<in> set (agent_runs sample_queued)" by (simp add: sample_queued_def)
  then show ?thesis using stored_documents_shown_in_full[OF sample_queued_reached k] by blast
qed

text \<open>The newest rows of a log whose numbers are in order.\<close>

lemma recent_sorted:
  assumes "sorted (map key rows)"
  shows "recent key limit rows = (drop (length rows - limit) rows, limit < length rows)"
proof -
  have s: "sort_key key rows = rows" using assms by (rule sort_key_id_if_sorted)
  have "rev (take limit (take (limit + 1) (rev rows))) = drop (length rows - limit) rows"
  proof -
    have "take limit (take (limit + 1) (rev rows)) = take limit (rev rows)" by (simp add: min_def)
    then show ?thesis by (simp add: take_rev)
  qed
  then show ?thesis by (simp add: recent_def s Let_def min_def)
qed

text \<open>
  The state of a session shows the end of its logs: the last items of the inbox and of the
  event log in the order they were written, at most as many as asked for, and says truly
  whether there are earlier ones.
\<close>

theorem session_state_shows_latest:
  assumes run: "agent_runs_to E (new_agent_db c) w" and keys: "inj_on (uuid7 E) {..<next_id (core w)}"
    and state: "get_session_state w i wanted limit = Inr st"
  shows "sst_inbox st = (let xs = filter (\<lambda>x. si_session_id x = i) (session_inboxes w) in drop (length xs - limit) xs) \<and>
    sst_events st = (let es = filter (\<lambda>e. ae_session_id e = i) (agent_events w) in drop (length es - limit) es) \<and>
    (sst_inbox_has_more st \<longleftrightarrow> int limit < as_last_inbox_seq (sst_session st)) \<and>
    (sst_events_has_more st \<longleftrightarrow> int limit < as_last_event_seq (sst_session st))"
proof -
  obtain ws ss where g: "get_session w i ws = Inr ss"
    and st: "sst_session st = ss" "(sst_inbox st, sst_inbox_has_more st) = recent si_seq limit (filter (\<lambda>x. si_session_id x = i) (session_inboxes w))"
    "(sst_events st, sst_events_has_more st) = recent ae_seq limit (filter (\<lambda>x. ae_session_id x = i) (agent_events w))"
    using state by (auto simp: get_session_state_def bind_res_Inr_iff case_prod_beta)
  have ss: "ss \<in> set (agent_sessions w)" "as_id ss = i"
    using g by (auto simp: get_session_def of_option_def dest: get_row_Some_mem split: option.split_asm if_split_asm)
  have "numbered w ss" using reachable_ok[OF run keys] ss(1) by (simp add: agent_ok_def logs_ok_def)
  then have n: "0 \<le> as_last_inbox_seq ss" "0 \<le> as_last_event_seq ss"
    "map si_seq (filter (\<lambda>x. si_session_id x = i) (session_inboxes w)) = [1..as_last_inbox_seq ss]"
    "map ae_seq (filter (\<lambda>x. ae_session_id x = i) (agent_events w)) = [1..as_last_event_seq ss]"
    by (simp_all add: numbered_def ss(2))
  have len: "int (length (filter (\<lambda>x. si_session_id x = i) (session_inboxes w))) = as_last_inbox_seq ss"
    "int (length (filter (\<lambda>x. ae_session_id x = i) (agent_events w))) = as_last_event_seq ss"
    using n by (metis length_map length_upto add_diff_cancel_right' nat_0_le diff_add_cancel)+
  have "recent si_seq limit (filter (\<lambda>x. si_session_id x = i) (session_inboxes w)) =
      (let xs = filter (\<lambda>x. si_session_id x = i) (session_inboxes w) in (drop (length xs - limit) xs, limit < length xs))"
    by (simp add: recent_sorted n(3) Let_def)
  moreover have "recent ae_seq limit (filter (\<lambda>x. ae_session_id x = i) (agent_events w)) =
      (let xs = filter (\<lambda>x. ae_session_id x = i) (agent_events w) in (drop (length xs - limit) xs, limit < length xs))"
    by (simp add: recent_sorted n(4) Let_def)
  ultimately show ?thesis using st len by (simp add: Let_def) linarith
qed

theorem session_state_shows_latest_witness:
  "\<exists>st. get_session_state sample_asked 1002 None 2 = Inr st \<and> sst_events_has_more st \<and> \<not> sst_inbox_has_more st"
proof -
  have k: "inj_on (uuid7 sample_env) {..<next_id (core sample_asked)}" by (rule sample_ids_differ) (simp add: sample_asked_def)
  have "get_session sample_asked 1002 1 = Inr (sample_session 1 5)"
    by (simp add: get_session_def get_row_Cons sample_asked_def sample_session_def)
  moreover have "locked_workspace sample_asked None = Inr sample_workspace" by (simp add: locked_workspace_def sample_asked_def)
  moreover have "ws_id sample_workspace = 1" by (simp add: sample_workspace_def)
  ultimately obtain st where st: "get_session_state sample_asked 1002 None 2 = Inr st" "sst_session st = sample_session 1 5"
    by (simp add: get_session_state_def case_prod_beta)
  then show ?thesis
    using session_state_shows_latest[OF sample_asked_reached k st(1)] by (simp add: sample_session_def)
qed

lemma sample_cancelled:
  "\<exists>r w. transition_run sample_env 1004 \<lparr>nt_status = Run_CANCELLED, nt_reason = None, nt_error_code = None\<rparr> None (\<lambda>_. 0) sample_queued
     = Inr (r, w) \<and> rn_id r = 1004 \<and> rn_status r = Run_CANCELLED \<and> r \<in> set (agent_runs w) \<and> next_id (core w) \<le> 1000"
proof -
  have l: "locked_run sample_queued 1004 None = Inr (sample_session 1 2, sample_run)"
    by (simp add: locked_run_def locked_workspace_def get_row_Cons sample_queued_def sample_run_def sample_session_def sample_workspace_def)
  have s: "rn_status sample_run = Run_QUEUED" "rn_id sample_run = 1004" by (simp_all add: sample_run_def)
  have t: "Run_CANCELLED \<in> set (run_transitions (rn_status sample_run))" by (simp add: s)
  obtain w where w: "transition_locked sample_env (sample_session 1 2) sample_run Run_CANCELLED None None 0 sample_queued
      = Inr (moved_run Run_CANCELLED None 0 sample_run, w)"
    using transition_succeeds[OF t, of None None sample_env "sample_session 1 2" 0 sample_queued] by auto
  have "sample_run \<in> set (agent_runs sample_queued)" "next_id (core sample_queued) = 7" by (simp_all add: sample_queued_def)
  then have "moved_run Run_CANCELLED None 0 sample_run \<in> set (agent_runs w)" "next_id (core w) = 8"
    using transition_tables[OF w] mem_put_row_self[of sample_run "agent_runs sample_queued" rn_id] by simp_all
  then show ?thesis using l w s by (simp add: transition_run_def)
qed

theorem finished_runs_stay_witness:
  "\<exists>w r. agent_runs_to sample_env (new_agent_db (sample_agent_core 0)) w \<and> r \<in> set (agent_runs w) \<and> rn_status r = Run_CANCELLED \<and>
     (\<exists>e. transition_run sample_env 1004 \<lparr>nt_status = Run_QUEUED, nt_reason = None, nt_error_code = None\<rparr> None (\<lambda>_. 0) w = Inl e)"
proof -
  obtain r w where t: "transition_run sample_env 1004 \<lparr>nt_status = Run_CANCELLED, nt_reason = None, nt_error_code = None\<rparr> None (\<lambda>_. 0)
      sample_queued = Inr (r, w)"
    and r: "rn_id r = 1004" "rn_status r = Run_CANCELLED" "r \<in> set (agent_runs w)" and n: "next_id (core w) \<le> 1000"
    using sample_cancelled by blast
  have reach: "agent_runs_to sample_env (new_agent_db (sample_agent_core 0)) w"
    using sample_queued_reached step_transition[OF t] unfolding agent_runs_to_def by (rule rtranclp.rtrancl_into_rtrancl)
  have later: "agent_runs_to sample_env w w" by (simp add: agent_runs_to_def)
  have ended: "rn_status r \<in> set terminal_run_statuses" by (simp add: r(2) terminal_run_statuses_def)
  show ?thesis
    using finished_runs_stay[OF reach later sample_ids_differ[OF n] r(3) ended] reach r unfolding r(1) by blast
qed
end
