(* ===== verification/Auth.thy ===== *)
theory Auth
  imports Plugin_Package
begin

text \<open>
  Authentication (\<open>auth/service.py\<close>, \<open>auth/passwords.py\<close>, \<open>auth/tokens.py\<close>,
  \<open>auth/constants.py\<close>, \<open>db/auth_models.py\<close>): the first owner, login with its throttle,
  sessions, and the roles and permissions of a principal.  Every operation is one transaction;
  an operation that raises after it has committed an audit record returns that state together
  with the error.  Row time stamps that no code reads are left out.
\<close>

named_theorems auth_simps \<open>writes of the authentication operations\<close>

section \<open>Rows\<close>

datatype admin_status = Adm_ACTIVE | Adm_DISABLED

datatype throttle_dimension = Th_ACCOUNT | Th_SOURCE

datatype auth_outcome = Out_SUCCESS | Out_DENIED | Out_RATE_LIMITED | Out_REVOKED

record admin_user =
  us_id :: uuid
  us_username :: string
  us_username_normalized :: string
  us_display_name :: "string option"
  us_password_hash :: string
  us_status :: admin_status
  us_auth_version :: int
  us_last_login_at :: "instant option"

record rbac_role =
  ro_id :: uuid
  ro_code :: string
  ro_name :: string
  ro_is_system :: bool
  ro_active :: bool

record rbac_permission =
  rp_id :: uuid
  rp_code :: string
  rp_description :: "string option"

record rbac_user_role =
  ur_user_id :: uuid
  ur_role_id :: uuid

record rbac_role_permission =
  xp_role_id :: uuid
  xp_permission_id :: uuid

record admin_session =
  se_id :: uuid
  se_user_id :: uuid
  se_token_hash :: string
  se_csrf_token_hash :: string
  se_auth_version :: int
  se_last_seen_at :: instant
  se_idle_expires_at :: instant
  se_absolute_expires_at :: instant
  se_revoked_at :: "instant option"
  se_revoked_reason :: "string option"
  se_source_key_hash :: "string option"
  se_user_agent_hash :: "string option"

record bootstrap_state =
  bs_id :: int
  bs_owner_user_id :: uuid
  bs_token_fingerprint :: string

record login_throttle =
  lt_id :: uuid
  lt_dimension :: throttle_dimension
  lt_key_hash :: string
  lt_window_started_at :: instant
  lt_failure_count :: int
  lt_blocked_until :: "instant option"

record security_event =
  sx_event_type :: string
  sx_outcome :: auth_outcome
  sx_user_id :: "uuid option"
  sx_session_id :: "uuid option"
  sx_username_normalized :: "string option"
  sx_source_key_hash :: "string option"
  sx_detail :: json

text \<open>
  The tables of authentication.  \<open>auth_ids\<close>, \<open>tokens_drawn\<close> and
  \<open>salts_drawn\<close> count the calls to the generators of keys, tokens and password salts.
\<close>

record auth_db =
  admin_users :: "admin_user list"
  rbac_roles :: "rbac_role list"
  rbac_permissions :: "rbac_permission list"
  user_roles :: "rbac_user_role list"
  role_permissions :: "rbac_role_permission list"
  admin_sessions :: "admin_session list"
  bootstrap_states :: "bootstrap_state list"
  throttles :: "login_throttle list"
  security_events :: "security_event list"
  auth_ids :: nat
  tokens_drawn :: nat
  salts_drawn :: nat

definition empty_auth_db :: auth_db where
  "empty_auth_db = \<lparr>admin_users = [], rbac_roles = [], rbac_permissions = [], user_roles = [],
     role_permissions = [], admin_sessions = [], bootstrap_states = [], throttles = [],
     security_events = [], auth_ids = 0, tokens_drawn = 0, salts_drawn = 0\<rparr>"

text \<open>
  What the code calls: the library functions of the rest of the program, the NFKC normal form of
  \<open>unicodedata\<close>, the \<open>n\<close>-th token of \<open>secrets.token_urlsafe\<close>, and the
  password hasher of \<open>argon2\<close>, whose \<open>n\<close>-th call draws the \<open>n\<close>-th salt.
  \<open>argon2_verify\<close> is false and \<open>argon2_needs_rehash\<close> true where the library raises.
\<close>

record auth_env =
  lib :: env
  nfkc :: "string \<Rightarrow> string"
  token_urlsafe :: "nat \<Rightarrow> string"
  argon2_hash :: "nat \<Rightarrow> string \<Rightarrow> string"
  argon2_verify :: "string \<Rightarrow> string \<Rightarrow> bool"
  argon2_needs_rehash :: "string \<Rightarrow> bool"

record auth_settings =
  bootstrap_token :: "string option"
  session_idle_seconds :: int
  session_absolute_seconds :: int
  login_window_seconds :: int
  login_max_failures :: int
  login_block_seconds :: int
  is_local :: bool

text \<open>The validators of \<open>core/config.py\<close> for these settings.\<close>

definition auth_settings_ok :: "auth_settings \<Rightarrow> bool" where
  "auth_settings_ok S \<longleftrightarrow> 0 < session_idle_seconds S \<and> 0 < session_absolute_seconds S \<and>
     0 < login_window_seconds S \<and> 0 < login_max_failures S \<and> 0 < login_block_seconds S \<and>
     session_idle_seconds S < session_absolute_seconds S \<and>
     (case bootstrap_token S of None \<Rightarrow> True | Some t \<Rightarrow> 32 \<le> length t)"

definition secs :: "int \<Rightarrow> int" where
  "secs n = n * 1000000"

section \<open>Constants, tokens and passwords\<close>

definition owner_role_code :: string where
  "owner_role_code = ''owner''"

definition admin_user_manage_permission :: string where
  "admin_user_manage_permission = ''admin.user.manage''"

definition system_permission_catalog :: "(string \<times> string) list" where
  "system_permission_catalog =
    [(admin_user_manage_permission, ''Manage administrator accounts and RBAC''),
     (''agent.read'', ''Read task-agent definitions, sessions, and execution state''),
     (''agent.question.override'', ''Override pending task-agent questions as an administrator''),
     (''agent.run'', ''Start and control task-agent sessions and runs''),
     (''agent.write'', ''Create task-agent definitions and publish versions''),
     (''account.read'', ''Read WeChat bot accounts''),
     (''account.write'', ''Manage WeChat bot accounts''),
     (''connection.read'', ''Read GeWe connections''),
     (''connection.write'', ''Manage GeWe connections''),
     (''directory.read'', ''Read contacts, discovered groups, and members''),
     (''directory.sync'', ''Synchronize contacts, discovered groups, and members''),
     (''message.read'', ''Read normalized messages and raw provider callbacks''),
     (''audit.read'', ''Read policy decisions, audit events, and end-to-end traces''),
     (''outbox.manage'', ''Cancel and reconcile outgoing messages''),
     (''outbox.read'', ''Read outgoing message delivery state''),
     (''plugin.deploy'', ''Install, upgrade, enable, disable, and remove plugins''),
     (''plugin.invoke'', ''Invoke plugin commands and tools''),
     (''plugin.read'', ''Read plugin catalog and runtime state''),
     (''policy.evaluate'', ''Explain effective runtime policy decisions''),
     (''policy.read'', ''Read runtime policies''),
     (''policy.write'', ''Manage runtime policies'')]"

definition hash_token :: "auth_env \<Rightarrow> string \<Rightarrow> string" where
  "hash_token E token = sha256_hex (lib E) token"

definition fingerprint_token :: "auth_env \<Rightarrow> string \<Rightarrow> string" where
  "fingerprint_token E token = take 16 (hash_token E token)"

definition hash_context :: "auth_env \<Rightarrow> string \<Rightarrow> string" where
  "hash_context E value = sha256_hex (lib E) value"

definition secrets_equal :: "string \<Rightarrow> string \<Rightarrow> bool" where
  "secrets_equal first second \<longleftrightarrow> utf8 first = utf8 second"

datatype auth_error =
    BootstrapNotConfigured
  | BootstrapAlreadyCompleted
  | InvalidBootstrapToken
  | InvalidCredentials
  | LoginRateLimited int
  | InvalidSession
  | CsrfRejected
  | AuthValueError string

definition validate_new_password :: "string \<Rightarrow> (auth_error, unit) res" where
  "validate_new_password password =
     (if length password < 12 then Inl (AuthValueError ''password must contain at least 12 characters'')
      else if 1024 < length (utf8 password) then Inl (AuthValueError ''password is too long'')
      else Inr ())"

definition hash_password :: "auth_env \<Rightarrow> string \<Rightarrow> auth_db \<Rightarrow> (auth_error, string \<times> auth_db) res" where
  "hash_password E password s =
     (case validate_new_password password of Inl e \<Rightarrow> Inl e
      | Inr _ \<Rightarrow> Inr (argon2_hash E (salts_drawn s) password, s\<lparr>salts_drawn := Suc (salts_drawn s)\<rparr>))"

definition auth_alloc :: "auth_env \<Rightarrow> auth_db \<Rightarrow> uuid \<times> auth_db" where
  "auth_alloc E s = (uuid7 (lib E) (auth_ids s), s\<lparr>auth_ids := Suc (auth_ids s)\<rparr>)"

definition generate_token :: "auth_env \<Rightarrow> auth_db \<Rightarrow> string \<times> auth_db" where
  "generate_token E s = (token_urlsafe E (tokens_drawn s), s\<lparr>tokens_drawn := Suc (tokens_drawn s)\<rparr>)"


section \<open>Principals\<close>

text \<open>
  \<open>normalize_username\<close>; of the categories \<open>C*\<close> the code points up to 255 have
  the control characters and the soft hyphen.
\<close>

definition is_category_c :: "char \<Rightarrow> bool" where
  "is_category_c c = (let n = (of_char c :: nat) in n \<le> 31 \<or> (127 \<le> n \<and> n \<le> 159) \<or> n = 173)"

definition normalize_username :: "auth_env \<Rightarrow> string \<Rightarrow> (auth_error, string \<times> string) res" where
  "normalize_username E username =
     (let canonical = strip (nfkc E username) in
      if \<not> (3 \<le> length canonical \<and> length canonical \<le> 80)
      then Inl (AuthValueError ''username must contain between 3 and 80 characters'')
      else if list_ex (\<lambda>c. py_isspace c \<or> is_category_c c) canonical
      then Inl (AuthValueError ''username cannot contain whitespace or control characters'')
      else Inr (canonical, casefold canonical))"

record auth_principal =
  pn_user_id :: uuid
  pn_session_id :: uuid
  pn_username :: string
  pn_display_name :: "string option"
  pn_roles :: "string set"
  pn_permissions :: "string set"

definition is_owner :: "auth_principal \<Rightarrow> bool" where
  "is_owner p \<longleftrightarrow> owner_role_code \<in> pn_roles p"

record auth_context =
  cx_principal :: auth_principal
  cx_csrf_token_hash :: string

record issued_session =
  iss_session_id :: uuid
  iss_token :: string
  iss_csrf_token :: string
  iss_idle_expires_at :: instant
  iss_absolute_expires_at :: instant

record login_result =
  lr_principal :: auth_principal
  lr_issued_session :: issued_session

definition record_security_event ::
    "string \<Rightarrow> auth_outcome \<Rightarrow> string option \<Rightarrow> uuid option \<Rightarrow> uuid option \<Rightarrow> string option \<Rightarrow> json \<Rightarrow> auth_db \<Rightarrow> auth_db" where
  "record_security_event event_type outcome source user session username detail s =
     s\<lparr>security_events := security_events s @
        [\<lparr>sx_event_type = event_type, sx_outcome = outcome, sx_user_id = user, sx_session_id = session,
          sx_username_normalized = username, sx_source_key_hash = source, sx_detail = detail\<rparr>]\<rparr>"

text \<open>The roles bound to a user, and the permissions bound to a role, in the order of the tables.\<close>

definition roles_of :: "auth_db \<Rightarrow> uuid \<Rightarrow> rbac_role list" where
  "roles_of s user =
     filter (\<lambda>r. list_ex (\<lambda>b. ur_user_id b = user \<and> ur_role_id b = ro_id r) (user_roles s)) (rbac_roles s)"

definition permissions_of :: "auth_db \<Rightarrow> uuid \<Rightarrow> rbac_permission list" where
  "permissions_of s role =
     filter (\<lambda>p. list_ex (\<lambda>b. xp_role_id b = role \<and> xp_permission_id b = rp_id p) (role_permissions s))
       (rbac_permissions s)"

definition load_principal :: "auth_db \<Rightarrow> admin_user \<Rightarrow> uuid \<Rightarrow> auth_principal" where
  "load_principal s user session =
     (let active = filter ro_active (roles_of s (us_id user)) in
      \<lparr>pn_user_id = us_id user, pn_session_id = session, pn_username = us_username user,
       pn_display_name = us_display_name user, pn_roles = set (map ro_code active),
       pn_permissions = set (filter (\<lambda>c. c \<noteq> [])
         (concat (map (\<lambda>r. map rp_code (permissions_of s (ro_id r))) active)))\<rparr>)"

section \<open>The first owner\<close>

definition owner_exists :: "auth_db \<Rightarrow> bool" where
  "owner_exists s \<longleftrightarrow>
     list_ex (\<lambda>u. list_ex (\<lambda>r. ro_code r = owner_role_code) (roles_of s (us_id u))) (admin_users s)"

fun add_permissions :: "auth_env \<Rightarrow> (string \<times> string) list \<Rightarrow> auth_db \<Rightarrow> auth_db" where
  "add_permissions E [] s = s"
| "add_permissions E ((code, description) # rest) s =
     (let (i, s1) = auth_alloc E s in
      add_permissions E rest (s1\<lparr>rbac_permissions := rbac_permissions s1 @
        [\<lparr>rp_id = i, rp_code = code, rp_description = Some description\<rparr>]\<rparr>))"

definition ensure_system_permissions :: "auth_env \<Rightarrow> auth_db \<Rightarrow> auth_db" where
  "ensure_system_permissions E s =
     (let existing = map rp_code (rbac_permissions s) in
      add_permissions E (filter (\<lambda>(code, _). \<not> List.member existing code) system_permission_catalog) s)"

text \<open>The row of the owner role, created when it is missing.\<close>

definition owner_role :: "auth_env \<Rightarrow> auth_db \<Rightarrow> rbac_role \<times> auth_db" where
  "owner_role E s =
     (case get_row ro_code owner_role_code (rbac_roles s) of
        Some r \<Rightarrow> (r, s)
      | None \<Rightarrow>
          let (i, s1) = auth_alloc E s;
              r = \<lparr>ro_id = i, ro_code = owner_role_code, ro_name = ''Owner'', ro_is_system = True, ro_active = True\<rparr>
          in (r, s1\<lparr>rbac_roles := rbac_roles s1 @ [r]\<rparr>))"

record bootstrap_request =
  br_presented_token :: string
  br_username :: string
  br_password :: string
  br_display_name :: "string option"
  br_source_identifier :: string

text \<open>
  \<open>bootstrap_owner\<close>.  \<open>committed\<close> is the state after the transactions that others
  commit between the checks, made on \<open>s\<close>, and the writes.  The inserts raise an \<open>IntegrityError\<close> when the
  name or the single row of the bootstrap is taken by then; nothing of them is kept.
\<close>

definition bootstrap_owner ::
    "auth_env \<Rightarrow> auth_settings \<Rightarrow> bootstrap_request \<Rightarrow> auth_db \<Rightarrow> auth_db \<Rightarrow> (auth_error, admin_user) res \<times> auth_db" where
  "bootstrap_owner E S b committed s =
     (case normalize_username E (br_username b) of Inl e \<Rightarrow> (Inl e, committed)
      | Inr (canonical, normalized) \<Rightarrow>
          let source = hash_context E (''source:'' @ br_source_identifier b);
              denied = (\<lambda>reason. record_security_event ''auth.bootstrap'' Out_DENIED (Some source) None None
                 (Some normalized) (JObj [(''reason'', JStr reason)]))
          in
          if bootstrap_states s \<noteq> [] \<or> owner_exists s
          then (Inl BootstrapAlreadyCompleted, denied ''already_completed'' committed)
          else (case bootstrap_token S of
              None \<Rightarrow> (Inl BootstrapNotConfigured, denied ''not_configured'' committed)
            | Some configured \<Rightarrow>
                if \<not> secrets_equal configured (br_presented_token b)
                then (Inl InvalidBootstrapToken, denied ''invalid_token'' committed)
                else (case hash_password E (br_password b) committed of Inl e \<Rightarrow> (Inl e, committed)
                  | Inr (password_hash, s1) \<Rightarrow>
                      let (role, s2) = owner_role E s1;
                          s3 = ensure_system_permissions E s2;
                          (i, s4) = auth_alloc E s3;
                          owner = \<lparr>us_id = i, us_username = canonical, us_username_normalized = normalized,
                            us_display_name = br_display_name b, us_password_hash = password_hash,
                            us_status = Adm_ACTIVE, us_auth_version = 1, us_last_login_at = None\<rparr>
                      in
                      if normalized \<in> us_username_normalized ` set (admin_users s4) \<or> 1 \<in> bs_id ` set (bootstrap_states s4)
                      then (Inl BootstrapAlreadyCompleted, denied ''concurrent_or_conflicting_bootstrap'' committed)
                      else (Inr owner,
                        record_security_event ''auth.bootstrap'' Out_SUCCESS (Some source) (Some i) None (Some normalized) (JObj [])
                          (s4\<lparr>admin_users := admin_users s4 @ [owner],
                              user_roles := user_roles s4 @ [\<lparr>ur_user_id = i, ur_role_id = ro_id role\<rparr>],
                              bootstrap_states := bootstrap_states s4 @ [\<lparr>bs_id = 1, bs_owner_user_id = i,
                                bs_token_fingerprint = fingerprint_token E configured\<rparr>]\<rparr>)))))"

section \<open>Login\<close>

definition load_throttle :: "auth_db \<Rightarrow> throttle_dimension \<Rightarrow> string \<Rightarrow> login_throttle option" where
  "load_throttle s dimension key =
     get_row (\<lambda>t. (lt_dimension t, lt_key_hash t)) (dimension, key) (throttles s)"

definition active_block_seconds :: "login_throttle option \<Rightarrow> instant \<Rightarrow> int" where
  "active_block_seconds record now =
     (case record of None \<Rightarrow> 0
      | Some t \<Rightarrow> (case lt_blocked_until t of None \<Rightarrow> 0
          | Some until \<Rightarrow> max 0 \<lceil>total_seconds (until - now)\<rceil>))"

definition count_failure :: "auth_settings \<Rightarrow> instant \<Rightarrow> login_throttle \<Rightarrow> login_throttle" where
  "count_failure S now t =
     (let t' = t\<lparr>lt_failure_count := lt_failure_count t + 1\<rparr> in
      if login_max_failures S \<le> lt_failure_count t'
      then t'\<lparr>lt_blocked_until := Some (now + secs (login_block_seconds S))\<rparr> else t')"

definition restart_window :: "auth_settings \<Rightarrow> instant \<Rightarrow> login_throttle \<Rightarrow> login_throttle" where
  "restart_window S now t =
     (if lt_window_started_at t + secs (login_window_seconds S) \<le> now
      then t\<lparr>lt_window_started_at := now, lt_failure_count := 0, lt_blocked_until := None\<rparr> else t)"

definition record_login_failure ::
    "auth_env \<Rightarrow> auth_settings \<Rightarrow> throttle_dimension \<Rightarrow> string \<Rightarrow> instant \<Rightarrow> auth_db \<Rightarrow> auth_db" where
  "record_login_failure E S dimension key now s =
     (case load_throttle s dimension key of
        None \<Rightarrow>
          let (i, s1) = auth_alloc E s;
              t = \<lparr>lt_id = i, lt_dimension = dimension, lt_key_hash = key, lt_window_started_at = now,
                lt_failure_count = 0, lt_blocked_until = None\<rparr>
          in s1\<lparr>throttles := throttles s1 @ [count_failure S now t]\<rparr>
      | Some t \<Rightarrow>
          s\<lparr>throttles := put_row (\<lambda>t. (lt_dimension t, lt_key_hash t)) (count_failure S now (restart_window S now t)) (throttles s)\<rparr>)"

definition clear_account_throttle :: "string \<Rightarrow> auth_db \<Rightarrow> auth_db" where
  "clear_account_throttle key s =
     s\<lparr>throttles := filter (\<lambda>t. \<not> (lt_dimension t = Th_ACCOUNT \<and> lt_key_hash t = key)) (throttles s)\<rparr>"

definition create_auth_session ::
    "auth_env \<Rightarrow> auth_settings \<Rightarrow> admin_user \<Rightarrow> string \<Rightarrow> string \<Rightarrow> instant \<Rightarrow> auth_db \<Rightarrow> issued_session \<times> auth_db" where
  "create_auth_session E S user source user_agent now s =
     (let (token, s1) = generate_token E s;
          (csrf_token, s2) = generate_token E s1;
          absolute = now + secs (session_absolute_seconds S);
          idle = min (now + secs (session_idle_seconds S)) absolute;
          (i, s3) = auth_alloc E s2;
          row = \<lparr>se_id = i, se_user_id = us_id user, se_token_hash = hash_token E token,
            se_csrf_token_hash = hash_token E csrf_token, se_auth_version = us_auth_version user,
            se_last_seen_at = now, se_idle_expires_at = idle, se_absolute_expires_at = absolute,
            se_revoked_at = None, se_revoked_reason = None, se_source_key_hash = Some source,
            se_user_agent_hash = (if user_agent \<noteq> [] then Some (hash_context E user_agent) else None)\<rparr>
      in (\<lparr>iss_session_id = i, iss_token = token, iss_csrf_token = csrf_token, iss_idle_expires_at = idle,
            iss_absolute_expires_at = absolute\<rparr>,
          s3\<lparr>admin_sessions := admin_sessions s3 @ [row]\<rparr>))"

record login_request =
  lq_username :: string
  lq_password :: string
  lq_source_identifier :: string
  lq_user_agent :: string

text \<open>\<open>login\<close>, at the instant \<open>now\<close> its clock reads.\<close>

definition login_names :: "auth_env \<Rightarrow> string \<Rightarrow> string \<times> bool" where
  "login_names E username =
     (case normalize_username E username of Inr (_, normalized) \<Rightarrow> (normalized, True)
      | Inl _ \<Rightarrow> (casefold (strip (nfkc E username)), False))"

definition retry_after :: "auth_env \<Rightarrow> login_request \<Rightarrow> instant \<Rightarrow> auth_db \<Rightarrow> int" where
  "retry_after E q now s =
     max (active_block_seconds (load_throttle s Th_ACCOUNT
            (hash_context E (''account:'' @ fst (login_names E (lq_username q))))) now)
         (active_block_seconds (load_throttle s Th_SOURCE
            (hash_context E (''source:'' @ lq_source_identifier q))) now)"

definition login_user :: "auth_env \<Rightarrow> login_request \<Rightarrow> auth_db \<Rightarrow> admin_user option" where
  "login_user E q s =
     (let (normalized, valid) = login_names E (lq_username q) in
      if valid then get_row us_username_normalized normalized (admin_users s) else None)"

definition credentials_ok :: "auth_env \<Rightarrow> login_request \<Rightarrow> admin_user option \<Rightarrow> bool" where
  "credentials_ok E q user =
     (case user of None \<Rightarrow> False
      | Some u \<Rightarrow> argon2_verify E (us_password_hash u) (lq_password q) \<and> us_status u = Adm_ACTIVE)"

definition reject_login :: "auth_env \<Rightarrow> auth_settings \<Rightarrow> login_request \<Rightarrow> admin_user option \<Rightarrow> instant \<Rightarrow> auth_db \<Rightarrow> auth_db" where
  "reject_login E S q user now s =
     (let (normalized, valid) = login_names E (lq_username q);
          source = hash_context E (''source:'' @ lq_source_identifier q);
          s1 = record_login_failure E S Th_ACCOUNT (hash_context E (''account:'' @ normalized)) now s;
          s2 = record_login_failure E S Th_SOURCE source now s1
      in record_security_event ''auth.login'' Out_DENIED (Some source) (map_option us_id user) None
           (if valid then Some normalized else None) (JObj [(''reason'', JStr ''invalid_credentials'')]) s2)"

definition rehash_password ::
    "auth_env \<Rightarrow> string \<Rightarrow> admin_user \<Rightarrow> auth_db \<Rightarrow> (auth_error, admin_user \<times> auth_db) res" where
  "rehash_password E password user s =
     (if argon2_needs_rehash E (us_password_hash user)
      then bind_res (hash_password E password s) (\<lambda>(h, s'). Inr (user\<lparr>us_password_hash := h\<rparr>, s'))
      else Inr (user, s))"

definition finish_login ::
    "auth_env \<Rightarrow> auth_settings \<Rightarrow> login_request \<Rightarrow> admin_user \<Rightarrow> instant \<Rightarrow> auth_db \<Rightarrow> login_result \<times> auth_db" where
  "finish_login E S q user now s =
     (let normalized = fst (login_names E (lq_username q));
          source = hash_context E (''source:'' @ lq_source_identifier q);
          user1 = user\<lparr>us_last_login_at := Some now\<rparr>;
          s1 = s\<lparr>admin_users := put_row us_id user1 (admin_users s)\<rparr>;
          s2 = clear_account_throttle (hash_context E (''account:'' @ normalized)) s1;
          (issued, s3) = create_auth_session E S user1 source (lq_user_agent q) now s2;
          principal = load_principal s3 user1 (iss_session_id issued)
      in (\<lparr>lr_principal = principal, lr_issued_session = issued\<rparr>,
          record_security_event ''auth.login'' Out_SUCCESS (Some source) (Some (us_id user))
            (Some (iss_session_id issued)) (Some normalized) (JObj []) s3))"

definition accept_login ::
    "auth_env \<Rightarrow> auth_settings \<Rightarrow> login_request \<Rightarrow> admin_user \<Rightarrow> instant \<Rightarrow> auth_db \<Rightarrow> (auth_error, login_result) res \<times> auth_db" where
  "accept_login E S q user now s =
     (case rehash_password E (lq_password q) user s of
        Inl e \<Rightarrow> (Inl e, s)
      | Inr (user1, s1) \<Rightarrow> let (result, s2) = finish_login E S q user1 now s1 in (Inr result, s2))"

definition login ::
    "auth_env \<Rightarrow> auth_settings \<Rightarrow> login_request \<Rightarrow> instant \<Rightarrow> auth_db \<Rightarrow> (auth_error, login_result) res \<times> auth_db" where
  "login E S q now s =
     (let wait = retry_after E q now s; (normalized, valid) = login_names E (lq_username q) in
      if wait \<noteq> 0
      then (Inl (LoginRateLimited wait),
        record_security_event ''auth.login'' Out_RATE_LIMITED (Some (hash_context E (''source:'' @ lq_source_identifier q)))
          None None (if valid then Some normalized else None) (JObj [(''retry_after_seconds'', JInt wait)]) s)
      else
        let user = login_user E q s in
        if credentials_ok E q user then accept_login E S q (the user) now s
        else (Inl InvalidCredentials, reject_login E S q user now s))"

section \<open>Sessions\<close>

definition invalid_reason :: "admin_session \<Rightarrow> admin_user \<Rightarrow> instant \<Rightarrow> string option" where
  "invalid_reason row user now =
     (if se_revoked_at row \<noteq> None then Some ''revoked''
      else if us_status user \<noteq> Adm_ACTIVE then Some ''user_disabled''
      else if se_auth_version row \<noteq> us_auth_version user then Some ''auth_version_changed''
      else if se_absolute_expires_at row \<le> now then Some ''absolute_expired''
      else if se_idle_expires_at row \<le> now then Some ''idle_expired''
      else None)"

definition session_row :: "auth_env \<Rightarrow> auth_db \<Rightarrow> string \<Rightarrow> (admin_session \<times> admin_user) option" where
  "session_row E s token =
     (case get_row se_token_hash (hash_token E token) (admin_sessions s) of None \<Rightarrow> None
      | Some row \<Rightarrow> (case get_row us_id (se_user_id row) (admin_users s) of None \<Rightarrow> None
          | Some user \<Rightarrow> Some (row, user)))"

definition put_session :: "admin_session \<Rightarrow> auth_db \<Rightarrow> auth_db" where
  "put_session row s = s\<lparr>admin_sessions := put_row se_id row (admin_sessions s)\<rparr>"

definition authenticate_session ::
    "auth_env \<Rightarrow> auth_settings \<Rightarrow> string \<Rightarrow> instant \<Rightarrow> auth_db \<Rightarrow> (auth_error, auth_context) res \<times> auth_db" where
  "authenticate_session E S token now s =
     (if token = [] then (Inl InvalidSession, s)
      else (case session_row E s token of None \<Rightarrow> (Inl InvalidSession, s)
        | Some (row, user) \<Rightarrow>
            (case invalid_reason row user now of
               Some reason \<Rightarrow>
                 (Inl InvalidSession,
                  if se_revoked_at row = None
                  then record_security_event ''auth.session.invalidated'' Out_REVOKED (se_source_key_hash row)
                         (Some (us_id user)) (Some (se_id row)) (Some (us_username_normalized user))
                         (JObj [(''reason'', JStr reason)])
                         (put_session (row\<lparr>se_revoked_at := Some now, se_revoked_reason := Some reason\<rparr>) s)
                  else s)
             | None \<Rightarrow>
                 let s' = put_session (row\<lparr>se_last_seen_at := now,
                       se_idle_expires_at := min (now + secs (session_idle_seconds S)) (se_absolute_expires_at row)\<rparr>) s
                 in (Inr \<lparr>cx_principal = load_principal s' user (se_id row),
                          cx_csrf_token_hash = se_csrf_token_hash row\<rparr>, s'))))"

definition validate_csrf ::
    "auth_env \<Rightarrow> auth_context \<Rightarrow> string option \<Rightarrow> string option \<Rightarrow> (auth_error, unit) res" where
  "validate_csrf E context cookie header =
     (case (cookie, header) of
        (Some c, Some h) \<Rightarrow>
          if c = [] \<or> h = [] then Inl CsrfRejected
          else if \<not> secrets_equal c h then Inl CsrfRejected
          else if \<not> secrets_equal (hash_token E h) (cx_csrf_token_hash context) then Inl CsrfRejected
          else Inr ()
      | _ \<Rightarrow> Inl CsrfRejected)"

definition revoke_session :: "auth_context \<Rightarrow> string \<Rightarrow> instant \<Rightarrow> auth_db \<Rightarrow> auth_db" where
  "revoke_session context reason now s =
     (let p = cx_principal context in
      case get_row se_id (pn_session_id p) (admin_sessions s) of None \<Rightarrow> s
      | Some row \<Rightarrow>
          if se_revoked_at row \<noteq> None then s
          else record_security_event ''auth.logout'' Out_REVOKED (se_source_key_hash row) (Some (pn_user_id p))
                 (Some (pn_session_id p)) (Some (casefold (pn_username p))) (JObj [])
                 (put_session (row\<lparr>se_revoked_at := Some now, se_revoked_reason := Some reason\<rparr>) s))"

text \<open>The bulk update that revokes the open sessions of users.\<close>

definition revoke_sessions_of :: "uuid set \<Rightarrow> string \<Rightarrow> instant \<Rightarrow> auth_db \<Rightarrow> auth_db" where
  "revoke_sessions_of users reason now s =
     s\<lparr>admin_sessions := map (\<lambda>row. if se_user_id row \<in> users \<and> se_revoked_at row = None
        then row\<lparr>se_revoked_at := Some now, se_revoked_reason := Some reason\<rparr> else row) (admin_sessions s)\<rparr>"

definition invalidate_user_sessions ::
    "uuid \<Rightarrow> string \<Rightarrow> bool \<Rightarrow> instant \<Rightarrow> auth_db \<Rightarrow> (auth_error, auth_db) res" where
  "invalidate_user_sessions i reason disable now s =
     (case get_row us_id i (admin_users s) of None \<Rightarrow> Inl (AuthValueError ''administrator user does not exist'')
      | Some user \<Rightarrow>
          let user1 = user\<lparr>us_auth_version := us_auth_version user + 1,
                us_status := (if disable then Adm_DISABLED else us_status user)\<rparr>;
              s1 = revoke_sessions_of {i} reason now (s\<lparr>admin_users := put_row us_id user1 (admin_users s)\<rparr>)
          in Inr (record_security_event ''auth.user.sessions_invalidated'' Out_REVOKED None (Some (us_id user)) None
               (Some (us_username_normalized user)) (JObj [(''reason'', JStr reason), (''disabled'', JBool disable)]) s1))"
end
