(* ===== verification/Auth_Admin.thy ===== *)
theory Auth_Admin
  imports Auth
begin

text \<open>
  Administration of accounts, roles and permissions (\<open>auth/admin_service.py\<close>,
  \<open>auth/admin_schemas.py\<close>).  A service that raises leaves the state as it was: the caller
  does not commit.
\<close>

section \<open>Requests and views\<close>

definition permission_code_pattern :: regex where
  "permission_code_pattern = RSeq (RSet lower_letters) (RSeq (RStar (RSet (lower_letters @ digit_chars)))
     (RStar (RSeq (RSet ''._/-'') (RPlus (RSet (lower_letters @ digit_chars))))))"

definition role_code_pattern :: regex where
  "role_code_pattern = RSeq (RSet lower_letters) (RStar (RSet (lower_letters @ digit_chars @ ''_-'')))"

definition valid_permission_code :: "string \<Rightarrow> bool" where
  "valid_permission_code c \<longleftrightarrow> 3 \<le> length c \<and> length c \<le> 160 \<and> fullmatch permission_code_pattern c"

definition valid_role_code :: "string \<Rightarrow> bool" where
  "valid_role_code c \<longleftrightarrow> 2 \<le> length c \<and> length c \<le> 120 \<and> fullmatch role_code_pattern c"

record admin_user_create =
  uc_username :: string
  uc_display_name :: "string option"
  uc_password :: string

definition validate_admin_user_create :: "admin_user_create \<Rightarrow> admin_user_create option" where
  "validate_admin_user_create p =
     (if \<not> (3 \<le> length (uc_username p) \<and> length (uc_username p) \<le> 80) then None
      else if (case uc_display_name p of None \<Rightarrow> False | Some d \<Rightarrow> 120 < length d) then None
      else if length (uc_password p) < 12 \<or> 1024 < length (utf8 (uc_password p)) then None
      else Some (p\<lparr>uc_display_name := (case uc_display_name p of None \<Rightarrow> None
             | Some d \<Rightarrow> if strip d = [] then None else Some (strip d))\<rparr>))"

definition validate_role_codes :: "string list \<Rightarrow> string list option" where
  "validate_role_codes codes =
     (if length codes \<le> 100 \<and> list_all valid_role_code codes \<and> distinct codes then Some codes else None)"

definition validate_permission_codes :: "string list \<Rightarrow> string list option" where
  "validate_permission_codes codes =
     (if length codes \<le> 500 \<and> list_all valid_permission_code codes \<and> distinct codes then Some codes else None)"

record rbac_role_create =
  rc_code :: string
  rc_name :: string

definition validate_rbac_role_create :: "rbac_role_create \<Rightarrow> rbac_role_create option" where
  "validate_rbac_role_create p =
     (if \<not> valid_role_code (rc_code p) \<or> \<not> (1 \<le> length (rc_name p) \<and> length (rc_name p) \<le> 120) then None
      else if strip (rc_name p) = [] then None
      else Some (p\<lparr>rc_name := strip (rc_name p)\<rparr>))"

record admin_user_view =
  uv_id :: uuid
  uv_username :: string
  uv_display_name :: "string option"
  uv_status :: admin_status
  uv_auth_version :: int
  uv_roles :: "string list"

record rbac_role_view =
  rv_id :: uuid
  rv_code :: string
  rv_name :: string
  rv_is_system :: bool
  rv_active :: bool
  rv_permissions :: "string list"

definition user_view :: "admin_user \<Rightarrow> string list \<Rightarrow> admin_user_view" where
  "user_view user codes = \<lparr>uv_id = us_id user, uv_username = us_username user, uv_display_name = us_display_name user,
     uv_status = us_status user, uv_auth_version = us_auth_version user, uv_roles = sort codes\<rparr>"

definition role_view :: "rbac_role \<Rightarrow> string list \<Rightarrow> rbac_role_view" where
  "role_view role codes = \<lparr>rv_id = ro_id role, rv_code = ro_code role, rv_name = ro_name role,
     rv_is_system = ro_is_system role, rv_active = ro_active role, rv_permissions = sort codes\<rparr>"

section \<open>Helpers\<close>

datatype admin_error =
    AdminUserNotFoundError
  | AdminRoleNotFoundError
  | DuplicateAdminIdentityError string
  | InvalidRbacBindingError string
  | LastActiveOwnerError
  | OwnerPrivilegesRequiredError string
  | SystemRoleProtectedError string
  | AdminValueError string

text \<open>A \<open>ValueError\<close> of the authentication service passes through.\<close>

definition passed_on :: "auth_error \<Rightarrow> admin_error" where
  "passed_on e = (case e of AuthValueError m \<Rightarrow> AdminValueError m | _ \<Rightarrow> AdminValueError [])"

definition load_user_for_update :: "auth_db \<Rightarrow> uuid \<Rightarrow> (admin_error, admin_user) res" where
  "load_user_for_update s i = of_option AdminUserNotFoundError (get_row us_id i (admin_users s))"

text \<open>The codes missing from those found, sorted and joined.\<close>

definition unknown_codes :: "string list \<Rightarrow> string list \<Rightarrow> string list" where
  "unknown_codes codes found = sort (remdups (filter (\<lambda>c. c \<notin> set found) codes))"

definition resolve_roles :: "auth_db \<Rightarrow> string list \<Rightarrow> (admin_error, rbac_role list) res" where
  "resolve_roles s codes =
     (if codes = [] then Inr []
      else let roles = filter (\<lambda>r. ro_code r \<in> set codes) (rbac_roles s);
               missing = unknown_codes codes (map ro_code roles);
               inactive = sort (remdups (map ro_code (filter (\<lambda>r. \<not> ro_active r) roles)))
           in if missing \<noteq> [] then Inl (InvalidRbacBindingError (''unknown role codes: '' @ join '', '' missing))
              else if inactive \<noteq> [] then Inl (InvalidRbacBindingError (''inactive role codes: '' @ join '', '' inactive))
              else Inr roles)"

definition resolve_permissions :: "auth_db \<Rightarrow> string list \<Rightarrow> (admin_error, rbac_permission list) res" where
  "resolve_permissions s codes =
     (if codes = [] then Inr []
      else let permissions = filter (\<lambda>p. rp_code p \<in> set codes) (rbac_permissions s);
               missing = unknown_codes codes (map rp_code permissions)
           in if missing \<noteq> [] then Inl (InvalidRbacBindingError (''unknown permission codes: '' @ join '', '' missing))
              else Inr permissions)"

definition role_codes_for_user :: "auth_db \<Rightarrow> uuid \<Rightarrow> string list" where
  "role_codes_for_user s i = remdups (map ro_code (roles_of s i))"

definition permission_codes_for_role :: "auth_db \<Rightarrow> uuid \<Rightarrow> string list" where
  "permission_codes_for_role s i = remdups (map rp_code (permissions_of s i))"

definition has_role :: "auth_db \<Rightarrow> uuid \<Rightarrow> uuid \<Rightarrow> bool" where
  "has_role s user role \<longleftrightarrow> list_ex (\<lambda>b. ur_user_id b = user \<and> ur_role_id b = role) (user_roles s)"

definition assert_another_active_owner_exists :: "auth_db \<Rightarrow> uuid \<Rightarrow> (admin_error, unit) res" where
  "assert_another_active_owner_exists s excluding =
     (case get_row ro_code owner_role_code (rbac_roles s) of None \<Rightarrow> Inl LastActiveOwnerError
      | Some role \<Rightarrow>
          check_that (list_ex (\<lambda>u. has_role s (us_id u) (ro_id role) \<and> us_status u = Adm_ACTIVE \<and> us_id u \<noteq> excluding)
            (admin_users s)) LastActiveOwnerError)"

definition invalidate_users :: "uuid list \<Rightarrow> string \<Rightarrow> instant \<Rightarrow> auth_db \<Rightarrow> auth_db" where
  "invalidate_users users reason now s =
     (if users = [] then s
      else revoke_sessions_of (set users) reason now
        (s\<lparr>admin_users := map (\<lambda>u. if us_id u \<in> set users then u\<lparr>us_auth_version := us_auth_version u + 1\<rparr> else u)
             (admin_users s)\<rparr>))"

definition require_owner_actor :: "auth_principal \<Rightarrow> (admin_error, unit) res" where
  "require_owner_actor actor = check_that (is_owner actor) (OwnerPrivilegesRequiredError ''Owner privileges are required'')"

definition record_change :: "auth_principal \<Rightarrow> string \<Rightarrow> string \<Rightarrow> uuid \<Rightarrow> (string \<times> json) list \<Rightarrow> auth_db \<Rightarrow> auth_db" where
  "record_change actor event_type target_type target detail s =
     record_security_event event_type Out_SUCCESS None (Some (pn_user_id actor)) (Some (pn_session_id actor))
       (Some (casefold (pn_username actor)))
       (JObj ([(''target_type'', JStr target_type), (''target_id'', JStr (uuid_str target))] @ detail)) s"

definition admin_status_str :: "admin_status \<Rightarrow> string" where
  "admin_status_str st = (case st of Adm_ACTIVE \<Rightarrow> ''ACTIVE'' | Adm_DISABLED \<Rightarrow> ''DISABLED'')"

section \<open>Operations\<close>

definition list_users :: "auth_db \<Rightarrow> admin_user_view list" where
  "list_users s = map (\<lambda>u. user_view u (map ro_code (roles_of s (us_id u))))
     (sort_key (\<lambda>u. (us_username_normalized u, us_id u)) (admin_users s))"

text \<open>
  \<open>create_user\<close>.  \<open>committed\<close> is the state after the transactions others commit
  between the look-up of the name and the insert.
\<close>

definition create_user ::
    "auth_env \<Rightarrow> admin_user_create \<Rightarrow> auth_principal \<Rightarrow> auth_db \<Rightarrow> auth_db \<Rightarrow> (admin_error, admin_user_view \<times> auth_db) res" where
  "create_user E p actor committed s =
     (case normalize_username E (uc_username p) of Inl e \<Rightarrow> Inl (passed_on e)
      | Inr (canonical, normalized) \<Rightarrow>
          if normalized \<in> us_username_normalized ` set (admin_users s)
          then Inl (DuplicateAdminIdentityError ''administrator username already exists'')
          else (case hash_password E (uc_password p) committed of Inl e \<Rightarrow> Inl (passed_on e)
            | Inr (password_hash, s1) \<Rightarrow>
                let (i, s2) = auth_alloc E s1;
                    user = \<lparr>us_id = i, us_username = canonical, us_username_normalized = normalized,
                      us_display_name = uc_display_name p, us_password_hash = password_hash,
                      us_status = Adm_ACTIVE, us_auth_version = 1, us_last_login_at = None\<rparr>
                in if normalized \<in> us_username_normalized ` set (admin_users s2)
                   then Inl (DuplicateAdminIdentityError ''administrator username already exists'')
                   else Inr (user_view user [],
                     record_change actor ''auth.admin.user.created'' ''admin_user'' i [(''username'', JStr canonical)]
                       (s2\<lparr>admin_users := admin_users s2 @ [user]\<rparr>))))"

definition set_user_status ::
    "uuid \<Rightarrow> admin_status \<Rightarrow> auth_principal \<Rightarrow> instant \<Rightarrow> auth_db \<Rightarrow> (admin_error, admin_user_view \<times> auth_db) res" where
  "set_user_status i status actor now s =
     bind_res (load_user_for_update s i) (\<lambda>user.
       let codes = role_codes_for_user s (us_id user) in
       if owner_role_code \<in> set codes \<and> \<not> is_owner actor
       then Inl (OwnerPrivilegesRequiredError ''only an Owner can modify an Owner account'')
       else if us_status user = status then Inr (user_view user codes, s)
       else bind_res (if status = Adm_DISABLED \<and> owner_role_code \<in> set codes
                      then assert_another_active_owner_exists s (us_id user) else Inr ()) (\<lambda>_.
         let s1 = s\<lparr>admin_users := put_row us_id (user\<lparr>us_status := status\<rparr>) (admin_users s)\<rparr>;
             s2 = invalidate_users [us_id user] ''admin_user_status_changed'' now s1;
             s3 = record_change actor ''auth.admin.user.status_changed'' ''admin_user'' (us_id user)
               [(''from'', JStr (admin_status_str (us_status user))), (''to'', JStr (admin_status_str status))] s2
         in Inr (user_view (user\<lparr>us_status := status, us_auth_version := us_auth_version user + 1\<rparr>) codes, s3)))"

definition replace_user_roles ::
    "uuid \<Rightarrow> string list \<Rightarrow> auth_principal \<Rightarrow> instant \<Rightarrow> auth_db \<Rightarrow> (admin_error, admin_user_view \<times> auth_db) res" where
  "replace_user_roles i wanted actor now s =
     bind_res (require_owner_actor actor) (\<lambda>_.
     bind_res (load_user_for_update s i) (\<lambda>user.
     bind_res (resolve_roles s wanted) (\<lambda>roles.
       let requested = map ro_code roles;
           current_ids = map ur_role_id (filter (\<lambda>b. ur_user_id b = us_id user) (user_roles s));
           current = role_codes_for_user s (us_id user)
       in
       if set current = set requested then Inr (user_view user current, s)
       else bind_res (if us_status user = Adm_ACTIVE \<and> owner_role_code \<in> set current \<and> owner_role_code \<notin> set requested
                      then assert_another_active_owner_exists s (us_id user) else Inr ()) (\<lambda>_.
         let requested_ids = remdups (map ro_id roles);
             kept = filter (\<lambda>b. \<not> (ur_user_id b = us_id user \<and> ur_role_id b \<in> set current_ids - set requested_ids)) (user_roles s);
             added = map (\<lambda>r. \<lparr>ur_user_id = us_id user, ur_role_id = r\<rparr>)
               (filter (\<lambda>r. r \<notin> set current_ids) requested_ids);
             s1 = s\<lparr>user_roles := kept @ added\<rparr>;
             s2 = invalidate_users [us_id user] ''admin_user_roles_changed'' now s1;
             s3 = record_change actor ''auth.admin.user.roles_changed'' ''admin_user'' (us_id user)
               [(''from'', JArr (map JStr (sort current))), (''to'', JArr (map JStr (sort (remdups requested))))] s2
         in Inr (user_view (user\<lparr>us_auth_version := us_auth_version user + 1\<rparr>) (remdups requested), s3)))))"

definition list_roles :: "auth_db \<Rightarrow> rbac_role_view list" where
  "list_roles s = map (\<lambda>r. role_view r (map rp_code (permissions_of s (ro_id r)))) (sort_key ro_code (rbac_roles s))"

definition create_role ::
    "auth_env \<Rightarrow> rbac_role_create \<Rightarrow> auth_principal \<Rightarrow> auth_db \<Rightarrow> auth_db \<Rightarrow> (admin_error, rbac_role_view \<times> auth_db) res" where
  "create_role E p actor committed s =
     bind_res (require_owner_actor actor) (\<lambda>_.
       if rc_code p = owner_role_code
       then Inl (SystemRoleProtectedError ''the Owner system role cannot be created or replaced'')
       else if rc_code p \<in> ro_code ` set (rbac_roles s)
       then Inl (DuplicateAdminIdentityError ''role code already exists'')
       else
         let (i, s1) = auth_alloc E committed;
             role = \<lparr>ro_id = i, ro_code = rc_code p, ro_name = rc_name p, ro_is_system = False, ro_active = True\<rparr>
         in if rc_code p \<in> ro_code ` set (rbac_roles s1)
            then Inl (DuplicateAdminIdentityError ''role code already exists'')
            else Inr (role_view role [],
              record_change actor ''auth.admin.role.created'' ''rbac_role'' i [(''code'', JStr (rc_code p))]
                (s1\<lparr>rbac_roles := rbac_roles s1 @ [role]\<rparr>)))"

definition replace_role_permissions ::
    "uuid \<Rightarrow> string list \<Rightarrow> auth_principal \<Rightarrow> instant \<Rightarrow> auth_db \<Rightarrow> (admin_error, rbac_role_view \<times> auth_db) res" where
  "replace_role_permissions i wanted actor now s =
     bind_res (require_owner_actor actor) (\<lambda>_.
     bind_res (of_option AdminRoleNotFoundError (get_row ro_id i (rbac_roles s))) (\<lambda>role.
       if ro_code role = owner_role_code
       then Inl (SystemRoleProtectedError ''the Owner system role has implicit full access'')
       else bind_res (resolve_permissions s wanted) (\<lambda>permissions.
         let requested = map rp_code permissions;
             current_ids = map xp_permission_id (filter (\<lambda>b. xp_role_id b = ro_id role) (role_permissions s));
             current = permission_codes_for_role s (ro_id role)
         in
         if set current = set requested then Inr (role_view role current, s)
         else
           let requested_ids = remdups (map rp_id permissions);
               kept = filter (\<lambda>b. \<not> (xp_role_id b = ro_id role \<and> xp_permission_id b \<in> set current_ids - set requested_ids))
                 (role_permissions s);
               added = map (\<lambda>p. \<lparr>xp_role_id = ro_id role, xp_permission_id = p\<rparr>)
                 (filter (\<lambda>p. p \<notin> set current_ids) requested_ids);
               s1 = s\<lparr>role_permissions := kept @ added\<rparr>;
               affected = map us_id (filter (\<lambda>u. has_role s (us_id u) (ro_id role)) (admin_users s));
               s2 = invalidate_users affected ''admin_role_permissions_changed'' now s1;
               s3 = record_change actor ''auth.admin.role.permissions_changed'' ''rbac_role'' (ro_id role)
                 [(''from'', JArr (map JStr (sort current))), (''to'', JArr (map JStr (sort (remdups requested))))] s2
           in Inr (role_view role (remdups requested), s3))))"

definition list_permissions :: "auth_db \<Rightarrow> rbac_permission list" where
  "list_permissions s = sort_key rp_code (rbac_permissions s)"

end
