(* ===== verification/Auth_Invariants.thy ===== *)
theory Auth_Invariants
  imports Auth_Admin
begin

text \<open>
  The runs of the authentication and administration services, and what every run keeps: the
  keys of the tables, the owner that is never lost, and the sessions, which are never revived.
\<close>

section \<open>Runs\<close>

text \<open>
  One transaction.  Where a service distinguishes the state it has read from the state it
  writes to, the others' transactions in between are a run of their own.
  \<open>invalidate_user_sessions\<close> is called without \<open>disable_user\<close>: no code sets it.
\<close>

inductive auth_step :: "auth_env \<Rightarrow> auth_settings \<Rightarrow> auth_db \<Rightarrow> auth_db \<Rightarrow> bool"
  and auth_steps :: "auth_env \<Rightarrow> auth_settings \<Rightarrow> auth_db \<Rightarrow> auth_db \<Rightarrow> bool"
  for E :: auth_env and S :: auth_settings
  where
  step_startup: "auth_step E S s (ensure_system_permissions E s)"
| step_bootstrap: "auth_steps E S s u \<Longrightarrow> bootstrap_owner E S b u s = (r, s') \<Longrightarrow> auth_step E S s s'"
| step_login: "login E S q now s = (r, s') \<Longrightarrow> auth_step E S s s'"
| step_authenticate: "authenticate_session E S token now s = (c, s') \<Longrightarrow> auth_step E S s s'"
| step_revoke: "auth_step E S s (revoke_session context reason now s)"
| step_invalidate: "invalidate_user_sessions i reason False now s = Inr s' \<Longrightarrow> auth_step E S s s'"
| step_create_user: "auth_steps E S s u \<Longrightarrow> create_user E p actor u s = Inr (v, s') \<Longrightarrow> auth_step E S s s'"
| step_set_status: "set_user_status i status actor now s = Inr (v, s') \<Longrightarrow> auth_step E S s s'"
| step_replace_roles: "replace_user_roles i codes actor now s = Inr (v, s') \<Longrightarrow> auth_step E S s s'"
| step_create_role: "auth_steps E S s u \<Longrightarrow> create_role E p' actor u s = Inr (rv, s') \<Longrightarrow> auth_step E S s s'"
| step_replace_permissions: "replace_role_permissions i codes actor now s = Inr (rv, s') \<Longrightarrow> auth_step E S s s'"
| steps_refl: "auth_steps E S s s"
| steps_snoc: "auth_steps E S s t \<Longrightarrow> auth_step E S t u \<Longrightarrow> auth_steps E S s u"

lemma auth_steps_trans: "auth_steps E S t u \<Longrightarrow> auth_steps E S s t \<Longrightarrow> auth_steps E S s u"
proof -
  have "(auth_step E S a b \<longrightarrow> True) \<and> (auth_steps E S t u \<longrightarrow> auth_steps E S s t \<longrightarrow> auth_steps E S s u)" for a b
    by (induction rule: auth_step_auth_steps.induct) (auto intro: auth_step_auth_steps.intros)
  then show "auth_steps E S t u \<Longrightarrow> auth_steps E S s t \<Longrightarrow> auth_steps E S s u" by blast
qed

section \<open>What the operations write\<close>

lemma record_security_event_sel [simp]:
  "admin_users (record_security_event a b c d e f g s) = admin_users s"
  "rbac_roles (record_security_event a b c d e f g s) = rbac_roles s"
  "rbac_permissions (record_security_event a b c d e f g s) = rbac_permissions s"
  "user_roles (record_security_event a b c d e f g s) = user_roles s"
  "role_permissions (record_security_event a b c d e f g s) = role_permissions s"
  "admin_sessions (record_security_event a b c d e f g s) = admin_sessions s"
  "bootstrap_states (record_security_event a b c d e f g s) = bootstrap_states s"
  "throttles (record_security_event a b c d e f g s) = throttles s"
  "auth_ids (record_security_event a b c d e f g s) = auth_ids s"
  "tokens_drawn (record_security_event a b c d e f g s) = tokens_drawn s"
  "salts_drawn (record_security_event a b c d e f g s) = salts_drawn s"
  by (simp_all add: record_security_event_def)

lemma record_change_sel [simp]:
  "admin_users (record_change a b c d e s) = admin_users s"
  "rbac_roles (record_change a b c d e s) = rbac_roles s"
  "rbac_permissions (record_change a b c d e s) = rbac_permissions s"
  "user_roles (record_change a b c d e s) = user_roles s"
  "role_permissions (record_change a b c d e s) = role_permissions s"
  "admin_sessions (record_change a b c d e s) = admin_sessions s"
  "bootstrap_states (record_change a b c d e s) = bootstrap_states s"
  "throttles (record_change a b c d e s) = throttles s"
  "auth_ids (record_change a b c d e s) = auth_ids s"
  "tokens_drawn (record_change a b c d e s) = tokens_drawn s"
  by (simp_all add: record_change_def)

text \<open>A state that differs in the tables no invariant mentions.\<close>

definition same_accounts :: "auth_db \<Rightarrow> auth_db \<Rightarrow> bool" where
  "same_accounts s s' \<longleftrightarrow> admin_users s' = admin_users s \<and> rbac_roles s' = rbac_roles s \<and>
     user_roles s' = user_roles s \<and> admin_sessions s' = admin_sessions s \<and>
     bootstrap_states s' = bootstrap_states s \<and> tokens_drawn s' = tokens_drawn s \<and> auth_ids s \<le> auth_ids s'"

lemma same_accountsD:
  assumes "same_accounts s s'"
  shows "admin_users s' = admin_users s" "rbac_roles s' = rbac_roles s" "user_roles s' = user_roles s"
    "admin_sessions s' = admin_sessions s" "bootstrap_states s' = bootstrap_states s"
    "tokens_drawn s' = tokens_drawn s" "auth_ids s \<le> auth_ids s'"
  using assms by (simp_all add: same_accounts_def)

lemma same_accounts_refl [simp]: "same_accounts s s" by (simp add: same_accounts_def)

lemma same_accounts_trans: "same_accounts s t \<Longrightarrow> same_accounts t u \<Longrightarrow> same_accounts s u"
  by (auto simp: same_accounts_def)

lemma same_accounts_event [simp]: "same_accounts s (record_security_event a b c d e f g s)"
  by (simp add: same_accounts_def)

lemma same_accounts_event_after [simp]: "same_accounts s t \<Longrightarrow> same_accounts s (record_security_event a b c d e f g t)"
  by (simp add: same_accounts_def)

lemma same_accounts_throttle [simp]: "same_accounts s (s\<lparr>throttles := t\<rparr>)"
  by (simp add: same_accounts_def)

lemma same_accounts_failure [simp]: "same_accounts s (record_login_failure E S d k now s)"
  by (simp add: same_accounts_def record_login_failure_def auth_alloc_def split: option.split)

lemma same_accounts_hash: "hash_password E p s = Inr (h, s') \<Longrightarrow> same_accounts s s'"
  by (auto simp: hash_password_def same_accounts_def split: sum.splits)

lemma same_accounts_add_permissions: "same_accounts s (add_permissions E cs s)"
proof (induction cs arbitrary: s)
  case (Cons c cs)
  obtain code description where c: "c = (code, description)" by fastforce
  have "same_accounts s (s\<lparr>auth_ids := Suc (auth_ids s), rbac_permissions := ps\<rparr>)" for ps
    by (simp add: same_accounts_def)
  from this Cons show ?case unfolding c by (simp add: auth_alloc_def) (rule same_accounts_trans)
qed simp

lemma same_accounts_ensure [simp]: "same_accounts s (ensure_system_permissions E s)"
  by (simp add: ensure_system_permissions_def same_accounts_add_permissions)

lemma same_accounts_reject: "same_accounts s (reject_login E S q u now s)"
  unfolding reject_login_def Let_def case_prod_beta
  by (intro same_accounts_event_after) (rule same_accounts_trans[OF same_accounts_failure same_accounts_failure])

section \<open>The invariant\<close>

definition drawn :: "auth_env \<Rightarrow> auth_db \<Rightarrow> uuid set" where
  "drawn E s = uuid7 (lib E) ` {..<auth_ids s}"

definition issued_hashes :: "auth_env \<Rightarrow> auth_db \<Rightarrow> string set" where
  "issued_hashes E s = (\<lambda>n. hash_token E (token_urlsafe E n)) ` {..<tokens_drawn s}"

definition users_ok :: "auth_env \<Rightarrow> auth_db \<Rightarrow> bool" where
  "users_ok E s \<longleftrightarrow> unique_by us_id (admin_users s) \<and> unique_by us_username_normalized (admin_users s) \<and>
     us_id ` set (admin_users s) \<subseteq> drawn E s"

definition roles_ok :: "auth_env \<Rightarrow> auth_db \<Rightarrow> bool" where
  "roles_ok E s \<longleftrightarrow> unique_by ro_id (rbac_roles s) \<and> unique_by ro_code (rbac_roles s) \<and>
     ro_id ` set (rbac_roles s) \<subseteq> drawn E s \<and>
     (\<forall>r\<in>set (rbac_roles s). ro_code r = owner_role_code \<longrightarrow> ro_active r)"

definition session_ok :: "admin_user list \<Rightarrow> admin_session \<Rightarrow> bool" where
  "session_ok users row \<longleftrightarrow> se_idle_expires_at row \<le> se_absolute_expires_at row \<and>
     (\<exists>u. get_row us_id (se_user_id row) users = Some u \<and> se_auth_version row \<le> us_auth_version u)"

definition sessions_ok :: "auth_env \<Rightarrow> auth_db \<Rightarrow> bool" where
  "sessions_ok E s \<longleftrightarrow> unique_by se_id (admin_sessions s) \<and> se_id ` set (admin_sessions s) \<subseteq> drawn E s \<and>
     se_token_hash ` set (admin_sessions s) \<subseteq> issued_hashes E s \<and>
     (\<forall>row\<in>set (admin_sessions s). session_ok (admin_users s) row)"

text \<open>Some active account is bound to the role of the owner.\<close>

definition active_owner :: "auth_db \<Rightarrow> admin_user \<Rightarrow> bool" where
  "active_owner s u \<longleftrightarrow> u \<in> set (admin_users s) \<and> us_status u = Adm_ACTIVE \<and>
     (\<exists>r\<in>set (rbac_roles s). ro_code r = owner_role_code \<and> has_role s (us_id u) (ro_id r))"

definition owner_ok :: "auth_db \<Rightarrow> bool" where
  "owner_ok s \<longleftrightarrow> (bootstrap_states s \<noteq> [] \<longrightarrow> (\<exists>u. active_owner s u))"

definition auth_ok :: "auth_env \<Rightarrow> auth_db \<Rightarrow> bool" where
  "auth_ok E s \<longleftrightarrow> users_ok E s \<and> roles_ok E s \<and> sessions_ok E s \<and> owner_ok s"

lemma drawn_mono: "auth_ids s \<le> auth_ids s' \<Longrightarrow> drawn E s \<subseteq> drawn E s'"
  by (auto simp: drawn_def)

lemma issued_mono: "tokens_drawn s \<le> tokens_drawn s' \<Longrightarrow> issued_hashes E s \<subseteq> issued_hashes E s'"
  by (auto simp: issued_hashes_def)

lemma fresh_key:
  assumes "inj_on (uuid7 (lib E)) {..<n}" "auth_ids s < n"
  shows "uuid7 (lib E) (auth_ids s) \<notin> drawn E s"
proof
  assume "uuid7 (lib E) (auth_ids s) \<in> drawn E s"
  then obtain k where k: "k < auth_ids s" "uuid7 (lib E) (auth_ids s) = uuid7 (lib E) k" by (auto simp: drawn_def)
  have "auth_ids s = k" by (rule inj_onD[OF assms(1) k(2)]) (use k(1) assms(2) in auto)
  then show False using k(1) by simp
qed

lemma auth_ok_same_accounts: "same_accounts s s' \<Longrightarrow> auth_ok E s \<Longrightarrow> auth_ok E s'"
  using drawn_mono[of s s' E]
  by (auto simp: auth_ok_def users_ok_def roles_ok_def sessions_ok_def owner_ok_def active_owner_def has_role_def
      issued_hashes_def same_accountsD)

lemma empty_auth_ok: "auth_ok E empty_auth_db"
  by (simp add: auth_ok_def users_ok_def roles_ok_def sessions_ok_def owner_ok_def empty_auth_db_def unique_by_def)

text \<open>
  What every step keeps of the earlier state: no session is lost or revived, no account is lost
  or loses a version, and the bootstrap is not undone.
\<close>

definition session_le :: "admin_session \<Rightarrow> admin_session \<Rightarrow> bool" where
  "session_le row row' \<longleftrightarrow> se_id row' = se_id row \<and> se_user_id row' = se_user_id row \<and>
     se_token_hash row' = se_token_hash row \<and> se_csrf_token_hash row' = se_csrf_token_hash row \<and>
     se_auth_version row' = se_auth_version row \<and> se_absolute_expires_at row' = se_absolute_expires_at row \<and>
     (se_revoked_at row \<noteq> None \<longrightarrow> row' = row)"

definition user_le :: "admin_user \<Rightarrow> admin_user \<Rightarrow> bool" where
  "user_le u u' \<longleftrightarrow> us_id u' = us_id u \<and> us_username_normalized u' = us_username_normalized u \<and>
     us_auth_version u \<le> us_auth_version u'"

definition extends_by :: "('a \<Rightarrow> 'a \<Rightarrow> bool) \<Rightarrow> 'a list \<Rightarrow> 'a list \<Rightarrow> bool" where
  "extends_by R xs ys \<longleftrightarrow> (\<exists>xs' zs. ys = xs' @ zs \<and> list_all2 R xs xs')"

definition auth_keeps :: "auth_db \<Rightarrow> auth_db \<Rightarrow> bool" where
  "auth_keeps s s' \<longleftrightarrow> extends_by session_le (admin_sessions s) (admin_sessions s') \<and>
     extends_by user_le (admin_users s) (admin_users s') \<and>
     (bootstrap_states s \<noteq> [] \<longrightarrow> bootstrap_states s' \<noteq> []) \<and>
     auth_ids s \<le> auth_ids s' \<and> tokens_drawn s \<le> tokens_drawn s'"

lemma session_le_refl [simp]: "session_le r r" by (simp add: session_le_def)
lemma user_le_refl [simp]: "user_le u u" by (simp add: user_le_def)
lemma session_le_trans: "session_le a b \<Longrightarrow> session_le b c \<Longrightarrow> session_le a c" by (auto simp: session_le_def)
lemma user_le_trans: "user_le a b \<Longrightarrow> user_le b c \<Longrightarrow> user_le a c" by (auto simp: user_le_def)

lemma extends_by_refl [simp]: "(\<And>x. R x x) \<Longrightarrow> extends_by R xs xs"
  unfolding extends_by_def by (intro exI[of _ xs] exI[of _ "[]"]) (simp add: list_all2_same)

lemma extends_by_append [simp]: "(\<And>x. R x x) \<Longrightarrow> extends_by R xs (xs @ ys)"
  unfolding extends_by_def by (intro exI[of _ xs] exI[of _ ys]) (simp add: list_all2_same)

lemma extends_by_trans:
  assumes "extends_by R xs ys" "extends_by R ys zs" "\<And>a b c. R a b \<Longrightarrow> R b c \<Longrightarrow> R a c"
  shows "extends_by R xs zs"
proof -
  obtain xs' us where y: "ys = xs' @ us" "list_all2 R xs xs'" using assms(1) by (auto simp: extends_by_def)
  obtain ys' ws where z: "zs = ys' @ ws" "list_all2 R ys ys'" using assms(2) by (auto simp: extends_by_def)
  obtain a b where ab: "ys' = a @ b" "list_all2 R xs' a" "list_all2 R us b"
    using z(2) unfolding y(1) by (auto simp: list_all2_append1)
  have "list_all2 R xs a" by (rule list_all2_trans[OF _ y(2) ab(2)]) (rule assms(3))
  then show ?thesis using z(1) ab(1) unfolding extends_by_def by (intro exI[of _ a] exI[of _ "b @ ws"]) simp
qed

lemma extends_by_map: "(\<And>x. x \<in> set xs \<Longrightarrow> R x (f x)) \<Longrightarrow> extends_by R xs (map f xs)"
  unfolding extends_by_def by (intro exI[of _ "map f xs"] exI[of _ "[]"]) (auto simp: list_all2_conv_all_nth)

lemma extends_by_put_row:
  assumes "unique_by key rows" "row \<in> set rows" "R row row'" "key row' = key row" "\<And>x. R x x"
  shows "extends_by R rows (put_row key row' rows)"
  unfolding put_row_def
proof (rule extends_by_map)
  show "R x (if key x = key row' then row' else x)" if "x \<in> set rows" for x
    using assms that by (auto simp: unique_by_def distinct_map inj_on_def)
qed

lemma auth_keeps_refl [simp]: "auth_keeps s s" by (simp add: auth_keeps_def)

lemma auth_keeps_trans: "auth_keeps s t \<Longrightarrow> auth_keeps t u \<Longrightarrow> auth_keeps s u"
  unfolding auth_keeps_def using extends_by_trans[of session_le] extends_by_trans[of user_le] session_le_trans user_le_trans
  by (meson order_trans)

lemma auth_keeps_same_accounts: "same_accounts s s' \<Longrightarrow> auth_keeps s s'"
  by (simp add: auth_keeps_def same_accountsD)

lemma get_row_extends:
  assumes "list_all2 R xs ys" "\<And>x y. R x y \<Longrightarrow> key y = key x" "get_row key k xs = Some x"
  shows "\<exists>y. get_row key k (ys @ zs) = Some y \<and> R x y"
  using assms(1,3)
proof (induction rule: list_all2_induct)
  case (Cons a xs b ys)
  then show ?case using assms(2)[OF Cons(1)] by (auto simp: get_row_Cons split: if_splits)
qed simp

lemma extends_get_row:
  assumes "extends_by R xs ys" "\<And>x y. R x y \<Longrightarrow> key y = key x" "get_row key k xs = Some x"
  obtains y where "get_row key k ys = Some y" "R x y"
  using assms get_row_extends[OF _ assms(2,3)] unfolding extends_by_def by metis

lemma session_ok_users:
  assumes "extends_by user_le us us'" "session_ok us row"
  shows "session_ok us' row"
proof -
  obtain u where u: "get_row us_id (se_user_id row) us = Some u" "se_auth_version row \<le> us_auth_version u"
    using assms(2) by (auto simp: session_ok_def)
  obtain u' where "get_row us_id (se_user_id row) us' = Some u'" "user_le u u'"
    using extends_get_row[OF assms(1) _ u(1)] by (auto simp: user_le_def)
  then show ?thesis using assms(2) u(2) by (auto simp: session_ok_def user_le_def)
qed

lemma fresh_drawn: "auth_ids s < auth_ids s' \<Longrightarrow> uuid7 (lib E) (auth_ids s) \<in> drawn E s'"
  by (auto simp: drawn_def)

text \<open>One update of each table: some rows rewritten in place, and at most one row added.\<close>

lemma unique_by_extended:
  assumes "unique_by key rows" "\<And>r. r \<in> set rows \<Longrightarrow> key (f r) = key r"
    "new = [] \<or> (\<exists>r. new = [r] \<and> key r \<notin> key ` set rows)"
  shows "unique_by key (map f rows @ new)"
proof -
  have k: "map key (map f rows @ new) = map key rows @ map key new" using assms(2) by simp
  from assms(3) show ?thesis
  proof
    assume "new = []"
    then show ?thesis using assms(1) k by (simp only: unique_by_def) simp
  next
    assume "\<exists>r. new = [r] \<and> key r \<notin> key ` set rows"
    then have "distinct (map key rows @ map key new)" using assms(1) by (auto simp: unique_by_def image_iff)
    then show ?thesis unfolding unique_by_def k .
  qed
qed

lemma image_extended:
  assumes "\<And>r. r \<in> set rows \<Longrightarrow> key (f r) = key r"
  shows "key ` set (map f rows @ new) = key ` set rows \<union> key ` set new"
proof -
  have "(\<lambda>r. key (f r)) ` set rows = key ` set rows" using assms by (rule image_cong[OF refl])
  then show ?thesis by (simp add: image_Un image_image)
qed

lemma users_step:
  assumes ok: "users_ok E s" and ids: "auth_ids s \<le> auth_ids s'"
    and users: "admin_users s' = map f (admin_users s) @ new"
    and le: "\<And>u. u \<in> set (admin_users s) \<Longrightarrow> user_le u (f u)"
    and new: "new = [] \<or> (\<exists>u. new = [u] \<and> us_id u \<notin> drawn E s \<and> us_id u \<in> drawn E s' \<and>
      us_username_normalized u \<notin> us_username_normalized ` set (admin_users s))"
  shows "users_ok E s' \<and> extends_by user_le (admin_users s) (admin_users s')"
proof -
  have same: "us_id (f u) = us_id u" "us_username_normalized (f u) = us_username_normalized u"
    if "u \<in> set (admin_users s)" for u
    using le[OF that] by (simp_all add: user_le_def)
  have k: "unique_by us_id (admin_users s)" "unique_by us_username_normalized (admin_users s)" "us_id ` set (admin_users s) \<subseteq> drawn E s"
    using ok by (auto simp: users_ok_def)
  have "list_all2 user_le (admin_users s) (map f (admin_users s))" using le by (simp add: list_all2_conv_all_nth)
  then have "extends_by user_le (admin_users s) (admin_users s')" using users by (auto simp: extends_by_def)
  moreover have "unique_by us_id (admin_users s')"
    unfolding users by (rule unique_by_extended[OF k(1)]) (use same new k(3) in blast)+
  moreover have "unique_by us_username_normalized (admin_users s')"
    unfolding users by (rule unique_by_extended[OF k(2)]) (use same new in auto)
  moreover have "us_id ` set (admin_users s') = us_id ` set (admin_users s) \<union> us_id ` set new"
    unfolding users by (rule image_extended) (rule same)
  then have "us_id ` set (admin_users s') \<subseteq> drawn E s'" using k(3) new drawn_mono[OF ids, of E] by auto
  ultimately show ?thesis by (simp add: users_ok_def)
qed

lemma sessions_step:
  assumes ok: "sessions_ok E s" and ids: "auth_ids s \<le> auth_ids s'" "tokens_drawn s \<le> tokens_drawn s'"
    and users: "extends_by user_le (admin_users s) (admin_users s')"
    and sessions: "admin_sessions s' = map f (admin_sessions s) @ new"
    and le: "\<And>r. r \<in> set (admin_sessions s) \<Longrightarrow> session_le r (f r) \<and>
      (se_idle_expires_at (f r) = se_idle_expires_at r \<or> se_idle_expires_at (f r) \<le> se_absolute_expires_at r)"
    and new: "new = [] \<or> (\<exists>r. new = [r] \<and> se_id r \<notin> drawn E s \<and> se_id r \<in> drawn E s' \<and>
      se_token_hash r \<in> issued_hashes E s' \<and> session_ok (admin_users s') r)"
  shows "sessions_ok E s' \<and> extends_by session_le (admin_sessions s) (admin_sessions s')"
proof -
  have same: "se_id (f r) = se_id r" "se_token_hash (f r) = se_token_hash r" if "r \<in> set (admin_sessions s)" for r
    using le[OF that] by (simp_all add: session_le_def)
  have k: "unique_by se_id (admin_sessions s)" "se_id ` set (admin_sessions s) \<subseteq> drawn E s"
    "se_token_hash ` set (admin_sessions s) \<subseteq> issued_hashes E s"
    using ok by (auto simp: sessions_ok_def)
  have old: "session_ok (admin_users s') (f r)" if r: "r \<in> set (admin_sessions s)" for r
  proof -
    have "session_ok (admin_users s') r" using session_ok_users[OF users] ok r by (auto simp: sessions_ok_def)
    then show ?thesis using le[OF r] by (auto simp: session_ok_def session_le_def)
  qed
  have "list_all2 session_le (admin_sessions s) (map f (admin_sessions s))" using le by (simp add: list_all2_conv_all_nth)
  then have "extends_by session_le (admin_sessions s) (admin_sessions s')" using sessions by (auto simp: extends_by_def)
  moreover have "unique_by se_id (admin_sessions s')"
    unfolding sessions by (rule unique_by_extended[OF k(1)]) (use same new k(2) in blast)+
  moreover have "se_id ` set (admin_sessions s') = se_id ` set (admin_sessions s) \<union> se_id ` set new"
    "se_token_hash ` set (admin_sessions s') = se_token_hash ` set (admin_sessions s) \<union> se_token_hash ` set new"
    unfolding sessions by (rule image_extended; rule same; assumption)+
  then have "se_id ` set (admin_sessions s') \<subseteq> drawn E s'" "se_token_hash ` set (admin_sessions s') \<subseteq> issued_hashes E s'"
    using k(2,3) new drawn_mono[OF ids(1), of E] issued_mono[OF ids(2), of E] by auto
  moreover have "\<forall>r\<in>set (admin_sessions s'). session_ok (admin_users s') r"
    unfolding sessions using old new by auto
  ultimately show ?thesis by (simp add: sessions_ok_def)
qed

lemma sessions_unchanged:
  assumes "sessions_ok E s" "auth_ids s \<le> auth_ids s'" "tokens_drawn s' = tokens_drawn s"
    "extends_by user_le (admin_users s) (admin_users s')" "admin_sessions s' = admin_sessions s"
  shows "sessions_ok E s' \<and> extends_by session_le (admin_sessions s) (admin_sessions s')"
  using sessions_step[OF assms(1,2) _ assms(4), of "\<lambda>r. r" "[]"] assms(3,5) by simp

lemma roles_step:
  assumes "roles_ok E s" "auth_ids s \<le> auth_ids s'" "rbac_roles s' = rbac_roles s @ new"
    "new = [] \<or> (\<exists>r. new = [r] \<and> ro_id r \<notin> drawn E s \<and> ro_id r \<in> drawn E s' \<and> ro_code r \<notin> ro_code ` set (rbac_roles s) \<and> ro_active r)"
  shows "roles_ok E s'"
  using assms drawn_mono[OF assms(2), of E] unfolding roles_ok_def assms(3) by (auto simp: unique_by_snoc)

lemma auth_okI:
  assumes "users_ok E s' \<and> extends_by user_le (admin_users s) (admin_users s')"
    "sessions_ok E s' \<and> extends_by session_le (admin_sessions s) (admin_sessions s')"
    "roles_ok E s'" "owner_ok s'" "bootstrap_states s \<noteq> [] \<Longrightarrow> bootstrap_states s' \<noteq> []"
    "auth_ids s \<le> auth_ids s'" "tokens_drawn s \<le> tokens_drawn s'"
  shows "auth_ok E s' \<and> auth_keeps s s'"
  using assms by (simp add: auth_ok_def auth_keeps_def)

lemma auth_same_accounts: "same_accounts s s' \<Longrightarrow> auth_ok E s \<Longrightarrow> auth_ok E s' \<and> auth_keeps s s'"
  using auth_ok_same_accounts auth_keeps_same_accounts by blast

text \<open>An owner stays one when neither its account nor its binding is touched.\<close>

lemma owner_ok_map:
  assumes "owner_ok s" "set (admin_users s') \<supseteq> f ` set (admin_users s)" "bootstrap_states s' = bootstrap_states s"
    "set (rbac_roles s) \<subseteq> set (rbac_roles s')" "set (user_roles s) \<subseteq> set (user_roles s')"
    "\<And>u. u \<in> set (admin_users s) \<Longrightarrow> us_id (f u) = us_id u \<and> us_status (f u) = us_status u"
  shows "owner_ok s'"
proof (unfold owner_ok_def, intro impI)
  assume "bootstrap_states s' \<noteq> []"
  then obtain u where u: "active_owner s u" using assms(1,3) by (auto simp: owner_ok_def)
  have "active_owner s' (f u)" using u assms(2,4-6) by (fastforce simp: active_owner_def has_role_def list_ex_iff)
  then show "\<exists>u. active_owner s' u" by blast
qed

text \<open>Sessions being revoked, by token, by key or for users.\<close>

lemma put_session_sel [simp]:
  "admin_users (put_session r s) = admin_users s" "rbac_roles (put_session r s) = rbac_roles s"
  "user_roles (put_session r s) = user_roles s" "bootstrap_states (put_session r s) = bootstrap_states s"
  "auth_ids (put_session r s) = auth_ids s" "tokens_drawn (put_session r s) = tokens_drawn s"
  "throttles (put_session r s) = throttles s" "role_permissions (put_session r s) = role_permissions s"
  "rbac_permissions (put_session r s) = rbac_permissions s"
  "admin_sessions (put_session r s) = put_row se_id r (admin_sessions s)"
  by (simp_all add: put_session_def)

lemma revoke_sessions_sel [simp]:
  "admin_users (revoke_sessions_of us r now s) = admin_users s" "rbac_roles (revoke_sessions_of us r now s) = rbac_roles s"
  "user_roles (revoke_sessions_of us r now s) = user_roles s" "bootstrap_states (revoke_sessions_of us r now s) = bootstrap_states s"
  "auth_ids (revoke_sessions_of us r now s) = auth_ids s" "tokens_drawn (revoke_sessions_of us r now s) = tokens_drawn s"
  "throttles (revoke_sessions_of us r now s) = throttles s" "role_permissions (revoke_sessions_of us r now s) = role_permissions s"
  "rbac_permissions (revoke_sessions_of us r now s) = rbac_permissions s"
  by (simp_all add: revoke_sessions_of_def)

lemma put_session_step:
  assumes ok: "auth_ok E s" and row: "row \<in> set (admin_sessions s)" and le: "session_le row row'"
    and idle: "se_idle_expires_at row' = se_idle_expires_at row \<or> se_idle_expires_at row' \<le> se_absolute_expires_at row"
  shows "auth_ok E (put_session row' s) \<and> auth_keeps s (put_session row' s)"
proof (rule auth_okI)
  have u: "unique_by se_id (admin_sessions s)" and id: "se_id row' = se_id row"
    using ok le by (auto simp: auth_ok_def sessions_ok_def session_le_def)
  have only: "r = row" if "r \<in> set (admin_sessions s)" "se_id r = se_id row" for r
    using u row that by (auto simp: unique_by_def distinct_map inj_on_def)
  show "sessions_ok E (put_session row' s) \<and> extends_by session_le (admin_sessions s) (admin_sessions (put_session row' s))"
    by (rule sessions_step[where new = "[]" and f = "\<lambda>r. if se_id r = se_id row' then row' else r"])
      (use ok le idle only id in \<open>auto simp: auth_ok_def put_row_def\<close>)
qed (use ok in \<open>auto simp: auth_ok_def users_ok_def roles_ok_def owner_ok_def active_owner_def has_role_def drawn_def\<close>)

section \<open>Every operation keeps the invariant\<close>

lemma put_user_step:
  assumes ok: "auth_ok E s" and user: "user \<in> set (admin_users s)" and le: "user_le user user'"
    and owner: "owner_ok (s\<lparr>admin_users := put_row us_id user' (admin_users s)\<rparr>)"
  shows "auth_ok E (s\<lparr>admin_users := put_row us_id user' (admin_users s)\<rparr>) \<and>
    auth_keeps s (s\<lparr>admin_users := put_row us_id user' (admin_users s)\<rparr>)" (is "auth_ok E ?s \<and> _")
proof (rule auth_okI)
  have only: "u = user" if "u \<in> set (admin_users s)" "us_id u = us_id user" for u
    using ok user that by (auto simp: auth_ok_def users_ok_def unique_by_def distinct_map inj_on_def)
  have id: "us_id user' = us_id user" using le by (simp add: user_le_def)
  show users: "users_ok E ?s \<and> extends_by user_le (admin_users s) (admin_users ?s)"
    by (rule users_step[where new = "[]" and f = "\<lambda>u. if us_id u = us_id user' then user' else u"])
      (use ok le only id in \<open>auto simp: auth_ok_def put_row_def\<close>)
  show "sessions_ok E ?s \<and> extends_by session_le (admin_sessions s) (admin_sessions ?s)"
    by (rule sessions_unchanged) (use ok users in \<open>auto simp: auth_ok_def\<close>)
qed (use ok owner in \<open>auto simp: auth_ok_def roles_ok_def drawn_def\<close>)

lemma put_active_user_step:
  assumes "auth_ok E s" "user \<in> set (admin_users s)" "user_le user user'" "us_status user' = us_status user"
  shows "auth_ok E (s\<lparr>admin_users := put_row us_id user' (admin_users s)\<rparr>) \<and>
    auth_keeps s (s\<lparr>admin_users := put_row us_id user' (admin_users s)\<rparr>)"
proof (rule put_user_step[OF assms(1-3)])
  have only: "u = user" if "u \<in> set (admin_users s)" "us_id u = us_id user" for u
    using assms(1,2) that by (auto simp: auth_ok_def users_ok_def unique_by_def distinct_map inj_on_def)
  show "owner_ok (s\<lparr>admin_users := put_row us_id user' (admin_users s)\<rparr>)"
    by (rule owner_ok_map[of s, where f = "\<lambda>u. if us_id u = us_id user' then user' else u"])
      (use assms only in \<open>auto simp: auth_ok_def put_row_def user_le_def\<close>)
qed

lemma revoke_sessions_step:
  assumes ok: "auth_ok E s"
  shows "auth_ok E (revoke_sessions_of us reason now s) \<and> auth_keeps s (revoke_sessions_of us reason now s)"
    (is "auth_ok E ?s \<and> _")
proof (rule auth_okI)
  show "sessions_ok E ?s \<and> extends_by session_le (admin_sessions s) (admin_sessions ?s)"
    by (rule sessions_step[where new = "[]" and f = "\<lambda>row. if se_user_id row \<in> us \<and> se_revoked_at row = None
        then row\<lparr>se_revoked_at := Some now, se_revoked_reason := Some reason\<rparr> else row"])
      (use ok in \<open>auto simp: auth_ok_def revoke_sessions_of_def session_le_def\<close>)
qed (use ok in \<open>auto simp: auth_ok_def users_ok_def roles_ok_def owner_ok_def active_owner_def has_role_def drawn_def\<close>)

lemma invalidate_users_step:
  assumes ok: "auth_ok E s"
  shows "auth_ok E (invalidate_users us reason now s) \<and> auth_keeps s (invalidate_users us reason now s)"
proof (cases "us = []")
  case False
  let ?f = "\<lambda>u. if us_id u \<in> set us then u\<lparr>us_auth_version := us_auth_version u + 1\<rparr> else u"
  let ?s = "s\<lparr>admin_users := map ?f (admin_users s)\<rparr>"
  have "auth_ok E ?s \<and> auth_keeps s ?s"
  proof (rule auth_okI)
    show users: "users_ok E ?s \<and> extends_by user_le (admin_users s) (admin_users ?s)"
      by (rule users_step[where new = "[]" and f = ?f]) (use ok in \<open>auto simp: auth_ok_def user_le_def\<close>)
    show "sessions_ok E ?s \<and> extends_by session_le (admin_sessions s) (admin_sessions ?s)"
      by (rule sessions_unchanged) (use ok users in \<open>auto simp: auth_ok_def\<close>)
    show "owner_ok ?s" by (rule owner_ok_map[of s, where f = ?f]) (use ok in \<open>auto simp: auth_ok_def\<close>)
  qed (use ok in \<open>auto simp: auth_ok_def roles_ok_def drawn_def\<close>)
  then show ?thesis
    using False revoke_sessions_step[of E ?s "set us" reason now] auth_keeps_trans by (auto simp: invalidate_users_def)
qed (use ok in \<open>simp add: invalidate_users_def\<close>)

text \<open>Steps in a row.\<close>

lemma keeps_then:
  assumes "auth_ok E s \<Longrightarrow> auth_ok E t \<and> auth_keeps s t" "auth_ok E t \<Longrightarrow> auth_ok E u \<and> auth_keeps t u" "auth_ok E s"
  shows "auth_ok E u \<and> auth_keeps s u"
  using assms auth_keeps_trans by blast

lemma authenticate_keeps:
  assumes a: "authenticate_session E S token now s = (c, s')" and ok: "auth_ok E s"
  shows "auth_ok E s' \<and> auth_keeps s s'"
proof (cases "token = [] \<or> session_row E s token = None")
  case True
  then have "s' = s" using a by (cases "token = []") (auto simp: authenticate_session_def)
  then show ?thesis using ok by simp
next
  case False
  then obtain row user where r: "session_row E s token = Some (row, user)" by auto
  then have row: "row \<in> set (admin_sessions s)"
    by (auto simp: session_row_def split: option.splits dest: get_row_Some_mem)
  note step = put_session_step[OF ok row]
  have event: "auth_ok E t \<and> auth_keeps s t \<Longrightarrow> auth_ok E (record_security_event b d e f g h i t) \<and>
      auth_keeps s (record_security_event b d e f g h i t)" for t b d e f g h i
    using auth_same_accounts[OF same_accounts_event[of t]] auth_keeps_trans by blast
  show ?thesis
    using a False r
      event[OF step[of "row\<lparr>se_revoked_at := Some now, se_revoked_reason := Some (the (invalid_reason row user now))\<rparr>"]]
      step[of "row\<lparr>se_last_seen_at := now, se_idle_expires_at := min (now + secs (session_idle_seconds S)) (se_absolute_expires_at row)\<rparr>"]
      ok
    by (auto simp: authenticate_session_def session_le_def invalid_reason_def Let_def split: option.splits if_splits)
qed

lemma revoke_keeps: "auth_ok E s \<Longrightarrow> auth_ok E (revoke_session context reason now s) \<and> auth_keeps s (revoke_session context reason now s)"
proof -
  assume ok: "auth_ok E s"
  show ?thesis
  proof (cases "get_row se_id (pn_session_id (cx_principal context)) (admin_sessions s)")
    case (Some row)
    then have row: "row \<in> set (admin_sessions s)" using get_row_Some_mem by fast
    show ?thesis
      using Some put_session_step[OF ok row, of "row\<lparr>se_revoked_at := Some now, se_revoked_reason := Some reason\<rparr>"]
        auth_same_accounts[OF same_accounts_event] auth_keeps_trans ok
      by (auto simp: revoke_session_def Let_def session_le_def)
  qed (use ok in \<open>simp add: revoke_session_def\<close>)
qed

lemma invalidate_user_sessions_keeps:
  assumes i: "invalidate_user_sessions i reason False now s = Inr s'" and ok: "auth_ok E s"
  shows "auth_ok E s' \<and> auth_keeps s s'"
proof -
  obtain user where u: "get_row us_id i (admin_users s) = Some user" using i by (auto simp: invalidate_user_sessions_def split: option.splits)
  then have mem: "user \<in> set (admin_users s)" using get_row_Some_mem by fast
  let ?u = "user\<lparr>us_auth_version := us_auth_version user + 1, us_status := us_status user\<rparr>"
  let ?s = "s\<lparr>admin_users := put_row us_id ?u (admin_users s)\<rparr>"
  have 1: "auth_ok E ?s \<and> auth_keeps s ?s" by (rule put_active_user_step[OF ok mem]) (simp_all add: user_le_def)
  have 2: "auth_ok E (revoke_sessions_of {i} reason now ?s) \<and> auth_keeps ?s (revoke_sessions_of {i} reason now ?s)"
    by (rule revoke_sessions_step) (use 1 in simp)
  have 3: "same_accounts (revoke_sessions_of {i} reason now ?s) s'"
    using i u by (auto simp: invalidate_user_sessions_def Let_def)
  show ?thesis using 1 2 auth_same_accounts[OF 3] auth_keeps_trans by blast
qed

lemma create_session_step:
  assumes c: "create_auth_session E S user source agent now s = (issued, s')" and ok: "auth_ok E s"
    and keys: "inj_on (uuid7 (lib E)) {..<auth_ids s'}" and user: "user \<in> set (admin_users s)"
    and set: "auth_settings_ok S"
  shows "auth_ok E s' \<and> auth_keeps s s'"
proof -
  let ?row = "last (admin_sessions s')"
  have ids: "auth_ids s' = Suc (auth_ids s)" "tokens_drawn s' = Suc (Suc (tokens_drawn s))"
    and same: "admin_users s' = admin_users s" "rbac_roles s' = rbac_roles s" "user_roles s' = user_roles s"
      "bootstrap_states s' = bootstrap_states s"
    and rows: "admin_sessions s' = admin_sessions s @ [?row]"
    and row: "se_id ?row = uuid7 (lib E) (auth_ids s)" "se_token_hash ?row = hash_token E (token_urlsafe E (tokens_drawn s))"
      "se_user_id ?row = us_id user" "se_auth_version ?row = us_auth_version user"
      "se_idle_expires_at ?row \<le> se_absolute_expires_at ?row"
    using c by (auto simp: create_auth_session_def auth_alloc_def generate_token_def Let_def)
  have new: "session_ok (admin_users s') ?row" using row ok user get_row_unique[of us_id "admin_users s" user]
    by (auto simp: session_ok_def same auth_ok_def users_ok_def)
  have hash: "se_token_hash ?row \<in> issued_hashes E s'" unfolding issued_hashes_def row(2) ids(2) by auto
  have fresh: "se_id ?row \<notin> drawn E s" "se_id ?row \<in> drawn E s'"
    unfolding row(1) using fresh_key[OF keys, of s] fresh_drawn[of s s' E] ids(1) by simp_all
  show ?thesis
  proof (rule auth_okI)
    show "sessions_ok E s' \<and> extends_by session_le (admin_sessions s) (admin_sessions s')"
      by (rule sessions_step[where f = "\<lambda>r. r" and new = "[?row]"]) (use ok ids same rows new hash fresh in \<open>auto simp: auth_ok_def\<close>)
    show "users_ok E s' \<and> extends_by user_le (admin_users s) (admin_users s')"
      using ok drawn_mono[of s s' E] by (auto simp: auth_ok_def users_ok_def same ids)
    show "roles_ok E s'" by (rule roles_step[of E s, where new = "[]"]) (use ok same ids in \<open>auto simp: auth_ok_def\<close>)
  qed (use ok same ids in \<open>auto simp: auth_ok_def owner_ok_def active_owner_def has_role_def\<close>)
qed

lemma rehash_keeps:
  assumes "rehash_password E p user s = Inr (user1, s1)"
  shows "same_accounts s s1 \<and> us_id user1 = us_id user \<and> us_status user1 = us_status user \<and>
    us_username_normalized user1 = us_username_normalized user \<and> us_auth_version user1 = us_auth_version user"
  using assms same_accounts_hash
  by (auto simp: rehash_password_def result_simps split: if_splits prod.splits)

lemma finish_login_keeps:
  assumes f: "finish_login E S q user1 now s = (res, s')" and ok: "auth_ok E s" and keys: "inj_on (uuid7 (lib E)) {..<auth_ids s'}"
    and set: "auth_settings_ok S" and u: "u \<in> set (admin_users s)" "us_id user1 = us_id u" "us_status user1 = us_status u"
      "us_username_normalized user1 = us_username_normalized u" "us_auth_version user1 = us_auth_version u"
  shows "auth_ok E s' \<and> auth_keeps s s'"
proof -
  let ?u = "user1\<lparr>us_last_login_at := Some now\<rparr>"
  let ?s1 = "s\<lparr>admin_users := put_row us_id ?u (admin_users s)\<rparr>"
  define s2 where "s2 = clear_account_throttle (hash_context E (''account:'' @ fst (login_names E (lq_username q)))) ?s1"
  obtain issued s3 where c: "create_auth_session E S ?u (hash_context E (''source:'' @ lq_source_identifier q)) (lq_user_agent q) now s2
      = (issued, s3)" by fastforce
  have 4: "same_accounts s3 s'" using f unfolding finish_login_def Let_def s2_def[symmetric] c by auto
  have 1: "auth_ok E ?s1 \<and> auth_keeps s ?s1"
    by (rule put_active_user_step[OF ok u(1)]) (use u in \<open>auto simp: user_le_def\<close>)
  have 2: "same_accounts ?s1 s2" by (simp add: s2_def clear_account_throttle_def)
  have mem: "?u \<in> set (admin_users s2)" using u(1,2) by (auto simp: same_accountsD[OF 2] mem_put_row_iff)
  have k: "inj_on (uuid7 (lib E)) {..<auth_ids s3}"
    by (rule inj_on_subset[OF keys]) (use same_accountsD(7)[OF 4] in auto)
  have 22: "auth_ok E s2 \<and> auth_keeps ?s1 s2" using auth_same_accounts[OF 2] 1 by blast
  have 3: "auth_ok E s3 \<and> auth_keeps s2 s3" using create_session_step[OF c _ k mem set] 22 by blast
  have 44: "auth_ok E s' \<and> auth_keeps s3 s'" using auth_same_accounts[OF 4] 3 by blast
  show ?thesis using 1 22 3 44 auth_keeps_trans by meson
qed

lemma login_keeps:
  assumes l: "login E S q now s = (r, s')" and ok: "auth_ok E s" and keys: "inj_on (uuid7 (lib E)) {..<auth_ids s'}"
    and set: "auth_settings_ok S"
  shows "auth_ok E s' \<and> auth_keeps s s'"
proof (cases "\<exists>u. accept_login E S q u now s = (r, s') \<and> login_user E q s = Some u")
  case False
  then have "same_accounts s s'"
    using l same_accounts_reject
    by (auto simp: login_def Let_def case_prod_beta credentials_ok_def split: if_splits option.splits)
  then show ?thesis using auth_same_accounts ok by blast
next
  case True
  then obtain u where a: "accept_login E S q u now s = (r, s')" and u: "login_user E q s = Some u" by blast
  have mem: "u \<in> set (admin_users s)"
    using u by (auto simp: login_user_def Let_def case_prod_beta split: if_splits dest: get_row_Some_mem)
  show ?thesis
  proof (cases "rehash_password E (lq_password q) u s")
    case (Inl e)
    then show ?thesis using a ok by (simp add: accept_login_def)
  next
    case (Inr x)
    obtain user1 s1 where x: "x = (user1, s1)" by fastforce
    note h = rehash_keeps[OF Inr[unfolded x]]
    then have 1: "auth_ok E s1 \<and> auth_keeps s s1" using auth_same_accounts ok by blast
    obtain res where f: "finish_login E S q user1 now s1 = (res, s')"
      using a Inr x by (auto simp: accept_login_def Let_def split: prod.splits)
    have "u \<in> set (admin_users s1)" using mem h same_accountsD(1) by metis
    then show ?thesis using finish_login_keeps[OF f _ keys set] h 1 auth_keeps_trans by metis
  qed
qed

lemma add_user_step:
  assumes ok: "auth_ok E s" and id: "us_id u = uuid7 (lib E) (auth_ids s)" and ids: "auth_ids s' = Suc (auth_ids s)"
    and keys: "inj_on (uuid7 (lib E)) {..<auth_ids s'}"
    and name: "us_username_normalized u \<notin> us_username_normalized ` set (admin_users s)"
    and users: "admin_users s' = admin_users s @ [u]"
    and same: "admin_sessions s' = admin_sessions s" "tokens_drawn s' = tokens_drawn s" "rbac_roles s' = rbac_roles s"
    and owner: "owner_ok s'" and boot: "bootstrap_states s \<noteq> [] \<Longrightarrow> bootstrap_states s' \<noteq> []"
  shows "auth_ok E s' \<and> auth_keeps s s'"
proof (rule auth_okI)
  have fresh: "us_id u \<notin> drawn E s" "us_id u \<in> drawn E s'"
    unfolding id using fresh_key[OF keys, of s] fresh_drawn[of s s' E] ids by simp_all
  show users': "users_ok E s' \<and> extends_by user_le (admin_users s) (admin_users s')"
    by (rule users_step[where f = "\<lambda>u. u" and new = "[u]"]) (use ok ids users fresh name in \<open>auto simp: auth_ok_def\<close>)
  show "sessions_ok E s' \<and> extends_by session_le (admin_sessions s) (admin_sessions s')"
    by (rule sessions_unchanged) (use ok users' same ids in \<open>auto simp: auth_ok_def\<close>)
  show "roles_ok E s'" by (rule roles_step[of E s, where new = "[]"]) (use ok same ids in \<open>auto simp: auth_ok_def\<close>)
qed (use owner boot same ids in auto)

lemma add_role_step:
  assumes ok: "auth_ok E s" and id: "ro_id r = uuid7 (lib E) (auth_ids s)"
    and keys: "inj_on (uuid7 (lib E)) {..<Suc (auth_ids s)}"
    and code: "ro_code r \<notin> ro_code ` set (rbac_roles s)" "ro_active r"
  shows "auth_ok E (s\<lparr>auth_ids := Suc (auth_ids s), rbac_roles := rbac_roles s @ [r]\<rparr>) \<and>
    auth_keeps s (s\<lparr>auth_ids := Suc (auth_ids s), rbac_roles := rbac_roles s @ [r]\<rparr>)" (is "auth_ok E ?s \<and> _")
proof (rule auth_okI)
  have fresh: "ro_id r \<notin> drawn E s" "ro_id r \<in> drawn E ?s"
    unfolding id using fresh_key[OF keys, of s] fresh_drawn[of s ?s E] by simp_all
  show users': "users_ok E ?s \<and> extends_by user_le (admin_users s) (admin_users ?s)"
    by (rule users_step[where f = "\<lambda>u. u" and new = "[]"]) (use ok in \<open>auto simp: auth_ok_def\<close>)
  show "sessions_ok E ?s \<and> extends_by session_le (admin_sessions s) (admin_sessions ?s)"
    by (rule sessions_unchanged) (use ok users' in \<open>auto simp: auth_ok_def\<close>)
  show "roles_ok E ?s" by (rule roles_step[of E s, where new = "[r]"]) (use ok fresh code in \<open>auto simp: auth_ok_def\<close>)
  show "owner_ok ?s" by (rule owner_ok_map[of s, where f = "\<lambda>u. u"]) (use ok in \<open>auto simp: auth_ok_def\<close>)
qed auto

lemma create_user_keeps:
  assumes c: "create_user E p actor u s = Inr (v, s')" and ok: "auth_ok E u" and keys: "inj_on (uuid7 (lib E)) {..<auth_ids s'}"
  shows "auth_ok E s' \<and> auth_keeps u s'"
proof -
  obtain canonical normalized where n: "normalize_username E (uc_username p) = Inr (canonical, normalized)"
    using c by (auto simp: create_user_def split: sum.splits)
  obtain h s1 where h: "hash_password E (uc_password p) u = Inr (h, s1)"
    using c n by (auto simp: create_user_def split: sum.splits if_splits)
  let ?user = "\<lparr>us_id = uuid7 (lib E) (auth_ids s1), us_username = canonical, us_username_normalized = normalized,
    us_display_name = uc_display_name p, us_password_hash = h, us_status = Adm_ACTIVE, us_auth_version = 1, us_last_login_at = None\<rparr>"
  let ?s2 = "s1\<lparr>auth_ids := Suc (auth_ids s1), admin_users := admin_users s1 @ [?user]\<rparr>"
  have new: "normalized \<notin> us_username_normalized ` set (admin_users s1)" and s': "same_accounts ?s2 s'" "auth_ids s' = Suc (auth_ids s1)"
    using c n h by (auto simp: create_user_def auth_alloc_def Let_def same_accounts_def split: if_splits)
  have 1: "auth_ok E s1 \<and> auth_keeps u s1" using auth_same_accounts[OF same_accounts_hash[OF h] ok] .
  have 2: "auth_ok E ?s2 \<and> auth_keeps s1 ?s2"
  proof (rule add_user_step[where u = ?user])
    show "inj_on (uuid7 (lib E)) {..<auth_ids ?s2}" using keys s'(2) by simp
    show "owner_ok ?s2" by (rule owner_ok_map[of s1, where f = "\<lambda>u. u"]) (use 1 in \<open>auto simp: auth_ok_def\<close>)
  qed (use 1 new in auto)
  show ?thesis using 1 2 auth_same_accounts[OF s'(1)] auth_keeps_trans by blast
qed

lemma create_role_keeps:
  assumes c: "create_role E p actor u s = Inr (v, s')" and ok: "auth_ok E u" and keys: "inj_on (uuid7 (lib E)) {..<auth_ids s'}"
  shows "auth_ok E s' \<and> auth_keeps u s'"
proof -
  let ?role = "\<lparr>ro_id = uuid7 (lib E) (auth_ids u), ro_code = rc_code p, ro_name = rc_name p, ro_is_system = False, ro_active = True\<rparr>"
  let ?s = "u\<lparr>auth_ids := Suc (auth_ids u), rbac_roles := rbac_roles u @ [?role]\<rparr>"
  have "rc_code p \<notin> ro_code ` set (rbac_roles u)" and s': "same_accounts ?s s'" "auth_ids s' = Suc (auth_ids u)"
    using c by (auto simp: create_role_def auth_alloc_def Let_def same_accounts_def result_simps split: if_splits)
  then have "auth_ok E ?s \<and> auth_keeps u ?s" using add_role_step[OF ok, of ?role] keys by simp
  then show ?thesis using auth_same_accounts[OF s'(1)] auth_keeps_trans by blast
qed

lemma owner_role_keeps:
  assumes o: "owner_role E s = (r, s')" and ok: "auth_ok E s" and keys: "inj_on (uuid7 (lib E)) {..<auth_ids s'}"
  shows "auth_ok E s' \<and> auth_keeps s s' \<and> r \<in> set (rbac_roles s') \<and> ro_code r = owner_role_code \<and>
    admin_users s' = admin_users s \<and> user_roles s' = user_roles s \<and> bootstrap_states s' = bootstrap_states s"
proof (cases "get_row ro_code owner_role_code (rbac_roles s)")
  case (Some r')
  then show ?thesis using o ok get_row_Some_mem[OF Some] by (simp add: owner_role_def)
next
  case None
  let ?r = "\<lparr>ro_id = uuid7 (lib E) (auth_ids s), ro_code = owner_role_code, ro_name = ''Owner'', ro_is_system = True, ro_active = True\<rparr>"
  have s': "s' = s\<lparr>auth_ids := Suc (auth_ids s), rbac_roles := rbac_roles s @ [?r]\<rparr>" "r = ?r"
    using o None by (auto simp: owner_role_def auth_alloc_def Let_def)
  have "ro_code ?r \<notin> ro_code ` set (rbac_roles s)" using None by (auto simp: get_row_None_iff)
  then show ?thesis using add_role_step[OF ok, of ?r] keys unfolding s' by simp
qed

lemma bootstrap_keeps:
  assumes b: "bootstrap_owner E S b u s = (r, s')" and ok: "auth_ok E u" and keys: "inj_on (uuid7 (lib E)) {..<auth_ids s'}"
  shows "auth_ok E s' \<and> auth_keeps u s'"
proof (cases r)
  case (Inl e)
  have "same_accounts u s'"
    using b unfolding Inl
    by (auto simp: bootstrap_owner_def Let_def case_prod_beta split: sum.splits option.splits if_splits)
  then show ?thesis using auth_same_accounts ok by blast
next
  case (Inr owner)
  obtain canonical normalized where n: "normalize_username E (br_username b) = Inr (canonical, normalized)"
    using b Inr by (auto simp: bootstrap_owner_def split: sum.splits)
  obtain configured where t: "bootstrap_token S = Some configured" "secrets_equal configured (br_presented_token b)"
    "\<not> (bootstrap_states s \<noteq> [] \<or> owner_exists s)"
    using b Inr n by (auto simp: bootstrap_owner_def Let_def split: option.splits if_splits)
  obtain h s1 where h: "hash_password E (br_password b) u = Inr (h, s1)"
    using b Inr n t by (auto simp: bootstrap_owner_def Let_def split: sum.splits)
  obtain role s2 where o: "owner_role E s1 = (role, s2)" by fastforce
  define s3 where "s3 = ensure_system_permissions E s2"
  let ?user = "\<lparr>us_id = uuid7 (lib E) (auth_ids s3), us_username = canonical, us_username_normalized = normalized,
    us_display_name = br_display_name b, us_password_hash = h, us_status = Adm_ACTIVE, us_auth_version = 1, us_last_login_at = None\<rparr>"
  let ?s4 = "s3\<lparr>auth_ids := Suc (auth_ids s3), admin_users := admin_users s3 @ [?user],
    user_roles := user_roles s3 @ [\<lparr>ur_user_id = uuid7 (lib E) (auth_ids s3), ur_role_id = ro_id role\<rparr>],
    bootstrap_states := bootstrap_states s3 @ [\<lparr>bs_id = 1, bs_owner_user_id = uuid7 (lib E) (auth_ids s3),
      bs_token_fingerprint = fingerprint_token E configured\<rparr>]\<rparr>"
  have new: "normalized \<notin> us_username_normalized ` set (admin_users s3)" and s': "same_accounts ?s4 s'" "auth_ids s' = Suc (auth_ids s3)"
    using b Inr n t h o
    by (auto simp: bootstrap_owner_def auth_alloc_def Let_def same_accounts_def s3_def split: if_splits)
  have s23: "same_accounts s2 s3" by (simp add: s3_def)
  have k2: "inj_on (uuid7 (lib E)) {..<auth_ids s2}"
    by (rule inj_on_subset[OF keys]) (use same_accountsD(7)[OF s23] s'(2) in auto)
  have 1: "auth_ok E s1 \<and> auth_keeps u s1" using auth_same_accounts[OF same_accounts_hash[OF h] ok] .
  note 2 = owner_role_keeps[OF o conjunct1[OF 1] k2]
  have 3: "auth_ok E s3 \<and> auth_keeps s2 s3" using auth_same_accounts[OF s23] 2 by blast
  have 4: "auth_ok E ?s4 \<and> auth_keeps s3 ?s4"
  proof (rule add_user_step[where u = ?user])
    show "inj_on (uuid7 (lib E)) {..<auth_ids ?s4}" using keys s'(2) by simp
    have "active_owner ?s4 ?user" using 2 same_accountsD(2)[OF s23] by (auto simp: active_owner_def has_role_def)
    then show "owner_ok ?s4" by (auto simp: owner_ok_def)
  qed (use 3 new in auto)
  show ?thesis using 1 2 3 4 auth_same_accounts[OF s'(1)] auth_keeps_trans by meson
qed

lemma owner_code_iff:
  "owner_role_code \<in> set (role_codes_for_user s i) \<longleftrightarrow>
     (\<exists>r\<in>set (rbac_roles s). ro_code r = owner_role_code \<and> has_role s i (ro_id r))"
proof -
  have "set (role_codes_for_user s i) = {ro_code r |r. r \<in> set (rbac_roles s) \<and> has_role s i (ro_id r)}"
    by (auto simp: role_codes_for_user_def roles_of_def has_role_def)
  then show ?thesis by auto metis
qed

lemma another_ownerD:
  assumes "assert_another_active_owner_exists s i = Inr u"
  obtains x where "active_owner s x" "us_id x \<noteq> i"
  using assms by (auto simp: assert_another_active_owner_exists_def active_owner_def list_ex_iff split: option.splits
      dest: get_row_Some_mem)

lemma owner_other_account:
  assumes "active_owner s x" "us_id x \<noteq> us_id u"
  shows "owner_ok (s\<lparr>admin_users := put_row us_id u (admin_users s)\<rparr>)"
proof -
  have "active_owner (s\<lparr>admin_users := put_row us_id u (admin_users s)\<rparr>) x"
    using assms by (auto simp: active_owner_def has_role_def mem_put_row_iff)
  then show ?thesis by (auto simp: owner_ok_def)
qed

lemma set_user_status_effect:
  assumes "set_user_status i status actor now s = Inr (v, s')"
  obtains "s' = s" "\<exists>user. get_row us_id i (admin_users s) = Some user \<and> us_status user = status"
  | user where "get_row us_id i (admin_users s) = Some user" "us_status user \<noteq> status"
      "owner_role_code \<in> set (role_codes_for_user s (us_id user)) \<longrightarrow> is_owner actor"
      "status = Adm_DISABLED \<longrightarrow> owner_role_code \<in> set (role_codes_for_user s (us_id user)) \<longrightarrow>
         (\<exists>u. assert_another_active_owner_exists s (us_id user) = Inr u)"
      "same_accounts (invalidate_users [us_id user] ''admin_user_status_changed'' now
         (s\<lparr>admin_users := put_row us_id (user\<lparr>us_status := status\<rparr>) (admin_users s)\<rparr>)) s'"
  using assms
  by (auto simp: set_user_status_def result_simps load_user_for_update_def Let_def same_accounts_def split: if_splits)

lemma set_user_status_keeps:
  assumes c: "set_user_status i status actor now s = Inr (v, s')" and ok: "auth_ok E s"
  shows "auth_ok E s' \<and> auth_keeps s s'"
  using c
proof (cases rule: set_user_status_effect)
  case 1
  then show ?thesis using ok by simp
next
  case (2 user)
  have mem: "user \<in> set (admin_users s)" using get_row_Some_mem[OF 2(1)] by blast
  let ?u = "user\<lparr>us_status := status\<rparr>"
  let ?s1 = "s\<lparr>admin_users := put_row us_id ?u (admin_users s)\<rparr>"
  have owner: "owner_ok ?s1"
  proof (cases "\<exists>x. active_owner s x \<and> us_id x \<noteq> us_id user")
    case True
    then show ?thesis using owner_other_account[of s _ ?u] by auto
  next
    case False
    have on: "status = Adm_ACTIVE" if x: "active_owner s x" for x
    proof (rule ccontr)
      assume "status \<noteq> Adm_ACTIVE"
      then have "status = Adm_DISABLED" by (cases status) auto
      moreover have "owner_role_code \<in> set (role_codes_for_user s (us_id user))"
        using x False unfolding owner_code_iff active_owner_def by metis
      ultimately show False using 2(4) False by (auto elim: another_ownerD)
    qed
    have "active_owner ?s1 ?u" if x: "active_owner s x" for x
      using x False on[OF x] mem by (fastforce simp: active_owner_def has_role_def mem_put_row_iff)
    then show ?thesis using ok by (auto simp: owner_ok_def auth_ok_def)
  qed
  have 1: "auth_ok E ?s1 \<and> auth_keeps s ?s1"
    by (rule put_user_step[OF ok mem _ owner]) (simp add: user_le_def)
  note step2 = invalidate_users_step[OF conjunct1[OF 1], of "[us_id user]" "''admin_user_status_changed''" now]
  show ?thesis using 1 step2 auth_same_accounts[OF 2(5)] auth_keeps_trans by blast
qed

lemma new_role_bindings:
  assumes r: "r \<in> set roles" and mem: "set roles \<subseteq> set (rbac_roles s)" and id: "role = ro_id r"
  shows "list_ex (\<lambda>b. ur_user_id b = i \<and> ur_role_id b = role)
    (filter (\<lambda>b. \<not> (ur_user_id b = i \<and> ur_role_id b \<in> current - set (remdups (map ro_id roles)))) rows @
     map (\<lambda>r. \<lparr>ur_user_id = i, ur_role_id = r\<rparr>)
       (filter (\<lambda>r. r \<notin> set (map ur_role_id (filter (\<lambda>b. ur_user_id b = i) rows))) (remdups (map ro_id roles))))"
proof (cases "\<exists>b\<in>set rows. ur_user_id b = i \<and> ur_role_id b = role")
  case True
  then show ?thesis using r id by (auto simp: list_ex_iff)
next
  case False
  then have "role \<notin> set (map ur_role_id (filter (\<lambda>b. ur_user_id b = i) rows))" by auto
  then have "\<lparr>ur_user_id = i, ur_role_id = role\<rparr> \<in> set (map (\<lambda>r. \<lparr>ur_user_id = i, ur_role_id = r\<rparr>)
      (filter (\<lambda>r. r \<notin> set (map ur_role_id (filter (\<lambda>b. ur_user_id b = i) rows))) (remdups (map ro_id roles))))"
    using r id by auto
  then show ?thesis unfolding list_ex_append by (intro disjI2) (force simp: list_ex_iff)
qed

lemma resolve_roles_mem: "resolve_roles s codes = Inr roles \<Longrightarrow> set roles \<subseteq> set (rbac_roles s)"
  by (auto simp: resolve_roles_def Let_def split: if_splits)

lemma replace_user_roles_keeps:
  assumes c: "replace_user_roles i codes actor now s = Inr (v, s')" and ok: "auth_ok E s"
  shows "auth_ok E s' \<and> auth_keeps s s'"
proof -
  obtain user roles where u: "get_row us_id i (admin_users s) = Some user" and roles: "resolve_roles s codes = Inr roles"
    using c by (auto simp: replace_user_roles_def result_simps load_user_for_update_def)
  let ?ids = "map ur_role_id (filter (\<lambda>b. ur_user_id b = us_id user) (user_roles s))"
  let ?rows = "filter (\<lambda>b. \<not> (ur_user_id b = us_id user \<and> ur_role_id b \<in> set ?ids - set (remdups (map ro_id roles)))) (user_roles s) @
     map (\<lambda>r. \<lparr>ur_user_id = us_id user, ur_role_id = r\<rparr>) (filter (\<lambda>r. r \<notin> set ?ids) (remdups (map ro_id roles)))"
  let ?s1 = "s\<lparr>user_roles := ?rows\<rparr>"
  let ?codes = "set (role_codes_for_user s (us_id user))"
  have mem: "user \<in> set (admin_users s)" and i: "us_id user = i" using get_row_Some_mem[OF u] by auto
  show ?thesis
  proof (cases "?codes = set (map ro_code roles)")
    case True
    then have "s' = s" using c u roles by (auto simp: replace_user_roles_def result_simps load_user_for_update_def Let_def)
    then show ?thesis using ok by simp
  next
    case False
    have r: "require_owner_actor actor = Inr ()"
      using c by (cases "require_owner_actor actor") (auto simp: replace_user_roles_def)
    note effect = c[unfolded replace_user_roles_def load_user_for_update_def r u roles of_option_simps bind_res_simps Let_def if_not_P[OF False]]
    have last: "us_status user = Adm_ACTIVE \<and> owner_role_code \<in> ?codes \<and> owner_role_code \<notin> set (map ro_code roles) \<Longrightarrow>
        \<exists>y. assert_another_active_owner_exists s (us_id user) = Inr y"
      and s': "same_accounts (invalidate_users [us_id user] ''admin_user_roles_changed'' now ?s1) s'"
      using effect by (auto simp: bind_res_Inr_iff same_accounts_def split: if_splits)
    have same: "has_role ?s1 j r \<longleftrightarrow> has_role s j r" if "j \<noteq> us_id user" for j r
      using that by (auto simp: has_role_def list_ex_iff)
    have owner: "owner_ok ?s1"
    proof (unfold owner_ok_def, intro impI)
      assume "bootstrap_states ?s1 \<noteq> []"
      then obtain x where x: "active_owner s x" using ok by (auto simp: auth_ok_def owner_ok_def)
      show "\<exists>x. active_owner ?s1 x"
      proof (cases "us_id x = us_id user")
        case False
        then show ?thesis using x same by (auto simp: active_owner_def)
      next
        case True
        then have xu: "x = user" using x mem ok
          by (auto simp: active_owner_def auth_ok_def users_ok_def unique_by_def distinct_map inj_on_def)
        show ?thesis
        proof (cases "owner_role_code \<in> set (map ro_code roles)")
          case True
          then obtain r where r: "r \<in> set roles" "ro_code r = owner_role_code" by auto
          have "has_role ?s1 (us_id user) (ro_id r)"
            unfolding has_role_def using new_role_bindings[OF r(1) resolve_roles_mem[OF roles] refl] by simp
          then show ?thesis using x xu r resolve_roles_mem[OF roles] by (auto simp: active_owner_def)
        next
          case False
          have "owner_role_code \<in> ?codes" using x xu unfolding owner_code_iff active_owner_def by blast
          then obtain y where "assert_another_active_owner_exists s (us_id user) = Inr y"
            using last x xu False by (auto simp: active_owner_def)
          then obtain z where "active_owner s z" "us_id z \<noteq> us_id user" by (rule another_ownerD)
          then show ?thesis using same by (auto simp: active_owner_def)
        qed
      qed
    qed
    have 1: "auth_ok E ?s1 \<and> auth_keeps s ?s1"
      using ok owner by (auto simp: auth_ok_def users_ok_def roles_ok_def sessions_ok_def auth_keeps_def drawn_def issued_hashes_def)
    show ?thesis
      using 1 invalidate_users_step[OF conjunct1[OF 1], of "[us_id user]" "''admin_user_roles_changed''" now]
        auth_same_accounts[OF s'] auth_keeps_trans by blast
  qed
qed

lemma replace_roles_effect:
  assumes c: "replace_user_roles i codes actor now s = Inr (v, s')"
  shows "s' = s \<or> (\<exists>rows. same_accounts (invalidate_users [i] ''admin_user_roles_changed'' now (s\<lparr>user_roles := rows\<rparr>)) s')"
proof -
  obtain user roles where u: "get_row us_id i (admin_users s) = Some user" and roles: "resolve_roles s codes = Inr roles"
    using c by (auto simp: replace_user_roles_def result_simps load_user_for_update_def)
  have r: "require_owner_actor actor = Inr ()"
    using c by (cases "require_owner_actor actor") (auto simp: replace_user_roles_def)
  have i: "us_id user = i" using get_row_Some_mem[OF u] by simp
  note c' = c[unfolded replace_user_roles_def load_user_for_update_def r u roles of_option_simps bind_res_simps Let_def i]
  show ?thesis
  proof (cases "set (role_codes_for_user s i) = set (map ro_code roles)")
    case True
    then show ?thesis using c'[unfolded if_P[OF True]] by simp
  next
    case False
    let ?ids = "map ur_role_id (filter (\<lambda>b. ur_user_id b = i) (user_roles s))"
    have "same_accounts (invalidate_users [i] ''admin_user_roles_changed'' now (s\<lparr>user_roles :=
        filter (\<lambda>b. \<not> (ur_user_id b = i \<and> ur_role_id b \<in> set ?ids - set (remdups (map ro_id roles)))) (user_roles s) @
        map (\<lambda>r. \<lparr>ur_user_id = i, ur_role_id = r\<rparr>) (filter (\<lambda>r. r \<notin> set ?ids) (remdups (map ro_id roles)))\<rparr>)) s'"
      using c'[unfolded if_not_P[OF False]] by (auto simp: bind_res_Inr_iff same_accounts_def split: if_splits)
    then show ?thesis by blast
  qed
qed

lemma replace_permissions_effect:
  assumes c: "replace_role_permissions i codes actor now s = Inr (v, s')"
  shows "s' = s \<or> (\<exists>rows. same_accounts (invalidate_users (map us_id (filter (\<lambda>u. has_role s (us_id u) i) (admin_users s)))
    ''admin_role_permissions_changed'' now (s\<lparr>role_permissions := rows\<rparr>)) s')"
  using c get_row_Some_mem[of ro_id i "rbac_roles s"]
  by (auto simp: replace_role_permissions_def result_simps Let_def same_accounts_def has_role_def split: if_splits)

lemma replace_permissions_keeps:
  assumes c: "replace_role_permissions i codes actor now s = Inr (v, s')" and ok: "auth_ok E s"
  shows "auth_ok E s' \<and> auth_keeps s s'"
proof (cases "s' = s")
  case False
  then obtain rows where s': "same_accounts (invalidate_users (map us_id (filter (\<lambda>u. has_role s (us_id u) i) (admin_users s)))
    ''admin_role_permissions_changed'' now (s\<lparr>role_permissions := rows\<rparr>)) s'"
    using replace_permissions_effect[OF c] by blast
  have 1: "auth_ok E (s\<lparr>role_permissions := rows\<rparr>) \<and> auth_keeps s (s\<lparr>role_permissions := rows\<rparr>)"
    by (rule auth_same_accounts[OF _ ok]) (simp add: same_accounts_def)
  show ?thesis
    using 1 invalidate_users_step[OF conjunct1[OF 1]] auth_same_accounts[OF s'] auth_keeps_trans by meson
qed (use ok in simp)

section \<open>Runs keep the invariant\<close>

lemma create_session_ids: "create_auth_session E S u source agent now s = (i, s') \<Longrightarrow> auth_ids s' = Suc (auth_ids s)"
  by (auto simp: create_auth_session_def auth_alloc_def generate_token_def Let_def)

lemma finish_login_ids: "finish_login E S q u now s = (res, s') \<Longrightarrow> auth_ids s' = Suc (auth_ids s)"
  using create_session_ids
  by (force simp: finish_login_def Let_def clear_account_throttle_def split: prod.splits)

lemma login_ids:
  assumes l: "login E S q now s = (r, s')"
  shows "auth_ids s \<le> auth_ids s'"
proof (cases "\<exists>u. accept_login E S q u now s = (r, s')")
  case False
  then have "same_accounts s s'"
    using l same_accounts_reject by (auto simp: login_def Let_def case_prod_beta split: if_splits)
  then show ?thesis by (rule same_accountsD)
next
  case True
  then obtain u where a: "accept_login E S q u now s = (r, s')" by blast
  show ?thesis
  proof (cases "rehash_password E (lq_password q) u s")
    case (Inr x)
    then obtain user1 s1 res where "rehash_password E (lq_password q) u s = Inr (user1, s1)" "finish_login E S q user1 now s1 = (res, s')"
      using a by (auto simp: accept_login_def split: prod.splits)
    then show ?thesis using rehash_keeps finish_login_ids same_accountsD(7) by (metis le_SucI)
  qed (use a in \<open>simp add: accept_login_def\<close>)
qed

lemma owner_role_ids: "owner_role E s = (r, s') \<Longrightarrow> auth_ids s \<le> auth_ids s'"
  by (auto simp: owner_role_def auth_alloc_def Let_def split: option.splits)

lemma bootstrap_ids:
  assumes b: "bootstrap_owner E S b u s = (r, s')"
  shows "auth_ids u \<le> auth_ids s'"
proof -
  have mono: "auth_ids u \<le> auth_ids (ensure_system_permissions E (snd (owner_role E s1)))"
    if "hash_password E (br_password b) u = Inr (h, s1)" for h s1
    using same_accountsD(7)[OF same_accounts_hash[OF that]] owner_role_ids[of E s1]
      same_accountsD(7)[OF same_accounts_ensure[of "snd (owner_role E s1)" E]] by (metis order_trans prod.collapse)
  show ?thesis
    using b
    by (auto simp: bootstrap_owner_def Let_def case_prod_beta auth_alloc_def le_SucI mono split: sum.splits option.splits if_splits)
qed

lemma create_user_ids: "create_user E p actor u s = Inr (v, s') \<Longrightarrow> auth_ids u \<le> auth_ids s'"
  using same_accountsD(7)[OF same_accounts_hash]
  by (fastforce simp: create_user_def auth_alloc_def Let_def split: sum.splits if_splits prod.splits)

lemma create_role_ids: "create_role E p actor u s = Inr (v, s') \<Longrightarrow> auth_ids u \<le> auth_ids s'"
  by (auto simp: create_role_def auth_alloc_def Let_def result_simps split: if_splits)

lemma invalidate_users_ids [simp]: "auth_ids (invalidate_users us reason now s) = auth_ids s"
  by (simp add: invalidate_users_def)

lemma auth_ids_mono_op:
  "authenticate_session E S token now s = (c, s') \<Longrightarrow> auth_ids s' = auth_ids s"
  "auth_ids (revoke_session context reason now s) = auth_ids s"
  "invalidate_user_sessions i reason d now s = Inr s' \<Longrightarrow> auth_ids s' = auth_ids s"
  "set_user_status i status actor now s = Inr (v, s') \<Longrightarrow> auth_ids s' = auth_ids s"
  "replace_user_roles i codes actor now s = Inr (v, s') \<Longrightarrow> auth_ids s' = auth_ids s"
  "replace_role_permissions i codes actor now s = Inr (rv, s') \<Longrightarrow> auth_ids s' = auth_ids s"
  subgoal by (auto simp: authenticate_session_def Let_def split: if_splits option.splits)
  subgoal by (simp add: revoke_session_def Let_def split: option.split)
  subgoal by (auto simp: invalidate_user_sessions_def Let_def split: option.splits)
  subgoal by (auto simp: set_user_status_def result_simps Let_def split: if_splits)
  subgoal by (auto simp: replace_user_roles_def result_simps Let_def split: if_splits)
  subgoal by (auto simp: replace_role_permissions_def result_simps Let_def split: if_splits)
  done

lemma auth_ids_mono:
  "auth_step E S s s' \<Longrightarrow> auth_ids s \<le> auth_ids s'"
  "auth_steps E S t t' \<Longrightarrow> auth_ids t \<le> auth_ids t'"
proof (induction rule: auth_step_auth_steps.inducts)
  case (step_startup s)
  then show ?case by (rule same_accountsD) simp
qed (auto simp: auth_ids_mono_op dest: login_ids bootstrap_ids create_user_ids create_role_ids)

lemma inj_below: "inj_on f {..<n} \<Longrightarrow> m \<le> n \<Longrightarrow> inj_on f {..<m :: nat}"
  by (rule inj_on_subset) auto

lemma auth_runs_keep:
  assumes "auth_settings_ok S"
  shows "auth_step E S s s' \<Longrightarrow> inj_on (uuid7 (lib E)) {..<auth_ids s'} \<Longrightarrow> auth_ok E s \<Longrightarrow> auth_ok E s' \<and> auth_keeps s s'"
    and "auth_steps E S t t' \<Longrightarrow> inj_on (uuid7 (lib E)) {..<auth_ids t'} \<Longrightarrow> auth_ok E t \<Longrightarrow> auth_ok E t' \<and> auth_keeps t t'"
proof (induction rule: auth_step_auth_steps.inducts)
  case (step_startup s)
  then show ?case using auth_same_accounts[OF same_accounts_ensure] by blast
next
  case (step_bootstrap s u b r s')
  then show ?case using bootstrap_keeps inj_below[OF step_bootstrap.prems(1) bootstrap_ids] auth_keeps_trans by meson
next
  case (step_login q now s r s')
  then show ?case using login_keeps assms by blast
next
  case (step_authenticate token now s c s')
  then show ?case using authenticate_keeps by blast
next
  case (step_revoke s cx reason now)
  then show ?case using revoke_keeps by blast
next
  case (step_invalidate i reason now s s')
  then show ?case using invalidate_user_sessions_keeps by blast
next
  case (step_create_user s u p actor v s')
  then show ?case using create_user_keeps inj_below[OF step_create_user.prems(1) create_user_ids] auth_keeps_trans by meson
next
  case (step_set_status i status actor now s v s')
  then show ?case using set_user_status_keeps by blast
next
  case (step_replace_roles i codes actor now s v s')
  then show ?case using replace_user_roles_keeps by blast
next
  case (step_create_role s u p' actor rv s')
  then show ?case using create_role_keeps inj_below[OF step_create_role.prems(1) create_role_ids] auth_keeps_trans by meson
next
  case (step_replace_permissions i codes actor now s rv s')
  then show ?case using replace_permissions_keeps by blast
next
  case (steps_refl s)
  then show ?case by simp
next
  case (steps_snoc s t u)
  then show ?case using inj_below[OF steps_snoc.prems(1) auth_ids_mono(1)[OF steps_snoc(3)]] auth_keeps_trans by meson
qed

end
