(* ===== verification/Auth_Api.thy ===== *)
theory Auth_Api
  imports Auth_Invariants
begin

text \<open>
  The HTTP routes of authentication and administration (\<open>auth/dependencies.py\<close>,
  \<open>api/auth.py\<close>, \<open>api/admin_rbac.py\<close>): who may call them, and the response an
  error becomes.  Bodies arrive validated (\<open>Auth_Admin\<close>); a request whose dependencies
  refuse it never reaches its service, and a service that raises is not committed.
\<close>

section \<open>Requests and responses\<close>

record http_request =
  rq_method :: string
  rq_session_cookie :: "string option"
  rq_csrf_cookie :: "string option"
  rq_csrf_header :: "string option"
  rq_client_host :: "string option"
  rq_user_agent :: "string option"

record http_error =
  he_status :: int
  he_detail :: string
  he_headers :: "(string \<times> string) list"

definition http_error :: "int \<Rightarrow> string \<Rightarrow> http_error" where
  "http_error code detail = \<lparr>he_status = code, he_detail = detail, he_headers = []\<rparr>"

record cookie =
  ck_key :: string
  ck_value :: string
  ck_max_age :: int
  ck_secure :: bool
  ck_httponly :: bool
  ck_samesite :: string
  ck_path :: string

definition session_cookie_name :: string where "session_cookie_name = ''wechat_bot_session''"
definition csrf_cookie_name :: string where "csrf_cookie_name = ''wechat_bot_csrf''"
definition cookie_path :: string where "cookie_path = ''/''"
definition cookie_same_site :: string where "cookie_same_site = ''strict''"
definition pre_auth_csrf_ttl_seconds :: int where "pre_auth_csrf_ttl_seconds = 600"

section \<open>Dependencies\<close>

definition get_auth_context ::
    "auth_env \<Rightarrow> auth_settings \<Rightarrow> http_request \<Rightarrow> instant \<Rightarrow> auth_db \<Rightarrow> (http_error, auth_context) res \<times> auth_db" where
  "get_auth_context E S rq now s =
     (case authenticate_session E S (case rq_session_cookie rq of None \<Rightarrow> [] | Some t \<Rightarrow> t) now s of
        (Inr c, s') \<Rightarrow> (Inr c, s')
      | (Inl _, s') \<Rightarrow> (Inl \<lparr>he_status = 401, he_detail = ''authentication required'',
          he_headers = [(''WWW-Authenticate'', ''Session'')]\<rparr>, s'))"

definition require_authenticated_csrf :: "auth_env \<Rightarrow> http_request \<Rightarrow> auth_context \<Rightarrow> (http_error, auth_context) res" where
  "require_authenticated_csrf E rq c =
     (case validate_csrf E c (rq_csrf_cookie rq) (rq_csrf_header rq) of
        Inl _ \<Rightarrow> Inl (http_error 403 ''CSRF validation failed'')
      | Inr _ \<Rightarrow> Inr c)"

definition safe_methods :: "string list" where
  "safe_methods = [''GET'', ''HEAD'', ''OPTIONS'']"

definition require_management_request :: "auth_env \<Rightarrow> http_request \<Rightarrow> auth_context \<Rightarrow> (http_error, auth_context) res" where
  "require_management_request E rq c =
     (if rq_method rq \<notin> set safe_methods then require_authenticated_csrf E rq c else Inr c)"

definition require_owner :: "auth_principal \<Rightarrow> (http_error, auth_principal) res" where
  "require_owner p = (if \<not> is_owner p then Inl (http_error 403 ''permission denied'') else Inr p)"

text \<open>
  \<open>require_permission\<close>: building the dependency fails for a code that is not a permission
  code, at import time; the dependency itself checks the principal.
\<close>

definition require_permission :: "string \<Rightarrow> (auth_principal \<Rightarrow> (http_error, auth_principal) res) option" where
  "require_permission code =
     (if \<not> fullmatch permission_code_pattern code then None
      else Some (\<lambda>p. if \<not> is_owner p \<and> code \<notin> pn_permissions p
        then Inl (http_error 403 ''permission denied'') else Inr p))"

definition admin_http_error :: "admin_error \<Rightarrow> http_error" where
  "admin_http_error e =
     (case e of
        AdminUserNotFoundError \<Rightarrow> http_error 404 ''administrator user not found''
      | AdminRoleNotFoundError \<Rightarrow> http_error 404 ''role not found''
      | OwnerPrivilegesRequiredError m \<Rightarrow> http_error 403 m
      | DuplicateAdminIdentityError m \<Rightarrow> http_error 409 m
      | LastActiveOwnerError \<Rightarrow> http_error 409 ''at least one active Owner must remain''
      | SystemRoleProtectedError m \<Rightarrow> http_error 409 m
      | InvalidRbacBindingError m \<Rightarrow> http_error 422 m
      | AdminValueError m \<Rightarrow> http_error 422 m)"

section \<open>Administration routes\<close>

text \<open>
  The dependencies of the router, in their order, and of the routes restricted to the owner;
  then the route's service, committed only when it returns.
\<close>

definition admin_route ::
    "auth_env \<Rightarrow> auth_settings \<Rightarrow> bool \<Rightarrow> http_request \<Rightarrow> instant \<Rightarrow>
     (auth_principal \<Rightarrow> auth_db \<Rightarrow> (admin_error, 'a \<times> auth_db) res) \<Rightarrow> auth_db \<Rightarrow> (http_error, 'a) res \<times> auth_db" where
  "admin_route E S owner_only rq now service s =
     (case get_auth_context E S rq now s of
        (Inl e, s1) \<Rightarrow> (Inl e, s1)
      | (Inr c, s1) \<Rightarrow>
          (case bind_res (require_management_request E rq c) (\<lambda>_.
                bind_res (case require_permission admin_user_manage_permission of
                            None \<Rightarrow> Inl (http_error 500 []) | Some check \<Rightarrow> check (cx_principal c)) (\<lambda>p.
                if owner_only then require_owner p else Inr p)) of
             Inl e \<Rightarrow> (Inl e, s1)
           | Inr p \<Rightarrow> (case service p s1 of Inl e \<Rightarrow> (Inl (admin_http_error e), s1)
               | Inr (v, s2) \<Rightarrow> (Inr v, s2))))"

definition list_admin_users where
  "list_admin_users E S rq now s = admin_route E S False rq now (\<lambda>_ s1. Inr (list_users s1, s1)) s"

definition create_admin_user where
  "create_admin_user E S rq payload now s =
     admin_route E S False rq now (\<lambda>p s1. create_user E payload p s1 s1) s"

definition change_admin_user_status where
  "change_admin_user_status E S rq i status now s =
     admin_route E S False rq now (\<lambda>p s1. set_user_status i status p now s1) s"

definition replace_admin_user_roles where
  "replace_admin_user_roles E S rq i codes now s =
     admin_route E S True rq now (\<lambda>p s1. replace_user_roles i codes p now s1) s"

definition list_admin_roles where
  "list_admin_roles E S rq now s = admin_route E S False rq now (\<lambda>_ s1. Inr (list_roles s1, s1)) s"

definition create_admin_role where
  "create_admin_role E S rq payload now s =
     admin_route E S True rq now (\<lambda>p s1. create_role E payload p s1 s1) s"

definition replace_admin_role_permissions where
  "replace_admin_role_permissions E S rq i codes now s =
     admin_route E S True rq now (\<lambda>p s1. replace_role_permissions i codes p now s1) s"

definition list_admin_permissions where
  "list_admin_permissions E S rq now s = admin_route E S False rq now (\<lambda>_ s1. Inr (list_permissions s1, s1)) s"

section \<open>Authentication routes\<close>

definition source_identifier :: "http_request \<Rightarrow> string" where
  "source_identifier rq = (case rq_client_host rq of Some h \<Rightarrow> h | None \<Rightarrow> ''unknown'')"

definition cookies_are_secure :: "auth_settings \<Rightarrow> bool" where
  "cookies_are_secure S \<longleftrightarrow> \<not> is_local S"

definition auth_cookie :: "auth_settings \<Rightarrow> string \<Rightarrow> string \<Rightarrow> int \<Rightarrow> bool \<Rightarrow> cookie" where
  "auth_cookie S key value age httponly = \<lparr>ck_key = key, ck_value = value, ck_max_age = age,
     ck_secure = cookies_are_secure S, ck_httponly = httponly, ck_samesite = cookie_same_site, ck_path = cookie_path\<rparr>"

definition set_pre_auth_csrf_cookie :: "auth_settings \<Rightarrow> string \<Rightarrow> cookie" where
  "set_pre_auth_csrf_cookie S csrf = auth_cookie S csrf_cookie_name csrf pre_auth_csrf_ttl_seconds False"

definition set_session_cookies :: "auth_settings \<Rightarrow> issued_session \<Rightarrow> cookie list" where
  "set_session_cookies S issued =
     [auth_cookie S session_cookie_name (iss_token issued) (session_absolute_seconds S) True,
      auth_cookie S csrf_cookie_name (iss_csrf_token issued) (session_absolute_seconds S) False]"

text \<open>Deleting a cookie sets it empty with no lifetime.\<close>

definition clear_auth_cookies :: "auth_settings \<Rightarrow> cookie list" where
  "clear_auth_cookies S = [auth_cookie S session_cookie_name [] 0 True, auth_cookie S csrf_cookie_name [] 0 False]"

record auth_user_response =
  ar_id :: uuid
  ar_username :: string
  ar_display_name :: "string option"
  ar_roles :: "string list"
  ar_permissions :: "string list"

definition user_response :: "auth_principal \<Rightarrow> auth_user_response" where
  "user_response p = \<lparr>ar_id = pn_user_id p, ar_username = pn_username p, ar_display_name = pn_display_name p,
     ar_roles = sorted_list_of_set (pn_roles p), ar_permissions = sorted_list_of_set (pn_permissions p)\<rparr>"

definition validate_pre_auth_csrf :: "http_request \<Rightarrow> (http_error, unit) res" where
  "validate_pre_auth_csrf rq =
     (case (rq_csrf_cookie rq, rq_csrf_header rq) of
        (Some c, Some h) \<Rightarrow> if c = [] \<or> h = [] \<or> \<not> secrets_equal c h
          then Inl (http_error 403 ''CSRF validation failed'') else Inr ()
      | _ \<Rightarrow> Inl (http_error 403 ''CSRF validation failed''))"

definition issue_pre_auth_csrf :: "auth_env \<Rightarrow> auth_settings \<Rightarrow> auth_db \<Rightarrow> (string \<times> cookie) \<times> auth_db" where
  "issue_pre_auth_csrf E S s =
     (let (token, s') = generate_token E s in ((token, set_pre_auth_csrf_cookie S token), s'))"

definition create_initial_owner ::
    "auth_env \<Rightarrow> auth_settings \<Rightarrow> http_request \<Rightarrow> bootstrap_request \<Rightarrow> auth_db \<Rightarrow> auth_db \<Rightarrow> (http_error, auth_user_response) res \<times> auth_db" where
  "create_initial_owner E S rq b committed s =
     (case bootstrap_owner E S (b\<lparr>br_source_identifier := source_identifier rq\<rparr>) committed s of
        (Inr owner, s') \<Rightarrow> (Inr \<lparr>ar_id = us_id owner, ar_username = us_username owner,
           ar_display_name = us_display_name owner, ar_roles = [owner_role_code], ar_permissions = []\<rparr>, s')
      | (Inl e, s') \<Rightarrow> (Inl (case e of
            BootstrapNotConfigured \<Rightarrow> http_error 503 ''bootstrap is not configured''
          | InvalidBootstrapToken \<Rightarrow> http_error 403 ''bootstrap token is invalid''
          | BootstrapAlreadyCompleted \<Rightarrow> http_error 409 ''bootstrap has already been completed''
          | _ \<Rightarrow> http_error 422 ''invalid bootstrap account data''), s'))"

record login_response =
  lg_user :: auth_user_response
  lg_csrf_token :: string
  lg_idle_expires_at :: instant
  lg_absolute_expires_at :: instant
  lg_cookies :: "cookie list"

definition create_session_route ::
    "auth_env \<Rightarrow> auth_settings \<Rightarrow> http_request \<Rightarrow> string \<Rightarrow> string \<Rightarrow> instant \<Rightarrow> auth_db \<Rightarrow> (http_error, login_response) res \<times> auth_db" where
  "create_session_route E S rq username password now s =
     (case validate_pre_auth_csrf rq of Inl e \<Rightarrow> (Inl e, s)
      | Inr _ \<Rightarrow>
          (case login E S \<lparr>lq_username = username, lq_password = password, lq_source_identifier = source_identifier rq,
                lq_user_agent = (case rq_user_agent rq of None \<Rightarrow> [] | Some a \<Rightarrow> a)\<rparr> now s of
             (Inr result, s') \<Rightarrow> (Inr \<lparr>lg_user = user_response (lr_principal result),
                lg_csrf_token = iss_csrf_token (lr_issued_session result),
                lg_idle_expires_at = iss_idle_expires_at (lr_issued_session result),
                lg_absolute_expires_at = iss_absolute_expires_at (lr_issued_session result),
                lg_cookies = set_session_cookies S (lr_issued_session result)\<rparr>, s')
           | (Inl (LoginRateLimited wait), s') \<Rightarrow> (Inl \<lparr>he_status = 429, he_detail = ''too many login attempts'',
                he_headers = [(''Retry-After'', int_str wait)]\<rparr>, s')
           | (Inl _, s') \<Rightarrow> (Inl (http_error 401 ''invalid username or password''), s')))"

definition read_current_user ::
    "auth_env \<Rightarrow> auth_settings \<Rightarrow> http_request \<Rightarrow> instant \<Rightarrow> auth_db \<Rightarrow> (http_error, auth_user_response) res \<times> auth_db" where
  "read_current_user E S rq now s =
     (case get_auth_context E S rq now s of (Inl e, s') \<Rightarrow> (Inl e, s')
      | (Inr c, s') \<Rightarrow> (Inr (user_response (cx_principal c)), s'))"

definition logout ::
    "auth_env \<Rightarrow> auth_settings \<Rightarrow> http_request \<Rightarrow> instant \<Rightarrow> instant \<Rightarrow> auth_db \<Rightarrow> (http_error, string \<times> cookie list) res \<times> auth_db" where
  "logout E S rq now now' s =
     (case get_auth_context E S rq now s of (Inl e, s1) \<Rightarrow> (Inl e, s1)
      | (Inr c, s1) \<Rightarrow>
          (case require_authenticated_csrf E rq c of Inl e \<Rightarrow> (Inl e, s1)
           | Inr c' \<Rightarrow> (Inr (''logged out'', clear_auth_cookies S), revoke_session c' ''logout'' now' s1)))"

end
