(* ===== verification/Auth_Properties.thy ===== *)
theory Auth_Properties
  imports Auth_Api
begin

text \<open>
  The properties of authentication and administration, and a sample history they are tried on:
  the first owner is created and signs in.
\<close>

section \<open>A sample history\<close>

definition auth_sample_env :: auth_env where
  "auth_sample_env = \<lparr>lib = \<lparr>uuid7 = (\<lambda>n. of_nat (Suc n)), pyd_uuid = (\<lambda>_. None), sha256_hex = (\<lambda>s. s),
     fernet_decrypt = (\<lambda>_. None), isoformat = (\<lambda>_. []), float_repr = (\<lambda>_. []), pyd_float = (\<lambda>_. None), sha256_bytes = (\<lambda>_. [])\<rparr>,
     nfkc = (\<lambda>s. s), token_urlsafe = (\<lambda>n. replicate (Suc n) CHR ''t''), argon2_hash = (\<lambda>_ p. p),
     argon2_verify = (\<lambda>h p. h = p), argon2_needs_rehash = (\<lambda>_. False)\<rparr>"

definition auth_sample_settings :: auth_settings where
  "auth_sample_settings = \<lparr>bootstrap_token = Some (replicate 32 CHR ''b''), session_idle_seconds = 1800,
     session_absolute_seconds = 43200, login_window_seconds = 900, login_max_failures = 5,
     login_block_seconds = 900, is_local = True\<rparr>"

definition sample_bootstrap :: bootstrap_request where
  "sample_bootstrap = \<lparr>br_presented_token = replicate 32 CHR ''b'', br_username = ''Root'', br_password = ''correct horse'',
     br_display_name = None, br_source_identifier = ''::1''\<rparr>"

definition sample_login :: login_request where
  "sample_login = \<lparr>lq_username = ''ROOT'', lq_password = ''correct horse'', lq_source_identifier = ''::1'', lq_user_agent = []\<rparr>"

definition sample_owned :: auth_db where
  "sample_owned = snd (bootstrap_owner auth_sample_env auth_sample_settings sample_bootstrap empty_auth_db empty_auth_db)"

definition sample_logged_in :: auth_db where
  "sample_logged_in = snd (login auth_sample_env auth_sample_settings sample_login 0 sample_owned)"

definition sample_owner :: admin_user where
  "sample_owner = \<lparr>us_id = 23, us_username = ''Root'', us_username_normalized = ''root'', us_display_name = None,
     us_password_hash = ''correct horse'', us_status = Adm_ACTIVE, us_auth_version = 1, us_last_login_at = None\<rparr>"

lemma auth_sample_env_sel [simp]:
  "uuid7 (lib auth_sample_env) n = of_nat (Suc n)" "sha256_hex (lib auth_sample_env) x = x" "nfkc auth_sample_env x = x"
  "token_urlsafe auth_sample_env n = replicate (Suc n) CHR ''t''" "argon2_hash auth_sample_env n x = x"
  "argon2_verify auth_sample_env x y = (x = y)" "argon2_needs_rehash auth_sample_env x = False"
  by (simp_all add: auth_sample_env_def)

lemma auth_sample_settings_ok: "auth_settings_ok auth_sample_settings"
  by (simp add: auth_settings_ok_def auth_sample_settings_def)

lemma auth_sample_ids_differ: "n \<le> 1000 \<Longrightarrow> inj_on (uuid7 (lib auth_sample_env)) {..<n}"
proof (rule inj_onI)
  fix x y assume n: "n \<le> 1000" "x \<in> {..<n}" "y \<in> {..<n}"
    and e: "uuid7 (lib auth_sample_env) x = uuid7 (lib auth_sample_env) y"
  have "unat (of_nat (Suc k) :: 128 word) = Suc k" if "k < n" for k
    using that n(1) by (simp add: unat_of_nat take_bit_nat_eq_self_iff del: of_nat_Suc)
  then have "Suc x = Suc y" using e n(2,3) by (metis auth_sample_env_sel(1) lessThan_iff)
  then show "x = y" by simp
qed

lemma add_permissions_ids [simp]: "auth_ids (add_permissions E cs s) = auth_ids s + length cs"
proof (induction cs arbitrary: s)
  case (Cons c cs)
  then show ?case by (cases c) (simp add: auth_alloc_def)
qed simp

lemma add_permissions_sel [simp]:
  "throttles (add_permissions E cs s) = throttles s" "role_permissions (add_permissions E cs s) = role_permissions s"
proof (induction cs arbitrary: s)
  case (Cons c cs)
  { case 1 show ?case using Cons by (cases c) (simp add: auth_alloc_def) }
  { case 2 show ?case using Cons by (cases c) (simp add: auth_alloc_def) }
qed simp_all

lemma sample_owned_sel:
  "admin_users sample_owned = [sample_owner]" "auth_ids sample_owned = 23" "throttles sample_owned = []"
  "rbac_roles sample_owned = [\<lparr>ro_id = 1, ro_code = owner_role_code, ro_name = ''Owner'', ro_is_system = True, ro_active = True\<rparr>]"
  "user_roles sample_owned = [\<lparr>ur_user_id = 23, ur_role_id = 1\<rparr>]" "bootstrap_states sample_owned \<noteq> []"
  "admin_sessions sample_owned = []" "tokens_drawn sample_owned = 0" "role_permissions sample_owned = []"
  and sample_owned_result: "\<exists>r. bootstrap_owner auth_sample_env auth_sample_settings sample_bootstrap empty_auth_db empty_auth_db = (Inr r, sample_owned)"
proof -
  have n: "normalize_username auth_sample_env ''Root'' = Inr (''Root'', ''root'')"
  proof -
    have "strip ''Root'' = ''Root''" "casefold ''Root'' = ''root''" by code_simp+
    moreover have "\<not> list_ex (\<lambda>c. py_isspace c \<or> is_category_c c) ''Root''" by code_simp
    ultimately show ?thesis by (simp add: normalize_username_def)
  qed
  have p: "validate_new_password ''correct horse'' = Inr ()" by code_simp
  let ?role = "\<lparr>ro_id = 1, ro_code = owner_role_code, ro_name = ''Owner'', ro_is_system = True, ro_active = True\<rparr>"
  let ?s1 = "empty_auth_db\<lparr>salts_drawn := Suc 0\<rparr>"
  let ?s2 = "?s1\<lparr>auth_ids := Suc 0, rbac_roles := [?role]\<rparr>"
  define s3 where "s3 = ensure_system_permissions auth_sample_env ?s2"
  have h: "hash_password auth_sample_env ''correct horse'' empty_auth_db = Inr (''correct horse'', ?s1)"
    by (simp add: hash_password_def p empty_auth_db_def)
  have o: "owner_role auth_sample_env ?s1 = (?role, ?s2)"
    by (simp add: owner_role_def empty_auth_db_def auth_alloc_def Let_def)
  have same: "same_accounts ?s2 s3" by (simp add: s3_def)
  have "length (filter (\<lambda>(code, _). \<not> List.member [] code) system_permission_catalog) = 21"
    by code_simp
  then have ids: "auth_ids s3 = 22" and other: "throttles s3 = []" "role_permissions s3 = []"
    by (simp_all add: s3_def ensure_system_permissions_def empty_auth_db_def)
  note s3 = same_accountsD(1-6)[OF same] ids other
  define final where "final = record_security_event ''auth.bootstrap'' Out_SUCCESS (Some ''source:::1'') (Some 23) None (Some ''root'') (JObj [])
    (s3\<lparr>auth_ids := 23, admin_users := [sample_owner], user_roles := [\<lparr>ur_user_id = 23, ur_role_id = 1\<rparr>],
      bootstrap_states := [\<lparr>bs_id = 1, bs_owner_user_id = 23,
        bs_token_fingerprint = fingerprint_token auth_sample_env (replicate 32 CHR ''b'')\<rparr>]\<rparr>)"
  have no: "bootstrap_states empty_auth_db = []" "\<not> owner_exists empty_auth_db"
    by (simp_all add: empty_auth_db_def owner_exists_def)
  have result: "bootstrap_owner auth_sample_env auth_sample_settings sample_bootstrap empty_auth_db empty_auth_db = (Inr sample_owner, final)"
    unfolding bootstrap_owner_def
    by (simp add: sample_bootstrap_def n no h o Let_def s3_def[symmetric] auth_sample_settings_def secrets_equal_def
        auth_alloc_def s3 hash_context_def)
      (simp add: final_def sample_owner_def empty_auth_db_def)
  then have boot: "sample_owned = final"
    "\<exists>r. bootstrap_owner auth_sample_env auth_sample_settings sample_bootstrap empty_auth_db empty_auth_db = (Inr r, final)"
    by (auto simp: sample_owned_def)
  have final: "admin_users final = [sample_owner]" "auth_ids final = 23" "throttles final = []"
    "rbac_roles final = [?role]" "user_roles final = [\<lparr>ur_user_id = 23, ur_role_id = 1\<rparr>]" "bootstrap_states final \<noteq> []"
    "admin_sessions final = []" "tokens_drawn final = 0" "role_permissions final = []"
    using s3 by (simp_all add: final_def empty_auth_db_def)
  show "admin_users sample_owned = [sample_owner]" "auth_ids sample_owned = 23" "throttles sample_owned = []"
    "rbac_roles sample_owned = [\<lparr>ro_id = 1, ro_code = owner_role_code, ro_name = ''Owner'', ro_is_system = True, ro_active = True\<rparr>]"
    "user_roles sample_owned = [\<lparr>ur_user_id = 23, ur_role_id = 1\<rparr>]" "bootstrap_states sample_owned \<noteq> []"
    "admin_sessions sample_owned = []" "tokens_drawn sample_owned = 0" "role_permissions sample_owned = []"
    "\<exists>r. bootstrap_owner auth_sample_env auth_sample_settings sample_bootstrap empty_auth_db empty_auth_db = (Inr r, sample_owned)"
    by (simp_all add: boot final)
qed

lemma sample_owned_reached: "auth_steps auth_sample_env auth_sample_settings empty_auth_db sample_owned"
  using sample_owned_result steps_snoc[OF steps_refl step_bootstrap[OF steps_refl]] by blast

lemma reached_ok:
  assumes "auth_settings_ok S" "auth_steps E S empty_auth_db s" "inj_on (uuid7 (lib E)) {..<auth_ids s}"
  shows "auth_ok E s"
  using auth_runs_keep(2)[OF assms] empty_auth_ok by blast

lemma later_ok:
  assumes "auth_settings_ok S" "auth_steps E S empty_auth_db s" "auth_steps E S s t" "inj_on (uuid7 (lib E)) {..<auth_ids t}"
  shows "auth_ok E s \<and> auth_ok E t \<and> auth_keeps s t"
  using reached_ok[OF assms(1,2) inj_below[OF assms(4) auth_ids_mono(2)[OF assms(3)]]]
    auth_runs_keep(2)[OF assms(1,3,4)] by blast

section \<open>Owners\<close>

text \<open>
  C10: Once the first owner has been created, no sequence of operations leaves the system without
  an active account that holds the owner role and is recognised as an owner when it signs in.
\<close>

theorem owner_never_lost:
  assumes set: "auth_settings_ok S" and run: "auth_steps E S empty_auth_db s"
    and keys: "inj_on (uuid7 (lib E)) {..<auth_ids s}" and boot: "bootstrap_states s \<noteq> []"
  shows "\<exists>u\<in>set (admin_users s). us_status u = Adm_ACTIVE \<and> (\<forall>i. is_owner (load_principal s u i))"
proof -
  have ok: "auth_ok E s" by (rule reached_ok[OF set run keys])
  then obtain u where u: "active_owner s u" using boot by (auto simp: auth_ok_def owner_ok_def)
  then obtain r where r: "r \<in> set (rbac_roles s)" "ro_code r = owner_role_code" "has_role s (us_id u) (ro_id r)"
    by (auto simp: active_owner_def)
  have "ro_active r" using ok r(1,2) by (auto simp: auth_ok_def roles_ok_def)
  then have "\<exists>x\<in>set (filter ro_active (roles_of s (us_id u))). ro_code x = owner_role_code"
    using r by (auto simp: roles_of_def has_role_def)
  then have "is_owner (load_principal s u i)" for i by (auto simp: is_owner_def load_principal_def Let_def image_iff)
  then show ?thesis using u by (auto simp: active_owner_def)
qed

theorem owner_never_lost_witness: "\<exists>u\<in>set (admin_users sample_owned). us_status u = Adm_ACTIVE"
proof -
  have k: "inj_on (uuid7 (lib auth_sample_env)) {..<auth_ids sample_owned}"
    by (rule auth_sample_ids_differ) (simp add: sample_owned_sel)
  show ?thesis using owner_never_lost[OF auth_sample_settings_ok sample_owned_reached k sample_owned_sel(6)] by blast
qed

text \<open>
  The first owner is created at most once, and only for a caller who presents the configured
  token while there is no owner: afterwards every bootstrap request is refused, in every state
  the operations reach, whatever else happens in between.
\<close>

theorem bootstrap_happens_once:
  assumes set: "auth_settings_ok S" and run: "auth_steps E S empty_auth_db s" and u: "auth_steps E S s u"
    and boot: "bootstrap_owner E S b u s = (Inr owner, s')" and later: "auth_steps E S s' t"
    and keys: "inj_on (uuid7 (lib E)) {..<auth_ids t}"
  shows "bootstrap_token S = Some (br_presented_token b) \<and> \<not> owner_exists s \<and> us_id owner \<in> us_id ` set (admin_users t) \<and>
    (\<forall>b' v. \<exists>e. fst (bootstrap_owner E S b' v t) = Inl e)"
proof -
  have step: "auth_step E S s s'" by (rule step_bootstrap[OF u boot])
  have "auth_steps E S empty_auth_db s'" using run step by (rule steps_snoc)
  then have k: "auth_keeps s' t" using later_ok[OF set _ later keys] by blast
  obtain configured where t: "bootstrap_token S = Some configured" "secrets_equal configured (br_presented_token b)"
      "\<not> (bootstrap_states s \<noteq> [] \<or> owner_exists s)"
    and s': "bootstrap_states s' \<noteq> []" "owner \<in> set (admin_users s')"
    using boot by (auto simp: bootstrap_owner_def Let_def auth_alloc_def split_def split: sum.splits option.splits if_splits)
  have "configured = br_presented_token b" using t(2) utf8_inj by (auto simp: secrets_equal_def)
  moreover have "bootstrap_states t \<noteq> []" using k s'(1) by (simp add: auth_keeps_def)
  then have "\<exists>e. fst (bootstrap_owner E S b' v t) = Inl e" for b' v
    by (auto simp: bootstrap_owner_def Let_def split: sum.split prod.split)
  moreover have "us_id owner \<in> us_id ` set (admin_users t)"
  proof -
    obtain xs zs where "admin_users t = xs @ zs" "list_all2 user_le (admin_users s') xs"
      using k by (auto simp: auth_keeps_def extends_by_def)
    then have "list_all2 (\<lambda>u v. us_id v = us_id u) (admin_users s') xs" by (auto simp: user_le_def elim: list_all2_mono)
    then have "map us_id xs = map us_id (admin_users s')" by (induction rule: list_all2_induct) auto
    then have "us_id ` set xs = us_id ` set (admin_users s')" by (metis list.set_map)
    then show ?thesis using s'(2) \<open>admin_users t = xs @ zs\<close> by auto
  qed
  ultimately show ?thesis using t by simp
qed

theorem bootstrap_happens_once_witness:
  "\<exists>e. fst (bootstrap_owner auth_sample_env auth_sample_settings sample_bootstrap sample_owned sample_owned) = Inl e"
proof -
  obtain r where r: "bootstrap_owner auth_sample_env auth_sample_settings sample_bootstrap empty_auth_db empty_auth_db = (Inr r, sample_owned)"
    using sample_owned_result by blast
  have k: "inj_on (uuid7 (lib auth_sample_env)) {..<auth_ids sample_owned}"
    by (rule auth_sample_ids_differ) (simp add: sample_owned_sel)
  show ?thesis
    using bootstrap_happens_once[OF auth_sample_settings_ok steps_refl steps_refl r steps_refl k] by blast
qed

section \<open>Sessions\<close>

lemma session_later:
  assumes keeps: "auth_keeps s t" and row: "session_row E s token = Some (row, user)"
  obtains row' user' where "session_row E t token = Some (row', user')" "session_le row row'" "user_le user user'"
proof -
  have r: "get_row se_token_hash (hash_token E token) (admin_sessions s) = Some row" "get_row us_id (se_user_id row) (admin_users s) = Some user"
    using row by (auto simp: session_row_def split: option.splits)
  have e: "extends_by session_le (admin_sessions s) (admin_sessions t)" "extends_by user_le (admin_users s) (admin_users t)"
    using keeps by (auto simp: auth_keeps_def)
  obtain row' where row': "get_row se_token_hash (hash_token E token) (admin_sessions t) = Some row'" "session_le row row'"
    using extends_get_row[OF e(1) _ r(1)] by (auto simp: session_le_def)
  obtain user' where user': "get_row us_id (se_user_id row) (admin_users t) = Some user'" "user_le user user'"
    using extends_get_row[OF e(2) _ r(2)] by (auto simp: user_le_def)
  have "se_user_id row' = se_user_id row" using row'(2) by (simp add: session_le_def)
  then show ?thesis using that[OF _ row'(2) user'(2)] row'(1) user'(1) by (simp add: session_row_def)
qed

lemma get_row_put_row:
  assumes "get_row f k rows = Some r" "unique_by key rows" "key r' = key r" "f r' = f r"
  shows "get_row f k (put_row key r' rows) = Some r'"
  using assms(1,2)
proof (induction rows)
  case (Cons x rows)
  show ?case
  proof (cases "f x = k")
    case True
    then show ?thesis using Cons.prems assms(3,4) by (simp add: get_row_Cons put_row_def)
  next
    case False
    then have g: "get_row f k rows = Some r" using Cons.prems(1) by (simp add: get_row_Cons)
    then have "r \<in> set rows" using get_row_Some_mem by fast
    then have "key x \<noteq> key r'" using Cons.prems(2) assms(3) by (auto simp: unique_by_def)
    then show ?thesis using Cons.IH[OF g] Cons.prems(2) False by (simp add: get_row_Cons put_row_def unique_by_def)
  qed
qed simp

lemma revoked_refused:
  assumes "session_row E t token = Some (row, user)" "se_revoked_at row \<noteq> None"
  shows "authenticate_session E S token now t = (Inl InvalidSession, t)"
  using assms by (auto simp: authenticate_session_def invalid_reason_def)

lemma revoked_refused_later:
  assumes "auth_keeps s t" "session_row E s token = Some (row, user)" "se_revoked_at row \<noteq> None"
  shows "authenticate_session E S token now t = (Inl InvalidSession, t)"
proof -
  obtain row' user' where "session_row E t token = Some (row', user')" "session_le row row'"
    by (rule session_later[OF assms(1,2)])
  then show ?thesis using revoked_refused assms(3) by (auto simp: session_le_def)
qed

text \<open>
  A session that has been refused once, because it was revoked or had expired, or because its
  account was disabled or changed, is refused ever after, whatever operations follow and whatever
  the clock reads.
\<close>

theorem refused_session_stays_refused:
  assumes set: "auth_settings_ok S" and run: "auth_steps E S empty_auth_db s"
    and known: "session_row E s token = Some (row, user)" "token \<noteq> []"
    and refused: "authenticate_session E S token now s = (Inl InvalidSession, s')"
    and later: "auth_steps E S s' t" and keys: "inj_on (uuid7 (lib E)) {..<auth_ids t}"
  shows "authenticate_session E S token now' t = (Inl InvalidSession, t)"
proof -
  have ok: "auth_ok E s" and ok': "auth_ok E s'" and k: "auth_keeps s' t"
    using later_ok[OF set steps_snoc[OF run step_authenticate[OF refused]] later keys]
      reached_ok[OF set run inj_below[OF keys]] auth_ids_mono_op(1)[OF refused] auth_ids_mono(2)[OF later] by auto
  have mem: "get_row se_token_hash (hash_token E token) (admin_sessions s) = Some row" "get_row us_id (se_user_id row) (admin_users s) = Some user"
    using known by (auto simp: session_row_def split: option.splits)
  obtain row1 where row1: "session_row E s' token = Some (row1, user)" "se_revoked_at row1 \<noteq> None"
  proof (cases "se_revoked_at row")
    case (Some x)
    then show ?thesis using that[of row] refused known by (auto simp: authenticate_session_def invalid_reason_def)
  next
    case None
    then obtain reason where reason: "invalid_reason row user now = Some reason"
      using refused known by (auto simp: authenticate_session_def Let_def split: option.splits)
    let ?row = "row\<lparr>se_revoked_at := Some now, se_revoked_reason := Some reason\<rparr>"
    have s': "admin_sessions s' = put_row se_id ?row (admin_sessions s)" "admin_users s' = admin_users s"
      using refused known reason None by (auto simp: authenticate_session_def)
    have u: "unique_by se_id (admin_sessions s)" using ok by (simp add: auth_ok_def sessions_ok_def)
    have "get_row se_token_hash (hash_token E token) (put_row se_id ?row (admin_sessions s)) = Some ?row"
      by (rule get_row_put_row[OF mem(1) u]) simp_all
    then show ?thesis using that[of ?row] mem u s' by (simp add: session_row_def)
  qed
  show ?thesis by (rule revoked_refused_later[OF k row1])
qed

lemma get_row_map:
  assumes "\<And>r. key (f r) = key r"
  shows "get_row key k (map f rows) = map_option f (get_row key k rows)"
  by (induction rows) (simp_all add: get_row_Cons assms)

lemma invalidated_refused:
  assumes row: "session_row E s token = Some (row, user)" and i: "us_id user \<in> set users"
    and t: "admin_sessions t = admin_sessions s" and s': "same_accounts (invalidate_users users reason now t) s'"
    and keeps: "auth_keeps s s'" "auth_keeps s' u"
  shows "authenticate_session E S token now' u = (Inl InvalidSession, u)"
proof -
  let ?f = "\<lambda>row. if se_user_id row \<in> set users \<and> se_revoked_at row = None
     then row\<lparr>se_revoked_at := Some now, se_revoked_reason := Some reason\<rparr> else row"
  have r: "get_row se_token_hash (hash_token E token) (admin_sessions s) = Some row" "get_row us_id (se_user_id row) (admin_users s) = Some user"
    using row by (auto simp: session_row_def split: option.splits)
  have rows: "admin_sessions s' = map ?f (admin_sessions s)"
    using i by (auto simp: same_accountsD[OF s'] invalidate_users_def revoke_sessions_of_def t)
  have id: "se_user_id row \<in> set users" using get_row_Some_mem[OF r(2)] i by simp
  have "get_row se_token_hash (hash_token E token) (admin_sessions s') = map_option ?f (Some row)"
    unfolding rows r(1)[symmetric] by (rule get_row_map) simp
  then have g: "get_row se_token_hash (hash_token E token) (admin_sessions s') = Some (?f row)" by (simp only: option.map)
  obtain row' user' where row': "session_row E s' token = Some (row', user')" by (rule session_later[OF keeps(1) row])
  then have "row' = ?f row" using g by (auto simp: session_row_def split: option.splits)
  then have "se_revoked_at row' \<noteq> None" using id by auto
  then show ?thesis using revoked_refused_later[OF keeps(2) row'] by blast
qed

text \<open>
  C9: Changing the status of an account, its roles, or the permissions of a role it has, ends
  every session the account had: none of their tokens is ever accepted again.
\<close>

theorem privilege_change_ends_sessions:
  assumes set: "auth_settings_ok S" and run: "auth_steps E S empty_auth_db s"
    and change: "set_user_status i status actor now s = Inr (v, s') \<or> replace_user_roles i codes actor now s = Inr (v, s') \<or>
      (replace_role_permissions role codes actor now s = Inr (rv, s') \<and> has_role s i role)"
    and changed: "s' \<noteq> s" and later: "auth_steps E S s' t" and keys: "inj_on (uuid7 (lib E)) {..<auth_ids t}"
    and row: "session_row E s token = Some (row, user)" "us_id user = i"
  shows "authenticate_session E S token now' t = (Inl InvalidSession, t)"
proof -
  have step: "auth_step E S s s'"
    using change by (auto intro: step_set_status step_replace_roles step_replace_permissions)
  have k': "auth_keeps s' t" "inj_on (uuid7 (lib E)) {..<auth_ids s'}"
    using later_ok[OF set steps_snoc[OF run step] later keys] inj_below[OF keys auth_ids_mono(2)[OF later]] by blast+
  have ok: "auth_ok E s" using reached_ok[OF set run inj_below[OF k'(2) auth_ids_mono(1)[OF step]]] .
  have k: "auth_keeps s s'" using auth_runs_keep(1)[OF set step k'(2) ok] by blast
  obtain users reason u where "i \<in> set users" "admin_sessions u = admin_sessions s"
    "same_accounts (invalidate_users users reason now u) s'"
  proof -
    from change consider
      (status) "set_user_status i status actor now s = Inr (v, s')"
      | (roles) "replace_user_roles i codes actor now s = Inr (v, s')"
      | (permissions) "replace_role_permissions role codes actor now s = Inr (rv, s')" "has_role s i role"
      by blast
    then show ?thesis
    proof cases
      case status
      then show ?thesis
      proof (cases rule: set_user_status_effect)
        case (2 x)
        have "us_id x = i" using get_row_Some_mem[OF 2(1)] by simp
        then show ?thesis using that[OF _ _ 2(5)] by simp
      qed (use changed in simp)
    next
      case roles
      then obtain rows where r: "same_accounts (invalidate_users [i] ''admin_user_roles_changed'' now (s\<lparr>user_roles := rows\<rparr>)) s'"
        using replace_roles_effect changed by blast
      show ?thesis by (rule that[OF _ _ r]) simp_all
    next
      case permissions
      then obtain rows where r: "same_accounts (invalidate_users (map us_id (filter (\<lambda>u. has_role s (us_id u) role) (admin_users s)))
          ''admin_role_permissions_changed'' now (s\<lparr>role_permissions := rows\<rparr>)) s'"
        using replace_permissions_effect changed by blast
      have "user \<in> set (admin_users s)" using row by (auto simp: session_row_def split: option.splits dest: get_row_Some_mem)
      then show ?thesis by (intro that[OF _ _ r]) (use permissions(2) row(2) in auto)
    qed
  qed
  then show ?thesis using invalidated_refused[OF row(1) _ _ _ k k'(1)] row(2) by blast
qed

text \<open>What a successful login has found and written.\<close>

lemma finish_login_writes:
  assumes "finish_login E S q u now s = (res, s')"
  obtains row where "admin_sessions s' = admin_sessions s @ [row]" "se_id row = iss_session_id (lr_issued_session res)"
    "iss_token (lr_issued_session res) = token_urlsafe E (tokens_drawn s)"
    "se_user_id row = us_id u" "se_token_hash row = hash_token E (token_urlsafe E (tokens_drawn s))"
    "se_csrf_token_hash row = hash_token E (iss_csrf_token (lr_issued_session res))" "se_auth_version row = us_auth_version u"
    "se_absolute_expires_at row = now + secs (session_absolute_seconds S)" "tokens_drawn s' = Suc (Suc (tokens_drawn s))"
  using assms
  by (auto simp: finish_login_def create_auth_session_def generate_token_def auth_alloc_def Let_def clear_account_throttle_def)

lemma login_succeeds:
  assumes "login E S q now s = (Inr res, s')"
  obtains u user1 s1 where "login_user E q s = Some u" "us_status u = Adm_ACTIVE" "argon2_verify E (us_password_hash u) (lq_password q)"
    "rehash_password E (lq_password q) u s = Inr (user1, s1)" "finish_login E S q user1 now s1 = (res, s')"
  using assms
  by (auto simp: login_def accept_login_def Let_def case_prod_beta credentials_ok_def split: if_splits option.splits sum.splits)

text \<open>
  C11: The token a login returns stands for the account that signed in and for nothing else: when
  it is accepted, however much later, the password of that account had been presented, the account
  is active and has not been changed since, the absolute lifetime of the session has not passed,
  and the request token expected of the caller is the one the login returned.
\<close>

theorem login_token_identifies_account:
  assumes set: "auth_settings_ok S" and run: "auth_steps E S empty_auth_db s"
    and signed_in: "login E S q now s = (Inr res, s1)" and later: "auth_steps E S s1 t"
    and keys: "inj_on (uuid7 (lib E)) {..<auth_ids t}"
    and tokens: "inj_on (\<lambda>n. hash_token E (token_urlsafe E n)) {..<tokens_drawn t}"
    and accepted: "authenticate_session E S (iss_token (lr_issued_session res)) now' t = (Inr c, t')"
  shows "\<exists>u\<in>set (admin_users s). \<exists>user\<in>set (admin_users t).
     argon2_verify E (us_password_hash u) (lq_password q) \<and> us_username_normalized u = fst (login_names E (lq_username q)) \<and>
     us_id user = us_id u \<and> us_auth_version user = us_auth_version u \<and> us_status user = Adm_ACTIVE \<and>
     cx_principal c = load_principal t' user (iss_session_id (lr_issued_session res)) \<and>
     now' < now + secs (session_absolute_seconds S) \<and>
     cx_csrf_token_hash c = hash_token E (iss_csrf_token (lr_issued_session res))"
proof -
  have step: "auth_step E S s s1" by (rule step_login[OF signed_in])
  have k: "auth_keeps s1 t" "auth_ok E s1" using later_ok[OF set steps_snoc[OF run step] later keys] by blast+
  have ks: "inj_on (uuid7 (lib E)) {..<auth_ids s1}" using inj_below[OF keys auth_ids_mono(2)[OF later]] .
  have ok: "auth_ok E s" using reached_ok[OF set run inj_below[OF ks auth_ids_mono(1)[OF step]]] .
  obtain u user1 s2 where u: "login_user E q s = Some u" "argon2_verify E (us_password_hash u) (lq_password q)"
      "rehash_password E (lq_password q) u s = Inr (user1, s2)" "finish_login E S q user1 now s2 = (res, s1)"
    by (rule login_succeeds[OF signed_in])
  have mem: "u \<in> set (admin_users s)" and name: "us_username_normalized u = fst (login_names E (lq_username q))"
    using u(1) by (auto simp: login_user_def Let_def case_prod_beta split: if_splits dest: get_row_Some_mem)
  note h = rehash_keeps[OF u(3)]
  then have sel: "admin_sessions s2 = admin_sessions s" "tokens_drawn s2 = tokens_drawn s" by (simp_all add: same_accountsD)
  obtain row where row: "admin_sessions s1 = admin_sessions s2 @ [row]" "se_id row = iss_session_id (lr_issued_session res)"
    "iss_token (lr_issued_session res) = token_urlsafe E (tokens_drawn s2)"
    "se_user_id row = us_id user1" "se_token_hash row = hash_token E (token_urlsafe E (tokens_drawn s2))"
    "se_csrf_token_hash row = hash_token E (iss_csrf_token (lr_issued_session res))" "se_auth_version row = us_auth_version user1"
    "se_absolute_expires_at row = now + secs (session_absolute_seconds S)" "tokens_drawn s1 = Suc (Suc (tokens_drawn s2))"
    by (rule finish_login_writes[OF u(4)])
  have drawn: "tokens_drawn s < tokens_drawn t" using k(1) row(9) sel by (simp add: auth_keeps_def)
  have fresh: "se_token_hash x \<noteq> se_token_hash row" if "x \<in> set (admin_sessions s)" for x
  proof
    assume e: "se_token_hash x = se_token_hash row"
    have "se_token_hash x \<in> issued_hashes E s" using ok that by (auto simp: auth_ok_def sessions_ok_def)
    then obtain n where n: "n < tokens_drawn s" "hash_token E (token_urlsafe E n) = hash_token E (token_urlsafe E (tokens_drawn s))"
      using e row(5) sel by (auto simp: issued_hashes_def)
    have "n = tokens_drawn s" by (rule inj_onD[OF tokens n(2)]) (use n(1) drawn in auto)
    then show False using n(1) by simp
  qed
  then have "get_row se_token_hash (se_token_hash row) (admin_sessions s) = None" by (simp add: get_row_None_iff)
  then have got: "get_row se_token_hash (hash_token E (iss_token (lr_issued_session res))) (admin_sessions s1) = Some row"
    using row(1,3,5) sel by (simp add: get_row_append get_row_Cons)
  have "row \<in> set (admin_sessions s1)" using row(1) by simp
  then obtain user0 where user0: "get_row us_id (se_user_id row) (admin_users s1) = Some user0" "se_auth_version row \<le> us_auth_version user0"
    using k(2) by (auto simp: auth_ok_def sessions_ok_def session_ok_def)
  have first: "session_row E s1 (iss_token (lr_issued_session res)) = Some (row, user0)" using got user0 by (simp add: session_row_def)
  obtain row' user' where last: "session_row E t (iss_token (lr_issued_session res)) = Some (row', user')"
      "session_le row row'" "user_le user0 user'" by (rule session_later[OF k(1) first])
  have acc: "invalid_reason row' user' now' = None" "cx_principal c = load_principal t' user' (se_id row')"
    "cx_csrf_token_hash c = se_csrf_token_hash row'"
    using accepted last(1) by (auto simp: authenticate_session_def Let_def split: if_splits option.splits)
  have user': "user' \<in> set (admin_users t)" "us_id user' = us_id u"
    using last(1,2) h row(4) by (auto simp: session_row_def session_le_def split: option.splits dest: get_row_Some_mem)
  have "us_status user' = Adm_ACTIVE" "se_auth_version row' = us_auth_version user'" "now' < se_absolute_expires_at row'"
    using acc(1) by (auto simp: invalid_reason_def split: if_splits)
  then show ?thesis
    using mem name user' u(2) acc(2,3) last(2) row h by (intro bexI[of _ u] bexI[of _ user']) (auto simp: session_le_def)
qed

section \<open>The sample owner signs in\<close>

definition sample_session :: admin_session where
  "sample_session = \<lparr>se_id = 24, se_user_id = 23, se_token_hash = ''t'', se_csrf_token_hash = ''tt'', se_auth_version = 1,
     se_last_seen_at = 0, se_idle_expires_at = 1800000000, se_absolute_expires_at = 43200000000, se_revoked_at = None,
     se_revoked_reason = None, se_source_key_hash = Some ''source:::1'', se_user_agent_hash = None\<rparr>"

lemma sample_names: "login_names auth_sample_env ''ROOT'' = (''root'', True)"
proof -
  have "strip ''ROOT'' = ''ROOT''" "casefold ''ROOT'' = ''root''" by code_simp+
  moreover have "\<not> list_ex (\<lambda>c. py_isspace c \<or> is_category_c c) ''ROOT''" by code_simp
  ultimately show ?thesis by (simp add: login_names_def normalize_username_def)
qed

lemma sample_login_result:
  "\<exists>res. login auth_sample_env auth_sample_settings sample_login 0 sample_owned = (Inr res, sample_logged_in) \<and>
    iss_token (lr_issued_session res) = ''t'' \<and> iss_csrf_token (lr_issued_session res) = ''tt'' \<and> iss_session_id (lr_issued_session res) = 24"
  and sample_logged_in_sel: "admin_users sample_logged_in = [sample_owner\<lparr>us_last_login_at := Some 0\<rparr>]"
    "admin_sessions sample_logged_in = [sample_session]" "auth_ids sample_logged_in = 24" "tokens_drawn sample_logged_in = 2"
    "rbac_roles sample_logged_in = rbac_roles sample_owned" "user_roles sample_logged_in = user_roles sample_owned"
    "throttles sample_logged_in = []" "role_permissions sample_logged_in = []" "bootstrap_states sample_logged_in \<noteq> []"
proof -
  have u: "login_user auth_sample_env sample_login sample_owned = Some sample_owner"
    by (simp add: login_user_def sample_login_def sample_names sample_owned_sel get_row_Cons sample_owner_def)
  have w: "retry_after auth_sample_env sample_login 0 sample_owned = 0"
    by (simp add: retry_after_def load_throttle_def sample_owned_sel active_block_seconds_def)
  have c: "credentials_ok auth_sample_env sample_login (Some sample_owner)"
    by (simp add: credentials_ok_def sample_owner_def sample_login_def)
  have r: "rehash_password auth_sample_env p sample_owner sample_owned = Inr (sample_owner, sample_owned)" for p
    by (simp add: rehash_password_def)
  obtain res s' where f: "finish_login auth_sample_env auth_sample_settings sample_login sample_owner 0 sample_owned = (res, s')" by fastforce
  have l: "login auth_sample_env auth_sample_settings sample_login 0 sample_owned = (Inr res, s')"
    by (simp add: login_def w u c accept_login_def r f case_prod_beta)
  then have s': "s' = sample_logged_in" by (simp add: sample_logged_in_def)
  have e: "iss_token (lr_issued_session res) = ''t''" "iss_csrf_token (lr_issued_session res) = ''tt''" "iss_session_id (lr_issued_session res) = 24"
    "admin_users s' = [sample_owner\<lparr>us_last_login_at := Some 0\<rparr>]" "admin_sessions s' = [sample_session]" "auth_ids s' = 24"
    "tokens_drawn s' = 2" "rbac_roles s' = rbac_roles sample_owned" "user_roles s' = user_roles sample_owned"
    "throttles s' = []" "role_permissions s' = []" "bootstrap_states s' \<noteq> []"
    using f
    by (auto simp: finish_login_def create_auth_session_def generate_token_def auth_alloc_def clear_account_throttle_def
        sample_owned_sel sample_session_def sample_owner_def sample_login_def auth_sample_settings_def secs_def hash_token_def
        hash_context_def put_row_def record_security_event_def sample_names Let_def)
  show "\<exists>res. login auth_sample_env auth_sample_settings sample_login 0 sample_owned = (Inr res, sample_logged_in) \<and>
    iss_token (lr_issued_session res) = ''t'' \<and> iss_csrf_token (lr_issued_session res) = ''tt'' \<and> iss_session_id (lr_issued_session res) = 24"
    using l e(1-3) s' by blast
  show "admin_users sample_logged_in = [sample_owner\<lparr>us_last_login_at := Some 0\<rparr>]"
    "admin_sessions sample_logged_in = [sample_session]" "auth_ids sample_logged_in = 24" "tokens_drawn sample_logged_in = 2"
    "rbac_roles sample_logged_in = rbac_roles sample_owned" "user_roles sample_logged_in = user_roles sample_owned"
    "throttles sample_logged_in = []" "role_permissions sample_logged_in = []" "bootstrap_states sample_logged_in \<noteq> []"
    using e s' by simp_all
qed

lemma sample_logged_in_reached: "auth_steps auth_sample_env auth_sample_settings empty_auth_db sample_logged_in"
proof -
  obtain res where "login auth_sample_env auth_sample_settings sample_login 0 sample_owned = (Inr res, sample_logged_in)"
    using sample_login_result by blast
  then show ?thesis using steps_snoc[OF sample_owned_reached step_login] by blast
qed

lemma sample_session_row:
  "session_row auth_sample_env sample_logged_in ''t'' = Some (sample_session, sample_owner\<lparr>us_last_login_at := Some 0\<rparr>)"
  by (simp add: session_row_def sample_logged_in_sel get_row_Cons hash_token_def sample_session_def sample_owner_def)

theorem refused_session_stays_refused_witness:
  "\<exists>s'. authenticate_session auth_sample_env auth_sample_settings ''t'' 1800000000 sample_logged_in = (Inl InvalidSession, s') \<and>
     authenticate_session auth_sample_env auth_sample_settings ''t'' 5 s' = (Inl InvalidSession, s')"
proof -
  obtain s' where s': "authenticate_session auth_sample_env auth_sample_settings ''t'' 1800000000 sample_logged_in = (Inl InvalidSession, s')"
    by (simp add: authenticate_session_def sample_session_row invalid_reason_def sample_session_def sample_owner_def)
  have k: "inj_on (uuid7 (lib auth_sample_env)) {..<auth_ids s'}"
    by (rule auth_sample_ids_differ) (simp add: auth_ids_mono_op(1)[OF s'] sample_logged_in_sel)
  show ?thesis
    using s' refused_session_stays_refused[OF auth_sample_settings_ok sample_logged_in_reached sample_session_row _ s' steps_refl k]
    by blast
qed

theorem login_token_identifies_account_witness:
  "\<exists>c s'. authenticate_session auth_sample_env auth_sample_settings ''t'' 5 sample_logged_in = (Inr c, s') \<and>
     cx_csrf_token_hash c = ''tt'' \<and> pn_user_id (cx_principal c) = 23"
proof -
  obtain res where l: "login auth_sample_env auth_sample_settings sample_login 0 sample_owned = (Inr res, sample_logged_in)"
    "iss_token (lr_issued_session res) = ''t''" "iss_csrf_token (lr_issued_session res) = ''tt''" "iss_session_id (lr_issued_session res) = 24"
    using sample_login_result by blast
  obtain c s' where a: "authenticate_session auth_sample_env auth_sample_settings ''t'' 5 sample_logged_in = (Inr c, s')"
    by (simp add: authenticate_session_def sample_session_row invalid_reason_def sample_session_def sample_owner_def Let_def)
  have k: "inj_on (uuid7 (lib auth_sample_env)) {..<auth_ids sample_logged_in}"
    by (rule auth_sample_ids_differ) (simp add: sample_logged_in_sel)
  have t: "inj_on (\<lambda>n. hash_token auth_sample_env (token_urlsafe auth_sample_env n)) {..<tokens_drawn sample_logged_in}"
    by (rule inj_onI) (simp add: hash_token_def)
  obtain user where "user \<in> set (admin_users sample_logged_in)" "cx_principal c = load_principal s' user 24" "cx_csrf_token_hash c = ''tt''"
    using login_token_identifies_account[OF auth_sample_settings_ok sample_owned_reached l(1) steps_refl k t, of 5 c s'] a l(2-4)
    by (auto simp: hash_token_def)
  then show ?thesis using a by (auto simp: sample_logged_in_sel load_principal_def Let_def sample_owner_def)
qed

text \<open>The owner creates a role and takes it.\<close>

definition sample_principal :: auth_principal where
  "sample_principal = \<lparr>pn_user_id = 23, pn_session_id = 24, pn_username = ''Root'', pn_display_name = None,
     pn_roles = {owner_role_code}, pn_permissions = {}\<rparr>"

definition sample_role :: rbac_role where
  "sample_role = \<lparr>ro_id = 25, ro_code = ''operator'', ro_name = ''Operator'', ro_is_system = False, ro_active = True\<rparr>"

lemma sample_role_created:
  obtains v s1 where "create_role auth_sample_env \<lparr>rc_code = ''operator'', rc_name = ''Operator''\<rparr> sample_principal sample_logged_in sample_logged_in
      = Inr (v, s1)"
    "rbac_roles s1 = rbac_roles sample_owned @ [sample_role]" "admin_users s1 = admin_users sample_logged_in"
    "admin_sessions s1 = admin_sessions sample_logged_in" "user_roles s1 = user_roles sample_owned" "auth_ids s1 = 25"
  by (simp add: create_role_def require_owner_actor_def sample_principal_def is_owner_def owner_role_code_def auth_alloc_def
      sample_logged_in_sel sample_owned_sel sample_role_def Let_def)

theorem privilege_change_ends_sessions_witness:
  "\<exists>s' v s. replace_user_roles 23 [''owner'', ''operator''] sample_principal 7 s = Inr (v, s') \<and>
     authenticate_session auth_sample_env auth_sample_settings ''t'' 8 s' = (Inl InvalidSession, s')"
proof -
  obtain v0 s where c: "create_role auth_sample_env \<lparr>rc_code = ''operator'', rc_name = ''Operator''\<rparr> sample_principal sample_logged_in sample_logged_in
      = Inr (v0, s)"
    and s: "rbac_roles s = rbac_roles sample_owned @ [sample_role]" "admin_users s = admin_users sample_logged_in"
      "admin_sessions s = admin_sessions sample_logged_in" "user_roles s = user_roles sample_owned" "auth_ids s = 25"
    by (rule sample_role_created)
  have run: "auth_steps auth_sample_env auth_sample_settings empty_auth_db s"
    by (rule steps_snoc[OF sample_logged_in_reached step_create_role[OF steps_refl c]])
  have g: "get_row us_id 23 (admin_users s) = Some (sample_owner\<lparr>us_last_login_at := Some 0\<rparr>)"
    by (simp add: s sample_logged_in_sel get_row_Cons sample_owner_def)
  have r: "resolve_roles s [''owner'', ''operator''] = Inr (rbac_roles s)"
    by (simp add: resolve_roles_def s sample_owned_sel sample_role_def owner_role_code_def unknown_codes_def)
  have codes: "role_codes_for_user s 23 = [owner_role_code]"
    by (simp add: role_codes_for_user_def roles_of_def s sample_owned_sel sample_role_def)
  obtain v s' where ch: "replace_user_roles 23 [''owner'', ''operator''] sample_principal 7 s = Inr (v, s')" "length (user_roles s') = 2"
    using g r codes
    by (simp add: replace_user_roles_def require_owner_actor_def sample_principal_def is_owner_def load_user_for_update_def
        sample_owner_def s sample_owned_sel sample_role_def owner_role_code_def invalidate_users_def Let_def)
  have ne: "s' \<noteq> s" using ch(2) by (auto simp: s sample_owned_sel)
  have row: "session_row auth_sample_env s ''t'' = Some (sample_session, sample_owner\<lparr>us_last_login_at := Some 0\<rparr>)"
    by (simp add: session_row_def s sample_logged_in_sel get_row_Cons hash_token_def sample_session_def sample_owner_def)
  have k: "inj_on (uuid7 (lib auth_sample_env)) {..<auth_ids s'}"
    by (rule auth_sample_ids_differ) (simp add: auth_ids_mono_op(5)[OF ch(1)] s)
  have i: "us_id (sample_owner\<lparr>us_last_login_at := Some 0\<rparr>) = 23" by (simp add: sample_owner_def)
  show ?thesis
    using ch(1) privilege_change_ends_sessions[OF auth_sample_settings_ok run disjI2[OF disjI1[OF ch(1)]] ne steps_refl k row i] by blast
qed

section \<open>Authorisation of requests\<close>

lemma load_principal_put_session [simp]: "load_principal (put_session r s) user i = load_principal s user i"
  by (simp add: load_principal_def roles_of_def permissions_of_def)

lemma require_admin_permission:
  "require_permission admin_user_manage_permission =
     Some (\<lambda>p. if \<not> is_owner p \<and> admin_user_manage_permission \<notin> pn_permissions p
        then Inl (http_error 403 ''permission denied'') else Inr p)"
proof -
  have "fullmatch permission_code_pattern admin_user_manage_permission" by code_simp
  then show ?thesis by (simp add: require_permission_def)
qed

lemma csrf_accepted:
  "require_authenticated_csrf E rq c = Inr d \<longleftrightarrow> d = c \<and> (\<exists>h. h \<noteq> [] \<and> rq_csrf_header rq = Some h \<and> rq_csrf_cookie rq = Some h \<and>
     hash_token E h = cx_csrf_token_hash c)"
  by (auto simp: require_authenticated_csrf_def validate_csrf_def secrets_equal_def dest: utf8_inj split: option.splits if_splits)


lemma owner_bound_iff: "owner_role_code \<in> set (role_codes_for_user s i) \<longleftrightarrow> owner_role_code \<in> ro_code ` set (roles_of s i)"
  by (simp add: role_codes_for_user_def)

text \<open>
  C19: An account that is not an owner cannot gain or hand out privileges through the
  administration services, whatever permissions it holds: it can neither create a role nor change
  the permissions of a role or the roles of an account, the accounts it creates have no role, and
  it cannot touch the account of an owner.
\<close>

theorem non_owner_gains_nothing:
  assumes "\<not> is_owner actor"
  shows "(\<exists>e. replace_user_roles i codes actor now s = Inl e) \<and> (\<exists>e. create_role E rc actor u s = Inl e) \<and>
    (\<exists>e. replace_role_permissions role codes actor now s = Inl e) \<and>
    (case set_user_status i status actor now s of Inl e \<Rightarrow> True
     | Inr (v, s') \<Rightarrow> user_roles s' = user_roles s \<and> rbac_roles s' = rbac_roles s \<and> role_permissions s' = role_permissions s \<and>
         {x \<in> set (admin_users s). owner_role_code \<in> ro_code ` set (roles_of s (us_id x))} \<subseteq> set (admin_users s')) \<and>
    (case create_user E p actor u s of Inl e \<Rightarrow> True
     | Inr (v, s') \<Rightarrow> uv_roles v = [] \<and> user_roles s' = user_roles u \<and> rbac_roles s' = rbac_roles u \<and>
         role_permissions s' = role_permissions u \<and> set (admin_users u) \<subseteq> set (admin_users s'))"
proof (intro conjI)
  show "\<exists>e. replace_user_roles i codes actor now s = Inl e" "\<exists>e. create_role E rc actor u s = Inl e"
    "\<exists>e. replace_role_permissions role codes actor now s = Inl e"
    using assms by (simp_all add: replace_user_roles_def create_role_def replace_role_permissions_def require_owner_actor_def)
  show "case set_user_status i status actor now s of Inl e \<Rightarrow> True
     | Inr (v, s') \<Rightarrow> user_roles s' = user_roles s \<and> rbac_roles s' = rbac_roles s \<and> role_permissions s' = role_permissions s \<and>
         {x \<in> set (admin_users s). owner_role_code \<in> ro_code ` set (roles_of s (us_id x))} \<subseteq> set (admin_users s')"
  proof (cases "set_user_status i status actor now s")
    case (Inr x)
    obtain v s' where x: "x = (v, s')" by fastforce
    have roles: "role_permissions s' = role_permissions s"
      using Inr by (auto simp: x set_user_status_def result_simps Let_def invalidate_users_def split: if_splits)
    have "user_roles s' = user_roles s \<and> rbac_roles s' = rbac_roles s \<and>
        {x \<in> set (admin_users s). owner_role_code \<in> ro_code ` set (roles_of s (us_id x))} \<subseteq> set (admin_users s')"
      using Inr[unfolded x]
    proof (cases rule: set_user_status_effect)
      case (2 user)
      note s' = same_accountsD[OF 2(5)]
      have "owner_role_code \<notin> ro_code ` set (roles_of s (us_id user))" using 2(3) assms by (auto simp: owner_bound_iff)
      then have "x \<in> set (admin_users s')" if "x \<in> set (admin_users s)" "owner_role_code \<in> ro_code ` set (roles_of s (us_id x))" for x
        using that by (force simp: s' invalidate_users_def put_row_def image_iff)
      then show ?thesis by (auto simp: s' invalidate_users_def)
    qed simp
    then show ?thesis using Inr x roles by simp
  qed simp
  show "case create_user E p actor u s of Inl e \<Rightarrow> True
     | Inr (v, s') \<Rightarrow> uv_roles v = [] \<and> user_roles s' = user_roles u \<and> rbac_roles s' = rbac_roles u \<and>
         role_permissions s' = role_permissions u \<and> set (admin_users u) \<subseteq> set (admin_users s')"
    by (auto simp: create_user_def hash_password_def auth_alloc_def user_view_def Let_def split: sum.splits)
qed

theorem non_owner_gains_nothing_witness:
  "\<exists>e. replace_user_roles 24 [''owner''] (sample_principal\<lparr>pn_user_id := 24, pn_roles := {''operator''},
     pn_permissions := {admin_user_manage_permission}\<rparr>) 7 sample_logged_in = Inl e"
proof -
  have "\<not> is_owner (sample_principal\<lparr>pn_user_id := 24, pn_roles := {''operator''}, pn_permissions := {admin_user_manage_permission}\<rparr>)"
    by (simp add: is_owner_def owner_role_code_def)
  then show ?thesis using non_owner_gains_nothing by blast
qed
end
