(* ===== verification/Auth_Throttle.thy ===== *)
theory Auth_Throttle
  imports Auth_Properties
begin

text \<open>
  The throttle of the login (\<open>_record_login_failure\<close>, \<open>_active_block_seconds\<close>): how
  many guesses a source address has in a period.
\<close>

section \<open>Sequences of attempts\<close>

fun run_logins ::
    "auth_env \<Rightarrow> auth_settings \<Rightarrow> (login_request \<times> instant) list \<Rightarrow> auth_db \<Rightarrow> (auth_error, login_result) res list \<times> auth_db" where
  "run_logins E S [] s = ([], s)"
| "run_logins E S ((q, now) # qs) s =
     (let (r, s1) = login E S q now s; (rs, s2) = run_logins E S qs s1 in (r # rs, s2))"

text \<open>The attempts from a source that were refused for their credentials.\<close>

definition failures_from :: "string \<Rightarrow> (login_request \<times> instant) list \<Rightarrow> (auth_error, login_result) res list \<Rightarrow> nat" where
  "failures_from source qs rs =
     length (filter (\<lambda>((q, now), r). lq_source_identifier q = source \<and> r = Inl InvalidCredentials) (zip qs rs))"

section \<open>One attempt\<close>

definition next_throttle :: "auth_settings \<Rightarrow> instant \<Rightarrow> login_throttle option \<Rightarrow> login_throttle \<Rightarrow> bool" where
  "next_throttle S now old t \<longleftrightarrow>
     (case old of
        None \<Rightarrow> lt_window_started_at t = now \<and> lt_failure_count t = 1 \<and>
          lt_blocked_until t = (if login_max_failures S \<le> 1 then Some (now + secs (login_block_seconds S)) else None)
      | Some t0 \<Rightarrow> t = count_failure S now (restart_window S now t0))"

lemma load_throttle_record:
  "\<exists>t. next_throttle S now (load_throttle s d k) t \<and>
     load_throttle (record_login_failure E S d k now s) d' k' = (if (d', k') = (d, k) then Some t else load_throttle s d' k')"
proof (cases "load_throttle s d k")
  case None
  let ?t = "count_failure S now \<lparr>lt_id = uuid7 (lib E) (auth_ids s), lt_dimension = d, lt_key_hash = k,
    lt_window_started_at = now, lt_failure_count = 0, lt_blocked_until = None\<rparr>"
  have key: "(lt_dimension ?t, lt_key_hash ?t) = (d, k)" by (simp add: count_failure_def Let_def)
  show ?thesis
    using None key
    by (intro exI[of _ ?t])
      (auto simp: record_login_failure_def load_throttle_def auth_alloc_def next_throttle_def get_row_append get_row_Cons
        count_failure_def Let_def split: option.split)
next
  case (Some t0)
  let ?key = "\<lambda>t. (lt_dimension t, lt_key_hash t)"
  let ?t = "count_failure S now (restart_window S now t0)"
  have k0: "?key t0 = (d, k)" using get_row_Some_mem[of ?key "(d, k)" "throttles s" t0] Some by (simp add: load_throttle_def)
  then have key: "?key ?t = (d, k)" by (simp add: count_failure_def restart_window_def Let_def)
  have "load_throttle (record_login_failure E S d k now s) d' k' = get_row ?key (d', k') (put_row ?key ?t (throttles s))"
    using Some by (simp add: record_login_failure_def load_throttle_def)
  also have "\<dots> = (if (d', k') = (d, k) then Some ?t else load_throttle s d' k')"
    using get_put_same[of ?key ?t "throttles s"] get_put_other[of "(d', k')" ?key ?t "throttles s"] Some
    unfolding key by (auto simp: load_throttle_def)
  finally show ?thesis using Some by (intro exI[of _ ?t]) (simp add: next_throttle_def)
qed

lemma login_source_throttle:
  assumes l: "login E S q now s = (r, s')"
  defines "k \<equiv> hash_context E (''source:'' @ lq_source_identifier q)"
  shows "if r = Inl InvalidCredentials
    then active_block_seconds (load_throttle s Th_SOURCE k) now = 0 \<and>
      (\<exists>t. next_throttle S now (load_throttle s Th_SOURCE k) t \<and>
         (\<forall>k'. load_throttle s' Th_SOURCE k' = (if k' = k then Some t else load_throttle s Th_SOURCE k')))
    else \<forall>k'. load_throttle s' Th_SOURCE k' = load_throttle s Th_SOURCE k'"
proof (cases "retry_after E q now s \<noteq> 0")
  case True
  then show ?thesis using l by (auto simp: login_def Let_def case_prod_beta load_throttle_def)
next
  case wait: False
  have zero: "active_block_seconds (load_throttle s Th_SOURCE k) now = 0"
  proof -
    have "0 \<le> active_block_seconds t now" for t by (simp add: active_block_seconds_def split: option.split)
    then show ?thesis using wait by (simp add: retry_after_def k_def max_def split: if_splits)
  qed
  show ?thesis
  proof (cases "credentials_ok E q (login_user E q s)")
    case False
    then have r: "r = Inl InvalidCredentials" "s' = reject_login E S q (login_user E q s) now s"
      using l wait by (auto simp: login_def Let_def case_prod_beta)
    define s1 where "s1 = record_login_failure E S Th_ACCOUNT (hash_context E (''account:'' @ fst (login_names E (lq_username q)))) now s"
    have s1: "load_throttle s1 Th_SOURCE k' = load_throttle s Th_SOURCE k'" for k'
      using load_throttle_record[of S now s Th_ACCOUNT "hash_context E (''account:'' @ fst (login_names E (lq_username q)))" E Th_SOURCE k']
      by (auto simp: s1_def)
    have "load_throttle s' Th_SOURCE k' = load_throttle (record_login_failure E S Th_SOURCE k now s1) Th_SOURCE k'" for k'
      unfolding r(2) reject_login_def Let_def case_prod_beta k_def s1_def[symmetric] by (simp add: load_throttle_def)
    then have all: "\<exists>t. next_throttle S now (load_throttle s Th_SOURCE k) t \<and>
        load_throttle s' Th_SOURCE k' = (if k' = k then Some t else load_throttle s Th_SOURCE k')" for k'
      using load_throttle_record[of S now s1 Th_SOURCE k E Th_SOURCE k'] unfolding s1 by simp
    obtain t where t: "next_throttle S now (load_throttle s Th_SOURCE k) t" "load_throttle s' Th_SOURCE k = Some t"
      using all[of k] by auto
    have "load_throttle s' Th_SOURCE k' = (if k' = k then Some t else load_throttle s Th_SOURCE k')" for k'
      using all[of k'] t(2) by auto
    then show ?thesis using r zero t(1) by auto
  next
    case True
    have keep: "load_throttle (clear_account_throttle a x) Th_SOURCE k' = load_throttle x Th_SOURCE k'" for a x k'
    proof -
      have "get_row (\<lambda>t. (lt_dimension t, lt_key_hash t)) (Th_SOURCE, k') (filter (\<lambda>t. \<not> (lt_dimension t = Th_ACCOUNT \<and> lt_key_hash t = a)) ts)
          = get_row (\<lambda>t. (lt_dimension t, lt_key_hash t)) (Th_SOURCE, k') ts" for ts
        by (induction ts) (auto simp: get_row_Cons)
      then show ?thesis by (simp add: load_throttle_def clear_account_throttle_def)
    qed
    have finish: "load_throttle s2 Th_SOURCE k' = load_throttle s1 Th_SOURCE k'"
      if "finish_login E S q u now s1 = (res, s2)" for u s1 res s2 k'
      using that keep[of _ "s1\<lparr>admin_users := _\<rparr>"]
      by (auto simp: finish_login_def create_auth_session_def generate_token_def auth_alloc_def Let_def)
        (simp_all add: load_throttle_def)
    have "throttles s1 = throttles s" if "rehash_password E p u s = Inr (u1, s1)" for p u u1 s1
      using that by (auto simp: rehash_password_def hash_password_def result_simps split: if_splits sum.splits)
    moreover have "r \<noteq> Inl InvalidCredentials"
      using l wait True
      by (auto simp: login_def accept_login_def Let_def case_prod_beta rehash_password_def hash_password_def
          validate_new_password_def bind_res_def split: if_splits sum.splits)
    moreover have "accept_login E S q (the (login_user E q s)) now s = (r, s')" using l wait True by (simp add: login_def Let_def case_prod_beta)
    ultimately show ?thesis using finish
      by (auto simp: accept_login_def load_throttle_def split: sum.splits prod.splits)
  qed
qed

section \<open>A period\<close>

text \<open>
  The failures a source can still cause in the period from \<open>a\<close> to \<open>b\<close>: none while it is
  blocked beyond it, those left in a window that started in the period, and a further window
  when the current one started before.
\<close>

definition failures_left :: "auth_settings \<Rightarrow> instant \<Rightarrow> instant \<Rightarrow> login_throttle option \<Rightarrow> int" where
  "failures_left S a b old =
     (case old of None \<Rightarrow> login_max_failures S
      | Some t \<Rightarrow>
          if (case lt_blocked_until t of None \<Rightarrow> False | Some u \<Rightarrow> b < u) then 0
          else if a \<le> lt_window_started_at t then max 1 (login_max_failures S - lt_failure_count t)
          else max 1 (login_max_failures S - lt_failure_count t) - 1 + login_max_failures S)"

lemma blocked_seconds_zero:
  "active_block_seconds (Some t) now = 0 \<Longrightarrow> lt_blocked_until t = Some u \<Longrightarrow> u \<le> now"
proof (rule ccontr)
  assume a: "active_block_seconds (Some t) now = 0" "lt_blocked_until t = Some u" "\<not> u \<le> now"
  then have "0 < total_seconds (u - now)" by (simp add: total_seconds_def)
  then have "0 < \<lceil>total_seconds (u - now)\<rceil>" by simp
  moreover have "max 0 \<lceil>total_seconds (u - now)\<rceil> = 0" using a(1,2) by (simp add: active_block_seconds_def)
  ultimately show False by linarith
qed

lemma failure_uses_one:
  assumes set: "auth_settings_ok S" and now: "a \<le> now" "now \<le> b"
    and short: "b < a + secs (login_window_seconds S)" "b < a + secs (login_block_seconds S)"
    and free: "active_block_seconds old now = 0" and t: "next_throttle S now old t"
  shows "failures_left S a b (Some t) + 1 \<le> failures_left S a b old"
proof -
  have m: "1 \<le> login_max_failures S" using set by (simp add: auth_settings_ok_def)
  have beyond: "b < now + secs (login_block_seconds S)" using now short by simp
  show ?thesis
  proof (cases old)
    case None
    then show ?thesis using t m now beyond by (auto simp: next_throttle_def failures_left_def)
  next
    case (Some t0)
    have open0: "\<not> (case lt_blocked_until t0 of None \<Rightarrow> False | Some u \<Rightarrow> b < u)"
      using blocked_seconds_zero[of t0 now] free now Some by (auto split: option.split)
    have t': "t = count_failure S now (restart_window S now t0)" using t Some by (simp add: next_throttle_def)
    show ?thesis
    proof (cases "lt_window_started_at t0 + secs (login_window_seconds S) \<le> now")
      case True
      then have "\<not> a \<le> lt_window_started_at t0" using now short by simp
      then show ?thesis
        using True m now beyond open0 unfolding t' Some
        by (auto simp: failures_left_def count_failure_def restart_window_def Let_def)
    next
      case False
      then show ?thesis
        using m now beyond open0 unfolding t' Some
        by (auto simp: failures_left_def count_failure_def restart_window_def Let_def split: option.splits)
    qed
  qed
qed

lemma failures_left_nonneg: "auth_settings_ok S \<Longrightarrow> 0 \<le> failures_left S a b old"
  by (auto simp: failures_left_def auth_settings_ok_def split: option.split)

lemma failures_bounded:
  assumes set: "auth_settings_ok S"
    and short: "b < a + secs (login_window_seconds S)" "b < a + secs (login_block_seconds S)"
    and times: "\<forall>(q, now)\<in>set qs. a \<le> now \<and> now \<le> b"
  shows "int (failures_from source qs (fst (run_logins E S qs s)))
    \<le> failures_left S a b (load_throttle s Th_SOURCE (hash_context E (''source:'' @ source)))"
  using times
proof (induction qs arbitrary: s)
  case Nil
  then show ?case using failures_left_nonneg[OF set] by (simp add: failures_from_def)
next
  case (Cons x qs)
  obtain q now where x: "x = (q, now)" by fastforce
  obtain r s1 where l: "login E S q now s = (r, s1)" by fastforce
  let ?k = "hash_context E (''source:'' @ source)"
  have now: "a \<le> now" "now \<le> b" using Cons.prems x by auto
  have IH: "int (failures_from source qs (fst (run_logins E S qs s1))) \<le> failures_left S a b (load_throttle s1 Th_SOURCE ?k)"
    using Cons by simp
  have here: "failures_from source (x # qs) (fst (run_logins E S (x # qs) s)) =
      (if lq_source_identifier q = source \<and> r = Inl InvalidCredentials then 1 else 0) +
      failures_from source qs (fst (run_logins E S qs s1))"
    by (auto simp: failures_from_def x l Let_def case_prod_beta)
  note eff = login_source_throttle[OF l]
  show ?case
  proof (cases "r = Inl InvalidCredentials")
    case False
    then show ?thesis using eff IH here by simp
  next
    case True
    let ?k' = "hash_context E (''source:'' @ lq_source_identifier q)"
    obtain t where t: "next_throttle S now (load_throttle s Th_SOURCE ?k') t"
        "\<And>k. load_throttle s1 Th_SOURCE k = (if k = ?k' then Some t else load_throttle s Th_SOURCE k)"
      and free: "active_block_seconds (load_throttle s Th_SOURCE ?k') now = 0"
      using eff True by auto
    show ?thesis
    proof (cases "?k = ?k'")
      case True
      have new: "load_throttle s1 Th_SOURCE ?k = Some t" using t(2)[of ?k] unfolding True by (simp only: if_True simp_thms)
      have "failures_left S a b (Some t) + 1 \<le> failures_left S a b (load_throttle s Th_SOURCE ?k)"
        unfolding True by (rule failure_uses_one[OF set now short free t(1)])
      moreover have "int (failures_from source (x # qs) (fst (run_logins E S (x # qs) s)))
          \<le> 1 + int (failures_from source qs (fst (run_logins E S qs s1)))" unfolding here by simp
      ultimately show ?thesis using IH unfolding new by linarith
    next
      case False
      then have "lq_source_identifier q \<noteq> source" by auto
      moreover have "load_throttle s1 Th_SOURCE ?k = load_throttle s Th_SOURCE ?k" using t(2)[of ?k] False by (simp only: if_False)
      ultimately show ?thesis using IH unfolding here by simp
    qed
  qed
qed


end
