(* ===== verification/Directory.thy ===== *)
theory Directory
  imports Auth Delivery Gewe_Client "HOL-Library.AList"
begin

text \<open>
  The directory of an account (\<open>directory/service.py\<close>, \<open>directory/schemas.py\<close>) and the
  calls of \<open>gewe/service.py\<close> it makes: fetching the contact list with its cache, the summaries in
  batches, the contacts, group chats and memberships the answers are merged into, and the
  departure of a member.  The provider's answers, already parsed, are parameters.  The views
  are the rows themselves.
\<close>

section \<open>Answers of the provider\<close>

record contacts_data =
  kd_friends :: "string list"
  kd_chatrooms :: "string list"
  kd_official_accounts :: "string list"

record brief_info =
  bi_wxid :: string
  bi_nickname :: "string option"
  bi_remark :: "string option"
  bi_big_head_image_url :: "string option"
  bi_small_head_image_url :: "string option"

record chatroom_info =
  ci_nickname :: "string option"
  ci_owner_wxid :: "string option"
  ci_member_list :: "json list option"

record chatroom_member =
  gm_wxid :: string
  gm_nickname :: string
  gm_inviter_wxid :: "string option"
  gm_member_flag :: int
  gm_display_name :: "string option"

record member_list =
  ml_members :: "chatroom_member list"
  ml_owner_wxid :: "string option"

section \<open>Fetching contacts\<close>

datatype directory_error =
    DirectoryNotFoundError string
  | DirectoryCredentialError
  | DirectoryMembershipConflictError
  | DirectoryGewe gewe_error
  | DirectoryValueError string

text \<open>
  \<open>fetch_contacts\<close>: \<open>cache k\<close> is the answer to the \<open>k\<close>-th look at the cache.  The
  trace lists the looks and the pauses between them.
\<close>

datatype contact_call = Cache_Poll | Poll_Sleep

fun poll_cache ::
    "(nat \<Rightarrow> (gewe_error, contacts_data option) res) \<Rightarrow> nat \<Rightarrow> nat \<Rightarrow> gewe_error \<Rightarrow> (gewe_error, contacts_data) res \<times> contact_call list" where
  "poll_cache cache attempt 0 last_error = (Inl last_error, [])"
| "poll_cache cache attempt (Suc left) last_error =
     (let again = (\<lambda>e. let (r, calls) = poll_cache cache (Suc attempt) left e in
            (r, Cache_Poll # (if 0 < left then [Poll_Sleep] else []) @ calls))
      in case cache attempt of
           Inl e \<Rightarrow> if \<not> retryable e then (Inl e, [Cache_Poll]) else again e
         | Inr None \<Rightarrow> again last_error
         | Inr (Some cached) \<Rightarrow> (Inr cached, [Cache_Poll]))"

definition fetch_contacts ::
    "int \<Rightarrow> rat \<Rightarrow> (gewe_error, contacts_data) res \<Rightarrow> (nat \<Rightarrow> (gewe_error, contacts_data option) res) \<Rightarrow>
     (directory_error, contacts_data) res \<times> contact_call list" where
  "fetch_contacts attempts interval fetched cache =
     (if attempts < 0 then (Inl (DirectoryValueError ''contact cache poll attempts cannot be negative''), [])
      else if interval \<le> 0
      then (Inl (DirectoryValueError ''contact cache poll interval must be finite and greater than zero''), [])
      else (case fetched of
          Inr d \<Rightarrow> (Inr d, [])
        | Inl e \<Rightarrow>
            if \<not> retryable e \<or> attempts = 0 then (Inl (DirectoryGewe e), [])
            else let (r, calls) = poll_cache cache 0 (nat attempts) e in (map_sum DirectoryGewe id r, calls)))"

section \<open>Summaries in batches\<close>

text \<open>A Python dict in insertion order: setting a key that is there keeps its place.\<close>

definition dict_of :: "('v \<Rightarrow> 'k) \<Rightarrow> 'v list \<Rightarrow> ('k \<times> 'v) list" where
  "dict_of key vs = foldl (\<lambda>d v. AList.update (key v) v d) [] vs"

definition from_keys :: "'k list \<Rightarrow> 'k list" where
  "from_keys ks = map fst (dict_of (\<lambda>k. k) ks)"

definition brief_info_batch_limit :: int where
  "brief_info_batch_limit = 20"

fun batches :: "nat \<Rightarrow> 'a list \<Rightarrow> 'a list list" where
  "batches n [] = []"
| "batches n (x # xs) =
     (if n = 0 then [] else take n (x # xs) # batches n (drop (n - 1) xs))"

fun brief_info_of :: "(string list \<Rightarrow> (gewe_error, brief_info list) res) \<Rightarrow> string list list \<Rightarrow> (gewe_error, brief_info list) res" where
  "brief_info_of call [] = Inr []"
| "brief_info_of call (b # bs) =
     bind_res (call b) (\<lambda>items. bind_res (brief_info_of call bs) (\<lambda>rest. Inr (items @ rest)))"

definition get_brief_info_batched ::
    "(string list \<Rightarrow> (gewe_error, brief_info list) res) \<Rightarrow> string list \<Rightarrow> int \<Rightarrow> (directory_error, brief_info list) res" where
  "get_brief_info_batched call wxids batch_size =
     (if batch_size < 1 \<or> brief_info_batch_limit < batch_size
      then Inl (DirectoryValueError ''brief info batch size must be between 1 and 20'')
      else map_sum DirectoryGewe id (brief_info_of call (batches (nat batch_size) (from_keys wxids))))"

section \<open>Merging contacts and group chats\<close>

record directory_provider =
  dp_fetch :: "(gewe_error, contacts_data) res"
  dp_cache :: "nat \<Rightarrow> (gewe_error, contacts_data option) res"
  dp_brief :: "string list \<Rightarrow> (gewe_error, brief_info list) res"
  dp_info :: "string \<Rightarrow> (gewe_error, chatroom_info) res"
  dp_members :: "(gewe_error, member_list) res"

record directory_options =
  do_poll_attempts :: int
  do_poll_interval :: rat

definition py_or :: "string option \<Rightarrow> string option \<Rightarrow> string option" where
  "py_or a b = (case a of None \<Rightarrow> b | Some x \<Rightarrow> if x = [] then b else Some x)"

definition contact_of :: "uuid \<Rightarrow> string \<Rightarrow> contact list \<Rightarrow> contact option" where
  "contact_of account external rows = get_row (\<lambda>c. (ct_bot_account_id c, ct_external_id c)) (account, external) rows"

definition merge_contact :: "brief_info option \<Rightarrow> string \<Rightarrow> instant \<Rightarrow> contact \<Rightarrow> contact" where
  "merge_contact brief contact_type synced_at c =
     (let c1 = c\<lparr>ct_contact_type := contact_type\<rparr>;
          c2 = (case brief of None \<Rightarrow> c1
            | Some b \<Rightarrow> c1\<lparr>ct_nickname := bi_nickname b, ct_remark := bi_remark b,
                ct_avatar_url := py_or (bi_small_head_image_url b) (bi_big_head_image_url b)\<rparr>)
      in c2\<lparr>ct_active := True, ct_last_synced_at := Some synced_at\<rparr>)"

definition upsert_contact ::
    "env \<Rightarrow> uuid \<Rightarrow> (string \<times> brief_info) list \<Rightarrow> instant \<Rightarrow> string \<times> string \<Rightarrow> db \<Rightarrow> db" where
  "upsert_contact E account brief synced_at entry s =
     (let (external, contact_type) = entry; b = map_of brief external in
      case contact_of account external (contacts s) of
        Some c \<Rightarrow> s\<lparr>contacts := put_row ct_id (merge_contact b contact_type synced_at c) (contacts s)\<rparr>
      | None \<Rightarrow>
          let (i, s1) = alloc E s;
              c = \<lparr>ct_id = i, ct_bot_account_id = account, ct_external_id = external, ct_contact_type = contact_type,
                ct_nickname = None, ct_remark = None, ct_avatar_url = None, ct_active = True, ct_last_synced_at = None\<rparr>
          in s1\<lparr>contacts := contacts s1 @ [merge_contact b contact_type synced_at c]\<rparr>)"

definition upsert_contacts ::
    "env \<Rightarrow> uuid \<Rightarrow> (string \<times> string) list \<Rightarrow> (string \<times> brief_info) list \<Rightarrow> instant \<Rightarrow> db \<Rightarrow> db" where
  "upsert_contacts E account contact_types brief synced_at s =
     fold (upsert_contact E account brief synced_at) contact_types s"

definition chatroom_of :: "uuid \<Rightarrow> string \<Rightarrow> chatroom list \<Rightarrow> chatroom option" where
  "chatroom_of account external rows = get_row (\<lambda>c. (cr_bot_account_id c, cr_chatroom_id c)) (account, external) rows"

definition merge_chatroom :: "brief_info option \<Rightarrow> chatroom_info option \<Rightarrow> instant \<Rightarrow> chatroom \<Rightarrow> chatroom" where
  "merge_chatroom brief detail synced_at c =
     (let c1 = (case brief of None \<Rightarrow> c | Some b \<Rightarrow> c\<lparr>cr_name := bi_nickname b\<rparr>);
          c2 = (case detail of None \<Rightarrow> c1
            | Some d \<Rightarrow> c1\<lparr>cr_name := py_or (ci_nickname d) (cr_name c1), cr_owner_wxid := ci_owner_wxid d,
                cr_member_count := (case ci_member_list d of None \<Rightarrow> cr_member_count c1 | Some ms \<Rightarrow> Some (int (length ms))),
                cr_placeholder := False\<rparr>)
      in c2\<lparr>cr_last_synced_at := Some synced_at\<rparr>)"

definition upsert_chatroom ::
    "env \<Rightarrow> uuid \<Rightarrow> (string \<times> brief_info) list \<Rightarrow> (string \<times> chatroom_info) list \<Rightarrow> instant \<Rightarrow> string \<Rightarrow> db \<Rightarrow> db" where
  "upsert_chatroom E account brief details synced_at external s =
     (let b = map_of brief external; d = map_of details external in
      case chatroom_of account external (chatrooms s) of
        Some c \<Rightarrow> s\<lparr>chatrooms := put_row cr_id (merge_chatroom b d synced_at c) (chatrooms s)\<rparr>
      | None \<Rightarrow>
          let (i, s1) = alloc E s;
              c = \<lparr>cr_id = i, cr_bot_account_id = account, cr_chatroom_id = external, cr_name = None, cr_owner_wxid = None,
                cr_member_count = None, cr_discovered_from = ''CONTACT_LIST'', cr_placeholder = True, cr_last_synced_at = None\<rparr>
          in s1\<lparr>chatrooms := chatrooms s1 @ [merge_chatroom b d synced_at c]\<rparr>)"

definition upsert_chatroom_placeholders ::
    "env \<Rightarrow> uuid \<Rightarrow> string list \<Rightarrow> (string \<times> brief_info) list \<Rightarrow> (string \<times> chatroom_info) list \<Rightarrow> instant \<Rightarrow> db \<Rightarrow> (directory_error, db) res" where
  "upsert_chatroom_placeholders E account chatroom_ids brief details synced_at s =
     (if chatroom_ids = [] then Inr s
      else if get_row ba_id account (accounts s) = None then Inl (DirectoryNotFoundError ''bot account'')
      else Inr (fold (upsert_chatroom E account brief details synced_at) chatroom_ids s))"

text \<open>The details that could be read, and the group chats whose details could not.\<close>

fun chatroom_details_of ::
    "(string \<Rightarrow> (gewe_error, chatroom_info) res) \<Rightarrow> string list \<Rightarrow> (string \<times> chatroom_info) list \<times> string list" where
  "chatroom_details_of call [] = ([], [])"
| "chatroom_details_of call (i # is) =
     (let (details, failed) = chatroom_details_of call is in
      case call i of Inr d \<Rightarrow> ((i, d) # details, failed) | Inl _ \<Rightarrow> (details, i # failed))"

definition max_reported_chatroom_detail_failures :: nat where
  "max_reported_chatroom_detail_failures = 200"

record directory_sync_result =
  sr_bot_account_id :: uuid
  sr_observed_contacts :: nat
  sr_observed_chatrooms :: nat
  sr_chatroom_detail_status :: string
  sr_chatroom_detail_failure_count :: nat
  sr_chatroom_detail_failures :: "string list"
  sr_chatroom_detail_failures_truncated :: bool
  sr_synced_at :: instant

definition account_connection :: "db \<Rightarrow> uuid \<Rightarrow> (directory_error, bot_account \<times> gewe_connection) res" where
  "account_connection s i =
     (case get_row ba_id i (accounts s) of None \<Rightarrow> Inl (DirectoryNotFoundError ''bot account'')
      | Some a \<Rightarrow> (case get_row gc_id (ba_gewe_connection_id a) (connections s) of
            None \<Rightarrow> Inl (DirectoryNotFoundError ''bot account'') | Some c \<Rightarrow> Inr (a, c)))"

definition decrypt_token :: "env \<Rightarrow> gewe_connection \<Rightarrow> (directory_error, string) res" where
  "decrypt_token E c = of_option DirectoryCredentialError (fernet_decrypt E (gc_token_ciphertext c))"

text \<open>\<open>GeWeClient(...)\<close> refuses an empty token.\<close>

definition open_client :: "string \<Rightarrow> (directory_error, unit) res" where
  "open_client token = check_that (token \<noteq> []) (DirectoryValueError ''GeWe token cannot be empty'')"

definition contact_types_of :: "string list \<Rightarrow> string list \<Rightarrow> (string \<times> string) list" where
  "contact_types_of friends officials =
     foldl (\<lambda>d k. AList.update k ''OFFICIAL_ACCOUNT'' d) (map (\<lambda>k. (k, ''FRIEND'')) friends) officials"

definition sync_contacts ::
    "env \<Rightarrow> directory_options \<Rightarrow> directory_provider \<Rightarrow> uuid \<Rightarrow> instant \<Rightarrow> db \<Rightarrow> (directory_error, directory_sync_result \<times> db) res" where
  "sync_contacts E opts P i synced_at s =
     bind_res (account_connection s i) (\<lambda>(account, connection).
     bind_res (decrypt_token E connection) (\<lambda>token. bind_res (open_client token) (\<lambda>_.
     bind_res (fst (fetch_contacts (do_poll_attempts opts) (do_poll_interval opts) (dp_fetch P) (dp_cache P))) (\<lambda>directory.
       let friends = from_keys (kd_friends directory); rooms = from_keys (kd_chatrooms directory) in
     bind_res (get_brief_info_batched (dp_brief P) (friends @ rooms) brief_info_batch_limit) (\<lambda>items.
       let (details, failed) = chatroom_details_of (dp_info P) rooms;
           brief = dict_of bi_wxid items;
           types = contact_types_of friends (kd_official_accounts directory);
           s1 = upsert_contacts E (ba_id account) types brief synced_at s
       in
     bind_res (upsert_chatroom_placeholders E (ba_id account) rooms brief details synced_at s1) (\<lambda>s2.
       Inr (\<lparr>sr_bot_account_id = ba_id account, sr_observed_contacts = length types, sr_observed_chatrooms = length rooms,
          sr_chatroom_detail_status = (if failed \<noteq> [] then ''PARTIAL'' else ''COMPLETE''),
          sr_chatroom_detail_failure_count = length failed,
          sr_chatroom_detail_failures = take max_reported_chatroom_detail_failures failed,
          sr_chatroom_detail_failures_truncated =
            (length (take max_reported_chatroom_detail_failures failed) < length failed),
          sr_synced_at = synced_at\<rparr>, s2)))))))"

section \<open>Memberships\<close>

definition update_membership :: "chatroom_member \<Rightarrow> chatroom_membership \<Rightarrow> chatroom_membership" where
  "update_membership g m = m\<lparr>cm_nickname := Some (gm_nickname g), cm_display_name := gm_display_name g,
     cm_inviter_wxid := gm_inviter_wxid g, cm_member_flag := Some (gm_member_flag g)\<rparr>"

text \<open>The rows of a group chat, the latest epochs first; the first active row of a member.\<close>

definition memberships_of :: "uuid \<Rightarrow> chatroom_membership list \<Rightarrow> chatroom_membership list" where
  "memberships_of room rows = rev (sort_key cm_membership_epoch (filter (\<lambda>m. cm_chatroom_id m = room) rows))"

definition active_membership :: "chatroom_membership list \<Rightarrow> string \<Rightarrow> chatroom_membership option" where
  "active_membership rows wxid = find (\<lambda>m. cm_member_wxid m = wxid \<and> cm_left_at m = None) rows"

definition max_epoch :: "chatroom_membership list \<Rightarrow> string \<Rightarrow> int" where
  "max_epoch rows wxid = foldl max 0 (map cm_membership_epoch (filter (\<lambda>m. cm_member_wxid m = wxid) rows))"

text \<open>One member; \<open>joined_at\<close> is the clock when a new row is written.\<close>

definition upsert_membership ::
    "env \<Rightarrow> uuid \<Rightarrow> chatroom_membership list \<Rightarrow> (nat \<Rightarrow> instant) \<Rightarrow> string \<times> chatroom_member \<Rightarrow> db \<Rightarrow> db" where
  "upsert_membership E room olds clock entry s =
     (let (wxid, g) = entry in
      case active_membership olds wxid of
        Some m \<Rightarrow> s\<lparr>memberships := put_row cm_id (update_membership g m) (memberships s)\<rparr>
      | None \<Rightarrow>
          let (i, s1) = alloc E s;
              m = \<lparr>cm_id = i, cm_chatroom_id = room, cm_member_wxid = wxid, cm_membership_epoch = max_epoch olds wxid + 1,
                cm_nickname = None, cm_display_name = None, cm_inviter_wxid = None, cm_member_flag = None,
                cm_joined_at = clock (next_id s), cm_left_at = None\<rparr>
          in s1\<lparr>memberships := memberships s1 @ [update_membership g m]\<rparr>)"

definition upsert_memberships ::
    "env \<Rightarrow> uuid \<Rightarrow> (string \<times> chatroom_member) list \<Rightarrow> (nat \<Rightarrow> instant) \<Rightarrow> db \<Rightarrow> (directory_error, nat \<times> db) res" where
  "upsert_memberships E room members clock s =
     (if get_row cr_id room (chatrooms s) = None then Inl (DirectoryNotFoundError ''chatroom'')
      else let olds = memberships_of room (memberships s);
               active = remdups (map cm_member_wxid (filter (\<lambda>m. cm_left_at m = None) olds))
           in Inr (length (filter (\<lambda>w. w \<notin> fst ` set members) active),
                   fold (upsert_membership E room olds clock) members s))"

record membership_sync_result =
  mr_chatroom_id :: uuid
  mr_observed_members :: nat
  mr_retained_unseen_active_members :: nat
  mr_snapshot_complete :: bool
  mr_synced_at :: instant

definition chatroom_account_connection ::
    "db \<Rightarrow> uuid \<Rightarrow> (directory_error, chatroom \<times> bot_account \<times> gewe_connection) res" where
  "chatroom_account_connection s i =
     (case get_row cr_id i (chatrooms s) of None \<Rightarrow> Inl (DirectoryNotFoundError ''chatroom'')
      | Some c \<Rightarrow> (case account_connection s (cr_bot_account_id c) of
            Inl _ \<Rightarrow> Inl (DirectoryNotFoundError ''chatroom'') | Inr (a, g) \<Rightarrow> Inr (c, a, g)))"

definition sync_chatroom_members ::
    "env \<Rightarrow> directory_provider \<Rightarrow> uuid \<Rightarrow> instant \<Rightarrow> (nat \<Rightarrow> instant) \<Rightarrow> db \<Rightarrow> (directory_error, membership_sync_result \<times> db) res" where
  "sync_chatroom_members E P i synced_at clock s =
     bind_res (chatroom_account_connection s i) (\<lambda>(room, account, connection).
     bind_res (decrypt_token E connection) (\<lambda>token. bind_res (open_client token) (\<lambda>_.
     bind_res (map_sum DirectoryGewe id (dp_members P)) (\<lambda>snapshot.
       let members = dict_of gm_wxid (ml_members snapshot) in
     bind_res (upsert_memberships E (cr_id room) members clock s) (\<lambda>(retained, s1).
       let room1 = room\<lparr>cr_owner_wxid := ml_owner_wxid snapshot, cr_member_count := Some (int (length members)),
             cr_last_synced_at := Some synced_at\<rparr>
       in Inr (\<lparr>mr_chatroom_id = cr_id room, mr_observed_members = length members,
            mr_retained_unseen_active_members = retained, mr_snapshot_complete = False, mr_synced_at = synced_at\<rparr>,
          s1\<lparr>chatrooms := put_row cr_id room1 (chatrooms s1)\<rparr>))))))"

section \<open>Departures\<close>

definition validate_departure :: "int \<Rightarrow> string \<Rightarrow> (int \<times> string) option" where
  "validate_departure epoch reason =
     (if epoch < 1 \<or> \<not> (1 \<le> length reason \<and> length reason \<le> 500) \<or> strip reason = [] then None
      else Some (epoch, strip reason))"

definition mark_membership_left ::
    "uuid \<Rightarrow> uuid \<Rightarrow> int \<Rightarrow> string \<Rightarrow> auth_principal \<Rightarrow> instant \<Rightarrow> db \<Rightarrow> (directory_error, chatroom_membership \<times> db) res" where
  "mark_membership_left room i epoch reason actor departed_at s =
     (case (get_row cm_id i (memberships s), get_row cr_id room (chatrooms s)) of
        (Some m, Some c) \<Rightarrow>
          if cm_chatroom_id m \<noteq> room then Inl (DirectoryNotFoundError ''chatroom membership'')
          else (case account_workspace s (cr_bot_account_id c) of
              None \<Rightarrow> Inl (DirectoryNotFoundError ''chatroom membership'')
            | Some ws \<Rightarrow>
                let active = filter (\<lambda>a. cm_member_wxid a = cm_member_wxid m \<and> cm_left_at a = None)
                      (memberships_of room (memberships s))
                in if cm_left_at m \<noteq> None \<or> cm_membership_epoch m \<noteq> epoch \<or> active = [] \<or> cm_id (hd active) \<noteq> i
                   then Inl DirectoryMembershipConflictError
                   else Inr (m\<lparr>cm_left_at := Some departed_at\<rparr>,
                     s\<lparr>memberships := map (\<lambda>a. if cm_id a \<in> cm_id ` set active then a\<lparr>cm_left_at := Some departed_at\<rparr> else a)
                          (memberships s),
                       audits := audits s @ [\<lparr>au_workspace_id = ws, au_trace_id = None, au_actor_type = ''ADMIN_USER'',
                         au_actor_id = uuid_str (pn_user_id actor), au_action = ''directory.membership.mark_left'',
                         au_object_type = ''chatroom_membership'', au_object_id = uuid_str i, au_result = ''SUCCESS'',
                         au_detail = JObj [(''chatroom_id'', JStr (uuid_str room)), (''member_wxid'', JStr (cm_member_wxid m)),
                           (''membership_epoch'', JInt (cm_membership_epoch m)), (''operator_username'', JStr (pn_username actor)),
                           (''reason'', JStr reason), (''closed_active_memberships'', JInt (int (length active)))]\<rparr>]\<rparr>))
      | _ \<Rightarrow> Inl (DirectoryNotFoundError ''chatroom membership''))"

section \<open>Listings\<close>

definition require_account :: "db \<Rightarrow> uuid \<Rightarrow> (directory_error, unit) res" where
  "require_account s i = check_that (get_row ba_id i (accounts s) \<noteq> None) (DirectoryNotFoundError ''bot account'')"

definition require_chatroom :: "db \<Rightarrow> uuid \<Rightarrow> (directory_error, unit) res" where
  "require_chatroom s i = check_that (get_row cr_id i (chatrooms s) \<noteq> None) (DirectoryNotFoundError ''chatroom'')"

definition list_contacts :: "db \<Rightarrow> uuid \<Rightarrow> nat \<Rightarrow> nat \<Rightarrow> (directory_error, contact list \<times> nat) res" where
  "list_contacts s i limit offset = bind_res (require_account s i) (\<lambda>_.
     let rows = filter (\<lambda>c. ct_bot_account_id c = i) (contacts s) in
     Inr (take limit (drop offset (sort_key (\<lambda>c. (ct_external_id c, ct_id c)) rows)), length rows))"

definition list_chatrooms :: "db \<Rightarrow> uuid \<Rightarrow> nat \<Rightarrow> nat \<Rightarrow> (directory_error, chatroom list \<times> nat) res" where
  "list_chatrooms s i limit offset = bind_res (require_account s i) (\<lambda>_.
     let rows = filter (\<lambda>c. cr_bot_account_id c = i) (chatrooms s) in
     Inr (take limit (drop offset (sort_key (\<lambda>c. (cr_chatroom_id c, cr_id c)) rows)), length rows))"

definition list_memberships :: "db \<Rightarrow> uuid \<Rightarrow> bool \<Rightarrow> nat \<Rightarrow> nat \<Rightarrow> (directory_error, chatroom_membership list \<times> nat) res" where
  "list_memberships s i include_left limit offset = bind_res (require_chatroom s i) (\<lambda>_.
     let rows = filter (\<lambda>m. cm_chatroom_id m = i \<and> (include_left \<or> cm_left_at m = None)) (memberships s) in
     Inr (take limit (drop offset (sort_key (\<lambda>m. (cm_member_wxid m, - cm_membership_epoch m)) rows)), length rows))"

end
