(* ===== verification/Directory_Memberships.thy ===== *)
theory Directory_Memberships
  imports Directory
begin

text \<open>
  The memberships of group chats: how they change, whichever component writes them, and what this
  means for the rules of the policy.
\<close>

section \<open>How memberships change\<close>

definition same_member :: "chatroom_membership \<Rightarrow> chatroom_membership \<Rightarrow> bool" where
  "same_member m n \<longleftrightarrow> cm_chatroom_id m = cm_chatroom_id n \<and> cm_member_wxid m = cm_member_wxid n"

definition membership_key :: "chatroom_membership \<Rightarrow> uuid \<times> string \<times> int" where
  "membership_key m = (cm_chatroom_id m, cm_member_wxid m, cm_membership_epoch m)"

text \<open>
  The specification: a row keeps its key and, once closed, stays closed; a row is added only
  for a member without an active one, under an epoch greater than all earlier ones.
\<close>

inductive memberships_evolve :: "chatroom_membership list \<Rightarrow> chatroom_membership list \<Rightarrow> bool" where
  Kept: "memberships_evolve ms ms"
| Rewritten: "memberships_evolve ms ns \<Longrightarrow>
    (\<And>m. m \<in> set ns \<Longrightarrow> membership_key (f m) = membership_key m \<and> (cm_left_at m \<noteq> None \<longrightarrow> cm_left_at (f m) \<noteq> None)) \<Longrightarrow>
    memberships_evolve ms (map f ns)"
| Joined: "memberships_evolve ms ns \<Longrightarrow>
    ((\<And>n. n \<in> set ns \<Longrightarrow> 1 \<le> cm_membership_epoch n) \<Longrightarrow> 1 \<le> cm_membership_epoch m) \<Longrightarrow>
    (\<And>n. n \<in> set ns \<Longrightarrow> same_member n m \<Longrightarrow>
       cm_left_at n \<noteq> None \<and> cm_membership_epoch n < cm_membership_epoch m) \<Longrightarrow>
    memberships_evolve ms (ns @ [m])"

lemma memberships_evolve_trans [trans]:
  "memberships_evolve ns ks \<Longrightarrow> memberships_evolve ms ns \<Longrightarrow> memberships_evolve ms ks"
  by (induction rule: memberships_evolve.induct) (auto intro: memberships_evolve.intros)

text \<open>
  The rows of a member carry distinct epochs from one upwards, and only the row with the greatest
  may be active.
\<close>

definition memberships_ok :: "chatroom_membership list \<Rightarrow> bool" where
  "memberships_ok ms \<longleftrightarrow> unique_by membership_key ms \<and> (\<forall>m\<in>set ms. 1 \<le> cm_membership_epoch m) \<and>
     (\<forall>m\<in>set ms. \<forall>n\<in>set ms. same_member m n \<and> cm_left_at m = None \<longrightarrow> cm_membership_epoch n \<le> cm_membership_epoch m)"

lemma membership_key_eq:
  "membership_key m = membership_key n \<longleftrightarrow> same_member m n \<and> cm_membership_epoch m = cm_membership_epoch n"
  by (auto simp: membership_key_def same_member_def)

lemma memberships_evolve_ok:
  "memberships_evolve ms ns \<Longrightarrow> memberships_ok ms \<Longrightarrow> memberships_ok ns"
proof (induction rule: memberships_evolve.induct)
  case (Rewritten ms ns f)
  have ns: "memberships_ok ns" using Rewritten.IH Rewritten.prems .
  have keys: "map membership_key (map f ns) = map membership_key ns" using Rewritten.hyps(2) by simp
  have "unique_by membership_key (map f ns)"
    unfolding unique_by_def keys using ns by (simp add: memberships_ok_def unique_by_def)
  moreover have "same_member (f m) (f n) = same_member m n" "cm_membership_epoch (f m) = cm_membership_epoch m"
    if "m \<in> set ns" "n \<in> set ns" for m n
    using Rewritten.hyps(2)[OF that(1)] Rewritten.hyps(2)[OF that(2)] by (auto simp: membership_key_def same_member_def)
  moreover have "cm_left_at (f m) = None \<Longrightarrow> cm_left_at m = None" if "m \<in> set ns" for m
    using Rewritten.hyps(2)[OF that] by blast
  ultimately show ?case using ns by (auto simp: memberships_ok_def)
next
  case (Joined ms ns m)
  have ns: "memberships_ok ns" using Joined by simp
  have "membership_key m \<notin> membership_key ` set ns"
  proof
    assume "membership_key m \<in> membership_key ` set ns"
    then obtain n where n: "n \<in> set ns" "membership_key n = membership_key m" by force
    then show False using Joined.hyps(3)[of n] by (simp add: membership_key_eq)
  qed
  then have "unique_by membership_key (ns @ [m])" using ns by (auto simp: memberships_ok_def unique_by_snoc)
  moreover have "cm_membership_epoch k \<le> cm_membership_epoch n"
    if "n \<in> set (ns @ [m])" "k \<in> set (ns @ [m])" "same_member n k" "cm_left_at n = None" for n k
    using that ns Joined.hyps(3)[of n] Joined.hyps(3)[of k] by (auto simp: memberships_ok_def same_member_def)
  moreover have "\<forall>n\<in>set (ns @ [m]). 1 \<le> cm_membership_epoch n" using ns Joined.hyps(2) by (simp add: memberships_ok_def)
  ultimately show ?case unfolding memberships_ok_def by blast
qed

text \<open>The member has left: there is an epoch up to which, and every row up to it is closed.\<close>

definition departed :: "uuid \<Rightarrow> string \<Rightarrow> int \<Rightarrow> chatroom_membership list \<Rightarrow> bool" where
  "departed room wxid e ms \<longleftrightarrow>
     (\<exists>m\<in>set ms. cm_chatroom_id m = room \<and> cm_member_wxid m = wxid \<and> e \<le> cm_membership_epoch m) \<and>
     (\<forall>m\<in>set ms. cm_chatroom_id m = room \<and> cm_member_wxid m = wxid \<and> cm_membership_epoch m \<le> e \<longrightarrow> cm_left_at m \<noteq> None)"

lemma memberships_evolve_departed:
  "memberships_evolve ms ns \<Longrightarrow> departed room wxid e ms \<Longrightarrow> departed room wxid e ns"
proof (induction rule: memberships_evolve.induct)
  case (Rewritten ms ns f)
  then show ?case
    by (auto simp: departed_def membership_key_def)
next
  case (Joined ms ns m)
  then obtain n where "n \<in> set ns" "cm_chatroom_id n = room" "cm_member_wxid n = wxid" "e \<le> cm_membership_epoch n"
    by (auto simp: departed_def)
  then have "cm_chatroom_id m = room \<Longrightarrow> cm_member_wxid m = wxid \<Longrightarrow> e < cm_membership_epoch m"
    using Joined.hyps(3)[of n] by (auto simp: same_member_def)
  then show ?case using Joined by (auto simp: departed_def)
qed

lemma departed_epoch:
  assumes "departed room wxid e (memberships s)" "list_max (active_epochs s room wxid) = Some k"
  shows "e < k"
  using assms by (auto simp: departed_def list_max_Some active_epochs_def not_le[symmetric])

section \<open>The writers of memberships\<close>

definition member_rows :: "uuid \<Rightarrow> string \<Rightarrow> chatroom_membership list \<Rightarrow> chatroom_membership set" where
  "member_rows room wxid ms = {m \<in> set ms. cm_chatroom_id m = room \<and> cm_member_wxid m = wxid}"

lemma memberships_of_set: "set (memberships_of room ms) = {m \<in> set ms. cm_chatroom_id m = room}"
  by (auto simp: memberships_of_def)

lemma active_membership_Some:
  "active_membership olds w = Some m \<Longrightarrow> m \<in> set olds \<and> cm_member_wxid m = w \<and> cm_left_at m = None"
  by (auto simp: active_membership_def find_Some_iff)

lemma active_membership_None:
  "active_membership olds w = None \<Longrightarrow> m \<in> set olds \<Longrightarrow> cm_member_wxid m = w \<Longrightarrow> cm_left_at m \<noteq> None"
  by (auto simp: active_membership_def find_None_iff)

lemma foldl_max_ge: "e \<le> foldl max e xs \<and> (\<forall>x\<in>set xs. x \<le> foldl max e xs)" for e :: int
  by (induction xs arbitrary: e) (auto, (meson max.bounded_iff)+)

lemma max_epoch_ge:
  "0 \<le> max_epoch olds w"
  "m \<in> set olds \<Longrightarrow> cm_member_wxid m = w \<Longrightarrow> cm_membership_epoch m \<le> max_epoch olds w"
  using foldl_max_ge[of 0] by (auto simp: max_epoch_def)

lemma update_membership_keeps [simp]:
  "cm_id (update_membership g m) = cm_id m" "cm_left_at (update_membership g m) = cm_left_at m"
  "cm_membership_epoch (update_membership g m) = cm_membership_epoch m"
  "cm_chatroom_id (update_membership g m) = cm_chatroom_id m" "cm_member_wxid (update_membership g m) = cm_member_wxid m"
  "membership_key (update_membership g m) = membership_key m"
  by (simp_all add: update_membership_def membership_key_def)

lemma upsert_membership_evolves:
  assumes ids: "unique_by cm_id (memberships (upsert_membership E room olds clock (w, g) s))"
    and rows: "member_rows room w (memberships s) = {m \<in> set olds. cm_member_wxid m = w}"
  defines "s' \<equiv> upsert_membership E room olds clock (w, g) s"
  shows "memberships_evolve (memberships s) (memberships s')"
    and "w' \<noteq> w \<Longrightarrow> member_rows room w' (memberships s') = member_rows room w' (memberships s)"
proof -
  have "memberships_evolve (memberships s) (memberships s') \<and>
      (w' \<noteq> w \<longrightarrow> member_rows room w' (memberships s') = member_rows room w' (memberships s))"
  proof (cases "active_membership olds w")
    case (Some m)
    have m: "m \<in> set (memberships s)" "cm_member_wxid m = w" "cm_chatroom_id m = room"
      using rows active_membership_Some[OF Some] by (auto simp: member_rows_def)
    have s': "memberships s' = put_row cm_id (update_membership g m) (memberships s)"
      using Some by (simp add: s'_def upsert_membership_def)
    have uq: "unique_by cm_id (memberships s)" using ids s' by (simp add: s'_def)
    note mp = put_row_as_map[OF uq m(1), of "update_membership g", simplified]
    have "memberships_evolve (memberships s) (memberships s')"
      unfolding s' mp by (rule Rewritten[OF Kept]) simp
    moreover have "member_rows room w' (memberships s') = member_rows room w' (memberships s)" if "w' \<noteq> w"
    proof -
      have "x = m" if "x \<in> set (memberships s)" "cm_id x = cm_id m" for x
        by (rule unique_by_eq[OF uq that(1) m(1) that(2)])
      then show ?thesis using that m unfolding s' member_rows_def mem_put_row_iff by auto
    qed
    ultimately show ?thesis by blast
  next
    case None
    obtain m where s': "memberships s' = memberships s @ [m]" and m: "cm_chatroom_id m = room" "cm_member_wxid m = w"
      "cm_membership_epoch m = max_epoch olds w + 1"
      using None by (simp add: s'_def upsert_membership_def alloc_def Let_def)
    have old: "n \<in> set olds" "cm_member_wxid n = w" if "n \<in> set (memberships s)" "same_member n m" for n
      using that rows m by (auto simp: same_member_def member_rows_def)
    have "cm_left_at n \<noteq> None \<and> cm_membership_epoch n < cm_membership_epoch m"
      if "n \<in> set (memberships s)" "same_member n m" for n
      using active_membership_None[OF None old[OF that]] max_epoch_ge(2)[OF old[OF that]] m(3) by simp
    then have "memberships_evolve (memberships s) (memberships s')"
      unfolding s' using max_epoch_ge(1)[of olds w] m(3) by (intro Joined[OF Kept]) auto
    then show ?thesis using m by (auto simp: s' member_rows_def)
  qed
  then show "memberships_evolve (memberships s) (memberships s')"
    "w' \<noteq> w \<Longrightarrow> member_rows room w' (memberships s') = member_rows room w' (memberships s)" by blast+
qed

lemma upsert_membership_ids:
  "unique_by cm_id (memberships (upsert_membership E room olds clock x s)) \<Longrightarrow> unique_by cm_id (memberships s)"
  by (auto simp: upsert_membership_def alloc_def Let_def unique_by_snoc split: prod.split_asm option.split_asm)

lemma upsert_memberships_ids:
  "unique_by cm_id (memberships (fold (upsert_membership E room olds clock) xs s)) \<Longrightarrow> unique_by cm_id (memberships s)"
  by (induction xs arbitrary: s) (auto dest: upsert_membership_ids)

lemma upsert_memberships_evolve:
  assumes "distinct (map fst xs)" "unique_by cm_id (memberships (fold (upsert_membership E room olds clock) xs s))"
    "\<And>w. w \<in> fst ` set xs \<Longrightarrow> member_rows room w (memberships s) = {m \<in> set olds. cm_member_wxid m = w}"
  shows "memberships_evolve (memberships s) (memberships (fold (upsert_membership E room olds clock) xs s))"
  using assms
proof (induction xs arbitrary: s)
  case (Cons x xs)
  obtain w g where x: "x = (w, g)" by (cases x)
  let ?s1 = "upsert_membership E room olds clock (w, g) s"
  have fold: "unique_by cm_id (memberships (fold (upsert_membership E room olds clock) xs ?s1))"
    using Cons.prems(2) x by simp
  have rows: "member_rows room w (memberships s) = {m \<in> set olds. cm_member_wxid m = w}"
    using Cons.prems(3)[of w] x by simp
  have other: "w' \<noteq> w" if "w' \<in> fst ` set xs" for w' using Cons.prems(1) that x by force
  note ev = upsert_membership_evolves[OF upsert_memberships_ids[OF fold] rows]
  have "memberships_evolve (memberships ?s1) (memberships (fold (upsert_membership E room olds clock) xs ?s1))"
    using Cons.prems(1,3) ev(2)[OF other] by (intro Cons.IH fold) auto
  then show ?case using memberships_evolve_trans[OF _ ev(1)] x by simp
qed (auto intro: Kept)

lemma dict_of_keys: "distinct (map fst (dict_of key vs)) \<and> fst ` set (dict_of key vs) = key ` set vs"
proof -
  have "distinct (map fst d) \<Longrightarrow> distinct (map fst (foldl (\<lambda>d v. AList.update (key v) v d) d vs)) \<and>
      fst ` set (foldl (\<lambda>d v. AList.update (key v) v d) d vs) = fst ` set d \<union> key ` set vs" for d
    by (induction vs arbitrary: d) (simp_all add: distinct_update dom_update Un_commute)
  from this[of "[]"] show ?thesis by (simp add: dict_of_def)
qed

lemma sync_chatroom_members_evolves:
  assumes "sync_chatroom_members E P i t clock s = Inr (r, s')" "unique_by cm_id (memberships s')"
  shows "memberships_evolve (memberships s) (memberships s')"
  using assms
  by (auto simp: sync_chatroom_members_def upsert_memberships_def result_simps Let_def memberships_of_set member_rows_def dict_of_keys
      intro!: upsert_memberships_evolve split: prod.split_asm if_split_asm)

lemma mark_membership_left_Inr:
  assumes "mark_membership_left room i e reason actor t s = Inr (m, s')"
  obtains n active where "get_row cm_id i (memberships s) = Some n" "cm_chatroom_id n = room" "cm_left_at n = None"
    "cm_membership_epoch n = e" "m = n\<lparr>cm_left_at := Some t\<rparr>"
    "active = filter (\<lambda>a. cm_member_wxid a = cm_member_wxid n \<and> cm_left_at a = None) (memberships_of room (memberships s))"
    "active \<noteq> []" "cm_id (hd active) = i"
    "memberships s' = map (\<lambda>a. if cm_id a \<in> cm_id ` set active then a\<lparr>cm_left_at := Some t\<rparr> else a) (memberships s)"
  using assms by (auto simp: mark_membership_left_def Let_def split: option.split_asm if_split_asm)

lemma mark_membership_left_evolves:
  assumes "mark_membership_left room i e reason actor t s = Inr (m, s')"
  shows "memberships_evolve (memberships s) (memberships s')"
    and "departed room (cm_member_wxid m) e (memberships s')"
proof -
  obtain n active where n: "get_row cm_id i (memberships s) = Some n" "cm_chatroom_id n = room" "cm_left_at n = None"
      "cm_membership_epoch n = e" "m = n\<lparr>cm_left_at := Some t\<rparr>"
    and active: "active = filter (\<lambda>a. cm_member_wxid a = cm_member_wxid n \<and> cm_left_at a = None) (memberships_of room (memberships s))"
      "active \<noteq> []" "cm_id (hd active) = i"
    and s': "memberships s' = map (\<lambda>a. if cm_id a \<in> cm_id ` set active then a\<lparr>cm_left_at := Some t\<rparr> else a) (memberships s)"
    by (rule mark_membership_left_Inr[OF assms])
  show "memberships_evolve (memberships s) (memberships s')"
    unfolding s' by (rule Rewritten[OF Kept]) (simp add: membership_key_def)
  have "cm_id a \<in> cm_id ` set active" if "a \<in> set (memberships s)" "cm_chatroom_id a = room" "cm_member_wxid a = cm_member_wxid n" "cm_left_at a = None" for a
    using that by (auto simp: active(1) memberships_of_set)
  then have "\<forall>a\<in>set (memberships s'). cm_chatroom_id a = room \<and> cm_member_wxid a = cm_member_wxid n \<longrightarrow> cm_left_at a \<noteq> None"
    unfolding s' by auto
  moreover have "\<exists>a\<in>set (memberships s'). cm_chatroom_id a = room \<and> cm_member_wxid a = cm_member_wxid n \<and> cm_membership_epoch a = e"
  proof -
    let ?f = "\<lambda>a. if cm_id a \<in> cm_id ` set active then a\<lparr>cm_left_at := Some t\<rparr> else a"
    have "?f n \<in> set (memberships s')" unfolding s' set_map using get_row_Some_mem[OF n(1)] by (intro imageI) simp
    moreover have "cm_chatroom_id (?f n) = room \<and> cm_member_wxid (?f n) = cm_member_wxid n \<and> cm_membership_epoch (?f n) = e"
      using n(2,4) by simp
    ultimately show ?thesis by blast
  qed
  ultimately show "departed room (cm_member_wxid m) e (memberships s')" using n(5) by (force simp: departed_def)
qed

lemma ensure_membership_evolves:
  assumes "ensure_membership E room w now s = Inr (m, s')"
  shows "memberships_evolve (memberships s) (memberships s')"
proof (cases "find (\<lambda>m. cm_chatroom_id m = room \<and> cm_member_wxid m = w \<and> cm_left_at m = None) (memberships s)")
  case None
  let ?latest = "case list_max (member_epochs s room w) of None \<Rightarrow> 0 | Some e \<Rightarrow> e"
  obtain n where s': "memberships s' = memberships s @ [n]" and n: "cm_chatroom_id n = room" "cm_member_wxid n = w"
      "cm_membership_epoch n = ?latest + 1"
    using assms None by (auto simp: ensure_membership_def alloc_def Let_def split: if_split_asm)
  have le: "cm_membership_epoch k \<le> ?latest" if "k \<in> set (memberships s)" "same_member k n" for k
  proof -
    have k: "cm_membership_epoch k \<in> set (member_epochs s room w)"
      using that n by (auto simp: member_epochs_def same_member_def)
    then obtain e where e: "list_max (member_epochs s room w) = Some e" by (cases "list_max (member_epochs s room w)") auto
    then have "cm_membership_epoch k \<le> e" using k list_max_Some by blast
    then show ?thesis unfolding e by simp
  qed
  have one: "1 \<le> cm_membership_epoch n" if ones: "\<And>k. k \<in> set (memberships s) \<Longrightarrow> 1 \<le> cm_membership_epoch k"
  proof (cases "list_max (member_epochs s room w)")
    case (Some e)
    then have "e \<in> set (member_epochs s room w)" by (simp add: list_max_Some)
    then have "1 \<le> e" using ones by (auto simp: member_epochs_def)
    then show ?thesis using n(3) Some by simp
  qed (use n(3) in simp)
  have older: "cm_left_at k \<noteq> None \<and> cm_membership_epoch k < cm_membership_epoch n" if "k \<in> set (memberships s)" "same_member k n" for k
    using le[OF that] that n None by (auto simp: find_None_iff same_member_def)
  show ?thesis unfolding s' by (rule Joined[OF Kept one older])
qed (use assms in \<open>auto simp: ensure_membership_def intro: Kept split: if_split_asm\<close>)

lemma resolve_context_evolves:
  assumes "resolve_context E e now s = Inr (c, s')"
  shows "memberships_evolve (memberships s) (memberships s')"
proof -
  have principal: "memberships s2 = memberships s1" if "actor_principal E ws t ext s1 = Inr (p, s2)" for ws t ext s1 p s2
    using that by (auto simp: actor_principal_def dest!: create_principal_keeps split: if_split_asm sum.split_asm)
  have room: "memberships s1 = memberships s" if "ensure_chatroom E a ext s = (r, s1)" for a ext r s1
    using that by (auto simp: ensure_chatroom_def alloc_def Let_def split: option.split_asm)
  have contact: "memberships s1 = memberships s" if "ensure_contact E a ext s = (r, s1)" for a ext r s1
    using that by (auto simp: ensure_contact_def alloc_def Let_def split: option.split_asm)
  have g: "memberships_evolve (memberships s) (memberships s')" if "resolve_group E a ws ext e now s = Inr (x, s')" for a ws ext x
    using that by (auto simp: resolve_group_def Let_def result_simps dest!: room principal ensure_membership_evolves
        intro: Kept split: prod.split_asm option.split_asm if_split_asm)
  have p: "memberships s' = memberships s" if "resolve_private E a ws ext e s = Inr (x, s')" for a ws ext x
    using that by (auto simp: resolve_private_def Let_def result_simps dest!: contact principal split: prod.split_asm)
  show ?thesis using assms
    by (auto simp: resolve_context_def Let_def result_simps intro: Kept dest!: g p split: option.split_asm if_split_asm)
qed

lemma route_event_memberships:
  assumes "outcome_state (route_event E W e inbox x s) = Some s'"
  shows "memberships s' = memberships s"
proof -
  have inbox: "memberships (set_inbox i st c d u) = memberships u" for i st c d u
    by (simp add: set_inbox_def split: option.split)
  have loop: "memberships s2 = memberships s" if "process_routes E W e inbox x sels (empty_tally, s) = Inr (t, s2)" for sels t s2
    using process_routes_effect[OF that] loop_frameD(5) by blast
  show ?thesis using assms
    by (auto simp: route_event_def reject_conflict_def finish_dispatch_def dispatch_audit_def Let_def inbox dest!: loop
        split: option.split_asm if_split_asm sum.split_asm)
qed

lemma dispatch_evolves:
  assumes "outcome_state (dispatch E W i s) = Some s'"
  shows "memberships_evolve (memberships s) (memberships s')"
proof -
  have inbox: "memberships (set_inbox i st c d u) = memberships u" for i st c d u
    by (simp add: set_inbox_def split: option.split)
  show ?thesis using assms
    by (auto simp: dispatch_def inbox intro: Kept dest!: resolve_context_evolves route_event_memberships
        split: option.split_asm if_split_asm sum.split_asm)
qed

lemma sync_contacts_Inr:
  assumes "sync_contacts E opts P i t s = Inr (r, s')"
  obtains a c and directory :: contacts_data and items where "account_connection s i = Inr (a, c)"
    "fst (fetch_contacts (do_poll_attempts opts) (do_poll_interval opts) (dp_fetch P) (dp_cache P)) = Inr directory"
    "upsert_chatroom_placeholders E (ba_id a) (from_keys (kd_chatrooms directory)) (dict_of bi_wxid items)
      (fst (chatroom_details_of (dp_info P) (from_keys (kd_chatrooms directory)))) t
      (upsert_contacts E (ba_id a) (contact_types_of (from_keys (kd_friends directory)) (kd_official_accounts directory))
         (dict_of bi_wxid items) t s) = Inr s'"
proof -
  obtain a c token and directory :: contacts_data and items where steps: "account_connection s i = Inr (a, c)" "decrypt_token E c = Inr token"
    "open_client token = Inr ()"
    "fst (fetch_contacts (do_poll_attempts opts) (do_poll_interval opts) (dp_fetch P) (dp_cache P)) = Inr directory"
    "get_brief_info_batched (dp_brief P) (from_keys (kd_friends directory) @ from_keys (kd_chatrooms directory))
       brief_info_batch_limit = Inr items"
    using assms unfolding sync_contacts_def by (auto simp: result_simps Let_def)
  obtain details failed where d: "chatroom_details_of (dp_info P) (from_keys (kd_chatrooms directory)) = (details, failed)"
    by (cases "chatroom_details_of (dp_info P) (from_keys (kd_chatrooms directory))")
  show thesis using assms
    by (intro that[OF steps(1,4), of items]) (auto simp: sync_contacts_def steps d Let_def result_simps)
qed

lemma sync_contacts_memberships:
  assumes "sync_contacts E opts P i t s = Inr (r, s')"
  shows "memberships s' = memberships s"
proof -
  have contact: "memberships (upsert_contact E a b t x u) = memberships u" for a b x u
    by (auto simp: upsert_contact_def alloc_def Let_def split: prod.split option.split)
  have contacts: "memberships (fold (upsert_contact E a b t) xs u) = memberships u" for a b xs u
    by (induction xs arbitrary: u) (simp_all add: contact)
  have room: "memberships (upsert_chatroom E a b d t x u) = memberships u" for a b d x u
    by (auto simp: upsert_chatroom_def alloc_def Let_def split: prod.split option.split)
  have rooms: "memberships (fold (upsert_chatroom E a b d t) xs u) = memberships u" for a b d xs u
    by (induction xs arbitrary: u) (simp_all add: room)
  obtain a c and directory :: contacts_data and items where "account_connection s i = Inr (a, c)"
    and end': "upsert_chatroom_placeholders E (ba_id a) (from_keys (kd_chatrooms directory)) (dict_of bi_wxid items)
      (fst (chatroom_details_of (dp_info P) (from_keys (kd_chatrooms directory)))) t
      (upsert_contacts E (ba_id a) (contact_types_of (from_keys (kd_friends directory)) (kd_official_accounts directory))
         (dict_of bi_wxid items) t s) = Inr s'"
    by (rule sync_contacts_Inr[OF assms]) blast
  from end' show ?thesis by (auto simp: upsert_contacts_def upsert_chatroom_placeholders_def contacts rooms split: if_split_asm)
qed

section \<open>Histories of a directory\<close>

text \<open>
  The transactions that may write memberships, and any other transaction, which leaves them alone.
  A transaction commits only if the primary keys are distinct.
\<close>

inductive directory_step :: "env \<Rightarrow> db \<Rightarrow> db \<Rightarrow> bool" for E where
  Contacts_Synced: "sync_contacts E opts P i t s = Inr (r, s') \<Longrightarrow> directory_step E s s'"
| Members_Synced: "sync_chatroom_members E P i t clock s = Inr (r', s') \<Longrightarrow> unique_by cm_id (memberships s') \<Longrightarrow>
    directory_step E s s'"
| Member_Left: "mark_membership_left room i e reason actor t s = Inr (m, s') \<Longrightarrow> directory_step E s s'"
| Event_Dispatched: "outcome_state (dispatch E W i s) = Some s' \<Longrightarrow> directory_step E s s'"
| Elsewhere: "memberships s' = memberships s \<Longrightarrow> directory_step E s s'"

definition directory_steps :: "env \<Rightarrow> db \<Rightarrow> db \<Rightarrow> bool" where
  "directory_steps E = (directory_step E)\<^sup>*\<^sup>*"

lemma directory_step_evolves: "directory_step E s s' \<Longrightarrow> memberships_evolve (memberships s) (memberships s')"
  by (induction rule: directory_step.induct)
    (auto intro: Kept sync_chatroom_members_evolves mark_membership_left_evolves(1) dispatch_evolves
       simp: sync_contacts_memberships)

lemma directory_steps_evolve: "directory_steps E s s' \<Longrightarrow> memberships_evolve (memberships s) (memberships s')"
  unfolding directory_steps_def
  by (induction rule: rtranclp_induct) (auto intro: Kept memberships_evolve_trans directory_step_evolves)

text \<open>
  C17: Whatever transactions run, the rows of a member of a group chat have distinct epochs from one
  upwards, at most one of them is active, and it has the greatest epoch.
\<close>

theorem memberships_stay_ordered:
  assumes "memberships_ok (memberships s)" "directory_steps E s s'"
  shows "memberships_ok (memberships s') \<and>
    (\<forall>room wxid. length (filter (\<lambda>m. cm_chatroom_id m = room \<and> cm_member_wxid m = wxid \<and> cm_left_at m = None) (memberships s')) \<le> 1)"
proof -
  have ok: "memberships_ok (memberships s')"
    by (rule memberships_evolve_ok[OF directory_steps_evolve[OF assms(2)] assms(1)])
  have "length (filter (\<lambda>m. cm_chatroom_id m = room \<and> cm_member_wxid m = wxid \<and> cm_left_at m = None) (memberships s')) \<le> 1"
    (is "length ?rows \<le> 1") for room wxid
  proof (rule ccontr)
    assume "\<not> length ?rows \<le> 1"
    then obtain m n ms where rows: "?rows = m # n # ms" by (cases ?rows; cases "tl ?rows") auto
    then have mem: "m \<in> set ?rows" "n \<in> set ?rows" by simp_all
    then have h: "m \<in> set (memberships s')" "n \<in> set (memberships s')" "cm_left_at m = None" "cm_left_at n = None"
      "same_member m n" "same_member n m" by (auto simp: same_member_def)
    then have "cm_membership_epoch n \<le> cm_membership_epoch m" "cm_membership_epoch m \<le> cm_membership_epoch n"
      using ok unfolding memberships_ok_def by blast+
    with h have "membership_key m = membership_key n" by (simp add: membership_key_eq)
    moreover have "distinct (map membership_key ?rows)"
      using ok by (auto simp: memberships_ok_def unique_by_def distinct_map intro: inj_on_subset)
    ultimately show False using rows by simp
  qed
  with ok show ?thesis by blast
qed

text \<open>
  C15: Once the departure of a group member is recorded, no rule bound to the epoch that ended, or
  to an earlier one, has any influence on a decision, in whatever state later transactions lead
  to: synchronisations and events that make the member join again included.
\<close>

theorem departed_member_rules_powerless:
  assumes left: "mark_membership_left room i e reason actor t s = Inr (m, s1)"
    and later: "directory_steps E s1 s2"
    and ev: "evaluate q now s2 = Inr (d, s3)"
    and q: "rq_chatroom_id q = Some room" "active_request_principal s2 q = Inr (Some pr)"
      "pr_principal_type pr = Pr_GROUP_MEMBER" "pr_external_id pr = cm_member_wxid m"
  defines "bound \<equiv> \<lambda>r. ar_principal_id r = Some (pr_id pr) \<and> (\<exists>k. ar_membership_epoch r = Some k \<and> k \<le> e)"
  shows "\<exists>d' s'. evaluate q now (s2\<lparr>rules := filter (\<lambda>r. \<not> bound r) (rules s2)\<rparr>) = Inr (d', s') \<and>
    dv_effect d' = dv_effect d \<and> dv_allowed d' = dv_allowed d \<and> dv_reason d' = dv_reason d \<and>
    dv_matched_rule_ids d' = dv_matched_rule_ids d"
proof (rule stale_epoch_rule_powerless[OF ev q(2,3)])
  fix r assume "r \<in> set (rules s2)" and r: "bound r"
  have "departed room (cm_member_wxid m) e (memberships s2)"
    by (rule memberships_evolve_departed[OF directory_steps_evolve[OF later] mark_membership_left_evolves(2)[OF left]])
  then have "current_membership_epoch s2 q (Some pr) = Some k \<Longrightarrow> e < k" for k
    using q by (auto simp: current_membership_epoch_def intro: departed_epoch)
  then show "ar_principal_id r = Some (pr_id pr) \<and> ar_membership_epoch r \<noteq> current_membership_epoch s2 q (Some pr)"
    using r by (force simp: bound_def)
qed

section \<open>A sample history\<close>

definition sample_operator :: auth_principal where
  "sample_operator = \<lparr>pn_user_id = 90, pn_session_id = 91, pn_username = ''admin'', pn_display_name = None, pn_roles = {}, pn_permissions = {}\<rparr>"

definition sample_member :: chatroom_member where
  "sample_member = \<lparr>gm_wxid = ''wxid_m'', gm_nickname = ''m'', gm_inviter_wxid = None, gm_member_flag = 0, gm_display_name = None\<rparr>"

definition sample_provider :: directory_provider where
  "sample_provider = \<lparr>dp_fetch = Inr \<lparr>kd_friends = [''wxid_f''], kd_chatrooms = [], kd_official_accounts = []\<rparr>,
     dp_cache = (\<lambda>_. Inr None), dp_brief = (\<lambda>_. Inr []), dp_info = (\<lambda>_. Inl GeWeProtocolError),
     dp_members = Inr \<lparr>ml_members = [sample_member], ml_owner_wxid = None\<rparr>\<rparr>"

abbreviation bound_rules :: "acl_rule list" where
  "bound_rules \<equiv> [sample_rule 6 ALLOW False (Some 5) (Some 2)]"

lemma sample_departure:
  obtains m s1 where "mark_membership_left 4 8 2 ''left'' sample_operator 30 (sample_db bound_rules) = Inr (m, s1)"
    "cm_member_wxid m = ''wxid_m''" "next_id s1 = 0" "accounts s1 = [sample_account]" "connections s1 = [sample_connection]"
    "chatrooms s1 = [sample_chatroom]" "principals s1 = [sample_principal]" "rules s1 = bound_rules"
    "memberships s1 = [sample_membership 7 1 (Some 5), sample_membership 8 2 (Some 30)]"
proof -
  have "\<exists>m s1. mark_membership_left 4 8 2 ''left'' sample_operator 30 (sample_db bound_rules) = Inr (m, s1) \<and>
    cm_member_wxid m = ''wxid_m'' \<and> next_id s1 = 0 \<and> accounts s1 = [sample_account] \<and> connections s1 = [sample_connection] \<and>
    chatrooms s1 = [sample_chatroom] \<and> principals s1 = [sample_principal] \<and> rules s1 = bound_rules \<and>
    memberships s1 = [sample_membership 7 1 (Some 5), sample_membership 8 2 (Some 30)]"
    by (simp add: mark_membership_left_def sample_defs get_row_def account_workspace_def memberships_of_def Let_def)
  then show thesis using that by blast
qed

lemma sample_rejoined:
  assumes "next_id s1 = 0" "accounts s1 = [sample_account]" "connections s1 = [sample_connection]"
    "chatrooms s1 = [sample_chatroom]" "memberships s1 = [sample_membership 7 1 (Some 5), sample_membership 8 2 (Some 30)]"
  obtains r s2 where "sync_chatroom_members sample_env sample_provider 4 31 (\<lambda>_. 31) s1 = Inr (r, s2)"
    "accounts s2 = accounts s1" "connections s2 = connections s1" "principals s2 = principals s1" "rules s2 = rules s1"
    "map cm_id (memberships s2) = [7, 8, 1000]" "map cm_membership_epoch (memberships s2) = [1, 2, 3]"
    "map cm_left_at (memberships s2) = [Some 5, Some 30, None]"
proof -
  have d: "dict_of gm_wxid [sample_member] = [(''wxid_m'', sample_member)]"
    by (simp add: dict_of_def sample_member_def)
  have "\<exists>r s2. sync_chatroom_members sample_env sample_provider 4 31 (\<lambda>_. 31) s1 = Inr (r, s2) \<and>
    accounts s2 = accounts s1 \<and> connections s2 = connections s1 \<and> principals s2 = principals s1 \<and> rules s2 = rules s1 \<and>
    map cm_id (memberships s2) = [7, 8, 1000] \<and> map cm_membership_epoch (memberships s2) = [1, 2, 3] \<and>
    map cm_left_at (memberships s2) = [Some 5, Some 30, None]"
    by (simp add: sync_chatroom_members_def chatroom_account_connection_def account_connection_def decrypt_token_def
        open_client_def sample_provider_def d upsert_memberships_def upsert_membership_def active_membership_def
        max_epoch_def memberships_of_def alloc_def assms sample_defs get_row_def Let_def check_that_def update_membership_def)
  then show thesis by (elim exE conjE) (rule that, assumption+)
qed

theorem departed_member_rules_powerless_witness:
  "\<exists>m s1 r s2 d s3 d' s'. mark_membership_left 4 8 2 ''left'' sample_operator 30 (sample_db bound_rules) = Inr (m, s1) \<and>
     sync_chatroom_members sample_env sample_provider 4 31 (\<lambda>_. 31) s1 = Inr (r, s2) \<and>
     evaluate sample_request 40 s2 = Inr (d, s3) \<and>
     evaluate sample_request 40 (s2\<lparr>rules := []\<rparr>) = Inr (d', s') \<and> dv_allowed d' = dv_allowed d"
proof -
  obtain m s1 where left: "mark_membership_left 4 8 2 ''left'' sample_operator 30 (sample_db bound_rules) = Inr (m, s1)"
    and s1: "cm_member_wxid m = ''wxid_m''" "next_id s1 = 0" "accounts s1 = [sample_account]" "connections s1 = [sample_connection]"
    "chatrooms s1 = [sample_chatroom]" "principals s1 = [sample_principal]" "rules s1 = bound_rules"
    "memberships s1 = [sample_membership 7 1 (Some 5), sample_membership 8 2 (Some 30)]" by (rule sample_departure)
  obtain r s2 where sync: "sync_chatroom_members sample_env sample_provider 4 31 (\<lambda>_. 31) s1 = Inr (r, s2)"
    and s2: "accounts s2 = accounts s1" "connections s2 = connections s1" "principals s2 = principals s1" "rules s2 = rules s1"
    "map cm_id (memberships s2) = [7, 8, 1000]" "map cm_membership_epoch (memberships s2) = [1, 2, 3]"
    "map cm_left_at (memberships s2) = [Some 5, Some 30, None]" by (rule sample_rejoined[OF s1(2-5,8)])
  have "unique_by cm_id (memberships s2)" unfolding unique_by_def s2 by simp
  then have later: "directory_steps sample_env s1 s2" unfolding directory_steps_def
    by (intro r_into_rtranclp Members_Synced[OF sync])
  have prin: "active_request_principal s2 sample_request = Inr (Some sample_principal)"
    by (simp add: active_request_principal_def s2 s1 get_row_def sample_request_def sample_principal_def)
  have acc: "account_in_workspace s2 3 1 = Some sample_account"
    by (simp add: account_in_workspace_def s2 s1 get_row_def sample_account_def sample_connection_def)
  have req: "rq_bot_account_id sample_request = 3" "rq_workspace_id sample_request = 1" "ba_status sample_account \<noteq> Acc_DISABLED"
    by (simp_all add: sample_request_def sample_account_def)
  have "\<exists>d s3. evaluate sample_request 40 s2 = Inr (d, s3)"
    using acc prin req by (auto simp: evaluate_def Let_def record_decision_def split: prod.split)
  then obtain d s3 where ev: "evaluate sample_request 40 s2 = Inr (d, s3)" by blast
  have "rules s2 = bound_rules" using s1 s2 by simp
  then have none: "filter (\<lambda>r. \<not> (ar_principal_id r = Some (pr_id sample_principal) \<and> (\<exists>k. ar_membership_epoch r = Some k \<and> k \<le> 2)))
      (rules s2) = []" by (simp add: sample_principal_def)
  have "rq_chatroom_id sample_request = Some 4" "pr_principal_type sample_principal = Pr_GROUP_MEMBER"
    "pr_external_id sample_principal = cm_member_wxid m"
    by (simp_all add: sample_request_def sample_principal_def s1)
  from departed_member_rules_powerless[OF left later ev this(1) prin this(2,3)]
  show ?thesis unfolding none using left sync ev by blast
qed

theorem memberships_stay_ordered_witness:
  "\<exists>m s1. mark_membership_left 4 8 2 ''left'' sample_operator 30 (sample_db bound_rules) = Inr (m, s1) \<and>
     memberships_ok (memberships s1)"
proof -
  obtain m s1 where left: "mark_membership_left 4 8 2 ''left'' sample_operator 30 (sample_db bound_rules) = Inr (m, s1)"
    by (rule sample_departure)
  have "memberships_ok (memberships (sample_db bound_rules))"
    by (simp add: memberships_ok_def sample_db_def sample_membership_def unique_by_def membership_key_def same_member_def)
  moreover have "directory_steps E (sample_db bound_rules) s1" for E unfolding directory_steps_def
    by (intro r_into_rtranclp Member_Left[OF left])
  ultimately show ?thesis using memberships_stay_ordered[of "sample_db bound_rules" sample_env s1] left by blast
qed

end
