(* ===== verification/Directory_Sync.thy ===== *)
theory Directory_Sync
  imports Directory_Memberships
begin

text \<open>
  What a synchronisation of the directory does: the calls that fetch the contact list, the
  batches in which summaries are read, and the effect on the stored contacts.
\<close>

section \<open>Fetching contacts\<close>

text \<open>The calls of \<open>k\<close> looks at the cache, with a pause between any two.\<close>

fun poll_trace :: "nat \<Rightarrow> contact_call list" where
  "poll_trace 0 = []"
| "poll_trace (Suc 0) = [Cache_Poll]"
| "poll_trace (Suc (Suc k)) = Cache_Poll # Poll_Sleep # poll_trace (Suc k)"

text \<open>An answer after which polling goes on, and the error raised when the attempts are used up.\<close>

definition waits :: "(gewe_error, contacts_data option) res \<Rightarrow> bool" where
  "waits a \<longleftrightarrow> (case a of Inl e \<Rightarrow> retryable e | Inr None \<Rightarrow> True | Inr (Some d) \<Rightarrow> False)"

fun last_error :: "gewe_error \<Rightarrow> (gewe_error, contacts_data option) res list \<Rightarrow> gewe_error" where
  "last_error e [] = e"
| "last_error e (a # as) = last_error (case a of Inl e' \<Rightarrow> e' | Inr _ \<Rightarrow> e) as"

definition polled ::
    "(nat \<Rightarrow> (gewe_error, contacts_data option) res) \<Rightarrow> nat \<Rightarrow> nat \<Rightarrow> nat \<Rightarrow> gewe_error \<Rightarrow> (gewe_error, contacts_data) res \<Rightarrow> bool" where
  "polled cache i k left e r \<longleftrightarrow> (\<forall>j<k. waits (cache (i + j))) \<and>
     (case cache (i + k) of
        Inr (Some d) \<Rightarrow> r = Inr d
      | Inr None \<Rightarrow> Suc k = left \<and> r = Inl (last_error e (map cache [i..<i + left]))
      | Inl e' \<Rightarrow> if retryable e' then Suc k = left \<and> r = Inl (last_error e (map cache [i..<i + left])) else r = Inl e')"

lemma polled_Suc:
  assumes "waits (cache i)" "polled cache (Suc i) k left (case cache i of Inl e' \<Rightarrow> e' | Inr _ \<Rightarrow> e) r"
  shows "polled cache i (Suc k) (Suc left) e r"
proof -
  have "waits (cache (i + j))" if "j < Suc k" for j
    using assms that by (cases j) (auto simp: polled_def)
  moreover have "map cache [i..<i + Suc left] = cache i # map cache [Suc i..<Suc i + left]"
    by (simp add: upt_conv_Cons del: upt_Suc)
  ultimately show ?thesis using assms(2) by (auto simp: polled_def split: sum.split_asm option.split_asm if_split_asm)
qed

lemma poll_cache_spec:
  assumes "poll_cache cache i (Suc left) e = (r, calls)"
  shows "\<exists>k\<le>left. calls = poll_trace (Suc k) \<and> polled cache i k (Suc left) e r"
  using assms
proof (induction left arbitrary: i e r calls)
  case 0
  then show ?case
    by (auto simp: polled_def Let_def split: sum.split_asm option.split_asm if_split_asm)
next
  case (Suc left)
  let ?e = "case cache i of Inl e' \<Rightarrow> e' | Inr _ \<Rightarrow> e"
  show ?case
  proof (cases "waits (cache i)")
    case True
    obtain r' calls' where rest: "poll_cache cache (Suc i) (Suc left) ?e = (r', calls')"
      by (cases "poll_cache cache (Suc i) (Suc left) ?e")
    have now: "r = r'" "calls = Cache_Poll # Poll_Sleep # calls'"
      using Suc.prems True rest
      by (auto simp: waits_def Let_def simp del: poll_cache.simps(2) split: sum.split_asm option.split_asm)
        (auto simp: poll_cache.simps(2)[of cache i "Suc left"] Let_def simp del: poll_cache.simps(2))
    obtain k where k: "k \<le> left" "calls' = poll_trace (Suc k)" "polled cache (Suc i) k (Suc left) ?e r'"
      using Suc.IH[OF rest] by blast
    then show ?thesis using now polled_Suc[OF True k(3)] by (intro exI[of _ "Suc k"]) simp
  next
    case False
    then show ?thesis using Suc.prems
      by (intro exI[of _ 0]) (auto simp: waits_def polled_def split: sum.split_asm option.split_asm if_split_asm)
  qed
qed

lemma polled_success:
  assumes "polled cache 0 k left e r" "k < left"
  shows "r = Inr d \<longleftrightarrow> (\<exists>k<left. cache k = Inr (Some d) \<and> (\<forall>j<k. waits (cache j)))"
proof
  assume "r = Inr d"
  then show "\<exists>k<left. cache k = Inr (Some d) \<and> (\<forall>j<k. waits (cache j))"
    using assms by (auto simp: polled_def split: sum.split_asm option.split_asm if_split_asm)
next
  assume "\<exists>k<left. cache k = Inr (Some d) \<and> (\<forall>j<k. waits (cache j))"
  then obtain l where l: "l < left" "cache l = Inr (Some d)" "\<forall>j<l. waits (cache j)" by blast
  have "\<not> waits (cache l)" using l by (simp add: waits_def)
  then have "k \<le> l" using assms by (auto simp: polled_def not_less[symmetric])
  moreover have False if "k < l"
  proof -
    have "waits (cache k)" using l that by blast
    then show False using assms(1) that l(1) by (auto simp: polled_def waits_def split: sum.split_asm option.split_asm if_split_asm)
  qed
  ultimately have "k = l" by force
  then show "r = Inr d" using assms l by (simp add: polled_def)
qed

lemma polled_exhausted:
  assumes "polled cache 0 k left e r" "k < left" "\<forall>j<left. waits (cache j)"
  shows "Suc k = left \<and> r = Inl (last_error e (map cache [0..<left]))"
  using assms(1) assms(3)[rule_format, OF assms(2)]
  by (auto simp: polled_def waits_def split: sum.split_asm option.split_asm if_split_asm)

text \<open>
  Fetching the contact list ends after at most the configured number of looks at the cache,
  with a pause between any two and none after the last; it returns a list exactly if the first
  call does, or if that fails retryably and some look finds a list after looks that failed
  retryably or found none; if every look is in vain, the error raised is the most recent one.
\<close>

theorem fetch_contacts_polls_boundedly:
  assumes "0 \<le> attempts" "0 < interval" "fetch_contacts attempts interval fetched cache = (r, calls)"
  shows "(\<exists>k\<le>nat attempts. calls = poll_trace k) \<and>
    (\<forall>d. r = Inr d \<longleftrightarrow> fetched = Inr d \<or>
       (\<exists>e. fetched = Inl e \<and> retryable e \<and> (\<exists>k<nat attempts. cache k = Inr (Some d) \<and> (\<forall>j<k. waits (cache j))))) \<and>
    (\<forall>e. fetched = Inl e \<and> retryable e \<and> (\<forall>j<nat attempts. waits (cache j)) \<longrightarrow>
       r = Inl (DirectoryGewe (last_error e (map cache [0..<nat attempts]))) \<and> calls = poll_trace (nat attempts))"
proof (cases "\<exists>e. fetched = Inl e \<and> retryable e \<and> attempts \<noteq> 0")
  case True
  then obtain e left where e: "fetched = Inl e" "retryable e" and left: "nat attempts = Suc left"
    using assms(1) by (cases "nat attempts") auto
  obtain r' where p: "poll_cache cache 0 (Suc left) e = (r', calls)" and r: "r = map_sum DirectoryGewe id r'"
    using assms True e left by (cases "poll_cache cache 0 (Suc left) e") (auto simp: fetch_contacts_def)
  obtain k where k: "k \<le> left" "calls = poll_trace (Suc k)" "polled cache 0 k (Suc left) e r'"
    using poll_cache_spec[OF p] by blast
  have "\<forall>d. r = Inr d \<longleftrightarrow> r' = Inr d" by (cases r') (auto simp: r)
  then show ?thesis using polled_success[OF k(3)] polled_exhausted[OF k(3)] k e
    by (auto simp: left r)
next
  case False
  then show ?thesis using assms
    by (cases fetched) (auto simp: fetch_contacts_def waits_def intro!: exI[of _ 0])
qed

definition sample_contacts :: contacts_data where
  "sample_contacts = \<lparr>kd_friends = [''wxid_a''], kd_chatrooms = [], kd_official_accounts = []\<rparr>"

theorem fetch_contacts_polls_boundedly_witness:
  "\<exists>r calls. fetch_contacts 3 1 (Inl (GeWeHTTPError 500 True)) (\<lambda>k. if k = 0 then Inr None else Inr (Some sample_contacts)) =
     (r, calls) \<and> r = Inr sample_contacts \<and> (\<exists>k\<le>3. calls = poll_trace k)"
proof -
  let ?f = "Inl (GeWeHTTPError 500 True)" and ?c = "\<lambda>k. if k = 0 then Inr None else Inr (Some sample_contacts)"
  obtain r calls where f: "fetch_contacts 3 1 ?f ?c = (r, calls)" by (cases "fetch_contacts 3 1 ?f ?c")
  have "\<exists>k<nat 3. ?c k = Inr (Some sample_contacts) \<and> (\<forall>j<k. waits (?c j))" by (intro exI[of _ 1]) (simp add: waits_def)
  then show ?thesis using fetch_contacts_polls_boundedly[OF _ _ f] f by simp
qed

section \<open>Summaries in batches\<close>

text \<open>The keys of a dict built from a list: the first occurrence of each.\<close>

lemma update_new_key: "k \<notin> fst ` set d \<Longrightarrow> AList.update k v d = d @ [(k, v)]"
  by (induction d) auto

lemma from_keys_remdups: "from_keys ks = rev (remdups (rev ks))"
proof (induction ks rule: rev_induct)
  case (snoc k ks)
  let ?d = "dict_of (\<lambda>k. k) ks"
  have keys: "map fst (AList.update k k ?d) = (if k \<in> fst ` set ?d then map fst ?d else map fst ?d @ [k])"
    by (simp add: update_keys)
  have "from_keys (ks @ [k]) = map fst (AList.update k k ?d)" by (simp add: from_keys_def dict_of_def)
  moreover have "fst ` set ?d = set ks" using snoc.IH by (metis from_keys_def set_map set_remdups set_rev)
  ultimately show ?case using snoc.IH keys by (simp add: from_keys_def)
qed (simp add: from_keys_def dict_of_def)

lemma batches_spec:
  assumes "0 < n"
  shows "concat (batches n xs) = xs \<and> (\<forall>b\<in>set (batches n xs). b \<noteq> [] \<and> length b \<le> n)"
  using assms
proof (induction n xs rule: batches.induct)
  case (2 n x xs)
  have "take n (x # xs) @ drop (n - 1) xs = x # xs"
    using 2(2) append_take_drop_id[of n "x # xs"] by (cases n) simp_all
  then show ?case using 2 by (cases n) auto
qed simp

lemma brief_info_of_pointwise:
  assumes "\<And>b. b \<in> set bs \<Longrightarrow> call b = Inr (map f b)"
  shows "brief_info_of call bs = Inr (map f (concat bs))"
  using assms by (induction bs) auto

text \<open>
  If the provider answers each request it accepts, of one to twenty identifiers, with one
  summary per identifier, the summaries of any list of identifiers are those of its distinct
  members in the order of their first occurrence, whatever the batch size.
\<close>

theorem brief_info_batching_transparent:
  assumes "1 \<le> batch_size" "batch_size \<le> 20"
    and "\<And>b. b \<noteq> [] \<Longrightarrow> length b \<le> 20 \<Longrightarrow> call b = Inr (map f b)"
  shows "get_brief_info_batched call wxids batch_size = Inr (map f (rev (remdups (rev wxids))))"
proof -
  let ?bs = "batches (nat batch_size) (from_keys wxids)"
  have pos: "0 < nat batch_size" and small: "nat batch_size \<le> 20" using assms(1,2) by simp_all
  have "b \<noteq> [] \<and> length b \<le> 20" if "b \<in> set ?bs" for b
    using that batches_spec[OF pos] le_trans[OF _ small] by blast
  then have "brief_info_of call ?bs = Inr (map f (concat ?bs))"
    by (intro brief_info_of_pointwise assms(3)) auto
  then show ?thesis using assms(1,2) batches_spec[OF pos, THEN conjunct1, of "rev (remdups (rev wxids))"]
    by (simp add: get_brief_info_batched_def brief_info_batch_limit_def from_keys_remdups)
qed

theorem brief_info_batching_transparent_witness:
  "get_brief_info_batched (\<lambda>b. Inr (map (\<lambda>w. \<lparr>bi_wxid = w, bi_nickname = None, bi_remark = None,
       bi_big_head_image_url = None, bi_small_head_image_url = None\<rparr>) b)) [''b'', ''a'', ''b''] 1 =
   Inr (map (\<lambda>w. \<lparr>bi_wxid = w, bi_nickname = None, bi_remark = None,
       bi_big_head_image_url = None, bi_small_head_image_url = None\<rparr>) [''b'', ''a''])"
  by (subst brief_info_batching_transparent) simp_all

section \<open>Contacts after a synchronisation\<close>

definition contact_key :: "contact \<Rightarrow> uuid \<times> string" where
  "contact_key c = (ct_bot_account_id c, ct_external_id c)"

lemma contact_of_key: "contact_of a x rows = get_row contact_key (a, x) rows"
  by (simp add: contact_of_def contact_key_def[abs_def])

lemma merge_contact_keeps [simp]:
  "ct_id (merge_contact b ty t c) = ct_id c" "contact_key (merge_contact b ty t c) = contact_key c"
  "ct_contact_type (merge_contact b ty t c) = ty" "ct_active (merge_contact b ty t c)"
  "ct_last_synced_at (merge_contact b ty t c) = Some t"
  by (simp_all add: merge_contact_def contact_key_def Let_def split: option.split)

text \<open>The stored contact after a merge, from the one before.\<close>

definition synced_contact :: "(string \<times> brief_info) list \<Rightarrow> instant \<Rightarrow> string \<times> string \<Rightarrow> contact option \<Rightarrow> contact \<Rightarrow> bool" where
  "synced_contact brief t entry old c \<longleftrightarrow> (case old of
     Some c0 \<Rightarrow> c = merge_contact (map_of brief (fst entry)) (snd entry) t c0
   | None \<Rightarrow> ct_active c \<and> ct_contact_type c = snd entry \<and> ct_last_synced_at c = Some t)"

text \<open>
  Rows are written back by primary key, the lookups are by account and identifier: both are
  unique.
\<close>

definition contacts_ok :: "contact list \<Rightarrow> bool" where
  "contacts_ok rows \<longleftrightarrow> unique_by ct_id rows \<and> unique_by contact_key rows"

lemma put_contact:
  assumes "contacts_ok rows" "contact_of a x rows = Some c"
  shows "put_row ct_id (merge_contact b ty t c) rows = put_row contact_key (merge_contact b ty t c) rows"
  using assms get_row_Some_mem[of contact_key "(a, x)" rows c]
  by (intro put_row_other_key) (auto simp: contacts_ok_def contact_of_key)

lemma upsert_contact_effect:
  assumes "unique_by ct_id (contacts (upsert_contact E a brief t (x, ty) s))" "unique_by contact_key (contacts s)"
  defines "s' \<equiv> upsert_contact E a brief t (x, ty) s"
  shows "unique_by contact_key (contacts s') \<and>
    (\<exists>c. contact_of a x (contacts s') = Some c \<and> synced_contact brief t (x, ty) (contact_of a x (contacts s)) c) \<and>
    (\<forall>b y. (b, y) \<noteq> (a, x) \<longrightarrow> contact_of b y (contacts s') = contact_of b y (contacts s))"
proof (cases "contact_of a x (contacts s)")
  case (Some c)
  let ?c = "merge_contact (map_of brief x) ty t c"
  have s': "contacts s' = put_row ct_id ?c (contacts s)" using Some by (simp add: s'_def upsert_contact_def)
  then have ok: "contacts_ok (contacts s)" using assms(1,2) by (simp add: s'_def contacts_ok_def)
  have key: "contact_key ?c = (a, x)" using get_row_Some_mem[OF Some[unfolded contact_of_key]] by simp
  show ?thesis using Some assms(2) get_put_same[of contact_key ?c "contacts s"] get_put_other[of _ contact_key ?c "contacts s"]
    unfolding s' put_contact[OF ok Some] contact_of_key key by (simp add: synced_contact_def)
next
  case None
  obtain c where s': "contacts s' = contacts s @ [c]" and c: "contact_key c = (a, x)" "ct_active c" "ct_contact_type c = ty"
      "ct_last_synced_at c = Some t"
    using None by (simp add: s'_def upsert_contact_def alloc_def Let_def)
      (simp add: contact_key_def merge_contact_def Let_def split: option.split)
  have "\<forall>y\<in>set (contacts s). contact_key y \<noteq> (a, x)" using None by (simp add: contact_of_key get_row_None_iff)
  then have "unique_by contact_key (contacts s')" unfolding s' using assms(2) c(1) by (intro unique_by_new) auto
  then show ?thesis using None c
    by (auto simp: s' contact_of_key get_row_append get_row_Cons synced_contact_def split: option.split)
qed

lemma upsert_contact_ids:
  "unique_by ct_id (contacts (upsert_contact E a brief t xt s)) \<Longrightarrow> unique_by ct_id (contacts s)"
  by (auto simp: upsert_contact_def alloc_def Let_def unique_by_snoc split: prod.split_asm option.split_asm)

lemma upsert_contacts_ids:
  "unique_by ct_id (contacts (fold (upsert_contact E a brief t) xs s)) \<Longrightarrow> unique_by ct_id (contacts s)"
  by (induction xs arbitrary: s) (auto dest: upsert_contact_ids)

lemma upsert_contacts_effect:
  assumes "unique_by ct_id (contacts (fold (upsert_contact E a brief t) xs s))" "unique_by contact_key (contacts s)"
    "distinct (map fst xs)"
  defines "s' \<equiv> fold (upsert_contact E a brief t) xs s"
  shows "unique_by contact_key (contacts s') \<and>
    (\<forall>(x, ty)\<in>set xs. \<exists>c. contact_of a x (contacts s') = Some c \<and> synced_contact brief t (x, ty) (contact_of a x (contacts s)) c) \<and>
    (\<forall>b y. b \<noteq> a \<or> y \<notin> fst ` set xs \<longrightarrow> contact_of b y (contacts s') = contact_of b y (contacts s))"
  using assms(1-3) unfolding s'_def
proof (induction xs arbitrary: s)
  case (Cons xt xs)
  obtain x ty where xt: "xt = (x, ty)" by (cases xt)
  let ?s1 = "upsert_contact E a brief t (x, ty) s"
  have ids: "unique_by ct_id (contacts (fold (upsert_contact E a brief t) xs ?s1))" using Cons.prems(1) xt by simp
  note step = upsert_contact_effect[OF upsert_contacts_ids[OF ids] Cons.prems(2)]
  have new: "x \<notin> fst ` set xs" and d: "distinct (map fst xs)" using Cons.prems(3) xt by auto
  note rest = Cons.IH[OF ids step[THEN conjunct1] d]
  note step_other = step[THEN conjunct2, THEN conjunct2, rule_format]
  note rest_other = rest[THEN conjunct2, THEN conjunct2, rule_format]
  let ?s2 = "fold (upsert_contact E a brief t) xs ?s1"
  have "\<exists>c. contact_of a y (contacts ?s2) = Some c \<and> synced_contact brief t (y, ty') (contact_of a y (contacts s)) c"
    if "(y, ty') \<in> set (xt # xs)" for y ty'
  proof (cases "(y, ty') = (x, ty)")
    case True
    obtain c where "contact_of a x (contacts ?s1) = Some c" "synced_contact brief t (x, ty) (contact_of a x (contacts s)) c"
      using step[THEN conjunct2, THEN conjunct1] by blast
    moreover have "contact_of a x (contacts ?s2) = contact_of a x (contacts ?s1)" using new by (intro rest_other) simp
    ultimately show ?thesis using True by simp
  next
    case False
    then have y: "(y, ty') \<in> set xs" using that xt by auto
    then have "y \<noteq> x" using new by force
    then have "contact_of a y (contacts ?s1) = contact_of a y (contacts s)" by (intro step_other) simp
    then show ?thesis using bspec[OF rest[THEN conjunct2, THEN conjunct1] y] by simp
  qed
  moreover have "contact_of b y (contacts ?s2) = contact_of b y (contacts s)" if "b \<noteq> a \<or> y \<notin> fst ` set (xt # xs)" for b y
    using that xt rest_other[of b y] step_other[of b y] by auto
  ultimately show ?case using rest[THEN conjunct1] xt by auto
qed simp

lemma contact_types:
  assumes "distinct friends"
  shows "distinct (map fst (contact_types_of friends officials)) \<and>
    fst ` set (contact_types_of friends officials) = set friends \<union> set officials \<and>
    (\<forall>(x, ty)\<in>set (contact_types_of friends officials). ty = (if x \<in> set officials then ''OFFICIAL_ACCOUNT'' else ''FRIEND''))"
proof (induction officials rule: rev_induct)
  case Nil
  then show ?case using assms by (auto simp: contact_types_of_def comp_def image_image)
next
  case (snoc o' officials)
  let ?d = "contact_types_of friends officials"
  have step: "contact_types_of friends (officials @ [o']) = AList.update o' ''OFFICIAL_ACCOUNT'' ?d"
    by (simp add: contact_types_of_def)
  have d: "distinct (map fst ?d)" using snoc.IH by blast
  have "(x = o' \<and> ty = ''OFFICIAL_ACCOUNT'') \<or> (x \<noteq> o' \<and> (x, ty) \<in> set ?d)"
    if "(x, ty) \<in> set (AList.update o' ''OFFICIAL_ACCOUNT'' ?d)" for x ty
  proof -
    have "map_of (AList.update o' ''OFFICIAL_ACCOUNT'' ?d) x = Some ty"
      using that by (rule map_of_is_SomeI[OF distinct_update[OF d]])
    then show ?thesis by (auto simp: update_conv' dest: map_of_SomeD split: if_split_asm)
  qed
  moreover have "ty = (if x \<in> set officials then ''OFFICIAL_ACCOUNT'' else ''FRIEND'')" if "(x, ty) \<in> set ?d" for x ty
    using snoc.IH that by blast
  ultimately have "\<forall>(x, ty)\<in>set (AList.update o' ''OFFICIAL_ACCOUNT'' ?d).
      ty = (if x \<in> set (officials @ [o']) then ''OFFICIAL_ACCOUNT'' else ''FRIEND'')" by fastforce
  then show ?case using snoc.IH d unfolding step by (simp add: distinct_update dom_update)
qed

lemma placeholders_contacts:
  assumes "upsert_chatroom_placeholders E a rooms b d t s = Inr s'"
  shows "contacts s' = contacts s"
proof -
  have room: "contacts (upsert_chatroom E a b d t x u) = contacts u" for x u
    by (auto simp: upsert_chatroom_def alloc_def Let_def split: prod.split option.split)
  have "contacts (fold (upsert_chatroom E a b d t) xs u) = contacts u" for xs u
    by (induction xs arbitrary: u) (simp_all add: room)
  then show ?thesis using assms by (auto simp: upsert_chatroom_placeholders_def split: if_split_asm)
qed

text \<open>
  C38: A synchronisation marks exactly the contacts of the account that the provider lists, as
  active, with their kind and the time, updates the row of a contact that was known and adds one
  otherwise; every other contact, of whatever account, stays as it was, and there is one row per
  account and identifier.
\<close>

theorem sync_contacts_merges:
  assumes sync: "sync_contacts E opts P i t s = Inr (r, s')"
    and keys: "unique_by contact_key (contacts s)" "unique_by ct_id (contacts s')"
  shows "\<exists>directory. fst (fetch_contacts (do_poll_attempts opts) (do_poll_interval opts) (dp_fetch P) (dp_cache P)) = Inr directory \<and>
    unique_by contact_key (contacts s') \<and>
    (\<forall>x\<in>set (kd_friends directory) \<union> set (kd_official_accounts directory). \<exists>c. contact_of i x (contacts s') = Some c \<and>
       ct_active c \<and> ct_last_synced_at c = Some t \<and>
       ct_contact_type c = (if x \<in> set (kd_official_accounts directory) then ''OFFICIAL_ACCOUNT'' else ''FRIEND'') \<and>
       (\<forall>c0. contact_of i x (contacts s) = Some c0 \<longrightarrow> ct_id c = ct_id c0)) \<and>
    (\<forall>a x. a \<noteq> i \<or> x \<notin> set (kd_friends directory) \<union> set (kd_official_accounts directory) \<longrightarrow>
       contact_of a x (contacts s') = contact_of a x (contacts s))"
proof -
  obtain a c and directory :: contacts_data and items where acc: "account_connection s i = Inr (a, c)"
    and fetched: "fst (fetch_contacts (do_poll_attempts opts) (do_poll_interval opts) (dp_fetch P) (dp_cache P)) = Inr directory"
    and merge: "upsert_chatroom_placeholders E (ba_id a) (from_keys (kd_chatrooms directory)) (dict_of bi_wxid items)
      (fst (chatroom_details_of (dp_info P) (from_keys (kd_chatrooms directory)))) t
      (upsert_contacts E (ba_id a) (contact_types_of (from_keys (kd_friends directory)) (kd_official_accounts directory))
         (dict_of bi_wxid items) t s) = Inr s'"
    by (rule sync_contacts_Inr[OF sync])
  have a: "ba_id a = i" using acc get_row_Some_mem[of ba_id i "accounts s"]
    by (auto simp: account_connection_def split: option.split_asm)
  let ?types = "contact_types_of (from_keys (kd_friends directory)) (kd_official_accounts directory)"
  let ?all = "set (kd_friends directory) \<union> set (kd_official_accounts directory)"
  have s': "contacts s' = contacts (fold (upsert_contact E i (dict_of bi_wxid items) t) ?types s)"
    using placeholders_contacts[OF merge] a by (simp add: upsert_contacts_def)
  have types: "distinct (map fst ?types)" "fst ` set ?types = ?all"
    "\<And>x ty. (x, ty) \<in> set ?types \<Longrightarrow> ty = (if x \<in> set (kd_official_accounts directory) then ''OFFICIAL_ACCOUNT'' else ''FRIEND'')"
    using contact_types[of "from_keys (kd_friends directory)" "kd_official_accounts directory"]
    by (auto simp: from_keys_remdups)
  note eff = upsert_contacts_effect[OF keys(2)[unfolded s'] keys(1) types(1), folded s']
  have "\<exists>c. contact_of i x (contacts s') = Some c \<and> ct_active c \<and> ct_last_synced_at c = Some t \<and>
      ct_contact_type c = (if x \<in> set (kd_official_accounts directory) then ''OFFICIAL_ACCOUNT'' else ''FRIEND'') \<and>
      (\<forall>c0. contact_of i x (contacts s) = Some c0 \<longrightarrow> ct_id c = ct_id c0)" if x: "x \<in> ?all" for x
  proof -
    obtain ty where ty: "(x, ty) \<in> set ?types" using x types(2) by force
    obtain c where "contact_of i x (contacts s') = Some c"
      "synced_contact (dict_of bi_wxid items) t (x, ty) (contact_of i x (contacts s)) c"
      using bspec[OF eff[THEN conjunct2, THEN conjunct1] ty] by auto
    then show ?thesis using types(3)[OF ty] by (auto simp: synced_contact_def split: option.split_asm)
  qed
  moreover have "contact_of b x (contacts s') = contact_of b x (contacts s)" if "b \<noteq> i \<or> x \<notin> ?all" for b x
    using eff[THEN conjunct2, THEN conjunct2, rule_format, of b x] that types(2) by blast
  ultimately show ?thesis using fetched eff[THEN conjunct1] by blast
qed

lemma sample_contacts_synced:
  obtains r s' where "sync_contacts sample_env \<lparr>do_poll_attempts = 6, do_poll_interval = 10\<rparr> sample_provider 3 50 (sample_db []) = Inr (r, s')"
    "map ct_id (contacts s') = [1000]" "contacts (sample_db []) = []"
proof -
  have keys: "from_keys [''wxid_f''] = [''wxid_f'']" "from_keys ([] :: string list) = []"
    by (simp_all add: from_keys_remdups)
  have "\<exists>r s'. sync_contacts sample_env \<lparr>do_poll_attempts = 6, do_poll_interval = 10\<rparr> sample_provider 3 50 (sample_db []) = Inr (r, s') \<and>
      map ct_id (contacts s') = [1000] \<and> contacts (sample_db []) = []"
    by (simp add: sync_contacts_def account_connection_def decrypt_token_def open_client_def fetch_contacts_def
        sample_provider_def keys get_brief_info_batched_def brief_info_batch_limit_def contact_types_of_def dict_of_def
        upsert_contacts_def upsert_contact_def contact_of_def upsert_chatroom_placeholders_def alloc_def sample_defs
        get_row_def check_that_def Let_def)
  then show thesis by (elim exE conjE) (rule that, assumption+)
qed

theorem sync_contacts_merges_witness:
  "\<exists>r s' c. sync_contacts sample_env \<lparr>do_poll_attempts = 6, do_poll_interval = 10\<rparr> sample_provider 3 50 (sample_db []) = Inr (r, s') \<and>
     contact_of 3 ''wxid_f'' (contacts s') = Some c \<and> ct_contact_type c = ''FRIEND''"
proof -
  obtain r s' where s: "sync_contacts sample_env \<lparr>do_poll_attempts = 6, do_poll_interval = 10\<rparr> sample_provider 3 50 (sample_db []) = Inr (r, s')"
    and ids: "map ct_id (contacts s') = [1000]" "contacts (sample_db []) = []" by (rule sample_contacts_synced)
  have "unique_by contact_key (contacts (sample_db []))" "unique_by ct_id (contacts s')" unfolding unique_by_def ids by simp_all
  from sync_contacts_merges[OF s this] show ?thesis using s by (auto simp: fetch_contacts_def sample_provider_def)
qed

end
