(* ===== verification/Accounts.thy ===== *)
theory Accounts
  imports Directory_Memberships Sender
begin

text \<open>
  The accounts of a connection (\<open>accounts/service.py\<close>): registration, login by QR code,
  the checks that ask the provider, and disabling.  A check reads the row, awaits the provider
  and then writes the columns it changed; \<open>between\<close> is what other transactions commit in the
  meantime.  The provider's answers, already parsed, are parameters.
\<close>

section \<open>Answers of the provider\<close>

datatype login_status = Login_NOT_SCANNED | Login_SCANNED | Login_LOGGED_IN

record login_info =
  li_wxid :: string
  li_nickname :: string
  li_alias :: "string option"

record login_status_data =
  ld_head_image_url :: "string option"
  ld_nickname :: "string option"
  ld_expired_time :: "int option"
  ld_status :: "login_status option"
  ld_login_info :: "login_info option"
  ld_verification_url :: "string option"

record login_qr_code_data =
  qd_app_id :: string
  qd_qr_data :: string
  qd_qr_image_base64 :: string
  qd_uuid :: string

datatype account_error =
    AccountNotFoundError string
  | AccountStateError string
  | AccountCredentialError
  | AccountGewe gewe_error
  | AccountValueError string

section \<open>Rows\<close>

text \<open>
  The write of a row: the columns whose value differs from the one loaded.
\<close>

definition changed :: "('r \<Rightarrow> 'v) \<Rightarrow> 'r \<Rightarrow> 'r \<Rightarrow> 'r \<Rightarrow> 'v" where
  "changed col old new current = (if col new = col old then col current else col new)"

definition merge_account :: "bot_account \<Rightarrow> bot_account \<Rightarrow> bot_account \<Rightarrow> bot_account" where
  "merge_account old new current = current\<lparr>
     ba_wxid := changed ba_wxid old new current,
     ba_alias := changed ba_alias old new current,
     ba_nickname := changed ba_nickname old new current,
     ba_avatar_url := changed ba_avatar_url old new current,
     ba_note := changed ba_note old new current,
     ba_pending_login_uuid := changed ba_pending_login_uuid old new current,
     ba_qr_expires_at := changed ba_qr_expires_at old new current,
     ba_last_status_checked_at := changed ba_last_status_checked_at old new current,
     ba_last_status_error := changed ba_last_status_error old new current,
     ba_status := changed ba_status old new current,
     ba_logged_in_at := changed ba_logged_in_at old new current,
     ba_last_online_at := changed ba_last_online_at old new current\<rparr>"

definition store_account :: "bot_account \<Rightarrow> bot_account \<Rightarrow> db \<Rightarrow> db" where
  "store_account old new s =
     (case get_row ba_id (ba_id old) (accounts s) of None \<Rightarrow> s
      | Some current \<Rightarrow> s\<lparr>accounts := put_row ba_id (merge_account old new current) (accounts s)\<rparr>)"

definition account_of_app :: "uuid \<Rightarrow> string \<Rightarrow> db \<Rightarrow> bot_account option" where
  "account_of_app connection app_id s =
     get_row (\<lambda>a. (ba_gewe_connection_id a, ba_app_id a)) (connection, app_id) (accounts s)"

definition new_account :: "uuid \<Rightarrow> uuid \<Rightarrow> string \<Rightarrow> account_status \<Rightarrow> bot_account" where
  "new_account i connection app_id status =
     \<lparr>ba_id = i, ba_gewe_connection_id = connection, ba_app_id = app_id, ba_wxid = None, ba_alias = None,
      ba_nickname = None, ba_avatar_url = None, ba_note = None, ba_pending_login_uuid = None, ba_qr_expires_at = None,
      ba_last_status_checked_at = None, ba_last_status_error = None, ba_status = status, ba_logged_in_at = None,
      ba_last_online_at = None\<rparr>"

definition find_connection :: "db \<Rightarrow> uuid \<Rightarrow> (account_error, gewe_connection) res" where
  "find_connection s i = of_option (AccountNotFoundError ''GeWe connection not found'') (get_row gc_id i (connections s))"

definition account_with_connection :: "db \<Rightarrow> uuid \<Rightarrow> (account_error, bot_account \<times> gewe_connection) res" where
  "account_with_connection s i =
     (case get_row ba_id i (accounts s) of None \<Rightarrow> Inl (AccountNotFoundError ''bot account not found'')
      | Some a \<Rightarrow> (case get_row gc_id (ba_gewe_connection_id a) (connections s) of
            None \<Rightarrow> Inl (AccountNotFoundError ''bot account not found'') | Some c \<Rightarrow> Inr (a, c)))"

text \<open>\<open>_gewe_client\<close>: the credential is decrypted; the client refuses an empty token.\<close>

definition gewe_client :: "env \<Rightarrow> gewe_connection \<Rightarrow> (account_error, unit) res" where
  "gewe_client E c =
     bind_res (of_option AccountCredentialError (fernet_decrypt E (gc_token_ciphertext c))) (\<lambda>token.
       check_that (token \<noteq> []) (AccountValueError ''GeWe token cannot be empty''))"

section \<open>Registration\<close>

record manual_account =
  mn_app_id :: string
  mn_wxid :: "string option"
  mn_note :: "string option"

definition at_most :: "nat \<Rightarrow> string option \<Rightarrow> bool" where
  "at_most n v \<longleftrightarrow> (case v of None \<Rightarrow> True | Some t \<Rightarrow> length t \<le> n)"

definition validate_manual_account :: "manual_account \<Rightarrow> bool" where
  "validate_manual_account p \<longleftrightarrow> 1 \<le> length (mn_app_id p) \<and> length (mn_app_id p) \<le> 255 \<and>
     at_most 255 (mn_wxid p) \<and> at_most 500 (mn_note p)"

definition register_manual :: "env \<Rightarrow> uuid \<Rightarrow> manual_account \<Rightarrow> db \<Rightarrow> (account_error, bot_account \<times> db) res" where
  "register_manual E connection p s =
     bind_res (find_connection s connection) (\<lambda>_.
       case account_of_app connection (mn_app_id p) s of
         None \<Rightarrow>
           let (i, s1) = alloc E s;
               a = (new_account i connection (mn_app_id p) Acc_OFFLINE)\<lparr>ba_wxid := mn_wxid p, ba_note := mn_note p\<rparr>
           in Inr (a, s1\<lparr>accounts := accounts s1 @ [a]\<rparr>)
       | Some a \<Rightarrow>
           let a1 = (if mn_wxid p \<noteq> None then a\<lparr>ba_wxid := mn_wxid p\<rparr> else a);
               a2 = (if mn_note p \<noteq> None then a1\<lparr>ba_note := mn_note p\<rparr> else a1)
           in Inr (a2, store_account a a2 s))"

section \<open>Login\<close>

definition qr_lifetime_seconds :: int where
  "qr_lifetime_seconds = 150"

text \<open>The account is looked up after the provider has answered.\<close>

definition get_login_qr_code ::
    "env \<Rightarrow> uuid \<Rightarrow> (gewe_error, login_qr_code_data) res \<Rightarrow> instant \<Rightarrow> (db \<Rightarrow> db) \<Rightarrow> db \<Rightarrow>
     (account_error, (bot_account \<times> login_qr_code_data \<times> instant) \<times> db) res" where
  "get_login_qr_code E connection answer now between s0 =
     bind_res (find_connection s0 connection) (\<lambda>c.
     bind_res (gewe_client E c) (\<lambda>_.
     bind_res (map_sum AccountGewe id answer) (\<lambda>qr.
       let s = between s0; expires_at = now + seconds (of_int qr_lifetime_seconds);
           pending = (\<lambda>a. a\<lparr>ba_pending_login_uuid := Some (qd_uuid qr), ba_qr_expires_at := Some expires_at,
               ba_status := Acc_QR_PENDING, ba_last_status_error := None\<rparr>)
       in case account_of_app connection (qd_app_id qr) s of
            None \<Rightarrow> let (i, s1) = alloc E s; a = pending (new_account i connection (qd_app_id qr) Acc_QR_PENDING)
              in Inr ((a, qr, expires_at), s1\<lparr>accounts := accounts s1 @ [a]\<rparr>)
          | Some a \<Rightarrow> if ba_status a = Acc_DISABLED then Inl (AccountStateError ''disabled account cannot start login'')
              else Inr ((pending a, qr, expires_at), store_account a (pending a) s))))"

definition apply_login_status :: "bot_account \<Rightarrow> login_status_data \<Rightarrow> instant \<Rightarrow> (account_error, bot_account) res" where
  "apply_login_status a0 r now =
     (let a1 = a0\<lparr>ba_last_status_checked_at := Some now, ba_last_status_error := None\<rparr>;
          a2 = (case ld_expired_time r of None \<Rightarrow> a1
            | Some t \<Rightarrow> a1\<lparr>ba_qr_expires_at := Some (now + seconds (of_int (max t 0)))\<rparr>);
          a3 = (if ld_head_image_url r \<noteq> None then a2\<lparr>ba_avatar_url := ld_head_image_url r\<rparr> else a2);
          a = (if ld_nickname r \<noteq> None then a3\<lparr>ba_nickname := ld_nickname r\<rparr> else a3)
      in if ld_status r = Some Login_NOT_SCANNED then Inr (a\<lparr>ba_status := Acc_QR_PENDING\<rparr>)
         else if ld_status r = Some Login_SCANNED \<or> ld_verification_url r \<noteq> None then Inr (a\<lparr>ba_status := Acc_SCANNED\<rparr>)
         else if ld_status r = Some Login_LOGGED_IN then
           (case ld_login_info r of None \<Rightarrow> Inl (AccountStateError ''login succeeded without account information'')
            | Some info \<Rightarrow> Inr (a\<lparr>ba_status := Acc_ONLINE, ba_wxid := Some (li_wxid info), ba_nickname := Some (li_nickname info),
                ba_alias := li_alias info, ba_logged_in_at := Some now, ba_last_online_at := Some now,
                ba_pending_login_uuid := None, ba_qr_expires_at := None\<rparr>))
         else Inr a)"

definition check_login ::
    "env \<Rightarrow> uuid \<Rightarrow> (gewe_error, login_status_data) res \<Rightarrow> instant \<Rightarrow> (db \<Rightarrow> db) \<Rightarrow> db \<Rightarrow>
     (account_error, (bot_account \<times> login_status option \<times> string option) \<times> db) res" where
  "check_login E i answer now between s =
     bind_res (account_with_connection s i) (\<lambda>(a, c).
       if ba_status a = Acc_DISABLED then Inl (AccountStateError ''disabled account cannot login'')
       else if ba_pending_login_uuid a \<in> {None, Some []}
       then Inl (AccountStateError ''account has no pending login QR code'')
       else bind_res (gewe_client E c) (\<lambda>_.
            bind_res (map_sum AccountGewe id answer) (\<lambda>r.
            bind_res (apply_login_status a r now) (\<lambda>a'.
              Inr ((a', ld_status r, ld_verification_url r), store_account a a' (between s))))))"

section \<open>Status checks\<close>

definition check_online ::
    "env \<Rightarrow> uuid \<Rightarrow> (gewe_error, bool) res \<Rightarrow> instant \<Rightarrow> (db \<Rightarrow> db) \<Rightarrow> db \<Rightarrow> (account_error, (bot_account \<times> bool) \<times> db) res" where
  "check_online E i answer now between s =
     bind_res (account_with_connection s i) (\<lambda>(a, c).
       if ba_status a = Acc_DISABLED then Inl (AccountStateError ''disabled account cannot be checked'')
       else bind_res (gewe_client E c) (\<lambda>_.
            bind_res (map_sum AccountGewe id answer) (\<lambda>online.
              let a' = a\<lparr>ba_last_status_checked_at := Some now,
                    ba_status := (if online then Acc_ONLINE else Acc_OFFLINE),
                    ba_last_online_at := (if online then Some now else ba_last_online_at a), ba_last_status_error := None\<rparr>
              in Inr ((a', online), store_account a a' (between s)))))"

definition reconnect ::
    "env \<Rightarrow> uuid \<Rightarrow> (gewe_error, login_status_data option) res \<Rightarrow> instant \<Rightarrow> (db \<Rightarrow> db) \<Rightarrow> db \<Rightarrow>
     (account_error, (bot_account \<times> login_status option) \<times> db) res" where
  "reconnect E i answer now between s =
     bind_res (account_with_connection s i) (\<lambda>(a, c).
       if ba_status a = Acc_DISABLED then Inl (AccountStateError ''disabled account cannot reconnect'')
       else let a1 = a\<lparr>ba_status := Acc_RECONNECTING\<rparr> in
            bind_res (gewe_client E c) (\<lambda>_.
            bind_res (map_sum AccountGewe id answer) (\<lambda>r.
            bind_res (case r of None \<Rightarrow> Inr (a1\<lparr>ba_status := Acc_RECONNECTING\<rparr>) | Some d \<Rightarrow> apply_login_status a1 d now) (\<lambda>a'.
              Inr ((a', Option.bind r ld_status), store_account a a' (between s))))))"

section \<open>Disabling\<close>

text \<open>Under the authorisation fence; the row is read again with a lock before it is written.\<close>

definition set_disabled :: "uuid \<Rightarrow> bool \<Rightarrow> db \<Rightarrow> (account_error, bot_account \<times> db) res" where
  "set_disabled i disabled s =
     bind_res (account_with_connection s i) (\<lambda>(a, _).
       let a1 = a\<lparr>ba_status := (if disabled then Acc_DISABLED else Acc_OFFLINE)\<rparr>;
           a2 = (if disabled then a1\<lparr>ba_pending_login_uuid := None, ba_qr_expires_at := None\<rparr> else a1)
       in Inr (a2, store_account a a2 s))"

text \<open>The list is ordered by creation, the order of the table.\<close>

definition list_accounts :: "db \<Rightarrow> uuid option \<Rightarrow> nat \<Rightarrow> nat \<Rightarrow> bot_account list \<times> nat" where
  "list_accounts s connection limit offset =
     (let rows = filter (\<lambda>a. opt_filter connection (ba_gewe_connection_id a)) (accounts s)
      in (take limit (drop offset rows), length rows))"

section \<open>Disabled accounts\<close>

text \<open>
  The transactions on accounts when no other transaction changes the row during a call of the
  provider, and any other transaction, which leaves the accounts alone.  Enabling an account is
  marked with its id.  A transaction commits only if the primary keys are distinct.
\<close>

inductive account_step :: "env \<Rightarrow> uuid option \<Rightarrow> db \<Rightarrow> db \<Rightarrow> bool" for E where
  Registered: "register_manual E c p s = Inr (r, s') \<Longrightarrow> account_step E None s s'"
| Qr_Code: "get_login_qr_code E c qr now (\<lambda>x. x) s = Inr (r', s') \<Longrightarrow> account_step E None s s'"
| Login_Checked: "check_login E i status now (\<lambda>x. x) s = Inr (r'', s') \<Longrightarrow> account_step E None s s'"
| Online_Checked: "check_online E i answer now (\<lambda>x. x) s = Inr (r1, s') \<Longrightarrow> account_step E None s s'"
| Reconnected: "reconnect E i reconnected now (\<lambda>x. x) s = Inr (r2, s') \<Longrightarrow> account_step E None s s'"
| Disabled: "set_disabled i True s = Inr (a, s') \<Longrightarrow> account_step E None s s'"
| Enabled: "set_disabled i False s = Inr (a, s') \<Longrightarrow> account_step E (Some i) s s'"
| Other_Tables: "accounts s' = accounts s \<Longrightarrow> account_step E None s s'"

inductive account_history :: "env \<Rightarrow> uuid \<Rightarrow> db \<Rightarrow> db \<Rightarrow> bool" for E i where
  No_Step: "account_history E i s s"
| Another_Step: "account_history E i s s1 \<Longrightarrow> account_step E l s1 s2 \<Longrightarrow> l \<noteq> Some i \<Longrightarrow>
    unique_by ba_id (accounts s2) \<Longrightarrow> account_history E i s s2"

definition account_disabled :: "uuid \<Rightarrow> db \<Rightarrow> bool" where
  "account_disabled i s \<longleftrightarrow> (\<exists>a. get_row ba_id i (accounts s) = Some a \<and> ba_status a = Acc_DISABLED)"

lemma merge_account_id [simp]: "ba_id (merge_account old new current) = ba_id current"
  by (simp add: merge_account_def)

lemma store_account_disabled:
  assumes "account_disabled i s" "ba_id old = i \<Longrightarrow> ba_status new = ba_status old \<or> ba_status new = Acc_DISABLED"
  shows "account_disabled i (store_account old new s)"
proof (cases "ba_id old = i")
  case True
  obtain a where a: "get_row ba_id i (accounts s) = Some a" "ba_status a = Acc_DISABLED"
    using assms(1) by (auto simp: account_disabled_def)
  have id: "ba_id (merge_account old new a) = i" using get_row_Some_mem[OF a(1)] by simp
  have "ba_status (merge_account old new a) = Acc_DISABLED"
    using assms(2)[OF True] a(2) by (auto simp: merge_account_def changed_def)
  then show ?thesis using a(1) True get_put_same[of ba_id "merge_account old new a" "accounts s", unfolded id]
    by (simp add: store_account_def account_disabled_def)
next
  case False
  show ?thesis
  proof (cases "get_row ba_id (ba_id old) (accounts s)")
    case (Some current)
    have "ba_id (merge_account old new current) = ba_id old" using get_row_Some_mem[OF Some] by simp
    then have "get_row ba_id i (put_row ba_id (merge_account old new current) (accounts s)) = get_row ba_id i (accounts s)"
      using False by (intro get_put_other) simp
    then show ?thesis using assms(1) Some by (simp add: store_account_def account_disabled_def)
  qed (use assms(1) in \<open>simp add: store_account_def\<close>)
qed

lemma append_account_disabled:
  "account_disabled i s \<Longrightarrow> accounts s' = accounts s @ as \<Longrightarrow> account_disabled i s'"
  by (auto simp: account_disabled_def get_row_append)

lemma loaded_account:
  assumes "account_with_connection s j = Inr (a, c)"
  shows "get_row ba_id j (accounts s) = Some a \<and> ba_id a = j"
  using assms get_row_Some_mem[of ba_id j "accounts s"] by (auto simp: account_with_connection_def split: option.split_asm)

lemma loaded_disabled:
  assumes "account_with_connection s j = Inr (a, c)" "account_disabled i s" "ba_id a = i"
  shows "ba_status a = Acc_DISABLED"
  using loaded_account[OF assms(1)] assms(2,3) by (auto simp: account_disabled_def)

lemma account_of_app_disabled:
  assumes "account_of_app c app s = Some a" "account_disabled i s" "ba_id a = i" "unique_by ba_id (accounts s)"
  shows "ba_status a = Acc_DISABLED"
proof -
  have "a \<in> set (accounts s)" using assms(1) get_row_Some_mem by (fastforce simp: account_of_app_def)
  then have "get_row ba_id i (accounts s) = Some a" using assms(3,4) by (simp add: get_row_unique)
  then show ?thesis using assms(2) by (auto simp: account_disabled_def)
qed

lemma account_step_disabled:
  assumes "account_step E l s s'" "account_disabled i s" "unique_by ba_id (accounts s)" "l \<noteq> Some i"
  shows "account_disabled i s'"
  using assms(1)
proof cases
  case (Registered c p r)
  then show ?thesis using assms(2)
    by (auto simp: register_manual_def result_simps Let_def alloc_def split: option.split_asm if_split_asm
        intro: append_account_disabled store_account_disabled)
next
  case (Qr_Code c qr now r')
  then show ?thesis using assms(2,3)
    by (auto simp: get_login_qr_code_def result_simps Let_def alloc_def split: option.split_asm if_split_asm
        intro: append_account_disabled intro!: store_account_disabled dest: account_of_app_disabled)
next
  case (Login_Checked j status now r'')
  then show ?thesis using assms(2)
    by (auto simp: check_login_def result_simps split: if_split_asm intro!: store_account_disabled dest: loaded_disabled)
next
  case (Online_Checked j answer now r1)
  then show ?thesis using assms(2)
    by (auto simp: check_online_def result_simps Let_def split: if_split_asm intro!: store_account_disabled dest: loaded_disabled)
next
  case (Reconnected j reconnected now r2)
  then show ?thesis using assms(2)
    by (auto simp: reconnect_def result_simps Let_def split: if_split_asm intro!: store_account_disabled dest: loaded_disabled)
next
  case (Disabled j a)
  then show ?thesis using assms(2) by (auto simp: set_disabled_def result_simps Let_def intro!: store_account_disabled)
next
  case (Enabled j a)
  then show ?thesis using assms(2,4)
    by (auto simp: set_disabled_def result_simps Let_def intro!: store_account_disabled dest: loaded_account)
next
  case Other_Tables
  then show ?thesis using assms(2) by (simp add: account_disabled_def)
qed

lemma account_history_disabled:
  "account_history E i s s' \<Longrightarrow> account_disabled i s \<Longrightarrow> unique_by ba_id (accounts s) \<Longrightarrow>
     account_disabled i s' \<and> unique_by ba_id (accounts s')"
  by (induction rule: account_history.induct) (auto intro: account_step_disabled)

lemma disabled_evaluation:
  assumes "account_disabled (rq_bot_account_id q) s" "evaluate q now s = Inr (d, s')"
  shows "\<not> dv_allowed d"
  using assms
  by (auto simp: evaluate_def account_in_workspace_def account_disabled_def record_decision_def Let_def
      split: option.split_asm if_split_asm)

lemma disabled_send:
  assumes "account_disabled (om_bot_account_id m) s" "get_row om_id i (outbox s) = Some m"
    "prepare_send E o' i now now' s = Inr (p, s')"
  shows "p = None"
proof (cases rule: prepare_send_cases[of E o' i now now' s])
  case (ready m' p' ds)
  then show ?thesis using assms by (auto simp: send_ready_def account_disabled_def)
qed (use assms in \<open>auto simp: refused_send_def\<close>)


text \<open>
  A check of the connection that overlaps with the disabling of the account undoes it: if the
  account is disabled and the change committed while the provider is asked, and the answer differs
  from the state that was loaded before, the account is online or offline afterwards.
\<close>

theorem overlapping_check_revives_account:
  assumes "account_with_connection s i = Inr (a, c)" "ba_status a \<noteq> Acc_DISABLED" "gewe_client E c = Inr ()"
    and "ba_status a \<noteq> (if online then Acc_ONLINE else Acc_OFFLINE)"
  defines "disable \<equiv> \<lambda>s. case set_disabled i True s of Inl e \<Rightarrow> s | Inr (d, s1) \<Rightarrow> s1"
  shows "account_disabled i (disable s) \<and>
    (\<exists>r s'. check_online E i (Inr online) now disable s = Inr (r, s') \<and>
       (\<exists>b. get_row ba_id i (accounts s') = Some b \<and> ba_status b = (if online then Acc_ONLINE else Acc_OFFLINE)))"
proof -
  have a: "get_row ba_id i (accounts s) = Some a" "ba_id a = i" using loaded_account[OF assms(1)] by simp_all
  let ?a = "a\<lparr>ba_status := Acc_DISABLED, ba_pending_login_uuid := None, ba_qr_expires_at := None\<rparr>"
  have d: "disable s = store_account a ?a s" using assms(1) by (simp add: disable_def set_disabled_def Let_def)
  then have acc: "accounts (disable s) = put_row ba_id (merge_account a ?a a) (accounts s)"
    using a by (simp add: store_account_def)
  have i: "ba_id (merge_account a ?a a) = i" using a by simp
  have got: "get_row ba_id i (accounts (disable s)) = Some (merge_account a ?a a)"
    using get_put_same[of ba_id "merge_account a ?a a" "accounts s", unfolded i] a(1) acc by simp
  have dis: "ba_status (merge_account a ?a a) = Acc_DISABLED" using assms(2) by (simp add: merge_account_def changed_def)
  let ?b = "a\<lparr>ba_last_status_checked_at := Some now, ba_status := (if online then Acc_ONLINE else Acc_OFFLINE),
      ba_last_online_at := (if online then Some now else ba_last_online_at a), ba_last_status_error := None\<rparr>"
  let ?m = "merge_account a ?b (merge_account a ?a a)"
  have st: "ba_status ?m = (if online then Acc_ONLINE else Acc_OFFLINE)" using assms(4) by (simp add: merge_account_def changed_def)
  have im: "ba_id ?m = i" using a by simp
  have "check_online E i (Inr online) now disable s = Inr ((?b, online), store_account a ?b (disable s))"
    using assms(1-3) by (simp add: check_online_def Let_def)
  moreover have "get_row ba_id i (accounts (store_account a ?b (disable s))) = Some ?m"
    using got a get_put_same[of ba_id ?m "accounts (disable s)", unfolded im] by (simp add: store_account_def)
  ultimately show ?thesis using got dis st by (auto simp: account_disabled_def)
qed

section \<open>Samples\<close>

definition disabled_sample :: db where
  "disabled_sample = (sample_db [])\<lparr>accounts := [sample_account\<lparr>ba_status := Acc_DISABLED\<rparr>]\<rparr>"


theorem overlapping_check_revives_account_witness:
  "\<exists>r s' b. check_online sample_env 3 (Inr False) 9
       (\<lambda>s. case set_disabled 3 True s of Inl e \<Rightarrow> s | Inr (d, s1) \<Rightarrow> s1) (sample_db []) = Inr (r, s') \<and>
     get_row ba_id 3 (accounts s') = Some b \<and> ba_status b = Acc_OFFLINE"
proof -
  have "account_with_connection (sample_db []) 3 = Inr (sample_account, sample_connection)"
    "gewe_client sample_env sample_connection = Inr ()" "ba_status sample_account = Acc_ONLINE"
    by (simp_all add: account_with_connection_def gewe_client_def check_that_def sample_defs get_row_def)
  then show ?thesis using overlapping_check_revives_account[of "sample_db []" 3 sample_account sample_connection sample_env False 9]
    by auto
qed

end
