(* ===== verification/Connections.thy ===== *)
theory Connections
  imports Webhook Gewe_Client Auth
begin

text \<open>
  The connections to the provider (\<open>connections/service.py\<close>, \<open>connections/schemas.py\<close>): the
  single workspace they live in, creation, rotation of the token, the callback's mode and its
  installation at the provider.  Encryption, random tokens and the provider's answer are
  parameters.
\<close>

section \<open>Environment\<close>

text \<open>
  Encryption is randomised and tokens are random: both take the number of the draw.
\<close>

record connection_env =
  cn_lib :: env
  cn_encrypt :: "nat \<Rightarrow> string \<Rightarrow> string"
  cn_token_urlsafe :: "nat \<Rightarrow> string"
  cn_public_base_url :: string

datatype connection_error =
    ConnectionNotFound
  | DuplicateConnection string
  | SingleWorkspaceViolation string
  | CallbackMode string
  | ConnectionValueError string
  | CredentialDecryption
  | ConnectionGewe gewe_error

definition draw :: "db \<Rightarrow> nat \<times> db" where
  "draw s = (next_id s, s\<lparr>next_id := Suc (next_id s)\<rparr>)"

definition encrypt_text :: "connection_env \<Rightarrow> string \<Rightarrow> db \<Rightarrow> (connection_error, string \<times> db) res" where
  "encrypt_text C plain s =
     (if plain = [] then Inl (ConnectionValueError ''credential cannot be empty'')
      else let (n, s1) = draw s in Inr (cn_encrypt C n plain, s1))"

definition decrypt_text :: "connection_env \<Rightarrow> string \<Rightarrow> (connection_error, string) res" where
  "decrypt_text C ciphertext = of_option CredentialDecryption (fernet_decrypt (cn_lib C) ciphertext)"

definition fingerprint :: "connection_env \<Rightarrow> string \<Rightarrow> string" where
  "fingerprint C secret = take 16 (sha256_hex (cn_lib C) secret)"

section \<open>Requests\<close>

text \<open>A URL as the validation library parses it.\<close>

record http_url =
  hu_text :: string
  hu_username :: "string option"
  hu_password :: "string option"

record connection_create =
  cc_workspace_slug :: string
  cc_workspace_name :: string
  cc_name :: string
  cc_api_base_url :: http_url
  cc_token :: string

definition strip_nonempty_text :: "nat \<Rightarrow> string \<Rightarrow> string option" where
  "strip_nonempty_text limit v =
     (if \<not> (1 \<le> length v \<and> length v \<le> limit) then None else if strip v = [] then None else Some (strip v))"

definition validate_connection_create :: "connection_create \<Rightarrow> connection_create option" where
  "validate_connection_create p =
     (case (strip_nonempty_text 80 (cc_workspace_slug p), strip_nonempty_text 120 (cc_workspace_name p),
            strip_nonempty_text 120 (cc_name p)) of
        (Some slug, Some wname, Some name) \<Rightarrow>
          if hu_username (cc_api_base_url p) \<noteq> None \<or> hu_password (cc_api_base_url p) \<noteq> None then None
          else Some (p\<lparr>cc_workspace_slug := slug, cc_workspace_name := wname, cc_name := name\<rparr>)
      | _ \<Rightarrow> None)"

text \<open>\<open>rstrip("/")\<close>.\<close>

definition without_final_slashes :: "string \<Rightarrow> string" where
  "without_final_slashes t = rev (dropWhile (\<lambda>c. c = CHR ''/'') (rev t))"

section \<open>The workspace\<close>

definition assert_single_workspace :: "db \<Rightarrow> (connection_error, unit) res" where
  "assert_single_workspace s = check_that (length (workspaces s) \<le> 1)
     (SingleWorkspaceViolation ''database contains multiple workspaces, but this release supports exactly one'')"

definition one_workspace_message :: string where
  "one_workspace_message = ''this deployment supports one workspace; use the existing workspace slug''"

text \<open>
  \<open>_ensure_workspace\<close>: \<open>raced\<close> are the workspaces other transactions have inserted since the
  lookups; the insertion violates a constraint if one has the same singleton key, slug or id.
\<close>

definition ensure_workspace ::
    "connection_env \<Rightarrow> string \<Rightarrow> string \<Rightarrow> workspace list \<Rightarrow> db \<Rightarrow> (connection_error, workspace \<times> db) res" where
  "ensure_workspace C slug name raced s =
     (case get_row ws_slug slug (workspaces s) of
        Some w \<Rightarrow> Inr (w, s)
      | None \<Rightarrow>
          if workspaces s \<noteq> [] then Inl (SingleWorkspaceViolation one_workspace_message)
          else let (i, s1) = alloc (cn_lib C) s;
                   w = \<lparr>ws_id = i, ws_name = name, ws_slug = slug, ws_singleton_key = 1\<rparr>;
                   s2 = s1\<lparr>workspaces := workspaces s1 @ raced\<rparr>
               in if \<exists>x\<in>set (workspaces s2). ws_singleton_key x = ws_singleton_key w \<or> ws_slug x = slug \<or> ws_id x = i
                  then (case workspaces s2 of
                      [] \<Rightarrow> Inl (SingleWorkspaceViolation one_workspace_message)
                    | x # _ \<Rightarrow> if ws_slug x = slug then Inr (x, s2) else Inl (SingleWorkspaceViolation one_workspace_message))
                  else Inr (w, s2\<lparr>workspaces := workspaces s2 @ [w]\<rparr>))"

section \<open>Views\<close>

record connection_view =
  cv_id :: uuid
  cv_workspace_id :: uuid
  cv_name :: string
  cv_api_base_url :: string
  cv_token_fingerprint :: string
  cv_callback_mode :: callback_mode
  cv_callback_url :: string
  cv_callback_expected_url :: "string option"
  cv_callback_verified_at :: "instant option"
  cv_last_callback_at :: "instant option"
  cv_last_callback_error :: "string option"
  cv_status :: connection_status

definition callback_url_of :: "connection_env \<Rightarrow> string \<Rightarrow> string" where
  "callback_url_of C secret = cn_public_base_url C @ ''/webhooks/gewe/'' @ secret"

definition callback_url :: "connection_env \<Rightarrow> gewe_connection \<Rightarrow> (connection_error, string) res" where
  "callback_url C c = bind_res (decrypt_text C (gc_callback_secret_ciphertext c)) (\<lambda>secret. Inr (callback_url_of C secret))"

definition to_view :: "connection_env \<Rightarrow> gewe_connection \<Rightarrow> (connection_error, connection_view) res" where
  "to_view C c =
     bind_res (case gc_callback_expected_url_ciphertext c of None \<Rightarrow> Inr None
       | Some x \<Rightarrow> bind_res (decrypt_text C x) (\<lambda>u. Inr (Some u))) (\<lambda>expected.
     bind_res (callback_url C c) (\<lambda>url.
       Inr \<lparr>cv_id = gc_id c, cv_workspace_id = gc_workspace_id c, cv_name = gc_name c, cv_api_base_url = gc_api_base_url c,
         cv_token_fingerprint = gc_token_fingerprint c, cv_callback_mode = gc_callback_mode c, cv_callback_url = url,
         cv_callback_expected_url = expected, cv_callback_verified_at = gc_callback_verified_at c,
         cv_last_callback_at = gc_last_callback_at c, cv_last_callback_error = gc_last_callback_error c,
         cv_status = gc_status c\<rparr>))"

section \<open>Operations\<close>

definition new_connection ::
    "connection_env \<Rightarrow> connection_create \<Rightarrow> uuid \<Rightarrow> string \<Rightarrow> string \<Rightarrow> string \<Rightarrow> uuid \<Rightarrow> gewe_connection" where
  "new_connection C p workspace token_ciphertext secret secret_ciphertext i =
     \<lparr>gc_id = i, gc_workspace_id = workspace, gc_name = cc_name p,
      gc_api_base_url = without_final_slashes (hu_text (cc_api_base_url p)),
      gc_token_ciphertext = token_ciphertext, gc_token_fingerprint = fingerprint C (cc_token p),
      gc_callback_mode = Cb_MANUAL, gc_callback_secret_ciphertext = secret_ciphertext,
      gc_callback_secret_hash = sha256_hex (cn_lib C) secret, gc_callback_expected_url_ciphertext = None,
      gc_callback_verified_at = None, gc_last_callback_at = None, gc_last_callback_error = None,
      gc_status = Conn_ACTIVE\<rparr>"

text \<open>The insertion, after which the view is made; \<open>raced\<close> are the connections inserted concurrently.\<close>

definition insert_connection ::
    "connection_env \<Rightarrow> gewe_connection \<Rightarrow> gewe_connection list \<Rightarrow> db \<Rightarrow> (connection_error, connection_view \<times> db) res" where
  "insert_connection C c raced s =
     (if \<exists>x\<in>set (connections s @ raced). (gc_workspace_id x, gc_name x) = (gc_workspace_id c, gc_name c) \<or>
           gc_callback_secret_hash x = gc_callback_secret_hash c \<or> gc_id x = gc_id c
      then Inl (DuplicateConnection ''connection already exists'')
      else bind_res (to_view C c) (\<lambda>v. Inr (v, s\<lparr>connections := connections s @ raced @ [c]\<rparr>)))"

definition create_connection ::
    "connection_env \<Rightarrow> connection_create \<Rightarrow> workspace list \<Rightarrow> gewe_connection list \<Rightarrow> db \<Rightarrow>
     (connection_error, connection_view \<times> db) res" where
  "create_connection C p raced raced_connections s =
     bind_res (ensure_workspace C (cc_workspace_slug p) (cc_workspace_name p) raced s) (\<lambda>(w, s1).
     bind_res (check_that (get_row (\<lambda>c. (gc_workspace_id c, gc_name c)) (ws_id w, cc_name p) (connections s1) = None)
       (DuplicateConnection ''connection name already exists'')) (\<lambda>_.
     bind_res (check_that (cc_token p \<noteq> []) (ConnectionValueError ''GeWe token cannot be empty'')) (\<lambda>_.
       let (n, s2) = draw s1; secret = cn_token_urlsafe C n in
     bind_res (encrypt_text C (cc_token p) s2) (\<lambda>(token_ciphertext, s3).
     bind_res (encrypt_text C secret s3) (\<lambda>(secret_ciphertext, s4).
       let (i, s5) = alloc (cn_lib C) s4
       in insert_connection C (new_connection C p (ws_id w) token_ciphertext secret secret_ciphertext i) raced_connections s5)))))"

definition get_connection :: "db \<Rightarrow> uuid \<Rightarrow> (connection_error, gewe_connection) res" where
  "get_connection s i = of_option ConnectionNotFound (get_row gc_id i (connections s))"

definition save_connection :: "connection_env \<Rightarrow> gewe_connection \<Rightarrow> db \<Rightarrow> (connection_error, connection_view \<times> db) res" where
  "save_connection C c s = bind_res (to_view C c) (\<lambda>v. Inr (v, s\<lparr>connections := put_row gc_id c (connections s)\<rparr>))"

definition rotate_token :: "connection_env \<Rightarrow> uuid \<Rightarrow> string \<Rightarrow> db \<Rightarrow> (connection_error, connection_view \<times> db) res" where
  "rotate_token C i token s =
     (if token = [] then Inl (ConnectionValueError ''GeWe token cannot be empty'')
      else bind_res (get_connection s i) (\<lambda>c.
           bind_res (encrypt_text C token s) (\<lambda>(ciphertext, s1).
             save_connection C (c\<lparr>gc_token_ciphertext := ciphertext, gc_token_fingerprint := fingerprint C token,
               gc_last_callback_error := None\<rparr>) s1)))"

definition change_mode :: "connection_env \<Rightarrow> uuid \<Rightarrow> callback_mode \<Rightarrow> db \<Rightarrow> (connection_error, connection_view \<times> db) res" where
  "change_mode C i mode s =
     bind_res (get_connection s i) (\<lambda>c. save_connection C (c\<lparr>gc_callback_mode := mode\<rparr>) s)"

definition change_status :: "connection_env \<Rightarrow> uuid \<Rightarrow> connection_status \<Rightarrow> db \<Rightarrow> (connection_error, connection_view \<times> db) res" where
  "change_status C i status s =
     bind_res (get_connection s i) (\<lambda>c. save_connection C (c\<lparr>gc_status := status\<rparr>) s)"

text \<open>
  \<open>apply_managed_callback\<close>: \<open>answer\<close> is the provider's answer to the address, which its
  request model accepts only with an HTTP scheme.
\<close>

definition apply_managed_callback ::
    "connection_env \<Rightarrow> uuid \<Rightarrow> (string \<Rightarrow> string \<Rightarrow> (gewe_error, unit) res) \<Rightarrow> db \<Rightarrow> (connection_error, connection_view \<times> db) res" where
  "apply_managed_callback C i answer s =
     bind_res (get_connection s i) (\<lambda>c.
       if gc_callback_mode c \<noteq> Cb_PLATFORM_MANAGED
       then Inl (CallbackMode ''callback can only be applied in PLATFORM_MANAGED mode'')
       else bind_res (callback_url C c) (\<lambda>url.
            bind_res (decrypt_text C (gc_token_ciphertext c)) (\<lambda>token.
            bind_res (check_that (token \<noteq> []) (ConnectionValueError ''GeWe token cannot be empty'')) (\<lambda>_.
            bind_res (check_that (startswith url ''http://'' \<or> startswith url ''https://'')
                (ConnectionValueError ''callback URL must use HTTP or HTTPS'')) (\<lambda>_.
            bind_res (map_sum ConnectionGewe id (answer token url)) (\<lambda>_.
            bind_res (encrypt_text C url s) (\<lambda>(ciphertext, s1).
              save_connection C (c\<lparr>gc_callback_expected_url_ciphertext := Some ciphertext, gc_last_callback_error := None\<rparr>) s1)))))))"

fun views_of :: "connection_env \<Rightarrow> gewe_connection list \<Rightarrow> (connection_error, connection_view list) res" where
  "views_of C [] = Inr []"
| "views_of C (c # cs) = bind_res (to_view C c) (\<lambda>v. bind_res (views_of C cs) (\<lambda>vs. Inr (v # vs)))"

definition list_connections :: "connection_env \<Rightarrow> db \<Rightarrow> (connection_error, connection_view list \<times> nat) res" where
  "list_connections C s = bind_res (views_of C (connections s)) (\<lambda>vs. Inr (vs, length (connections s)))"

section \<open>One workspace\<close>

lemma ensure_workspace_single:
  assumes "ensure_workspace C slug name raced s = Inr (w, s1)" "length (workspaces s @ raced) \<le> 1"
    "\<forall>x\<in>set raced. ws_singleton_key x = 1"
  shows "workspaces s1 = [w] \<and> connections s1 = connections s"
proof (cases "get_row ws_slug slug (workspaces s)")
  case None
  show ?thesis
  proof (cases raced)
    case Nil
    then show ?thesis using assms None
      by (auto simp: ensure_workspace_def alloc_def Let_def split: if_split_asm list.split_asm)
  next
    case (Cons x xs)
    then show ?thesis using assms None
      by (auto simp: ensure_workspace_def alloc_def Let_def split: if_split_asm list.split_asm)
  qed
next
  case (Some w')
  then have "w' \<in> set (workspaces s)" using get_row_Some_mem[OF Some] by simp
  then have "workspaces s = [w']" using assms(2) by (cases "workspaces s") auto
  then show ?thesis using assms(1) Some by (simp add: ensure_workspace_def)
qed

lemma draw_connections: "draw s = (n, s') \<Longrightarrow> connections s' = connections s \<and> workspaces s' = workspaces s"
  by (auto simp: draw_def)

lemma encrypt_text_keeps:
  "encrypt_text C x s = Inr (y, s') \<Longrightarrow> connections s' = connections s \<and> workspaces s' = workspaces s \<and> (\<exists>n. y = cn_encrypt C n x)"
  by (auto simp: encrypt_text_def draw_def Let_def split: if_split_asm)

lemma create_connection_Inr:
  assumes "create_connection C p raced raced_connections s = Inr (v, s')"
  obtains w s1 c n secret where "ensure_workspace C (cc_workspace_slug p) (cc_workspace_name p) raced s = Inr (w, s1)"
    "to_view C c = Inr v" "gc_workspace_id c = ws_id w" "gc_callback_secret_hash c = sha256_hex (cn_lib C) secret"
    "gc_callback_secret_ciphertext c = cn_encrypt C n secret"
    "\<forall>x\<in>set (connections s1 @ raced_connections). gc_id x \<noteq> gc_id c \<and> gc_callback_secret_hash x \<noteq> gc_callback_secret_hash c"
    "connections s' = connections s1 @ raced_connections @ [c]" "workspaces s' = workspaces s1"
proof -
  obtain w s1 where w: "ensure_workspace C (cc_workspace_slug p) (cc_workspace_name p) raced s = Inr (w, s1)"
    using assms by (auto simp: create_connection_def result_simps)
  obtain n s2 where n: "draw s1 = (n, s2)" by (cases "draw s1")
  let ?secret = "cn_token_urlsafe C n"
  have "get_row (\<lambda>c. (gc_workspace_id c, gc_name c)) (ws_id w, cc_name p) (connections s1) = None" "cc_token p \<noteq> []"
    using assms by (auto simp: create_connection_def w result_simps check_that_def split: if_split_asm)
  then have a1: "bind_res (encrypt_text C (cc_token p) s2) (\<lambda>(token_ciphertext, s3).
      bind_res (encrypt_text C ?secret s3) (\<lambda>(secret_ciphertext, s4). let (i, s5) = alloc (cn_lib C) s4
       in insert_connection C (new_connection C p (ws_id w) token_ciphertext ?secret secret_ciphertext i) raced_connections s5)) =
      Inr (v, s')"
    using assms by (simp add: create_connection_def w n check_that_def Let_def)
  then obtain tc s3 where tc: "encrypt_text C (cc_token p) s2 = Inr (tc, s3)" by (auto simp: result_simps)
  from a1 obtain sc s4 where sc: "encrypt_text C ?secret s3 = Inr (sc, s4)" by (auto simp: tc result_simps)
  obtain i s5 where i: "alloc (cn_lib C) s4 = (i, s5)" by (cases "alloc (cn_lib C) s4")
  let ?c = "new_connection C p (ws_id w) tc ?secret sc i"
  obtain m where m: "sc = cn_encrypt C m ?secret" using encrypt_text_keeps[OF sc] by blast
  have s5: "connections s5 = connections s1" "workspaces s5 = workspaces s1"
    using encrypt_text_keeps[OF sc] encrypt_text_keeps[OF tc] draw_connections[OF n] i by (auto simp: alloc_def)
  have ins: "insert_connection C ?c raced_connections s5 = Inr (v, s')" using a1 by (simp add: tc sc i)
  have c: "gc_workspace_id ?c = ws_id w" "gc_callback_secret_hash ?c = sha256_hex (cn_lib C) ?secret"
    "gc_callback_secret_ciphertext ?c = cn_encrypt C m ?secret" by (simp_all add: new_connection_def m)
  have free: "\<forall>x\<in>set (connections s1 @ raced_connections). gc_id x \<noteq> gc_id ?c \<and> gc_callback_secret_hash x \<noteq> gc_callback_secret_hash ?c"
    using ins unfolding s5[symmetric] by (auto simp: insert_connection_def split: if_split_asm)
  have "to_view C ?c = Inr v" "s' = s5\<lparr>connections := connections s5 @ raced_connections @ [?c]\<rparr>"
    using ins by (auto simp: insert_connection_def result_simps split: if_split_asm)
  then show thesis using s5 by (intro that[OF w _ c free]) simp_all
qed

text \<open>
  A connection is created in the one workspace of the deployment, the existing one, the one
  of a concurrent request with the same slug, or a new one; no creation ever adds a second.
\<close>

theorem create_connection_single_workspace:
  assumes "create_connection C p raced raced_connections s = Inr (v, s')"
    and "length (workspaces s @ raced) \<le> 1" "\<forall>x\<in>set raced. ws_singleton_key x = 1"
  shows "\<exists>w. workspaces s' = [w] \<and> cv_workspace_id v = ws_id w \<and> assert_single_workspace s' = Inr () \<and>
    (\<forall>x\<in>set (workspaces s @ raced). w = x)"
proof -
  obtain w s1 c n secret where w: "ensure_workspace C (cc_workspace_slug p) (cc_workspace_name p) raced s = Inr (w, s1)"
    and c: "to_view C c = Inr v" "gc_workspace_id c = ws_id w" and s': "workspaces s' = workspaces s1"
    by (rule create_connection_Inr[OF assms(1)])
  note one = ensure_workspace_single[OF w assms(2,3)]
  have "cv_workspace_id v = gc_workspace_id c" using c(1) by (auto simp: to_view_def result_simps)
  moreover have "set (workspaces s @ raced) \<subseteq> set (workspaces s1)"
  proof (cases "workspaces s")
    case Nil
    then show ?thesis using w by (auto simp: ensure_workspace_def alloc_def Let_def split: if_split_asm list.split_asm)
  next
    case (Cons x xs)
    then have "raced = []" using assms(2) by simp
    then show ?thesis using w Cons by (auto simp: ensure_workspace_def split: option.split_asm)
  qed
  ultimately show ?thesis using one c(2) s' by (auto simp: assert_single_workspace_def check_that_def)
qed

section \<open>Histories of the connections\<close>

text \<open>
  The transactions that write connections, the callbacks received included, and any other, which
  leaves them alone.  Every state satisfies the unique constraints.
\<close>

inductive connection_step :: "connection_env \<Rightarrow> db \<Rightarrow> db \<Rightarrow> bool" for C where
  Connection_Created: "create_connection C p raced rcs s = Inr (v, s') \<Longrightarrow> connection_step C s s'"
| Token_Rotated: "rotate_token C i token s = Inr (v, s') \<Longrightarrow> connection_step C s s'"
| Mode_Changed: "change_mode C i mode s = Inr (v, s') \<Longrightarrow> connection_step C s s'"
| Status_Changed: "change_status C i status s = Inr (v, s') \<Longrightarrow> connection_step C s s'"
| Callback_Applied: "apply_managed_callback C i answer s = Inr (v, s') \<Longrightarrow> connection_step C s s'"
| Callback_Received: "ingest_gewe_webhook (cn_lib C) secret raw payload now clock racedi s = Inr (r, s') \<Longrightarrow> connection_step C s s'"
| Others: "connections s' = connections s \<Longrightarrow> connection_step C s s'"

definition connections_unique :: "db \<Rightarrow> bool" where
  "connections_unique s \<longleftrightarrow> unique_by gc_id (connections s) \<and> unique_by gc_callback_secret_hash (connections s)"

inductive connection_history :: "connection_env \<Rightarrow> db \<Rightarrow> db \<Rightarrow> bool" for C where
  At_Start: "connection_history C s s"
| Went_On: "connection_history C s s1 \<Longrightarrow> connection_step C s1 s2 \<Longrightarrow> connections_unique s2 \<Longrightarrow> connection_history C s s2"

definition same_callback :: "gewe_connection \<Rightarrow> gewe_connection \<Rightarrow> bool" where
  "same_callback c d \<longleftrightarrow> gc_id d = gc_id c \<and> gc_callback_secret_ciphertext d = gc_callback_secret_ciphertext c \<and>
     gc_callback_secret_hash d = gc_callback_secret_hash c"

text \<open>Every connection is still there, with its callback.\<close>

definition keeps_callbacks :: "db \<Rightarrow> db \<Rightarrow> bool" where
  "keeps_callbacks s s' \<longleftrightarrow> (\<forall>i c. get_row gc_id i (connections s) = Some c \<longrightarrow>
     (\<exists>d. get_row gc_id i (connections s') = Some d \<and> same_callback c d))"

lemma keeps_callbacks_refl: "connections s' = connections s \<Longrightarrow> keeps_callbacks s s'"
  by (simp add: keeps_callbacks_def same_callback_def)

lemma keeps_callbacks_append: "connections s' = connections s @ cs \<Longrightarrow> keeps_callbacks s s'"
  by (simp add: keeps_callbacks_def same_callback_def get_row_append)

lemma keeps_callbacks_trans: "keeps_callbacks s s1 \<Longrightarrow> keeps_callbacks s1 s2 \<Longrightarrow> keeps_callbacks s s2"
  unfolding keeps_callbacks_def same_callback_def by metis

lemma keeps_callbacks_put:
  assumes "get_row gc_id j (connections s) = Some c" "same_callback c d" "connections s' = put_row gc_id d (connections s)"
  shows "keeps_callbacks s s'"
proof -
  have j: "gc_id d = j" using assms(1,2) get_row_Some_mem[OF assms(1)] by (simp add: same_callback_def)
  have "\<exists>d'. get_row gc_id i (connections s') = Some d' \<and> same_callback c' d'"
    if "get_row gc_id i (connections s) = Some c'" for i c'
  proof (cases "i = j")
    case True
    then show ?thesis using that assms get_put_same[of gc_id d "connections s"] j by simp
  next
    case False
    then show ?thesis using that assms get_put_other[of i gc_id d "connections s"] j by (simp add: same_callback_def)
  qed
  then show ?thesis unfolding keeps_callbacks_def by blast
qed

lemma save_connection_keeps:
  assumes "save_connection C d s1 = Inr (v, s')" "get_connection s i = Inr c" "same_callback c d" "connections s1 = connections s"
  shows "keeps_callbacks s s'"
  using assms by (intro keeps_callbacks_put[of i s c d])
    (auto simp: save_connection_def get_connection_def result_simps of_option_def split: option.split_asm)

lemma ingest_connections:
  assumes "ingest_gewe_webhook E secret raw payload now clock raced s = Inr (r, s')"
  shows "\<exists>c. get_row gc_callback_secret_hash (sha256_hex E secret) (connections s) = Some c \<and>
    connections s' = put_row gc_id (touch_connection c now) (connections s)"
  using assms
  by (auto simp: ingest_gewe_webhook_def Let_def alloc_def split: option.split_asm if_split_asm)

lemma connection_step_keeps:
  assumes "connection_step C s s'" "connections_unique s"
  shows "keeps_callbacks s s'"
  using assms(1)
proof cases
  case (Connection_Created p raced rcs v)
  obtain w s1 c n secret where w: "ensure_workspace C (cc_workspace_slug p) (cc_workspace_name p) raced s = Inr (w, s1)"
    and s': "connections s' = connections s1 @ rcs @ [c]"
    by (rule create_connection_Inr[OF Connection_Created])
  have "connections s1 = connections s" using w
    by (auto simp: ensure_workspace_def alloc_def Let_def split: option.split_asm if_split_asm list.split_asm)
  then show ?thesis using s' by (intro keeps_callbacks_append) simp
next
  case (Token_Rotated i token v)
  then show ?thesis
    by (auto simp: rotate_token_def result_simps same_callback_def dest: encrypt_text_keeps elim!: save_connection_keeps split: if_split_asm)
next
  case (Mode_Changed i mode v)
  then show ?thesis by (auto simp: change_mode_def result_simps same_callback_def elim!: save_connection_keeps)
next
  case (Status_Changed i status v)
  then show ?thesis by (auto simp: change_status_def result_simps same_callback_def elim!: save_connection_keeps)
next
  case (Callback_Applied i answer v)
  then show ?thesis
    by (auto simp: apply_managed_callback_def result_simps same_callback_def dest: encrypt_text_keeps elim!: save_connection_keeps
        split: if_split_asm)
next
  case (Callback_Received secret raw payload now clock racedi r)
  obtain c where c: "get_row gc_callback_secret_hash (sha256_hex (cn_lib C) secret) (connections s) = Some c"
    "connections s' = put_row gc_id (touch_connection c now) (connections s)"
    using ingest_connections[OF Callback_Received] by blast
  have "get_row gc_id (gc_id c) (connections s) = Some c"
    using get_row_Some_mem[OF c(1)] assms(2) by (auto simp: connections_unique_def intro: get_row_unique)
  from this _ c(2) show ?thesis by (rule keeps_callbacks_put) (simp add: same_callback_def touch_connection_def)
next
  case Others
  then show ?thesis by (rule keeps_callbacks_refl)
qed

lemma connection_history_keeps:
  "connection_history C s s' \<Longrightarrow> connections_unique s \<Longrightarrow> keeps_callbacks s s' \<and> connections_unique s'"
  by (induction rule: connection_history.induct)
    (auto intro: keeps_callbacks_refl keeps_callbacks_trans connection_step_keeps)

text \<open>
  C18: The callback URL a connection is created with stays valid: after any later rotation of the
  token, change of mode or status, installation or callback, the connection shows the same URL, and
  a callback received at it is accepted as one of this connection.
\<close>

theorem callback_url_reaches_connection:
  assumes created: "create_connection C p raced rcs s = Inr (v, s1)" and ok: "connections_unique s1"
    and cipher: "\<And>n x. fernet_decrypt (cn_lib C) (cn_encrypt C n x) = Some x"
    and later: "connection_history C s1 s2"
  shows "\<exists>secret c. cv_callback_url v = callback_url_of C secret \<and>
    get_row gc_id (cv_id v) (connections s2) = Some c \<and> callback_url C c = Inr (cv_callback_url v) \<and>
    ingest_gewe_webhook (cn_lib C) secret raw payload now clock racedi s2 \<noteq> Inl UnknownWebhookSecret \<and>
    (\<forall>r s3. ingest_gewe_webhook (cn_lib C) secret raw payload now clock racedi s2 = Inr (r, s3) \<longrightarrow>
       connections s3 = put_row gc_id (touch_connection c now) (connections s2))"
proof -
  obtain w c n secret and s0 :: db where c: "to_view C c = Inr v" "gc_callback_secret_hash c = sha256_hex (cn_lib C) secret"
      "gc_callback_secret_ciphertext c = cn_encrypt C n secret"
    and s1: "connections s1 = connections s0 @ rcs @ [c]" by (rule create_connection_Inr[OF created]) (rule that)
  have url: "callback_url C c = Inr (callback_url_of C secret)"
    by (simp add: callback_url_def decrypt_text_def c(3) cipher)
  then have v: "cv_callback_url v = callback_url_of C secret" "cv_id v = gc_id c"
    using c(1) by (auto simp: to_view_def result_simps)
  have "get_row gc_id (gc_id c) (connections s1) = Some c"
    using ok s1 by (intro get_row_unique) (auto simp: connections_unique_def)
  then obtain d where d: "get_row gc_id (gc_id c) (connections s2) = Some d" "same_callback c d" and ok2: "connections_unique s2"
    using connection_history_keeps[OF later ok] unfolding keeps_callbacks_def by blast
  then have h: "get_row gc_callback_secret_hash (sha256_hex (cn_lib C) secret) (connections s2) = Some d"
    using get_row_Some_mem[OF d(1)] c(2) by (auto simp: connections_unique_def same_callback_def intro: get_row_unique)
  show ?thesis
  proof (intro exI[of _ secret] exI[of _ d] conjI v(1))
    show "get_row gc_id (cv_id v) (connections s2) = Some d" using d(1) v(2) by simp
    show "callback_url C d = Inr (cv_callback_url v)" using url d(2) v(1) by (simp add: callback_url_def same_callback_def)
    show "ingest_gewe_webhook (cn_lib C) secret raw payload now clock racedi s2 \<noteq> Inl UnknownWebhookSecret"
      using h by (auto simp: ingest_gewe_webhook_def Let_def alloc_def split: option.split)
    show "\<forall>r s3. ingest_gewe_webhook (cn_lib C) secret raw payload now clock racedi s2 = Inr (r, s3) \<longrightarrow>
        connections s3 = put_row gc_id (touch_connection d now) (connections s2)"
      using ingest_connections[of "cn_lib C" secret] h by fastforce
  qed
qed

section \<open>A sample\<close>

definition sample_connection_env :: connection_env where
  "sample_connection_env = \<lparr>cn_lib = sample_env, cn_encrypt = (\<lambda>n x. x), cn_token_urlsafe = (\<lambda>n. replicate n CHR ''s''),
     cn_public_base_url = ''https://bot''\<rparr>"

definition sample_creation :: connection_create where
  "sample_creation = \<lparr>cc_workspace_slug = ''default'', cc_workspace_name = ''w'', cc_name = ''c'',
     cc_api_base_url = \<lparr>hu_text = ''http://api/'', hu_username = None, hu_password = None\<rparr>, cc_token = ''t''\<rparr>"

lemma sample_created:
  obtains v s1 where "create_connection sample_connection_env sample_creation [] [] empty_db = Inr (v, s1)"
    "cv_id v = 1004" "map gc_id (connections s1) = [1004]" "map gc_callback_secret_hash (connections s1) = [''s'']"
    "map gc_callback_mode (connections s1) = [Cb_MANUAL]"
proof -
  have "\<exists>v s1. create_connection sample_connection_env sample_creation [] [] empty_db = Inr (v, s1) \<and>
    cv_id v = 1004 \<and> map gc_id (connections s1) = [1004] \<and> map gc_callback_secret_hash (connections s1) = [''s''] \<and>
    map gc_callback_mode (connections s1) = [Cb_MANUAL]"
    by (simp add: create_connection_def ensure_workspace_def sample_connection_env_def sample_creation_def empty_db_def
        sample_env_def alloc_def draw_def encrypt_text_def decrypt_text_def insert_connection_def new_connection_def to_view_def
        callback_url_def check_that_def Let_def)
  then show thesis by (elim exE conjE) (rule that)
qed

theorem callback_url_reaches_connection_witness:
  "\<exists>v s1 secret. create_connection sample_connection_env sample_creation [] [] empty_db = Inr (v, s1) \<and>
     cv_callback_url v = callback_url_of sample_connection_env secret \<and>
     ingest_gewe_webhook sample_env secret [1] (JObj []) 5 6 [] s1 \<noteq> Inl UnknownWebhookSecret"
proof -
  obtain v s1 where s1: "create_connection sample_connection_env sample_creation [] [] empty_db = Inr (v, s1)"
    "map gc_id (connections s1) = [1004]" "map gc_callback_secret_hash (connections s1) = [''s'']" by (rule sample_created)
  have ok: "connections_unique s1" unfolding connections_unique_def unique_by_def s1(2,3) by simp
  have cipher: "fernet_decrypt (cn_lib sample_connection_env) (cn_encrypt sample_connection_env n x) = Some x" for n x
    by (simp add: sample_connection_env_def sample_env_def)
  have lib: "cn_lib sample_connection_env = sample_env" by (simp add: sample_connection_env_def)
  from callback_url_reaches_connection[OF s1(1) ok cipher At_Start, of "[1]" "JObj []" 5 6 "[]"] s1(1)
  show ?thesis unfolding lib by blast
qed

theorem create_connection_single_workspace_witness:
  "\<exists>v s1 w. create_connection sample_connection_env sample_creation [] [] empty_db = Inr (v, s1) \<and> workspaces s1 = [w]"
proof -
  obtain v s1 where s1: "create_connection sample_connection_env sample_creation [] [] empty_db = Inr (v, s1)"
    by (rule sample_created)
  from create_connection_single_workspace[OF s1] s1 show ?thesis by (auto simp: empty_db_def)
qed

end
