(* ===== verification/Plugin_Process.thy ===== *)
theory Plugin_Process
  imports Prelude "HOL-Library.AList"
begin

text \<open>
  The process a plugin runs in: the runner inside it (\<open>plugins/runner.py\<close>), the host's end of
  the line protocol and the life of the process (\<open>PluginProcess\<close> of
  \<open>plugins/supervisor.py\<close>).  The plugin's code is a parameter; a line of the protocol is its
  length and the document \<open>json.loads\<close> reads from it.
\<close>

section \<open>The environment of the process\<close>

definition plugin_env_allowlist :: "string list" where
  "plugin_env_allowlist = [''COMSPEC'', ''LANG'', ''LC_ALL'', ''LC_CTYPE'', ''PATH'', ''PATHEXT'', ''SYSTEMROOT'',
     ''TEMP'', ''TMP'', ''TMPDIR'', ''TZ'', ''WINDIR'']"

text \<open>
  \<open>str.upper\<close> on the characters the development covers; the two whose upper case lies outside
  them stay, which no allowed name contains.
\<close>

definition upper_char :: "char \<Rightarrow> string" where
  "upper_char c = (let n = (of_char c :: nat) in
     if 97 \<le> n \<and> n \<le> 122 then [char_of (n - 32)]
     else if n = 223 then ''SS''
     else if 224 \<le> n \<and> n \<le> 254 \<and> n \<noteq> 247 then [char_of (n - 32)]
     else [c])"

definition py_upper :: "string \<Rightarrow> string" where
  "py_upper s = concat (map upper_char s)"

definition plugin_subprocess_environment :: "(string \<times> string) list \<Rightarrow> (string \<times> string) list" where
  "plugin_subprocess_environment environment =
     AList.update ''PYTHONUTF8'' ''1'' (AList.update ''PYTHONIOENCODING'' ''utf-8''
       (filter (\<lambda>(key, value). py_upper key \<in> set plugin_env_allowlist) environment))"

section \<open>The runner\<close>

definition max_protocol_line_bytes :: nat where
  "max_protocol_line_bytes = 1048576"

text \<open>
  The code of a plugin: importing and building it, its attributes, and its methods, which may
  change its state; a result that cannot be written as JSON counts as a failure.
\<close>

datatype attribute = Attr_Missing | Attr_Not_Callable | Attr_Callable

datatype call_outcome = Call_Raised | Call_Returned json | Call_Unserialisable

record 'p plugin_code =
  pc_load :: "'p option"
  pc_attr :: "'p \<Rightarrow> string \<Rightarrow> attribute"
  pc_call :: "'p \<Rightarrow> string \<Rightarrow> json list \<Rightarrow> call_outcome \<times> 'p"

record 'p runner =
  rn_plugin :: "'p option"
  rn_shutdown_requested :: bool

definition required_call :: "'p plugin_code \<Rightarrow> string \<Rightarrow> json list \<Rightarrow> 'p \<Rightarrow> call_outcome \<times> 'p" where
  "required_call P name args p = (if pc_attr P p name = Attr_Callable then pc_call P p name args else (Call_Raised, p))"

definition optional_call :: "'p plugin_code \<Rightarrow> string \<Rightarrow> json list \<Rightarrow> 'p \<Rightarrow> call_outcome \<times> 'p" where
  "optional_call P name args p =
     (case pc_attr P p name of Attr_Missing \<Rightarrow> (Call_Returned JNull, p) | Attr_Not_Callable \<Rightarrow> (Call_Raised, p)
      | Attr_Callable \<Rightarrow> pc_call P p name args)"

definition get_or :: "json \<Rightarrow> string \<Rightarrow> json \<Rightarrow> json" where
  "get_or j key absent = (case json_lookup j key of None \<Rightarrow> absent | Some v \<Rightarrow> v)"

definition status_json :: "string \<Rightarrow> json" where
  "status_json s = JObj [(''status'', JStr s)]"

definition dispatch_method :: "'p plugin_code \<Rightarrow> string \<Rightarrow> json \<Rightarrow> 'p runner \<Rightarrow> call_outcome \<times> 'p runner" where
  "dispatch_method P method params r =
     (if method = ''initialize'' then
        (case rn_plugin r of Some p \<Rightarrow> (Call_Raised, r)
         | None \<Rightarrow>
             (case pc_load P of None \<Rightarrow> (Call_Raised, r)
              | Some p0 \<Rightarrow>
                  let (out, p) = optional_call P ''startup'' [get_or params ''config'' (JObj [])] p0
                  in (if out = Call_Raised then Call_Raised else Call_Returned (status_json ''ready''), r\<lparr>rn_plugin := Some p\<rparr>)))
      else (case rn_plugin r of None \<Rightarrow> (Call_Raised, r)
        | Some p0 \<Rightarrow>
            if method = ''health'' then
              let (out, p) = optional_call P ''health'' [] p0
              in (if out = Call_Returned JNull then Call_Returned (status_json ''ok'') else out, r\<lparr>rn_plugin := Some p\<rparr>)
            else if method = ''handle_event'' then
              let (out, p) = required_call P ''handle_event'' [get_or params ''event'' (JObj [])] p0
              in (out, r\<lparr>rn_plugin := Some p\<rparr>)
            else if method = ''invoke_tool'' then
              let (out, p) = required_call P ''invoke_tool''
                    [json_get params ''tool_name'', get_or params ''arguments'' (JObj []), get_or params ''context'' (JObj [])] p0
              in (out, r\<lparr>rn_plugin := Some p\<rparr>)
            else if method = ''shutdown'' then
              let (out, p) = optional_call P ''shutdown'' [] p0
              in if out = Call_Raised then (Call_Raised, r\<lparr>rn_plugin := Some p\<rparr>)
                 else (Call_Returned (status_json ''stopped''), r\<lparr>rn_plugin := Some p, rn_shutdown_requested := True\<rparr>)
            else (Call_Raised, r)))"

definition error_response :: "json \<Rightarrow> string \<Rightarrow> json" where
  "error_response i e = JObj [(''id'', i), (''ok'', JBool False), (''error'', JStr e)]"

definition ok_response :: "json \<Rightarrow> json \<Rightarrow> json" where
  "ok_response i result = JObj [(''id'', i), (''ok'', JBool True), (''result'', result)]"

definition runner_handle :: "'p plugin_code \<Rightarrow> json \<Rightarrow> 'p runner \<Rightarrow> json \<times> 'p runner" where
  "runner_handle P request r =
     (let request_id = json_get request ''id''; params = get_or request ''params'' (JObj []) in
      case (request_id, json_get request ''method'') of
        (JStr _, JStr method) \<Rightarrow>
          if \<not> is_obj params then (error_response request_id ''params must be an object'', r)
          else (case dispatch_method P method params r of
              (Call_Returned result, r') \<Rightarrow> (ok_response request_id result, r')
            | (_, r') \<Rightarrow> (error_response request_id ''plugin call failed'', r'))
      | _ \<Rightarrow> (error_response request_id ''invalid request envelope'', r))"

record wire_line =
  wl_length :: nat
  wl_json :: "json option"

definition runner_line :: "'p plugin_code \<Rightarrow> wire_line \<Rightarrow> 'p runner \<Rightarrow> json \<times> 'p runner" where
  "runner_line P line r =
     (if max_protocol_line_bytes < wl_length line then (error_response JNull ''request exceeds protocol limit'', r)
      else case wl_json line of
             Some request \<Rightarrow> if is_obj request then runner_handle P request r
               else (error_response JNull ''invalid JSON request'', r)
           | None \<Rightarrow> (error_response JNull ''invalid JSON request'', r))"

section \<open>The host's end\<close>

text \<open>The sizes of a document as the host and as the runner write it, without the newline.\<close>

record wire_format =
  wf_request_size :: "json \<Rightarrow> nat"
  wf_response_size :: "json \<Rightarrow> nat"

text \<open>
  The process while the host holds it: whether it is running, whether it was terminated rather
  than left to end, the lines written to either side and not yet read, and the runner.
\<close>

record 'p plugin_process =
  pp_running :: bool
  pp_terminated :: bool
  pp_stdin :: "wire_line list"
  pp_stdout :: "wire_line list"
  pp_runner :: "'p runner"

datatype process_error = PluginProcessError string | ProcessCallCancelled

text \<open>
  How waiting for a response ends: the next line is read, the deadline passes, the line exceeds
  the reader's limit, the request could not be written, or the caller is cancelled.
\<close>

datatype delivery = Delivered | Timed_Out | Overrun | Broken_Pipe | Cancelled

definition spawned :: "'p plugin_process" where
  "spawned = \<lparr>pp_running = True, pp_terminated = False, pp_stdin = [], pp_stdout = [],
     pp_runner = \<lparr>rn_plugin = None, rn_shutdown_requested = False\<rparr>\<rparr>"

definition close_process :: "bool \<Rightarrow> 'p plugin_process \<Rightarrow> 'p plugin_process" where
  "close_process terminate c = (if pp_running c then c\<lparr>pp_running := False, pp_terminated := terminate\<rparr> else c)"

definition diagnostic :: "string list \<Rightarrow> string \<Rightarrow> string" where
  "diagnostic stderr_tail message = (if stderr_tail = [] then message else message @ ''; runner reported: '' @ last stderr_tail)"

definition request_json :: "string \<Rightarrow> string \<Rightarrow> (string \<times> json) list \<Rightarrow> json" where
  "request_json i method params = JObj [(''id'', JStr i), (''method'', JStr method), (''params'', JObj params)]"

definition request_line :: "wire_format \<Rightarrow> json \<Rightarrow> wire_line" where
  "request_line F request = \<lparr>wl_length = wf_request_size F request + 1, wl_json = Some request\<rparr>"

definition response_line :: "wire_format \<Rightarrow> json \<Rightarrow> wire_line" where
  "response_line F response = \<lparr>wl_length = wf_response_size F response + 1, wl_json = Some response\<rparr>"

text \<open>The runner works until there is a response to read.\<close>

definition runner_turn :: "wire_format \<Rightarrow> 'p plugin_code \<Rightarrow> 'p plugin_process \<Rightarrow> 'p plugin_process" where
  "runner_turn F P c =
     (if pp_stdout c \<noteq> [] \<or> rn_shutdown_requested (pp_runner c) then c
      else case pp_stdin c of [] \<Rightarrow> c
        | line # rest \<Rightarrow> let (response, r) = runner_line P line (pp_runner c)
            in c\<lparr>pp_stdin := rest, pp_stdout := [response_line F response], pp_runner := r\<rparr>)"

definition fail_call :: "string \<Rightarrow> 'p plugin_process \<Rightarrow> (process_error, json) res \<times> 'p plugin_process" where
  "fail_call message c = (Inl (PluginProcessError message), close_process True c)"

definition read_response ::
    "string \<Rightarrow> string list \<Rightarrow> wire_line \<Rightarrow> 'p plugin_process \<Rightarrow> (process_error, json) res \<times> 'p plugin_process" where
  "read_response i stderr_tail line c =
     (if wl_length line = 0 \<or> max_protocol_line_bytes < wl_length line
      then fail_call (diagnostic stderr_tail ''plugin returned no valid response'') c
      else case wl_json line of
             None \<Rightarrow> fail_call (diagnostic stderr_tail ''plugin returned invalid protocol JSON'') c
           | Some response \<Rightarrow>
               if \<not> is_obj response \<or> json_get response ''id'' \<noteq> JStr i
               then fail_call ''plugin response envelope did not match request'' c
               else if json_get response ''ok'' \<noteq> JBool True
               then (Inl (PluginProcessError (case json_get response ''error'' of JStr (x # xs) \<Rightarrow> x # xs | _ \<Rightarrow> ''plugin call failed'')), c)
               else (Inr (json_get response ''result''), c))"

definition process_call ::
    "wire_format \<Rightarrow> 'p plugin_code \<Rightarrow> string \<Rightarrow> string \<Rightarrow> (string \<times> json) list \<Rightarrow> delivery \<Rightarrow> string list \<Rightarrow> 'p plugin_process \<Rightarrow>
     (process_error, json) res \<times> 'p plugin_process" where
  "process_call F P i method params d stderr_tail c =
     (let payload = request_json i method params in
      if max_protocol_line_bytes < wf_request_size F payload
      then (Inl (PluginProcessError ''plugin request exceeds protocol limit''), c)
      else if \<not> pp_running c then (Inl (PluginProcessError ''plugin process is not running''), c)
      else if d = Broken_Pipe then fail_call (diagnostic stderr_tail ''plugin process transport failed'') c
      else let c1 = c\<lparr>pp_stdin := pp_stdin c @ [request_line F payload]\<rparr> in
           case d of
             Timed_Out \<Rightarrow> fail_call (diagnostic stderr_tail ''plugin call timed out'') c1
           | Overrun \<Rightarrow> fail_call (diagnostic stderr_tail ''plugin response exceeds protocol limit'') c1
           | Cancelled \<Rightarrow> (Inl ProcessCallCancelled, c1)
           | _ \<Rightarrow> let c2 = runner_turn F P c1 in
               (case pp_stdout c2 of
                  [] \<Rightarrow> fail_call (diagnostic stderr_tail ''plugin returned no valid response'') c2
                | line # rest \<Rightarrow> read_response i stderr_tail line (c2\<lparr>pp_stdout := rest\<rparr>)))"

section \<open>Start and stop\<close>

definition process_stop ::
    "wire_format \<Rightarrow> 'p plugin_code \<Rightarrow> bool \<Rightarrow> string \<Rightarrow> delivery \<Rightarrow> string list \<Rightarrow> 'p plugin_process \<Rightarrow> 'p plugin_process" where
  "process_stop F P force i d stderr_tail c =
     (if force then close_process True c
      else if \<not> pp_running c then c
      else case process_call F P i ''shutdown'' [] d stderr_tail c of
             (Inr _, c1) \<Rightarrow> close_process False c1 | (Inl _, c1) \<Rightarrow> close_process True c1)"

text \<open>\<open>health.get("status") not in {...}\<close> raises for a status that cannot be hashed.\<close>

definition check_health :: "json \<Rightarrow> (process_error, unit) res" where
  "check_health health =
     (if \<not> is_obj health then Inl (PluginProcessError ''plugin health check did not return ready status'')
      else case json_get health ''status'' of
             JArr _ \<Rightarrow> Inl (PluginProcessError ''unhashable type'')
           | JObj _ \<Rightarrow> Inl (PluginProcessError ''unhashable type'')
           | JStr s \<Rightarrow> check_that (s \<in> {''ok'', ''ready''}) (PluginProcessError ''plugin health check did not return ready status'')
           | _ \<Rightarrow> Inl (PluginProcessError ''plugin health check did not return ready status''))"

definition process_start ::
    "wire_format \<Rightarrow> 'p plugin_code \<Rightarrow> (string \<times> json) list \<Rightarrow> (string \<times> delivery \<times> string list) \<Rightarrow>
     (string \<times> delivery \<times> string list) \<Rightarrow> (process_error, unit) res \<times> 'p plugin_process" where
  "process_start F P config first second =
     (let (i1, d1, t1) = first; (i2, d2, t2) = second in
      case process_call F P i1 ''initialize'' [(''config'', JObj config)] d1 t1 spawned of
        (Inl e, c1) \<Rightarrow> (Inl e, process_stop F P True i1 d1 t1 c1)
      | (Inr _, c1) \<Rightarrow>
          (case process_call F P i2 ''health'' [] d2 t2 c1 of
             (Inl e, c2) \<Rightarrow> (Inl e, process_stop F P True i2 d2 t2 c2)
           | (Inr health, c2) \<Rightarrow>
               (case check_health health of Inl e \<Rightarrow> (Inl e, process_stop F P True i2 d2 t2 c2)
                | Inr _ \<Rightarrow> (Inr (), c2))))"

section \<open>Requests and their answers\<close>

type_synonym protocol_request = "string \<times> string \<times> (string \<times> json) list"

fun request_of :: "protocol_request \<Rightarrow> json" where
  "request_of (i, method, params) = request_json i method params"

abbreviation fresh_runner :: "'p runner" where
  "fresh_runner \<equiv> \<lparr>rn_plugin = None, rn_shutdown_requested = False\<rparr>"

text \<open>The runner after it has handled the requests, and the responses it has written.\<close>

fun runner_after :: "wire_format \<Rightarrow> 'p plugin_code \<Rightarrow> protocol_request list \<Rightarrow> 'p runner \<Rightarrow> 'p runner" where
  "runner_after F P [] r = r"
| "runner_after F P (q # qs) r = runner_after F P qs (snd (runner_line P (request_line F (request_of q)) r))"

fun answers :: "wire_format \<Rightarrow> 'p plugin_code \<Rightarrow> protocol_request list \<Rightarrow> 'p runner \<Rightarrow> json list" where
  "answers F P [] r = []"
| "answers F P (q # qs) r =
     (let (response, r') = runner_line P (request_line F (request_of q)) r in response # answers F P qs r')"

lemma runner_after_snoc:
  "runner_after F P (qs @ [q]) r = snd (runner_line P (request_line F (request_of q)) (runner_after F P qs r))"
  by (induction qs arbitrary: r) simp_all

lemma answers_snoc:
  "answers F P (qs @ [q]) r = answers F P qs r @ [fst (runner_line P (request_line F (request_of q)) (runner_after F P qs r))]"
  by (induction qs arbitrary: r) (simp_all add: split_def Let_def)

lemma runner_line_id:
  "json_get (fst (runner_line P (request_line F (request_of q)) r)) ''id'' \<in> {JStr (fst q), JNull}"
  by (cases q)
    (auto simp: runner_line_def runner_handle_def request_line_def request_json_def json_get_def get_or_def error_response_def
       ok_response_def Let_def split: prod.split call_outcome.split)

lemma answers_id: "x \<in> set (answers F P qs r) \<Longrightarrow> json_get x ''id'' \<in> insert JNull (JStr ` fst ` set qs)"
proof (induction qs arbitrary: r)
  case (Cons q qs)
  then show ?case using runner_line_id[of P F q r] by (auto simp: split_def Let_def)
qed simp

text \<open>
  While the process is running, what the host has written and not yet read are the requests the
  runner has not handled and the last of its responses.
\<close>

definition in_step :: "wire_format \<Rightarrow> 'p plugin_code \<Rightarrow> protocol_request list \<Rightarrow> 'p plugin_process \<Rightarrow> bool" where
  "in_step F P sent c \<longleftrightarrow> (\<exists>handled pending k. sent = handled @ pending \<and>
     pp_stdin c = map (\<lambda>q. request_line F (request_of q)) pending \<and> pp_runner c = runner_after F P handled fresh_runner \<and>
     pp_stdout c = map (response_line F) (drop k (answers F P handled fresh_runner)))"

definition writes :: "wire_format \<Rightarrow> protocol_request \<Rightarrow> delivery \<Rightarrow> 'p plugin_process \<Rightarrow> bool" where
  "writes F q d c \<longleftrightarrow> wf_request_size F (request_of q) \<le> max_protocol_line_bytes \<and> pp_running c \<and> d \<noteq> Broken_Pipe"

text \<open>
  The histories of a process: calls, one after the other because of the lock, whatever way each
  of them ends, and its closing.  The first argument lists the requests that were written.
\<close>

inductive process_history :: "wire_format \<Rightarrow> 'p plugin_code \<Rightarrow> protocol_request list \<Rightarrow> 'p plugin_process \<Rightarrow> bool" for F P where
  Process_Spawned: "process_history F P [] spawned"
| Process_Called: "process_history F P sent c \<Longrightarrow> process_call F P i method params d t c = (res, c') \<Longrightarrow>
    process_history F P (if writes F (i, method, params) d c then sent @ [(i, method, params)] else sent) c'"
| Process_Closed: "process_history F P sent c \<Longrightarrow> process_history F P sent (close_process b c)"

lemma in_step_write:
  assumes "in_step F P sent c"
  shows "in_step F P (sent @ [q]) (c\<lparr>pp_stdin := pp_stdin c @ [request_line F (request_of q)]\<rparr>)"
proof -
  obtain handled pending k where h: "sent = handled @ pending"
    "pp_stdin c = map (\<lambda>q. request_line F (request_of q)) pending" "pp_runner c = runner_after F P handled fresh_runner"
    "pp_stdout c = map (response_line F) (drop k (answers F P handled fresh_runner))"
    using assms unfolding in_step_def by blast
  then show ?thesis unfolding in_step_def
    by (intro exI[of _ handled] exI[of _ "pending @ [q]"] exI[of _ k]) simp
qed

lemma in_step_turn:
  assumes "in_step F P sent c"
  shows "in_step F P sent (runner_turn F P c)"
proof -
  obtain handled pending k where h: "sent = handled @ pending"
    "pp_stdin c = map (\<lambda>q. request_line F (request_of q)) pending" "pp_runner c = runner_after F P handled fresh_runner"
    "pp_stdout c = map (response_line F) (drop k (answers F P handled fresh_runner))"
    using assms unfolding in_step_def by blast
  show ?thesis
  proof (cases "pp_stdout c \<noteq> [] \<or> rn_shutdown_requested (pp_runner c) \<or> pp_stdin c = []")
    case True
    then have "runner_turn F P c = c" by (auto simp: runner_turn_def)
    then show ?thesis using assms by simp
  next
    case False
    then obtain q qs where q: "pending = q # qs" using h(2) by (cases pending) auto
    obtain x r where x: "runner_line P (request_line F (request_of q)) (pp_runner c) = (x, r)"
      by (cases "runner_line P (request_line F (request_of q)) (pp_runner c)")
    have turn: "runner_turn F P c = c\<lparr>pp_stdin := map (\<lambda>q. request_line F (request_of q)) qs,
        pp_stdout := [response_line F x], pp_runner := r\<rparr>"
      using False h(2) q x by (simp add: runner_turn_def)
    have "drop (length (answers F P handled fresh_runner)) (answers F P (handled @ [q]) fresh_runner) = [x]"
      using x h(3) by (simp add: answers_snoc)
    then show ?thesis unfolding in_step_def turn using h x q
      by (intro exI[of _ "handled @ [q]"] exI[of _ qs] exI[of _ "length (answers F P handled fresh_runner)"])
        (simp add: runner_after_snoc)
  qed
qed

lemma in_step_read:
  assumes "in_step F P sent c" "pp_stdout c = line # rest"
  shows "in_step F P sent (c\<lparr>pp_stdout := rest\<rparr>)"
proof -
  obtain handled pending k where h: "sent = handled @ pending"
    "pp_stdin c = map (\<lambda>q. request_line F (request_of q)) pending" "pp_runner c = runner_after F P handled fresh_runner"
    "pp_stdout c = map (response_line F) (drop k (answers F P handled fresh_runner))"
    using assms(1) unfolding in_step_def by blast
  have "rest = map (response_line F) (drop (Suc k) (answers F P handled fresh_runner))"
    using h(4) assms(2) by (metis drop_Suc drop_tl list.sel(3) map_tl)
  then show ?thesis unfolding in_step_def using h(1-3)
    by (intro exI[of _ handled] exI[of _ pending] exI[of _ "Suc k"]) simp
qed

lemma fail_call_stops: "fail_call m c = (res, c') \<Longrightarrow> \<not> pp_running c'"
  by (cases "pp_running c") (auto simp: fail_call_def close_process_def)

lemma read_response_process:
  "read_response i t line c = (res, c') \<Longrightarrow> \<not> pp_running c' \<or> c' = c"
  by (auto simp: read_response_def dest: fail_call_stops split: if_split_asm option.split_asm)

lemma process_call_in_step:
  assumes "process_call F P i method params d t c = (res, c')" "pp_running c \<longrightarrow> in_step F P sent c" "pp_running c'"
  shows "in_step F P (if writes F (i, method, params) d c then sent @ [(i, method, params)] else sent) c'"
proof (cases "writes F (i, method, params) d c")
  case False
  then have "c' = c" using assms(1,3)
    by (auto simp: process_call_def writes_def Let_def dest!: fail_call_stops split: if_split_asm)
  then show ?thesis using False assms(2,3) by simp
next
  case True
  let ?c1 = "c\<lparr>pp_stdin := pp_stdin c @ [request_line F (request_json i method params)]\<rparr>"
  let ?sent = "sent @ [(i, method, params)]"
  have c1: "in_step F P ?sent ?c1" using in_step_write[of F P sent c "(i, method, params)"] assms(2) True by (simp add: writes_def)
  have call: "process_call F P i method params d t c =
      (case d of Timed_Out \<Rightarrow> fail_call (diagnostic t ''plugin call timed out'') ?c1
       | Overrun \<Rightarrow> fail_call (diagnostic t ''plugin response exceeds protocol limit'') ?c1
       | Cancelled \<Rightarrow> (Inl ProcessCallCancelled, ?c1)
       | _ \<Rightarrow> let c2 = runner_turn F P ?c1 in
           (case pp_stdout c2 of [] \<Rightarrow> fail_call (diagnostic t ''plugin returned no valid response'') c2
            | line # rest \<Rightarrow> read_response i t line (c2\<lparr>pp_stdout := rest\<rparr>)))"
    using True by (simp add: process_call_def writes_def Let_def)
  have "in_step F P ?sent c'"
  proof (cases d)
    case Delivered
    let ?c2 = "runner_turn F P ?c1"
    have c2: "in_step F P ?sent ?c2" by (rule in_step_turn[OF c1])
    show ?thesis
    proof (cases "pp_stdout ?c2")
      case Nil
      then have "fail_call (diagnostic t ''plugin returned no valid response'') ?c2 = (res, c')"
        using assms(1) call Delivered by (simp add: Let_def)
      then show ?thesis using fail_call_stops assms(3) by blast
    next
      case (Cons line rest)
      then have "read_response i t line (?c2\<lparr>pp_stdout := rest\<rparr>) = (res, c')"
        using assms(1) call Delivered by (simp add: Let_def)
      then have "c' = ?c2\<lparr>pp_stdout := rest\<rparr>" using read_response_process assms(3) by blast
      then show ?thesis using in_step_read[OF c2 Cons] by simp
    qed
  qed (use assms(1,3) call c1 True in \<open>auto simp: writes_def dest: fail_call_stops fail_call_stops[OF sym]\<close>)
  then show ?thesis using True by simp
qed

lemma process_history_in_step: "process_history F P sent c \<Longrightarrow> pp_running c \<longrightarrow> in_step F P sent c"
proof (induction rule: process_history.induct)
  case Process_Spawned
  show ?case by (auto simp: in_step_def spawned_def)
next
  case (Process_Called sent c i m params d t res c')
  then show ?case using process_call_in_step by blast
qed (auto simp: close_process_def)

text \<open>A result the host accepts is the runner's answer to the request.\<close>

lemma accepted_result_answers:
  assumes "process_history F P sent c" "i \<notin> fst ` set sent"
    and call: "process_call F P i method params d t c = (Inr result, c')"
  shows "runner_handle P (request_json i method params) (runner_after F P sent fresh_runner) =
      (ok_response (JStr i) result, pp_runner c') \<and> pp_runner c' = runner_after F P (sent @ [(i, method, params)]) fresh_runner \<and>
    pp_running c' \<and> pp_stdin c' = [] \<and> pp_stdout c' = []"
proof -
  let ?q = "(i, method, params)"
  let ?c1 = "c\<lparr>pp_stdin := pp_stdin c @ [request_line F (request_json i method params)]\<rparr>"
  let ?c2 = "runner_turn F P ?c1"
  have small: "wf_request_size F (request_json i method params) \<le> max_protocol_line_bytes" and run: "pp_running c"
    and del: "d = Delivered"
    using call by (auto simp: process_call_def fail_call_def Let_def split: if_split_asm delivery.split_asm)
  have step: "in_step F P sent c" using process_history_in_step[OF assms(1)] run by blast
  have c2: "in_step F P (sent @ [?q]) ?c2" using in_step_turn[OF in_step_write[OF step, of ?q]] by simp
  obtain line rest where out: "pp_stdout ?c2 = line # rest"
    and read: "read_response i t line (?c2\<lparr>pp_stdout := rest\<rparr>) = (Inr result, c')"
    using call small run del by (auto simp: process_call_def fail_call_def Let_def split: list.split_asm)
  obtain response where response: "wl_json line = Some response" "json_get response ''id'' = JStr i" "is_obj response"
    "json_get response ''ok'' = JBool True" "result = json_get response ''result''" "c' = ?c2\<lparr>pp_stdout := rest\<rparr>"
    using read by (auto simp: read_response_def fail_call_def split: if_split_asm option.split_asm)
  obtain handled pending k where h: "sent = handled @ pending"
    "pp_stdin c = map (\<lambda>q. request_line F (request_of q)) pending" "pp_runner c = runner_after F P handled fresh_runner"
    "pp_stdout c = map (response_line F) (drop k (answers F P handled fresh_runner))"
    using step unfolding in_step_def by blast
  have stale: "x \<notin> set (answers F P qs fresh_runner)" if "set qs \<subseteq> set sent" "json_get x ''id'' = JStr i" for x qs
    using answers_id[of x F P qs fresh_runner] that assms(2) by auto
  have empty: "pp_stdout c = []"
  proof (rule ccontr)
    assume "pp_stdout c \<noteq> []"
    then have "line \<in> set (pp_stdout c)" using out by (simp add: runner_turn_def)
    then obtain x where "x \<in> set (answers F P handled fresh_runner)" "line = response_line F x"
      unfolding h(4) by (auto dest: in_set_dropD)
    then show False using stale[of handled x] h(1) response(1,2) by (simp add: response_line_def)
  qed
  have nodown: "\<not> rn_shutdown_requested (pp_runner c)" using out empty by (auto simp: runner_turn_def)
  obtain q qs where q: "pending @ [?q] = q # qs" by (cases pending) auto
  then have stdin: "pp_stdin ?c1 = request_line F (request_of q) # map (\<lambda>q. request_line F (request_of q)) qs"
    using h(2) by (cases pending) auto
  obtain x r where x: "runner_line P (request_line F (request_of q)) (pp_runner c) = (x, r)"
    by (cases "runner_line P (request_line F (request_of q)) (pp_runner c)")
  have turn: "?c2 = c\<lparr>pp_stdin := map (\<lambda>q. request_line F (request_of q)) qs, pp_stdout := [response_line F x], pp_runner := r\<rparr>"
    using empty nodown stdin x by (simp add: runner_turn_def)
  then have line: "line = response_line F x" "rest = []" using out by auto
  then have xr: "x = response" using response(1) by (simp add: response_line_def)
  have "fst q = i" using runner_line_id[of P F q "pp_runner c"] x xr response(2) by auto
  then have "pending = []" using q assms(2) h(1) by (cases pending) force+
  then have only: "q = ?q" "qs = []" "handled = sent" using q h(1) by auto
  have "x \<noteq> error_response JNull m" for m using xr response(2) by (auto simp: error_response_def json_get_def)
  then have handle: "runner_handle P (request_json i method params) (runner_after F P sent fresh_runner) = (response, r)"
    using x xr only h(3) by (auto simp: runner_line_def request_line_def request_json_def split: if_split_asm)
  have "response = ok_response (JStr i) result"
    using handle response(4,5)
    by (auto simp: runner_handle_def Let_def request_json_def json_get_def get_or_def ok_response_def error_response_def
        split: prod.split_asm call_outcome.split_asm)
  moreover have "r = runner_after F P (sent @ [?q]) fresh_runner" using x only h(3) by (simp add: runner_after_snoc)
  ultimately show ?thesis using handle response(6) turn only run line by simp
qed

text \<open>
  C27: A result the host accepts is the plugin's answer to the very request it belongs to, handled
  after exactly the requests written before, whatever calls were cancelled, late or failed in
  between; afterwards nothing is left on the line.
\<close>

theorem results_belong_to_their_requests:
  assumes "process_history F P sent c" "i \<notin> fst ` set sent"
    and call: "process_call F P i method params d t c = (Inr result, c')"
  shows "runner_handle P (request_json i method params) (runner_after F P sent fresh_runner) =
      (ok_response (JStr i) result, pp_runner c') \<and> pp_runner c' = runner_after F P (sent @ [(i, method, params)]) fresh_runner \<and>
    pp_running c' \<and> pp_stdin c' = [] \<and> pp_stdout c' = []"
  by (rule accepted_result_answers[OF assms])

text \<open>Once a call has failed otherwise than in the plugin, no later call is answered.\<close>

lemma stopped_process_refuses:
  "\<not> pp_running c \<Longrightarrow> process_call F P i method params d t c = (res, c') \<Longrightarrow> (\<exists>e. res = Inl e) \<and> c' = c"
  by (auto simp: process_call_def Let_def split: if_split_asm)

lemma close_process_stops [simp]: "\<not> pp_running (close_process b c)"
  by (simp add: close_process_def)

lemma process_stop_stops: "\<not> pp_running (process_stop F P force i d t c)"
  by (auto simp: process_stop_def split: prod.split sum.split)

lemma dispatch_keeps_plugin:
  "rn_plugin r \<noteq> None \<Longrightarrow> dispatch_method P method params r = (out, r') \<Longrightarrow> rn_plugin r' \<noteq> None"
  by (auto simp: dispatch_method_def Let_def split: prod.split_asm if_split_asm option.split_asm)

lemma initialized_plugin:
  "dispatch_method P ''initialize'' params r = (Call_Returned x, r') \<Longrightarrow> rn_plugin r' \<noteq> None"
  by (auto simp: dispatch_method_def Let_def split: prod.split_asm if_split_asm option.split_asm)

lemma accepted_call_writes:
  "process_call F P i method params d t c = (Inr x, c') \<Longrightarrow> writes F (i, method, params) d c"
  by (cases d) (simp_all add: process_call_def writes_def fail_call_def Let_def split: if_split_asm)

lemma handled_request:
  assumes "runner_handle P (request_json i method params) r = (ok_response j x, r')"
  shows "dispatch_method P method (JObj params) r = (Call_Returned x, r')"
  using assms
  by (auto simp: runner_handle_def Let_def request_json_def json_get_def get_or_def ok_response_def error_response_def
      split: prod.split_asm call_outcome.split_asm)

text \<open>
  Starting a process either leaves it running with the plugin loaded and healthy and nothing on
  the line, or ends it; stopping a process always ends it.
\<close>

theorem process_start_ready_or_ended:
  assumes "fst first \<noteq> fst second"
  shows "(case process_start F P config first second of
      (Inr _, c) \<Rightarrow> pp_running c \<and> rn_plugin (pp_runner c) \<noteq> None \<and> pp_stdin c = [] \<and> pp_stdout c = []
    | (Inl _, c) \<Rightarrow> \<not> pp_running c) \<and> \<not> pp_running (process_stop F P force i d t c')"
proof -
  obtain i1 d1 t1 i2 d2 t2 where fs: "first = (i1, d1, t1)" "second = (i2, d2, t2)" by (cases first; cases second)
  let ?init = "process_call F P i1 ''initialize'' [(''config'', JObj config)] d1 t1 spawned"
  obtain r1 c1 where init: "?init = (r1, c1)" by (cases ?init)
  let ?health = "process_call F P i2 ''health'' [] d2 t2 c1"
  obtain r2 c2 where health: "?health = (r2, c2)" by (cases ?health)
  have ready: "pp_running c2 \<and> rn_plugin (pp_runner c2) \<noteq> None \<and> pp_stdin c2 = [] \<and> pp_stdout c2 = []"
    if ok: "r1 = Inr a" "r2 = Inr h" for a h
  proof -
    let ?q = "(i1, ''initialize'', [(''config'', JObj config)])"
    have h0: "process_history F P [] spawned" by (rule Process_Spawned)
    note one = accepted_result_answers[OF h0 _ init[unfolded ok(1)], simplified]
    have loaded: "rn_plugin (pp_runner c1) \<noteq> None" using handled_request one initialized_plugin by blast
    obtain sent where h1: "process_history F P sent c1" "sent = [?q]"
      using Process_Called[OF h0 init] accepted_call_writes[OF init[unfolded ok(1)]] by auto
    have after: "runner_after F P sent fresh_runner = pp_runner c1" using one h1(2) by simp
    have "i2 \<notin> fst ` set sent" using h1(2) assms fs by auto
    note two = accepted_result_answers[OF h1(1) this health[unfolded ok(2)]]
    then have "rn_plugin (pp_runner c2) \<noteq> None" using handled_request after loaded dispatch_keeps_plugin by metis
    then show ?thesis using two by blast
  qed
  show ?thesis
  proof (cases r1)
    case (Inl e)
    then show ?thesis by (simp add: process_start_def fs init process_stop_stops)
  next
    case r1: (Inr a)
    show ?thesis
    proof (cases r2)
      case (Inl e)
      then show ?thesis using r1 by (simp add: process_start_def fs init health process_stop_stops)
    next
      case (Inr h)
      then show ?thesis using r1 ready[OF r1 Inr]
        by (cases "check_health h") (simp_all add: process_start_def fs init health process_stop_stops)
    qed
  qed
qed

text \<open>
  The limit is one byte tighter at the runner: it counts the newline.  A request of exactly the
  largest size the host lets through is refused there under no id, and the host ends the process.
\<close>

lemma largest_request_ends_process:
  assumes "pp_running c" "pp_stdin c = []" "pp_stdout c = []" "\<not> rn_shutdown_requested (pp_runner c)"
    and size: "wf_request_size F (request_json i method params) = max_protocol_line_bytes"
    and small: "wf_response_size F (error_response JNull ''request exceeds protocol limit'') < max_protocol_line_bytes"
  shows "\<exists>c'. process_call F P i method params Delivered t c =
      (Inl (PluginProcessError ''plugin response envelope did not match request''), c') \<and> \<not> pp_running c'"
  using assms
  by (auto simp: process_call_def runner_turn_def runner_line_def request_line_def response_line_def read_response_def fail_call_def
      error_response_def json_get_def Let_def)

section \<open>A sample plugin\<close>

definition sample_format :: wire_format where
  "sample_format = \<lparr>wf_request_size = (\<lambda>_. 100), wf_response_size = (\<lambda>_. 100)\<rparr>"

text \<open>A plugin that counts the events it is given.\<close>

definition sample_code :: "int plugin_code" where
  "sample_code = \<lparr>pc_load = Some 0, pc_attr = (\<lambda>p name. if name = ''handle_event'' then Attr_Callable else Attr_Missing),
     pc_call = (\<lambda>p name args. (Call_Returned (JInt (p + 1)), p + 1))\<rparr>"

lemmas sample_process_defs = process_start_def process_call_def spawned_def sample_format_def sample_code_def runner_turn_def
  runner_line_def request_line_def response_line_def read_response_def runner_handle_def dispatch_method_def optional_call_def
  required_call_def status_json_def check_health_def check_that_def request_json_def json_get_def get_or_def ok_response_def
  max_protocol_line_bytes_def

lemma sample_started:
  "process_start sample_format sample_code [] (''1'', Delivered, []) (''2'', Delivered, []) =
     (Inr (), \<lparr>pp_running = True, pp_terminated = False, pp_stdin = [], pp_stdout = [],
        pp_runner = \<lparr>rn_plugin = Some 0, rn_shutdown_requested = False\<rparr>\<rparr>)"
  by (simp add: sample_process_defs)

theorem process_start_ready_or_ended_witness:
  "\<exists>c. process_start sample_format sample_code [] (''1'', Delivered, []) (''2'', Delivered, []) = (Inr (), c) \<and> pp_running c"
  using process_start_ready_or_ended[of "(''1'', Delivered, [])" "(''2'', Delivered, [])" sample_format sample_code "[]"]
  by (simp add: sample_started)

theorem results_belong_to_their_requests_witness:
  "\<exists>c'. process_call sample_format sample_code ''1'' ''initialize'' [] Delivered [] spawned = (Inr (status_json ''ready''), c') \<and>
     pp_stdout c' = [] \<and> runner_handle sample_code (request_json ''1'' ''initialize'' []) fresh_runner =
       (ok_response (JStr ''1'') (status_json ''ready''), pp_runner c')"
proof -
  have "\<exists>c'. process_call sample_format sample_code ''1'' ''initialize'' [] Delivered [] spawned = (Inr (status_json ''ready''), c')"
    by (simp add: sample_process_defs)
  then obtain c' where "process_call sample_format sample_code ''1'' ''initialize'' [] Delivered [] spawned =
      (Inr (status_json ''ready''), c')" by blast
  from results_belong_to_their_requests[OF Process_Spawned _ this] this show ?thesis by simp
qed

end
