(* ===== verification/Observability.thy ===== *)
theory Observability
  imports Webhook Policy
begin

text \<open>
  The read-only views of messages and traces (\<open>observability/service.py\<close>): the messages taken in,
  newest first, and everything recorded under one trace.  The views of decisions, audit events and
  outgoing messages are the rows.
\<close>

section \<open>Messages\<close>

record message_summary =
  ms_id :: uuid
  ms_inbox_id :: uuid
  ms_trace_id :: uuid
  ms_bot_account_id :: "uuid option"
  ms_inbox_status :: inbox_status
  ms_event_type :: string
  ms_conversation_type :: conversation_type
  ms_conversation_id :: "string option"
  ms_actor_wxid :: "string option"
  ms_provider_message_id :: "string option"
  ms_text_preview :: string
  ms_occurred_at :: "instant option"
  ms_received_at :: instant
  ms_error_code :: "string option"

record message_detail = message_summary +
  md_content :: json
  md_raw_payload :: json
  md_payload_sha256 :: string
  md_schema_version :: string
  md_raw_ref :: string

text \<open>The join of events and the inbox rows they come from.\<close>

definition message_query :: "db \<Rightarrow> (normalized_event \<times> webhook_inbox) list" where
  "message_query s = concat (map (\<lambda>e. map (Pair e) (filter (\<lambda>w. wi_id w = ne_webhook_inbox_id e) (inboxes s))) (events s))"

definition text_preview :: "json \<Rightarrow> string" where
  "text_preview content = (case json_get content ''raw_content'' of JStr t \<Rightarrow> take 500 t | _ \<Rightarrow> [])"

definition message_summary_of :: "normalized_event \<times> webhook_inbox \<Rightarrow> message_summary" where
  "message_summary_of row = (let (e, w) = row in
     \<lparr>ms_id = ne_id e, ms_inbox_id = wi_id w, ms_trace_id = wi_trace_id w, ms_bot_account_id = ne_bot_account_id e,
      ms_inbox_status = wi_status w, ms_event_type = ne_event_type e, ms_conversation_type = ne_conversation_type e,
      ms_conversation_id = ne_conversation_id e, ms_actor_wxid = ne_actor_wxid e,
      ms_provider_message_id = ne_provider_message_id e, ms_text_preview = text_preview (ne_content e),
      ms_occurred_at = ne_occurred_at e, ms_received_at = wi_created_at w, ms_error_code = wi_error_code w\<rparr>)"

definition message_detail_of :: "normalized_event \<times> webhook_inbox \<Rightarrow> message_detail" where
  "message_detail_of row = (let (e, w) = row in
     message_summary.extend (message_summary_of row)
       (message_detail.fields (ne_content e) (wi_raw_payload w) (wi_payload_sha256 w) (wi_schema_version w) (ne_raw_ref e)))"

record message_filter =
  mf_bot_account_id :: "uuid option"
  mf_inbox_status :: "inbox_status option"
  mf_conversation_type :: "conversation_type option"
  mf_conversation_id :: "string option"

definition matches_column :: "'a option \<Rightarrow> 'a option \<Rightarrow> bool" where
  "matches_column wanted column \<longleftrightarrow> (case wanted of None \<Rightarrow> True | Some v \<Rightarrow> column = Some v)"

definition message_selected :: "message_filter \<Rightarrow> normalized_event \<times> webhook_inbox \<Rightarrow> bool" where
  "message_selected f row \<longleftrightarrow> (let (e, w) = row in
     matches_column (mf_bot_account_id f) (ne_bot_account_id e) \<and> opt_filter (mf_inbox_status f) (wi_status w) \<and>
     opt_filter (mf_conversation_type f) (ne_conversation_type e) \<and> matches_column (mf_conversation_id f) (ne_conversation_id e))"

definition list_observed_messages :: "db \<Rightarrow> message_filter \<Rightarrow> nat \<Rightarrow> nat \<Rightarrow> message_summary list \<times> nat" where
  "list_observed_messages s f limit offset =
     (let rows = filter (message_selected f) (message_query s);
          sorted = rev (sort_key (\<lambda>(e, w). (wi_created_at w, wi_id w)) rows)
      in (map message_summary_of (take limit (drop offset sorted)), length rows))"

datatype observability_error = MessageNotFound | TraceNotFound | MultipleResultsFound

definition get_observed_message :: "db \<Rightarrow> uuid \<Rightarrow> (observability_error, message_detail) res" where
  "get_observed_message s i =
     (case filter (\<lambda>(e, w). ne_id e = i) (message_query s) of
        [] \<Rightarrow> Inl MessageNotFound | [row] \<Rightarrow> Inr (message_detail_of row) | _ \<Rightarrow> Inl MultipleResultsFound)"

section \<open>Traces\<close>

record trace_view =
  tv_trace_id :: uuid
  tv_message :: "message_detail option"
  tv_policy_decisions :: "policy_decision list"
  tv_audit_events :: "audit_event list"
  tv_outbox_messages :: "outbox_message list"

text \<open>Decisions and audit events are listed by creation, the order of their tables.\<close>

definition get_trace :: "db \<Rightarrow> uuid \<Rightarrow> (observability_error, trace_view) res" where
  "get_trace s i =
     (let message = (case sort_key (\<lambda>(e, w). wi_created_at w) (filter (\<lambda>(e, w). wi_trace_id w = i) (message_query s)) of
            [] \<Rightarrow> None | row # _ \<Rightarrow> Some (message_detail_of row));
          policy = filter (\<lambda>d. pd_trace_id d = Some i) (decisions s);
          audit = filter (\<lambda>a. au_trace_id a = Some i) (audits s);
          sent = sort_key (\<lambda>m. (om_created_at m, om_id m)) (filter (\<lambda>m. om_trace_id m = i) (outbox s))
      in if message = None \<and> policy = [] \<and> audit = [] \<and> sent = [] then Inl TraceNotFound
         else Inr \<lparr>tv_trace_id = i, tv_message = message, tv_policy_decisions = policy, tv_audit_events = audit,
                tv_outbox_messages = sent\<rparr>)"

end
