(* ===== verification/Management_Api.thy ===== *)
theory Management_Api
  imports Auth_Properties Accounts Connections Directory_Sync Task_Agent Catalog Supervisor Observability
begin

text \<open>
  The routes of the management interface other than authentication and administration
  (\<open>api/accounts.py\<close>, \<open>api/connections.py\<close>, \<open>api/directory.py\<close>, \<open>api/policy.py\<close>,
  \<open>api/outbox.py\<close>, \<open>api/messages.py\<close>, \<open>api/plugins.py\<close>): the permissions of a route, the
  validation of its input, its service and the response an exception becomes.  The first reading
  of the clock is that of the session check.
\<close>

section \<open>Requests on all tables\<close>

record app_db =
  app_auth :: auth_db
  app_agent :: agent_db

abbreviation app_rows :: "app_db \<Rightarrow> db" where
  "app_rows s \<equiv> core (app_agent s)"

definition store_rows :: "db \<Rightarrow> app_db \<Rightarrow> app_db" where
  "store_rows d s = s\<lparr>app_agent := (app_agent s)\<lparr>core := d\<rparr>\<rparr>"

type_synonym 'a reply = "(http_error, 'a) res \<times> app_db"

text \<open>The answer to an exception no route handles, and to input that does not validate.\<close>

definition uncaught :: http_error where
  "uncaught = http_error 500 ''Internal Server Error''"

definition unprocessable :: http_error where
  "unprocessable = http_error 422 ''unprocessable content''"

fun require_permissions :: "string list \<Rightarrow> auth_principal \<Rightarrow> (http_error, auth_principal) res" where
  "require_permissions [] p = Inr p"
| "require_permissions (code # codes) p =
     bind_res (case require_permission code of None \<Rightarrow> Inl uncaught | Some check \<Rightarrow> check p) (require_permissions codes)"

text \<open>
  The dependencies of the router and of the route in their order, then the validated input, then
  the body of the route.
\<close>

definition management_route ::
    "auth_env \<Rightarrow> auth_settings \<Rightarrow> string list \<Rightarrow> http_request \<Rightarrow> instant \<Rightarrow> 'b option \<Rightarrow>
     (auth_principal \<Rightarrow> 'b \<Rightarrow> app_db \<Rightarrow> 'a reply) \<Rightarrow> app_db \<Rightarrow> 'a reply" where
  "management_route E S codes rq now input serve s =
     (case get_auth_context E S rq now (app_auth s) of
        (Inl e, a) \<Rightarrow> (Inl e, s\<lparr>app_auth := a\<rparr>)
      | (Inr c, a) \<Rightarrow>
          let s1 = s\<lparr>app_auth := a\<rparr> in
          (case bind_res (require_management_request E rq c) (\<lambda>_. require_permissions codes (cx_principal c)) of
             Inl e \<Rightarrow> (Inl e, s1)
           | Inr p \<Rightarrow> (case input of None \<Rightarrow> (Inl unprocessable, s1) | Some b \<Rightarrow> serve p b s1)))"

text \<open>A body that commits when its service returns, and one that only reads.\<close>

definition db_route where
  "db_route E S codes rq now input to_http service s =
     management_route E S codes rq now input (\<lambda>p b s1.
       case service p b (app_rows s1) of Inl e \<Rightarrow> (Inl (to_http e), s1) | Inr (v, d) \<Rightarrow> (Inr v, store_rows d s1)) s"

definition read_route where
  "read_route E S codes rq now input to_http service s =
     management_route E S codes rq now input (\<lambda>p b s1. (map_sum to_http id (service b (app_rows s1)), s1)) s"

text \<open>Query parameters of a page.\<close>

definition page_params :: "int \<Rightarrow> int \<Rightarrow> (nat \<times> nat) option" where
  "page_params limit offset = (if 1 \<le> limit \<and> limit \<le> 200 \<and> 0 \<le> offset then Some (nat limit, nat offset) else None)"

definition accepted :: "('b \<Rightarrow> bool) \<Rightarrow> 'b \<Rightarrow> 'b option" where
  "accepted valid b = (if valid b then Some b else None)"

section \<open>Accounts\<close>

definition upstream :: "string \<Rightarrow> gewe_error \<Rightarrow> http_error" where
  "upstream detail g = http_error (if retryable g then 503 else 502) detail"

definition credential_unavailable :: http_error where
  "credential_unavailable = http_error 500 ''connection credential unavailable''"

definition account_not_found :: "account_error \<Rightarrow> http_error" where
  "account_not_found e = (case e of AccountNotFoundError m \<Rightarrow> http_error 404 m | _ \<Rightarrow> uncaught)"

definition account_http_error :: "account_error \<Rightarrow> http_error" where
  "account_http_error e =
     (case e of AccountNotFoundError m \<Rightarrow> http_error 404 m | AccountStateError m \<Rightarrow> http_error 409 m
      | AccountCredentialError \<Rightarrow> credential_unavailable | AccountGewe g \<Rightarrow> upstream ''GeWe account operation failed'' g
      | AccountValueError _ \<Rightarrow> uncaught)"

definition account_read :: "string list" where "account_read = [''account.read'']"
definition account_write :: "string list" where "account_write = [''account.read'', ''account.write'']"

definition list_bot_accounts where
  "list_bot_accounts E S rq connection limit offset now s =
     read_route E S account_read rq now (page_params limit offset) id
       (\<lambda>(l, k) d. Inr (list_accounts d connection l k)) s"

definition register_bot_account where
  "register_bot_account E S rq connection payload now s =
     db_route E S account_write rq now (accepted validate_manual_account payload) account_not_found
       (\<lambda>_ p d. register_manual (lib E) connection p d) s"

record login_qr_code_request =
  lq_region_id :: string
  lq_app_id :: string
  lq_proxy_ip :: "string option"
  lq_ttuid :: "string option"
  lq_aid :: "string option"

definition validate_qr_code_request :: "login_qr_code_request \<Rightarrow> bool" where
  "validate_qr_code_request p \<longleftrightarrow> 1 \<le> length (lq_region_id p) \<and> length (lq_region_id p) \<le> 40 \<and> length (lq_app_id p) \<le> 255 \<and>
     at_most 1000 (lq_proxy_ip p) \<and> at_most 255 (lq_ttuid p) \<and> at_most 255 (lq_aid p)"

definition login_qr_code_route where
  "login_qr_code_route E S rq connection payload provider clock between s =
     db_route E S account_write rq (clock (0::nat)) (accepted validate_qr_code_request payload) account_http_error
       (\<lambda>_ p d. get_login_qr_code (lib E) connection (provider p) (clock 1) between d) s"

record login_check_request =
  lk_auto_sliding :: "bool option"
  lk_proxy_ip :: "string option"
  lk_captcha_code :: "string option"

definition validate_login_check :: "login_check_request \<Rightarrow> bool" where
  "validate_login_check p \<longleftrightarrow> at_most 1000 (lk_proxy_ip p) \<and> at_most 100 (lk_captcha_code p)"

definition check_login_route where
  "check_login_route E S rq i payload provider clock between s =
     db_route E S account_write rq (clock (0::nat)) (accepted validate_login_check payload) account_http_error
       (\<lambda>_ p d. check_login (lib E) i (provider p) (clock 1) between d) s"

definition check_online_route where
  "check_online_route E S rq i answer clock between s =
     db_route E S account_write rq (clock (0::nat)) (Some ()) account_http_error
       (\<lambda>_ _ d. check_online (lib E) i answer (clock 1) between d) s"

definition reconnect_route where
  "reconnect_route E S rq i answer clock between s =
     db_route E S account_write rq (clock (0::nat)) (Some ()) account_http_error
       (\<lambda>_ _ d. reconnect (lib E) i answer (clock 1) between d) s"

definition update_disabled where
  "update_disabled E S rq i disabled now s =
     db_route E S account_write rq now (Some disabled) account_not_found (\<lambda>_ b d. set_disabled i b d) s"

section \<open>Connections\<close>

definition connection_not_found :: "connection_error \<Rightarrow> http_error" where
  "connection_not_found e = (case e of ConnectionNotFound \<Rightarrow> http_error 404 ''connection not found'' | _ \<Rightarrow> uncaught)"

definition create_connection_error :: "connection_error \<Rightarrow> http_error" where
  "create_connection_error e =
     (case e of DuplicateConnection m \<Rightarrow> http_error 409 m | SingleWorkspaceViolation m \<Rightarrow> http_error 409 m | _ \<Rightarrow> uncaught)"

definition apply_callback_error :: "connection_error \<Rightarrow> http_error" where
  "apply_callback_error e = (case e of CallbackMode m \<Rightarrow> http_error 409 m | _ \<Rightarrow> connection_not_found e)"

definition connection_read :: "string list" where "connection_read = [''connection.read'']"
definition connection_write :: "string list" where "connection_write = [''connection.read'', ''connection.write'']"

text \<open>The environment of the connection manager holds the functions of the application's.\<close>

definition create_connection_route where
  "create_connection_route E S C rq payload raced raced_connections now s =
     db_route E S connection_write rq now (validate_connection_create payload) create_connection_error
       (\<lambda>_ p d. create_connection C p raced raced_connections d) s"

definition list_connections_route where
  "list_connections_route E S C rq now s =
     read_route E S connection_read rq now (Some ()) (\<lambda>_. uncaught) (\<lambda>_ d. list_connections C d) s"

definition get_connection_route where
  "get_connection_route E S C rq i now s =
     read_route E S connection_read rq now (Some ()) connection_not_found
       (\<lambda>_ d. bind_res (get_connection d i) (to_view C)) s"

definition rotate_connection_token where
  "rotate_connection_token E S C rq i token now s =
     db_route E S connection_write rq now (Some token) connection_not_found (\<lambda>_ t d. rotate_token C i t d) s"

definition update_callback_mode where
  "update_callback_mode E S C rq i mode now s =
     db_route E S connection_write rq now (Some mode) connection_not_found (\<lambda>_ m d. change_mode C i m d) s"

definition update_connection_status where
  "update_connection_status E S C rq i status now s =
     db_route E S connection_write rq now (Some status) connection_not_found (\<lambda>_ x d. change_status C i x d) s"

definition apply_callback_route where
  "apply_callback_route E S C rq i answer now s =
     db_route E S connection_write rq now (Some ()) apply_callback_error (\<lambda>_ _ d. apply_managed_callback C i answer d) s"

section \<open>Directory\<close>

definition directory_http_error :: "directory_error \<Rightarrow> http_error" where
  "directory_http_error e =
     (case e of DirectoryNotFoundError resource \<Rightarrow> http_error 404 (resource @ '' not found'')
      | DirectoryCredentialError \<Rightarrow> credential_unavailable
      | DirectoryGewe g \<Rightarrow> upstream ''GeWe directory sync failed'' g
      | _ \<Rightarrow> uncaught)"

definition directory_not_found :: "directory_error \<Rightarrow> http_error" where
  "directory_not_found e = (case e of DirectoryNotFoundError resource \<Rightarrow> http_error 404 (resource @ '' not found'') | _ \<Rightarrow> uncaught)"

definition mark_left_error :: "directory_error \<Rightarrow> http_error" where
  "mark_left_error e =
     (case e of DirectoryMembershipConflictError \<Rightarrow> http_error 409 ''membership is no longer active at the expected epoch'' | _ \<Rightarrow> directory_not_found e)"

definition directory_read :: "string list" where "directory_read = [''directory.read'']"
definition directory_sync :: "string list" where "directory_sync = [''directory.read'', ''directory.sync'']"

definition list_contacts_route where
  "list_contacts_route E S rq i limit offset now s =
     read_route E S directory_read rq now (page_params limit offset) directory_not_found (\<lambda>(l, k) d. list_contacts d i l k) s"

definition list_chatrooms_route where
  "list_chatrooms_route E S rq i limit offset now s =
     read_route E S directory_read rq now (page_params limit offset) directory_not_found (\<lambda>(l, k) d. list_chatrooms d i l k) s"

definition list_members_route where
  "list_members_route E S rq i include_left limit offset now s =
     read_route E S directory_read rq now (page_params limit offset) directory_not_found
       (\<lambda>(l, k) d. list_memberships d i include_left l k) s"

definition sync_directory where
  "sync_directory E S rq options provider i clock s =
     db_route E S directory_sync rq (clock (0::nat)) (Some ()) directory_http_error
       (\<lambda>_ _ d. sync_contacts (lib E) options provider i (clock 1) d) s"

definition sync_members_route where
  "sync_members_route E S rq provider i clock s =
     db_route E S directory_sync rq (clock (0::nat)) (Some ()) directory_http_error
       (\<lambda>_ _ d. sync_chatroom_members (lib E) provider i (clock 1) (\<lambda>k. clock (k + 2)) d) s"

definition mark_left_route where
  "mark_left_route E S rq room i epoch reason clock s =
     db_route E S (directory_sync @ [''policy.write'']) rq (clock (0::nat)) (validate_departure epoch reason) mark_left_error
       (\<lambda>actor (n, r) d. mark_membership_left room i n r actor (clock 1) d) s"

section \<open>Policy\<close>

definition policy_not_found :: "policy_error \<Rightarrow> http_error" where
  "policy_not_found e = (case e of PolicyObjectNotFound m \<Rightarrow> http_error 404 m | InvalidPolicyRule _ \<Rightarrow> uncaught)"

definition policy_http_error :: "policy_error \<Rightarrow> http_error" where
  "policy_http_error e = (case e of PolicyObjectNotFound m \<Rightarrow> http_error 404 m | InvalidPolicyRule m \<Rightarrow> http_error 409 m)"

definition policy_read :: "string list" where "policy_read = [''policy.read'']"

definition find_principal_route where
  "find_principal_route E S rq ws chatroom membership now s =
     read_route E S (policy_read @ [''directory.read'']) rq now (Some ()) policy_not_found
       (\<lambda>_ d. find_group_member_principal d ws chatroom membership) s"

definition ensure_principal_route where
  "ensure_principal_route E S rq ws chatroom membership now s =
     db_route E S (policy_read @ [''directory.read'', ''policy.write'']) rq now (Some ()) policy_not_found
       (\<lambda>_ _ d. ensure_group_member_principal (lib E) ws chatroom membership d) s"

definition create_rule_route where
  "create_rule_route E S rq payload clock s =
     db_route E S (policy_read @ [''policy.write'']) rq (clock (0::nat)) (accepted validate_rule payload) policy_http_error
       (\<lambda>_ p d. create_rule (lib E) p ''api'' (clock 1) d) s"

definition list_rules_route where
  "list_rules_route E S rq ws kind scope include_revoked now s =
     read_route E S policy_read rq now (Some ()) id (\<lambda>_ d. Inr (list_rules d ws kind scope include_revoked)) s"

definition revoke_rule_route where
  "revoke_rule_route E S rq i clock s =
     db_route E S (policy_read @ [''policy.write'']) rq (clock (0::nat)) (Some ()) policy_not_found
       (\<lambda>_ _ d. revoke_rule i ''api'' (clock 1) d) s"

definition validate_evaluation :: "acl_request \<Rightarrow> bool" where
  "validate_evaluation q \<longleftrightarrow> 1 \<le> length (rq_resource_id q) \<and> length (rq_resource_id q) \<le> 255 \<and> at_most 255 (rq_parent_plugin_id q)"

definition evaluate_policy where
  "evaluate_policy E S rq payload clock s =
     db_route E S (policy_read @ [''policy.evaluate'']) rq (clock (0::nat)) (accepted validate_evaluation payload) policy_http_error
       (\<lambda>_ q d. evaluate q (clock 1) d) s"

section \<open>Outbox\<close>

definition outbox_read :: string where "outbox_read = ''outbox.read''"
definition outbox_manage :: string where "outbox_manage = ''outbox.manage''"

definition outbox_http_error :: "outbox_error \<Rightarrow> http_error" where
  "outbox_http_error e =
     (case e of OutboxMessageNotFound \<Rightarrow> http_error 404 ''outbox message not found''
      | OutboxStateConflict m \<Rightarrow> http_error 409 m | _ \<Rightarrow> uncaught)"

definition list_outbox_route where
  "list_outbox_route E S rq account status limit offset now s =
     read_route E S [outbox_read] rq now (page_params limit offset) id (\<lambda>(l, k) d. Inr (list_messages d account status l k)) s"

definition get_outbox_route where
  "get_outbox_route E S rq i now s =
     read_route E S [outbox_read] rq now (Some ()) outbox_http_error (\<lambda>_ d. get_message d i) s"

text \<open>The reason of a manual action, stripped by its schema.\<close>

definition validate_manual_action :: "string \<Rightarrow> string option" where
  "validate_manual_action reason = strip_nonempty_text 500 reason"

definition validate_reconcile :: "string \<Rightarrow> outbox_status \<Rightarrow> (string \<times> outbox_status) option" where
  "validate_reconcile reason resolution =
     (if resolution \<notin> {Ob_SENT, Ob_FAILED_FINAL} then None
      else map_option (\<lambda>r. (r, resolution)) (validate_manual_action reason))"

definition cancel_outbox_route where
  "cancel_outbox_route E S rq i reason clock s =
     db_route E S [outbox_manage] rq (clock (0::nat)) (validate_manual_action reason) outbox_http_error
       (\<lambda>actor r d. cancel_message i (pn_user_id actor) r (clock 1) d) s"

definition reconcile_outbox_route where
  "reconcile_outbox_route E S rq i reason resolution clock s =
     db_route E S [outbox_manage] rq (clock (0::nat)) (validate_reconcile reason resolution) outbox_http_error
       (\<lambda>actor (r, x) d. reconcile_unknown i (pn_user_id actor) x r (clock 1) d) s"

section \<open>Messages and traces\<close>

definition observability_http_error :: "observability_error \<Rightarrow> http_error" where
  "observability_http_error e =
     (case e of MessageNotFound \<Rightarrow> http_error 404 ''message not found'' | TraceNotFound \<Rightarrow> http_error 404 ''trace not found''
      | MultipleResultsFound \<Rightarrow> uncaught)"

definition list_messages_route where
  "list_messages_route E S rq f limit offset now s =
     read_route E S [''message.read''] rq now (page_params limit offset) id
       (\<lambda>(l, k) d. Inr (list_observed_messages d f l k)) s"

definition get_message_route where
  "get_message_route E S rq i now s =
     read_route E S [''message.read''] rq now (Some ()) observability_http_error (\<lambda>_ d. get_observed_message d i) s"

definition get_trace_route where
  "get_trace_route E S rq i now s =
     read_route E S [''audit.read''] rq now (Some ()) observability_http_error (\<lambda>_ d. get_trace d i) s"

section \<open>Plugins\<close>

definition plugin_read :: "string list" where "plugin_read = [''plugin.read'']"
definition plugin_deploy :: "string list" where "plugin_deploy = [''plugin.read'', ''plugin.deploy'']"

text \<open>
  \<open>PluginActivationError\<close> is not a catalogue error, so only the routes that activate and
  deactivate answer it.
\<close>

definition plugin_http_error :: "catalog_error \<Rightarrow> http_error" where
  "plugin_http_error e =
     (case e of PluginObjectNotFoundError m \<Rightarrow> http_error 404 m | PluginCatalogError m \<Rightarrow> http_error 409 m | _ \<Rightarrow> uncaught)"

definition transition_http_error :: "catalog_error \<Rightarrow> http_error" where
  "transition_http_error e =
     (case e of PluginObjectNotFoundError m \<Rightarrow> http_error 404 m | PluginActivationError m \<Rightarrow> http_error 409 m | _ \<Rightarrow> uncaught)"

text \<open>A catalogue operation that raises is not committed.\<close>

definition committed_result :: "'a catalog_result \<Rightarrow> (catalog_error, 'a \<times> db) res" where
  "committed_result r = (case r of (Inl e, _) \<Rightarrow> Inl e | (Inr v, d) \<Rightarrow> Inr (v, d))"

definition plugin_context_route where
  "plugin_context_route E S rq now s =
     read_route E S plugin_read rq now (Some ()) plugin_http_error (\<lambda>_ d. workspace_context d) s"

definition install_builtin_route where
  "install_builtin_route E S C builtin_dir rq plugin workspace now s =
     db_route E S plugin_deploy rq now (Some ()) plugin_http_error
       (\<lambda>_ _ d. committed_result (install_builtin (lib E) C builtin_dir workspace plugin d)) s"

text \<open>The newest package is the last of its table.\<close>

definition plugin_catalog ::
    "db \<Rightarrow> plugin list \<times> plugin_package_version list \<times> plugin_deployment list \<times> plugin_deployment_revision list" where
  "plugin_catalog d = (sort_key pl_plugin_id (plugins d), rev (packages d), sort_key dp_name (deployments d),
     sort_key (\<lambda>r. (rv_deployment_id r, - rv_revision_number r)) (revisions d))"

definition plugin_catalog_route where
  "plugin_catalog_route E S rq now s =
     read_route E S plugin_read rq now (Some ()) id (\<lambda>_ d. Inr (plugin_catalog d)) s"

definition validate_deployment_create :: "deployment_create \<Rightarrow> bool" where
  "validate_deployment_create p \<longleftrightarrow> 1 \<le> length (deployment_create.dc_name p) \<and> length (deployment_create.dc_name p) \<le> 120 \<and>
     is_obj (dc_config p) \<and> is_obj (dc_scope p)"

definition create_deployment_route where
  "create_deployment_route E S C rq payload now s =
     db_route E S plugin_deploy rq now (accepted validate_deployment_create payload) plugin_http_error
       (\<lambda>_ p d. committed_result (create_deployment (lib E) C p d)) s"

definition validate_revision_create :: "revision_create \<Rightarrow> bool" where
  "validate_revision_create p \<longleftrightarrow> (case revision_create.rc_config p of None \<Rightarrow> True | Some j \<Rightarrow> is_obj j) \<and>
     (case revision_create.rc_scope p of None \<Rightarrow> True | Some j \<Rightarrow> is_obj j)"

definition create_revision_route where
  "create_revision_route E S C rq i payload now s =
     db_route E S plugin_deploy rq now (accepted validate_revision_create payload) plugin_http_error
       (\<lambda>_ p d. committed_result (create_revision (lib E) C i p d)) s"

definition revision_draft_route where
  "revision_draft_route E S C rq i revision now s =
     read_route E S plugin_read rq now (Some ()) plugin_http_error (\<lambda>_ d. revision_draft (lib E) C i revision d) s"

text \<open>
  A failed candidate is committed as such.  A transition is committed before the supervisor makes
  it: \<open>commits\<close> tells whether the commit succeeds (otherwise the supervisor drops the
  transition), \<open>runtime\<close> is the supervisor's answer.
\<close>

definition is_activation_error :: "catalog_error \<Rightarrow> bool" where
  "is_activation_error e = (case e of PluginActivationError _ \<Rightarrow> True | _ \<Rightarrow> False)"

definition transition_reply ::
    "bool \<Rightarrow> bool \<Rightarrow> (supervisor_error, unit) res \<Rightarrow> 'a catalog_result \<Rightarrow> app_db \<Rightarrow> 'a reply" where
  "transition_reply commits_failure commits runtime r s =
     (case r of
        (Inl e, d) \<Rightarrow> (Inl (transition_http_error e), if commits_failure \<and> is_activation_error e then store_rows d s else s)
      | (Inr v, d) \<Rightarrow> if \<not> commits then (Inl uncaught, s)
          else (case runtime of Inl _ \<Rightarrow> Inl uncaught | Inr _ \<Rightarrow> Inr v, store_rows d s))"

definition activate_revision_route where
  "activate_revision_route E S C rq i revision commits runtime now s =
     management_route E S plugin_deploy rq now (Some ())
       (\<lambda>_ _ s1. transition_reply True commits runtime (activate_revision (lib E) C i revision (app_rows s1)) s1) s"

definition deactivate_plugin where
  "deactivate_plugin E S C rq i commits runtime now s =
     management_route E S plugin_deploy rq now (Some ())
       (\<lambda>_ _ s1. transition_reply False commits runtime (deactivate C i (app_rows s1)) s1) s"

text \<open>\<open>answer\<close> is the supervisor's answer to a call of a deployment's plugin.\<close>

definition validate_invocation :: "string \<times> json \<Rightarrow> bool" where
  "validate_invocation p \<longleftrightarrow> fst p \<in> {''health'', ''handle_event'', ''invoke_tool''} \<and> is_obj (snd p)"

definition invoke_http_error :: "supervisor_error \<Rightarrow> http_error" where
  "invoke_http_error e = (case e of PluginNotActiveError m \<Rightarrow> http_error 409 m | _ \<Rightarrow> uncaught)"

definition invoke_plugin ::
    "auth_env \<Rightarrow> auth_settings \<Rightarrow> http_request \<Rightarrow> uuid \<Rightarrow> string \<times> json \<Rightarrow>
     (string \<Rightarrow> string \<Rightarrow> json \<Rightarrow> (supervisor_error, int \<times> json) res) \<Rightarrow> instant \<Rightarrow> app_db \<Rightarrow> (int \<times> json) reply" where
  "invoke_plugin E S rq i payload answer now s =
     management_route E S (plugin_read @ [''plugin.invoke'']) rq now (accepted validate_invocation payload)
       (\<lambda>_ (name, params) s1. (map_sum invoke_http_error id (answer (uuid_str i) name params), s1)) s"

end
