(* ===== verification/Agent_Api.thy ===== *)
theory Agent_Api
  imports Management_Api Agent_Properties
begin

text \<open>
  The routes of the task agent (\<open>api/task_agent.py\<close>): they act in the only workspace and leave an
  audit record of every change they make or refuse.
\<close>

section \<open>Workspace, audit and errors\<close>

definition resolve_workspace :: "db \<Rightarrow> uuid option \<Rightarrow> (http_error, workspace) res" where
  "resolve_workspace d requested =
     (case take 2 (sort_key ws_id (workspaces d)) of
        [] \<Rightarrow> Inl (http_error 404 ''workspace not found'')
      | [w] \<Rightarrow> if requested \<noteq> None \<and> requested \<noteq> Some (ws_id w) then Inl (http_error 404 ''workspace not found'') else Inr w
      | _ \<Rightarrow> Inl (http_error 409 ''this release supports exactly one workspace''))"

definition require_requested_workspace :: "workspace \<Rightarrow> uuid \<Rightarrow> (agent_error, unit) res" where
  "require_requested_workspace w requested = check_that (ws_id w = requested) (TaskAgentNotFound ''workspace not found'')"

text \<open>The class and the text of an exception; \<open>ValueError\<close> is not a task-agent error.\<close>

definition agent_error_parts :: "agent_error \<Rightarrow> string \<times> string" where
  "agent_error_parts e =
     (case e of TaskAgentNotFound m \<Rightarrow> (''TaskAgentNotFoundError'', m) | TaskAgentConflict m \<Rightarrow> (''TaskAgentConflictError'', m)
      | RunIdempotencyConflict m \<Rightarrow> (''RunIdempotencyConflictError'', m) | ActiveRunConflict m \<Rightarrow> (''ActiveRunConflictError'', m)
      | InvalidRunTransition m \<Rightarrow> (''InvalidRunTransitionError'', m)
      | PendingQuestionConflict m \<Rightarrow> (''PendingQuestionConflictError'', m)
      | QuestionAnswerForbidden m \<Rightarrow> (''QuestionAnswerForbiddenError'', m) | QuestionExpired m \<Rightarrow> (''QuestionExpiredError'', m)
      | QuestionAlreadyConsumed m \<Rightarrow> (''QuestionAlreadyConsumedError'', m)
      | PersistedJsonValidation m \<Rightarrow> (''PersistedJsonValidationError'', m) | AgentValueError m \<Rightarrow> (''ValueError'', m))"

definition task_agent_http_error :: "agent_error \<Rightarrow> http_error" where
  "task_agent_http_error e =
     (case e of QuestionAnswerForbidden m \<Rightarrow> http_error 403 m | TaskAgentNotFound m \<Rightarrow> http_error 404 m
      | PersistedJsonValidation m \<Rightarrow> http_error 422 m | AgentValueError m \<Rightarrow> uncaught
      | _ \<Rightarrow> http_error 409 (snd (agent_error_parts e)))"

record audited_action =
  aa_action :: string
  aa_object_type :: string

definition route_audit ::
    "uuid \<Rightarrow> auth_principal \<Rightarrow> audited_action \<Rightarrow> string \<Rightarrow> string \<Rightarrow> (string \<times> json) list \<Rightarrow> audit_event" where
  "route_audit ws actor action object_id result detail =
     \<lparr>au_workspace_id = ws, au_trace_id = None, au_actor_type = ''ADMIN_USER'', au_actor_id = uuid_str (pn_user_id actor),
      au_action = aa_action action, au_object_type = aa_object_type action, au_object_id = object_id, au_result = result,
      au_detail = JObj detail\<rparr>"

definition add_audit :: "audit_event \<Rightarrow> agent_db \<Rightarrow> agent_db" where
  "add_audit a w = w\<lparr>core := (core w)\<lparr>audits := audits (core w) @ [a]\<rparr>\<rparr>"

definition audit_failure :: "uuid \<Rightarrow> auth_principal \<Rightarrow> audited_action \<Rightarrow> string \<Rightarrow> agent_error \<Rightarrow> agent_db \<Rightarrow> agent_db" where
  "audit_failure ws actor action object_id e w =
     add_audit (route_audit ws actor action object_id ''FAILURE''
       [(''error_type'', JStr (fst (agent_error_parts e))), (''error'', JStr (snd (agent_error_parts e)))]) w"

text \<open>
  The body of a route that changes something: the transaction of the service and its record are
  committed together; a failure is rolled back and recorded on its own.  The action and the object
  recorded differ between the two.
\<close>

definition audited_route ::
    "auth_env \<Rightarrow> auth_settings \<Rightarrow> string list \<Rightarrow> http_request \<Rightarrow> instant \<Rightarrow> 'b option \<Rightarrow> string \<Rightarrow> string \<Rightarrow> ('b \<Rightarrow> string) \<Rightarrow>
     string \<Rightarrow> ('b \<Rightarrow> 'a \<Rightarrow> string \<times> (string \<times> json) list) \<Rightarrow>
     (auth_principal \<Rightarrow> workspace \<Rightarrow> 'b \<Rightarrow> agent_db \<Rightarrow> (agent_error, 'a \<times> agent_db) res) \<Rightarrow> app_db \<Rightarrow> 'a reply" where
  "audited_route E S codes rq now input action failed_type failed_id type recorded service s =
     management_route E S codes rq now input (\<lambda>actor b s1.
       case resolve_workspace (app_rows s1) None of Inl e \<Rightarrow> (Inl e, s1)
       | Inr ws \<Rightarrow>
           (case service actor ws b (app_agent s1) of
              Inl (AgentValueError _) \<Rightarrow> (Inl uncaught, s1)
            | Inl e \<Rightarrow> (Inl (task_agent_http_error e),
                s1\<lparr>app_agent := audit_failure (ws_id ws) actor \<lparr>aa_action = action, aa_object_type = failed_type\<rparr> (failed_id b) e (app_agent s1)\<rparr>)
            | Inr (v, w) \<Rightarrow> (Inr v, s1\<lparr>app_agent := add_audit (route_audit (ws_id ws) actor \<lparr>aa_action = action, aa_object_type = type\<rparr>
                (fst (recorded b v)) ''SUCCESS'' (snd (recorded b v))) w\<rparr>))) s"

definition agent_read_route where
  "agent_read_route E S rq now input requested service s =
     management_route E S [''agent.read''] rq now input (\<lambda>_ b s1.
       case resolve_workspace (app_rows s1) requested of Inl e \<Rightarrow> (Inl e, s1)
       | Inr ws \<Rightarrow> (map_sum task_agent_http_error id (service ws b (app_agent s1)), s1)) s"

definition admin_principal :: "env \<Rightarrow> workspace \<Rightarrow> auth_principal \<Rightarrow> agent_db \<Rightarrow> (agent_error, principal \<times> agent_db) res" where
  "admin_principal E ws actor w =
     resolve_admin_principal E (ws_id ws) (pn_user_id actor)
       (case pn_display_name actor of Some (c # cs) \<Rightarrow> Some (c # cs) | _ \<Rightarrow> Some (pn_username actor)) w"

section \<open>Reading\<close>

definition get_agent_context where
  "get_agent_context E S rq now s =
     agent_read_route E S rq now (Some ()) None (\<lambda>ws _ _. Inr (ws_id ws, ws_name ws)) s"

definition list_definitions_route where
  "list_definitions_route E S rq requested limit offset now s =
     agent_read_route E S rq now (page_params limit offset) requested (\<lambda>ws (l, k) w. Inr (list_definitions w (ws_id ws) l k)) s"

definition get_definition_route where
  "get_definition_route E S rq i now s =
     agent_read_route E S rq now (Some ()) None (\<lambda>ws _ w. get_definition w i (ws_id ws)) s"

definition list_versions_route where
  "list_versions_route E S rq i limit offset now s =
     agent_read_route E S rq now (page_params limit offset) None (\<lambda>ws (l, k) w. list_versions w i (ws_id ws) l k) s"

definition get_version_route where
  "get_version_route E S rq i now s =
     agent_read_route E S rq now (Some ()) None (\<lambda>ws _ w. get_version w i (ws_id ws)) s"

definition list_sessions_route where
  "list_sessions_route E S rq requested limit offset now s =
     agent_read_route E S rq now (page_params limit offset) requested (\<lambda>ws (l, k) w. Inr (list_sessions w (ws_id ws) l k)) s"

definition get_session_route where
  "get_session_route E S rq i now s =
     agent_read_route E S rq now (Some ()) None (\<lambda>ws _ w. Task_Agent.get_session w i (ws_id ws)) s"

definition get_session_state_route where
  "get_session_state_route E S rq i history_limit now s =
     agent_read_route E S rq now (page_params history_limit 0) None
       (\<lambda>ws (l, _) w. Task_Agent.get_session_state w i (Some (ws_id ws)) l) s"

definition list_runs_route where
  "list_runs_route E S rq i limit offset now s =
     agent_read_route E S rq now (page_params limit offset) None (\<lambda>ws (l, k) w. list_runs w i (ws_id ws) l k) s"

definition get_run_route where
  "get_run_route E S rq i now s =
     agent_read_route E S rq now (Some ()) None (\<lambda>ws _ w. get_run w i (ws_id ws)) s"

section \<open>Changing\<close>

definition later :: "(nat \<Rightarrow> instant) \<Rightarrow> nat \<Rightarrow> instant" where
  "later clock n = clock (Suc n)"

definition create_definition_route where
  "create_definition_route E S rq payload raced clock s =
     audited_route E S [''agent.write''] rq (clock 0) (validate_definition_create payload) ''task_agent.definition.create''
       ''agent_definition'' agent_definition_create.dc_definition_key ''agent_definition'' (\<lambda>_ d. (uuid_str (ad_id d), []))
       (\<lambda>_ ws p w. bind_res (require_requested_workspace ws (agent_definition_create.dc_workspace_id p)) (\<lambda>_.
          create_definition (lib E) p raced (later clock) w)) s"

definition publish_version_route where
  "publish_version_route E S rq i specification raced clock s =
     audited_route E S [''agent.write''] rq (clock 0) (accepted is_obj specification) ''task_agent.version.publish''
       ''agent_definition'' (\<lambda>_. uuid_str i) ''agent_version'' (\<lambda>_ v. (uuid_str (av_id v), []))
       (\<lambda>actor ws j w. bind_res (admin_principal (lib E) ws actor w) (\<lambda>(pr, w1).
          publish_version (lib E) i \<lparr>vp_specification = j, vp_published_by_principal_id = Some (pr_id pr)\<rparr> (Some (ws_id ws)) raced
            (later clock) w1)) s"

record session_create_request =
  sq_workspace_id :: uuid
  sq_agent_version_id :: uuid
  sq_task_scope :: json

definition validate_session_create :: "session_create_request \<Rightarrow> bool" where
  "validate_session_create p \<longleftrightarrow> is_obj (sq_task_scope p)"

definition create_agent_session_route where
  "create_agent_session_route E S rq payload clock s =
     audited_route E S [''agent.run''] rq (clock 0) (accepted validate_session_create payload) ''task_agent.session.create''
       ''agent_version'' (\<lambda>p. uuid_str (sq_agent_version_id p)) ''agent_session'' (\<lambda>_ x. (uuid_str (as_id x), []))
       (\<lambda>actor ws p w. bind_res (require_requested_workspace ws (sq_workspace_id p)) (\<lambda>_.
          bind_res (admin_principal (lib E) ws actor w) (\<lambda>(pr, w1).
            Task_Agent.create_session (lib E) \<lparr>sc_workspace_id = ws_id ws, sc_agent_version_id = sq_agent_version_id p,
              sc_requester_principal_id = pr_id pr, sc_task_scope = sq_task_scope p\<rparr> (later clock) w1))) s"

definition create_run_route where
  "create_run_route E S rq i payload raced clock s =
     audited_route E S [''agent.run''] rq (clock 0) (Option.bind (accepted (\<lambda>p. is_obj (nc_input_payload p)) payload) validate_run_create) ''task_agent.run.create''
       ''agent_session'' (\<lambda>_. uuid_str i) ''agent_run'' (\<lambda>_ x. (uuid_str (rn_id x), []))
       (\<lambda>_ ws p w. create_run (lib E) i p (Some (ws_id ws)) raced (later clock) w) s"

definition transition_run_route where
  "transition_run_route E S rq i payload clock s =
     audited_route E S [''agent.run''] rq (clock 0) (accepted validate_transition payload) ''task_agent.run.transition''
       ''agent_run'' (\<lambda>_. uuid_str i) ''agent_run'' (\<lambda>_ x. (uuid_str (rn_id x), [(''status'', JStr (run_status_str (rn_status x)))]))
       (\<lambda>_ ws p w. transition_run (lib E) i p (Some (ws_id ws)) (later clock) w) s"

definition create_question_route where
  "create_question_route E S rq i payload raced clock s =
     audited_route E S [''agent.run''] rq (clock 0) (Option.bind (accepted (\<lambda>p. is_obj (qc_context p)) payload) validate_question_create) ''task_agent.question.create''
       ''agent_run'' (\<lambda>_. uuid_str i) ''agent_pending_question'' (\<lambda>_ q. (uuid_str (pq_id q), []))
       (\<lambda>_ ws p w. ask_question (lib E) i p (Some (ws_id ws)) raced (later clock) w) s"

definition override_question_route where
  "override_question_route E S rq i payload clock s =
     audited_route E S [''agent.question.override''] rq (clock 0) (Option.bind (accepted (\<lambda>p. is_obj (qo_answer_payload p)) payload) validate_override) ''task_agent.question.override_answer''
       ''agent_pending_question'' (\<lambda>_. uuid_str i) ''agent_pending_question''
       (\<lambda>p _. (uuid_str i, [(''reason'', JStr (qo_reason p))]))
       (\<lambda>actor ws p w. bind_res (admin_principal (lib E) ws actor w) (\<lambda>(pr, w1).
          override_answer_question (lib E) i p (pr_id pr) (Some (ws_id ws)) (later clock) w1)) s"

end
