(* ===== verification/Webhook_Api.thy ===== *)
theory Webhook_Api
  imports Auth_Api Observability
begin

text \<open>
  The route the provider calls (\<open>api/webhooks.py\<close>) and the health checks (\<open>api/health.py\<close>): the
  body is read piece by piece up to a limit, parsed, and taken in.
\<close>

section \<open>The body\<close>

text \<open>
  \<open>int\<close> of a header: an optional sign and decimal digits with single underscores between them; the
  interpreter refuses more than 4300 digits.
\<close>

definition max_int_digits :: nat where "max_int_digits = 4300"

definition py_int :: "string \<Rightarrow> int option" where
  "py_int text =
     (let (sign, body) = take_sign (strip text); (digits, rest) = digit_run body
      in if digits = [] \<or> rest \<noteq> [] \<or> max_int_digits < length digits then None
         else Some ((if sign < 0 then - 1 else 1) * int (foldl (\<lambda>a c. 10 * a + digit_val c) 0 digits)))"

definition too_large :: http_error where
  "too_large = http_error 413 ''webhook payload too large''"

fun read_chunks :: "int \<Rightarrow> 8 word list \<Rightarrow> 8 word list list \<Rightarrow> (http_error, 8 word list) res" where
  "read_chunks limit body [] = Inr body"
| "read_chunks limit body (chunk # chunks) =
     (let body = body @ chunk in if limit < int (length body) then Inl too_large else read_chunks limit body chunks)"

definition bounded_body :: "int \<Rightarrow> string option \<Rightarrow> 8 word list list \<Rightarrow> (http_error, 8 word list) res" where
  "bounded_body limit content_length chunks =
     (case Option.bind content_length py_int of
        Some n \<Rightarrow> if limit < n then Inl too_large else read_chunks limit [] chunks
      | None \<Rightarrow> read_chunks limit [] chunks)"

text \<open>\<open>loads\<close> is the JSON parser on bytes.\<close>

definition decode_json_object :: "(8 word list \<Rightarrow> json option) \<Rightarrow> 8 word list \<Rightarrow> (http_error, json) res" where
  "decode_json_object loads raw =
     (case loads raw of None \<Rightarrow> Inl (http_error 400 ''invalid JSON payload'')
      | Some payload \<Rightarrow> if is_obj payload then Inr payload else Inl (http_error 400 ''webhook payload must be a JSON object''))"

section \<open>The route\<close>

definition webhook_http_error :: "webhook_error \<Rightarrow> http_error" where
  "webhook_http_error e =
     (case e of UnknownWebhookSecret \<Rightarrow> http_error 404 ''webhook not found''
      | WebhookDedupConflict \<Rightarrow> http_error 409 ''webhook message id conflicts with a different payload'')"

definition gewe_webhook ::
    "env \<Rightarrow> (8 word list \<Rightarrow> json option) \<Rightarrow> int \<Rightarrow> string \<Rightarrow> string option \<Rightarrow> 8 word list list \<Rightarrow> instant \<Rightarrow> instant \<Rightarrow>
     webhook_inbox list \<Rightarrow> db \<Rightarrow> (http_error, unit) res \<times> db" where
  "gewe_webhook E loads limit secret content_length chunks now clock raced s =
     (case bind_res (bounded_body limit content_length chunks) (\<lambda>raw.
             bind_res (decode_json_object loads raw) (\<lambda>payload. Inr (raw, payload))) of
        Inl e \<Rightarrow> (Inl e, s)
      | Inr (raw, payload) \<Rightarrow>
          (case ingest_gewe_webhook E secret raw payload now clock raced s of
             Inl e \<Rightarrow> (Inl (webhook_http_error e), s)
           | Inr (_, s') \<Rightarrow> (Inr (), s')))"

section \<open>Health\<close>

text \<open>\<open>reachable\<close> is the outcome of the ping of the database.\<close>

definition ready :: "bool \<Rightarrow> bool \<Rightarrow> bool \<Rightarrow> bool \<Rightarrow> (http_error, string) res" where
  "ready reachable testing sender_running dispatcher_running =
     (if \<not> reachable then Inl (http_error 503 ''database unavailable'')
      else if \<not> testing \<and> (\<not> sender_running \<or> \<not> dispatcher_running)
      then Inl (http_error 503 ''background workers unavailable'')
      else Inr ''ready'')"

section \<open>Properties\<close>

lemma read_chunks_concat:
  "read_chunks limit body chunks =
     (if chunks = [] \<or> int (length (body @ concat chunks)) \<le> limit then Inr (body @ concat chunks) else Inl too_large)"
proof (induction chunks arbitrary: body)
  case (Cons c cs)
  then show ?case using Cons.IH[of "body @ c"] by (cases "cs = []") (auto simp: Let_def)
qed simp

lemma bounded_body_concat:
  assumes "0 \<le> limit"
  shows "bounded_body limit header chunks =
     (if (case Option.bind header py_int of Some n \<Rightarrow> limit < n | None \<Rightarrow> False) \<or> limit < int (length (concat chunks))
      then Inl too_large else Inr (concat chunks))"
  using assms by (auto simp: bounded_body_def read_chunks_concat split: option.splits)

text \<open>
  How the body of a callback arrives does not matter: in whatever pieces, the answer and the
  effect are those of the body in one piece.  A callback is accepted only if its body is within the
  limit, is a JSON object and is taken in; a refused callback changes nothing.
\<close>

theorem callback_accepted_iff_taken_in:
  assumes "0 < limit" "gewe_webhook E loads limit secret header chunks now clock raced s = (r, s')"
  shows "gewe_webhook E loads limit secret header [concat chunks] now clock raced s = (r, s') \<and>
    (case r of Inr _ \<Rightarrow> int (length (concat chunks)) \<le> limit \<and>
        (\<exists>payload result. loads (concat chunks) = Some payload \<and> is_obj payload \<and>
           ingest_gewe_webhook E secret (concat chunks) payload now clock raced s = Inr (result, s'))
     | Inl e \<Rightarrow> s' = s \<and> he_status e \<in> {400, 404, 409, 413})"
proof -
  have body: "bounded_body limit header [concat chunks] = bounded_body limit header chunks"
    using assms(1) by (simp add: bounded_body_concat)
  have "case r of Inr _ \<Rightarrow> int (length (concat chunks)) \<le> limit \<and>
        (\<exists>payload result. loads (concat chunks) = Some payload \<and> is_obj payload \<and>
           ingest_gewe_webhook E secret (concat chunks) payload now clock raced s = Inr (result, s'))
     | Inl e \<Rightarrow> s' = s \<and> he_status e \<in> {400, 404, 409, 413}"
    using assms
    by (auto simp: gewe_webhook_def bounded_body_concat decode_json_object_def webhook_http_error_def too_large_def
        http_error_def bind_res_def split: if_splits option.splits sum.splits webhook_error.splits)
  then show ?thesis using assms(2) body by (simp add: gewe_webhook_def)
qed

lemma message_query_mem:
  "(e, w) \<in> set (message_query s) \<longleftrightarrow> e \<in> set (events s) \<and> w \<in> set (inboxes s) \<and> wi_id w = ne_webhook_inbox_id e"
  by (auto simp: message_query_def)

lemma message_of_event:
  assumes "unique_by ne_id (events s)" "unique_by wi_id (inboxes s)" "e \<in> set (events s)" "w \<in> set (inboxes s)"
    and w: "wi_id w = ne_webhook_inbox_id e"
  shows "get_observed_message s (ne_id e) = Inr (message_detail_of (e, w))"
proof -
  have rows: "filter (\<lambda>(e', w'). ne_id e' = ne_id e) (concat (map (\<lambda>e'. map (Pair e') (filter (\<lambda>w. wi_id w = ne_webhook_inbox_id e') (inboxes s))) es)) =
      concat (map (\<lambda>e'. map (Pair e') (filter (\<lambda>w. wi_id w = ne_webhook_inbox_id e') (inboxes s))) (filter (\<lambda>e'. ne_id e' = ne_id e) es))" for es
    by (induction es) (auto simp: filter_map o_def)
  have one: "filter (\<lambda>e'. ne_id e' = ne_id e) (events s) = [e]"
    by (rule filter_unique_row[OF assms(1) get_row_unique[OF assms(1,3) refl]])
  have inbox: "filter (\<lambda>x. wi_id x = ne_webhook_inbox_id e) (inboxes s) = [w]"
    using filter_unique_row[OF assms(2) get_row_unique[OF assms(2,4)]] w by simp
  have "filter (\<lambda>(e', w'). ne_id e' = ne_id e) (message_query s) = [(e, w)]"
    unfolding message_query_def rows one by (simp add: inbox)
  then show ?thesis by (simp add: get_observed_message_def)
qed

text \<open>
  C24: An accepted callback that adds an event can be seen at once: the message is shown with the
  very payload and its digest, and its trace is found.
\<close>

theorem accepted_callback_is_visible:
  assumes "0 < limit" "gewe_webhook E loads limit secret header chunks now clock raced s = (Inr (), s')"
    and "events s' \<noteq> events s" "unique_by wi_id (inboxes s')" "unique_by ne_id (events s')"
  shows "\<exists>i d t. get_observed_message s' i = Inr d \<and> loads (concat chunks) = Some (md_raw_payload d) \<and>
    md_payload_sha256 d = sha256_bytes E (concat chunks) \<and> get_trace s' (ms_trace_id d) = Inr t \<and> tv_message t \<noteq> None"
proof -
  obtain payload result where p: "loads (concat chunks) = Some payload"
    and ingest: "ingest_gewe_webhook E secret (concat chunks) payload now clock raced s = Inr (result, s')"
    using assms(1,2) by (auto simp: gewe_webhook_def bounded_body_concat decode_json_object_def bind_res_def
        split: if_splits option.splits sum.splits)
  from ingest show ?thesis
  proof (cases rule: ingest_cases)
    case (new c w e)
    let ?d = "message_detail_of (e, w)"
    have mem: "e \<in> set (events s')" "w \<in> set (inboxes s')" using new by auto
    have "(e, w) \<in> set (filter (\<lambda>(e, x). wi_trace_id x = wi_trace_id w) (message_query s'))"
      using mem new(8) by (simp add: message_query_mem)
    then obtain row rows where rows: "sort_key (\<lambda>(e, w). wi_created_at w) (filter (\<lambda>(e, x). wi_trace_id x = wi_trace_id w) (message_query s'))
        = row # rows"
      by (metis (no_types, lifting) list.exhaust list.set(1) empty_iff set_sort)
    have sel: "ms_trace_id ?d = wi_trace_id w" "md_raw_payload ?d = payload" "md_payload_sha256 ?d = sha256_bytes E (concat chunks)"
      using new by (simp_all add: message_detail_of_def message_summary_of_def message_summary.defs message_detail.defs)
    have "\<exists>t. get_trace s' (wi_trace_id w) = Inr t \<and> tv_message t \<noteq> None" by (simp add: get_trace_def rows Let_def)
    then show ?thesis
      using message_of_event[OF assms(5,4) mem] new(8) p sel by metis
  qed (use assms(3) in auto)
qed

definition sample_body :: "8 word list list" where
  "sample_body = [[1], [2]]"

lemma sample_callback:
  obtains s' where "gewe_webhook webhook_env (\<lambda>_. Some webhook_payload) 100 ''secret'' (Some ''2'') sample_body 5 6 [] webhook_db = (Inr (), s')"
    "length (inboxes s') = 1" "length (events s') = 1"
proof -
  obtain res s' where ok: "ingest_gewe_webhook webhook_env ''secret'' [1, 2] webhook_payload 5 6 [] webhook_db = Inr (res, s')"
    "wr_duplicate res = False" by (rule webhook_sample)
  have header: "py_int ''2'' = Some 2" by code_simp
  have obj: "is_obj webhook_payload" by code_simp
  from ok(1) have "length (inboxes s') = 1 \<and> length (events s') = 1"
  proof (cases rule: ingest_cases)
    case (new c b e)
    then show ?thesis by (simp add: webhook_db_def empty_db_def)
  qed (use ok(2) in auto)
  then show thesis
    using that[of s'] ok header obj
    by (simp add: gewe_webhook_def bounded_body_concat sample_body_def decode_json_object_def)
qed

theorem accepted_callback_is_visible_witness:
  "\<exists>s' i d. gewe_webhook webhook_env (\<lambda>_. Some webhook_payload) 100 ''secret'' (Some ''2'') sample_body 5 6 [] webhook_db = (Inr (), s') \<and>
     get_observed_message s' i = Inr d \<and> md_raw_payload d = webhook_payload"
proof -
  obtain s' where ok: "gewe_webhook webhook_env (\<lambda>_. Some webhook_payload) 100 ''secret'' (Some ''2'') sample_body 5 6 [] webhook_db = (Inr (), s')"
    and one: "length (inboxes s') = 1" "length (events s') = 1" by (rule sample_callback)
  have u: "unique_by wi_id (inboxes s')" "unique_by ne_id (events s')"
    using one by (auto simp: unique_by_def length_Suc_conv)
  have "events s' \<noteq> events webhook_db" using one by (auto simp: webhook_db_def empty_db_def)
  from accepted_callback_is_visible[OF _ ok this u] obtain i d where "get_observed_message s' i = Inr d" "md_raw_payload d = webhook_payload" by auto
  then show ?thesis using ok by blast
qed

theorem callback_accepted_iff_taken_in_witness:
  "\<exists>s'. gewe_webhook webhook_env (\<lambda>_. Some webhook_payload) 100 ''secret'' (Some ''2'') [[1, 2]] 5 6 [] webhook_db = (Inr (), s')"
proof -
  obtain s' where ok: "gewe_webhook webhook_env (\<lambda>_. Some webhook_payload) 100 ''secret'' (Some ''2'') sample_body 5 6 [] webhook_db = (Inr (), s')"
    by (rule sample_callback)
  from callback_accepted_iff_taken_in[OF _ ok] show ?thesis by (auto simp: sample_body_def)
qed

end
