(* ===== verification/Api_Properties.thy ===== *)
theory Api_Properties
  imports Agent_Api Webhook_Api
begin

text \<open>
  Who may use the management interface: every route of \<open>api/\<close> with its method and its permissions,
  and what a request must show to be answered or to change anything.
\<close>

section \<open>The routes\<close>

text \<open>
  A request is answered by a route: with the permissions the route requires, whether the answer is
  a success, and the tables before and after.
\<close>

inductive agent_change :: "auth_env \<Rightarrow> auth_settings \<Rightarrow> http_request \<Rightarrow> instant \<Rightarrow> string list \<Rightarrow> bool \<Rightarrow> app_db \<Rightarrow> app_db \<Rightarrow> bool"
  for E S rq where
  Create_Definition: "rq_method rq = ''POST'' \<Longrightarrow> create_definition_route E S rq payload raced clock s = (r, s') \<Longrightarrow>
    agent_change E S rq (clock 0) [''agent.write''] (\<not> isl r) s s'"
| Publish_Version: "rq_method rq = ''POST'' \<Longrightarrow> publish_version_route E S rq i specification raced clock s = (r, s') \<Longrightarrow>
    agent_change E S rq (clock 0) [''agent.write''] (\<not> isl r) s s'"
| Create_Session: "rq_method rq = ''POST'' \<Longrightarrow> create_agent_session_route E S rq payload clock s = (r, s') \<Longrightarrow>
    agent_change E S rq (clock 0) [''agent.run''] (\<not> isl r) s s'"
| Create_Run: "rq_method rq = ''POST'' \<Longrightarrow> create_run_route E S rq i payload raced clock s = (r, s') \<Longrightarrow>
    agent_change E S rq (clock 0) [''agent.run''] (\<not> isl r) s s'"
| Transition_Run: "rq_method rq = ''POST'' \<Longrightarrow> transition_run_route E S rq i payload clock s = (r, s') \<Longrightarrow>
    agent_change E S rq (clock 0) [''agent.run''] (\<not> isl r) s s'"
| Create_Question: "rq_method rq = ''POST'' \<Longrightarrow> create_question_route E S rq i payload raced clock s = (r, s') \<Longrightarrow>
    agent_change E S rq (clock 0) [''agent.run''] (\<not> isl r) s s'"
| Override_Question: "rq_method rq = ''POST'' \<Longrightarrow> override_question_route E S rq i payload clock s = (r, s') \<Longrightarrow>
    agent_change E S rq (clock 0) [''agent.question.override''] (\<not> isl r) s s'"

inductive management_request :: "auth_env \<Rightarrow> auth_settings \<Rightarrow> http_request \<Rightarrow> instant \<Rightarrow> string list \<Rightarrow> bool \<Rightarrow> app_db \<Rightarrow> app_db \<Rightarrow> bool"
  for E S rq where
  List_Bot_Accounts: "rq_method rq = ''GET'' \<Longrightarrow> list_bot_accounts E S rq connection limit offset now s = (r, s') \<Longrightarrow>
    management_request E S rq now account_read (\<not> isl r) s s'"
| List_Connections: "rq_method rq = ''GET'' \<Longrightarrow> list_connections_route E S C rq now s = (r, s') \<Longrightarrow>
    management_request E S rq now connection_read (\<not> isl r) s s'"
| Get_Connection: "rq_method rq = ''GET'' \<Longrightarrow> get_connection_route E S C rq i now s = (r, s') \<Longrightarrow>
    management_request E S rq now connection_read (\<not> isl r) s s'"
| List_Contacts: "rq_method rq = ''GET'' \<Longrightarrow> list_contacts_route E S rq i limit offset now s = (r, s') \<Longrightarrow>
    management_request E S rq now directory_read (\<not> isl r) s s'"
| List_Chatrooms: "rq_method rq = ''GET'' \<Longrightarrow> list_chatrooms_route E S rq i limit offset now s = (r, s') \<Longrightarrow>
    management_request E S rq now directory_read (\<not> isl r) s s'"
| List_Members: "rq_method rq = ''GET'' \<Longrightarrow> list_members_route E S rq i include_left limit offset now s = (r, s') \<Longrightarrow>
    management_request E S rq now directory_read (\<not> isl r) s s'"
| Find_Principal: "rq_method rq = ''GET'' \<Longrightarrow> find_principal_route E S rq ws chatroom membership now s = (r, s') \<Longrightarrow>
    management_request E S rq now (policy_read @ [''directory.read'']) (\<not> isl r) s s'"
| List_Rules: "rq_method rq = ''GET'' \<Longrightarrow> list_rules_route E S rq wanted kind scope include_revoked now s = (r, s') \<Longrightarrow>
    management_request E S rq now policy_read (\<not> isl r) s s'"
| List_Outbox: "rq_method rq = ''GET'' \<Longrightarrow> list_outbox_route E S rq account status limit offset now s = (r, s') \<Longrightarrow>
    management_request E S rq now [outbox_read] (\<not> isl r) s s'"
| Get_Outbox: "rq_method rq = ''GET'' \<Longrightarrow> get_outbox_route E S rq i now s = (r, s') \<Longrightarrow>
    management_request E S rq now [outbox_read] (\<not> isl r) s s'"
| List_Messages: "rq_method rq = ''GET'' \<Longrightarrow> list_messages_route E S rq f limit offset now s = (r, s') \<Longrightarrow>
    management_request E S rq now [''message.read''] (\<not> isl r) s s'"
| Get_Message: "rq_method rq = ''GET'' \<Longrightarrow> get_message_route E S rq i now s = (r, s') \<Longrightarrow>
    management_request E S rq now [''message.read''] (\<not> isl r) s s'"
| Get_Trace: "rq_method rq = ''GET'' \<Longrightarrow> get_trace_route E S rq i now s = (r, s') \<Longrightarrow>
    management_request E S rq now [''audit.read''] (\<not> isl r) s s'"
| Plugin_Context: "rq_method rq = ''GET'' \<Longrightarrow> plugin_context_route E S rq now s = (r, s') \<Longrightarrow>
    management_request E S rq now plugin_read (\<not> isl r) s s'"
| Plugin_Catalog: "rq_method rq = ''GET'' \<Longrightarrow> plugin_catalog_route E S rq now s = (r, s') \<Longrightarrow>
    management_request E S rq now plugin_read (\<not> isl r) s s'"
| Revision_Draft: "rq_method rq = ''GET'' \<Longrightarrow> revision_draft_route E S W rq i revision now s = (r, s') \<Longrightarrow>
    management_request E S rq now plugin_read (\<not> isl r) s s'"
| Get_Agent_Context: "rq_method rq = ''GET'' \<Longrightarrow> get_agent_context E S rq now s = (r, s') \<Longrightarrow>
    management_request E S rq now [''agent.read''] (\<not> isl r) s s'"
| List_Definitions: "rq_method rq = ''GET'' \<Longrightarrow> list_definitions_route E S rq requested limit offset now s = (r, s') \<Longrightarrow>
    management_request E S rq now [''agent.read''] (\<not> isl r) s s'"
| Get_Definition: "rq_method rq = ''GET'' \<Longrightarrow> get_definition_route E S rq i now s = (r, s') \<Longrightarrow>
    management_request E S rq now [''agent.read''] (\<not> isl r) s s'"
| List_Versions: "rq_method rq = ''GET'' \<Longrightarrow> list_versions_route E S rq i limit offset now s = (r, s') \<Longrightarrow>
    management_request E S rq now [''agent.read''] (\<not> isl r) s s'"
| Get_Version: "rq_method rq = ''GET'' \<Longrightarrow> get_version_route E S rq i now s = (r, s') \<Longrightarrow>
    management_request E S rq now [''agent.read''] (\<not> isl r) s s'"
| List_Sessions: "rq_method rq = ''GET'' \<Longrightarrow> list_sessions_route E S rq requested limit offset now s = (r, s') \<Longrightarrow>
    management_request E S rq now [''agent.read''] (\<not> isl r) s s'"
| Get_Session: "rq_method rq = ''GET'' \<Longrightarrow> get_session_route E S rq i now s = (r, s') \<Longrightarrow>
    management_request E S rq now [''agent.read''] (\<not> isl r) s s'"
| Get_Session_State: "rq_method rq = ''GET'' \<Longrightarrow> get_session_state_route E S rq i history_limit now s = (r, s') \<Longrightarrow>
    management_request E S rq now [''agent.read''] (\<not> isl r) s s'"
| List_Runs: "rq_method rq = ''GET'' \<Longrightarrow> list_runs_route E S rq i limit offset now s = (r, s') \<Longrightarrow>
    management_request E S rq now [''agent.read''] (\<not> isl r) s s'"
| Get_Run: "rq_method rq = ''GET'' \<Longrightarrow> get_run_route E S rq i now s = (r, s') \<Longrightarrow>
    management_request E S rq now [''agent.read''] (\<not> isl r) s s'"
| Register_Bot_Account: "rq_method rq = ''POST'' \<Longrightarrow> register_bot_account E S rq i payload now s = (r, s') \<Longrightarrow>
    management_request E S rq now account_write (\<not> isl r) s s'"
| Login_Qr_Code: "rq_method rq = ''POST'' \<Longrightarrow> login_qr_code_route E S rq i payload provider clock between s = (r, s') \<Longrightarrow>
    management_request E S rq (clock 0) account_write (\<not> isl r) s s'"
| Check_Login: "rq_method rq = ''POST'' \<Longrightarrow> check_login_route E S rq i payload provider clock between s = (r, s') \<Longrightarrow>
    management_request E S rq (clock 0) account_write (\<not> isl r) s s'"
| Check_Online: "rq_method rq = ''POST'' \<Longrightarrow> check_online_route E S rq i answer clock between s = (r, s') \<Longrightarrow>
    management_request E S rq (clock 0) account_write (\<not> isl r) s s'"
| Reconnect: "rq_method rq = ''POST'' \<Longrightarrow> reconnect_route E S rq i answer clock between s = (r, s') \<Longrightarrow>
    management_request E S rq (clock 0) account_write (\<not> isl r) s s'"
| Create_Connection: "rq_method rq = ''POST'' \<Longrightarrow> create_connection_route E S C rq payload raced raced_connections now s = (r, s') \<Longrightarrow>
    management_request E S rq now connection_write (\<not> isl r) s s'"
| Apply_Callback: "rq_method rq = ''POST'' \<Longrightarrow> apply_callback_route E S C rq i answer now s = (r, s') \<Longrightarrow>
    management_request E S rq now connection_write (\<not> isl r) s s'"
| Sync_Directory: "rq_method rq = ''POST'' \<Longrightarrow> sync_directory E S rq options provider i clock s = (r, s') \<Longrightarrow>
    management_request E S rq (clock 0) directory_sync (\<not> isl r) s s'"
| Sync_Members: "rq_method rq = ''POST'' \<Longrightarrow> sync_members_route E S rq provider i clock s = (r, s') \<Longrightarrow>
    management_request E S rq (clock 0) directory_sync (\<not> isl r) s s'"
| Mark_Left: "rq_method rq = ''POST'' \<Longrightarrow> mark_left_route E S rq room i epoch reason clock s = (r, s') \<Longrightarrow>
    management_request E S rq (clock 0) (directory_sync @ [''policy.write'']) (\<not> isl r) s s'"
| Ensure_Principal: "rq_method rq = ''POST'' \<Longrightarrow> ensure_principal_route E S rq ws chatroom membership now s = (r, s') \<Longrightarrow>
    management_request E S rq now (policy_read @ [''directory.read'', ''policy.write'']) (\<not> isl r) s s'"
| Create_Rule: "rq_method rq = ''POST'' \<Longrightarrow> create_rule_route E S rq payload clock s = (r, s') \<Longrightarrow>
    management_request E S rq (clock 0) (policy_read @ [''policy.write'']) (\<not> isl r) s s'"
| Revoke_Rule: "rq_method rq = ''POST'' \<Longrightarrow> revoke_rule_route E S rq i clock s = (r, s') \<Longrightarrow>
    management_request E S rq (clock 0) (policy_read @ [''policy.write'']) (\<not> isl r) s s'"
| Evaluate_Policy: "rq_method rq = ''POST'' \<Longrightarrow> evaluate_policy E S rq payload clock s = (r, s') \<Longrightarrow>
    management_request E S rq (clock 0) (policy_read @ [''policy.evaluate'']) (\<not> isl r) s s'"
| Cancel_Outbox: "rq_method rq = ''POST'' \<Longrightarrow> cancel_outbox_route E S rq i reason clock s = (r, s') \<Longrightarrow>
    management_request E S rq (clock 0) [outbox_manage] (\<not> isl r) s s'"
| Reconcile_Outbox: "rq_method rq = ''POST'' \<Longrightarrow> reconcile_outbox_route E S rq i reason resolution clock s = (r, s') \<Longrightarrow>
    management_request E S rq (clock 0) [outbox_manage] (\<not> isl r) s s'"
| Install_Builtin: "rq_method rq = ''POST'' \<Longrightarrow> install_builtin_route E S W builtin_dir rq plugin ws now s = (r, s') \<Longrightarrow>
    management_request E S rq now plugin_deploy (\<not> isl r) s s'"
| Create_Deployment: "rq_method rq = ''POST'' \<Longrightarrow> create_deployment_route E S W rq payload now s = (r, s') \<Longrightarrow>
    management_request E S rq now plugin_deploy (\<not> isl r) s s'"
| Create_Revision: "rq_method rq = ''POST'' \<Longrightarrow> create_revision_route E S W rq i payload now s = (r, s') \<Longrightarrow>
    management_request E S rq now plugin_deploy (\<not> isl r) s s'"
| Activate_Revision: "rq_method rq = ''POST'' \<Longrightarrow> activate_revision_route E S W rq i revision commits runtime now s = (r, s') \<Longrightarrow>
    management_request E S rq now plugin_deploy (\<not> isl r) s s'"
| Deactivate_Plugin: "rq_method rq = ''POST'' \<Longrightarrow> deactivate_plugin E S W rq i commits runtime now s = (r, s') \<Longrightarrow>
    management_request E S rq now plugin_deploy (\<not> isl r) s s'"
| Invoke_Plugin: "rq_method rq = ''POST'' \<Longrightarrow> invoke_plugin E S rq i payload answer now s = (r, s') \<Longrightarrow>
    management_request E S rq now (plugin_read @ [''plugin.invoke'']) (\<not> isl r) s s'"
| Update_Disabled: "rq_method rq = ''PUT'' \<Longrightarrow> update_disabled E S rq i disabled now s = (r, s') \<Longrightarrow>
    management_request E S rq now account_write (\<not> isl r) s s'"
| Rotate_Connection_Token: "rq_method rq = ''PUT'' \<Longrightarrow> rotate_connection_token E S C rq i token now s = (r, s') \<Longrightarrow>
    management_request E S rq now connection_write (\<not> isl r) s s'"
| Update_Callback_Mode: "rq_method rq = ''PUT'' \<Longrightarrow> update_callback_mode E S C rq i mode now s = (r, s') \<Longrightarrow>
    management_request E S rq now connection_write (\<not> isl r) s s'"
| Update_Connection_Status: "rq_method rq = ''PUT'' \<Longrightarrow> update_connection_status E S C rq i status now s = (r, s') \<Longrightarrow>
    management_request E S rq now connection_write (\<not> isl r) s s'"
| Agent_Changed: "agent_change E S rq now codes ok s s' \<Longrightarrow> management_request E S rq now codes ok s s'"

lemmas read_route_defs = list_bot_accounts_def
  list_connections_route_def
  get_connection_route_def
  list_contacts_route_def
  list_chatrooms_route_def
  list_members_route_def
  find_principal_route_def
  list_rules_route_def
  list_outbox_route_def
  get_outbox_route_def
  list_messages_route_def
  get_message_route_def
  get_trace_route_def
  plugin_context_route_def
  plugin_catalog_route_def
  revision_draft_route_def
  get_agent_context_def
  list_definitions_route_def
  get_definition_route_def
  list_versions_route_def
  get_version_route_def
  list_sessions_route_def
  get_session_route_def
  get_session_state_route_def
  list_runs_route_def
  get_run_route_def

lemmas change_route_defs = register_bot_account_def
  login_qr_code_route_def
  check_login_route_def
  check_online_route_def
  reconnect_route_def
  create_connection_route_def
  apply_callback_route_def
  sync_directory_def
  sync_members_route_def
  mark_left_route_def
  ensure_principal_route_def
  create_rule_route_def
  revoke_rule_route_def
  evaluate_policy_def
  cancel_outbox_route_def
  reconcile_outbox_route_def
  install_builtin_route_def
  create_deployment_route_def
  create_revision_route_def
  activate_revision_route_def
  deactivate_plugin_def
  invoke_plugin_def
  update_disabled_def
  rotate_connection_token_def
  update_callback_mode_def
  update_connection_status_def

lemmas agent_route_defs = create_definition_route_def
  publish_version_route_def
  create_agent_session_route_def
  create_run_route_def
  transition_run_route_def
  create_question_route_def
  override_question_route_def

section \<open>Authorisation\<close>

text \<open>
  What a request shows: the token of a live session whose account has the permissions, and the
  request token of the session if the method is not a safe one.
\<close>

definition shows_credentials :: "auth_env \<Rightarrow> http_request \<Rightarrow> instant \<Rightarrow> string list \<Rightarrow> auth_db \<Rightarrow> auth_principal \<Rightarrow> bool" where
  "shows_credentials E rq now codes a p \<longleftrightarrow> (\<exists>token row user. rq_session_cookie rq = Some token \<and>
     session_row E a token = Some (row, user) \<and> invalid_reason row user now = None \<and> p = load_principal a user (se_id row) \<and>
     (is_owner p \<or> set codes \<subseteq> pn_permissions p) \<and>
     (rq_method rq \<in> set safe_methods \<or>
       (\<exists>h. rq_csrf_header rq = Some h \<and> rq_csrf_cookie rq = Some h \<and> hash_token E h = se_csrf_token_hash row)))"

lemma require_permissions_Inr:
  "require_permissions codes p = Inr q \<Longrightarrow> q = p \<and> (is_owner p \<or> set codes \<subseteq> pn_permissions p)"
  by (induction codes arbitrary: p)
    (auto simp: require_permission_def bind_res_Inr_iff split: if_splits option.splits)

text \<open>A request reaches its route only with credentials; otherwise only the session check has effects.\<close>

lemma management_route_cases:
  assumes "management_route E S codes rq now input serve s = (r, s')"
  obtains (refused) e where "r = Inl e" "app_agent s' = app_agent s"
  | (served) p b a where "shows_credentials E rq now codes (app_auth s) p" "input = Some b" "serve p b (s\<lparr>app_auth := a\<rparr>) = (r, s')"
proof -
  let ?token = "case rq_session_cookie rq of None \<Rightarrow> [] | Some t \<Rightarrow> t"
  obtain x a where auth: "authenticate_session E S ?token now (app_auth s) = (x, a)" by fastforce
  show thesis
  proof (cases x)
    case (Inl e)
    then show thesis using assms auth by (intro refused) (auto simp: management_route_def get_auth_context_def)
  next
    case (Inr c)
    obtain row user where row: "?token \<noteq> []" "session_row E (app_auth s) ?token = Some (row, user)" "invalid_reason row user now = None"
      "cx_principal c = load_principal (app_auth s) user (se_id row)" "cx_csrf_token_hash c = se_csrf_token_hash row"
      using auth Inr by (auto simp: authenticate_session_def Let_def split: if_splits option.splits)
    then obtain token where token: "rq_session_cookie rq = Some token" by (cases "rq_session_cookie rq") auto
    let ?guard = "bind_res (require_management_request E rq c) (\<lambda>_. require_permissions codes (cx_principal c))"
    have route: "management_route E S codes rq now input serve s = (case ?guard of Inl e \<Rightarrow> (Inl e, s\<lparr>app_auth := a\<rparr>)
        | Inr p \<Rightarrow> (case input of None \<Rightarrow> (Inl unprocessable, s\<lparr>app_auth := a\<rparr>) | Some b \<Rightarrow> serve p b (s\<lparr>app_auth := a\<rparr>)))"
      using auth Inr by (simp add: management_route_def get_auth_context_def Let_def)
    show thesis
    proof (cases ?guard)
      case (Inl e)
      then show thesis using assms route by (intro refused) auto
    next
      case g: (Inr p)
      have p: "p = cx_principal c" "is_owner p \<or> set codes \<subseteq> pn_permissions p"
        using g require_permissions_Inr by (auto simp: bind_res_Inr_iff)
      have csrf: "rq_method rq \<in> set safe_methods \<or>
          (\<exists>h. rq_csrf_header rq = Some h \<and> rq_csrf_cookie rq = Some h \<and> hash_token E h = cx_csrf_token_hash c)"
        using g by (auto simp: bind_res_Inr_iff require_management_request_def csrf_accepted split: if_splits)
      have shown: "shows_credentials E rq now codes (app_auth s) p"
        unfolding shows_credentials_def using row token p csrf by auto
      show thesis
      proof (cases input)
        case None
        then show thesis using assms route g by (intro refused) auto
      next
        case (Some b)
        then show thesis using assms route g shown by (intro served) auto
      qed
    qed
  qed
qed

definition authorised_change :: "auth_env \<Rightarrow> http_request \<Rightarrow> instant \<Rightarrow> string list \<Rightarrow> bool \<Rightarrow> app_db \<Rightarrow> app_db \<Rightarrow> bool" where
  "authorised_change E rq now codes ok s s' \<longleftrightarrow>
     ok \<or> app_agent s' \<noteq> app_agent s \<longrightarrow> (\<exists>p. shows_credentials E rq now codes (app_auth s) p)"

lemma management_route_authorised:
  "management_route E S codes rq now input serve s = (r, s') \<Longrightarrow> authorised_change E rq now codes (\<not> isl r) s s'"
  by (erule management_route_cases) (auto simp: authorised_change_def)

lemma db_route_authorised:
  "db_route E S codes rq now input to_http service s = (r, s') \<Longrightarrow> authorised_change E rq now codes (\<not> isl r) s s'"
  unfolding db_route_def by (rule management_route_authorised)

lemma audited_route_authorised:
  "audited_route E S codes rq now input action failed_type failed_id type recorded service s = (r, s') \<Longrightarrow>
    authorised_change E rq now codes (\<not> isl r) s s'"
  unfolding audited_route_def by (rule management_route_authorised)

lemma read_route_reads:
  "read_route E S codes rq now input to_http service s = (r, s') \<Longrightarrow>
    authorised_change E rq now codes (\<not> isl r) s s' \<and> app_agent s' = app_agent s"
  unfolding read_route_def by (erule management_route_cases) (auto simp: authorised_change_def)

lemma agent_read_route_reads:
  "agent_read_route E S rq now input requested service s = (r, s') \<Longrightarrow>
    authorised_change E rq now [''agent.read''] (\<not> isl r) s s' \<and> app_agent s' = app_agent s"
  unfolding agent_read_route_def
  by (erule management_route_cases) (auto simp: authorised_change_def split: sum.split_asm)

text \<open>The permissions a route asks for are permissions that exist.\<close>

lemmas route_codes = account_read_def account_write_def connection_read_def connection_write_def directory_read_def directory_sync_def
  policy_read_def outbox_read_def outbox_manage_def plugin_read_def plugin_deploy_def system_permission_catalog_def

lemma agent_change_authorised:
  "agent_change E S rq now codes ok s s' \<Longrightarrow> authorised_change E rq now codes ok s s' \<and> rq_method rq = ''POST''"
  by (cases rule: agent_change.cases, assumption)
    (unfold agent_route_defs, (drule audited_route_authorised, simp)+)

lemma management_request_codes:
  "management_request E S rq now codes ok s s' \<Longrightarrow> codes \<noteq> [] \<and> set codes \<subseteq> fst ` set system_permission_catalog"
  by (induction rule: management_request.induct) (auto simp: route_codes elim: agent_change.cases)

lemma management_request_authorised:
  "management_request E S rq now codes ok s s' \<Longrightarrow> authorised_change E rq now codes ok s s' \<and>
    (rq_method rq \<in> set safe_methods \<longrightarrow> app_agent s' = app_agent s)"
  by (cases rule: management_request.cases, assumption)
    (unfold read_route_defs change_route_defs,
      (drule db_route_authorised management_route_authorised read_route_reads agent_read_route_reads agent_change_authorised,
       simp add: safe_methods_def)+)


section \<open>The record of the task agent\<close>

lemma alloc_agent_audits [simp]: "audits (core (snd (alloc_agent E w))) = audits (core w)"
  by (simp add: alloc_agent_def alloc_def)

lemma append_event_audits: "append_event E ss kind payload run question w = Inr (ss', w') \<Longrightarrow> audits (core w') = audits (core w)"
  by (auto simp: append_event_def bind_res_Inr_iff alloc_agent_def alloc_def Let_def)

lemma append_inbox_audits: "append_inbox E ss run p kind payload sha question w = (item, ss', w') \<Longrightarrow> audits (core w') = audits (core w)"
  by (auto simp: append_inbox_def alloc_agent_def alloc_def Let_def)

lemma transition_locked_audits:
  "transition_locked E ss run target reason code now w = Inr (r, w') \<Longrightarrow> audits (core w') = audits (core w)"
  by (auto simp: transition_locked_def bind_res_Inr_iff close_open_questions_def Let_def dest!: append_event_audits split: if_splits)

lemma admin_principal_audits: "admin_principal E ws p w = Inr (pr, w') \<Longrightarrow> audits (core w') = audits (core w)"
  by (auto simp: admin_principal_def resolve_admin_principal_def bind_res_Inr_iff alloc_agent_def alloc_def Let_def
      split: option.splits)

lemma create_definition_audits: "create_definition E p raced clock w = Inr (d, w') \<Longrightarrow> audits (core w') = audits (core w)"
  by (auto simp: create_definition_def bind_res_Inr_iff alloc_agent_def alloc_def Let_def split: if_splits)

lemma publish_version_audits: "publish_version E i p wanted raced clock w = Inr (v, w') \<Longrightarrow> audits (core w') = audits (core w)"
  by (auto simp: publish_version_def bind_res_Inr_iff alloc_agent_def alloc_def Let_def split: if_splits)

lemma create_session_audits: "Task_Agent.create_session E p clock w = Inr (x, w') \<Longrightarrow> audits (core w') = audits (core w)"
  by (auto simp: Task_Agent.create_session_def bind_res_Inr_iff alloc_agent_def alloc_def Let_def dest!: append_event_audits)

lemma map_sum_id_Inr: "map_sum id f r = Inr y \<longleftrightarrow> (\<exists>x. r = Inr x \<and> y = f x)"
  by (cases r) auto

lemma create_run_audits: "create_run E i p wanted raced clock w = Inr (x, w') \<Longrightarrow> audits (core w') = audits (core w)"
  by (auto simp: create_run_def bind_res_Inr_iff alloc_agent_def alloc_def Let_def map_sum_id_Inr
      dest!: append_event_audits append_inbox_audits split: if_split_asm option.split_asm prod.split_asm)

lemma ask_question_audits: "ask_question E i p wanted raced clock w = Inr (x, w') \<Longrightarrow> audits (core w') = audits (core w)"
  by (auto simp: ask_question_def bind_res_Inr_iff alloc_agent_def alloc_def Let_def
      dest!: append_event_audits transition_locked_audits split: if_split_asm prod.split_asm)

lemma transition_run_audits: "transition_run E i p wanted clock w = Inr (x, w') \<Longrightarrow> audits (core w') = audits (core w)"
  by (auto simp: transition_run_def bind_res_Inr_iff dest: transition_locked_audits split: if_splits)

lemma consume_answer_audits:
  assumes "consume_answer E ss run q actor payload mode reason transition clock w = Inr (x, w')"
  shows "audits (core w') = audits (core w)"
proof -
  obtain answer sha where n: "normalize_json E payload ''answer_payload'' = Inr (answer, sha)"
    using assms by (auto simp: consume_answer_def bind_res_Inr_iff)
  obtain item ss1 w1 where inbox: "append_inbox E ss (rn_id run) actor Ik_QUESTION_ANSWER answer sha (Some (pq_id q)) w = (item, ss1, w1)"
    by (cases "append_inbox E ss (rn_id run) actor Ik_QUESTION_ANSWER answer sha (Some (pq_id q)) w")
  show ?thesis using assms append_inbox_audits[OF inbox]
    by (auto simp: consume_answer_def n inbox bind_res_Inr_iff Let_def dest!: append_event_audits transition_locked_audits)
qed

lemma override_audits: "override_answer_question E i p actor wanted clock w = Inr (x, w') \<Longrightarrow> audits (core w') = audits (core w)"
  by (auto simp: override_answer_question_def bind_res_Inr_iff dest: consume_answer_audits)

text \<open>
  The record a change leaves: who did what, in the only workspace, and how it ended; a change that
  fails leaves nothing else.
\<close>

definition leaves_record :: "auth_env \<Rightarrow> http_request \<Rightarrow> instant \<Rightarrow> string list \<Rightarrow> bool \<Rightarrow> app_db \<Rightarrow> app_db \<Rightarrow> bool" where
  "leaves_record E rq now codes ok s s' \<longleftrightarrow> (\<exists>p ws a. shows_credentials E rq now codes (app_auth s) p \<and>
     workspaces (app_rows s) = [ws] \<and> au_workspace_id a = ws_id ws \<and> au_actor_type a = ''ADMIN_USER'' \<and>
     au_actor_id a = uuid_str (pn_user_id p) \<and> au_result a = (if ok then ''SUCCESS'' else ''FAILURE'') \<and>
     audits (app_rows s') = audits (app_rows s) @ [a] \<and> (\<not> ok \<longrightarrow> app_agent s' = add_audit a (app_agent s)))"

lemma resolve_workspace_Inr: "resolve_workspace d None = Inr w \<Longrightarrow> workspaces d = [w]"
proof -
  assume r: "resolve_workspace d None = Inr w"
  let ?ws = "sort_key ws_id (workspaces d)"
  have "?ws = [w]"
  proof (cases ?ws)
    case (Cons x xs)
    then show ?thesis using r by (cases xs) (auto simp: resolve_workspace_def)
  qed (use r in \<open>simp add: resolve_workspace_def\<close>)
  then have "length (workspaces d) = 1" "set (workspaces d) = {w}"
    using length_sort[of ws_id "workspaces d"] set_sort[of ws_id "workspaces d"] by simp_all
  then show ?thesis by (cases "workspaces d") auto
qed

lemma audited_route_recorded:
  assumes "audited_route E S codes rq now input action failed_type failed_id type recorded service s = (r, s')"
    and keeps: "\<And>p ws b w v w'. service p ws b w = Inr (v, w') \<Longrightarrow> audits (core w') = audits (core w)"
  shows "\<not> \<not> isl r \<and> app_agent s' = app_agent s \<or> leaves_record E rq now codes (\<not> isl r) s s'"
  using assms(1) unfolding audited_route_def
proof (cases rule: management_route_cases)
  case (served p b a)
  show ?thesis
  proof (cases "resolve_workspace (app_rows s) None")
    case (Inl e)
    then show ?thesis using served(3) by auto
  next
    case ws: (Inr ws)
    let ?audited = "route_audit (ws_id ws) p"
    show ?thesis
    proof (cases "service p ws b (app_agent s)")
      case (Inl e)
      show ?thesis
      proof (cases "\<exists>m. e = AgentValueError m")
        case True
        then show ?thesis using served(3) ws Inl by auto
      next
        case False
        then have "r = Inl (task_agent_http_error e)"
          "s' = s\<lparr>app_auth := a, app_agent := audit_failure (ws_id ws) p \<lparr>aa_action = action, aa_object_type = failed_type\<rparr> (failed_id b) e (app_agent s)\<rparr>"
          using served(3) ws Inl by (cases e; simp)+
        then have "leaves_record E rq now codes (\<not> isl r) s s'"
          unfolding leaves_record_def using served(1) resolve_workspace_Inr[OF ws]
          by (intro exI[of _ p] exI[of _ ws] exI[of _ "?audited \<lparr>aa_action = action, aa_object_type = failed_type\<rparr> (failed_id b) ''FAILURE''
              [(''error_type'', JStr (fst (agent_error_parts e))), (''error'', JStr (snd (agent_error_parts e)))]"])
            (simp add: audit_failure_def add_audit_def route_audit_def)
        then show ?thesis ..
      qed
    next
      case (Inr x)
      obtain v w where x: "x = (v, w)" by fastforce
      have "r = Inr v" "s' = s\<lparr>app_auth := a, app_agent := add_audit (?audited \<lparr>aa_action = action, aa_object_type = type\<rparr>
          (fst (recorded b v)) ''SUCCESS'' (snd (recorded b v))) w\<rparr>"
        using served(3) ws Inr x by simp_all
      then have "leaves_record E rq now codes (\<not> isl r) s s'"
        unfolding leaves_record_def using served(1) resolve_workspace_Inr[OF ws] keeps[OF Inr[unfolded x]]
        by (intro exI[of _ p] exI[of _ ws] exI[of _ "?audited \<lparr>aa_action = action, aa_object_type = type\<rparr>
              (fst (recorded b v)) ''SUCCESS'' (snd (recorded b v))"])
          (simp add: add_audit_def route_audit_def)
      then show ?thesis ..
    qed
  qed
qed auto


section \<open>A sample request\<close>

text \<open>The owner disables an account.\<close>

definition sample_app :: app_db where
  "sample_app = \<lparr>app_auth = sample_logged_in, app_agent = new_agent_db (sample_db [])\<rparr>"

definition sample_http_request :: "string \<Rightarrow> http_request" where
  "sample_http_request kind = \<lparr>rq_method = kind, rq_session_cookie = Some ''t'', rq_csrf_cookie = Some ''tt'',
     rq_csrf_header = Some ''tt'', rq_client_host = None, rq_user_agent = None\<rparr>"

lemma sample_admitted:
  "\<exists>c a. get_auth_context auth_sample_env auth_sample_settings (sample_http_request kind) 5 sample_logged_in = (Inr c, a) \<and>
     require_management_request auth_sample_env (sample_http_request kind) c = Inr c \<and> is_owner (cx_principal c) \<and>
     pn_user_id (cx_principal c) = 23 \<and> pn_username (cx_principal c) = ''Root''"
proof -
  have "\<exists>c a. authenticate_session auth_sample_env auth_sample_settings ''t'' 5 sample_logged_in = (Inr c, a) \<and> cx_csrf_token_hash c = ''tt'' \<and>
      cx_principal c = load_principal sample_logged_in (sample_owner\<lparr>us_last_login_at := Some 0\<rparr>) 24"
    by (simp add: authenticate_session_def sample_session_row invalid_reason_def Auth_Properties.sample_session_def sample_owner_def Let_def)
  then obtain c a where a: "authenticate_session auth_sample_env auth_sample_settings ''t'' 5 sample_logged_in = (Inr c, a)"
    "cx_csrf_token_hash c = ''tt''" "cx_principal c = load_principal sample_logged_in (sample_owner\<lparr>us_last_login_at := Some 0\<rparr>) 24"
    by blast
  have "is_owner (cx_principal c)" "pn_user_id (cx_principal c) = 23" "pn_username (cx_principal c) = ''Root''"
    by (simp_all add: a(3) is_owner_def load_principal_def Let_def roles_of_def sample_logged_in_sel sample_owned_sel sample_owner_def)
  moreover have "require_authenticated_csrf auth_sample_env (sample_http_request kind) c = Inr c"
    by (simp add: csrf_accepted sample_http_request_def a(2) hash_token_def)
  ultimately show ?thesis
    using a(1) by (simp add: get_auth_context_def sample_http_request_def require_management_request_def)
qed

lemma owner_permitted:
  assumes "is_owner p" "list_all (fullmatch permission_code_pattern) codes"
  shows "require_permissions codes p = Inr p"
  using assms by (induction codes) (simp_all add: require_permission_def)

lemma sample_served:
  assumes "list_all (fullmatch permission_code_pattern) codes"
  shows "\<exists>p a. is_owner p \<and> pn_user_id p = 23 \<and> pn_username p = ''Root'' \<and>
    (\<forall>serve. management_route auth_sample_env auth_sample_settings codes (sample_http_request kind) 5 (Some b) serve sample_app =
      serve p b (sample_app\<lparr>app_auth := a\<rparr>))"
proof -
  obtain c a where c: "get_auth_context auth_sample_env auth_sample_settings (sample_http_request kind) 5 sample_logged_in = (Inr c, a)"
    "require_management_request auth_sample_env (sample_http_request kind) c = Inr c" "is_owner (cx_principal c)"
    "pn_user_id (cx_principal c) = 23" "pn_username (cx_principal c) = ''Root''"
    using sample_admitted by blast
  have "management_route auth_sample_env auth_sample_settings codes (sample_http_request kind) 5 (Some b) serve sample_app =
      serve (cx_principal c) b (sample_app\<lparr>app_auth := a\<rparr>)" for serve
    using c owner_permitted[OF c(3) assms] by (simp add: management_route_def sample_app_def Let_def)
  then show ?thesis using c by blast
qed


definition sample_new_definition :: agent_definition_create where
  "sample_new_definition = \<lparr>agent_definition_create.dc_workspace_id = 1, dc_definition_key = ''k'', agent_definition_create.dc_name = ''n'', dc_description = []\<rparr>"


end
