(* ===== verification/Spec2Isabelle.thy ===== *)
theory Spec2Isabelle
  imports Policy Outbox Sender Webhook Manifest Plugin_Scope Dispatcher Delivery Event_Worker Plugin_Config Plugin_Package Catalog Supervisor Agent_Properties Auth_Throttle Directory_Sync Accounts Connections Plugin_Process Api_Properties
begin

text \<open>
  A verification development for the backend of the WeChat bot
  (\<open>src/backend/src/wechat_bot\<close>).

  \<^bold>\<open>The program.\<close>  A provider (GeWe) posts chat messages to a webhook, which keeps each one once
  and normalises it to an event.  A worker claims events and dispatches them: the conversation and
  its actor are resolved, the running plugin deployments whose scope matches and whose command the
  text names are selected, the access rules decide whether each may be called, and the replies of
  a plugin enter the outbox.  A second worker claims outbox messages, checks that they are still
  authorised, waits for the rate limits and hands them to the provider.  Administrators manage
  connections, accounts, the directory of contacts and groups, rules, plugins and their own
  accounts through an HTTP interface with sessions and request tokens.  Plugins run in processes
  of their own under a supervisor.  A task agent keeps sessions, runs and questions.

  \<^bold>\<open>Theories.\<close>
  \<^item> \<open>Prelude\<close>: results with errors, rows kept in tables by a key, UTF-8, JSON documents,
    Python's string functions.  \<open>Db_Model\<close>: the tables (\<open>db/models.py\<close>,
    \<open>db/policy_models.py\<close>, \<open>db/plugin_models.py\<close>) and the functions of other packages
    (record \<open>env\<close>).  \<open>Lifecycle\<close>: the locale of rows that move along a table of transitions,
    interpreted for outbox messages in \<open>Outbox\<close> and for runs in \<open>Agent_Invariants\<close>.
  \<^item> \<open>Policy\<close> (\<open>policy/service.py\<close>): principals, rules, and \<open>evaluate\<close>, with the
    specification \<open>acl_grants\<close> of the rules in force that it refines.
  \<^item> \<open>Outbox\<close> (\<open>outbox/state.py\<close>, \<open>outbox/service.py\<close>): enqueueing with an idempotency key,
    cancellation and reconciliation.  \<open>Gewe_Client\<close> (\<open>gewe/client.py\<close>): outcomes of a call.
    \<open>Sender\<close> (\<open>outbox/sender.py\<close>): claiming, the authorisation check, rate limits, the outcome of
    a send, and runs of any number of workers with the services.
  \<^item> \<open>Webhook\<close> (\<open>webhooks/normalizer.py\<close>, \<open>services/webhooks.py\<close>): the two payload formats and
    ingestion.  \<open>Dispatcher\<close> and \<open>Delivery\<close> (\<open>events/dispatcher.py\<close>, \<open>events/outbox_sink.py\<close>):
    a dispatch and what it guarantees.  \<open>Event_Worker\<close> (\<open>events/worker.py\<close>): leases and retries.
  \<^item> \<open>Manifest\<close>, \<open>Plugin_Package\<close> (\<open>plugins/manifest.py\<close>): manifests, and the digest of a package.
    \<open>Plugin_Scope\<close>, \<open>Plugin_Config\<close>, \<open>Catalog\<close> (\<open>plugins/catalog.py\<close>): scopes and conflicting
    commands, secrets in drafts, deployments, revisions, activation and restoration.
    \<open>Supervisor\<close>, \<open>Plugin_Process\<close> (\<open>plugins/supervisor.py\<close>, \<open>plugins/runner.py\<close>): epochs,
    draining, and the line protocol with a plugin process.
  \<^item> \<open>Task_Agent\<close> (\<open>task_agent/service.py\<close>, \<open>db/agent_models.py\<close>), with \<open>Agent_Invariants\<close> and
    \<open>Agent_Properties\<close>.
  \<^item> \<open>Auth\<close> (\<open>auth/service.py\<close>, \<open>auth/tokens.py\<close>, \<open>auth/passwords.py\<close>, \<open>db/auth_models.py\<close>),
    \<open>Auth_Admin\<close> (\<open>auth/admin_service.py\<close>), \<open>Auth_Api\<close> (\<open>auth/dependencies.py\<close>,
    \<open>api/auth.py\<close>, \<open>api/admin_rbac.py\<close>); \<open>Auth_Invariants\<close>, \<open>Auth_Properties\<close> and
    \<open>Auth_Throttle\<close> hold the invariants, the session and privilege properties and the bound on
    failed logins.
  \<^item> \<open>Directory\<close> (\<open>directory/service.py\<close>, \<open>gewe/service.py\<close>) with \<open>Directory_Memberships\<close> and
    \<open>Directory_Sync\<close>; \<open>Accounts\<close> (\<open>accounts/service.py\<close>); \<open>Connections\<close>
    (\<open>connections/service.py\<close>, \<open>core/crypto.py\<close>).  \<open>Observability\<close>
    (\<open>observability/service.py\<close>): messages and traces.
  \<^item> \<open>Management_Api\<close>, \<open>Agent_Api\<close>, \<open>Webhook_Api\<close> (the other modules of \<open>api/\<close>): every route with
    its permissions, the validation of its input, its service and the answer to each exception.
    \<open>Api_Properties\<close> collects them in one relation and proves who is answered.

  \<^bold>\<open>Conventions.\<close>  A definition keeps the name of the function it models.  Tables are lists of
  records in the order of insertion; a method that reads and writes the session of the ORM takes
  the database and returns an error or a result with the database after its commit.  Exceptions
  are the left side of a sum, one constructor per class; a transaction that raises leaves the
  database alone unless the code commits first.  Time is an integer number of microseconds,
  floating-point numbers are rationals, UUIDs are 128-bit words, strings are lists of code points
  below 256, and a JSON document is a datatype.  Loops are structural recursions or have a measure;
  no definition needs fuel.

  \<^bold>\<open>Concurrency.\<close>  A transaction is atomic.  What others commit in the middle of an operation is a
  parameter: rows inserted between a read and an insert (\<open>raced\<close>), rows locked by another session
  (\<open>locked\<close>), the state another transaction leaves (\<open>committed\<close>, \<open>between\<close>).  Invariants are
  proved by rule induction over relations whose steps are the transactions of the services and
  workers in any order; the steps of the supervisor are the sections of its coroutines between two
  suspension points.  The operations of the task agent are serialised by the lock on the workspace.

  \<^bold>\<open>Parameters and hypotheses.\<close>  The key generator, SHA-256, Fernet, Argon2, random tokens, NFKC,
  regular expressions and schema validators of plugins, the JSON and TOML parsers, the file tree,
  plugins, the provider, and readings of the clock (\<open>clock n\<close> is the \<open>n\<close>-th) are functions the
  definitions take.  Where a theorem needs it, the keys drawn in a run are distinct (or the primary
  keys of the tables are), the hashes of the tokens at hand differ, decryption undoes encryption,
  and a UUID is read back from its printed form.  Each witness discharges these for the sample
  environments.  Column widths are not enforced, rows with equal sort keys keep their order, and a
  flush writes the columns that changed.

  \<^bold>\<open>The properties\<close> are numbered in the theories by importance.  They state who may be answered and
  by whom (evaluation refines its specification, every reply and every send is authorised,
  departed members and disabled accounts have no effect), that nothing is taken in, delivered,
  enqueued or answered twice, that unknown outcomes are not sent again, that the invariants of
  outbox, delivery, memberships, owners, sessions, runs and questions hold in every run, that
  configurations, callback addresses and stored documents survive their round trips, how requests
  and logins are admitted, and that dispatching, serving an event and shutting down come to an end.
  Several lemmas record where the code falls short of its intention; each is named in its theory.

  \<^bold>\<open>Not modelled.\<close>  Application start-up and shutdown, logging, the settings other than those of
  authentication, the key file of local development, the tasks that poll and stop the workers,
  the built-in plugins (samples; plugins are parameters), the lock behind the authorisation fence
  (transactions are atomic), database migrations and the user interface.
\<close>

end
